(* ===== verification/Cooja_Prelude.thy ===== *)
theory Cooja_Prelude
  imports
    Complex_Main
    "HOL-Library.Word"
    "HOL-Library.Multiset"
    "HOL-Library.Product_Lexorder"
begin

text \<open>
  Shared vocabulary of the development: the machine types of the C sources, C's truncating
  division, the collections of simplification rules the component theories extend, and the
  generic lemmas on lists, sorting and words that several components use.

  Conventions. \<open>uint8_t\<close> to \<open>uint64_t\<close> are words of that width, so that their
  arithmetic wraps as in C. \<open>int\<close>, \<open>int8_t\<close> and \<open>int64_t\<close> are mathematical integers:
  signed overflow is undefined in C, and every theorem that depends on a bound states it.
  A fixed-size C array indexed by a node number is a total function from \<open>int\<close>; each
  operation keeps the bounds checks of the source, and an access the source leaves unchecked
  is only meaningful inside the array's bounds.
\<close>

unbundle bit_operations_syntax

type_synonym u8 = "8 word"
type_synonym u16 = "16 word"
type_synonym u32 = "32 word"
type_synonym u64 = "64 word"

abbreviation INT64_MAX :: int where "INT64_MAX \<equiv> 9223372036854775807"

definition cdiv :: "int \<Rightarrow> int \<Rightarrow> int" where
  "cdiv a b = sgn a * sgn b * (\<bar>a\<bar> div \<bar>b\<bar>)"

definition crem :: "int \<Rightarrow> int \<Rightarrow> int" where
  "crem a b = a - cdiv a b * b"

named_theorems eq_simps "unfolding rules of the simulation event queue"
named_theorems medium_simps "unfolding rules of the radio medium"
named_theorems bus_simps "unfolding rules of the radio bus"
named_theorems rv_simps "unfolding rules of the RISC-V core"

subsection \<open>Truncating division\<close>

lemma cdiv_nonneg [simp]: "0 \<le> a \<Longrightarrow> 0 < b \<Longrightarrow> cdiv a b = a div b"
  by (cases "a = 0") (auto simp: cdiv_def)

lemma crem_nonneg [simp]: "0 \<le> a \<Longrightarrow> 0 < b \<Longrightarrow> crem a b = a mod b"
  by (simp add: crem_def minus_div_mult_eq_mod)

subsection \<open>Lists\<close>

lemma nth_update_cases:
  "j < length xs \<Longrightarrow> xs[i := x] ! j = (if i = j then x else xs ! j)"
  by (simp add: nth_list_update)

lemma mset_hole_swap:
  assumes "i < length xs" "p < length xs" "i \<noteq> p"
  shows "mset ((xs[i := xs ! p])[p := x]) = mset (xs[i := x])"
proof -
  let ?v = "xs[i := x]"
  have "(?v[i := ?v ! p])[p := ?v ! i] = (xs[i := xs ! p])[p := x]"
    using assms by simp
  moreover have "mset ((?v[i := ?v ! p])[p := ?v ! i]) = mset ?v"
    using assms mset_swap [of p ?v i] by simp
  ultimately show ?thesis by simp
qed

lemma mset_last_to_front:
  assumes "xs \<noteq> []"
  shows "mset ((butlast xs)[0 := last xs]) = mset (tl xs)"
proof (cases "butlast xs")
  case Nil
  with assms show ?thesis
    by (cases xs) (auto split: if_splits)
next
  case (Cons y ys)
  with assms have "xs = y # ys @ [last xs]"
    by (metis append_Cons append_butlast_last_id)
  then obtain z where z: "xs = y # ys @ [z]" by blast
  then show ?thesis by (simp add: butlast_append)
qed

lemma filter_Cons_mem: "filter P xs = y # ys \<Longrightarrow> y \<in> set xs \<and> P y"
  by (metis (mono_tags, lifting) list.set_intros(1) mem_Collect_eq set_filter)

subsection \<open>Sorting by a unique key\<close>

lemma sort_key_mset_eq:
  fixes f :: "'a \<Rightarrow> 'b :: linorder"
  assumes "mset xs = mset ys" and "inj_on f (set xs)"
  shows "sort_key f xs = sort_key f ys"
proof (rule properties_for_sort_key)
  show "mset (sort_key f ys) = mset xs" using assms(1) by simp
  show "filter (\<lambda>y. f k = f y) (sort_key f ys) = filter (\<lambda>y. f k = f y) xs"
    if "k \<in> set (sort_key f ys)" for k
  proof -
    let ?F = "filter (\<lambda>y. f k = f y)"
    have "mset (?F (sort_key f ys)) = mset (?F xs)"
      using assms(1) by simp
    then have len: "length (?F (sort_key f ys)) = length (?F xs)"
      by (rule mset_eq_length)
    have "set ys = set xs" using assms(1) by (metis mset_eq_setD)
    with that have "k \<in> set xs" by simp
    note \<open>set ys = set xs\<close>
    then have "\<forall>z \<in> set (?F (sort_key f ys)). z = k" "\<forall>z \<in> set (?F xs). z = k"
      using assms(2) \<open>k \<in> set xs\<close> by (auto dest: inj_onD)
    then have "?F (sort_key f ys) = replicate (length (?F (sort_key f ys))) k"
      and "?F xs = replicate (length (?F xs)) k"
      by (auto simp only: replicate_length_same)
    with len show ?thesis by metis
  qed
  show "sorted (map f (sort_key f ys))" by simp
qed

lemma sort_key_Cons_min:
  fixes f :: "'a \<Rightarrow> 'b :: linorder"
  assumes "\<forall>y \<in> set ys. f x \<le> f y"
  shows "sort_key f (x # ys) = x # sort_key f ys"
  using assms by (simp add: insort_is_Cons)

lemma filter_sort_key:
  "filter P (sort_key f xs) = sort_key f (filter P xs)"
  by (simp add: filter_sort)

end
