(* ===== verification/Riscv_Cpu.thy ===== *)
theory Riscv_Cpu
  imports Cooja_Prelude
begin

text \<open>
  The RV32EMC interpreter of the nRF54L15 coprocessor (\<open>src/riscv/riscv_cpu.c\<close>) and its
  launch/co-step/interrupt glue (\<open>src/riscv/nrf54l_vpr.c\<close>). The core borrows the host's
  memory and IO bus; \<open>bus_ops\<close> is that interface: every access takes the bus state and
  returns the new one, since a read of a peripheral register may have side effects. The
  file-scope expansion cache \<open>rvc_cache\<close> is a field of the state. \<open>uint32_t\<close> is a 32-bit
  word, a cast to \<open>int32_t\<close> is \<open>sint\<close>, and \<open>>>\<close> on a signed value is
  \<open>signed_drop_bit\<close>.
\<close>

subsection \<open>State\<close>

record 'b bus_ops =
  arm_read32 :: "u32 \<Rightarrow> 'b \<Rightarrow> u32 \<times> 'b"
  arm_read16 :: "u32 \<Rightarrow> 'b \<Rightarrow> u16 \<times> 'b"
  arm_read8 :: "u32 \<Rightarrow> 'b \<Rightarrow> u8 \<times> 'b"
  arm_write32 :: "u32 \<Rightarrow> u32 \<Rightarrow> 'b \<Rightarrow> 'b"
  arm_write16 :: "u32 \<Rightarrow> u16 \<Rightarrow> 'b \<Rightarrow> 'b"
  arm_write8 :: "u32 \<Rightarrow> u8 \<Rightarrow> 'b \<Rightarrow> 'b"

record 'b riscv_cpu =
  xreg :: "u32 \<Rightarrow> u32"
  pc :: u32
  mtvec :: u32
  mepc :: u32
  mcause :: u32
  mtval :: u32
  mstatus :: u32
  mscratch :: u32
  mie :: u32
  mip :: u32
  cycles :: int
  halted :: bool
  trap_pc :: u32
  bus :: 'b
  rvc_cache :: "u16 \<Rightarrow> u32"
  rvc_cache_ready :: bool

abbreviation (input) CAUSE_INSN_MISALIGNED :: u32 where "CAUSE_INSN_MISALIGNED \<equiv> 0"
abbreviation (input) CAUSE_ILLEGAL_INSN :: u32 where "CAUSE_ILLEGAL_INSN \<equiv> 2"
abbreviation (input) CAUSE_BREAKPOINT :: u32 where "CAUSE_BREAKPOINT \<equiv> 3"
abbreviation (input) CAUSE_ECALL_M :: u32 where "CAUSE_ECALL_M \<equiv> 11"

text \<open>\<open>riscv_cpu_init\<close> zeroes the core; the expansion cache is filled once per process.\<close>

definition riscv_cpu_init :: "'b riscv_cpu \<Rightarrow> 'b \<Rightarrow> u32 \<Rightarrow> 'b riscv_cpu" where
  "riscv_cpu_init rv b initpc =
     \<lparr>xreg = (\<lambda>_. 0), pc = initpc, mtvec = 0, mepc = 0, mcause = 0, mtval = 0, mstatus = 0,
      mscratch = 0, mie = 0, mip = 0, cycles = 0, halted = False, trap_pc = 0, bus = b,
      rvc_cache = (if rvc_cache_ready rv then rvc_cache rv else (\<lambda>_. 0xFFFFFFFF)),
      rvc_cache_ready = True\<rparr>"

definition ld32 :: "'b bus_ops \<Rightarrow> u32 \<Rightarrow> 'b riscv_cpu \<Rightarrow> u32 \<times> 'b riscv_cpu" where
  "ld32 ops a rv = (let (v, b) = arm_read32 ops a (bus rv) in (v, rv\<lparr>bus := b\<rparr>))"

definition ld16 :: "'b bus_ops \<Rightarrow> u32 \<Rightarrow> 'b riscv_cpu \<Rightarrow> u16 \<times> 'b riscv_cpu" where
  "ld16 ops a rv = (let (v, b) = arm_read16 ops a (bus rv) in (v, rv\<lparr>bus := b\<rparr>))"

definition ld8 :: "'b bus_ops \<Rightarrow> u32 \<Rightarrow> 'b riscv_cpu \<Rightarrow> u8 \<times> 'b riscv_cpu" where
  "ld8 ops a rv = (let (v, b) = arm_read8 ops a (bus rv) in (v, rv\<lparr>bus := b\<rparr>))"

definition st32 :: "'b bus_ops \<Rightarrow> u32 \<Rightarrow> u32 \<Rightarrow> 'b riscv_cpu \<Rightarrow> 'b riscv_cpu" where
  "st32 ops a v rv = rv\<lparr>bus := arm_write32 ops a v (bus rv)\<rparr>"

definition st16 :: "'b bus_ops \<Rightarrow> u32 \<Rightarrow> u16 \<Rightarrow> 'b riscv_cpu \<Rightarrow> 'b riscv_cpu" where
  "st16 ops a v rv = rv\<lparr>bus := arm_write16 ops a v (bus rv)\<rparr>"

definition st8 :: "'b bus_ops \<Rightarrow> u32 \<Rightarrow> u8 \<Rightarrow> 'b riscv_cpu \<Rightarrow> 'b riscv_cpu" where
  "st8 ops a v rv = rv\<lparr>bus := arm_write8 ops a v (bus rv)\<rparr>"

subsection \<open>CSRs and traps\<close>

definition csr_read :: "u32 \<Rightarrow> 'b riscv_cpu \<Rightarrow> u32" where
  "csr_read csr rv =
     (if csr = 0x300 then mstatus rv
      else if csr = 0x301 then 0x40000010
      else if csr = 0x304 then mie rv
      else if csr = 0x305 then mtvec rv
      else if csr = 0x340 then mscratch rv
      else if csr = 0x341 then mepc rv
      else if csr = 0x342 then mcause rv
      else if csr = 0x343 then mtval rv
      else if csr = 0x344 then mip rv
      else if csr = 0xF14 then 0
      else 0)"

definition csr_write :: "u32 \<Rightarrow> u32 \<Rightarrow> 'b riscv_cpu \<Rightarrow> 'b riscv_cpu" where
  "csr_write csr v rv =
     (if csr = 0x300 then rv\<lparr>mstatus := v\<rparr>
      else if csr = 0x304 then rv\<lparr>mie := v\<rparr>
      else if csr = 0x305 then rv\<lparr>mtvec := v\<rparr>
      else if csr = 0x340 then rv\<lparr>mscratch := v\<rparr>
      else if csr = 0x341 then rv\<lparr>mepc := v\<rparr>
      else if csr = 0x342 then rv\<lparr>mcause := v\<rparr>
      else if csr = 0x343 then rv\<lparr>mtval := v\<rparr>
      else if csr = 0x344 then rv\<lparr>mip := v\<rparr>
      else rv)"

definition trap_mstatus :: "u32 \<Rightarrow> u32" where
  "trap_mstatus st0 =
     (let m = drop_bit 3 st0 AND 1;
          st1 = (st0 AND NOT (push_bit 7 1)) OR push_bit 7 m;
          st2 = st1 AND NOT (push_bit 3 1)
      in st2 OR push_bit 11 3)"

definition take_trap :: "u32 \<Rightarrow> u32 \<Rightarrow> u32 \<Rightarrow> 'b riscv_cpu \<Rightarrow> 'b riscv_cpu" where
  "take_trap cause tval epc rv =
     rv\<lparr>mepc := epc, mcause := cause, mtval := tval, mstatus := trap_mstatus (mstatus rv),
        pc := mtvec rv AND NOT 3, trap_pc := epc\<rparr>"

subsection \<open>Compressed instructions\<close>

definition CB :: "u32 \<Rightarrow> nat \<Rightarrow> u32" where
  "CB w b = drop_bit b w AND 1"

definition CBITS :: "u32 \<Rightarrow> nat \<Rightarrow> nat \<Rightarrow> u32" where
  "CBITS w hi lo = drop_bit lo w AND (push_bit (hi - lo + 1) 1 - 1)"

definition rvc_sext :: "u32 \<Rightarrow> nat \<Rightarrow> u32" where
  "rvc_sext v bits = (let m = push_bit (bits - 1) 1 in (v XOR m) - m)"

definition enc_i :: "u32 \<Rightarrow> u32 \<Rightarrow> u32 \<Rightarrow> u32 \<Rightarrow> u32 \<Rightarrow> u32" where
  "enc_i op rd f3 rs1 imm =
     op OR push_bit 7 rd OR push_bit 12 f3 OR push_bit 15 rs1 OR push_bit 20 (imm AND 0xfff)"

definition enc_r :: "u32 \<Rightarrow> u32 \<Rightarrow> u32 \<Rightarrow> u32 \<Rightarrow> u32 \<Rightarrow> u32 \<Rightarrow> u32" where
  "enc_r op rd f3 rs1 rs2 f7 =
     op OR push_bit 7 rd OR push_bit 12 f3 OR push_bit 15 rs1 OR push_bit 20 rs2 OR push_bit 25 f7"

definition enc_s :: "u32 \<Rightarrow> u32 \<Rightarrow> u32 \<Rightarrow> u32 \<Rightarrow> u32 \<Rightarrow> u32" where
  "enc_s op f3 rs1 rs2 imm =
     op OR push_bit 7 (imm AND 0x1f) OR push_bit 12 f3 OR push_bit 15 rs1 OR push_bit 20 rs2
        OR push_bit 25 (drop_bit 5 imm AND 0x7f)"

definition enc_b :: "u32 \<Rightarrow> u32 \<Rightarrow> u32 \<Rightarrow> u32 \<Rightarrow> u32 \<Rightarrow> u32" where
  "enc_b op f3 rs1 rs2 imm =
     op OR push_bit 7 (drop_bit 11 imm AND 1) OR push_bit 8 (drop_bit 1 imm AND 0xf)
        OR push_bit 12 f3 OR push_bit 15 rs1 OR push_bit 20 rs2
        OR push_bit 25 (drop_bit 5 imm AND 0x3f) OR push_bit 31 (drop_bit 12 imm AND 1)"

definition enc_j :: "u32 \<Rightarrow> u32 \<Rightarrow> u32 \<Rightarrow> u32" where
  "enc_j op rd imm =
     op OR push_bit 7 rd OR push_bit 12 (drop_bit 12 imm AND 0xff)
        OR push_bit 20 (drop_bit 11 imm AND 1) OR push_bit 21 (drop_bit 1 imm AND 0x3ff)
        OR push_bit 31 (drop_bit 20 imm AND 1)"

text \<open>The three quadrants of \<open>rvc_expand\<close>, in the order of the source's switch.\<close>

definition rvc_quad0 :: "u32 \<Rightarrow> u32" where
  "rvc_quad0 c =
     (let f3 = CBITS c 15 13; rdp = 8 + CBITS c 9 7; rs2p = 8 + CBITS c 4 2 in
      if f3 = 0 then
        (let imm = push_bit 6 (CBITS c 10 7) OR push_bit 4 (CBITS c 12 11)
                   OR push_bit 3 (CB c 5) OR push_bit 2 (CB c 6)
         in if imm \<noteq> 0 then enc_i 0x13 (8 + CBITS c 4 2) 0 2 imm else 0)
      else if f3 = 2 then
        (let off = push_bit 6 (CB c 5) OR push_bit 3 (CBITS c 12 10) OR push_bit 2 (CB c 6)
         in enc_i 0x03 (8 + CBITS c 4 2) 2 rdp off)
      else if f3 = 6 then
        (let off = push_bit 6 (CB c 5) OR push_bit 3 (CBITS c 12 10) OR push_bit 2 (CB c 6)
         in enc_s 0x23 2 rdp rs2p off)
      else 0)"

definition rvc_immj :: "u32 \<Rightarrow> u32" where
  "rvc_immj c =
     push_bit 11 (CB c 12) OR push_bit 4 (CB c 11) OR push_bit 8 (CBITS c 10 9)
     OR push_bit 10 (CB c 8) OR push_bit 6 (CB c 7) OR push_bit 7 (CB c 6)
     OR push_bit 1 (CBITS c 5 3) OR push_bit 5 (CB c 2)"

definition rvc_immb :: "u32 \<Rightarrow> u32" where
  "rvc_immb c =
     push_bit 8 (CB c 12) OR push_bit 3 (CBITS c 11 10) OR push_bit 6 (CBITS c 6 5)
     OR push_bit 1 (CBITS c 4 3) OR push_bit 5 (CB c 2)"

definition rvc_quad1 :: "u32 \<Rightarrow> u32" where
  "rvc_quad1 c =
     (let f3 = CBITS c 15 13; rdp = 8 + CBITS c 9 7; rs2p = 8 + CBITS c 4 2;
          rd = CBITS c 11 7; sh = push_bit 5 (CB c 12) OR CBITS c 6 2 in
      if f3 = 0 then enc_i 0x13 rd 0 rd (rvc_sext sh 6)
      else if f3 = 1 then enc_j 0x6f 1 (rvc_sext (rvc_immj c) 12)
      else if f3 = 2 then enc_i 0x13 rd 0 0 (rvc_sext sh 6)
      else if f3 = 3 then
        (if rd = 2 then
           (let imm = push_bit 9 (CB c 12) OR push_bit 7 (CBITS c 4 3) OR push_bit 6 (CB c 5)
                      OR push_bit 5 (CB c 2) OR push_bit 4 (CB c 6)
            in if imm \<noteq> 0 then enc_i 0x13 2 0 2 (rvc_sext imm 10) else 0)
         else
           (let nz = push_bit 5 (CB c 12) OR CBITS c 6 2
            in if nz \<noteq> 0 then 0x37 OR push_bit 7 rd OR (push_bit 12 (rvc_sext nz 6) AND 0xfffff000)
               else 0))
      else if f3 = 4 then
        (let f2 = CBITS c 11 10 in
         if f2 = 0 then enc_i 0x13 rdp 5 rdp (sh AND 0x1f)
         else if f2 = 1 then enc_i 0x13 rdp 5 rdp (0x400 OR (sh AND 0x1f))
         else if f2 = 2 then enc_i 0x13 rdp 7 rdp (rvc_sext sh 6)
         else if CB c 12 \<noteq> 0 then 0
         else
           (let k = CBITS c 6 5 in
            if k = 0 then enc_r 0x33 rdp 0 rdp rs2p 0x20
            else if k = 1 then enc_r 0x33 rdp 4 rdp rs2p 0
            else if k = 2 then enc_r 0x33 rdp 6 rdp rs2p 0
            else enc_r 0x33 rdp 7 rdp rs2p 0))
      else if f3 = 5 then enc_j 0x6f 0 (rvc_sext (rvc_immj c) 12)
      else if f3 = 6 then enc_b 0x63 0 rdp 0 (rvc_sext (rvc_immb c) 9)
      else enc_b 0x63 1 rdp 0 (rvc_sext (rvc_immb c) 9))"

definition rvc_quad2 :: "u32 \<Rightarrow> u32" where
  "rvc_quad2 c =
     (let f3 = CBITS c 15 13; rd = CBITS c 11 7; rs2 = CBITS c 6 2;
          sh = push_bit 5 (CB c 12) OR CBITS c 6 2 in
      if f3 = 0 then enc_i 0x13 rd 1 rd (sh AND 0x1f)
      else if f3 = 2 then
        (let off = push_bit 6 (CBITS c 3 2) OR push_bit 5 (CB c 12) OR push_bit 2 (CBITS c 6 4)
         in enc_i 0x03 rd 2 2 off)
      else if f3 = 4 then
        (if CB c 12 = 0 then (if rs2 \<noteq> 0 then enc_r 0x33 rd 0 0 rs2 0 else enc_i 0x67 0 0 rd 0)
         else if rd = 0 \<and> rs2 = 0 then enc_i 0x73 0 0 0 1
         else (if rs2 \<noteq> 0 then enc_r 0x33 rd 0 rd rs2 0 else enc_i 0x67 1 0 rd 0))
      else if f3 = 6 then
        (let off = push_bit 6 (CBITS c 8 7) OR push_bit 2 (CBITS c 12 9)
         in enc_s 0x23 2 2 rs2 off)
      else 0)"

definition rvc_expand :: "u16 \<Rightarrow> u32" where
  "rvc_expand ci =
     (let c = ucast ci; q = c AND 3 in
      if q = 0 then rvc_quad0 c
      else if q = 1 then rvc_quad1 c
      else if q = 2 then rvc_quad2 c
      else 0)"

definition rvc_lookup :: "u16 \<Rightarrow> 'b riscv_cpu \<Rightarrow> u32 \<times> 'b riscv_cpu" where
  "rvc_lookup c rv =
     (let v = rvc_cache rv c in
      if v = 0xFFFFFFFF
      then (let w = rvc_expand c in (w, rv\<lparr>rvc_cache := (rvc_cache rv)(c := w)\<rparr>))
      else (v, rv))"

subsection \<open>Interrupts\<close>

text \<open>The cause chosen for a set of enabled pending bits, in the priority order of the source.\<close>

definition irq_cause :: "u32 \<Rightarrow> u32" where
  "irq_cause irq = (if irq AND push_bit 11 1 \<noteq> 0 then 11 else if irq AND push_bit 3 1 \<noteq> 0 then 3 else 7)"

definition riscv_take_pending_irq :: "'b riscv_cpu \<Rightarrow> bool \<times> 'b riscv_cpu" where
  "riscv_take_pending_irq rv =
     (let irq = mip rv AND mie rv in
      if irq = 0 \<or> mstatus rv AND push_bit 3 1 = 0 then (False, rv)
      else
        (let cause = irq_cause irq in
         (True, rv\<lparr>mip := mip rv AND NOT (push_bit (unat cause) 1), halted := False,
                   mepc := pc rv, mcause := 0x80000000 OR cause, mtval := 0,
                   mstatus := trap_mstatus (mstatus rv), pc := mtvec rv AND NOT 3,
                   trap_pc := pc rv\<rparr>)))"

subsection \<open>Instruction fields\<close>

definition fld_rd :: "u32 \<Rightarrow> u32" where "fld_rd insn = drop_bit 7 insn AND 0x1f"
definition fld_rs1 :: "u32 \<Rightarrow> u32" where "fld_rs1 insn = drop_bit 15 insn AND 0x1f"
definition fld_rs2 :: "u32 \<Rightarrow> u32" where "fld_rs2 insn = drop_bit 20 insn AND 0x1f"
definition fld_funct3 :: "u32 \<Rightarrow> u32" where "fld_funct3 insn = drop_bit 12 insn AND 7"
definition fld_funct7 :: "u32 \<Rightarrow> u32" where "fld_funct7 insn = drop_bit 25 insn AND 0x7f"

text \<open>The immediates of the I, S, B and J formats, sign-extended by the source's shifts.\<close>

definition imm_i :: "u32 \<Rightarrow> u32" where
  "imm_i insn = signed_drop_bit 20 insn"

definition imm_s :: "u32 \<Rightarrow> u32" where
  "imm_s insn = push_bit 5 (signed_drop_bit 25 insn) OR (drop_bit 7 insn AND 0x1f)"

definition imm_b :: "u32 \<Rightarrow> u32" where
  "imm_b insn =
     (let imm = push_bit 12 (drop_bit 31 insn AND 1) OR push_bit 11 (drop_bit 7 insn AND 1)
                OR push_bit 5 (drop_bit 25 insn AND 0x3f) OR push_bit 1 (drop_bit 8 insn AND 0xf)
      in signed_drop_bit 19 (push_bit 19 imm))"

definition imm_j :: "u32 \<Rightarrow> u32" where
  "imm_j insn =
     (let imm = push_bit 20 (drop_bit 31 insn AND 1) OR push_bit 12 (drop_bit 12 insn AND 0xff)
                OR push_bit 11 (drop_bit 20 insn AND 1) OR push_bit 1 (drop_bit 21 insn AND 0x3ff)
      in signed_drop_bit 11 (push_bit 11 imm))"

subsection \<open>Execution\<close>

text \<open>
  The macro \<open>SET\<close> of the source discards writes to \<open>x0\<close>; \<open>retire\<close> is the assignment
  \<open>rv->pc = next\<close> at the end of the switch, which a trap (\<open>goto cont\<close>) skips.
\<close>

definition SET :: "u32 \<Rightarrow> u32 \<Rightarrow> 'b riscv_cpu \<Rightarrow> 'b riscv_cpu" where
  "SET d v rv = (if d \<noteq> 0 then rv\<lparr>xreg := (xreg rv)(d := v)\<rparr> else rv)"

definition retire :: "u32 \<Rightarrow> 'b riscv_cpu \<Rightarrow> 'b riscv_cpu" where
  "retire nxt rv = rv\<lparr>pc := nxt\<rparr>"

definition illegal :: "u32 \<Rightarrow> u32 \<Rightarrow> 'b riscv_cpu \<Rightarrow> 'b riscv_cpu" where
  "illegal insn pc0 rv = take_trap CAUSE_ILLEGAL_INSN insn pc0 rv"

definition exec_jal :: "u32 \<Rightarrow> u32 \<Rightarrow> u32 \<Rightarrow> 'b riscv_cpu \<Rightarrow> 'b riscv_cpu" where
  "exec_jal insn pc0 nxt rv = retire (pc0 + imm_j insn) (SET (fld_rd insn) nxt rv)"

definition exec_jalr :: "u32 \<Rightarrow> u32 \<Rightarrow> 'b riscv_cpu \<Rightarrow> 'b riscv_cpu" where
  "exec_jalr insn nxt rv =
     (let t = (xreg rv (fld_rs1 insn) + imm_i insn) AND NOT 1
      in retire t (SET (fld_rd insn) nxt rv))"

definition branch_taken :: "u32 \<Rightarrow> u32 \<Rightarrow> u32 \<Rightarrow> bool option" where
  "branch_taken funct3 a b =
     (if funct3 = 0 then Some (a = b)
      else if funct3 = 1 then Some (a \<noteq> b)
      else if funct3 = 4 then Some (sint a < sint b)
      else if funct3 = 5 then Some (sint a \<ge> sint b)
      else if funct3 = 6 then Some (a < b)
      else if funct3 = 7 then Some (a \<ge> b)
      else None)"

definition exec_branch :: "u32 \<Rightarrow> u32 \<Rightarrow> u32 \<Rightarrow> 'b riscv_cpu \<Rightarrow> 'b riscv_cpu" where
  "exec_branch insn pc0 nxt rv =
     (case branch_taken (fld_funct3 insn) (xreg rv (fld_rs1 insn)) (xreg rv (fld_rs2 insn)) of
        None \<Rightarrow> illegal insn pc0 rv
      | Some tk \<Rightarrow> retire (if tk then pc0 + imm_b insn else nxt) rv)"

definition exec_load :: "'b bus_ops \<Rightarrow> u32 \<Rightarrow> u32 \<Rightarrow> u32 \<Rightarrow> 'b riscv_cpu \<Rightarrow> 'b riscv_cpu" where
  "exec_load ops insn pc0 nxt rv =
     (let a = xreg rv (fld_rs1 insn) + imm_i insn; f3 = fld_funct3 insn; rd = fld_rd insn in
      if f3 = 0 then (let (v, rv1) = ld8 ops a rv in retire nxt (SET rd (scast v) rv1))
      else if f3 = 1 then (let (v, rv1) = ld16 ops a rv in retire nxt (SET rd (scast v) rv1))
      else if f3 = 2 then (let (v, rv1) = ld32 ops a rv in retire nxt (SET rd v rv1))
      else if f3 = 4 then (let (v, rv1) = ld8 ops a rv in retire nxt (SET rd (ucast v) rv1))
      else if f3 = 5 then (let (v, rv1) = ld16 ops a rv in retire nxt (SET rd (ucast v) rv1))
      else illegal insn pc0 rv)"

definition exec_store :: "'b bus_ops \<Rightarrow> u32 \<Rightarrow> u32 \<Rightarrow> u32 \<Rightarrow> 'b riscv_cpu \<Rightarrow> 'b riscv_cpu" where
  "exec_store ops insn pc0 nxt rv =
     (let a = xreg rv (fld_rs1 insn) + imm_s insn; f3 = fld_funct3 insn;
          v = xreg rv (fld_rs2 insn) in
      if f3 = 0 then retire nxt (st8 ops a (ucast v) rv)
      else if f3 = 1 then retire nxt (st16 ops a (ucast v) rv)
      else if f3 = 2 then retire nxt (st32 ops a v rv)
      else illegal insn pc0 rv)"

definition alu_imm :: "u32 \<Rightarrow> u32 \<Rightarrow> u32 \<Rightarrow> u32 \<Rightarrow> u32" where
  "alu_imm funct3 funct7 a imm =
     (if funct3 = 0 then a + imm
      else if funct3 = 2 then of_bool (sint a < sint imm)
      else if funct3 = 3 then of_bool (a < imm)
      else if funct3 = 4 then a XOR imm
      else if funct3 = 6 then a OR imm
      else if funct3 = 7 then a AND imm
      else if funct3 = 1 then push_bit (unat (imm AND 31)) a
      else if funct7 AND 0x20 \<noteq> 0 then signed_drop_bit (unat (imm AND 31)) a
      else drop_bit (unat (imm AND 31)) a)"

text \<open>
  RV32M. \<open>MUL\<close> is the low word of the product; the products of the \<open>MULH\<close> variants fit
  the 64-bit type the source computes them in; \<open>cdiv\<close> and \<open>crem\<close> are C's truncating
  division on the signed values.
\<close>

definition alu_mul_div :: "u32 \<Rightarrow> u32 \<Rightarrow> u32 \<Rightarrow> u32" where
  "alu_mul_div funct3 a b =
     (if funct3 = 0 then a * b
      else if funct3 = 1 then word_of_int (drop_bit 32 (sint a * sint b))
      else if funct3 = 2 then word_of_int (drop_bit 32 (sint a * uint b))
      else if funct3 = 3 then word_of_int (drop_bit 32 (uint a * uint b))
      else if funct3 = 4 then
        (let x = sint a; y = sint b in
         if y = 0 then 0xffffffff
         else if x = - 0x80000000 \<and> y = - 1 then a
         else word_of_int (cdiv x y))
      else if funct3 = 5 then (if b = 0 then 0xffffffff else a div b)
      else if funct3 = 6 then
        (let x = sint a; y = sint b in
         if y = 0 then a
         else if x = - 0x80000000 \<and> y = - 1 then 0
         else word_of_int (crem x y))
      else (if b = 0 then a else a mod b))"

definition alu_reg :: "u32 \<Rightarrow> u32 \<Rightarrow> u32 \<Rightarrow> u32 \<Rightarrow> u32" where
  "alu_reg funct3 funct7 a b =
     (if funct7 = 1 then alu_mul_div funct3 a b
      else if funct3 = 0 then (if funct7 AND 0x20 \<noteq> 0 then a - b else a + b)
      else if funct3 = 1 then push_bit (unat (b AND 31)) a
      else if funct3 = 2 then of_bool (sint a < sint b)
      else if funct3 = 3 then of_bool (a < b)
      else if funct3 = 4 then a XOR b
      else if funct3 = 5 then
        (if funct7 AND 0x20 \<noteq> 0 then signed_drop_bit (unat (b AND 31)) a
         else drop_bit (unat (b AND 31)) a)
      else if funct3 = 6 then a OR b
      else a AND b)"

definition mret_mstatus :: "u32 \<Rightarrow> u32" where
  "mret_mstatus st0 =
     (let mpie = drop_bit 7 st0 AND 1;
          st1 = (st0 AND NOT (push_bit 3 1)) OR push_bit 3 mpie
      in st1 OR push_bit 7 1)"

definition exec_csr :: "u32 \<Rightarrow> u32 \<Rightarrow> 'b riscv_cpu \<Rightarrow> 'b riscv_cpu" where
  "exec_csr insn nxt rv =
     (let f3 = fld_funct3 insn; rs1 = fld_rs1 insn; csr = drop_bit 20 insn;
          old = csr_read csr rv;
          src = (if f3 AND 4 \<noteq> 0 then rs1 else xreg rv rs1);
          op = f3 AND 3;
          neu = (if op = 1 then src else if op = 2 then old OR src
                 else if op = 3 then old AND NOT src else old);
          rv1 = (if op = 1 \<or> rs1 \<noteq> 0 then csr_write csr neu rv else rv)
      in retire nxt (SET (fld_rd insn) old rv1))"

definition exec_system :: "u32 \<Rightarrow> u32 \<Rightarrow> u32 \<Rightarrow> 'b riscv_cpu \<Rightarrow> 'b riscv_cpu" where
  "exec_system insn pc0 nxt rv =
     (if fld_funct3 insn = 0 then
        (let imm12 = drop_bit 20 insn in
         if imm12 = 0 then take_trap CAUSE_ECALL_M 0 pc0 rv
         else if imm12 = 1 then take_trap CAUSE_BREAKPOINT 0 pc0 rv
         else if imm12 = 0x302 then
           retire (mepc rv) (rv\<lparr>mstatus := mret_mstatus (mstatus rv)\<rparr>)
         else if imm12 = 0x105 then retire nxt (rv\<lparr>halted := True\<rparr>)
         else retire nxt rv)
      else exec_csr insn nxt rv)"

text \<open>The \<open>switch (opcode)\<close> of \<open>riscv_step\<close>.\<close>

definition exec_insn :: "'b bus_ops \<Rightarrow> u32 \<Rightarrow> u32 \<Rightarrow> u32 \<Rightarrow> 'b riscv_cpu \<Rightarrow> 'b riscv_cpu" where
  "exec_insn ops insn pc0 nxt rv =
     (let opcode = insn AND 0x7f; rd = fld_rd insn; a = xreg rv (fld_rs1 insn);
          b = xreg rv (fld_rs2 insn); f3 = fld_funct3 insn; f7 = fld_funct7 insn in
      if opcode = 0x37 then retire nxt (SET rd (insn AND 0xfffff000) rv)
      else if opcode = 0x17 then retire nxt (SET rd (pc0 + (insn AND 0xfffff000)) rv)
      else if opcode = 0x6f then exec_jal insn pc0 nxt rv
      else if opcode = 0x67 then exec_jalr insn nxt rv
      else if opcode = 0x63 then exec_branch insn pc0 nxt rv
      else if opcode = 0x03 then exec_load ops insn pc0 nxt rv
      else if opcode = 0x23 then exec_store ops insn pc0 nxt rv
      else if opcode = 0x13 then retire nxt (SET rd (alu_imm f3 f7 a (imm_i insn)) rv)
      else if opcode = 0x33 then retire nxt (SET rd (alu_reg f3 f7 a b) rv)
      else if opcode = 0x0f then retire nxt rv
      else if opcode = 0x73 then exec_system insn pc0 nxt rv
      else illegal insn pc0 rv)"

text \<open>
  The fetch: a word-aligned \<open>pc\<close> reads 32 bits at once, a halfword-aligned one reads the two
  halves of a 32-bit instruction separately. The result is the instruction (0 for an illegal
  compressed one), the address after it and the raw bits reported in \<open>mtval\<close>.
\<close>

definition fetch :: "'b bus_ops \<Rightarrow> 'b riscv_cpu \<Rightarrow> (u32 \<times> u32 \<times> u32) \<times> 'b riscv_cpu" where
  "fetch ops rv =
     (let pc0 = pc rv;
          (lo, rv1) = (if pc0 AND 2 \<noteq> 0
                       then (let (h, r) = ld16 ops pc0 rv in (ucast h, r)) else ld32 ops pc0 rv)
      in if lo AND 3 = 3 then
           (if pc0 AND 2 \<noteq> 0
            then (let (h, rv2) = ld16 ops (pc0 + 2) rv1;
                      insn = lo OR push_bit 16 (ucast h)
                  in ((insn, pc0 + 4, insn), rv2))
            else ((lo, pc0 + 4, lo), rv1))
         else
           (let comp = lo AND 0xffff; (insn, rv2) = rvc_lookup (ucast comp) rv1
            in ((insn, pc0 + 2, comp), rv2)))"

text \<open>The body of the loop of \<open>riscv_step\<close>; the flag says that the loop is left by \<open>break\<close>.\<close>

definition fetch_exec :: "'b bus_ops \<Rightarrow> 'b riscv_cpu \<Rightarrow> 'b riscv_cpu" where
  "fetch_exec ops rv =
     (let pc0 = pc rv in
      if pc0 AND 1 \<noteq> 0 then take_trap CAUSE_INSN_MISALIGNED pc0 pc0 rv
      else
        (let ((insn, nxt, raw), rv1) = fetch ops rv in
         if raw AND 3 \<noteq> 3 \<and> insn = 0 then take_trap CAUSE_ILLEGAL_INSN raw pc0 rv1
         else exec_insn ops insn pc0 nxt (rv1\<lparr>cycles := cycles rv1 + 1\<rparr>)))"

definition riscv_iter :: "'b bus_ops \<Rightarrow> 'b riscv_cpu \<Rightarrow> bool \<times> 'b riscv_cpu" where
  "riscv_iter ops rv =
     (let pend = mip rv AND mie rv \<noteq> 0;
          (taken, rv1) = (if pend then riscv_take_pending_irq (rv\<lparr>halted := False\<rparr>) else (False, rv))
      in if taken then (False, rv1)
         else if halted rv1 then (True, rv1)
         else (False, fetch_exec ops rv1))"

fun riscv_loop :: "'b bus_ops \<Rightarrow> nat \<Rightarrow> int \<Rightarrow> 'b riscv_cpu \<Rightarrow> int \<times> 'b riscv_cpu" where
  "riscv_loop ops 0 i rv = (i, rv)"
| "riscv_loop ops (Suc k) i rv =
     (let (brk, rv1) = riscv_iter ops rv in
      if brk then (i, rv1) else riscv_loop ops k (i + 1) rv1)"

definition riscv_step :: "'b bus_ops \<Rightarrow> int \<Rightarrow> 'b riscv_cpu \<Rightarrow> int \<times> 'b riscv_cpu" where
  "riscv_step ops n rv = riscv_loop ops (nat n) 0 rv"

text \<open>\<open>riscv_step_until\<close> has no bound on its iterations: \<open>None\<close> is a call that never returns.\<close>

partial_function (option) riscv_step_until ::
  "'b bus_ops \<Rightarrow> int \<Rightarrow> 'b riscv_cpu \<Rightarrow> 'b riscv_cpu option" where
  "riscv_step_until ops target_cycle rv =
     (if cycles rv < target_cycle \<and> \<not> halted rv
      then (let (n, rv1) = riscv_step ops 1024 rv in
            if n = 0 then Some rv1 else riscv_step_until ops target_cycle rv1)
      else Some rv)"

subsection \<open>The FLPR bridge\<close>

text \<open>
  \<open>vpr->flpr\<close> and \<open>plat->cpu.coproc\<close> are the same object, so the core is one field; the two
  hook pointers are set together. \<open>calloc\<close> may fail (\<open>None\<close>); the object it returns
  carries the process-wide expansion cache of \<open>riscv_cpu.c\<close>.
\<close>

record 'b nrf54l_vpr_state =
  initpc :: u32
  launched :: bool
  flpr :: "'b riscv_cpu option"
  coproc_wired :: bool

definition flpr_costep :: "'b bus_ops \<Rightarrow> 'b riscv_cpu option \<Rightarrow> int \<Rightarrow> 'b riscv_cpu option option" where
  "flpr_costep ops coproc delta_cycles =
     (case coproc of
        None \<Rightarrow> Some None
      | Some rv \<Rightarrow>
          if delta_cycles \<le> 0 then Some (Some rv)
          else map_option Some (riscv_step_until ops (cycles rv + delta_cycles) rv))"

definition flpr_raise_irq :: "'b riscv_cpu option \<Rightarrow> u32 \<Rightarrow> 'b riscv_cpu option" where
  "flpr_raise_irq coproc mip_bit =
     map_option (\<lambda>rv. rv\<lparr>mip := mip rv OR mip_bit, halted := False\<rparr>) coproc"

definition nrf54l_vpr_launch ::
  "'b riscv_cpu option \<Rightarrow> 'b \<Rightarrow> 'b nrf54l_vpr_state \<Rightarrow> 'b nrf54l_vpr_state" where
  "nrf54l_vpr_launch calloc_result b vpr =
     (if launched vpr then vpr
      else case calloc_result of
        None \<Rightarrow> vpr
      | Some rv \<Rightarrow>
          vpr\<lparr>flpr := Some (riscv_cpu_init rv b (initpc vpr)), launched := True,
              coproc_wired := True\<rparr>)"

end
