(* ===== verification/Riscv_Encoding.thy ===== *)
theory Riscv_Encoding
  imports Riscv_Cpu
begin

text \<open>
  Encoding and decoding of RISC-V instructions: every encoder used by the decompressor
  (\<open>enc_i\<close> to \<open>enc_j\<close>) is inverted by the field and immediate extraction of the
  interpreter, and every compressed instruction expands to an instruction the interpreter
  executes or to 0.
\<close>

subsection \<open>Bit-level helpers\<close>

lemma bit_low_masks [simp]:
  "bit (0x1f::int) n \<longleftrightarrow> n < 5"
  "bit (0x7f::int) n \<longleftrightarrow> n < 7"
  "bit (0xfff::int) n \<longleftrightarrow> n < 12"
  "bit (0x3f::int) n \<longleftrightarrow> n < 6"
  "bit (0xf::int) n \<longleftrightarrow> n < 4"
  "bit (0xff::int) n \<longleftrightarrow> n < 8"
  "bit (0x3ff::int) n \<longleftrightarrow> n < 10"
  "bit (7::int) n \<longleftrightarrow> n < 3"
  "bit (3::int) n \<longleftrightarrow> n < 2"
  "bit (0xffff::int) n \<longleftrightarrow> n < 16"
  "bit (0x1ff::int) n \<longleftrightarrow> n < 9"
proof -
  have *: "bit (mask k :: int) n \<longleftrightarrow> n < k" for k
    by (simp add: bit_mask_iff possible_bit_def)
  show "bit (0x1f::int) n \<longleftrightarrow> n < 5" using *[of 5] by (simp add: mask_eq_exp_minus_1)
  show "bit (0x7f::int) n \<longleftrightarrow> n < 7" using *[of 7] by (simp add: mask_eq_exp_minus_1)
  show "bit (0xfff::int) n \<longleftrightarrow> n < 12" using *[of 12] by (simp add: mask_eq_exp_minus_1)
  show "bit (0x3f::int) n \<longleftrightarrow> n < 6" using *[of 6] by (simp add: mask_eq_exp_minus_1)
  show "bit (0xf::int) n \<longleftrightarrow> n < 4" using *[of 4] by (simp add: mask_eq_exp_minus_1)
  show "bit (0xff::int) n \<longleftrightarrow> n < 8" using *[of 8] by (simp add: mask_eq_exp_minus_1)
  show "bit (0x3ff::int) n \<longleftrightarrow> n < 10" using *[of 10] by (simp add: mask_eq_exp_minus_1)
  show "bit (7::int) n \<longleftrightarrow> n < 3" using *[of 3] by (simp add: mask_eq_exp_minus_1)
  show "bit (3::int) n \<longleftrightarrow> n < 2" using *[of 2] by (simp add: mask_eq_exp_minus_1)
  show "bit (0xffff::int) n \<longleftrightarrow> n < 16" using *[of 16] by (simp add: mask_eq_exp_minus_1)
  show "bit (0x1ff::int) n \<longleftrightarrow> n < 9" using *[of 9] by (simp add: mask_eq_exp_minus_1)
qed

definition fits :: "nat \<Rightarrow> u32 \<Rightarrow> bool" where
  "fits k w \<longleftrightarrow> w = take_bit k w"

lemma fits_takeI [intro, simp]: "fits k (take_bit k w)"
  by (simp add: fits_def)

lemma fitsE: "fits k w \<Longrightarrow> (\<And>v. w = take_bit k v \<Longrightarrow> P) \<Longrightarrow> P"
  by (auto simp: fits_def)

subsection \<open>Fields and immediates survive encoding\<close>

lemmas enc_defs = enc_i_def enc_r_def enc_s_def enc_b_def enc_j_def
lemmas fld_defs = fld_rd_def fld_rs1_def fld_rs2_def fld_funct3_def fld_funct7_def


lemma bit_sext [simp]:
  "bit (signed_take_bit k (w::u32)) n \<longleftrightarrow> n < 32 \<and> bit w (if n < k then n else k)"
  by (auto simp: bit_simps min_def)

lemma enc_i_fields:
  assumes "fits 7 op" "fits 5 rd" "fits 3 f3" "fits 5 rs1"
  shows "enc_i op rd f3 rs1 imm AND 0x7f = op \<and> fld_rd (enc_i op rd f3 rs1 imm) = rd \<and>
    fld_funct3 (enc_i op rd f3 rs1 imm) = f3 \<and> fld_rs1 (enc_i op rd f3 rs1 imm) = rs1"
  by (insert assms, elim fitsE, hypsubst, intro conjI; rule bit_word_eqI)
    (auto simp: enc_defs fld_defs bit_simps simp del: push_bit_and)

lemma enc_r_fields:
  assumes "fits 7 op" "fits 5 rd" "fits 3 f3" "fits 5 rs1" "fits 5 rs2" "fits 7 f7"
  shows "enc_r op rd f3 rs1 rs2 f7 AND 0x7f = op \<and> fld_rd (enc_r op rd f3 rs1 rs2 f7) = rd \<and>
    fld_funct3 (enc_r op rd f3 rs1 rs2 f7) = f3 \<and> fld_rs1 (enc_r op rd f3 rs1 rs2 f7) = rs1 \<and>
    fld_rs2 (enc_r op rd f3 rs1 rs2 f7) = rs2 \<and> fld_funct7 (enc_r op rd f3 rs1 rs2 f7) = f7"
  by (insert assms, elim fitsE, hypsubst, intro conjI; rule bit_word_eqI)
    (auto simp: enc_defs fld_defs bit_simps simp del: push_bit_and)

lemma enc_s_fields:
  assumes "fits 7 op" "fits 3 f3" "fits 5 rs1" "fits 5 rs2"
  shows "enc_s op f3 rs1 rs2 imm AND 0x7f = op \<and> fld_funct3 (enc_s op f3 rs1 rs2 imm) = f3 \<and>
    fld_rs1 (enc_s op f3 rs1 rs2 imm) = rs1 \<and> fld_rs2 (enc_s op f3 rs1 rs2 imm) = rs2"
  by (insert assms, elim fitsE, hypsubst, intro conjI; rule bit_word_eqI)
    (auto simp: enc_defs fld_defs bit_simps simp del: push_bit_and)

lemma enc_b_fields:
  assumes "fits 7 op" "fits 3 f3" "fits 5 rs1" "fits 5 rs2"
  shows "enc_b op f3 rs1 rs2 imm AND 0x7f = op \<and> fld_funct3 (enc_b op f3 rs1 rs2 imm) = f3 \<and>
    fld_rs1 (enc_b op f3 rs1 rs2 imm) = rs1 \<and> fld_rs2 (enc_b op f3 rs1 rs2 imm) = rs2"
  by (insert assms, elim fitsE, hypsubst, intro conjI; rule bit_word_eqI)
    (auto simp: enc_defs fld_defs bit_simps simp del: push_bit_and)

lemma enc_j_fields:
  assumes "fits 7 op" "fits 5 rd"
  shows "enc_j op rd imm AND 0x7f = op \<and> fld_rd (enc_j op rd imm) = rd"
  by (insert assms, elim fitsE, hypsubst, intro conjI; rule bit_word_eqI)
    (auto simp: enc_defs fld_defs bit_simps simp del: push_bit_and)

lemma enc_i_imm:
  assumes "fits 7 op" "fits 5 rd" "fits 3 f3" "fits 5 rs1"
  shows "imm_i (enc_i op rd f3 rs1 imm) = signed_take_bit 11 imm"
proof (insert assms, elim fitsE, hypsubst, rule bit_word_eqI)
  fix n v va vb vc
  assume "n < LENGTH(32)"
  then show "bit (imm_i (enc_i (take_bit 7 v) (take_bit 5 va) (take_bit 3 vb) (take_bit 5 vc) imm)) n
    = bit (signed_take_bit 11 imm) n"
    by (cases "n = 11") (auto simp: enc_defs imm_i_def bit_simps simp del: push_bit_and)
qed

lemma enc_s_imm:
  assumes "fits 7 op" "fits 3 f3" "fits 5 rs1" "fits 5 rs2"
  shows "imm_s (enc_s op f3 rs1 rs2 imm) = signed_take_bit 11 imm"
proof (insert assms, elim fitsE, hypsubst, rule bit_word_eqI)
  fix n v va vb vc
  assume "n < LENGTH(32)"
  then show "bit (imm_s (enc_s (take_bit 7 v) (take_bit 3 va) (take_bit 5 vb) (take_bit 5 vc) imm)) n
    = bit (signed_take_bit 11 imm) n"
    by (cases "n = 11") (auto simp: enc_defs imm_s_def bit_simps simp del: push_bit_and)
qed

text \<open>Case analysis over the bit positions of a word, for the scattered immediates.\<close>

lemma less_32_cases:
  assumes "n < 32"
    "P (0::nat)" "P (1::nat)" "P (2::nat)" "P (3::nat)" "P (4::nat)" "P (5::nat)" "P (6::nat)" "P (7::nat)"
    "P (8::nat)" "P (9::nat)" "P (10::nat)" "P (11::nat)" "P (12::nat)" "P (13::nat)" "P (14::nat)" "P (15::nat)"
    "P (16::nat)" "P (17::nat)" "P (18::nat)" "P (19::nat)" "P (20::nat)" "P (21::nat)" "P (22::nat)" "P (23::nat)"
    "P (24::nat)" "P (25::nat)" "P (26::nat)" "P (27::nat)" "P (28::nat)" "P (29::nat)" "P (30::nat)" "P (31::nat)"
  shows "P n"
proof -
  have "n \<in> set [0..<32]" using assms(1) by simp
  then have "n \<in> {0,1,2,3,4,5,6,7,8,9,10,11,12,13,14,15,16,17,18,19,20,21,22,23,24,25,26,27,28,29,30,31}" by (simp add: upt_rec [of _ 32] numeral_eq_Suc)
  then show ?thesis using assms(2-) by (elim insertE) (simp_all only: empty_iff)
qed

lemma enc_b_imm:
  assumes "fits 7 op" "fits 3 f3" "fits 5 rs1" "fits 5 rs2"
  shows "imm_b (enc_b op f3 rs1 rs2 imm) = signed_take_bit 12 imm AND NOT 1"
proof (insert assms, elim fitsE, hypsubst, rule bit_word_eqI)
  fix n v va vb vc
  assume "n < LENGTH(32)"
  then have "n < 32" by simp
  then show "bit (imm_b (enc_b (take_bit 7 v) (take_bit 3 va) (take_bit 5 vb) (take_bit 5 vc) imm)) n
    = bit (signed_take_bit 12 imm AND NOT 1) n"
    by (rule less_32_cases) (simp_all add: enc_defs imm_b_def Let_def bit_simps del: push_bit_and push_bit_Suc drop_bit_Suc One_nat_def)
qed

lemma enc_j_imm:
  assumes "fits 7 op" "fits 5 rd"
  shows "imm_j (enc_j op rd imm) = signed_take_bit 20 imm AND NOT 1"
proof (insert assms, elim fitsE, hypsubst, rule bit_word_eqI)
  fix n v va
  assume "n < LENGTH(32)"
  then have "n < 32" by simp
  then show "bit (imm_j (enc_j (take_bit 7 v) (take_bit 5 va) imm)) n
    = bit (signed_take_bit 20 imm AND NOT 1) n"
    by (rule less_32_cases) (simp_all add: enc_defs imm_j_def Let_def bit_simps del: push_bit_and push_bit_Suc drop_bit_Suc One_nat_def)
qed

text \<open>
  Encode/decode round trip of the decompressor's four immediate formats: for every
  opcode and register field that fits its slot, the interpreter reads back exactly the
  sign-extended immediate that was encoded (12-bit for I and S; 13-bit and 21-bit with the
  low bit dropped for branches and jumps), and the S and B encoders keep the two source
  registers.
\<close>

theorem rv_immediate_roundtrip:
  assumes "fits 7 op" "fits 3 f3" "fits 5 rd" "fits 5 rs1" "fits 5 rs2"
  shows "imm_i (enc_i op rd f3 rs1 imm) = signed_take_bit 11 imm \<and>
    imm_s (enc_s op f3 rs1 rs2 imm) = signed_take_bit 11 imm \<and>
    imm_b (enc_b op f3 rs1 rs2 imm) = signed_take_bit 12 imm AND NOT 1 \<and>
    imm_j (enc_j op rd imm) = signed_take_bit 20 imm AND NOT 1 \<and>
    fld_rd (enc_i op rd f3 rs1 imm) = rd \<and> fld_rs1 (enc_i op rd f3 rs1 imm) = rs1 \<and>
    fld_rs1 (enc_s op f3 rs1 rs2 imm) = rs1 \<and> fld_rs2 (enc_s op f3 rs1 rs2 imm) = rs2 \<and>
    fld_rs1 (enc_b op f3 rs1 rs2 imm) = rs1 \<and> fld_rs2 (enc_b op f3 rs1 rs2 imm) = rs2"
  using assms enc_i_fields enc_s_fields enc_b_fields
  by (simp add: enc_i_imm enc_s_imm enc_b_imm enc_j_imm)

theorem rv_immediate_roundtrip_witness:
  "imm_b (enc_b 0x63 1 8 0 (- 6)) = - 6 \<and> imm_j (enc_j 0x6f 1 0x7fe) = 0x7fe"
proof -
  have f: "fits 7 0x63" "fits 7 0x6f" "fits 3 1" "fits 5 1" "fits 5 8" "fits 5 0"
    by (simp_all add: fits_def take_bit_eq_mod)
  have "signed_take_bit 12 (- 6 :: u32) AND NOT 1 = - 6" by code_simp
  moreover have "signed_take_bit 20 (0x7fe :: u32) AND NOT 1 = 0x7fe" by code_simp
  ultimately show ?thesis
    using rv_immediate_roundtrip [OF f(1) f(3) f(4) f(5) f(6), where imm = "- 6"]
      rv_immediate_roundtrip [OF f(2) f(3) f(4) f(5) f(6), where imm = "0x7fe"]
    by simp
qed

subsection \<open>Decompression\<close>

lemma enc_opcode:
  "enc_i op rd f3 rs1 imm AND 0x7f = op AND 0x7f" "enc_r op rd f3 rs1 rs2 f7 AND 0x7f = op AND 0x7f"
  "enc_s op f3 rs1 rs2 imm AND 0x7f = op AND 0x7f" "enc_b op f3 rs1 rs2 imm AND 0x7f = op AND 0x7f"
  "enc_j op rd imm AND 0x7f = op AND 0x7f"
  by (rule bit_word_eqI, auto simp: enc_defs bit_simps simp del: push_bit_and)+

lemma lui_opcode: "(0x37 OR push_bit 7 rd OR (push_bit 12 v AND 0xfffff000)) AND 0x7f = (0x37 :: u32)"
proof -
  have "(0x37 :: u32) = take_bit 7 0x37" by (simp add: take_bit_eq_mod)
  moreover have "(take_bit 7 w OR push_bit 7 rd OR (push_bit 12 v AND z)) AND 0x7f = take_bit 7 w"
    for w z :: u32
    by (rule bit_word_eqI) (auto simp: bit_simps)
  ultimately show ?thesis by metis
qed

definition rv_opcodes :: "u32 set" where
  "rv_opcodes = {0x03, 0x13, 0x23, 0x33, 0x37, 0x63, 0x67, 0x6f, 0x73}"

lemma rvc_quads_opcode:
  "rvc_quad0 c = 0 \<or> rvc_quad0 c AND 0x7f \<in> rv_opcodes"
  "rvc_quad1 c = 0 \<or> rvc_quad1 c AND 0x7f \<in> rv_opcodes"
  "rvc_quad2 c = 0 \<or> rvc_quad2 c AND 0x7f \<in> rv_opcodes"
  by (simp_all add: rvc_quad0_def rvc_quad1_def rvc_quad2_def Let_def enc_opcode lui_opcode rv_opcodes_def)

text \<open>
  Every compressed instruction either is reported illegal (0) or expands to a full-width
  instruction with one of the nine opcodes the interpreter executes.
\<close>

theorem rvc_expand_legal: "rvc_expand c = 0 \<or> rvc_expand c AND 0x7f \<in> rv_opcodes"
  using rvc_quads_opcode by (simp add: rvc_expand_def Let_def)

lemma rvc_expand_not_sentinel: "rvc_expand c \<noteq> 0xFFFFFFFF"
proof
  assume *: "rvc_expand c = 0xFFFFFFFF"
  have "rvc_expand c = 0 \<or> rvc_expand c AND 0x7f \<in> rv_opcodes"
    using rvc_quads_opcode by (simp add: rvc_expand_def Let_def)
  then show False by (simp add: * rv_opcodes_def)
qed

end
