(* ===== verification/Riscv_Correct.thy ===== *)
theory Riscv_Correct
  imports Riscv_Encoding
begin

text \<open>
  Correctness of the RISC-V interpreter: what each step leaves alone (frame lemmas), the
  transparency of the expansion cache, the invariants of a running core, interrupts, the
  multiplication and division instructions, and the bounds and termination of
  \<open>riscv_step_until\<close>.
\<close>

subsection \<open>The interrupt-enable stack\<close>

lemma mret_after_trap: "mret_mstatus (trap_mstatus st) = st OR 0x1880"
proof (rule bit_word_eqI)
  fix n assume "n < LENGTH(32)"
  then have "n < 32" by simp
  then show "bit (mret_mstatus (trap_mstatus st)) n = bit (st OR 0x1880) n"
    by (rule less_32_cases) (simp_all add: mret_mstatus_def trap_mstatus_def Let_def bit_simps)
qed

lemma trap_mstatus_bits:
  "\<not> bit (trap_mstatus st) 3" "bit (trap_mstatus st) 7 = bit st 3"
  by (simp_all add: trap_mstatus_def Let_def bit_simps)

subsection \<open>Frame lemmas\<close>

lemma SET_sel [simp]:
  "pc (SET d v rv) = pc rv" "cycles (SET d v rv) = cycles rv" "halted (SET d v rv) = halted rv"
  "mip (SET d v rv) = mip rv" "rvc_cache (SET d v rv) = rvc_cache rv"
  "rvc_cache_ready (SET d v rv) = rvc_cache_ready rv" "xreg (SET d v rv) 0 = xreg rv 0"
  by (simp_all add: SET_def)

lemma retire_sel [simp]:
  "xreg (retire n rv) = xreg rv" "cycles (retire n rv) = cycles rv" "halted (retire n rv) = halted rv"
  "rvc_cache (retire n rv) = rvc_cache rv" "rvc_cache_ready (retire n rv) = rvc_cache_ready rv"
  by (simp_all add: retire_def)

lemma take_trap_sel [simp]:
  "xreg (take_trap c t e rv) = xreg rv" "cycles (take_trap c t e rv) = cycles rv"
  "halted (take_trap c t e rv) = halted rv" "rvc_cache (take_trap c t e rv) = rvc_cache rv"
  "rvc_cache_ready (take_trap c t e rv) = rvc_cache_ready rv"
  by (simp_all add: take_trap_def)

lemma csr_write_sel [simp]:
  "xreg (csr_write c v rv) = xreg rv" "cycles (csr_write c v rv) = cycles rv"
  "halted (csr_write c v rv) = halted rv" "rvc_cache (csr_write c v rv) = rvc_cache rv"
  "rvc_cache_ready (csr_write c v rv) = rvc_cache_ready rv"
  by (simp_all add: csr_write_def)

lemma bus_access_sel [simp]:
  "xreg (snd (ld32 ops a rv)) = xreg rv" "cycles (snd (ld32 ops a rv)) = cycles rv"
  "xreg (snd (ld16 ops a rv)) = xreg rv" "cycles (snd (ld16 ops a rv)) = cycles rv"
  "xreg (snd (ld8 ops a rv)) = xreg rv" "cycles (snd (ld8 ops a rv)) = cycles rv"
  "halted (snd (ld32 ops a rv)) = halted rv" "rvc_cache (snd (ld32 ops a rv)) = rvc_cache rv"
  "halted (snd (ld16 ops a rv)) = halted rv" "rvc_cache (snd (ld16 ops a rv)) = rvc_cache rv"
  "halted (snd (ld8 ops a rv)) = halted rv" "rvc_cache (snd (ld8 ops a rv)) = rvc_cache rv"
  "xreg (st32 ops a v rv) = xreg rv" "cycles (st32 ops a v rv) = cycles rv"
  "xreg (st16 ops a h rv) = xreg rv" "cycles (st16 ops a h rv) = cycles rv"
  "xreg (st8 ops a b rv) = xreg rv" "cycles (st8 ops a b rv) = cycles rv"
  "rvc_cache (st32 ops a v rv) = rvc_cache rv" "rvc_cache (st16 ops a h rv) = rvc_cache rv"
  "rvc_cache (st8 ops a b rv) = rvc_cache rv"
  by (simp_all add: ld32_def ld16_def ld8_def st32_def st16_def st8_def split_beta)

lemmas exec_defs = exec_jal_def exec_jalr_def exec_branch_def exec_load_def exec_store_def
  exec_csr_def exec_system_def illegal_def

lemma exec_cycles [simp]:
  "cycles (exec_jal insn p n rv) = cycles rv"
  "cycles (exec_jalr insn n rv) = cycles rv"
  "cycles (exec_branch insn p n rv) = cycles rv"
  "cycles (exec_load ops insn p n rv) = cycles rv"
  "cycles (exec_store ops insn p n rv) = cycles rv"
  "cycles (exec_csr insn n rv) = cycles rv"
  "cycles (exec_system insn p n rv) = cycles rv"
  "cycles (illegal insn p rv) = cycles rv"
  by (simp_all add: exec_defs Let_def split_beta if_distrib [of cycles] del: split_paired_All split: option.split cong: if_weak_cong)

lemma exec_insn_cycles [simp]: "cycles (exec_insn ops insn p n rv) = cycles rv"
  by (simp only: exec_insn_def Let_def if_distrib [of cycles] exec_cycles SET_sel retire_sel if_cancel)

lemma exec_cache [simp]:
  "rvc_cache (exec_jal insn p n rv) = rvc_cache rv"
  "rvc_cache (exec_jalr insn n rv) = rvc_cache rv"
  "rvc_cache (exec_branch insn p n rv) = rvc_cache rv"
  "rvc_cache (exec_load ops insn p n rv) = rvc_cache rv"
  "rvc_cache (exec_store ops insn p n rv) = rvc_cache rv"
  "rvc_cache (exec_csr insn n rv) = rvc_cache rv"
  "rvc_cache (exec_system insn p n rv) = rvc_cache rv"
  "rvc_cache (illegal insn p rv) = rvc_cache rv"
  by (simp_all add: exec_defs Let_def split_beta if_distrib [of rvc_cache] del: split_paired_All split: option.split cong: if_weak_cong)

lemma exec_insn_cache [simp]: "rvc_cache (exec_insn ops insn p n rv) = rvc_cache rv"
  by (simp only: exec_insn_def Let_def if_distrib [of rvc_cache] exec_cache SET_sel retire_sel if_cancel)

lemma exec_x0 [simp]:
  "xreg (exec_jal insn p n rv) 0 = xreg rv 0"
  "xreg (exec_jalr insn n rv) 0 = xreg rv 0"
  "xreg (exec_branch insn p n rv) 0 = xreg rv 0"
  "xreg (exec_load ops insn p n rv) 0 = xreg rv 0"
  "xreg (exec_store ops insn p n rv) 0 = xreg rv 0"
  "xreg (exec_csr insn n rv) 0 = xreg rv 0"
  "xreg (exec_system insn p n rv) 0 = xreg rv 0"
  "xreg (illegal insn p rv) 0 = xreg rv 0"
  by (simp_all add: exec_defs Let_def split_beta if_distrib [of "\<lambda>r. xreg r 0"] del: split_paired_All split: option.split cong: if_weak_cong)

lemma exec_insn_x0 [simp]: "xreg (exec_insn ops insn p n rv) 0 = xreg rv 0"
  by (simp only: exec_insn_def Let_def if_distrib [of "\<lambda>r. xreg r 0"] exec_x0 SET_sel retire_sel if_cancel)

subsection \<open>The expansion cache\<close>

definition valid_cache :: "(u16 \<Rightarrow> u32) \<Rightarrow> bool" where
  "valid_cache m \<longleftrightarrow> (\<forall>c. m c = 0xFFFFFFFF \<or> m c = rvc_expand c)"

definition cache_ok :: "'b riscv_cpu \<Rightarrow> bool" where
  "cache_ok rv \<longleftrightarrow> valid_cache (rvc_cache rv)"

definition no_cache :: "'b riscv_cpu \<Rightarrow> 'b riscv_cpu" where
  "no_cache rv = rv\<lparr>rvc_cache := \<lambda>_. 0xFFFFFFFF\<rparr>"

lemma cache_swap_basic:
  "SET d v (rv\<lparr>rvc_cache := c\<rparr>) = (SET d v rv)\<lparr>rvc_cache := c\<rparr>"
  "retire nx (rv\<lparr>rvc_cache := c\<rparr>) = (retire nx rv)\<lparr>rvc_cache := c\<rparr>"
  "take_trap x t e (rv\<lparr>rvc_cache := c\<rparr>) = (take_trap x t e rv)\<lparr>rvc_cache := c\<rparr>"
  "csr_read k (rv\<lparr>rvc_cache := c\<rparr>) = csr_read k rv"
  "csr_write k v (rv\<lparr>rvc_cache := c\<rparr>) = (csr_write k v rv)\<lparr>rvc_cache := c\<rparr>"
  "ld32 ops a (rv\<lparr>rvc_cache := c\<rparr>) = apsnd (\<lambda>r. r\<lparr>rvc_cache := c\<rparr>) (ld32 ops a rv)"
  "ld16 ops a (rv\<lparr>rvc_cache := c\<rparr>) = apsnd (\<lambda>r. r\<lparr>rvc_cache := c\<rparr>) (ld16 ops a rv)"
  "ld8 ops a (rv\<lparr>rvc_cache := c\<rparr>) = apsnd (\<lambda>r. r\<lparr>rvc_cache := c\<rparr>) (ld8 ops a rv)"
  "st32 ops a v (rv\<lparr>rvc_cache := c\<rparr>) = (st32 ops a v rv)\<lparr>rvc_cache := c\<rparr>"
  "st16 ops a h (rv\<lparr>rvc_cache := c\<rparr>) = (st16 ops a h rv)\<lparr>rvc_cache := c\<rparr>"
  "st8 ops a b (rv\<lparr>rvc_cache := c\<rparr>) = (st8 ops a b rv)\<lparr>rvc_cache := c\<rparr>"
  by (simp_all add: SET_def retire_def take_trap_def csr_read_def csr_write_def ld32_def ld16_def
      ld8_def st32_def st16_def st8_def split_beta)

lemma cache_swap_exec:
  "exec_jal insn p n (rv\<lparr>rvc_cache := c\<rparr>) = (exec_jal insn p n rv)\<lparr>rvc_cache := c\<rparr>"
  "exec_jalr insn n (rv\<lparr>rvc_cache := c\<rparr>) = (exec_jalr insn n rv)\<lparr>rvc_cache := c\<rparr>"
  "exec_branch insn p n (rv\<lparr>rvc_cache := c\<rparr>) = (exec_branch insn p n rv)\<lparr>rvc_cache := c\<rparr>"
  "exec_load ops insn p n (rv\<lparr>rvc_cache := c\<rparr>) = (exec_load ops insn p n rv)\<lparr>rvc_cache := c\<rparr>"
  "exec_store ops insn p n (rv\<lparr>rvc_cache := c\<rparr>) = (exec_store ops insn p n rv)\<lparr>rvc_cache := c\<rparr>"
  "exec_csr insn n (rv\<lparr>rvc_cache := c\<rparr>) = (exec_csr insn n rv)\<lparr>rvc_cache := c\<rparr>"
  "illegal insn p (rv\<lparr>rvc_cache := c\<rparr>) = (illegal insn p rv)\<lparr>rvc_cache := c\<rparr>"
  by (simp_all add: exec_defs Let_def split_beta cache_swap_basic
      if_distrib [of "rvc_cache_update _"] split: option.split cong: if_weak_cong)

lemma cache_swap_system:
  "exec_system insn p n (rv\<lparr>rvc_cache := c\<rparr>) = (exec_system insn p n rv)\<lparr>rvc_cache := c\<rparr>"
proof -
  have "retire n (rv\<lparr>rvc_cache := c, halted := True\<rparr>) = (retire n (rv\<lparr>halted := True\<rparr>))\<lparr>rvc_cache := c\<rparr>"
    "retire x (rv\<lparr>rvc_cache := c, mstatus := y\<rparr>) = (retire x (rv\<lparr>mstatus := y\<rparr>))\<lparr>rvc_cache := c\<rparr>" for x y
    by (simp_all add: retire_def)
  then show ?thesis
    by (simp add: exec_system_def Let_def cache_swap_basic cache_swap_exec)
qed

lemma cache_swap_insn:
  "exec_insn ops insn p n (rv\<lparr>rvc_cache := c\<rparr>) = (exec_insn ops insn p n rv)\<lparr>rvc_cache := c\<rparr>"
  by (simp add: exec_insn_def Let_def cache_swap_basic cache_swap_exec cache_swap_system
      if_distrib [of "rvc_cache_update _"] cong: if_weak_cong)

lemma rvc_lookup_ok:
  assumes "cache_ok rv"
  shows "fst (rvc_lookup c rv) = rvc_expand c" "cache_ok (snd (rvc_lookup c rv))"
    "no_cache (snd (rvc_lookup c rv)) = no_cache rv"
  using assms rvc_expand_not_sentinel [of c]
  by (auto simp: rvc_lookup_def cache_ok_def valid_cache_def no_cache_def Let_def split: if_splits)


text \<open>Two states that agree on everything but the contents of two valid caches.\<close>

definition csame :: "'b riscv_cpu \<Rightarrow> 'b riscv_cpu \<Rightarrow> bool" where
  "csame rv rv' \<longleftrightarrow> cache_ok rv \<and> (\<exists>m. valid_cache m \<and> rv' = rv\<lparr>rvc_cache := m\<rparr>)"

lemma csameI [intro]: "cache_ok rv \<Longrightarrow> valid_cache m \<Longrightarrow> csame rv (rv\<lparr>rvc_cache := m\<rparr>)"
  by (auto simp: csame_def)

lemma csameE [elim]:
  assumes "csame rv rv'"
  obtains m where "cache_ok rv" "valid_cache m" "rv' = rv\<lparr>rvc_cache := m\<rparr>"
  using assms by (auto simp: csame_def)

lemma csame_sel:
  assumes "csame rv rv'"
  shows "pc rv' = pc rv" "mip rv' = mip rv" "mie rv' = mie rv" "halted rv' = halted rv"
    "mstatus rv' = mstatus rv" "cycles rv' = cycles rv" "no_cache rv' = no_cache rv"
  using assms by (auto simp: no_cache_def)

lemma csame_upd:
  assumes "csame rv rv'" and f: "\<And>r c. f (r\<lparr>rvc_cache := c\<rparr>) = (f r)\<lparr>rvc_cache := c\<rparr>"
    and g: "rvc_cache (f rv) = rvc_cache rv"
  shows "csame (f rv) (f rv')"
  using assms(1) by (rule csameE) (auto simp: f g cache_ok_def)

lemma csame_access:
  assumes "csame rv rv'" and f: "\<And>r c. f (r\<lparr>rvc_cache := c\<rparr>) = apsnd (\<lambda>r. r\<lparr>rvc_cache := c\<rparr>) (f r)"
    and g: "rvc_cache (snd (f rv)) = rvc_cache rv"
  shows "fst (f rv') = fst (f rv) \<and> csame (snd (f rv)) (snd (f rv'))"
  using assms(1) by (rule csameE) (auto simp: f g cache_ok_def)

lemma csame_lookup:
  assumes "csame rv rv'"
  shows "fst (rvc_lookup c rv') = fst (rvc_lookup c rv) \<and>
         csame (snd (rvc_lookup c rv)) (snd (rvc_lookup c rv'))"
proof (rule csameE [OF assms])
  fix m assume m: "cache_ok rv" "valid_cache m" "rv' = rv\<lparr>rvc_cache := m\<rparr>"
  define m1 where "m1 = rvc_cache (snd (rvc_lookup c rv'))"
  have ok: "cache_ok rv'" using m by (simp add: cache_ok_def valid_cache_def)
  have "valid_cache m1" using rvc_lookup_ok(2) [OF ok, of c] by (simp add: m1_def cache_ok_def valid_cache_def)
  moreover have "snd (rvc_lookup c rv') = (snd (rvc_lookup c rv))\<lparr>rvc_cache := m1\<rparr>"
    by (simp add: m1_def rvc_lookup_def Let_def m(3))
  ultimately show ?thesis
    using rvc_lookup_ok [OF m(1), of c] rvc_lookup_ok [OF ok, of c] by auto
qed

lemma csame_fetch:
  assumes "csame rv rv'"
  shows "fst (fetch ops rv') = fst (fetch ops rv) \<and> csame (snd (fetch ops rv)) (snd (fetch ops rv'))"
proof -
  define f where "f = (\<lambda>r. if pc rv AND 2 \<noteq> 0 then (let (h, r1) = ld16 ops (pc rv) r in (ucast h, r1)) else ld32 ops (pc rv) r)"
  have 1: "fst (f rv') = fst (f rv) \<and> csame (snd (f rv)) (snd (f rv'))"
    by (rule csame_access [OF assms]) (simp_all add: f_def cache_swap_basic split_beta)
  have 2: "fst (ld16 ops a (snd (f rv'))) = fst (ld16 ops a (snd (f rv))) \<and>
     csame (snd (ld16 ops a (snd (f rv)))) (snd (ld16 ops a (snd (f rv'))))" for a
    by (rule csame_access [OF conjunct2 [OF 1]]) (simp_all add: cache_swap_basic)
  have fe: "fetch ops r = (let (lo, rv1) = f r
      in if lo AND 3 = 3 then
           (if pc rv AND 2 \<noteq> 0
            then (let (h, rv2) = ld16 ops (pc rv + 2) rv1;
                      insn = lo OR push_bit 16 (ucast h)
                  in ((insn, pc rv + 4, insn), rv2))
            else ((lo, pc rv + 4, lo), rv1))
         else
           (let comp = lo AND 0xffff; (insn, rv2) = rvc_lookup (ucast comp) rv1
            in ((insn, pc rv + 2, comp), rv2)))" if "pc r = pc rv" for r
    using that by (simp add: fetch_def f_def Let_def)
  show ?thesis
    using 1 2 csame_lookup [OF conjunct2 [OF 1]]
    by (simp add: fe csame_sel [OF assms] split_beta Let_def)
qed

lemma csame_iter:
  assumes "csame rv rv'"
  shows "fst (riscv_iter ops rv') = fst (riscv_iter ops rv) \<and>
         csame (snd (riscv_iter ops rv)) (snd (riscv_iter ops rv'))"
proof -
  have irq: "fst (riscv_take_pending_irq r') = fst (riscv_take_pending_irq r) \<and>
     csame (snd (riscv_take_pending_irq r)) (snd (riscv_take_pending_irq r'))"
    if "csame r r'" for r r' :: "'a riscv_cpu"
    by (rule csame_access [OF that]) (simp_all add: riscv_take_pending_irq_def Let_def)
  have fe: "csame (fetch_exec ops r) (fetch_exec ops r')" if "csame r r'" for r r' :: "'a riscv_cpu"
  proof -
    have ins: "csame (exec_insn ops i p n (a\<lparr>cycles := cycles a + 1\<rparr>)) (exec_insn ops i p n (a'\<lparr>cycles := cycles a' + 1\<rparr>))"
      if "csame a a'" for i p n and a a' :: "'a riscv_cpu"
    proof (rule csame_upd [OF that])
      fix r :: "'a riscv_cpu" and c
      have e: "r\<lparr>rvc_cache := c, cycles := cycles (r\<lparr>rvc_cache := c\<rparr>) + 1\<rparr> =
        r\<lparr>cycles := cycles r + 1, rvc_cache := c\<rparr>" by simp
      show "exec_insn ops i p n (r\<lparr>rvc_cache := c, cycles := cycles (r\<lparr>rvc_cache := c\<rparr>) + 1\<rparr>) =
        (exec_insn ops i p n (r\<lparr>cycles := cycles r + 1\<rparr>))\<lparr>rvc_cache := c\<rparr>"
        by (simp only: e cache_swap_insn)
    qed simp
    have tr: "csame (take_trap x t e a) (take_trap x t e a')" if "csame a a'" for x t e and a a' :: "'a riscv_cpu"
      by (rule csame_upd [OF that]) (simp_all add: cache_swap_basic)
    show ?thesis
      using csame_fetch [OF that, of ops] that
      by (auto simp: fetch_exec_def Let_def split_beta csame_sel [OF that] ins tr)
  qed
  have h: "csame (rv\<lparr>halted := False\<rparr>) (rv'\<lparr>halted := False\<rparr>)"
    by (rule csame_upd [OF assms]) simp_all
  show ?thesis
    using irq [OF h] fe assms fe [OF conjunct2 [OF irq [OF h]]] csame_sel(4) [OF conjunct2 [OF irq [OF h]]]
    by (auto simp: riscv_iter_def Let_def split_beta csame_sel [OF assms])
qed

lemma csame_loop:
  "csame rv rv' \<Longrightarrow> fst (riscv_loop ops k i rv') = fst (riscv_loop ops k i rv) \<and>
         csame (snd (riscv_loop ops k i rv)) (snd (riscv_loop ops k i rv'))"
proof (induction k arbitrary: i rv rv')
  case (Suc k)
  show ?case using csame_iter [OF Suc.prems, of ops] Suc.IH by (auto simp: split_beta)
qed simp

text \<open>
  C23. The expansion cache is transparent: executing any number of instructions with a valid
  cache takes the same number of steps and reaches the same core, bus and counter state as
  executing them with an empty one, and the cache stays valid.
\<close>

theorem rv_cache_transparent:
  assumes "cache_ok rv"
  shows "fst (riscv_step ops n rv) = fst (riscv_step ops n (no_cache rv)) \<and>
         no_cache (snd (riscv_step ops n rv)) = no_cache (snd (riscv_step ops n (no_cache rv))) \<and>
         cache_ok (snd (riscv_step ops n rv))"
proof -
  have "csame rv (no_cache rv)" using assms by (auto simp: no_cache_def valid_cache_def)
  from csame_loop [OF this, of ops "nat n" 0] show ?thesis
    by (auto simp: riscv_step_def csame_sel elim: csameE)
qed

subsection \<open>Runs of the interpreter\<close>

lemma cycles_lookup [simp]: "cycles (snd (rvc_lookup c rv)) = cycles rv" "xreg (snd (rvc_lookup c rv)) = xreg rv"
  by (simp_all add: rvc_lookup_def Let_def)

lemma fetch_sel [simp]:
  "cycles (snd (fetch ops rv)) = cycles rv" "xreg (snd (fetch ops rv)) = xreg rv"
  by (simp_all add: fetch_def Let_def split_beta)

lemma fetch_exec_cycles: "cycles rv \<le> cycles (fetch_exec ops rv) \<and> cycles (fetch_exec ops rv) \<le> cycles rv + 1"
  by (simp add: fetch_exec_def Let_def split_beta)

lemma fetch_exec_x0: "xreg (fetch_exec ops rv) 0 = xreg rv 0"
  by (simp add: fetch_exec_def Let_def split_beta)

lemma take_irq_sel [simp]:
  "cycles (snd (riscv_take_pending_irq rv)) = cycles rv" "xreg (snd (riscv_take_pending_irq rv)) = xreg rv"
  by (simp_all add: riscv_take_pending_irq_def Let_def)

lemma riscv_iter_cycles:
  "cycles rv \<le> cycles (snd (riscv_iter ops rv)) \<and> cycles (snd (riscv_iter ops rv)) \<le> cycles rv + 1"
  using fetch_exec_cycles [of rv ops] fetch_exec_cycles [of "snd (riscv_take_pending_irq (rv\<lparr>halted := False\<rparr>))" ops]
  by (simp add: riscv_iter_def Let_def split_beta)

lemma riscv_iter_x0: "xreg (snd (riscv_iter ops rv)) 0 = xreg rv 0"
  by (simp add: riscv_iter_def Let_def split_beta fetch_exec_x0)

text \<open>A break of the loop happens exactly on a halted hart with nothing pending, and changes nothing.\<close>

lemma riscv_iter_break:
  "fst (riscv_iter ops rv) \<longleftrightarrow> halted rv \<and> mip rv AND mie rv = 0"
  "fst (riscv_iter ops rv) \<Longrightarrow> snd (riscv_iter ops rv) = rv"
  by (auto simp: riscv_iter_def riscv_take_pending_irq_def Let_def split_beta split: if_splits)

text \<open>
  A contract on one iteration that carries over to every run: an invariant the iteration keeps
  holds after \<open>riscv_step\<close> and after every returning \<open>riscv_step_until\<close>.
\<close>

locale hart_invariant =
  fixes ops :: "'b bus_ops" and P :: "'b riscv_cpu \<Rightarrow> bool"
  assumes iter: "P rv \<Longrightarrow> P (snd (riscv_iter ops rv))"
begin

lemma loop: "P rv \<Longrightarrow> P (snd (riscv_loop ops k i rv))"
  by (induction k arbitrary: i rv) (auto simp: split_beta iter)

lemma step: "P rv \<Longrightarrow> P (snd (riscv_step ops n rv))"
  by (simp add: riscv_step_def loop)

lemma step_until: "riscv_step_until ops t rv = Some rv' \<Longrightarrow> P rv \<Longrightarrow> P rv'"
proof -
  have "o1 = ops \<longrightarrow> P rv \<longrightarrow> P rv'" if "riscv_step_until o1 t rv = Some rv'" for o1
  proof (rule riscv_step_until.raw_induct [where P = "\<lambda>o1 t rv rv'. o1 = ops \<longrightarrow> P rv \<longrightarrow> P rv'", OF _ that])
    fix f o1 t rv and rv' :: "'b riscv_cpu"
    assume IH: "\<And>o1 t rv rv'. f o1 t rv = Some rv' \<Longrightarrow> o1 = ops \<longrightarrow> P rv \<longrightarrow> P rv'"
      and eq: "(if cycles rv < t \<and> \<not> halted rv
           then (let (n, rv1) = riscv_step o1 1024 rv in if n = 0 then Some rv1 else f o1 t rv1)
           else Some rv) = Some rv'"
    show "o1 = ops \<longrightarrow> P rv \<longrightarrow> P rv'"
      using eq step [of rv 1024] IH [of ops t "snd (riscv_step ops 1024 rv)" rv']
      by (auto simp: split_beta Let_def split: if_splits)
  qed
  then show "riscv_step_until ops t rv = Some rv' \<Longrightarrow> P rv \<Longrightarrow> P rv'" by simp
qed

end

interpretation x0: hart_invariant ops "\<lambda>rv. xreg rv 0 = 0" for ops
  by unfold_locales (simp add: riscv_iter_x0)

lemma cache_ok_iter: "cache_ok rv \<Longrightarrow> cache_ok (snd (riscv_iter ops rv))"
proof -
  assume "cache_ok rv"
  then have "csame rv (rv\<lparr>rvc_cache := rvc_cache rv\<rparr>)" by (intro csameI) (auto simp: cache_ok_def)
  then have "csame rv rv" by simp
  from csame_iter [OF this, of ops] show ?thesis by (auto elim: csameE)
qed

interpretation cache: hart_invariant ops cache_ok for ops
  by unfold_locales (rule cache_ok_iter)

lemma riscv_loop_bounds:
  "cycles rv \<le> cycles (snd (riscv_loop ops k i rv)) \<and>
   cycles (snd (riscv_loop ops k i rv)) - cycles rv \<le> fst (riscv_loop ops k i rv) - i \<and>
   i \<le> fst (riscv_loop ops k i rv) \<and> fst (riscv_loop ops k i rv) \<le> i + int k"
proof (induction k arbitrary: i rv)
  case (Suc k)
  show ?case
    using Suc.IH [of "snd (riscv_iter ops rv)" "i + 1"] riscv_iter_cycles [of rv ops]
      riscv_iter_break(2) [of ops rv]
    by (auto simp: split_beta)
qed simp

lemma riscv_loop_stops:
  "fst (riscv_loop ops k i rv) < i + int k \<Longrightarrow>
     halted (snd (riscv_loop ops k i rv)) \<and> mip (snd (riscv_loop ops k i rv)) AND mie (snd (riscv_loop ops k i rv)) = 0"
proof (induction k arbitrary: i rv)
  case (Suc k)
  show ?case
  proof (cases "fst (riscv_iter ops rv)")
    case True
    then show ?thesis using riscv_iter_break [of ops rv] by (simp add: split_beta)
  next
    case False
    then show ?thesis using Suc by (simp add: split_beta algebra_simps)
  qed
qed simp

text \<open>
  A call of \<open>riscv_step\<close> with a budget of \<open>n\<close>: the hard-wired zero register stays
  zero, the count it returns is between 0 and \<open>n\<close>, the cycle counter never goes back and
  advances by at most that count, and it returns early only on a hart that waits for an
  interrupt with none pending.
\<close>

theorem rv_step_contract:
  assumes "xreg rv 0 = 0" "0 \<le> n" "riscv_step ops n rv = (k, rv')"
  shows "xreg rv' 0 = 0 \<and> 0 \<le> k \<and> k \<le> n \<and> cycles rv \<le> cycles rv' \<and> cycles rv' \<le> cycles rv + k \<and>
         (k < n \<longrightarrow> halted rv' \<and> mip rv' AND mie rv' = 0)"
proof -
  have l: "riscv_loop ops (nat n) 0 rv = (k, rv')" using assms by (simp add: riscv_step_def)
  show ?thesis
    using riscv_loop_bounds [of rv ops "nat n" 0] riscv_loop_stops [of ops "nat n" 0 rv] l assms(2)
      x0.step [of rv ops n] assms(1,3) by (auto simp: l)
qed

subsection \<open>Running to a cycle target\<close>

definition chunk :: "'b bus_ops \<Rightarrow> 'b riscv_cpu \<Rightarrow> 'b riscv_cpu" where
  "chunk ops rv = snd (riscv_step ops 1024 rv)"

definition done_at :: "int \<Rightarrow> 'b riscv_cpu \<Rightarrow> bool" where
  "done_at t rv \<longleftrightarrow> t \<le> cycles rv \<or> halted rv"

lemma step_progress: "\<not> halted rv \<Longrightarrow> 0 < fst (riscv_step ops 1024 rv)"
proof -
  assume "\<not> halted rv"
  then have nb: "\<not> fst (riscv_iter ops rv)" by (simp add: riscv_iter_break)
  have "riscv_loop ops (Suc 1023) 0 rv = riscv_loop ops 1023 1 (snd (riscv_iter ops rv))"
    using nb by (subst riscv_loop.simps(2)) (simp add: split_beta)
  then show ?thesis
    using riscv_loop_bounds [of "snd (riscv_iter ops rv)" ops 1023 1]
    by (simp add: riscv_step_def)
qed

lemma step_until_unfold:
  "riscv_step_until ops t rv = (if done_at t rv then Some rv else riscv_step_until ops t (chunk ops rv))"
  by (subst riscv_step_until.simps)
    (use step_progress [of rv ops] in \<open>auto simp: done_at_def chunk_def split_beta Let_def\<close>)

lemma step_until_some:
  "done_at t ((chunk ops ^^ k) rv) \<Longrightarrow> \<exists>j\<le>k. riscv_step_until ops t rv = Some ((chunk ops ^^ j) rv)"
proof (induction k arbitrary: rv)
  case 0
  then show ?case using step_until_unfold [of ops t rv] by auto
next
  case (Suc k)
  show ?case
  proof (cases "done_at t rv")
    case True
    then show ?thesis using step_until_unfold [of ops t rv] by (intro exI [of _ 0]) auto
  next
    case False
    obtain j where "j \<le> k" "riscv_step_until ops t (chunk ops rv) = Some ((chunk ops ^^ j) (chunk ops rv))"
      using Suc.IH [of "chunk ops rv"] Suc.prems by (auto simp: funpow_swap1)
    then show ?thesis using False step_until_unfold [of ops t rv]
      by (intro exI [of _ "Suc j"]) (simp add: funpow_swap1)
  qed
qed

lemma step_until_result:
  "riscv_step_until ops t rv = Some rv' \<Longrightarrow>
     \<exists>k. rv' = (chunk ops ^^ k) rv \<and> done_at t rv' \<and> (\<forall>j<k. \<not> done_at t ((chunk ops ^^ j) rv))"
proof (rule riscv_step_until.raw_induct [where P = "\<lambda>ops t rv rv'. \<exists>k. rv' = (chunk ops ^^ k) rv \<and>
    done_at t rv' \<and> (\<forall>j<k. \<not> done_at t ((chunk ops ^^ j) rv))"])
  fix f ops t rv and rv' :: "'a riscv_cpu"
  assume IH: "\<And>ops t rv rv'. f ops t rv = Some rv' \<Longrightarrow> \<exists>k. rv' = (chunk ops ^^ k) rv \<and>
      done_at t rv' \<and> (\<forall>j<k. \<not> done_at t ((chunk ops ^^ j) rv))"
    and eq: "(if cycles rv < t \<and> \<not> halted rv
           then (let (n, rv1) = riscv_step ops 1024 rv in if n = 0 then Some rv1 else f ops t rv1)
           else Some rv) = Some rv'"
  show "\<exists>k. rv' = (chunk ops ^^ k) rv \<and> done_at t rv' \<and> (\<forall>j<k. \<not> done_at t ((chunk ops ^^ j) rv))"
  proof (cases "done_at t rv")
    case True
    then show ?thesis using eq by (intro exI [of _ 0]) (auto simp: done_at_def split: if_splits)
  next
    case False
    then have "f ops t (chunk ops rv) = Some rv'"
      using eq step_progress [of rv ops] by (auto simp: done_at_def chunk_def split_beta Let_def split: if_splits)
    from IH [OF this] obtain k where k: "rv' = (chunk ops ^^ k) (chunk ops rv)" "done_at t rv'"
      "\<forall>j<k. \<not> done_at t ((chunk ops ^^ j) (chunk ops rv))" by blast
    then have "\<not> done_at t ((chunk ops ^^ j) rv)" if "j < Suc k" for j
      using that False by (cases j) (auto simp: funpow_swap1)
    then show ?thesis using k by (intro exI [of _ "Suc k"]) (auto simp: funpow_swap1)
  qed
qed

lemma chunk_cycles: "cycles rv \<le> cycles (chunk ops rv) \<and> cycles (chunk ops rv) \<le> cycles rv + 1024"
  using riscv_loop_bounds [of rv ops 1024 0] by (simp add: chunk_def riscv_step_def)

lemma step_until_overshoot:
  assumes "cycles rv < t" "riscv_step_until ops t rv = Some rv'"
  shows "cycles rv' < t + 1024"
proof -
  obtain k where k: "rv' = (chunk ops ^^ k) rv" "\<forall>j<k. \<not> done_at t ((chunk ops ^^ j) rv)"
    using step_until_result [OF assms(2)] by blast
  show ?thesis
  proof (cases k)
    case 0
    then show ?thesis using assms(1) k(1) by simp
  next
    case (Suc j)
    then have "cycles ((chunk ops ^^ j) rv) < t" using k(2) by (auto simp: done_at_def)
    then show ?thesis using chunk_cycles [of "(chunk ops ^^ j) rv" ops] k(1) Suc by simp
  qed
qed

text \<open>
  C22. A call of \<open>riscv_step_until\<close> that returns (it need not: \<open>rv_trap_livelock\<close>) has reached the
  cycle target or left the hart waiting for an interrupt, has not turned the counter back, and, since
  it runs in batches of 1024 instructions, has overshot the target by at most 1023 cycles.
\<close>

theorem rv_step_until_bounds:
  assumes "cycles rv < t" "riscv_step_until ops t rv = Some rv'"
  shows "(t \<le> cycles rv' \<or> halted rv') \<and> cycles rv \<le> cycles rv' \<and> cycles rv' < t + 1024"
proof -
  obtain k where k: "rv' = (chunk ops ^^ k) rv" "done_at t rv'" using step_until_result [OF assms(2)] by blast
  have "cycles rv \<le> cycles ((chunk ops ^^ j) rv)" for j
    by (induction j) (use chunk_cycles in \<open>auto intro: order_trans\<close>)
  then show ?thesis using k step_until_overshoot [OF assms] by (simp add: done_at_def)
qed

lemma step_until_progress:
  assumes "P rv" and "\<forall>r. P r \<longrightarrow> P (snd (riscv_step ops 1024 r))"
    and "\<forall>r. P r \<and> \<not> halted r \<longrightarrow>
           cycles r < cycles (snd (riscv_step ops 1024 r)) \<or> halted (snd (riscv_step ops 1024 r))"
  shows "\<exists>rv'. riscv_step_until ops t rv = Some rv' \<and> P rv' \<and> (t \<le> cycles rv' \<or> halted rv')"
proof -
  have P: "P ((chunk ops ^^ k) rv)" for k
    by (induction k) (use assms in \<open>auto simp: chunk_def\<close>)
  have "cycles rv + int k \<le> cycles ((chunk ops ^^ k) rv) \<or> (\<exists>j\<le>k. halted ((chunk ops ^^ j) rv))" for k
  proof (induction k)
    case (Suc k)
    let ?r = "(chunk ops ^^ k) rv"
    have "halted ?r \<or> cycles ?r < cycles (chunk ops ?r) \<or> halted (chunk ops ?r)"
      using assms(3) P [of k] by (auto simp: chunk_def)
    then show ?case
    proof (elim disjE)
      assume "cycles ?r < cycles (chunk ops ?r)"
      then show ?thesis using Suc.IH by (auto intro: le_SucI)
    next
      assume "halted ?r"
      then show ?thesis using le_SucI [OF order_refl] by blast
    next
      assume "halted (chunk ops ?r)"
      then have "halted ((chunk ops ^^ Suc k) rv)" by simp
      then show ?thesis by blast
    qed
  qed simp
  from this [of "nat (t - cycles rv)"] have "\<exists>k. done_at t ((chunk ops ^^ k) rv)"
    unfolding done_at_def by (metis add.commute diff_add_cancel diff_le_eq le_nat_iff nat_le_iff nle_le order_trans)
  then obtain k where "done_at t ((chunk ops ^^ k) rv)" ..
  from step_until_some [OF this] obtain j where j: "riscv_step_until ops t rv = Some ((chunk ops ^^ j) rv)"
    by blast
  then show ?thesis using step_until_result [OF j] P [of j] by (auto simp: done_at_def)
qed


text \<open>A one-instruction program, \<open>jal x0, 0\<close>, at every address of a stateless bus.\<close>

definition spin_ops :: "unit bus_ops" where
  "spin_ops = \<lparr>arm_read32 = (\<lambda>a b. (0x6f, b)), arm_read16 = (\<lambda>a b. (0x6f, b)), arm_read8 = (\<lambda>a b. (0x6f, b)),
     arm_write32 = (\<lambda>a v b. b), arm_write16 = (\<lambda>a v b. b), arm_write8 = (\<lambda>a v b. b)\<rparr>"

definition reset_core :: "unit riscv_cpu" where
  "reset_core = riscv_cpu_init
     \<lparr>xreg = (\<lambda>_. 0), pc = 0, mtvec = 0, mepc = 0, mcause = 0, mtval = 0, mstatus = 0,
      mscratch = 0, mie = 0, mip = 0, cycles = 0, halted = False, trap_pc = 0, bus = (),
      rvc_cache = (\<lambda>_. 0), rvc_cache_ready = False\<rparr> () 0"

definition spinning :: "unit riscv_cpu \<Rightarrow> bool" where
  "spinning rv \<longleftrightarrow> pc rv = 0 \<and> mip rv = 0 \<and> \<not> halted rv"

lemma spin_iter: "spinning rv \<Longrightarrow> riscv_iter spin_ops rv = (False, rv\<lparr>cycles := cycles rv + 1\<rparr>)"
  by (simp add: spinning_def riscv_iter_def fetch_exec_def fetch_def ld32_def ld16_def spin_ops_def
      exec_insn_def exec_jal_def retire_def SET_def fld_rd_def imm_j_def Let_def)

lemma spin_loop: "spinning rv \<Longrightarrow> riscv_loop spin_ops k i rv = (i + int k, rv\<lparr>cycles := cycles rv + int k\<rparr>)"
proof (induction k arbitrary: i rv)
  case (Suc k)
  moreover have "spinning (rv\<lparr>cycles := c\<rparr>)" for c using Suc.prems by (simp add: spinning_def)
  ultimately show ?case by (simp add: spin_iter ac_simps)
qed simp

lemma spin_step: "spinning rv \<Longrightarrow> riscv_step spin_ops 1024 rv = (1024, rv\<lparr>cycles := cycles rv + 1024\<rparr>)"
  by (simp add: riscv_step_def spin_loop)

lemma reset_spinning: "spinning reset_core" "cycles reset_core = 0" "xreg reset_core 0 = 0" "cache_ok reset_core"
  by (simp_all add: spinning_def reset_core_def riscv_cpu_init_def cache_ok_def valid_cache_def)

theorem rv_cache_transparent_witness:
  "no_cache (snd (riscv_step spin_ops 3 reset_core)) = no_cache (snd (riscv_step spin_ops 3 (no_cache reset_core)))"
  using rv_cache_transparent [OF reset_spinning(4), of spin_ops 3] by blast

lemma spin_result: "riscv_step_until spin_ops 5 reset_core = Some (reset_core\<lparr>cycles := 1024\<rparr>)"
  using step_until_unfold [of spin_ops 5 reset_core] step_until_unfold [of spin_ops 5 "chunk spin_ops reset_core"]
    reset_spinning by (simp add: chunk_def spin_step done_at_def spinning_def)

theorem rv_step_until_bounds_witness:
  "\<exists>rv'. riscv_step_until spin_ops 5 reset_core = Some rv' \<and> 5 \<le> cycles rv' \<and> cycles rv' < 5 + 1024"
proof -
  have "\<not> halted (reset_core\<lparr>cycles := 1024\<rparr>)" using reset_spinning(1) by (simp add: spinning_def)
  then show ?thesis using rv_step_until_bounds [of reset_core 5 spin_ops, OF _ spin_result] spin_result
    by (simp add: reset_spinning)
qed

subsection \<open>Traps do not count as cycles\<close>

text \<open>A bus on which every fetch reads zero, as an unmapped region does.\<close>

definition reads_zero :: "'b bus_ops \<Rightarrow> bool" where
  "reads_zero ops \<longleftrightarrow> (\<forall>a b. fst (arm_read32 ops a b) = 0 \<and> fst (arm_read16 ops a b) = 0)"

lemma rvc_expand_0: "rvc_expand 0 = 0"
  by (simp add: rvc_expand_def rvc_quad0_def CBITS_def CB_def Let_def)

definition lost :: "int \<Rightarrow> 'b riscv_cpu \<Rightarrow> bool" where
  "lost c rv \<longleftrightarrow> cache_ok rv \<and> \<not> halted rv \<and> mip rv AND mie rv = 0 \<and> cycles rv = c"

lemma lookup_frame: "halted (snd (rvc_lookup c rv)) = halted rv" "mip (snd (rvc_lookup c rv)) = mip rv"
  "mie (snd (rvc_lookup c rv)) = mie rv"
  by (simp_all add: rvc_lookup_def Let_def)

lemma lost_iter:
  assumes z: "reads_zero ops" and l: "lost c rv"
  shows "lost c (snd (riscv_iter ops rv))"
proof -
  have "cache_ok (snd (riscv_iter ops rv))" using l cache_ok_iter by (auto simp: lost_def)
  moreover have "fst (ld16 ops a r) = 0" "fst (ld32 ops a r) = 0" for a r
    using z by (simp_all add: reads_zero_def ld16_def ld32_def split_beta)
  moreover have "cache_ok (snd (ld16 ops a rv))" "cache_ok (snd (ld32 ops a rv))" for a
    using l by (simp_all add: lost_def cache_ok_def)
  ultimately show ?thesis
    using l by (simp add: lost_def riscv_iter_def fetch_exec_def fetch_def Let_def split_beta rvc_lookup_ok
      rvc_expand_0 take_trap_def lookup_frame ld16_def ld32_def)
qed

text \<open>
  An illegal instruction traps before the cycle counter is advanced, and the loop of
  \<open>riscv_step_until\<close> is bounded by that counter only: a core whose memory reads zero (an
  illegal compressed instruction) traps to a handler that traps again, and the call never
  returns, whatever the trap vector.
\<close>

theorem rv_trap_livelock:
  assumes "reads_zero ops" "cache_ok rv" "\<not> halted rv" "mip rv AND mie rv = 0" "cycles rv < t"
  shows "riscv_step_until ops t rv = None"
proof -
  have "lost (cycles rv) (chunk ops r)" if "lost (cycles rv) r" for r
  proof -
    have "hart_invariant ops (lost (cycles rv))" by unfold_locales (rule lost_iter [OF assms(1)])
    then show ?thesis using that by (simp add: chunk_def hart_invariant.step)
  qed
  then have "lost (cycles rv) ((chunk ops ^^ k) rv)" for k
    by (induction k) (use assms in \<open>auto simp: lost_def\<close>)
  then have "\<not> done_at t ((chunk ops ^^ k) rv)" for k
    using assms(5) by (auto simp: lost_def done_at_def)
  then show ?thesis using step_until_result [of ops t rv] by (cases "riscv_step_until ops t rv") auto
qed


definition zero_ops :: "unit bus_ops" where
  "zero_ops = \<lparr>arm_read32 = (\<lambda>a b. (0, b)), arm_read16 = (\<lambda>a b. (0, b)), arm_read8 = (\<lambda>a b. (0, b)),
     arm_write32 = (\<lambda>a v b. b), arm_write16 = (\<lambda>a v b. b), arm_write8 = (\<lambda>a v b. b)\<rparr>"

theorem rv_trap_livelock_witness: "riscv_step_until zero_ops 1 reset_core = None"
proof (rule rv_trap_livelock)
  show "reads_zero zero_ops" by (simp add: reads_zero_def zero_ops_def)
  show "cache_ok reset_core" "cycles reset_core < 1" using reset_spinning by simp_all
  show "\<not> halted reset_core" "mip reset_core AND mie reset_core = 0"
    using reset_spinning by (simp_all add: spinning_def)
qed

subsection \<open>Multiplication and division\<close>

lemma sint_word_of_int32: "- (2 ^ 31) \<le> x \<Longrightarrow> x < 2 ^ 31 \<Longrightarrow> sint (word_of_int x :: u32) = x"
  by (simp add: sint_sbintrunc' signed_take_bit_int_eq_self)

lemma sint_range32: "- (2 ^ 31) \<le> sint (a :: u32)" "sint (a :: u32) < 2 ^ 31"
  using sint_range_size [of a] by (simp_all add: word_size)

lemma cdiv_bounds:
  assumes "y \<noteq> 0" shows "\<bar>cdiv x y\<bar> \<le> \<bar>x\<bar>" "\<bar>crem x y\<bar> < \<bar>y\<bar>" "x = cdiv x y * y + crem x y"
    "crem x y = 0 \<or> sgn (crem x y) = sgn x" "\<bar>crem x y\<bar> \<le> \<bar>x\<bar>"
proof -
  have d: "\<bar>x\<bar> = \<bar>x\<bar> div \<bar>y\<bar> * \<bar>y\<bar> + \<bar>x\<bar> mod \<bar>y\<bar>" by simp
  have sx: "x = sgn x * \<bar>x\<bar>" "y = sgn y * \<bar>y\<bar>" by (simp_all add: sgn_mult_abs)
  have yy: "sgn y * y = \<bar>y\<bar>" by (simp add: abs_sgn)
  have c: "crem x y = sgn x * (\<bar>x\<bar> mod \<bar>y\<bar>)"
  proof -
    have "crem x y = sgn x * \<bar>x\<bar> - sgn x * (\<bar>x\<bar> div \<bar>y\<bar>) * (sgn y * y)"
      using sx(1) by (simp add: crem_def cdiv_def algebra_simps)
    also have "\<dots> = sgn x * (\<bar>x\<bar> - \<bar>x\<bar> div \<bar>y\<bar> * \<bar>y\<bar>)" by (simp only: yy) (simp add: right_diff_distrib mult.assoc)
    finally show ?thesis by (simp add: minus_div_mult_eq_mod)
  qed
  have m: "0 \<le> \<bar>x\<bar> mod \<bar>y\<bar>" "\<bar>x\<bar> mod \<bar>y\<bar> < \<bar>y\<bar>" "\<bar>x\<bar> mod \<bar>y\<bar> \<le> \<bar>x\<bar>" using assms by (simp_all add: zmod_le_nonneg_dividend)
  show "\<bar>crem x y\<bar> < \<bar>y\<bar>" unfolding c using m assms by (cases "x = 0") (auto simp: abs_mult)
  show "\<bar>crem x y\<bar> \<le> \<bar>x\<bar>" unfolding c using m by (cases "x = 0") (auto simp: abs_mult)
  show "x = cdiv x y * y + crem x y" by (simp add: crem_def)
  show "crem x y = 0 \<or> sgn (crem x y) = sgn x" using m by (auto simp: c sgn_mult sgn_if)
  have "\<bar>x\<bar> div \<bar>y\<bar> \<le> \<bar>x\<bar>" "0 \<le> \<bar>x\<bar> div \<bar>y\<bar>" using assms zdiv_mono2 [of "\<bar>x\<bar>" 1 "\<bar>y\<bar>"] by (simp_all add: pos_imp_zdiv_nonneg_iff)
  then show "\<bar>cdiv x y\<bar> \<le> \<bar>x\<bar>" using assms by (cases "x = 0") (auto simp: cdiv_def abs_mult)
qed


lemma no_overflow_bound:
  assumes "sint (b::u32) \<noteq> 0" "\<not> (sint (a::u32) = - 0x80000000 \<and> sint b = - 1)"
  shows "- (2 ^ 31) \<le> cdiv (sint a) (sint b)" "cdiv (sint a) (sint b) < 2 ^ 31"
proof -
  have a: "- (2 ^ 31) \<le> sint a" "sint a < 2 ^ 31" by (rule sint_range32)+
  have le: "\<bar>cdiv (sint a) (sint b)\<bar> \<le> \<bar>sint a\<bar>" by (rule cdiv_bounds(1) [OF assms(1)])
  show "- (2 ^ 31) \<le> cdiv (sint a) (sint b)" using a le by linarith
  show "cdiv (sint a) (sint b) < 2 ^ 31"
  proof (cases "sint a = - 0x80000000")
    case False
    then show ?thesis using a le by simp
  next
    case True
    then have nb: "sint b \<noteq> - 1" using assms(2) by simp
    show ?thesis
    proof (rule ccontr)
      assume "\<not> ?thesis"
      then have q: "cdiv (sint a) (sint b) = 0x80000000" using le True by simp
      then have "- 0x80000000 = 0x80000000 * sint b + crem (sint a) (sint b)"
        using cdiv_bounds(3) [OF assms(1), of "sint a"] True by simp
      moreover have "\<bar>crem (sint a) (sint b)\<bar> < \<bar>sint b\<bar>" by (rule cdiv_bounds(2) [OF assms(1)])
      ultimately show False using nb assms(1) by linarith
    qed
  qed
qed

text \<open>
  Signed division and remainder agree with the architecture on all inputs: they are the
  truncating quotient and remainder (Euclid's equation, remainder smaller than the divisor
  and with the sign of the dividend), with the defined results for a zero divisor and for the
  one overflowing quotient.
\<close>

theorem rv_div_rem:
  "sint a = sint (alu_mul_div 4 a b) * sint b + sint (alu_mul_div 6 a b) \<and>
     \<bar>sint (alu_mul_div 6 a b)\<bar> < \<bar>sint b\<bar> \<and>
     (sint (alu_mul_div 6 a b) = 0 \<or> sgn (sint (alu_mul_div 6 a b)) = sgn (sint a)) \<or>
   b = 0 \<and> alu_mul_div 4 a b = - 1 \<and> alu_mul_div 6 a b = a \<or>
   sint a = - (2 ^ 31) \<and> sint b = - 1 \<and> alu_mul_div 4 a b = a \<and> alu_mul_div 6 a b = 0"
proof -
  consider "b = 0" | "sint a = - 0x80000000 \<and> sint b = - 1"
    | "sint b \<noteq> 0" "\<not> (sint a = - 0x80000000 \<and> sint b = - 1)"
    proof -
    have "sint b = 0 \<Longrightarrow> b = 0" by (metis signed_0 signed_word_eqI)
    then show thesis using that by blast
  qed
  then show ?thesis
  proof cases
    case 3
    have r: "- (2 ^ 31) \<le> crem (sint a) (sint b)" "crem (sint a) (sint b) < 2 ^ 31"
      using cdiv_bounds(2) [OF 3(1), of "sint a"] sint_range32 [of b] by linarith+
    have q: "alu_mul_div 4 a b = word_of_int (cdiv (sint a) (sint b))"
      "alu_mul_div 6 a b = word_of_int (crem (sint a) (sint b))"
      using 3 by (auto simp: alu_mul_div_def Let_def)
    show ?thesis
      unfolding q sint_word_of_int32 [OF no_overflow_bound [OF 3]] sint_word_of_int32 [OF r]
      using cdiv_bounds [OF 3(1), of "sint a"] by blast
  qed (simp_all add: alu_mul_div_def Let_def)
qed

lemma mul_halves:
  assumes "- (2 ^ 63) \<le> p" "p < 2 ^ 63" "p mod 2 ^ 32 = uint (a * b :: u32)"
  shows "p = sint (word_of_int (drop_bit 32 p) :: u32) * 2 ^ 32 + uint (a * b)"
proof -
  have "- (2 ^ 31) \<le> p div 2 ^ 32" using assms(1) by simp
  moreover have "p div 2 ^ 32 < 2 ^ 31" using assms(2) by (simp; linarith)
  ultimately have "sint (word_of_int (drop_bit 32 p) :: u32) = p div 2 ^ 32"
    by (simp add: drop_bit_eq_div sint_word_of_int32)
  then show ?thesis using assms(3) div_mult_mod_eq [of p "2 ^ 32"] by simp
qed

lemma prod_bounds:
  assumes "- (2 ^ 31) \<le> x" "x < 2 ^ 31" "- (2 ^ 31) \<le> y" "y < 2 ^ 32"
  shows "- (2 ^ 63) \<le> x * (y::int)" "x * y < 2 ^ 63"
proof -
  have "\<bar>x\<bar> * \<bar>y\<bar> \<le> 2 ^ 31 * (2 ^ 32 - 1)" using assms by (intro mult_mono) auto
  then have "\<bar>x * y\<bar> \<le> 2 ^ 31 * (2 ^ 32 - 1)" by (simp add: abs_mult)
  then show "- (2 ^ 63) \<le> x * y" "x * y < 2 ^ 63" by simp_all
qed

text \<open>
  The high and low halves of a product, as computed by \<open>MULH\<close>, \<open>MULHSU\<close>, \<open>MULHU\<close>
  and \<open>MUL\<close>, are together the exact 64-bit product of the operands read as signed or
  unsigned numbers.
\<close>

theorem rv_mul_halves:
  "sint a * sint b = sint (alu_mul_div 1 a b) * 2 ^ 32 + uint (alu_mul_div 0 a b) \<and>
   sint a * uint b = sint (alu_mul_div 2 a b) * 2 ^ 32 + uint (alu_mul_div 0 a b) \<and>
   uint a * uint b = uint (alu_mul_div 3 a b) * 2 ^ 32 + uint (alu_mul_div 0 a b)"
proof -
  have u: "uint (a * b) = (uint a * uint b) mod 2 ^ 32" by (simp add: uint_word_ariths)
  have m: "sint x mod 2 ^ 32 = uint x" for x :: u32
    using uint_sint [of x] by (simp add: take_bit_eq_mod)
  have s1: "sint a * sint b mod 2 ^ 32 = uint (a * b)"
    using m [of a] m [of b] by (metis u mod_mult_eq)
  have s2: "sint a * uint b mod 2 ^ 32 = uint (a * b)"
    using m [of a] by (metis u mod_mult_left_eq)
  have ub: "0 \<le> uint a" "uint a < 2 ^ 32" "0 \<le> uint b" "uint b < 2 ^ 32"
    using uint_lt2p [of a] uint_lt2p [of b] by simp_all
  have sb: "sint b < 2 ^ 32" using sint_range32 [of b] by simp
  have hi: "uint (word_of_int (drop_bit 32 (uint a * uint b)) :: u32) = uint a * uint b div 2 ^ 32"
  proof -
    have "uint a * uint b < 2 ^ 32 * 2 ^ 32" using ub by (intro mult_strict_mono) auto
    then have "uint a * uint b div 2 ^ 32 < 2 ^ 32" by (simp; linarith)
    then show ?thesis using ub by (simp add: drop_bit_eq_div take_bit_int_eq_self uint_word_of_int_eq pos_imp_zdiv_nonneg_iff)
  qed
  show ?thesis
    unfolding alu_mul_div_def
    using mul_halves [OF prod_bounds s1] mul_halves [OF prod_bounds s2] sint_range32 sb ub hi u
      div_mult_mod_eq [of "uint a * uint b" "2 ^ 32"]
    by simp
qed

subsection \<open>Interrupts and waiting\<close>

lemma irq_ack_bits: "bit (m AND NOT (push_bit k 1) :: u32) b \<longleftrightarrow> bit m b \<and> b \<noteq> k"
  by (auto simp: bit_simps dest: bit_imp_le_length)

lemma pending_bit: "(w :: u32) AND push_bit k 1 \<noteq> 0 \<longleftrightarrow> bit w k"
  by (metis push_bit_of_1 and_exp_eq_0_iff_not_bit)

lemma irq_cause_cases: "irq_cause m = 11 \<or> irq_cause m = 3 \<or> irq_cause m = 7"
  by (simp add: irq_cause_def)

text \<open>
  C10. Taking an interrupt and returning from it: with an enabled interrupt pending and interrupts
  on, the next iteration vectors to the handler with interrupts off, the registers untouched, no cycle
  charged and only the chosen pending bit acknowledged, in the priority order external, software, timer;
  and \<open>MRET\<close> in any later state \<open>h\<close> in which the handler has kept \<open>mepc\<close> and \<open>mstatus\<close> resumes at the
  interrupted instruction with interrupts on again and the handler's registers.
\<close>

theorem rv_interrupt_return:
  assumes "mip rv AND mie rv \<noteq> 0" "bit (mstatus rv) 3"
    and "r = snd (riscv_iter ops rv)" "mepc h = mepc r" "mstatus h = mstatus r"
    and "cause = irq_cause (mip rv AND mie rv)"
  shows "\<not> fst (riscv_iter ops rv) \<and> pc r = mtvec rv AND NOT 3 \<and> mcause r = 0x80000000 OR cause \<and>
         \<not> bit (mstatus r) 3 \<and> \<not> halted r \<and> (\<forall>b. bit (mip r) b \<longleftrightarrow> bit (mip rv) b \<and> b \<noteq> unat cause) \<and>
         xreg r = xreg rv \<and> cycles r = cycles rv \<and> bus r = bus rv \<and>
         (bit (mip rv AND mie rv) 11 \<longrightarrow> cause = 11) \<and>
         (\<not> bit (mip rv AND mie rv) 11 \<and> bit (mip rv AND mie rv) 3 \<longrightarrow> cause = 3) \<and>
         (\<not> bit (mip rv AND mie rv) 11 \<and> \<not> bit (mip rv AND mie rv) 3 \<longrightarrow> cause = 7) \<and>
         exec_insn ops 0x30200073 p n h = h\<lparr>mstatus := mstatus rv OR 0x1880, pc := pc rv\<rparr> \<and>
         bit (mstatus rv OR 0x1880) 3"
proof -
  have ms: "mstatus rv AND push_bit 3 1 \<noteq> 0" using assms(2) pending_bit by blast
  have r: "r = rv\<lparr>mip := mip rv AND NOT (push_bit (unat cause) 1), halted := False,
                   mepc := pc rv, mcause := 0x80000000 OR cause, mtval := 0,
                   mstatus := trap_mstatus (mstatus rv), pc := mtvec rv AND NOT 3, trap_pc := pc rv\<rparr>"
    and nb: "\<not> fst (riscv_iter ops rv)"
    using assms(1,3,6) ms by (simp_all add: riscv_iter_def riscv_take_pending_irq_def Let_def)
  have "exec_insn ops 0x30200073 p n h = h\<lparr>mstatus := mret_mstatus (mstatus h), pc := mepc h\<rparr>"
    by (simp add: exec_insn_def exec_system_def fld_funct3_def retire_def Let_def)
  then have resumed: "exec_insn ops 0x30200073 p n h = h\<lparr>mstatus := mstatus rv OR 0x1880, pc := pc rv\<rparr>"
    using assms(4,5) mret_after_trap [of "mstatus rv"] by (simp add: r)
  have pr: "bit (mip rv AND mie rv) 11 \<longrightarrow> cause = 11"
    "\<not> bit (mip rv AND mie rv) 11 \<and> bit (mip rv AND mie rv) 3 \<longrightarrow> cause = 3"
    "\<not> bit (mip rv AND mie rv) 11 \<and> \<not> bit (mip rv AND mie rv) 3 \<longrightarrow> cause = 7"
    unfolding assms(6) irq_cause_def pending_bit by simp_all
  have "bit (mstatus rv OR 0x1880) 3" using assms(2) by (simp add: bit_or_iff)
  then show ?thesis
    unfolding resumed using nb pr trap_mstatus_bits
    by (simp add: r irq_ack_bits irq_ack_bits [simplified])
qed

definition irq_core :: "unit riscv_cpu" where
  "irq_core = reset_core\<lparr>mip := 0x88, mie := 0x888, mstatus := 8, mtvec := 0x101, pc := 0x40\<rparr>"

text \<open>A handler that has written a CSR and charged some cycles before it returns.\<close>

theorem rv_interrupt_return_witness:
  "let r = snd (riscv_iter spin_ops irq_core); h = r\<lparr>pc := 0x110, mscratch := 7, cycles := 4\<rparr>
   in pc r = 0x100 \<and> mcause r = 0x80000003 \<and> mip r = 0x80 \<and> pc (exec_insn spin_ops 0x30200073 0x110 0x114 h) = 0x40"
proof -
  have i: "mip irq_core AND mie irq_core = 0x88" "bit (mstatus irq_core) 3" "mtvec irq_core = 0x101" "pc irq_core = 0x40"
    by (simp_all add: irq_core_def)
  have "mip (snd (riscv_iter spin_ops irq_core)) = 0x80"
    by (simp add: irq_core_def riscv_iter_def riscv_take_pending_irq_def irq_cause_def Let_def)
  then show ?thesis using i
      rv_interrupt_return [of irq_core "snd (riscv_iter spin_ops irq_core)" spin_ops
        "(snd (riscv_iter spin_ops irq_core))\<lparr>pc := 0x110, mscratch := 7, cycles := 4\<rparr>" 3 "0x110" "0x114"]
    by (simp add: irq_cause_def Let_def)
qed

text \<open>
  A hart that waits for an interrupt with none pending is parked: stepping and running to
  any target return at once and change nothing. Raising an enabled interrupt makes the next
  step run, even with interrupts globally off, in which case execution continues at the
  instruction after the wait.
\<close>

theorem rv_wfi_parks:
  assumes "halted rv" "mip rv AND mie rv = 0" "m AND mie rv \<noteq> 0"
  shows "riscv_step ops n rv = (0, rv) \<and> riscv_step_until ops t rv = Some rv \<and>
         flpr_costep ops (Some rv) d = Some (Some rv) \<and>
         (\<exists>rv1. flpr_raise_irq (Some rv) m = Some rv1 \<and> \<not> fst (riscv_iter ops rv1) \<and>
            (\<not> bit (mstatus rv) 3 \<longrightarrow> riscv_iter ops rv1 = (False, fetch_exec ops rv1) \<and> pc rv1 = pc rv))"
proof -
  have "riscv_iter ops rv = (True, rv)" using riscv_iter_break [of ops rv] assms by (simp add: prod_eq_iff)
  then have s: "riscv_step ops n rv = (0, rv)"
    by (cases "nat n") (simp_all add: riscv_step_def)
  have u: "riscv_step_until ops x rv = Some rv" for x
    using assms(1) by (subst riscv_step_until.simps) simp
  define rv1 where "rv1 = rv\<lparr>mip := mip rv OR m, halted := False\<rparr>"
  have p: "mip rv1 AND mie rv1 \<noteq> 0"
    using assms(3) by (auto simp: rv1_def bit_eq_iff bit_simps)
  have "mstatus rv1 AND push_bit 3 1 = 0" if "\<not> bit (mstatus rv) 3"
    using that pending_bit [of "mstatus rv1" 3] by (simp add: rv1_def)
  moreover have "rv1\<lparr>halted := False\<rparr> = rv1" by (simp add: rv1_def)
  ultimately have "riscv_iter ops rv1 = (False, fetch_exec ops rv1)" if "\<not> bit (mstatus rv) 3"
    using p that by (simp add: riscv_iter_def riscv_take_pending_irq_def Let_def) (simp add: rv1_def)
  moreover have "\<not> fst (riscv_iter ops rv1)" by (simp add: riscv_iter_break rv1_def)
  ultimately show ?thesis
    using s u by (auto simp: flpr_costep_def flpr_raise_irq_def rv1_def)
qed

theorem rv_wfi_parks_witness:
  "riscv_step spin_ops 9 (irq_core\<lparr>mip := 0, halted := True\<rparr>) = (0, irq_core\<lparr>mip := 0, halted := True\<rparr>)"
proof -
  have "riscv_step spin_ops 9 rv = (0, rv)" if "rv = irq_core\<lparr>mip := 0, halted := True\<rparr>" for rv
    using rv_wfi_parks [of rv 8 spin_ops 9 0 0] by (simp add: that irq_core_def)
  then show ?thesis by blast
qed

subsection \<open>Returning\<close>

text \<open>
  An iteration leaves the cycle counter alone only when it takes an interrupt, when the program
  counter is odd, or on an illegal compressed instruction; in each case it leaves the core at the
  trap vector with interrupts off, and the next iteration charges a cycle if the instruction there
  is not an illegal compressed one.
\<close>

definition legal_word :: "u32 \<Rightarrow> bool" where
  "legal_word w \<longleftrightarrow> w AND 3 = 3 \<or> rvc_expand (ucast w) \<noteq> 0"

definition vector_legal :: "'b bus_ops \<Rightarrow> 'b riscv_cpu \<Rightarrow> bool" where
  "vector_legal ops rv \<longleftrightarrow> legal_word (fst (arm_read32 ops (mtvec rv AND NOT 3) (bus rv)))"

definition at_vector :: "'b riscv_cpu \<Rightarrow> bool" where
  "at_vector rv \<longleftrightarrow> pc rv = mtvec rv AND NOT 3 \<and> \<not> bit (mstatus rv) 3 \<and> \<not> halted rv"

lemma vector_aligned: "(v AND NOT 3) AND 2 = (0 :: u32)" "(v AND NOT 3) AND 1 = (0 :: u32)"
proof -
  have "NOT 3 AND 2 = (0 :: u32)" "NOT 3 AND 1 = (0 :: u32)" by simp_all
  then show "(v AND NOT 3) AND 2 = (0 :: u32)" "(v AND NOT 3) AND 1 = (0 :: u32)" by (simp_all only: and.assoc and_zero_eq)
qed

lemma low_half: "(ucast (w AND 0xffff :: u32) :: u16) = ucast w"
proof -
  have "w AND 0xffff = take_bit 16 w" by (simp add: take_bit_eq_mask mask_eq_exp_minus_1)
  then show ?thesis by (simp add: unsigned_ucast_eq) (rule bit_word_eqI, simp add: bit_simps)
qed

lemma take_trap_vector: "\<not> halted rv \<Longrightarrow> at_vector (take_trap c t e rv)"
  by (simp add: at_vector_def take_trap_def trap_mstatus_bits)

lemma fetch_halted [simp]: "halted (snd (fetch ops rv)) = halted rv" "mtvec (snd (fetch ops rv)) = mtvec rv"
  by (simp_all add: fetch_def Let_def split_beta lookup_frame) (simp_all add: ld16_def ld32_def rvc_lookup_def split_beta Let_def)

lemma fetch_exec_idle:
  assumes "\<not> halted rv"
  shows "cycles (fetch_exec ops rv) = cycles rv + 1 \<or> at_vector (fetch_exec ops rv)"
  using take_trap_vector assms by (auto simp: fetch_exec_def Let_def split_beta)

lemma iter_idle:
  assumes "\<not> fst (riscv_iter ops rv)"
  shows "cycles (snd (riscv_iter ops rv)) = cycles rv + 1 \<or> at_vector (snd (riscv_iter ops rv))"
proof -
  have "at_vector (snd (riscv_take_pending_irq r))" if "fst (riscv_take_pending_irq r)" for r :: "'a riscv_cpu"
    using that by (auto simp: riscv_take_pending_irq_def at_vector_def trap_mstatus_bits Let_def split: if_splits)
  moreover have "snd (riscv_take_pending_irq r) = r" if "\<not> fst (riscv_take_pending_irq r)" for r :: "'a riscv_cpu"
    using that by (auto simp: riscv_take_pending_irq_def Let_def split: if_splits)
  ultimately show ?thesis
    using assms fetch_exec_idle [of rv ops] fetch_exec_idle [of "rv\<lparr>halted := False\<rparr>" ops]
    by (auto simp: riscv_iter_def Let_def split_beta split: if_splits)
qed

lemma vector_fetch:
  assumes "at_vector rv" "cache_ok rv" "vector_legal ops rv"
  shows "cycles (fetch_exec ops rv) = cycles rv + 1"
proof -
  obtain w b where w: "arm_read32 ops (mtvec rv AND NOT 3) (bus rv) = (w, b)" by fastforce
  have l: "w AND 3 = 3 \<or> rvc_expand (ucast w) \<noteq> 0" using assms(3) w by (simp add: vector_legal_def legal_word_def)
  have ok: "cache_ok (rv\<lparr>bus := b\<rparr>)" using assms(2) by (simp add: cache_ok_def)
  have p: "pc rv AND 2 = 0" "pc rv AND 1 = 0" using assms(1) vector_aligned by (simp_all add: at_vector_def)
  have f: "fetch ops rv = (if w AND 3 = 3 then ((w, pc rv + 4, w), rv\<lparr>bus := b\<rparr>)
      else (let comp = w AND 0xffff; (insn, rv2) = rvc_lookup (ucast comp) (rv\<lparr>bus := b\<rparr>) in ((insn, pc rv + 2, comp), rv2)))"
    using assms(1) w p by (simp add: fetch_def ld32_def at_vector_def Let_def)
  have "cycles (fetch_exec ops rv) = cycles (snd (fetch ops rv)) + 1"
    using p l rvc_lookup_ok(1) [OF ok, of "ucast w"]
    by (auto simp: fetch_exec_def f Let_def split_beta low_half)
  then show ?thesis by simp
qed

lemma vector_iter:
  assumes "at_vector rv" "cache_ok rv" "vector_legal ops rv"
  shows "\<not> fst (riscv_iter ops rv)" "cycles (snd (riscv_iter ops rv)) = cycles rv + 1"
proof -
  have m: "mstatus rv AND push_bit 3 1 = 0" "\<not> halted rv"
    using assms(1) pending_bit [of "mstatus rv" 3] by (simp_all add: at_vector_def)
  have e: "rv\<lparr>halted := False\<rparr> = rv" using m(2) by simp
  have "riscv_take_pending_irq rv = (False, rv)" using m(1) unfolding riscv_take_pending_irq_def by (simp add: Let_def)
  then have "riscv_iter ops rv = (False, fetch_exec ops rv)" using m(2) unfolding riscv_iter_def e by (simp add: Let_def)
  then show "\<not> fst (riscv_iter ops rv)" "cycles (snd (riscv_iter ops rv)) = cycles rv + 1"
    using vector_fetch [OF assms] by simp_all
qed

text \<open>A run is the iteration of its body, since a body that breaks changes nothing.\<close>

definition hart_next :: "'b bus_ops \<Rightarrow> 'b riscv_cpu \<Rightarrow> 'b riscv_cpu" where
  "hart_next ops rv = snd (riscv_iter ops rv)"

lemma loop_state: "snd (riscv_loop ops k i rv) = (hart_next ops ^^ k) rv"
proof (induction k arbitrary: i rv)
  case (Suc k)
  show ?case
  proof (cases "fst (riscv_iter ops rv)")
    case True
    then have e: "hart_next ops rv = rv" using riscv_iter_break(2) by (simp add: hart_next_def)
    have "(hart_next ops ^^ m) rv = rv" for m by (induction m) (simp_all add: e)
    then show ?thesis using True riscv_iter_break(2) [OF True] e by (simp add: split_beta)
  next
    case False
    then show ?thesis using Suc.IH by (simp add: split_beta funpow_Suc_right hart_next_def del: funpow.simps)
  qed
qed simp

lemma step_step: "0 \<le> m \<Longrightarrow> 0 \<le> n \<Longrightarrow>
    snd (riscv_step ops m (snd (riscv_step ops n rv))) = snd (riscv_step ops (m + n) rv)"
  by (simp add: riscv_step_def loop_state nat_add_distrib funpow_add)

lemma chunk_progress:
  assumes "\<And>n. 0 \<le> n \<Longrightarrow> vector_legal ops (snd (riscv_step ops n rv))" "cache_ok rv" "\<not> halted rv"
  shows "cycles rv < cycles (snd (riscv_step ops 1024 rv))"
proof -
  let ?r = "snd (riscv_iter ops rv)" and ?e = "snd (riscv_step ops 1024 rv)"
  have nb: "\<not> fst (riscv_iter ops rv)" using assms(3) riscv_iter_break by blast
  have "hart_next ops ^^ 1024 = hart_next ops ^^ (1022 + 2)" by simp
  then have s: "?e = snd (riscv_loop ops 1022 0 (snd (riscv_iter ops ?r)))"
    by (simp only: riscv_step_def loop_state funpow_add comp_def) (simp add: hart_next_def numeral_2_eq_2)
  have m: "cycles (snd (riscv_iter ops ?r)) \<le> cycles ?e" unfolding s using riscv_loop_bounds by blast
  have c: "cycles ?r = cycles rv + 1 \<or> at_vector ?r" by (rule iter_idle [OF nb])
  have v: "vector_legal ops ?r" using assms(1) [of 1] nb by (simp add: riscv_step_def split_beta)
  have "cycles rv < cycles (snd (riscv_iter ops ?r))"
    using c vector_iter(2) [OF _ cache_ok_iter [OF assms(2)] v] riscv_iter_cycles [of ?r ops] riscv_iter_cycles [of rv ops] by force
  then show ?thesis using m by simp
qed

text \<open>
  C26. \<open>riscv_step_until\<close> returns, for every target, on every core with a usable trap vector: if at each
  point of the run the word at the trap vector is not an illegal compressed instruction, the call
  returns with the target reached, overshot by at most 1023 cycles, or the hart waiting. Nothing else is
  asked of the program: it may trap, take interrupts and loop for ever.
\<close>

theorem rv_step_until_returns:
  assumes "\<And>n. 0 \<le> n \<Longrightarrow> vector_legal ops (snd (riscv_step ops n rv))" "cache_ok rv" "cycles rv < t"
  shows "\<exists>rv'. riscv_step_until ops t rv = Some rv' \<and> (t \<le> cycles rv' \<or> halted rv') \<and> cycles rv' < t + 1024"
proof -
  let ?P = "\<lambda>r. cache_ok r \<and> (\<forall>n\<ge>0. vector_legal ops (snd (riscv_step ops n r)))"
  have "\<exists>rv'. riscv_step_until ops t rv = Some rv' \<and> ?P rv' \<and> (t \<le> cycles rv' \<or> halted rv')"
  proof (rule step_until_progress)
    show "?P rv" using assms(1, 2) by simp
    show "\<forall>r. ?P r \<longrightarrow> ?P (snd (riscv_step ops 1024 r))"
      by (auto simp: step_step cache.step)
    show "\<forall>r. ?P r \<and> \<not> halted r \<longrightarrow>
        cycles r < cycles (snd (riscv_step ops 1024 r)) \<or> halted (snd (riscv_step ops 1024 r))"
      using chunk_progress by blast
  qed
  then show ?thesis using step_until_overshoot [OF assms(3)] by blast
qed

text \<open>A bus on which every instruction is \<open>ebreak\<close>: the hart traps at every step, and each trap is charged.\<close>

definition break_ops :: "unit bus_ops" where
  "break_ops = \<lparr>arm_read32 = (\<lambda>a b. (0x00100073, b)), arm_read16 = (\<lambda>a b. (0, b)), arm_read8 = (\<lambda>a b. (0, b)),
     arm_write32 = (\<lambda>a v b. b), arm_write16 = (\<lambda>a v b. b), arm_write8 = (\<lambda>a v b. b)\<rparr>"

theorem rv_step_until_returns_witness:
  "\<exists>rv'. riscv_step_until break_ops 100000 reset_core = Some rv' \<and> (100000 \<le> cycles rv' \<or> halted rv') \<and> cycles rv' < 100000 + 1024"
proof (rule rv_step_until_returns)
  show "vector_legal break_ops (snd (riscv_step break_ops n reset_core))" for n
    by (simp add: vector_legal_def legal_word_def break_ops_def)
  show "cache_ok reset_core" "cycles reset_core < 100000" using reset_spinning by simp_all
qed

end
