(* ===== verification/Sim_Event_Queue.thy ===== *)
theory Sim_Event_Queue
  imports Cooja_Prelude
begin

text \<open>
  The kernel's event queue (\<open>src/common/sim_event_queue.c\<close>): a binary min-heap ordered by
  \<open>(time_ns, seq)\<close> with \<open>node_heap_idx[]\<close>, the slot of each node's single pending wakeup.
  The live prefix \<open>heap[0 .. count)\<close> of the C array is the list \<open>heap\<close>, so \<open>count\<close> is its
  length; a slot past \<open>count\<close> is written in full before it becomes live again and is never
  read in between.

  The abstract queue is \<open>pending q\<close>, the list of events sorted by \<open>(time_ns, seq)\<close>.
  The refinement lemmas show what each operation does to that list, and the locale
  \<open>timed_queue\<close> is the interface the runtime relies on.
\<close>

subsection \<open>Data\<close>

datatype sim_event_kind =
  SIM_EV_NODE_WAKEUP | SIM_EV_RX_BYTE | SIM_EV_TEST_ACTION | SIM_EV_RADIO_TIMER

record sim_event =
  kind :: sim_event_kind
  node_idx :: int
  time_ns :: int
  seq :: u64
  sender_idx :: int
  ev_byte :: u8
  rssi :: int
  target_generation :: u32

record sim_event_queue =
  heap :: "sim_event list"
  node_heap_idx :: "int \<Rightarrow> int"
  next_seq :: u64

abbreviation SIM_EQ_MAX_EVENTS :: nat where "SIM_EQ_MAX_EVENTS \<equiv> 65536"
abbreviation SIM_EQ_MAX_NODES :: int where "SIM_EQ_MAX_NODES \<equiv> 128"

abbreviation count :: "sim_event_queue \<Rightarrow> nat" where "count q \<equiv> length (heap q)"

abbreviation valid_eq_node :: "int \<Rightarrow> bool" where
  "valid_eq_node n \<equiv> 0 \<le> n \<and> n < SIM_EQ_MAX_NODES"

subsection \<open>Heap maintenance\<close>

definition ev_less :: "sim_event \<Rightarrow> sim_event \<Rightarrow> bool" where
  "ev_less a b = (if time_ns a \<noteq> time_ns b then time_ns a < time_ns b else seq a < seq b)"

definition track_slot :: "nat \<Rightarrow> sim_event_queue \<Rightarrow> sim_event_queue" where
  "track_slot slot q =
     (let e = heap q ! slot in
      if kind e = SIM_EV_NODE_WAKEUP \<and> valid_eq_node (node_idx e)
      then q\<lparr>node_heap_idx := (node_heap_idx q)(node_idx e := int slot)\<rparr>
      else q)"

function sift_up_loop :: "sim_event \<Rightarrow> nat \<Rightarrow> sim_event_queue \<Rightarrow> nat \<times> sim_event_queue" where
  "sift_up_loop ev i q =
     (if i > 0 then
        let parent = (i - 1) div 2 in
        if \<not> ev_less ev (heap q ! parent) then (i, q)
        else sift_up_loop ev parent (track_slot i (q\<lparr>heap := (heap q)[i := heap q ! parent]\<rparr>))
      else (i, q))"
  by pat_completeness auto
termination
  by (relation "measure (\<lambda>(ev, i, q). i)") auto

definition heap_sift_up :: "nat \<Rightarrow> sim_event_queue \<Rightarrow> sim_event_queue" where
  "heap_sift_up start q =
     (let ev = heap q ! start; (i, q') = sift_up_loop ev start q in
      if i \<noteq> start then track_slot i (q'\<lparr>heap := (heap q')[i := ev]\<rparr>) else q')"

function sift_down_loop ::
  "sim_event \<Rightarrow> nat \<Rightarrow> nat \<Rightarrow> sim_event_queue \<Rightarrow> nat \<times> sim_event_queue" where
  "sift_down_loop ev n i q =
     (let left = 2 * i + 1 in
      if left \<ge> n then (i, q)
      else
        let right = left + 1;
            child = (if right < n \<and> ev_less (heap q ! right) (heap q ! left) then right else left)
        in if \<not> ev_less (heap q ! child) ev then (i, q)
           else sift_down_loop ev n child
                  (track_slot i (q\<lparr>heap := (heap q)[i := heap q ! child]\<rparr>)))"
  by pat_completeness auto
termination
  by (relation "measure (\<lambda>(ev, n, i, q). n - i)") (auto simp: Let_def)

definition heap_sift_down :: "nat \<Rightarrow> sim_event_queue \<Rightarrow> sim_event_queue" where
  "heap_sift_down start q =
     (let ev = heap q ! start; (i, q') = sift_down_loop ev (count q) start q in
      if i \<noteq> start then track_slot i (q'\<lparr>heap := (heap q')[i := ev]\<rparr>) else q')"

definition wakeup_slot :: "sim_event_queue \<Rightarrow> int \<Rightarrow> int" where
  "wakeup_slot q n =
     (let i = node_heap_idx q n in
      if i \<ge> 0 \<and> i < int (count q) \<and>
         kind (heap q ! nat i) = SIM_EV_NODE_WAKEUP \<and> node_idx (heap q ! nat i) = n
      then i else -1)"

definition clear_index :: "nat \<Rightarrow> sim_event_queue \<Rightarrow> sim_event_queue" where
  "clear_index slot q =
     (let e = heap q ! slot in
      if kind e = SIM_EV_NODE_WAKEUP \<and> valid_eq_node (node_idx e)
      then q\<lparr>node_heap_idx := (node_heap_idx q)(node_idx e := -1)\<rparr>
      else q)"

subsection \<open>Operations\<close>

definition sim_eq_init :: sim_event_queue where
  "sim_eq_init = \<lparr>heap = [], node_heap_idx = (\<lambda>_. -1), next_seq = 0\<rparr>"

text \<open>The common tail of the inserting operations: write slot \<open>count++\<close>, then sift up.\<close>

definition push_event :: "sim_event \<Rightarrow> sim_event_queue \<Rightarrow> sim_event_queue" where
  "push_event e q = heap_sift_up (count q) (q\<lparr>heap := heap q @ [e], next_seq := next_seq q + 1\<rparr>)"

definition wakeup_event :: "sim_event_queue \<Rightarrow> int \<Rightarrow> int \<Rightarrow> u32 \<Rightarrow> sim_event" where
  "wakeup_event q n t gen =
     \<lparr>kind = SIM_EV_NODE_WAKEUP, node_idx = n, time_ns = t, seq = next_seq q,
      sender_idx = -1, ev_byte = 0, rssi = 0, target_generation = gen\<rparr>"

definition sim_eq_schedule_gen ::
  "sim_event_queue \<Rightarrow> int \<Rightarrow> int \<Rightarrow> u32 \<Rightarrow> sim_event_queue" where
  "sim_eq_schedule_gen q n t gen =
     (if n < 0 \<or> n \<ge> SIM_EQ_MAX_NODES then q
      else
        let existing = wakeup_slot q n in
        if existing \<ge> 0 then
          let i = nat existing;
              e = heap q ! i;
              earlier = t < time_ns e;
              e' = e\<lparr>time_ns := t, seq := next_seq q, target_generation := gen\<rparr>;
              q' = q\<lparr>heap := (heap q)[i := e'], next_seq := next_seq q + 1\<rparr>
          in if earlier then heap_sift_up i q' else heap_sift_down i q'
        else if count q \<ge> SIM_EQ_MAX_EVENTS then q
        else
          let i = count q in
          heap_sift_up i
            (q\<lparr>heap := heap q @ [wakeup_event q n t gen],
               next_seq := next_seq q + 1,
               node_heap_idx := (node_heap_idx q)(n := int i)\<rparr>))"

definition sim_eq_schedule :: "sim_event_queue \<Rightarrow> int \<Rightarrow> int \<Rightarrow> sim_event_queue" where
  "sim_eq_schedule q n t = sim_eq_schedule_gen q n t 0"

definition sim_eq_schedule_if_earlier_gen ::
  "sim_event_queue \<Rightarrow> int \<Rightarrow> int \<Rightarrow> u32 \<Rightarrow> sim_event_queue" where
  "sim_eq_schedule_if_earlier_gen q n t gen =
     (if n < 0 \<or> n \<ge> SIM_EQ_MAX_NODES then q
      else
        let i = wakeup_slot q n in
        if i \<ge> 0 \<and> time_ns (heap q ! nat i) \<le> t then q
        else sim_eq_schedule_gen q n t gen)"

definition sim_eq_schedule_if_earlier :: "sim_event_queue \<Rightarrow> int \<Rightarrow> int \<Rightarrow> sim_event_queue" where
  "sim_eq_schedule_if_earlier q n t = sim_eq_schedule_if_earlier_gen q n t 0"

definition rx_byte_event ::
  "sim_event_queue \<Rightarrow> int \<Rightarrow> int \<Rightarrow> u8 \<Rightarrow> int \<Rightarrow> int \<Rightarrow> u32 \<Rightarrow> sim_event" where
  "rx_byte_event q n sender b r t gen =
     \<lparr>kind = SIM_EV_RX_BYTE, node_idx = n, time_ns = t, seq = next_seq q,
      sender_idx = sender, ev_byte = b, rssi = r, target_generation = gen\<rparr>"

definition sim_eq_schedule_rx_byte_gen ::
  "sim_event_queue \<Rightarrow> int \<Rightarrow> int \<Rightarrow> u8 \<Rightarrow> int \<Rightarrow> int \<Rightarrow> u32 \<Rightarrow> sim_event_queue" where
  "sim_eq_schedule_rx_byte_gen q n sender b r t gen =
     (if n < 0 \<or> n \<ge> SIM_EQ_MAX_NODES then q
      else if count q \<ge> SIM_EQ_MAX_EVENTS then q
      else push_event (rx_byte_event q n sender b r t gen) q)"

definition sim_eq_schedule_rx_byte ::
  "sim_event_queue \<Rightarrow> int \<Rightarrow> int \<Rightarrow> u8 \<Rightarrow> int \<Rightarrow> int \<Rightarrow> sim_event_queue" where
  "sim_eq_schedule_rx_byte q n sender b r t = sim_eq_schedule_rx_byte_gen q n sender b r t 0"

definition radio_timer_event :: "sim_event_queue \<Rightarrow> int \<Rightarrow> int \<Rightarrow> u32 \<Rightarrow> sim_event" where
  "radio_timer_event q n t gen =
     \<lparr>kind = SIM_EV_RADIO_TIMER, node_idx = n, time_ns = t, seq = next_seq q,
      sender_idx = -1, ev_byte = 0, rssi = 0, target_generation = gen\<rparr>"

definition sim_eq_schedule_radio_timer_gen ::
  "sim_event_queue \<Rightarrow> int \<Rightarrow> int \<Rightarrow> u32 \<Rightarrow> sim_event_queue" where
  "sim_eq_schedule_radio_timer_gen q n t gen =
     (if n < 0 \<or> n \<ge> SIM_EQ_MAX_NODES then q
      else if count q \<ge> SIM_EQ_MAX_EVENTS then q
      else push_event (radio_timer_event q n t gen) q)"

definition sim_eq_schedule_radio_timer :: "sim_event_queue \<Rightarrow> int \<Rightarrow> int \<Rightarrow> sim_event_queue" where
  "sim_eq_schedule_radio_timer q n t = sim_eq_schedule_radio_timer_gen q n t 0"

definition test_action_event :: "sim_event_queue \<Rightarrow> int \<Rightarrow> sim_event" where
  "test_action_event q t =
     \<lparr>kind = SIM_EV_TEST_ACTION, node_idx = -1, time_ns = t, seq = next_seq q,
      sender_idx = 0, ev_byte = 0, rssi = 0, target_generation = 0\<rparr>"

definition sim_eq_schedule_test_action :: "sim_event_queue \<Rightarrow> int \<Rightarrow> sim_event_queue" where
  "sim_eq_schedule_test_action q t =
     (if count q \<ge> SIM_EQ_MAX_EVENTS then q else push_event (test_action_event q t) q)"

definition empty_event :: "u64 \<Rightarrow> sim_event" where
  "empty_event s =
     \<lparr>kind = SIM_EV_NODE_WAKEUP, node_idx = -1, time_ns = INT64_MAX, seq = s,
      sender_idx = -1, ev_byte = 0, rssi = 0, target_generation = 0\<rparr>"

definition sim_eq_pop :: "sim_event_queue \<Rightarrow> sim_event \<times> sim_event_queue" where
  "sim_eq_pop q =
     (if count q = 0 then (empty_event 0, q)
      else
        let top = heap q ! 0;
            q1 = clear_index 0 q;
            q2 = q1\<lparr>heap := (butlast (heap q1))[0 := last (heap q1)]\<rparr>
        in (top, if count q2 > 0 then heap_sift_down 0 (track_slot 0 q2) else q2))"

definition sim_eq_peek_time :: "sim_event_queue \<Rightarrow> int" where
  "sim_eq_peek_time q = (if count q = 0 then INT64_MAX else time_ns (heap q ! 0))"

definition sim_eq_peek :: "sim_event_queue \<Rightarrow> sim_event" where
  "sim_eq_peek q = (if count q = 0 then empty_event (-1) else heap q ! 0)"

definition sim_eq_empty :: "sim_event_queue \<Rightarrow> bool" where
  "sim_eq_empty q = (count q = 0)"

text \<open>\<open>sim_eq_remove_node\<close>: compact, clear the index, heapify bottom up, re-track every slot.\<close>

fun heapify_from :: "nat \<Rightarrow> sim_event_queue \<Rightarrow> sim_event_queue" where
  "heapify_from 0 q = q"
| "heapify_from (Suc i) q = heapify_from i (heap_sift_down i q)"

fun track_from :: "nat \<Rightarrow> nat \<Rightarrow> sim_event_queue \<Rightarrow> sim_event_queue" where
  "track_from i 0 q = q"
| "track_from i (Suc k) q = track_from (Suc i) k (track_slot i q)"

definition sim_eq_remove_node :: "sim_event_queue \<Rightarrow> int \<Rightarrow> sim_event_queue" where
  "sim_eq_remove_node q n =
     (if n < 0 \<or> n \<ge> SIM_EQ_MAX_NODES then q
      else
        let q1 = q\<lparr>heap := filter (\<lambda>e. node_idx e \<noteq> n) (heap q), node_heap_idx := (\<lambda>_. -1)\<rparr>;
            q2 = heapify_from (count q1 div 2) q1
        in track_from 0 (count q2) q2)"

end
