(* ===== verification/Sim_Runtime.thy ===== *)
theory Sim_Runtime
  imports Sim_Event_Queue
begin

text \<open>
  The simulation kernel: \<open>src/sim/sim_runtime.c\<close> (clock, scheduling wrappers, mote generations,
  observers, UI panels and the event pump) and the service host of \<open>src/sim/sim_service.c\<close>.

  \<open>sim_runtime_t\<close> is an extensible record: the parts of the C struct that belong to other
  components (radio medium, radio bus, run control) are record extensions, and every operation
  here works on any extension. Function pointers (observer callbacks, service vtables, the
  event dispatcher) are parameters: a callback is a function on the whole runtime, and the
  tables of the runtime store callback numbers that an environment maps to functions. The
  stderr diagnostics (the spin trace and the clamp warning) are not modelled. The NULL checks
  on \<open>sim\<close>, \<open>ev\<close> and \<open>dispatch\<close> have no counterpart: the model has no null runtime.
\<close>

subsection \<open>State\<close>

datatype sim_run_state = SIM_RUN_STOPPED | SIM_RUN_RUNNING | SIM_RUN_PAUSED | SIM_RUN_STOP_REQUESTED

abbreviation SIM_RUNTIME_MAX_OBSERVERS :: nat where "SIM_RUNTIME_MAX_OBSERVERS \<equiv> 16"
abbreviation SIM_RUNTIME_MAX_SERVICES :: nat where "SIM_RUNTIME_MAX_SERVICES \<equiv> 16"
abbreviation SIM_RUNTIME_MAX_PANELS :: nat where "SIM_RUNTIME_MAX_PANELS \<equiv> 8"
abbreviation SIM_RUNTIME_PANEL_ID_LEN :: nat where "SIM_RUNTIME_PANEL_ID_LEN \<equiv> 32"

text \<open>An observer slot: callback number and user pointer, \<open>None\<close> for an empty slot.\<close>

type_synonym observer_slot = "(nat \<times> nat) option"

text \<open>A service slot: vtable number (\<open>None\<close> once destroyed), state pointer and enabled flag.\<close>

record sim_service_slot =
  svc_ops :: "nat option"
  svc_state :: nat
  svc_enabled :: bool

record ui_panel =
  panel_id :: string
  panel_json :: "string option"

record sim_runtime =
  now_ns :: int
  past_wakeups_clamped :: int
  end_ns :: int
  run_state :: sim_run_state
  event_queue :: sim_event_queue
  mote_generation :: "int \<Rightarrow> u32"
  motes :: "int \<Rightarrow> nat option"
  observers :: "observer_slot list"
  services :: "sim_service_slot list"
  service_observer_handle :: int
  dispatch_depth :: nat
  radio_state_tracking :: bool
  clock_source :: "nat option"
  ui_panels :: "ui_panel list"

abbreviation observer_count :: "'a sim_runtime_scheme \<Rightarrow> nat" where
  "observer_count sim \<equiv> length (observers sim)"

abbreviation service_count :: "'a sim_runtime_scheme \<Rightarrow> nat" where
  "service_count sim \<equiv> length (services sim)"

abbreviation ui_panel_count :: "'a sim_runtime_scheme \<Rightarrow> nat" where
  "ui_panel_count sim \<equiv> length (ui_panels sim)"

text \<open>A zeroed event queue, as \<open>memset\<close> leaves it: the index table is 0, not yet -1.\<close>

definition zero_queue :: sim_event_queue where
  "zero_queue = \<lparr>heap = [], node_heap_idx = (\<lambda>_. 0), next_seq = 0\<rparr>"

text \<open>
  \<open>z\<close> is the zeroed remainder of the struct. The re-entrancy counter is a static variable of
  \<open>sim_service_dispatch_event\<close> and 0 between calls.
\<close>

definition sim_runtime_init :: "'a \<Rightarrow> 'a sim_runtime_scheme" where
  "sim_runtime_init z =
     \<lparr>now_ns = 0, past_wakeups_clamped = 0, end_ns = 0, run_state = SIM_RUN_STOPPED,
      event_queue = zero_queue,
      mote_generation = (\<lambda>i. if 0 \<le> i \<and> i < SIM_EQ_MAX_NODES then 1 else 0),
      motes = (\<lambda>_. None), observers = [], services = [], service_observer_handle = -1,
      dispatch_depth = 0, radio_state_tracking = False, clock_source = None, ui_panels = [],
      \<dots> = z\<rparr>"

definition sim_runtime_destroy ::
  "('a sim_runtime_scheme \<Rightarrow> 'a sim_runtime_scheme) \<Rightarrow> 'a sim_runtime_scheme \<Rightarrow> 'a sim_runtime_scheme" where
  "sim_runtime_destroy radio_medium_destroy sim =
     (radio_medium_destroy sim)
       \<lparr>ui_panels := [], run_state := SIM_RUN_STOPPED, now_ns := 0, past_wakeups_clamped := 0,
        end_ns := 0\<rparr>"

subsection \<open>UI panels\<close>

text \<open>
  \<open>strncmp\<close> on two NUL-terminated strings compares their first 32 characters, the
  terminator included; a stored id was truncated to 31 characters by \<open>snprintf\<close>.
\<close>

definition strncmp_eq :: "nat \<Rightarrow> string \<Rightarrow> string \<Rightarrow> bool" where
  "strncmp_eq n a b \<longleftrightarrow> take n (a @ [CHR 0x00]) = take n (b @ [CHR 0x00])"

definition find_panel :: "string \<Rightarrow> ui_panel list \<Rightarrow> nat option" where
  "find_panel pid ps =
     (case filter (\<lambda>i. strncmp_eq SIM_RUNTIME_PANEL_ID_LEN (panel_id (ps ! i)) pid) [0..<length ps] of
        [] \<Rightarrow> None | i # _ \<Rightarrow> Some i)"

text \<open>\<open>dup\<close> is the result of \<open>strdup\<close>: \<open>None\<close> when memory is exhausted.\<close>

definition sim_runtime_ui_publish_panel ::
  "(string \<Rightarrow> string option) \<Rightarrow> string \<Rightarrow> string \<Rightarrow> 'a sim_runtime_scheme \<Rightarrow> 'a sim_runtime_scheme" where
  "sim_runtime_ui_publish_panel dup pid json sim =
     (if pid = [] then sim
      else
        let store = (\<lambda>slot ps. case dup json of None \<Rightarrow> ps
                                | Some copy \<Rightarrow> ps[slot := (ps ! slot)\<lparr>panel_json := Some copy\<rparr>])
        in case find_panel pid (ui_panels sim) of
             Some slot \<Rightarrow> sim\<lparr>ui_panels := store slot (ui_panels sim)\<rparr>
           | None \<Rightarrow>
               if ui_panel_count sim \<ge> SIM_RUNTIME_MAX_PANELS then sim
               else
                 let new = \<lparr>panel_id = take (SIM_RUNTIME_PANEL_ID_LEN - 1) pid, panel_json = None\<rparr>;
                     ps = ui_panels sim @ [new]
                 in sim\<lparr>ui_panels := store (length ps - 1) ps\<rparr>)"

text \<open>
  The JSON object of all panels: \<open>Inl ()\<close> is the call of \<open>strlen\<close> on a null pointer that a
  failed \<open>strdup\<close> can leave behind, \<open>Inr None\<close> the NULL result without panels.
\<close>

definition panel_text :: "nat \<Rightarrow> string \<Rightarrow> string \<Rightarrow> string" where
  "panel_text i pid json =
     (if i > 0 then '','' else []) @ CHR 0x22 # pid @ CHR 0x22 # CHR 0x3A # json"

fun panels_text :: "nat \<Rightarrow> (string \<times> string) list \<Rightarrow> string" where
  "panels_text i [] = []"
| "panels_text i ((pid, json) # ps) = panel_text i pid json @ panels_text (Suc i) ps"

definition panels_cap :: "(string \<times> string) list \<Rightarrow> nat" where
  "panels_cap ps = 2 + sum_list (map (\<lambda>(pid, json). length pid + length json + 6) ps)"

definition sim_runtime_ui_panels_json :: "'a sim_runtime_scheme \<Rightarrow> unit + string option" where
  "sim_runtime_ui_panels_json sim =
     (if ui_panel_count sim = 0 then Inr None
      else if \<exists>p \<in> set (ui_panels sim). panel_json p = None then Inl ()
      else
        let ps = map (\<lambda>p. (panel_id p, the (panel_json p))) (ui_panels sim)
        in Inr (Some (''{'' @ panels_text 0 ps @ ''}'')))"

subsection \<open>Generations and scheduling wrappers\<close>

definition sim_runtime_mote_generation :: "'a sim_runtime_scheme \<Rightarrow> int \<Rightarrow> u32" where
  "sim_runtime_mote_generation sim i =
     (if i < 0 \<or> i \<ge> SIM_EQ_MAX_NODES then 0 else mote_generation sim i)"

definition sim_runtime_bump_mote_generation ::
  "int \<Rightarrow> 'a sim_runtime_scheme \<Rightarrow> 'a sim_runtime_scheme" where
  "sim_runtime_bump_mote_generation i sim =
     (if i < 0 \<or> i \<ge> SIM_EQ_MAX_NODES then sim
      else
        let nxt = mote_generation sim i + 1;
            nxt' = (if nxt = 0 then 1 else nxt)
        in sim\<lparr>mote_generation := (mote_generation sim)(i := nxt')\<rparr>)"

definition sim_runtime_event_is_current :: "'a sim_runtime_scheme \<Rightarrow> sim_event \<Rightarrow> bool" where
  "sim_runtime_event_is_current sim ev =
     (if target_generation ev = 0 then True
      else if node_idx ev < 0 \<or> node_idx ev \<ge> SIM_EQ_MAX_NODES then True
      else target_generation ev = mote_generation sim (node_idx ev))"

definition clamp_to_now :: "int \<Rightarrow> 'a sim_runtime_scheme \<Rightarrow> int \<times> 'a sim_runtime_scheme" where
  "clamp_to_now t sim =
     (if t \<ge> now_ns sim then (t, sim)
      else (now_ns sim, sim\<lparr>past_wakeups_clamped := past_wakeups_clamped sim + 1\<rparr>))"

definition sim_schedule_mote_wakeup ::
  "int \<Rightarrow> int \<Rightarrow> 'a sim_runtime_scheme \<Rightarrow> 'a sim_runtime_scheme" where
  "sim_schedule_mote_wakeup i t sim =
     (let gen = sim_runtime_mote_generation sim i; (t', sim1) = clamp_to_now t sim
      in sim1\<lparr>event_queue := sim_eq_schedule_gen (event_queue sim1) i t' gen\<rparr>)"

definition sim_schedule_mote_wakeup_if_earlier ::
  "int \<Rightarrow> int \<Rightarrow> 'a sim_runtime_scheme \<Rightarrow> 'a sim_runtime_scheme" where
  "sim_schedule_mote_wakeup_if_earlier i t sim =
     (let gen = sim_runtime_mote_generation sim i; (t', sim1) = clamp_to_now t sim
      in sim1\<lparr>event_queue := sim_eq_schedule_if_earlier_gen (event_queue sim1) i t' gen\<rparr>)"

definition sim_schedule_test_action :: "int \<Rightarrow> 'a sim_runtime_scheme \<Rightarrow> 'a sim_runtime_scheme" where
  "sim_schedule_test_action t sim =
     (let (t', sim1) = clamp_to_now t sim
      in sim1\<lparr>event_queue := sim_eq_schedule_test_action (event_queue sim1) t'\<rparr>)"

definition sim_schedule_radio_byte ::
  "int \<Rightarrow> int \<Rightarrow> u8 \<Rightarrow> int \<Rightarrow> int \<Rightarrow> 'a sim_runtime_scheme \<Rightarrow> 'a sim_runtime_scheme" where
  "sim_schedule_radio_byte receiver sender byte rssi_v t sim =
     (let gen = sim_runtime_mote_generation sim receiver
      in sim\<lparr>event_queue := sim_eq_schedule_rx_byte_gen (event_queue sim) receiver sender byte rssi_v t gen\<rparr>)"

definition sim_schedule_radio_timer ::
  "int \<Rightarrow> int \<Rightarrow> 'a sim_runtime_scheme \<Rightarrow> 'a sim_runtime_scheme" where
  "sim_schedule_radio_timer receiver t sim =
     (let gen = sim_runtime_mote_generation sim receiver
      in sim\<lparr>event_queue := sim_eq_schedule_radio_timer_gen (event_queue sim) receiver t gen\<rparr>)"

definition sim_cancel_mote_events :: "int \<Rightarrow> 'a sim_runtime_scheme \<Rightarrow> 'a sim_runtime_scheme" where
  "sim_cancel_mote_events i sim = sim\<lparr>event_queue := sim_eq_remove_node (event_queue sim) i\<rparr>"

definition sim_runtime_register_mote ::
  "int \<Rightarrow> nat option \<Rightarrow> 'a sim_runtime_scheme \<Rightarrow> 'a sim_runtime_scheme" where
  "sim_runtime_register_mote i m sim =
     (if i < 0 \<or> i \<ge> SIM_EQ_MAX_NODES then sim else sim\<lparr>motes := (motes sim)(i := m)\<rparr>)"

subsection \<open>Observers\<close>

fun first_empty :: "nat \<Rightarrow> observer_slot list \<Rightarrow> nat option" where
  "first_empty i [] = None"
| "first_empty i (None # xs) = Some i"
| "first_empty i (Some _ # xs) = first_empty (Suc i) xs"

definition sim_runtime_subscribe ::
  "nat \<Rightarrow> nat \<Rightarrow> 'a sim_runtime_scheme \<Rightarrow> int \<times> 'a sim_runtime_scheme" where
  "sim_runtime_subscribe cb user sim =
     (case first_empty 0 (observers sim) of
        Some i \<Rightarrow> (int i, sim\<lparr>observers := (observers sim)[i := Some (cb, user)]\<rparr>)
      | None \<Rightarrow>
          if observer_count sim \<ge> SIM_RUNTIME_MAX_OBSERVERS then (-1, sim)
          else (int (observer_count sim), sim\<lparr>observers := observers sim @ [Some (cb, user)]\<rparr>))"

definition sim_runtime_unsubscribe :: "int \<Rightarrow> 'a sim_runtime_scheme \<Rightarrow> 'a sim_runtime_scheme" where
  "sim_runtime_unsubscribe handle sim =
     (if handle < 0 \<or> handle \<ge> int (observer_count sim) then sim
      else sim\<lparr>observers := (observers sim)[nat handle := None]\<rparr>)"

text \<open>
  \<open>cbs\<close> maps a callback number and user pointer to the callback. The slot is read when its
  turn comes, the number of slots before the first callback.
\<close>

definition emit_slot ::
  "(nat \<Rightarrow> nat \<Rightarrow> 'e \<Rightarrow> 'a sim_runtime_scheme \<Rightarrow> 'a sim_runtime_scheme) \<Rightarrow> 'e \<Rightarrow> nat \<Rightarrow>
     'a sim_runtime_scheme \<Rightarrow> 'a sim_runtime_scheme" where
  "emit_slot cbs ev i sim =
     (case observers sim ! i of None \<Rightarrow> sim | Some (cb, user) \<Rightarrow> cbs cb user ev sim)"

definition sim_runtime_emit ::
  "(nat \<Rightarrow> nat \<Rightarrow> 'e \<Rightarrow> 'a sim_runtime_scheme \<Rightarrow> 'a sim_runtime_scheme) \<Rightarrow> 'e \<Rightarrow>
     'a sim_runtime_scheme \<Rightarrow> 'a sim_runtime_scheme" where
  "sim_runtime_emit cbs ev sim = fold (emit_slot cbs ev) [0..<observer_count sim] sim"

subsection \<open>The event pump\<close>

definition sim_runtime_set_clock_source :: "nat option \<Rightarrow> 'a sim_runtime_scheme \<Rightarrow> 'a sim_runtime_scheme" where
  "sim_runtime_set_clock_source cs sim = sim\<lparr>clock_source := cs\<rparr>"

definition sim_runtime_request_stop :: "'a sim_runtime_scheme \<Rightarrow> 'a sim_runtime_scheme" where
  "sim_runtime_request_stop sim = sim\<lparr>run_state := SIM_RUN_STOP_REQUESTED\<rparr>"

definition halted_state :: "'a sim_runtime_scheme \<Rightarrow> bool" where
  "halted_state sim \<longleftrightarrow> run_state sim = SIM_RUN_STOP_REQUESTED \<or> run_state sim = SIM_RUN_PAUSED"

text \<open>The part of one turn of the loop before the dispatch: advance the clock and pop.\<close>

definition pump_pop :: "'a sim_runtime_scheme \<Rightarrow> sim_event \<times> 'a sim_runtime_scheme" where
  "pump_pop sim =
     (let sim1 = sim\<lparr>now_ns := sim_eq_peek_time (event_queue sim)\<rparr>;
          (ev, q) = sim_eq_pop (event_queue sim1)
      in (ev, sim1\<lparr>event_queue := q\<rparr>))"

text \<open>The \<open>for (;;)\<close> loop has no bound: \<open>None\<close> is a pump that never returns.\<close>

partial_function (option) pump_loop ::
  "(sim_event \<Rightarrow> 'a sim_runtime_scheme \<Rightarrow> 'a sim_runtime_scheme) \<Rightarrow> int \<Rightarrow>
     'a sim_runtime_scheme \<Rightarrow> 'a sim_runtime_scheme option" where
  "pump_loop dispatch end_t sim =
     (if halted_state sim then Some sim
      else if sim_eq_peek_time (event_queue sim) > end_t then Some sim
      else
        let (ev, sim1) = pump_pop sim
        in if \<not> sim_runtime_event_is_current sim1 ev then pump_loop dispatch end_t sim1
           else pump_loop dispatch end_t (dispatch ev sim1))"

definition sim_runtime_run_until ::
  "(sim_event \<Rightarrow> 'a sim_runtime_scheme \<Rightarrow> 'a sim_runtime_scheme) \<Rightarrow> int \<Rightarrow>
     'a sim_runtime_scheme \<Rightarrow> 'a sim_runtime_scheme option" where
  "sim_runtime_run_until dispatch end_t sim =
     (if run_state sim = SIM_RUN_PAUSED then Some sim
      else pump_loop dispatch end_t
             (if run_state sim \<noteq> SIM_RUN_STOP_REQUESTED then sim\<lparr>run_state := SIM_RUN_RUNNING\<rparr>
              else sim))"

subsection \<open>The service host\<close>

text \<open>
  A service vtable; absent members are \<open>None\<close>. \<open>init\<close> returns the C result code, the state
  pointer it stored and the new runtime.
\<close>

record ('c, 'e, 'w) sim_service_ops =
  svc_init :: "('c \<Rightarrow> 'w \<Rightarrow> int \<times> nat \<times> 'w) option"
  svc_destroy :: "(nat \<Rightarrow> 'w \<Rightarrow> 'w) option"
  svc_on_event :: "(nat \<Rightarrow> 'e \<Rightarrow> 'w \<Rightarrow> 'w) option"
  svc_poll :: "(nat \<Rightarrow> 'w \<Rightarrow> 'w) option"

text \<open>
  \<open>vt\<close> maps a vtable number to the vtable, \<open>fanout\<close> is the callback number of
  \<open>sim_service_dispatch_event\<close>, and \<open>cfg_ptr\<close> is the configuration read as a state pointer
  (the shorthand for adopting a built object when there is no \<open>init\<close>).
\<close>

definition service_register ::
  "(nat \<Rightarrow> ('c, 'e, 'a sim_runtime_scheme) sim_service_ops) \<Rightarrow> nat \<Rightarrow> nat \<Rightarrow> nat \<Rightarrow>
     'a sim_runtime_scheme \<Rightarrow> int \<times> 'a sim_runtime_scheme" where
  "service_register vt fanout ops state sim =
     (let idx = service_count sim;
          sim1 = sim\<lparr>services := services sim @ [\<lparr>svc_ops = Some ops, svc_state = state, svc_enabled = True\<rparr>]\<rparr>
      in if svc_on_event (vt ops) \<noteq> None \<and> service_observer_handle sim1 < 0
         then (let (h, sim2) = sim_runtime_subscribe fanout 0 sim1
               in (int idx, sim2\<lparr>service_observer_handle := h\<rparr>))
         else (int idx, sim1))"

definition sim_service_attach ::
  "(nat \<Rightarrow> ('c, 'e, 'a sim_runtime_scheme) sim_service_ops) \<Rightarrow> nat \<Rightarrow> nat \<Rightarrow> 'c \<Rightarrow> nat \<Rightarrow>
     'a sim_runtime_scheme \<Rightarrow> int \<times> 'a sim_runtime_scheme" where
  "sim_service_attach vt fanout ops cfg cfg_ptr sim =
     (if service_count sim \<ge> SIM_RUNTIME_MAX_SERVICES then (-1, sim)
      else case svc_init (vt ops) of
        None \<Rightarrow> service_register vt fanout ops cfg_ptr sim
      | Some init \<Rightarrow>
          (let (rc, state, sim1) = init cfg sim
           in if rc \<noteq> 0 then (-1, sim1) else service_register vt fanout ops state sim1))"

definition slot_op ::
  "(nat \<Rightarrow> ('c, 'e, 'w) sim_service_ops) \<Rightarrow> (('c, 'e, 'w) sim_service_ops \<Rightarrow> 'f option) \<Rightarrow>
     sim_service_slot \<Rightarrow> 'f option" where
  "slot_op vt sel s = Option.bind (svc_ops s) (\<lambda>i. sel (vt i))"

text \<open>The loop of \<open>sim_service_poll_all\<close> re-reads the number of services on every turn.\<close>

definition poll_slot ::
  "(nat \<Rightarrow> ('c, 'e, 'a sim_runtime_scheme) sim_service_ops) \<Rightarrow> nat \<Rightarrow>
     'a sim_runtime_scheme \<Rightarrow> 'a sim_runtime_scheme" where
  "poll_slot vt i sim =
     (let s = services sim ! i in
      if svc_enabled s
      then (case slot_op vt svc_poll s of None \<Rightarrow> sim | Some poll \<Rightarrow> poll (svc_state s) sim)
      else sim)"

partial_function (option) poll_from ::
  "(nat \<Rightarrow> ('c, 'e, 'a sim_runtime_scheme) sim_service_ops) \<Rightarrow> nat \<Rightarrow>
     'a sim_runtime_scheme \<Rightarrow> 'a sim_runtime_scheme option" where
  "poll_from vt i sim =
     (if i < service_count sim then poll_from vt (Suc i) (poll_slot vt i sim) else Some sim)"

definition sim_service_poll_all ::
  "(nat \<Rightarrow> ('c, 'e, 'a sim_runtime_scheme) sim_service_ops) \<Rightarrow>
     'a sim_runtime_scheme \<Rightarrow> 'a sim_runtime_scheme option" where
  "sim_service_poll_all vt sim = poll_from vt 0 sim"

fun disable_first :: "nat \<Rightarrow> sim_service_slot list \<Rightarrow> sim_service_slot list" where
  "disable_first state [] = []"
| "disable_first state (s # ss) =
     (if svc_state s = state then s\<lparr>svc_enabled := False\<rparr> # ss else s # disable_first state ss)"

definition sim_service_disable :: "nat \<Rightarrow> 'a sim_runtime_scheme \<Rightarrow> 'a sim_runtime_scheme" where
  "sim_service_disable state sim = sim\<lparr>services := disable_first state (services sim)\<rparr>"

text \<open>
  The fan-out observer. With assertions compiled in, a re-entrant call aborts the process;
  the model is the release behaviour, which drops it.
\<close>

definition event_slot ::
  "(nat \<Rightarrow> ('c, 'e, 'a sim_runtime_scheme) sim_service_ops) \<Rightarrow> 'e \<Rightarrow> nat \<Rightarrow>
     'a sim_runtime_scheme \<Rightarrow> 'a sim_runtime_scheme" where
  "event_slot vt ev i sim =
     (let s = services sim ! i in
      if svc_enabled s
      then (case slot_op vt svc_on_event s of None \<Rightarrow> sim | Some f \<Rightarrow> f (svc_state s) ev sim)
      else sim)"

definition sim_service_dispatch_event ::
  "(nat \<Rightarrow> ('c, 'e, 'a sim_runtime_scheme) sim_service_ops) \<Rightarrow> 'e \<Rightarrow>
     'a sim_runtime_scheme \<Rightarrow> 'a sim_runtime_scheme" where
  "sim_service_dispatch_event vt ev sim =
     (if dispatch_depth sim \<noteq> 0 then sim
      else
        let sim1 = sim\<lparr>dispatch_depth := dispatch_depth sim + 1\<rparr>;
            sim2 = fold (event_slot vt ev) [0..<service_count sim1] sim1
        in sim2\<lparr>dispatch_depth := dispatch_depth sim2 - 1\<rparr>)"

definition destroy_slot ::
  "(nat \<Rightarrow> ('c, 'e, 'a sim_runtime_scheme) sim_service_ops) \<Rightarrow> nat \<Rightarrow>
     'a sim_runtime_scheme \<Rightarrow> 'a sim_runtime_scheme" where
  "destroy_slot vt i sim =
     (let s = services sim ! i;
          sim1 = (case slot_op vt svc_destroy s of None \<Rightarrow> sim | Some f \<Rightarrow> f (svc_state s) sim)
      in sim1\<lparr>services := (services sim1)[i := \<lparr>svc_ops = None, svc_state = 0, svc_enabled = False\<rparr>]\<rparr>)"

definition sim_service_destroy_all ::
  "(nat \<Rightarrow> ('c, 'e, 'a sim_runtime_scheme) sim_service_ops) \<Rightarrow>
     'a sim_runtime_scheme \<Rightarrow> 'a sim_runtime_scheme" where
  "sim_service_destroy_all vt sim =
     (let sim1 = fold (destroy_slot vt) (rev [0..<service_count sim]) sim;
          sim2 = sim1\<lparr>services := []\<rparr>
      in if service_observer_handle sim2 \<ge> 0
         then (sim_runtime_unsubscribe (service_observer_handle sim2) sim2)\<lparr>service_observer_handle := -1\<rparr>
         else sim2)"

end
