(* ===== verification/Sim_Control.thy ===== *)
theory Sim_Control
  imports Sim_Runtime
begin

text \<open>
  Run control and node mutations, \<open>src/sim/sim_control.c\<close>. \<open>sim_control_t\<close> holds a pointer to
  the runtime it controls; the model is one record that extends the runtime with the fields of
  \<open>sim_control_t\<close>. The primitives the runner plugs in (\<open>sim_control_ops_t\<close>) are a parameter:
  each is a function on the whole state, \<open>None\<close> for a null pointer. A slot's buffer of
  unconsumed console bytes and its length are a list of bytes.
\<close>

subsection \<open>State\<close>

record sim_control_node_info =
  info_id :: int
  info_active :: bool

record 'w sim_control_ops =
  ops_node_count :: "('w \<Rightarrow> int) option"
  ops_describe :: "(int \<Rightarrow> 'w \<Rightarrow> sim_control_node_info option) option"
  ops_inject_serial :: "(int \<Rightarrow> u8 list \<Rightarrow> 'w \<Rightarrow> int \<times> 'w) option"
  ops_set_position :: "(int \<Rightarrow> real \<Rightarrow> real \<Rightarrow> 'w \<Rightarrow> 'w) option"
  ops_reboot :: "(int \<Rightarrow> 'w \<Rightarrow> int \<times> 'w) option"
  ops_start :: "(int \<Rightarrow> 'w \<Rightarrow> 'w) option"
  ops_remove :: "(int \<Rightarrow> 'w \<Rightarrow> 'w) option"
  ops_add :: "(string \<Rightarrow> string option \<Rightarrow> int \<Rightarrow> 'w \<Rightarrow> int \<times> 'w) option"
  ops_firmware_for_type :: "(string \<Rightarrow> 'w \<Rightarrow> (string \<times> string option) option) option"

record sim_control = sim_runtime +
  speed_ratio :: real
  speed_epoch :: u32
  pause_at_ns :: int
  horizon_ns :: int
  horizon_hit :: bool
  step_events_left :: int
  step_armed :: bool
  pend_bytes :: "int \<Rightarrow> u8 list"

abbreviation SIM_CONTROL_PENDING_MAX :: int where "SIM_CONTROL_PENDING_MAX \<equiv> 512"
abbreviation SC_MS_TO_NS :: int where "SC_MS_TO_NS \<equiv> 1000000"

definition SIM_CONTROL_WAKE :: "u32 \<Rightarrow> bool" where "SIM_CONTROL_WAKE flags \<longleftrightarrow> flags AND 1 \<noteq> 0"
definition SIM_CONTROL_RETRY :: "u32 \<Rightarrow> bool" where "SIM_CONTROL_RETRY flags \<longleftrightarrow> flags AND 2 \<noteq> 0"
definition SIM_CONTROL_START :: "u32 \<Rightarrow> bool" where "SIM_CONTROL_START flags \<longleftrightarrow> flags AND 4 \<noteq> 0"

definition sim_control_init :: "'a sim_control_scheme \<Rightarrow> 'a sim_control_scheme" where
  "sim_control_init c =
     c\<lparr>speed_ratio := 0, speed_epoch := 0, pause_at_ns := INT64_MAX, horizon_ns := INT64_MAX,
       horizon_hit := False, step_events_left := 0, step_armed := False, pend_bytes := (\<lambda>_. [])\<rparr>"

subsection \<open>Node lookup\<close>

definition sim_control_node_count :: "'w sim_control_ops \<Rightarrow> 'w \<Rightarrow> int" where
  "sim_control_node_count ops c = (case ops_node_count ops of None \<Rightarrow> 0 | Some f \<Rightarrow> f c)"

definition sim_control_describe :: "'w sim_control_ops \<Rightarrow> int \<Rightarrow> 'w \<Rightarrow> sim_control_node_info option" where
  "sim_control_describe ops idx c = (case ops_describe ops of None \<Rightarrow> None | Some f \<Rightarrow> f idx c)"

fun index_from :: "'w sim_control_ops \<Rightarrow> int \<Rightarrow> 'w \<Rightarrow> nat \<Rightarrow> int \<Rightarrow> int" where
  "index_from ops node_id c 0 i = -1"
| "index_from ops node_id c (Suc k) i =
     (case sim_control_describe ops i c of
        Some info \<Rightarrow> if info_id info = node_id then i else index_from ops node_id c k (i + 1)
      | None \<Rightarrow> index_from ops node_id c k (i + 1))"

definition sim_control_index_of_id :: "'w sim_control_ops \<Rightarrow> int \<Rightarrow> 'w \<Rightarrow> int" where
  "sim_control_index_of_id ops node_id c =
     index_from ops node_id c (nat (sim_control_node_count ops c)) 0"

definition sim_control_node_active :: "'w sim_control_ops \<Rightarrow> int \<Rightarrow> 'w \<Rightarrow> bool" where
  "sim_control_node_active ops idx c =
     (case sim_control_describe ops idx c of None \<Rightarrow> False | Some info \<Rightarrow> info_active info)"

subsection \<open>Mutations\<close>

definition sim_control_move ::
  "'w sim_control_ops \<Rightarrow> int \<Rightarrow> real \<Rightarrow> real \<Rightarrow> 'w \<Rightarrow> int \<times> 'w" where
  "sim_control_move ops node_id x y c =
     (let idx = sim_control_index_of_id ops node_id c in
      case ops_set_position ops of
        None \<Rightarrow> (-1, c)
      | Some f \<Rightarrow> if idx < 0 then (-1, c) else (0, f idx x y c))"

definition clear_pending :: "int \<Rightarrow> 'a sim_control_scheme \<Rightarrow> 'a sim_control_scheme" where
  "clear_pending idx c = c\<lparr>pend_bytes := (pend_bytes c)(idx := [])\<rparr>"

definition sim_control_remove ::
  "'a sim_control_scheme sim_control_ops \<Rightarrow> int \<Rightarrow> 'a sim_control_scheme \<Rightarrow> int \<times> 'a sim_control_scheme" where
  "sim_control_remove ops node_id c =
     (let idx = sim_control_index_of_id ops node_id c in
      case ops_remove ops of
        None \<Rightarrow> (-1, c)
      | Some f \<Rightarrow> if idx < 0 then (-1, c) else (0, clear_pending idx (f idx c)))"

definition wake_slot :: "int \<Rightarrow> int \<Rightarrow> 'a sim_control_scheme \<Rightarrow> 'a sim_control_scheme" where
  "wake_slot idx at_ns c = sim_schedule_mote_wakeup_if_earlier idx at_ns c"

definition sim_control_reboot ::
  "'a sim_control_scheme sim_control_ops \<Rightarrow> int \<Rightarrow> u32 \<Rightarrow> 'a sim_control_scheme \<Rightarrow>
     int \<times> 'a sim_control_scheme" where
  "sim_control_reboot ops node_id flags c =
     (let idx = sim_control_index_of_id ops node_id c in
      case (ops_reboot ops, ops_start ops) of
        (Some reboot, Some start) \<Rightarrow>
          if idx < 0 then (-1, c)
          else
            (let (rc, c1) = reboot idx (clear_pending idx c) in
             if rc \<noteq> 0 then (-1, c1)
             else
               (let c2 = start idx c1
                in (0, if SIM_CONTROL_WAKE flags then wake_slot idx (now_ns c2) c2 else c2)))
      | _ \<Rightarrow> (-1, c))"

definition resolve_firmware ::
  "'w sim_control_ops \<Rightarrow> string \<Rightarrow> string option \<Rightarrow> 'w \<Rightarrow> string \<times> string option" where
  "resolve_firmware ops fw_or_type secure_fw c =
     (case ops_firmware_for_type ops of
        None \<Rightarrow> (fw_or_type, secure_fw)
      | Some f \<Rightarrow> (case f fw_or_type c of None \<Rightarrow> (fw_or_type, secure_fw) | Some p \<Rightarrow> p))"

definition sim_control_add ::
  "'a sim_control_scheme sim_control_ops \<Rightarrow> string \<Rightarrow> string option \<Rightarrow> int \<Rightarrow> real \<Rightarrow> real \<Rightarrow> u32 \<Rightarrow>
     'a sim_control_scheme \<Rightarrow> int \<times> 'a sim_control_scheme" where
  "sim_control_add ops fw_or_type secure_fw node_id x y flags c =
     (case ops_add ops of
        None \<Rightarrow> (-1, c)
      | Some add \<Rightarrow>
          if sim_control_index_of_id ops node_id c \<ge> 0 then (-1, c)
          else
            (let (fw, sfw) = resolve_firmware ops fw_or_type secure_fw c;
                 (idx, c1) = add fw sfw node_id c in
             if idx < 0 then (-1, c1)
             else
               (let c2 = (case ops_set_position ops of
                            Some f \<Rightarrow> if x \<noteq> 0 \<or> y \<noteq> 0 then f idx x y c1 else c1 | None \<Rightarrow> c1);
                    c3 = clear_pending idx c2;
                    c4 = (if SIM_CONTROL_START flags
                          then (let c' = (case ops_start ops of Some start \<Rightarrow> start idx c3 | None \<Rightarrow> c3)
                                in if SIM_CONTROL_WAKE flags then wake_slot idx (now_ns c') c' else c')
                          else c3)
                in (idx, c4))))"

subsection \<open>Console input\<close>

text \<open>\<open>buf\<close> is the \<open>len\<close> bytes at the C pointer.\<close>

definition offer_slot ::
  "'a sim_control_scheme sim_control_ops \<Rightarrow> (int \<Rightarrow> u8 list \<Rightarrow> 'a sim_control_scheme \<Rightarrow> int \<times> 'a sim_control_scheme) \<Rightarrow>
     int \<Rightarrow> u8 list \<Rightarrow> u32 \<Rightarrow> 'a sim_control_scheme \<Rightarrow> int \<times> 'a sim_control_scheme" where
  "offer_slot ops inject idx buf flags c =
     (if SIM_CONTROL_RETRY flags \<and> pend_bytes c idx \<noteq> [] then (0, c)
      else (let (n, c1) = inject idx buf c in (if n < 0 then 0 else n, c1)))"

definition queue_rest ::
  "int \<Rightarrow> u8 list \<Rightarrow> int \<Rightarrow> 'a sim_control_scheme \<Rightarrow> int \<times> 'a sim_control_scheme" where
  "queue_rest idx buf consumed c =
     (let rest = int (length buf) - consumed;
          room = SIM_CONTROL_PENDING_MAX - int (length (pend_bytes c idx));
          n = (if rest > room then room else rest)
      in (consumed + n,
          c\<lparr>pend_bytes := (pend_bytes c)(idx := pend_bytes c idx @ take (nat n) (drop (nat consumed) buf))\<rparr>))"

definition send_to_slot ::
  "'a sim_control_scheme sim_control_ops \<Rightarrow> int \<Rightarrow> u8 list \<Rightarrow> u32 \<Rightarrow> 'a sim_control_scheme \<Rightarrow>
     int \<times> 'a sim_control_scheme" where
  "send_to_slot ops idx buf flags c =
     (case ops_inject_serial ops of
        None \<Rightarrow> (0, c)
      | Some inject \<Rightarrow>
          if buf = [] then (0, c)
          else
            (let (consumed, c1) = offer_slot ops inject idx buf flags c;
                 (consumed', c2) = (if SIM_CONTROL_RETRY flags \<and> consumed < int (length buf)
                                    then queue_rest idx buf consumed c1 else (consumed, c1))
             in (consumed',
                 if SIM_CONTROL_WAKE flags then wake_slot idx (now_ns c2 + SC_MS_TO_NS) c2 else c2)))"

definition sim_control_send ::
  "'a sim_control_scheme sim_control_ops \<Rightarrow> int \<Rightarrow> u8 list \<Rightarrow> u32 \<Rightarrow> 'a sim_control_scheme \<Rightarrow>
     int \<times> 'a sim_control_scheme" where
  "sim_control_send ops node_id buf flags c =
     (let idx = sim_control_index_of_id ops node_id c in
      if idx < 0 then (-1, c) else send_to_slot ops idx buf flags c)"

definition sim_control_send_all ::
  "'a sim_control_scheme sim_control_ops \<Rightarrow> u8 list \<Rightarrow> u32 \<Rightarrow> 'a sim_control_scheme \<Rightarrow> 'a sim_control_scheme" where
  "sim_control_send_all ops buf flags c =
     fold (\<lambda>i c. if sim_control_node_active ops i c then snd (send_to_slot ops i buf flags c) else c)
       (map int [0..<nat (sim_control_node_count ops c)]) c"

definition flush_slot ::
  "'a sim_control_scheme sim_control_ops \<Rightarrow> (int \<Rightarrow> u8 list \<Rightarrow> 'a sim_control_scheme \<Rightarrow> int \<times> 'a sim_control_scheme) \<Rightarrow>
     int \<Rightarrow> 'a sim_control_scheme \<Rightarrow> 'a sim_control_scheme" where
  "flush_slot ops inject i c =
     (if pend_bytes c i = [] then c
      else if \<not> sim_control_node_active ops i c then c
      else
        (let (consumed, c1) = inject i (pend_bytes c i) c in
         if consumed \<le> 0 then c1
         else
           (let c2 = c1\<lparr>pend_bytes := (pend_bytes c1)
                         (i := if consumed \<ge> int (length (pend_bytes c1 i)) then []
                               else drop (nat consumed) (pend_bytes c1 i))\<rparr>
            in wake_slot i (now_ns c2 + SC_MS_TO_NS) c2)))"

text \<open>The call through a null \<open>inject_serial\<close> is the error \<open>None\<close>.\<close>

definition sim_control_send_flush_pending ::
  "'a sim_control_scheme sim_control_ops \<Rightarrow> 'a sim_control_scheme \<Rightarrow> 'a sim_control_scheme option" where
  "sim_control_send_flush_pending ops c =
     (let n = min (sim_control_node_count ops c) SIM_EQ_MAX_NODES; is = map int [0..<nat n] in
      case ops_inject_serial ops of
        Some inject \<Rightarrow> Some (fold (flush_slot ops inject) is c)
      | None \<Rightarrow>
          if \<exists>i \<in> set is. pend_bytes c i \<noteq> [] \<and> sim_control_node_active ops i c then None else Some c)"

definition sim_control_pending_len :: "int \<Rightarrow> 'a sim_control_scheme \<Rightarrow> int" where
  "sim_control_pending_len idx c =
     (if idx < 0 \<or> idx \<ge> SIM_EQ_MAX_NODES then 0 else int (length (pend_bytes c idx)))"

subsection \<open>Run state\<close>

definition sim_control_pause :: "'a sim_control_scheme \<Rightarrow> 'a sim_control_scheme" where
  "sim_control_pause c =
     c\<lparr>run_state := (if run_state c \<noteq> SIM_RUN_STOP_REQUESTED then SIM_RUN_PAUSED else run_state c),
       pause_at_ns := INT64_MAX, step_armed := False, step_events_left := 0\<rparr>"

definition sim_control_resume :: "'a sim_control_scheme \<Rightarrow> 'a sim_control_scheme" where
  "sim_control_resume c =
     c\<lparr>run_state := (if run_state c \<noteq> SIM_RUN_STOP_REQUESTED then SIM_RUN_RUNNING else run_state c),
       speed_epoch := speed_epoch c + 1, pause_at_ns := INT64_MAX, step_armed := False,
       step_events_left := 0\<rparr>"

definition sim_control_run_for :: "int \<Rightarrow> 'a sim_control_scheme \<Rightarrow> 'a sim_control_scheme" where
  "sim_control_run_for dur_ns c =
     (let c1 = sim_control_resume c in c1\<lparr>pause_at_ns := now_ns c1 + (if dur_ns < 0 then 0 else dur_ns)\<rparr>)"

definition sim_control_step_events :: "int \<Rightarrow> 'a sim_control_scheme \<Rightarrow> 'a sim_control_scheme" where
  "sim_control_step_events n c =
     (sim_control_resume c)\<lparr>step_events_left := (if n < 1 then 1 else n), step_armed := True\<rparr>"

definition sim_control_paused :: "'a sim_control_scheme \<Rightarrow> bool" where
  "sim_control_paused c \<longleftrightarrow> run_state c = SIM_RUN_PAUSED"

definition sim_control_request_exit :: "'a sim_control_scheme \<Rightarrow> 'a sim_control_scheme" where
  "sim_control_request_exit c = sim_runtime_request_stop c"

definition sim_control_set_speed :: "real \<Rightarrow> 'a sim_control_scheme \<Rightarrow> 'a sim_control_scheme" where
  "sim_control_set_speed ratio c =
     c\<lparr>speed_ratio := (if ratio > 0 then ratio else 0), speed_epoch := speed_epoch c + 1\<rparr>"

subsection \<open>Loop hooks\<close>

definition sim_control_set_horizon :: "int \<Rightarrow> 'a sim_control_scheme \<Rightarrow> 'a sim_control_scheme" where
  "sim_control_set_horizon at_ns c = c\<lparr>horizon_ns := at_ns, horizon_hit := False\<rparr>"

definition sim_control_slice_cap :: "'a sim_control_scheme \<Rightarrow> int \<Rightarrow> int" where
  "sim_control_slice_cap c cap_ns =
     (let cap1 = (if pause_at_ns c < cap_ns then pause_at_ns c else cap_ns)
      in if horizon_ns c < cap1 then horizon_ns c else cap1)"

definition sim_control_note_event :: "'a sim_control_scheme \<Rightarrow> 'a sim_control_scheme" where
  "sim_control_note_event c =
     (if \<not> step_armed c then c
      else
        let c1 = (if step_events_left c > 0 then c\<lparr>step_events_left := step_events_left c - 1\<rparr> else c)
        in if step_events_left c1 \<le> 0 \<and> run_state c1 \<noteq> SIM_RUN_STOP_REQUESTED
           then c1\<lparr>run_state := SIM_RUN_PAUSED\<rparr> else c1)"

definition sim_control_after_pump :: "'a sim_control_scheme \<Rightarrow> bool \<times> 'a sim_control_scheme" where
  "sim_control_after_pump c =
     (if run_state c = SIM_RUN_STOP_REQUESTED then (False, c)
      else
        let c1 = c\<lparr>horizon_hit := False\<rparr>;
            p1 = (pause_at_ns c1 \<noteq> INT64_MAX \<and> now_ns c1 \<ge> pause_at_ns c1);
            p2 = (step_armed c1 \<and> step_events_left c1 \<le> 0);
            p3 = (horizon_ns c1 \<noteq> INT64_MAX \<and> now_ns c1 \<ge> horizon_ns c1);
            c2 = (if p3 then c1\<lparr>horizon_ns := INT64_MAX, horizon_hit := True\<rparr> else c1);
            pause = (p1 \<or> p2 \<or> p3)
        in (pause, if pause then sim_control_pause c2 else c2))"

end
