(* ===== verification/Sim_Event_Queue_Correct.thy ===== *)
theory Sim_Event_Queue_Correct
  imports Sim_Event_Queue
begin

text \<open>
  Correctness of the event queue. \<open>queue_inv\<close> is the representation invariant (heap order,
  \<open>node_heap_idx\<close> exact, sequence numbers unique and below \<open>next_seq\<close>), \<open>pending\<close> the
  abstraction to the sorted list of events. A sift works on the heap with one slot out of
  place (\<open>heap_except_up\<close>, \<open>heap_except_down\<close>); the lemmas follow the hole that
  \<open>heap_sift_up\<close> and \<open>heap_sift_down\<close> move instead of swapping. The locale
  \<open>timed_queue\<close> states what the rest of the kernel may rely on.
\<close>

subsection \<open>Order, tracking and the well-formedness invariant\<close>

definition ev_key :: "sim_event \<Rightarrow> int \<times> u64" where
  "ev_key e = (time_ns e, seq e)"

definition is_wakeup :: "sim_event \<Rightarrow> bool" where
  "is_wakeup e \<longleftrightarrow> kind e = SIM_EV_NODE_WAKEUP \<and> valid_eq_node (node_idx e)"

definition par :: "nat \<Rightarrow> nat" where
  "par x = (x - 1) div 2"

definition heap_from :: "nat \<Rightarrow> sim_event list \<Rightarrow> bool" where
  "heap_from m h \<longleftrightarrow> (\<forall>x. 0 < x \<and> x < length h \<and> m \<le> par x \<longrightarrow>
     ev_key (h ! (par x)) \<le> ev_key (h ! x))"

definition heap_except_up :: "nat \<Rightarrow> sim_event list \<Rightarrow> bool" where
  "heap_except_up i h \<longleftrightarrow>
     (\<forall>x. 0 < x \<and> x < length h \<and> x \<noteq> i \<longrightarrow> ev_key (h ! (par x)) \<le> ev_key (h ! x)) \<and>
     (\<forall>x. 0 < x \<and> x < length h \<and> par x = i \<and> 0 < i \<longrightarrow>
        ev_key (h ! (par i)) \<le> ev_key (h ! x))"

definition heap_except_down :: "nat \<Rightarrow> nat \<Rightarrow> sim_event list \<Rightarrow> bool" where
  "heap_except_down m i h \<longleftrightarrow>
     (\<forall>x. 0 < x \<and> x < length h \<and> m \<le> par x \<and> par x \<noteq> i \<longrightarrow>
        ev_key (h ! (par x)) \<le> ev_key (h ! x)) \<and>
     (\<forall>x. 0 < x \<and> x < length h \<and> par x = i \<and> 0 < i \<and> m \<le> par i \<longrightarrow>
        ev_key (h ! (par i)) \<le> ev_key (h ! x))"

text \<open>\<open>tracked_except k h f\<close>: \<open>f\<close> names the slot of every wakeup but the one in slot \<open>k\<close>.\<close>

definition tracked_except :: "nat \<Rightarrow> sim_event list \<Rightarrow> (int \<Rightarrow> int) \<Rightarrow> bool" where
  "tracked_except k h f \<longleftrightarrow>
     (\<forall>j < length h. j \<noteq> k \<longrightarrow> is_wakeup (h ! j) \<longrightarrow> f (node_idx (h ! j)) = int j) \<and>
     (\<forall>n. (\<forall>e \<in> set h. is_wakeup e \<longrightarrow> node_idx e \<noteq> n) \<longrightarrow> f n = -1)"

definition tracked :: "sim_event list \<Rightarrow> (int \<Rightarrow> int) \<Rightarrow> bool" where
  "tracked h f \<longleftrightarrow>
     (\<forall>j < length h. is_wakeup (h ! j) \<longrightarrow> f (node_idx (h ! j)) = int j) \<and>
     (\<forall>n. (\<forall>e \<in> set h. is_wakeup e \<longrightarrow> node_idx e \<noteq> n) \<longrightarrow> f n = -1)"

definition one_wakeup :: "sim_event list \<Rightarrow> bool" where
  "one_wakeup h \<longleftrightarrow> distinct (map node_idx (filter is_wakeup h))"

text \<open>The part of the invariant that depends on the multiset of events only.\<close>

definition wakeup_shape :: "sim_event \<Rightarrow> bool" where
  "wakeup_shape e \<longleftrightarrow> (kind e = SIM_EV_NODE_WAKEUP \<longrightarrow>
     valid_eq_node (node_idx e) \<and> sender_idx e = -1 \<and> ev_byte e = 0 \<and> rssi e = 0)"

definition events_ok :: "u64 \<Rightarrow> sim_event list \<Rightarrow> bool" where
  "events_ok s h \<longleftrightarrow>
     length h \<le> SIM_EQ_MAX_EVENTS \<and> one_wakeup h \<and>
     distinct (map seq h) \<and> (\<forall>e \<in> set h. seq e < s) \<and>
     (\<forall>e \<in> set h. wakeup_shape e)"

definition queue_inv :: "sim_event_queue \<Rightarrow> bool" where
  "queue_inv q \<longleftrightarrow>
     heap_from 0 (heap q) \<and> tracked (heap q) (node_heap_idx q) \<and> events_ok (next_seq q) (heap q)"

text \<open>The abstract queue: the events in the order in which they are due.\<close>

definition pending :: "sim_event_queue \<Rightarrow> sim_event list" where
  "pending q = sort_key ev_key (heap q)"

text \<open>One more sequence number can be drawn without wrapping around \<open>2 ^ 64\<close>.\<close>

definition seq_room :: "sim_event_queue \<Rightarrow> bool" where
  "seq_room q \<longleftrightarrow> next_seq q \<noteq> -1"

subsection \<open>Basic lemmas\<close>

lemma par_less: "0 < x \<Longrightarrow> par x < x"
  by (auto simp: par_def)

lemma par_eq_iff: "0 < x \<Longrightarrow> par x = i \<longleftrightarrow> x = 2 * i + 1 \<or> x = 2 * i + 2"
  by (auto simp: par_def)

lemma ev_less_key: "ev_less a b \<longleftrightarrow> ev_key a < ev_key b"
  by (auto simp: ev_less_def ev_key_def)

lemma track_slot_frame [simp]:
  "heap (track_slot i q) = heap q" "next_seq (track_slot i q) = next_seq q"
  by (auto simp: track_slot_def Let_def)

lemma clear_index_frame [simp]:
  "heap (clear_index i q) = heap q" "next_seq (clear_index i q) = next_seq q"
  by (auto simp: clear_index_def Let_def)

declare sift_up_loop.simps [simp del] sift_down_loop.simps [simp del]

lemma tracked_imp_except: "tracked h f \<Longrightarrow> tracked_except k h f"
  by (simp add: tracked_def tracked_except_def)

lemma one_wakeup_mset: "mset h = mset h' \<Longrightarrow> one_wakeup h \<Longrightarrow> one_wakeup h'"
  unfolding one_wakeup_def
  by (metis mset_eq_imp_distinct_iff mset_filter mset_map)

lemma events_ok_mset: "mset h = mset h' \<Longrightarrow> events_ok s h \<Longrightarrow> events_ok s h'"
  unfolding events_ok_def
  by (metis mset_eq_imp_distinct_iff mset_eq_length mset_eq_setD mset_map one_wakeup_mset)

lemma distinct_map_mset_sub: "mset xs \<subseteq># mset ys \<Longrightarrow> distinct ys \<Longrightarrow> distinct xs"
  by (metis distinct_append ex_mset mset_append mset_eq_imp_distinct_iff subset_mset.add_diff_inverse)

lemma distinct_map_filter_nth:
  assumes "distinct (map g (filter P h))" "i < length h" "j < length h" "i \<noteq> j" "P (h ! i)" "P (h ! j)"
  shows "g (h ! i) \<noteq> g (h ! j)"
  using assms
proof (induction h arbitrary: i j)
  case (Cons a h)
  have mem: "g (h ! k) \<in> g ` set (filter P h)" if "k < length h" "P (h ! k)" for k
    using that by auto
  show ?case
  proof (cases i)
    case 0
    with Cons.prems obtain k where "j = Suc k" by (cases j) auto
    with 0 Cons.prems mem [of k] show ?thesis by (auto split: if_splits)
  next
    case (Suc i')
    show ?thesis
    proof (cases j)
      case 0
      with Suc Cons.prems have "g a \<notin> g ` set (filter P h)" by (auto split: if_splits)
      with Suc 0 Cons.prems mem [of i'] show ?thesis
        by (metis Suc_less_eq length_Cons nth_Cons_0 nth_Cons_Suc)
    next
      case (Suc j')
      with \<open>i = Suc i'\<close> Cons show ?thesis by (auto split: if_splits)
    qed
  qed
qed simp

lemma distinct_map_filter_index:
  assumes "\<forall>j < length h. P (h ! j) \<longrightarrow> f (g (h ! j)) = int j"
  shows "distinct (map g (filter P h))"
  using assms
proof (induction h rule: rev_induct)
  case Nil
  show ?case by simp
next
  case (snoc x xs)
  have at: "f (g (xs ! j)) = int j" if "j < length xs" "P (xs ! j)" for j
    using snoc.prems that by (metis length_append nth_append trans_less_add1)
  then have IH: "distinct (map g (filter P xs))" by (intro snoc.IH) auto
  have "g x \<notin> g ` set (filter P xs)" if "P x"
  proof
    assume "g x \<in> g ` set (filter P xs)"
    then obtain j where j: "j < length xs" "P (xs ! j)" "g x = g (xs ! j)"
      by (auto simp: in_set_conv_nth)
    moreover from snoc.prems that have "f (g x) = int (length xs)" by auto
    ultimately show False using at [of j] by simp
  qed
  with IH show ?case by simp
qed

lemma one_wakeup_nth:
  "one_wakeup h \<Longrightarrow> i < length h \<Longrightarrow> j < length h \<Longrightarrow> i \<noteq> j \<Longrightarrow> is_wakeup (h ! i) \<Longrightarrow>
   is_wakeup (h ! j) \<Longrightarrow> node_idx (h ! i) \<noteq> node_idx (h ! j)"
  unfolding one_wakeup_def by (rule distinct_map_filter_nth)

lemma tracked_one_wakeup: "tracked h f \<Longrightarrow> one_wakeup h"
  unfolding tracked_def one_wakeup_def by (intro distinct_map_filter_index) auto

subsection \<open>Sifting up: heap order\<close>

lemma heap_except_up_step:
  assumes ex: "heap_except_up i v" and i: "0 < i" "i < length v"
    and lt: "ev_key (v ! i) < ev_key (v ! par i)"
  shows "heap_except_up (par i) (v[i := v ! par i, par i := v ! i])"
    (is "heap_except_up ?p ?w")
  unfolding heap_except_up_def
proof (intro conjI allI impI)
  have p: "?p < i" using i par_less by auto
  note E1 = ex [unfolded heap_except_up_def, THEN conjunct1, rule_format]
  note E2 = ex [unfolded heap_except_up_def, THEN conjunct2, rule_format]
  have nth: "?w ! y = (if y = ?p then v ! i else if y = i then v ! ?p else v ! y)"
    if "y < length v" for y using p i that by (simp add: nth_list_update)
  {
    fix x assume x: "0 < x \<and> x < length ?w \<and> x \<noteq> ?p"
    then have px: "par x < length v" "x < length v" using par_less [of x] by auto
    show "ev_key (?w ! par x) \<le> ev_key (?w ! x)"
    proof (cases "x = i")
      case True
      then show ?thesis using nth px p lt by auto
    next
      case False
      with x have le: "ev_key (v ! par x) \<le> ev_key (v ! x)" by (intro E1) auto
      have "ev_key (v ! ?p) \<le> ev_key (v ! x)" if "par x = i"
        using x i that by (intro E2) auto
      with le lt show ?thesis
        using nth [OF px(1)] nth [OF px(2)] False x by auto
    qed
  next
    fix x assume x: "0 < x \<and> x < length ?w \<and> par x = ?p \<and> 0 < ?p"
    have gp: "par ?p < ?p" "?p < length v" "x < length v" "x \<noteq> ?p"
      using x p i par_less [of ?p] par_less [of x] by auto
    have a: "ev_key (v ! par ?p) \<le> ev_key (v ! ?p)"
      using E1 [of ?p] p i x by auto
    have wg: "?w ! par ?p = v ! par ?p"
      using nth [of "par ?p"] gp p i by auto
    have "ev_key (v ! ?p) \<le> ev_key (v ! x)" if "x \<noteq> i" using E1 [of x] x that by auto
    then show "ev_key (?w ! par ?p) \<le> ev_key (?w ! x)"
      using a wg nth [OF gp(3)] gp(4) by auto
  }
qed

lemma heap_except_up_done:
  assumes "heap_except_up i v" "0 < i \<longrightarrow> ev_key (v ! par i) \<le> ev_key (v ! i)"
  shows "heap_from 0 v"
  using assms unfolding heap_from_def heap_except_up_def by metis

text \<open>What the loop leaves, in terms of the list in which \<open>ev\<close> fills the hole.\<close>

lemma sift_up_loop_heap:
  assumes "sift_up_loop ev i q = (j, q')" "i < count q" "heap_except_up i ((heap q)[i := ev])"
  shows "j < count q \<and> count q' = count q \<and> next_seq q' = next_seq q \<and>
    mset ((heap q')[j := ev]) = mset ((heap q)[i := ev]) \<and> heap_from 0 ((heap q')[j := ev])"
  using assms
proof (induction ev i q rule: sift_up_loop.induct)
  case (1 ev i q)
  let ?v = "(heap q)[i := ev]" and ?p = "par i"
  let ?q1 = "track_slot i (q\<lparr>heap := (heap q)[i := heap q ! ?p]\<rparr>)"
  have vi: "?v ! i = ev" using "1.prems" by simp
  show ?case
  proof (cases "i > 0 \<and> ev_less ev (heap q ! ?p)")
    case True
    then have p: "?p < i" using par_less by auto
    then have vp: "?v ! ?p = heap q ! ?p" by simp
    from True "1.prems"(1) have loop: "sift_up_loop ev ?p ?q1 = (j, q')"
      by (subst (asm) sift_up_loop.simps) (simp add: par_def Let_def)
    have w: "(heap ?q1)[?p := ev] = ?v[i := ?v ! ?p, ?p := ?v ! i]"
      using vi vp by simp
    have "heap_except_up ?p ((heap ?q1)[?p := ev])"
      unfolding w using True "1.prems" vi vp by (intro heap_except_up_step) (auto simp: ev_less_key)
    with loop p "1.prems"(2) True have "j < count ?q1 \<and> count q' = count ?q1 \<and> next_seq q' = next_seq ?q1 \<and>
      mset ((heap q')[j := ev]) = mset ((heap ?q1)[?p := ev]) \<and> heap_from 0 ((heap q')[j := ev])"
      by (intro "1.IH") (auto simp: par_def)
    moreover have "mset ((heap ?q1)[?p := ev]) = mset ?v"
      using mset_hole_swap [of i "heap q" ?p ev] p "1.prems"(2) by simp
    ultimately show ?thesis by simp
  next
    case False
    with "1.prems"(1) have "j = i" "q' = q"
      by (subst (asm) sift_up_loop.simps; auto simp: par_def Let_def split: if_splits)+
    moreover have "heap_from 0 ?v"
      using "1.prems" False par_less [of i]
      by (intro heap_except_up_done [of i]) (auto simp: ev_less_key)
    ultimately show ?thesis using "1.prems" by simp
  qed
qed

subsection \<open>Sifting: the wakeup index\<close>

lemma track_slot_idx:
  "node_heap_idx (track_slot i q) =
     (if is_wakeup (heap q ! i) then (node_heap_idx q)(node_idx (heap q ! i) := int i)
      else node_heap_idx q)"
  by (auto simp: track_slot_def is_wakeup_def Let_def)

lemma set_hole_swap:
  assumes "i < length v" "c < length v" "i \<noteq> c"
  shows "set (v[i := v ! c, c := v ! i]) = set v"
  by (metis assms list_update_id mset_eq_setD mset_hole_swap)

lemma tracked_except_move:
  assumes tr: "tracked_except i v f" and l: "i < length v" "c < length v" "i \<noteq> c"
  shows "tracked_except c (v[i := v ! c, c := v ! i])
           (if is_wakeup (v ! c) then f(node_idx (v ! c) := int i) else f)"
    (is "tracked_except c ?w ?f")
  unfolding tracked_except_def
proof (intro conjI allI impI)
  note T1 = tr [unfolded tracked_except_def, THEN conjunct1, rule_format]
  note T2 = tr [unfolded tracked_except_def, THEN conjunct2, rule_format]
  fix j assume j: "j < length ?w" "j \<noteq> c" "is_wakeup (?w ! j)"
  show "?f (node_idx (?w ! j)) = int j"
  proof (cases "j = i")
    case True
    with j l show ?thesis by simp
  next
    case False
    then have w: "?w ! j = v ! j" using j l by simp
    have "f (node_idx (v ! j)) = int j" using T1 [of j] j w False by simp
    moreover have "node_idx (v ! j) \<noteq> node_idx (v ! c)" if "is_wakeup (v ! c)"
      using T1 [of c] that l calculation j(2) by auto
    ultimately show ?thesis using w by auto
  qed
next
  note T2 = tr [unfolded tracked_except_def, THEN conjunct2, rule_format]
  fix n assume "\<forall>e \<in> set ?w. is_wakeup e \<longrightarrow> node_idx e \<noteq> n"
  then have n: "\<forall>e \<in> set v. is_wakeup e \<longrightarrow> node_idx e \<noteq> n" using set_hole_swap [OF l] by simp
  then have "is_wakeup (v ! c) \<longrightarrow> node_idx (v ! c) \<noteq> n" using l by auto
  with T2 [OF n [rule_format]] show "?f n = -1" by auto
qed

lemma tracked_except_fill:
  assumes tr: "tracked_except j w f" and j: "j < length w" and one: "one_wakeup w"
  shows "tracked w (if is_wakeup (w ! j) then f(node_idx (w ! j) := int j) else f)"
  unfolding tracked_def
proof (intro conjI allI impI)
  fix l assume l: "l < length w" "is_wakeup (w ! l)"
  show "(if is_wakeup (w ! j) then f(node_idx (w ! j) := int j) else f) (node_idx (w ! l)) = int l"
    using tr l j one_wakeup_nth [OF one, of l j] unfolding tracked_except_def by auto
next
  fix n assume "\<forall>e \<in> set w. is_wakeup e \<longrightarrow> node_idx e \<noteq> n"
  with tr j show "(if is_wakeup (w ! j) then f(node_idx (w ! j) := int j) else f) n = -1"
    unfolding tracked_except_def by auto
qed

lemma sift_up_loop_tracked:
  assumes "sift_up_loop ev i q = (j, q')" "i < count q"
    "tracked_except i ((heap q)[i := ev]) (node_heap_idx q)"
  shows "j < count q' \<and> tracked_except j ((heap q')[j := ev]) (node_heap_idx q')"
  using assms
proof (induction ev i q rule: sift_up_loop.induct)
  case (1 ev i q)
  let ?v = "(heap q)[i := ev]" and ?p = "par i"
  let ?q1 = "track_slot i (q\<lparr>heap := (heap q)[i := heap q ! ?p]\<rparr>)"
  show ?case
  proof (cases "i > 0 \<and> ev_less ev (heap q ! ?p)")
    case True
    then have p: "?p < i" using par_less by auto
    from True "1.prems"(1) have loop: "sift_up_loop ev ?p ?q1 = (j, q')"
      by (subst (asm) sift_up_loop.simps) (simp add: par_def Let_def)
    have w: "(heap ?q1)[?p := ev] = ?v[i := ?v ! ?p, ?p := ?v ! i]"
      using p "1.prems"(2) by simp
    have vp: "?v ! ?p = heap q ! ?p" using p by simp
    have "tracked_except ?p ((heap ?q1)[?p := ev]) (node_heap_idx ?q1)"
      using tracked_except_move [OF "1.prems"(3), of ?p] p "1.prems"(2)
      unfolding w vp by (simp add: track_slot_idx split: if_splits)
    with loop p "1.prems"(2) True have "j < count q' \<and>
      tracked_except j ((heap q')[j := ev]) (node_heap_idx q')"
      by (intro "1.IH") (auto simp: par_def)
    with p show ?thesis by auto
  next
    case False
    with "1.prems"(1) have "j = i" "q' = q"
      by (subst (asm) sift_up_loop.simps; auto simp: par_def Let_def split: if_splits)+
    with "1.prems" show ?thesis by simp
  qed
qed

text \<open>The contract of \<open>heap_sift_up\<close>.\<close>

lemma heap_sift_up_eq:
  assumes "sift_up_loop (heap q ! i) i q = (j, q')" "i < count q" "j = i \<longrightarrow> q' = q"
  shows "heap (heap_sift_up i q) = (heap q')[j := heap q ! i]"
    and "next_seq (heap_sift_up i q) = next_seq q'"
  using assms by (auto simp: heap_sift_up_def Let_def)

lemma sift_up_loop_stay: "sift_up_loop ev i q = (j, q') \<Longrightarrow> j \<le> i \<and> (j = i \<longrightarrow> q' = q)"
proof (induction ev i q rule: sift_up_loop.induct)
  case (1 ev i q)
  show ?case
  proof (cases "i > 0 \<and> ev_less ev (heap q ! ((i - 1) div 2))")
    case True
    then have "j \<le> (i - 1) div 2"
      using "1.IH" [of "(i - 1) div 2"] "1.prems"
      by (subst (asm) (2) sift_up_loop.simps) (auto simp: Let_def)
    then have "j < i" using True by auto
    then show ?thesis by simp
  next
    case False
    with "1.prems" show ?thesis
      by (subst (asm) sift_up_loop.simps) (auto simp: Let_def split: if_splits)
  qed
qed

lemma heap_sift_up_heap:
  assumes "i < count q" "heap_except_up i (heap q)"
  shows "mset (heap (heap_sift_up i q)) = mset (heap q)"
    and "heap_from 0 (heap (heap_sift_up i q))"
    and "next_seq (heap_sift_up i q) = next_seq q"
proof -
  obtain j q' where l: "sift_up_loop (heap q ! i) i q = (j, q')" by fastforce
  note eq = heap_sift_up_eq [OF l assms(1) sift_up_loop_stay [OF l, THEN conjunct2]]
  have "heap_except_up i ((heap q)[i := heap q ! i])" using assms by simp
  from sift_up_loop_heap [OF l assms(1) this] eq
  show "mset (heap (heap_sift_up i q)) = mset (heap q)"
    and "heap_from 0 (heap (heap_sift_up i q))"
    and "next_seq (heap_sift_up i q) = next_seq q" by simp_all
qed

lemma heap_sift_up_tracked:
  assumes "i < count q" "heap_except_up i (heap q)" "tracked (heap q) (node_heap_idx q)"
  shows "tracked (heap (heap_sift_up i q)) (node_heap_idx (heap_sift_up i q))"
proof -
  obtain j q' where l: "sift_up_loop (heap q ! i) i q = (j, q')" by fastforce
  note stay = sift_up_loop_stay [OF l, THEN conjunct2]
  note eq = heap_sift_up_eq [OF l assms(1) stay]
  let ?w = "(heap q')[j := heap q ! i]"
  have T: "j < count q'" "tracked_except j ?w (node_heap_idx q')"
    using sift_up_loop_tracked [OF l assms(1)] tracked_imp_except [OF assms(3)] by simp_all
  have "one_wakeup ?w"
    using one_wakeup_mset [OF heap_sift_up_heap(1) [OF assms(1,2), symmetric]]
      tracked_one_wakeup [OF assms(3)] eq by simp
  then have "tracked ?w (if is_wakeup (?w ! j) then (node_heap_idx q')(node_idx (?w ! j) := int j)
      else node_heap_idx q')"
    using T by (intro tracked_except_fill) auto
  moreover have "node_heap_idx (heap_sift_up i q) =
    (if j \<noteq> i \<and> is_wakeup (?w ! j) then (node_heap_idx q')(node_idx (?w ! j) := int j)
      else node_heap_idx q')"
    using l T(1) by (auto simp: heap_sift_up_def Let_def track_slot_idx)
  ultimately show ?thesis
    using eq stay assms(3) by (cases "j = i") auto
qed

subsection \<open>Sifting down\<close>

lemma heap_except_down_done:
  assumes "heap_except_down m i v"
    "\<forall>x. 0 < x \<and> x < length v \<and> par x = i \<longrightarrow> ev_key (v ! i) \<le> ev_key (v ! x)"
  shows "heap_from m v"
  using assms unfolding heap_from_def heap_except_down_def by metis

lemma heap_except_down_step:
  assumes ex: "heap_except_down m i v" and c: "0 < c" "c < length v" "par c = i" "m \<le> i"
    and lt: "ev_key (v ! c) < ev_key (v ! i)"
    and least: "\<forall>x. 0 < x \<and> x < length v \<and> par x = i \<longrightarrow> ev_key (v ! c) \<le> ev_key (v ! x)"
  shows "heap_except_down m c (v[i := v ! c, c := v ! i])" (is "heap_except_down m c ?w")
  unfolding heap_except_down_def
proof (intro conjI allI impI)
  have i: "i < c" using c par_less [of c] by simp
  note E1 = ex [unfolded heap_except_down_def, THEN conjunct1, rule_format]
  note E2 = ex [unfolded heap_except_down_def, THEN conjunct2, rule_format]
  have nth: "?w ! y = (if y = c then v ! i else if y = i then v ! c else v ! y)"
    if "y < length v" for y using i c that by (simp add: nth_list_update)
  {
    fix x assume x: "0 < x \<and> x < length ?w \<and> m \<le> par x \<and> par x \<noteq> c"
    then have px: "par x < length v" "x < length v" using par_less [of x] by auto
    show "ev_key (?w ! par x) \<le> ev_key (?w ! x)"
    proof (cases "par x = i")
      case True
      then have "x \<noteq> i" using par_less [of x] x by auto
      have "?w ! par x = v ! c" using nth [OF px(1)] True i by simp
      moreover have "?w ! x = (if x = c then v ! i else v ! x)" using nth [OF px(2)] \<open>x \<noteq> i\<close> by simp
      moreover have "ev_key (v ! c) \<le> ev_key (v ! x)" using least x True by simp
      ultimately show ?thesis using lt by (auto intro: less_imp_le)
    next
      case False
      then have "x \<noteq> c" using c by auto
      have "ev_key (v ! par x) \<le> ev_key (v ! x)" using E1 [of x] x False by auto
      moreover have "ev_key (v ! par i) \<le> ev_key (v ! c)" if "x = i"
        using E2 [of c] c x that by auto
      moreover have "?w ! par x = v ! par x" using nth [OF px(1)] False x by simp
      moreover have "?w ! x = (if x = i then v ! c else v ! x)" using nth [OF px(2)] \<open>x \<noteq> c\<close> by simp
      ultimately show ?thesis by auto
    qed
  next
    fix x assume x: "0 < x \<and> x < length ?w \<and> par x = c \<and> 0 < c \<and> m \<le> par c"
    then have "x \<noteq> c" "x \<noteq> i" "x < length v" using par_less [of x] i by auto
    moreover have "ev_key (v ! c) \<le> ev_key (v ! x)" using E1 [of x] x i c by auto
    ultimately show "ev_key (?w ! par c) \<le> ev_key (?w ! x)"
      using nth [of x] nth [of i] c i by auto
  }
qed

text \<open>One round of the loop: the smaller child, when it is smaller than \<open>ev\<close>, fills the hole.\<close>

definition min_child :: "nat \<Rightarrow> sim_event list \<Rightarrow> nat \<Rightarrow> nat" where
  "min_child n h i =
     (if 2 * i + 2 < n \<and> ev_less (h ! (2 * i + 2)) (h ! (2 * i + 1)) then 2 * i + 2 else 2 * i + 1)"

lemma sift_down_loop_step:
  "sift_down_loop ev n i q =
     (let c = min_child n (heap q) i in
      if 2 * i + 1 < n \<and> ev_less (heap q ! c) ev
      then sift_down_loop ev n c (track_slot i (q\<lparr>heap := (heap q)[i := heap q ! c]\<rparr>))
      else (i, q))"
  by (subst sift_down_loop.simps) (simp add: min_child_def Let_def)

lemma min_child_props:
  assumes "2 * i + 1 < n"
  shows "0 < min_child n h i" "min_child n h i < n" "par (min_child n h i) = i" "i < min_child n h i"
    and "\<forall>x. 0 < x \<and> x < n \<and> par x = i \<longrightarrow> ev_key (h ! min_child n h i) \<le> ev_key (h ! x)"
proof -
  show "0 < min_child n h i" "min_child n h i < n" "i < min_child n h i"
    using assms by (auto simp: min_child_def)
  show "par (min_child n h i) = i" by (simp add: min_child_def par_def)
  have "ev_key (h ! min_child n h i) \<le> ev_key (h ! (2 * i + 1))"
    by (auto simp: min_child_def ev_less_key intro: less_imp_le)
  moreover have "ev_key (h ! min_child n h i) \<le> ev_key (h ! (2 * i + 2))" if "2 * i + 2 < n"
    using that by (simp add: min_child_def ev_less_key not_less)
  ultimately show "\<forall>x. 0 < x \<and> x < n \<and> par x = i \<longrightarrow> ev_key (h ! min_child n h i) \<le> ev_key (h ! x)"
    by (metis par_eq_iff)
qed

lemma sift_down_induct [case_names step]:
  assumes "\<And>ev n i q.
    (2 * i + 1 < n \<Longrightarrow> ev_less (heap q ! min_child n (heap q) i) ev \<Longrightarrow>
      P ev n (min_child n (heap q) i)
        (track_slot i (q\<lparr>heap := (heap q)[i := heap q ! min_child n (heap q) i]\<rparr>))) \<Longrightarrow> P ev n i q"
  shows "P ev n i q"
proof (induction ev n i q rule: sift_down_loop.induct)
  case (1 ev n i q)
  show ?case
  proof (rule assms)
    let ?c = "min_child n (heap q) i"
    have c: "(if 2 * i + 1 + 1 < n \<and> ev_less (heap q ! (2 * i + 1 + 1)) (heap q ! (2 * i + 1))
        then 2 * i + 1 + 1 else 2 * i + 1) = ?c" by (simp add: min_child_def)
    assume "2 * i + 1 < n" "ev_less (heap q ! ?c) ev"
    then show "P ev n ?c (track_slot i (q\<lparr>heap := (heap q)[i := heap q ! ?c]\<rparr>))"
      using "1.IH" [OF refl _ refl refl, unfolded c] by simp
  qed
qed

lemma sift_down_loop_stay: "sift_down_loop ev n i q = (j, q') \<Longrightarrow> i \<le> j \<and> (j = i \<longrightarrow> q' = q)"
proof (induction ev n i q rule: sift_down_induct)
  case (step ev n i q)
  let ?c = "min_child n (heap q) i"
  show ?case
  proof (cases "2 * i + 1 < n \<and> ev_less (heap q ! ?c) ev")
    case True
    with step.prems have "sift_down_loop ev n ?c (track_slot i (q\<lparr>heap := (heap q)[i := heap q ! ?c]\<rparr>)) = (j, q')"
      by (subst (asm) sift_down_loop_step) (simp add: Let_def)
    with step.IH True have "?c \<le> j" by blast
    then show ?thesis using min_child_props(4) [of i n "heap q"] True by simp
  next
    case False
    with step.prems show ?thesis by (subst (asm) sift_down_loop_step) (auto simp: Let_def split: if_splits)
  qed
qed

lemma sift_down_loop_heap:
  assumes "sift_down_loop ev n i q = (j, q')" "i < count q" "n = count q" "m \<le> i"
    "heap_except_down m i ((heap q)[i := ev])"
  shows "j < count q \<and> count q' = count q \<and> next_seq q' = next_seq q \<and>
    mset ((heap q')[j := ev]) = mset ((heap q)[i := ev]) \<and> heap_from m ((heap q')[j := ev])"
  using assms
proof (induction ev n i q rule: sift_down_induct)
  case (step ev n i q)
  let ?c = "min_child n (heap q) i" and ?v = "(heap q)[i := ev]"
  let ?q1 = "track_slot i (q\<lparr>heap := (heap q)[i := heap q ! ?c]\<rparr>)"
  show ?case
  proof (cases "2 * i + 1 < n \<and> ev_less (heap q ! ?c) ev")
    case True
    note C = min_child_props [of i n "heap q", OF True [THEN conjunct1]]
    have vc: "?v ! ?c = heap q ! ?c" using C by simp
    have vx: "?v ! x = heap q ! x" if "par x = i" "0 < x" for x using that par_less [of x] by simp
    from True step.prems(1) have loop: "sift_down_loop ev n ?c ?q1 = (j, q')"
      by (subst (asm) sift_down_loop_step) (simp add: Let_def)
    have w: "(heap ?q1)[?c := ev] = ?v[i := ?v ! ?c, ?c := ?v ! i]"
      using vc step.prems(2) by simp
    have "heap_except_down m ?c ((heap ?q1)[?c := ev])"
      unfolding w using step.prems C True vc vx
      by (intro heap_except_down_step) (auto simp: ev_less_key)
    then have "j < count ?q1 \<and> count q' = count ?q1 \<and> next_seq q' = next_seq ?q1 \<and>
      mset ((heap q')[j := ev]) = mset ((heap ?q1)[?c := ev]) \<and> heap_from m ((heap q')[j := ev])"
      using loop C step.prems True by (intro step.IH) auto
    moreover have "mset ((heap ?q1)[?c := ev]) = mset ?v"
      using mset_hole_swap [of i "heap q" ?c ev] C step.prems by simp
    ultimately show ?thesis by simp
  next
    case False
    with step.prems(1) have "j = i" "q' = q"
      by (subst (asm) sift_down_loop_step; auto simp: Let_def split: if_splits)+
    moreover have "heap_from m ?v"
    proof (intro heap_except_down_done [OF step.prems(5)] allI impI)
      fix x assume x: "0 < x \<and> x < length ?v \<and> par x = i"
      then have "2 * i + 1 < n" "i \<noteq> x" using step.prems(3) par_less [of x] by (auto simp: par_eq_iff)
      with False min_child_props(5) [of i n "heap q"] x step.prems
      show "ev_key (?v ! i) \<le> ev_key (?v ! x)" by (auto simp: ev_less_key not_less)
    qed
    ultimately show ?thesis using step.prems by simp
  qed
qed

lemma sift_down_loop_tracked:
  assumes "sift_down_loop ev n i q = (j, q')" "i < count q" "n = count q"
    "tracked_except i ((heap q)[i := ev]) (node_heap_idx q)"
  shows "j < count q' \<and> tracked_except j ((heap q')[j := ev]) (node_heap_idx q')"
  using assms
proof (induction ev n i q rule: sift_down_induct)
  case (step ev n i q)
  let ?c = "min_child n (heap q) i" and ?v = "(heap q)[i := ev]"
  let ?q1 = "track_slot i (q\<lparr>heap := (heap q)[i := heap q ! ?c]\<rparr>)"
  show ?case
  proof (cases "2 * i + 1 < n \<and> ev_less (heap q ! ?c) ev")
    case True
    note C = min_child_props [of i n "heap q", OF True [THEN conjunct1]]
    have vc: "?v ! ?c = heap q ! ?c" using C by simp
    from True step.prems(1) have loop: "sift_down_loop ev n ?c ?q1 = (j, q')"
      by (subst (asm) sift_down_loop_step) (simp add: Let_def)
    have w: "(heap ?q1)[?c := ev] = ?v[i := ?v ! ?c, ?c := ?v ! i]"
      using vc step.prems(2) by simp
    have "tracked_except ?c ((heap ?q1)[?c := ev]) (node_heap_idx ?q1)"
      using tracked_except_move [OF step.prems(4), of ?c] C step.prems
      unfolding w vc by (simp add: track_slot_idx split: if_splits)
    then show ?thesis using loop C step.prems True by (intro step.IH) auto
  next
    case False
    with step.prems show ?thesis
      by (subst (asm) sift_down_loop_step) (auto simp: Let_def split: if_splits)
  qed
qed

text \<open>The contract of \<open>heap_sift_down\<close>.\<close>

lemma heap_sift_down_eq:
  assumes "sift_down_loop (heap q ! i) (count q) i q = (j, q')" "i < count q" "j = i \<longrightarrow> q' = q"
  shows "heap (heap_sift_down i q) = (heap q')[j := heap q ! i]"
    and "next_seq (heap_sift_down i q) = next_seq q'"
  using assms by (auto simp: heap_sift_down_def Let_def)

lemma heap_sift_down_heap:
  assumes "i < count q" "m \<le> i" "heap_except_down m i (heap q)"
  shows "mset (heap (heap_sift_down i q)) = mset (heap q)"
    and "heap_from m (heap (heap_sift_down i q))"
    and "next_seq (heap_sift_down i q) = next_seq q"
proof -
  obtain j q' where l: "sift_down_loop (heap q ! i) (count q) i q = (j, q')" by fastforce
  note eq = heap_sift_down_eq [OF l assms(1) sift_down_loop_stay [OF l, THEN conjunct2]]
  have "heap_except_down m i ((heap q)[i := heap q ! i])" using assms by simp
  from sift_down_loop_heap [OF l assms(1) refl assms(2) this] eq
  show "mset (heap (heap_sift_down i q)) = mset (heap q)"
    and "heap_from m (heap (heap_sift_down i q))"
    and "next_seq (heap_sift_down i q) = next_seq q" by simp_all
qed

lemma heap_sift_down_tracked:
  assumes "i < count q" "heap_except_down m i (heap q)" "m \<le> i" "tracked (heap q) (node_heap_idx q)"
  shows "tracked (heap (heap_sift_down i q)) (node_heap_idx (heap_sift_down i q))"
proof -
  obtain j q' where l: "sift_down_loop (heap q ! i) (count q) i q = (j, q')" by fastforce
  note stay = sift_down_loop_stay [OF l, THEN conjunct2]
  note eq = heap_sift_down_eq [OF l assms(1) stay]
  let ?w = "(heap q')[j := heap q ! i]"
  have T: "j < count q'" "tracked_except j ?w (node_heap_idx q')"
    using sift_down_loop_tracked [OF l assms(1) refl] tracked_imp_except [OF assms(4)] by simp_all
  have "one_wakeup ?w"
    using one_wakeup_mset [OF heap_sift_down_heap(1) [OF assms(1,3,2), symmetric]]
      tracked_one_wakeup [OF assms(4)] eq by simp
  then have "tracked ?w (if is_wakeup (?w ! j) then (node_heap_idx q')(node_idx (?w ! j) := int j)
      else node_heap_idx q')"
    using T by (intro tracked_except_fill) auto
  moreover have "node_heap_idx (heap_sift_down i q) =
    (if j \<noteq> i \<and> is_wakeup (?w ! j) then (node_heap_idx q')(node_idx (?w ! j) := int j)
      else node_heap_idx q')"
    using l T(1) by (auto simp: heap_sift_down_def Let_def track_slot_idx)
  ultimately show ?thesis
    using eq stay assms(4) by (cases "j = i") auto
qed

subsection \<open>From the heap to the sorted list\<close>

lemma ev_key_inj: "distinct (map seq h) \<Longrightarrow> inj_on ev_key (set h)"
  by (auto simp: ev_key_def inj_on_def distinct_map dest: inj_onD)

lemma heap_from_root:
  "heap_from 0 h \<Longrightarrow> x < length h \<Longrightarrow> ev_key (h ! 0) \<le> ev_key (h ! x)"
proof (induction x rule: less_induct)
  case (less x)
  show ?case
  proof (cases "x = 0")
    case False
    then have "par x < x" using par_less by simp
    with less have "ev_key (h ! 0) \<le> ev_key (h ! par x)" by simp
    also have "\<dots> \<le> ev_key (h ! x)" using less.prems False by (simp add: heap_from_def)
    finally show ?thesis .
  qed simp
qed

lemma queue_inv_root:
  "queue_inv q \<Longrightarrow> e \<in> set (heap q) \<Longrightarrow> ev_key (heap q ! 0) \<le> ev_key e"
  by (auto simp: queue_inv_def in_set_conv_nth intro: heap_from_root)

lemma pending_mset_eq:
  assumes "events_ok s h" "mset h = mset (heap q)"
  shows "pending q = sort_key ev_key h"
  unfolding pending_def using assms
  by (intro sort_key_mset_eq [symmetric] ev_key_inj) (auto simp: events_ok_def)

lemma pending_set [simp]: "set (pending q) = set (heap q)"
  by (simp add: pending_def)

lemma length_pending [simp]: "length (pending q) = count q"
  by (simp add: pending_def)

lemma sorted_pending: "sorted (map ev_key (pending q))"
  by (simp add: pending_def)

lemma pending_Nil_iff [simp]: "pending q = [] \<longleftrightarrow> heap q = []"
  by (metis length_0_conv length_pending)

lemma pending_Cons:
  assumes "queue_inv q" "heap q \<noteq> []"
  shows "pending q = heap q ! 0 # sort_key ev_key (tl (heap q))"
proof -
  have h: "heap q = heap q ! 0 # tl (heap q)" using assms(2) by (cases "heap q") auto
  have "\<forall>e \<in> set (tl (heap q)). ev_key (heap q ! 0) \<le> ev_key e"
    using queue_inv_root [OF assms(1)] by (meson list.set_sel(2) assms(2))
  with h show ?thesis unfolding pending_def by (metis sort_key_Cons_min)
qed

subsection \<open>Removing the earliest event\<close>

lemma one_wakeup_sub: "mset h' \<subseteq># mset h \<Longrightarrow> one_wakeup h \<Longrightarrow> one_wakeup h'"
  unfolding one_wakeup_def
  by (metis distinct_map_mset_sub multiset_filter_mono image_mset_subseteq_mono mset_filter mset_map)

lemma pop_tracked:
  assumes tr: "tracked h f" and ne: "length h > 1"
  defines "f1 \<equiv> (if is_wakeup (h ! 0) then f(node_idx (h ! 0) := -1) else f)"
  shows "tracked ((butlast h)[0 := last h])
           (if is_wakeup (last h) then f1(node_idx (last h) := 0) else f1)" (is "tracked ?h ?f")
  unfolding tracked_def
proof (intro conjI allI impI)
  have one: "one_wakeup h" using tr by (rule tracked_one_wakeup)
  have lst: "last h = h ! (length h - 1)" using ne by (intro last_conv_nth) auto
  note T1 = tr [unfolded tracked_def, THEN conjunct1, rule_format]
  note T2 = tr [unfolded tracked_def, THEN conjunct2, rule_format]
  {
    fix j assume j: "j < length ?h" "is_wakeup (?h ! j)"
    show "?f (node_idx (?h ! j)) = int j"
    proof (cases "j = 0")
      case True
      with j show ?thesis by auto
    next
      case False
      then have hj: "?h ! j = h ! j" and jl: "j < length h - 1" using j by (auto simp: nth_butlast)
      then have "f (node_idx (h ! j)) = int j" using T1 [of j] j by auto
      moreover have "node_idx (h ! j) \<noteq> node_idx (last h)" if "is_wakeup (last h)"
        using one_wakeup_nth [OF one, of j "length h - 1"] that j jl hj lst by auto
      moreover have "node_idx (h ! j) \<noteq> node_idx (h ! 0)" if "is_wakeup (h ! 0)"
        using that j jl hj False ne by (intro one_wakeup_nth [OF one]) auto
      ultimately show ?thesis using hj by (auto simp: f1_def)
    qed
  next
    fix n assume n: "\<forall>e \<in> set ?h. is_wakeup e \<longrightarrow> node_idx e \<noteq> n"
    have "set ?h = set (tl h)" using ne mset_last_to_front [of h] by (metis length_0_conv
          less_nat_zero_code mset_eq_setD)
    then have n': "\<forall>e \<in> set (tl h). is_wakeup e \<longrightarrow> node_idx e \<noteq> n" using n by simp
    have h: "h = h ! 0 # tl h" using ne by (cases h) auto
    have "last h \<in> set (tl h)" using ne by (cases h) (auto split: if_splits)
    with n' have l: "is_wakeup (last h) \<longrightarrow> node_idx (last h) \<noteq> n" by simp
    show "?f n = -1"
    proof (cases "is_wakeup (h ! 0) \<and> node_idx (h ! 0) = n")
      case True
      with l show ?thesis by (auto simp: f1_def)
    next
      case False
      then have "\<forall>e \<in> set h. is_wakeup e \<longrightarrow> node_idx e \<noteq> n" using n' h by (metis set_ConsD)
      then have "f n = -1" using T2 by simp
      with False l show ?thesis by (auto simp: f1_def)
    qed
  }
qed

lemma events_ok_sub:
  assumes "mset h' \<subseteq># mset h" "events_ok s h"
  shows "events_ok s h'"
  unfolding events_ok_def
proof (intro conjI)
  have sub: "set h' \<subseteq> set h" using assms(1) by (metis set_mset_mono set_mset_mset)
  show "length h' \<le> SIM_EQ_MAX_EVENTS"
    using assms size_mset_mono [OF assms(1)] by (simp add: events_ok_def)
  show "one_wakeup h'" using assms one_wakeup_sub by (auto simp: events_ok_def)
  show "distinct (map seq h')"
    using assms by (metis distinct_map_mset_sub events_ok_def image_mset_subseteq_mono mset_map)
  show "\<forall>e \<in> set h'. seq e < s" "\<forall>e \<in> set h'. wakeup_shape e"
    using assms(2) sub by (auto simp: events_ok_def)
qed

lemma pop_heap_except:
  assumes "heap_from 0 h" "length h > 1"
  shows "heap_except_down 0 0 ((butlast h)[0 := last h])"
  unfolding heap_except_down_def
proof (intro conjI allI impI)
  fix x assume x: "0 < x \<and> x < length ((butlast h)[0 := last h]) \<and> 0 \<le> par x \<and> par x \<noteq> 0"
  then have "par x < x" using par_less by simp
  then show "ev_key ((butlast h)[0 := last h] ! par x) \<le> ev_key ((butlast h)[0 := last h] ! x)"
    using assms x by (auto simp: nth_butlast heap_from_def)
qed simp

lemma clear_index_idx:
  "node_heap_idx (clear_index i q) =
     (if is_wakeup (heap q ! i) then (node_heap_idx q)(node_idx (heap q ! i) := -1)
      else node_heap_idx q)"
  by (auto simp: clear_index_def is_wakeup_def Let_def)

lemma sim_eq_pop_refines:
  assumes inv: "queue_inv q" and ne: "pending q \<noteq> []"
  shows "fst (sim_eq_pop q) = hd (pending q)" (is ?top)
    and "queue_inv (snd (sim_eq_pop q))" (is ?inv)
    and "pending (snd (sim_eq_pop q)) = tl (pending q)" (is ?pend)
    and "next_seq (snd (sim_eq_pop q)) = next_seq q" (is ?seq)
proof -
  let ?h = "heap q" and ?h' = "(butlast (heap q))[0 := last (heap q)]"
  have hne: "?h \<noteq> []" using ne by simp
  note P = pending_Cons [OF inv hne]
  show ?top using P hne by (simp add: sim_eq_pop_def Let_def)
  have ok: "events_ok (next_seq q) (tl ?h)"
    using inv hne by (intro events_ok_sub [of "tl ?h" ?h]; cases ?h) (auto simp: queue_inv_def)
  let ?q2 = "(clear_index 0 q)\<lparr>heap := ?h'\<rparr>"
  have fin: "queue_inv r \<and> pending r = tl (pending q)"
    if "mset (heap r) = mset ?h'" "heap_from 0 (heap r)" "tracked (heap r) (node_heap_idx r)"
      "next_seq r = next_seq q" for r
  proof -
    have m: "mset (heap r) = mset (tl ?h)" using that(1) mset_last_to_front [OF hne] by simp
    have "queue_inv r" using that events_ok_mset [OF m [symmetric] ok] by (simp add: queue_inv_def)
    moreover have "pending r = tl (pending q)"
      using pending_mset_eq [OF ok m [symmetric]] P by simp
    ultimately show ?thesis ..
  qed
  show ?inv ?pend ?seq
  proof -
    consider (one) "length ?h = 1" | (more) "length ?h > 1" using hne by (cases "?h") auto
    then have "queue_inv (snd (sim_eq_pop q)) \<and> pending (snd (sim_eq_pop q)) = tl (pending q) \<and>
      next_seq (snd (sim_eq_pop q)) = next_seq q"
    proof cases
      case one
      then obtain a where h1: "?h = [a]" by (cases ?h) auto
      have s: "snd (sim_eq_pop q) = ?q2" by (simp add: sim_eq_pop_def Let_def h1)
      have "tracked [a] (node_heap_idx q)" using inv h1 by (simp add: queue_inv_def)
      then have "tracked [] (node_heap_idx ?q2)"
        by (auto simp: tracked_def clear_index_idx h1)
      then have "queue_inv ?q2 \<and> pending ?q2 = tl (pending q)"
        by (intro fin) (auto simp: h1 heap_from_def)
      with s show ?thesis by simp
    next
      case more
      let ?q3 = "track_slot 0 ?q2"
      have s: "snd (sim_eq_pop q) = heap_sift_down 0 ?q3"
        using more by (cases ?h) (auto simp: sim_eq_pop_def Let_def)
      have e: "heap_except_down 0 0 (heap ?q3)" using pop_heap_except inv more by (simp add: queue_inv_def)
      have t: "tracked (heap ?q3) (node_heap_idx ?q3)"
        using pop_tracked [of ?h "node_heap_idx q"] inv more
        by (simp add: queue_inv_def track_slot_idx clear_index_idx split: if_splits)
      have c: "0 < count ?q3" using more by simp
      have "queue_inv (heap_sift_down 0 ?q3) \<and> pending (heap_sift_down 0 ?q3) = tl (pending q)"
        using heap_sift_down_heap [OF c le0 e] heap_sift_down_tracked [OF c e le0 t]
        by (intro fin) auto
      then show ?thesis using s heap_sift_down_heap(3) [OF c le0 e] by simp
    qed
    then show ?inv ?pend ?seq by auto
  qed
qed

subsection \<open>Inserting an event\<close>

lemma word_less_inc: "s \<noteq> (-1 :: 'a :: len word) \<Longrightarrow> s < s + 1"
  by (metis add.commute add_eq_0_iff lessI unatSuc word_less_nat_alt)

lemma append_heap_except: "heap_from 0 h \<Longrightarrow> heap_except_up (length h) (h @ [e])"
  unfolding heap_except_up_def
proof (intro conjI allI impI)
  fix x assume h: "heap_from 0 h" and x: "0 < x \<and> x < length (h @ [e]) \<and> x \<noteq> length h"
  then have "x < length h" "par x < length h" using par_less [of x] by auto
  with h x show "ev_key ((h @ [e]) ! par x) \<le> ev_key ((h @ [e]) ! x)"
    by (simp add: nth_append heap_from_def)
next
  fix x assume "0 < x \<and> x < length (h @ [e]) \<and> par x = length h \<and> 0 < length h"
  then show "ev_key ((h @ [e]) ! par (length h)) \<le> ev_key ((h @ [e]) ! x)"
    using par_less [of x] by auto
qed

lemma events_ok_append:
  assumes "events_ok s h" "seq e = s" "s \<noteq> -1" "length h < SIM_EQ_MAX_EVENTS"
    "wakeup_shape e" "one_wakeup (h @ [e])"
  shows "events_ok (s + 1) (h @ [e])"
  unfolding events_ok_def
proof (intro conjI)
  have s: "s < s + 1" using assms(3) by (rule word_less_inc)
  then show "\<forall>e' \<in> set (h @ [e]). seq e' < s + 1"
    using assms(1,2) by (auto simp: events_ok_def dest: less_trans)
  show "distinct (map seq (h @ [e]))" using assms(1,2) by (auto simp: events_ok_def)
qed (use assms in \<open>auto simp: events_ok_def\<close>)

lemma insert_refines:
  assumes inv: "queue_inv q" and e: "seq e = next_seq q" "seq_room q" "count q < SIM_EQ_MAX_EVENTS"
    "wakeup_shape e"
    and tr: "tracked (heap q @ [e]) f"
  defines "r \<equiv> heap_sift_up (count q)
    (q\<lparr>heap := heap q @ [e], next_seq := next_seq q + 1, node_heap_idx := f\<rparr>)"
  shows "queue_inv r" and "pending r = insort_key ev_key e (pending q)"
    and "next_seq r = next_seq q + 1"
proof -
  let ?q1 = "q\<lparr>heap := heap q @ [e], next_seq := next_seq q + 1, node_heap_idx := f\<rparr>"
  have c: "count q < count ?q1" by simp
  have ex: "heap_except_up (count q) (heap ?q1)"
    using append_heap_except inv by (simp add: queue_inv_def)
  have t: "tracked (heap ?q1) (node_heap_idx ?q1)" using tr by simp
  have ok: "events_ok (next_seq q + 1) (heap q @ [e])"
    using inv e tracked_one_wakeup [OF tr]
    by (intro events_ok_append) (auto simp: queue_inv_def seq_room_def)
  note S = heap_sift_up_heap [OF c ex] heap_sift_up_tracked [OF c ex t]
  have m: "mset (heap q @ [e]) = mset (heap r)" using S(1) by (simp add: r_def)
  show "queue_inv r"
    using S events_ok_mset [OF m ok] by (simp add: queue_inv_def r_def)
  have "pending r = sort_key ev_key (heap q @ [e])" using ok m by (rule pending_mset_eq)
  also have "\<dots> = sort_key ev_key (e # heap q)"
    using ok by (intro sort_key_mset_eq ev_key_inj) (auto simp: events_ok_def)
  finally show "pending r = insort_key ev_key e (pending q)" by (simp add: pending_def)
  show "next_seq r = next_seq q + 1" using S(3) by (simp add: r_def)
qed

lemma tracked_append_other:
  "tracked h f \<Longrightarrow> \<not> is_wakeup e \<Longrightarrow> tracked (h @ [e]) f"
  by (auto simp: tracked_def nth_append)

lemma push_event_refines:
  assumes "queue_inv q" "seq e = next_seq q" "seq_room q" "count q < SIM_EQ_MAX_EVENTS"
    "kind e \<noteq> SIM_EV_NODE_WAKEUP"
  shows "queue_inv (push_event e q)"
    and "pending (push_event e q) = insort_key ev_key e (pending q)"
    and "next_seq (push_event e q) = next_seq q + 1"
proof -
  have t: "tracked (heap q @ [e]) (node_heap_idx q)"
    using assms by (intro tracked_append_other) (auto simp: queue_inv_def is_wakeup_def)
  have eq: "push_event e q = heap_sift_up (count q)
    (q\<lparr>heap := heap q @ [e], next_seq := next_seq q + 1, node_heap_idx := node_heap_idx q\<rparr>)"
    by (simp add: push_event_def)
  show "queue_inv (push_event e q)" "pending (push_event e q) = insort_key ev_key e (pending q)"
    "next_seq (push_event e q) = next_seq q + 1"
    unfolding eq using insert_refines [OF assms(1-4) _ t] assms(5) by (simp_all add: wakeup_shape_def)
qed

subsection \<open>Scheduling a wakeup\<close>

definition wakeup_of :: "int \<Rightarrow> sim_event \<Rightarrow> bool" where
  "wakeup_of n e \<longleftrightarrow> kind e = SIM_EV_NODE_WAKEUP \<and> node_idx e = n"

lemma wakeup_slot_found:
  assumes "queue_inv q" "wakeup_slot q n \<ge> 0"
  shows "nat (wakeup_slot q n) < count q" "wakeup_of n (heap q ! nat (wakeup_slot q n))"
    and "int (nat (wakeup_slot q n)) = wakeup_slot q n"
  using assms by (auto simp: wakeup_slot_def Let_def wakeup_of_def split: if_splits)

lemma wakeup_slot_none:
  assumes "queue_inv q" "valid_eq_node n" "\<not> wakeup_slot q n \<ge> 0"
  shows "\<forall>e \<in> set (heap q). \<not> wakeup_of n e"
proof
  fix e assume "e \<in> set (heap q)"
  then obtain i where i: "i < count q" "heap q ! i = e" by (auto simp: in_set_conv_nth)
  show "\<not> wakeup_of n e"
  proof
    assume "wakeup_of n e"
    then have "node_heap_idx q n = int i"
      using assms(1,2) i by (auto simp: queue_inv_def tracked_def wakeup_of_def is_wakeup_def)
    then have "wakeup_slot q n = int i"
      using i \<open>wakeup_of n e\<close> by (simp add: wakeup_slot_def wakeup_of_def)
    with assms(3) show False by simp
  qed
qed

lemma tracked_append_wakeup:
  assumes "tracked h f" "is_wakeup e" "\<forall>e' \<in> set h. \<not> wakeup_of (node_idx e) e'"
  shows "tracked (h @ [e]) (f(node_idx e := int (length h)))"
  using assms by (auto simp: tracked_def nth_append is_wakeup_def wakeup_of_def)

lemma tracked_update:
  assumes "tracked h f" "i < length h" "is_wakeup e = is_wakeup (h ! i)" "node_idx e = node_idx (h ! i)"
  shows "tracked (h[i := e]) f"
proof -
  have n: "node_idx (h[i := e] ! j) = node_idx (h ! j)" "is_wakeup (h[i := e] ! j) = is_wakeup (h ! j)"
    if "j < length h" for j using assms that by (auto simp: nth_list_update)
  have "\<forall>e' \<in> set h. is_wakeup e' \<longrightarrow> node_idx e' \<noteq> k"
    if "\<forall>e' \<in> set (h[i := e]). is_wakeup e' \<longrightarrow> node_idx e' \<noteq> k" for k
    using that n by (metis in_set_conv_nth length_list_update)
  with assms n show ?thesis by (simp add: tracked_def)
qed

lemma heap_update_up:
  assumes h: "heap_from 0 h" and i: "i < length h" and le: "ev_key e \<le> ev_key (h ! i)"
  shows "heap_except_up i (h[i := e])"
  unfolding heap_except_up_def
proof (intro conjI allI impI)
  fix x assume x: "0 < x \<and> x < length (h[i := e]) \<and> x \<noteq> i"
  then have "ev_key (h ! par x) \<le> ev_key (h ! x)" using h by (simp add: heap_from_def)
  then show "ev_key (h[i := e] ! par x) \<le> ev_key (h[i := e] ! x)"
    using x le i by (cases "par x = i") (auto dest: order_trans)
next
  fix x assume x: "0 < x \<and> x < length (h[i := e]) \<and> par x = i \<and> 0 < i"
  then have "ev_key (h ! i) \<le> ev_key (h ! x)" "ev_key (h ! par i) \<le> ev_key (h ! i)"
    using h i by (auto simp: heap_from_def)
  then show "ev_key (h[i := e] ! par i) \<le> ev_key (h[i := e] ! x)"
    using x par_less [of i] par_less [of x] by (auto dest: order_trans)
qed

lemma heap_update_down:
  assumes h: "heap_from 0 h" and i: "i < length h" and le: "ev_key (h ! i) \<le> ev_key e"
  shows "heap_except_down 0 i (h[i := e])"
  unfolding heap_except_down_def
proof (intro conjI allI impI)
  fix x assume x: "0 < x \<and> x < length (h[i := e]) \<and> 0 \<le> par x \<and> par x \<noteq> i"
  then have "ev_key (h ! par x) \<le> ev_key (h ! x)" using h by (simp add: heap_from_def)
  then show "ev_key (h[i := e] ! par x) \<le> ev_key (h[i := e] ! x)"
    using x le i by (cases "x = i") (auto dest: order_trans)
next
  fix x assume x: "0 < x \<and> x < length (h[i := e]) \<and> par x = i \<and> 0 < i \<and> 0 \<le> par i"
  then have "ev_key (h ! i) \<le> ev_key (h ! x)" "ev_key (h ! par i) \<le> ev_key (h ! i)"
    using h i by (auto simp: heap_from_def)
  then show "ev_key (h[i := e] ! par i) \<le> ev_key (h[i := e] ! x)"
    using x par_less [of i] par_less [of x] by (auto dest: order_trans)
qed

lemma events_ok_update:
  assumes ok: "events_ok s h" and i: "i < length h" and s: "s \<noteq> -1"
    and e: "seq e = s" "wakeup_shape e"
    and one: "one_wakeup (h[i := e])"
  shows "events_ok (s + 1) (h[i := e])"
  unfolding events_ok_def
proof (intro conjI)
  have inc: "s < s + 1" using s by (rule word_less_inc)
  have sub: "set (h[i := e]) \<subseteq> insert e (set h)" by (rule set_update_subset_insert)
  show "\<forall>e' \<in> set (h[i := e]). seq e' < s + 1"
    using sub inc ok e by (fastforce simp: events_ok_def dest: less_trans)
  have "distinct ((map seq h)[i := s])"
    using ok i by (intro distinct_list_update) (auto simp: events_ok_def)
  then show "distinct (map seq (h[i := e]))" by (simp add: map_update e)
  show "\<forall>e' \<in> set (h[i := e]). wakeup_shape e'"
    using sub ok e by (auto simp: events_ok_def)
qed (use ok one in \<open>auto simp: events_ok_def\<close>)

text \<open>Replacing a node's wakeup in place: only that wakeup leaves the queue.\<close>

lemma filter_wakeup_of:
  assumes inv: "queue_inv q" and i: "i < count q" and w: "wakeup_of n (heap q ! i)"
  shows "mset (filter (\<lambda>e. \<not> wakeup_of n e) (heap q)) = mset (heap q) - {#heap q ! i#}"
proof -
  let ?h = "heap q"
  have one: "one_wakeup ?h" and val: "\<forall>e \<in> set ?h. kind e = SIM_EV_NODE_WAKEUP \<longrightarrow> valid_eq_node (node_idx e)"
    using inv by (auto simp: queue_inv_def events_ok_def wakeup_shape_def)
  have h: "?h = take i ?h @ ?h ! i # drop (Suc i) ?h" using i by (rule id_take_nth_drop)
  have other: "\<not> wakeup_of n (?h ! j)" if "j < length ?h" "j \<noteq> i" for j
    using one_wakeup_nth [OF one that(1) i that(2)] val w that i
    by (auto simp: wakeup_of_def is_wakeup_def)
  have f: "filter (\<lambda>e. \<not> wakeup_of n e) (take i ?h) = take i ?h"
    "filter (\<lambda>e. \<not> wakeup_of n e) (drop (Suc i) ?h) = drop (Suc i) ?h"
    using other by (auto simp: filter_id_conv in_set_conv_nth)
  have "filter (\<lambda>e. \<not> wakeup_of n e) ?h = take i ?h @ drop (Suc i) ?h"
    by (subst h) (simp add: f w)
  moreover have "mset ?h = mset (take i ?h) + (add_mset (?h ! i) (mset (drop (Suc i) ?h)))"
    by (subst h) simp
  ultimately show ?thesis by simp
qed

lemma reschedule_refines:
  fixes t :: int and gen :: u32
  assumes inv: "queue_inv q" and room: "seq_room q" and i: "i < count q"
    and w: "wakeup_of n (heap q ! i)" "valid_eq_node n"
  defines "e \<equiv> (heap q ! i)\<lparr>time_ns := t, seq := next_seq q, target_generation := gen\<rparr>"
  defines "q' \<equiv> q\<lparr>heap := (heap q)[i := e], next_seq := next_seq q + 1\<rparr>"
  defines "r \<equiv> if t < time_ns (heap q ! i) then heap_sift_up i q' else heap_sift_down i q'"
  shows "queue_inv r" and "next_seq r = next_seq q + 1"
    and "pending r = insort_key ev_key e (filter (\<lambda>e. \<not> wakeup_of n e) (pending q))"
proof -
  let ?h = "heap q"
  have hi: "seq (?h ! i) < next_seq q" "wakeup_shape (?h ! i)"
    using inv i by (auto simp: queue_inv_def events_ok_def)
  have t: "tracked (heap q') (node_heap_idx q')"
    using inv i by (auto simp: q'_def e_def queue_inv_def is_wakeup_def intro!: tracked_update)
  have ok: "events_ok (next_seq q + 1) (heap q')"
    using inv i room hi tracked_one_wakeup [OF t] unfolding q'_def
    by (simp, intro events_ok_update) (auto simp: queue_inv_def seq_room_def e_def wakeup_shape_def)
  have i': "i < count q'" using i by (simp add: q'_def)
  have S: "mset (heap r) = mset (heap q') \<and> heap_from 0 (heap r) \<and>
    tracked (heap r) (node_heap_idx r) \<and> next_seq r = next_seq q + 1"
  proof (cases "t < time_ns (?h ! i)")
    case True
    then have ex: "heap_except_up i (heap q')"
      using inv i by (simp add: q'_def queue_inv_def, intro heap_update_up) (auto simp: e_def ev_key_def)
    with True show ?thesis
      using heap_sift_up_heap [OF i' ex] heap_sift_up_tracked [OF i' ex t] by (simp add: r_def q'_def)
  next
    case False
    then have ex: "heap_except_down 0 i (heap q')"
      using inv i hi by (simp add: q'_def queue_inv_def, intro heap_update_down)
        (auto simp: e_def ev_key_def)
    with False show ?thesis
      using heap_sift_down_heap [OF i' le0 ex] heap_sift_down_tracked [OF i' ex le0 t]
      by (simp add: r_def q'_def)
  qed
  have m: "mset (heap q') = mset (heap r)" using S by simp
  show "queue_inv r" "next_seq r = next_seq q + 1"
    using S events_ok_mset [OF m ok] by (simp_all add: queue_inv_def)
  have m2: "mset (e # filter (\<lambda>e. \<not> wakeup_of n e) ?h) = mset (heap q')"
    using filter_wakeup_of [OF inv i w(1)] i by (simp add: q'_def mset_update)
  have "pending r = sort_key ev_key (e # filter (\<lambda>e. \<not> wakeup_of n e) ?h)"
    by (rule pending_mset_eq [OF events_ok_mset [OF m2 [symmetric] ok] trans [OF m2 m]])
  then show "pending r = insort_key ev_key e (filter (\<lambda>e. \<not> wakeup_of n e) (pending q))"
    by (simp add: pending_def filter_sort)
qed

lemma reschedule_event:
  assumes "queue_inv q" "i < count q" "wakeup_of n (heap q ! i)"
  shows "(heap q ! i)\<lparr>time_ns := t, seq := next_seq q, target_generation := gen\<rparr> = wakeup_event q n t gen"
proof -
  have "wakeup_shape (heap q ! i)" using assms by (auto simp: queue_inv_def events_ok_def)
  with assms(3) show ?thesis
    by (cases "heap q ! i") (simp add: wakeup_event_def wakeup_of_def wakeup_shape_def)
qed

lemma filter_none: "\<forall>e \<in> set (heap q). \<not> wakeup_of n e \<Longrightarrow> filter (\<lambda>e. \<not> wakeup_of n e) (pending q) = pending q"
  by (simp add: filter_id_conv)

text \<open>
  A wakeup is accepted when the node already has one (it is replaced, even in a full queue) or
  when there is room for a new one.
\<close>

definition accepts_wakeup :: "sim_event_queue \<Rightarrow> int \<Rightarrow> bool" where
  "accepts_wakeup q n \<longleftrightarrow> (\<exists>e \<in> set (heap q). wakeup_of n e) \<or> count q < SIM_EQ_MAX_EVENTS"

lemma schedule_gen_refines:
  fixes t :: int and gen :: u32
  assumes inv: "queue_inv q" and room: "seq_room q" and n: "valid_eq_node n"
  defines "r \<equiv> sim_eq_schedule_gen q n t gen"
  shows "queue_inv r"
    and "accepts_wakeup q n \<Longrightarrow>
      pending r = insort_key ev_key (wakeup_event q n t gen) (filter (\<lambda>e. \<not> wakeup_of n e) (pending q))"
    and "accepts_wakeup q n \<Longrightarrow> next_seq r = next_seq q + 1"
    and "\<not> accepts_wakeup q n \<Longrightarrow> r = q"
proof -
  consider (found) "wakeup_slot q n \<ge> 0"
    | (fresh) "\<not> wakeup_slot q n \<ge> 0" "count q < SIM_EQ_MAX_EVENTS"
    | (full) "\<not> wakeup_slot q n \<ge> 0" "\<not> count q < SIM_EQ_MAX_EVENTS" by blast
  then have "queue_inv r \<and> (accepts_wakeup q n \<longrightarrow> next_seq r = next_seq q + 1 \<and>
      pending r = insort_key ev_key (wakeup_event q n t gen) (filter (\<lambda>e. \<not> wakeup_of n e) (pending q))) \<and>
      (\<not> accepts_wakeup q n \<longrightarrow> r = q)"
  proof cases
    case found
    note F = wakeup_slot_found [OF inv found]
    have "accepts_wakeup q n" using F by (auto simp: accepts_wakeup_def)
    with found show ?thesis
      using reschedule_refines [OF inv room F(1,2) n, of t gen] reschedule_event [OF inv F(1,2)] n
      by (simp add: r_def sim_eq_schedule_gen_def Let_def)
  next
    case fresh
    note N = wakeup_slot_none [OF inv n fresh(1)]
    let ?e = "wakeup_event q n t gen"
    have tr: "tracked (heap q @ [?e]) ((node_heap_idx q)(n := int (count q)))"
      using tracked_append_wakeup [of "heap q" "node_heap_idx q" ?e] inv n N
      by (auto simp: queue_inv_def is_wakeup_def wakeup_event_def)
    have "accepts_wakeup q n" using fresh by (simp add: accepts_wakeup_def)
    with fresh show ?thesis
      using insert_refines [OF inv _ room fresh(2) _ tr] n filter_none [OF N]
      by (simp add: r_def sim_eq_schedule_gen_def Let_def wakeup_event_def wakeup_shape_def)
  next
    case full
    then have "\<not> accepts_wakeup q n" using wakeup_slot_none [OF inv n] by (auto simp: accepts_wakeup_def)
    with full inv n show ?thesis by (simp add: r_def sim_eq_schedule_gen_def Let_def)
  qed
  then show "queue_inv r" "accepts_wakeup q n \<Longrightarrow>
      pending r = insort_key ev_key (wakeup_event q n t gen) (filter (\<lambda>e. \<not> wakeup_of n e) (pending q))"
    "accepts_wakeup q n \<Longrightarrow> next_seq r = next_seq q + 1" "\<not> accepts_wakeup q n \<Longrightarrow> r = q" by blast+
qed

subsection \<open>Removing a node\<close>

definition absent :: "int \<Rightarrow> sim_event list \<Rightarrow> bool" where
  "absent n h \<longleftrightarrow> (\<forall>e \<in> set h. is_wakeup e \<longrightarrow> node_idx e \<noteq> n)"

lemma track_slot_absent:
  "i < count q \<Longrightarrow> absent n (heap q) \<Longrightarrow> node_heap_idx (track_slot i q) n = node_heap_idx q n"
  by (auto simp: track_slot_idx absent_def)

lemma sift_down_loop_absent:
  assumes "sift_down_loop ev m i q = (j, q')" "m = count q" "i < count q" "absent n (heap q)"
    "is_wakeup ev \<longrightarrow> node_idx ev \<noteq> n"
  shows "node_heap_idx q' n = node_heap_idx q n \<and> absent n (heap q') \<and> j < count q'"
  using assms
proof (induction ev m i q rule: sift_down_induct)
  case (step ev m i q)
  let ?c = "min_child m (heap q) i"
  let ?q0 = "q\<lparr>heap := (heap q)[i := heap q ! ?c]\<rparr>"
  show ?case
  proof (cases "2 * i + 1 < m \<and> ev_less (heap q ! ?c) ev")
    case True
    note C = min_child_props [of i m "heap q", OF True [THEN conjunct1]]
    have ab: "absent n (heap ?q0)"
      using step.prems C set_update_subset_insert [of "heap q" i "heap q ! ?c"]
      by (fastforce simp: absent_def)
    from True step.prems(1) have "sift_down_loop ev m ?c (track_slot i ?q0) = (j, q')"
      by (subst (asm) sift_down_loop_step) (simp add: Let_def)
    then have "node_heap_idx q' n = node_heap_idx (track_slot i ?q0) n \<and> absent n (heap q') \<and> j < count q'"
      using True C step.prems ab by (intro step.IH) auto
    then show ?thesis using track_slot_absent [OF _ ab, of i] step.prems by simp
  next
    case False
    with step.prems show ?thesis
      by (subst (asm) sift_down_loop_step) (auto simp: Let_def split: if_splits)
  qed
qed

lemma heap_sift_down_absent:
  assumes "i < count q" "absent n (heap q)"
  shows "node_heap_idx (heap_sift_down i q) n = node_heap_idx q n"
proof -
  obtain j q' where l: "sift_down_loop (heap q ! i) (count q) i q = (j, q')" by fastforce
  have a: "is_wakeup (heap q ! i) \<longrightarrow> node_idx (heap q ! i) \<noteq> n" using assms by (auto simp: absent_def)
  note L = sift_down_loop_absent [OF l refl assms a]
  have "absent n ((heap q')[j := heap q ! i])"
    using L a set_update_subset_insert [of "heap q'" j "heap q ! i"] by (fastforce simp: absent_def)
  with l L a show ?thesis by (auto simp: heap_sift_down_def Let_def track_slot_absent)
qed

lemma heapify_from_props:
  assumes "k \<le> count q" "heap_from k (heap q)"
  shows "mset (heap (heapify_from k q)) = mset (heap q)"
    and "heap_from 0 (heap (heapify_from k q))"
    and "next_seq (heapify_from k q) = next_seq q"
    and "\<forall>n. absent n (heap q) \<longrightarrow> node_heap_idx (heapify_from k q) n = node_heap_idx q n"
proof -
  have "mset (heap (heapify_from k q)) = mset (heap q) \<and> heap_from 0 (heap (heapify_from k q)) \<and>
    next_seq (heapify_from k q) = next_seq q \<and>
    (\<forall>n. absent n (heap q) \<longrightarrow> node_heap_idx (heapify_from k q) n = node_heap_idx q n)"
    using assms
  proof (induction k arbitrary: q)
    case (Suc i)
    have i: "i < count q" using Suc.prems by simp
    have ex: "heap_except_down i i (heap q)"
      unfolding heap_except_down_def
    proof (intro conjI allI impI)
      fix x assume "0 < x \<and> x < length (heap q) \<and> i \<le> par x \<and> par x \<noteq> i"
      with Suc.prems(2) show "ev_key (heap q ! par x) \<le> ev_key (heap q ! x)"
        by (simp add: heap_from_def)
    next
      fix x assume "0 < x \<and> x < length (heap q) \<and> par x = i \<and> 0 < i \<and> i \<le> par i"
      then show "ev_key (heap q ! par i) \<le> ev_key (heap q ! x)" using par_less [of i] by simp
    qed
    let ?r = "heap_sift_down i q"
    note S = heap_sift_down_heap [OF i le_refl ex]
    have c: "i \<le> count ?r" using i mset_eq_length [OF S(1)] by simp
    have st: "set (heap ?r) = set (heap q)" using S(1) by (rule mset_eq_setD)
    from Suc.IH [OF c S(2)] S st heap_sift_down_absent [OF i] show ?case by (simp add: absent_def)
  qed simp
  then show "mset (heap (heapify_from k q)) = mset (heap q)"
    "heap_from 0 (heap (heapify_from k q))" "next_seq (heapify_from k q) = next_seq q"
    "\<forall>n. absent n (heap q) \<longrightarrow> node_heap_idx (heapify_from k q) n = node_heap_idx q n" by blast+
qed

lemma track_from_frame [simp]:
  "heap (track_from i k q) = heap q" "next_seq (track_from i k q) = next_seq q"
  by (induction i k q rule: track_from.induct) auto

lemma track_from_tracked:
  assumes "i + k = count q" "one_wakeup (heap q)"
    "\<forall>j < i. is_wakeup (heap q ! j) \<longrightarrow> node_heap_idx q (node_idx (heap q ! j)) = int j"
    "\<forall>n. absent n (heap q) \<longrightarrow> node_heap_idx q n = -1"
  shows "tracked (heap q) (node_heap_idx (track_from i k q))"
  using assms
proof (induction k arbitrary: i q)
  case 0
  then show ?case by (simp add: tracked_def absent_def)
next
  case (Suc k)
  let ?r = "track_slot i q"
  have i: "i < count q" using Suc.prems by simp
  have "tracked (heap ?r) (node_heap_idx (track_from (Suc i) k ?r))"
  proof (rule Suc.IH)
    show "\<forall>j < Suc i. is_wakeup (heap ?r ! j) \<longrightarrow> node_heap_idx ?r (node_idx (heap ?r ! j)) = int j"
      using Suc.prems i one_wakeup_nth [OF Suc.prems(2) _ i]
      by (auto simp: track_slot_idx less_Suc_eq)
    show "\<forall>n. absent n (heap ?r) \<longrightarrow> node_heap_idx ?r n = -1"
      using Suc.prems(4) track_slot_absent [OF i] by simp
  qed (use Suc.prems in auto)
  then show ?case by simp
qed

lemma heap_from_half: "heap_from (length h div 2) h"
proof -
  have "False" if "0 < x" "x < length h" "length h div 2 \<le> par x" for x
    using that by (auto simp: par_def)
  then show ?thesis by (auto simp: heap_from_def)
qed

lemma remove_node_refines:
  assumes inv: "queue_inv q" and n: "valid_eq_node n"
  shows "queue_inv (sim_eq_remove_node q n)"
    and "pending (sim_eq_remove_node q n) = filter (\<lambda>e. node_idx e \<noteq> n) (pending q)"
    and "next_seq (sim_eq_remove_node q n) = next_seq q"
proof -
  let ?f = "filter (\<lambda>e. node_idx e \<noteq> n) (heap q)"
  let ?q1 = "q\<lparr>heap := ?f, node_heap_idx := (\<lambda>_. -1)\<rparr>"
  let ?q2 = "heapify_from (count ?q1 div 2) ?q1"
  let ?r = "track_from 0 (count ?q2) ?q2"
  have r: "sim_eq_remove_node q n = ?r" using n by (simp add: sim_eq_remove_node_def Let_def)
  have hf: "heap_from (count ?q1 div 2) (heap ?q1)" by (rule heap_from_half)
  note H = heapify_from_props [OF _ hf, OF div_le_dividend]
  have m: "mset (heap ?q2) = mset ?f" using H(1) by simp
  have ok: "events_ok (next_seq q) ?f"
    using inv by (intro events_ok_sub [of ?f "heap q"]) (simp_all add: queue_inv_def)
  have ok2: "events_ok (next_seq q) (heap ?q2)" by (rule events_ok_mset [OF m [symmetric] ok])
  have st: "set (heap ?q2) = set ?f" using m by (rule mset_eq_setD)
  have tr: "tracked (heap ?q2) (node_heap_idx ?r)"
  proof (rule track_from_tracked)
    show "one_wakeup (heap ?q2)" using ok2 unfolding events_ok_def by blast
    show "\<forall>k. absent k (heap ?q2) \<longrightarrow> node_heap_idx ?q2 k = -1"
      using H(4) unfolding absent_def st by simp
  qed simp_all
  show "queue_inv (sim_eq_remove_node q n)"
    using H(2,3) ok2 tr unfolding r queue_inv_def by simp
  show "pending (sim_eq_remove_node q n) = filter (\<lambda>e. node_idx e \<noteq> n) (pending q)"
    unfolding r using pending_mset_eq [OF ok, of ?r] m by (simp add: pending_def filter_sort)
  show "next_seq (sim_eq_remove_node q n) = next_seq q" unfolding r using H(3) by simp
qed

subsection \<open>The interface of the queue\<close>

text \<open>
  What the pump of the runtime relies on: an invariant, the sorted list of pending events, and
  the laws of popping, peeking and removing a node's events.
\<close>

fun drain :: "('q \<Rightarrow> sim_event \<times> 'q) \<Rightarrow> nat \<Rightarrow> 'q \<Rightarrow> sim_event list" where
  "drain pop 0 q = []"
| "drain pop (Suc k) q = (let (e, q') = pop q in e # drain pop k q')"

locale timed_queue =
  fixes inv :: "'q \<Rightarrow> bool"
    and pend :: "'q \<Rightarrow> sim_event list"
    and pop :: "'q \<Rightarrow> sim_event \<times> 'q"
    and peek_time :: "'q \<Rightarrow> int"
    and remove :: "'q \<Rightarrow> int \<Rightarrow> 'q"
  assumes pend_sorted: "inv q \<Longrightarrow> sorted (map ev_key (pend q))"
    and pop_hd: "inv q \<Longrightarrow> pend q \<noteq> [] \<Longrightarrow> fst (pop q) = hd (pend q)"
    and pop_tl: "inv q \<Longrightarrow> pend q \<noteq> [] \<Longrightarrow> pend (snd (pop q)) = tl (pend q)"
    and pop_inv: "inv q \<Longrightarrow> pend q \<noteq> [] \<Longrightarrow> inv (snd (pop q))"
    and peek_hd: "inv q \<Longrightarrow> pend q \<noteq> [] \<Longrightarrow> peek_time q = time_ns (hd (pend q))"
    and peek_empty: "inv q \<Longrightarrow> pend q = [] \<Longrightarrow> peek_time q = INT64_MAX"
    and remove_pend: "inv q \<Longrightarrow> valid_eq_node n \<Longrightarrow>
      pend (remove q n) = filter (\<lambda>e. node_idx e \<noteq> n) (pend q)"
    and remove_inv: "inv q \<Longrightarrow> valid_eq_node n \<Longrightarrow> inv (remove q n)"
begin

lemma drain_pend: "inv q \<Longrightarrow> drain pop (length (pend q)) q = pend q"
proof (induction "pend q" arbitrary: q)
  case Nil
  then show ?case by (metis drain.simps(1) list.size(3))
next
  case (Cons e es)
  then have ne: "pend q \<noteq> []" by auto
  have hd: "fst (pop q) = e" using pop_hd [OF Cons.prems ne] Cons.hyps(2) by (metis list.sel(1))
  have tl: "pend (snd (pop q)) = es" using pop_tl [OF Cons.prems ne] Cons.hyps(2) by (metis list.sel(3))
  have "drain pop (length es) (snd (pop q)) = es"
    using Cons.hyps(1) [of "snd (pop q)"] pop_inv [OF Cons.prems ne] tl by simp
  then show ?case
    using hd Cons.hyps(2) [symmetric] by (simp add: case_prod_unfold)
qed

lemma peek_le: "inv q \<Longrightarrow> e \<in> set (pend q) \<Longrightarrow> peek_time q \<le> time_ns e"
proof -
  assume i: "inv q" and e: "e \<in> set (pend q)"
  then obtain x xs where p: "pend q = x # xs" by (cases "pend q") auto
  with pend_sorted [OF i] e have "ev_key x \<le> ev_key e" by auto
  then have "time_ns x \<le> time_ns e" by (auto simp: ev_key_def)
  with peek_hd [OF i] p show ?thesis by simp
qed

lemma pop_time_mono:
  "inv q \<Longrightarrow> pend q \<noteq> [] \<Longrightarrow> e \<in> set (pend (snd (pop q))) \<Longrightarrow> time_ns (fst (pop q)) \<le> time_ns e"
  by (metis list.set_sel(2) peek_hd peek_le pop_hd pop_tl)

end

lemma queue_inv_init: "queue_inv sim_eq_init"
  by (simp add: queue_inv_def sim_eq_init_def heap_from_def tracked_def events_ok_def one_wakeup_def)

interpretation kernel_queue: timed_queue queue_inv pending sim_eq_pop sim_eq_peek_time sim_eq_remove_node
proof unfold_locales
  fix q assume "queue_inv q" "pending q \<noteq> []"
  then show "sim_eq_peek_time q = time_ns (hd (pending q))"
    using pending_Cons [of q] by (auto simp: sim_eq_peek_time_def)
qed (auto simp: sorted_pending sim_eq_pop_refines remove_node_refines sim_eq_peek_time_def)

subsection \<open>Reachable queues\<close>

text \<open>Every queue the operations can build, with a sequence number left for each insertion.\<close>

inductive queue_reachable :: "sim_event_queue \<Rightarrow> bool" where
  init: "queue_reachable sim_eq_init"
| schedule: "queue_reachable q \<Longrightarrow> seq_room q \<Longrightarrow> queue_reachable (sim_eq_schedule_gen q n t g)"
| schedule_if_earlier: "queue_reachable q \<Longrightarrow> seq_room q \<Longrightarrow>
    queue_reachable (sim_eq_schedule_if_earlier_gen q n t g)"
| rx_byte: "queue_reachable q \<Longrightarrow> seq_room q \<Longrightarrow>
    queue_reachable (sim_eq_schedule_rx_byte_gen q n s b r t g)"
| radio_timer: "queue_reachable q \<Longrightarrow> seq_room q \<Longrightarrow>
    queue_reachable (sim_eq_schedule_radio_timer_gen q n t g)"
| test_action: "queue_reachable q \<Longrightarrow> seq_room q \<Longrightarrow> queue_reachable (sim_eq_schedule_test_action q t)"
| pop: "queue_reachable q \<Longrightarrow> queue_reachable (snd (sim_eq_pop q))"
| remove: "queue_reachable q \<Longrightarrow> queue_reachable (sim_eq_remove_node q n)"

lemma schedule_gen_invalid: "\<not> valid_eq_node n \<Longrightarrow> sim_eq_schedule_gen q n t g = q"
  by (auto simp: sim_eq_schedule_gen_def)

lemma remove_node_invalid: "\<not> valid_eq_node n \<Longrightarrow> sim_eq_remove_node q n = q"
  by (auto simp: sim_eq_remove_node_def)

lemma pop_empty: "heap q = [] \<Longrightarrow> sim_eq_pop q = (empty_event 0, q)"
  by (simp add: sim_eq_pop_def)

lemma schedule_gen_inv:
  "queue_inv q \<Longrightarrow> seq_room q \<Longrightarrow> queue_inv (sim_eq_schedule_gen q n t g)"
  by (cases "valid_eq_node n") (simp_all add: schedule_gen_refines schedule_gen_invalid)

lemma schedule_if_earlier_gen_inv:
  "queue_inv q \<Longrightarrow> seq_room q \<Longrightarrow> queue_inv (sim_eq_schedule_if_earlier_gen q n t g)"
  by (auto simp: sim_eq_schedule_if_earlier_gen_def Let_def schedule_gen_inv)

lemma schedule_rx_byte_gen_inv:
  "queue_inv q \<Longrightarrow> seq_room q \<Longrightarrow> queue_inv (sim_eq_schedule_rx_byte_gen q n s b r t g)"
  by (auto simp: sim_eq_schedule_rx_byte_gen_def rx_byte_event_def intro!: push_event_refines)

lemma schedule_radio_timer_gen_inv:
  "queue_inv q \<Longrightarrow> seq_room q \<Longrightarrow> queue_inv (sim_eq_schedule_radio_timer_gen q n t g)"
  by (auto simp: sim_eq_schedule_radio_timer_gen_def radio_timer_event_def intro!: push_event_refines)

lemma schedule_test_action_inv:
  "queue_inv q \<Longrightarrow> seq_room q \<Longrightarrow> queue_inv (sim_eq_schedule_test_action q t)"
  by (auto simp: sim_eq_schedule_test_action_def test_action_event_def intro!: push_event_refines)

lemma pop_inv: "queue_inv q \<Longrightarrow> queue_inv (snd (sim_eq_pop q))"
  by (cases "heap q = []") (simp_all add: sim_eq_pop_refines pop_empty)

lemma remove_node_inv: "queue_inv q \<Longrightarrow> queue_inv (sim_eq_remove_node q n)"
  by (cases "valid_eq_node n") (simp_all add: remove_node_refines remove_node_invalid)

lemmas queue_inv_intros =
  queue_inv_init schedule_gen_inv schedule_if_earlier_gen_inv schedule_rx_byte_gen_inv
  schedule_radio_timer_gen_inv schedule_test_action_inv pop_inv remove_node_inv

lemma queue_reachable_inv: "queue_reachable q \<Longrightarrow> queue_inv q"
  by (induction rule: queue_reachable.induct) (auto intro: queue_inv_intros)

subsection \<open>A concrete queue\<close>

lemmas queue_eval [eq_simps] =
  sim_eq_init_def sim_eq_schedule_gen_def sim_eq_schedule_if_earlier_gen_def wakeup_slot_def
  wakeup_event_def sim_eq_schedule_rx_byte_gen_def rx_byte_event_def push_event_def
  sim_eq_schedule_radio_timer_gen_def radio_timer_event_def sim_eq_schedule_test_action_def
  test_action_event_def heap_sift_up_def heap_sift_down_def sift_up_loop.simps
  sift_down_loop.simps track_slot_def clear_index_def sim_eq_pop_def ev_less_def ev_key_def
  seq_room_def wakeup_of_def Let_def

definition sample_queue :: sim_event_queue where
  "sample_queue =
     sim_eq_schedule_rx_byte_gen (sim_eq_schedule_gen sim_eq_init 3 1000 1) 4 3 7 (-50) 500 1"

lemma sample_queue_reachable: "queue_reachable sample_queue"
proof -
  have "seq_room sim_eq_init" "seq_room (sim_eq_schedule_gen sim_eq_init 3 1000 1)"
    by (simp_all add: eq_simps)
  then show ?thesis
    unfolding sample_queue_def by (intro queue_reachable.intros)
qed

lemma sample_queue_heap: "map ev_key (heap sample_queue) = [(500, 1), (1000, 0)]"
  by (simp add: sample_queue_def eq_simps)

lemma sample_queue_room: "seq_room sample_queue"
  by (simp add: sample_queue_def eq_simps)

subsection \<open>Properties\<close>

definition wake_time :: "sim_event_queue \<Rightarrow> int \<Rightarrow> int option" where
  "wake_time q n = (case filter (wakeup_of n) (heap q) of [] \<Rightarrow> None | e # _ \<Rightarrow> Some (time_ns e))"

lemma wake_time_None: "wake_time q n = None \<longleftrightarrow> (\<forall>e \<in> set (heap q). \<not> wakeup_of n e)"
  by (auto simp: wake_time_def filter_empty_conv split: list.splits dest: filter_Cons_mem)

lemma wakeup_unique:
  assumes "queue_inv q" "e \<in> set (heap q)" "e' \<in> set (heap q)" "wakeup_of n e" "wakeup_of n e'"
  shows "e = e'"
proof -
  obtain i j where ij: "i < count q" "heap q ! i = e" "j < count q" "heap q ! j = e'"
    using assms(2,3) by (auto simp: in_set_conv_nth)
  have "one_wakeup (heap q)" "wakeup_shape e" "wakeup_shape e'"
    using assms by (auto simp: queue_inv_def events_ok_def)
  then show ?thesis
    using one_wakeup_nth [of "heap q" i j] ij assms(4,5)
    by (cases "i = j") (auto simp: wakeup_of_def is_wakeup_def wakeup_shape_def)
qed

lemma wake_time_Some:
  assumes "queue_inv q"
  shows "wake_time q n = Some t \<longleftrightarrow> (\<exists>e \<in> set (heap q). wakeup_of n e \<and> time_ns e = t)"
proof
  assume "wake_time q n = Some t"
  then obtain e es where "filter (wakeup_of n) (heap q) = e # es" "time_ns e = t"
    by (auto simp: wake_time_def split: list.splits)
  then show "\<exists>e \<in> set (heap q). wakeup_of n e \<and> time_ns e = t"
    by (auto dest: filter_Cons_mem)
next
  assume "\<exists>e \<in> set (heap q). wakeup_of n e \<and> time_ns e = t"
  then obtain e where e: "e \<in> set (heap q)" "wakeup_of n e" "time_ns e = t" by blast
  then obtain x xs where x: "filter (wakeup_of n) (heap q) = x # xs"
    by (metis filter_empty_conv list.exhaust)
  then have "x \<in> set (heap q)" "wakeup_of n x" by (auto dest: filter_Cons_mem)
  with wakeup_unique [OF assms e(1) _ e(2)] e(3) x show "wake_time q n = Some t"
    by (simp add: wake_time_def)
qed

lemma set_pending_schedule:
  assumes "queue_inv q" "seq_room q" "valid_eq_node n" "accepts_wakeup q n"
  shows "set (heap (sim_eq_schedule_gen q n t g)) =
    insert (wakeup_event q n t g) {e \<in> set (heap q). \<not> wakeup_of n e}"
  using schedule_gen_refines(2) [OF assms(1-3), of t g] assms(4)
  by (metis (no_types) filter_set pending_set set_insort_key set_filter)

lemma wake_time_schedule:
  assumes "queue_inv q" "seq_room q" "valid_eq_node n" "accepts_wakeup q n"
  shows "wake_time (sim_eq_schedule_gen q n t g) n = Some t"
  using schedule_gen_refines(1) [OF assms(1-3), of t g] set_pending_schedule [OF assms, of t g]
  by (subst wake_time_Some) (auto simp: wakeup_of_def wakeup_event_def)

text \<open>
  C1. Popping refines taking the head of the sorted list: on a well-formed, non-empty queue
  \<open>sim_eq_pop\<close> returns the event with the smallest \<open>(time_ns, seq)\<close>, leaves exactly the other
  events, in order, and keeps the queue well-formed.
\<close>

theorem eq_pop_earliest:
  assumes "queue_inv q" and "pending q \<noteq> []"
  shows "fst (sim_eq_pop q) = hd (pending q) \<and> pending (snd (sim_eq_pop q)) = tl (pending q) \<and>
    queue_inv (snd (sim_eq_pop q))"
  using sim_eq_pop_refines [OF assms] by simp

theorem eq_pop_earliest_witness:
  "queue_inv sample_queue \<and> pending sample_queue \<noteq> [] \<and>
   fst (sim_eq_pop sample_queue) = hd (pending sample_queue) \<and>
   pending (snd (sim_eq_pop sample_queue)) = tl (pending sample_queue) \<and>
   queue_inv (snd (sim_eq_pop sample_queue))"
proof -
  have i: "queue_inv sample_queue" by (rule queue_reachable_inv [OF sample_queue_reachable])
  have n: "pending sample_queue \<noteq> []" using sample_queue_heap by auto
  show ?thesis using i n eq_pop_earliest [OF i n] by simp
qed

text \<open>
  The pop sequence is the event order of the simulation: draining any queue that the
  operations can build yields all of its events, ordered by time and, at equal times, by
  insertion (FIFO).
\<close>

theorem eq_drain_order:
  assumes "queue_reachable q"
  shows "drain sim_eq_pop (count q) q = pending q \<and>
    sorted (map ev_key (drain sim_eq_pop (count q) q)) \<and>
    mset (drain sim_eq_pop (count q) q) = mset (heap q)"
proof -
  have "drain sim_eq_pop (length (pending q)) q = pending q"
    by (rule kernel_queue.drain_pend [OF queue_reachable_inv [OF assms]])
  then show ?thesis by (simp add: sorted_pending) (simp add: pending_def)
qed

theorem eq_drain_order_witness:
  "queue_reachable sample_queue \<and> drain sim_eq_pop (count sample_queue) sample_queue = pending sample_queue"
  using eq_drain_order [OF sample_queue_reachable] sample_queue_reachable by simp

text \<open>
  A wakeup request replaces the node's pending wakeup, even when the queue is full: afterwards
  the node has exactly the new wakeup, stamped with a fresh sequence number, and no other event
  has moved. Only a new wakeup in a full queue is dropped, and then nothing changes.
\<close>

theorem eq_schedule_replaces:
  assumes "queue_inv q" and "seq_room q" and "valid_eq_node n"
  shows "queue_inv (sim_eq_schedule_gen q n t g) \<and>
    (if accepts_wakeup q n
     then pending (sim_eq_schedule_gen q n t g) =
       insort_key ev_key (wakeup_event q n t g) (filter (\<lambda>e. \<not> wakeup_of n e) (pending q))
     else sim_eq_schedule_gen q n t g = q)"
  using schedule_gen_refines [OF assms, of t g] by simp

theorem eq_schedule_replaces_witness:
  "pending (sim_eq_schedule_gen sample_queue 3 100 2) =
     insort_key ev_key (wakeup_event sample_queue 3 100 2)
       (filter (\<lambda>e. \<not> wakeup_of 3 e) (pending sample_queue))"
proof -
  have i: "queue_inv sample_queue" by (rule queue_reachable_inv [OF sample_queue_reachable])
  have "accepts_wakeup sample_queue 3"
    by (simp add: accepts_wakeup_def sample_queue_def eq_simps)
  then show ?thesis using eq_schedule_replaces [OF i sample_queue_room, of 3 100 2] by simp
qed

text \<open>
  \<open>sim_eq_schedule_if_earlier\<close> only ever brings a node's wakeup forward: afterwards the node
  wakes at the minimum of the old and the requested time, or at the requested time if it had no
  wakeup, provided the queue can take it.
\<close>

theorem eq_schedule_if_earlier_min:
  assumes "queue_inv q" and "seq_room q" and "valid_eq_node n" and "accepts_wakeup q n"
  shows "wake_time (sim_eq_schedule_if_earlier_gen q n t g) n =
    Some (case wake_time q n of None \<Rightarrow> t | Some t0 \<Rightarrow> min t0 t)"
proof (cases "wake_time q n")
  case None
  then have "\<not> wakeup_slot q n \<ge> 0"
    using wakeup_slot_found [OF assms(1), of n] by (auto simp: wake_time_None)
  with None show ?thesis
    using wake_time_schedule [OF assms, of t g] assms(3)
    by (simp add: sim_eq_schedule_if_earlier_gen_def)
next
  case (Some t0)
  then obtain e where e: "e \<in> set (heap q)" "wakeup_of n e" "time_ns e = t0"
    using wake_time_Some [OF assms(1)] by blast
  then have s: "wakeup_slot q n \<ge> 0" using wakeup_slot_none [OF assms(1,3)] by blast
  note F = wakeup_slot_found [OF assms(1) s]
  have "heap q ! nat (wakeup_slot q n) = e"
    using wakeup_unique [OF assms(1) _ e(1) F(2) e(2)] F(1) by simp
  with Some s e(3) show ?thesis
    using wake_time_schedule [OF assms, of t g] assms(3)
    by (simp add: sim_eq_schedule_if_earlier_gen_def Let_def min_def)
qed

theorem eq_schedule_if_earlier_min_witness:
  "wake_time (sim_eq_schedule_if_earlier_gen sample_queue 3 400 1) 3 = Some 400"
proof -
  have i: "queue_inv sample_queue" by (rule queue_reachable_inv [OF sample_queue_reachable])
  have "accepts_wakeup sample_queue 3" "wake_time sample_queue 3 = Some 1000"
    by (simp_all add: accepts_wakeup_def wake_time_def sample_queue_def eq_simps)
  then show ?thesis using eq_schedule_if_earlier_min [OF i sample_queue_room, of 3 400 1] by simp
qed

text \<open>
  Tearing a node down removes exactly its events (wakeup, RF bytes, radio timers); every other
  event keeps its place in the order, and the rebuilt heap and index are well-formed.
\<close>

theorem eq_remove_node_filters:
  assumes "queue_inv q" and "valid_eq_node n"
  shows "queue_inv (sim_eq_remove_node q n) \<and>
    pending (sim_eq_remove_node q n) = filter (\<lambda>e. node_idx e \<noteq> n) (pending q)"
  using remove_node_refines [OF assms] by simp

theorem eq_remove_node_filters_witness:
  "pending (sim_eq_remove_node sample_queue 4) = filter (\<lambda>e. node_idx e \<noteq> 4) (pending sample_queue)"
  using eq_remove_node_filters [OF queue_reachable_inv [OF sample_queue_reachable], of 4] by simp

text \<open>
  C13. In every reachable queue a node has at most one pending wakeup, \<open>wakeup_slot\<close> finds it
  whenever there is one (so \<open>node_heap_idx\<close> never loses a wakeup), and the heap stays within its
  array.
\<close>

theorem eq_reachable_index_exact:
  assumes "queue_reachable q" and "valid_eq_node n"
  shows "length (filter (wakeup_of n) (heap q)) \<le> 1 \<and>
    (wakeup_slot q n \<ge> 0 \<longleftrightarrow> (\<exists>e \<in> set (heap q). wakeup_of n e)) \<and> count q \<le> SIM_EQ_MAX_EVENTS"
proof -
  note i = queue_reachable_inv [OF assms(1)]
  have "distinct (heap q)"
    using i distinct_map [of seq "heap q"] by (auto simp: queue_inv_def events_ok_def)
  then have "distinct (filter (wakeup_of n) (heap q))" by simp
  moreover have "\<forall>a \<in> set (filter (wakeup_of n) (heap q)). \<forall>b \<in> set (filter (wakeup_of n) (heap q)). a = b"
    using wakeup_unique [OF i] by auto
  ultimately have "length (filter (wakeup_of n) (heap q)) \<le> 1"
    by (cases "filter (wakeup_of n) (heap q)") (simp, metis distinct_length_2_or_more
        length_Cons le_refl list.exhaust list.set_intros list.size(3) One_nat_def)
  moreover have "wakeup_slot q n \<ge> 0 \<longleftrightarrow> (\<exists>e \<in> set (heap q). wakeup_of n e)"
    using wakeup_slot_found(1,2) [OF i, of n] wakeup_slot_none [OF i assms(2)] nth_mem by metis
  ultimately show ?thesis using i by (auto simp: queue_inv_def events_ok_def)
qed

theorem eq_reachable_index_exact_witness:
  "queue_reachable sample_queue \<and> length (filter (wakeup_of 3) (heap sample_queue)) \<le> 1"
  using eq_reachable_index_exact [OF sample_queue_reachable, of 3] sample_queue_reachable by simp

end
