(* ===== verification/Sim_Runtime_Correct.thy ===== *)
theory Sim_Runtime_Correct
  imports Sim_Control Sim_Event_Queue_Correct
begin

text \<open>
  Correctness of the kernel: the event pump as a big-step trace semantics, the order of the
  dispatched events and the monotone clock under dispatchers built from the scheduling
  wrappers, generations, termination of the pump, and stepping by events.
\<close>

subsection \<open>The pump as a trace\<close>

text \<open>
  \<open>pump_run dispatch end_t s evs s'\<close>: the loop started in \<open>s\<close> returns in \<open>s'\<close> after
  dispatching exactly the events \<open>evs\<close>, in this order.
\<close>

inductive pump_run ::
  "(sim_event \<Rightarrow> 'a sim_runtime_scheme \<Rightarrow> 'a sim_runtime_scheme) \<Rightarrow> int \<Rightarrow>
     'a sim_runtime_scheme \<Rightarrow> sim_event list \<Rightarrow> 'a sim_runtime_scheme \<Rightarrow> bool"
  for dispatch end_t where
  stopped: "halted_state s \<Longrightarrow> pump_run dispatch end_t s [] s"
| horizon: "\<not> halted_state s \<Longrightarrow> end_t < sim_eq_peek_time (event_queue s) \<Longrightarrow> pump_run dispatch end_t s [] s"
| stale: "\<not> halted_state s \<Longrightarrow> sim_eq_peek_time (event_queue s) \<le> end_t \<Longrightarrow> pump_pop s = (ev, s1) \<Longrightarrow>
    \<not> sim_runtime_event_is_current s1 ev \<Longrightarrow> pump_run dispatch end_t s1 evs s' \<Longrightarrow>
    pump_run dispatch end_t s evs s'"
| fire: "\<not> halted_state s \<Longrightarrow> sim_eq_peek_time (event_queue s) \<le> end_t \<Longrightarrow> pump_pop s = (ev, s1) \<Longrightarrow>
    sim_runtime_event_is_current s1 ev \<Longrightarrow> pump_run dispatch end_t (dispatch ev s1) evs s' \<Longrightarrow>
    pump_run dispatch end_t s (ev # evs) s'"

lemma pump_run_complete: "pump_run dispatch end_t s evs s' \<Longrightarrow> pump_loop dispatch end_t s = Some s'"
  by (induction rule: pump_run.induct) (subst pump_loop.simps, simp)+

lemma pump_run_sound: "pump_loop dispatch end_t s = Some s' \<Longrightarrow> \<exists>evs. pump_run dispatch end_t s evs s'"
proof (rule pump_loop.raw_induct [where P = "\<lambda>dispatch end_t s s'. \<exists>evs. pump_run dispatch end_t s evs s'"])
  fix f dispatch end_t s and s' :: "'a sim_runtime_scheme"
  assume IH: "\<And>dispatch end_t s s'. f dispatch end_t s = Some s' \<Longrightarrow> \<exists>evs. pump_run dispatch end_t s evs s'"
    and eq: "(if halted_state s then Some s
      else if sim_eq_peek_time (event_queue s) > end_t then Some s
      else let (ev, sim1) = pump_pop s
           in if \<not> sim_runtime_event_is_current sim1 ev then f dispatch end_t sim1
              else f dispatch end_t (dispatch ev sim1)) = Some s'"
  obtain ev s1 where p: "pump_pop s = (ev, s1)" by (cases "pump_pop s") auto
  show "\<exists>evs. pump_run dispatch end_t s evs s'"
    using eq IH [of dispatch end_t s1 s'] IH [of dispatch end_t "dispatch ev s1" s'] p
    by (auto split: if_splits simp: not_less intro: pump_run.stopped pump_run.horizon)
      (blast intro: pump_run.stale pump_run.fire)+
qed

lemma pump_loop_iff: "pump_loop dispatch end_t s = Some s' \<longleftrightarrow> (\<exists>evs. pump_run dispatch end_t s evs s')"
  using pump_run_complete pump_run_sound by blast

subsection \<open>Kernel operations\<close>

text \<open>
  The kernel's invariant with \<open>k\<close> sequence numbers in reserve: the queue is well formed, no
  pending event lies in the past, and \<open>k\<close> more events can be scheduled before the 64-bit
  sequence counter wraps.
\<close>

definition kernel_ok :: "nat \<Rightarrow> 'a sim_runtime_scheme \<Rightarrow> bool" where
  "kernel_ok k s \<longleftrightarrow> queue_inv (event_queue s) \<and> (\<forall>e \<in> set (heap (event_queue s)). now_ns s \<le> time_ns e) \<and>
     unat (next_seq (event_queue s)) + k < 2 ^ 64"

lemma kernel_ok_room: "kernel_ok (Suc k) s \<Longrightarrow> seq_room (event_queue s)"
  by (auto simp: kernel_ok_def seq_room_def unsigned_minus_1_eq_mask mask_eq_exp_minus_1)

lemma kernel_ok_mono: "kernel_ok k s \<Longrightarrow> j \<le> k \<Longrightarrow> kernel_ok j s"
  by (simp add: kernel_ok_def)

text \<open>
  The contract of an operation a callback may use: it draws at most \<open>d\<close> sequence numbers,
  keeps the invariant and leaves the clock alone.
\<close>

locale kernel_op =
  fixes f :: "'a sim_runtime_scheme \<Rightarrow> 'a sim_runtime_scheme" and d :: nat
  assumes ok: "kernel_ok (k + d) s \<Longrightarrow> kernel_ok k (f s)"
    and clock: "now_ns (f s) = now_ns s"
begin

lemma iterate: "kernel_ok (k + n * d) s \<Longrightarrow> kernel_ok k ((f ^^ n) s) \<and> now_ns ((f ^^ n) s) = now_ns s"
proof (induction n arbitrary: k)
  case (Suc n)
  have "kernel_ok (k + d + n * d) s" using Suc.prems by (simp add: ac_simps)
  from Suc.IH [OF this] show ?case by (simp add: ok clock)
qed simp

end

lemma kernel_op_comp: "kernel_op f d \<Longrightarrow> kernel_op g e \<Longrightarrow> kernel_op (\<lambda>s. g (f s)) (d + e)"
  unfolding kernel_op_def by (metis add.assoc add.commute)

lemma kernel_op_if: "kernel_op f d \<Longrightarrow> kernel_op g e \<Longrightarrow> kernel_op (\<lambda>s. if c s then f s else g s) (max d e)"
  unfolding kernel_op_def using kernel_ok_mono
  by (metis (full_types) add_le_cancel_left max.cobounded1 max.cobounded2)

subsection \<open>Scheduling adds one event at the requested time\<close>

definition adds_at :: "int \<Rightarrow> sim_event_queue \<Rightarrow> sim_event_queue \<Rightarrow> bool" where
  "adds_at t q q' \<longleftrightarrow> queue_inv q' \<and> (\<forall>e \<in> set (heap q'). e \<in> set (heap q) \<or> time_ns e = t) \<and>
     (next_seq q' = next_seq q \<or> next_seq q' = next_seq q + 1)"

lemma adds_at_refl: "queue_inv q \<Longrightarrow> adds_at t q q"
  by (simp add: adds_at_def)

lemma adds_at_insort:
  assumes "queue_inv q'" "pending q' = insort_key ev_key e (filter P (pending q))" "time_ns e = t"
    "next_seq q' = next_seq q + 1"
  shows "adds_at t q q'"
proof -
  have "set (heap q') = insert e {x \<in> set (heap q). P x}"
    using assms(2) by (metis pending_set set_filter set_insort_key)
  then show ?thesis using assms by (auto simp: adds_at_def)
qed

lemma adds_at_push:
  assumes "queue_inv q" "seq_room q" "seq e = next_seq q" "count q < SIM_EQ_MAX_EVENTS"
    "kind e \<noteq> SIM_EV_NODE_WAKEUP" "time_ns e = t"
  shows "adds_at t q (push_event e q)"
  using push_event_refines [of q e] assms by (intro adds_at_insort [where P = "\<lambda>_. True" and e = e]) auto

lemma schedule_adds_at:
  assumes "queue_inv q" "seq_room q"
  shows "adds_at t q (sim_eq_schedule_gen q n t g)"
    and "adds_at t q (sim_eq_schedule_if_earlier_gen q n t g)"
    and "adds_at t q (sim_eq_schedule_rx_byte_gen q n s b r t g)"
    and "adds_at t q (sim_eq_schedule_radio_timer_gen q n t g)"
    and "adds_at t q (sim_eq_schedule_test_action q t)"
proof -
  show g: "adds_at t q (sim_eq_schedule_gen q n t g)"
  proof (cases "valid_eq_node n \<and> accepts_wakeup q n")
    case True
    then show ?thesis
      using schedule_gen_refines [OF assms, of n t g]
      by (intro adds_at_insort [where e = "wakeup_event q n t g"]) (auto simp: wakeup_event_def)
  next
    case False
    then have "sim_eq_schedule_gen q n t g = q"
      using schedule_gen_refines(4) [OF assms, of n t g] schedule_gen_invalid [of n q t g] by blast
    then show ?thesis using assms by (simp add: adds_at_refl)
  qed
  show "adds_at t q (sim_eq_schedule_if_earlier_gen q n t g)"
    using g adds_at_refl [OF assms(1)] by (auto simp: sim_eq_schedule_if_earlier_gen_def Let_def)
  show "adds_at t q (sim_eq_schedule_rx_byte_gen q n s b r t g)"
    using assms adds_at_refl by (auto simp: sim_eq_schedule_rx_byte_gen_def rx_byte_event_def intro!: adds_at_push)
  show "adds_at t q (sim_eq_schedule_radio_timer_gen q n t g)"
    using assms adds_at_refl
    by (auto simp: sim_eq_schedule_radio_timer_gen_def radio_timer_event_def intro!: adds_at_push)
  show "adds_at t q (sim_eq_schedule_test_action q t)"
    using assms adds_at_refl
    by (auto simp: sim_eq_schedule_test_action_def test_action_event_def intro!: adds_at_push)
qed

lemma kernel_ok_adds:
  assumes "kernel_ok (Suc k) s" "adds_at t (event_queue s) q'" "now_ns s \<le> t"
    and "event_queue s' = q'" "now_ns s' = now_ns s"
  shows "kernel_ok k s'"
proof -
  let ?n = "next_seq (event_queue s)"
  have "unat (?n + 1) \<le> Suc (unat ?n)" by (simp add: unat_word_ariths)
  moreover have "next_seq q' = ?n \<or> next_seq q' = ?n + 1" using assms(2) by (simp add: adds_at_def)
  ultimately have "unat (next_seq q') + k < 2 ^ 64"
    using assms(1) by (auto simp: kernel_ok_def)
  then show ?thesis using assms by (auto simp: kernel_ok_def adds_at_def)
qed

lemma clamp_sel [simp]:
  "event_queue (snd (clamp_to_now t s)) = event_queue s" "now_ns (snd (clamp_to_now t s)) = now_ns s"
  "now_ns s \<le> fst (clamp_to_now t s)"
  "run_state (snd (clamp_to_now t s)) = run_state s" "mote_generation (snd (clamp_to_now t s)) = mote_generation s"
  by (simp_all add: clamp_to_now_def)

text \<open>The wrappers are kernel operations: each of them clamps to the current time.\<close>

lemma kernel_op_adds:
  fixes f :: "'a sim_runtime_scheme \<Rightarrow> 'a sim_runtime_scheme"
  assumes "\<And>s. queue_inv (event_queue s) \<Longrightarrow> seq_room (event_queue s) \<Longrightarrow>
      adds_at (fst (clamp_to_now (t s) s)) (event_queue s) (event_queue (f s))"
    and "\<And>s. now_ns (f s) = now_ns s"
  shows "kernel_op f 1"
proof
  fix k and s :: "'a sim_runtime_scheme" assume ok: "kernel_ok (k + 1) s"
  then have "queue_inv (event_queue s)" "seq_room (event_queue s)"
    using kernel_ok_room by (auto simp: kernel_ok_def)
  note a = assms(1) [OF this]
  have "kernel_ok (Suc k) s" using ok by simp
  from kernel_ok_adds [OF this a clamp_sel(3) refl assms(2)] show "kernel_ok k (f s)" .
qed (rule assms(2))

lemma kernel_op_frame:
  assumes "\<And>s. event_queue (f s) = event_queue s" "\<And>s. now_ns (f s) = now_ns s"
  shows "kernel_op f 0"
  using assms by unfold_locales (simp_all add: kernel_ok_def)

interpretation wakeup: kernel_op "\<lambda>s. sim_schedule_mote_wakeup i (t s) s" 1
  by (rule kernel_op_adds [where t = t])
    (simp_all add: sim_schedule_mote_wakeup_def Let_def split_beta schedule_adds_at)

interpretation wakeup_if_earlier: kernel_op "\<lambda>s. sim_schedule_mote_wakeup_if_earlier i (t s) s" 1
  by (rule kernel_op_adds [where t = t])
    (simp_all add: sim_schedule_mote_wakeup_if_earlier_def Let_def split_beta schedule_adds_at)

interpretation test_action: kernel_op "\<lambda>s. sim_schedule_test_action (t s) s" 1
  by (rule kernel_op_adds [where t = t])
    (simp_all add: sim_schedule_test_action_def Let_def split_beta schedule_adds_at)

interpretation cancel: kernel_op "sim_cancel_mote_events i" 0
proof
  fix k s assume ok: "kernel_ok (k + 0) (s :: 'a sim_runtime_scheme)"
  show "kernel_ok k (sim_cancel_mote_events i s)"
  proof (cases "valid_eq_node i")
    case True
    have "set (heap (sim_eq_remove_node (event_queue s) i)) \<subseteq> set (heap (event_queue s))"
      using remove_node_refines(2) [OF _ True, of "event_queue s"] ok
      by (metis filter_is_subset kernel_ok_def pending_set)
    then show ?thesis
      using remove_node_refines [OF _ True, of "event_queue s"] ok
      by (auto simp: kernel_ok_def sim_cancel_mote_events_def)
  next
    case False
    then show ?thesis using ok by (simp add: kernel_ok_def sim_cancel_mote_events_def remove_node_invalid)
  qed
qed (simp add: sim_cancel_mote_events_def)

interpretation bump: kernel_op "sim_runtime_bump_mote_generation i" 0
  by (rule kernel_op_frame) (simp_all add: sim_runtime_bump_mote_generation_def Let_def)

interpretation request_stop: kernel_op sim_runtime_request_stop 0
  by (rule kernel_op_frame) (simp_all add: sim_runtime_request_stop_def)

interpretation unsubscribe: kernel_op "sim_runtime_unsubscribe h" 0
  by (rule kernel_op_frame) (simp_all add: sim_runtime_unsubscribe_def)

interpretation note_event: kernel_op "sim_control_note_event :: 'a sim_control_scheme \<Rightarrow> _" 0
  by (rule kernel_op_frame) (simp_all add: sim_control_note_event_def Let_def)

interpretation pause: kernel_op "sim_control_pause :: 'a sim_control_scheme \<Rightarrow> _" 0
  by (rule kernel_op_frame) (simp_all add: sim_control_pause_def)

interpretation resume: kernel_op "sim_control_resume :: 'a sim_control_scheme \<Rightarrow> _" 0
  by (rule kernel_op_frame) (simp_all add: sim_control_resume_def)

subsection \<open>Order of events and the clock\<close>

lemma pump_pop_ok:
  assumes ok: "kernel_ok k s" and e: "sim_eq_peek_time (event_queue s) \<le> end_t" "end_t < INT64_MAX"
    and p: "pump_pop s = (ev, s1)"
  shows "kernel_ok k s1" "now_ns s \<le> now_ns s1" "now_ns s1 = time_ns ev" "time_ns ev \<le> end_t"
    "pending (event_queue s) = ev # pending (event_queue s1)"
proof -
  let ?q = "event_queue s"
  have inv: "queue_inv ?q" using ok by (simp add: kernel_ok_def)
  have ne: "pending ?q \<noteq> []" using kernel_queue.peek_empty [OF inv] e by auto
  note R = sim_eq_pop_refines [OF inv ne]
  have ev: "ev = hd (pending ?q)" and s1: "s1 = s\<lparr>now_ns := sim_eq_peek_time ?q, event_queue := snd (sim_eq_pop ?q)\<rparr>"
    using p R(1) by (auto simp: pump_pop_def split_beta)
  show t: "now_ns s1 = time_ns ev" using kernel_queue.peek_hd [OF inv ne] by (simp add: s1 ev)
  then show "time_ns ev \<le> end_t" using e(1) by (simp add: s1)
  show c: "pending ?q = ev # pending (event_queue s1)" using R(3) ne by (simp add: s1 ev)
  then have "set (heap (event_queue s1)) \<subseteq> set (heap ?q)" "ev \<in> set (heap ?q)"
    by (metis pending_set set_subset_Cons, metis list.set_intros(1) pending_set)
  moreover have "\<forall>e \<in> set (heap (event_queue s1)). now_ns s1 \<le> time_ns e"
    using kernel_queue.pop_time_mono [OF inv ne] R(1) t by (simp add: s1 ev)
  ultimately show "kernel_ok k s1" "now_ns s \<le> now_ns s1"
    using ok R(2,4) t by (auto simp: kernel_ok_def s1)
qed

lemma pump_run_order:
  assumes run: "pump_run dispatch end_t s evs s'"
    and disp: "\<And>ev. kernel_op (dispatch ev) d" and e: "end_t < INT64_MAX"
    and ok: "kernel_ok (k + length evs * d) s"
  shows "kernel_ok k s' \<and> now_ns s \<le> now_ns s' \<and> (now_ns s' \<le> max (now_ns s) end_t) \<and>
    sorted (map time_ns evs) \<and> (\<forall>ev \<in> set evs. now_ns s \<le> time_ns ev \<and> time_ns ev \<le> end_t \<and> time_ns ev \<le> now_ns s') \<and>
    (halted_state s' \<or> (\<forall>ev \<in> set (heap (event_queue s')). end_t < time_ns ev))"
  using run ok
proof (induction arbitrary: k rule: pump_run.induct)
  case (horizon s)
  then show ?case
    using kernel_queue.peek_le [of "event_queue s"] by (fastforce simp: kernel_ok_def)
next
  case (stale s ev s1 evs s')
  note P = pump_pop_ok [OF stale.prems stale.hyps(2) e stale.hyps(3)]
  from stale.IH [OF P(1)] P(2-4) show ?case by (auto simp: max_def)
next
  case (fire s ev s1 evs s')
  note P = pump_pop_ok [OF fire.prems fire.hyps(2) e fire.hyps(3)]
  have c: "now_ns (dispatch ev s1) = now_ns s1" using disp by (rule kernel_op.clock)
  have "kernel_ok (k + length evs * d) (dispatch ev s1)"
    using P(1) by (intro kernel_op.ok [OF disp]) (simp add: ac_simps)
  from fire.IH [OF this] P(2-4) show ?case by (auto simp: c max_def)
qed simp

subsection \<open>Termination of the pump\<close>

definition early :: "int \<Rightarrow> 'a sim_runtime_scheme \<Rightarrow> nat" where
  "early t s = card {e \<in> set (heap (event_queue s)). time_ns e < t}"

lemma early_le: "kernel_ok k s \<Longrightarrow> early t s \<le> count (event_queue s)"
  unfolding early_def by (rule order_trans [OF card_mono [OF finite_set] card_length]) auto

lemma count_le: "kernel_ok k s \<Longrightarrow> count (event_queue s) \<le> SIM_EQ_MAX_EVENTS"
  by (simp add: kernel_ok_def queue_inv_def events_ok_def)

lemma early_mono:
  "set (heap (event_queue s')) \<subseteq> set (heap (event_queue s)) \<union> {e. t \<le> time_ns e} \<Longrightarrow> early t s' \<le> early t s"
  unfolding early_def by (rule card_mono) auto

text \<open>A dispatcher that schedules only at least \<open>\<delta>\<close> ahead of the current time.\<close>

definition delays :: "int \<Rightarrow> nat \<Rightarrow> ('a sim_runtime_scheme \<Rightarrow> 'a sim_runtime_scheme) \<Rightarrow> bool" where
  "delays \<delta> d f \<longleftrightarrow> (\<forall>s. kernel_ok d s \<longrightarrow>
     set (heap (event_queue (f s))) \<subseteq> set (heap (event_queue s)) \<union> {e. now_ns s + \<delta> \<le> time_ns e})"

lemma pop_shrinks:
  assumes ok: "kernel_ok k s" and e: "sim_eq_peek_time (event_queue s) \<le> end_t" "end_t < INT64_MAX"
    and p: "pump_pop s = (ev, s1)"
  shows "count (event_queue s1) < count (event_queue s)" "set (heap (event_queue s1)) \<subseteq> set (heap (event_queue s))"
    "time_ns ev < t \<Longrightarrow> early t s1 < early t s"
proof -
  note P = pump_pop_ok [OF ok e p]
  have inv: "queue_inv (event_queue s)" using ok by (simp add: kernel_ok_def)
  show "count (event_queue s1) < count (event_queue s)"
    using arg_cong [OF P(5), of length] by simp
  show sub: "set (heap (event_queue s1)) \<subseteq> set (heap (event_queue s))"
    using arg_cong [OF P(5), of set] by auto
  have "distinct (map seq (heap (event_queue s)))" using inv by (simp add: queue_inv_def events_ok_def)
  then have "distinct (pending (event_queue s))" by (simp add: pending_def distinct_map)
  then have "ev \<notin> set (heap (event_queue s1))" "ev \<in> set (heap (event_queue s))"
    using P(5) by (metis distinct.simps(2) pending_set, metis list.set_intros(1) pending_set)
  then show "time_ns ev < t \<Longrightarrow> early t s1 < early t s"
    unfolding early_def using sub by (intro psubset_card_mono) auto
qed

lemma pump_terminates:
  assumes disp: "\<And>ev. kernel_op (dispatch ev) d" and del: "\<And>ev. delays \<delta> d (dispatch ev)"
    and e: "end_t < INT64_MAX" and pos: "0 < \<delta>"
  shows "kernel_ok (d * (c + SIM_EQ_MAX_EVENTS * l)) s \<Longrightarrow> early t s \<le> c \<Longrightarrow> t \<le> now_ns s + \<delta> \<Longrightarrow>
    end_t < t + int l * \<delta> \<Longrightarrow> \<exists>s'. pump_loop dispatch end_t s = Some s'"
proof (induction "(l, c)" arbitrary: l c s t rule: wf_induct_rule [OF wf_lex_prod [OF wf_less wf_less]])
  case (1 l c s t)
  let ?m = "SIM_EQ_MAX_EVENTS"
  show ?case
  proof (cases "halted_state s \<or> end_t < sim_eq_peek_time (event_queue s)")
    case True
    then show ?thesis by (subst pump_loop.simps) auto
  next
    case False
    then have pk: "sim_eq_peek_time (event_queue s) \<le> end_t" and nh: "\<not> halted_state s" by auto
    obtain ev s1 where p: "pump_pop s = (ev, s1)" by (cases "pump_pop s") auto
    note P = pump_pop_ok [OF 1(2) pk e p] and S = pop_shrinks [OF 1(2) pk e p]
    define s2 where "s2 = (if sim_runtime_event_is_current s1 ev then dispatch ev s1 else s1)"
    have loop: "pump_loop dispatch end_t s = pump_loop dispatch end_t s2"
      using nh pk p by (subst pump_loop.simps) (auto simp: s2_def)
    have cl: "now_ns s2 = now_ns s1" using kernel_op.clock [OF disp] by (simp add: s2_def)
    have step: "kernel_ok k s2 \<and> set (heap (event_queue s2)) \<subseteq> set (heap (event_queue s1)) \<union> {x. now_ns s1 + \<delta> \<le> time_ns x}"
      if "kernel_ok (k + d) s1" for k
      using that del [of ev] kernel_op.ok [OF disp that, of ev] kernel_ok_mono [OF that]
      by (auto simp: s2_def delays_def)
    show ?thesis
    proof (cases "time_ns ev < t")
      case True
      from S(3) [OF this] 1(3) have c: "early t s1 < c" by simp
      then have b: "d * (c - 1 + ?m * l) + d = d * (c + ?m * l)" by (cases c) (simp_all add: algebra_simps)
      have k: "kernel_ok (d * (c - 1 + ?m * l) + d) s1" using P(1) b by simp
      have "early t s2 \<le> early t s1" using step [OF k] P(2) 1(4) by (intro early_mono) auto
      then have "\<exists>s'. pump_loop dispatch end_t s2 = Some s'"
        using 1(1) [of l "c - 1" s2 t] step [OF k] c 1(4,5) P(2) by (simp add: cl)
      then show ?thesis by (simp add: loop)
    next
      case False
      with 1(5) P(4) have l: "0 < l" by (cases l) auto
      then obtain l' where l': "l = Suc l'" by (cases l) auto
      have "d * (?m - 1 + ?m * l') + d = d * (?m * l)" by (simp add: l' algebra_simps)
      also have "\<dots> \<le> d * (c + ?m * l)" by simp
      finally have k: "kernel_ok (d * (?m - 1 + ?m * l') + d) s1" using P(1) kernel_ok_mono by blast
      have t': "t + \<delta> \<le> now_ns s1 + \<delta>" using False P(3) by simp
      have "early (t + \<delta>) s2 \<le> early (t + \<delta>) s1" using step [OF k] t' by (intro early_mono) auto
      also have "\<dots> \<le> ?m - 1" using early_le [OF P(1), of "t + \<delta>"] S(1) count_le [OF 1(2)] by simp
      finally have "\<exists>s'. pump_loop dispatch end_t s2 = Some s'"
        using 1(1) [of l' "?m - 1" s2 "t + \<delta>"] step [OF k] t' 1(5) by (simp add: cl l' algebra_simps)
      then show ?thesis by (simp add: loop)
    qed
  qed
qed

subsection \<open>Properties of the pump\<close>

definition started :: "'a sim_runtime_scheme \<Rightarrow> 'a sim_runtime_scheme" where
  "started s = (if run_state s \<noteq> SIM_RUN_STOP_REQUESTED then s\<lparr>run_state := SIM_RUN_RUNNING\<rparr> else s)"

lemma started_sel [simp]:
  "event_queue (started s) = event_queue s" "now_ns (started s) = now_ns s"
  "mote_generation (started s) = mote_generation s" "kernel_ok k (started s) = kernel_ok k s"
  by (simp_all add: started_def kernel_ok_def)

lemma run_until_eq:
  "sim_runtime_run_until dispatch end_t s =
     (if run_state s = SIM_RUN_PAUSED then Some s else pump_loop dispatch end_t (started s))"
  by (simp add: sim_runtime_run_until_def started_def)

text \<open>
  C2. The event pump is deterministic discrete-event simulation: with a dispatcher built from
  kernel operations that draw at most \<open>d\<close> sequence numbers per event, a returning run has
  dispatched a sequence of events in non-decreasing time order, all between the old clock and
  the horizon; the clock never goes back nor passes the horizon; and unless the run was
  stopped or paused, every event still pending lies beyond the horizon.
\<close>

theorem run_until_order:
  assumes "sim_runtime_run_until dispatch end_t s = Some s'" "run_state s \<noteq> SIM_RUN_PAUSED"
    and "\<forall>ev. kernel_op (dispatch ev) d" "end_t < INT64_MAX"
  shows "\<exists>evs. pump_run dispatch end_t (started s) evs s' \<and>
    (kernel_ok (length evs * d) s \<longrightarrow>
       sorted (map time_ns evs) \<and> (\<forall>ev \<in> set evs. now_ns s \<le> time_ns ev \<and> time_ns ev \<le> end_t) \<and>
       now_ns s \<le> now_ns s' \<and> now_ns s' \<le> max (now_ns s) end_t \<and> kernel_ok 0 s' \<and>
       (halted_state s' \<or> (\<forall>ev \<in> set (pending (event_queue s')). end_t < time_ns ev)))"
proof -
  obtain evs where r: "pump_run dispatch end_t (started s) evs s'"
    using assms(1,2) by (auto simp: run_until_eq pump_loop_iff)
  from pump_run_order [OF r _ assms(4), of d 0] assms(3) show ?thesis
    by (intro exI [of _ evs]) (auto simp: r)
qed

lemma run_until_terminates:
  assumes "\<forall>ev. kernel_op (dispatch ev) d" "\<forall>ev. delays \<delta> d (dispatch ev)" "0 < \<delta>" "end_t < INT64_MAX"
    and "kernel_ok (d * (65536 * n)) s" "end_t < now_ns s + int n * \<delta>"
  shows "\<exists>s'. sim_runtime_run_until dispatch end_t s = Some s'"
proof (cases n)
  case 0
  have "end_t < sim_eq_peek_time (event_queue s)"
  proof (cases "pending (event_queue s) = []")
    case True
    then show ?thesis using assms(4) by (simp add: sim_eq_peek_time_def)
  next
    case False
    then have "sim_eq_peek_time (event_queue s) = time_ns (hd (pending (event_queue s)))"
      using assms(5) kernel_queue.peek_hd by (auto simp: kernel_ok_def)
    moreover have "hd (pending (event_queue s)) \<in> set (heap (event_queue s))"
      using False by (metis hd_in_set pending_set)
    ultimately show ?thesis using assms(5,6) 0 by (auto simp: kernel_ok_def)
  qed
  then show ?thesis by (auto simp: run_until_eq pump_loop.simps [of dispatch end_t "started s"])
next
  case (Suc l)
  have b: "d * (65536 * n) = d * (65536 + 65536 * l)" by (simp add: Suc)
  have "early (now_ns s + \<delta>) (started s) \<le> 65536"
    using early_le [of _ "started s"] count_le [OF assms(5)] assms(5) by (metis le_trans started_sel(1,4))
  moreover have "end_t < now_ns s + \<delta> + int l * \<delta>" using assms(6) by (simp add: Suc algebra_simps)
  ultimately have "\<exists>s'. pump_loop dispatch end_t (started s) = Some s'"
    using pump_terminates [of dispatch d \<delta> end_t 65536 l "started s" "now_ns s + \<delta>"] assms(1-5) b by auto
  then show ?thesis by (auto simp: run_until_eq)
qed

text \<open>
  C7. The pump returns: with a dispatcher whose events lie at least \<open>\<delta>\<close> > 0 ahead of the
  clock, a run to a horizon fewer than \<open>n\<close> delays away terminates, given sequence numbers for
  the 65536 events that fit the queue per delay.
\<close>

theorem run_until_returns:
  assumes "\<forall>ev. kernel_op (dispatch ev) d" "\<forall>ev. delays \<delta> d (dispatch ev)" "0 < \<delta>" "end_t < INT64_MAX"
    and "kernel_ok (d * (65536 * n)) s" "end_t < now_ns s + int n * \<delta>"
  shows "\<exists>s'. sim_runtime_run_until dispatch end_t s = Some s'"
  using assms by (rule run_until_terminates)

text \<open>A mote that sleeps for a microsecond at a time, on an otherwise empty simulation.\<close>

definition tick :: "sim_event \<Rightarrow> sim_runtime \<Rightarrow> sim_runtime" where
  "tick ev s = sim_schedule_mote_wakeup 3 (now_ns s + 1000) s"

definition boot :: sim_runtime where
  "boot = sim_schedule_mote_wakeup 3 500 ((sim_runtime_init ())\<lparr>event_queue := sim_eq_init\<rparr>)"

lemma tick_op: "kernel_op (tick ev) 1"
  using wakeup.kernel_op_axioms [of 3 "\<lambda>s. now_ns s + 1000"] by (simp add: tick_def [abs_def])

lemma tick_delays: "delays 1000 1 (tick ev)"
proof -
  have "adds_at (now_ns s + 1000) (event_queue s) (event_queue (tick ev s))" if "kernel_ok 1 s" for s
    using schedule_adds_at(1) [of "event_queue s"] kernel_ok_room [of 0 s] that
    by (simp add: tick_def sim_schedule_mote_wakeup_def clamp_to_now_def Let_def kernel_ok_def)
  then show ?thesis unfolding delays_def adds_at_def by fastforce
qed

lemma boot_ok: "kernel_ok (65536 * 1001) boot" "run_state boot = SIM_RUN_STOPPED" "now_ns boot = 0"
proof -
  have "kernel_ok (Suc (65536 * 1001)) ((sim_runtime_init ())\<lparr>event_queue := sim_eq_init\<rparr>)"
    by (simp add: kernel_ok_def queue_inv_init) (simp add: sim_eq_init_def sim_runtime_init_def)
  then show "kernel_ok (65536 * 1001) boot"
    using wakeup.ok [of "65536 * 1001" _ 3 "\<lambda>_. 500"] by (simp add: boot_def)
  show "run_state boot = SIM_RUN_STOPPED" "now_ns boot = 0"
    by (simp_all add: boot_def sim_schedule_mote_wakeup_def clamp_to_now_def sim_runtime_init_def)
qed

theorem run_until_returns_witness: "\<exists>s'. sim_runtime_run_until tick 1000000 boot = Some s'"
  using run_until_returns [of tick 1 1000 1000000 1001 boot] tick_op tick_delays boot_ok by simp

theorem run_until_order_witness:
  "\<exists>s' evs. sim_runtime_run_until tick 1000000 boot = Some s' \<and> pump_run tick 1000000 (started boot) evs s'"
proof -
  obtain s' where "sim_runtime_run_until tick 1000000 boot = Some s'"
    using run_until_terminates [of tick 1 1000 1000000 1001 boot] tick_op tick_delays boot_ok by auto
  with run_until_order [OF this] boot_ok(2) tick_op show ?thesis by fastforce
qed

text \<open>
  The horizon \<open>INT64_MAX\<close> does not mean "run to the end": an empty queue reports the
  next event at \<open>INT64_MAX\<close>, which is not beyond that horizon, so the pump sets the clock to
  \<open>INT64_MAX\<close>, pops the placeholder event of an empty queue (a wakeup without a node) and
  dispatches it, forever.
\<close>

theorem run_until_int64_max_spins:
  assumes "heap (event_queue s) = []" "\<not> halted_state (started s)" "run_state s \<noteq> SIM_RUN_PAUSED"
    and "\<forall>ev s. heap (event_queue s) = [] \<and> \<not> halted_state s \<longrightarrow>
           heap (event_queue (dispatch ev s)) = [] \<and> \<not> halted_state (dispatch ev s)"
  shows "sim_runtime_run_until dispatch INT64_MAX s = None"
proof -
  have "\<not> (heap (event_queue s) = [] \<and> \<not> halted_state s)" if "pump_run dispatch INT64_MAX s evs s'" for s evs s'
    using that
  proof (induction rule: pump_run.induct)
    case (horizon s)
    then show ?case by (auto simp: sim_eq_peek_time_def)
  qed (use assms(4) in \<open>auto simp: pump_pop_def pop_empty halted_state_def\<close>)
  then have "pump_loop dispatch INT64_MAX (started s) \<noteq> Some s'" for s'
    using assms(1,2) pump_loop_iff [of dispatch INT64_MAX "started s" s'] started_sel(1) by metis
  then show ?thesis using assms(3) by (auto simp: run_until_eq)
qed

theorem run_until_int64_max_spins_witness:
  "sim_runtime_run_until (\<lambda>ev s. s) INT64_MAX ((sim_runtime_init ())\<lparr>event_queue := sim_eq_init\<rparr>) = None"
  by (rule run_until_int64_max_spins)
    (simp_all add: sim_eq_init_def sim_runtime_init_def started_def halted_state_def)

text \<open>
  Removing or rebooting a mote invalidates its queued events: bumping a slot's generation
  gives a generation that is never the reserved 0 and differs from the old one, so that the
  events stamped before are dropped by the pump's check while later wakeups of the slot and all
  events of the other slots pass as before.
\<close>

theorem generation_bump_invalidates:
  assumes "valid_eq_node i" "s' = sim_runtime_bump_mote_generation i s" "mote_generation s i \<noteq> 0"
  shows "mote_generation s' i \<noteq> 0 \<and> mote_generation s' i \<noteq> mote_generation s i \<and>
    (\<forall>ev. node_idx ev = i \<and> target_generation ev = mote_generation s i \<longrightarrow> \<not> sim_runtime_event_is_current s' ev) \<and>
    (\<forall>q t. sim_runtime_event_is_current s' (wakeup_event q i t (sim_runtime_mote_generation s' i))) \<and>
    (\<forall>ev. node_idx ev \<noteq> i \<longrightarrow> sim_runtime_event_is_current s' ev = sim_runtime_event_is_current s ev)"
  using assms by (auto simp: sim_runtime_bump_mote_generation_def sim_runtime_event_is_current_def
      sim_runtime_mote_generation_def wakeup_event_def Let_def)

theorem generation_bump_invalidates_witness:
  "mote_generation (sim_runtime_bump_mote_generation 7 (sim_runtime_init ())) 7 \<noteq> 0"
  using generation_bump_invalidates [of 7 _ "sim_runtime_init ()"] by (simp add: sim_runtime_init_def)

subsection \<open>UI panels\<close>

definition panel_ids_ok :: "'a sim_runtime_scheme \<Rightarrow> bool" where
  "panel_ids_ok s \<longleftrightarrow> (\<forall>p \<in> set (ui_panels s). length (panel_id p) < SIM_RUNTIME_PANEL_ID_LEN) \<and>
     ui_panel_count s \<le> SIM_RUNTIME_MAX_PANELS"

lemma find_panel_some:
  "find_panel pid ps = Some i \<Longrightarrow> i < length ps \<and> strncmp_eq SIM_RUNTIME_PANEL_ID_LEN (panel_id (ps ! i)) pid"
  by (auto simp: find_panel_def split: list.splits dest: filter_Cons_mem)

lemma strncmp_eq_long:
  "length a < n \<Longrightarrow> n \<le> length b \<Longrightarrow> CHR 0x00 \<notin> set b \<Longrightarrow> \<not> strncmp_eq n a b"
proof
  assume a: "length a < n" "n \<le> length b" "CHR 0x00 \<notin> set b" and "strncmp_eq n a b"
  then have "a @ [CHR 0x00] = take n b" by (auto simp: strncmp_eq_def)
  then have "CHR 0x00 \<in> set (take n b)" by (metis in_set_conv_decomp)
  then show False using a(3) by (meson in_set_takeD)
qed

lemma panel_update_ids:
  assumes "i < length ps" "\<forall>p \<in> set ps. length (panel_id p) < n"
  shows "\<forall>p \<in> set (ps[i := (ps ! i)\<lparr>panel_json := j\<rparr>]). length (panel_id p) < n"
proof
  fix p assume "p \<in> set (ps[i := (ps ! i)\<lparr>panel_json := j\<rparr>])"
  then have "p \<in> insert ((ps ! i)\<lparr>panel_json := j\<rparr>) (set ps)"
    using set_update_subset_insert by (rule subsetD [rotated])
  moreover have "ps ! i \<in> set ps" using assms(1) by simp
  ultimately show "length (panel_id p) < n" using assms(2) by auto
qed

lemma panel_ids_ok_publish:
  assumes "panel_ids_ok s"
  shows "panel_ids_ok (sim_runtime_ui_publish_panel dup pid json s)"
proof (cases "find_panel pid (ui_panels s)")
  case None
  then show ?thesis
    using assms by (auto simp: panel_ids_ok_def sim_runtime_ui_publish_panel_def Let_def split: option.split)
next
  case (Some i)
  then show ?thesis
    using assms find_panel_some [OF Some] panel_update_ids [of i "ui_panels s"]
    by (simp add: panel_ids_ok_def sim_runtime_ui_publish_panel_def Let_def split: option.split)
qed

text \<open>
  A panel id of 32 characters or more is never found again: ids are stored truncated to 31
  characters but compared over 32, so every publication under such an id takes a new slot of
  the table of 8 instead of replacing the panel, and once the table is full it is dropped.
\<close>

theorem panel_long_id_duplicates:
  assumes "panel_ids_ok s" "32 \<le> length pid" "CHR 0x00 \<notin> set pid" "dup json = Some json"
  shows "ui_panels (sim_runtime_ui_publish_panel dup pid json s) =
    (if ui_panel_count s < 8 then ui_panels s @ [\<lparr>panel_id = take 31 pid, panel_json = Some json\<rparr>] else ui_panels s)"
proof -
  have "find_panel pid (ui_panels s) = None"
    using find_panel_some [of pid "ui_panels s"] strncmp_eq_long [of _ 32 pid] assms(1-3)
    by (cases "find_panel pid (ui_panels s)") (auto simp: panel_ids_ok_def)
  then show ?thesis
    using assms(2,4) by (auto simp: sim_runtime_ui_publish_panel_def Let_def)
qed

theorem panel_long_id_duplicates_witness:
  "length (ui_panels (sim_runtime_ui_publish_panel Some (replicate 40 CHR ''a'') ''{}'' (sim_runtime_init ()))) = 1"
  using panel_long_id_duplicates [of "sim_runtime_init ()" "replicate 40 CHR ''a''" Some "''{}''"]
  by (simp add: panel_ids_ok_def sim_runtime_init_def)

lemma panels_text_length:
  "length (panels_text i ps) \<le> sum_list (map (\<lambda>(pid, json). length pid + length json + 4) ps)"
  proof (induction ps arbitrary: i)
  case (Cons p ps)
  show ?case using Cons.IH [of "Suc i"] by (cases p; cases "i = 0") (simp_all add: panel_text_def)
qed simp

text \<open>
  The buffer \<open>sim_runtime_ui_panels_json\<close> allocates is large enough: the composed JSON
  text and its terminator fit the computed capacity, whatever the panels.
\<close>

theorem panels_json_fits:
  assumes "sim_runtime_ui_panels_json s = Inr (Some out)"
  shows "length out + 1 \<le> panels_cap (map (\<lambda>p. (panel_id p, the (panel_json p))) (ui_panels s))"
proof -
  let ?ps = "map (\<lambda>p. (panel_id p, the (panel_json p))) (ui_panels s)"
  have ne: "?ps \<noteq> []" and out: "out = ''{'' @ panels_text 0 ?ps @ ''}''"
    using assms by (auto simp: sim_runtime_ui_panels_json_def Let_def split: if_splits)
  have "sum_list (map (\<lambda>(pid, json). length pid + length json + 4) ps) + 2 * length ps \<le>
      sum_list (map (\<lambda>(pid, json). length pid + length json + 6) ps)" for ps :: "(string \<times> string) list"
    by (induction ps) auto
  from this [of ?ps] panels_text_length [of 0 ?ps] ne show ?thesis
    unfolding out panels_cap_def by (cases ?ps) auto
qed

theorem panels_json_fits_witness:
  "length ''{\"a\":1}'' + 1 \<le> panels_cap [(''a'', ''1'')]"
proof -
  have "sim_runtime_ui_panels_json ((sim_runtime_init ())\<lparr>ui_panels := [\<lparr>panel_id = ''a'', panel_json = Some ''1''\<rparr>]\<rparr>)
     = Inr (Some ''{\"a\":1}'')"
    by (simp add: sim_runtime_ui_panels_json_def panel_text_def)
  from panels_json_fits [OF this] show ?thesis by simp
qed

end
