(* ===== verification/Sim_Control_Correct.thy ===== *)
theory Sim_Control_Correct
  imports Sim_Runtime_Correct
begin

text \<open>
  Correctness of run control: stepping by events is exact, a run for a duration pauses at its
  deadline, the one-shot horizon survives the other commands and fires once, and console bytes
  that a mote does not take are delivered later, in order and without loss.
\<close>

subsection \<open>Stepping by events\<close>

text \<open>The runner's dispatcher: note the event, then do the work.\<close>

definition counted ::
  "(sim_event \<Rightarrow> 'a sim_control_scheme \<Rightarrow> 'a sim_control_scheme) \<Rightarrow> sim_event \<Rightarrow>
     'a sim_control_scheme \<Rightarrow> 'a sim_control_scheme" where
  "counted body ev c = body ev (sim_control_note_event c)"

text \<open>A dispatcher body that does not touch the run state or the step budget.\<close>

definition keeps_run_state :: "('a sim_control_scheme \<Rightarrow> 'a sim_control_scheme) \<Rightarrow> bool" where
  "keeps_run_state f \<longleftrightarrow> (\<forall>c. run_state (f c) = run_state c \<and> step_armed (f c) = step_armed c \<and>
     step_events_left (f c) = step_events_left c)"

lemma pump_pop_sel:
  "pump_pop c = (ev, c1) \<Longrightarrow> run_state c1 = run_state (c :: 'a sim_control_scheme) \<and>
     step_armed c1 = step_armed c \<and> step_events_left c1 = step_events_left c"
  by (auto simp: pump_pop_def split_beta)

lemma counted_run:
  assumes "pump_run (counted body) end_t c evs c'" "\<forall>ev. keeps_run_state (body ev)"
    and "step_armed c" "run_state c = SIM_RUN_RUNNING" "1 \<le> step_events_left c"
  shows "int (length evs) = step_events_left c \<and> run_state c' = SIM_RUN_PAUSED \<or>
         int (length evs) < step_events_left c \<and> run_state c' = SIM_RUN_RUNNING \<and>
           end_t < sim_eq_peek_time (event_queue c')"
  using assms(1,3-5)
proof (induction rule: pump_run.induct)
  case (stopped s)
  then show ?case by (auto simp: halted_state_def)
next
  case (stale s ev s1 evs s')
  then show ?case using pump_pop_sel [OF stale.hyps(3)] by auto
next
  case (fire s ev s1 evs s')
  let ?n = "step_events_left s"
  note sel = pump_pop_sel [OF fire.hyps(3)]
  have k: "run_state (body ev x) = run_state x" "step_armed (body ev x) = step_armed x"
    "step_events_left (body ev x) = step_events_left x" for x
    using assms(2) by (auto simp: keeps_run_state_def)
  show ?case
  proof (cases "?n = 1")
    case True
    then have p: "run_state (counted body ev s1) = SIM_RUN_PAUSED"
      using sel fire.prems by (simp add: counted_def k sim_control_note_event_def)
    have "evs = [] \<and> s' = counted body ev s1"
      using fire.hyps(5) p by (cases rule: pump_run.cases) (auto simp: halted_state_def)
    then show ?thesis using True p by simp
  next
    case False
    then have "run_state (counted body ev s1) = SIM_RUN_RUNNING" "step_armed (counted body ev s1)"
      "step_events_left (counted body ev s1) = ?n - 1"
      using sel fire.prems by (simp_all add: counted_def k sim_control_note_event_def)
    then show ?thesis using fire.IH False fire.prems(3) by auto
  qed
qed auto

text \<open>
  \<open>step N\<close> dispatches exactly \<open>N\<close> events and then is paused; it stops short only
  when no further event is due by the horizon of the pump, and then the run is not paused.
\<close>

theorem step_events_exact:
  assumes "1 \<le> n" "run_state c \<noteq> SIM_RUN_STOP_REQUESTED" "\<forall>ev. keeps_run_state (body ev)"
    and "sim_runtime_run_until (counted body) end_t (sim_control_step_events n c) = Some c'"
  shows "\<exists>evs. pump_run (counted body) end_t (sim_control_step_events n c) evs c' \<and>
    (int (length evs) = n \<and> sim_control_paused c' \<or>
     int (length evs) < n \<and> \<not> sim_control_paused c' \<and> end_t < sim_eq_peek_time (event_queue c'))"
proof -
  let ?c = "sim_control_step_events n c"
  have f: "run_state ?c = SIM_RUN_RUNNING" "step_armed ?c" "step_events_left ?c = n"
    using assms(1,2) by (simp_all add: sim_control_step_events_def sim_control_resume_def)
  then have "started ?c = ?c" by (simp add: started_def)
  with assms(4) f obtain evs where "pump_run (counted body) end_t ?c evs c'"
    by (auto simp: run_until_eq pump_loop_iff)
  with counted_run [OF this assms(3)] f assms(1) show ?thesis by (auto simp: sim_control_paused_def)
qed

definition sample_control :: sim_control where
  "sample_control = sim_control_init
     (sim_runtime_init \<lparr>speed_ratio = 0, speed_epoch = 0, pause_at_ns = 0, horizon_ns = 0, horizon_hit = False,
        step_events_left = 0, step_armed = False, pend_bytes = (\<lambda>_. [])\<rparr>)\<lparr>event_queue := sample_queue\<rparr>"

lemma sample_control_step:
  "\<exists>c'. sim_runtime_run_until (counted (\<lambda>ev c. c)) 2000 (sim_control_step_events 1 sample_control) = Some c'"
proof -
  let ?c = "sim_control_step_events 1 sample_control"
  obtain ev c1 where p: "pump_pop ?c = (ev, c1)" by (cases "pump_pop ?c") auto
  have ne: "pending sample_queue \<noteq> []" using sample_queue_heap by auto
  have hd: "heap sample_queue \<noteq> []" using sample_queue_heap by auto
  have ev: "ev = heap sample_queue ! 0"
    using p hd by (auto simp: pump_pop_def sim_eq_pop_def split_beta sim_control_step_events_def
        sim_control_resume_def sample_control_def sim_control_init_def Let_def)
  have t: "sim_eq_peek_time (event_queue ?c) = 500"
    using sample_queue_heap hd by (cases "heap sample_queue")
      (auto simp: sim_eq_peek_time_def sim_control_step_events_def sim_control_resume_def sample_control_def
        sim_control_init_def ev_key_def)
  have r: "\<not> halted_state ?c" "run_state ?c = SIM_RUN_RUNNING"
    by (auto simp: halted_state_def sim_control_step_events_def sim_control_resume_def sample_control_def
        sim_control_init_def sim_runtime_init_def)
  have e: "node_idx ev = 4" "target_generation ev = 1"
    using ev by (simp_all add: sample_queue_def eq_simps)
  have g: "mote_generation c1 4 = 1"
    using p by (auto simp: pump_pop_def split_beta sim_control_step_events_def sim_control_resume_def
        sample_control_def sim_control_init_def sim_runtime_init_def)
  have "halted_state (counted (\<lambda>ev c. c) ev c1)"
    using pump_pop_sel [OF p] r by (simp add: counted_def halted_state_def sim_control_note_event_def
        sim_control_step_events_def)
  then have "pump_loop (counted (\<lambda>ev c. c)) 2000 (counted (\<lambda>ev c. c) ev c1) = Some (counted (\<lambda>ev c. c) ev c1)"
    by (subst pump_loop.simps) simp
  moreover have "started ?c = ?c" using r(2) by (simp add: started_def)
  moreover have "sim_runtime_event_is_current c1 ev" using e g by (simp add: sim_runtime_event_is_current_def)
  ultimately show ?thesis
    unfolding run_until_eq using r t p by (subst pump_loop.simps) simp
qed

theorem step_events_exact_witness:
  "\<exists>c' evs. pump_run (counted (\<lambda>ev c. c)) 2000 (sim_control_step_events 1 sample_control) evs c' \<and>
     (int (length evs) = 1 \<or> int (length evs) < 1)"
proof -
  obtain c' where c: "sim_runtime_run_until (counted (\<lambda>ev c. c)) 2000 (sim_control_step_events 1 sample_control) = Some c'"
    using sample_control_step by blast
  have "run_state sample_control \<noteq> SIM_RUN_STOP_REQUESTED"
    by (simp add: sample_control_def sim_control_init_def sim_runtime_init_def)
  with step_events_exact [OF _ this _ c] show ?thesis by (fastforce simp: keeps_run_state_def)
qed

subsection \<open>Deadlines\<close>

text \<open>
  The one-shot horizon of a run: it caps every slice, it survives pause, resume, run-for
  and step commands, and the first call after the pump at or past it pauses the run and
  clears it, so that a later call does not report it again.
\<close>

theorem horizon_fires_once:
  assumes "c1 = sim_control_set_horizon h c" "h < INT64_MAX" "run_state c1 \<noteq> SIM_RUN_STOP_REQUESTED"
    and "c2 \<in> {c1, sim_control_pause c1, sim_control_resume c1, sim_control_run_for dur c1, sim_control_step_events n c1}"
    and "c3 = c2\<lparr>now_ns := t, run_state := SIM_RUN_RUNNING\<rparr>" "h \<le> t"
    and "sim_control_after_pump c3 = (b, c4)" "sim_control_after_pump (c4\<lparr>run_state := SIM_RUN_RUNNING\<rparr>) = (b', c5)"
  shows "sim_control_slice_cap c2 cap \<le> h \<and> b \<and> sim_control_paused c4 \<and> horizon_hit c4 \<and>
         \<not> b' \<and> \<not> horizon_hit c5"
proof -
  have h2: "horizon_ns c2 = h"
    using assms(1,4) by (auto simp: sim_control_set_horizon_def sim_control_pause_def sim_control_resume_def
        sim_control_run_for_def sim_control_step_events_def Let_def)
  then have "sim_control_slice_cap c2 cap \<le> h" by (simp add: sim_control_slice_cap_def Let_def)
  moreover have c4: "b" "c4 = sim_control_pause (c3\<lparr>horizon_hit := False, horizon_ns := INT64_MAX, horizon_hit := True\<rparr>)"
    using assms(2,5,6,7) h2 by (auto simp: sim_control_after_pump_def Let_def)
  moreover have "\<not> b' \<and> \<not> horizon_hit c5"
    using assms(8) c4(2) by (auto simp: sim_control_after_pump_def sim_control_pause_def Let_def)
  ultimately show ?thesis
    using assms(5) by (simp add: sim_control_paused_def sim_control_pause_def)
qed

theorem horizon_fires_once_witness:
  "fst (sim_control_after_pump (sim_control_set_horizon 100 sample_control\<lparr>now_ns := 100, run_state := SIM_RUN_RUNNING\<rparr>))"
proof -
  define c1 where "c1 = sim_control_set_horizon 100 sample_control"
  define c3 where "c3 = c1\<lparr>now_ns := 100, run_state := SIM_RUN_RUNNING\<rparr>"
  have "run_state c1 \<noteq> SIM_RUN_STOP_REQUESTED"
    by (simp add: c1_def sim_control_set_horizon_def sample_control_def sim_control_init_def sim_runtime_init_def)
  moreover obtain b c4 b' c5 where "sim_control_after_pump c3 = (b, c4)"
    "sim_control_after_pump (c4\<lparr>run_state := SIM_RUN_RUNNING\<rparr>) = (b', c5)"
    by (meson surj_pair)
  ultimately have b: "fst (sim_control_after_pump c3)"
    using horizon_fires_once [of c1 100 sample_control c1 _ _ c3 100] c1_def c3_def by auto
  have "c3 = sim_control_set_horizon 100 sample_control\<lparr>now_ns := 100, run_state := SIM_RUN_RUNNING\<rparr>"
    by (simp add: c3_def c1_def sim_control_set_horizon_def)
  then show ?thesis using b by simp
qed

subsection \<open>Console input\<close>

text \<open>
  What the runner's console primitive does, seen through the bytes \<open>rcv i\<close> that slot \<open>i\<close>
  has received: it appends the bytes it reports as consumed and keeps the pending buffers;
  neither a wakeup nor a change of the buffers counts as received bytes.
\<close>

definition honest_inject ::
  "(int \<Rightarrow> 'a sim_control_scheme \<Rightarrow> u8 list) \<Rightarrow>
     (int \<Rightarrow> u8 list \<Rightarrow> 'a sim_control_scheme \<Rightarrow> int \<times> 'a sim_control_scheme) \<Rightarrow> bool" where
  "honest_inject rcv inject \<longleftrightarrow>
     (\<forall>i buf c n c'. inject i buf c = (n, c') \<longrightarrow> n \<le> int (length buf) \<and> pend_bytes c' = pend_bytes c \<and>
        rcv i c' = rcv i c @ take (nat n) buf) \<and>
     (\<forall>i c p. rcv i (c\<lparr>pend_bytes := p\<rparr>) = rcv i c) \<and>
     (\<forall>i j t c. rcv i (wake_slot j t c) = rcv i c)"

lemma wake_slot_pend [simp]: "pend_bytes (wake_slot i t c) = pend_bytes c"
  by (simp add: wake_slot_def sim_schedule_mote_wakeup_if_earlier_def clamp_to_now_def Let_def)

text \<open>
  Console input with retry is a lossless FIFO: what a slot has received followed by what
  waits for it grows by exactly the bytes a send reports as accepted, whatever part of them
  the mote takes at once; the waiting buffer never exceeds 512 bytes; and flushing moves bytes
  from waiting to received without changing the stream.
\<close>

theorem console_fifo:
  assumes "honest_inject rcv inject" "ops_inject_serial ops = Some inject" "SIM_CONTROL_RETRY flags"
    and "length (pend_bytes c i) \<le> 512" "send_to_slot ops i buf flags c = (n, c1)"
    and "flush_slot ops inject i c1 = c2"
  shows "rcv i c1 @ pend_bytes c1 i = rcv i c @ pend_bytes c i @ take (nat n) buf \<and>
         0 \<le> n \<and> n \<le> int (length buf) \<and> length (pend_bytes c1 i) \<le> 512 \<and>
         rcv i c2 @ pend_bytes c2 i = rcv i c1 @ pend_bytes c1 i"
proof -
  have inj: "m \<le> int (length bs) \<and> pend_bytes d' = pend_bytes d \<and> rcv i d' = rcv i d @ take (nat m) bs"
    if "inject i bs d = (m, d')" for bs d m d'
    using assms(1) that by (auto simp: honest_inject_def)
  have frame: "rcv i (d\<lparr>pend_bytes := p\<rparr>) = rcv i d" "rcv i (wake_slot j t d) = rcv i d" for d p j t
    using assms(1) by (auto simp: honest_inject_def)
  have flush: "rcv i c2 @ pend_bytes c2 i = rcv i c1 @ pend_bytes c1 i"
  proof -
    obtain m d where m: "inject i (pend_bytes c1 i) c1 = (m, d)" by fastforce
    from inj [OF m] m assms(6) show ?thesis by (auto simp: flush_slot_def frame Let_def)
  qed
  show ?thesis
  proof (cases "buf = []")
    case True
    then show ?thesis using assms flush by (simp add: send_to_slot_def)
  next
    case False
    obtain k d where o: "offer_slot ops inject i buf flags c = (k, d)" by fastforce
    have off: "0 \<le> k" "k \<le> int (length buf)" "pend_bytes d = pend_bytes c"
      "rcv i d = rcv i c @ take (nat k) buf" "0 < k \<Longrightarrow> pend_bytes c i = []"
      using o inj [of buf c] by (auto simp: offer_slot_def assms(3) split: if_splits prod.splits)
    define m where "m = (if k < int (length buf) then min (int (length buf) - k) (512 - int (length (pend_bytes c i))) else 0)"
    have m: "0 \<le> m" "k + m \<le> int (length buf)" "m \<le> 512 - int (length (pend_bytes c i))"
      using assms(4) off(2) by (auto simp: m_def)
    have n: "n = k + m" and p: "pend_bytes c1 i = pend_bytes c i @ take (nat m) (drop (nat k) buf)" and r: "rcv i c1 = rcv i d"
      using assms(5) o off(2,3) False
      by (auto simp: send_to_slot_def assms(2,3) queue_rest_def Let_def m_def frame min_def split: if_splits)
    have t: "take (nat k) buf @ take (nat m) (drop (nat k) buf) = take (nat (k + m)) buf"
      using off(1) m(1) by (simp add: take_add nat_add_distrib)
    show ?thesis
    proof (cases "k = 0")
      case True
      then show ?thesis using flush n p r off(4) m by simp
    next
      case False
      then have "pend_bytes c i = []" using off(1,5) by simp
      then show ?thesis using flush n p r off(1,4) m t by simp
    qed
  qed
qed

text \<open>A console that takes one byte per call; the received bytes are kept in a record extension.\<close>

record logged_control = sim_control + taken :: "int \<Rightarrow> u8 list"

definition one_byte :: "int \<Rightarrow> u8 list \<Rightarrow> logged_control \<Rightarrow> int \<times> logged_control" where
  "one_byte i buf c = (if buf = [] then (0, c) else (1, c\<lparr>taken := (taken c)(i := taken c i @ take 1 buf)\<rparr>))"

definition one_byte_ops :: "logged_control sim_control_ops" where
  "one_byte_ops = \<lparr>ops_node_count = None, ops_describe = None, ops_inject_serial = Some one_byte,
     ops_set_position = None, ops_reboot = None, ops_start = None, ops_remove = None, ops_add = None,
     ops_firmware_for_type = None\<rparr>"

definition quiet_console :: logged_control where
  "quiet_console = sim_control_init
     (sim_runtime_init \<lparr>speed_ratio = 0, speed_epoch = 0, pause_at_ns = 0, horizon_ns = 0, horizon_hit = False,
        step_events_left = 0, step_armed = False, pend_bytes = (\<lambda>_. []), taken = (\<lambda>_. [])\<rparr>)"

theorem console_fifo_witness:
  "\<exists>n c1. send_to_slot one_byte_ops 2 [1, 2, 3] 2 quiet_console = (n, c1) \<and>
     taken c1 2 @ pend_bytes c1 2 = take (nat n) [1, 2, 3]"
proof -
  obtain n c1 where s: "send_to_slot one_byte_ops 2 [1, 2, 3] 2 quiet_console = (n, c1)" by fastforce
  have h: "honest_inject (\<lambda>i c. taken c i) one_byte"
    by (auto simp: honest_inject_def one_byte_def wake_slot_def sim_schedule_mote_wakeup_if_earlier_def
        clamp_to_now_def Let_def Suc_le_eq split: if_splits)
  have "taken quiet_console 2 = []" "pend_bytes quiet_console 2 = []"
    by (simp_all add: quiet_console_def sim_control_init_def sim_runtime_init_def)
  then show ?thesis
    using console_fifo [OF h _ _ _ s refl] s by (auto simp: one_byte_ops_def SIM_CONTROL_RETRY_def)
qed

end
