(* ===== verification/Radio_Medium.thy ===== *)
theory Radio_Medium
  imports Cooja_Prelude
begin

text \<open>
  The radio medium, \<open>src/common/radio_medium.c\<close>: per-radio channel and band state, the frame
  trackers that find frame boundaries in a sender's byte stream, the per-frame reception
  decisions, the unit-disk-graph policy (ranges, reception probability, signal strength,
  neighbour lists) and the links cut by hand.

  A C \<open>double\<close> is a real number: rounding is not modelled. Arrays indexed by node and radio
  slot are functions. The policy vtable of a plugin medium is a parameter \<open>plug\<close>. The trace
  hooks are not modelled.
\<close>

subsection \<open>State\<close>

abbreviation RADIO_MEDIUM_MAX_NODES :: int where "RADIO_MEDIUM_MAX_NODES \<equiv> 128"
abbreviation RADIO_MEDIUM_MAX_RADIOS_PER_NODE :: int where "RADIO_MEDIUM_MAX_RADIOS_PER_NODE \<equiv> 2"
abbreviation RADIO_MEDIUM_SUBGHZ_CHANNEL_BASE :: int where "RADIO_MEDIUM_SUBGHZ_CHANNEL_BASE \<equiv> 100"
abbreviation SFD_BYTE :: u8 where "SFD_BYTE \<equiv> 0x7A"
abbreviation MIN_PREAMBLE :: int where "MIN_PREAMBLE \<equiv> 4"
abbreviation SUBGHZ_SYNC_WORD :: u32 where "SUBGHZ_SYNC_WORD \<equiv> 0x6E4E904E"

datatype radio_medium_type = RADIO_MEDIUM_NONE | RADIO_MEDIUM_UDGM
datatype radio_frame_profile = RADIO_FRAME_PROFILE_IEEE802154 | RADIO_FRAME_PROFILE_IEEE802154G
datatype radio_spectrum = RADIO_SPECTRUM_NONE | RADIO_SPECTRUM_2_4GHZ_15_4
  | RADIO_SPECTRUM_868MHZ_15_4G | RADIO_SPECTRUM_915MHZ_15_4G
datatype frame_track_state = FRAME_IDLE | FRAME_PREAMBLE | FRAME_SFD | FRAME_PHR_LO | FRAME_DATA
datatype sim_medium_ops = csim_none_ops | csim_udgm_ops | plugin_ops nat

record udgm_config =
  tx_range :: real
  interference_range :: real
  success_ratio_tx :: real
  success_ratio_rx :: real

record radio =
  spectrum :: radio_spectrum
  channel :: int
  rx_enabled :: bool
  power_indicator :: int
  power_max :: int

record radio_node_state =
  pos_x :: real
  pos_y :: real
  radios :: "int \<Rightarrow> radio"
  radio_count :: int
  alias_channel :: int

record frame_tracker =
  ft_state :: frame_track_state
  zero_count :: int
  sync_match :: u32
  ft_length :: int
  byte_count :: int
  frame_id :: u32
  phr_hi :: int
  profile :: radio_frame_profile
  frame_start_channel :: int

record rx_decision =
  dec_frame_id :: u32
  decided :: bool
  drop_frame :: bool
  channel_decided :: bool
  channel_match :: bool

record radio_medium =
  rm_type :: radio_medium_type
  udgm :: udgm_config
  node_count :: int
  nodes :: "int \<Rightarrow> radio_node_state"
  frame_track :: "int \<Rightarrow> int \<Rightarrow> frame_tracker"
  rx_decisions :: "int \<Rightarrow> int \<Rightarrow> rx_decision"
  neighbors :: "int \<Rightarrow> int list"
  interference_neighbors :: "int \<Rightarrow> int list"
  next_frame_id :: u32
  rng_state :: u32
  medium_ops :: sim_medium_ops
  link_blocked :: "(int \<Rightarrow> int \<Rightarrow> u64) option"

record medium_policy =
  plug_reception_prob :: "radio_medium \<Rightarrow> int \<Rightarrow> int \<Rightarrow> real"
  plug_get_rssi :: "radio_medium \<Rightarrow> int \<Rightarrow> int \<Rightarrow> int"
  plug_compute_neighbors :: "(radio_medium \<Rightarrow> radio_medium) option"

subsection \<open>Helpers\<close>

definition valid_node :: "int \<Rightarrow> bool" where
  "valid_node node \<longleftrightarrow> node \<ge> 0 \<and> node < RADIO_MEDIUM_MAX_NODES"

definition valid_radio :: "int \<Rightarrow> bool" where
  "valid_radio idx \<longleftrightarrow> idx \<ge> 0 \<and> idx < RADIO_MEDIUM_MAX_RADIOS_PER_NODE"

definition profile_for_spectrum :: "radio_spectrum \<Rightarrow> radio_frame_profile" where
  "profile_for_spectrum s =
     (case s of RADIO_SPECTRUM_868MHZ_15_4G \<Rightarrow> RADIO_FRAME_PROFILE_IEEE802154G
              | RADIO_SPECTRUM_915MHZ_15_4G \<Rightarrow> RADIO_FRAME_PROFILE_IEEE802154G
              | _ \<Rightarrow> RADIO_FRAME_PROFILE_IEEE802154)"

definition legacy_spectrum_for_channel :: "int \<Rightarrow> radio_spectrum" where
  "legacy_spectrum_for_channel ch =
     (if ch \<ge> RADIO_MEDIUM_SUBGHZ_CHANNEL_BASE then RADIO_SPECTRUM_868MHZ_15_4G
      else RADIO_SPECTRUM_2_4GHZ_15_4)"

definition reset_tracker :: "radio_frame_profile \<Rightarrow> frame_tracker \<Rightarrow> frame_tracker" where
  "reset_tracker prof ft =
     ft\<lparr>profile := prof, ft_state := FRAME_IDLE, zero_count := 0, sync_match := 0, frame_id := 0,
        frame_start_channel := -1\<rparr>"

definition upd_node :: "int \<Rightarrow> (radio_node_state \<Rightarrow> radio_node_state) \<Rightarrow> radio_medium \<Rightarrow> radio_medium" where
  "upd_node n f rm = rm\<lparr>nodes := (nodes rm)(n := f (nodes rm n))\<rparr>"

definition upd_radio :: "int \<Rightarrow> int \<Rightarrow> (radio \<Rightarrow> radio) \<Rightarrow> radio_medium \<Rightarrow> radio_medium" where
  "upd_radio n r f rm = upd_node n (\<lambda>st. st\<lparr>radios := (radios st)(r := f (radios st r))\<rparr>) rm"

definition set_tracker :: "int \<Rightarrow> int \<Rightarrow> frame_tracker \<Rightarrow> radio_medium \<Rightarrow> radio_medium" where
  "set_tracker n r ft rm = rm\<lparr>frame_track := (frame_track rm)(n := (frame_track rm n)(r := ft))\<rparr>"

definition set_decision :: "int \<Rightarrow> int \<Rightarrow> rx_decision \<Rightarrow> radio_medium \<Rightarrow> radio_medium" where
  "set_decision s r d rm = rm\<lparr>rx_decisions := (rx_decisions rm)(s := (rx_decisions rm s)(r := d))\<rparr>"

subsection \<open>Random numbers and power\<close>

definition xorshift32 :: "u32 \<Rightarrow> u32" where
  "xorshift32 x0 =
     (let x1 = x0 XOR push_bit 13 x0; x2 = x1 XOR drop_bit 17 x1 in x2 XOR push_bit 5 x2)"

definition rng_next :: "radio_medium \<Rightarrow> real \<times> radio_medium" where
  "rng_next rm =
     (let x = xorshift32 (rng_state rm)
      in (real (unat (x AND 0x7FFFFFFF)) / 0x7FFFFFFF, rm\<lparr>rng_state := x\<rparr>))"

definition sender_power_ratio :: "radio_medium \<Rightarrow> int \<Rightarrow> int \<Rightarrow> real" where
  "sender_power_ratio rm node rad =
     (let r = radios (nodes rm node) rad in
      if power_max r \<le> 0 then 1
      else
        let ratio = real_of_int (power_indicator r) / real_of_int (power_max r);
            ratio1 = (if ratio < 0 then 0 else ratio)
        in if ratio1 > 1 then 1 else ratio1)"

definition dist_sq :: "radio_medium \<Rightarrow> int \<Rightarrow> int \<Rightarrow> real" where
  "dist_sq rm a b =
     (let dx = pos_x (nodes rm a) - pos_x (nodes rm b); dy = pos_y (nodes rm a) - pos_y (nodes rm b)
      in dx * dx + dy * dy)"

definition udgm_reception_prob :: "radio_medium \<Rightarrow> int \<Rightarrow> int \<Rightarrow> real" where
  "udgm_reception_prob rm sender receiver =
     (let range = tx_range (udgm rm) * sender_power_ratio rm sender 0;
          range_sq = range * range;
          d = dist_sq rm sender receiver in
      if range_sq \<le> 0 then 0
      else if d > range_sq then 0
      else
        let ratio = d / range_sq;
            prob = (1 - ratio * (1 - success_ratio_rx (udgm rm))) * success_ratio_tx (udgm rm);
            prob1 = (if prob < 0 then 0 else prob)
        in if prob1 > 1 then 1 else prob1)"

subsection \<open>Frame tracking\<close>

text \<open>\<open>start_new_frame\<close> on the tracker \<open>ft\<close> of the sender's radio.\<close>

definition start_new_frame ::
  "int \<Rightarrow> int \<Rightarrow> frame_tracker \<Rightarrow> radio_medium \<Rightarrow> frame_tracker \<times> radio_medium" where
  "start_new_frame sender sender_radio ft rm =
     (let fid = next_frame_id rm + 1;
          ft1 = ft\<lparr>frame_id := fid,
                   frame_start_channel := channel (radios (nodes rm sender) sender_radio)\<rparr>;
          renew = (\<lambda>d. d\<lparr>decided := False, dec_frame_id := fid, channel_decided := False,
                         channel_match := False\<rparr>)
      in (ft1,
          rm\<lparr>next_frame_id := fid,
             rx_decisions := (rx_decisions rm)
               (sender := (\<lambda>r. if 0 \<le> r \<and> r < node_count rm then renew (rx_decisions rm sender r)
                              else rx_decisions rm sender r))\<rparr>))"

definition track_byte_802154 ::
  "int \<Rightarrow> int \<Rightarrow> u8 \<Rightarrow> frame_tracker \<Rightarrow> radio_medium \<Rightarrow> frame_tracker \<times> radio_medium" where
  "track_byte_802154 sender sender_radio byte ft rm =
     (case ft_state ft of
        FRAME_IDLE \<Rightarrow>
          (if byte = 0 then ft\<lparr>zero_count := 1, ft_state := FRAME_PREAMBLE, frame_id := 0\<rparr> else ft, rm)
      | FRAME_PREAMBLE \<Rightarrow>
          if byte = 0 then (ft\<lparr>zero_count := zero_count ft + 1\<rparr>, rm)
          else if byte = SFD_BYTE \<and> zero_count ft \<ge> MIN_PREAMBLE
          then start_new_frame sender sender_radio (ft\<lparr>ft_state := FRAME_SFD\<rparr>) rm
          else (ft\<lparr>ft_state := FRAME_IDLE, zero_count := 0\<rparr>, rm)
      | FRAME_SFD \<Rightarrow>
          (ft\<lparr>ft_length := uint byte, byte_count := 0,
              ft_state := (if uint byte > 0 then FRAME_DATA else FRAME_IDLE)\<rparr>, rm)
      | FRAME_DATA \<Rightarrow>
          (let ft1 = ft\<lparr>byte_count := byte_count ft + 1\<rparr>
           in (if byte_count ft1 \<ge> ft_length ft1 then ft1\<lparr>ft_state := FRAME_IDLE, zero_count := 0\<rparr>
               else ft1, rm))
      | FRAME_PHR_LO \<Rightarrow> (ft\<lparr>ft_state := FRAME_IDLE\<rparr>, rm))"

definition sync_byte_802154g ::
  "int \<Rightarrow> int \<Rightarrow> u8 \<Rightarrow> frame_tracker \<Rightarrow> radio_medium \<Rightarrow> frame_tracker \<times> radio_medium" where
  "sync_byte_802154g sender sender_radio byte ft rm =
     (let ft1 = ft\<lparr>sync_match := push_bit 8 (sync_match ft) OR ucast byte\<rparr> in
      if sync_match ft1 = SUBGHZ_SYNC_WORD
      then start_new_frame sender sender_radio (ft1\<lparr>ft_state := FRAME_PHR_LO\<rparr>) rm
      else (ft1\<lparr>ft_state := FRAME_PREAMBLE\<rparr>, rm))"

definition track_byte_802154g ::
  "int \<Rightarrow> int \<Rightarrow> u8 \<Rightarrow> frame_tracker \<Rightarrow> radio_medium \<Rightarrow> frame_tracker \<times> radio_medium" where
  "track_byte_802154g sender sender_radio byte ft rm =
     (case ft_state ft of
        FRAME_IDLE \<Rightarrow> sync_byte_802154g sender sender_radio byte ft rm
      | FRAME_PREAMBLE \<Rightarrow> sync_byte_802154g sender sender_radio byte ft rm
      | FRAME_PHR_LO \<Rightarrow> (ft\<lparr>phr_hi := uint (byte AND 7), ft_state := FRAME_SFD\<rparr>, rm)
      | FRAME_SFD \<Rightarrow>
          (let len = phr_hi ft * 256 + uint byte
           in (ft\<lparr>ft_length := len, byte_count := 0,
                  ft_state := (if len > 0 then FRAME_DATA else FRAME_IDLE)\<rparr>, rm))
      | FRAME_DATA \<Rightarrow>
          (let ft1 = ft\<lparr>byte_count := byte_count ft + 1\<rparr>
           in (if byte_count ft1 \<ge> ft_length ft1
               then ft1\<lparr>ft_state := FRAME_IDLE, zero_count := 0, sync_match := 0\<rparr> else ft1, rm)))"

definition track_byte :: "int \<Rightarrow> int \<Rightarrow> u8 \<Rightarrow> radio_medium \<Rightarrow> radio_medium" where
  "track_byte sender sender_radio byte rm =
     (let ft = frame_track rm sender sender_radio;
          (ft1, rm1) = (if profile ft = RADIO_FRAME_PROFILE_IEEE802154G
                        then track_byte_802154g sender sender_radio byte ft rm
                        else track_byte_802154 sender sender_radio byte ft rm)
      in set_tracker sender sender_radio ft1 rm1)"

subsection \<open>Initialisation and configuration\<close>

definition zero_radio :: radio where
  "zero_radio = \<lparr>spectrum = RADIO_SPECTRUM_NONE, channel = -1, rx_enabled = True,
     power_indicator = 0, power_max = 0\<rparr>"

definition zero_tracker :: frame_tracker where
  "zero_tracker = \<lparr>ft_state = FRAME_IDLE, zero_count = 0, sync_match = 0, ft_length = 0,
     byte_count = 0, frame_id = 0, phr_hi = 0, profile = RADIO_FRAME_PROFILE_IEEE802154,
     frame_start_channel = 0\<rparr>"

definition zero_decision :: rx_decision where
  "zero_decision = \<lparr>dec_frame_id = 0, decided = False, drop_frame = False, channel_decided = False,
     channel_match = False\<rparr>"

definition clamp_node_count :: "int \<Rightarrow> int" where
  "clamp_node_count n =
     (let n1 = (if n < 0 then 0 else n) in if n1 > RADIO_MEDIUM_MAX_NODES then RADIO_MEDIUM_MAX_NODES else n1)"

definition radio_medium_init :: "int \<Rightarrow> radio_medium" where
  "radio_medium_init n =
     \<lparr>rm_type = RADIO_MEDIUM_NONE,
      udgm = \<lparr>tx_range = 0, interference_range = 0, success_ratio_tx = 0, success_ratio_rx = 0\<rparr>,
      node_count = clamp_node_count n,
      nodes = (\<lambda>_. \<lparr>pos_x = 0, pos_y = 0, radios = (\<lambda>_. zero_radio), radio_count = 0, alias_channel = -1\<rparr>),
      frame_track = (\<lambda>_ _. zero_tracker), rx_decisions = (\<lambda>_ _. zero_decision),
      neighbors = (\<lambda>_. []), interference_neighbors = (\<lambda>_. []), next_frame_id = 0,
      rng_state = 0x12345678, medium_ops = csim_none_ops, link_blocked = None\<rparr>"

definition radio_medium_configure_udgm ::
  "real \<Rightarrow> real \<Rightarrow> real \<Rightarrow> real \<Rightarrow> radio_medium \<Rightarrow> radio_medium" where
  "radio_medium_configure_udgm txr ir stx srx rm =
     rm\<lparr>rm_type := RADIO_MEDIUM_UDGM, medium_ops := csim_udgm_ops,
        udgm := \<lparr>tx_range = txr, interference_range = ir, success_ratio_tx = stx, success_ratio_rx = srx\<rparr>\<rparr>"

definition radio_medium_set_position :: "int \<Rightarrow> real \<Rightarrow> real \<Rightarrow> radio_medium \<Rightarrow> radio_medium" where
  "radio_medium_set_position node px py rm =
     (if valid_node node then upd_node node (\<lambda>st. st\<lparr>pos_x := px, pos_y := py\<rparr>) rm else rm)"

definition radio_medium_set_seed :: "u32 \<Rightarrow> radio_medium \<Rightarrow> radio_medium" where
  "radio_medium_set_seed seed rm = rm\<lparr>rng_state := (if seed \<noteq> 0 then seed else 0x12345678)\<rparr>"

subsection \<open>Per-radio state\<close>

definition radio_medium_register_radio ::
  "int \<Rightarrow> int \<Rightarrow> radio_spectrum \<Rightarrow> radio_medium \<Rightarrow> radio_medium" where
  "radio_medium_register_radio node idx sp rm =
     (if \<not> valid_node node \<or> \<not> valid_radio idx then rm
      else
        let prev = spectrum (radios (nodes rm node) idx);
            rm1 = upd_radio node idx (\<lambda>r. r\<lparr>spectrum := sp\<rparr>) rm;
            rm2 = (if idx + 1 > radio_count (nodes rm1 node)
                   then upd_node node (\<lambda>st. st\<lparr>radio_count := idx + 1\<rparr>) rm1 else rm1)
        in if prev \<noteq> sp
           then set_tracker node idx (reset_tracker (profile_for_spectrum sp) (frame_track rm2 node idx)) rm2
           else rm2)"

definition radio_medium_set_radio_channel :: "int \<Rightarrow> int \<Rightarrow> int \<Rightarrow> radio_medium \<Rightarrow> radio_medium" where
  "radio_medium_set_radio_channel node idx ch rm =
     (if \<not> valid_node node \<or> \<not> valid_radio idx then rm
      else
        let rm1 = upd_radio node idx (\<lambda>r. r\<lparr>channel := ch\<rparr>) rm
        in if idx = 0 then upd_node node (\<lambda>st. st\<lparr>alias_channel := ch\<rparr>) rm1 else rm1)"

definition radio_medium_set_radio_rx_enabled :: "int \<Rightarrow> int \<Rightarrow> bool \<Rightarrow> radio_medium \<Rightarrow> radio_medium" where
  "radio_medium_set_radio_rx_enabled node idx on rm =
     (if \<not> valid_node node \<or> \<not> valid_radio idx then rm
      else upd_radio node idx (\<lambda>r. r\<lparr>rx_enabled := on\<rparr>) rm)"

definition radio_medium_set_radio_power :: "int \<Rightarrow> int \<Rightarrow> int \<Rightarrow> int \<Rightarrow> radio_medium \<Rightarrow> radio_medium" where
  "radio_medium_set_radio_power node idx indicator mx rm =
     (if \<not> valid_node node \<or> \<not> valid_radio idx then rm
      else upd_radio node idx
             (\<lambda>r. r\<lparr>power_indicator := indicator, power_max := (if mx > 0 then mx else 0)\<rparr>) rm)"

definition radio_medium_set_channel :: "int \<Rightarrow> int \<Rightarrow> radio_medium \<Rightarrow> radio_medium" where
  "radio_medium_set_channel node ch rm =
     (if \<not> valid_node node then rm
      else
        let want = legacy_spectrum_for_channel ch;
            rm1 = (if ch \<ge> 0
                   then (if spectrum (radios (nodes rm node) 0) \<noteq> want
                         then radio_medium_register_radio node 0 want rm
                         else if radio_count (nodes rm node) = 0
                         then upd_node node (\<lambda>st. st\<lparr>radio_count := 1\<rparr>) rm
                         else rm)
                   else rm)
        in radio_medium_set_radio_channel node 0 ch rm1)"

subsection \<open>Neighbours\<close>

definition udgm_node_neighbors :: "radio_medium \<Rightarrow> int \<Rightarrow> int list \<times> int list" where
  "udgm_node_neighbors rm i =
     (let r_i = sender_power_ratio rm i 0;
          tr = tx_range (udgm rm) * r_i;
          ir = interference_range (udgm rm) * r_i;
          js = filter (\<lambda>j. j \<noteq> i) (map int [0..<nat (node_count rm)])
      in (filter (\<lambda>j. dist_sq rm i j \<le> tr * tr) js,
          filter (\<lambda>j. \<not> dist_sq rm i j \<le> tr * tr \<and> dist_sq rm i j \<le> ir * ir) js))"

definition udgm_compute_neighbors :: "radio_medium \<Rightarrow> radio_medium" where
  "udgm_compute_neighbors rm =
     rm\<lparr>neighbors := (\<lambda>i. if 0 \<le> i \<and> i < node_count rm then fst (udgm_node_neighbors rm i) else neighbors rm i),
        interference_neighbors :=
          (\<lambda>i. if 0 \<le> i \<and> i < node_count rm then snd (udgm_node_neighbors rm i)
               else interference_neighbors rm i)\<rparr>"

definition radio_medium_compute_neighbors :: "(nat \<Rightarrow> medium_policy) \<Rightarrow> radio_medium \<Rightarrow> radio_medium" where
  "radio_medium_compute_neighbors plug rm =
     (case medium_ops rm of
        csim_none_ops \<Rightarrow> udgm_compute_neighbors rm
      | csim_udgm_ops \<Rightarrow> udgm_compute_neighbors rm
      | plugin_ops k \<Rightarrow> (case plug_compute_neighbors (plug k) of None \<Rightarrow> rm | Some f \<Rightarrow> f rm))"

subsection \<open>Matching radios\<close>

definition spectrum_match :: "radio \<Rightarrow> int \<Rightarrow> radio \<Rightarrow> int \<Rightarrow> bool" where
  "spectrum_match s sender_radio r receiver_radio =
     (let s_reg = (spectrum s \<noteq> RADIO_SPECTRUM_NONE); r_reg = (spectrum r \<noteq> RADIO_SPECTRUM_NONE) in
      if s_reg \<and> r_reg then spectrum s = spectrum r
      else if s_reg \<noteq> r_reg then \<not> (sender_radio \<noteq> 0 \<or> receiver_radio \<noteq> 0)
      else
        let sc = channel s; rc = channel r in
        \<not> (sc \<ge> 0 \<and> rc \<ge> 0 \<and>
           (sc \<ge> RADIO_MEDIUM_SUBGHZ_CHANNEL_BASE) \<noteq> (rc \<ge> RADIO_MEDIUM_SUBGHZ_CHANNEL_BASE)))"

definition channel_ok :: "int \<Rightarrow> int \<Rightarrow> bool" where
  "channel_ok sc rc \<longleftrightarrow> sc < 0 \<or> rc < 0 \<or> sc = rc"

definition radio_pair_match :: "int \<Rightarrow> int \<Rightarrow> int \<Rightarrow> int \<Rightarrow> radio_medium \<Rightarrow> bool \<times> radio_medium" where
  "radio_pair_match sender sender_radio receiver receiver_radio rm =
     (let s = radios (nodes rm sender) sender_radio;
          r = radios (nodes rm receiver) receiver_radio;
          ft = frame_track rm sender sender_radio in
      if \<not> spectrum_match s sender_radio r receiver_radio then (False, rm)
      else
        let (chan, rm1) =
              (if frame_id ft > 0 then
                 (let dec = rx_decisions rm sender receiver in
                  if channel_decided dec \<and> dec_frame_id dec = frame_id ft then (channel_match dec, rm)
                  else
                    (let okc = channel_ok (frame_start_channel ft) (channel r)
                     in (okc, set_decision sender receiver
                                (dec\<lparr>dec_frame_id := frame_id ft, channel_match := okc,
                                     channel_decided := True\<rparr>) rm)))
               else (channel_ok (channel s) (channel r), rm))
        in if \<not> chan then (False, rm1) else if \<not> rx_enabled r then (False, rm1) else (True, rm1))"

subsection \<open>Links cut by hand\<close>

definition radio_medium_destroy :: "radio_medium \<Rightarrow> radio_medium" where
  "radio_medium_destroy rm = rm\<lparr>link_blocked := None\<rparr>"

text \<open>\<open>alloc_ok\<close> is whether \<open>calloc\<close> succeeds.\<close>

definition link_table_update :: "int \<Rightarrow> int \<Rightarrow> bool \<Rightarrow> (int \<Rightarrow> int \<Rightarrow> u64) \<Rightarrow> (int \<Rightarrow> int \<Rightarrow> u64)" where
  "link_table_update sender receiver blocked tab =
     (let b = push_bit (nat (receiver mod 64)) 1;
          w = tab sender (receiver div 64)
      in tab(sender := (tab sender)(receiver div 64 := if blocked then w OR b else w AND NOT b)))"

definition link_table_any :: "(int \<Rightarrow> int \<Rightarrow> u64) \<Rightarrow> bool" where
  "link_table_any tab \<longleftrightarrow> (\<exists>i \<in> set (map int [0..<128]). tab i 0 \<noteq> 0 \<or> tab i 1 \<noteq> 0)"

definition radio_medium_set_link_blocked :: "bool \<Rightarrow> int \<Rightarrow> int \<Rightarrow> bool \<Rightarrow> radio_medium \<Rightarrow> radio_medium" where
  "radio_medium_set_link_blocked alloc_ok sender receiver blocked rm =
     (if sender < 0 \<or> sender \<ge> RADIO_MEDIUM_MAX_NODES \<or> receiver < 0 \<or> receiver \<ge> RADIO_MEDIUM_MAX_NODES then rm
      else
        let tab0 = (case link_blocked rm of
                      Some tab \<Rightarrow> Some tab
                    | None \<Rightarrow> if \<not> blocked \<or> \<not> alloc_ok then None else Some (\<lambda>_ _. 0))
        in case tab0 of
             None \<Rightarrow> rm
           | Some tab \<Rightarrow>
               let tab1 = link_table_update sender receiver blocked tab;
                   rm1 = rm\<lparr>link_blocked := Some tab1\<rparr>
               in if \<not> link_table_any tab1 then radio_medium_destroy rm1 else rm1)"

definition radio_medium_link_blocked :: "radio_medium \<Rightarrow> int \<Rightarrow> int \<Rightarrow> bool" where
  "radio_medium_link_blocked rm sender receiver =
     (case link_blocked rm of
        None \<Rightarrow> False
      | Some tab \<Rightarrow>
          if sender < 0 \<or> sender \<ge> RADIO_MEDIUM_MAX_NODES \<or> receiver < 0 \<or> receiver \<ge> RADIO_MEDIUM_MAX_NODES
          then False
          else drop_bit (nat (receiver mod 64)) (tab sender (receiver div 64)) AND 1 \<noteq> 0)"

subsection \<open>Filters and signal strength\<close>

definition medium_reception_prob :: "(nat \<Rightarrow> medium_policy) \<Rightarrow> radio_medium \<Rightarrow> int \<Rightarrow> int \<Rightarrow> real" where
  "medium_reception_prob plug rm sender receiver =
     (case medium_ops rm of
        plugin_ops k \<Rightarrow> plug_reception_prob (plug k) rm sender receiver
      | _ \<Rightarrow> udgm_reception_prob rm sender receiver)"

definition radio_medium_filter_frame_radio ::
  "(nat \<Rightarrow> medium_policy) \<Rightarrow> int \<Rightarrow> int \<Rightarrow> int \<Rightarrow> int \<Rightarrow> radio_medium \<Rightarrow> bool \<times> radio_medium" where
  "radio_medium_filter_frame_radio plug sender sender_radio receiver receiver_radio rm =
     (if radio_medium_link_blocked rm sender receiver then (False, rm)
      else if rm_type rm = RADIO_MEDIUM_NONE then (True, rm)
      else if \<not> valid_node sender \<or> \<not> valid_node receiver then (True, rm)
      else if \<not> valid_radio sender_radio \<or> \<not> valid_radio receiver_radio then (True, rm)
      else
        let (pm, rm1) = radio_pair_match sender sender_radio receiver receiver_radio rm in
        if \<not> pm then (False, rm1)
        else
          let prob = medium_reception_prob plug rm1 sender receiver in
          if prob \<le> 0 then (False, rm1)
          else if prob \<ge> 1 then (True, rm1)
          else let (roll, rm2) = rng_next rm1 in (roll < prob, rm2))"

definition radio_medium_filter_frame ::
  "(nat \<Rightarrow> medium_policy) \<Rightarrow> int \<Rightarrow> int \<Rightarrow> radio_medium \<Rightarrow> bool \<times> radio_medium" where
  "radio_medium_filter_frame plug sender receiver rm =
     radio_medium_filter_frame_radio plug sender 0 receiver 0 rm"

definition radio_medium_in_reach :: "radio_medium \<Rightarrow> int \<Rightarrow> int \<Rightarrow> int \<Rightarrow> bool" where
  "radio_medium_in_reach rm sender sender_radio receiver =
     (if rm_type rm = RADIO_MEDIUM_NONE then True
      else if \<not> valid_node sender \<or> \<not> valid_node receiver then True
      else if \<not> valid_radio sender_radio then True
      else
        let r0 = interference_range (udgm rm);
            r1 = (if tx_range (udgm rm) > r0 then tx_range (udgm rm) else r0);
            range = r1 * sender_power_ratio rm sender sender_radio
        in dist_sq rm sender receiver \<le> range * range)"

definition radio_medium_shares_channel :: "radio_medium \<Rightarrow> int \<Rightarrow> int \<Rightarrow> int \<Rightarrow> int \<Rightarrow> bool" where
  "radio_medium_shares_channel rm sender sender_radio receiver receiver_radio =
     (if radio_medium_link_blocked rm sender receiver then False
      else if rm_type rm = RADIO_MEDIUM_NONE then True
      else if \<not> valid_node sender \<or> \<not> valid_node receiver then True
      else if \<not> valid_radio sender_radio \<or> \<not> valid_radio receiver_radio then True
      else
        let s = radios (nodes rm sender) sender_radio; r = radios (nodes rm receiver) receiver_radio in
        spectrum_match s sender_radio r receiver_radio \<and> channel_ok (channel s) (channel r))"

definition trunc_to_int :: "real \<Rightarrow> int" where
  "trunc_to_int r = (if r < 0 then \<lceil>r\<rceil> else \<lfloor>r\<rfloor>)"

definition udgm_get_rssi :: "radio_medium \<Rightarrow> int \<Rightarrow> int \<Rightarrow> int" where
  "udgm_get_rssi rm sender receiver =
     (let dist = sqrt (dist_sq rm sender receiver);
          range = tx_range (udgm rm) * sender_power_ratio rm sender 0 in
      if range \<le> 0 then -90
      else
        let ratio = dist / range;
            ratio1 = (if ratio > 1 then 1 else ratio);
            v = -10 - 80 * ratio1;
            v1 = (if v < -128 then -128 else v);
            v2 = (if v1 > 0 then 0 else v1)
        in trunc_to_int v2)"

definition radio_medium_get_rssi :: "(nat \<Rightarrow> medium_policy) \<Rightarrow> radio_medium \<Rightarrow> int \<Rightarrow> int \<Rightarrow> int" where
  "radio_medium_get_rssi plug rm sender receiver =
     (if rm_type rm = RADIO_MEDIUM_NONE then -50
      else case medium_ops rm of
        plugin_ops k \<Rightarrow> plug_get_rssi (plug k) rm sender receiver
      | _ \<Rightarrow> udgm_get_rssi rm sender receiver)"

text \<open>The part of the byte filter after the tracker, the cut link and the radio match.\<close>

definition frame_decision ::
  "(nat \<Rightarrow> medium_policy) \<Rightarrow> int \<Rightarrow> int \<Rightarrow> radio_medium \<Rightarrow> bool \<times> radio_medium" where
  "frame_decision plug sender receiver rm =
     (let dec = rx_decisions rm sender receiver in
      if decided dec then (\<not> drop_frame dec, rm)
      else
        let prob = medium_reception_prob plug rm sender receiver;
            (roll, rm1) = rng_next rm;
            d = (roll \<ge> prob)
        in (\<not> d, set_decision sender receiver (dec\<lparr>drop_frame := d, decided := True\<rparr>) rm1))"

definition radio_medium_filter_byte_radio ::
  "(nat \<Rightarrow> medium_policy) \<Rightarrow> int \<Rightarrow> int \<Rightarrow> int \<Rightarrow> int \<Rightarrow> u8 \<Rightarrow> radio_medium \<Rightarrow> bool \<times> radio_medium" where
  "radio_medium_filter_byte_radio plug sender sender_radio receiver receiver_radio byte rm =
     (if rm_type rm = RADIO_MEDIUM_NONE then (\<not> radio_medium_link_blocked rm sender receiver, rm)
      else if \<not> valid_node sender \<or> \<not> valid_node receiver then (True, rm)
      else if \<not> valid_radio sender_radio \<or> \<not> valid_radio receiver_radio then (True, rm)
      else
        let rm1 = track_byte sender sender_radio byte rm in
        if radio_medium_link_blocked rm1 sender receiver then (False, rm1)
        else
          let (pm, rm2) = radio_pair_match sender sender_radio receiver receiver_radio rm1 in
          if \<not> pm then (False, rm2)
          else
            let ft = frame_track rm2 sender sender_radio; dec = rx_decisions rm2 sender receiver in
            if frame_id ft > 0 \<and> dec_frame_id dec = frame_id ft
            then frame_decision plug sender receiver rm2
            else
              let range = tx_range (udgm rm2) * sender_power_ratio rm2 sender sender_radio
              in (dist_sq rm2 sender receiver < range * range, rm2))"

definition radio_medium_filter_byte ::
  "(nat \<Rightarrow> medium_policy) \<Rightarrow> int \<Rightarrow> int \<Rightarrow> u8 \<Rightarrow> radio_medium \<Rightarrow> bool \<times> radio_medium" where
  "radio_medium_filter_byte plug sender receiver byte rm =
     radio_medium_filter_byte_radio plug sender 0 receiver 0 byte rm"

subsection \<open>Accessors for plugin media\<close>

definition radio_medium_node_pos :: "radio_medium \<Rightarrow> int \<Rightarrow> real \<times> real" where
  "radio_medium_node_pos rm node =
     (if node < 0 \<or> node \<ge> RADIO_MEDIUM_MAX_NODES then (0, 0)
      else (pos_x (nodes rm node), pos_y (nodes rm node)))"

definition radio_medium_clear_neighbors :: "int \<Rightarrow> radio_medium \<Rightarrow> radio_medium" where
  "radio_medium_clear_neighbors node rm =
     (if node < 0 \<or> node \<ge> RADIO_MEDIUM_MAX_NODES then rm
      else rm\<lparr>neighbors := (neighbors rm)(node := []),
              interference_neighbors := (interference_neighbors rm)(node := [])\<rparr>)"

definition radio_medium_add_neighbor :: "int \<Rightarrow> int \<Rightarrow> radio_medium \<Rightarrow> radio_medium" where
  "radio_medium_add_neighbor node nb rm =
     (if node < 0 \<or> node \<ge> RADIO_MEDIUM_MAX_NODES then rm
      else if int (length (neighbors rm node)) < RADIO_MEDIUM_MAX_NODES
      then rm\<lparr>neighbors := (neighbors rm)(node := neighbors rm node @ [nb])\<rparr> else rm)"

definition radio_medium_add_interferer :: "int \<Rightarrow> int \<Rightarrow> radio_medium \<Rightarrow> radio_medium" where
  "radio_medium_add_interferer node nb rm =
     (if node < 0 \<or> node \<ge> RADIO_MEDIUM_MAX_NODES then rm
      else if int (length (interference_neighbors rm node)) < RADIO_MEDIUM_MAX_NODES
      then rm\<lparr>interference_neighbors := (interference_neighbors rm)
                (node := interference_neighbors rm node @ [nb])\<rparr> else rm)"

end
