(* ===== verification/Sim_Radio_Bus.thy ===== *)
theory Sim_Radio_Bus
  imports Sim_Runtime Radio_Medium
begin

text \<open>
  The radio bus, \<open>src/sim/sim_radio_bus.c\<close> with the constants of \<open>include/sim/sim_radio_bus.h\<close>
  and \<open>include/common/ieee_802154.h\<close>: per-sender frame assembly and byte clock, routing of
  on-air bytes and frames to receivers through the medium, deferred receive queues, collisions
  and acknowledgement windows.

  The state is the simulation runtime extended with the medium and the bus. The radio vtable
  of a mote (\<open>mote_radio_ops_t\<close>), the mote operations the bus uses (\<open>sim_mote_ops_t\<close>) and the
  runner's hooks (\<open>sim_radio_bus_host_t\<close>) are the parameter \<open>env\<close>: each is a function on the
  whole state, indexed by node, so that a callback may re-enter the bus; optional members are
  \<open>None\<close>. The observability hooks are one function of a \<open>bus_hook\<close> value.
\<close>

subsection \<open>State\<close>

abbreviation SIM_RADIO_BUS_MAX_NODES :: int where "SIM_RADIO_BUS_MAX_NODES \<equiv> 128"
abbreviation RF_BUF_SIZE :: nat where "RF_BUF_SIZE \<equiv> 4096"
abbreviation EMU_RX_QUEUE_SIZE :: int where "EMU_RX_QUEUE_SIZE \<equiv> 64"
abbreviation EMU_RX_FRAME_MAX :: nat where "EMU_RX_FRAME_MAX \<equiv> 160"
abbreviation TX_CAPTURE_MAX :: nat where "TX_CAPTURE_MAX \<equiv> 256"
abbreviation SIM_RADIO_ACK_TURNAROUND_NS :: int where "SIM_RADIO_ACK_TURNAROUND_NS \<equiv> 192000"
abbreviation SIM_RADIO_RX_STALL_NS :: int where "SIM_RADIO_RX_STALL_NS \<equiv> 200000"
abbreviation IEEE802154_PHY_HEADER_BYTES :: int where "IEEE802154_PHY_HEADER_BYTES \<equiv> 6"
abbreviation IEEE802154_FCS_LEN :: int where "IEEE802154_FCS_LEN \<equiv> 2"
abbreviation IEEE802154_BYTE_NS :: int where "IEEE802154_BYTE_NS \<equiv> 32000"
abbreviation CC1200_50KBPS_BYTE_NS :: int where "CC1200_50KBPS_BYTE_NS \<equiv> 160000"

datatype tx_asm_state = TX_ASM_PREAMBLE | TX_ASM_LENGTH | TX_ASM_PAYLOAD | TX_ASM_SUBGHZ_PHR

record tx_frame_asm =
  asm_state :: tx_asm_state
  asm_zero_count :: int
  asm_sync_match :: u32
  phr_lo :: int
  expected_len :: int
  payload_count :: int
  subghz :: bool
  subghz_phr_len :: int
  first_byte_ns :: int
  at_override_ns :: int

record emu_rx_frame =
  frame_data :: "u8 list"
  frame_rssi :: int
  arrival_ns :: int
  frame_end_ns :: int
  collided :: bool
  frame_subghz :: bool

record emu_rx_queue =
  q_frames :: "int \<Rightarrow> emu_rx_frame"
  q_head :: int
  q_count :: int

datatype sim_radio_delivery_mode = SIM_RADIO_DELIVERY_NONE | SIM_RADIO_DELIVERY_SYNC
  | SIM_RADIO_DELIVERY_PER_BYTE | SIM_RADIO_DELIVERY_BATCH

datatype sim_radio_rx_outcome = SIM_RADIO_RX_STALE_BUFFER | SIM_RADIO_RX_COLLIDED
  | SIM_RADIO_RX_DIRECT | SIM_RADIO_RX_QUEUED

record sim_radio_frame_info =
  fi_sender_idx :: int
  fi_sender_radio :: int
  fi_expected_len :: int
  fi_total_air_bytes :: int
  fi_subghz :: bool
  fi_tx_start_ns :: int
  fi_tx_end_ns :: int
  fi_air_dur_ns :: int
  fi_sender_byte_ns :: int
  fi_capture :: "u8 list"

datatype bus_hook =
    On_tx_byte int u8 int nat
  | On_byte_accepted int int u8 nat
  | Frame_observed sim_radio_frame_info
  | On_rx_frame sim_radio_frame_info int sim_radio_rx_outcome "u8 list option" int int int
  | On_ack sim_radio_frame_info int int int
  | On_rx int int int

record sim_radio_bus_stats =
  st_rx_direct :: int
  st_rx_queued :: int
  st_rx_drained :: int
  st_rx_dropped :: int
  st_rx_collided :: int
  st_frame_queued :: int
  st_frame_queue_full :: int
  st_frame_collided :: int

record sim_radio_bus =
  has_ops :: "int \<Rightarrow> bool"
  delivery :: "int \<Rightarrow> sim_radio_delivery_mode"
  caps :: "int \<Rightarrow> u32"
  bus_node_count :: int
  any_on_air :: bool
  on_air_end_ns :: "int \<Rightarrow> int"
  tx_depth :: nat
  rf_pending :: "int \<Rightarrow> u8 list"
  tx_asm :: "int \<Rightarrow> tx_frame_asm"
  tx_cap :: "int \<Rightarrow> u8 list"
  emu_queue :: "int \<Rightarrow> emu_rx_queue"
  emu_rx_end_ns :: "int \<Rightarrow> int"
  rx_stall_deadline_ns :: "int \<Rightarrow> int"
  rx_stall_pending :: "int \<Rightarrow> bool"
  executing_node :: int
  bus_stats :: sim_radio_bus_stats
  frame_start_ns :: int
  consumer_frame_end_ns :: "int \<Rightarrow> int"
  tx_busy_until_ns :: "int \<Rightarrow> int"
  in_delivery :: bool

record radio_world = sim_runtime +
  medium :: radio_medium
  bus :: sim_radio_bus

record 'w radio_env =
  env_receive_byte :: "int \<Rightarrow> u8 \<Rightarrow> int \<Rightarrow> 'w \<Rightarrow> 'w"
  env_receive_byte_at :: "int \<Rightarrow> (u8 \<Rightarrow> int \<Rightarrow> int \<Rightarrow> 'w \<Rightarrow> 'w) option"
  env_rxfifo_available :: "int \<Rightarrow> 'w \<Rightarrow> int"
  env_rx_busy :: "int \<Rightarrow> 'w \<Rightarrow> bool"
  env_has_rx_stall :: "int \<Rightarrow> bool"
  env_current_channel :: "int \<Rightarrow> ('w \<Rightarrow> int) option"
  env_mark_collisions :: "int \<Rightarrow> (int \<Rightarrow> int \<Rightarrow> 'w \<Rightarrow> int \<times> 'w) option"
  env_on_air :: "int \<Rightarrow> (int \<Rightarrow> 'w \<Rightarrow> 'w) option"
  env_rx_byte_sync :: "int \<Rightarrow> (int \<Rightarrow> 'w \<Rightarrow> 'w) option"
  env_rx_pre_sync :: "int \<Rightarrow> (int \<Rightarrow> 'w \<Rightarrow> 'w) option"
  env_receive_frame :: "int \<Rightarrow> (u8 list \<Rightarrow> int \<Rightarrow> int \<Rightarrow> 'w \<Rightarrow> int \<times> 'w) option"
  env_step_until :: "int \<Rightarrow> int \<Rightarrow> 'w \<Rightarrow> 'w"
  env_cycles :: "int \<Rightarrow> 'w \<Rightarrow> int"
  env_freq_hz :: "int \<Rightarrow> 'w \<Rightarrow> int"
  env_sched_hint_ns :: "int \<Rightarrow> int \<Rightarrow> 'w \<Rightarrow> int"
  env_node_active :: "(int \<Rightarrow> 'w \<Rightarrow> bool) option"
  env_hook :: "bus_hook \<Rightarrow> 'w \<Rightarrow> 'w"
  env_plug :: "nat \<Rightarrow> medium_policy"

definition upd_bus :: "(sim_radio_bus \<Rightarrow> sim_radio_bus) \<Rightarrow> 'a radio_world_scheme \<Rightarrow> 'a radio_world_scheme" where
  "upd_bus f w = w\<lparr>bus := f (bus w)\<rparr>"

definition upd_stats :: "(sim_radio_bus_stats \<Rightarrow> sim_radio_bus_stats) \<Rightarrow> sim_radio_bus \<Rightarrow> sim_radio_bus" where
  "upd_stats f b = b\<lparr>bus_stats := f (bus_stats b)\<rparr>"

definition CAP :: "nat \<Rightarrow> int \<Rightarrow> sim_radio_bus \<Rightarrow> bool" where
  "CAP k i b \<longleftrightarrow> caps b i AND push_bit k 1 \<noteq> 0"

abbreviation SIM_RADIO_CAP_RX_TICKING_STEP :: nat where "SIM_RADIO_CAP_RX_TICKING_STEP \<equiv> 0"
abbreviation SIM_RADIO_CAP_DRAIN_MINI_STEP :: nat where "SIM_RADIO_CAP_DRAIN_MINI_STEP \<equiv> 1"
abbreviation SIM_RADIO_CAP_WAKE_SENDER_POST_TX :: nat where "SIM_RADIO_CAP_WAKE_SENDER_POST_TX \<equiv> 2"
abbreviation SIM_RADIO_CAP_FRAME_CONSUMER :: nat where "SIM_RADIO_CAP_FRAME_CONSUMER \<equiv> 3"

text \<open>\<open>sim_runtime_mote\<close>: is there a mote in the slot?\<close>

definition has_mote :: "'a sim_runtime_scheme \<Rightarrow> int \<Rightarrow> bool" where
  "has_mote w i \<longleftrightarrow> 0 \<le> i \<and> i < SIM_EQ_MAX_NODES \<and> motes w i \<noteq> None"

definition node_is_active :: "'w radio_env \<Rightarrow> int \<Rightarrow> 'w \<Rightarrow> bool" where
  "node_is_active env i w = (case env_node_active env of None \<Rightarrow> True | Some f \<Rightarrow> f i w)"

subsection \<open>Frame sizes and times\<close>

definition byte_period_ns :: "bool \<Rightarrow> int" where
  "byte_period_ns sub = (if sub then CC1200_50KBPS_BYTE_NS else IEEE802154_BYTE_NS)"

definition frame_air_ns :: "int \<Rightarrow> int" where
  "frame_air_ns mac_len = (IEEE802154_PHY_HEADER_BYTES + mac_len + IEEE802154_FCS_LEN) * IEEE802154_BYTE_NS"

definition frame_fifo_bytes :: "u8 list \<Rightarrow> bool \<Rightarrow> int" where
  "frame_fifo_bytes data sub =
     (if sub then (if length data < 9 then 9999 else uint (data ! 8) + 3)
      else if length data < 6 then 9999 else uint (data ! 5) + 1)"

definition frame_air_bytes :: "tx_frame_asm \<Rightarrow> int" where
  "frame_air_bytes a =
     (if subghz a then 4 + 4 + subghz_phr_len a + expected_len a + 2
      else IEEE802154_PHY_HEADER_BYTES + expected_len a)"

subsection \<open>The frame assembler\<close>

definition asm_preamble :: "u8 \<Rightarrow> tx_frame_asm \<Rightarrow> tx_frame_asm" where
  "asm_preamble byte a =
     (let a1 = a\<lparr>asm_sync_match := push_bit 8 (asm_sync_match a) OR ucast byte\<rparr> in
      if asm_sync_match a1 = SUBGHZ_SYNC_WORD
      then a1\<lparr>asm_state := TX_ASM_SUBGHZ_PHR, subghz := True, subghz_phr_len := 0, phr_lo := -1,
              payload_count := 0\<rparr>
      else if byte = 0 then a1\<lparr>asm_zero_count := asm_zero_count a1 + 1\<rparr>
      else if asm_zero_count a1 \<ge> 4 \<and> byte = 0x7A
      then a1\<lparr>asm_state := TX_ASM_LENGTH, subghz := False\<rparr>
      else a1\<lparr>asm_zero_count := 0\<rparr>)"

definition asm_length :: "u8 \<Rightarrow> tx_frame_asm \<Rightarrow> tx_frame_asm" where
  "asm_length byte a =
     (let a1 = a\<lparr>expected_len := uint byte\<rparr> in
      if byte < 3 \<or> byte > 127 then a1\<lparr>asm_state := TX_ASM_PREAMBLE, asm_zero_count := 0\<rparr>
      else a1\<lparr>asm_state := TX_ASM_PAYLOAD, payload_count := 0\<rparr>)"

definition asm_subghz_phr :: "u8 \<Rightarrow> tx_frame_asm \<Rightarrow> tx_frame_asm" where
  "asm_subghz_phr byte a =
     (if phr_lo a < 0 then
        (if byte \<ge> 3 \<and> byte \<le> 200
         then a\<lparr>expected_len := uint byte, subghz_phr_len := 1, asm_state := TX_ASM_PAYLOAD,
                payload_count := 0\<rparr>
         else a\<lparr>phr_lo := uint (byte AND 7), subghz_phr_len := 2\<rparr>)
      else
        (let a1 = a\<lparr>expected_len := phr_lo a * 256 + uint byte\<rparr> in
         if expected_len a1 < 3 \<or> expected_len a1 > 200
         then a1\<lparr>asm_state := TX_ASM_PREAMBLE, asm_zero_count := 0, asm_sync_match := 0, subghz := False\<rparr>
         else a1\<lparr>asm_state := TX_ASM_PAYLOAD, payload_count := 0\<rparr>))"

definition asm_payload :: "tx_frame_asm \<Rightarrow> bool \<times> tx_frame_asm" where
  "asm_payload a =
     (let a1 = a\<lparr>payload_count := payload_count a + 1\<rparr>;
          target = expected_len a1 + (if subghz a1 then 2 else 0) in
      if payload_count a1 \<ge> target
      then (True, a1\<lparr>asm_state := TX_ASM_PREAMBLE, asm_zero_count := 0, asm_sync_match := 0, phr_lo := -1\<rparr>)
      else (False, a1))"

definition sim_radio_bus_asm_feed :: "u8 \<Rightarrow> tx_frame_asm \<Rightarrow> bool \<times> tx_frame_asm" where
  "sim_radio_bus_asm_feed byte a =
     (case asm_state a of
        TX_ASM_PREAMBLE \<Rightarrow> (False, asm_preamble byte a)
      | TX_ASM_LENGTH \<Rightarrow> (False, asm_length byte a)
      | TX_ASM_SUBGHZ_PHR \<Rightarrow> (False, asm_subghz_phr byte a)
      | TX_ASM_PAYLOAD \<Rightarrow> asm_payload a)"

definition sim_radio_bus_asm_reset :: "tx_frame_asm \<Rightarrow> tx_frame_asm" where
  "sim_radio_bus_asm_reset a =
     a\<lparr>asm_state := TX_ASM_PREAMBLE, asm_zero_count := 0, asm_sync_match := 0, expected_len := 0,
       payload_count := 0, phr_lo := -1, subghz := False, subghz_phr_len := 0, first_byte_ns := 0\<rparr>"

subsection \<open>Registration and channels\<close>

text \<open>\<open>ops\<close> says whether the vtable pointer is non-null and has an \<open>on_air\<close> member.\<close>

definition sim_radio_bus_register ::
  "int \<Rightarrow> bool \<times> bool \<Rightarrow> sim_radio_delivery_mode \<Rightarrow> u32 \<Rightarrow> sim_radio_bus \<Rightarrow> sim_radio_bus" where
  "sim_radio_bus_register idx ops mode cp b =
     (if idx < 0 \<or> idx \<ge> SIM_RADIO_BUS_MAX_NODES then b
      else
        let b1 = b\<lparr>has_ops := (has_ops b)(idx := fst ops), delivery := (delivery b)(idx := mode),
                   caps := (caps b)(idx := cp)\<rparr>;
            b2 = (if fst ops \<and> snd ops then b1\<lparr>any_on_air := True\<rparr> else b1)
        in if idx \<ge> bus_node_count b2 then b2\<lparr>bus_node_count := idx + 1\<rparr> else b2)"

definition sim_radio_bus_pick_receiver_radio :: "radio_medium \<Rightarrow> int \<Rightarrow> int \<Rightarrow> int \<Rightarrow> int" where
  "sim_radio_bus_pick_receiver_radio rm sender sender_radio receiver =
     (let s_spec = spectrum (radios (nodes rm sender) sender_radio); rr = radios (nodes rm receiver) in
      if s_spec = RADIO_SPECTRUM_NONE then 0
      else if spectrum (rr 0) = s_spec then 0
      else if spectrum (rr 1) = s_spec then 1
      else if spectrum (rr 0) = RADIO_SPECTRUM_NONE then 0
      else -1)"

definition push_channel_medium :: "int \<Rightarrow> int \<Rightarrow> int \<Rightarrow> radio_medium \<Rightarrow> radio_medium" where
  "push_channel_medium idx radio_idx ch rm =
     (if radio_idx < 0 \<or> radio_idx \<ge> RADIO_MEDIUM_MAX_RADIOS_PER_NODE then rm
      else
        let rm1 = (if ch \<ge> 0 \<and> spectrum (radios (nodes rm idx) radio_idx) = RADIO_SPECTRUM_NONE
                   then radio_medium_register_radio idx radio_idx
                          (if radio_idx = 0 then RADIO_SPECTRUM_2_4GHZ_15_4 else RADIO_SPECTRUM_868MHZ_15_4G) rm
                   else rm);
            rm2 = radio_medium_set_radio_channel idx radio_idx ch rm1
        in if radio_idx = 1 \<and> ch \<ge> 0
           then upd_node idx (\<lambda>st. st\<lparr>alias_channel := RADIO_MEDIUM_SUBGHZ_CHANNEL_BASE + ch\<rparr>) rm2
           else if radio_idx = 0 \<and> spectrum (radios (nodes rm2 idx) 1) = RADIO_SPECTRUM_NONE
           then upd_node idx (\<lambda>st. st\<lparr>alias_channel := ch\<rparr>) rm2
           else rm2)"

definition sim_radio_bus_push_channel ::
  "int \<Rightarrow> int \<Rightarrow> int \<Rightarrow> 'a radio_world_scheme \<Rightarrow> 'a radio_world_scheme" where
  "sim_radio_bus_push_channel idx radio_idx ch w = w\<lparr>medium := push_channel_medium idx radio_idx ch (medium w)\<rparr>"

definition bus_sync_channel ::
  "'a radio_world_scheme radio_env \<Rightarrow> int \<Rightarrow> 'a radio_world_scheme \<Rightarrow> 'a radio_world_scheme" where
  "bus_sync_channel env idx w =
     (if \<not> has_ops (bus w) idx then w
      else case env_current_channel env idx of
        None \<Rightarrow> w
      | Some f \<Rightarrow>
          let ch = f w in
          if ch < -1 then w
          else if channel (radios (nodes (medium w) idx) 0) = ch then w
          else w\<lparr>medium := radio_medium_set_channel idx ch (medium w)\<rparr>)"

definition bus_shares_channel ::
  "'a radio_world_scheme radio_env \<Rightarrow> int \<Rightarrow> int \<Rightarrow> int \<Rightarrow> 'a radio_world_scheme \<Rightarrow>
     bool \<times> 'a radio_world_scheme" where
  "bus_shares_channel env sender sender_radio i w =
     (let w1 = bus_sync_channel env i w;
          rr = sim_radio_bus_pick_receiver_radio (medium w1) sender sender_radio i
      in (rr \<ge> 0 \<and> radio_medium_shares_channel (medium w1) sender sender_radio i rr, w1))"

definition bus_reaches ::
  "'a radio_world_scheme radio_env \<Rightarrow> int \<Rightarrow> int \<Rightarrow> int \<Rightarrow> 'a radio_world_scheme \<Rightarrow>
     bool \<times> 'a radio_world_scheme" where
  "bus_reaches env sender sender_radio i w =
     (if radio_medium_in_reach (medium w) sender sender_radio i
      then bus_shares_channel env sender sender_radio i w else (False, w))"

definition on_air_one ::
  "'a radio_world_scheme radio_env \<Rightarrow> int \<Rightarrow> int \<Rightarrow> int \<Rightarrow> int \<Rightarrow> 'a radio_world_scheme \<Rightarrow> 'a radio_world_scheme" where
  "on_air_one env sender sender_radio end_t i w =
     (if i = sender \<or> i \<ge> bus_node_count (bus w) then w
      else if \<not> has_ops (bus w) i then w
      else case env_on_air env i of
        None \<Rightarrow> w
      | Some f \<Rightarrow>
          if \<not> node_is_active env i w then w
          else (let (reach, w1) = bus_reaches env sender sender_radio i w
                in if reach then f end_t w1 else w1))"

definition bus_on_air ::
  "'a radio_world_scheme radio_env \<Rightarrow> int \<Rightarrow> int \<Rightarrow> int \<Rightarrow> 'a radio_world_scheme \<Rightarrow> 'a radio_world_scheme" where
  "bus_on_air env sender sender_radio end_t w =
     (if \<not> any_on_air (bus w) then w
      else if rm_type (medium w) = RADIO_MEDIUM_NONE
      then fold (on_air_one env sender sender_radio end_t) (map int [0..<nat (bus_node_count (bus w))]) w
      else
        let w1 = fold (on_air_one env sender sender_radio end_t) (neighbors (medium w) sender) w
        in fold (on_air_one env sender sender_radio end_t) (interference_neighbors (medium w1) sender) w1)"

subsection \<open>Receive queues\<close>

definition push_frame :: "emu_rx_frame \<Rightarrow> emu_rx_queue \<Rightarrow> emu_rx_queue" where
  "push_frame f q =
     q\<lparr>q_frames := (q_frames q)((q_head q + q_count q) mod EMU_RX_QUEUE_SIZE := f),
       q_count := q_count q + 1\<rparr>"

definition drop_head :: "emu_rx_queue \<Rightarrow> emu_rx_queue" where
  "drop_head q = q\<lparr>q_head := (q_head q + 1) mod EMU_RX_QUEUE_SIZE, q_count := q_count q - 1\<rparr>"

definition set_queue :: "int \<Rightarrow> emu_rx_queue \<Rightarrow> sim_radio_bus \<Rightarrow> sim_radio_bus" where
  "set_queue i q b = b\<lparr>emu_queue := (emu_queue b)(i := q)\<rparr>"

definition sim_radio_bus_queue_frame ::
  "int \<Rightarrow> u8 list \<Rightarrow> int \<Rightarrow> int \<Rightarrow> int \<Rightarrow> bool \<Rightarrow> sim_radio_bus \<Rightarrow> sim_radio_bus" where
  "sim_radio_bus_queue_frame idx data rssi_v arrival end_t sub b =
     (let q = emu_queue b idx in
      if q_count q \<ge> EMU_RX_QUEUE_SIZE
      then upd_stats (\<lambda>s. s\<lparr>st_rx_dropped := st_rx_dropped s + 1\<rparr>) b
      else
        let f = \<lparr>frame_data = take EMU_RX_FRAME_MAX data, frame_rssi = rssi_v, arrival_ns = arrival,
                 frame_end_ns = end_t, collided = False, frame_subghz = sub\<rparr>
        in upd_stats (\<lambda>s. s\<lparr>st_rx_queued := st_rx_queued s + 1\<rparr>) (set_queue idx (push_frame f q) b))"

text \<open>Marking the queued frames that overlap a transmission; the count of newly marked ones is returned.\<close>

definition mark_slot :: "int \<Rightarrow> int \<Rightarrow> int \<Rightarrow> int \<times> emu_rx_queue \<Rightarrow> int \<times> emu_rx_queue" where
  "mark_slot t0 t1 k st =
     (let (n, q) = st; i = (q_head q + k) mod EMU_RX_QUEUE_SIZE; f = q_frames q i in
      if t0 < frame_end_ns f \<and> arrival_ns f < t1
      then (if collided f then n else n + 1, q\<lparr>q_frames := (q_frames q)(i := f\<lparr>collided := True\<rparr>)\<rparr>)
      else (n, q))"

definition mark_queue :: "int \<Rightarrow> int \<Rightarrow> emu_rx_queue \<Rightarrow> int \<times> emu_rx_queue" where
  "mark_queue t0 t1 q = fold (mark_slot t0 t1) (map int [0..<nat (q_count q)]) (0, q)"

subsection \<open>Byte dispatch and the receive watchdog\<close>

text \<open>
  The loops over \<open>0 .. node_count - 1\<close> read the bound again in every round; \<open>node_count\<close> never
  exceeds the table size (\<open>sim_radio_bus_register\<close>), so they visit the indices of the table
  that are below it. Neighbour lists are read once: no callback recomputes them.
\<close>

definition bus_nodes :: "int list" where
  "bus_nodes = map int [0..<128]"

definition for_nodes ::
  "(int \<Rightarrow> 'a radio_world_scheme \<Rightarrow> 'a radio_world_scheme) \<Rightarrow> 'a radio_world_scheme \<Rightarrow> 'a radio_world_scheme" where
  "for_nodes f w = fold (\<lambda>i w. if i < bus_node_count (bus w) then f i w else w) bus_nodes w"

definition arm_rx_stall :: "int \<Rightarrow> int \<Rightarrow> 'a radio_world_scheme \<Rightarrow> 'a radio_world_scheme" where
  "arm_rx_stall i bt w =
     (let dl = bt + SIM_RADIO_RX_STALL_NS;
          w1 = (if dl > rx_stall_deadline_ns (bus w) i
                then upd_bus (\<lambda>b. b\<lparr>rx_stall_deadline_ns := (rx_stall_deadline_ns b)(i := dl)\<rparr>) w else w)
      in if rx_stall_pending (bus w1) i then w1
         else sim_schedule_radio_timer i (rx_stall_deadline_ns (bus w1) i)
                (upd_bus (\<lambda>b. b\<lparr>rx_stall_pending := (rx_stall_pending b)(i := True)\<rparr>) w1))"

definition stage_byte :: "int \<Rightarrow> u8 \<Rightarrow> sim_radio_bus \<Rightarrow> sim_radio_bus" where
  "stage_byte i byte b =
     (if length (rf_pending b i) < RF_BUF_SIZE
      then b\<lparr>rf_pending := (rf_pending b)(i := rf_pending b i @ [byte])\<rparr> else b)"

definition deliver_per_byte ::
  "'a radio_world_scheme radio_env \<Rightarrow> int \<Rightarrow> u8 \<Rightarrow> int \<Rightarrow> int \<Rightarrow> int \<Rightarrow> 'a radio_world_scheme \<Rightarrow> 'a radio_world_scheme" where
  "deliver_per_byte env sender byte byte_time rssi_v i w =
     (let bt = (if byte_time < now_ns w then now_ns w else byte_time);
          w1 = sim_schedule_radio_byte i sender byte rssi_v bt w
      in if env_has_rx_stall env i then arm_rx_stall i bt w1 else w1)"

definition accept_byte ::
  "'a radio_world_scheme radio_env \<Rightarrow> int \<Rightarrow> u8 \<Rightarrow> int \<Rightarrow> nat \<Rightarrow> int \<Rightarrow> 'a radio_world_scheme \<Rightarrow> 'a radio_world_scheme" where
  "accept_byte env sender byte byte_time depth i w =
     (if delivery (bus w) i = SIM_RADIO_DELIVERY_SYNC
      then (case env_receive_byte_at env i of
              Some f \<Rightarrow> f byte 0 byte_time w
            | None \<Rightarrow> env_receive_byte env i byte 0 w)
      else
        let rssi_v = radio_medium_get_rssi (env_plug env) (medium w) sender i;
            w1 = env_hook env (On_byte_accepted sender i byte depth) w
        in if delivery (bus w1) i = SIM_RADIO_DELIVERY_PER_BYTE
           then deliver_per_byte env sender byte byte_time rssi_v i w1
           else upd_bus (stage_byte i byte) w1)"

definition dispatch_one ::
  "'a radio_world_scheme radio_env \<Rightarrow> bool \<Rightarrow> int \<Rightarrow> int \<Rightarrow> u8 \<Rightarrow> int \<Rightarrow> nat \<Rightarrow> int \<Rightarrow>
     'a radio_world_scheme \<Rightarrow> 'a radio_world_scheme" where
  "dispatch_one env sender_sync sender sender_radio byte byte_time depth i w =
     (if i = sender then w
      else if delivery (bus w) i = SIM_RADIO_DELIVERY_NONE then w
      else if \<not> node_is_active env i w then w
      else if sender_sync \<and> delivery (bus w) i = SIM_RADIO_DELIVERY_SYNC then w
      else
        let w1 = bus_sync_channel env i w;
            rr = sim_radio_bus_pick_receiver_radio (medium w1) sender sender_radio i
        in if rr < 0 then w1
           else
             let (ok, rm) = radio_medium_filter_byte_radio (env_plug env) sender sender_radio i rr byte (medium w1);
                 w2 = w1\<lparr>medium := rm\<rparr>
             in if \<not> ok then w2 else accept_byte env sender byte byte_time depth i w2)"

definition dispatch_tx_byte ::
  "'a radio_world_scheme radio_env \<Rightarrow> int \<Rightarrow> int \<Rightarrow> u8 \<Rightarrow> int \<Rightarrow> nat \<Rightarrow>
     'a radio_world_scheme \<Rightarrow> 'a radio_world_scheme" where
  "dispatch_tx_byte env sender sender_radio byte byte_time depth w =
     for_nodes (dispatch_one env (delivery (bus w) sender = SIM_RADIO_DELIVERY_SYNC)
                  sender sender_radio byte byte_time depth) w"

definition sim_radio_bus_rx_stall_expired ::
  "int \<Rightarrow> int \<Rightarrow> 'a radio_world_scheme \<Rightarrow> bool \<times> 'a radio_world_scheme" where
  "sim_radio_bus_rx_stall_expired i t w =
     (if i < 0 \<or> i \<ge> SIM_RADIO_BUS_MAX_NODES then (False, w)
      else
        let w1 = upd_bus (\<lambda>b. b\<lparr>rx_stall_pending := (rx_stall_pending b)(i := False)\<rparr>) w
        in if t < rx_stall_deadline_ns (bus w1) i
           then (False, sim_schedule_radio_timer i (rx_stall_deadline_ns (bus w1) i)
                   (upd_bus (\<lambda>b. b\<lparr>rx_stall_pending := (rx_stall_pending b)(i := True)\<rparr>) w1))
           else (True, w1))"

definition sim_radio_bus_reset_node :: "int \<Rightarrow> sim_radio_bus \<Rightarrow> sim_radio_bus" where
  "sim_radio_bus_reset_node i b =
     (if i < 0 \<or> i \<ge> SIM_RADIO_BUS_MAX_NODES then b
      else b\<lparr>rx_stall_deadline_ns := (rx_stall_deadline_ns b)(i := 0),
             rx_stall_pending := (rx_stall_pending b)(i := False)\<rparr>)"

subsection \<open>Delivery to emulated receivers\<close>

definition sim_radio_bus_set_executing :: "int \<Rightarrow> sim_radio_bus \<Rightarrow> sim_radio_bus" where
  "sim_radio_bus_set_executing i b = b\<lparr>executing_node := i\<rparr>"

text \<open>The byte loop of a delivery with per-byte synchronisation; it also yields the last byte's time.\<close>

fun deliver_synced ::
  "'a radio_world_scheme radio_env \<Rightarrow> (int \<Rightarrow> 'a radio_world_scheme \<Rightarrow> 'a radio_world_scheme) \<Rightarrow> int \<Rightarrow> int \<Rightarrow>
     int \<Rightarrow> int \<Rightarrow> int \<Rightarrow> u8 list \<Rightarrow> 'a radio_world_scheme \<Rightarrow> int \<times> 'a radio_world_scheme" where
  "deliver_synced env sync i rssi_v byte_ns t lb [] w = (lb, w)"
| "deliver_synced env sync i rssi_v byte_ns t lb (x # xs) w =
     deliver_synced env sync i rssi_v byte_ns (t + byte_ns) t xs
       (env_receive_byte env i x rssi_v (sync t w))"

definition ticking_step ::
  "'a radio_world_scheme radio_env \<Rightarrow> int \<Rightarrow> 'a radio_world_scheme \<Rightarrow> 'a radio_world_scheme" where
  "ticking_step env i w =
     (let budget = cdiv (env_freq_hz env i w) 1000; budget' = (if budget < 1000 then 1000 else budget)
      in env_step_until env i (env_cycles env i w + budget') w)"

definition sim_radio_bus_deliver_bytes ::
  "'a radio_world_scheme radio_env \<Rightarrow> int \<Rightarrow> u8 list \<Rightarrow> int \<Rightarrow> int \<Rightarrow> bool \<Rightarrow>
     'a radio_world_scheme \<Rightarrow> 'a radio_world_scheme" where
  "sim_radio_bus_deliver_bytes env i data rssi_v air_time sub w =
     (let byte_ns = byte_period_ns sub; air_end = air_time + int (length data) * byte_ns;
          w1 = (if data \<noteq> [] then env_hook env (On_rx i air_time air_end) w else w)
      in if \<not> has_mote w1 i then w1
         else case env_rx_byte_sync env i of
           None \<Rightarrow> w1
         | Some sync \<Rightarrow>
             if env_rx_busy env i w1
             then upd_bus (sim_radio_bus_queue_frame i data rssi_v air_time air_end sub) w1
             else
               let (lb, w2) =
                 (if i = executing_node (bus w1)
                  then let w' = fold (\<lambda>x. env_receive_byte env i x rssi_v) data w1
                       in (air_time, if CAP SIM_RADIO_CAP_RX_TICKING_STEP i (bus w')
                                     then ticking_step env i w' else w')
                  else deliver_synced env sync i rssi_v byte_ns air_time air_time data w1)
               in sim_schedule_mote_wakeup_if_earlier i lb w2)"

definition mini_step ::
  "'a radio_world_scheme radio_env \<Rightarrow> int \<Rightarrow> 'a radio_world_scheme \<Rightarrow> 'a radio_world_scheme" where
  "mini_step env i w =
     (let spare = cdiv (env_freq_hz env i w) 1000; spare' = (if spare \<le> 0 then 1 else spare)
      in env_step_until env i (env_cycles env i w + spare') w)"

definition drop_queue_head :: "int \<Rightarrow> 'a radio_world_scheme \<Rightarrow> 'a radio_world_scheme" where
  "drop_queue_head i w = upd_bus (\<lambda>b. set_queue i (drop_head (emu_queue b i)) b) w"

definition drain_deliver ::
  "'a radio_world_scheme radio_env \<Rightarrow> int \<Rightarrow> emu_rx_frame \<Rightarrow> 'a radio_world_scheme \<Rightarrow> 'a radio_world_scheme" where
  "drain_deliver env i f w =
     (let w1 = upd_bus (\<lambda>b. b\<lparr>emu_rx_end_ns := (\<lambda>_. 0)\<rparr>) w;
          t = (if arrival_ns f > now_ns w1 then arrival_ns f else now_ns w1);
          w2 = sim_radio_bus_deliver_bytes env i (frame_data f) (frame_rssi f) t (frame_subghz f) w1
      in drop_queue_head i (upd_bus (upd_stats (\<lambda>s. s\<lparr>st_rx_drained := st_rx_drained s + 1\<rparr>)) w2))"

text \<open>The loop of \<open>sim_radio_bus_drain_rx\<close>; \<open>k\<close> is \<open>blocked_attempts\<close>.\<close>

function drain_loop ::
  "'a radio_world_scheme radio_env \<Rightarrow> int \<Rightarrow> nat \<Rightarrow> 'a radio_world_scheme \<Rightarrow> 'a radio_world_scheme" where
  "drain_loop env i k w =
     (let q = emu_queue (bus w) i; f = q_frames q (q_head q) in
      if \<not> q_count q > 0 then w
      else if collided f then drain_loop env i k (drop_queue_head i w)
      else if env_rxfifo_available env i w < frame_fifo_bytes (frame_data f) (frame_subghz f)
      then (if CAP SIM_RADIO_CAP_DRAIN_MINI_STEP i (bus w) \<and> k < 4
            then drain_loop env i (Suc k) (mini_step env i w) else w)
      else drain_deliver env i f w)"
  by pat_completeness auto
termination
  by (relation "measures [\<lambda>(env, i, k, w). 4 - k, \<lambda>(env, i, k, w). nat (q_count (emu_queue (bus w) i))]")
     (auto simp: drop_queue_head_def upd_bus_def set_queue_def drop_head_def)

declare drain_loop.simps [simp del]

definition sim_radio_bus_drain_rx ::
  "'a radio_world_scheme radio_env \<Rightarrow> int \<Rightarrow> 'a radio_world_scheme \<Rightarrow> 'a radio_world_scheme" where
  "sim_radio_bus_drain_rx env i w = drain_loop env i 0 w"

definition sim_radio_bus_wake_mote ::
  "'a radio_world_scheme radio_env \<Rightarrow> int \<Rightarrow> 'a radio_world_scheme \<Rightarrow> 'a radio_world_scheme" where
  "sim_radio_bus_wake_mote env i w =
     (let now = now_ns w in
      if q_count (emu_queue (bus w) i) > 0 then sim_schedule_mote_wakeup_if_earlier i now w
      else sim_schedule_mote_wakeup_if_earlier i (env_sched_hint_ns env i now w) w)"

subsection \<open>Frame completion\<close>

text \<open>
  The frame description computed at the start of \<open>sim_radio_bus_frame_complete\<close>; the flag
  \<open>subghz\<close> of the assembler is read again at each later use, as in the code.
\<close>

abbreviation sender_subghz :: "'a radio_world_scheme \<Rightarrow> int \<Rightarrow> bool" where
  "sender_subghz w sender \<equiv> subghz (tx_asm (bus w) sender)"

definition frame_info_of :: "int \<Rightarrow> int \<Rightarrow> int \<Rightarrow> int \<Rightarrow> sim_radio_bus \<Rightarrow> sim_radio_frame_info" where
  "frame_info_of sender sender_radio byte_time byte_ns b =
     (let a = tx_asm b sender; total = frame_air_bytes a; dur = total * byte_ns;
          t_end = byte_time + byte_ns; t_start = t_end - dur
      in \<lparr>fi_sender_idx = sender, fi_sender_radio = sender_radio, fi_expected_len = expected_len a,
          fi_total_air_bytes = total, fi_subghz = subghz a,
          fi_tx_start_ns = (if t_start < 0 then 0 else t_start), fi_tx_end_ns = t_end,
          fi_air_dur_ns = dur, fi_sender_byte_ns = byte_ns, fi_capture = tx_cap b sender\<rparr>)"

definition mark_tx_busy :: "int \<Rightarrow> sim_radio_frame_info \<Rightarrow> int \<Rightarrow> sim_radio_bus \<Rightarrow> sim_radio_bus" where
  "mark_tx_busy sender fi now b =
     (let busy = (if subghz (tx_asm b sender) then now + fi_air_dur_ns fi else fi_tx_end_ns fi)
      in if busy > tx_busy_until_ns b sender
         then b\<lparr>tx_busy_until_ns := (tx_busy_until_ns b)(sender := busy)\<rparr> else b)"

definition clear_staged :: "int \<Rightarrow> sim_radio_bus \<Rightarrow> sim_radio_bus" where
  "clear_staged i b = b\<lparr>rf_pending := (rf_pending b)(i := [])\<rparr>"

record frame_snapshot =
  snap_idx :: int
  snap_data :: "u8 list"
  snap_rssi :: int

definition snapshot_one ::
  "'a radio_world_scheme radio_env \<Rightarrow> sim_radio_frame_info \<Rightarrow> int \<Rightarrow>
     frame_snapshot list \<times> 'a radio_world_scheme \<Rightarrow> frame_snapshot list \<times> 'a radio_world_scheme" where
  "snapshot_one env fi i st =
     (let (snaps, w) = st; buf = rf_pending (bus w) i in
      if i \<ge> bus_node_count (bus w) then st
      else if i = fi_sender_idx fi \<or> delivery (bus w) i \<noteq> SIM_RADIO_DELIVERY_BATCH \<or> buf = [] then st
      else if int (length buf) \<noteq> fi_total_air_bytes fi
      then (snaps, upd_bus (clear_staged i)
                     (env_hook env (On_rx_frame fi i SIM_RADIO_RX_STALE_BUFFER None (int (length buf)) 0 0) w))
      else (snaps @ [\<lparr>snap_idx = i, snap_data = take EMU_RX_FRAME_MAX buf,
                      snap_rssi = radio_medium_get_rssi (env_plug env) (medium w) (fi_sender_idx fi) i\<rparr>],
            upd_bus (clear_staged i) w))"

definition snapshot_all ::
  "'a radio_world_scheme radio_env \<Rightarrow> sim_radio_frame_info \<Rightarrow> 'a radio_world_scheme \<Rightarrow>
     frame_snapshot list \<times> 'a radio_world_scheme" where
  "snapshot_all env fi w = fold (snapshot_one env fi) bus_nodes ([], w)"

definition set_rx_end :: "int \<Rightarrow> int \<Rightarrow> sim_radio_bus \<Rightarrow> sim_radio_bus" where
  "set_rx_end i t b = b\<lparr>emu_rx_end_ns := (emu_rx_end_ns b)(i := t)\<rparr>"

definition count_frame :: "bool \<Rightarrow> sim_radio_bus \<Rightarrow> sim_radio_bus" where
  "count_frame full =
     upd_stats (\<lambda>s. s\<lparr>st_frame_queue_full := st_frame_queue_full s + (if full then 1 else 0),
                      st_frame_queued := st_frame_queued s + 1\<rparr>)"

text \<open>A receiver that takes whole MAC frames; \<open>rcv\<close> is its \<open>receive_frame\<close> operation.\<close>

definition deliver_consumer ::
  "'a radio_world_scheme radio_env \<Rightarrow> (u8 list \<Rightarrow> int \<Rightarrow> int \<Rightarrow> 'a radio_world_scheme \<Rightarrow> int \<times> 'a radio_world_scheme) \<Rightarrow>
     sim_radio_frame_info \<Rightarrow> int \<Rightarrow> int \<Rightarrow> frame_snapshot \<Rightarrow> 'a radio_world_scheme \<Rightarrow> 'a radio_world_scheme" where
  "deliver_consumer env rcv fi now coll_end sn w =
     (let i = snap_idx sn; sender = fi_sender_idx fi in
      if delivery (bus w) sender \<noteq> SIM_RADIO_DELIVERY_PER_BYTE then upd_bus (set_rx_end i coll_end) w
      else
        let len = int (length (snap_data sn));
            mac_len = len - IEEE802154_PHY_HEADER_BYTES - IEEE802154_FCS_LEN;
            w1 = (if mac_len > 0 then
                    let start = (if sender_subghz w sender then now else fi_tx_start_ns fi);
                        w' = upd_bus (\<lambda>b. b\<lparr>frame_start_ns := start,
                                            consumer_frame_end_ns := (consumer_frame_end_ns b)(i := fi_tx_end_ns fi)\<rparr>) w;
                        (r, w'') = rcv (take (nat mac_len) (drop 6 (snap_data sn))) now sender w'
                    in upd_bus (count_frame (r < 0)) w''
                  else w)
        in env_hook env (On_rx_frame fi i SIM_RADIO_RX_DIRECT (Some (snap_data sn)) len 0 0)
             (upd_bus (set_rx_end i coll_end) w1))"

definition deliver_or_queue ::
  "'a radio_world_scheme radio_env \<Rightarrow> sim_radio_frame_info \<Rightarrow> int \<Rightarrow> int \<Rightarrow> frame_snapshot \<Rightarrow>
     'a radio_world_scheme \<Rightarrow> 'a radio_world_scheme" where
  "deliver_or_queue env fi now coll_end sn w =
     (let i = snap_idx sn; sender = fi_sender_idx fi; data = snap_data sn; len = int (length data);
          need = frame_fifo_bytes data (sender_subghz w sender);
          w1 = (if env_rxfifo_available env i w < need \<and> has_mote w i
                then env_step_until env i (env_cycles env i w + 5000) w else w)
      in if env_rxfifo_available env i w1 \<ge> need
         then
           let start = (if sender_subghz w1 sender then now else fi_tx_start_ns fi);
               w2 = (case env_rx_pre_sync env i of
                       Some f \<Rightarrow> if has_mote w i \<and> i \<noteq> executing_node (bus w1) then f start w1 else w1
                     | None \<Rightarrow> w1);
               w3 = sim_radio_bus_deliver_bytes env i data (snap_rssi sn) start (sender_subghz w2 sender) w2
           in env_hook env (On_rx_frame fi i SIM_RADIO_RX_DIRECT (Some data) len 0 0)
                (upd_bus (set_rx_end i coll_end)
                  (upd_bus (upd_stats (\<lambda>s. s\<lparr>st_rx_direct := st_rx_direct s + 1\<rparr>)) w3))
         else
           env_hook env (On_rx_frame fi i SIM_RADIO_RX_QUEUED (Some data) len 0 0)
             (upd_bus (set_rx_end i coll_end)
               (upd_bus (sim_radio_bus_queue_frame i data (snap_rssi sn) (fi_tx_start_ns fi) coll_end
                           (sender_subghz w1 sender)) w1)))"

text \<open>Flushing the acknowledgement bytes a delivery left in the staging buffers.\<close>

definition flush_ack ::
  "'a radio_world_scheme radio_env \<Rightarrow> sim_radio_frame_info \<Rightarrow> int \<Rightarrow> int \<Rightarrow> int \<Rightarrow> int \<Rightarrow>
     bool \<times> 'a radio_world_scheme \<Rightarrow> bool \<times> 'a radio_world_scheme" where
  "flush_ack env fi now coll_end i j st =
     (let (emitted, w) = st; sender = fi_sender_idx fi;
          ack_start = fi_tx_end_ns fi + SIM_RADIO_ACK_TURNAROUND_NS;
          sender_ack_start = now + SIM_RADIO_ACK_TURNAROUND_NS in
      if j \<ge> bus_node_count (bus w) then st
      else if rf_pending (bus w) j = [] \<or> delivery (bus w) j = SIM_RADIO_DELIVERY_SYNC then st
      else
        let w1 = (if emitted then w
                  else env_hook env (On_ack fi i ack_start (int (length (rf_pending (bus w) j)))) w);
            buf = rf_pending (bus w1) j;
            ack_payload = (if length buf > 5 then uint (buf ! 5) else 0);
            sub = sender_subghz w1 sender;
            w2 = (if j = sender
                  then upd_bus (sim_radio_bus_queue_frame j buf (-50) sender_ack_start coll_end sub) w1
                  else if env_rxfifo_available env j w1 \<ge> ack_payload + 1
                  then sim_radio_bus_deliver_bytes env j buf (-50) ack_start sub w1
                  else upd_bus (sim_radio_bus_queue_frame j buf (-50) ack_start coll_end sub) w1)
        in (True, upd_bus (clear_staged j) w2))"

definition flush_acks ::
  "'a radio_world_scheme radio_env \<Rightarrow> sim_radio_frame_info \<Rightarrow> int \<Rightarrow> int \<Rightarrow> int \<Rightarrow>
     'a radio_world_scheme \<Rightarrow> 'a radio_world_scheme" where
  "flush_acks env fi now coll_end i w = snd (fold (flush_ack env fi now coll_end i) bus_nodes (False, w))"

definition deliver_snapshot ::
  "'a radio_world_scheme radio_env \<Rightarrow> sim_radio_frame_info \<Rightarrow> int \<Rightarrow> frame_snapshot \<Rightarrow>
     'a radio_world_scheme \<Rightarrow> 'a radio_world_scheme" where
  "deliver_snapshot env fi now sn w =
     (let i = snap_idx sn; sub = sender_subghz w (fi_sender_idx fi);
          coll_start = (if sub then now else fi_tx_start_ns fi);
          coll_end = (if sub then now + fi_air_dur_ns fi else fi_tx_end_ns fi) in
      if coll_start < emu_rx_end_ns (bus w) i
      then
        let w1 = upd_bus (upd_stats (\<lambda>s. s\<lparr>st_rx_collided := st_rx_collided s + 1\<rparr>)) w
        in env_hook env (On_rx_frame fi i SIM_RADIO_RX_COLLIDED (Some (snap_data sn))
                           (int (length (snap_data sn))) coll_start (emu_rx_end_ns (bus w1) i)) w1
      else
        let default = flush_acks env fi now coll_end i (deliver_or_queue env fi now coll_end sn w)
        in if CAP SIM_RADIO_CAP_FRAME_CONSUMER i (bus w) \<and> has_mote w i
           then (case env_receive_frame env i of
                   Some rcv \<Rightarrow> deliver_consumer env rcv fi now coll_end sn w
                 | None \<Rightarrow> default)
           else default)"

subsection \<open>Interference\<close>

definition mark_emulated :: "int \<Rightarrow> int \<Rightarrow> int \<Rightarrow> sim_radio_bus \<Rightarrow> sim_radio_bus" where
  "mark_emulated t0 t1 i b =
     (let (n, q) = mark_queue t0 t1 (emu_queue b i)
      in upd_stats (\<lambda>s. s\<lparr>st_rx_collided := st_rx_collided s + n\<rparr>) (set_queue i q b))"

text \<open>
  One interference neighbour; \<open>skip_sync\<close> distinguishes the two callers: only
  \<open>sim_radio_bus_frame_complete\<close> leaves a SYNC receiver without \<open>mark_collisions\<close> alone.
\<close>

definition interfere_one ::
  "'a radio_world_scheme radio_env \<Rightarrow> bool \<Rightarrow> int \<Rightarrow> int \<Rightarrow> int \<Rightarrow> int \<Rightarrow> int \<Rightarrow>
     'a radio_world_scheme \<Rightarrow> 'a radio_world_scheme" where
  "interfere_one env skip_sync sender sender_radio t0 t1 i w =
     (let (reach, w1) = bus_reaches env sender sender_radio i w in
      if \<not> reach then w1
      else case (if has_ops (bus w1) i then env_mark_collisions env i else None) of
        Some f \<Rightarrow>
          let (n, w2) = f t0 t1 w1
          in upd_bus (upd_stats (\<lambda>s. s\<lparr>st_frame_collided := st_frame_collided s + n\<rparr>)) w2
      | None \<Rightarrow>
          if skip_sync \<and> delivery (bus w1) i = SIM_RADIO_DELIVERY_SYNC then w1
          else upd_bus (mark_emulated t0 t1 i) w1)"

definition interfere ::
  "'a radio_world_scheme radio_env \<Rightarrow> bool \<Rightarrow> int \<Rightarrow> int \<Rightarrow> int \<Rightarrow> int \<Rightarrow>
     'a radio_world_scheme \<Rightarrow> 'a radio_world_scheme" where
  "interfere env skip_sync sender sender_radio t0 t1 w =
     fold (interfere_one env skip_sync sender sender_radio t0 t1) (interference_neighbors (medium w) sender) w"

definition sim_radio_bus_frame_complete ::
  "'a radio_world_scheme radio_env \<Rightarrow> int \<Rightarrow> int \<Rightarrow> int \<Rightarrow> int \<Rightarrow>
     'a radio_world_scheme \<Rightarrow> 'a radio_world_scheme" where
  "sim_radio_bus_frame_complete env sender sender_radio byte_time byte_ns w =
     (let now = now_ns w; fi = frame_info_of sender sender_radio byte_time byte_ns (bus w);
          w1 = env_hook env (Frame_observed fi) (upd_bus (mark_tx_busy sender fi now) w);
          w2 = upd_bus (clear_staged sender) (upd_bus (\<lambda>b. b\<lparr>in_delivery := True\<rparr>) w1);
          (snaps, w3) = snapshot_all env fi w2;
          w4 = fold (deliver_snapshot env fi now) snaps w3;
          w5 = (if rm_type (medium w4) \<noteq> RADIO_MEDIUM_NONE
                then let sub = sender_subghz w4 sender
                     in interfere env True sender sender_radio
                          (if sub then now else fi_tx_start_ns fi)
                          (if sub then now + fi_air_dur_ns fi else fi_tx_end_ns fi) w4
                else w4);
          w6 = upd_bus (\<lambda>b. b\<lparr>in_delivery := False\<rparr>) w5
      in if CAP SIM_RADIO_CAP_WAKE_SENDER_POST_TX sender (bus w6)
         then sim_radio_bus_wake_mote env sender w6 else w6)"

subsection \<open>Transmission\<close>

definition set_asm :: "int \<Rightarrow> tx_frame_asm \<Rightarrow> sim_radio_bus \<Rightarrow> sim_radio_bus" where
  "set_asm i a b = b\<lparr>tx_asm := (tx_asm b)(i := a)\<rparr>"

text \<open>The first preamble byte arms the sender's byte clock.\<close>

definition arm_first_byte :: "int \<Rightarrow> u8 \<Rightarrow> int \<Rightarrow> sim_radio_bus \<Rightarrow> sim_radio_bus" where
  "arm_first_byte sender byte now b =
     (let a = tx_asm b sender in
      if asm_state a = TX_ASM_PREAMBLE \<and> asm_zero_count a = 0 \<and> (byte = 0x00 \<or> byte = 0x55)
      then (set_asm sender (a\<lparr>first_byte_ns := if at_override_ns a > 0 then at_override_ns a else now,
                              at_override_ns := 0\<rparr>) b)
             \<lparr>tx_cap := (tx_cap b)(sender := []), on_air_end_ns := (on_air_end_ns b)(sender := 0)\<rparr>
      else b)"

definition tx_byte_time :: "int \<Rightarrow> sim_radio_bus \<Rightarrow> int" where
  "tx_byte_time sender b =
     first_byte_ns (tx_asm b sender) +
     int (length (tx_cap b sender)) * byte_period_ns (subghz (tx_asm b sender))"

definition capture_byte :: "int \<Rightarrow> u8 \<Rightarrow> sim_radio_bus \<Rightarrow> sim_radio_bus" where
  "capture_byte sender byte b =
     (if length (tx_cap b sender) < TX_CAPTURE_MAX
      then b\<lparr>tx_cap := (tx_cap b)(sender := tx_cap b sender @ [byte])\<rparr> else b)"

text \<open>Announcing the busy window after a byte of a chip-level sender.\<close>

definition announce_on_air ::
  "'a radio_world_scheme radio_env \<Rightarrow> int \<Rightarrow> int \<Rightarrow> bool \<Rightarrow> int \<Rightarrow> int \<Rightarrow>
     'a radio_world_scheme \<Rightarrow> 'a radio_world_scheme" where
  "announce_on_air env sender sender_radio fin byte_time byte_ns w =
     (let a = tx_asm (bus w) sender;
          air_bytes = (if fin \<or> asm_state a = TX_ASM_PAYLOAD then frame_air_bytes a
                       else if subghz a then 0 else IEEE802154_PHY_HEADER_BYTES);
          frame_end = first_byte_ns a + air_bytes * byte_ns;
          end_t = (if frame_end > byte_time + byte_ns then frame_end else byte_time + byte_ns)
      in if end_t > on_air_end_ns (bus w) sender
         then bus_on_air env sender sender_radio end_t
                (upd_bus (\<lambda>b. b\<lparr>on_air_end_ns := (on_air_end_ns b)(sender := end_t)\<rparr>) w)
         else w)"

definition sim_radio_bus_tx_byte ::
  "'a radio_world_scheme radio_env \<Rightarrow> int \<Rightarrow> int \<Rightarrow> u8 \<Rightarrow> 'a radio_world_scheme \<Rightarrow> 'a radio_world_scheme" where
  "sim_radio_bus_tx_byte env sender sender_radio byte w =
     (if sender < 0 \<or> sender \<ge> bus_node_count (bus w) then w
      else
        let w1 = upd_bus (arm_first_byte sender byte (now_ns w)) w;
            byte_ns = byte_period_ns (sender_subghz w1 sender);
            byte_time = tx_byte_time sender (bus w1);
            w2 = upd_bus (capture_byte sender byte) w1;
            depth = tx_depth (bus w2);
            w3 = env_hook env (On_tx_byte sender byte byte_time depth) w2;
            w4 = dispatch_tx_byte env sender sender_radio byte byte_time depth w3;
            on_air = (delivery (bus w4) sender = SIM_RADIO_DELIVERY_PER_BYTE)
        in if depth > 0 then w4
           else
             let (fin, a) = sim_radio_bus_asm_feed byte (tx_asm (bus w4) sender);
                 w5 = upd_bus (set_asm sender a) w4;
                 w6 = (if on_air then announce_on_air env sender sender_radio fin byte_time byte_ns w5 else w5)
             in if \<not> fin then w6
                else
                  let w7 = upd_bus (\<lambda>b. b\<lparr>tx_depth := tx_depth b + 1\<rparr>) w6
                  in upd_bus (\<lambda>b. b\<lparr>tx_depth := tx_depth b - 1\<rparr>)
                       (sim_radio_bus_frame_complete env sender sender_radio byte_time byte_ns w7))"

definition sim_radio_bus_set_tx_at :: "int \<Rightarrow> int \<Rightarrow> sim_radio_bus \<Rightarrow> sim_radio_bus" where
  "sim_radio_bus_set_tx_at i at_t b =
     (if i < 0 \<or> i \<ge> SIM_RADIO_BUS_MAX_NODES then b
      else set_asm i ((tx_asm b i)\<lparr>at_override_ns := at_t\<rparr>) b)"

definition sim_radio_bus_consumer_frame_end_ns :: "sim_radio_bus \<Rightarrow> int \<Rightarrow> int" where
  "sim_radio_bus_consumer_frame_end_ns b i =
     (if i < 0 \<or> i \<ge> SIM_RADIO_BUS_MAX_NODES then 0 else consumer_frame_end_ns b i)"

definition hand_frame ::
  "'a radio_world_scheme radio_env \<Rightarrow> int \<Rightarrow> u8 list \<Rightarrow> int \<Rightarrow> int \<Rightarrow>
     'a radio_world_scheme \<Rightarrow> 'a radio_world_scheme" where
  "hand_frame env sender frame now i w =
     (case (if has_mote w i then env_receive_frame env i else None) of
        None \<Rightarrow> w
      | Some rcv \<Rightarrow> (let (r, w1) = rcv frame now sender w in upd_bus (count_frame (r < 0)) w1))"

definition tx_frame_neighbor ::
  "'a radio_world_scheme radio_env \<Rightarrow> int \<Rightarrow> u8 list \<Rightarrow> int \<Rightarrow> int \<Rightarrow>
     'a radio_world_scheme \<Rightarrow> 'a radio_world_scheme" where
  "tx_frame_neighbor env sender frame now i w =
     (let w1 = bus_sync_channel env i w in
      if has_mote w1 i \<and> env_receive_frame env i \<noteq> None
      then let (ok, rm) = radio_medium_filter_frame (env_plug env) sender i (medium w1);
               w2 = w1\<lparr>medium := rm\<rparr>
           in if ok then hand_frame env sender frame now i w2 else w2
      else w1)"

definition sim_radio_bus_tx_frame_at ::
  "'a radio_world_scheme radio_env \<Rightarrow> int \<Rightarrow> u8 list \<Rightarrow> int \<Rightarrow> 'a radio_world_scheme \<Rightarrow> 'a radio_world_scheme" where
  "sim_radio_bus_tx_frame_at env sender frame at_t w =
     (let now = (if at_t > 0 \<and> at_t < now_ns w then at_t else now_ns w);
          w1 = upd_bus (\<lambda>b. b\<lparr>frame_start_ns := now\<rparr>) (bus_sync_channel env sender w);
          tx_end = now + frame_air_ns (int (length frame));
          w2 = bus_on_air env sender 0 tx_end w1
      in if rm_type (medium w2) \<noteq> RADIO_MEDIUM_NONE
         then interfere env False sender 0 now tx_end
                (fold (tx_frame_neighbor env sender frame now) (neighbors (medium w2) sender) w2)
         else for_nodes (\<lambda>i w. if i = sender then w else hand_frame env sender frame now i w) w2)"

definition sim_radio_bus_tx_frame ::
  "'a radio_world_scheme radio_env \<Rightarrow> int \<Rightarrow> u8 list \<Rightarrow> 'a radio_world_scheme \<Rightarrow> 'a radio_world_scheme" where
  "sim_radio_bus_tx_frame env sender frame w = sim_radio_bus_tx_frame_at env sender frame 0 w"

end
