(* ===== verification/Radio_Medium_Correct.thy ===== *)
theory Radio_Medium_Correct
  imports Radio_Medium
begin

text \<open>
  Correctness of the radio medium: the random numbers, the frame tracker on well-formed frames,
  the per-frame decisions, the unit-disk policy and the table of cut links; and three places
  where the code does not do what its comments promise.
\<close>

subsection \<open>Random numbers\<close>

lemma shift_fixed_zero:
  "x = push_bit k x \<Longrightarrow> 0 < k \<Longrightarrow> (x :: u32) = 0" "x = drop_bit k x \<Longrightarrow> 0 < k \<Longrightarrow> (x :: u32) = 0"
proof -
  assume x: "x = push_bit k x" and k: "0 < k"
  have "\<not> bit x n" for n
  proof (induction n rule: less_induct)
    case (less n)
    then show ?case using k arg_cong [OF x, of "\<lambda>w. bit w n"]
      by (cases "k \<le> n") (auto simp: bit_push_bit_iff)
  qed
  then show "x = 0" by (simp add: bit_eq_iff)
next
  assume x: "x = drop_bit k x" and k: "0 < k"
  have "\<not> bit x n" for n
  proof
    assume b: "bit x n"
    have "bit x (n + m * k)" for m
    proof (induction m)
      case 0
      show ?case using b by simp
    next
      case (Suc m)
      then show ?case using arg_cong [OF x, of "\<lambda>w. bit w (n + m * k)"] by (simp add: bit_drop_bit_eq ac_simps)
    qed
    then have "n + 32 * k < 32" using bit_imp_le_length [of x "n + 32 * k"] by simp
    then show False using k by simp
  qed
  then show "x = 0" by (simp add: bit_eq_iff)
qed

lemma xor_eq_0: "(a :: u32) XOR b = 0 \<longleftrightarrow> a = b"
  by (metis xor.assoc xor.left_neutral xor.right_neutral xor_self_eq)

lemma xorshift32_nonzero: "x \<noteq> 0 \<Longrightarrow> xorshift32 x \<noteq> 0"
  unfolding xorshift32_def Let_def xor_eq_0 using shift_fixed_zero by (metis xor_eq_0 zero_less_numeral)

text \<open>
  The random number generator never gets stuck: seeding replaces the absorbing state 0, a
  draw keeps the state nonzero, and every draw lies in the closed unit interval.
\<close>

theorem rng_never_stuck:
  assumes "rng_state rm \<noteq> 0 \<or> rm = radio_medium_set_seed seed rm0" "rng_next rm = (roll, rm')"
  shows "rng_state rm' \<noteq> 0 \<and> 0 \<le> roll \<and> roll \<le> 1"
proof -
  have nz: "rng_state rm \<noteq> 0" using assms(1) by (auto simp: radio_medium_set_seed_def split: if_splits)
  let ?x = "xorshift32 (rng_state rm)"
  have "?x AND 0x7FFFFFFF \<le> 0x7FFFFFFF" by (rule word_and_le1)
  define u where "u = unat (?x AND 0x7FFFFFFF)"
  have "u \<le> 0x7FFFFFFF" using \<open>?x AND 0x7FFFFFFF \<le> 0x7FFFFFFF\<close> by (simp add: word_le_nat_alt u_def)
  then have "real u \<le> 0x7FFFFFFF" by simp
  moreover have "roll = real u / 0x7FFFFFFF" "rng_state rm' = ?x"
    using assms(2) unfolding u_def rng_next_def Let_def by (simp_all only: prod.inject) auto
  ultimately show ?thesis using xorshift32_nonzero [OF nz] by simp
qed

theorem rng_never_stuck_witness:
  "rng_state (snd (rng_next (radio_medium_set_seed 0 (radio_medium_init 2)))) \<noteq> 0"
proof -
  obtain roll rm' where r: "rng_next (radio_medium_set_seed 0 (radio_medium_init 2)) = (roll, rm')" by fastforce
  from rng_never_stuck [OF _ r, of 0 "radio_medium_init 2"] show ?thesis by (simp add: r)
qed

subsection \<open>The frame tracker on well-formed frames\<close>

definition track_bytes :: "int \<Rightarrow> int \<Rightarrow> u8 list \<Rightarrow> radio_medium \<Rightarrow> radio_medium" where
  "track_bytes s r bs rm = fold (track_byte s r) bs rm"

lemma track_bytes_simps [simp]:
  "track_bytes s r [] rm = rm" "track_bytes s r (b # bs) rm = track_bytes s r bs (track_byte s r b rm)"
  "track_bytes s r (xs @ ys) rm = track_bytes s r ys (track_bytes s r xs rm)"
  by (simp_all add: track_bytes_def)

text \<open>What a tracked byte changes besides the sender's tracker: at most the frame counter and decisions.\<close>

lemma start_new_frame_sel [simp]:
  "nodes (snd (start_new_frame s r ft rm)) = nodes rm" "frame_track (snd (start_new_frame s r ft rm)) = frame_track rm"
  "next_frame_id (snd (start_new_frame s r ft rm)) = next_frame_id rm + 1"
  "rm_type (snd (start_new_frame s r ft rm)) = rm_type rm" "udgm (snd (start_new_frame s r ft rm)) = udgm rm"
  "link_blocked (snd (start_new_frame s r ft rm)) = link_blocked rm"
  "rng_state (snd (start_new_frame s r ft rm)) = rng_state rm"
  "medium_ops (snd (start_new_frame s r ft rm)) = medium_ops rm" "node_count (snd (start_new_frame s r ft rm)) = node_count rm"
  "profile (fst (start_new_frame s r ft rm)) = profile ft" "ft_state (fst (start_new_frame s r ft rm)) = ft_state ft"
  "frame_id (fst (start_new_frame s r ft rm)) = next_frame_id rm + 1" "zero_count (fst (start_new_frame s r ft rm)) = zero_count ft"
  "frame_start_channel (fst (start_new_frame s r ft rm)) = channel (radios (nodes rm s) r)"
  by (simp_all add: start_new_frame_def Let_def)

lemma track_802154_frame [simp]:
  "nodes (snd (track_byte_802154 s r b ft rm)) = nodes rm" "rm_type (snd (track_byte_802154 s r b ft rm)) = rm_type rm"
  "udgm (snd (track_byte_802154 s r b ft rm)) = udgm rm" "link_blocked (snd (track_byte_802154 s r b ft rm)) = link_blocked rm"
  "rng_state (snd (track_byte_802154 s r b ft rm)) = rng_state rm" "medium_ops (snd (track_byte_802154 s r b ft rm)) = medium_ops rm"
  "node_count (snd (track_byte_802154 s r b ft rm)) = node_count rm"
  "frame_track (snd (track_byte_802154 s r b ft rm)) = frame_track rm"
  "profile (fst (track_byte_802154 s r b ft rm)) = profile ft"
  by (auto simp: track_byte_802154_def Let_def split: frame_track_state.split)

lemma track_802154g_frame [simp]:
  "nodes (snd (track_byte_802154g s r b ft rm)) = nodes rm" "rm_type (snd (track_byte_802154g s r b ft rm)) = rm_type rm"
  "udgm (snd (track_byte_802154g s r b ft rm)) = udgm rm" "link_blocked (snd (track_byte_802154g s r b ft rm)) = link_blocked rm"
  "rng_state (snd (track_byte_802154g s r b ft rm)) = rng_state rm" "medium_ops (snd (track_byte_802154g s r b ft rm)) = medium_ops rm"
  "node_count (snd (track_byte_802154g s r b ft rm)) = node_count rm"
  by (auto simp: track_byte_802154g_def sync_byte_802154g_def Let_def split: frame_track_state.split)

lemma set_tracker_sel [simp]:
  "frame_track (set_tracker s r ft rm) s r = ft" "nodes (set_tracker s r ft rm) = nodes rm"
  "next_frame_id (set_tracker s r ft rm) = next_frame_id rm" "rm_type (set_tracker s r ft rm) = rm_type rm"
  "udgm (set_tracker s r ft rm) = udgm rm" "link_blocked (set_tracker s r ft rm) = link_blocked rm"
  "rng_state (set_tracker s r ft rm) = rng_state rm" "medium_ops (set_tracker s r ft rm) = medium_ops rm"
  "rx_decisions (set_tracker s r ft rm) = rx_decisions rm" "node_count (set_tracker s r ft rm) = node_count rm"
  by (simp_all add: set_tracker_def)

lemma track_byte_sel [simp]:
  "nodes (track_byte s r b rm) = nodes rm" "rm_type (track_byte s r b rm) = rm_type rm"
  "udgm (track_byte s r b rm) = udgm rm" "link_blocked (track_byte s r b rm) = link_blocked rm"
  "rng_state (track_byte s r b rm) = rng_state rm" "medium_ops (track_byte s r b rm) = medium_ops rm"
  "node_count (track_byte s r b rm) = node_count rm"
  by (simp_all add: track_byte_def Let_def split_beta)

lemma track_byte_154:
  assumes "profile (frame_track rm s r) = RADIO_FRAME_PROFILE_IEEE802154"
  shows "frame_track (track_byte s r b rm) s r = fst (track_byte_802154 s r b (frame_track rm s r) rm)"
    and "next_frame_id (track_byte s r b rm) = next_frame_id (snd (track_byte_802154 s r b (frame_track rm s r) rm))"
    and "rx_decisions (track_byte s r b rm) = rx_decisions (snd (track_byte_802154 s r b (frame_track rm s r) rm))"
  using assms by (simp_all add: track_byte_def Let_def split_beta)

lemma track_preamble:
  assumes "profile (frame_track rm s r) = RADIO_FRAME_PROFILE_IEEE802154" "ft_state (frame_track rm s r) = FRAME_PREAMBLE"
  shows "profile (frame_track (track_bytes s r (replicate k 0) rm) s r) = RADIO_FRAME_PROFILE_IEEE802154 \<and>
    ft_state (frame_track (track_bytes s r (replicate k 0) rm) s r) = FRAME_PREAMBLE \<and>
    zero_count (frame_track (track_bytes s r (replicate k 0) rm) s r) = zero_count (frame_track rm s r) + int k \<and>
    frame_id (frame_track (track_bytes s r (replicate k 0) rm) s r) = frame_id (frame_track rm s r) \<and>
    next_frame_id (track_bytes s r (replicate k 0) rm) = next_frame_id rm \<and>
    nodes (track_bytes s r (replicate k 0) rm) = nodes rm"
  using assms
proof (induction k arbitrary: rm)
  case (Suc k)
  let ?rm = "track_byte s r 0 rm"
  have "profile (frame_track ?rm s r) = RADIO_FRAME_PROFILE_IEEE802154" "ft_state (frame_track ?rm s r) = FRAME_PREAMBLE"
    "zero_count (frame_track ?rm s r) = zero_count (frame_track rm s r) + 1"
    "frame_id (frame_track ?rm s r) = frame_id (frame_track rm s r)" "next_frame_id ?rm = next_frame_id rm"
    using Suc.prems by (simp_all add: track_byte_154) (simp_all add: track_byte_802154_def)
  then show ?case using Suc.IH [of ?rm] by simp
qed simp

lemma track_data:
  assumes "profile (frame_track rm s r) = RADIO_FRAME_PROFILE_IEEE802154" "ft_state (frame_track rm s r) = FRAME_DATA"
    and "byte_count (frame_track rm s r) + int (length bs) \<le> ft_length (frame_track rm s r)" "bs \<noteq> []"
  shows "ft_state (frame_track (track_bytes s r bs rm) s r) =
      (if byte_count (frame_track rm s r) + int (length bs) = ft_length (frame_track rm s r) then FRAME_IDLE else FRAME_DATA) \<and>
    frame_id (frame_track (track_bytes s r bs rm) s r) = frame_id (frame_track rm s r) \<and>
    frame_start_channel (frame_track (track_bytes s r bs rm) s r) = frame_start_channel (frame_track rm s r) \<and>
    next_frame_id (track_bytes s r bs rm) = next_frame_id rm \<and>
    rx_decisions (track_bytes s r bs rm) = rx_decisions rm"
  using assms
proof (induction bs arbitrary: rm)
  case (Cons b bs)
  let ?rm = "track_byte s r b rm"
  have s: "profile (frame_track ?rm s r) = RADIO_FRAME_PROFILE_IEEE802154"
    "byte_count (frame_track ?rm s r) = byte_count (frame_track rm s r) + 1"
    "ft_length (frame_track ?rm s r) = ft_length (frame_track rm s r)"
    "ft_state (frame_track ?rm s r) =
      (if byte_count (frame_track rm s r) + 1 \<ge> ft_length (frame_track rm s r) then FRAME_IDLE else FRAME_DATA)"
    "frame_id (frame_track ?rm s r) = frame_id (frame_track rm s r)" "next_frame_id ?rm = next_frame_id rm"
    "frame_start_channel (frame_track ?rm s r) = frame_start_channel (frame_track rm s r)"
    "rx_decisions ?rm = rx_decisions rm"
    using Cons.prems by (simp_all add: track_byte_154) (simp_all add: track_byte_802154_def Let_def)
  show ?case
  proof (cases "bs = []")
    case True
    then show ?thesis using s Cons.prems by auto
  next
    case False
    then have "ft_state (frame_track ?rm s r) = FRAME_DATA"
      using s(4) Cons.prems(3) by (cases bs) auto
    then show ?thesis using Cons.IH [of ?rm] s Cons.prems(3) False by (simp add: ac_simps)
  qed
qed simp

text \<open>
  A well-formed IEEE 802.15.4 frame on the air (at least four zero bytes, the start-of-frame
  delimiter, a nonzero length byte and that many payload bytes) takes an idle tracker exactly
  through one frame: one new frame number, the sender's channel frozen at the delimiter, and the
  tracker idle again at the last byte, whatever the payload bytes are.
\<close>

theorem tracker_consumes_frame:
  assumes "profile (frame_track rm s r) = RADIO_FRAME_PROFILE_IEEE802154" "ft_state (frame_track rm s r) = FRAME_IDLE"
    and "4 \<le> k" "uint len = int (length payload)" "payload \<noteq> []"
    and "rm' = track_bytes s r (replicate k 0 @ [0x7A, len] @ payload) rm"
  shows "ft_state (frame_track rm' s r) = FRAME_IDLE \<and> frame_id (frame_track rm' s r) = next_frame_id rm + 1 \<and>
    next_frame_id rm' = next_frame_id rm + 1 \<and>
    frame_start_channel (frame_track rm' s r) = channel (radios (nodes rm s) r)"
proof -
  let ?a = "track_byte s r 0 rm"
  let ?b = "track_bytes s r (replicate (k - 1) 0) ?a"
  let ?c = "track_byte s r 0x7A ?b" and ?d = "track_byte s r len (track_byte s r 0x7A ?b)"
  have a: "profile (frame_track ?a s r) = RADIO_FRAME_PROFILE_IEEE802154" "ft_state (frame_track ?a s r) = FRAME_PREAMBLE"
    "zero_count (frame_track ?a s r) = 1" "next_frame_id ?a = next_frame_id rm"
    using assms(1,2) by (simp_all add: track_byte_154) (simp_all add: track_byte_802154_def)
  note b = track_preamble [OF a(1,2), of "k - 1"]
  have z: "4 \<le> zero_count (frame_track ?b s r)" using b a(3) assms(3) by simp
  have c: "profile (frame_track ?c s r) = RADIO_FRAME_PROFILE_IEEE802154" "ft_state (frame_track ?c s r) = FRAME_SFD"
    "frame_id (frame_track ?c s r) = next_frame_id rm + 1" "next_frame_id ?c = next_frame_id rm + 1"
    "frame_start_channel (frame_track ?c s r) = channel (radios (nodes rm s) r)"
    using b z a(4) by (simp_all add: track_byte_154) (simp_all add: track_byte_802154_def)
  have pos: "0 < uint len" using assms(4,5) by simp
  have d: "profile (frame_track ?d s r) = RADIO_FRAME_PROFILE_IEEE802154" "ft_state (frame_track ?d s r) = FRAME_DATA"
    "frame_id (frame_track ?d s r) = next_frame_id rm + 1" "next_frame_id ?d = next_frame_id rm + 1"
    "frame_start_channel (frame_track ?d s r) = channel (radios (nodes rm s) r)"
    "byte_count (frame_track ?d s r) = 0" "ft_length (frame_track ?d s r) = int (length payload)"
    using c pos assms(4) by (simp_all add: track_byte_154) (simp_all add: track_byte_802154_def)
  have "replicate k (0::u8) = 0 # replicate (k - 1) 0" using assms(3) by (cases k) auto
  then have "rm' = track_bytes s r payload ?d" using assms(6) by simp
  then show ?thesis using track_data [OF d(1,2) _ assms(5)] d by simp
qed

theorem tracker_consumes_frame_witness:
  "next_frame_id (track_bytes 0 0 (replicate 4 0 @ [0x7A, 2] @ [9, 0x7A]) (radio_medium_init 2)) = 1"
  using tracker_consumes_frame [of "radio_medium_init 2" 0 0 4 2 "[9, 0x7A]"]
  by (simp add: radio_medium_init_def zero_tracker_def)

subsection \<open>The byte filter\<close>

lemma pair_match_sel [simp]:
  "frame_track (snd (radio_pair_match s sr r rr rm)) = frame_track rm" "nodes (snd (radio_pair_match s sr r rr rm)) = nodes rm"
  "rng_state (snd (radio_pair_match s sr r rr rm)) = rng_state rm" "rm_type (snd (radio_pair_match s sr r rr rm)) = rm_type rm"
  "udgm (snd (radio_pair_match s sr r rr rm)) = udgm rm" "medium_ops (snd (radio_pair_match s sr r rr rm)) = medium_ops rm"
  by (auto simp: radio_pair_match_def set_decision_def Let_def split_beta)

lemma filter_byte_track:
  assumes "rm_type rm = RADIO_MEDIUM_UDGM" "valid_node s" "valid_node r" "valid_radio sr" "valid_radio rr"
  shows "frame_track (snd (radio_medium_filter_byte_radio plug s sr r rr b rm)) = frame_track (track_byte s sr b rm)"
    and "rm_type (snd (radio_medium_filter_byte_radio plug s sr r rr b rm)) = RADIO_MEDIUM_UDGM"
  using assms
  by (auto simp: radio_medium_filter_byte_radio_def frame_decision_def rng_next_def set_decision_def Let_def split_beta)

text \<open>
  The tracker does not stay in step with the sender's byte stream when a byte is filtered
  for more than one receiver: the filter advances the sender's tracker once per receiver, so
  with two receivers the start-of-frame delimiter is consumed a second time as the length
  byte, and the tracker expects 122 payload bytes whatever the frame's length is.
\<close>

theorem tracker_desync_two_receivers:
  assumes "rm_type rm = RADIO_MEDIUM_UDGM" "valid_node s" "valid_node r1" "valid_node r2" "valid_radio sr"
    and "profile (frame_track rm s sr) = RADIO_FRAME_PROFILE_IEEE802154" "ft_state (frame_track rm s sr) = FRAME_PREAMBLE"
    and "4 \<le> zero_count (frame_track rm s sr)"
    and "rm1 = snd (radio_medium_filter_byte_radio plug s sr r1 0 0x7A rm)"
    and "rm2 = snd (radio_medium_filter_byte_radio plug s sr r2 0 0x7A rm1)"
  shows "ft_state (frame_track rm1 s sr) = FRAME_SFD \<and> ft_state (frame_track rm2 s sr) = FRAME_DATA \<and>
         ft_length (frame_track rm2 s sr) = 122"
proof -
  have v: "valid_radio 0" by (simp add: valid_radio_def)
  have 1: "frame_track rm1 = frame_track (track_byte s sr 0x7A rm)" "rm_type rm1 = RADIO_MEDIUM_UDGM"
    using filter_byte_track [OF assms(1,2,3,5) v] by (simp_all add: assms(9))
  have 2: "frame_track rm2 = frame_track (track_byte s sr 0x7A rm1)"
    using filter_byte_track [OF 1(2) assms(2,4,5) v] by (simp add: assms(10))
  have s1: "ft_state (frame_track rm1 s sr) = FRAME_SFD" "profile (frame_track rm1 s sr) = RADIO_FRAME_PROFILE_IEEE802154"
    using assms(6-8) by (simp_all add: 1 track_byte_154) (simp_all add: track_byte_802154_def)
  then show ?thesis by (simp add: 2 track_byte_154) (simp add: track_byte_802154_def)
qed

text \<open>A world without plugin media.\<close>

definition no_plugins :: "nat \<Rightarrow> medium_policy" where
  "no_plugins k = \<lparr>plug_reception_prob = (\<lambda>_ _ _. 0), plug_get_rssi = (\<lambda>_ _ _. 0), plug_compute_neighbors = None\<rparr>"

definition sample_medium :: radio_medium where
  "sample_medium = track_bytes 0 0 (replicate 4 0) (radio_medium_configure_udgm 50 100 1 1 (radio_medium_init 3))"

lemma sample_medium_tracker:
  "profile (frame_track sample_medium 0 0) = RADIO_FRAME_PROFILE_IEEE802154"
  "ft_state (frame_track sample_medium 0 0) = FRAME_PREAMBLE" "zero_count (frame_track sample_medium 0 0) = 4"
  "rm_type sample_medium = RADIO_MEDIUM_UDGM"
  by (simp_all add: sample_medium_def numeral_eq_Suc radio_medium_configure_udgm_def radio_medium_init_def
      track_byte_def track_byte_802154_def zero_tracker_def)

theorem tracker_desync_two_receivers_witness:
  "ft_length (frame_track (snd (radio_medium_filter_byte_radio no_plugins 0 0 2 0 0x7A
      (snd (radio_medium_filter_byte_radio no_plugins 0 0 1 0 0x7A sample_medium)))) 0 0) = 122"
  using tracker_desync_two_receivers [of sample_medium 0 1 2 0 _ no_plugins] sample_medium_tracker
  by (simp add: valid_node_def valid_radio_def)

fun filter_bytes ::
  "(nat \<Rightarrow> medium_policy) \<Rightarrow> int \<Rightarrow> int \<Rightarrow> int \<Rightarrow> int \<Rightarrow> u8 list \<Rightarrow> radio_medium \<Rightarrow> bool list \<times> radio_medium" where
  "filter_bytes plug s sr r rr [] rm = ([], rm)"
| "filter_bytes plug s sr r rr (b # bs) rm =
     (let (d, rm1) = radio_medium_filter_byte_radio plug s sr r rr b rm;
          (ds, rm2) = filter_bytes plug s sr r rr bs rm1 in (d # ds, rm2))"

text \<open>
  The bytes of a frame from the one at which the tracker starts it: the start-of-frame delimiter after
  four zero bytes, the length and the payload; or the last byte of the sub-GHz synchronisation word,
  the two bytes of the PHR and the payload.
\<close>

fun frame_from :: "frame_tracker \<Rightarrow> u8 list \<Rightarrow> bool" where
  "frame_from ft (b # l # p) \<longleftrightarrow>
     (if profile ft = RADIO_FRAME_PROFILE_IEEE802154
      then ft_state ft = FRAME_PREAMBLE \<and> 4 \<le> zero_count ft \<and> b = SFD_BYTE \<and> 0 < uint l \<and> int (length p) = uint l
      else ft_state ft \<in> {FRAME_IDLE, FRAME_PREAMBLE} \<and> push_bit 8 (sync_match ft) OR ucast b = SUBGHZ_SYNC_WORD \<and>
        p \<noteq> [] \<and> (let len = uint (l AND 7) * 256 + uint (hd p) in 0 < len \<and> int (length (tl p)) = len))"
| "frame_from ft _ \<longleftrightarrow> False"

abbreviation inside :: "int \<Rightarrow> int \<Rightarrow> radio_medium \<Rightarrow> bool" where
  "inside s sr rm \<equiv> ft_state (frame_track rm s sr) \<notin> {FRAME_IDLE, FRAME_PREAMBLE}"

lemma track_inside:
  assumes "inside s sr rm"
  shows "rx_decisions (track_byte s sr b rm) = rx_decisions rm"
    "frame_id (frame_track (track_byte s sr b rm) s sr) = frame_id (frame_track rm s sr)"
    "profile (frame_track (track_byte s sr b rm) s sr) = profile (frame_track rm s sr)"
  using assms
  by (cases "ft_state (frame_track rm s sr)";
      auto simp: track_byte_def track_byte_802154_def track_byte_802154g_def Let_def)+

text \<open>Streams whose every byte reaches the tracker inside a frame.\<close>

fun rides :: "int \<Rightarrow> int \<Rightarrow> u8 list \<Rightarrow> radio_medium \<Rightarrow> bool" where
  "rides s sr [] rm = True"
| "rides s sr (b # bs) rm \<longleftrightarrow> inside s sr rm \<and> rides s sr bs (track_byte s sr b rm)"

lemma rides_data:
  assumes "ft_state (frame_track rm s sr) = FRAME_DATA"
    "byte_count (frame_track rm s sr) + int (length bs) \<le> ft_length (frame_track rm s sr)"
  shows "rides s sr bs rm"
  using assms
proof (induction bs arbitrary: rm)
  case (Cons b bs)
  let ?rm = "track_byte s sr b rm"
  have t: "byte_count (frame_track ?rm s sr) = byte_count (frame_track rm s sr) + 1"
    "ft_length (frame_track ?rm s sr) = ft_length (frame_track rm s sr)"
    "byte_count (frame_track rm s sr) + 1 < ft_length (frame_track rm s sr) \<Longrightarrow> ft_state (frame_track ?rm s sr) = FRAME_DATA"
    using Cons.prems(1) by (auto simp: track_byte_def track_byte_802154_def track_byte_802154g_def Let_def)
  then show ?case using Cons by (cases bs) auto
qed simp

lemma frame_rides:
  assumes "frame_from (frame_track rm s sr) (b # bs)"
  shows "rides s sr bs (track_byte s sr b rm) \<and> bs \<noteq> []"
proof (cases bs)
  case (Cons l p)
  show ?thesis
  proof (cases "profile (frame_track rm s sr) = RADIO_FRAME_PROFILE_IEEE802154")
    case True
    then show ?thesis using assms Cons
      by (auto simp: track_byte_def track_byte_802154_def Let_def split_beta intro!: rides_data)
  next
    case False
    then obtain m q where p: "p = m # q" using assms Cons by (cases p) auto
    have g: "profile (frame_track rm s sr) = RADIO_FRAME_PROFILE_IEEE802154G" using False by (cases "profile (frame_track rm s sr)") auto
    show ?thesis using assms Cons p g
      by (auto simp: track_byte_def track_byte_802154g_def sync_byte_802154g_def Let_def split_beta ac_simps intro!: rides_data)
  qed
qed (use assms in simp)

text \<open>A receiver in the middle of a frame with the fate \<open>d\<close>, and the filter on one more byte of it.\<close>

definition fated :: "bool \<Rightarrow> int \<Rightarrow> int \<Rightarrow> int \<Rightarrow> int \<Rightarrow> radio_medium \<Rightarrow> bool" where
  "fated d s sr r rr rm \<longleftrightarrow>
     (let dec = rx_decisions rm s r; rec = radios (nodes rm r) rr; fid = frame_id (frame_track rm s sr);
          sp = spectrum_match (radios (nodes rm s) sr) sr rec rr in
      rm_type rm = RADIO_MEDIUM_UDGM \<and> \<not> radio_medium_link_blocked rm s r \<and> 0 < fid \<and> dec_frame_id dec = fid \<and>
      (sp \<longrightarrow> channel_decided dec \<and> (channel_match dec \<and> rx_enabled rec \<longrightarrow> decided dec)) \<and>
      d = (sp \<and> channel_match dec \<and> rx_enabled rec \<and> \<not> drop_frame dec))"

lemma fated_byte:
  assumes "fated d s sr r rr rm" "inside s sr rm" "valid_node s" "valid_node r" "valid_radio sr" "valid_radio rr"
  shows "radio_medium_filter_byte_radio plug s sr r rr b rm = (d, track_byte s sr b rm)"
    and "fated d s sr r rr (track_byte s sr b rm)"
  using assms track_inside [OF assms(2), of b]
  by (auto simp: fated_def radio_medium_filter_byte_radio_def radio_pair_match_def radio_medium_link_blocked_def
      frame_decision_def Let_def)

lemma fated_rides:
  assumes "fated d s sr r rr rm" "rides s sr bs rm" "valid_node s" "valid_node r" "valid_radio sr" "valid_radio rr"
  shows "fst (filter_bytes plug s sr r rr bs rm) = replicate (length bs) d \<and>
    rng_state (snd (filter_bytes plug s sr r rr bs rm)) = rng_state rm"
  using assms(1,2)
proof (induction bs arbitrary: rm)
  case (Cons b bs)
  show ?case using Cons.IH [of "track_byte s sr b rm"] Cons.prems fated_byte [OF Cons.prems(1) _ assms(3-6)]
    by (simp add: split_beta Let_def)
qed simp

text \<open>The first byte of a frame starts it: a new number, the sender's channel frozen, the receiver's decision open.\<close>

lemma frame_starts:
  assumes "frame_from (frame_track rm s sr) (b # bs)" "0 \<le> r" "r < node_count rm"
  defines "rm1 \<equiv> track_byte s sr b rm"
  shows "frame_id (frame_track rm1 s sr) = next_frame_id rm + 1"
    "frame_start_channel (frame_track rm1 s sr) = channel (radios (nodes rm s) sr)"
    "dec_frame_id (rx_decisions rm1 s r) = next_frame_id rm + 1" "\<not> decided (rx_decisions rm1 s r)"
    "\<not> channel_decided (rx_decisions rm1 s r)"
proof -
  obtain l p where bs: "bs = l # p" using assms(1) by (cases bs) auto
  have "profile (frame_track rm s sr) \<noteq> RADIO_FRAME_PROFILE_IEEE802154 \<Longrightarrow> profile (frame_track rm s sr) = RADIO_FRAME_PROFILE_IEEE802154G"
    by (cases "profile (frame_track rm s sr)") auto
  then show "frame_id (frame_track rm1 s sr) = next_frame_id rm + 1"
    "frame_start_channel (frame_track rm1 s sr) = channel (radios (nodes rm s) sr)"
    "dec_frame_id (rx_decisions rm1 s r) = next_frame_id rm + 1" "\<not> decided (rx_decisions rm1 s r)"
    "\<not> channel_decided (rx_decisions rm1 s r)"
    using assms(1-3) unfolding rm1_def bs
    by (auto simp: track_byte_def track_byte_802154_def track_byte_802154g_def sync_byte_802154g_def start_new_frame_def
        Let_def split: if_splits)
qed

definition radios_agree :: "int \<Rightarrow> int \<Rightarrow> int \<Rightarrow> int \<Rightarrow> radio_medium \<Rightarrow> bool" where
  "radios_agree s sr r rr rm \<longleftrightarrow>
     (let snd = radios (nodes rm s) sr; rec = radios (nodes rm r) rr in
      spectrum_match snd sr rec rr \<and> channel_ok (channel snd) (channel rec) \<and> rx_enabled rec)"

lemma first_byte_decides:
  fixes plug :: "nat \<Rightarrow> medium_policy"
  assumes "frame_from (frame_track rm s sr) (b # bs)" "rm_type rm = RADIO_MEDIUM_UDGM" "0 \<le> r" "r < node_count rm"
    "valid_node s" "valid_node r" "valid_radio sr" "valid_radio rr" "\<not> radio_medium_link_blocked rm s r" "next_frame_id rm + 1 \<noteq> 0"
  defines "rm1 \<equiv> snd (radio_pair_match s sr r rr (track_byte s sr b rm))"
  defines "d \<equiv> radios_agree s sr r rr rm \<and> fst (rng_next rm) < medium_reception_prob plug rm1 s r"
  defines "rm2 \<equiv> snd (radio_medium_filter_byte_radio plug s sr r rr b rm)"
  shows "fst (radio_medium_filter_byte_radio plug s sr r rr b rm) = d" "fated d s sr r rr rm2"
    "rng_state rm2 = (if radios_agree s sr r rr rm then xorshift32 (rng_state rm) else rng_state rm)"
    "frame_track rm2 = frame_track (track_byte s sr b rm)"
proof -
  note f = frame_starts [OF assms(1,3,4)]
  have pos: "0 < next_frame_id rm + 1" using assms(10) by (simp add: word_neq_0_conv)
  note defs = radio_medium_filter_byte_radio_def radio_pair_match_def frame_decision_def rng_next_def Let_def set_decision_def
    radio_medium_link_blocked_def fated_def radios_agree_def
  show "fst (radio_medium_filter_byte_radio plug s sr r rr b rm) = d" "fated d s sr r rr rm2"
    "rng_state rm2 = (if radios_agree s sr r rr rm then xorshift32 (rng_state rm) else rng_state rm)"
    "frame_track rm2 = frame_track (track_byte s sr b rm)"
    unfolding rm2_def d_def rm1_def using f pos assms(2,5-9)
    by (auto simp: defs not_less not_le)
qed

text \<open>
  C12. A receiver gets every byte of a frame from its start, or none: take any UDGM medium whose
  tracker of the sender is at the start of a frame (802.15.4 with its delimiter and length, or 802.15.4g with
  its synchronisation word and two-byte PHR), whatever was decided for earlier frames, and let the
  bytes of the frame be filtered for one receiver. The verdict is the same for the first byte and all
  others: the radios agree on spectrum and channel, the receiver listens, and the one random number
  drawn for the frame is below the reception probability. Exactly one number is drawn if the
  radios agree, none otherwise. (The filter advances the sender's tracker once per call, so this is about a sender
  with one receiver: see \<open>tracker_desync_two_receivers\<close>.)
\<close>

theorem frame_all_or_nothing:
  fixes plug :: "nat \<Rightarrow> medium_policy"
  assumes "frame_from (frame_track rm s sr) (b # bs)" "rm_type rm = RADIO_MEDIUM_UDGM" "0 \<le> r" "r < node_count rm"
    "valid_node s" "valid_node r" "valid_radio sr" "valid_radio rr" "\<not> radio_medium_link_blocked rm s r" "next_frame_id rm + 1 \<noteq> 0"
  defines "rm1 \<equiv> snd (radio_pair_match s sr r rr (track_byte s sr b rm))"
  defines "d \<equiv> radios_agree s sr r rr rm \<and> fst (rng_next rm) < medium_reception_prob plug rm1 s r"
  shows "fst (filter_bytes plug s sr r rr (b # bs) rm) = replicate (length (b # bs)) d \<and>
    rng_state (snd (filter_bytes plug s sr r rr (b # bs) rm)) =
      (if radios_agree s sr r rr rm then xorshift32 (rng_state rm) else rng_state rm)"
proof -
  let ?rm2 = "snd (radio_medium_filter_byte_radio plug s sr r rr b rm)"
  note f = first_byte_decides [OF assms(1-10), of plug, folded rm1_def, folded d_def]
  have "rides s sr bs ?rm2"
  proof -
    have "rides s sr xs a = rides s sr xs c" if "frame_track a s sr = frame_track c s sr" for xs a c
      using that
    proof (induction xs arbitrary: a c)
      case (Cons x xs)
      have "rides s sr xs (track_byte s sr x a) = rides s sr xs (track_byte s sr x c)" if "inside s sr a"
      proof (rule Cons.IH)
        show "frame_track (track_byte s sr x a) s sr = frame_track (track_byte s sr x c) s sr"
          using that Cons.prems
          by (cases "ft_state (frame_track a s sr)")
            (auto simp: track_byte_def track_byte_802154_def track_byte_802154g_def Let_def)
      qed
      then show ?case using Cons.prems by auto
    qed simp
    then show ?thesis using frame_rides [OF assms(1)] f(4) by metis
  qed
  from fated_rides [OF f(2) this assms(5-8)] show ?thesis using f(1,3)
    by (simp add: split_beta Let_def)
qed

text \<open>
  A frame of three bytes on a lossy medium: the whole frame passes or fails by one roll; here the receiver, at
  the sender's position with both success ratios 1, gets all of it.
\<close>

theorem frame_all_or_nothing_witness:
  "fst (filter_bytes no_plugins 0 0 1 0 [0x7A, 3, 9, 0x7A, 0] sample_medium) = replicate 5 True"
proof -
  let ?rm = sample_medium
  have n: "node_count ?rm = 3" "link_blocked ?rm = None" "next_frame_id ?rm = 0" "medium_ops ?rm = csim_udgm_ops"
    "tx_range (udgm ?rm) = 50" "success_ratio_tx (udgm ?rm) = 1" "success_ratio_rx (udgm ?rm) = 1" "rng_state ?rm = 0x12345678"
    "nodes ?rm = (\<lambda>_. \<lparr>pos_x = 0, pos_y = 0, radios = (\<lambda>_. zero_radio), radio_count = 0, alias_channel = -1\<rparr>)"
    by (simp_all add: sample_medium_def numeral_eq_Suc radio_medium_configure_udgm_def radio_medium_init_def
        clamp_node_count_def track_byte_def track_byte_802154_def zero_tracker_def Let_def)
  have fr: "frame_from (frame_track ?rm 0 0) [0x7A, 3, 9, 0x7A, 0]" using sample_medium_tracker by simp
  have agree: "radios_agree 0 0 1 0 ?rm"
    by (simp add: radios_agree_def n zero_radio_def spectrum_match_def channel_ok_def Let_def)
  have roll: "fst (rng_next ?rm) < 1" by (simp add: rng_next_def n xorshift32_def Let_def)
  have prob: "medium_reception_prob no_plugins (snd (radio_pair_match 0 0 1 0 (track_byte 0 0 0x7A ?rm))) 0 1 = 1"
    by (simp add: medium_reception_prob_def udgm_reception_prob_def n sender_power_ratio_def dist_sq_def zero_radio_def Let_def)
  show ?thesis
    using frame_all_or_nothing [OF fr, of 1 0 no_plugins] sample_medium_tracker(4) agree roll prob
    by (simp add: n valid_node_def valid_radio_def radio_medium_link_blocked_def eval_nat_numeral del: filter_bytes.simps)
qed

subsection \<open>The unit-disk policy\<close>

lemma power_ratio_unit: "0 \<le> sender_power_ratio rm n r \<and> sender_power_ratio rm n r \<le> 1"
  by (simp add: sender_power_ratio_def Let_def)

lemma dist_sq_nonneg: "0 \<le> dist_sq rm a b"
  by (simp add: dist_sq_def Let_def)

lemma reception_prob_range:
  assumes "0 < udgm_reception_prob rm s r"
  shows "dist_sq rm s r \<le> (tx_range (udgm rm) * sender_power_ratio rm s 0) * (tx_range (udgm rm) * sender_power_ratio rm s 0)"
  using assms by (auto simp: udgm_reception_prob_def Let_def split: if_splits)

text \<open>
  The unit-disk policy is consistent: reception probabilities are probabilities, a node
  that a sender can reach with positive probability is in the sender's neighbour list, the
  lists of neighbours and of interferers are disjoint, without repetition and without the node
  itself, and they fit their arrays.
\<close>

theorem udgm_policy_consistent:
  assumes "node_count rm \<le> 128" "0 \<le> i" "i < node_count rm" "rm' = udgm_compute_neighbors rm"
  shows "0 \<le> udgm_reception_prob rm i j \<and> udgm_reception_prob rm i j \<le> 1 \<and>
    (0 \<le> j \<and> j < node_count rm \<and> j \<noteq> i \<and> 0 < udgm_reception_prob rm i j \<longrightarrow> j \<in> set (neighbors rm' i)) \<and>
    set (neighbors rm' i) \<inter> set (interference_neighbors rm' i) = {} \<and>
    distinct (neighbors rm' i @ interference_neighbors rm' i) \<and>
    i \<notin> set (neighbors rm' i @ interference_neighbors rm' i) \<and>
    length (neighbors rm' i @ interference_neighbors rm' i) < 128"
proof -
  let ?js = "filter (\<lambda>j. j \<noteq> i) (map int [0..<nat (node_count rm)])"
  define tr where "tr = tx_range (udgm rm) * sender_power_ratio rm i 0"
  define ir where "ir = interference_range (udgm rm) * sender_power_ratio rm i 0"
  let ?P = "\<lambda>j. dist_sq rm i j \<le> tr * tr" and ?Q = "\<lambda>j. \<not> dist_sq rm i j \<le> tr * tr \<and> dist_sq rm i j \<le> ir * ir"
  have n: "neighbors rm' i = filter ?P ?js" "interference_neighbors rm' i = filter ?Q ?js"
    using assms by (simp_all add: udgm_compute_neighbors_def udgm_node_neighbors_def Let_def tr_def ir_def)
  have js: "distinct ?js" "set ?js = {0..<node_count rm} - {i}"
  proof -
    show "distinct ?js" by (simp add: distinct_map)
    have "int ` {0..<nat (node_count rm)} = {0..<node_count rm}"
      using image_int_atLeastLessThan [of 0 "nat (node_count rm)"] assms(2,3) by simp
    then show "set ?js = {0..<node_count rm} - {i}" by auto
  qed
  have d: "distinct (filter ?P ?js @ filter ?Q ?js)" "set (filter ?P ?js) \<inter> set (filter ?Q ?js) = {}"
    using distinct_filter [OF js(1)] by (auto simp del: filter_filter)
  have "length (filter ?P ?js @ filter ?Q ?js) = card (set (filter ?P ?js @ filter ?Q ?js))"
    using distinct_card [OF d(1)] by simp
  also have "\<dots> \<le> card ({0..<node_count rm} - {i})" using js(2) by (intro card_mono) auto
  also have "\<dots> < 128" using assms(1-3) by simp
  finally have "length (neighbors rm' i @ interference_neighbors rm' i) < 128" by (simp add: n)
  moreover have "0 \<le> udgm_reception_prob rm i j \<and> udgm_reception_prob rm i j \<le> 1"
    by (simp add: udgm_reception_prob_def Let_def)
  moreover have "j \<in> set (neighbors rm' i)" if "0 \<le> j" "j < node_count rm" "j \<noteq> i" "0 < udgm_reception_prob rm i j"
  proof -
    have "j \<in> set ?js" using js(2) that(1-3) by simp
    then show ?thesis using reception_prob_range [OF that(4)] by (auto simp: n tr_def)
  qed
  moreover have "i \<notin> set (neighbors rm' i @ interference_neighbors rm' i)" by (simp add: n)
  ultimately show ?thesis using d by (simp add: n)
qed

theorem udgm_policy_consistent_witness:
  "\<not> (0 :: int) \<in> set (neighbors (udgm_compute_neighbors sample_medium) 0)"
proof -
  have "node_count sample_medium = 3"
    by (simp add: sample_medium_def numeral_eq_Suc radio_medium_configure_udgm_def radio_medium_init_def clamp_node_count_def)
  then show ?thesis using udgm_policy_consistent [of sample_medium 0 _ 1] by simp
qed

lemma udgm_rssi_eq:
  assumes "0 < tx_range (udgm rm) * sender_power_ratio rm s 0"
  shows "udgm_get_rssi rm s r =
    \<lceil>- 10 - 80 * min 1 (sqrt (dist_sq rm s r) / (tx_range (udgm rm) * sender_power_ratio rm s 0))\<rceil>"
proof -
  define x where "x = sqrt (dist_sq rm s r) / (tx_range (udgm rm) * sender_power_ratio rm s 0)"
  have x: "0 \<le> x" using assms dist_sq_nonneg [of rm s r] by (simp add: x_def)
  have "udgm_get_rssi rm s r = (let v = - 10 - 80 * (if x > 1 then 1 else x);
      v1 = (if v < - 128 then - 128 else v); v2 = (if v1 > 0 then 0 else v1) in trunc_to_int v2)"
    using assms unfolding udgm_get_rssi_def Let_def x_def [symmetric] by simp
  then show ?thesis
    unfolding x_def [symmetric] using x by (cases "x > 1") (auto simp: trunc_to_int_def min_def)
qed

text \<open>
  The signal strength of the unit-disk policy lies between -90 and -10 dBm and never grows
  with distance.
\<close>

theorem udgm_rssi_monotone:
  assumes "dist_sq rm s a \<le> dist_sq rm s b"
  shows "- 90 \<le> udgm_get_rssi rm s b \<and> udgm_get_rssi rm s b \<le> udgm_get_rssi rm s a \<and> udgm_get_rssi rm s a \<le> - 10"
proof (cases "0 < tx_range (udgm rm) * sender_power_ratio rm s 0")
  case False
  then show ?thesis by (simp add: udgm_get_rssi_def Let_def)
next
  case True
  let ?R = "tx_range (udgm rm) * sender_power_ratio rm s 0"
  let ?v = "\<lambda>x. - 10 - 80 * min 1 (sqrt (dist_sq rm s x) / ?R)"
  have "sqrt (dist_sq rm s a) / ?R \<le> sqrt (dist_sq rm s b) / ?R"
    using assms True by (intro divide_right_mono) auto
  then have le: "?v b \<le> ?v a" by simp
  have lo: "- 90 \<le> ?v b" by simp
  have hi: "?v a \<le> - 10" using True dist_sq_nonneg [of rm s a] by simp
  have "- 90 \<le> \<lceil>?v b\<rceil>" using lo by linarith
  moreover have "\<lceil>?v a\<rceil> \<le> - 10" using hi by linarith
  ultimately show ?thesis using ceiling_mono [OF le] by (simp add: udgm_rssi_eq [OF True])
qed

theorem udgm_rssi_monotone_witness:
  "- 90 \<le> udgm_get_rssi sample_medium 0 1 \<and> udgm_get_rssi sample_medium 0 1 \<le> - 10"
  using udgm_rssi_monotone [of sample_medium 0 1 1] by simp

subsection \<open>Cut links\<close>

lemma link_bit: "drop_bit k (w :: u64) AND 1 \<noteq> 0 \<longleftrightarrow> bit w k"
  by (simp add: bit_iff_and_drop_bit_eq_1 and_one_eq)

lemma link_set_bit: "k < 64 \<Longrightarrow> bit (w OR push_bit k 1 :: u64) j \<longleftrightarrow> bit w j \<or> j = k"
  "bit (w AND NOT (push_bit k 1) :: u64) j \<longleftrightarrow> bit w j \<and> j \<noteq> k"
  by (auto simp: bit_simps dest: bit_imp_le_length)

definition link_cut :: "(int \<Rightarrow> int \<Rightarrow> u64) \<Rightarrow> int \<Rightarrow> int \<Rightarrow> bool" where
  "link_cut tab s r \<longleftrightarrow> bit (tab s (r div 64)) (nat (r mod 64))"

lemma link_blocked_eq:
  "radio_medium_link_blocked rm s r = (case link_blocked rm of None \<Rightarrow> False
     | Some tab \<Rightarrow> valid_node s \<and> valid_node r \<and> link_cut tab s r)"
  unfolding radio_medium_link_blocked_def link_bit by (auto simp: valid_node_def link_cut_def split: option.split)

lemma link_update_cut:
  assumes "0 \<le> r" "0 \<le> r'"
  shows "link_cut (link_table_update s r b tab) s' r' = (if s' = s \<and> r' = r then b else link_cut tab s' r')"
proof (cases "s' = s \<and> r' div 64 = r div 64")
  case True
  have k: "nat (r mod 64) < 64" by (simp add: nat_less_iff)
  have "nat (r' mod 64) = nat (r mod 64) \<longleftrightarrow> r' = r"
    using True by (metis div_mult_mod_eq eq_nat_nat_iff pos_mod_sign zero_less_numeral)
  then show ?thesis
    using True link_set_bit(1) [OF k] link_set_bit(2) by (auto simp: link_cut_def link_table_update_def Let_def)
next
  case False
  then show ?thesis by (auto simp: link_cut_def link_table_update_def Let_def)
qed

lemma link_any_cut: "link_cut tab s r \<Longrightarrow> valid_node s \<Longrightarrow> valid_node r \<Longrightarrow> link_table_any tab"
proof -
  assume c: "link_cut tab s r" and v: "valid_node s" "valid_node r"
  have "r div 64 = 0 \<or> r div 64 = 1" using v(2) by (auto simp: valid_node_def)
  moreover have "tab s (r div 64) \<noteq> 0" using c by (auto simp: link_cut_def)
  moreover have "s \<in> set (map int [0..<128])" using v(1) by (auto simp: valid_node_def image_iff intro!: bexI [of _ "nat s"])
  ultimately show ?thesis unfolding link_table_any_def by metis
qed

text \<open>
  The table of cut links behaves as a set of directed links: cutting or restoring a link
  changes the answer for exactly that sender and receiver, also when the table is allocated by
  the first cut or freed by the last restore.
\<close>

theorem link_blocked_update:
  assumes "valid_node s" "valid_node r" "rm' = radio_medium_set_link_blocked True s r b rm"
  shows "radio_medium_link_blocked rm' s' r' = (if s' = s \<and> r' = r then b else radio_medium_link_blocked rm s' r')"
proof -
  have nn: "0 \<le> r" using assms(2) by (simp add: valid_node_def)
  have up: "radio_medium_link_blocked (let rm1 = rm\<lparr>link_blocked := Some (link_table_update s r b tab)\<rparr>
      in if \<not> link_table_any (link_table_update s r b tab) then radio_medium_destroy rm1 else rm1) s' r' =
      (if s' = s \<and> r' = r then b else valid_node s' \<and> valid_node r' \<and> link_cut tab s' r')" (is "?l = ?r") for tab
  proof (cases "valid_node s' \<and> valid_node r'")
    case True
    then have "0 \<le> r'" by (simp add: valid_node_def)
    then show ?thesis using True link_update_cut [OF nn, of r' s b tab s'] link_any_cut [of "link_table_update s r b tab" s' r']
      by (auto simp: link_blocked_eq radio_medium_destroy_def Let_def split: if_splits)
  next
    case False
    then show ?thesis using assms(1,2) by (auto simp: link_blocked_eq radio_medium_destroy_def Let_def)
  qed
  show ?thesis
  proof (cases "link_blocked rm")
    case None
    then show ?thesis using assms up [of "\<lambda>_ _. 0"]
      by (auto simp: radio_medium_set_link_blocked_def valid_node_def link_blocked_eq link_cut_def Let_def split: if_splits)
  next
    case (Some tab)
    then show ?thesis using assms up [of tab]
      by (auto simp: radio_medium_set_link_blocked_def valid_node_def link_blocked_eq Let_def)
  qed
qed

theorem link_blocked_update_witness:
  "radio_medium_link_blocked (radio_medium_set_link_blocked True 3 70 True (radio_medium_init 80)) 3 70 \<and>
   \<not> radio_medium_link_blocked (radio_medium_set_link_blocked True 3 70 True (radio_medium_init 80)) 70 3"
  using link_blocked_update [of 3 70 _ True "radio_medium_init 80"]
  by (simp add: valid_node_def) (simp add: radio_medium_link_blocked_def radio_medium_init_def)

subsection \<open>Boundary cases\<close>

text \<open>
  The byte filter can lose a frame on a perfect link: a draw can be exactly 1, and the
  byte filter drops the frame when the draw is not below the reception probability, also when
  that probability is 1; the frame filter, which does not draw at probability 1, delivers.
\<close>

theorem perfect_link_can_drop:
  assumes "rng_state rm = 0xd66cbce7" "medium_reception_prob plug rm s r = 1" "\<not> decided (rx_decisions rm s r)"
  shows "fst (frame_decision plug s r rm) = False"
proof -
  have "xorshift32 0xd66cbce7 = 0x7FFFFFFF" by (simp add: xorshift32_def Let_def)
  then show ?thesis
    using assms by (simp add: frame_decision_def rng_next_def Let_def)
qed

lemma sample_prob: "medium_reception_prob no_plugins (sample_medium\<lparr>rng_state := x\<rparr>) 0 1 = 1"
  by (simp add: sample_medium_def numeral_eq_Suc radio_medium_configure_udgm_def medium_reception_prob_def
      udgm_reception_prob_def dist_sq_def sender_power_ratio_def radio_medium_init_def zero_radio_def Let_def)

theorem perfect_link_can_drop_witness:
  "fst (frame_decision no_plugins 0 1 (sample_medium\<lparr>rng_state := 0xd66cbce7\<rparr>)) = False"
proof (rule perfect_link_can_drop)
  show "medium_reception_prob no_plugins (sample_medium\<lparr>rng_state := 0xd66cbce7\<rparr>) 0 1 = 1" by (rule sample_prob)
  have "rx_decisions sample_medium 0 1 = zero_decision"
    by (simp add: sample_medium_def numeral_eq_Suc radio_medium_configure_udgm_def radio_medium_init_def
      track_byte_def track_byte_802154_def zero_tracker_def)
  then show "\<not> decided (rx_decisions (sample_medium\<lparr>rng_state := 0xd66cbce7\<rparr>) 0 1)"
    by (simp add: zero_decision_def)
qed simp

text \<open>
  The range boundary is inclusive for frames and exclusive for preambles: a receiver
  exactly at the transmission range is a neighbour and receives frames with positive
  probability, but the byte filter drops every preamble byte on its way, so that the receiver
  cannot lock onto the frames it is promised.
\<close>

theorem range_boundary_mismatch:
  assumes "R = tx_range (udgm rm) * sender_power_ratio rm s 0" "0 < R" "dist_sq rm s r = R * R"
    and "0 < success_ratio_rx (udgm rm)" "0 < success_ratio_tx (udgm rm)" "medium_ops rm = csim_udgm_ops"
    and "rm_type rm = RADIO_MEDIUM_UDGM" "valid_node s" "valid_node r"
    and "profile (frame_track rm s 0) = RADIO_FRAME_PROFILE_IEEE802154" "ft_state (frame_track rm s 0) = FRAME_IDLE"
  shows "0 < medium_reception_prob plug rm s r \<and>
         \<not> fst (radio_medium_filter_byte_radio plug s 0 r 0 0 rm)"
proof -
  have p: "udgm_reception_prob rm s r = min 1 (success_ratio_rx (udgm rm) * success_ratio_tx (udgm rm))"
  proof -
    have "0 < R * R" "0 < success_ratio_rx (udgm rm) * success_ratio_tx (udgm rm)" using assms(2,4,5) by simp_all
    then show ?thesis
      unfolding udgm_reception_prob_def Let_def assms(1) [symmetric] assms(3) using assms(2) by (simp add: min_def mult_le_0_iff)
  qed
  have "0 < medium_reception_prob plug rm s r"
    using assms(4-6) by (simp add: medium_reception_prob_def p)
  moreover have "frame_id (frame_track (track_byte s 0 0 rm) s 0) = 0"
    using assms(10,11) by (simp add: track_byte_154) (simp add: track_byte_802154_def)
  moreover have "dist_sq (snd (radio_pair_match s 0 r 0 (track_byte s 0 0 rm))) s r = R * R"
    using assms(3) by (simp add: dist_sq_def)
  moreover have "tx_range (udgm (snd (radio_pair_match s 0 r 0 (track_byte s 0 0 rm)))) *
      sender_power_ratio (snd (radio_pair_match s 0 r 0 (track_byte s 0 0 rm))) s 0 = R"
    using assms(1) by (simp add: sender_power_ratio_def)
  ultimately show ?thesis
    using assms(7-9) by (simp add: radio_medium_filter_byte_radio_def valid_radio_def split_beta Let_def)
qed

theorem range_boundary_mismatch_witness:
  "\<not> fst (radio_medium_filter_byte_radio no_plugins 0 0 1 0 0
      (radio_medium_set_position 1 50 0 (radio_medium_configure_udgm 50 100 1 1 (radio_medium_init 2))))"
  using range_boundary_mismatch [of 50 "radio_medium_set_position 1 50 0 (radio_medium_configure_udgm 50 100 1 1 (radio_medium_init 2))"
      0 1 no_plugins]
  by (simp add: radio_medium_set_position_def upd_node_def valid_node_def radio_medium_configure_udgm_def
      radio_medium_init_def zero_tracker_def zero_radio_def sender_power_ratio_def dist_sq_def Let_def)

end
