(* ===== verification/Sim_Radio_Bus_Correct.thy ===== *)
theory Sim_Radio_Bus_Correct
  imports Sim_Radio_Bus Sim_Runtime_Correct Radio_Medium_Correct
begin

text \<open>
  Correctness of the radio bus: the frame assembler recognises exactly the frames on the air,
  the receive rings behave as bounded queues, draining skips collided frames and delivers at
  most one, the receive watchdog never fires early, and dispatching a byte keeps the invariant
  of the simulation kernel.
\<close>

subsection \<open>The assembler on well-formed frames\<close>

text \<open>Completion flags of a byte stream.\<close>

fun asm_flags :: "u8 list \<Rightarrow> tx_frame_asm \<Rightarrow> bool list \<times> tx_frame_asm" where
  "asm_flags [] a = ([], a)"
| "asm_flags (x # xs) a =
     (let (c, a1) = sim_radio_bus_asm_feed x a; (cs, a2) = asm_flags xs a1 in (c # cs, a2))"

lemma asm_flags_append:
  "asm_flags (xs @ ys) a =
     (fst (asm_flags xs a) @ fst (asm_flags ys (snd (asm_flags xs a))), snd (asm_flags ys (snd (asm_flags xs a))))"
  by (induction xs arbitrary: a) (simp_all add: split_beta Let_def)

lemma asm_flags_length [simp]: "length (fst (asm_flags xs a)) = length xs"
  by (induction xs arbitrary: a) (simp_all add: split_beta Let_def)

lemma asm_flags_take: "length xs = n \<Longrightarrow> take n (fst (asm_flags (xs @ ys) a)) = fst (asm_flags xs a)"
  by (auto simp: asm_flags_append)

text \<open>
  The two PHY formats that the assembler recognises: a 2.4 GHz frame, whose length byte counts the
  whole payload with its FCS, and a sub-GHz frame of the standard CC120x mode, whose one length
  byte counts the payload without the two CRC bytes that follow it. The third format, IEEE
  802.15.4g with its two-byte PHR, is below.
\<close>

datatype phy_frame = Frame24 "u8 list" | FrameSub "u8 list"

fun phy_ok :: "phy_frame \<Rightarrow> bool" where
  "phy_ok (Frame24 p) \<longleftrightarrow> 3 \<le> length p \<and> length p \<le> 127"
| "phy_ok (FrameSub p) \<longleftrightarrow> 5 \<le> length p \<and> length p \<le> 202"

fun phy_bytes :: "phy_frame \<Rightarrow> u8 list" where
  "phy_bytes (Frame24 p) = [0, 0, 0, 0, 0x7A, of_nat (length p)] @ p"
| "phy_bytes (FrameSub p) = [0x55, 0x55, 0x55, 0x55, 0x6E, 0x4E, 0x90, 0x4E, of_nat (length p - 2)] @ p"

text \<open>The assembler between frames; its profile flag may be stale.\<close>

definition asm_idle :: "tx_frame_asm \<Rightarrow> bool" where
  "asm_idle a \<longleftrightarrow> asm_state a = TX_ASM_PREAMBLE \<and> asm_zero_count a = 0"

definition payload_target :: "tx_frame_asm \<Rightarrow> int" where
  "payload_target a = expected_len a + (if subghz a then 2 else 0)"

lemma asm_payload_run:
  assumes "asm_state a = TX_ASM_PAYLOAD" "xs \<noteq> []" "payload_target a = payload_count a + int (length xs)"
  shows "fst (asm_flags xs a) = replicate (length xs - 1) False @ [True] \<and> asm_idle (snd (asm_flags xs a)) \<and>
    frame_air_bytes (snd (asm_flags xs a)) = frame_air_bytes a \<and> subghz (snd (asm_flags xs a)) = subghz a"
  using assms
proof (induction xs arbitrary: a)
  case (Cons x xs)
  show ?case
  proof (cases "xs = []")
    case True
    then show ?thesis using Cons.prems
      by (auto simp: sim_radio_bus_asm_feed_def asm_payload_def payload_target_def asm_idle_def
          frame_air_bytes_def Let_def split: if_splits)
  next
    case False
    let ?a = "a\<lparr>payload_count := payload_count a + 1\<rparr>"
    have f: "sim_radio_bus_asm_feed x a = (False, ?a)"
      using Cons.prems False
      by (cases xs) (auto simp: sim_radio_bus_asm_feed_def asm_payload_def payload_target_def Let_def)
    have "replicate (length xs) False = False # replicate (length xs - 1) False"
      using False by (cases xs) simp_all
    moreover have "frame_air_bytes ?a = frame_air_bytes a" "payload_target ?a = payload_target a"
      by (simp_all add: frame_air_bytes_def payload_target_def)
    ultimately show ?thesis using Cons.IH [of ?a] Cons.prems False f by (simp add: split_beta Let_def)
  qed
qed simp

text \<open>The synchronisation register keeps the last four bytes.\<close>

definition sync_push :: "u8 \<Rightarrow> u32 \<Rightarrow> u32" where
  "sync_push x m = push_bit 8 m OR ucast x"

lemma sync_push_low: "sync_push x m = s \<Longrightarrow> x = ucast s"
  unfolding sync_push_def by (rule bit_word_eqI) (auto simp: bit_simps)

lemma byte_high_bit [simp]: "\<not> bit (y :: u8) (8 + n)"
  using bit_imp_le_length [of y "8 + n"] by auto

lemma sync_push_high: "sync_push y (sync_push x m) = s \<Longrightarrow> x = ucast (drop_bit 8 s)"
  unfolding sync_push_def by (rule bit_word_eqI) (auto simp: bit_simps)

lemma sync_push_four:
  "sync_push x4 (sync_push x3 (sync_push x2 (sync_push x1 m))) =
     push_bit 24 (ucast x1) OR push_bit 16 (ucast x2) OR push_bit 8 (ucast x3) OR ucast x4"
  unfolding sync_push_def by (rule bit_word_eqI) (auto simp: bit_simps)

lemma sync_miss:
  "x \<noteq> 0x4E \<Longrightarrow> sync_push x m \<noteq> SUBGHZ_SYNC_WORD"
  "x \<noteq> 0x90 \<Longrightarrow> sync_push y (sync_push x m) \<noteq> SUBGHZ_SYNC_WORD"
  using sync_push_low [of x m SUBGHZ_SYNC_WORD] sync_push_high [of y x m SUBGHZ_SYNC_WORD] by auto

lemma sync_hit: "sync_push 0x4E (sync_push 0x90 (sync_push 0x4E (sync_push 0x6E m))) = SUBGHZ_SYNC_WORD"
  by (simp add: sync_push_four)

lemma feed_preamble:
  "asm_state a = TX_ASM_PREAMBLE \<Longrightarrow> sim_radio_bus_asm_feed x a = (False, asm_preamble x a)"
  by (simp add: sim_radio_bus_asm_feed_def)

lemma preamble_zero:
  "asm_preamble 0 a = a\<lparr>asm_sync_match := sync_push 0 (asm_sync_match a), asm_zero_count := asm_zero_count a + 1\<rparr>"
  using sync_miss(1) [of 0 "asm_sync_match a"] by (simp add: asm_preamble_def sync_push_def)

lemma preamble_sfd:
  "asm_zero_count a \<ge> 4 \<Longrightarrow>
   asm_preamble 0x7A a = a\<lparr>asm_sync_match := sync_push 0x7A (asm_sync_match a), asm_state := TX_ASM_LENGTH, subghz := False\<rparr>"
  using sync_miss(1) [of "0x7A" "asm_sync_match a"] by (simp add: asm_preamble_def sync_push_def)

lemma preamble_other:
  "x \<noteq> 0 \<Longrightarrow> asm_zero_count a = 0 \<Longrightarrow> sync_push x (asm_sync_match a) \<noteq> SUBGHZ_SYNC_WORD \<Longrightarrow>
   asm_preamble x a = a\<lparr>asm_sync_match := sync_push x (asm_sync_match a), asm_zero_count := 0\<rparr>"
  by (simp add: asm_preamble_def sync_push_def)

lemma preamble_sync:
  "sync_push x (asm_sync_match a) = SUBGHZ_SYNC_WORD \<Longrightarrow>
   asm_preamble x a = a\<lparr>asm_sync_match := SUBGHZ_SYNC_WORD, asm_state := TX_ASM_SUBGHZ_PHR, subghz := True,
     subghz_phr_len := 0, phr_lo := -1, payload_count := 0\<rparr>"
  by (simp add: asm_preamble_def sync_push_def)

lemmas preamble_simps = feed_preamble preamble_zero preamble_sfd preamble_other preamble_sync sync_miss sync_hit

lemma word8_len: "n \<le> 255 \<Longrightarrow> unat (of_nat n :: u8) = n" "n \<le> 255 \<Longrightarrow> uint (of_nat n :: u8) = int n"
  by (simp_all add: unsigned_of_nat take_bit_nat_eq_self take_bit_int_eq_self)

lemma header24:
  assumes "asm_idle a" "3 \<le> n" "n \<le> 127"
  shows "\<exists>b. asm_flags [0, 0, 0, 0, 0x7A, of_nat n] a = (replicate 6 False, b) \<and> asm_state b = TX_ASM_PAYLOAD \<and>
    payload_count b = 0 \<and> expected_len b = int n \<and> \<not> subghz b"
proof -
  have "\<not> (of_nat n :: u8) < 3" "\<not> (127 :: u8) < of_nat n"
    using assms word8_len [of n] by (simp_all add: word_less_nat_alt)
  then show ?thesis using assms word8_len [of n]
    by (simp add: asm_idle_def preamble_simps Let_def split_beta)
       (simp add: sim_radio_bus_asm_feed_def asm_length_def Let_def eval_nat_numeral)
qed

lemma header_sync:
  assumes "asm_idle a"
  shows "\<exists>b. asm_flags [0x55, 0x55, 0x55, 0x55, 0x6E, 0x4E, 0x90, 0x4E] a = (replicate 8 False, b) \<and>
    asm_state b = TX_ASM_SUBGHZ_PHR \<and> phr_lo b = -1 \<and> subghz b"
  using assms by (simp add: asm_idle_def preamble_simps Let_def split_beta) (simp add: eval_nat_numeral)

lemma phr_one:
  assumes "asm_state a = TX_ASM_SUBGHZ_PHR" "phr_lo a = -1" "subghz a" "3 \<le> n" "n \<le> 200"
  shows "\<exists>b. asm_flags [of_nat n] a = ([False], b) \<and> asm_state b = TX_ASM_PAYLOAD \<and>
    payload_count b = 0 \<and> expected_len b = int n \<and> subghz b \<and> subghz_phr_len b = 1"
proof -
  have "(3 :: u8) \<le> of_nat n" "(of_nat n :: u8) \<le> 200"
    using assms word8_len [of n] by (simp_all add: word_le_nat_alt)
  then show ?thesis using assms word8_len [of n]
    by (simp add: sim_radio_bus_asm_feed_def asm_subghz_phr_def)
qed

lemma phr_two:
  assumes "asm_state a = TX_ASM_SUBGHZ_PHR" "phr_lo a = -1" "subghz a" "3 \<le> n" "n \<le> 200"
    and "h < 3 \<or> 200 < h" "h AND 7 = 0"
  shows "\<exists>b. asm_flags [h, of_nat n] a = ([False, False], b) \<and> asm_state b = TX_ASM_PAYLOAD \<and>
    payload_count b = 0 \<and> expected_len b = int n \<and> subghz b \<and> subghz_phr_len b = 2"
proof -
  have h: "\<not> (3 \<le> h \<and> h \<le> 200)" using assms(6) by auto
  show ?thesis using assms h word8_len [of n]
    by (auto simp: sim_radio_bus_asm_feed_def asm_subghz_phr_def Let_def)
qed

text \<open>A header followed by its payload completes exactly at the last byte.\<close>

lemma asm_frame_split:
  assumes h: "asm_flags hd_bytes a = (replicate (length hd_bytes) False, b)"
    and b: "asm_state b = TX_ASM_PAYLOAD" "p \<noteq> []" "payload_target b = payload_count b + int (length p)"
    and air: "frame_air_bytes b = int (length hd_bytes + length p)"
  shows "fst (asm_flags (hd_bytes @ p) a) = replicate (length (hd_bytes @ p) - 1) False @ [True] \<and>
    asm_idle (snd (asm_flags (hd_bytes @ p) a)) \<and>
    frame_air_bytes (snd (asm_flags (hd_bytes @ p) a)) = int (length (hd_bytes @ p))"
proof -
  have "replicate (length hd_bytes) False @ replicate (length p - 1) False = replicate (length (hd_bytes @ p) - 1) False"
    using b(2) by (cases p) (simp_all flip: replicate_add)
  then show ?thesis using asm_payload_run [OF b] h air by (simp add: asm_flags_append)
qed

lemma asm_one_frame:
  assumes "asm_idle a" "phy_ok fr"
  shows "fst (asm_flags (phy_bytes fr) a) = replicate (length (phy_bytes fr) - 1) False @ [True] \<and>
    asm_idle (snd (asm_flags (phy_bytes fr) a)) \<and>
    frame_air_bytes (snd (asm_flags (phy_bytes fr) a)) = int (length (phy_bytes fr))"
proof (cases fr)
  case (Frame24 p)
  let ?h = "[0, 0, 0, 0, 0x7A, of_nat (length p)] :: u8 list"
  obtain b where b: "asm_flags ?h a = (replicate 6 False, b)"
    "asm_state b = TX_ASM_PAYLOAD" "payload_count b = 0" "expected_len b = int (length p)" "\<not> subghz b"
    using header24 [OF assms(1)] assms(2) Frame24 by (metis phy_ok.simps(1))
  show ?thesis unfolding Frame24 phy_bytes.simps
    by (rule asm_frame_split [of _ _ b])
      (use b assms(2) Frame24 in \<open>simp_all add: payload_target_def frame_air_bytes_def del: asm_flags.simps\<close>, auto simp: eval_nat_numeral simp del: asm_flags.simps)
next
  case (FrameSub p)
  let ?s = "[0x55, 0x55, 0x55, 0x55, 0x6E, 0x4E, 0x90, 0x4E] :: u8 list"
  obtain c where c: "asm_flags ?s a = (replicate 8 False, c)"
    "asm_state c = TX_ASM_SUBGHZ_PHR" "phr_lo c = -1" "subghz c"
    using header_sync [OF assms(1)] by blast
  have n: "3 \<le> length p - 2" "length p - 2 \<le> 200" using assms(2) FrameSub by auto
  obtain b where b: "asm_flags [of_nat (length p - 2)] c = ([False], b)" "asm_state b = TX_ASM_PAYLOAD"
    "payload_count b = 0" "expected_len b = int (length p - 2)" "subghz b" "subghz_phr_len b = 1"
    using phr_one [OF c(2-4) n] by blast
  have "asm_flags (?s @ [of_nat (length p - 2)]) a = (replicate 9 False, b)"
    unfolding asm_flags_append c(1) fst_conv snd_conv b(1) by (simp add: eval_nat_numeral)
  then show ?thesis unfolding FrameSub phy_bytes.simps
    by (intro asm_frame_split [of _ _ b])
      (use b n in \<open>simp_all add: payload_target_def frame_air_bytes_def del: asm_flags.simps\<close>, auto simp: eval_nat_numeral simp del: asm_flags.simps)
qed

lemma asm_stream:
  assumes "asm_idle a" "list_all phy_ok frs"
  shows "fst (asm_flags (concat (map phy_bytes frs)) a) =
      concat (map (\<lambda>fr. replicate (length (phy_bytes fr) - 1) False @ [True]) frs) \<and>
    asm_idle (snd (asm_flags (concat (map phy_bytes frs)) a))"
  using assms
proof (induction frs arbitrary: a)
  case (Cons fr frs)
  then show ?case using asm_one_frame [of a fr] by (simp add: asm_flags_append)
qed simp

text \<open>
  C5. The bus recognises the frames of the two formats above exactly: for an assembler between
  frames, whatever the profile of the previous frame, a stream that mixes 2.4 GHz frames (length
  byte 3 to 127) and sub-GHz frames of the standard mode with the one-byte PHR (length byte 3 to
  200, two CRC bytes after it) raises the completion flag at the last byte of each frame and at no
  other byte, and at that moment \<open>frame_air_bytes\<close> is the number of bytes the last frame really
  put on the air. Frames of the 802.15.4g mode (two-byte PHR) are not covered: see
  \<open>fg_frames_misread\<close>.
\<close>

theorem asm_recognises_frames:
  assumes "asm_idle a" "list_all phy_ok (frs @ [fr])"
  shows "fst (asm_flags (concat (map phy_bytes (frs @ [fr]))) a) =
      concat (map (\<lambda>f. replicate (length (phy_bytes f) - 1) False @ [True]) (frs @ [fr])) \<and>
    frame_air_bytes (snd (asm_flags (concat (map phy_bytes (frs @ [fr]))) a)) = int (length (phy_bytes fr))"
  using asm_stream [OF assms] asm_stream [OF assms(1), of frs] assms(2)
    asm_one_frame [of "snd (asm_flags (concat (map phy_bytes frs)) a)" fr]
  by (simp add: asm_flags_append)

definition zero_asm :: tx_frame_asm where
  "zero_asm = \<lparr>asm_state = TX_ASM_PREAMBLE, asm_zero_count = 0, asm_sync_match = 0, phr_lo = 0, expected_len = 0,
     payload_count = 0, subghz = False, subghz_phr_len = 0, first_byte_ns = 0, at_override_ns = 0\<rparr>"

theorem asm_recognises_frames_witness:
  "fst (asm_flags (phy_bytes (FrameSub [1, 2, 3, 4, 5]) @ phy_bytes (Frame24 [1, 2, 3])) zero_asm) =
     replicate 13 False @ [True] @ replicate 8 False @ [True]"
  using asm_recognises_frames [of zero_asm "[FrameSub [1, 2, 3, 4, 5]]" "Frame24 [1, 2, 3]"]
  by (simp add: asm_idle_def zero_asm_def del: asm_flags.simps phy_bytes.simps) (simp add: eval_nat_numeral del: asm_flags.simps)

text \<open>
  A frame of the 802.15.4g mode as the CC1200 sends it (\<open>cc1200.c\<close>, lines 349 to 360): PHRA, PHRB
  with the length of the rest of the frame, CRC included, then that rest.
\<close>

definition fg_bytes :: "u8 \<Rightarrow> u8 list \<Rightarrow> u8 list" where
  "fg_bytes h p = [0x55, 0x55, 0x55, 0x55, 0x6E, 0x4E, 0x90, 0x4E, h, of_nat (length p)] @ p"

lemma asm_payload_short:
  assumes "asm_state a = TX_ASM_PAYLOAD" "payload_count a + int (length xs) < payload_target a"
  shows "fst (asm_flags xs a) = replicate (length xs) False"
  using assms
proof (induction xs arbitrary: a)
  case (Cons x xs)
  let ?a = "a\<lparr>payload_count := payload_count a + 1\<rparr>"
  have f: "sim_radio_bus_asm_feed x a = (False, ?a)"
    using Cons.prems by (auto simp: sim_radio_bus_asm_feed_def asm_payload_def payload_target_def Let_def)
  have "payload_target ?a = payload_target a" by (simp add: payload_target_def)
  then show ?case using Cons.IH [of ?a] Cons.prems f by (simp add: split_beta Let_def)
qed simp

text \<open>
  The 802.15.4g frames are misread. With PHRA = 0x10, the value the comment of
  \<open>sim_radio_bus_asm_feed\<close> gives as its example of a frame that still parses correctly, the assembler
  takes PHRA as the length and completes 18 bytes after it, whatever PHRB says, so that every longer
  frame is cut at its 27th byte; with PHRA = 0 it adds the two CRC bytes that PHRB already counts
  and does not complete within the frame.
\<close>

theorem fg_frames_misread:
  assumes "asm_idle a" "3 \<le> length p" "length p \<le> 200"
  shows "17 < length p \<Longrightarrow>
      take 27 (fst (asm_flags (fg_bytes 0x10 p) a)) = replicate 26 False @ [True] \<and> 27 < length (fg_bytes 0x10 p)"
    and "fst (asm_flags (fg_bytes 0 p) a) = replicate (length (fg_bytes 0 p)) False"
proof -
  let ?s = "[0x55, 0x55, 0x55, 0x55, 0x6E, 0x4E, 0x90, 0x4E] :: u8 list"
  obtain c where c: "asm_flags ?s a = (replicate 8 False, c)"
    "asm_state c = TX_ASM_SUBGHZ_PHR" "phr_lo c = -1" "subghz c"
    using header_sync [OF assms(1)] by blast
  { assume l: "17 < length p"
    obtain b where b: "asm_flags [0x10] c = ([False], b)" "asm_state b = TX_ASM_PAYLOAD" "payload_count b = 0"
      "expected_len b = 16" "subghz b"
      using phr_one [OF c(2-4), of 16] by auto
    let ?t = "of_nat (length p) # take 17 p"
    have t: "fst (asm_flags ?t b) = replicate (length ?t - 1) False @ [True]"
      by (rule conjunct1 [OF asm_payload_run]) (use b l in \<open>simp_all add: payload_target_def\<close>)
    have lt: "length ?t - 1 = 17" "length (?s @ [0x10] @ ?t) = 27" using l by simp_all
    have f: "fst (asm_flags (?s @ [0x10] @ ?t) a) = replicate 26 False @ [True]"
      unfolding asm_flags_append c(1) fst_conv snd_conv b(1) t lt by (simp add: eval_nat_numeral)
    have "fg_bytes 0x10 p = (?s @ [0x10] @ ?t) @ drop 17 p" unfolding fg_bytes_def by simp
    then have "take 27 (fst (asm_flags (fg_bytes 0x10 p) a)) = fst (asm_flags (?s @ [0x10] @ ?t) a)"
      using asm_flags_take [OF lt(2)] by (simp only:)
    then show "take 27 (fst (asm_flags (fg_bytes 0x10 p) a)) = replicate 26 False @ [True] \<and>
        27 < length (fg_bytes 0x10 p)" using l f by (simp add: fg_bytes_def del: asm_flags.simps) }
  obtain b where b: "asm_flags [0, of_nat (length p)] c = ([False, False], b)" "asm_state b = TX_ASM_PAYLOAD"
    "payload_count b = 0" "expected_len b = int (length p)" "subghz b"
    using phr_two [OF c(2-4) assms(2,3), of 0] by auto
  have "fst (asm_flags p b) = replicate (length p) False"
    by (rule asm_payload_short) (use b in \<open>simp_all add: payload_target_def\<close>)
  then have "fst (asm_flags (?s @ [0, of_nat (length p)] @ p) a) = replicate (8 + (2 + length p)) False"
    unfolding asm_flags_append c(1) fst_conv snd_conv b(1) replicate_add by (simp add: eval_nat_numeral)
  moreover have "fg_bytes 0 p = ?s @ [0, of_nat (length p)] @ p" by (simp add: fg_bytes_def)
  moreover have "length (fg_bytes 0 p) = 8 + (2 + length p)" by (simp add: fg_bytes_def)
  ultimately show "fst (asm_flags (fg_bytes 0 p) a) = replicate (length (fg_bytes 0 p)) False" by (simp only:)
qed

subsection \<open>The receive rings are bounded queues\<close>

text \<open>The contract of a bounded queue and what a client may conclude from it.\<close>

locale bounded_fifo =
  fixes inv :: "'q \<Rightarrow> bool" and contents :: "'q \<Rightarrow> 'x list" and bound :: nat
    and push :: "'x \<Rightarrow> 'q \<Rightarrow> 'q" and pop :: "'q \<Rightarrow> 'q"
  assumes push_inv: "inv q \<Longrightarrow> length (contents q) < bound \<Longrightarrow> inv (push x q)"
    and push_contents: "inv q \<Longrightarrow> length (contents q) < bound \<Longrightarrow> contents (push x q) = contents q @ [x]"
    and pop_inv: "inv q \<Longrightarrow> contents q \<noteq> [] \<Longrightarrow> inv (pop q)"
    and pop_contents: "inv q \<Longrightarrow> contents q \<noteq> [] \<Longrightarrow> contents (pop q) = tl (contents q)"
    and bounded: "inv q \<Longrightarrow> length (contents q) \<le> bound"
begin

definition offer :: "'x \<Rightarrow> 'q \<Rightarrow> 'q" where
  "offer x q = (if length (contents q) < bound then push x q else q)"

lemma offer_inv: "inv q \<Longrightarrow> inv (offer x q)"
  by (simp add: offer_def push_inv)

lemma offer_contents: "inv q \<Longrightarrow> contents (offer x q) = take bound (contents q @ [x])"
  using bounded [of q] by (simp add: offer_def push_contents)

lemma offers: "inv q \<Longrightarrow> inv (fold offer xs q) \<and> contents (fold offer xs q) = take bound (contents q @ xs)"
proof (induction xs arbitrary: q)
  case (Cons x xs)
  have "take bound (take bound (contents q @ [x]) @ xs) = take bound (contents q @ x # xs)"
    by (cases "length (contents q) < bound") (simp_all add: take_append)
  then show ?case using Cons by (simp add: offer_inv offer_contents)
qed (simp add: bounded)

lemma pops: "inv q \<Longrightarrow> n \<le> length (contents q) \<Longrightarrow> inv ((pop ^^ n) q) \<and> contents ((pop ^^ n) q) = drop n (contents q)"
proof (induction n)
  case (Suc n)
  then have "contents ((pop ^^ n) q) \<noteq> []" by simp
  then show ?case using Suc by (simp add: pop_inv pop_contents drop_Suc tl_drop)
qed simp

end

definition ring_inv :: "emu_rx_queue \<Rightarrow> bool" where
  "ring_inv q \<longleftrightarrow> 0 \<le> q_head q \<and> q_head q < EMU_RX_QUEUE_SIZE \<and> 0 \<le> q_count q \<and> q_count q \<le> EMU_RX_QUEUE_SIZE"

definition ring_list :: "emu_rx_queue \<Rightarrow> emu_rx_frame list" where
  "ring_list q = map (\<lambda>k. q_frames q ((q_head q + int k) mod EMU_RX_QUEUE_SIZE)) [0..<nat (q_count q)]"

lemma ring_list_length [simp]: "length (ring_list q) = nat (q_count q)"
  by (simp add: ring_list_def)

lemma ring_list_nth: "k < nat (q_count q) \<Longrightarrow> ring_list q ! k = q_frames q ((q_head q + int k) mod EMU_RX_QUEUE_SIZE)"
  by (simp add: ring_list_def)

lemma ring_slots_distinct:
  assumes "0 \<le> j" "j < 64" "0 \<le> k" "k < 64" "(h + j) mod 64 = (h + k) mod (64 :: int)"
  shows "j = k"
proof -
  have "(j - k) mod 64 = 0" using assms(5) by (metis add_diff_cancel_left mod_eq_dvd_iff dvd_imp_mod_0)
  then have "64 dvd (j - k)" by presburger
  then show ?thesis using assms(1-4) zdvd_imp_le [of 64 "j - k"] zdvd_imp_le [of 64 "k - j"]
    by (cases "j > k"; cases "k > j") (auto simp: dvd_diff_commute)
qed

interpretation rx_ring: bounded_fifo ring_inv ring_list 64 push_frame drop_head
proof
  fix q :: emu_rx_queue and f assume q: "ring_inv q"
  { assume l: "length (ring_list q) < 64"
    show "ring_inv (push_frame f q)" using q l by (auto simp: ring_inv_def push_frame_def)
    show "ring_list (push_frame f q) = ring_list q @ [f]"
    proof (rule nth_equalityI)
      fix k assume k: "k < length (ring_list (push_frame f q))"
      have "int k < 64" "0 \<le> q_count q" "q_count q < 64" using k l q by (auto simp: ring_inv_def push_frame_def)
      then have "k \<noteq> nat (q_count q) \<Longrightarrow> (q_head q + int k) mod 64 \<noteq> (q_head q + q_count q) mod 64"
        using ring_slots_distinct [of "int k" "q_count q" "q_head q"] by auto
      then show "ring_list (push_frame f q) ! k = (ring_list q @ [f]) ! k"
        using k q by (cases "k = nat (q_count q)") (auto simp: nth_append ring_list_nth push_frame_def ring_inv_def)
    qed (use q in \<open>auto simp: push_frame_def ring_inv_def nat_add_distrib\<close>) }
  { assume l: "ring_list q \<noteq> []"
    then have c: "q_count q > 0" by (auto simp: ring_list_def)
    show "ring_inv (drop_head q)" using q c by (auto simp: ring_inv_def drop_head_def)
    show "ring_list (drop_head q) = tl (ring_list q)"
      by (rule nth_equalityI)
        (use q c in \<open>auto simp: nth_tl ring_list_nth drop_head_def ring_inv_def nat_diff_distrib mod_simps ac_simps\<close>) }
  show "length (ring_list q) \<le> 64" using q by (auto simp: ring_inv_def)
qed

text \<open>Queueing on the bus: \<open>queued\<close> is the frame as it is stored.\<close>

definition queued :: "u8 list \<times> int \<times> int \<times> int \<times> bool \<Rightarrow> emu_rx_frame" where
  "queued = (\<lambda>(data, rssi_v, arrival, end_t, sub).
     \<lparr>frame_data = take EMU_RX_FRAME_MAX data, frame_rssi = rssi_v, arrival_ns = arrival,
      frame_end_ns = end_t, collided = False, frame_subghz = sub\<rparr>)"

definition queue_frame_args :: "int \<Rightarrow> u8 list \<times> int \<times> int \<times> int \<times> bool \<Rightarrow> sim_radio_bus \<Rightarrow> sim_radio_bus" where
  "queue_frame_args i = (\<lambda>(data, rssi_v, arrival, end_t, sub). sim_radio_bus_queue_frame i data rssi_v arrival end_t sub)"

lemma queue_frame_offer:
  assumes "ring_inv (emu_queue b i)"
  shows "emu_queue (queue_frame_args i x b) = (emu_queue b)(i := rx_ring.offer (queued x) (emu_queue b i))"
    and "st_rx_dropped (bus_stats (queue_frame_args i x b)) =
       st_rx_dropped (bus_stats b) + (if length (ring_list (emu_queue b i)) < 64 then 0 else 1)"
    and "st_rx_queued (bus_stats (queue_frame_args i x b)) =
       st_rx_queued (bus_stats b) + (if length (ring_list (emu_queue b i)) < 64 then 1 else 0)"
  using assms
  by (auto simp: queue_frame_args_def sim_radio_bus_queue_frame_def rx_ring.offer_def queued_def upd_stats_def
      set_queue_def ring_inv_def Let_def split: prod.splits)

lemma queue_frames:
  assumes "ring_inv (emu_queue b i)"
  shows "ring_inv (emu_queue (fold (queue_frame_args i) xs b) i) \<and>
    ring_list (emu_queue (fold (queue_frame_args i) xs b) i) = take 64 (ring_list (emu_queue b i) @ map queued xs) \<and>
    (\<forall>j. j \<noteq> i \<longrightarrow> emu_queue (fold (queue_frame_args i) xs b) j = emu_queue b j) \<and>
    st_rx_dropped (bus_stats (fold (queue_frame_args i) xs b)) =
      st_rx_dropped (bus_stats b) + int (length (ring_list (emu_queue b i)) + length xs - 64)"
  using assms
proof (induction xs arbitrary: b)
  case Nil
  then show ?case using rx_ring.bounded [of "emu_queue b i"] by simp
next
  case (Cons x xs)
  let ?q = "emu_queue b i" and ?q1 = "rx_ring.offer (queued x) (emu_queue b i)"
  note q = queue_frame_offer [OF Cons.prems, of x]
  have bd: "length (ring_list ?q) \<le> 64" by (rule rx_ring.bounded [OF Cons.prems])
  have i1: "ring_inv ?q1" and c1: "ring_list ?q1 = take 64 (ring_list ?q @ [queued x])"
    using rx_ring.offer_inv [OF Cons.prems] rx_ring.offer_contents [OF Cons.prems] by auto
  have "take 64 (take 64 (ring_list ?q @ [queued x]) @ map queued xs) = take 64 (ring_list ?q @ queued x # map queued xs)"
    by (cases "length (ring_list ?q) < 64") (simp_all add: take_append)
  then show ?case using Cons.IH [of "queue_frame_args i x b"] q i1 c1 bd by (auto simp del: ring_list_length)
qed

text \<open>A bus of the size used in examples.\<close>

definition empty_ring :: emu_rx_queue where
  "empty_ring = \<lparr>q_frames = (\<lambda>_. queued ([], 0, 0, 0, False)), q_head = 0, q_count = 0\<rparr>"

definition zero_stats :: sim_radio_bus_stats where
  "zero_stats = \<lparr>st_rx_direct = 0, st_rx_queued = 0, st_rx_drained = 0, st_rx_dropped = 0, st_rx_collided = 0,
     st_frame_queued = 0, st_frame_queue_full = 0, st_frame_collided = 0\<rparr>"

definition zero_bus :: sim_radio_bus where
  "zero_bus = \<lparr>has_ops = (\<lambda>_. False), delivery = (\<lambda>_. SIM_RADIO_DELIVERY_NONE), caps = (\<lambda>_. 0), bus_node_count = 0,
     any_on_air = False, on_air_end_ns = (\<lambda>_. 0), tx_depth = 0, rf_pending = (\<lambda>_. []), tx_asm = (\<lambda>_. zero_asm),
     tx_cap = (\<lambda>_. []), emu_queue = (\<lambda>_. empty_ring), emu_rx_end_ns = (\<lambda>_. 0), rx_stall_deadline_ns = (\<lambda>_. 0),
     rx_stall_pending = (\<lambda>_. False), executing_node = -1, bus_stats = zero_stats, frame_start_ns = 0,
     consumer_frame_end_ns = (\<lambda>_. 0), tx_busy_until_ns = (\<lambda>_. 0), in_delivery = False\<rparr>"

lemma empty_ring_ok: "ring_inv empty_ring" "ring_list empty_ring = []"
  by (simp_all add: ring_inv_def ring_list_def empty_ring_def)

subsection \<open>Marking collisions\<close>

definition overlaps :: "int \<Rightarrow> int \<Rightarrow> emu_rx_frame \<Rightarrow> bool" where
  "overlaps t0 t1 f \<longleftrightarrow> t0 < frame_end_ns f \<and> arrival_ns f < t1"

definition spoil :: "int \<Rightarrow> int \<Rightarrow> emu_rx_frame \<Rightarrow> emu_rx_frame" where
  "spoil t0 t1 f = (if overlaps t0 t1 f then f\<lparr>collided := True\<rparr> else f)"

lemma ring_list_update:
  assumes "ring_inv q" "k < nat (q_count q)"
  shows "ring_list (q\<lparr>q_frames := (q_frames q)((q_head q + int k) mod 64 := f)\<rparr>) = (ring_list q)[k := f]"
proof (rule nth_equalityI)
  fix j assume "j < length (ring_list (q\<lparr>q_frames := (q_frames q)((q_head q + int k) mod 64 := f)\<rparr>))"
  then have j: "j < nat (q_count q)" by simp
  then have "int j < 64" "int k < 64" using assms by (auto simp: ring_inv_def)
  then have "j \<noteq> k \<Longrightarrow> (q_head q + int j) mod 64 \<noteq> (q_head q + int k) mod 64"
    using ring_slots_distinct [of "int j" "int k" "q_head q"] by auto
  then show "ring_list (q\<lparr>q_frames := (q_frames q)((q_head q + int k) mod 64 := f)\<rparr>) ! j = (ring_list q)[k := f] ! j"
    using j assms by (cases "j = k") (auto simp: ring_list_nth)
qed simp

lemma mark_slot_list:
  assumes "ring_inv q" "k < nat (q_count q)"
  shows "ring_list (snd (mark_slot t0 t1 (int k) (n, q))) = (ring_list q)[k := spoil t0 t1 (ring_list q ! k)]"
    and "ring_inv (snd (mark_slot t0 t1 (int k) (n, q)))"
    and "q_count (snd (mark_slot t0 t1 (int k) (n, q))) = q_count q"
    and "fst (mark_slot t0 t1 (int k) (n, q)) =
      n + (if overlaps t0 t1 (ring_list q ! k) \<and> \<not> collided (ring_list q ! k) then 1 else 0)"
proof -
  have "(ring_list q)[k := ring_list q ! k] = ring_list q" by simp
  then show "ring_list (snd (mark_slot t0 t1 (int k) (n, q))) = (ring_list q)[k := spoil t0 t1 (ring_list q ! k)]"
    using ring_list_update [OF assms] ring_list_nth [OF assms(2)]
    by (simp add: mark_slot_def Let_def spoil_def overlaps_def)
  show "ring_inv (snd (mark_slot t0 t1 (int k) (n, q)))" "q_count (snd (mark_slot t0 t1 (int k) (n, q))) = q_count q"
    "fst (mark_slot t0 t1 (int k) (n, q)) =
      n + (if overlaps t0 t1 (ring_list q ! k) \<and> \<not> collided (ring_list q ! k) then 1 else 0)"
    using assms ring_list_nth [OF assms(2)]
    by (auto simp: mark_slot_def Let_def ring_inv_def overlaps_def)
qed

lemma mark_slots:
  assumes "ring_inv q" "m \<le> nat (q_count q)"
  shows "ring_inv (snd (fold (mark_slot t0 t1) (map int [0..<m]) (0, q))) \<and>
    q_count (snd (fold (mark_slot t0 t1) (map int [0..<m]) (0, q))) = q_count q \<and>
    ring_list (snd (fold (mark_slot t0 t1) (map int [0..<m]) (0, q))) =
      map (spoil t0 t1) (take m (ring_list q)) @ drop m (ring_list q) \<and>
    fst (fold (mark_slot t0 t1) (map int [0..<m]) (0, q)) =
      int (length (filter (\<lambda>f. overlaps t0 t1 f \<and> \<not> collided f) (take m (ring_list q))))"
  using assms(2)
proof (induction m)
  case (Suc m)
  obtain n r where st: "fold (mark_slot t0 t1) (map int [0..<m]) (0, q) = (n, r)" by fastforce
  with Suc have r: "ring_inv r" "q_count r = q_count q" "m < nat (q_count r)"
    "ring_list r = map (spoil t0 t1) (take m (ring_list q)) @ drop m (ring_list q)"
    "n = int (length (filter (\<lambda>f. overlaps t0 t1 f \<and> \<not> collided f) (take m (ring_list q))))"
    by auto
  have m: "m < length (ring_list q)" using Suc.prems by simp
  then have x: "ring_list r ! m = ring_list q ! m" by (simp add: r(4) nth_append)
  have "drop m (ring_list q) = ring_list q ! m # drop (Suc m) (ring_list q)" using m by (rule Cons_nth_drop_Suc [symmetric])
  then show ?case using mark_slot_list [OF r(1,3), of t0 t1 n] m
    by (simp add: st x r(1,2,5) take_Suc_conv_app_nth) (simp add: r(4) list_update_append)
qed (simp add: assms(1))

text \<open>
  Interference marks exactly the overlapping frames: a transmission occupying \<open>[t0, t1)\<close>
  leaves the order and content of a receive ring unchanged, sets the collision flag of every
  queued frame whose interval meets it and of no other, and the statistics grow by the number
  of frames that were not yet marked.
\<close>

theorem interference_marks_overlaps:
  assumes "ring_inv (emu_queue b i)"
  shows "ring_list (emu_queue (mark_emulated t0 t1 i b) i) = map (spoil t0 t1) (ring_list (emu_queue b i)) \<and>
    st_rx_collided (bus_stats (mark_emulated t0 t1 i b)) = st_rx_collided (bus_stats b) +
      int (length (filter (\<lambda>f. overlaps t0 t1 f \<and> \<not> collided f) (ring_list (emu_queue b i))))"
  using mark_slots [OF assms order_refl, of t0 t1]
  by (simp add: mark_emulated_def mark_queue_def upd_stats_def set_queue_def split_beta)

theorem interference_marks_overlaps_witness:
  "map collided (ring_list (emu_queue (mark_emulated 100 200 3
      (fold (queue_frame_args 3) [([1], 0, 0, 100, False), ([2], 0, 150, 300, False)] zero_bus)) 3)) = [False, True]"
proof -
  have z: "ring_inv (emu_queue zero_bus 3)" "ring_list (emu_queue zero_bus 3) = []"
    using empty_ring_ok by (simp_all add: zero_bus_def)
  let ?b = "fold (queue_frame_args 3) [([1], 0, 0, 100, False), ([2], 0, 150, 300, False)] zero_bus"
  have "ring_inv (emu_queue ?b 3)"
    "ring_list (emu_queue ?b 3) = [queued ([1], 0, 0, 100, False), queued ([2], 0, 150, 300, False)]"
    using queue_frames [OF z(1), of "[([1], 0, 0, 100, False), ([2], 0, 150, 300, False)]"] z(2)
    by (simp_all del: ring_list_length fold_simps)
  then show ?thesis
    using interference_marks_overlaps [of ?b 3 100 200]
    by (simp add: spoil_def overlaps_def queued_def del: ring_list_length fold_simps)
qed

subsection \<open>A ring over any sequence of operations\<close>

text \<open>
  What happens to the ring of a node over time: a frame is queued, a transmission interferes, or the
  drain loop takes the frame at the head (\<open>q_frames q (q_head q)\<close>) and drops it. The second state
  component collects the frames taken.
\<close>

datatype ring_op = Enqueue "u8 list \<times> int \<times> int \<times> int \<times> bool" | Interfere int int | Take_head

fun ring_op_step :: "int \<Rightarrow> ring_op \<Rightarrow> sim_radio_bus \<times> emu_rx_frame list \<Rightarrow> sim_radio_bus \<times> emu_rx_frame list" where
  "ring_op_step i (Enqueue x) (b, out) = (queue_frame_args i x b, out)"
| "ring_op_step i (Interfere t0 t1) (b, out) = (mark_emulated t0 t1 i b, out)"
| "ring_op_step i Take_head (b, out) =
     (let q = emu_queue b i in
      if \<not> q_count q > 0 then (b, out) else (set_queue i (drop_head q) b, out @ [q_frames q (q_head q)]))"

text \<open>The specification: a list of at most 64 frames, the frames taken from its front, and the number lost.\<close>

fun fifo_op_step :: "ring_op \<Rightarrow> emu_rx_frame list \<times> emu_rx_frame list \<times> int \<Rightarrow> emu_rx_frame list \<times> emu_rx_frame list \<times> int" where
  "fifo_op_step (Enqueue x) (xs, out, lost) =
     (if length xs < 64 then (xs @ [queued x], out, lost) else (xs, out, lost + 1))"
| "fifo_op_step (Interfere t0 t1) (xs, out, lost) = (map (spoil t0 t1) xs, out, lost)"
| "fifo_op_step Take_head ([], out, lost) = ([], out, lost)"
| "fifo_op_step Take_head (x # xs, out, lost) = (xs, out @ [x], lost)"

definition ring_view :: "int \<Rightarrow> sim_radio_bus \<times> emu_rx_frame list \<Rightarrow> emu_rx_frame list \<times> emu_rx_frame list \<times> int" where
  "ring_view i = (\<lambda>(b, out). (ring_list (emu_queue b i), out, st_rx_dropped (bus_stats b)))"

lemma mark_emulated_frame:
  assumes "ring_inv (emu_queue b i)"
  shows "ring_inv (emu_queue (mark_emulated t0 t1 i b) i)"
    and "st_rx_dropped (bus_stats (mark_emulated t0 t1 i b)) = st_rx_dropped (bus_stats b)"
    and "j \<noteq> i \<Longrightarrow> emu_queue (mark_emulated t0 t1 i b) j = emu_queue b j"
    and "ring_list (emu_queue (mark_emulated t0 t1 i b) i) = map (spoil t0 t1) (ring_list (emu_queue b i))"
  using mark_slots [OF assms order_refl, of t0 t1]
  by (simp_all add: mark_emulated_def mark_queue_def upd_stats_def set_queue_def split_beta)

lemma take_head_view:
  assumes "ring_inv (emu_queue b i)"
  shows "ring_inv (emu_queue (fst (ring_op_step i Take_head (b, out))) i) \<and>
    ring_view i (ring_op_step i Take_head (b, out)) = fifo_op_step Take_head (ring_view i (b, out))"
proof (cases "ring_list (emu_queue b i)")
  case Nil
  then have "\<not> q_count (emu_queue b i) > 0" using ring_list_length [of "emu_queue b i"] by auto
  then show ?thesis using Nil assms by (simp add: ring_view_def Let_def)
next
  case (Cons f fs)
  then have c: "q_count (emu_queue b i) > 0" using ring_list_length [of "emu_queue b i"] by (cases "q_count (emu_queue b i) > 0") auto
  then have "q_frames (emu_queue b i) (q_head (emu_queue b i)) = f"
    using Cons assms ring_list_nth [of 0 "emu_queue b i"] by (simp add: ring_inv_def)
  then show ?thesis using c Cons rx_ring.pop_inv [OF assms] rx_ring.pop_contents [OF assms]
    by (simp add: ring_view_def Let_def set_queue_def)
qed

lemma ring_op_refines:
  assumes "ring_inv (emu_queue b i)"
  shows "ring_inv (emu_queue (fst (ring_op_step i op (b, out))) i) \<and>
    ring_view i (ring_op_step i op (b, out)) = fifo_op_step op (ring_view i (b, out)) \<and>
    (j \<noteq> i \<longrightarrow> emu_queue (fst (ring_op_step i op (b, out))) j = emu_queue b j)"
proof (cases op)
  case (Enqueue x)
  then show ?thesis using queue_frame_offer [OF assms, of x] rx_ring.offer_inv [OF assms, of "queued x"]
      rx_ring.push_contents [OF assms, of "queued x"]
    by (simp add: ring_view_def rx_ring.offer_def del: ring_list_length)
next
  case (Interfere t0 t1)
  then show ?thesis using mark_emulated_frame [OF assms] by (simp add: ring_view_def)
next
  case Take_head
  then show ?thesis using take_head_view [OF assms] by (simp add: Let_def set_queue_def)
qed

text \<open>
  C20. A receive ring is a bounded FIFO, over any interleaving of queueing a frame for the node, of
  interference with what is queued, and of taking the frame at the head: from any ring with indices
  in range, the contents in order, the sequence of frames taken and the drop counter are those of a
  list of at most 64 frames to which frames are appended (cut to 160 bytes, not marked collided; a
  frame that does not fit is counted as dropped), from whose front they are taken, and on which
  interference only marks the overlapping frames. No other node's ring changes.
\<close>

theorem rx_queue_bounded_fifo:
  assumes "ring_inv (emu_queue b i)"
  shows "ring_view i (fold (ring_op_step i) ops (b, out)) = fold fifo_op_step ops (ring_view i (b, out)) \<and>
    ring_inv (emu_queue (fst (fold (ring_op_step i) ops (b, out))) i) \<and>
    (\<forall>j. j \<noteq> i \<longrightarrow> emu_queue (fst (fold (ring_op_step i) ops (b, out))) j = emu_queue b j)"
  using assms
proof (induction ops arbitrary: b out)
  case (Cons op ops)
  obtain b1 out1 where s: "ring_op_step i op (b, out) = (b1, out1)" by fastforce
  show ?case using ring_op_refines [OF Cons.prems, of op out] Cons.IH [of b1 out1] by (simp add: s)
qed simp

theorem rx_queue_bounded_fifo_witness:
  "map frame_data (snd (fold (ring_op_step 3)
      [Enqueue ([1], -40, 5, 9, False), Enqueue ([2], -40, 9, 12, False), Take_head,
       Enqueue ([3], -40, 20, 25, False), Interfere 10 11, Take_head, Take_head, Take_head] (zero_bus, []))) = [[1], [2], [3]] \<and>
   map collided (snd (fold (ring_op_step 3)
      [Enqueue ([1], -40, 5, 9, False), Enqueue ([2], -40, 9, 12, False), Take_head,
       Enqueue ([3], -40, 20, 25, False), Interfere 10 11, Take_head, Take_head, Take_head] (zero_bus, []))) = [False, True, False]"
proof -
  have z: "ring_inv (emu_queue zero_bus 3)" "ring_view 3 (zero_bus, []) = ([], [], 0)"
    using empty_ring_ok by (simp_all add: zero_bus_def ring_view_def zero_stats_def)
  let ?ops = "[Enqueue ([1], -40, 5, 9, False), Enqueue ([2], -40, 9, 12, False), Take_head,
       Enqueue ([3], -40, 20, 25, False), Interfere 10 11, Take_head, Take_head, Take_head]"
  have "snd (fold (ring_op_step 3) ?ops (zero_bus, [])) = fst (snd (ring_view 3 (fold (ring_op_step 3) ?ops (zero_bus, []))))"
    by (simp only: ring_view_def split_beta fst_conv snd_conv)
  also have "\<dots> = fst (snd (fold fifo_op_step ?ops ([], [], 0)))"
    using rx_queue_bounded_fifo [OF z(1), of ?ops "[]"] unfolding z(2) by (simp only: fst_conv snd_conv)
  also have "\<dots> = [queued ([1], -40, 5, 9, False), spoil 10 11 (queued ([2], -40, 9, 12, False)), queued ([3], -40, 20, 25, False)]"
    by (simp add: spoil_def overlaps_def queued_def)
  finally show ?thesis by (simp only:) (simp add: spoil_def overlaps_def queued_def)
qed

subsection \<open>Draining\<close>

abbreviation rx_list :: "'a radio_world_scheme \<Rightarrow> int \<Rightarrow> emu_rx_frame list" where
  "rx_list w i \<equiv> ring_list (emu_queue (bus w) i)"

abbreviation rx_ok :: "'a radio_world_scheme \<Rightarrow> int \<Rightarrow> bool" where
  "rx_ok w i \<equiv> ring_inv (emu_queue (bus w) i)"

lemma rx_head:
  assumes "rx_ok w i" "rx_list w i = f # fs"
  shows "q_frames (emu_queue (bus w) i) (q_head (emu_queue (bus w) i)) = f" "q_count (emu_queue (bus w) i) > 0"
proof -
  show c: "q_count (emu_queue (bus w) i) > 0"
    using assms(2) ring_list_length [of "emu_queue (bus w) i"] by (cases "q_count (emu_queue (bus w) i) > 0") auto
  then show "q_frames (emu_queue (bus w) i) (q_head (emu_queue (bus w) i)) = f"
    using assms ring_list_nth [of 0 "emu_queue (bus w) i"] by (simp add: ring_inv_def)
qed

lemma drop_queue_head_ring:
  assumes "rx_ok w i" "rx_list w i = f # fs"
  shows "rx_ok (drop_queue_head i w) i" "rx_list (drop_queue_head i w) i = fs"
  using rx_ring.pop_inv [OF assms(1)] rx_ring.pop_contents [OF assms(1)] assms(2)
  by (simp_all add: drop_queue_head_def upd_bus_def set_queue_def)

lemma drain_empty: "rx_ok w i \<Longrightarrow> rx_list w i = [] \<Longrightarrow> drain_loop env i k w = w"
  using ring_list_length [of "emu_queue (bus w) i"]
  by (subst drain_loop.simps) (simp add: Let_def ring_inv_def del: ring_list_length)

lemma drain_collided:
  "rx_ok w i \<Longrightarrow> rx_list w i = f # fs \<Longrightarrow> collided f \<Longrightarrow> drain_loop env i k w = drain_loop env i k (drop_queue_head i w)"
  using rx_head [of w i f fs] by (subst drain_loop.simps) (simp add: Let_def)

lemma drain_skip:
  assumes "rx_ok w i" "rx_list w i = cs @ fs" "list_all collided cs"
  shows "rx_ok ((drop_queue_head i ^^ length cs) w) i \<and> rx_list ((drop_queue_head i ^^ length cs) w) i = fs \<and>
    drain_loop env i k w = drain_loop env i k ((drop_queue_head i ^^ length cs) w)"
  using assms
proof (induction cs arbitrary: w)
  case (Cons c cs)
  have d: "rx_ok (drop_queue_head i w) i" "rx_list (drop_queue_head i w) i = cs @ fs"
    using drop_queue_head_ring [OF Cons.prems(1)] Cons.prems(2) by simp_all
  have "(drop_queue_head i ^^ length (c # cs)) w = (drop_queue_head i ^^ length cs) (drop_queue_head i w)"
    by (simp add: funpow_Suc_right del: funpow.simps)
  then show ?case using Cons.IH [OF d] drain_collided [OF Cons.prems(1), of c "cs @ fs" env k] Cons.prems by simp
qed simp

lemma drain_ready:
  assumes "rx_ok w i" "rx_list w i = f # fs" "\<not> collided f"
    and "env_rxfifo_available env i w \<ge> frame_fifo_bytes (frame_data f) (frame_subghz f)"
  shows "drain_loop env i k w = drain_deliver env i f w"
  using rx_head [OF assms(1,2)] assms by (subst drain_loop.simps) (simp add: Let_def)

lemma drain_blocked:
  assumes "rx_ok w i" "rx_list w i = f # fs" "\<not> collided f"
    and "env_rxfifo_available env i w < frame_fifo_bytes (frame_data f) (frame_subghz f)"
    and "\<not> CAP SIM_RADIO_CAP_DRAIN_MINI_STEP i (bus w)"
  shows "drain_loop env i k w = w"
  using rx_head [OF assms(1,2)] assms by (subst drain_loop.simps) (simp add: Let_def)

text \<open>
  Draining never hands a collided frame to the radio and delivers at most one frame: with the
  collided frames \<open>cs\<close> at the front of the ring, the call discards exactly those; if nothing is
  left it stops there, without touching the radio; if the next frame \<open>f\<close> fits the receive FIFO,
  that frame alone is delivered; if it does not fit and the mote may not be stepped, the frame
  stays at the front of the ring.
\<close>

theorem drain_skips_collided:
  assumes "ring_inv (emu_queue (bus w) i)" "ring_list (emu_queue (bus w) i) = cs @ fs" "list_all collided cs"
  defines "w1 \<equiv> (drop_queue_head i ^^ length cs) w"
  shows "ring_list (emu_queue (bus w1) i) = fs \<and>
    (fs = [] \<longrightarrow> sim_radio_bus_drain_rx env i w = w1) \<and>
    (\<forall>f rest. fs = f # rest \<and> \<not> collided f \<and>
        frame_fifo_bytes (frame_data f) (frame_subghz f) \<le> env_rxfifo_available env i w1 \<longrightarrow>
      sim_radio_bus_drain_rx env i w = drain_deliver env i f w1) \<and>
    (\<forall>f rest. fs = f # rest \<and> \<not> collided f \<and> \<not> CAP SIM_RADIO_CAP_DRAIN_MINI_STEP i (bus w1) \<and>
        env_rxfifo_available env i w1 < frame_fifo_bytes (frame_data f) (frame_subghz f) \<longrightarrow>
      sim_radio_bus_drain_rx env i w = w1)"
  using drain_skip [OF assms(1-3), of env 0] drain_empty [of w1 i env 0] drain_ready [of w1 i _ _ env 0]
    drain_blocked [of w1 i _ _ env 0]
  unfolding w1_def sim_radio_bus_drain_rx_def by auto

text \<open>A world and an environment for examples: motes without reactions.\<close>

definition quiet_env :: "'w radio_env" where
  "quiet_env = \<lparr>env_receive_byte = (\<lambda>_ _ _ w. w), env_receive_byte_at = (\<lambda>_. None), env_rxfifo_available = (\<lambda>_ _. 1000),
     env_rx_busy = (\<lambda>_ _. False), env_has_rx_stall = (\<lambda>_. True), env_current_channel = (\<lambda>_. None),
     env_mark_collisions = (\<lambda>_. None), env_on_air = (\<lambda>_. None), env_rx_byte_sync = (\<lambda>_. None),
     env_rx_pre_sync = (\<lambda>_. None), env_receive_frame = (\<lambda>_. None), env_step_until = (\<lambda>_ _ w. w),
     env_cycles = (\<lambda>_ _. 0), env_freq_hz = (\<lambda>_ _. 1000000), env_sched_hint_ns = (\<lambda>_ now _. now),
     env_node_active = None, env_hook = (\<lambda>_ w. w), env_plug = (\<lambda>_. undefined)\<rparr>"

definition world :: "sim_radio_bus \<Rightarrow> radio_world" where
  "world b = sim_runtime.extend (sim_runtime_init ()) (radio_world.fields (radio_medium_init 4) b)"

lemma world_sel [simp]: "bus (world b) = b" "medium (world b) = radio_medium_init 4" "now_ns (world b) = 0"
  "event_queue (world b) = zero_queue"
  by (simp_all add: world_def sim_runtime.defs radio_world.defs sim_runtime_init_def)

theorem drain_skips_collided_witness:
  "\<exists>w f. \<not> collided f \<and> ring_list (emu_queue (bus (w :: radio_world)) 3) = [f\<lparr>collided := True\<rparr>, f] \<and>
     sim_radio_bus_drain_rx quiet_env 3 w = drain_deliver quiet_env 3 f (drop_queue_head 3 w)"
proof -
  define f where "f = queued ([0, 0, 0, 0, 0x7A, 3, 1, 2, 3], -40, 5, 9, False)"
  define w where "w = world (set_queue 3 (push_frame f (push_frame (f\<lparr>collided := True\<rparr>) empty_ring)) zero_bus)"
  have ring: "ring_inv (emu_queue (bus w) 3)" "ring_list (emu_queue (bus w) 3) = [f\<lparr>collided := True\<rparr>] @ [f]"
    using rx_ring.push_inv [OF empty_ring_ok(1)] rx_ring.push_contents [OF empty_ring_ok(1)]
    by (simp_all add: w_def set_queue_def zero_bus_def rx_ring.push_inv rx_ring.push_contents empty_ring_ok(2)
        del: ring_list_length)
  have "frame_fifo_bytes (frame_data f) (frame_subghz f) \<le> 1000" "\<not> collided f"
    by (simp_all add: f_def queued_def frame_fifo_bytes_def)
  then show ?thesis
    using drain_skips_collided [OF ring, of quiet_env] ring
    by (intro exI [of _ w] exI [of _ f]) (simp add: quiet_env_def)
qed

subsection \<open>The receive watchdog\<close>

text \<open>
  The two operations on a receiver's watchdog: a byte with air time \<open>bt\<close> arrives, or the timer
  event of time \<open>t\<close> is dispatched.
\<close>

datatype stall_op = Byte_at int | Timer_at int

fun stall_step :: "int \<Rightarrow> stall_op \<Rightarrow> 'a radio_world_scheme \<Rightarrow> bool \<times> 'a radio_world_scheme" where
  "stall_step i (Byte_at bt) w = (False, arm_rx_stall i bt w)"
| "stall_step i (Timer_at t) w = sim_radio_bus_rx_stall_expired i t w"

fun stall_run :: "int \<Rightarrow> stall_op list \<Rightarrow> 'a radio_world_scheme \<Rightarrow> 'a radio_world_scheme" where
  "stall_run i [] w = w"
| "stall_run i (x # xs) w = stall_run i xs (snd (stall_step i x w))"

definition stall_covers :: "int \<Rightarrow> int set \<Rightarrow> 'a radio_world_scheme \<Rightarrow> bool" where
  "stall_covers i B w \<longleftrightarrow> (\<forall>bt \<in> B. bt + SIM_RADIO_RX_STALL_NS \<le> rx_stall_deadline_ns (bus w) i)"

lemma schedule_timer_bus [simp]: "bus (sim_schedule_radio_timer i t w) = bus w"
  by (simp add: sim_schedule_radio_timer_def Let_def)

lemma upd_bus_sel [simp]: "bus (upd_bus f w) = f (bus w)" "event_queue (upd_bus f w) = event_queue w"
  "now_ns (upd_bus f w) = now_ns w" "medium (upd_bus f w) = medium w"
  by (simp_all add: upd_bus_def)

lemma arm_covers: "stall_covers i B w \<Longrightarrow> stall_covers i (insert bt B) (arm_rx_stall i bt w)"
  by (auto simp: stall_covers_def arm_rx_stall_def Let_def)

lemma expired_covers: "stall_covers i B w \<Longrightarrow> stall_covers i B (snd (sim_radio_bus_rx_stall_expired i t w))"
  by (auto simp: stall_covers_def sim_radio_bus_rx_stall_expired_def Let_def)

lemma stall_run_covers:
  "stall_covers i B w \<Longrightarrow> stall_covers i (B \<union> {bt. Byte_at bt \<in> set xs}) (stall_run i xs w)"
proof (induction xs arbitrary: B w)
  case (Cons x xs)
  show ?case
  proof (cases x)
    case (Byte_at bt)
    then have "{b. Byte_at b \<in> set (x # xs)} = insert bt {b. Byte_at b \<in> set xs}" by auto
    then show ?thesis using Cons.IH [OF arm_covers [OF Cons.prems]] Byte_at by simp
  next
    case (Timer_at t)
    then have "{b. Byte_at b \<in> set (x # xs)} = {b. Byte_at b \<in> set xs}" by auto
    then show ?thesis using Cons.IH [OF expired_covers [OF Cons.prems]] Timer_at by simp
  qed
qed simp

text \<open>
  The receive watchdog never fires early and never gets lost: after any history of bytes and
  timer events, a timer event reports a stall only if at least 200 microseconds have passed
  since the air time of every byte of the history, and if it does not report one, a fresh timer
  is pending at a deadline in the future.
\<close>

theorem rx_stall_not_early:
  assumes "0 \<le> i" "i < 128" and "sim_radio_bus_rx_stall_expired i t (stall_run i xs w) = (stalled, w')"
  shows "(stalled \<longrightarrow> (\<forall>bt. Byte_at bt \<in> set xs \<longrightarrow> bt + 200000 \<le> t) \<and> \<not> rx_stall_pending (bus w') i) \<and>
    (\<not> stalled \<longrightarrow> rx_stall_pending (bus w') i \<and> t < rx_stall_deadline_ns (bus w') i \<and>
       w' = sim_schedule_radio_timer i (rx_stall_deadline_ns (bus w') i)
              (upd_bus (\<lambda>b. b\<lparr>rx_stall_pending := (rx_stall_pending b)(i := True)\<rparr>)
                (upd_bus (\<lambda>b. b\<lparr>rx_stall_pending := (rx_stall_pending b)(i := False)\<rparr>) (stall_run i xs w))))"
proof -
  have "stall_covers i {} w" by (simp add: stall_covers_def)
  from stall_run_covers [OF this, of xs] show ?thesis
    using assms by (auto simp: stall_covers_def sim_radio_bus_rx_stall_expired_def Let_def split: if_splits)
qed

theorem rx_stall_not_early_witness:
  "\<not> fst (sim_radio_bus_rx_stall_expired 2 200999 (stall_run 2 [Byte_at 1000, Byte_at 700, Timer_at 900] (world zero_bus))) \<and>
   fst (sim_radio_bus_rx_stall_expired 2 201000 (stall_run 2 [Byte_at 1000, Byte_at 700, Timer_at 900] (world zero_bus)))"
proof -
  let ?w = "stall_run 2 [Byte_at 1000, Byte_at 700, Timer_at 900] (world zero_bus)"
  have "rx_stall_deadline_ns (bus ?w) 2 = 201000"
    by (simp add: arm_rx_stall_def sim_radio_bus_rx_stall_expired_def Let_def zero_bus_def)
  then have "fst (sim_radio_bus_rx_stall_expired 2 201000 ?w)"
    by (simp add: sim_radio_bus_rx_stall_expired_def Let_def del: stall_run.simps)
  moreover have "\<not> fst (sim_radio_bus_rx_stall_expired 2 200999 ?w)"
    using rx_stall_not_early [of 2 200999 "[Byte_at 1000, Byte_at 700, Timer_at 900]" "world zero_bus"
        "fst (sim_radio_bus_rx_stall_expired 2 200999 ?w)" "snd (sim_radio_bus_rx_stall_expired 2 200999 ?w)"]
    by (auto simp del: stall_run.simps)
  ultimately show ?thesis by blast
qed

subsection \<open>Dispatching a byte keeps the kernel invariant\<close>

text \<open>One step of the world that draws at most \<open>d\<close> sequence numbers.\<close>

definition keeps :: "nat \<Rightarrow> 'a sim_runtime_scheme \<Rightarrow> 'a sim_runtime_scheme \<Rightarrow> bool" where
  "keeps d w w' \<longleftrightarrow> now_ns w' = now_ns w \<and> (\<forall>k. kernel_ok (k + d) w \<longrightarrow> kernel_ok k w')"

lemma keeps_frame: "event_queue w' = event_queue w \<Longrightarrow> now_ns w' = now_ns w \<Longrightarrow> keeps 0 w w'"
  by (simp add: keeps_def kernel_ok_def)

lemma keeps_op: "kernel_op f d \<Longrightarrow> keeps d w (f w)"
  by (auto simp: keeps_def kernel_op_def)

lemma keeps_mono: "keeps d w w' \<Longrightarrow> d \<le> e \<Longrightarrow> keeps e w w'"
  unfolding keeps_def by (meson add_le_cancel_left kernel_ok_mono)

lemma keeps_trans:
  assumes "keeps d w w1" "keeps e w1 w2"
  shows "keeps (d + e) w w2"
proof -
  have "kernel_ok k w2" if "kernel_ok (k + (d + e)) w" for k
  proof -
    have "kernel_ok (k + e + d) w" using that by (simp add: ac_simps)
    then show ?thesis using assms by (auto simp: keeps_def)
  qed
  then show ?thesis using assms by (simp add: keeps_def)
qed

lemma keeps_fold:
  assumes "\<And>x w. keeps d w (f x w)"
  shows "keeps (length xs * d) w (fold f xs w)"
proof (induction xs arbitrary: w)
  case (Cons x xs)
  show ?case using keeps_trans [OF assms [of w x] Cons.IH [of "f x w"]] by simp
qed (simp add: keeps_frame)

lemma keeps_radio_byte:
  assumes "now_ns w \<le> t" shows "keeps 1 w (sim_schedule_radio_byte r sd byte v t w)"
  unfolding keeps_def
proof (intro conjI allI impI)
  fix k assume "kernel_ok (k + 1) w"
  then have k: "kernel_ok (Suc k) w" by simp
  then have "queue_inv (event_queue w)" "seq_room (event_queue w)" using kernel_ok_room by (auto simp: kernel_ok_def)
  from k schedule_adds_at(3) [OF this] assms show "kernel_ok k (sim_schedule_radio_byte r sd byte v t w)"
    by (rule kernel_ok_adds) (simp_all add: sim_schedule_radio_byte_def Let_def)
qed (simp add: sim_schedule_radio_byte_def Let_def)

lemma keeps_radio_timer:
  assumes "now_ns w \<le> t" shows "keeps 1 w (sim_schedule_radio_timer r t w)"
  unfolding keeps_def
proof (intro conjI allI impI)
  fix k assume "kernel_ok (k + 1) w"
  then have k: "kernel_ok (Suc k) w" by simp
  then have "queue_inv (event_queue w)" "seq_room (event_queue w)" using kernel_ok_room by (auto simp: kernel_ok_def)
  from k schedule_adds_at(4) [OF this] assms show "kernel_ok k (sim_schedule_radio_timer r t w)"
    by (rule kernel_ok_adds) (simp_all add: sim_schedule_radio_timer_def Let_def)
qed (simp add: sim_schedule_radio_timer_def Let_def)

lemma keeps_stall:
  assumes "now_ns w \<le> bt" shows "keeps 1 w (arm_rx_stall i bt w)"
proof -
  define w1 where "w1 = (if bt + SIM_RADIO_RX_STALL_NS > rx_stall_deadline_ns (bus w) i
    then upd_bus (\<lambda>b. b\<lparr>rx_stall_deadline_ns := (rx_stall_deadline_ns b)(i := bt + SIM_RADIO_RX_STALL_NS)\<rparr>) w else w)"
  define w2 where "w2 = upd_bus (\<lambda>b. b\<lparr>rx_stall_pending := (rx_stall_pending b)(i := True)\<rparr>) w1"
  have f: "keeps 0 w w1" "keeps 0 w w2" by (simp_all add: w1_def w2_def keeps_frame)
  have "now_ns w2 \<le> rx_stall_deadline_ns (bus w1) i" using assms by (simp add: w1_def w2_def)
  then have "keeps 1 w (sim_schedule_radio_timer i (rx_stall_deadline_ns (bus w1) i) w2)"
    using keeps_trans [OF f(2) keeps_radio_timer] by simp
  then show ?thesis
    using keeps_mono [OF f(1), of 1] unfolding arm_rx_stall_def Let_def w1_def [symmetric] w2_def [symmetric] by simp
qed

lemma keeps_per_byte: "keeps 2 w (deliver_per_byte env sender byte bt v i w)"
proof -
  let ?t = "if bt < now_ns w then now_ns w else bt"
  have 1: "keeps 1 w (sim_schedule_radio_byte i sender byte v ?t w)" by (rule keeps_radio_byte) simp
  then have "now_ns (sim_schedule_radio_byte i sender byte v ?t w) \<le> ?t" by (simp add: keeps_def)
  from keeps_trans [OF 1 keeps_stall [OF this]] keeps_mono [OF 1, of 2]
  show ?thesis by (simp add: deliver_per_byte_def Let_def numeral_2_eq_2)
qed

text \<open>What the motes and hooks called during dispatch owe to the kernel.\<close>

definition env_keeps :: "nat \<Rightarrow> 'a radio_world_scheme radio_env \<Rightarrow> bool" where
  "env_keeps d env \<longleftrightarrow> (\<forall>h. kernel_op (env_hook env h) d) \<and> (\<forall>i x v. kernel_op (env_receive_byte env i x v) d) \<and>
     (\<forall>i f x v t. env_receive_byte_at env i = Some f \<longrightarrow> kernel_op (f x v t) d)"

lemma keeps_accept:
  assumes "env_keeps d env" shows "keeps (d + 2) w (accept_byte env sender byte bt depth i w)"
proof (cases "delivery (bus w) i = SIM_RADIO_DELIVERY_SYNC")
  case True
  then have "keeps d w (accept_byte env sender byte bt depth i w)"
    using assms by (auto simp: accept_byte_def env_keeps_def keeps_op split: option.splits)
  then show ?thesis by (rule keeps_mono) simp
next
  case False
  define w1 where "w1 = env_hook env (On_byte_accepted sender i byte depth) w"
  have 1: "keeps d w w1" using assms by (simp add: env_keeps_def keeps_op w1_def)
  have 2: "keeps 2 w1 (upd_bus (stage_byte i byte) w1)" by (rule keeps_mono [OF keeps_frame]) simp_all
  show ?thesis using False keeps_trans [OF 1 2] keeps_trans [OF 1 keeps_per_byte]
    by (simp add: accept_byte_def Let_def w1_def [symmetric])
qed

lemma sync_channel_sel [simp]:
  "event_queue (bus_sync_channel env i w) = event_queue w" "now_ns (bus_sync_channel env i w) = now_ns w"
  by (simp_all add: bus_sync_channel_def Let_def split: option.splits)

lemma keeps_dispatch_one:
  assumes "env_keeps d env" shows "keeps (d + 2) w (dispatch_one env ss sender sr byte bt depth i w)"
proof -
  let ?w1 = "bus_sync_channel env i w"
  let ?rr = "sim_radio_bus_pick_receiver_radio (medium ?w1) sender sr i"
  obtain acc rm where fr: "radio_medium_filter_byte_radio (env_plug env) sender sr i ?rr byte (medium ?w1) = (acc, rm)"
    by fastforce
  let ?w2 = "?w1\<lparr>medium := rm\<rparr>"
  have f: "keeps (d + 2) w w" "keeps (d + 2) w ?w1" "keeps (d + 2) w ?w2" "keeps 0 w ?w2"
    by (auto intro: keeps_mono [OF keeps_frame] keeps_frame)
  show ?thesis using f keeps_trans [OF f(4) keeps_accept [OF assms, of ?w2 sender byte bt depth i]] fr
    by (simp add: dispatch_one_def Let_def)
qed

lemma keeps_dispatch:
  assumes "env_keeps d env" shows "keeps (128 * (d + 2)) w (dispatch_tx_byte env sender sr byte bt depth w)"
proof -
  let ?f = "dispatch_one env (delivery (bus w) sender = SIM_RADIO_DELIVERY_SYNC) sender sr byte bt depth"
  have "keeps (d + 2) w' (if i < bus_node_count (bus w') then ?f i w' else w')" for i w'
    using keeps_dispatch_one [OF assms] keeps_mono [OF keeps_frame, of w' w'] by simp
  from keeps_fold [of "d + 2" "\<lambda>i w'. if i < bus_node_count (bus w') then ?f i w' else w'", OF this, of bus_nodes w]
  show ?thesis by (simp add: dispatch_tx_byte_def for_nodes_def bus_nodes_def)
qed

text \<open>
  Dispatching an on-air byte never schedules into the past: for any air time, however late,
  any number of receivers and any mix of delivery modes, the kernel invariant (heap order, index,
  no pending event before the clock, sequence numbers in range) survives and the clock does not
  move, provided the motes and hooks the dispatch calls respect it; at most two events are added
  per receiver beyond what those calls add.
\<close>

theorem dispatch_keeps_kernel:
  assumes "env_keeps d env" "kernel_ok (k + 128 * (d + 2)) w"
  shows "kernel_ok k (dispatch_tx_byte env sender sr byte bt depth w) \<and>
    now_ns (dispatch_tx_byte env sender sr byte bt depth w) = now_ns w"
  using keeps_dispatch [OF assms(1), of w sender sr byte bt depth] assms(2) by (simp add: keeps_def)

lemma quiet_env_keeps: "env_keeps 0 quiet_env"
  by (auto simp: env_keeps_def quiet_env_def intro: kernel_op_frame)

definition booted :: "sim_radio_bus \<Rightarrow> radio_world" where
  "booted b = (world b)\<lparr>event_queue := sim_eq_init\<rparr>"

lemma booted_ok: "kernel_ok 100000 (booted b)"
  by (simp add: kernel_ok_def booted_def queue_inv_init) (simp add: sim_eq_init_def)

theorem dispatch_keeps_kernel_witness:
  "kernel_ok 1000 (dispatch_tx_byte quiet_env 0 0 0x7A (-5) 0
     (booted (sim_radio_bus_register 1 (True, False) SIM_RADIO_DELIVERY_PER_BYTE 0 zero_bus)))"
  by (rule conjunct1 [OF dispatch_keeps_kernel [OF quiet_env_keeps]], rule kernel_ok_mono [OF booted_ok]) simp

subsection \<open>The byte clock and the profile of the previous frame\<close>

text \<open>A world that records the air times reported by the byte hook.\<close>

record traced_world = radio_world +
  tx_times :: "int list"

definition trace_hook :: "bus_hook \<Rightarrow> traced_world \<Rightarrow> traced_world" where
  "trace_hook h w = (case h of On_tx_byte _ _ t _ \<Rightarrow> w\<lparr>tx_times := tx_times w @ [t]\<rparr> | _ \<Rightarrow> w)"

definition trace_env :: "traced_world radio_env" where
  "trace_env = quiet_env\<lparr>env_hook := trace_hook\<rparr>"

text \<open>A chip-level sender alone on the bus, between two bytes.\<close>

definition alone :: "tx_frame_asm \<Rightarrow> u8 list \<Rightarrow> traced_world \<Rightarrow> bool" where
  "alone a cap w \<longleftrightarrow> bus_node_count (bus w) = 1 \<and> tx_depth (bus w) = 0 \<and> \<not> any_on_air (bus w) \<and>
     tx_asm (bus w) 0 = a \<and> tx_cap (bus w) 0 = cap"

lemma dispatch_alone:
  assumes "bus_node_count (bus w) = 1" shows "dispatch_tx_byte env 0 sr byte bt d w = w"
proof -
  have "fold (\<lambda>i w'. if i < bus_node_count (bus w') then dispatch_one env ss 0 sr byte bt d i w' else w') xs w = w"
    if "\<forall>i \<in> set xs. 0 \<le> i" for ss xs
    using that by (induction xs) (auto simp: assms dispatch_one_def)
  then show ?thesis by (simp add: dispatch_tx_byte_def for_nodes_def bus_nodes_def)
qed

lemma announce_alone:
  assumes "\<not> any_on_air (bus w)"
  shows "\<exists>x. announce_on_air env s sr c bt bns w = upd_bus (\<lambda>b. b\<lparr>on_air_end_ns := (on_air_end_ns b)(s := x)\<rparr>) w"
proof -
  have "w = upd_bus (\<lambda>b. b\<lparr>on_air_end_ns := (on_air_end_ns b)(s := on_air_end_ns (bus w) s)\<rparr>) w"
    by (simp add: upd_bus_def)
  then show ?thesis using assms unfolding announce_on_air_def bus_on_air_def Let_def by (simp only: if_split) auto
qed

lemma tx_byte_alone:
  fixes sr :: int
  assumes w: "alone a cap w" and arm: "arm_first_byte 0 byte (now_ns w) (bus w) = b1" "tx_asm b1 0 = a1" "tx_cap b1 0 = cap1"
    and short: "length cap1 < TX_CAPTURE_MAX" and feed: "sim_radio_bus_asm_feed byte a1 = (False, a2)"
  defines "w' \<equiv> sim_radio_bus_tx_byte trace_env 0 sr byte w"
  shows "alone a2 (cap1 @ [byte]) w' \<and> now_ns w' = now_ns w \<and>
    tx_times w' = tx_times w @ [first_byte_ns a1 + int (length cap1) * byte_period_ns (subghz a1)]"
proof -
  define t where "t = first_byte_ns a1 + int (length cap1) * byte_period_ns (subghz a1)"
  define w2 where "w2 = upd_bus (capture_byte 0 byte) (upd_bus (\<lambda>_. b1) w)"
  define w3 where "w3 = w2\<lparr>tx_times := tx_times w2 @ [t]\<rparr>"
  have b1: "bus_node_count b1 = 1" "tx_depth b1 = 0" "\<not> any_on_air b1"
    using w arm(1) by (auto simp: alone_def arm_first_byte_def set_asm_def Let_def split: if_splits)
  have b2: "bus w2 = b1\<lparr>tx_cap := (tx_cap b1)(0 := cap1 @ [byte])\<rparr>"
    using short arm(3) by (simp add: w2_def capture_byte_def)
  have bus_arm: "upd_bus (arm_first_byte 0 byte (now_ns w)) w = upd_bus (\<lambda>_. b1) w"
    using arm(1) by (simp add: upd_bus_def)
  define w5 where "w5 = upd_bus (set_asm 0 a2) w3"
  have facts: "tx_byte_time 0 b1 = t" "env_hook trace_env (On_tx_byte 0 byte t 0) w2 = w3"
    "dispatch_tx_byte trace_env 0 sr byte t 0 w3 = w3" "tx_depth (capture_byte 0 byte b1) = 0" "tx_asm (bus w3) 0 = a1"
    using arm(2,3) b1 b2
    by (simp_all add: tx_byte_time_def t_def trace_env_def trace_hook_def w3_def dispatch_alone capture_byte_def)
  have n: "\<not> (0 < (0::int) \<or> bus_node_count (bus w) \<le> 0)" using w by (simp add: alone_def)
  have "w' = w5 \<or> w' = announce_on_air trace_env 0 sr False t (byte_period_ns (subghz a1)) w5"
    using n unfolding w'_def sim_radio_bus_tx_byte_def Let_def bus_arm upd_bus_sel(1) arm(2) facts(1) w2_def [symmetric] facts(4)
    unfolding facts(2,3,5) feed prod.case w5_def [symmetric] by simp
  moreover obtain x where "announce_on_air trace_env 0 sr False t (byte_period_ns (subghz a1)) w5 =
      upd_bus (\<lambda>b. b\<lparr>on_air_end_ns := (on_air_end_ns b)(0 := x)\<rparr>) w5"
    using announce_alone [of w5 trace_env 0 sr False t "byte_period_ns (subghz a1)"] b1 b2
    by (auto simp: w5_def w3_def set_asm_def)
  ultimately have "bus_node_count (bus w') = 1 \<and> tx_depth (bus w') = 0 \<and> \<not> any_on_air (bus w') \<and> tx_asm (bus w') 0 = a2 \<and>
    tx_cap (bus w') 0 = cap1 @ [byte] \<and> now_ns w' = now_ns w3 \<and> tx_times w' = tx_times w3"
    using b1 b2 by (auto simp: w5_def w3_def set_asm_def upd_bus_def)
  then show ?thesis by (simp add: alone_def w3_def w2_def t_def) (simp add: upd_bus_def)
qed

text \<open>The arming step and one byte of a run, for a sender whose assembler waits for a preamble.\<close>

lemma arm_first:
  assumes "alone a cap w" "asm_idle a" "at_override_ns a \<le> 0" "byte = 0 \<or> byte = 0x55"
  shows "tx_asm (arm_first_byte 0 byte (now_ns w) (bus w)) 0 = a\<lparr>first_byte_ns := now_ns w, at_override_ns := 0\<rparr>"
    "tx_cap (arm_first_byte 0 byte (now_ns w) (bus w)) 0 = []"
  using assms by (auto simp: alone_def asm_idle_def arm_first_byte_def set_asm_def Let_def)

lemma arm_later:
  assumes "alone a cap w" "asm_zero_count a > 0 \<or> asm_state a \<noteq> TX_ASM_PREAMBLE"
  shows "arm_first_byte 0 byte (now_ns w) (bus w) = bus w"
  using assms by (auto simp: alone_def arm_first_byte_def Let_def)

text \<open>Running a byte list: the clock continues from the captured prefix.\<close>

lemma tx_later:
  assumes "alone a cap w" "asm_zero_count a > 0 \<or> asm_state a \<noteq> TX_ASM_PREAMBLE" "length cap < TX_CAPTURE_MAX"
    and "sim_radio_bus_asm_feed byte a = (False, a2)"
  shows "alone a2 (cap @ [byte]) (sim_radio_bus_tx_byte trace_env 0 sr byte w) \<and>
    now_ns (sim_radio_bus_tx_byte trace_env 0 sr byte w) = now_ns w \<and>
    tx_times (sim_radio_bus_tx_byte trace_env 0 sr byte w) =
      tx_times w @ [first_byte_ns a + int (length cap) * byte_period_ns (subghz a)]"
  using tx_byte_alone [OF assms(1) arm_later [OF assms(1,2)] _ _ assms(3,4)] assms(1) by (simp add: alone_def)

lemma tx_zero:
  assumes "alone a cap w" "asm_state a = TX_ASM_PREAMBLE" "asm_zero_count a > 0" "length cap < TX_CAPTURE_MAX"
  shows "\<exists>a2. alone a2 (cap @ [0]) (sim_radio_bus_tx_byte trace_env 0 sr 0 w) \<and>
    asm_state a2 = TX_ASM_PREAMBLE \<and> asm_zero_count a2 = asm_zero_count a + 1 \<and> subghz a2 = subghz a \<and>
    first_byte_ns a2 = first_byte_ns a \<and>
    tx_times (sim_radio_bus_tx_byte trace_env 0 sr 0 w) =
      tx_times w @ [first_byte_ns a + int (length cap) * byte_period_ns (subghz a)]"
  using tx_later [OF assms(1) disjI1 [OF assms(3)] assms(4) feed_preamble [OF assms(2)], of 0 sr]
  by (intro exI [of _ "asm_preamble 0 a"]) (simp add: preamble_zero assms)

text \<open>
  The byte clock of a sender runs backwards at the start of a 2.4 GHz frame that follows a
  sub-GHz frame: the profile flag of the previous frame survives until the start-of-frame
  delimiter, so the preamble is stamped at the sub-GHz byte period (160 microseconds) and the
  length byte then at the 2.4 GHz period (32 microseconds), 480 microseconds before the
  delimiter that precedes it.
\<close>

theorem stale_profile_byte_clock:
  assumes "alone a cap w" "asm_idle a" "subghz a" "at_override_ns a \<le> 0"
  shows "tx_times (fold (sim_radio_bus_tx_byte trace_env 0 sr) [0, 0, 0, 0, 0x7A, n] w) =
    tx_times w @ map ((+) (now_ns w)) [0, 160000, 320000, 480000, 640000, 160000]"
proof -
  let ?tx = "sim_radio_bus_tx_byte trace_env 0 sr" and ?t = "now_ns w"
  let ?a = "a\<lparr>first_byte_ns := ?t, at_override_ns := 0\<rparr>"
  have st: "asm_state ?a = TX_ASM_PREAMBLE" using assms(2) by (simp add: asm_idle_def)
  define w1 where "w1 = ?tx 0 w"
  have 1: "alone (asm_preamble 0 ?a) [0] w1 \<and> tx_times w1 = tx_times w @ [?t]"
    using tx_byte_alone [OF assms(1) refl arm_first [OF assms(1,2,4)] _ feed_preamble [OF st], of 0 sr]
    by (simp add: w1_def)
  define a1 where "a1 = asm_preamble 0 ?a"
  have a1: "asm_state a1 = TX_ASM_PREAMBLE" "asm_zero_count a1 = 1" "subghz a1" "first_byte_ns a1 = ?t"
    using assms(2,3) by (simp_all add: a1_def preamble_zero asm_idle_def)
  obtain a2 where 2: "alone a2 [0, 0] (?tx 0 w1)" "asm_state a2 = TX_ASM_PREAMBLE" "asm_zero_count a2 = 2" "subghz a2"
    "first_byte_ns a2 = ?t" "tx_times (?tx 0 w1) = tx_times w1 @ [?t + 160000]"
    using tx_zero [of a1 "[0]" w1 sr] 1 a1 by (auto simp: a1_def [symmetric] byte_period_ns_def)
  obtain a3 where 3: "alone a3 [0, 0, 0] (?tx 0 (?tx 0 w1))" "asm_state a3 = TX_ASM_PREAMBLE" "asm_zero_count a3 = 3" "subghz a3"
    "first_byte_ns a3 = ?t" "tx_times (?tx 0 (?tx 0 w1)) = tx_times (?tx 0 w1) @ [?t + 320000]"
    using tx_zero [OF 2(1,2), of sr] 2 by (auto simp: byte_period_ns_def)
  obtain a4 where 4: "alone a4 [0, 0, 0, 0] (?tx 0 (?tx 0 (?tx 0 w1)))" "asm_state a4 = TX_ASM_PREAMBLE" "asm_zero_count a4 = 4"
    "subghz a4" "first_byte_ns a4 = ?t" "tx_times (?tx 0 (?tx 0 (?tx 0 w1))) = tx_times (?tx 0 (?tx 0 w1)) @ [?t + 480000]"
    using tx_zero [OF 3(1,2), of sr] 3 by (auto simp: byte_period_ns_def)
  define w4 where "w4 = ?tx 0 (?tx 0 (?tx 0 w1))"
  define a5 where "a5 = asm_preamble 0x7A a4"
  have a5: "asm_state a5 = TX_ASM_LENGTH" "\<not> subghz a5" "first_byte_ns a5 = ?t"
    using 4 preamble_sfd [of a4] by (simp_all add: a5_def)
  have 5: "alone a5 [0, 0, 0, 0, 0x7A] (?tx 0x7A w4)" "tx_times (?tx 0x7A w4) = tx_times w4 @ [?t + 640000]"
    using tx_later [OF 4(1) disjI1 _ feed_preamble [OF 4(2)], of "0x7A" sr] 4
    by (auto simp: byte_period_ns_def w4_def a5_def)
  have "tx_times (?tx n (?tx 0x7A w4)) = tx_times (?tx 0x7A w4) @ [?t + 160000]"
    using tx_later [OF 5(1), of n _ sr] a5 by (auto simp: byte_period_ns_def sim_radio_bus_asm_feed_def)
  then show ?thesis using 1 2(6) 3(6) 4(6) 5(2) by (simp add: w1_def w4_def add.commute)
qed

theorem stale_profile_byte_clock_witness:
  "\<exists>w. now_ns w = 0 \<and> tx_times w = [] \<and>
     tx_times (fold (sim_radio_bus_tx_byte trace_env 0 0) [0, 0, 0, 0, 0x7A, 5] w) = [0, 160000, 320000, 480000, 640000, 160000]"
proof -
  let ?a = "zero_asm\<lparr>subghz := True\<rparr>"
  let ?b = "set_asm 0 ?a (zero_bus\<lparr>bus_node_count := 1\<rparr>)"
  define w where "w = radio_world.extend (world ?b) (traced_world.fields [])"
  have w: "bus w = ?b" "now_ns w = 0" "tx_times w = []"
    by (simp_all add: w_def world_def sim_runtime.defs radio_world.defs traced_world.defs sim_runtime_init_def)
  have idle: "asm_idle ?a" by (simp add: asm_idle_def zero_asm_def)
  have "subghz ?a" "at_override_ns ?a \<le> 0" by (simp_all add: zero_asm_def)
  moreover have "alone ?a [] w" by (simp add: alone_def w set_asm_def zero_bus_def)
  ultimately have "tx_times (fold (sim_radio_bus_tx_byte trace_env 0 0) [0, 0, 0, 0, 0x7A, 5] w) =
      tx_times w @ map ((+) (now_ns w)) [0, 160000, 320000, 480000, 640000, 160000]"
    using stale_profile_byte_clock [OF _ idle] by blast
  then show ?thesis using w(2,3) by (intro exI [of _ w]) (simp del: fold_simps)
qed

end
