(* ===== verification/Cpu_Events.thy ===== *)
theory Cpu_Events
  imports Cooja_Prelude
begin

text \<open>
  The per-CPU peripheral event queue and clock shared by the MSP430 and ARM cores:
  \<open>include/common/event_queue.h\<close> (the macro \<open>EVENT_QUEUE_IMPL\<close>), \<open>include/common/cpu_event.h\<close> and
  the conversions of \<open>include/common/cpu_time.h\<close>.

  The linked list is a list of entries. An entry names its \<open>cpu_event_t\<close> object by a number; an
  object is linked at most once, since scheduling cancels it first. \<open>fire_cycle\<close> and \<open>fire_ns\<close>
  of an unlinked object are not read here, so they live in the list only. Callbacks are a parameter:
  a function from the object to a transformer of the whole CPU state, an extension of the record
  below.
\<close>

subsection \<open>Time conversions\<close>

definition cpu_ns_to_cycles :: "int \<Rightarrow> u32 \<Rightarrow> int" where
  "cpu_ns_to_cycles ns freq =
     (let q = cdiv ns 1000000000; r = crem ns 1000000000
      in q * uint freq + cdiv (r * uint freq) 1000000000)"

definition cpu_ns_to_cycles_ceil :: "int \<Rightarrow> u32 \<Rightarrow> int" where
  "cpu_ns_to_cycles_ceil ns freq =
     (let q = cdiv ns 1000000000; r = crem ns 1000000000
      in q * uint freq + cdiv (r * uint freq + 999999999) 1000000000)"

definition cpu_cycles_to_ns :: "int \<Rightarrow> u32 \<Rightarrow> int" where
  "cpu_cycles_to_ns cyc freq =
     (if freq = 0 then 0
      else let q = cdiv cyc (uint freq); r = crem cyc (uint freq)
           in q * 1000000000 + cdiv (r * 1000000000) (uint freq))"

subsection \<open>State\<close>

record cpu_event =
  ev_obj :: nat
  fire_cycle :: int
  fire_ns :: int

record cpu_clock =
  cpu_cycles :: int
  ev_queue :: "cpu_event list"
  next_event_cycle :: int
  sim_time_ns :: int
  cpu_freq_hz :: u32
  anchor_cycles :: int
  anchor_sim_time_ns :: int

subsection \<open>Operations\<close>

definition queue_next :: "cpu_event list \<Rightarrow> int" where
  "queue_next q = (case q of [] \<Rightarrow> INT64_MAX | e # _ \<Rightarrow> fire_cycle e)"

text \<open>Linking before the first later entry: the walk passes every entry of the same or an earlier cycle.\<close>

fun link_after :: "cpu_event \<Rightarrow> cpu_event list \<Rightarrow> cpu_event list" where
  "link_after e [] = [e]"
| "link_after e (p # q) = (if fire_cycle p \<le> fire_cycle e then p # link_after e q else e # p # q)"

definition link_event :: "cpu_event \<Rightarrow> cpu_event list \<Rightarrow> cpu_event list" where
  "link_event e q =
     (case q of
        [] \<Rightarrow> [e]
      | h # t \<Rightarrow> if fire_cycle e < fire_cycle h then e # q else h # link_after e t)"

fun unlink :: "nat \<Rightarrow> cpu_event list \<Rightarrow> cpu_event list" where
  "unlink ev [] = []"
| "unlink ev (p # q) = (if ev_obj p = ev then q else p # unlink ev q)"

definition set_ev_queue :: "cpu_event list \<Rightarrow> 'a cpu_clock_scheme \<Rightarrow> 'a cpu_clock_scheme" where
  "set_ev_queue q c = c\<lparr>ev_queue := q, next_event_cycle := queue_next q\<rparr>"

definition cancel_event :: "nat \<Rightarrow> 'a cpu_clock_scheme \<Rightarrow> 'a cpu_clock_scheme" where
  "cancel_event ev c = set_ev_queue (unlink ev (ev_queue c)) c"

definition schedule_event :: "nat \<Rightarrow> int \<Rightarrow> 'a cpu_clock_scheme \<Rightarrow> 'a cpu_clock_scheme" where
  "schedule_event ev cycle c =
     (let c1 = cancel_event ev c
      in set_ev_queue (link_event \<lparr>ev_obj = ev, fire_cycle = cycle, fire_ns = 0\<rparr> (ev_queue c1)) c1)"

definition ns_fire_cycle :: "int \<Rightarrow> 'a cpu_clock_scheme \<Rightarrow> int" where
  "ns_fire_cycle t c =
     (let delta = t - sim_time_ns c; delta' = (if delta < 0 then 0 else delta)
      in cpu_cycles c + cpu_ns_to_cycles delta' (cpu_freq_hz c))"

definition schedule_event_ns :: "nat \<Rightarrow> int \<Rightarrow> 'a cpu_clock_scheme \<Rightarrow> 'a cpu_clock_scheme" where
  "schedule_event_ns ev t c =
     (let c1 = cancel_event ev c
      in set_ev_queue (link_event \<lparr>ev_obj = ev, fire_cycle = ns_fire_cycle t c1, fire_ns = t\<rparr> (ev_queue c1)) c1)"

definition sync_sim_time :: "'a cpu_clock_scheme \<Rightarrow> 'a cpu_clock_scheme" where
  "sync_sim_time c =
     (if cpu_freq_hz c > 0
      then c\<lparr>sim_time_ns := anchor_sim_time_ns c + cpu_cycles_to_ns (cpu_cycles c - anchor_cycles c) (cpu_freq_hz c)\<rparr>
      else c)"

text \<open>
  \<open>execute_events\<close>: the due entries are unlinked and their callbacks run, while a callback may
  schedule further entries. The loop need not end: a callback may keep scheduling due events.
\<close>

partial_function (option) run_due ::
  "(nat \<Rightarrow> 'a cpu_clock_scheme \<Rightarrow> 'a cpu_clock_scheme) \<Rightarrow> 'a cpu_clock_scheme \<Rightarrow> 'a cpu_clock_scheme option" where
  "run_due cb c =
     (case ev_queue c of
        [] \<Rightarrow> Some c
      | e # q \<Rightarrow>
          if cpu_cycles c \<ge> fire_cycle e
          then run_due cb (cb (ev_obj e) (sync_sim_time (c\<lparr>ev_queue := q\<rparr>)))
          else Some c)"

definition execute_events ::
  "(nat \<Rightarrow> 'a cpu_clock_scheme \<Rightarrow> 'a cpu_clock_scheme) \<Rightarrow> 'a cpu_clock_scheme \<Rightarrow> 'a cpu_clock_scheme option" where
  "execute_events cb c = map_option (\<lambda>c1. c1\<lparr>next_event_cycle := queue_next (ev_queue c1)\<rparr>) (run_due cb c)"

definition refire :: "'a cpu_clock_scheme \<Rightarrow> cpu_event \<Rightarrow> cpu_event" where
  "refire c e = (if fire_ns e > 0 then e\<lparr>fire_cycle := ns_fire_cycle (fire_ns e) c\<rparr> else e)"

definition cpu_set_frequency :: "u32 \<Rightarrow> 'a cpu_clock_scheme \<Rightarrow> 'a cpu_clock_scheme" where
  "cpu_set_frequency freq c =
     (if freq = 0 then c
      else
        let c1 = sync_sim_time c;
            c2 = c1\<lparr>anchor_cycles := cpu_cycles c1, anchor_sim_time_ns := sim_time_ns c1, cpu_freq_hz := freq\<rparr>
        in set_ev_queue (fold link_event (map (refire c2) (ev_queue c2)) []) c2)"

end
