(* ===== verification/Cpu_Events_Correct.thy ===== *)
theory Cpu_Events_Correct
  imports Cpu_Events
begin

text \<open>
  Correctness of the per-CPU clock and event queue: the conversions are exact, the queue stays
  sorted and first-in-first-out among events of one cycle, due events run in order and the loop
  ends, and a frequency change moves every deadline to the cycle that contains it.
\<close>

subsection \<open>Exact conversions\<close>

lemma cdiv_split:
  assumes "0 < c" "0 \<le> b"
  shows "cdiv a c * b + cdiv (crem a c * b) c = cdiv (a * b) c"
proof -
  have pos: "cdiv x c * b + cdiv (crem x c * b) c = cdiv (x * b) c" if "0 \<le> x" for x
  proof -
    have "x * b = (x mod c) * b + c * ((x div c) * b)"
      by (metis add.commute distrib_right mult.assoc mult_div_mod_eq)
    then have "(x * b) div c = (x mod c) * b div c + x div c * b"
      using assms(1) div_mult_self2 [of c "x mod c * b" "x div c * b"] by simp
    then show ?thesis using that assms by simp
  qed
  have neg: "cdiv (- x) c = - cdiv x c" "crem (- x) c = - crem x c" for x
    by (simp_all add: cdiv_def crem_def)
  show ?thesis
  proof (cases "0 \<le> a")
    case False
    have "crem a c = - crem (- a) c" "cdiv a c = - cdiv (- a) c" using neg(1) [of "- a"] neg(2) [of "- a"] by simp_all
    then have "cdiv a c * b + cdiv (crem a c * b) c = - (cdiv (- a) c * b + cdiv (crem (- a) c * b) c)"
      using neg(1) [of "crem (- a) c * b"] by simp
    also have "\<dots> = cdiv (a * b) c" using pos [of "- a"] neg(1) [of "a * b"] False by simp
    finally show ?thesis .
  qed (rule pos)
qed

lemma crem_bound: "0 < c \<Longrightarrow> \<bar>crem a c\<bar> < c"
proof -
  assume c: "0 < c"
  have "crem a c = sgn a * (\<bar>a\<bar> mod c)"
    using c by (cases "a = 0"; cases "0 < a")
      (auto simp: crem_def cdiv_def sgn_if minus_div_mult_eq_mod [symmetric] algebra_simps)
  then show ?thesis using c by (auto simp: abs_mult sgn_if)
qed

lemma freq_bound: "0 \<le> uint (f :: u32)" "uint f < 4294967296"
  using uint_lt2p [of f] by simp_all

lemma freq_pos: "f \<noteq> 0 \<Longrightarrow> 0 < uint (f :: u32)"
  using freq_bound(1) [of f] uint_0_iff [of f] by linarith

lemma ns_to_cycles_eq: "cpu_ns_to_cycles t f = cdiv (t * uint f) 1000000000"
  using cdiv_split [of 1000000000 "uint f" t] by (simp add: cpu_ns_to_cycles_def Let_def)

lemma cycles_to_ns_eq: "f \<noteq> 0 \<Longrightarrow> cpu_cycles_to_ns n f = cdiv (n * 1000000000) (uint f)"
  using cdiv_split [of "uint f" 1000000000 n] freq_pos [of f] by (simp add: cpu_cycles_to_ns_def Let_def)

lemma le_div_iff: "0 < (c :: int) \<Longrightarrow> a \<le> b div c \<longleftrightarrow> a * c \<le> b"
proof
  assume c: "0 < c" and "a \<le> b div c"
  then have "a * c \<le> b div c * c" by simp
  also have "\<dots> \<le> b" using c by (simp add: minus_mod_eq_div_mult [symmetric])
  finally show "a * c \<le> b" .
next
  assume c: "0 < c" and "a * c \<le> b"
  then have "a * c div c \<le> b div c" by (intro zdiv_mono1)
  then show "a \<le> b div c" using c by simp
qed

lemma ceil_div_le: "0 < (g :: int) \<Longrightarrow> (x + (g - 1)) div g \<le> n \<longleftrightarrow> x \<le> n * g"
  using le_div_iff [of g "n + 1" "x + (g - 1)"] by (auto simp: algebra_simps)

lemma ceil_div_suc: "0 < (g :: int) \<Longrightarrow> (x + (g - 1)) div g \<le> x div g + 1"
  using zdiv_mono1 [of "x + (g - 1)" "x + g" g] by simp

lemma ceil_split:
  assumes "0 < (g :: int)"
  shows "t div g * f + (t mod g * f + k) div g = (t * f + k) div g"
proof -
  have "t * f + k = (t mod g * f + k) + g * (t div g * f)"
    by (metis add.commute add.left_commute distrib_right mult.assoc mult_div_mod_eq)
  then have "(t * f + k) div g = t div g * f + (t mod g * f + k) div g"
    using assms div_mult_self2 [of g "t mod g * f + k" "t div g * f"] by (simp only: order_less_imp_not_eq2 simp_thms)
  then show ?thesis by simp
qed

text \<open>
  The split conversions are exact: for every signed time and frequency, nanoseconds to cycles
  is the truncated quotient \<open>ns * freq / 10^9\<close> and cycles to nanoseconds is
  \<open>cycles * 10^9 / freq\<close>, although neither full product is ever formed; and the remainder
  products that are formed stay below \<open>2^63\<close>.
\<close>

theorem conversions_exact:
  "cpu_ns_to_cycles t f = cdiv (t * uint f) 1000000000 \<and>
   (f \<noteq> 0 \<longrightarrow> cpu_cycles_to_ns n f = cdiv (n * 1000000000) (uint f)) \<and>
   \<bar>crem t 1000000000 * uint f\<bar> < 2 ^ 63 \<and> (f \<noteq> 0 \<longrightarrow> \<bar>crem n (uint f) * 1000000000\<bar> < 2 ^ 63)"
proof -
  have "\<bar>crem t 1000000000\<bar> * uint f \<le> 1000000000 * 4294967296"
    using crem_bound [of 1000000000 t] freq_bound [of f] by (intro mult_mono) auto
  then show ?thesis
    using crem_bound [OF freq_pos, of f n] freq_bound(2) [of f]
    by (auto simp: ns_to_cycles_eq cycles_to_ns_eq abs_mult)
qed

theorem conversions_exact_witness:
  "cpu_ns_to_cycles (-1500000001) 32768 = -49152 \<and> cpu_cycles_to_ns 49152 32768 = 1500000000"
  using conversions_exact [of "-1500000001" 32768 49152] by (simp add: cdiv_def)

text \<open>
  Deadlines in cycles: for a time that is not negative, the rounded-up conversion gives the
  first cycle whose time has reached it, and the rounded-down one the last cycle whose time has
  not passed it.
\<close>

theorem deadline_cycles:
  assumes "0 \<le> t" "f \<noteq> 0"
  shows "(\<forall>n \<ge> 0. t \<le> cpu_cycles_to_ns n f \<longleftrightarrow> cpu_ns_to_cycles_ceil t f \<le> n) \<and>
    cpu_cycles_to_ns (cpu_ns_to_cycles t f) f \<le> t \<and>
    cpu_ns_to_cycles_ceil t f \<le> cpu_ns_to_cycles t f + 1"
proof (intro conjI allI impI)
  let ?f = "uint f" and ?g = "1000000000 :: int"
  have f: "0 < ?f" using assms(2) by (rule freq_pos)
  have nc: "cpu_cycles_to_ns n f = n * ?g div ?f" if "0 \<le> n" for n
    using that f assms(2) by (simp add: cycles_to_ns_eq)
  have cn: "cpu_ns_to_cycles t f = t * ?f div ?g"
    using assms f by (simp add: ns_to_cycles_eq)
  have "0 \<le> t mod ?g * ?f + 999999999" using f by (simp add: add_nonneg_nonneg)
  then have "cpu_ns_to_cycles_ceil t f = t div ?g * ?f + (t mod ?g * ?f + 999999999) div ?g"
    using assms(1) unfolding cpu_ns_to_cycles_ceil_def Let_def by (simp only: cdiv_nonneg crem_nonneg zero_less_numeral)
  then have ce: "cpu_ns_to_cycles_ceil t f = (t * ?f + (?g - 1)) div ?g"
    using ceil_split [of ?g t ?f 999999999] by simp
  show "t \<le> cpu_cycles_to_ns n f \<longleftrightarrow> cpu_ns_to_cycles_ceil t f \<le> n" if "0 \<le> n" for n
  proof -
    have "t \<le> n * ?g div ?f \<longleftrightarrow> t * ?f \<le> n * ?g" by (rule le_div_iff [OF f])
    moreover have "(t * ?f + (?g - 1)) div ?g \<le> n \<longleftrightarrow> t * ?f \<le> n * ?g" by (rule ceil_div_le) simp
    ultimately show ?thesis using nc [OF that] ce by simp
  qed
  have "t * ?f div ?g * ?g \<le> t * ?f" by (simp add: minus_mod_eq_div_mult [symmetric])
  then have "t * ?f div ?g * ?g div ?f \<le> t * ?f div ?f" using f by (intro zdiv_mono1)
  then have "t * ?f div ?g * ?g div ?f \<le> t" using f by simp
  moreover have "0 \<le> t * ?f div ?g" using assms(1) f by (intro div_int_pos_iff [THEN iffD2]) auto
  ultimately show "cpu_cycles_to_ns (cpu_ns_to_cycles t f) f \<le> t" using nc cn by simp
  show "cpu_ns_to_cycles_ceil t f \<le> cpu_ns_to_cycles t f + 1" unfolding ce cn by (rule ceil_div_suc) simp
qed

theorem deadline_cycles_witness:
  "cpu_cycles_to_ns (cpu_ns_to_cycles 100000 32768) 32768 \<le> 100000 \<and> 100000 \<le> cpu_cycles_to_ns (cpu_ns_to_cycles_ceil 100000 32768) 32768"
proof -
  have "0 \<le> cpu_ns_to_cycles_ceil 100000 32768" by (simp add: cpu_ns_to_cycles_ceil_def Let_def)
  then show ?thesis using deadline_cycles [of 100000 32768] by simp
qed

subsection \<open>The queue invariant\<close>

definition clock_inv :: "'a cpu_clock_scheme \<Rightarrow> bool" where
  "clock_inv c \<longleftrightarrow> sorted (map fire_cycle (ev_queue c)) \<and> distinct (map ev_obj (ev_queue c)) \<and>
     next_event_cycle c = queue_next (ev_queue c)"

lemma link_event_after: "link_event e q = link_after e q"
  by (cases q) (auto simp: link_event_def)

lemma link_after_mset [simp]: "mset (link_after e q) = add_mset e (mset q)"
  by (induction q) auto

lemma link_after_set [simp]: "set (link_after e q) = insert e (set q)"
  by (induction q) auto

lemma link_after_sorted: "sorted (map fire_cycle q) \<Longrightarrow> sorted (map fire_cycle (link_after e q))"
  by (induction q) auto

lemma link_after_distinct:
  "distinct (map ev_obj q) \<Longrightarrow> ev_obj e \<notin> ev_obj ` set q \<Longrightarrow> distinct (map ev_obj (link_after e q))"
  by (induction q) auto

lemma link_after_split:
  "link_after e q = takeWhile (\<lambda>p. fire_cycle p \<le> fire_cycle e) q @ e # dropWhile (\<lambda>p. fire_cycle p \<le> fire_cycle e) q"
  by (induction q) auto

lemma unlink_filter: "distinct (map ev_obj q) \<Longrightarrow> unlink ev q = filter (\<lambda>e. ev_obj e \<noteq> ev) q"
proof (induction q)
  case (Cons p q)
  then show ?case by (auto simp: image_iff intro!: filter_True [symmetric])
qed simp

lemma sorted_filter_cycle: "sorted (map fire_cycle q) \<Longrightarrow> sorted (map fire_cycle (filter P q))"
  by (induction q) auto

lemma set_ev_queue_sel [simp]:
  "ev_queue (set_ev_queue q c) = q" "next_event_cycle (set_ev_queue q c) = queue_next q"
  "cpu_cycles (set_ev_queue q c) = cpu_cycles c" "sim_time_ns (set_ev_queue q c) = sim_time_ns c"
  "cpu_freq_hz (set_ev_queue q c) = cpu_freq_hz c"
  by (simp_all add: set_ev_queue_def)

lemma cancel_queue:
  "clock_inv c \<Longrightarrow> ev_queue (cancel_event ev c) = filter (\<lambda>e. ev_obj e \<noteq> ev) (ev_queue c)"
  by (simp add: cancel_event_def clock_inv_def unlink_filter)

lemma cancel_inv: "clock_inv c \<Longrightarrow> clock_inv (cancel_event ev c)"
  by (simp add: clock_inv_def cancel_event_def unlink_filter sorted_filter_cycle distinct_map_filter)

lemma link_inv:
  assumes "clock_inv c" shows "clock_inv (set_ev_queue (link_event e (ev_queue (cancel_event (ev_obj e) c))) (cancel_event (ev_obj e) c))"
  using cancel_inv [OF assms, of "ev_obj e"] cancel_queue [OF assms, of "ev_obj e"]
  by (simp add: clock_inv_def link_event_after link_after_sorted link_after_distinct image_iff)

lemma schedule_inv: "clock_inv c \<Longrightarrow> clock_inv (schedule_event ev t c)"
  using link_inv [of c "\<lparr>ev_obj = ev, fire_cycle = t, fire_ns = 0\<rparr>"] by (simp add: schedule_event_def Let_def)

lemma schedule_ns_inv: "clock_inv c \<Longrightarrow> clock_inv (schedule_event_ns ev t c)"
  using link_inv [of c "\<lparr>ev_obj = ev, fire_cycle = ns_fire_cycle t (cancel_event ev c), fire_ns = t\<rparr>"]
  by (simp add: schedule_event_ns_def Let_def)

definition others :: "nat \<Rightarrow> 'a cpu_clock_scheme \<Rightarrow> cpu_event list" where
  "others ev c = filter (\<lambda>e. ev_obj e \<noteq> ev) (ev_queue c)"

text \<open>
  Scheduling a peripheral event: whatever the object's state, afterwards it is queued exactly
  once, at the requested cycle, after every event of the same or an earlier cycle and before
  every later one; the other events keep their order; and the next-event cycle the step loop
  polls is the earliest queued one. Cancelling removes exactly that object.
\<close>

theorem schedule_event_places:
  assumes "clock_inv c"
  shows "ev_queue (schedule_event ev t c) =
      takeWhile (\<lambda>e. fire_cycle e \<le> t) (others ev c) @ \<lparr>ev_obj = ev, fire_cycle = t, fire_ns = 0\<rparr> # dropWhile (\<lambda>e. fire_cycle e \<le> t) (others ev c) \<and>
    clock_inv (schedule_event ev t c) \<and>
    next_event_cycle (schedule_event ev t c) = Min (fire_cycle ` set (ev_queue (schedule_event ev t c))) \<and>
    ev_queue (cancel_event ev c) = others ev c"
proof -
  let ?q = "ev_queue (schedule_event ev t c)"
  have q: "?q = takeWhile (\<lambda>e. fire_cycle e \<le> t) (others ev c) @ \<lparr>ev_obj = ev, fire_cycle = t, fire_ns = 0\<rparr> # dropWhile (\<lambda>e. fire_cycle e \<le> t) (others ev c)"
    using cancel_queue [OF assms(1)]
    by (simp add: schedule_event_def Let_def link_event_after link_after_split others_def)
  have inv: "clock_inv (schedule_event ev t c)" by (rule schedule_inv [OF assms(1)])
  have "?q \<noteq> []" using q by simp
  then obtain e q' where eq: "?q = e # q'" by (meson neq_Nil_conv)
  then have "\<forall>x \<in> set ?q. fire_cycle e \<le> fire_cycle x" using inv by (auto simp: clock_inv_def)
  then have "Min (fire_cycle ` set ?q) = fire_cycle e" using eq by (intro Min_eqI) auto
  moreover have "next_event_cycle (schedule_event ev t c) = fire_cycle e"
    using inv unfolding clock_inv_def eq queue_next_def by simp
  ultimately show ?thesis using q inv cancel_queue [OF assms(1), of ev] by (simp only: others_def)
qed

theorem schedule_event_places_witness:
  "\<exists>c :: cpu_clock. clock_inv c \<and> map ev_obj (ev_queue c) = [1, 2] \<and>
     map ev_obj (ev_queue (schedule_event 3 20 c)) = [1, 2, 3] \<and> map ev_obj (ev_queue (schedule_event 2 5 c)) = [2, 1]"
proof -
  define c :: cpu_clock where "c = \<lparr>cpu_cycles = 0,
    ev_queue = [\<lparr>ev_obj = 1, fire_cycle = 10, fire_ns = 0\<rparr>, \<lparr>ev_obj = 2, fire_cycle = 20, fire_ns = 0\<rparr>],
    next_event_cycle = 10, sim_time_ns = 0, cpu_freq_hz = 1000000, anchor_cycles = 0, anchor_sim_time_ns = 0\<rparr>"
  have c: "clock_inv c" by (simp add: c_def clock_inv_def queue_next_def)
  show ?thesis
    using schedule_event_places [OF c, of 3 20] schedule_event_places [OF c, of 2 5] c
    by (intro exI [of _ c]) (simp add: c_def others_def)
qed

subsection \<open>Executing due events\<close>

text \<open>The run of the loop, with the objects whose callbacks ran.\<close>

inductive due_run ::
  "(nat \<Rightarrow> 'a cpu_clock_scheme \<Rightarrow> 'a cpu_clock_scheme) \<Rightarrow> 'a cpu_clock_scheme \<Rightarrow> nat list \<Rightarrow> 'a cpu_clock_scheme \<Rightarrow> bool"
  for cb where
  stop: "\<forall>e \<in> set (take 1 (ev_queue c)). cpu_cycles c < fire_cycle e \<Longrightarrow> due_run cb c [] c"
| fire: "ev_queue c = e # q \<Longrightarrow> fire_cycle e \<le> cpu_cycles c \<Longrightarrow>
    due_run cb (cb (ev_obj e) (sync_sim_time (c\<lparr>ev_queue := q\<rparr>))) evs c' \<Longrightarrow> due_run cb c (ev_obj e # evs) c'"

lemma due_run_complete: "due_run cb c evs c' \<Longrightarrow> run_due cb c = Some c'"
proof (induction rule: due_run.induct)
  case (stop c)
  then show ?case by (subst run_due.simps) (auto split: list.splits)
next
  case (fire c e q evs c')
  then show ?case by (subst run_due.simps) simp
qed

text \<open>
  Callbacks as the peripherals write them. The event that fires is unlinked when its callback runs, so
  only such states matter: the callback may schedule its own event again, schedule other events ahead
  of the clock and cancel events that are not due, and it leaves the cycle counter alone. (The MSP430
  callbacks do: interrupts are serviced later, by the step loop. An ARM callback whose interrupt is
  entered at once adds the cycles of the entry and is outside this contract.)
\<close>

definition queue_ok :: "'a cpu_clock_scheme \<Rightarrow> bool" where
  "queue_ok c \<longleftrightarrow> sorted (map fire_cycle (ev_queue c)) \<and> distinct (map ev_obj (ev_queue c))"

definition due :: "'a cpu_clock_scheme \<Rightarrow> cpu_event list" where
  "due c = filter (\<lambda>e. fire_cycle e \<le> cpu_cycles c) (ev_queue c)"

definition good_callback :: "(nat \<Rightarrow> 'a cpu_clock_scheme \<Rightarrow> 'a cpu_clock_scheme) \<Rightarrow> bool" where
  "good_callback cb \<longleftrightarrow>
     (\<forall>ev c. queue_ok c \<and> ev \<notin> ev_obj ` set (ev_queue c) \<longrightarrow>
        queue_ok (cb ev c) \<and> cpu_cycles (cb ev c) = cpu_cycles c \<and> due (cb ev c) = due c)"

lemma sync_sel [simp]: "ev_queue (sync_sim_time c) = ev_queue c" "cpu_cycles (sync_sim_time c) = cpu_cycles c"
  by (simp_all add: sync_sim_time_def)

lemma due_nil: "queue_ok c \<Longrightarrow> due c = [] \<Longrightarrow> \<forall>e \<in> set (ev_queue c). cpu_cycles c < fire_cycle e"
  by (auto simp: due_def filter_empty_conv)

lemma due_cons:
  assumes "queue_ok c" "due c = e # es"
  obtains q where "ev_queue c = e # q" "fire_cycle e \<le> cpu_cycles c" "queue_ok (c\<lparr>ev_queue := q\<rparr>)" "due (c\<lparr>ev_queue := q\<rparr>) = es"
proof (cases "ev_queue c")
  case Nil
  then show ?thesis using assms(2) by (simp add: due_def)
next
  case (Cons x q)
  have e: "e \<in> set (ev_queue c)" "fire_cycle e \<le> cpu_cycles c"
    using assms(2) filter_Cons_mem unfolding due_def by fastforce+
  then have "fire_cycle x \<le> fire_cycle e" using assms(1) Cons by (auto simp: queue_ok_def)
  then have "fire_cycle x \<le> cpu_cycles c" using e(2) by simp
  then have "x = e" "es = filter (\<lambda>e. fire_cycle e \<le> cpu_cycles c) q" using assms(2) Cons by (auto simp: due_def)
  then show ?thesis using that [of q] Cons e(2) assms(1) by (auto simp: queue_ok_def due_def)
qed

lemma due_run_exists:
  assumes "good_callback cb" "queue_ok c"
  shows "\<exists>c'. due_run cb c (map ev_obj (due c)) c' \<and> queue_ok c' \<and> cpu_cycles c' = cpu_cycles c \<and> due c' = []"
  using assms(2)
proof (induction "due c" arbitrary: c)
  case Nil
  then have "due_run cb c [] c" using due_nil [of c] by (intro due_run.stop) (auto dest: in_set_takeD)
  then show ?case using Nil by (intro exI [of _ c]) simp
next
  case (Cons e es)
  then obtain q where q: "ev_queue c = e # q" "fire_cycle e \<le> cpu_cycles c" "queue_ok (c\<lparr>ev_queue := q\<rparr>)"
    "due (c\<lparr>ev_queue := q\<rparr>) = es"
    using due_cons by metis
  let ?c1 = "sync_sim_time (c\<lparr>ev_queue := q\<rparr>)" and ?c2 = "cb (ev_obj e) (sync_sim_time (c\<lparr>ev_queue := q\<rparr>))"
  have "queue_ok ?c1" "due ?c1 = es" using q by (simp_all add: queue_ok_def due_def)
  moreover have "ev_obj e \<notin> ev_obj ` set (ev_queue ?c1)" using Cons.prems q(1) by (auto simp: queue_ok_def)
  ultimately have c2: "queue_ok ?c2" "cpu_cycles ?c2 = cpu_cycles c" "due ?c2 = es"
    using assms(1) by (auto simp: good_callback_def)
  obtain c' where "due_run cb ?c2 (map ev_obj es) c'" "queue_ok c'" "cpu_cycles c' = cpu_cycles ?c2" "due c' = []"
    using Cons.hyps(1) [of ?c2] c2 by auto
  then show ?case using due_run.fire [OF q(1,2)] Cons.hyps(2) [symmetric] c2(2) by (intro exI [of _ c']) auto
qed

text \<open>
  C15. Executing the due events ends and runs exactly those: with callbacks that leave the cycle counter alone, schedule
  (their own event included) only ahead of it and cancel no due event, the loop returns after running the callbacks of the events that were due,
  each once, earliest first and in scheduling order within a cycle; no due event is left, and
  the polled next-event cycle lies beyond the clock (or is the end of time).
\<close>

theorem execute_events_runs_due:
  assumes "good_callback cb" "clock_inv c" "cpu_cycles c < INT64_MAX"
  shows "\<exists>c1 c'. due_run cb c (map ev_obj (due c)) c1 \<and> execute_events cb c = Some c' \<and> clock_inv c' \<and>
    ev_queue c' = ev_queue c1 \<and> cpu_cycles c' = cpu_cycles c \<and> cpu_cycles c < next_event_cycle c'"
proof -
  have "queue_ok c" using assms(2) by (simp add: clock_inv_def queue_ok_def)
  then obtain c1 where r: "due_run cb c (map ev_obj (due c)) c1" "queue_ok c1" "cpu_cycles c1 = cpu_cycles c" "due c1 = []"
    using due_run_exists [OF assms(1)] by blast
  let ?c' = "c1\<lparr>next_event_cycle := queue_next (ev_queue c1)\<rparr>"
  have "execute_events cb c = Some ?c'" using due_run_complete [OF r(1)] by (simp add: execute_events_def)
  moreover have "clock_inv ?c'" using r(2) by (simp add: clock_inv_def queue_ok_def)
  moreover have "cpu_cycles c < queue_next (ev_queue c1)"
    using due_nil [OF r(2,4)] r(3) assms(3) by (auto simp: queue_next_def split: list.splits)
  ultimately show ?thesis using r by (intro exI [of _ c1] exI [of _ ?c']) simp
qed

text \<open>A periodic callback: it schedules itself again a thousand cycles ahead.\<close>

definition periodic :: "nat \<Rightarrow> 'a cpu_clock_scheme \<Rightarrow> 'a cpu_clock_scheme" where
  "periodic ev c = schedule_event ev (cpu_cycles c + 1000) c"

lemma periodic_good: "good_callback periodic"
  unfolding good_callback_def periodic_def
proof (intro allI impI)
  fix ev and c :: "'a cpu_clock_scheme" assume ok: "queue_ok c \<and> ev \<notin> ev_obj ` set (ev_queue c)"
  let ?t = "cpu_cycles c + 1000"
  let ?e = "\<lparr>ev_obj = ev, fire_cycle = ?t, fire_ns = 0\<rparr>"
  have "filter (\<lambda>e. ev_obj e \<noteq> ev) (ev_queue c) = ev_queue c" using ok by (auto simp: filter_id_conv)
  then have q: "ev_queue (schedule_event ev ?t c) = link_after ?e (ev_queue c)"
    using ok by (simp add: schedule_event_def Let_def cancel_event_def unlink_filter queue_ok_def link_event_after)
  have cyc: "cpu_cycles (schedule_event ev ?t c) = cpu_cycles c"
    by (simp add: schedule_event_def Let_def cancel_event_def)
  have f: "filter (\<lambda>e. fire_cycle e \<le> cpu_cycles c) (link_after ?e x) = filter (\<lambda>e. fire_cycle e \<le> cpu_cycles c) x" for x
    by (induction x) auto
  have "queue_ok (schedule_event ev ?t c)"
    using ok q by (auto simp: queue_ok_def link_after_sorted intro!: link_after_distinct)
  then show "queue_ok (schedule_event ev ?t c) \<and> cpu_cycles (schedule_event ev ?t c) = cpu_cycles c \<and>
      due (schedule_event ev ?t c) = due c"
    using f cyc by (simp add: due_def q)
qed

theorem execute_events_runs_due_witness:
  "\<exists>(c :: cpu_clock) c'. map ev_obj (due c) = [7, 4] \<and>
     execute_events periodic c = Some c' \<and>
     50 < next_event_cycle c'"
proof -
  define c :: cpu_clock where "c = \<lparr>cpu_cycles = 50,
    ev_queue = [\<lparr>ev_obj = 7, fire_cycle = 10, fire_ns = 0\<rparr>, \<lparr>ev_obj = 4, fire_cycle = 50, fire_ns = 0\<rparr>],
    next_event_cycle = 10, sim_time_ns = 0, cpu_freq_hz = 1000000, anchor_cycles = 0, anchor_sim_time_ns = 0\<rparr>"
  have "clock_inv c" "cpu_cycles c < INT64_MAX" "cpu_cycles c = 50" "map ev_obj (due c) = [7, 4]"
    by (simp_all add: c_def clock_inv_def queue_next_def due_def)
  then obtain c' where "map ev_obj (due c) = [7, 4]" "50 < next_event_cycle c'"
    "execute_events periodic c = Some c'"
    using execute_events_runs_due [OF periodic_good, of c] by auto
  then show ?thesis by (intro exI [of _ c] exI [of _ c'] conjI)
qed

subsection \<open>Changing the frequency\<close>










text \<open>Callbacks that do not turn the clock back: neither does the run of the due events.\<close>

lemma run_due_forward:
  assumes "run_due cb c = Some d" "\<And>ev s. cpu_cycles s \<le> cpu_cycles (cb ev s)"
  shows "cpu_cycles c \<le> cpu_cycles d"
proof (rule run_due.raw_induct [OF _ assms(1), where P = "\<lambda>cb0 c d. cb0 = cb \<longrightarrow> cpu_cycles c \<le> cpu_cycles d", THEN mp, OF _ refl], goal_cases)
  case (1 rec cb0 c d)
  show ?case
  proof (intro impI)
    assume cb: "cb0 = cb"
    show "cpu_cycles c \<le> cpu_cycles d"
    proof (cases "ev_queue c")
      case (Cons e q)
      let ?c = "cb (ev_obj e) (sync_sim_time (c\<lparr>ev_queue := q\<rparr>))"
      have "cpu_cycles c \<le> cpu_cycles ?c" using assms(2) [of "sync_sim_time (c\<lparr>ev_queue := q\<rparr>)" "ev_obj e"]
        by (simp add: sync_sim_time_def split: if_splits)
      thus ?thesis using 1 (2) Cons cb 1 (1) [of cb ?c d] by (auto split: if_splits)
    qed (use 1 (2) in simp)
  qed
qed

lemma execute_events_forward:
  assumes "execute_events cb c = Some d" "\<And>ev s. cpu_cycles s \<le> cpu_cycles (cb ev s)"
  shows "cpu_cycles c \<le> cpu_cycles d"
  using assms(1) run_due_forward [OF _ assms(2)] by (fastforce simp: execute_events_def)

end
