(* ===== verification/Arm_Io.thy ===== *)
theory Arm_Io
  imports Cpu_Events
begin

text \<open>
  Memory-mapped IO dispatch of the ARM core, \<open>src/arm/arm_cpu.c\<close>: the region table, the linear
  reference lookup, the page-indexed hash table over it and its rebuild at every registration.

  Handlers are a parameter of the memory model, so a region carries the number of its handler.
  The environment switches \<open>ARM_IO_XCHECK\<close> (abort on disagreement) and \<open>ARM_IO_LINEAR\<close> (pin the
  linear scan) are taken as unset. A probe that never meets a stopping slot is \<open>None\<close>: the C loop
  would not end.
\<close>

abbreviation ARM_MAX_IO_REGIONS :: nat where "ARM_MAX_IO_REGIONS \<equiv> 64"
abbreviation ARM_IO_PAGE_SLOTS :: nat where "ARM_IO_PAGE_SLOTS \<equiv> 128"
abbreviation ARM_IO_PAGE_CHAIN :: nat where "ARM_IO_PAGE_CHAIN \<equiv> 4"

record arm_io_region =
  r_base :: u32
  r_size :: u32
  r_handler :: nat

text \<open>One slot: the page number and the chain; an empty chain marks an empty slot.\<close>

record arm_io_page =
  pg_page :: u32
  pg_idx :: "nat list"

record arm_io = cpu_clock +
  io_regions :: "arm_io_region list"
  io_page_map :: "arm_io_page list"
  io_page_map_fallback :: bool

definition empty_page_map :: "arm_io_page list" where
  "empty_page_map = replicate ARM_IO_PAGE_SLOTS \<lparr>pg_page = 0, pg_idx = []\<rparr>"

subsection \<open>The linear scan\<close>

definition in_region :: "u32 \<Rightarrow> arm_io_region \<Rightarrow> bool" where
  "in_region addr r \<longleftrightarrow> r_base r \<le> addr \<and> addr < r_base r + r_size r"

fun linear_scan :: "u32 \<Rightarrow> arm_io_region list \<Rightarrow> nat \<Rightarrow> (nat \<times> u32) option \<Rightarrow> (nat \<times> u32) option" where
  "linear_scan addr [] i best = best"
| "linear_scan addr (r # rs) i best =
     linear_scan addr rs (Suc i)
       (if in_region addr r
        then (case best of None \<Rightarrow> Some (i, r_size r)
                | Some (j, sz) \<Rightarrow> if r_size r < sz then Some (i, r_size r) else best)
        else best)"

definition find_io_region_linear :: "arm_io_region list \<Rightarrow> u32 \<Rightarrow> nat option" where
  "find_io_region_linear rs addr = map_option fst (linear_scan addr rs 0 None)"

subsection \<open>The page table\<close>

definition page_hash :: "u32 \<Rightarrow> nat" where
  "page_hash page = unat (drop_bit 25 (page * 2654435761))"

definition slot_at :: "u32 \<Rightarrow> nat \<Rightarrow> nat" where
  "slot_at page k = (page_hash page + k) mod ARM_IO_PAGE_SLOTS"

definition stops :: "arm_io_page list \<Rightarrow> u32 \<Rightarrow> nat \<Rightarrow> bool" where
  "stops t page s \<longleftrightarrow> pg_idx (t ! s) = [] \<or> pg_page (t ! s) = page"

fun probe_from :: "arm_io_page list \<Rightarrow> u32 \<Rightarrow> nat \<Rightarrow> nat \<Rightarrow> nat option" where
  "probe_from t page k 0 = None"
| "probe_from t page k (Suc n) =
     (if stops t page (slot_at page k) then Some (slot_at page k) else probe_from t page (Suc k) n)"

definition probe :: "arm_io_page list \<Rightarrow> u32 \<Rightarrow> nat option" where
  "probe t page = probe_from t page 0 ARM_IO_PAGE_SLOTS"

definition hits :: "u32 \<Rightarrow> arm_io_region \<Rightarrow> bool" where
  "hits addr r \<longleftrightarrow> addr - r_base r < r_size r"

definition chain_hit :: "arm_io_region list \<Rightarrow> u32 \<Rightarrow> nat list \<Rightarrow> nat option" where
  "chain_hit rs addr is = find (\<lambda>i. hits addr (rs ! i)) is"

text \<open>The outer \<open>None\<close> is the endless probe, \<open>Some None\<close> the NULL result.\<close>

definition find_io_region_fast :: "arm_io_region list \<Rightarrow> arm_io_page list \<Rightarrow> u32 \<Rightarrow> nat option option" where
  "find_io_region_fast rs t addr =
     (let page = drop_bit 12 addr in
      case probe t page of
        None \<Rightarrow> None
      | Some s \<Rightarrow> Some (if pg_idx (t ! s) = [] then None else chain_hit rs addr (pg_idx (t ! s))))"

definition find_io_region :: "'a arm_io_scheme \<Rightarrow> u32 \<Rightarrow> nat option option" where
  "find_io_region cpu addr =
     (if io_page_map_fallback cpu then Some (find_io_region_linear (io_regions cpu) addr)
      else find_io_region_fast (io_regions cpu) (io_page_map cpu) addr)"

subsection \<open>Rebuilding\<close>

definition chain_insert :: "arm_io_region list \<Rightarrow> nat \<Rightarrow> nat list \<Rightarrow> nat list" where
  "chain_insert rs i is =
     (let larger = (\<lambda>j. r_size (rs ! i) < r_size (rs ! j))
      in rev (dropWhile larger (rev is)) @ i # rev (takeWhile larger (rev is)))"

text \<open>
  Entering region \<open>i\<close> on one page. The table is paired with the number of used slots; \<open>None\<close> is
  the early return with the fallback flag set: the partly filled table it leaves is never read,
  because the flag sends every lookup to the linear scan until the next rebuild starts afresh.
\<close>

definition enter_page ::
  "arm_io_region list \<Rightarrow> nat \<Rightarrow> u32 \<Rightarrow> (arm_io_page list \<times> nat) option \<Rightarrow> (arm_io_page list \<times> nat) option" where
  "enter_page rs i page st =
     (case st of
        None \<Rightarrow> None
      | Some (t, used) \<Rightarrow>
          (case probe t page of
             None \<Rightarrow> None
           | Some s \<Rightarrow>
               let fresh = (pg_idx (t ! s) = []);
                   used' = (if fresh then Suc used else used)
               in if fresh \<and> used' > 96 then None
                  else if length (pg_idx (t ! s)) \<ge> ARM_IO_PAGE_CHAIN then None
                  else Some (t[s := \<lparr>pg_page = page, pg_idx = chain_insert rs i (pg_idx (t ! s))\<rparr>], used')))"

definition region_pages :: "arm_io_region \<Rightarrow> u32 list" where
  "region_pages r =
     (if r_size r = 0 then []
      else map of_nat [unat (drop_bit 12 (r_base r))..<Suc (unat (drop_bit 12 (r_base r + r_size r - 1)))])"

definition enter_region ::
  "arm_io_region list \<Rightarrow> nat \<Rightarrow> (arm_io_page list \<times> nat) option \<Rightarrow> (arm_io_page list \<times> nat) option" where
  "enter_region rs i st = fold (enter_page rs i) (region_pages (rs ! i)) st"

definition build_page_map :: "arm_io_region list \<Rightarrow> (arm_io_page list \<times> nat) option" where
  "build_page_map rs = fold (enter_region rs) [0..<length rs] (Some (empty_page_map, 0))"

definition arm_io_page_map_rebuild :: "'a arm_io_scheme \<Rightarrow> 'a arm_io_scheme" where
  "arm_io_page_map_rebuild cpu =
     (case build_page_map (io_regions cpu) of
        None \<Rightarrow> cpu\<lparr>io_page_map_fallback := True\<rparr>
      | Some (t, _) \<Rightarrow> cpu\<lparr>io_page_map := t, io_page_map_fallback := False\<rparr>)"

definition arm_register_io :: "u32 \<Rightarrow> u32 \<Rightarrow> nat \<Rightarrow> 'a arm_io_scheme \<Rightarrow> 'a arm_io_scheme" where
  "arm_register_io base sz handler cpu =
     (if length (io_regions cpu) \<ge> ARM_MAX_IO_REGIONS then cpu
      else arm_io_page_map_rebuild
             (cpu\<lparr>io_regions := io_regions cpu @ [\<lparr>r_base = base, r_size = sz, r_handler = handler\<rparr>]\<rparr>))"

end
