(* ===== verification/Arm_Io_Correct.thy ===== *)
theory Arm_Io_Correct
  imports Arm_Io
begin

text \<open>
  The page-indexed lookup agrees with the linear scan: the hash table is a finite map from pages
  to chains, the rebuild enters every region on each of its pages, chains are sorted the way the
  scan prefers, and every probe ends.
\<close>

subsection \<open>Probing\<close>

lemma slot_at_lt [simp]: "slot_at p k < 128"
  by (simp add: slot_at_def)

lemma slot_at_surj: "s < 128 \<Longrightarrow> \<exists>k < 128. slot_at p k = s"
proof -
  assume s: "s < 128"
  let ?h = "page_hash p mod 128"
  have "?h < 128" by simp
  then have "?h + (s + 128 - ?h) = s + 128" by linarith
  moreover have "(page_hash p + (s + 128 - ?h)) mod 128 = (?h + (s + 128 - ?h)) mod 128" by (rule mod_add_left_eq [symmetric])
  ultimately have "(page_hash p + (s + 128 - ?h)) mod 128 = s" using s by simp
  then have "slot_at p ((s + 128 - ?h) mod 128) = s" unfolding slot_at_def by (metis mod_add_right_eq)
  then show ?thesis by (intro exI [of _ "(s + 128 - ?h) mod 128"]) simp
qed

lemma probe_from_Some:
  "probe_from t p k n = Some s \<longleftrightarrow>
     (\<exists>j < n. s = slot_at p (k + j) \<and> stops t p s \<and> (\<forall>i < j. \<not> stops t p (slot_at p (k + i))))"
proof (induction n arbitrary: k)
  case (Suc n)
  show ?case
  proof (cases "stops t p (slot_at p k)")
    case True
    then show ?thesis by (auto intro!: exI [of _ 0]) (metis add.right_neutral not_gr_zero)
  next
    case False
    have "(\<exists>j < Suc n. s = slot_at p (k + j) \<and> stops t p s \<and> (\<forall>i < j. \<not> stops t p (slot_at p (k + i)))) \<longleftrightarrow>
        (\<exists>j < n. s = slot_at p (Suc k + j) \<and> stops t p s \<and> (\<forall>i < j. \<not> stops t p (slot_at p (Suc k + i))))" (is "?L = ?R")
    proof
      assume ?L
      then obtain j where j: "j < Suc n" "s = slot_at p (k + j)" "stops t p s" "\<forall>i < j. \<not> stops t p (slot_at p (k + i))" by blast
      then obtain m where m: "j = Suc m" using False by (cases j) auto
      with j(4) have "\<not> stops t p (slot_at p (Suc k + i))" if "i < m" for i using that by fastforce
      then show ?R using j m by (intro exI [of _ m]) simp
    next
      assume ?R
      then obtain j where j: "j < n" "s = slot_at p (Suc k + j)" "stops t p s" "\<forall>i < j. \<not> stops t p (slot_at p (Suc k + i))" by blast
      have "\<not> stops t p (slot_at p (k + i))" if "i < Suc j" for i using that j(4) False by (cases i) auto
      then show ?L using j by (intro exI [of _ "Suc j"]) simp
    qed
    then show ?thesis using False Suc.IH [of "Suc k"] by simp
  qed
qed simp

lemma probe_Some:
  "probe t p = Some s \<longleftrightarrow> (\<exists>k < 128. s = slot_at p k \<and> stops t p s \<and> (\<forall>i < k. \<not> stops t p (slot_at p i)))"
  using probe_from_Some [of t p 0 128 s] by (simp add: probe_def)

lemma probe_first: "stops t p (slot_at p 0) \<Longrightarrow> probe t p = Some (slot_at p 0)"
  unfolding probe_Some by (intro exI [of _ 0]) simp

lemma probe_exists:
  assumes "s < 128" "stops t p s" shows "\<exists>x. probe t p = Some x"
proof -
  obtain k0 where k0: "k0 < 128" "slot_at p k0 = s" using slot_at_surj [OF assms(1)] by blast
  let ?P = "\<lambda>k. k < 128 \<and> stops t p (slot_at p k)"
  have "?P k0" using k0 assms(2) by simp
  then have L: "?P (LEAST k. ?P k)" by (rule LeastI)
  have "\<not> stops t p (slot_at p i)" if "i < (LEAST k. ?P k)" for i
    using that L not_less_Least [of i ?P] by fastforce
  then have "probe t p = Some (slot_at p (LEAST k. ?P k))" using L unfolding probe_Some by blast
  then show ?thesis by blast
qed

subsection \<open>The table is a finite map\<close>

definition used_slots :: "arm_io_page list \<Rightarrow> nat set" where
  "used_slots t = {s. s < 128 \<and> pg_idx (t ! s) \<noteq> []}"

definition tbl_ok :: "arm_io_page list \<Rightarrow> nat \<Rightarrow> bool" where
  "tbl_ok t used \<longleftrightarrow> length t = 128 \<and> used = card (used_slots t) \<and> used \<le> 96 \<and>
     (\<forall>s \<in> used_slots t. probe t (pg_page (t ! s)) = Some s)"

definition chain_of :: "arm_io_page list \<Rightarrow> u32 \<Rightarrow> nat list" where
  "chain_of t p = (case probe t p of None \<Rightarrow> [] | Some s \<Rightarrow> pg_idx (t ! s))"

lemma used_finite [simp]: "finite (used_slots t)"
  by (simp add: used_slots_def)

lemma tbl_probe: "tbl_ok t used \<Longrightarrow> \<exists>s. probe t p = Some s"
proof -
  assume ok: "tbl_ok t used"
  have "card (used_slots t) < card {..<128 :: nat}" using ok by (simp add: tbl_ok_def)
  then have "\<not> {..<128} \<subseteq> used_slots t" using card_mono [OF used_finite, of "{..<128}" t] by linarith
  then obtain s where "s < 128" "s \<notin> used_slots t" by blast
  then have "stops t p s" by (simp add: used_slots_def stops_def)
  with \<open>s < 128\<close> show ?thesis by (rule probe_exists)
qed

lemma probe_lt: "probe t p = Some s \<Longrightarrow> s < 128"
  by (auto simp: probe_Some)

lemma chain_of_iff:
  assumes "tbl_ok t used" "c \<noteq> []"
  shows "chain_of t p = c \<longleftrightarrow> (\<exists>s \<in> used_slots t. pg_page (t ! s) = p \<and> pg_idx (t ! s) = c)"
proof
  assume "chain_of t p = c"
  then obtain s where s: "probe t p = Some s" "pg_idx (t ! s) = c" using assms(2) by (auto simp: chain_of_def split: option.splits)
  then have "stops t p s" "s < 128" by (auto simp: probe_Some)
  then show "\<exists>s \<in> used_slots t. pg_page (t ! s) = p \<and> pg_idx (t ! s) = c"
    using s assms(2) by (auto simp: stops_def used_slots_def)
next
  assume "\<exists>s \<in> used_slots t. pg_page (t ! s) = p \<and> pg_idx (t ! s) = c"
  then show "chain_of t p = c" using assms(1) by (auto simp: tbl_ok_def chain_of_def)
qed

lemma empty_ok: "tbl_ok empty_page_map 0" "chain_of empty_page_map p = []"
  by (auto simp: tbl_ok_def used_slots_def empty_page_map_def chain_of_def dest: probe_lt split: option.splits)

text \<open>Writing the probed slot is a map update.\<close>

lemma tbl_update:
  assumes ok: "tbl_ok t used" and s: "probe t p = Some s" and c: "c \<noteq> []"
    and room: "pg_idx (t ! s) = [] \<Longrightarrow> used < 96"
  defines "t' \<equiv> t[s := \<lparr>pg_page = p, pg_idx = c\<rparr>]"
  shows "tbl_ok t' (if pg_idx (t ! s) = [] then Suc used else used)"
    and "chain_of t' q = (if q = p then c else chain_of t q)"
proof -
  have lt: "s < 128" and len: "length t = 128" using ok probe_lt [OF s] by (simp_all add: tbl_ok_def)
  have other: "x \<noteq> s \<Longrightarrow> t' ! x = t ! x" for x by (simp add: t'_def)
  have at: "t' ! s = \<lparr>pg_page = p, pg_idx = c\<rparr>" using lt len by (simp add: t'_def)
  obtain k where k: "k < 128" "s = slot_at p k" "stops t p s" "\<forall>i < k. \<not> stops t p (slot_at p i)"
    using s by (auto simp: probe_Some)
  have stops': "stops t' q x \<longleftrightarrow> (if x = s then q = p else stops t q x)" for q x
    using other at c by (auto simp: stops_def)
  have us: "used_slots t' = insert s (used_slots t)"
  proof (rule set_eqI)
    show "x \<in> used_slots t' \<longleftrightarrow> x \<in> insert s (used_slots t)" for x
      using lt at c other [of x] by (cases "x = s") (simp_all add: used_slots_def)
  qed
  have unique: "x = s" if "x \<in> used_slots t" "pg_page (t ! x) = p" for x
    using ok s that by (auto simp: tbl_ok_def)
  have probes: "probe t' (pg_page (t' ! x)) = Some x" if x: "x \<in> used_slots t'" for x
  proof (cases "x = s")
    case True
    have "\<not> stops t' p (slot_at p i)" if "i < k" for i
      using k that stops' [of p "slot_at p i"] by metis
    then show ?thesis using True k at stops' [of p s] unfolding probe_Some by (intro exI [of _ k]) simp
  next
    case False
    let ?q = "pg_page (t ! x)"
    have x: "x \<in> used_slots t" using us x False by simp
    then obtain m where m: "m < 128" "x = slot_at ?q m" "stops t ?q x" "\<forall>i < m. \<not> stops t ?q (slot_at ?q i)"
      using ok by (auto simp: tbl_ok_def probe_Some)
    have "?q \<noteq> p" using unique [OF x] False by blast
    then have "\<not> stops t' ?q (slot_at ?q i)" if "i < m" for i
      using m(4) that stops' [of ?q "slot_at ?q i"] by metis
    then show ?thesis using m False stops' [of ?q x] other [OF False] unfolding probe_Some by (intro exI [of _ m]) simp
  qed
  have cd: "card (used_slots t') = (if pg_idx (t ! s) = [] then Suc used else used)"
    using ok us lt by (auto simp: tbl_ok_def card_insert_if) (auto simp: used_slots_def)
  show ok': "tbl_ok t' (if pg_idx (t ! s) = [] then Suc used else used)"
    using ok probes cd room len by (auto simp: tbl_ok_def t'_def)
  show "chain_of t' q = (if q = p then c else chain_of t q)"
  proof (cases "q = p")
    case True
    then show ?thesis using chain_of_iff [OF ok' c, of p] us at by auto
  next
    case False
    have "(\<exists>x \<in> used_slots t'. pg_page (t' ! x) = q \<and> pg_idx (t' ! x) = d) \<longleftrightarrow>
        (\<exists>x \<in> used_slots t. pg_page (t ! x) = q \<and> pg_idx (t ! x) = d)" for d
    proof -
      have "pg_page (t ! s) \<noteq> q" if "s \<in> used_slots t"
        using that k(3) False by (auto simp: used_slots_def stops_def)
      then show ?thesis using us at other False by (metis arm_io_page.select_convs(1) insert_iff)
    qed
    then have "chain_of t' q = d \<longleftrightarrow> chain_of t q = d" if "d \<noteq> []" for d
      using chain_of_iff [OF ok' that] chain_of_iff [OF ok that] by simp
    then show ?thesis using False by (cases "chain_of t q = []"; cases "chain_of t' q = []") auto
  qed
qed

subsection \<open>The rebuild\<close>

lemma chain_insert_ne [simp]: "chain_insert rs i is \<noteq> []"
  by (simp add: chain_insert_def Let_def)

lemma chain_insert_set [simp]: "set (chain_insert rs i is) = insert i (set is)"
proof -
  have "set (takeWhile P xs) \<union> set (dropWhile P xs) = set xs" for P and xs :: "nat list"
    by (metis set_append takeWhile_dropWhile_id)
  then show ?thesis by (auto simp: chain_insert_def Let_def) (metis Un_iff set_rev)+
qed

lemma enter_page_some:
  assumes "tbl_ok t used" "enter_page rs i p (Some (t, used)) = Some (t', used')"
  shows "tbl_ok t' used'" "chain_of t' q = (if q = p then chain_insert rs i (chain_of t q) else chain_of t q)"
proof -
  obtain s where s: "probe t p = Some s" using tbl_probe [OF assms(1)] by blast
  let ?c = "chain_insert rs i (pg_idx (t ! s))"
  have t': "t' = t[s := \<lparr>pg_page = p, pg_idx = ?c\<rparr>]" "used' = (if pg_idx (t ! s) = [] then Suc used else used)"
    and room: "pg_idx (t ! s) = [] \<Longrightarrow> used < 96"
    using assms(2) s by (auto simp: enter_page_def Let_def split: if_splits)
  show "tbl_ok t' used'" using tbl_update(1) [OF assms(1) s _ room, of ?c] t' by simp
  have "chain_of t p = pg_idx (t ! s)" using s by (simp add: chain_of_def)
  then show "chain_of t' q = (if q = p then chain_insert rs i (chain_of t q) else chain_of t q)"
    using tbl_update(2) [OF assms(1) s _ room, of ?c q] t' by simp
qed

lemma enter_page_none: "fold (enter_page rs i) ps None = None"
  by (induction ps) (simp_all add: enter_page_def)

lemma enter_pages:
  assumes "tbl_ok t used" "distinct ps" "fold (enter_page rs i) ps (Some (t, used)) = Some (t', used')"
  shows "tbl_ok t' used' \<and> (\<forall>q. chain_of t' q = (if q \<in> set ps then chain_insert rs i (chain_of t q) else chain_of t q))"
  using assms
proof (induction ps arbitrary: t used)
  case (Cons p ps)
  obtain t1 u1 where e: "enter_page rs i p (Some (t, used)) = Some (t1, u1)"
    using Cons.prems(3) enter_page_none [of rs i ps] by (cases "enter_page rs i p (Some (t, used))") auto
  note one = enter_page_some [OF Cons.prems(1) e]
  show ?case using Cons.IH [OF one(1)] one(2) Cons.prems e by auto
qed simp

lemma page_lt: "unat (drop_bit 12 (w :: u32)) < 1048576"
proof -
  have "unat w < 4294967296" using unsigned_less [of w] by simp
  then have "drop_bit 12 (unat w) < 1048576" by (simp add: drop_bit_eq_div)
  moreover have "take_bit 32 (unat w) = unat w" using \<open>unat w < 4294967296\<close> by (simp add: take_bit_nat_eq_self)
  ultimately show ?thesis by (simp add: unsigned_drop_bit_eq)
qed

lemma of_nat_page: "n < 1048576 \<Longrightarrow> unat (of_nat n :: u32) = n"
  by (simp add: unsigned_of_nat take_bit_nat_eq_self)

lemma region_pages_distinct: "distinct (region_pages r)"
proof -
  let ?ns = "[unat (drop_bit 12 (r_base r))..<Suc (unat (drop_bit 12 (r_base r + r_size r - 1)))]"
  have "n < 1048576" if "n \<in> set ?ns" for n
    using that page_lt [of "r_base r + r_size r - 1"] by auto
  then have "inj_on (of_nat :: nat \<Rightarrow> u32) (set ?ns)" by (intro inj_onI) (metis of_nat_page)
  then show ?thesis by (simp add: region_pages_def distinct_map)
qed

definition page_chain :: "arm_io_region list \<Rightarrow> nat \<Rightarrow> u32 \<Rightarrow> nat list" where
  "page_chain rs n p = fold (chain_insert rs) (filter (\<lambda>i. p \<in> set (region_pages (rs ! i))) [0..<n]) []"

lemma build_prefix:
  assumes "fold (enter_region rs) [0..<n] (Some (empty_page_map, 0)) = Some (t, used)"
  shows "tbl_ok t used \<and> (\<forall>p. chain_of t p = page_chain rs n p)"
  using assms
proof (induction n arbitrary: t used)
  case 0
  then show ?case by (simp add: empty_ok page_chain_def)
next
  case (Suc n)
  have none: "enter_region rs n None = None" by (simp add: enter_region_def enter_page_none)
  obtain t1 u1 where p: "fold (enter_region rs) [0..<n] (Some (empty_page_map, 0)) = Some (t1, u1)"
    using Suc.prems none by (cases "fold (enter_region rs) [0..<n] (Some (empty_page_map, 0))") auto
  then have "fold (enter_page rs n) (region_pages (rs ! n)) (Some (t1, u1)) = Some (t, used)"
    using Suc.prems by (simp add: enter_region_def [of rs n])
  from enter_pages [OF _ region_pages_distinct this] Suc.IH [OF p]
  show ?case by (auto simp: page_chain_def)
qed

subsection \<open>Both lookups take the smallest region\<close>

definition best_region :: "(nat \<Rightarrow> bool) \<Rightarrow> arm_io_region list \<Rightarrow> nat \<Rightarrow> nat option \<Rightarrow> bool" where
  "best_region P rs n res \<longleftrightarrow>
     (case res of None \<Rightarrow> \<forall>j < n. \<not> P j
      | Some i \<Rightarrow> i < n \<and> P i \<and> (\<forall>j < n. P j \<longrightarrow> (r_size (rs ! i), i) \<le> (r_size (rs ! j), j)))"

lemma best_region_unique: "best_region P rs n a \<Longrightarrow> best_region P rs n b \<Longrightarrow> a = b"
  by (auto simp: best_region_def split: option.splits) (metis less_le_not_le not_less_iff_gr_or_eq prod.inject order_antisym)

definition scan_ok :: "arm_io_region list \<Rightarrow> u32 \<Rightarrow> nat \<Rightarrow> (nat \<times> u32) option \<Rightarrow> bool" where
  "scan_ok rs a n best \<longleftrightarrow> best_region (\<lambda>j. in_region a (rs ! j)) rs n (map_option fst best) \<and>
     (\<forall>i sz. best = Some (i, sz) \<longrightarrow> sz = r_size (rs ! i))"

lemma scan_step:
  assumes "scan_ok rs a n best" "n < length rs"
  shows "scan_ok rs a (Suc n)
    (if in_region a (rs ! n)
     then (case best of None \<Rightarrow> Some (n, r_size (rs ! n))
             | Some (j, sz) \<Rightarrow> if r_size (rs ! n) < sz then Some (n, r_size (rs ! n)) else best)
     else best)"
proof (cases best)
  case None
  then show ?thesis using assms by (auto simp: scan_ok_def best_region_def less_Suc_eq)
next
  case (Some x)
  obtain i sz where x: "best = Some (i, sz)" using Some by (cases x) simp
  show ?thesis
  proof (cases "in_region a (rs ! n) \<and> r_size (rs ! n) < sz")
    case True
    then show ?thesis using assms x by (fastforce simp: scan_ok_def best_region_def less_Suc_eq)
  next
    case False
    have "(sz, i) \<le> (r_size (rs ! n), n)" if "in_region a (rs ! n)"
      using that False assms x by (auto simp: scan_ok_def best_region_def not_less order_le_less)
    then show ?thesis using False assms x by (auto simp: scan_ok_def best_region_def less_Suc_eq)
  qed
qed

lemma linear_scan_best:
  assumes "scan_ok (pre @ rs) a (length pre) best"
  shows "scan_ok (pre @ rs) a (length (pre @ rs)) (linear_scan a rs (length pre) best)"
  using assms
proof (induction rs arbitrary: pre best)
  case (Cons r rs)
  have at: "(pre @ r # rs) ! length pre = r" by simp
  show ?case using Cons.IH [of "pre @ [r]"] scan_step [OF Cons.prems, unfolded at] by simp
qed simp

lemma linear_best: "best_region (\<lambda>j. in_region a (rs ! j)) rs (length rs) (find_io_region_linear rs a)"
  using linear_scan_best [of "[]" rs a None] by (simp add: find_io_region_linear_def scan_ok_def best_region_def)

abbreviation winner_order :: "arm_io_region list \<Rightarrow> nat \<Rightarrow> nat \<Rightarrow> bool" where
  "winner_order rs i j \<equiv> (r_size (rs ! i), i) < (r_size (rs ! j), j)"

lemma sorted_wrt_last: "sorted_wrt R xs \<Longrightarrow> x \<in> set xs \<Longrightarrow> x = last xs \<or> R x (last xs)"
  by (induction xs) auto

lemma chain_insert_sorted:
  assumes "sorted_wrt (winner_order rs) is" "\<forall>j \<in> set is. j < i"
  shows "sorted_wrt (winner_order rs) (chain_insert rs i is)"
proof -
  let ?larger = "\<lambda>j. r_size (rs ! i) < r_size (rs ! j)"
  let ?P = "rev (dropWhile ?larger (rev is))" and ?S = "rev (takeWhile ?larger (rev is))"
  have split: "is = ?P @ ?S" by (metis rev_append rev_rev_ident takeWhile_dropWhile_id)
  have S: "?larger j" if "j \<in> set ?S" for j using that set_takeWhileD [of j ?larger "rev is"] by simp
  have P: "winner_order rs j i" if j: "j \<in> set ?P" for j
  proof -
    have ne: "dropWhile ?larger (rev is) \<noteq> []"
      using j by (metis empty_iff empty_set set_rev)
    then have l: "\<not> ?larger (last ?P)" by (metis hd_dropWhile last_rev)
    have "sorted_wrt (winner_order rs) ?P" using assms(1) by (subst (asm) split) (simp only: sorted_wrt_append)
    from sorted_wrt_last [OF this j] have "j = last ?P \<or> winner_order rs j (last ?P)" .
    then have "r_size (rs ! j) \<le> r_size (rs ! i)" using l by auto
    moreover have "j < i" using j assms(2) split by (metis Un_iff set_append)
    ultimately show ?thesis by auto
  qed
  have "sorted_wrt (winner_order rs) (?P @ ?S)" using assms(1) split by simp
  then have "sorted_wrt (winner_order rs) (?P @ i # ?S)"
    using P S by (auto simp: sorted_wrt_append)
  then show ?thesis by (simp add: chain_insert_def Let_def)
qed

lemma page_chain_Suc:
  "page_chain rs (Suc n) p =
     (if p \<in> set (region_pages (rs ! n)) then chain_insert rs n (page_chain rs n p) else page_chain rs n p)"
  by (simp add: page_chain_def)

lemma page_chain_sorted:
  "set (page_chain rs n p) = {i. i < n \<and> p \<in> set (region_pages (rs ! i))} \<and> sorted_wrt (winner_order rs) (page_chain rs n p)"
proof (induction n)
  case (Suc n)
  then have "\<forall>j \<in> set (page_chain rs n p). j < n" by simp
  then show ?case using Suc chain_insert_sorted [of rs "page_chain rs n p" n]
    unfolding page_chain_Suc less_Suc_eq by (auto simp only: if_True if_False chain_insert_set split: if_splits)
qed (simp add: page_chain_def)

lemma find_sorted:
  assumes "sorted_wrt R xs"
  shows "case find P xs of None \<Rightarrow> \<forall>x \<in> set xs. \<not> P x | Some x \<Rightarrow> x \<in> set xs \<and> P x \<and> (\<forall>y \<in> set xs. P y \<longrightarrow> y = x \<or> R x y)"
  using assms by (induction xs) (auto split: option.splits)

text \<open>A region that does not reach the end of the address space.\<close>

definition no_wrap :: "arm_io_region \<Rightarrow> bool" where
  "no_wrap r \<longleftrightarrow> unat (r_base r) + unat (r_size r) < 2 ^ 32"

lemma in_region_iff_hits: "no_wrap r \<Longrightarrow> in_region a r \<longleftrightarrow> hits a r"
  using unsigned_less [of a]
  by (auto simp: no_wrap_def in_region_def hits_def word_less_nat_alt word_le_nat_alt unat_plus_if' unat_sub_if')

lemma unat_page: "unat (drop_bit 12 (w :: u32)) = unat w div 4096"
proof -
  have "unat w < 4294967296" using unsigned_less [of w] by simp
  then have "take_bit 32 (unat w) = unat w" by (simp add: take_bit_nat_eq_self)
  then have "unat (drop_bit 12 w) = drop_bit 12 (unat w)" by (simp add: unsigned_drop_bit_eq)
  then show ?thesis by (simp add: drop_bit_eq_div)
qed

lemma in_region_page:
  assumes "no_wrap r" "in_region a r" shows "drop_bit 12 a \<in> set (region_pages r)"
proof -
  have b: "unat (r_base r) \<le> unat a" "unat a < unat (r_base r) + unat (r_size r)"
    using assms by (auto simp: in_region_def no_wrap_def word_less_nat_alt word_le_nat_alt unat_plus_if')
  then have sz: "r_size r \<noteq> 0" by (metis add.right_neutral leD unsigned_0)
  have "unat (r_base r + r_size r - 1) = unat (r_base r) + unat (r_size r) - 1"
    using assms(1) b sz by (auto simp: no_wrap_def unat_sub_if' unat_plus_if' word_le_nat_alt)
  then have "unat a div 4096 \<le> unat (r_base r + r_size r - 1) div 4096" using b by (intro div_le_mono) simp
  moreover have "unat (r_base r) div 4096 \<le> unat a div 4096" using b(1) by (rule div_le_mono)
  ultimately have "unat (drop_bit 12 a) \<in> set [unat (drop_bit 12 (r_base r))..<Suc (unat (drop_bit 12 (r_base r + r_size r - 1)))]"
    by (simp only: unat_page atLeastLessThan_iff set_upt less_Suc_eq_le simp_thms)
  then have "(of_nat (unat (drop_bit 12 a)) :: u32) \<in> set (region_pages r)"
    using sz unfolding region_pages_def set_map by (simp only: if_False set_map imageI)
  then show ?thesis by (simp only: of_nat_unat ucast_id)
qed

lemma fast_best:
  assumes ok: "tbl_ok t used" "\<And>p. chain_of t p = page_chain rs (length rs) p" and nw: "list_all no_wrap rs"
  shows "\<exists>res. find_io_region_fast rs t a = Some res \<and> best_region (\<lambda>j. in_region a (rs ! j)) rs (length rs) res"
proof -
  let ?p = "drop_bit 12 a" and ?c = "page_chain rs (length rs) (drop_bit 12 a)"
  obtain s where s: "probe t ?p = Some s" using tbl_probe [OF ok(1)] by blast
  then have c: "pg_idx (t ! s) = ?c" using ok(2) [of ?p] by (simp add: chain_of_def)
  have nw: "no_wrap (rs ! i)" if "i < length rs" for i using nw that by (simp add: list_all_length)
  have cover: "i \<in> set ?c" if "i < length rs" "in_region a (rs ! i)" for i
    using that nw in_region_page page_chain_sorted [of rs "length rs" ?p] by simp
  have mem: "i < length rs \<and> (hits a (rs ! i) \<longleftrightarrow> in_region a (rs ! i))" if "i \<in> set ?c" for i
    using that page_chain_sorted [of rs "length rs" ?p] in_region_iff_hits [OF nw] by auto
  note found = find_sorted [OF conjunct2 [OF page_chain_sorted [of rs "length rs" ?p]], where P = "\<lambda>i. hits a (rs ! i)"]
  have "best_region (\<lambda>j. in_region a (rs ! j)) rs (length rs) (find (\<lambda>i. hits a (rs ! i)) ?c)"
  proof (cases "find (\<lambda>i. hits a (rs ! i)) ?c")
    case None
    then show ?thesis using found cover mem by (auto simp: best_region_def)
  next
    case (Some i)
    then have i: "i \<in> set ?c" "hits a (rs ! i)" "\<And>j. j \<in> set ?c \<Longrightarrow> hits a (rs ! j) \<Longrightarrow> j = i \<or> winner_order rs i j"
      using found by auto
    have "(r_size (rs ! i), i) \<le> (r_size (rs ! j), j)" if "j < length rs" "in_region a (rs ! j)" for j
      using i(3) [OF cover [OF that]] mem [OF cover [OF that]] that(2) by (auto simp: less_imp_le)
    then show ?thesis using Some i(1,2) mem [OF i(1)] by (simp add: best_region_def)
  qed
  moreover have "find_io_region_fast rs t a = Some (find (\<lambda>i. hits a (rs ! i)) ?c)"
    using s c by (simp add: find_io_region_fast_def Let_def chain_hit_def)
  ultimately show ?thesis by blast
qed

text \<open>
  C8. The page-indexed IO lookup is equivalent to the linear scan: after any sequence of
  registrations of regions that stay below the end of the address space (overlapping, nested,
  unaligned, of any size, more than the table can represent), the lookup of every address ends
  and returns exactly the region the scan returns: the smallest one containing the address,
  the first registered among equals, or none.
\<close>

theorem io_lookup_equivalent:
  assumes "io_regions cpu0 = []" "list_all (\<lambda>(base, sz, h). unat base + unat sz < 2 ^ 32) regs" "regs \<noteq> []"
  defines "cpu \<equiv> fold (\<lambda>(base, sz, h). arm_register_io base sz h) regs cpu0"
  shows "find_io_region cpu a = Some (find_io_region_linear (io_regions cpu) a)"
proof -
  have built: "find_io_region (arm_io_page_map_rebuild c) a = Some (find_io_region_linear (io_regions (arm_io_page_map_rebuild c)) a)"
    if nw: "list_all no_wrap (io_regions c)" for c :: "'a arm_io_scheme"
  proof (cases "build_page_map (io_regions c)")
    case None
    then show ?thesis by (simp add: arm_io_page_map_rebuild_def find_io_region_def)
  next
    case (Some x)
    obtain t used where x: "build_page_map (io_regions c) = Some (t, used)" using Some by (cases x) auto
    then have "tbl_ok t used" "\<And>p. chain_of t p = page_chain (io_regions c) (length (io_regions c)) p"
      using build_prefix by (auto simp: build_page_map_def)
    from fast_best [OF this nw] show ?thesis
      using x linear_best best_region_unique by (fastforce simp: arm_io_page_map_rebuild_def find_io_region_def)
  qed
  define good :: "'a arm_io_scheme \<Rightarrow> bool" where "good = (\<lambda>c. list_all no_wrap (io_regions c) \<and>
    (io_regions c \<noteq> [] \<longrightarrow> find_io_region c a = Some (find_io_region_linear (io_regions c) a)))"
  have step: "good (arm_register_io b z h c) \<and> io_regions (arm_register_io b z h c) \<noteq> []"
    if "good c" "unat b + unat z < 2 ^ 32" for b z h and c :: "'a arm_io_scheme"
  proof -
    let ?c = "c\<lparr>io_regions := io_regions c @ [\<lparr>r_base = b, r_size = z, r_handler = h\<rparr>]\<rparr>"
    have nw: "list_all no_wrap (io_regions ?c)" using that by (simp add: good_def no_wrap_def)
    have "io_regions (arm_io_page_map_rebuild ?c) = io_regions ?c"
      by (auto simp: arm_io_page_map_rebuild_def split: option.splits)
    then show ?thesis using built [OF nw] nw that by (auto simp: arm_register_io_def good_def)
  qed
  have run: "good (fold (\<lambda>(b, z, h). arm_register_io b z h) xs c) \<and>
      (xs \<noteq> [] \<longrightarrow> io_regions (fold (\<lambda>(b, z, h). arm_register_io b z h) xs c) \<noteq> [])"
    if "good c" "list_all (\<lambda>(b, z, h). unat b + unat z < 2 ^ 32) xs" for xs and c :: "'a arm_io_scheme"
    using that
  proof (induction xs arbitrary: c)
    case (Cons x xs)
    obtain b z h where x: "x = (b, z, h)" by (cases x)
    have st: "good (arm_register_io b z h c)" "io_regions (arm_register_io b z h c) \<noteq> []"
      using step [of c b z h] Cons.prems x by simp_all
    show ?case using Cons.IH [OF st(1)] Cons.prems(2) st x by (cases "xs = []") auto
  qed simp
  have "good cpu0" using assms(1) by (simp add: good_def)
  from run [OF this assms(2)] show ?thesis using assms(3) unfolding cpu_def good_def by blast
qed
definition no_io :: arm_io where
  "no_io = \<lparr>cpu_cycles = 0, ev_queue = [], next_event_cycle = INT64_MAX, sim_time_ns = 0, cpu_freq_hz = 64000000,
     anchor_cycles = 0, anchor_sim_time_ns = 0, io_regions = [], io_page_map = [], io_page_map_fallback = False\<rparr>"

text \<open>Two nested peripherals: the inner window wins inside, the outer one outside.\<close>

theorem io_lookup_equivalent_witness:
  "find_io_region (fold (\<lambda>(base, sz, h). arm_register_io base sz h) [(0x40000000, 0x2000, 1), (0x40001000, 0x100, 2)] no_io) 0x40001080
     = Some (Some 1)"
proof -
  let ?c = "fold (\<lambda>(base, sz, h). arm_register_io base sz h) [(0x40000000, 0x2000, 1), (0x40001000, 0x100, 2)] no_io"
  have "io_regions ?c = [\<lparr>r_base = 0x40000000, r_size = 0x2000, r_handler = 1\<rparr>, \<lparr>r_base = 0x40001000, r_size = 0x100, r_handler = 2\<rparr>]"
    by (simp add: arm_register_io_def arm_io_page_map_rebuild_def no_io_def split: option.splits)
  then have "find_io_region_linear (io_regions ?c) 0x40001080 = Some 1"
    by (simp add: find_io_region_linear_def in_region_def)
  then show ?thesis
    using io_lookup_equivalent [of no_io "[(0x40000000, 0x2000, 1), (0x40001000, 0x100, 2)]" "0x40001080"]
    by (simp add: no_io_def)
qed

text \<open>
  The bound is needed: a window ending at the last address is served by the page table and
  never by the linear scan, whose exclusive end wraps to zero. The two lookups the source calls
  equivalent disagree on every address of such a window.
\<close>

theorem io_lookup_top_window:
  "find_io_region (arm_register_io 0xFFFFF000 0x1000 7 no_io) 0xFFFFF010 = Some (Some 0) \<and>
   find_io_region_linear (io_regions (arm_register_io 0xFFFFF000 0x1000 7 no_io)) a = None"
proof -
  let ?r = "\<lparr>r_base = 0xFFFFF000, r_size = 0x1000, r_handler = 7\<rparr> :: arm_io_region"
  let ?t = "empty_page_map[slot_at 0xFFFFF 0 := \<lparr>pg_page = 0xFFFFF, pg_idx = [0]\<rparr>]"
  have "region_pages ?r = [0xFFFFF]" by (simp add: region_pages_def drop_bit_eq_div)
  moreover have "enter_page [?r] 0 0xFFFFF (Some (empty_page_map, 0)) = Some (?t, 1)"
    by (simp add: enter_page_def probe_first stops_def empty_page_map_def chain_insert_def)
  ultimately have "build_page_map [?r] = Some (?t, 1)" by (simp add: build_page_map_def enter_region_def)
  moreover have "find_io_region_fast [?r] ?t 0xFFFFF010 = Some (Some 0)"
  proof -
    have "drop_bit 12 (0xFFFFF010 :: u32) = 0xFFFFF" by (simp add: drop_bit_eq_div)
    then show ?thesis
      by (simp add: find_io_region_fast_def probe_first stops_def empty_page_map_def chain_hit_def hits_def)
  qed
  moreover have "\<not> a < (4294967296 :: u32)"
  proof -
    have "(4294967296 :: u32) = 0" by simp
    then show ?thesis by (metis word_not_simps(1))
  qed
  ultimately show ?thesis
    by (simp add: arm_register_io_def arm_io_page_map_rebuild_def find_io_region_def find_io_region_linear_def in_region_def no_io_def)
qed

end
