(* ===== verification/Arm_Core.thy ===== *)
theory Arm_Core
  imports Arm_Io
begin

text \<open>
  State of the ARM core (\<open>arm_cpu_t\<close>, \<open>include/arm/arm_cpu.h\<close>, with the interrupt controller
  \<open>arm_nvic_t\<close> it points to), the security attribution engine of \<open>src/arm/arm_trustzone.c\<close>, and
  the memory access functions, the precise-fault snapshot and the cycle counter block of
  \<open>src/arm/arm_cpu.c\<close>.

  The core and its interrupt controller point at each other; here the controller is a field of
  the core. Memory arrays are functions from the offset. What is outside the core (peripheral
  handlers, the bus-side permission check, the SoC's attribution unit) is the record \<open>arm_env\<close>
  of functions on the whole state. Diagnostics on stderr, the debugger's skip list and the block
  cache of the just-in-time compiler are left out.
\<close>

subsection \<open>State\<close>

record arm_nvic =
  iser :: "nat \<Rightarrow> u32"
  ispr :: "nat \<Rightarrow> u32"
  iabr :: "nat \<Rightarrow> u32"
  itns :: "nat \<Rightarrow> u32"
  scb_cpuid :: u32
  ipr :: "nat \<Rightarrow> u8"
  shpr :: "nat \<Rightarrow> u8"
  scb_vtor :: u32
  aircr :: u32
  scr :: u32
  ccr :: u32
  shcsr :: u32
  active_exception :: nat
  sys_pending :: u32
  has_pending :: bool
  scan_valid :: bool
  scan_exc :: "nat option"
  scan_prio :: int

record arm_regs = arm_io +
  reg :: "nat \<Rightarrow> u32"
  xpsr :: u32
  it_state :: u8
  msp :: u32
  psp :: u32
  use_psp :: bool
  primask :: u32
  faultmask :: u32
  basepri :: u32
  cpu_off :: bool
  dbg_halted :: bool
  reset_pending :: bool

record arm_mem = arm_regs +
  rom :: "(u32 \<Rightarrow> u8) option"
  rom_size :: u32
  flash :: "u32 \<Rightarrow> u8"
  flash_base :: u32
  flash_end :: u32
  sram :: "u32 \<Rightarrow> u8"
  sram_base :: u32
  sram_end :: u32
  io_ns_alias :: bool
  io_txn_ns :: bool
  io_blocked :: bool
  vtor :: u32
  cpu_cpuid :: u32
  demcr :: u32
  dwt_ctrl :: u32
  dwt_cyccnt_base :: u64

record arm_tz = arm_mem +
  tz_enabled :: bool
  secure :: bool
  msp_s :: u32
  msp_ns :: u32
  psp_s :: u32
  psp_ns :: u32
  control_s :: u32
  control_ns :: u32
  vtor_s :: u32
  primask_s :: u32
  primask_ns :: u32
  basepri_s :: u32
  basepri_ns :: u32
  faultmask_s :: u32
  faultmask_ns :: u32
  fetch_ok_base :: u32
  fetch_ok_len :: u32
  tz_secexc_count :: u64

record arm_sau = arm_tz +
  sau_ctrl :: u32
  sau_rnr :: u32
  sau_rbar :: "nat \<Rightarrow> u32"
  sau_rlar :: "nat \<Rightarrow> u32"
  sau_sregions :: u8
  sfsr :: u32
  sfar :: u32
  secure_fault_pending :: bool
  secure_fault_undo :: bool
  cfsr :: u32
  hfsr :: u32
  bfar :: u32
  mmfar_ns :: u32
  bus_fault_addr :: u32
  bus_fault_pending :: bool

record arm_cpu = arm_sau +
  snap_reg :: "nat \<Rightarrow> u32"
  snap_xpsr :: u32
  snap_it_state :: u8
  insn_snap_valid :: bool
  exc_entry_count :: "nat \<Rightarrow> u64"
  last_fault_exc :: nat
  last_fault_pc :: u32
  last_fault_bg_secure :: bool
  nvic :: arm_nvic

abbreviation ARM_SP :: nat where "ARM_SP \<equiv> 13"
abbreviation ARM_LR :: nat where "ARM_LR \<equiv> 14"
abbreviation ARM_PC :: nat where "ARM_PC \<equiv> 15"

record arm_idau_result =
  idau_ns :: bool
  idau_nsc :: bool
  idau_exempt :: bool

record 's arm_env =
  io_read :: "nat \<Rightarrow> u32 \<Rightarrow> 's \<Rightarrow> u32 \<times> 's"
  io_write :: "nat \<Rightarrow> u32 \<Rightarrow> u32 \<Rightarrow> 's \<Rightarrow> 's"
  io_access_check :: "(u32 \<Rightarrow> bool \<Rightarrow> 's \<Rightarrow> bool \<times> 's) option"
  idau_check :: "('s \<Rightarrow> u32 \<Rightarrow> arm_idau_result) option"

definition arm_cpu_is_secure :: "'a arm_cpu_scheme \<Rightarrow> bool" where
  "arm_cpu_is_secure cpu \<longleftrightarrow> tz_enabled cpu \<and> secure cpu"

definition set_nvic :: "(arm_nvic \<Rightarrow> arm_nvic) \<Rightarrow> 'a arm_cpu_scheme \<Rightarrow> 'a arm_cpu_scheme" where
  "set_nvic f cpu = cpu\<lparr>nvic := f (nvic cpu)\<rparr>"

subsection \<open>Security attribution\<close>

datatype arm_sec_attr = ARM_SEC_NONSECURE | ARM_SEC_NSC | ARM_SEC_SECURE

definition sau_base :: "'a arm_cpu_scheme \<Rightarrow> nat \<Rightarrow> u32" where
  "sau_base cpu r = sau_rbar cpu r AND NOT 0x1F"

definition sau_limit :: "'a arm_cpu_scheme \<Rightarrow> nat \<Rightarrow> u32" where
  "sau_limit cpu r = (sau_rlar cpu r AND NOT 0x1F) OR 0x1F"

definition sau_regions :: "'a arm_cpu_scheme \<Rightarrow> nat list" where
  "sau_regions cpu = filter (\<lambda>r. bit (sau_rlar cpu r) 0) [0..<min (unat (sau_sregions cpu)) 8]"

definition sau_covers :: "'a arm_cpu_scheme \<Rightarrow> u32 \<Rightarrow> nat \<Rightarrow> bool" where
  "sau_covers cpu addr r \<longleftrightarrow> \<not> (addr < sau_base cpu r \<or> sau_limit cpu r < addr)"

text \<open>The region loop: the accumulator is \<open>matched\<close>, \<open>ns\<close> and \<open>nsc\<close>; an overlap returns.\<close>

fun sau_search :: "'a arm_cpu_scheme \<Rightarrow> u32 \<Rightarrow> nat list \<Rightarrow> bool \<Rightarrow> bool \<times> bool \<Rightarrow> bool \<times> bool" where
  "sau_search cpu addr [] matched res = res"
| "sau_search cpu addr (r # rs) matched (ns, nsc) =
     (if \<not> sau_covers cpu addr r then sau_search cpu addr rs matched (ns, nsc)
      else if matched then (False, False)
      else if bit (sau_rlar cpu r) 1 then sau_search cpu addr rs True (ns, True)
      else sau_search cpu addr rs True (True, nsc))"

definition arm_sau_check :: "'a arm_cpu_scheme \<Rightarrow> u32 \<Rightarrow> bool \<times> bool" where
  "arm_sau_check cpu addr =
     (if \<not> bit (sau_ctrl cpu) 0 then (bit (sau_ctrl cpu) 1, False)
      else sau_search cpu addr (sau_regions cpu) False (False, False))"

text \<open>The window arithmetic is 64-bit in the source, and so exact: \<open>lo\<close> and \<open>hi\<close> are integers.\<close>

definition window_step :: "'a arm_cpu_scheme \<Rightarrow> u32 \<Rightarrow> nat \<Rightarrow> int \<times> int \<Rightarrow> int \<times> int" where
  "window_step cpu addr r w =
     (let a = uint addr;
          b = uint (sau_base cpu r);
          e = uint (sau_limit cpu r) + 1;
          (lo, hi) = w;
          (lo, hi) = (if b > a then (lo, if b < hi then b else hi) else (if b > lo then b else lo, hi))
      in if e > a then (lo, if e < hi then e else hi) else (if e > lo then e else lo, hi))"

definition arm_sau_uniform_window :: "'a arm_cpu_scheme \<Rightarrow> u32 \<Rightarrow> u32 \<times> u32" where
  "arm_sau_uniform_window cpu addr =
     (let lo = uint (addr AND NOT 0xFFF);
          w = (if bit (sau_ctrl cpu) 0 then fold (window_step cpu addr) (sau_regions cpu) (lo, lo + 0x1000)
               else (lo, lo + 0x1000))
      in (of_int (fst w), of_int (snd w - fst w)))"

definition arm_idau_check_default :: "u32 \<Rightarrow> arm_idau_result" where
  "arm_idau_check_default addr = \<lparr>idau_ns = True, idau_nsc = False, idau_exempt = False\<rparr>"

definition idau_result :: "'a arm_cpu_scheme arm_env \<Rightarrow> 'a arm_cpu_scheme \<Rightarrow> u32 \<Rightarrow> arm_idau_result" where
  "idau_result env cpu addr =
     (case idau_check env of None \<Rightarrow> arm_idau_check_default addr | Some f \<Rightarrow> f cpu addr)"

definition arm_security_attr :: "'a arm_cpu_scheme arm_env \<Rightarrow> 'a arm_cpu_scheme \<Rightarrow> u32 \<Rightarrow> arm_sec_attr" where
  "arm_security_attr env cpu addr =
     (if \<not> tz_enabled cpu then ARM_SEC_NONSECURE
      else
        let (ns, nsc) = arm_sau_check cpu addr;
            idau = idau_result env cpu addr;
            (ns, nsc) = (if \<not> idau_ns idau then (False, nsc \<and> idau_nsc idau) else (ns, nsc))
        in if idau_exempt idau then ARM_SEC_SECURE
           else if ns then ARM_SEC_NONSECURE
           else if nsc then ARM_SEC_NSC else ARM_SEC_SECURE)"

definition arm_mem_access_permitted :: "'a arm_cpu_scheme arm_env \<Rightarrow> 'a arm_cpu_scheme \<Rightarrow> u32 \<Rightarrow> bool" where
  "arm_mem_access_permitted env cpu addr \<longleftrightarrow>
     \<not> tz_enabled cpu \<or> secure cpu \<or> arm_security_attr env cpu addr = ARM_SEC_NONSECURE"

definition arm_record_secure_fault :: "u32 \<Rightarrow> 'a arm_cpu_scheme \<Rightarrow> 'a arm_cpu_scheme" where
  "arm_record_secure_fault addr cpu =
     cpu\<lparr>sfsr := sfsr cpu OR 0x8 OR 0x40,
         sfar := (if secure_fault_pending cpu then sfar cpu else addr),
         secure_fault_pending := True, secure_fault_undo := True\<rparr>"

fun sau_find :: "'a arm_cpu_scheme \<Rightarrow> u32 \<Rightarrow> nat list \<Rightarrow> nat option \<Rightarrow> nat option" where
  "sau_find cpu addr [] found = found"
| "sau_find cpu addr (r # rs) found =
     (if sau_base cpu r \<le> addr \<and> addr \<le> sau_limit cpu r
      then (if found \<noteq> None then None else sau_find cpu addr rs (Some r))
      else sau_find cpu addr rs found)"

definition arm_sau_region :: "'a arm_cpu_scheme \<Rightarrow> u32 \<Rightarrow> nat option" where
  "arm_sau_region cpu addr =
     (if \<not> bit (sau_ctrl cpu) 0 then None else sau_find cpu addr (sau_regions cpu) None)"

definition arm_tt_response :: "'a arm_cpu_scheme arm_env \<Rightarrow> 'a arm_cpu_scheme \<Rightarrow> u32 \<Rightarrow> u32" where
  "arm_tt_response env cpu addr =
     (let attr = arm_security_attr env cpu addr;
          s = (if secure cpu \<and> attr \<noteq> ARM_SEC_NONSECURE then 0x400000 else 0);
          rg = (if secure cpu
                then (case arm_sau_region cpu addr of
                        Some region \<Rightarrow> (push_bit 8 (of_nat region) AND 0xFF00) OR 0x20000
                      | None \<Rightarrow> 0)
                else 0);
          ns = (if secure cpu \<and> attr = ARM_SEC_NONSECURE then 0x100000 OR 0x200000 else 0)
      in s OR rg OR 0x40000 OR 0x80000 OR ns)"

end
