(* ===== verification/Arm_Memory.thy ===== *)
theory Arm_Memory
  imports Arm_Core
begin

text \<open>
  Memory accesses of the ARM core, \<open>src/arm/arm_cpu.c\<close>: the bus side (\<open>arm_read8/16/32\<close>,
  \<open>arm_write8/16/32\<close>: ROM, flash, SRAM, bit-band alias, peripherals), the instruction side
  (\<open>mem_*\<close>: the attribution gate and the SRAM fast path in front of it), the precise-fault
  snapshot, and the cycle counter block.

  A read returns its value with the state, because a peripheral read can have effects; the byte
  reads of an unaligned access, whose order C leaves open, are taken from the lowest address up.
\<close>

definition le16 :: "(u32 \<Rightarrow> u8) \<Rightarrow> u32 \<Rightarrow> u16" where
  "le16 m i = ucast (m i) OR push_bit 8 (ucast (m (i + 1)))"

definition le32 :: "(u32 \<Rightarrow> u8) \<Rightarrow> u32 \<Rightarrow> u32" where
  "le32 m i = ucast (m i) OR push_bit 8 (ucast (m (i + 1))) OR
              push_bit 16 (ucast (m (i + 2))) OR push_bit 24 (ucast (m (i + 3)))"

definition put16 :: "u32 \<Rightarrow> u16 \<Rightarrow> (u32 \<Rightarrow> u8) \<Rightarrow> (u32 \<Rightarrow> u8)" where
  "put16 i v m = m(i := ucast (v AND 0xFF), i + 1 := ucast (drop_bit 8 v AND 0xFF))"

definition put32 :: "u32 \<Rightarrow> u32 \<Rightarrow> (u32 \<Rightarrow> u8) \<Rightarrow> (u32 \<Rightarrow> u8)" where
  "put32 i v m = m(i := ucast (v AND 0xFF), i + 1 := ucast (drop_bit 8 v AND 0xFF),
                   i + 2 := ucast (drop_bit 16 v AND 0xFF), i + 3 := ucast (drop_bit 24 v AND 0xFF))"

definition in_sram :: "'a arm_cpu_scheme \<Rightarrow> u32 \<Rightarrow> bool" where
  "in_sram cpu addr \<longleftrightarrow> sram_base cpu \<le> addr \<and> addr < sram_end cpu"

definition in_flash :: "'a arm_cpu_scheme \<Rightarrow> u32 \<Rightarrow> bool" where
  "in_flash cpu addr \<longleftrightarrow> flash_base cpu \<le> addr \<and> addr < flash_end cpu"

definition in_rom :: "'a arm_cpu_scheme \<Rightarrow> u32 \<Rightarrow> bool" where
  "in_rom cpu addr \<longleftrightarrow> rom cpu \<noteq> None \<and> addr < rom_size cpu"

subsection \<open>Precise-fault snapshot\<close>

definition arm_insn_snapshot_slow :: "'a arm_cpu_scheme \<Rightarrow> 'a arm_cpu_scheme" where
  "arm_insn_snapshot_slow cpu =
     cpu\<lparr>snap_reg := (\<lambda>i. if i < ARM_PC then reg cpu i else snap_reg cpu i),
         snap_xpsr := xpsr cpu, snap_it_state := it_state cpu, insn_snap_valid := True\<rparr>"

definition arm_insn_snapshot :: "'a arm_cpu_scheme \<Rightarrow> 'a arm_cpu_scheme" where
  "arm_insn_snapshot cpu = (if insn_snap_valid cpu then cpu else arm_insn_snapshot_slow cpu)"

definition ARM_PRECISE_FAULTS :: "'a arm_cpu_scheme arm_env \<Rightarrow> 'a arm_cpu_scheme \<Rightarrow> bool" where
  "ARM_PRECISE_FAULTS env cpu \<longleftrightarrow> io_access_check env \<noteq> None \<or> tz_enabled cpu"

definition arm_span_in :: "u32 \<Rightarrow> u32 \<Rightarrow> u32 \<Rightarrow> u32 \<Rightarrow> bool" where
  "arm_span_in addr len base e \<longleftrightarrow> len \<le> e - base \<and> addr - base \<le> e - base - len"

definition arm_insn_snapshot_multi ::
  "'a arm_cpu_scheme arm_env \<Rightarrow> u32 \<Rightarrow> u32 \<Rightarrow> 'a arm_cpu_scheme \<Rightarrow> 'a arm_cpu_scheme" where
  "arm_insn_snapshot_multi env addr len cpu =
     (if \<not> ARM_PRECISE_FAULTS env cpu then cpu
      else if \<not> (tz_enabled cpu \<and> \<not> secure cpu) \<and>
              (arm_span_in addr len (sram_base cpu) (sram_end cpu) \<or>
               arm_span_in addr len (flash_base cpu) (flash_end cpu))
      then cpu else arm_insn_snapshot cpu)"

definition arm_insn_undo :: "'a arm_cpu_scheme \<Rightarrow> 'a arm_cpu_scheme" where
  "arm_insn_undo cpu =
     (if \<not> insn_snap_valid cpu then cpu
      else cpu\<lparr>reg := (\<lambda>i. if i < 16 then snap_reg cpu i else reg cpu i),
               xpsr := snap_xpsr cpu, it_state := snap_it_state cpu\<rparr>)"

definition arm_insn_refused :: "'a arm_cpu_scheme \<Rightarrow> bool" where
  "arm_insn_refused cpu \<longleftrightarrow> bus_fault_pending cpu \<or> secure_fault_pending cpu"

subsection \<open>Bus side\<close>

text \<open>
  The lookup returns the address the handler sees and the region. The table lookup always ends
  (\<open>arm_io_page_map_rebuild\<close> leaves an unused slot in every table it accepts), so its endless
  probe is not distinguished from a miss here.
\<close>

definition io_region_of :: "u32 \<Rightarrow> 'a arm_cpu_scheme \<Rightarrow> nat option" where
  "io_region_of addr cpu = (case find_io_region cpu addr of None \<Rightarrow> None | Some res \<Rightarrow> res)"

definition refuse_io :: "u32 \<Rightarrow> 'a arm_cpu_scheme \<Rightarrow> 'a arm_cpu_scheme" where
  "refuse_io addr cpu =
     (let c = arm_insn_snapshot (cpu\<lparr>io_blocked := True\<rparr>)
      in c\<lparr>bus_fault_addr := (if bus_fault_pending c then bus_fault_addr c else addr), bus_fault_pending := True\<rparr>)"

definition io_lookup ::
  "'a arm_cpu_scheme arm_env \<Rightarrow> u32 \<Rightarrow> bool \<Rightarrow> 'a arm_cpu_scheme \<Rightarrow> (u32 \<times> nat option) \<times> 'a arm_cpu_scheme" where
  "io_lookup env a is_write cpu0 =
     (let cpu = cpu0\<lparr>io_blocked := False\<rparr> in
      if io_ns_alias cpu then
        let ns = (drop_bit 28 a = 4);
            cpu = cpu\<lparr>io_txn_ns := ns\<rparr>;
            (ok, cpu) = (case io_access_check env of None \<Rightarrow> (True, cpu) | Some chk \<Rightarrow> chk a is_write cpu)
        in if \<not> ok then ((a, None), refuse_io a cpu)
           else let a' = (if ns then a OR 0x10000000 else a) in ((a', io_region_of a' cpu), cpu)
      else ((a, io_region_of a cpu), cpu))"

definition io_read_at ::
  "'a arm_cpu_scheme arm_env \<Rightarrow> u32 \<Rightarrow> 'a arm_cpu_scheme \<Rightarrow> u32 \<times> 'a arm_cpu_scheme" where
  "io_read_at env addr cpu =
     (let ((a, r), cpu) = io_lookup env addr False cpu
      in case r of None \<Rightarrow> (0, cpu) | Some i \<Rightarrow> io_read env (r_handler (io_regions cpu ! i)) a cpu)"

definition io_write_at ::
  "'a arm_cpu_scheme arm_env \<Rightarrow> u32 \<Rightarrow> u32 \<Rightarrow> 'a arm_cpu_scheme \<Rightarrow> 'a arm_cpu_scheme" where
  "io_write_at env addr val cpu =
     (let ((a, r), cpu) = io_lookup env addr True cpu
      in case r of None \<Rightarrow> cpu | Some i \<Rightarrow> io_write env (r_handler (io_regions cpu ! i)) a val cpu)"

definition in_bitband :: "u32 \<Rightarrow> bool" where
  "in_bitband addr \<longleftrightarrow> 0x42000000 \<le> addr \<and> addr < 0x44000000"

definition bitband_word :: "u32 \<Rightarrow> u32" where
  "bitband_word addr = 0x40000000 + drop_bit 5 (addr - 0x42000000) * 4"

definition bitband_bit :: "u32 \<Rightarrow> nat" where
  "bitband_bit addr = unat (drop_bit 2 (addr - 0x42000000) AND 0x1F)"

text \<open>
  The word behind a bit-band alias lies below \<open>0x40400000\<close> and so is never itself an alias:
  the recursive call of the source goes one level deep.
\<close>

definition read32_direct ::
  "'a arm_cpu_scheme arm_env \<Rightarrow> u32 \<Rightarrow> 'a arm_cpu_scheme \<Rightarrow> u32 \<times> 'a arm_cpu_scheme" where
  "read32_direct env addr cpu =
     (if in_rom cpu addr then (le32 (the (rom cpu)) addr, cpu)
      else if in_flash cpu addr then (le32 (flash cpu) (addr - flash_base cpu), cpu)
      else if in_sram cpu addr then (le32 (sram cpu) (addr - sram_base cpu), cpu)
      else io_read_at env addr cpu)"

definition arm_read32 ::
  "'a arm_cpu_scheme arm_env \<Rightarrow> u32 \<Rightarrow> 'a arm_cpu_scheme \<Rightarrow> u32 \<times> 'a arm_cpu_scheme" where
  "arm_read32 env addr0 cpu =
     (let addr = addr0 AND NOT 3 in
      if \<not> in_rom cpu addr \<and> \<not> in_flash cpu addr \<and> \<not> in_sram cpu addr \<and> in_bitband addr
      then (let (val, cpu) = read32_direct env (bitband_word addr) cpu
            in (drop_bit (bitband_bit addr) val AND 1, cpu))
      else read32_direct env addr cpu)"

definition arm_read16 ::
  "'a arm_cpu_scheme arm_env \<Rightarrow> u32 \<Rightarrow> 'a arm_cpu_scheme \<Rightarrow> u16 \<times> 'a arm_cpu_scheme" where
  "arm_read16 env addr0 cpu =
     (let addr = addr0 AND NOT 1 in
      if in_rom cpu addr then (le16 (the (rom cpu)) addr, cpu)
      else if in_flash cpu addr then (le16 (flash cpu) (addr - flash_base cpu), cpu)
      else if in_sram cpu addr then (le16 (sram cpu) (addr - sram_base cpu), cpu)
      else (let (v, cpu) = io_read_at env addr cpu in (ucast v, cpu)))"

definition arm_read8 ::
  "'a arm_cpu_scheme arm_env \<Rightarrow> u32 \<Rightarrow> 'a arm_cpu_scheme \<Rightarrow> u8 \<times> 'a arm_cpu_scheme" where
  "arm_read8 env addr cpu =
     (if in_rom cpu addr then (the (rom cpu) addr, cpu)
      else if in_flash cpu addr then (flash cpu (addr - flash_base cpu), cpu)
      else if in_sram cpu addr then (sram cpu (addr - sram_base cpu), cpu)
      else (let (v, cpu) = io_read_at env addr cpu in (ucast v, cpu)))"

definition write32_direct ::
  "'a arm_cpu_scheme arm_env \<Rightarrow> u32 \<Rightarrow> u32 \<Rightarrow> 'a arm_cpu_scheme \<Rightarrow> 'a arm_cpu_scheme" where
  "write32_direct env addr val cpu =
     (if in_sram cpu addr then cpu\<lparr>sram := put32 (addr - sram_base cpu) val (sram cpu)\<rparr>
      else if in_flash cpu addr then cpu
      else if in_rom cpu addr then cpu
      else io_write_at env addr val cpu)"

definition arm_write32 ::
  "'a arm_cpu_scheme arm_env \<Rightarrow> u32 \<Rightarrow> u32 \<Rightarrow> 'a arm_cpu_scheme \<Rightarrow> 'a arm_cpu_scheme" where
  "arm_write32 env addr0 val cpu =
     (let addr = addr0 AND NOT 3 in
      if \<not> in_sram cpu addr \<and> \<not> in_flash cpu addr \<and> \<not> in_rom cpu addr \<and> in_bitband addr
      then (let (old, cpu) = read32_direct env (bitband_word addr) cpu
            in write32_direct env (bitband_word addr)
                 (if bit val 0 then old OR push_bit (bitband_bit addr) 1
                  else old AND NOT (push_bit (bitband_bit addr) 1)) cpu)
      else write32_direct env addr val cpu)"

definition arm_write16 ::
  "'a arm_cpu_scheme arm_env \<Rightarrow> u32 \<Rightarrow> u16 \<Rightarrow> 'a arm_cpu_scheme \<Rightarrow> 'a arm_cpu_scheme" where
  "arm_write16 env addr0 val cpu =
     (let addr = addr0 AND NOT 1 in
      if in_sram cpu addr then cpu\<lparr>sram := put16 (addr - sram_base cpu) val (sram cpu)\<rparr>
      else if in_flash cpu addr then cpu
      else io_write_at env addr (ucast val) cpu)"

definition arm_write8 ::
  "'a arm_cpu_scheme arm_env \<Rightarrow> u32 \<Rightarrow> u8 \<Rightarrow> 'a arm_cpu_scheme \<Rightarrow> 'a arm_cpu_scheme" where
  "arm_write8 env addr val cpu =
     (if in_sram cpu addr then cpu\<lparr>sram := (sram cpu)(addr - sram_base cpu := val)\<rparr>
      else if in_flash cpu addr then cpu
      else io_write_at env addr (ucast val) cpu)"

subsection \<open>Instruction side\<close>

definition arm_tz_blocks ::
  "'a arm_cpu_scheme arm_env \<Rightarrow> u32 \<Rightarrow> 'a arm_cpu_scheme \<Rightarrow> bool \<times> 'a arm_cpu_scheme" where
  "arm_tz_blocks env addr cpu =
     (if \<not> tz_enabled cpu \<or> secure cpu then (False, cpu)
      else if arm_mem_access_permitted env cpu addr then (False, cpu)
      else (True, arm_record_secure_fault addr (arm_insn_snapshot cpu)))"

definition mem_read32 ::
  "'a arm_cpu_scheme arm_env \<Rightarrow> u32 \<Rightarrow> 'a arm_cpu_scheme \<Rightarrow> u32 \<times> 'a arm_cpu_scheme" where
  "mem_read32 env addr0 cpu =
     (let addr = addr0 AND NOT 3; (blocked, cpu) = arm_tz_blocks env addr cpu in
      if blocked then (0, cpu)
      else if in_sram cpu addr then (le32 (sram cpu) (addr - sram_base cpu), cpu)
      else if in_flash cpu addr then (le32 (flash cpu) (addr - flash_base cpu), cpu)
      else arm_read32 env addr cpu)"

definition mem_read16 ::
  "'a arm_cpu_scheme arm_env \<Rightarrow> u32 \<Rightarrow> 'a arm_cpu_scheme \<Rightarrow> u16 \<times> 'a arm_cpu_scheme" where
  "mem_read16 env addr0 cpu =
     (let addr = addr0 AND NOT 1; (blocked, cpu) = arm_tz_blocks env addr cpu in
      if blocked then (0, cpu)
      else if in_sram cpu addr then (le16 (sram cpu) (addr - sram_base cpu), cpu)
      else if in_flash cpu addr then (le16 (flash cpu) (addr - flash_base cpu), cpu)
      else arm_read16 env addr cpu)"

definition mem_read8 ::
  "'a arm_cpu_scheme arm_env \<Rightarrow> u32 \<Rightarrow> 'a arm_cpu_scheme \<Rightarrow> u8 \<times> 'a arm_cpu_scheme" where
  "mem_read8 env addr cpu =
     (let (blocked, cpu) = arm_tz_blocks env addr cpu in
      if blocked then (0, cpu)
      else if in_sram cpu addr then (sram cpu (addr - sram_base cpu), cpu)
      else if in_flash cpu addr then (flash cpu (addr - flash_base cpu), cpu)
      else arm_read8 env addr cpu)"

definition mem_write32 ::
  "'a arm_cpu_scheme arm_env \<Rightarrow> u32 \<Rightarrow> u32 \<Rightarrow> 'a arm_cpu_scheme \<Rightarrow> 'a arm_cpu_scheme" where
  "mem_write32 env addr0 val cpu =
     (let addr = addr0 AND NOT 3; (blocked, cpu) = arm_tz_blocks env addr cpu in
      if blocked then cpu
      else if in_sram cpu addr then cpu\<lparr>sram := put32 (addr - sram_base cpu) val (sram cpu)\<rparr>
      else arm_write32 env addr val cpu)"

definition mem_write16 ::
  "'a arm_cpu_scheme arm_env \<Rightarrow> u32 \<Rightarrow> u16 \<Rightarrow> 'a arm_cpu_scheme \<Rightarrow> 'a arm_cpu_scheme" where
  "mem_write16 env addr0 val cpu =
     (let addr = addr0 AND NOT 1; (blocked, cpu) = arm_tz_blocks env addr cpu in
      if blocked then cpu
      else if in_sram cpu addr then cpu\<lparr>sram := put16 (addr - sram_base cpu) val (sram cpu)\<rparr>
      else arm_write16 env addr val cpu)"

definition mem_write8 ::
  "'a arm_cpu_scheme arm_env \<Rightarrow> u32 \<Rightarrow> u8 \<Rightarrow> 'a arm_cpu_scheme \<Rightarrow> 'a arm_cpu_scheme" where
  "mem_write8 env addr val cpu =
     (let (blocked, cpu) = arm_tz_blocks env addr cpu in
      if blocked then cpu
      else if in_sram cpu addr then cpu\<lparr>sram := (sram cpu)(addr - sram_base cpu := val)\<rparr>
      else arm_write8 env addr val cpu)"

definition mem_read32_unaligned ::
  "'a arm_cpu_scheme arm_env \<Rightarrow> u32 \<Rightarrow> 'a arm_cpu_scheme \<Rightarrow> u32 \<times> 'a arm_cpu_scheme" where
  "mem_read32_unaligned env addr cpu =
     (if addr AND 3 = 0 then mem_read32 env addr cpu
      else
        let (b0, cpu) = mem_read8 env addr cpu;
            (b1, cpu) = mem_read8 env (addr + 1) cpu;
            (b2, cpu) = mem_read8 env (addr + 2) cpu;
            (b3, cpu) = mem_read8 env (addr + 3) cpu
        in (ucast b0 OR push_bit 8 (ucast b1) OR push_bit 16 (ucast b2) OR push_bit 24 (ucast b3), cpu))"

definition mem_write32_unaligned ::
  "'a arm_cpu_scheme arm_env \<Rightarrow> u32 \<Rightarrow> u32 \<Rightarrow> 'a arm_cpu_scheme \<Rightarrow> 'a arm_cpu_scheme" where
  "mem_write32_unaligned env addr val cpu =
     (if addr AND 3 = 0 then mem_write32 env addr val cpu
      else mem_write8 env (addr + 3) (ucast (drop_bit 24 val AND 0xFF))
             (mem_write8 env (addr + 2) (ucast (drop_bit 16 val AND 0xFF))
               (mem_write8 env (addr + 1) (ucast (drop_bit 8 val AND 0xFF))
                 (mem_write8 env addr (ucast (val AND 0xFF)) cpu))))"

definition mem_read16_unaligned ::
  "'a arm_cpu_scheme arm_env \<Rightarrow> u32 \<Rightarrow> 'a arm_cpu_scheme \<Rightarrow> u16 \<times> 'a arm_cpu_scheme" where
  "mem_read16_unaligned env addr cpu =
     (if addr AND 1 = 0 then mem_read16 env addr cpu
      else
        let (b0, cpu) = mem_read8 env addr cpu;
            (b1, cpu) = mem_read8 env (addr + 1) cpu
        in (ucast b0 OR push_bit 8 (ucast b1), cpu))"

definition mem_write16_unaligned ::
  "'a arm_cpu_scheme arm_env \<Rightarrow> u32 \<Rightarrow> u16 \<Rightarrow> 'a arm_cpu_scheme \<Rightarrow> 'a arm_cpu_scheme" where
  "mem_write16_unaligned env addr val cpu =
     (if addr AND 1 = 0 then mem_write16 env addr val cpu
      else mem_write8 env (addr + 1) (ucast (drop_bit 8 val AND 0xFF))
             (mem_write8 env addr (ucast (val AND 0xFF)) cpu))"

subsection \<open>Cycle counter block\<close>

definition arm_dwt_read :: "u32 \<Rightarrow> 'a arm_cpu_scheme \<Rightarrow> u32" where
  "arm_dwt_read addr cpu =
     (let off = addr - 0xE0001000 in
      if off = 0 then dwt_ctrl cpu
      else if off = 4 then
        (if \<not> bit (dwt_ctrl cpu) 0 then 0 else ucast (of_int (cpu_cycles cpu) - dwt_cyccnt_base cpu))
      else 0)"

definition arm_dwt_write :: "u32 \<Rightarrow> u32 \<Rightarrow> 'a arm_cpu_scheme \<Rightarrow> 'a arm_cpu_scheme" where
  "arm_dwt_write addr val cpu =
     (let off = addr - 0xE0001000 in
      if off = 0 then
        (if bit val 0 \<and> \<not> bit (dwt_ctrl cpu) 0
         then cpu\<lparr>dwt_cyccnt_base := of_int (cpu_cycles cpu), dwt_ctrl := val\<rparr>
         else cpu\<lparr>dwt_ctrl := val\<rparr>)
      else if off = 4 then cpu\<lparr>dwt_cyccnt_base := of_int (cpu_cycles cpu) - ucast val\<rparr>
      else cpu)"

end
