(* ===== verification/Arm_Core_Correct.thy ===== *)
theory Arm_Core_Correct
  imports Arm_Memory
begin

text \<open>
  Security attribution and memory of the ARM core: what the attribution engine decides, that its
  cached windows are sound, that a refused access has no effect and can be undone, that the fast
  paths agree with the bus side, and that stores are read back.
\<close>

subsection \<open>Attribution\<close>

definition covering :: "'a arm_cpu_scheme \<Rightarrow> u32 \<Rightarrow> nat list" where
  "covering cpu a = filter (sau_covers cpu a) (sau_regions cpu)"

lemma sau_search_spec:
  "sau_search cpu a rs True (ns, nsc) = (if filter (sau_covers cpu a) rs = [] then (ns, nsc) else (False, False))"
  "sau_search cpu a rs False (False, False) =
     (case filter (sau_covers cpu a) rs of
        [r] \<Rightarrow> if bit (sau_rlar cpu r) 1 then (False, True) else (True, False)
      | _ \<Rightarrow> (False, False))"
proof -
  show one: "sau_search cpu a rs True (ns, nsc) = (if filter (sau_covers cpu a) rs = [] then (ns, nsc) else (False, False))"
    for rs ns nsc by (induction rs) auto
  show "sau_search cpu a rs False (False, False) =
     (case filter (sau_covers cpu a) rs of
        [r] \<Rightarrow> if bit (sau_rlar cpu r) 1 then (False, True) else (True, False)
      | _ \<Rightarrow> (False, False))"
    by (induction rs) (auto simp: one split: list.splits)
qed

lemma sau_check_spec:
  "arm_sau_check cpu a =
     (if \<not> bit (sau_ctrl cpu) 0 then (bit (sau_ctrl cpu) 1, False)
      else case covering cpu a of
             [r] \<Rightarrow> if bit (sau_rlar cpu r) 1 then (False, True) else (True, False)
           | _ \<Rightarrow> (False, False))"
  by (simp add: arm_sau_check_def sau_search_spec covering_def)

lemma covers_iff: "(sau_base cpu r \<le> a \<and> a \<le> sau_limit cpu r) = sau_covers cpu a r"
  by (auto simp: sau_covers_def not_less)

lemma sau_find_spec:
  "sau_find cpu a rs (Some s) = (if filter (sau_covers cpu a) rs = [] then Some s else None)"
  "sau_find cpu a rs None = (case filter (sau_covers cpu a) rs of [r] \<Rightarrow> Some r | _ \<Rightarrow> None)"
proof -
  show one: "sau_find cpu a rs (Some s) = (if filter (sau_covers cpu a) rs = [] then Some s else None)" for rs s
    by (induction rs) (auto simp: covers_iff)
  show "sau_find cpu a rs None = (case filter (sau_covers cpu a) rs of [r] \<Rightarrow> Some r | _ \<Rightarrow> None)"
    by (induction rs) (auto simp: one covers_iff split: list.splits)
qed

lemma covering_lt: "r \<in> set (covering cpu a) \<Longrightarrow> r < 8"
  by (simp add: covering_def sau_regions_def)

lemma attr_nonsecure:
  "tz_enabled cpu \<Longrightarrow> arm_security_attr env cpu a = ARM_SEC_NONSECURE \<longleftrightarrow>
     idau_ns (idau_result env cpu a) \<and> \<not> idau_exempt (idau_result env cpu a) \<and> fst (arm_sau_check cpu a)"
  by (auto simp: arm_security_attr_def Let_def split: prod.splits if_splits)

lemma sau_check_ns:
  "fst (arm_sau_check cpu a) \<longleftrightarrow>
     (if bit (sau_ctrl cpu) 0 then \<exists>r. covering cpu a = [r] \<and> \<not> bit (sau_rlar cpu r) 1 else bit (sau_ctrl cpu) 1)"
  by (auto simp: sau_check_spec split: list.splits)

text \<open>
  Non-secure code reaches an address exactly when it was handed over: with the security
  extension on and the core Non-secure, a data access is permitted if and only if the SoC's
  attribution unit calls the address Non-secure and does not exempt it, and the SAU either is
  off with ALLNS set or has exactly one enabled region over the address, not marked callable;
  and the TT instruction tells Non-secure code nothing about the boundaries: its answer there
  is the same for every address.
\<close>

theorem ns_access_exact:
  assumes "tz_enabled cpu" "\<not> secure cpu"
  shows "(arm_mem_access_permitted env cpu a \<longleftrightarrow>
            idau_ns (idau_result env cpu a) \<and> \<not> idau_exempt (idau_result env cpu a) \<and>
            (if bit (sau_ctrl cpu) 0 then \<exists>r. covering cpu a = [r] \<and> \<not> bit (sau_rlar cpu r) 1
             else bit (sau_ctrl cpu) 1)) \<and>
         arm_tt_response env cpu a = 0xC0000"
  using assms by (simp add: arm_mem_access_permitted_def attr_nonsecure sau_check_ns arm_tt_response_def)

lemma tt_region_field: "r < 8 \<Longrightarrow> push_bit 8 (of_nat r :: u32) AND 0xFF00 = of_nat (r * 256)"
proof -
  assume "r < 8"
  then have "r \<in> {0, 1, 2, 3, 4, 5, 6, 7}" by auto
  then show ?thesis by auto
qed

text \<open>
  The TT answer in Secure state is what the attribution engine decides: NSR and NSRW are set
  exactly when Non-secure code would be permitted the access, S exactly when it would not, the
  region is reported valid exactly when the SAU is on and one region covers the address, and it
  is that region's number, provided the SoC's attribution does not depend on the core's state.
\<close>

theorem tt_response_agrees:
  assumes "tz_enabled cpu" "secure cpu" "idau_result env (cpu\<lparr>secure := False\<rparr>) a = idau_result env cpu a"
  shows "(bit (arm_tt_response env cpu a) 20 \<longleftrightarrow> arm_mem_access_permitted env (cpu\<lparr>secure := False\<rparr>) a) \<and>
         (bit (arm_tt_response env cpu a) 22 \<longleftrightarrow> \<not> arm_mem_access_permitted env (cpu\<lparr>secure := False\<rparr>) a) \<and>
         (bit (arm_tt_response env cpu a) 17 \<longleftrightarrow> bit (sau_ctrl cpu) 0 \<and> (\<exists>r. covering cpu a = [r])) \<and>
         (\<forall>r. bit (sau_ctrl cpu) 0 \<and> covering cpu a = [r] \<longrightarrow>
            drop_bit 8 (arm_tt_response env cpu a) AND 0xFF = of_nat r)"
proof -
  let ?ns = "arm_security_attr env cpu a = ARM_SEC_NONSECURE"
  have check: "arm_sau_check (cpu\<lparr>secure := False\<rparr>) a = arm_sau_check cpu a"
    by (simp add: sau_check_spec covering_def sau_regions_def sau_covers_def [abs_def] sau_base_def sau_limit_def cong: list.case_cong)
  have p: "arm_mem_access_permitted env (cpu\<lparr>secure := False\<rparr>) a \<longleftrightarrow> ?ns"
    using assms by (simp add: arm_mem_access_permitted_def attr_nonsecure check)
  have rg: "arm_sau_region cpu a = (if bit (sau_ctrl cpu) 0 then (case covering cpu a of [r] \<Rightarrow> Some r | _ \<Rightarrow> None) else None)"
    by (simp add: arm_sau_region_def sau_find_spec covering_def)
  show ?thesis
  proof (cases "arm_sau_region cpu a")
    case None
    then have none: "\<not> (bit (sau_ctrl cpu) 0 \<and> (\<exists>r. covering cpu a = [r]))" unfolding rg by auto
    have "arm_tt_response env cpu a = (if ?ns then 0x3C0000 else 0x4C0000)"
      using assms None by (simp add: arm_tt_response_def)
    then show ?thesis using none unfolding p by (auto simp: bit_numeral_rec)
  next
    case (Some r)
    then have r: "bit (sau_ctrl cpu) 0" "covering cpu a = [r]" unfolding rg by (auto split: if_splits list.splits)
    then have "r < 8" using covering_lt [of r cpu a] by simp
    moreover have "arm_tt_response env cpu a = (if ?ns then 0 else 0x400000) OR (of_nat (r * 256) OR 0x20000) OR 0x40000 OR 0x80000 OR
        (if ?ns then 0x300000 else 0)"
      using assms Some tt_region_field [OF \<open>r < 8\<close>] by (simp add: arm_tt_response_def)
    moreover have "r \<in> {0, 1, 2, 3, 4, 5, 6, 7}" using \<open>r < 8\<close> by auto
    ultimately show ?thesis using r unfolding p by (cases ?ns) (auto simp: bit_numeral_rec)
  qed
qed

subsection \<open>The fetch window\<close>

lemma covers_uint: "sau_covers cpu x r \<longleftrightarrow> uint (sau_base cpu r) \<le> uint x \<and> uint x < uint (sau_limit cpu r) + 1"
  by (auto simp: sau_covers_def word_less_def word_le_def)

definition window_ok :: "'a arm_cpu_scheme \<Rightarrow> u32 \<Rightarrow> nat list \<Rightarrow> int \<Rightarrow> int \<times> int \<Rightarrow> bool" where
  "window_ok cpu a rs p w \<longleftrightarrow> p \<le> fst w \<and> fst w \<le> uint a \<and> uint a < snd w \<and> snd w \<le> p + 0x1000 \<and>
     (\<forall>r \<in> set rs. \<forall>x. fst w \<le> uint x \<and> uint x < snd w \<longrightarrow> sau_covers cpu x r = sau_covers cpu a r)"

lemma window_step_ok:
  assumes "window_ok cpu a rs p w" shows "window_ok cpu a (rs @ [r]) p (window_step cpu a r w)"
proof -
  obtain lo hi where w: "w = (lo, hi)" by (cases w)
  let ?b = "uint (sau_base cpu r)" and ?e = "uint (sau_limit cpu r) + 1" and ?w = "window_step cpu a r w"
  have "lo \<le> uint a" "uint a < hi" using assms unfolding window_ok_def w fst_conv snd_conv by blast+
  then have shrink: "lo \<le> fst ?w \<and> fst ?w \<le> uint a \<and> uint a < snd ?w \<and> snd ?w \<le> hi"
    by (auto simp: w window_step_def Let_def)
  have edges: "?b > uint a \<Longrightarrow> snd ?w \<le> ?b" "?b \<le> uint a \<Longrightarrow> ?b \<le> fst ?w"
    "?e > uint a \<Longrightarrow> snd ?w \<le> ?e" "?e \<le> uint a \<Longrightarrow> ?e \<le> fst ?w"
    by (simp_all add: w window_step_def Let_def)
  have "(?b \<le> uint x \<longleftrightarrow> ?b \<le> uint a) \<and> (uint x < ?e \<longleftrightarrow> uint a < ?e)" if x: "fst ?w \<le> uint x" "uint x < snd ?w" for x
  proof
    show "?b \<le> uint x \<longleftrightarrow> ?b \<le> uint a" using x edges(1,2) by (cases "?b \<le> uint a") (simp_all add: not_le)
    show "uint x < ?e \<longleftrightarrow> uint a < ?e" using x edges(3,4) by (cases "uint a < ?e") (simp_all add: not_less)
  qed
  then have new: "sau_covers cpu x r = sau_covers cpu a r" if "fst ?w \<le> uint x" "uint x < snd ?w" for x
    unfolding covers_uint using that by blast
  have old: "sau_covers cpu x q = sau_covers cpu a q" if "q \<in> set rs" "fst ?w \<le> uint x" "uint x < snd ?w" for q x
  proof -
    have "lo \<le> uint x" "uint x < hi" using that shrink by linarith+
    then show ?thesis using assms that(1) unfolding window_ok_def w fst_conv snd_conv by blast
  qed
  have "p \<le> lo" "hi \<le> p + 0x1000" using assms unfolding window_ok_def w fst_conv snd_conv by blast+
  then have "p \<le> fst ?w" "snd ?w \<le> p + 0x1000" using shrink by linarith+
  moreover have "\<forall>q \<in> set (rs @ [r]). \<forall>x. fst ?w \<le> uint x \<and> uint x < snd ?w \<longrightarrow> sau_covers cpu x q = sau_covers cpu a q"
  proof (intro ballI allI impI)
    fix q and x :: u32 assume "q \<in> set (rs @ [r])" "fst ?w \<le> uint x \<and> uint x < snd ?w"
    then show "sau_covers cpu x q = sau_covers cpu a q" using new old by (cases "q = r") auto
  qed
  ultimately show ?thesis unfolding window_ok_def using shrink by blast
qed

lemma window_fold_ok:
  "window_ok cpu a rs p w \<Longrightarrow> window_ok cpu a (rs @ qs) p (fold (window_step cpu a) qs w)"
proof (induction qs arbitrary: rs w)
  case (Cons q qs)
  from Cons.IH [OF window_step_ok [OF Cons.prems]] show ?case by simp
qed simp

lemma page_uint: "uint (a AND NOT 0xFFF :: u32) = uint a - uint a mod 0x1000"
proof -
  have "a AND NOT 0xFFF = a AND NOT (mask 12)" by (simp add: mask_eq_exp_minus_1)
  have split: "x AND NOT (mask 12) = x - take_bit 12 x" for x :: int
  proof -
    have "x = (x AND NOT (mask 12)) OR take_bit 12 x" by (rule bit_eqI) (auto simp: bit_simps)
    also have "\<dots> = (x AND NOT (mask 12)) + take_bit 12 x"
      by (rule disjunctive_add [symmetric]) (simp add: bit_simps)
    finally show ?thesis by simp
  qed
  have "uint (a AND NOT 0xFFF) = uint a AND NOT (mask 12)" unfolding \<open>a AND NOT 0xFFF = _\<close>
    by (rule bit_eqI) (auto simp: bit_simps dest: bit_imp_le_length)
  also have "\<dots> = uint a - take_bit 12 (uint a)" 
    by (rule split)
  finally show ?thesis by (simp add: take_bit_eq_mod)
qed

lemma uint_of_int32: "0 \<le> k \<Longrightarrow> k < 4294967296 \<Longrightarrow> uint (of_int k :: u32) = k"
  by (simp add: unsigned_of_int take_bit_int_eq_self)

lemma window_bounds:
  "window_ok cpu a (if bit (sau_ctrl cpu) 0 then sau_regions cpu else []) (uint (a AND NOT 0xFFF))
     (if bit (sau_ctrl cpu) 0 then fold (window_step cpu a) (sau_regions cpu) (uint (a AND NOT 0xFFF), uint (a AND NOT 0xFFF) + 0x1000)
      else (uint (a AND NOT 0xFFF), uint (a AND NOT 0xFFF) + 0x1000))"
proof -
  have "0 \<le> uint a mod 0x1000" "uint a mod 0x1000 < 0x1000" by simp_all
  then have "window_ok cpu a [] (uint (a AND NOT 0xFFF)) (uint (a AND NOT 0xFFF), uint (a AND NOT 0xFFF) + 0x1000)"
    unfolding window_ok_def page_uint by simp
  then show ?thesis using window_fold_ok [of cpu a "[]"] by simp
qed

lemma same_page:
  fixes x a :: u32
  assumes "uint (a AND NOT 0xFFF) \<le> uint x" "uint x < uint (a AND NOT 0xFFF) + 0x1000"
  shows "drop_bit 12 x = drop_bit 12 a"
proof -
  have "uint x div 0x1000 = uint a div 0x1000"
    using assms unfolding page_uint minus_mod_eq_mult_div by auto
  then have "uint (drop_bit 12 x) = uint (drop_bit 12 a)"
    by (simp add: drop_bit_eq_div uint_div_distrib)
  then show ?thesis by (simp add: word_uint_eq_iff)
qed

text \<open>
  The window the fetch cache keeps is sound: for a SoC attribution that is constant on 4 KB
  pages, \<open>arm_sau_uniform_window\<close> returns a base and a length (in 64-bit arithmetic, without
  wrapping) such that the window contains the address, lies within the address's page, and every
  address in it has the same security attribute as the address that was checked.
\<close>

theorem fetch_window_sound:
  assumes "\<And>x y. drop_bit 12 x = drop_bit 12 y \<Longrightarrow> idau_result env cpu x = idau_result env cpu y"
    and "arm_sau_uniform_window cpu a = (base, len)"
  shows "uint base \<le> uint a \<and> uint a < uint base + uint len \<and> uint base + uint len \<le> 2 ^ 32 \<and>
         (\<forall>x. uint base \<le> uint x \<and> uint x < uint base + uint len \<longrightarrow>
            drop_bit 12 x = drop_bit 12 a \<and> arm_security_attr env cpu x = arm_security_attr env cpu a)"
proof -
  define p where "p = uint (a AND NOT 0xFFF)"
  define w where "w = (if bit (sau_ctrl cpu) 0 then fold (window_step cpu a) (sau_regions cpu) (p, p + 0x1000) else (p, p + 0x1000))"
  have ok: "window_ok cpu a (if bit (sau_ctrl cpu) 0 then sau_regions cpu else []) p w"
    unfolding p_def w_def by (rule window_bounds)
  have "p = 0x1000 * (uint a div 0x1000)" unfolding p_def page_uint minus_mod_eq_mult_div ..
  moreover have "uint a < 2 ^ 32" using uint_lt2p [of a] by simp
  moreover have "0 \<le> uint a div 0x1000" by (simp add: pos_imp_zdiv_nonneg_iff)
  ultimately have p: "0 \<le> p" "p + 0x1000 \<le> 4294967296" by auto
  have b: "p \<le> fst w" "fst w \<le> uint a" "uint a < snd w" "snd w \<le> p + 0x1000"
    using ok unfolding window_ok_def by blast+
  have "base = of_int (fst w)" "len = of_int (snd w - fst w)"
    using assms(2) unfolding arm_sau_uniform_window_def Let_def w_def [symmetric] p_def [symmetric] prod.inject by blast+
  moreover have "uint (of_int (fst w) :: u32) = fst w" by (rule uint_of_int32) (use b p in linarith)+
  moreover have "uint (of_int (snd w - fst w) :: u32) = snd w - fst w" by (rule uint_of_int32) (use b p in linarith)+
  ultimately have u: "uint base = fst w" "uint len = snd w - fst w" by metis+
  have same: "drop_bit 12 x = drop_bit 12 a \<and> arm_security_attr env cpu x = arm_security_attr env cpu a"
    if x: "fst w \<le> uint x" "uint x < snd w" for x
  proof -
    have pg: "drop_bit 12 x = drop_bit 12 a" using x b unfolding p_def by (intro same_page) linarith+
    have "covering cpu x = covering cpu a" if on: "bit (sau_ctrl cpu) 0"
    proof -
      have "sau_covers cpu x r = sau_covers cpu a r" if "r \<in> set (sau_regions cpu)" for r
        using ok that x unfolding window_ok_def if_P [OF on] by blast
      then show ?thesis unfolding covering_def by (intro filter_cong refl)
    qed
    then have "arm_sau_check cpu x = arm_sau_check cpu a" by (simp add: sau_check_spec)
    moreover have "idau_result env cpu x = idau_result env cpu a" using assms(1) pg by blast
    ultimately show ?thesis using pg by (simp add: arm_security_attr_def)
  qed
  have e: "uint base + uint len = snd w" using u by simp
  show ?thesis unfolding e unfolding u(1)
  proof (intro conjI allI impI)
    show "fst w \<le> uint a" "uint a < snd w" using b by blast+
    show "snd w \<le> 2 ^ 32" using b p by simp
  qed (use same in blast)+
qed

subsection \<open>Refused accesses\<close>

text \<open>The state after a refusal, and what the end of the instruction makes of it.\<close>

definition refused_at :: "u32 \<Rightarrow> 'a arm_cpu_scheme \<Rightarrow> 'a arm_cpu_scheme" where
  "refused_at a cpu = arm_record_secure_fault a (arm_insn_snapshot cpu)"

lemma tz_blocks_refused:
  "\<not> arm_mem_access_permitted env cpu a \<Longrightarrow> arm_tz_blocks env a cpu = (True, refused_at a cpu)"
  by (auto simp: arm_tz_blocks_def refused_at_def arm_mem_access_permitted_def)

text \<open>
  C18. A refused data access has no effect on memory or on any peripheral and can be undone: when
  Non-secure code may not reach the word, a 32-bit load returns 0 and a 32-bit store is dropped,
  both leaving only the record of the fault (SFSR, and SFAR if no earlier fault of the
  instruction is pending) and the snapshot behind; undoing the instruction then restores the
  sixteen registers, xPSR and ITSTATE of its start, whatever the instruction wrote after the
  refusal.
\<close>

theorem refused_access_precise:
  assumes refused: "\<not> arm_mem_access_permitted env cpu (a AND NOT 3)"
    and start: "\<not> insn_snap_valid cpu" "\<not> secure_fault_pending cpu"
  shows "mem_read32 env a cpu = (0, refused_at (a AND NOT 3) cpu) \<and>
         mem_write32 env a v cpu = refused_at (a AND NOT 3) cpu \<and>
         sram (refused_at (a AND NOT 3) cpu) = sram cpu \<and> nvic (refused_at (a AND NOT 3) cpu) = nvic cpu \<and>
         sfar (refused_at (a AND NOT 3) cpu) = a AND NOT 3 \<and>
         arm_insn_refused (refused_at (a AND NOT 3) cpu) \<and>
         (let c = arm_insn_undo ((refused_at (a AND NOT 3) cpu)\<lparr>reg := regs', xpsr := x', it_state := it'\<rparr>)
          in (\<forall>i < 15. reg c i = reg cpu i) \<and> reg c 15 = snap_reg cpu 15 \<and> xpsr c = xpsr cpu \<and> it_state c = it_state cpu)"
  using start tz_blocks_refused [OF refused]
  by (simp add: mem_read32_def mem_write32_def refused_at_def arm_record_secure_fault_def arm_insn_snapshot_def
      arm_insn_snapshot_slow_def arm_insn_refused_def arm_insn_undo_def Let_def)

subsection \<open>Fast paths\<close>

definition map_disjoint :: "'a arm_cpu_scheme \<Rightarrow> bool" where
  "map_disjoint cpu \<longleftrightarrow> (\<forall>a. \<not> (in_sram cpu a \<and> in_flash cpu a) \<and> \<not> (in_rom cpu a \<and> in_sram cpu a) \<and> \<not> (in_rom cpu a \<and> in_flash cpu a))"

lemma tz_blocks_permitted: "arm_mem_access_permitted env cpu a \<Longrightarrow> arm_tz_blocks env a cpu = (False, cpu)"
  by (auto simp: arm_tz_blocks_def)

lemma align_idem: "(a AND NOT 3) AND NOT 3 = (a AND NOT 3 :: u32)" "(a AND NOT 1) AND NOT 1 = (a AND NOT 1 :: u32)"
  by (simp_all add: and.assoc)

text \<open>
  The interpreter's fast paths are equivalent to the bus side: for every access the
  attribution engine permits, on a core whose SRAM, flash and ROM do not overlap, the six
  inlined accesses give the value and the state of the corresponding bus access.
\<close>

theorem mem_fast_path_equivalent:
  assumes "map_disjoint cpu" "\<And>b. b \<in> {a, a AND NOT 1, a AND NOT 3} \<Longrightarrow> arm_mem_access_permitted env cpu b"
  shows "mem_read32 env a cpu = arm_read32 env a cpu \<and> mem_read16 env a cpu = arm_read16 env a cpu \<and>
         mem_read8 env a cpu = arm_read8 env a cpu \<and> mem_write32 env a w cpu = arm_write32 env a w cpu \<and>
         mem_write16 env a h cpu = arm_write16 env a h cpu \<and> mem_write8 env a b cpu = arm_write8 env a b cpu"
proof -
  note tz = assms(2) [THEN tz_blocks_permitted]
  have "mem_read32 env a cpu = arm_read32 env a cpu"
    using assms(1) tz [of "a AND NOT 3"]
    by (simp add: mem_read32_def arm_read32_def read32_direct_def map_disjoint_def align_idem Let_def)
  moreover have "mem_read16 env a cpu = arm_read16 env a cpu"
    using assms(1) tz [of "a AND NOT 1"] by (auto simp: mem_read16_def arm_read16_def map_disjoint_def align_idem Let_def)
  moreover have "mem_read8 env a cpu = arm_read8 env a cpu"
    using assms(1) tz [of a] by (auto simp: mem_read8_def arm_read8_def map_disjoint_def Let_def)
  moreover have "mem_write32 env a w cpu = arm_write32 env a w cpu"
    using tz [of "a AND NOT 3"] by (simp add: mem_write32_def arm_write32_def write32_direct_def align_idem Let_def)
  moreover have "mem_write16 env a h cpu = arm_write16 env a h cpu"
    using tz [of "a AND NOT 1"] by (simp add: mem_write16_def arm_write16_def align_idem Let_def)
  moreover have "mem_write8 env a b cpu = arm_write8 env a b cpu"
    using tz [of a] by (simp add: mem_write8_def arm_write8_def Let_def)
  ultimately show ?thesis by blast
qed

subsection \<open>Store and load\<close>

lemma byte_mask: "w AND 0xFF = take_bit 8 (w :: u32)"
  by (simp add: take_bit_eq_mask mask_eq_exp_minus_1)

lemma le32_bytes:
  "(ucast (ucast (v AND 0xFF :: u32) :: u8) :: u32) OR push_bit 8 (ucast (ucast (drop_bit 8 v AND 0xFF) :: u8)) OR
   push_bit 16 (ucast (ucast (drop_bit 16 v AND 0xFF) :: u8)) OR push_bit 24 (ucast (ucast (drop_bit 24 v AND 0xFF) :: u8)) = v"
proof (rule bit_word_eqI)
  fix n assume "n < LENGTH(32)"
  then have n: "n < 32" by simp
  consider "n < 8" | "8 \<le> n" "n < 16" | "16 \<le> n" "n < 24" | "24 \<le> n" using n by linarith
  then show "bit ((ucast (ucast (v AND 0xFF) :: u8) :: u32) OR push_bit 8 (ucast (ucast (drop_bit 8 v AND 0xFF) :: u8)) OR
     push_bit 16 (ucast (ucast (drop_bit 16 v AND 0xFF) :: u8)) OR push_bit 24 (ucast (ucast (drop_bit 24 v AND 0xFF) :: u8))) n = bit v n"
    using n by cases (auto simp: byte_mask bit_simps)
qed

lemma le32_put32: "le32 (put32 i v m) i = v"
  unfolding le32_def put32_def by (simp add: le32_bytes [simplified])

lemma put32_other: "x \<notin> {i, i + 1, i + 2, i + 3} \<Longrightarrow> put32 i v m x = m x"
  by (simp add: put32_def)

lemma put32_bytes:
  "m(i := ucast (v AND 0xFF :: u32), i + 1 := ucast (drop_bit 8 v AND 0xFF),
     i + 2 := ucast (drop_bit 16 v AND 0xFF), i + 3 := ucast (drop_bit 24 v AND 0xFF)) = put32 i v m"
  by (simp add: put32_def)

text \<open>
  A stored word is read back, at any alignment: when the four bytes lie in SRAM and the
  attribution engine permits them (whatever SRAM holds), an unaligned or aligned 32-bit store
  changes exactly these four bytes, and the load from the same address returns the stored value
  and changes nothing.
\<close>

theorem store_load_roundtrip:
  assumes sram: "\<And>b. b \<in> {a, a + 1, a + 2, a + 3} \<Longrightarrow> in_sram cpu b"
    and perm: "\<And>b m. b \<in> {a, a + 1, a + 2, a + 3} \<Longrightarrow> arm_mem_access_permitted env (cpu\<lparr>sram := m\<rparr>) b"
  shows "mem_write32_unaligned env a v cpu = cpu\<lparr>sram := put32 (a - sram_base cpu) v (sram cpu)\<rparr> \<and>
         mem_read32_unaligned env a (mem_write32_unaligned env a v cpu) = (v, mem_write32_unaligned env a v cpu) \<and>
         (\<forall>x. x \<notin> {a - sram_base cpu, a - sram_base cpu + 1, a - sram_base cpu + 2, a - sram_base cpu + 3} \<longrightarrow>
            sram (mem_write32_unaligned env a v cpu) x = sram cpu x)"
proof -
  let ?i = "a - sram_base cpu" and ?bytes = "{a, a + 1, a + 2, a + 3}"
  have tz: "arm_tz_blocks env b (cpu\<lparr>sram := m\<rparr>) = (False, cpu\<lparr>sram := m\<rparr>)" if "b \<in> ?bytes" for b m
    using perm [OF that] by (rule tz_blocks_permitted)
  have here: "in_sram (cpu\<lparr>sram := m\<rparr>) b" if "b \<in> ?bytes" for b m
    using sram [OF that] by (simp add: in_sram_def)
  have w8: "mem_write8 env b u (cpu\<lparr>sram := m\<rparr>) = cpu\<lparr>sram := m(b - sram_base cpu := u)\<rparr>" if "b \<in> ?bytes" for b u m
    using tz [OF that] here [OF that] by (simp add: mem_write8_def)
  have r8: "mem_read8 env b (cpu\<lparr>sram := m\<rparr>) = (m (b - sram_base cpu), cpu\<lparr>sram := m\<rparr>)" if "b \<in> ?bytes" for b m
    using tz [OF that] here [OF that] by (simp add: mem_read8_def)
  have off: "a + k - sram_base cpu = ?i + k" for k by simp
  have al: "a AND NOT 3 = a" if "a AND 3 = 0"
  proof -
    have "a = (a AND 3) OR (a AND NOT 3)" by (rule bit_word_eqI) (auto simp: bit_simps)
    then show ?thesis using that by simp
  qed
  have w: "mem_write32_unaligned env a v (cpu\<lparr>sram := m\<rparr>) = cpu\<lparr>sram := put32 ?i v m\<rparr>" for m
  proof (cases "a AND 3 = 0")
    case True
    then show ?thesis using tz [of a m] here [of a m] unfolding mem_write32_unaligned_def mem_write32_def al [OF True] by simp
  next
    case False
    then show ?thesis unfolding mem_write32_unaligned_def by (simp only: w8 insert_iff simp_thms if_False off put32_bytes [symmetric])
  qed
  have r: "mem_read32_unaligned env a (cpu\<lparr>sram := m\<rparr>) = (le32 m ?i, cpu\<lparr>sram := m\<rparr>)" for m
  proof (cases "a AND 3 = 0")
    case True
    then show ?thesis using tz [of a m] here [of a m] unfolding mem_read32_unaligned_def mem_read32_def al [OF True] by simp
  next
    case False
    then show ?thesis unfolding mem_read32_unaligned_def by (simp add: r8 off le32_def)
  qed
  have c: "cpu\<lparr>sram := sram cpu\<rparr> = cpu" by simp
  show ?thesis using w [of "sram cpu"] r [of "put32 ?i v (sram cpu)"] by (simp add: c le32_put32 put32_other)
qed

subsection \<open>Witnesses\<close>

definition m33 :: arm_cpu where
  "m33 = \<lparr>cpu_cycles = 0, ev_queue = [], next_event_cycle = INT64_MAX, sim_time_ns = 0, cpu_freq_hz = 128000000,
     anchor_cycles = 0, anchor_sim_time_ns = 0, io_regions = [], io_page_map = [], io_page_map_fallback = True,
     reg = (\<lambda>_. 0), xpsr = 0x1000000, it_state = 0, msp = 0, psp = 0, use_psp = False, primask = 0, faultmask = 0,
     basepri = 0, cpu_off = False, dbg_halted = False, reset_pending = False,
     rom = None, rom_size = 0, flash = (\<lambda>_. 0), flash_base = 0, flash_end = 0x180000, sram = (\<lambda>_. 0),
     sram_base = 0x20000000, sram_end = 0x20040000, io_ns_alias = True, io_txn_ns = False, io_blocked = False,
     vtor = 0, cpu_cpuid = 0, demcr = 0, dwt_ctrl = 0, dwt_cyccnt_base = 0,
     tz_enabled = True, secure = False, msp_s = 0, msp_ns = 0, psp_s = 0, psp_ns = 0, control_s = 0, control_ns = 0,
     vtor_s = 0, primask_s = 0, primask_ns = 0, basepri_s = 0, basepri_ns = 0, faultmask_s = 0, faultmask_ns = 0,
     fetch_ok_base = 0, fetch_ok_len = 0, tz_secexc_count = 0,
     sau_ctrl = 1, sau_rnr = 0, sau_rbar = (\<lambda>_. 0)(0 := 0x20020000), sau_rlar = (\<lambda>_. 0)(0 := 0x2003FFE1),
     sau_sregions = 8, sfsr = 0, sfar = 0, secure_fault_pending = False, secure_fault_undo = False,
     cfsr = 0, hfsr = 0, bfar = 0, mmfar_ns = 0, bus_fault_addr = 0, bus_fault_pending = False,
     snap_reg = (\<lambda>_. 0), snap_xpsr = 0, snap_it_state = 0, insn_snap_valid = False, exc_entry_count = (\<lambda>_. 0),
     last_fault_exc = 0, last_fault_pc = 0, last_fault_bg_secure = False,
     nvic = \<lparr>iser = (\<lambda>_. 0), ispr = (\<lambda>_. 0), iabr = (\<lambda>_. 0), itns = (\<lambda>_. 0), scb_cpuid = 0, ipr = (\<lambda>_. 0),
       shpr = (\<lambda>_. 0), scb_vtor = 0, aircr = 0, scr = 0, ccr = 0x200, shcsr = 0, active_exception = 0,
       sys_pending = 0, has_pending = False, scan_valid = False, scan_exc = None, scan_prio = 256\<rparr>\<rparr>"

definition bare_env :: "'s arm_env" where
  "bare_env = \<lparr>io_read = (\<lambda>_ _ s. (0, s)), io_write = (\<lambda>_ _ _ s. s), io_access_check = None, idau_check = None\<rparr>"

lemma m33_covering:
  "covering m33 0x20020004 = [0]" "covering m33 0x20000004 = []"
proof -
  have rg: "sau_regions m33 = [0]" by (simp add: sau_regions_def m33_def upt_rec bit_numeral_rec)
  show "covering m33 0x20020004 = [0]" "covering m33 0x20000004 = []"
    unfolding covering_def rg by (simp_all add: sau_covers_def sau_base_def sau_limit_def m33_def)
qed

lemma m33_fields: "tz_enabled m33" "\<not> secure m33" "bit (sau_ctrl m33) 0" "\<not> bit (sau_rlar m33 0) 1"
  by (simp_all add: m33_def bit_numeral_rec)

lemma bare_idau: "idau_result bare_env cpu a = arm_idau_check_default a"
  by (simp add: idau_result_def bare_env_def)

theorem ns_access_exact_witness:
  "arm_mem_access_permitted bare_env m33 0x20020004 \<and> \<not> arm_mem_access_permitted bare_env m33 0x20000004"
  using ns_access_exact [OF m33_fields(1,2), of bare_env "0x20020004"] ns_access_exact [OF m33_fields(1,2), of bare_env "0x20000004"]
  by (simp add: m33_covering m33_fields m33_fields(4) [simplified] bare_idau arm_idau_check_default_def)

theorem tt_response_agrees_witness:
  "bit (arm_tt_response bare_env (m33\<lparr>secure := True\<rparr>) 0x20020004) 20 \<longleftrightarrow>
     arm_mem_access_permitted bare_env (m33\<lparr>secure := True, secure := False\<rparr>) 0x20020004"
  using tt_response_agrees [of "m33\<lparr>secure := True\<rparr>" bare_env "0x20020004"]
  by (simp add: m33_fields bare_idau)

theorem fetch_window_sound_witness:
  "arm_security_attr bare_env m33 0x20020FFF = arm_security_attr bare_env m33 0x20020004"
proof -
  have w: "arm_sau_uniform_window m33 0x20020004 = (0x20020000, 0x1000)"
    by (simp add: arm_sau_uniform_window_def window_step_def sau_regions_def sau_base_def sau_limit_def m33_def upt_rec bit_numeral_rec)
  have "idau_result bare_env m33 x = idau_result bare_env m33 y" if "drop_bit 12 x = drop_bit 12 y" for x y
    by (simp add: bare_idau arm_idau_check_default_def)
  from fetch_window_sound [OF this w, THEN conjunct2, THEN conjunct2, THEN conjunct2, THEN spec, of "0x20020FFF"] show ?thesis by simp
qed

lemma m33_start: "\<not> insn_snap_valid m33" "\<not> secure_fault_pending m33"
  by (simp_all add: m33_def)

theorem refused_access_precise_witness:
  "mem_write32 bare_env 0x20000004 7 m33 = refused_at (0x20000004 AND NOT 3) m33"
proof -
  have "\<not> arm_mem_access_permitted bare_env m33 (0x20000004 AND NOT 3)"
    by (simp add: arm_mem_access_permitted_def attr_nonsecure m33_fields sau_check_ns m33_covering)
  from refused_access_precise [OF this, where v = 7] m33_start show ?thesis by blast
qed

theorem mem_fast_path_equivalent_witness:
  "mem_read32 bare_env 0x20000004 (m33\<lparr>secure := True\<rparr>) = arm_read32 bare_env 0x20000004 (m33\<lparr>secure := True\<rparr>)"
proof -
  have "map_disjoint (m33\<lparr>secure := True\<rparr>)"
    by (auto simp: map_disjoint_def in_sram_def in_flash_def in_rom_def m33_def word_less_nat_alt word_le_nat_alt)
  from mem_fast_path_equivalent [OF this, of "0x20000004" bare_env 0 0 0] show ?thesis
    by (simp add: arm_mem_access_permitted_def)
qed

theorem store_load_roundtrip_witness:
  "fst (mem_read32_unaligned bare_env 0x20000003 (mem_write32_unaligned bare_env 0x20000003 0x12345678 (m33\<lparr>secure := True\<rparr>))) = 0x12345678"
proof -
  have "in_sram (m33\<lparr>secure := True\<rparr>) b" if "b \<in> {0x20000003, 0x20000003 + 1, 0x20000003 + 2, 0x20000003 + 3}" for b
    using that by (auto simp: in_sram_def m33_def)
  from store_load_roundtrip [OF this, where a = "0x20000003" and env = bare_env and v = "0x12345678", THEN conjunct2, THEN conjunct1]
  show ?thesis by (simp add: arm_mem_access_permitted_def)
qed

text \<open>
  Re-enabling the cycle counter resets it, although the source's comment says enabling does not:
  a counter that was stopped starts again from zero.
\<close>

theorem dwt_enable_resets:
  "arm_dwt_read 0xE0001004 (arm_dwt_write 0xE0001000 1 (arm_dwt_write 0xE0001000 0 cpu)) = 0"
  by (simp add: arm_dwt_read_def arm_dwt_write_def)

end
