(* ===== verification/Arm_Nvic.thy ===== *)
theory Arm_Nvic
  imports Arm_Memory
begin

text \<open>
  The nested vectored interrupt controller (\<open>src/arm/arm_nvic.c\<close>), exception entry and return
  with the security-state banking of stack pointers and masks (\<open>src/arm/arm_cpu.c\<close>), and the
  instructions that lift an exception mask (\<open>CPS\<close>, \<open>MSR\<close>).

  Exception numbers are naturals; \<open>None\<close> stands for the -1 of an empty scan. The 32-bit masks
  of set bits are read with \<open>bit\<close>. Stacking and unstacking use the bus side of the memory model.
\<close>

abbreviation NVIC_MAX_IRQ :: nat where "NVIC_MAX_IRQ \<equiv> 480"
abbreviation NVIC_IRQ_WORDS :: nat where "NVIC_IRQ_WORDS \<equiv> 15"

abbreviation EXC_NMI :: nat where "EXC_NMI \<equiv> 2"
abbreviation EXC_HARDFAULT :: nat where "EXC_HARDFAULT \<equiv> 3"
abbreviation EXC_BUSFAULT :: nat where "EXC_BUSFAULT \<equiv> 5"
abbreviation EXC_SECUREFAULT :: nat where "EXC_SECUREFAULT \<equiv> 7"
abbreviation EXC_PENDSV :: nat where "EXC_PENDSV \<equiv> 14"
abbreviation EXC_SYSTICK :: nat where "EXC_SYSTICK \<equiv> 15"

subsection \<open>Security views\<close>

definition arm_nvic_bfhfnmi_secure :: "arm_nvic \<Rightarrow> bool" where
  "arm_nvic_bfhfnmi_secure nv \<longleftrightarrow> \<not> bit (aircr nv) 13"

definition shcsr_secure_only :: "arm_nvic \<Rightarrow> u32" where
  "shcsr_secure_only nv = 0x180010 OR (if arm_nvic_bfhfnmi_secure nv then 0x224026 else 0)"

definition nvic_bf_secure_only :: "arm_nvic \<Rightarrow> bool \<Rightarrow> bool" where
  "nvic_bf_secure_only nv ns \<longleftrightarrow> ns \<and> arm_nvic_bfhfnmi_secure nv"

definition shpr_secure_only :: "arm_nvic \<Rightarrow> nat \<Rightarrow> bool" where
  "shpr_secure_only nv idx \<longleftrightarrow> idx = 3 \<or> (idx = 1 \<and> arm_nvic_bfhfnmi_secure nv)"

definition nvic_ns_view :: "'a arm_cpu_scheme \<Rightarrow> u32 \<Rightarrow> bool" where
  "nvic_ns_view cpu addr \<longleftrightarrow>
     tz_enabled cpu \<and> (addr AND 0xFFFFF000 = 0xE002E000 \<or> \<not> secure cpu)"

definition nvic_view_mask :: "arm_nvic \<Rightarrow> bool \<Rightarrow> nat \<Rightarrow> u32" where
  "nvic_view_mask nv ns idx = (if ns then itns nv idx else 0xFFFFFFFF)"

definition itns_bit :: "arm_nvic \<Rightarrow> nat \<Rightarrow> bool" where
  "itns_bit nv irq = bit (itns nv (irq div 32)) (irq mod 32)"

definition arm_nvic_targets_secure :: "arm_nvic \<Rightarrow> nat \<Rightarrow> bool" where
  "arm_nvic_targets_secure nv exc \<longleftrightarrow>
     (if exc < 16 then True
      else if exc - 16 \<ge> NVIC_MAX_IRQ then True
      else \<not> itns_bit nv (exc - 16))"

subsection \<open>Priorities and the pending scan\<close>

definition arm_nvic_get_priority :: "arm_nvic \<Rightarrow> nat \<Rightarrow> int" where
  "arm_nvic_get_priority nv exc =
     (if exc < 4 then -1
      else if exc < 16 then uint (shpr nv (exc - 4))
      else if exc - 16 < NVIC_MAX_IRQ then uint (ipr nv (exc - 16))
      else 255)"

definition arm_nvic_execution_priority :: "'a arm_cpu_scheme \<Rightarrow> int" where
  "arm_nvic_execution_priority cpu =
     (let nv = nvic cpu;
          p0 = (if active_exception nv > 0 then min 256 (arm_nvic_get_priority nv (active_exception nv)) else 256);
          p1 = (if basepri cpu \<noteq> 0 \<and> uint (basepri cpu AND 0xFF) < p0 then uint (basepri cpu AND 0xFF) else p0);
          p2 = (if bit (primask cpu) 0 \<and> p1 > 0 then 0 else p1)
      in if bit (faultmask cpu) 0 \<and> p2 > -1 then -1 else p2)"

definition scan_consider :: "arm_nvic \<Rightarrow> nat \<Rightarrow> nat option \<times> int \<Rightarrow> nat option \<times> int" where
  "scan_consider nv exc best =
     (let prio = arm_nvic_get_priority nv exc in if prio < snd best then (Some exc, prio) else best)"

definition scan_sys :: "arm_nvic \<Rightarrow> nat option \<times> int \<Rightarrow> nat option \<times> int" where
  "scan_sys nv best =
     (if sys_pending nv = 0 then best
      else fold (\<lambda>exc b. if bit (sys_pending nv) exc then scan_consider nv exc b else b) [4..<16] best)"

definition scan_word :: "arm_nvic \<Rightarrow> nat \<Rightarrow> nat option \<times> int \<Rightarrow> nat option \<times> int" where
  "scan_word nv i best =
     (let pe = ispr nv i AND iser nv i in
      if pe = 0 then best
      else fold (\<lambda>k b. if bit pe k then scan_consider nv (i * 32 + k + 16) b else b) [0..<32] best)"

definition nvic_scan :: "arm_nvic \<Rightarrow> nat option \<times> int" where
  "nvic_scan nv = fold (scan_word nv) [0..<NVIC_IRQ_WORDS] (scan_sys nv (None, 256))"

subsection \<open>Security-state banking\<close>

definition arm_sp_is_psp :: "'a arm_cpu_scheme \<Rightarrow> bool" where
  "arm_sp_is_psp cpu \<longleftrightarrow> xpsr cpu AND 0x1FF = 0 \<and> use_psp cpu"

definition set_reg :: "nat \<Rightarrow> u32 \<Rightarrow> 'a arm_cpu_scheme \<Rightarrow> 'a arm_cpu_scheme" where
  "set_reg i v cpu = cpu\<lparr>reg := (reg cpu)(i := v)\<rparr>"

definition arm_tz_save_sp_bank :: "bool \<Rightarrow> 'a arm_cpu_scheme \<Rightarrow> 'a arm_cpu_scheme" where
  "arm_tz_save_sp_bank sec cpu =
     (let lmsp = (if arm_sp_is_psp cpu then msp cpu else reg cpu ARM_SP);
          lpsp = (if arm_sp_is_psp cpu then reg cpu ARM_SP else psp cpu);
          spsel = (if use_psp cpu then 2 else 0)
      in if sec
         then cpu\<lparr>msp_s := lmsp, psp_s := lpsp, control_s := (control_s cpu AND NOT 2) OR spsel,
                  primask_s := primask cpu, basepri_s := basepri cpu, faultmask_s := faultmask cpu\<rparr>
         else cpu\<lparr>msp_ns := lmsp, psp_ns := lpsp, control_ns := (control_ns cpu AND NOT 2) OR spsel,
                  primask_ns := primask cpu, basepri_ns := basepri cpu, faultmask_ns := faultmask cpu\<rparr>)"

definition arm_tz_load_sp_bank :: "bool \<Rightarrow> 'a arm_cpu_scheme \<Rightarrow> 'a arm_cpu_scheme" where
  "arm_tz_load_sp_bank sec cpu0 =
     (let lmsp = (if sec then msp_s cpu0 else msp_ns cpu0);
          lpsp = (if sec then psp_s cpu0 else psp_ns cpu0);
          ctrl = (if sec then control_s cpu0 else control_ns cpu0);
          cpu = (if sec
                 then cpu0\<lparr>primask := primask_s cpu0, basepri := basepri_s cpu0, faultmask := faultmask_s cpu0\<rparr>
                 else cpu0\<lparr>primask := primask_ns cpu0, basepri := basepri_ns cpu0, faultmask := faultmask_ns cpu0\<rparr>);
          cpu = cpu\<lparr>use_psp := bit ctrl 1\<rparr>
      in if arm_sp_is_psp cpu then set_reg ARM_SP lpsp cpu\<lparr>msp := lmsp\<rparr>
         else set_reg ARM_SP lmsp cpu\<lparr>psp := lpsp\<rparr>)"

definition arm_switch_security_state :: "bool \<Rightarrow> 'a arm_cpu_scheme \<Rightarrow> 'a arm_cpu_scheme" where
  "arm_switch_security_state to_secure cpu =
     (if \<not> tz_enabled cpu \<or> secure cpu = to_secure then cpu
      else
        let cpu = cpu\<lparr>fetch_ok_len := 0\<rparr>;
            cpu = arm_tz_save_sp_bank (secure cpu) cpu;
            cpu = cpu\<lparr>secure := to_secure\<rparr>
        in arm_tz_load_sp_bank to_secure cpu)"

subsection \<open>Exception entry\<close>

definition count_entry :: "nat \<Rightarrow> 'a arm_cpu_scheme \<Rightarrow> 'a arm_cpu_scheme" where
  "count_entry exc cpu =
     (if 0 < exc \<and> exc < 16
      then let cpu = cpu\<lparr>exc_entry_count := (exc_entry_count cpu)(exc := exc_entry_count cpu exc + 1)\<rparr>
           in if EXC_HARDFAULT \<le> exc \<and> exc \<le> EXC_SECUREFAULT
              then cpu\<lparr>last_fault_exc := exc, last_fault_pc := reg cpu ARM_PC, last_fault_bg_secure := secure cpu\<rparr>
              else cpu
      else cpu)"

definition exc_target_secure :: "nat \<Rightarrow> 'a arm_cpu_scheme \<Rightarrow> bool" where
  "exc_target_secure exc cpu \<longleftrightarrow>
     (if \<not> tz_enabled cpu then False
      else if exc = EXC_SECUREFAULT then True
      else if exc = EXC_NMI \<or> exc = EXC_HARDFAULT \<or> exc = EXC_BUSFAULT then arm_nvic_bfhfnmi_secure (nvic cpu)
      else if exc \<ge> 16 then arm_nvic_targets_secure (nvic cpu) exc
      else secure cpu)"

definition saved_xpsr :: "'a arm_cpu_scheme \<Rightarrow> u32" where
  "saved_xpsr cpu =
     (xpsr cpu AND NOT (0x6000000 OR 0xFC00 OR 0x200))
       OR push_bit 25 (ucast (it_state cpu AND 3))
       OR push_bit 10 (ucast (drop_bit 2 (it_state cpu) AND 0x3F))
       OR (if reg cpu ARM_SP AND 4 \<noteq> 0 then 0x200 else 0)"

definition push_frame_words :: "'a arm_cpu_scheme \<Rightarrow> u32 list" where
  "push_frame_words cpu =
     [reg cpu 0, reg cpu 1, reg cpu 2, reg cpu 3, reg cpu 12, reg cpu ARM_LR, reg cpu ARM_PC, saved_xpsr cpu]"

fun write_words ::
  "'a arm_cpu_scheme arm_env \<Rightarrow> u32 \<Rightarrow> u32 list \<Rightarrow> 'a arm_cpu_scheme \<Rightarrow> 'a arm_cpu_scheme" where
  "write_words env a [] cpu = cpu"
| "write_words env a (w # ws) cpu = write_words env (a + 4) ws (arm_write32 env a w cpu)"

definition exc_return_value :: "bool \<Rightarrow> bool \<Rightarrow> 'a arm_cpu_scheme \<Rightarrow> u32" where
  "exc_return_value bg_secure target_secure cpu =
     0xFFFFFFB0
       OR (if tz_enabled cpu then (if bg_secure then 0x40 else 0) else 0x40)
       OR (if tz_enabled cpu then (if target_secure then 1 else 0) else 1)
       OR (if xpsr cpu AND 0x1FF = 0 then 8 OR (if use_psp cpu then 4 else 0) else 0)"

text \<open>The frame goes to the active stack; then the handler's stack, LR and IPSR are set up.\<close>

definition stack_frame ::
  "'a arm_cpu_scheme arm_env \<Rightarrow> nat \<Rightarrow> bool \<Rightarrow> bool \<Rightarrow> 'a arm_cpu_scheme \<Rightarrow> 'a arm_cpu_scheme" where
  "stack_frame env exc bg_secure target_secure cpu =
     (let from_psp = arm_sp_is_psp cpu;
          sp = (reg cpu ARM_SP AND NOT 7) - 32;
          cpu = write_words env sp (push_frame_words cpu) cpu;
          cpu = (set_reg ARM_SP sp cpu)\<lparr>it_state := 0\<rparr>;
          cpu = (if from_psp then set_reg ARM_SP (msp cpu) (cpu\<lparr>psp := sp\<rparr>) else cpu\<lparr>msp := sp\<rparr>);
          cpu = set_reg ARM_LR (exc_return_value bg_secure target_secure cpu) cpu
      in cpu\<lparr>xpsr := (xpsr cpu AND NOT 0x1FF) OR (of_nat exc AND 0x1FF) OR 0x1000000\<rparr>)"

definition arm_exception_entry ::
  "'a arm_cpu_scheme arm_env \<Rightarrow> nat \<Rightarrow> 'a arm_cpu_scheme \<Rightarrow> 'a arm_cpu_scheme" where
  "arm_exception_entry env exc cpu0 =
     (let cpu = count_entry exc cpu0;
          bg = secure cpu;
          tgt = exc_target_secure exc cpu;
          cpu = stack_frame env exc bg tgt cpu;
          cpu = (if tz_enabled cpu \<and> tgt \<noteq> bg
                 then let cpu = arm_switch_security_state tgt cpu
                      in if tgt then cpu\<lparr>tz_secexc_count := tz_secexc_count cpu + 1\<rparr> else cpu
                 else cpu);
          table = (if tz_enabled cpu \<and> tgt then vtor_s cpu else vtor cpu);
          (vector, cpu) = arm_read32 env (table + of_nat exc * 4) cpu
      in (set_reg ARM_PC (vector AND NOT 1) cpu)\<lparr>cpu_off := False, cpu_cycles := cpu_cycles cpu + 12\<rparr>)"

subsection \<open>Dispatch\<close>

definition memo_scan :: "arm_nvic \<Rightarrow> arm_nvic" where
  "memo_scan nv =
     (if scan_valid nv then nv
      else nv\<lparr>scan_exc := fst (nvic_scan nv), scan_prio := snd (nvic_scan nv), scan_valid := True\<rparr>)"

definition clear_line :: "nat \<Rightarrow> arm_nvic \<Rightarrow> arm_nvic" where
  "clear_line exc nv =
     (if exc \<ge> 16
      then nv\<lparr>ispr := (ispr nv)((exc - 16) div 32 := ispr nv ((exc - 16) div 32) AND NOT (push_bit ((exc - 16) mod 32) 1))\<rparr>
      else nv\<lparr>sys_pending := sys_pending nv AND NOT (push_bit exc 1)\<rparr>)"

definition arm_nvic_check_pending ::
  "'a arm_cpu_scheme arm_env \<Rightarrow> 'a arm_cpu_scheme \<Rightarrow> 'a arm_cpu_scheme" where
  "arm_nvic_check_pending env cpu0 =
     (if bit (primask cpu0) 0 \<or> dbg_halted cpu0 then cpu0
      else
        let cpu = set_nvic memo_scan cpu0; nv = nvic cpu; best_prio = scan_prio nv in
        case scan_exc nv of
          None \<Rightarrow> set_nvic (\<lambda>nv. nv\<lparr>has_pending := False\<rparr>) cpu
        | Some exc \<Rightarrow>
            if bit (faultmask cpu) 0 then cpu
            else if basepri cpu \<noteq> 0 \<and> best_prio \<ge> uint (basepri cpu AND 0xFF) then cpu
            else if active_exception nv > 0 \<and> best_prio \<ge> arm_nvic_get_priority nv (active_exception nv) then cpu
            else arm_exception_entry env exc
                   (set_nvic (\<lambda>nv. (clear_line exc (nv\<lparr>has_pending := False, scan_valid := False\<rparr>))\<lparr>active_exception := exc\<rparr>) cpu))"

definition mark_pending :: "arm_nvic \<Rightarrow> arm_nvic" where
  "mark_pending nv = nv\<lparr>has_pending := True, scan_valid := False\<rparr>"

definition arm_nvic_set_pending_deferred :: "int \<Rightarrow> 'a arm_cpu_scheme \<Rightarrow> 'a arm_cpu_scheme" where
  "arm_nvic_set_pending_deferred irq cpu =
     (if irq < 0 \<or> irq \<ge> int NVIC_MAX_IRQ then cpu
      else let idx = nat irq div 32; b = nat irq mod 32
           in set_nvic (\<lambda>nv. mark_pending (nv\<lparr>ispr := (ispr nv)(idx := ispr nv idx OR push_bit b 1)\<rparr>)) cpu)"

definition arm_nvic_set_pending ::
  "'a arm_cpu_scheme arm_env \<Rightarrow> int \<Rightarrow> 'a arm_cpu_scheme \<Rightarrow> 'a arm_cpu_scheme" where
  "arm_nvic_set_pending env irq cpu =
     (if irq < 0 \<or> irq \<ge> int NVIC_MAX_IRQ then cpu
      else arm_nvic_check_pending env (arm_nvic_set_pending_deferred irq cpu))"

definition arm_nvic_clear_pending :: "int \<Rightarrow> 'a arm_cpu_scheme \<Rightarrow> 'a arm_cpu_scheme" where
  "arm_nvic_clear_pending irq cpu =
     (if irq < 0 \<or> irq \<ge> int NVIC_MAX_IRQ then cpu
      else let idx = nat irq div 32; b = nat irq mod 32
           in set_nvic (\<lambda>nv. nv\<lparr>ispr := (ispr nv)(idx := ispr nv idx AND NOT (push_bit b 1)), scan_valid := False\<rparr>) cpu)"

definition arm_nvic_get_vector ::
  "'a arm_cpu_scheme arm_env \<Rightarrow> nat \<Rightarrow> 'a arm_cpu_scheme \<Rightarrow> u32 \<times> 'a arm_cpu_scheme" where
  "arm_nvic_get_vector env exc cpu = arm_read32 env (scb_vtor (nvic cpu) + of_nat exc * 4) cpu"

subsection \<open>Exception return\<close>

fun read_words ::
  "'a arm_cpu_scheme arm_env \<Rightarrow> u32 \<Rightarrow> nat \<Rightarrow> 'a arm_cpu_scheme \<Rightarrow> u32 list \<times> 'a arm_cpu_scheme" where
  "read_words env a 0 cpu = ([], cpu)"
| "read_words env a (Suc n) cpu =
     (let (w, cpu) = arm_read32 env a cpu; (ws, cpu) = read_words env (a + 4) n cpu in (w # ws, cpu))"

definition load_frame :: "u32 list \<Rightarrow> 'a arm_cpu_scheme \<Rightarrow> 'a arm_cpu_scheme" where
  "load_frame ws cpu =
     (let px = ws ! 7 in
      cpu\<lparr>reg := (reg cpu)(0 := ws ! 0, 1 := ws ! 1, 2 := ws ! 2, 3 := ws ! 3, 12 := ws ! 4,
                           ARM_LR := ws ! 5, ARM_PC := ws ! 6 AND NOT 1),
          xpsr := px,
          it_state := ucast ((drop_bit 25 px AND 3) OR push_bit 2 (drop_bit 10 px AND 0x3F))\<rparr>)"

definition unstack_frame ::
  "'a arm_cpu_scheme arm_env \<Rightarrow> u32 \<Rightarrow> 'a arm_cpu_scheme \<Rightarrow> 'a arm_cpu_scheme" where
  "unstack_frame env er cpu =
     (let cpu = cpu\<lparr>msp := reg cpu ARM_SP\<rparr>;
          ret_psp = bit er 2;
          sp = (if ret_psp then psp cpu else msp cpu);
          (ws, cpu) = read_words env sp 8 cpu;
          cpu = load_frame ws cpu;
          newsp = sp + 32 + (if bit (xpsr cpu) 9 then 4 else 0);
          cpu = cpu\<lparr>xpsr := xpsr cpu AND NOT 0x200\<rparr>
      in if \<not> bit er 3 then set_reg ARM_SP newsp (cpu\<lparr>msp := newsp\<rparr>)
         else
           let cpu = cpu\<lparr>xpsr := xpsr cpu AND NOT 0x1FF, use_psp := ret_psp\<rparr>;
               cpu = (if ret_psp then cpu\<lparr>psp := newsp\<rparr> else cpu\<lparr>msp := newsp\<rparr>)
           in set_reg ARM_SP newsp cpu)"

definition exception_return ::
  "'a arm_cpu_scheme arm_env \<Rightarrow> u32 \<Rightarrow> 'a arm_cpu_scheme \<Rightarrow> 'a arm_cpu_scheme" where
  "exception_return env er cpu =
     (let cpu = (if tz_enabled cpu \<and> bit er 6 \<noteq> secure cpu then arm_switch_security_state (bit er 6) cpu else cpu);
          cpu = unstack_frame env er cpu;
          cpu = set_nvic (\<lambda>nv. nv\<lparr>active_exception := unat (xpsr cpu AND 0x1FF)\<rparr>) cpu;
          cpu = arm_nvic_check_pending env cpu
      in cpu\<lparr>cpu_cycles := cpu_cycles cpu + 12\<rparr>)"

definition arm_fnc_return ::
  "'a arm_cpu_scheme arm_env \<Rightarrow> 'a arm_cpu_scheme \<Rightarrow> 'a arm_cpu_scheme" where
  "arm_fnc_return env cpu =
     (let was_secure = secure cpu;
          cpu = arm_switch_security_state True (arm_insn_snapshot cpu);
          sp = reg cpu ARM_SP;
          (ret, cpu) = mem_read32 env sp cpu;
          (sig, cpu) = mem_read32 env (sp + 4) cpu
      in if arm_insn_refused cpu then arm_switch_security_state was_secure cpu
         else
           let cpu = (if sig \<noteq> 0xFEFA125A then cpu\<lparr>sfsr := sfsr cpu OR 2, secure_fault_pending := True\<rparr> else cpu)
           in set_reg ARM_PC (ret AND NOT 1) (set_reg ARM_SP (sp + 8) cpu))"

definition arm_load_pc ::
  "'a arm_cpu_scheme arm_env \<Rightarrow> u32 \<Rightarrow> 'a arm_cpu_scheme \<Rightarrow> 'a arm_cpu_scheme" where
  "arm_load_pc env v cpu =
     (if arm_insn_refused cpu then cpu
      else if v AND 0xF0000000 = 0xF0000000 then
        (if tz_enabled cpu \<and> \<not> secure cpu \<and> v AND 0xFF000000 = 0xFE000000 then arm_fnc_return env cpu
         else exception_return env v cpu)
      else set_reg ARM_PC (v AND NOT 1) cpu)"

subsection \<open>Lifting a mask\<close>

definition recheck ::
  "'a arm_cpu_scheme arm_env \<Rightarrow> 'a arm_cpu_scheme \<Rightarrow> 'a arm_cpu_scheme" where
  "recheck env cpu = (if has_pending (nvic cpu) then arm_nvic_check_pending env cpu else cpu)"

definition exec_cps ::
  "'a arm_cpu_scheme arm_env \<Rightarrow> bool \<Rightarrow> 'a arm_cpu_scheme \<Rightarrow> 'a arm_cpu_scheme" where
  "exec_cps env disable cpu =
     (if disable then cpu\<lparr>primask := 1\<rparr> else recheck env (cpu\<lparr>primask := 0\<rparr>))"

definition msr_primask :: "'a arm_cpu_scheme arm_env \<Rightarrow> u32 \<Rightarrow> 'a arm_cpu_scheme \<Rightarrow> 'a arm_cpu_scheme" where
  "msr_primask env val cpu =
     (let cpu = cpu\<lparr>primask := val AND 1\<rparr> in if primask cpu = 0 then recheck env cpu else cpu)"

definition msr_basepri :: "'a arm_cpu_scheme arm_env \<Rightarrow> u32 \<Rightarrow> 'a arm_cpu_scheme \<Rightarrow> 'a arm_cpu_scheme" where
  "msr_basepri env val cpu = recheck env (cpu\<lparr>basepri := val AND 0xFF\<rparr>)"

definition msr_basepri_max :: "u32 \<Rightarrow> 'a arm_cpu_scheme \<Rightarrow> 'a arm_cpu_scheme" where
  "msr_basepri_max val cpu =
     (if val AND 0xFF \<noteq> 0 \<and> (basepri cpu = 0 \<or> val AND 0xFF < basepri cpu)
      then cpu\<lparr>basepri := val AND 0xFF\<rparr> else cpu)"

definition msr_faultmask :: "'a arm_cpu_scheme arm_env \<Rightarrow> u32 \<Rightarrow> 'a arm_cpu_scheme \<Rightarrow> 'a arm_cpu_scheme" where
  "msr_faultmask env val cpu =
     (let cpu = cpu\<lparr>faultmask := val AND 1\<rparr> in if faultmask cpu = 0 then recheck env cpu else cpu)"

definition boundary_check ::
  "'a arm_cpu_scheme arm_env \<Rightarrow> 'a arm_cpu_scheme \<Rightarrow> 'a arm_cpu_scheme" where
  "boundary_check env cpu = (if has_pending (nvic cpu) \<and> \<not> bit (primask cpu) 0 then arm_nvic_check_pending env cpu else cpu)"

end
