(* ===== verification/Arm_Scs.thy ===== *)
theory Arm_Scs
  imports Arm_Nvic
begin

text \<open>
  The System Control Space: register reads and writes of the interrupt controller and of the
  system control block with their security views (\<open>nvic_read\<close>, \<open>nvic_write\<close>), reset and
  initialisation (\<open>src/arm/arm_nvic.c\<close>), and the SysTick timer (\<open>src/arm/arm_systick.c\<close>).
\<close>

subsection \<open>Register banks\<close>

definition in_bank :: "u32 \<Rightarrow> u32 \<Rightarrow> bool" where
  "in_bank base offset \<longleftrightarrow> base \<le> offset \<and> offset < base + 60"

definition bank_idx :: "u32 \<Rightarrow> u32 \<Rightarrow> nat" where
  "bank_idx base offset = unat ((offset - base) div 4)"

definition in_ipr :: "u32 \<Rightarrow> bool" where
  "in_ipr offset \<longleftrightarrow> 0x400 \<le> offset \<and> offset < 0x5E0"

definition in_shpr :: "u32 \<Rightarrow> bool" where
  "in_shpr offset \<longleftrightarrow> 0xD18 \<le> offset \<and> offset \<le> 0xD23"

definition in_sau :: "u32 \<Rightarrow> bool" where
  "in_sau offset \<longleftrightarrow> offset \<in> {0xDD0, 0xDD4, 0xDD8, 0xDDC, 0xDE0, 0xDE4, 0xDE8}"

subsection \<open>Reading\<close>

definition ipr_byte :: "arm_nvic \<Rightarrow> bool \<Rightarrow> nat \<Rightarrow> u32" where
  "ipr_byte nv ns irq = (if irq < NVIC_MAX_IRQ \<and> \<not> (ns \<and> \<not> itns_bit nv irq) then ucast (ipr nv irq) else 0)"

definition read_ipr :: "arm_nvic \<Rightarrow> bool \<Rightarrow> nat \<Rightarrow> u32" where
  "read_ipr nv ns i =
     ipr_byte nv ns i OR push_bit 8 (ipr_byte nv ns (i + 1)) OR
     push_bit 16 (ipr_byte nv ns (i + 2)) OR push_bit 24 (ipr_byte nv ns (i + 3))"

definition best_sys :: "arm_nvic \<Rightarrow> nat" where
  "best_sys nv = fst (fold (\<lambda>exc b. if bit (sys_pending nv) exc \<and> arm_nvic_get_priority nv exc < snd b
                                  then (exc, arm_nvic_get_priority nv exc) else b) [4..<16] (0, 256))"

definition read_icsr :: "arm_nvic \<Rightarrow> u32" where
  "read_icsr nv =
     (if active_exception nv > 0 then of_nat (active_exception nv) AND 0x1FF else 0)
       OR (if sys_pending nv \<noteq> 0 then push_bit 12 (of_nat (best_sys nv) AND 0x1FF) OR push_bit 22 1 else 0)
       OR (if bit (sys_pending nv) EXC_SYSTICK then push_bit 26 1 else 0)
       OR (if bit (sys_pending nv) EXC_PENDSV then push_bit 28 1 else 0)"

definition shpr_byte :: "arm_nvic \<Rightarrow> bool \<Rightarrow> nat \<Rightarrow> u32" where
  "shpr_byte nv ns i = (if ns \<and> shpr_secure_only nv i then 0 else ucast (shpr nv i))"

definition read_shpr :: "arm_nvic \<Rightarrow> bool \<Rightarrow> nat \<Rightarrow> u32" where
  "read_shpr nv ns i =
     shpr_byte nv ns i OR push_bit 8 (shpr_byte nv ns (i + 1)) OR
     push_bit 16 (shpr_byte nv ns (i + 2)) OR push_bit 24 (shpr_byte nv ns (i + 3))"

definition read_sau :: "'a arm_cpu_scheme \<Rightarrow> bool \<Rightarrow> u32 \<Rightarrow> u32" where
  "read_sau cpu ns offset =
     (if \<not> arm_cpu_is_secure cpu \<or> ns then 0
      else
        let r = unat (sau_rnr cpu); ok = r < unat (sau_sregions cpu) in
        if offset = 0xDD0 then sau_ctrl cpu
        else if offset = 0xDD4 then ucast (sau_sregions cpu)
        else if offset = 0xDD8 then sau_rnr cpu
        else if offset = 0xDDC then (if ok then sau_rbar cpu r else 0)
        else if offset = 0xDE0 then (if ok then sau_rlar cpu r else 0)
        else if offset = 0xDE4 then sfsr cpu
        else sfar cpu)"

definition read_scb :: "'a arm_cpu_scheme \<Rightarrow> bool \<Rightarrow> u32 \<Rightarrow> u32" where
  "read_scb cpu ns offset =
     (let nv = nvic cpu in
      if offset = 0xD00 then scb_cpuid nv
      else if offset = 0xD04 then read_icsr nv
      else if offset = 0xD08 then (if tz_enabled cpu \<and> \<not> ns then vtor_s cpu else vtor cpu)
      else if offset = 0xD0C then (if ns then aircr nv AND NOT 0x6008 else aircr nv)
      else if offset = 0xD10 then scr nv
      else if offset = 0xD14 then ccr nv
      else if offset = 0xD18 then read_shpr nv ns 0
      else if offset = 0xD1C then read_shpr nv ns 4
      else if offset = 0xD20 then read_shpr nv ns 8
      else if offset = 0xD24 then (if ns then shcsr nv AND NOT (shcsr_secure_only nv) else shcsr nv)
      else if offset = 0xD28 then (if nvic_bf_secure_only nv ns then 0 else cfsr cpu)
      else if offset = 0xD2C then (if nvic_bf_secure_only nv ns then 0 else hfsr cpu)
      else if offset = 0xD34 then (if ns then mmfar_ns cpu else bfar cpu)
      else if offset = 0xD38 then (if nvic_bf_secure_only nv ns then 0 else bfar cpu)
      else if offset = 0xDFC then demcr cpu
      else if in_sau offset then read_sau cpu ns offset
      else 0)"

definition nvic_read :: "u32 \<Rightarrow> 'a arm_cpu_scheme \<Rightarrow> u32" where
  "nvic_read addr cpu =
     (let offset = addr AND 0xFFF; ns = nvic_ns_view cpu addr; nv = nvic cpu;
          masked = (\<lambda>regs base. regs (bank_idx base offset) AND nvic_view_mask nv ns (bank_idx base offset))
      in if in_bank 0x100 offset then masked (iser nv) 0x100
         else if in_bank 0x180 offset then masked (iser nv) 0x180
         else if in_bank 0x200 offset then masked (ispr nv) 0x200
         else if in_bank 0x280 offset then masked (ispr nv) 0x280
         else if in_bank 0x300 offset then masked (iabr nv) 0x300
         else if in_bank 0x380 offset then (if ns then 0 else itns nv (bank_idx 0x380 offset))
         else if in_ipr offset then read_ipr nv ns (unat (offset - 0x400))
         else read_scb cpu ns offset)"

subsection \<open>Writing\<close>

definition write_ipr_byte :: "bool \<Rightarrow> u32 \<Rightarrow> nat \<Rightarrow> nat \<Rightarrow> arm_nvic \<Rightarrow> arm_nvic" where
  "write_ipr_byte ns val i b nv =
     (let irq = i + b in
      if irq < NVIC_MAX_IRQ \<and> \<not> (ns \<and> \<not> itns_bit nv irq)
      then nv\<lparr>ipr := (ipr nv)(irq := ucast (drop_bit (8 * b) val AND 0xFF))\<rparr> else nv)"

definition write_ipr :: "bool \<Rightarrow> u32 \<Rightarrow> u32 \<Rightarrow> arm_nvic \<Rightarrow> arm_nvic" where
  "write_ipr ns offset val nv =
     (let n = (if offset AND 3 = 0 \<and> val > 0xFF then 4 else 1)
      in (fold (write_ipr_byte ns val (unat (offset - 0x400))) [0..<n] nv)\<lparr>scan_valid := False\<rparr>)"

definition write_shpr_byte :: "bool \<Rightarrow> u32 \<Rightarrow> nat \<Rightarrow> nat \<Rightarrow> arm_nvic \<Rightarrow> arm_nvic" where
  "write_shpr_byte ns val i b nv =
     (if i + b < 12 \<and> \<not> (ns \<and> shpr_secure_only nv (i + b))
      then nv\<lparr>shpr := (shpr nv)(i + b := ucast (drop_bit (8 * b) val AND 0xFF))\<rparr> else nv)"

definition write_shpr :: "bool \<Rightarrow> u32 \<Rightarrow> u32 \<Rightarrow> arm_nvic \<Rightarrow> arm_nvic" where
  "write_shpr ns offset val nv =
     (let n = (if offset AND 3 = 0 \<and> val > 0xFF then 4 else 1)
      in (fold (write_shpr_byte ns val (unat (offset - 0xD18))) [0..<n] nv)\<lparr>scan_valid := False\<rparr>)"

definition sys_set :: "'a arm_cpu_scheme arm_env \<Rightarrow> nat \<Rightarrow> 'a arm_cpu_scheme \<Rightarrow> 'a arm_cpu_scheme" where
  "sys_set env exc cpu =
     arm_nvic_check_pending env (set_nvic (\<lambda>nv. mark_pending (nv\<lparr>sys_pending := sys_pending nv OR push_bit exc 1\<rparr>)) cpu)"

definition sys_clear :: "nat \<Rightarrow> 'a arm_cpu_scheme \<Rightarrow> 'a arm_cpu_scheme" where
  "sys_clear exc cpu =
     set_nvic (\<lambda>nv. nv\<lparr>sys_pending := sys_pending nv AND NOT (push_bit exc 1), scan_valid := False\<rparr>) cpu"

definition write_icsr :: "'a arm_cpu_scheme arm_env \<Rightarrow> u32 \<Rightarrow> 'a arm_cpu_scheme \<Rightarrow> 'a arm_cpu_scheme" where
  "write_icsr env val cpu =
     (let cpu = (if bit val 27 then sys_clear EXC_PENDSV cpu else cpu);
          cpu = (if bit val 25 then sys_clear EXC_SYSTICK cpu else cpu);
          cpu = (if bit val 28 then sys_set env EXC_PENDSV cpu else cpu)
      in if bit val 26 then sys_set env EXC_SYSTICK cpu else cpu)"

definition write_aircr :: "bool \<Rightarrow> u32 \<Rightarrow> 'a arm_cpu_scheme \<Rightarrow> 'a arm_cpu_scheme" where
  "write_aircr ns val cpu =
     (if val AND 0xFFFF0000 = 0x05FA0000 then
        let nv = nvic cpu;
            v = val AND 0xFFFF;
            v = (if ns then
                   let v = (v AND NOT 0x6008) OR (aircr nv AND 0x6008)
                   in if bit (aircr nv) 3 then v AND NOT 4 else v
                 else v);
            cpu = set_nvic (\<lambda>nv. nv\<lparr>aircr := v AND NOT 4\<rparr>) cpu
        in if bit v 2 then cpu\<lparr>reset_pending := True\<rparr> else cpu
      else cpu)"

definition write_sau :: "bool \<Rightarrow> u32 \<Rightarrow> u32 \<Rightarrow> 'a arm_cpu_scheme \<Rightarrow> 'a arm_cpu_scheme" where
  "write_sau ns offset val cpu =
     (if \<not> arm_cpu_is_secure cpu \<or> ns then cpu
      else
        let r = unat (sau_rnr cpu); ok = r < unat (sau_sregions cpu) in
        if offset = 0xDD0 then cpu\<lparr>sau_ctrl := val AND 3\<rparr>
        else if offset = 0xDD8 then cpu\<lparr>sau_rnr := val AND 0xFF\<rparr>
        else if offset = 0xDDC then (if ok then cpu\<lparr>sau_rbar := (sau_rbar cpu)(r := val AND 0xFFFFFFE0)\<rparr> else cpu)
        else if offset = 0xDE0 then (if ok then cpu\<lparr>sau_rlar := (sau_rlar cpu)(r := val AND 0xFFFFFFE3)\<rparr> else cpu)
        else if offset = 0xDE4 then cpu\<lparr>sfsr := sfsr cpu AND NOT val\<rparr>
        else cpu)"

definition write_scb ::
  "'a arm_cpu_scheme arm_env \<Rightarrow> bool \<Rightarrow> u32 \<Rightarrow> u32 \<Rightarrow> 'a arm_cpu_scheme \<Rightarrow> 'a arm_cpu_scheme" where
  "write_scb env ns offset val cpu =
     (let nv = nvic cpu in
      if offset = 0xD04 then write_icsr env val cpu
      else if offset = 0xD08 then
        (if tz_enabled cpu \<and> \<not> ns then cpu\<lparr>vtor_s := val AND 0xFFFFFF80\<rparr>
         else (set_nvic (\<lambda>nv. nv\<lparr>scb_vtor := val AND 0xFFFFFF80\<rparr>) cpu)\<lparr>vtor := val AND 0xFFFFFF80\<rparr>)
      else if offset = 0xD0C then write_aircr ns val cpu
      else if offset = 0xD10 then set_nvic (\<lambda>nv. nv\<lparr>scr := val\<rparr>) cpu
      else if offset = 0xD14 then set_nvic (\<lambda>nv. nv\<lparr>ccr := val\<rparr>) cpu
      else if offset = 0xD24 then
        set_nvic (\<lambda>nv. nv\<lparr>shcsr := (if ns then (val AND NOT (shcsr_secure_only nv)) OR (shcsr nv AND shcsr_secure_only nv)
                                   else val)\<rparr>) cpu
      else if offset = 0xD28 then (if nvic_bf_secure_only nv ns then cpu else cpu\<lparr>cfsr := cfsr cpu AND NOT val\<rparr>)
      else if offset = 0xD2C then (if nvic_bf_secure_only nv ns then cpu else cpu\<lparr>hfsr := hfsr cpu AND NOT val\<rparr>)
      else if offset = 0xD34 then (if ns then cpu\<lparr>mmfar_ns := val\<rparr> else cpu\<lparr>bfar := val\<rparr>)
      else if offset = 0xD38 then (if nvic_bf_secure_only nv ns then cpu else cpu\<lparr>bfar := val\<rparr>)
      else if offset = 0xDFC then cpu\<lparr>demcr := val\<rparr>
      else if in_sau offset then write_sau ns offset val cpu
      else cpu)"

definition nvic_write ::
  "'a arm_cpu_scheme arm_env \<Rightarrow> u32 \<Rightarrow> u32 \<Rightarrow> 'a arm_cpu_scheme \<Rightarrow> 'a arm_cpu_scheme" where
  "nvic_write env addr val cpu =
     (let offset = addr AND 0xFFF; ns = nvic_ns_view cpu addr; nv = nvic cpu;
          word = (\<lambda>base. val AND nvic_view_mask nv ns (bank_idx base offset))
      in if in_bank 0x100 offset then
           (let i = bank_idx 0x100 offset in
            arm_nvic_check_pending env
              (set_nvic (\<lambda>nv. mark_pending (nv\<lparr>iser := (iser nv)(i := iser nv i OR word 0x100)\<rparr>)) cpu))
         else if in_bank 0x180 offset then
           (let i = bank_idx 0x180 offset in
            set_nvic (\<lambda>nv. nv\<lparr>iser := (iser nv)(i := iser nv i AND NOT (word 0x180)), scan_valid := False\<rparr>) cpu)
         else if in_bank 0x380 offset then
           (if \<not> ns \<and> arm_cpu_is_secure cpu
            then set_nvic (\<lambda>nv. nv\<lparr>itns := (itns nv)(bank_idx 0x380 offset := val), scan_valid := False\<rparr>) cpu
            else cpu)
         else if in_bank 0x200 offset then
           (let i = bank_idx 0x200 offset in
            arm_nvic_check_pending env
              (set_nvic (\<lambda>nv. mark_pending (nv\<lparr>ispr := (ispr nv)(i := ispr nv i OR word 0x200)\<rparr>)) cpu))
         else if in_bank 0x280 offset then
           (let i = bank_idx 0x280 offset in
            set_nvic (\<lambda>nv. nv\<lparr>ispr := (ispr nv)(i := ispr nv i AND NOT (word 0x280)), scan_valid := False\<rparr>) cpu)
         else if in_ipr offset then set_nvic (write_ipr ns offset val) cpu
         else if in_shpr offset then set_nvic (write_shpr ns offset val) cpu
         else write_scb env ns offset val cpu)"

subsection \<open>Reset and initialisation\<close>

definition arm_nvic_reset :: "'a arm_cpu_scheme \<Rightarrow> 'a arm_cpu_scheme" where
  "arm_nvic_reset cpu =
     set_nvic (\<lambda>nv. \<lparr>iser = (\<lambda>_. 0), ispr = (\<lambda>_. 0), iabr = (\<lambda>_. 0), itns = (\<lambda>_. 0),
       scb_cpuid = (if cpu_cpuid cpu \<noteq> 0 then cpu_cpuid cpu else 0x412FC231),
       ipr = (\<lambda>_. 0), shpr = (\<lambda>_. 0), scb_vtor = flash_base cpu, aircr = 0, scr = 0, ccr = 0x200, shcsr = 0,
       active_exception = 0, sys_pending = 0, has_pending = False, scan_valid = False, scan_exc = None, scan_prio = 256\<rparr>) cpu"

definition arm_nvic_init :: "nat \<Rightarrow> 'a arm_cpu_scheme \<Rightarrow> 'a arm_cpu_scheme" where
  "arm_nvic_init handler cpu =
     (let cpu = arm_register_io 0xE000E000 0x1000 handler (arm_nvic_reset cpu)
      in if tz_enabled cpu then arm_register_io 0xE002E000 0x1000 handler cpu else cpu)"

subsection \<open>SysTick\<close>

record arm_systick = arm_cpu +
  st_csr :: u32
  st_rvr :: u32
  st_cvr :: u32
  st_last_cycle :: int
  tick_event :: nat
  systick_fire_count :: int

definition st_running :: "'a arm_systick_scheme \<Rightarrow> bool" where
  "st_running s \<longleftrightarrow> bit (st_csr s) 0 \<and> st_rvr s > 0"

definition schedule_tick :: "'a arm_systick_scheme \<Rightarrow> 'a arm_systick_scheme" where
  "schedule_tick s = schedule_event (tick_event s) (cpu_cycles s + uint (st_rvr s) + 1) s"

definition systick_fire :: "'a arm_systick_scheme arm_env \<Rightarrow> 'a arm_systick_scheme \<Rightarrow> 'a arm_systick_scheme" where
  "systick_fire env s =
     (let s = s\<lparr>systick_fire_count := systick_fire_count s + 1, st_cvr := st_rvr s AND 0xFFFFFF,
                st_last_cycle := cpu_cycles s, st_csr := st_csr s OR 0x10000\<rparr>;
          s = (if bit (st_csr s) 1 then sys_set env EXC_SYSTICK s else s)
      in if st_running s then schedule_tick s else s)"

definition systick_get_current :: "'a arm_systick_scheme \<Rightarrow> u32" where
  "systick_get_current s =
     (if \<not> bit (st_csr s) 0 \<or> st_rvr s = 0 then st_cvr s
      else
        let elapsed = max 0 (cpu_cycles s - st_last_cycle s);
            reload = st_rvr s AND 0xFFFFFF;
            ticks = (of_int (elapsed mod (uint reload + 1)) :: u32)
        in if ticks > st_cvr s then reload - (ticks - st_cvr s) + 1 else st_cvr s - ticks)"

definition systick_read :: "u32 \<Rightarrow> 'a arm_systick_scheme \<Rightarrow> u32 \<times> 'a arm_systick_scheme" where
  "systick_read addr s =
     (let offset = addr - 0xE000E010 in
      if offset = 0 then (st_csr s, s\<lparr>st_csr := st_csr s AND NOT 0x10000\<rparr>)
      else if offset = 4 then (st_rvr s AND 0xFFFFFF, s)
      else if offset = 8 then (systick_get_current s, s)
      else if offset = 12 then (0x00010000, s)
      else (0, s))"

definition systick_write :: "u32 \<Rightarrow> u32 \<Rightarrow> 'a arm_systick_scheme \<Rightarrow> 'a arm_systick_scheme" where
  "systick_write addr val s =
     (let offset = addr - 0xE000E010 in
      if offset = 0 then
        (let s = s\<lparr>st_csr := val AND 7\<rparr> in
         if st_running s
         then schedule_tick (s\<lparr>st_last_cycle := cpu_cycles s, st_cvr := st_rvr s AND 0xFFFFFF\<rparr>)
         else cancel_event (tick_event s) s)
      else if offset = 4 then s\<lparr>st_rvr := val AND 0xFFFFFF\<rparr>
      else if offset = 8 then s\<lparr>st_cvr := 0, st_csr := st_csr s AND NOT 0x10000, st_last_cycle := cpu_cycles s\<rparr>
      else s)"

definition arm_systick_reset :: "'a arm_systick_scheme \<Rightarrow> 'a arm_systick_scheme" where
  "arm_systick_reset s =
     (cancel_event (tick_event s) s)\<lparr>st_csr := 0, st_rvr := 0, st_cvr := 0, st_last_cycle := 0\<rparr>"

definition arm_systick_update :: "'a arm_systick_scheme \<Rightarrow> 'a arm_systick_scheme" where
  "arm_systick_update s = (if st_running s then schedule_tick s else s)"

text \<open>The registers and the event of a fresh timer are zero; \<open>ev\<close> names its tick event, \<open>handler\<close> its register callbacks.\<close>

definition arm_systick_init :: "nat \<Rightarrow> nat \<Rightarrow> 'a arm_systick_scheme \<Rightarrow> 'a arm_systick_scheme" where
  "arm_systick_init handler ev s =
     arm_register_io 0xE000E010 0x10 handler
       (s\<lparr>st_csr := 0, st_rvr := 0, st_cvr := 0, st_last_cycle := 0, tick_event := ev\<rparr>)"

definition arm_systick_get_fire_count :: "'a arm_systick_scheme \<Rightarrow> int" where
  "arm_systick_get_fire_count s = systick_fire_count s"

definition arm_systick_reset_fire_count :: "'a arm_systick_scheme \<Rightarrow> 'a arm_systick_scheme" where
  "arm_systick_reset_fire_count s = s\<lparr>systick_fire_count := 0\<rparr>"

end
