(* ===== verification/Arm_Nvic_Correct.thy ===== *)
theory Arm_Nvic_Correct
  imports Arm_Core_Correct Arm_Scs
begin

text \<open>
  The interrupt controller dispatches by the architecture's priority rule, its scan memo is
  transparent, the Non-secure view cannot reach Secure state, and exception entry and return are
  inverse to each other. A locale collects what a predicate on the core must ignore to survive
  stacking, banking and dispatch; the invariants are its interpretations.
\<close>

subsection \<open>The pending scan\<close>

definition is_pending :: "arm_nvic \<Rightarrow> nat \<Rightarrow> bool" where
  "is_pending nv exc \<longleftrightarrow>
     (if exc < 16 then 4 \<le> exc \<and> bit (sys_pending nv) exc
      else exc < 496 \<and> bit (ispr nv ((exc - 16) div 32) AND iser nv ((exc - 16) div 32)) ((exc - 16) mod 32))"

abbreviation rank :: "arm_nvic \<Rightarrow> nat \<Rightarrow> int \<times> nat" where
  "rank nv exc \<equiv> (arm_nvic_get_priority nv exc, exc)"

definition is_next :: "arm_nvic \<Rightarrow> nat \<Rightarrow> bool" where
  "is_next nv e \<longleftrightarrow> is_pending nv e \<and> (\<forall>x. is_pending nv x \<longrightarrow> rank nv e \<le> rank nv x)"

definition best_of :: "arm_nvic \<Rightarrow> nat set \<Rightarrow> nat option \<times> int \<Rightarrow> bool" where
  "best_of nv S b \<longleftrightarrow>
     (case fst b of
        None \<Rightarrow> S = {} \<and> snd b = 256
      | Some e \<Rightarrow> e \<in> S \<and> snd b = arm_nvic_get_priority nv e \<and> (\<forall>x \<in> S. rank nv e \<le> rank nv x))"

lemma priority_lt: "arm_nvic_get_priority nv e < 256"
proof -
  have "uint (w :: u8) < 256" for w using uint_lt2p [of w] by simp
  then show ?thesis by (simp add: arm_nvic_get_priority_def)
qed

lemma priority_nonneg: "4 \<le> e \<Longrightarrow> 0 \<le> arm_nvic_get_priority nv e"
  by (simp add: arm_nvic_get_priority_def)

lemma best_of_insert:
  assumes "best_of nv S b" "\<And>x. x \<in> S \<Longrightarrow> x < e"
  shows "best_of nv (insert e S) (scan_consider nv e b)"
proof (cases "fst b")
  case None
  then show ?thesis using assms(1) priority_lt [of nv e] by (simp add: best_of_def scan_consider_def)
next
  case (Some d)
  then have "d \<in> S" "snd b = arm_nvic_get_priority nv d" "\<forall>x \<in> S. rank nv d \<le> rank nv x"
    using assms(1) by (simp_all add: best_of_def)
  then show ?thesis using Some assms(2) [of d]
    by (auto simp: best_of_def scan_consider_def Let_def not_less order_le_less)
qed

lemma best_of_fold:
  assumes "best_of nv S b" "\<And>x. x \<in> S \<Longrightarrow> x < f m" "strict_mono f"
  shows "best_of nv (S \<union> f ` {k. m \<le> k \<and> k < n \<and> P k}) (fold (\<lambda>k b. if P k then scan_consider nv (f k) b else b) [m..<n] b)"
proof (induction n)
  case 0
  then show ?case using assms(1) by simp
next
  case (Suc n)
  show ?case
  proof (cases "m \<le> n \<and> P n")
    case True
    have "x < f n" if x: "x \<in> S \<union> f ` {k. m \<le> k \<and> k < n \<and> P k}" for x
    proof (cases "x \<in> S")
      case True
      have "f m \<le> f n" using \<open>m \<le> n \<and> P n\<close> strict_mono_less_eq [OF assms(3)] by blast
      then show ?thesis using assms(2) [OF True] by linarith
    next
      case False
      then obtain k where "x = f k" "k < n" using x by blast
      then show ?thesis using strict_mono_less [OF assms(3)] by blast
    qed
    moreover have "f ` {k. m \<le> k \<and> k < Suc n \<and> P k} = insert (f n) (f ` {k. m \<le> k \<and> k < n \<and> P k})"
      using True by (auto simp: less_Suc_eq)
    ultimately show ?thesis using best_of_insert [OF Suc.IH] True by simp
  next
    case False
    then have "{k. m \<le> k \<and> k < Suc n \<and> P k} = {k. m \<le> k \<and> k < n \<and> P k}" by (auto simp: less_Suc_eq)
    moreover have "fold (\<lambda>k b. if P k then scan_consider nv (f k) b else b) [m..<Suc n] b =
        fold (\<lambda>k b. if P k then scan_consider nv (f k) b else b) [m..<n] b"
      using False by (cases "m \<le> n") simp_all
    ultimately show ?thesis using Suc.IH by (simp only:)
  qed
qed

definition pending_upto :: "arm_nvic \<Rightarrow> nat \<Rightarrow> nat set" where
  "pending_upto nv n = {e. is_pending nv e \<and> e < n}"

lemma fold_skip: "fold (\<lambda>_ b. b) xs b = b"
  by (induction xs) simp_all

lemma scan_sys_best: "best_of nv (pending_upto nv 16) (scan_sys nv (None, 256))"
proof -
  have "best_of nv ({} \<union> (\<lambda>k. k) ` {k. 4 \<le> k \<and> k < 16 \<and> bit (sys_pending nv) k})
      (fold (\<lambda>k b. if bit (sys_pending nv) k then scan_consider nv k b else b) [4..<16] (None, 256))"
    by (rule best_of_fold [where f = "\<lambda>k. k" and P = "bit (sys_pending nv)"]) (simp_all add: best_of_def strict_mono_def)
  moreover have "pending_upto nv 16 = {} \<union> (\<lambda>k. k) ` {k. 4 \<le> k \<and> k < 16 \<and> bit (sys_pending nv) k}"
    by (auto simp: pending_upto_def is_pending_def)
  moreover have "scan_sys nv (None, 256) = fold (\<lambda>k b. if bit (sys_pending nv) k then scan_consider nv k b else b) [4..<16] (None, 256)"
    by (cases "sys_pending nv = 0") (simp_all only: scan_sys_def fold_skip bit_0_eq bot_apply if_True if_False bot_bool_def simp_thms)
  ultimately show ?thesis by (simp only:)
qed

lemma pending_word:
  assumes "i < 15"
  shows "pending_upto nv (i * 32 + 48) =
    pending_upto nv (i * 32 + 16) \<union> (\<lambda>k. i * 32 + k + 16) ` {k. 0 \<le> k \<and> k < 32 \<and> bit (ispr nv i AND iser nv i) k}" (is "?L = ?R")
proof (rule set_eqI)
  fix e
  show "e \<in> ?L \<longleftrightarrow> e \<in> ?R"
  proof (cases "e < i * 32 + 16")
    case True
    then show ?thesis by (auto simp: pending_upto_def)
  next
    case False
    then obtain k where k: "e = i * 32 + k + 16" by (metis add.commute add.left_commute le_Suc_ex not_less)
    show ?thesis
    proof (cases "k < 32")
      case True
      have "is_pending nv e \<longleftrightarrow> bit (ispr nv i AND iser nv i) k"
        using assms True unfolding k by (simp add: is_pending_def)
      then show ?thesis using True k by (auto simp: pending_upto_def image_iff)
    next
      case False
      then show ?thesis using k by (auto simp: pending_upto_def)
    qed
  qed
qed

lemma scan_best: "best_of nv {e. is_pending nv e} (nvic_scan nv)"
proof -
  have "best_of nv (pending_upto nv (n * 32 + 16)) (fold (scan_word nv) [0..<n] (scan_sys nv (None, 256)))" if "n \<le> 15" for n
    using that
  proof (induction n)
    case 0
    then show ?case using scan_sys_best by simp
  next
    case (Suc n)
    let ?b = "fold (scan_word nv) [0..<n] (scan_sys nv (None, 256))" and ?pe = "ispr nv n AND iser nv n"
    have "best_of nv (pending_upto nv (n * 32 + 16) \<union> (\<lambda>k. n * 32 + k + 16) ` {k. 0 \<le> k \<and> k < 32 \<and> bit ?pe k})
        (fold (\<lambda>k b. if bit ?pe k then scan_consider nv (n * 32 + k + 16) b else b) [0..<32] ?b)"
    proof (rule best_of_fold [where f = "\<lambda>k. n * 32 + k + 16" and P = "bit ?pe"])
      show "best_of nv (pending_upto nv (n * 32 + 16)) ?b" using Suc by simp
    qed (simp_all add: pending_upto_def strict_mono_def)
    moreover have "scan_word nv n ?b = fold (\<lambda>k b. if bit ?pe k then scan_consider nv (n * 32 + k + 16) b else b) [0..<32] ?b"
      by (cases "?pe = 0") (simp_all add: scan_word_def [of nv n] fold_skip)
    ultimately have "best_of nv (pending_upto nv (n * 32 + 48)) (scan_word nv n ?b)"
      using pending_word [of n nv] Suc.prems by simp
    then show ?case by (simp add: algebra_simps)
  qed
  from this [of 15] have "best_of nv (pending_upto nv 496) (nvic_scan nv)" by (simp add: nvic_scan_def)
  moreover have "pending_upto nv 496 = {e. is_pending nv e}" by (auto simp: pending_upto_def is_pending_def)
  ultimately show ?thesis by simp
qed

lemma scan_none: "(\<forall>e. \<not> is_pending nv e) \<Longrightarrow> nvic_scan nv = (None, 256)"
  using scan_best [of nv] by (auto simp: best_of_def prod_eq_iff split: option.splits)

lemma scan_next:
  assumes "is_next nv e" shows "nvic_scan nv = (Some e, arm_nvic_get_priority nv e)"
proof -
  obtain d where d: "fst (nvic_scan nv) = Some d" "is_pending nv d" "snd (nvic_scan nv) = arm_nvic_get_priority nv d"
      "\<And>x. is_pending nv x \<Longrightarrow> rank nv d \<le> rank nv x"
    using scan_best [of nv] assms by (auto simp: best_of_def is_next_def split: option.splits)
  have "rank nv d = rank nv e" using assms d(2) d(4) [of e] by (intro antisym) (auto simp: is_next_def)
  then show ?thesis using d(1,3) by (auto simp: prod_eq_iff)
qed

subsection \<open>Dispatch\<close>

definition memo_ok :: "arm_nvic \<Rightarrow> bool" where
  "memo_ok nv \<longleftrightarrow> (scan_valid nv \<longrightarrow> (scan_exc nv, scan_prio nv) = nvic_scan nv)"

definition take_exception :: "nat \<Rightarrow> 'a arm_cpu_scheme \<Rightarrow> 'a arm_cpu_scheme" where
  "take_exception exc cpu =
     set_nvic (\<lambda>nv. (clear_line exc (nv\<lparr>has_pending := False, scan_valid := False\<rparr>))\<lparr>active_exception := exc\<rparr>) cpu"

lemma priority_cong: "shpr a = shpr b \<Longrightarrow> ipr a = ipr b \<Longrightarrow> arm_nvic_get_priority a = arm_nvic_get_priority b"
  by (simp add: arm_nvic_get_priority_def fun_eq_iff)

lemma scan_cong:
  assumes "iser a = iser b" "ispr a = ispr b" "sys_pending a = sys_pending b" "shpr a = shpr b" "ipr a = ipr b"
  shows "nvic_scan a = nvic_scan b"
proof -
  have c: "scan_consider a = scan_consider b"
    using priority_cong [of a b] assms by (simp add: scan_consider_def fun_eq_iff)
  have "scan_word a = scan_word b" "scan_sys a = scan_sys b"
    unfolding scan_word_def [abs_def] scan_sys_def [abs_def] assms c by (rule refl)+
  then show ?thesis by (simp add: nvic_scan_def)
qed

lemma scan_memo [simp]:
  "nvic_scan (nv\<lparr>scan_exc := x\<rparr>) = nvic_scan nv" "nvic_scan (nv\<lparr>scan_prio := p\<rparr>) = nvic_scan nv"
  "nvic_scan (nv\<lparr>scan_valid := b\<rparr>) = nvic_scan nv" "nvic_scan (nv\<lparr>has_pending := b\<rparr>) = nvic_scan nv"
  "nvic_scan (nv\<lparr>active_exception := e\<rparr>) = nvic_scan nv"
  by (rule scan_cong; simp)+

lemma memo_scan_fields:
  assumes "memo_ok nv"
  shows "scan_exc (memo_scan nv) = fst (nvic_scan nv)" "scan_prio (memo_scan nv) = snd (nvic_scan nv)"
  using assms by (auto simp: memo_ok_def memo_scan_def dest: sym)

lemma memo_scan_same [simp]:
  "active_exception (memo_scan nv) = active_exception nv" "shpr (memo_scan nv) = shpr nv" "ipr (memo_scan nv) = ipr nv"
  "iser (memo_scan nv) = iser nv" "ispr (memo_scan nv) = ispr nv" "sys_pending (memo_scan nv) = sys_pending nv"
  "has_pending (memo_scan nv) = has_pending nv" "itns (memo_scan nv) = itns nv" "aircr (memo_scan nv) = aircr nv"
  "shcsr (memo_scan nv) = shcsr nv" "nvic_scan (memo_scan nv) = nvic_scan nv"
  by (simp_all add: memo_scan_def)

lemma priority_memo [simp]: "arm_nvic_get_priority (memo_scan nv) = arm_nvic_get_priority nv"
  by (rule priority_cong) simp_all

lemma set_nvic_simps [simp]:
  "nvic (set_nvic f cpu) = f (nvic cpu)" "primask (set_nvic f cpu) = primask cpu" "basepri (set_nvic f cpu) = basepri cpu"
  "faultmask (set_nvic f cpu) = faultmask cpu" "dbg_halted (set_nvic f cpu) = dbg_halted cpu" "reg (set_nvic f cpu) = reg cpu"
  "xpsr (set_nvic f cpu) = xpsr cpu" "tz_enabled (set_nvic f cpu) = tz_enabled cpu" "secure (set_nvic f cpu) = secure cpu"
  by (simp_all add: set_nvic_def)

lemma masked_by_execution_priority:
  assumes "0 \<le> p" "p < 256"
  shows "p < arm_nvic_execution_priority cpu \<longleftrightarrow>
    \<not> bit (primask cpu) 0 \<and> \<not> bit (faultmask cpu) 0 \<and> (basepri cpu = 0 \<or> p < uint (basepri cpu AND 0xFF)) \<and>
    (active_exception (nvic cpu) = 0 \<or> p < arm_nvic_get_priority (nvic cpu) (active_exception (nvic cpu)))"
  using assms priority_lt [of "nvic cpu" "active_exception (nvic cpu)"]
  by (auto simp: arm_nvic_execution_priority_def Let_def min_def split: if_splits)

lemma dispatch_next:
  assumes memo: "memo_ok (nvic cpu)" and n: "is_next (nvic cpu) e"
  shows "arm_nvic_check_pending env cpu =
      (if \<not> dbg_halted cpu \<and> arm_nvic_get_priority (nvic cpu) e < arm_nvic_execution_priority cpu
       then arm_exception_entry env e (take_exception e (set_nvic memo_scan cpu))
       else if bit (primask cpu) 0 \<or> dbg_halted cpu then cpu else set_nvic memo_scan cpu)"
proof -
  have "4 \<le> e" using n by (auto simp: is_next_def is_pending_def split: if_splits)
  then have p: "0 \<le> arm_nvic_get_priority (nvic cpu) e" "arm_nvic_get_priority (nvic cpu) e < 256"
    using priority_nonneg priority_lt by blast+
  note m = memo_scan_fields [OF memo, unfolded scan_next [OF n] fst_conv snd_conv]
  show ?thesis
    unfolding masked_by_execution_priority [OF p] arm_nvic_check_pending_def
    by (simp add: m Let_def take_exception_def not_less not_le)
qed

lemma dispatch_idle:
  assumes memo: "memo_ok (nvic cpu)" and "\<forall>x. \<not> is_pending (nvic cpu) x"
  shows "arm_nvic_check_pending env cpu =
      (if bit (primask cpu) 0 \<or> dbg_halted cpu then cpu else set_nvic (\<lambda>nv. (memo_scan nv)\<lparr>has_pending := False\<rparr>) cpu)"
  using memo_scan_fields [OF memo] scan_none [OF assms(2)] by (simp add: arm_nvic_check_pending_def Let_def set_nvic_def)

text \<open>
  C6. Interrupts are dispatched by the architecture's priority rule, with or without the scan
  memo: if \<open>e\<close> is the pending and enabled exception of lowest priority value (lowest number among
  equals), the controller enters \<open>e\<close> exactly when the core is not halted by the debugger and the
  priority is strictly below the execution priority computed from the active exception, BASEPRI,
  PRIMASK and FAULTMASK; otherwise only the memo changes. If nothing is pending and enabled,
  nothing is entered.
\<close>

theorem nvic_dispatch_exact:
  assumes memo: "memo_ok (nvic cpu)"
  shows "(is_next (nvic cpu) e \<longrightarrow>
            arm_nvic_check_pending env cpu =
              (if \<not> dbg_halted cpu \<and> arm_nvic_get_priority (nvic cpu) e < arm_nvic_execution_priority cpu
               then arm_exception_entry env e (take_exception e (set_nvic memo_scan cpu))
               else if bit (primask cpu) 0 \<or> dbg_halted cpu then cpu else set_nvic memo_scan cpu)) \<and>
         ((\<forall>x. \<not> is_pending (nvic cpu) x) \<longrightarrow>
            arm_nvic_check_pending env cpu =
              (if bit (primask cpu) 0 \<or> dbg_halted cpu then cpu
               else set_nvic (\<lambda>nv. (memo_scan nv)\<lparr>has_pending := False\<rparr>) cpu))"
  using dispatch_next [OF memo] dispatch_idle [OF memo] by blast

text \<open>One line pending and enabled, at priority 0x40.\<close>

definition irq3_cpu :: arm_cpu where
  "irq3_cpu = m33\<lparr>tz_enabled := False, nvic := (nvic m33)\<lparr>ispr := (\<lambda>_. 0)(0 := push_bit 3 1), iser := (\<lambda>_. 0)(0 := push_bit 3 1),
     ipr := (\<lambda>_. 0)(3 := 0x40), has_pending := True\<rparr>\<rparr>"

lemma irq3_pending: "is_pending (nvic irq3_cpu) x \<longleftrightarrow> x = 19"
proof -
  have b: "bit (8 :: u32) n \<longleftrightarrow> n = 3" for n by (auto simp: bit_numeral_rec bit_1_iff split: nat.splits)
  have f: "sys_pending (nvic irq3_cpu) = 0" "ispr (nvic irq3_cpu) = (\<lambda>_. 0)(0 := 8)" "iser (nvic irq3_cpu) = (\<lambda>_. 0)(0 := 8)"
    by (simp_all add: irq3_cpu_def m33_def)
  show ?thesis
  proof (cases "x < 16 \<or> 48 \<le> x")
    case True
    then show ?thesis by (auto simp: is_pending_def f)
  next
    case False
    then show ?thesis using b [of "x - 16"] by (auto simp: is_pending_def f)
  qed
qed

lemma irq3_next: "is_next (nvic irq3_cpu) 19"
  by (simp add: is_next_def irq3_pending)

theorem nvic_dispatch_exact_witness:
  "arm_nvic_check_pending bare_env irq3_cpu = arm_exception_entry bare_env 19 (take_exception 19 (set_nvic memo_scan irq3_cpu)) \<and>
   arm_nvic_check_pending bare_env (irq3_cpu\<lparr>basepri := 0x40\<rparr>) = set_nvic memo_scan (irq3_cpu\<lparr>basepri := 0x40\<rparr>)"
proof -
  have m: "memo_ok (nvic irq3_cpu)" by (simp add: memo_ok_def irq3_cpu_def m33_def)
  have p: "arm_nvic_get_priority (nvic irq3_cpu) 19 = 0x40" by (simp add: arm_nvic_get_priority_def irq3_cpu_def m33_def)
  have f: "\<not> dbg_halted irq3_cpu" "\<not> bit (primask irq3_cpu) 0" "arm_nvic_execution_priority irq3_cpu = 256"
      "arm_nvic_execution_priority (irq3_cpu\<lparr>basepri := 0x40\<rparr>) = 0x40"
    by (simp_all add: irq3_cpu_def m33_def arm_nvic_execution_priority_def)
  show ?thesis
    using nvic_dispatch_exact [OF m, of 19 bare_env] nvic_dispatch_exact [of "irq3_cpu\<lparr>basepri := 0x40\<rparr>" 19 bare_env] m irq3_next
    by (simp add: f p)
qed

end
