(* ===== verification/Arm_Frame.thy ===== *)
theory Arm_Frame
  imports Arm_Nvic_Correct
begin

text \<open>
  What survives stacking, security banking and interrupt dispatch. The locales list the fields a
  predicate on the core must ignore; they are interpreted for the scan memo and for the Secure
  configuration, which gives the invariant of the interrupt controller and the isolation of the
  Non-secure register view.
\<close>

subsection \<open>Frames\<close>

definition env_keeps :: "('s \<Rightarrow> bool) \<Rightarrow> 's arm_env \<Rightarrow> bool" where
  "env_keeps P env \<longleftrightarrow>
     (\<forall>h a c. P c \<longrightarrow> P (snd (io_read env h a c))) \<and> (\<forall>h a v c. P c \<longrightarrow> P (io_write env h a v c)) \<and>
     (\<forall>chk a w c. io_access_check env = Some chk \<longrightarrow> P c \<longrightarrow> P (snd (chk a w c)))"

locale core_frame =
  fixes P :: "'a arm_cpu_scheme \<Rightarrow> bool"
  assumes f_mem [simp]: "P (c\<lparr>sram := m\<rparr>) = P c" "P (c\<lparr>io_blocked := b\<rparr>) = P c" "P (c\<lparr>io_txn_ns := b\<rparr>) = P c"
    and f_bus [simp]: "P (c\<lparr>bus_fault_addr := x\<rparr>) = P c" "P (c\<lparr>bus_fault_pending := b\<rparr>) = P c"
    and f_snap [simp]: "P (c\<lparr>snap_reg := r\<rparr>) = P c" "P (c\<lparr>snap_xpsr := x\<rparr>) = P c" "P (c\<lparr>snap_it_state := i\<rparr>) = P c"
      "P (c\<lparr>insn_snap_valid := b\<rparr>) = P c"
begin

lemma snapshot_keeps: "P (arm_insn_snapshot c) = P c"
  by (simp add: arm_insn_snapshot_def arm_insn_snapshot_slow_def)

lemma lookup_keeps: "env_keeps P env \<Longrightarrow> P c \<Longrightarrow> P (snd (io_lookup env a w c))"
  by (auto simp: io_lookup_def env_keeps_def refuse_io_def Let_def snapshot_keeps split: option.splits prod.splits)
     (metis f_mem(2,3) snd_conv)+

lemma io_read_keeps: "env_keeps P env \<Longrightarrow> P c \<Longrightarrow> P (snd (io_read_at env a c))"
  using lookup_keeps [of env c a False]
  by (auto simp: io_read_at_def env_keeps_def split: option.splits prod.splits)

lemma io_write_keeps: "env_keeps P env \<Longrightarrow> P c \<Longrightarrow> P (io_write_at env a v c)"
  using lookup_keeps [of env c a True]
  by (auto simp: io_write_at_def env_keeps_def split: option.splits prod.splits)

lemma read_keeps: "env_keeps P env \<Longrightarrow> P c \<Longrightarrow> P (snd (arm_read32 env a c))"
  using io_read_keeps [of env c]
  by (auto simp: arm_read32_def read32_direct_def Let_def split: prod.splits) (metis snd_conv)+

lemma write_keeps: "env_keeps P env \<Longrightarrow> P c \<Longrightarrow> P (arm_write32 env a v c)"
  using io_read_keeps [of env c] io_write_keeps [of env]
  by (auto simp: arm_write32_def write32_direct_def read32_direct_def Let_def split: prod.splits if_splits) (metis snd_conv)+

lemma write_words_keeps: "env_keeps P env \<Longrightarrow> P c \<Longrightarrow> P (write_words env a ws c)"
  by (induction ws arbitrary: a c) (simp_all add: write_keeps)

lemma read_words_keeps: "env_keeps P env \<Longrightarrow> P c \<Longrightarrow> P (snd (read_words env a n c))"
  by (induction n arbitrary: a c) (auto simp: Let_def split: prod.splits, metis read_keeps snd_conv)

end

locale exception_frame = core_frame +
  assumes f_regs [simp]: "P (c\<lparr>reg := r\<rparr>) = P c" "P (c\<lparr>xpsr := x\<rparr>) = P c" "P (c\<lparr>it_state := i\<rparr>) = P c"
      "P (c\<lparr>msp := x\<rparr>) = P c" "P (c\<lparr>psp := x\<rparr>) = P c" "P (c\<lparr>use_psp := b\<rparr>) = P c"
    and f_masks [simp]: "P (c\<lparr>primask := x\<rparr>) = P c" "P (c\<lparr>basepri := x\<rparr>) = P c" "P (c\<lparr>faultmask := x\<rparr>) = P c"
    and f_banks [simp]: "P (c\<lparr>msp_s := x\<rparr>) = P c" "P (c\<lparr>msp_ns := x\<rparr>) = P c" "P (c\<lparr>psp_s := x\<rparr>) = P c" "P (c\<lparr>psp_ns := x\<rparr>) = P c"
      "P (c\<lparr>control_s := x\<rparr>) = P c" "P (c\<lparr>control_ns := x\<rparr>) = P c" "P (c\<lparr>primask_s := x\<rparr>) = P c" "P (c\<lparr>primask_ns := x\<rparr>) = P c"
      "P (c\<lparr>basepri_s := x\<rparr>) = P c" "P (c\<lparr>basepri_ns := x\<rparr>) = P c" "P (c\<lparr>faultmask_s := x\<rparr>) = P c" "P (c\<lparr>faultmask_ns := x\<rparr>) = P c"
    and f_state [simp]: "P (c\<lparr>secure := b\<rparr>) = P c" "P (c\<lparr>fetch_ok_len := x\<rparr>) = P c" "P (c\<lparr>tz_secexc_count := k\<rparr>) = P c"
      "P (c\<lparr>cpu_off := b\<rparr>) = P c" "P (c\<lparr>cpu_cycles := t\<rparr>) = P c"
    and f_count [simp]: "P (c\<lparr>exc_entry_count := n\<rparr>) = P c" "P (c\<lparr>last_fault_exc := e\<rparr>) = P c"
      "P (c\<lparr>last_fault_pc := x\<rparr>) = P c" "P (c\<lparr>last_fault_bg_secure := b\<rparr>) = P c"
begin

lemma set_reg_keeps [simp]: "P (set_reg i v c) = P c"
  by (simp add: set_reg_def)

lemma save_bank_keeps [simp]: "P (arm_tz_save_sp_bank sec c) = P c"
  by (simp add: arm_tz_save_sp_bank_def Let_def)

lemma load_bank_keeps [simp]: "P (arm_tz_load_sp_bank sec c) = P c"
  by (simp add: arm_tz_load_sp_bank_def Let_def)

lemma switch_keeps [simp]: "P (arm_switch_security_state sec c) = P c"
  by (simp add: arm_switch_security_state_def Let_def)

lemma count_keeps [simp]: "P (count_entry e c) = P c"
  by (simp add: count_entry_def Let_def)

lemma stack_frame_keeps: "env_keeps P env \<Longrightarrow> P c \<Longrightarrow> P (stack_frame env e b t c)"
  by (simp add: stack_frame_def Let_def write_words_keeps)

lemma entry_keeps:
  assumes "env_keeps P env" "P c" shows "P (arm_exception_entry env e c)"
proof -
  let ?c = "stack_frame env e (secure (count_entry e c)) (exc_target_secure e (count_entry e c)) (count_entry e c)"
  have "P ?c" using assms by (simp add: stack_frame_keeps)
  then show ?thesis using read_keeps [OF assms(1)]
    by (auto simp: arm_exception_entry_def Let_def split: prod.splits if_splits) (metis f_state(3) snd_conv switch_keeps)+
qed

lemma load_frame_keeps [simp]: "P (load_frame ws c) = P c"
  by (simp add: load_frame_def Let_def)

end

locale dispatch_frame = exception_frame +
  assumes memo_keeps: "P c \<Longrightarrow> P (set_nvic memo_scan c)"
    and idle_keeps: "P c \<Longrightarrow> P (set_nvic (\<lambda>nv. nv\<lparr>has_pending := False\<rparr>) c)"
    and take_keeps: "P c \<Longrightarrow> P (take_exception e c)"
    and active_keeps: "P c \<Longrightarrow> P (set_nvic (\<lambda>nv. nv\<lparr>active_exception := e\<rparr>) c)"
begin

lemma check_keeps:
  assumes "env_keeps P env" "P c" shows "P (arm_nvic_check_pending env c)"
  using assms(2) memo_keeps [OF assms(2)] idle_keeps [OF memo_keeps [OF assms(2)]]
    entry_keeps [OF assms(1) take_keeps [OF memo_keeps [OF assms(2)]]]
  by (auto simp: arm_nvic_check_pending_def take_exception_def Let_def split: option.splits)

lemma recheck_keeps: "env_keeps P env \<Longrightarrow> P c \<Longrightarrow> P (recheck env c)"
  by (simp add: recheck_def check_keeps)

lemma unstack_keeps:
  assumes env: "env_keeps P env" and c: "P c" shows "P (unstack_frame env er c)"
proof -
  define sp where "sp = (if bit er 2 then psp c else reg c ARM_SP)"
  obtain ws c2 where c2: "read_words env sp 8 (c\<lparr>msp := reg c ARM_SP\<rparr>) = (ws, c2)" by (cases "read_words env sp 8 (c\<lparr>msp := reg c ARM_SP\<rparr>)")
  then have "P c2" using read_words_keeps [OF env, of "c\<lparr>msp := reg c ARM_SP\<rparr>" sp 8] c by simp
  then show ?thesis
    unfolding unstack_frame_def Let_def using c2 by (auto simp: sp_def split: prod.splits)
qed

lemma return_keeps: "env_keeps P env \<Longrightarrow> P c \<Longrightarrow> P (exception_return env er c)"
  by (simp add: exception_return_def Let_def active_keeps check_keeps unstack_keeps)

end

subsection \<open>The scan memo\<close>

interpretation memo: dispatch_frame "\<lambda>c. memo_ok (nvic c)"
proof unfold_locales
  fix c :: "'a arm_cpu_scheme" and e
  show "memo_ok (nvic c) \<Longrightarrow> memo_ok (nvic (set_nvic memo_scan c))"
    by (auto simp: memo_ok_def memo_scan_def)
  show "memo_ok (nvic c) \<Longrightarrow> memo_ok (nvic (set_nvic (\<lambda>nv. nv\<lparr>has_pending := False\<rparr>) c))"
    "memo_ok (nvic c) \<Longrightarrow> memo_ok (nvic (set_nvic (\<lambda>nv. nv\<lparr>active_exception := e\<rparr>) c))"
    by (simp_all add: memo_ok_def)
  show "memo_ok (nvic c) \<Longrightarrow> memo_ok (nvic (take_exception e c))"
    by (simp add: memo_ok_def take_exception_def clear_line_def)
qed simp_all

lemma memo_invalid: "\<not> scan_valid nv \<Longrightarrow> memo_ok nv"
  by (simp add: memo_ok_def)

lemma memo_sys_set: "env_keeps (\<lambda>c. memo_ok (nvic c)) env \<Longrightarrow> memo_ok (nvic (sys_set env e c))"
  unfolding sys_set_def by (rule memo.check_keeps) (simp_all add: memo_ok_def mark_pending_def)

lemma memo_icsr:
  assumes "env_keeps (\<lambda>c. memo_ok (nvic c)) env" "memo_ok (nvic c)" shows "memo_ok (nvic (write_icsr env v c))"
  using assms memo_sys_set [OF assms(1)]
  by (simp add: write_icsr_def Let_def sys_clear_def memo_ok_def [of "_\<lparr>sys_pending := _, scan_valid := _\<rparr>"])

lemma memo_scb:
  assumes "env_keeps (\<lambda>c. memo_ok (nvic c)) env" "memo_ok (nvic c)" shows "memo_ok (nvic (write_scb env ns off v c))"
proof -
  have "nvic_scan (nv\<lparr>scb_vtor := x\<rparr>) = nvic_scan nv" "nvic_scan (nv\<lparr>scr := x\<rparr>) = nvic_scan nv" "nvic_scan (nv\<lparr>ccr := x\<rparr>) = nvic_scan nv"
    "nvic_scan (nv\<lparr>shcsr := x\<rparr>) = nvic_scan nv" "nvic_scan (nv\<lparr>aircr := x\<rparr>) = nvic_scan nv" for nv x
    by (rule scan_cong; simp)+
  then show ?thesis using assms(2) memo_icsr [OF assms]
    by (auto simp: write_scb_def Let_def write_aircr_def write_sau_def memo_ok_def)
qed

text \<open>
  C19. The scan memo never goes stale: whatever register is written with whatever value, whatever
  line is set or cleared, and whatever exception returns, the memoised winner, when marked valid,
  is the one a full scan would find, provided the peripherals behind the core's bus accesses
  leave it so. Reset establishes it.
\<close>

theorem nvic_memo_invariant:
  assumes "env_keeps (\<lambda>c. memo_ok (nvic c)) env" "memo_ok (nvic c)"
  shows "memo_ok (nvic (nvic_write env addr v c)) \<and> memo_ok (nvic (arm_nvic_set_pending env irq c)) \<and>
         memo_ok (nvic (arm_nvic_set_pending_deferred irq c)) \<and> memo_ok (nvic (arm_nvic_clear_pending irq c)) \<and>
         memo_ok (nvic (arm_nvic_check_pending env c)) \<and> memo_ok (nvic (exception_return env er c)) \<and>
         memo_ok (nvic (recheck env c)) \<and> memo_ok (nvic (arm_nvic_reset c))"
proof -
  note check = memo.check_keeps [OF assms(1)]
  have d: "memo_ok (nvic (arm_nvic_set_pending_deferred irq c))"
    using assms(2) by (simp add: arm_nvic_set_pending_deferred_def mark_pending_def Let_def memo_invalid)
  have "memo_ok (nvic (nvic_write env addr v c))"
    using assms(2) memo_scb [OF assms]
    by (auto simp: nvic_write_def Let_def write_ipr_def write_shpr_def mark_pending_def memo_invalid intro!: check)
  moreover have "memo_ok (nvic (arm_nvic_clear_pending irq c))" "memo_ok (nvic (arm_nvic_reset c))"
    using assms(2) by (simp_all add: arm_nvic_clear_pending_def arm_nvic_reset_def Let_def memo_invalid)
  ultimately show ?thesis
    using d check assms(2) memo.return_keeps [OF assms] memo.recheck_keeps [OF assms]
    by (simp add: arm_nvic_set_pending_def)
qed

subsection \<open>Isolation of the Non-secure view\<close>

record secure_config =
  sc_itns :: "nat \<Rightarrow> u32"
  sc_lines :: "nat \<Rightarrow> bool \<times> bool \<times> u8"
  sc_aircr :: u32
  sc_shcsr :: u32
  sc_shpr :: "nat \<Rightarrow> u8"
  sc_faults :: "u32 \<times> u32 \<times> u32"
  sc_sau :: "u32 \<times> u32 \<times> (nat \<Rightarrow> u32) \<times> (nat \<Rightarrow> u32) \<times> u32 \<times> u32"
  sc_vtor_s :: u32

definition iser_bit :: "arm_nvic \<Rightarrow> nat \<Rightarrow> bool" where
  "iser_bit nv irq = bit (iser nv (irq div 32)) (irq mod 32)"

definition iabr_bit :: "arm_nvic \<Rightarrow> nat \<Rightarrow> bool" where
  "iabr_bit nv irq = bit (iabr nv (irq div 32)) (irq mod 32)"

text \<open>
  What belongs to the Secure world: the enables, active bits and priorities of the lines that target
  it included. Their pending bits, which an exception entry clears, are treated separately below.
\<close>

definition secure_config_of :: "'a arm_cpu_scheme \<Rightarrow> secure_config" where
  "secure_config_of c =
     (let nv = nvic c; bf = arm_nvic_bfhfnmi_secure nv in
      \<lparr>sc_itns = itns nv,
       sc_lines = (\<lambda>irq. if itns_bit nv irq then (False, False, 0) else (iser_bit nv irq, iabr_bit nv irq, ipr nv irq)),
       sc_aircr = aircr nv AND 0x6008,
       sc_shcsr = shcsr nv AND shcsr_secure_only nv,
       sc_shpr = (\<lambda>i. if shpr_secure_only nv i then shpr nv i else 0),
       sc_faults = (if bf then (cfsr c, hfsr c, bfar c) else (0, 0, 0)),
       sc_sau = (sau_ctrl c, sau_rnr c, sau_rbar c, sau_rlar c, sfsr c, sfar c),
       sc_vtor_s = vtor_s c\<rparr>)"

lemma secure_config_lines:
  assumes "itns f = itns (nvic c)" "aircr f AND 0x6008 = aircr (nvic c) AND 0x6008"
    "shcsr f AND shcsr_secure_only (nvic c) = shcsr (nvic c) AND shcsr_secure_only (nvic c)"
    and act: "iabr f = iabr (nvic c)"
    and line: "\<And>irq. \<not> itns_bit (nvic c) irq \<Longrightarrow> iser_bit f irq = iser_bit (nvic c) irq \<and> ipr f irq = ipr (nvic c) irq"
    and sys: "\<And>i. shpr_secure_only (nvic c) i \<Longrightarrow> shpr f i = shpr (nvic c) i"
  shows "secure_config_of (c\<lparr>nvic := f\<rparr>) = secure_config_of c"
proof -
  have "bit (aircr f AND 0x6008) 13 = bit (aircr (nvic c) AND 0x6008) 13" using assms(2) by simp
  then have bf: "arm_nvic_bfhfnmi_secure f = arm_nvic_bfhfnmi_secure (nvic c)"
    by (simp add: arm_nvic_bfhfnmi_secure_def bit_and_iff bit_numeral_rec)
  then have so: "shcsr_secure_only f = shcsr_secure_only (nvic c)" "shpr_secure_only f = shpr_secure_only (nvic c)"
    by (simp_all add: shcsr_secure_only_def shpr_secure_only_def fun_eq_iff)
  have ib: "itns_bit f = itns_bit (nvic c)" using assms(1) by (simp add: itns_bit_def fun_eq_iff)
  have "(\<lambda>irq. if itns_bit f irq then (False, False, 0) else (iser_bit f irq, iabr_bit f irq, ipr f irq)) =
      (\<lambda>irq. if itns_bit (nvic c) irq then (False, False, 0) else (iser_bit (nvic c) irq, iabr_bit (nvic c) irq, ipr (nvic c) irq))"
    using line act by (auto simp: ib iabr_bit_def)
  moreover have "(\<lambda>i. if shpr_secure_only f i then shpr f i else 0) = (\<lambda>i. if shpr_secure_only (nvic c) i then shpr (nvic c) i else 0)"
    using sys by (auto simp: so)
  ultimately show ?thesis using assms(1-3) by (simp add: secure_config_of_def Let_def bf so)
qed

lemma secure_config_nvic:
  assumes "itns f = itns (nvic c)" "iser f = iser (nvic c)" "ipr f = ipr (nvic c)" "aircr f = aircr (nvic c)"
    "shcsr f = shcsr (nvic c)" "shpr f = shpr (nvic c)" "iabr f = iabr (nvic c)"
  shows "secure_config_of (c\<lparr>nvic := f\<rparr>) = secure_config_of c"
  using assms by (intro secure_config_lines) (simp_all add: iser_bit_def)

interpretation sec: dispatch_frame "\<lambda>c. secure_config_of c = K" for K
proof unfold_locales
  fix c :: "'a arm_cpu_scheme" and e
  show "secure_config_of c = K \<Longrightarrow> secure_config_of (set_nvic memo_scan c) = K"
    "secure_config_of c = K \<Longrightarrow> secure_config_of (set_nvic (\<lambda>nv. nv\<lparr>has_pending := False\<rparr>) c) = K"
    "secure_config_of c = K \<Longrightarrow> secure_config_of (take_exception e c) = K"
    "secure_config_of c = K \<Longrightarrow> secure_config_of (set_nvic (\<lambda>nv. nv\<lparr>active_exception := e\<rparr>) c) = K"
    by (simp_all add: set_nvic_def take_exception_def clear_line_def memo_scan_def secure_config_nvic)
qed (simp_all add: secure_config_of_def Let_def cong: if_cong)

lemma masked_line:
  assumes "\<not> bit (m :: u32) b"
  shows "bit (w OR (v AND m)) b = bit w b" "bit (w AND NOT (v AND m)) b = bit w b"
  using assms bit_imp_le_length [of w b] by (auto simp: bit_and_iff bit_or_iff bit_not_iff)

lemma write_ipr_byte_ns:
  "itns (write_ipr_byte True v i b nv) = itns nv" "iser (write_ipr_byte True v i b nv) = iser nv"
  "aircr (write_ipr_byte True v i b nv) = aircr nv" "shcsr (write_ipr_byte True v i b nv) = shcsr nv"
  "shpr (write_ipr_byte True v i b nv) = shpr nv" "iabr (write_ipr_byte True v i b nv) = iabr nv"
  "ispr (write_ipr_byte True v i b nv) = ispr nv"
  "\<not> itns_bit nv irq \<Longrightarrow> ipr (write_ipr_byte True v i b nv) irq = ipr nv irq"
  by (auto simp: write_ipr_byte_def Let_def)

lemma write_shpr_byte_ns:
  "itns (write_shpr_byte True v i b nv) = itns nv" "iser (write_shpr_byte True v i b nv) = iser nv"
  "aircr (write_shpr_byte True v i b nv) = aircr nv" "shcsr (write_shpr_byte True v i b nv) = shcsr nv"
  "ipr (write_shpr_byte True v i b nv) = ipr nv" "iabr (write_shpr_byte True v i b nv) = iabr nv"
  "ispr (write_shpr_byte True v i b nv) = ispr nv"
  "shpr_secure_only nv j \<Longrightarrow> shpr (write_shpr_byte True v i b nv) j = shpr nv j"
  by (auto simp: write_shpr_byte_def)

lemma secure_config_write_ipr: "secure_config_of (set_nvic (write_ipr True off v) c) = secure_config_of c"
proof -
  have keep: "secure_config_of (c\<lparr>nvic := fold (write_ipr_byte True v i) bs nv\<rparr>) = secure_config_of (c\<lparr>nvic := nv\<rparr>)" for i bs nv
  proof (induction bs arbitrary: nv)
    case (Cons b bs)
    have "secure_config_of ((c\<lparr>nvic := nv\<rparr>)\<lparr>nvic := write_ipr_byte True v i b nv\<rparr>) = secure_config_of (c\<lparr>nvic := nv\<rparr>)"
      by (rule secure_config_lines) (simp_all add: write_ipr_byte_ns iser_bit_def)
    then show ?case using Cons [of "write_ipr_byte True v i b nv"] by simp
  qed simp
  let ?nv = "fold (write_ipr_byte True v (unat (off - 0x400))) [0..<if off AND 3 = 0 \<and> v > 0xFF then 4 else 1] (nvic c)"
  have "secure_config_of ((c\<lparr>nvic := ?nv\<rparr>)\<lparr>nvic := ?nv\<lparr>scan_valid := False\<rparr>\<rparr>) = secure_config_of (c\<lparr>nvic := ?nv\<rparr>)"
    by (rule secure_config_nvic) simp_all
  then show ?thesis unfolding set_nvic_def write_ipr_def Let_def keep by simp
qed

lemma secure_config_write_shpr: "secure_config_of (set_nvic (write_shpr True off v) c) = secure_config_of c"
proof -
  have keep: "secure_config_of (c\<lparr>nvic := fold (write_shpr_byte True v i) bs nv\<rparr>) = secure_config_of (c\<lparr>nvic := nv\<rparr>)" for i bs nv
  proof (induction bs arbitrary: nv)
    case (Cons b bs)
    have "secure_config_of ((c\<lparr>nvic := nv\<rparr>)\<lparr>nvic := write_shpr_byte True v i b nv\<rparr>) = secure_config_of (c\<lparr>nvic := nv\<rparr>)"
      by (rule secure_config_lines) (simp_all add: write_shpr_byte_ns iser_bit_def)
    then show ?case using Cons [of "write_shpr_byte True v i b nv"] by simp
  qed simp
  let ?nv = "fold (write_shpr_byte True v (unat (off - 0xD18))) [0..<if off AND 3 = 0 \<and> v > 0xFF then 4 else 1] (nvic c)"
  have "secure_config_of ((c\<lparr>nvic := ?nv\<rparr>)\<lparr>nvic := ?nv\<lparr>scan_valid := False\<rparr>\<rparr>) = secure_config_of (c\<lparr>nvic := ?nv\<rparr>)"
    by (rule secure_config_nvic) simp_all
  then show ?thesis unfolding set_nvic_def write_shpr_def Let_def keep by simp
qed

lemma secure_config_iser:
  assumes "\<And>irq. irq div 32 = i \<Longrightarrow> \<not> itns_bit (nvic c) irq \<Longrightarrow> bit w (irq mod 32) = iser_bit (nvic c) irq"
    and f: "\<And>nv. itns (f nv) = itns nv \<and> iser (f nv) = iser nv \<and> ipr (f nv) = ipr nv \<and> aircr (f nv) = aircr nv \<and>
              shcsr (f nv) = shcsr nv \<and> shpr (f nv) = shpr nv \<and> iabr (f nv) = iabr nv"
  shows "secure_config_of (set_nvic (\<lambda>nv. f (nv\<lparr>iser := (iser nv)(i := w)\<rparr>)) c) = secure_config_of c"
  unfolding set_nvic_def using assms(1) by (intro secure_config_lines) (auto simp: f iser_bit_def)

lemma sec_sys_set:
  "env_keeps (\<lambda>c. secure_config_of c = K) env \<Longrightarrow> secure_config_of c = K \<Longrightarrow> secure_config_of (sys_set env e c) = K"
  unfolding sys_set_def by (rule sec.check_keeps) (simp_all add: set_nvic_def mark_pending_def secure_config_nvic)

lemma sec_icsr:
  assumes "env_keeps (\<lambda>c. secure_config_of c = K) env" "secure_config_of c = K"
  shows "secure_config_of (write_icsr env v c) = K"
proof -
  have "secure_config_of (sys_clear e c) = secure_config_of c" for e and c :: "'a arm_cpu_scheme"
    by (simp add: sys_clear_def set_nvic_def secure_config_nvic)
  then show ?thesis using assms sec_sys_set [OF assms(1)] by (simp add: write_icsr_def Let_def)
qed

lemma merge_masked: "((v AND NOT m) OR (a AND m)) AND m = a AND (m :: u32)"
  by (rule bit_word_eqI) (auto simp: bit_simps)

lemma sec_aircr: "secure_config_of (write_aircr True v c) = secure_config_of c"
proof -
  define w where "w = (((v AND 0xFFFF) AND NOT 0x6008) OR (aircr (nvic c) AND 0x6008))"
  have m: "w AND 0x6008 = aircr (nvic c) AND 0x6008" unfolding w_def by (rule merge_masked)
  have n: "(x AND NOT 4) AND 0x6008 = x AND 0x6008" for x :: u32
    by (simp add: and.assoc)
  have k: "secure_config_of (set_nvic (\<lambda>nv. nv\<lparr>aircr := x\<rparr>) c) = secure_config_of c"
    if "x AND 0x6008 = aircr (nvic c) AND 0x6008" for x
    unfolding set_nvic_def using that by (intro secure_config_lines) (simp_all add: iser_bit_def)
  have r: "secure_config_of (c\<lparr>reset_pending := b\<rparr>) = secure_config_of c" for b and c :: "'a arm_cpu_scheme"
    by (simp add: secure_config_of_def Let_def cong: if_cong)
  have "(w AND NOT 4) AND 0x6008 = aircr (nvic c) AND 0x6008" using m n [of w] by (simp only:)
  from k [OF this] have wk: "secure_config_of (set_nvic (\<lambda>nv. nv\<lparr>aircr := w AND NOT 4\<rparr>) c) = secure_config_of c" .
  have i: "(w AND NOT 4) AND NOT 4 = w AND NOT 4" by (simp add: and.assoc)
  show ?thesis
    unfolding write_aircr_def Let_def if_True w_def [symmetric]
    by (cases "bit (aircr (nvic c)) 3") (simp_all only: if_True if_False i wk r simp_thms split: if_split)
qed

lemma sec_scb:
  assumes env: "env_keeps (\<lambda>c. secure_config_of c = secure_config_of c0) env" and c: "secure_config_of c = secure_config_of c0"
    and tz: "tz_enabled c"
  shows "secure_config_of (write_scb env True off v c) = secure_config_of c0"
proof -
  have upd: "secure_config_of (c\<lparr>vtor := x\<rparr>) = secure_config_of c" "secure_config_of (c\<lparr>mmfar_ns := x\<rparr>) = secure_config_of c"
    "secure_config_of (c\<lparr>demcr := x\<rparr>) = secure_config_of c" for x and c :: "'a arm_cpu_scheme"
    by (simp_all add: secure_config_of_def Let_def cong: if_cong)
  have flt: "secure_config_of (c\<lparr>cfsr := x\<rparr>) = secure_config_of c" "secure_config_of (c\<lparr>hfsr := x\<rparr>) = secure_config_of c"
    "secure_config_of (c\<lparr>bfar := x\<rparr>) = secure_config_of c" if "\<not> arm_nvic_bfhfnmi_secure (nvic c)" for x
    using that by (simp_all add: secure_config_of_def Let_def)
  have nv: "secure_config_of (set_nvic (\<lambda>nv. nv\<lparr>scb_vtor := x\<rparr>) c) = secure_config_of c"
    "secure_config_of (set_nvic (\<lambda>nv. nv\<lparr>scr := x\<rparr>) c) = secure_config_of c"
    "secure_config_of (set_nvic (\<lambda>nv. nv\<lparr>ccr := x\<rparr>) c) = secure_config_of c" for x
    by (simp_all add: set_nvic_def secure_config_nvic)
  have sh: "secure_config_of (set_nvic (\<lambda>nv. nv\<lparr>shcsr := (v AND NOT (shcsr_secure_only nv)) OR (shcsr nv AND shcsr_secure_only nv)\<rparr>) c) = secure_config_of c"
    unfolding set_nvic_def by (rule secure_config_lines) (simp_all add: iser_bit_def merge_masked)
  show ?thesis
    unfolding write_scb_def Let_def using c
    by (simp add: upd flt nv sh sec_icsr [OF env c] sec_aircr write_sau_def nvic_bf_secure_only_def)
qed

lemma ns_write_config:
  assumes view: "nvic_ns_view c addr" and env: "env_keeps (\<lambda>c'. secure_config_of c' = secure_config_of c) env"
  shows "secure_config_of (nvic_write env addr v c) = secure_config_of c"
proof -
  let ?off = "addr AND 0xFFF"
  have tz: "tz_enabled c" using view by (simp add: nvic_ns_view_def)
  note check = sec.check_keeps [OF env]
  have mask: "nvic_view_mask nv True i = itns nv i" for nv i by (simp add: nvic_view_mask_def)
  have en: "secure_config_of (set_nvic (\<lambda>nv. mark_pending (nv\<lparr>iser := (iser nv)(i := iser nv i OR (v AND itns (nvic c) i))\<rparr>)) c) = secure_config_of c" for i
  proof -
    have "secure_config_of (set_nvic (\<lambda>nv. mark_pending (nv\<lparr>iser := (iser nv)(i := iser (nvic c) i OR (v AND itns (nvic c) i))\<rparr>)) c) = secure_config_of c"
      by (rule secure_config_iser) (auto simp: mark_pending_def itns_bit_def iser_bit_def masked_line)
    then show ?thesis by (simp only: set_nvic_def)
  qed
  have dis: "secure_config_of (set_nvic (\<lambda>nv. nv\<lparr>iser := (iser nv)(i := iser nv i AND NOT (v AND itns (nvic c) i)), scan_valid := False\<rparr>) c) = secure_config_of c" for i
  proof -
    have "secure_config_of (set_nvic (\<lambda>nv. (nv\<lparr>iser := (iser nv)(i := iser (nvic c) i AND NOT (v AND itns (nvic c) i))\<rparr>)\<lparr>scan_valid := False\<rparr>) c) = secure_config_of c"
      by (rule secure_config_iser) (auto simp: itns_bit_def iser_bit_def bit_simps)
    then show ?thesis by (simp only: set_nvic_def)
  qed
  have pend: "secure_config_of (set_nvic (\<lambda>nv. mark_pending (nv\<lparr>ispr := (ispr nv)(i := g nv)\<rparr>)) c) = secure_config_of c"
    "secure_config_of (set_nvic (\<lambda>nv. nv\<lparr>ispr := (ispr nv)(i := g nv), scan_valid := False\<rparr>) c) = secure_config_of c" for i g
    by (simp_all add: set_nvic_def mark_pending_def secure_config_nvic)
  show ?thesis
    unfolding nvic_write_def Let_def mask [symmetric]
    by (simp only: view mask simp_thms check [OF en] dis check [OF pend(1)] pend(2) secure_config_write_ipr secure_config_write_shpr
        sec_scb [OF env refl tz] if_False split: if_split)
qed

subsection \<open>Pending bits of the Secure lines\<close>

definition secure_pending :: "arm_nvic \<Rightarrow> nat \<Rightarrow> bool" where
  "secure_pending nv irq \<longleftrightarrow> \<not> itns_bit nv irq \<and> bit (ispr nv (irq div 32)) (irq mod 32)"

text \<open>The execution level that the active exception gives; entering an exception lowers it strictly.\<close>

definition active_level :: "arm_nvic \<Rightarrow> int" where
  "active_level nv = (if active_exception nv = 0 then 256 else arm_nvic_get_priority nv (active_exception nv))"

definition lines_kept :: "arm_nvic \<Rightarrow> arm_nvic \<Rightarrow> bool" where
  "lines_kept nv nv' \<longleftrightarrow> ipr nv' = ipr nv \<and> shpr nv' = shpr nv \<and> active_level nv' \<le> active_level nv \<and>
     (\<forall>irq. secure_pending nv' irq \<longrightarrow> secure_pending nv irq) \<and>
     (active_level nv' = active_level nv \<longrightarrow> secure_pending nv' = secure_pending nv)"

lemma lines_kept_trans: "lines_kept a b \<Longrightarrow> lines_kept b c \<Longrightarrow> lines_kept a c"
  unfolding lines_kept_def by (metis order_antisym order_trans)

lemma active_level_cong:
  "ipr a = ipr b \<Longrightarrow> shpr a = shpr b \<Longrightarrow> active_exception a = active_exception b \<Longrightarrow> active_level a = active_level b"
  using priority_cong [of a b] by (simp add: active_level_def)

lemma lines_kept_quiet:
  assumes "ipr nv' = ipr nv" "shpr nv' = shpr nv" "active_exception nv' = active_exception nv"
    "secure_pending nv' = secure_pending nv"
  shows "lines_kept nv nv'"
  using assms active_level_cong [of nv' nv] by (simp add: lines_kept_def)

lemma secure_pending_cong: "itns a = itns b \<Longrightarrow> ispr a = ispr b \<Longrightarrow> secure_pending a = secure_pending b"
  by (simp add: secure_pending_def itns_bit_def fun_eq_iff)

interpretation nvf: exception_frame "\<lambda>c. nvic c = N" for N
  by unfold_locales simp_all

lemma entered_line:
  assumes "is_pending nv e" "arm_nvic_get_priority nv e < active_level nv"
  shows "lines_kept nv ((clear_line e (nv\<lparr>has_pending := h, scan_valid := v\<rparr>))\<lparr>active_exception := e\<rparr>)"
proof -
  let ?n = "(clear_line e (nv\<lparr>has_pending := h, scan_valid := v\<rparr>))\<lparr>active_exception := e\<rparr>"
  have f: "ipr ?n = ipr nv" "shpr ?n = shpr nv" "itns ?n = itns nv" by (simp_all add: clear_line_def)
  have "0 < e" using assms(1) by (auto simp: is_pending_def split: if_splits)
  then have "active_level ?n = arm_nvic_get_priority nv e"
    using priority_cong [OF f(2,1)] by (simp add: active_level_def)
  moreover have "bit (ispr ?n i) b \<Longrightarrow> bit (ispr nv i) b" for i b
    by (auto simp: clear_line_def bit_simps split: if_splits)
  ultimately show ?thesis using assms(2) f by (auto simp: lines_kept_def secure_pending_def itns_bit_def)
qed

lemma check_lines:
  assumes env: "\<And>N. env_keeps (\<lambda>c'. nvic c' = N) env" and fresh: "\<not> scan_valid (nvic c)"
  shows "lines_kept (nvic c) (nvic (arm_nvic_check_pending env c))"
proof -
  let ?m = "memo_scan (nvic c)"
  have memo: "memo_ok (nvic c)" using fresh by (simp add: memo_ok_def)
  have same: "lines_kept (nvic c) (nvic c)" "lines_kept (nvic c) ?m" "lines_kept (nvic c) (?m\<lparr>has_pending := False\<rparr>)"
    by (intro lines_kept_quiet secure_pending_cong; simp)+
  have ent: "nvic (arm_exception_entry env e d) = nvic d" for e and d :: "'a arm_cpu_scheme"
    by (rule nvf.entry_keeps [OF env refl])
  have take: "lines_kept (nvic c) ((clear_line e (?m\<lparr>has_pending := False, scan_valid := False\<rparr>))\<lparr>active_exception := e\<rparr>)"
    if e: "scan_exc ?m = Some e" "\<not> (active_exception ?m > 0 \<and> scan_prio ?m \<ge> arm_nvic_get_priority ?m (active_exception ?m))" for e
  proof (rule lines_kept_trans [OF same(2) entered_line])
    have b: "fst (nvic_scan (nvic c)) = Some e" "scan_prio ?m = snd (nvic_scan (nvic c))"
      using e(1) memo_scan_fields [OF memo] by simp_all
    then have "is_pending (nvic c) e" "scan_prio ?m = arm_nvic_get_priority (nvic c) e"
      using scan_best [of "nvic c"] by (auto simp: best_of_def)
    then show "is_pending ?m e" "arm_nvic_get_priority ?m e < active_level ?m"
      using e(2) priority_lt [of "nvic c" e] by (auto simp: is_pending_def active_level_def)
  qed
  show ?thesis using same take
    by (auto simp: arm_nvic_check_pending_def Let_def ent split: option.splits)
qed

lemma sys_set_lines:
  assumes "\<And>N. env_keeps (\<lambda>c'. nvic c' = N) env"
  shows "lines_kept (nvic c) (nvic (sys_set env e c))"
  unfolding sys_set_def
  by (rule lines_kept_trans [OF _ check_lines [OF assms]])
    (auto simp: mark_pending_def intro!: lines_kept_quiet secure_pending_cong)

lemma icsr_lines:
  assumes "\<And>N. env_keeps (\<lambda>c'. nvic c' = N) env"
  shows "lines_kept (nvic c) (nvic (write_icsr env v c))"
proof -
  have cl: "lines_kept (nvic d) (nvic (sys_clear e d))" for e and d :: "'a arm_cpu_scheme"
    by (auto simp: sys_clear_def intro!: lines_kept_quiet secure_pending_cong)
  have id: "lines_kept nv nv" for nv by (simp add: lines_kept_quiet)
  define c1 where "c1 = (if bit v 27 then sys_clear EXC_PENDSV c else c)"
  define c2 where "c2 = (if bit v 25 then sys_clear EXC_SYSTICK c1 else c1)"
  define c3 where "c3 = (if bit v 28 then sys_set env EXC_PENDSV c2 else c2)"
  have "lines_kept (nvic c) (nvic c1)" "lines_kept (nvic c1) (nvic c2)" using cl id by (simp_all add: c1_def c2_def)
  moreover have "lines_kept (nvic c2) (nvic c3)" "lines_kept (nvic c3) (nvic (if bit v 26 then sys_set env EXC_SYSTICK c3 else c3))"
    using sys_set_lines [OF assms] id by (simp_all add: c3_def)
  ultimately show ?thesis unfolding write_icsr_def Let_def c1_def [symmetric] c2_def [symmetric] c3_def [symmetric]
    by (meson lines_kept_trans)
qed

lemma scb_lines:
  assumes "\<And>N. env_keeps (\<lambda>c'. nvic c' = N) env"
  shows "lines_kept (nvic c) (nvic (write_scb env True off v c))"
  unfolding write_scb_def Let_def
  by (auto simp: write_aircr_def write_sau_def Let_def icsr_lines [OF assms] intro!: lines_kept_quiet secure_pending_cong)

lemma fold_ispr:
  assumes "\<And>x nv. ispr (f x nv) = ispr nv \<and> itns (f x nv) = itns nv"
  shows "secure_pending (fold f xs nv) = secure_pending nv"
proof (induction xs arbitrary: nv)
  case (Cons x xs)
  then show ?case using assms [of x nv] secure_pending_cong [of "f x nv" nv] by simp
qed simp

lemma masked_pending:
  assumes "itns nv' = itns nv" "ispr nv' = (ispr nv)(i := w)" "w = ispr nv i OR (v AND itns nv i) \<or> w = ispr nv i AND NOT (v AND itns nv i)"
  shows "secure_pending nv' = secure_pending nv"
  using assms by (auto simp: secure_pending_def itns_bit_def fun_eq_iff bit_simps)

text \<open>The pending bits of the Secure lines over a write through the Non-secure view.\<close>

lemma ns_write_lines:
  assumes view: "nvic_ns_view c addr" and env: "\<And>N. env_keeps (\<lambda>c'. nvic c' = N) env"
  shows "lines_kept (nvic c) (nvic (nvic_write env addr v c)) \<or>
    secure_pending (nvic (nvic_write env addr v c)) = secure_pending (nvic c)"
proof -
  let ?off = "addr AND 0xFFF"
  have mask: "nvic_view_mask nv True i = itns nv i" for nv i by (simp add: nvic_view_mask_def)
  have en: "lines_kept (nvic c) (nvic (arm_nvic_check_pending env
      (set_nvic (\<lambda>nv. mark_pending (nv\<lparr>iser := (iser nv)(i := w nv)\<rparr>)) c)))" for i w
    by (rule lines_kept_trans [OF _ check_lines [OF env]])
      (auto simp: mark_pending_def intro!: lines_kept_quiet secure_pending_cong)
  have pe: "lines_kept (nvic c) (nvic (arm_nvic_check_pending env
      (set_nvic (\<lambda>nv. mark_pending (nv\<lparr>ispr := (ispr nv)(i := ispr nv i OR (v AND itns (nvic c) i))\<rparr>)) c)))" for i
    by (rule lines_kept_trans [OF _ check_lines [OF env]])
      (auto simp: mark_pending_def intro!: lines_kept_quiet masked_pending)
  have cl: "secure_pending (nvic (set_nvic (\<lambda>nv. nv\<lparr>ispr := (ispr nv)(i := ispr nv i AND NOT (v AND itns (nvic c) i)), scan_valid := False\<rparr>) c))
      = secure_pending (nvic c)" for i
    by (rule masked_pending) auto
  have di: "secure_pending (nvic (set_nvic (\<lambda>nv. nv\<lparr>iser := (iser nv)(i := w nv), scan_valid := False\<rparr>) c)) = secure_pending (nvic c)" for i w
    by (rule secure_pending_cong) simp_all
  have ip: "secure_pending (nvic (set_nvic (write_ipr True off v) c)) = secure_pending (nvic c)"
    "secure_pending (nvic (set_nvic (write_shpr True off v) c)) = secure_pending (nvic c)" for off
  proof -
    have "secure_pending (n\<lparr>scan_valid := False\<rparr>) = secure_pending n" for n by (rule secure_pending_cong) simp_all
    then show "secure_pending (nvic (set_nvic (write_ipr True off v) c)) = secure_pending (nvic c)"
      "secure_pending (nvic (set_nvic (write_shpr True off v) c)) = secure_pending (nvic c)"
      by (simp_all add: write_ipr_def write_shpr_def Let_def fold_ispr write_ipr_byte_ns write_shpr_byte_ns)
  qed
  show ?thesis
    unfolding nvic_write_def Let_def mask [symmetric]
    by (simp only: view mask simp_thms en pe cl di ip scb_lines [OF env] if_False split: if_split)
qed

text \<open>
  C11. The Non-secure view cannot touch Secure state: whatever Non-secure code (or Secure code
  through the Non-secure alias) writes to whatever register of the System Control Space, the
  interrupt targets, the enables, active bits and priorities of the lines that target Secure, the SAU and the
  SecureFault registers, the Secure vector table, the Secure-only bits of AIRCR and SHCSR, the
  priorities of SecureFault and of BusFault, and the fault registers (while those faults are
  Secure) stay as they are, dispatch of an interrupt the write releases included. No Secure line
  becomes pending, and none stops being pending unless the write makes the core enter an exception
  (\<open>active_exception\<close> changes). The peripherals behind the stacking leave this state alone.
\<close>

theorem ns_view_isolated:
  fixes v :: u32
  assumes view: "nvic_ns_view c addr" and env: "env_keeps (\<lambda>c'. secure_config_of c' = secure_config_of c) env"
    and quiet: "\<And>N. env_keeps (\<lambda>c'. nvic c' = N) env"
  defines "c' \<equiv> nvic_write env addr v c"
  shows "secure_config_of c' = secure_config_of c \<and>
    (\<forall>irq. secure_pending (nvic c') irq \<longrightarrow> secure_pending (nvic c) irq) \<and>
    (active_exception (nvic c') = active_exception (nvic c) \<longrightarrow> secure_pending (nvic c') = secure_pending (nvic c))"
proof -
  have "secure_config_of c' = secure_config_of c" unfolding c'_def by (rule ns_write_config [OF view env])
  then show ?thesis using ns_write_lines [OF view quiet, of v] active_level_cong
    unfolding c'_def lines_kept_def by metis
qed

lemma bare_env_keeps: "env_keeps P bare_env"
  by (simp add: env_keeps_def bare_env_def)

theorem nvic_memo_invariant_witness:
  "memo_ok (nvic (nvic_write bare_env 0xE000E100 0xFF (m33\<lparr>secure := True\<rparr>)))"
  using nvic_memo_invariant [OF bare_env_keeps, of "m33\<lparr>secure := True\<rparr>" "0xE000E100" "0xFF" 0 0]
  by (simp add: m33_def memo_ok_def)

text \<open>Non-secure code tries to clear the pending bit of a Secure line and to make every line pending.\<close>

theorem ns_view_isolated_witness:
  "let c = m33\<lparr>nvic := (nvic m33)\<lparr>ispr := (\<lambda>_. 0)(0 := 4), itns := (\<lambda>_. 0)(0 := 1)\<rparr>\<rparr>;
       c1 = nvic_write bare_env 0xE000E280 0xFFFFFFFF c; c2 = nvic_write bare_env 0xE000E200 0xFFFFFFFF c
   in secure_pending (nvic c1) 2 \<and> secure_config_of c1 = secure_config_of c \<and> \<not> secure_pending (nvic c2) 3"
proof -
  let ?c = "m33\<lparr>nvic := (nvic m33)\<lparr>ispr := (\<lambda>_. 0)(0 := 4), itns := (\<lambda>_. 0)(0 := 1)\<rparr>\<rparr>"
  have view: "nvic_ns_view ?c a" for a using m33_fields by (simp add: nvic_ns_view_def)
  have p: "secure_pending (nvic ?c) 2" "\<not> secure_pending (nvic ?c) 3"
    by (simp_all add: secure_pending_def itns_bit_def bit_numeral_rec)
  have a: "active_exception (nvic (nvic_write bare_env 0xE000E280 0xFFFFFFFF ?c)) = active_exception (nvic ?c)"
    by (simp add: nvic_write_def Let_def in_bank_def)
  show ?thesis
    using ns_view_isolated [OF view bare_env_keeps bare_env_keeps, where addr = "0xE000E280" and v = "0xFFFFFFFF"]
      ns_view_isolated [OF view bare_env_keeps bare_env_keeps, where addr = "0xE000E200" and v = "0xFFFFFFFF"] p a
    unfolding Let_def by metis
qed

end
