(* ===== verification/Arm_Exception_Correct.thy ===== *)
theory Arm_Exception_Correct
  imports Arm_Frame
begin

text \<open>
  Exception entry and return: the stacked frame is read back word by word, the security banks are
  restored, and a handler that keeps its stack returns to the interrupted state.
\<close>

subsection \<open>Frames in SRAM\<close>

fun put_words :: "u32 \<Rightarrow> u32 list \<Rightarrow> (u32 \<Rightarrow> u8) \<Rightarrow> (u32 \<Rightarrow> u8)" where
  "put_words i [] m = m"
| "put_words i (w # ws) m = put_words (i + 4) ws (put32 i w m)"

lemma and3: "a AND 3 = take_bit 2 (a :: u32)"
  by (simp add: take_bit_eq_mask mask_eq_exp_minus_1)

lemma word_aligned: "a AND 3 = 0 \<Longrightarrow> a AND NOT 3 = (a :: u32)"
proof -
  assume "a AND 3 = 0"
  moreover have "a = (a AND 3) OR (a AND NOT 3)" by (rule bit_word_eqI) (auto simp: bit_simps)
  ultimately show ?thesis by simp
qed

lemma aligned_mod: "a AND 3 = 0 \<longleftrightarrow> unat (a :: u32) mod 4 = 0"
proof -
  have "unat (take_bit 2 a) = unat a mod 4" by (simp add: take_bit_eq_mod unat_mod_distrib)
  then show ?thesis by (metis and3 unat_eq_zero)
qed

lemma aligned_add: "a AND 3 = 0 \<Longrightarrow> (a + 4) AND 3 = (0 :: u32)"
proof -
  assume "a AND 3 = 0"
  then have "(unat a + 4) mod 4 = 0" by (simp add: aligned_mod)
  moreover have "unat (a + 4) = (unat a + 4) mod 4294967296" by (simp add: unat_word_ariths)
  ultimately have "unat (a + 4) mod 4 = 0" by (simp add: mod_mod_cancel)
  then show ?thesis by (simp add: aligned_mod)
qed

lemma write_words_sram:
  assumes "a AND 3 = 0" "\<And>k. k < length ws \<Longrightarrow> in_sram c (a + of_nat (4 * k))"
  shows "write_words env a ws c = c\<lparr>sram := put_words (a - sram_base c) ws (sram c)\<rparr>"
  using assms
proof (induction ws arbitrary: a c)
  case (Cons w ws)
  let ?c = "c\<lparr>sram := put32 (a - sram_base c) w (sram c)\<rparr>"
  have "in_sram c a" using Cons.prems(2) [of 0] by simp
  then have w: "arm_write32 env a w c = ?c"
    by (simp add: arm_write32_def write32_direct_def word_aligned [OF Cons.prems(1), simplified])
  have "in_sram ?c (a + 4 + of_nat (4 * k))" if "k < length ws" for k
    using Cons.prems(2) [of "Suc k"] that by (simp add: in_sram_def algebra_simps)
  from Cons.IH [OF aligned_add [OF Cons.prems(1)] this] show ?case by (simp add: w algebra_simps)
qed simp

lemma read_words_sram:
  assumes "a AND 3 = 0" "\<And>k. k < n \<Longrightarrow> in_sram c (a + of_nat (4 * k))" "map_disjoint c"
  shows "read_words env a n c = (map (\<lambda>k. le32 (sram c) (a - sram_base c + of_nat (4 * k))) [0..<n], c)"
  using assms(1,2)
proof (induction n arbitrary: a)
  case (Suc n)
  have s: "in_sram c a" using Suc.prems(2) [of 0] by simp
  then have "\<not> in_rom c a" "\<not> in_flash c a" using assms(3) by (auto simp: map_disjoint_def)
  then have r: "arm_read32 env a c = (le32 (sram c) (a - sram_base c), c)"
    using s by (simp add: arm_read32_def read32_direct_def word_aligned [OF Suc.prems(1), simplified])
  have "in_sram c (a + 4 + of_nat (4 * k))" if "k < n" for k
    using Suc.prems(2) [of "Suc k"] that by (simp add: algebra_simps)
  from Suc.IH [OF aligned_add [OF Suc.prems(1)] this]
  have "read_words env (a + 4) n c = (map (\<lambda>k. le32 (sram c) (a - sram_base c + of_nat (4 * Suc k))) [0..<n], c)"
    by (simp add: algebra_simps)
  moreover have "map (\<lambda>k. le32 (sram c) (a - sram_base c + of_nat (4 * k))) [0..<Suc n] =
      le32 (sram c) (a - sram_base c) # map (\<lambda>k. le32 (sram c) (a - sram_base c + of_nat (4 * Suc k))) [0..<n]"
    by (simp only: upt_conv_Cons zero_less_Suc list.map map_Suc_upt [symmetric] map_map o_def) simp
  ultimately show ?case by (simp only: read_words.simps r Let_def prod.case)
qed simp

lemma nat32: "j < 4294967296 \<Longrightarrow> unat (of_nat j :: u32) = j"
  by (simp add: unsigned_of_nat take_bit_nat_eq_self)

lemma offset_inj: "j < 4294967296 \<Longrightarrow> k < 4294967296 \<Longrightarrow> (i + of_nat j :: u32) = i + of_nat k \<Longrightarrow> j = k"
  by (metis add_left_cancel nat32)

lemma put_words_other:
  assumes "\<And>j. j < 4 * length ws \<Longrightarrow> x \<noteq> i + of_nat j" shows "put_words i ws m x = m x"
  using assms
proof (induction ws arbitrary: i m)
  case (Cons w ws)
  have "x \<noteq> i + 4 + of_nat j" if "j < 4 * length ws" for j
    using Cons.prems [of "j + 4"] that by (simp add: algebra_simps)
  moreover have "x \<notin> {i, i + 1, i + 2, i + 3}"
    using Cons.prems [of 0] Cons.prems [of 1] Cons.prems [of 2] Cons.prems [of 3] by auto
  ultimately show ?case using Cons.IH [of "i + 4"] by (simp add: put32_other)
qed simp

lemma le32_put_words:
  assumes "k < length ws" "length ws \<le> 64"
  shows "le32 (put_words i ws m) (i + of_nat (4 * k)) = ws ! k"
  using assms
proof (induction ws arbitrary: i m k)
  case (Cons w ws)
  show ?case
  proof (cases k)
    case 0
    have "put_words (i + 4) ws m' (i + of_nat b) = m' (i + of_nat b)" if "b < 4" for m' b
    proof (rule put_words_other)
      fix j assume "j < 4 * length ws"
      then show "i + of_nat b \<noteq> i + 4 + of_nat j"
        using that Cons.prems offset_inj [of b "4 + j" i] by (auto simp: add.assoc)
    qed
    from this [of 0] this [of 1] this [of 2] this [of 3]
    have "le32 (put_words (i + 4) ws (put32 i w m)) i = le32 (put32 i w m) i" by (simp add: le32_def)
    then show ?thesis using 0 by (simp add: le32_put32)
  next
    case (Suc l)
    then show ?thesis using Cons.IH [of l "i + 4" "put32 i w m"] Cons.prems by (simp add: algebra_simps)
  qed
qed simp

subsection \<open>Security banks\<close>

definition in_handler :: "'a arm_cpu_scheme \<Rightarrow> bool" where
  "in_handler c \<longleftrightarrow> xpsr c AND 0x1FF \<noteq> 0"

text \<open>The stack bank and the masks of one security state.\<close>

definition bank_of :: "bool \<Rightarrow> 'a arm_cpu_scheme \<Rightarrow> u32 \<times> u32 \<times> bool \<times> u32 \<times> u32 \<times> u32" where
  "bank_of sec c =
     (if sec then (msp_s c, psp_s c, bit (control_s c) 1, primask_s c, basepri_s c, faultmask_s c)
      else (msp_ns c, psp_ns c, bit (control_ns c) 1, primask_ns c, basepri_ns c, faultmask_ns c))"

definition live_bank :: "'a arm_cpu_scheme \<Rightarrow> u32 \<times> u32 \<times> bool \<times> u32 \<times> u32 \<times> u32" where
  "live_bank c = (reg c ARM_SP, psp c, use_psp c, primask c, basepri c, faultmask c)"

lemma spsel_bit: "bit ((x AND NOT 2) OR (if b then 2 else 0) :: u32) 1 = b"
  by (simp add: bit_simps bit_numeral_rec)

lemma save_bank:
  "in_handler c \<Longrightarrow> bank_of sec (arm_tz_save_sp_bank sec c) = live_bank c"
  "bank_of (\<not> sec) (arm_tz_save_sp_bank sec c) = bank_of (\<not> sec) c"
  using spsel_bit [of "control_s c" "use_psp c"] spsel_bit [of "control_ns c" "use_psp c"]
  by (auto simp: arm_tz_save_sp_bank_def bank_of_def live_bank_def in_handler_def arm_sp_is_psp_def Let_def)

lemma load_bank: "in_handler c \<Longrightarrow> live_bank (arm_tz_load_sp_bank sec c) = bank_of sec c"
  by (auto simp: arm_tz_load_sp_bank_def bank_of_def live_bank_def in_handler_def arm_sp_is_psp_def set_reg_def Let_def)

lemma save_frame [simp]:
  "xpsr (arm_tz_save_sp_bank sec c) = xpsr c" "tz_enabled (arm_tz_save_sp_bank sec c) = tz_enabled c"
  "secure (arm_tz_save_sp_bank sec c) = secure c" "reg (arm_tz_save_sp_bank sec c) = reg c" "sram (arm_tz_save_sp_bank sec c) = sram c"
  "nvic (arm_tz_save_sp_bank sec c) = nvic c" "it_state (arm_tz_save_sp_bank sec c) = it_state c"
  by (simp_all add: arm_tz_save_sp_bank_def Let_def)

lemma load_frame_same [simp]:
  "xpsr (arm_tz_load_sp_bank sec c) = xpsr c" "tz_enabled (arm_tz_load_sp_bank sec c) = tz_enabled c"
  "secure (arm_tz_load_sp_bank sec c) = secure c" "sram (arm_tz_load_sp_bank sec c) = sram c"
  "nvic (arm_tz_load_sp_bank sec c) = nvic c" "it_state (arm_tz_load_sp_bank sec c) = it_state c"
  "i \<noteq> ARM_SP \<Longrightarrow> reg (arm_tz_load_sp_bank sec c) i = reg c i" "bank_of b (arm_tz_load_sp_bank sec c) = bank_of b c"
  by (simp_all add: arm_tz_load_sp_bank_def set_reg_def bank_of_def Let_def)

lemma switch_bank:
  assumes "tz_enabled c" "secure c \<noteq> to" "in_handler c"
  defines "c' \<equiv> arm_switch_security_state to c"
  shows "bank_of (secure c) c' = live_bank c" "live_bank c' = bank_of to c" "secure c' = to"
    "xpsr c' = xpsr c" "tz_enabled c'" "sram c' = sram c" "nvic c' = nvic c" "it_state c' = it_state c"
    "i \<noteq> ARM_SP \<Longrightarrow> reg c' i = reg c i"
proof -
  let ?s = "(arm_tz_save_sp_bank (secure c) (c\<lparr>fetch_ok_len := 0\<rparr>))\<lparr>secure := to\<rparr>"
  have c': "c' = arm_tz_load_sp_bank to ?s"
    using assms(1,2) by (simp add: c'_def arm_switch_security_state_def Let_def)
  have h: "in_handler ?s" "in_handler (c\<lparr>fetch_ok_len := 0\<rparr>)" using assms(3) by (simp_all add: in_handler_def)
  have "bank_of b ?s = bank_of b (arm_tz_save_sp_bank (secure c) (c\<lparr>fetch_ok_len := 0\<rparr>))" for b by (simp add: bank_of_def)
  moreover have "live_bank (c\<lparr>fetch_ok_len := 0\<rparr>) = live_bank c" "bank_of to (c\<lparr>fetch_ok_len := 0\<rparr>) = bank_of to c"
    by (simp_all add: live_bank_def bank_of_def)
  moreover have "to = (\<not> secure c)" using assms(2) by blast
  ultimately show "bank_of (secure c) c' = live_bank c" "live_bank c' = bank_of to c"
    using save_bank [where c = "c\<lparr>fetch_ok_len := 0\<rparr>" and sec = "secure c"] h load_bank [OF h(1)] by (simp_all add: c')
  show "secure c' = to" "xpsr c' = xpsr c" "tz_enabled c'" "sram c' = sram c" "nvic c' = nvic c" "it_state c' = it_state c"
    "i \<noteq> ARM_SP \<Longrightarrow> reg c' i = reg c i"
    using assms(1) by (simp_all add: c')
qed

subsection \<open>Bits of the frame and of the return value\<close>

lemma exc_return_bits:
  "bit (exc_return_value bg tgt c) 6 \<longleftrightarrow> (tz_enabled c \<longrightarrow> bg)"
  "bit (exc_return_value bg tgt c) 3 \<longleftrightarrow> \<not> in_handler c"
  "bit (exc_return_value bg tgt c) 2 \<longleftrightarrow> arm_sp_is_psp c"
  by (auto simp: exc_return_value_def in_handler_def arm_sp_is_psp_def bit_or_iff bit_numeral_rec)

abbreviation IT_BITS :: u32 where "IT_BITS \<equiv> 0x600FC00"

lemma it_roundtrip:
  fixes it :: u8 and x :: u32
  assumes x: "x = (y AND NOT (0x6000000 OR 0xFC00 OR 0x200)) OR push_bit 25 (ucast (it AND 3))
       OR push_bit 10 (ucast (drop_bit 2 it AND 0x3F)) OR (if p then 0x200 else 0)"
  shows "ucast ((drop_bit 25 x AND 3) OR push_bit 2 (drop_bit 10 x AND 0x3F)) = it" "bit x 9 = p"
    "(x AND NOT 0x200) AND NOT IT_BITS = (y AND NOT 0x200) AND NOT IT_BITS"
proof -
  have b3: "bit (3 :: u32) n \<longleftrightarrow> n < 2" "bit (3 :: u8) n \<longleftrightarrow> n < 2" for n
    by (auto simp: bit_numeral_rec bit_1_iff split: nat.splits)
  have b63: "bit (0x3F :: u32) n \<longleftrightarrow> n < 6" "bit (0x3F :: u8) n \<longleftrightarrow> n < 6" for n
    by (auto simp: bit_numeral_rec bit_1_iff split: nat.splits)
  have m: "bit (0x6000000 OR 0xFC00 OR 0x200 :: u32) n \<longleftrightarrow> n = 25 \<or> n = 26 \<or> 9 \<le> n \<and> n \<le> 15" for n
    by (simp add: bit_numeral_rec bit_1_iff split: nat.splits) arith
  have b: "bit x n \<longleftrightarrow>
      (if n = 25 then bit it 0 else if n = 26 then bit it 1 else if 10 \<le> n \<and> n \<le> 15 then bit it (n - 8)
       else if n = 9 then p else bit y n)" if "n < 32" for n
  proof -
    have it8: "bit it k \<Longrightarrow> k < 8" for k using bit_imp_le_length [of it k] by simp
    have e1: "bit (push_bit 25 (ucast (it AND 3)) :: u32) n \<longleftrightarrow> (n = 25 \<and> bit it 0) \<or> (n = 26 \<and> bit it 1)"
    proof -
      consider "n < 25" | "n = 25" | "n = 26" | "26 < n" by linarith
      then show ?thesis using that b3(2) [of "n - 25"] by cases (auto simp: bit_push_bit_iff bit_ucast_iff bit_and_iff)
    qed
    have e2: "bit (push_bit 10 (ucast (drop_bit 2 it AND 0x3F)) :: u32) n \<longleftrightarrow> 10 \<le> n \<and> n \<le> 15 \<and> bit it (n - 8)"
    proof (cases "10 \<le> n")
      case True
      then have "2 + (n - 10) = n - 8" by simp
      then show ?thesis using that True b63(2) [of "n - 10"] it8 [of "n - 8"]
        by (auto simp: bit_push_bit_iff bit_ucast_iff bit_and_iff bit_drop_bit_eq simp del: add_2_eq_Suc)
    qed (simp add: bit_push_bit_iff)
    have "bit (0x200 :: u32) n \<longleftrightarrow> n = 9" by (simp add: bit_numeral_rec bit_1_iff split: nat.splits) arith
    then have e3: "bit (if p then 0x200 else 0 :: u32) n \<longleftrightarrow> n = 9 \<and> p" by simp
    have e4: "bit (y AND NOT (0x6000000 OR 0xFC00 OR 0x200)) n \<longleftrightarrow> bit y n \<and> \<not> (n = 25 \<or> n = 26 \<or> 9 \<le> n \<and> n \<le> 15)"
      using that m [of n] by (simp only: bit_and_iff bit_not_iff) simp
    have "bit x n \<longleftrightarrow> (bit y n \<and> \<not> (n = 25 \<or> n = 26 \<or> 9 \<le> n \<and> n \<le> 15)) \<or> ((n = 25 \<and> bit it 0) \<or> (n = 26 \<and> bit it 1)) \<or>
        (10 \<le> n \<and> n \<le> 15 \<and> bit it (n - 8)) \<or> (n = 9 \<and> p)"
      unfolding x by (simp only: bit_or_iff [of "y AND NOT (0x6000000 OR 0xFC00 OR 0x200)"] bit_or_iff [of "push_bit 25 _"] bit_or_iff [of "push_bit 10 _"] e1 e2 e3 e4)
    then show ?thesis by auto
  qed
  show "bit x 9 = p" using b [of 9] by simp
  show "ucast ((drop_bit 25 x AND 3) OR push_bit 2 (drop_bit 10 x AND 0x3F)) = it"
  proof (rule bit_word_eqI)
    fix n assume "n < LENGTH(8)"
    then have n: "n < 8" by simp
    have possible: "possible_bit TYPE(32 word) n" using n by simp
    have "bit (ucast ((drop_bit 25 x AND 3) OR push_bit 2 (drop_bit 10 x AND 0x3F)) :: u8) n \<longleftrightarrow>
        (bit x (25 + n) \<and> n < 2) \<or> (2 \<le> n \<and> bit x (10 + (n - 2)) \<and> n - 2 < 6)"
      using n possible by (simp only: bit_ucast_iff bit_or_iff bit_and_iff bit_drop_bit_eq bit_push_bit_iff b3 b63 o_apply) simp
    then show "bit (ucast ((drop_bit 25 x AND 3) OR push_bit 2 (drop_bit 10 x AND 0x3F)) :: u8) n = bit it n"
    proof (cases "n < 2")
      case True
      then have "n = 0 \<or> n = 1" by linarith
      then show ?thesis using \<open>bit (ucast _) n \<longleftrightarrow> _\<close> b [of 25] b [of 26] by auto
    next
      case False
      then have "10 + (n - 2) = n + 8" by simp
      moreover have "bit x (n + 8) = bit it n" "n - 2 < 6" using n False b [of "n + 8"] by auto
      ultimately show ?thesis using \<open>bit (ucast _) n \<longleftrightarrow> _\<close> False by (simp only: not_less simp_thms)
    qed
  qed
  show "(x AND NOT 0x200) AND NOT IT_BITS = (y AND NOT 0x200) AND NOT IT_BITS"
  proof (rule bit_word_eqI)
    fix n assume "n < LENGTH(32)"
    then have n: "n < 32" by simp
    have "bit IT_BITS n \<longleftrightarrow> n = 25 \<or> n = 26 \<or> 10 \<le> n \<and> n \<le> 15" "bit (0x200 :: u32) n \<longleftrightarrow> n = 9"
      by (simp add: bit_numeral_rec bit_1_iff split: nat.splits, arith)+
    then have e: "bit ((z AND NOT 0x200) AND NOT IT_BITS) n \<longleftrightarrow> bit z n \<and> n \<noteq> 9 \<and> \<not> (n = 25 \<or> n = 26 \<or> 10 \<le> n \<and> n \<le> 15)" for z
      using n by (simp only: bit_and_iff bit_not_iff) simp
    show "bit ((x AND NOT 0x200) AND NOT IT_BITS) n = bit ((y AND NOT 0x200) AND NOT IT_BITS) n"
      unfolding e using b [OF n] by auto
  qed
qed

subsection \<open>Entry\<close>

definition frame_sp :: "'a arm_cpu_scheme \<Rightarrow> u32" where
  "frame_sp c = (reg c ARM_SP AND NOT 7) - 32"

definition frame_in_sram :: "u32 \<Rightarrow> 'a arm_cpu_scheme \<Rightarrow> bool" where
  "frame_in_sram sp c \<longleftrightarrow> map_disjoint c \<and> (\<forall>k < 8. in_sram c (sp + of_nat (4 * k)))"

text \<open>An interrupted state in which an exception can be taken: aligned SP and PC, room, a vector.\<close>

definition entry_ok :: "nat \<Rightarrow> 'a arm_cpu_scheme \<Rightarrow> bool" where
  "entry_ok e c \<longleftrightarrow> 0 < e \<and> e < 512 \<and> reg c ARM_SP AND 3 = 0 \<and> reg c ARM_PC AND 1 = 0 \<and> \<not> bit (xpsr c) 9 \<and>
     frame_in_sram (frame_sp c) c \<and>
     (\<forall>t \<in> {vtor c, vtor_s c}. in_rom c ((t + of_nat e * 4) AND NOT 3) \<or> in_flash c ((t + of_nat e * 4) AND NOT 3))"

definition bg_bank :: "bool \<Rightarrow> 'a arm_cpu_scheme \<Rightarrow> u32 \<times> u32 \<times> bool \<times> u32 \<times> u32 \<times> u32" where
  "bg_bank b s = (if \<not> tz_enabled s \<or> secure s = b then live_bank s else bank_of b s)"

lemma aligned_mult: "a AND 3 = 0 \<Longrightarrow> (a + of_nat (4 * k)) AND 3 = (0 :: u32)"
proof (induction k)
  case (Suc k)
  have "a + of_nat (4 * Suc k) = (a + of_nat (4 * k)) + 4" by simp
  then show ?case using aligned_add [OF Suc.IH [OF Suc.prems]] by (simp only:)
qed simp

lemma frame_sp_aligned: "frame_sp c AND 3 = 0"
proof -
  have "(reg c ARM_SP AND NOT 7) AND 3 = 0" by (simp add: and.assoc)
  moreover have "(of_nat (4 * 1073741816) :: u32) = - 32" by simp
  ultimately have "((reg c ARM_SP AND NOT 7) + - 32) AND 3 = 0" using aligned_mult by metis
  then show ?thesis by (simp only: frame_sp_def diff_conv_add_uminus)
qed

lemma count_same [simp]:
  "reg (count_entry e c) = reg c" "xpsr (count_entry e c) = xpsr c" "it_state (count_entry e c) = it_state c"
  "sram (count_entry e c) = sram c" "sram_base (count_entry e c) = sram_base c" "tz_enabled (count_entry e c) = tz_enabled c"
  "secure (count_entry e c) = secure c" "nvic (count_entry e c) = nvic c" "use_psp (count_entry e c) = use_psp c"
  "msp (count_entry e c) = msp c" "psp (count_entry e c) = psp c" "primask (count_entry e c) = primask c"
  "basepri (count_entry e c) = basepri c" "faultmask (count_entry e c) = faultmask c" "vtor (count_entry e c) = vtor c"
  "vtor_s (count_entry e c) = vtor_s c" "in_sram (count_entry e c) a = in_sram c a" "in_rom (count_entry e c) a = in_rom c a"
  "in_flash (count_entry e c) a = in_flash c a"
  by (simp_all add: count_entry_def Let_def in_sram_def in_rom_def in_flash_def)

lemma count_derived [simp]:
  "arm_sp_is_psp (count_entry e c) = arm_sp_is_psp c" "push_frame_words (count_entry e c) = push_frame_words c"
  "exc_return_value b t (count_entry e c) = exc_return_value b t c" "exc_target_secure e (count_entry e c) = exc_target_secure e c"
  by (simp_all add: arm_sp_is_psp_def push_frame_words_def saved_xpsr_def exc_return_value_def exc_target_secure_def)

lemma exc_return_frame [simp]:
  "exc_return_value b t (c\<lparr>sram := m\<rparr>) = exc_return_value b t c" "exc_return_value b t (c\<lparr>it_state := i\<rparr>) = exc_return_value b t c"
  "exc_return_value b t (c\<lparr>reg := r\<rparr>) = exc_return_value b t c" "exc_return_value b t (c\<lparr>psp := x\<rparr>) = exc_return_value b t c"
  "exc_return_value b t (c\<lparr>msp := x\<rparr>) = exc_return_value b t c"
  by (simp_all add: exc_return_value_def)

lemma stack_frame_eq:
  assumes "frame_in_sram (frame_sp c) c"
  shows "stack_frame env e b t c =
    c\<lparr>sram := put_words (frame_sp c - sram_base c) (push_frame_words c) (sram c), it_state := 0,
      reg := (reg c)(ARM_SP := if arm_sp_is_psp c then msp c else frame_sp c, ARM_LR := exc_return_value b t c),
      psp := (if arm_sp_is_psp c then frame_sp c else psp c), msp := (if arm_sp_is_psp c then msp c else frame_sp c),
      xpsr := (xpsr c AND NOT 0x1FF) OR (of_nat e AND 0x1FF) OR 0x1000000\<rparr>"
proof -
  have "length (push_frame_words c) = 8" by (simp add: push_frame_words_def)
  then have "write_words env (frame_sp c) (push_frame_words c) c =
      c\<lparr>sram := put_words (frame_sp c - sram_base c) (push_frame_words c) (sram c)\<rparr>"
    using assms by (intro write_words_sram frame_sp_aligned) (simp add: frame_in_sram_def)
  then show ?thesis
    unfolding stack_frame_def Let_def frame_sp_def [symmetric] by (simp add: set_reg_def)
qed

lemma handler_xpsr:
  assumes "0 < e" "e < 512" shows "((x AND NOT 0x1FF) OR (of_nat e AND 0x1FF) OR 0x1000000) AND 0x1FF \<noteq> (0 :: u32)"
proof -
  have 1: "of_nat e AND 0x1FF = (of_nat e :: u32)"
  proof -
    have "(of_nat e :: u32) AND mask 9 = of_nat e"
      using assms by (simp flip: take_bit_eq_mask add: take_bit_of_nat take_bit_nat_eq_self)
    then show ?thesis by (simp add: mask_eq_exp_minus_1)
  qed
  have "((x AND NOT 0x1FF) OR (of_nat e AND 0x1FF) OR 0x1000000) AND 0x1FF = of_nat e AND (0x1FF :: u32)"
    by (simp add: bit.conj_disj_distrib2 and.assoc)
  then show ?thesis using assms 1 nat32 [of e] by auto
qed

lemma switch_layout [simp]:
  "in_sram (arm_switch_security_state b c) a = in_sram c a" "in_rom (arm_switch_security_state b c) a = in_rom c a"
  "in_flash (arm_switch_security_state b c) a = in_flash c a" "vtor (arm_switch_security_state b c) = vtor c"
  "vtor_s (arm_switch_security_state b c) = vtor_s c" "sram_base (arm_switch_security_state b c) = sram_base c"
  "tz_enabled (arm_switch_security_state b c) = tz_enabled c"
  by (simp_all add: arm_switch_security_state_def arm_tz_load_sp_bank_def arm_tz_save_sp_bank_def set_reg_def in_sram_def in_rom_def
      in_flash_def Let_def)

lemma count_layout [simp]:
  "in_rom (c\<lparr>tz_secexc_count := n\<rparr>) a = in_rom c a" "in_flash (c\<lparr>tz_secexc_count := n\<rparr>) a = in_flash c a"
  "in_sram (c\<lparr>tz_secexc_count := n\<rparr>) a = in_sram c a"
  by (simp_all add: in_rom_def in_flash_def in_sram_def)

lemma read_table:
  assumes "in_rom c (a AND NOT 3) \<or> in_flash c (a AND NOT 3)" shows "\<exists>v. arm_read32 env a c = (v, c)"
  using assms by (auto simp: arm_read32_def read32_direct_def Let_def)

definition stacked :: "nat \<Rightarrow> 'a arm_cpu_scheme \<Rightarrow> 'a arm_cpu_scheme" where
  "stacked e c =
     (count_entry e c)\<lparr>sram := put_words (frame_sp c - sram_base c) (push_frame_words c) (sram c), it_state := 0,
      reg := (reg c)(ARM_SP := if arm_sp_is_psp c then msp c else frame_sp c,
                     ARM_LR := exc_return_value (secure c) (exc_target_secure e c) c),
      psp := (if arm_sp_is_psp c then frame_sp c else psp c), msp := (if arm_sp_is_psp c then msp c else frame_sp c),
      xpsr := (xpsr c AND NOT 0x1FF) OR (of_nat e AND 0x1FF) OR 0x1000000\<rparr>"

text \<open>What the frame's stack and masks look like while the handler runs.\<close>

definition bg_saved :: "'a arm_cpu_scheme \<Rightarrow> u32 \<times> u32 \<times> bool \<times> u32 \<times> u32 \<times> u32" where
  "bg_saved c = (if arm_sp_is_psp c then msp c else frame_sp c, if arm_sp_is_psp c then frame_sp c else psp c,
                 use_psp c, primask c, basepri c, faultmask c)"

lemma entry_state:
  assumes ok: "entry_ok e c" and c1: "c1 = arm_exception_entry env e c"
  shows "sram c1 = put_words (frame_sp c - sram_base c) (push_frame_words c) (sram c) \<and>
    bg_bank (secure c) c1 = bg_saved c \<and> reg c1 ARM_LR = exc_return_value (secure c) (exc_target_secure e c) c \<and>
    in_handler c1 \<and> tz_enabled c1 = tz_enabled c \<and> (\<not> tz_enabled c \<longrightarrow> secure c1 = secure c) \<and> nvic c1 = nvic c \<and>
    sram_base c1 = sram_base c \<and> (\<forall>a. in_sram c1 a = in_sram c a \<and> in_rom c1 a = in_rom c a \<and> in_flash c1 a = in_flash c a)"
proof -
  let ?bg = "secure c" and ?tgt = "exc_target_secure e c" and ?s = "stacked e c"
  have fr: "frame_sp (count_entry e c) = frame_sp c" by (simp add: frame_sp_def)
  have "frame_in_sram (frame_sp c) (count_entry e c)" using ok by (simp add: entry_ok_def frame_in_sram_def map_disjoint_def)
  then have st: "stack_frame env e ?bg ?tgt (count_entry e c) = ?s"
    using stack_frame_eq [of "count_entry e c" env e ?bg ?tgt] by (simp add: fr stacked_def)
  have h: "in_handler ?s" using ok handler_xpsr [of e "xpsr c"] by (simp add: in_handler_def stacked_def entry_ok_def)
  have live: "live_bank ?s = bg_saved c" by (simp add: live_bank_def bg_saved_def stacked_def)
  have f: "tz_enabled ?s = tz_enabled c" "secure ?s = secure c" "sram ?s = put_words (frame_sp c - sram_base c) (push_frame_words c) (sram c)"
      "nvic ?s = nvic c" "reg ?s ARM_LR = exc_return_value ?bg ?tgt c" "vtor ?s = vtor c" "vtor_s ?s = vtor_s c"
      "in_rom ?s a = in_rom c a" "in_flash ?s a = in_flash c a" "in_sram ?s a = in_sram c a" "sram_base ?s = sram_base c" for a
    by (simp_all add: stacked_def in_rom_def in_flash_def in_sram_def count_entry_def Let_def)
  define s' where "s' = (if tz_enabled ?s \<and> ?tgt \<noteq> ?bg
      then let x = arm_switch_security_state ?tgt ?s in if ?tgt then x\<lparr>tz_secexc_count := tz_secexc_count x + 1\<rparr> else x else ?s)"
  have s': "sram s' = sram ?s \<and> bg_bank ?bg s' = bg_saved c \<and> reg s' ARM_LR = reg ?s ARM_LR \<and> xpsr s' = xpsr ?s \<and>
      tz_enabled s' = tz_enabled c \<and> (\<not> tz_enabled c \<longrightarrow> secure s' = secure c) \<and> nvic s' = nvic c \<and>
      vtor s' = vtor c \<and> vtor_s s' = vtor_s c \<and> sram_base s' = sram_base c \<and>
      (\<forall>a. in_sram s' a = in_sram c a \<and> in_rom s' a = in_rom c a \<and> in_flash s' a = in_flash c a)"
  proof (cases "tz_enabled ?s \<and> ?tgt \<noteq> ?bg")
    case True
    let ?x = "arm_switch_security_state ?tgt ?s"
    have sb: "bank_of ?bg ?x = live_bank ?s" "secure ?x = ?tgt" "xpsr ?x = xpsr ?s" "tz_enabled ?x" "sram ?x = sram ?s" "nvic ?x = nvic ?s"
        "reg ?x ARM_LR = reg ?s ARM_LR"
      using switch_bank(1-8) [of ?s ?tgt] switch_bank(9) [of ?s ?tgt ARM_LR] True h f by simp_all
    have "bank_of ?bg (?x\<lparr>tz_secexc_count := n\<rparr>) = bank_of ?bg ?x" for n by (simp add: bank_of_def)
    then show ?thesis using sb True f live by (cases ?tgt) (simp_all add: s'_def Let_def bg_bank_def)
  next
    case False
    then show ?thesis using live f by (auto simp: s'_def bg_bank_def)
  qed
  let ?table = "if tz_enabled s' \<and> ?tgt then vtor_s s' else vtor s'"
  have "in_rom s' ((?table + of_nat e * 4) AND NOT 3) \<or> in_flash s' ((?table + of_nat e * 4) AND NOT 3)"
    using ok s' by (auto simp: entry_ok_def)
  from read_table [OF this] obtain v where v: "arm_read32 env (?table + of_nat e * 4) s' = (v, s')" by blast
  have c1': "c1 = (set_reg ARM_PC (v AND NOT 1) s')\<lparr>cpu_off := False, cpu_cycles := cpu_cycles s' + 12\<rparr>"
    unfolding c1 arm_exception_entry_def Let_def count_same count_derived st s'_def [unfolded Let_def, symmetric] v by simp
  moreover from c1' have "bg_bank ?bg c1 = bg_bank ?bg s'" by (simp add: set_reg_def bg_bank_def live_bank_def bank_of_def)
  moreover from c1' have "in_sram c1 a = in_sram s' a" "in_rom c1 a = in_rom s' a" "in_flash c1 a = in_flash s' a" for a
    by (simp_all add: set_reg_def in_sram_def in_rom_def in_flash_def)
  ultimately show ?thesis using s' h f c1' by (simp add: set_reg_def in_handler_def)
qed

subsection \<open>Return\<close>

lemma unstacked_sp:
  assumes "x AND 3 = (0 :: u32)" shows "(x AND NOT 7) - 32 + 32 + (if x AND 4 \<noteq> 0 then 4 else 0) = x"
proof -
  have b4: "bit (4 :: u32) n \<longleftrightarrow> n = 2" for n by (simp add: bit_numeral_rec bit_1_iff split: nat.splits) arith
  have "x AND 4 = (if bit x 2 then 4 else 0)"
  proof (rule bit_word_eqI)
    fix n show "bit (x AND 4) n = bit (if bit x 2 then 4 else 0 :: u32) n" using b4 [of n] by (auto simp: bit_and_iff)
  qed
  then have "(if x AND 4 \<noteq> 0 then 4 else 0) = x AND 4" by auto
  moreover have "(x AND NOT 7) + (x AND 4) = (x AND NOT 7) OR (x AND 4)"
    by (rule disjunctive_add_eq_or) (simp add: and.left_commute and.assoc)
  moreover have "(x AND NOT 7) OR (x AND 4) OR (x AND 3) = x AND (NOT 7 OR 4 OR 3)"
    by (simp only: bit.conj_disj_distrib)
  ultimately show ?thesis using assms by simp
qed

definition handler_keeps :: "'a arm_cpu_scheme \<Rightarrow> 'a arm_cpu_scheme \<Rightarrow> 'a arm_cpu_scheme \<Rightarrow> bool" where
  "handler_keeps c c1 c2 \<longleftrightarrow>
     tz_enabled c2 = tz_enabled c1 \<and> (\<not> tz_enabled c1 \<longrightarrow> secure c2 = secure c1) \<and> in_handler c2 \<and>
     bg_bank (secure c) c2 = bg_bank (secure c) c1 \<and> sram_base c2 = sram_base c \<and> frame_in_sram (frame_sp c) c2 \<and>
     (\<forall>j < 32. sram c2 (frame_sp c - sram_base c + of_nat j) = sram c1 (frame_sp c - sram_base c + of_nat j))"

definition handler_contract :: "'a arm_cpu_scheme \<Rightarrow> 'a arm_cpu_scheme \<Rightarrow> 'a arm_cpu_scheme \<Rightarrow> bool" where
  "handler_contract c c1 c2 \<longleftrightarrow> handler_keeps c c1 c2 \<and> memo_ok (nvic c2) \<and> (\<forall>x. \<not> is_pending (nvic c2) x)"

lemma frame_words:
  assumes "entry_ok e c" "c1 = arm_exception_entry env e c" "handler_keeps c c1 c2"
  shows "map (\<lambda>k. le32 (sram c2) (frame_sp c - sram_base c + of_nat (4 * k))) [0..<8] = push_frame_words c"
proof (rule nth_equalityI)
  show "length (map (\<lambda>k. le32 (sram c2) (frame_sp c - sram_base c + of_nat (4 * k))) [0..<8]) = length (push_frame_words c)"
    by (simp add: push_frame_words_def)
  fix k assume "k < length (map (\<lambda>k. le32 (sram c2) (frame_sp c - sram_base c + of_nat (4 * k))) [0..<8])"
  then have k: "k < 8" by simp
  let ?i = "frame_sp c - sram_base c"
  have same: "sram c2 (?i + of_nat j) = sram c1 (?i + of_nat j)" if "j < 32" for j
    using assms(3) that by (simp add: handler_keeps_def)
  have "le32 (sram c2) (?i + of_nat (4 * k)) = le32 (sram c1) (?i + of_nat (4 * k))"
    using same [of "4 * k"] same [of "4 * k + 1"] same [of "4 * k + 2"] same [of "4 * k + 3"] k
    by (simp add: le32_def ac_simps)
  also have "\<dots> = push_frame_words c ! k"
    using entry_state [OF assms(1,2)] k le32_put_words [of k "push_frame_words c"] by (simp only:) (simp add: push_frame_words_def)
  finally show "map (\<lambda>k. le32 (sram c2) (?i + of_nat (4 * k))) [0..<8] ! k = push_frame_words c ! k" using k by simp
qed

lemma unbank:
  assumes "tz_enabled c2 = tz_enabled c" "\<not> tz_enabled c \<longrightarrow> secure c2 = secure c" "in_handler c2"
    and er: "bit er 6 \<longleftrightarrow> (tz_enabled c \<longrightarrow> secure c)"
  defines "r \<equiv> (if tz_enabled c2 \<and> bit er 6 \<noteq> secure c2 then arm_switch_security_state (bit er 6) c2 else c2)"
  shows "live_bank r = bg_bank (secure c) c2 \<and> secure r = secure c \<and> sram r = sram c2 \<and> nvic r = nvic c2 \<and> (\<forall>a. in_sram r a = in_sram c2 a) \<and>
    (\<forall>a. in_flash r a = in_flash c2 a) \<and> (\<forall>a. in_rom r a = in_rom c2 a) \<and> sram_base r = sram_base c2 \<and> (\<forall>i. i \<noteq> ARM_SP \<longrightarrow> reg r i = reg c2 i)"
proof (cases "tz_enabled c2 \<and> bit er 6 \<noteq> secure c2")
  case True
  then have "secure c2 \<noteq> secure c" "bit er 6 = secure c" using assms by auto
  then show ?thesis
    using switch_bank(1-8) [of c2 "secure c"] switch_bank(9) [of c2 "secure c"] True assms(3) by (simp add: r_def bg_bank_def)
next
  case False
  then show ?thesis using assms by (auto simp: bg_bank_def)
qed

lemma check_idle_same:
  assumes "memo_ok (nvic c)" "\<forall>x. \<not> is_pending (nvic c) x"
  shows "\<exists>n. arm_nvic_check_pending env c = c\<lparr>nvic := n\<rparr>"
  using dispatch_idle [OF assms, of env] by (auto simp: set_nvic_def intro: exI [of _ "nvic c"])

lemma pending_active [simp]: "is_pending (nv\<lparr>active_exception := e\<rparr>) x = is_pending nv x" "memo_ok (nv\<lparr>active_exception := e\<rparr>) = memo_ok nv"
  by (simp_all add: is_pending_def memo_ok_def)

lemma unstack_state:
  assumes bank: "live_bank r = bg_saved c" and mem: "frame_in_sram (frame_sp c) r"
    and ws: "map (\<lambda>k. le32 (sram r) (frame_sp c - sram_base r + of_nat (4 * k))) [0..<8] = push_frame_words c"
    and ok: "entry_ok e c" and bits: "bit er 3 = (\<not> in_handler c)" "bit er 2 = arm_sp_is_psp c"
  shows "\<exists>ms ps. unstack_frame env er r = r\<lparr>
      msp := ms, psp := ps,
      reg := (reg r)(0 := reg c 0, 1 := reg c 1, 2 := reg c 2, 3 := reg c 3, 12 := reg c 12, ARM_LR := reg c ARM_LR,
                     ARM_PC := reg c ARM_PC, ARM_SP := reg c ARM_SP),
      xpsr := (if in_handler c then saved_xpsr c AND NOT 0x200 else (saved_xpsr c AND NOT 0x200) AND NOT 0x1FF),
      it_state := it_state c, use_psp := (if in_handler c then use_psp r else arm_sp_is_psp c)\<rparr> \<and>
      (if arm_sp_is_psp c then ms = msp c else ps = psp c)"
proof -
  let ?psp = "arm_sp_is_psp c" and ?r = "r\<lparr>msp := reg r ARM_SP\<rparr>"
  have b: "reg r ARM_SP = (if ?psp then msp c else frame_sp c)" "psp r = (if ?psp then frame_sp c else psp c)"
    using bank by (simp_all add: live_bank_def bg_saved_def)
  have dj: "map_disjoint ?r" "\<And>k. k < 8 \<Longrightarrow> in_sram ?r (frame_sp c + of_nat (4 * k))"
    using mem by (simp_all add: frame_in_sram_def map_disjoint_def in_sram_def in_rom_def in_flash_def)
  have sp: "(if bit er 2 then psp ?r else msp ?r) = frame_sp c" using b bits by simp
  have rd: "read_words env (frame_sp c) 8 ?r = (push_frame_words c, ?r)"
    using read_words_sram [OF frame_sp_aligned [of c] dj(2) dj(1), of 8 env] ws by simp
  have pc: "reg c ARM_PC AND NOT 1 = reg c ARM_PC"
  proof -
    have "reg c ARM_PC = (reg c ARM_PC AND 1) OR (reg c ARM_PC AND NOT 1)" by (rule bit_word_eqI) (auto simp: bit_simps)
    then show ?thesis using ok by (simp add: entry_ok_def)
  qed
  note it = it_roundtrip [of "saved_xpsr c" "xpsr c" "it_state c" "reg c ARM_SP AND 4 \<noteq> 0", OF saved_xpsr_def]
  have ld: "load_frame (push_frame_words c) ?r = ?r\<lparr>
      reg := (reg r)(0 := reg c 0, 1 := reg c 1, 2 := reg c 2, 3 := reg c 3, 12 := reg c 12, ARM_LR := reg c ARM_LR, ARM_PC := reg c ARM_PC),
      xpsr := saved_xpsr c, it_state := it_state c\<rparr>"
    unfolding load_frame_def Let_def using it(1) by (simp add: push_frame_words_def pc [simplified])
  have newsp: "frame_sp c + 32 + (if bit (saved_xpsr c) 9 then 4 else 0) = reg c ARM_SP"
    using unstacked_sp [of "reg c ARM_SP"] ok unfolding it(2) frame_sp_def by (simp add: entry_ok_def)
  let ?l = "load_frame (push_frame_words c) ?r"
  have x: "xpsr ?l = saved_xpsr c" by (simp add: ld)
  have "unstack_frame env er r =
      (if in_handler c then set_reg ARM_SP (reg c ARM_SP) (?l\<lparr>xpsr := saved_xpsr c AND NOT 0x200, msp := reg c ARM_SP\<rparr>)
       else set_reg ARM_SP (reg c ARM_SP)
         (if ?psp then ?l\<lparr>xpsr := (saved_xpsr c AND NOT 0x200) AND NOT 0x1FF, use_psp := ?psp, psp := reg c ARM_SP\<rparr>
          else ?l\<lparr>xpsr := (saved_xpsr c AND NOT 0x200) AND NOT 0x1FF, use_psp := ?psp, msp := reg c ARM_SP\<rparr>))"
    unfolding unstack_frame_def Let_def unfolding sp unfolding rd prod.case unfolding x unfolding newsp unfolding bits by simp
  also have "\<dots> = r\<lparr>
      msp := (if ?psp \<and> \<not> in_handler c then msp c else reg c ARM_SP), psp := (if ?psp \<and> \<not> in_handler c then reg c ARM_SP else psp r),
      reg := (reg r)(0 := reg c 0, 1 := reg c 1, 2 := reg c 2, 3 := reg c 3, 12 := reg c 12, ARM_LR := reg c ARM_LR,
                     ARM_PC := reg c ARM_PC, ARM_SP := reg c ARM_SP),
      xpsr := (if in_handler c then saved_xpsr c AND NOT 0x200 else (saved_xpsr c AND NOT 0x200) AND NOT 0x1FF),
      it_state := it_state c, use_psp := (if in_handler c then use_psp r else ?psp)\<rparr>"
    unfolding ld using b(1) by (simp add: set_reg_def)
  finally show ?thesis using b(2) by (auto simp: in_handler_def arm_sp_is_psp_def)
qed

lemma frame_xpsr:
  assumes "\<not> bit (xpsr c) 9"
  shows "(if in_handler c then saved_xpsr c AND NOT 0x200 else (saved_xpsr c AND NOT 0x200) AND NOT 0x1FF) AND NOT IT_BITS = xpsr c AND NOT IT_BITS"
proof -
  have b9: "bit (0x200 :: u32) n \<longleftrightarrow> n = 9" for n by (simp add: bit_numeral_rec bit_1_iff split: nat.splits) arith
  have no9: "xpsr c AND NOT 0x200 = xpsr c"
  proof (rule bit_word_eqI)
    fix n assume "n < LENGTH(32)"
    then show "bit (xpsr c AND NOT 0x200) n = bit (xpsr c) n"
      using b9 [of n] assms by (simp only: bit_and_iff bit_not_iff) auto
  qed
  have m: "(saved_xpsr c AND NOT 0x200) AND NOT IT_BITS = xpsr c AND NOT IT_BITS"
    using it_roundtrip(3) [of "saved_xpsr c" "xpsr c" "it_state c" "reg c ARM_SP AND 4 \<noteq> 0", OF saved_xpsr_def] by (simp only: no9)
  show ?thesis
  proof (cases "in_handler c")
    case True
    then show ?thesis using m by (simp only: if_True)
  next
    case False
    then have z: "xpsr c AND 0x1FF = 0" by (simp add: in_handler_def)
    have "xpsr c = (xpsr c AND 0x1FF) OR (xpsr c AND NOT 0x1FF)" by (rule bit_word_eqI) (auto simp: bit_simps)
    then have th: "xpsr c AND NOT 0x1FF = xpsr c" using z by simp
    have "((saved_xpsr c AND NOT 0x200) AND NOT 0x1FF) AND NOT IT_BITS = ((saved_xpsr c AND NOT 0x200) AND NOT IT_BITS) AND NOT 0x1FF"
      by (simp only: ac_simps)
    also have "\<dots> = (xpsr c AND NOT 0x1FF) AND NOT IT_BITS" unfolding m by (simp only: ac_simps)
    finally show ?thesis using False th by (simp only: if_False)
  qed
qed

text \<open>The state a return reaches before the pending check.\<close>

definition returned_to :: "'a arm_cpu_scheme \<Rightarrow> 'a arm_cpu_scheme \<Rightarrow> 'a arm_cpu_scheme \<Rightarrow> bool" where
  "returned_to c c2 u \<longleftrightarrow>
     (\<forall>i \<in> {0, 1, 2, 3, 12, ARM_SP, ARM_LR, ARM_PC}. reg u i = reg c i) \<and> (\<forall>i \<in> {4..11}. reg u i = reg c2 i) \<and>
     it_state u = it_state c \<and> xpsr u AND NOT IT_BITS = xpsr c AND NOT IT_BITS \<and> use_psp u = use_psp c \<and>
     (primask u, basepri u, faultmask u) = (primask c, basepri c, faultmask c) \<and> secure u = secure c \<and>
     (if arm_sp_is_psp c then msp u = msp c else psp u = psp c)"

lemma return_core:
  assumes ok: "entry_ok e c" and c1: "c1 = arm_exception_entry env e c" and h: "handler_keeps c c1 c2"
  shows "\<exists>u. returned_to c c2 u \<and> nvic u = nvic c2 \<and> dbg_halted u = dbg_halted c2 \<and>
    exception_return env (reg c1 ARM_LR) c2 =
      (let x = arm_nvic_check_pending env (set_nvic (\<lambda>nv. nv\<lparr>active_exception := unat (xpsr u AND 0x1FF)\<rparr>) u)
       in x\<lparr>cpu_cycles := cpu_cycles x + 12\<rparr>)"
proof -
  let ?er = "reg c1 ARM_LR"
  note en = entry_state [OF ok c1]
  note hc = h [unfolded handler_keeps_def]
  have er: "?er = exc_return_value (secure c) (exc_target_secure e c) c" using en by simp
  define r where "r = (if tz_enabled c2 \<and> bit ?er 6 \<noteq> secure c2 then arm_switch_security_state (bit ?er 6) c2 else c2)"
  have u: "live_bank r = bg_saved c" "secure r = secure c" "sram r = sram c2" "nvic r = nvic c2" "sram_base r = sram_base c"
      "frame_in_sram (frame_sp c) r" "\<And>i. i \<noteq> ARM_SP \<Longrightarrow> reg r i = reg c2 i"
    using unbank [of c2 c ?er] en hc unfolding er r_def by (auto simp: exc_return_bits frame_in_sram_def map_disjoint_def)
  have dbg: "dbg_halted r = dbg_halted c2"
    by (simp add: r_def arm_switch_security_state_def arm_tz_load_sp_bank_def arm_tz_save_sp_bank_def set_reg_def Let_def)
  have ws: "map (\<lambda>k. le32 (sram r) (frame_sp c - sram_base r + of_nat (4 * k))) [0..<8] = push_frame_words c"
    using frame_words [OF ok c1 h] u by simp
  obtain ms ps where un: "unstack_frame env ?er r = r\<lparr>
      msp := ms, psp := ps,
      reg := (reg r)(0 := reg c 0, 1 := reg c 1, 2 := reg c 2, 3 := reg c 3, 12 := reg c 12, ARM_LR := reg c ARM_LR,
                     ARM_PC := reg c ARM_PC, ARM_SP := reg c ARM_SP),
      xpsr := (if in_handler c then saved_xpsr c AND NOT 0x200 else (saved_xpsr c AND NOT 0x200) AND NOT 0x1FF),
      it_state := it_state c, use_psp := (if in_handler c then use_psp r else arm_sp_is_psp c)\<rparr>"
      "if arm_sp_is_psp c then ms = msp c else ps = psp c"
    using unstack_state [OF u(1,6) ws ok, of ?er env] exc_return_bits [of "secure c" "exc_target_secure e c" c] unfolding er by blast
  let ?u = "unstack_frame env ?er r"
  have "use_psp r = use_psp c" "(primask r, basepri r, faultmask r) = (primask c, basepri c, faultmask c)"
    using u(1) by (simp_all add: live_bank_def bg_saved_def)
  moreover have "xpsr ?u AND NOT IT_BITS = xpsr c AND NOT IT_BITS"
    unfolding un(1) using frame_xpsr [of c] ok by (simp add: entry_ok_def)
  ultimately have "returned_to c c2 ?u" using u(2,7) un(2) unfolding un(1) returned_to_def
    by (auto simp: arm_sp_is_psp_def in_handler_def)
  moreover have "nvic ?u = nvic c2" "dbg_halted ?u = dbg_halted c2" using un u dbg by simp_all
  ultimately show ?thesis
    unfolding exception_return_def Let_def r_def [symmetric] by blast
qed

text \<open>
  C3. A handler returns to the interrupted code: for every exception taken from Thread or Handler
  mode, on either stack, within one security state or across the two, whatever the handler did to
  the registers, the flags, memory outside the frame and the other security state's stack, its
  exception return (with the EXC_RETURN value it was given, its stack pointer restored and no
  further exception pending) restores R0-R3, R12, SP, LR, PC, the flags and the interrupted
  exception number, ITSTATE, the stack selection, the exception masks and the security state, and
  leaves R4-R11 as the handler left them.
\<close>

theorem exception_return_restores:
  assumes ok: "entry_ok e c" and h: "handler_contract c (arm_exception_entry env e c) c2"
    and c3: "c3 = exception_return env (reg (arm_exception_entry env e c) ARM_LR) c2"
  shows "(\<forall>i \<in> {0, 1, 2, 3, 12, ARM_SP, ARM_LR, ARM_PC}. reg c3 i = reg c i) \<and> (\<forall>i \<in> {4..11}. reg c3 i = reg c2 i) \<and>
         it_state c3 = it_state c \<and> xpsr c3 AND NOT IT_BITS = xpsr c AND NOT IT_BITS \<and> use_psp c3 = use_psp c \<and>
         (primask c3, basepri c3, faultmask c3) = (primask c, basepri c, faultmask c) \<and> secure c3 = secure c \<and>
         (if arm_sp_is_psp c then msp c3 = msp c else psp c3 = psp c)"
proof -
  have hk: "handler_keeps c (arm_exception_entry env e c) c2" and idle: "memo_ok (nvic c2)" "\<forall>x. \<not> is_pending (nvic c2) x"
    using h by (simp_all add: handler_contract_def)
  obtain u where u: "returned_to c c2 u" "nvic u = nvic c2" and c3': "c3 =
      (let x = arm_nvic_check_pending env (set_nvic (\<lambda>nv. nv\<lparr>active_exception := unat (xpsr u AND 0x1FF)\<rparr>) u)
       in x\<lparr>cpu_cycles := cpu_cycles x + 12\<rparr>)"
    using return_core [OF ok refl hk] unfolding c3 by blast
  obtain n where "arm_nvic_check_pending env (set_nvic (\<lambda>nv. nv\<lparr>active_exception := unat (xpsr u AND 0x1FF)\<rparr>) u) = u\<lparr>nvic := n\<rparr>"
    using check_idle_same [of "set_nvic (\<lambda>nv. nv\<lparr>active_exception := unat (xpsr u AND 0x1FF)\<rparr>) u" env] idle u(2) by (auto simp: set_nvic_def)
  then show ?thesis using u(1) unfolding c3' by (simp add: returned_to_def Let_def)
qed

lemma handler_contract_refl:
  assumes "entry_ok e c" "memo_ok (nvic c)" "\<forall>x. \<not> is_pending (nvic c) x"
  shows "handler_contract c (arm_exception_entry env e c) (arm_exception_entry env e c)"
  using entry_state [OF assms(1) refl, of env] assms
  by (auto simp: handler_contract_def handler_keeps_def entry_ok_def frame_in_sram_def map_disjoint_def)

text \<open>A Secure interrupt (line 3) taken from Non-secure Thread mode and returned from at once.\<close>

definition ns_thread :: arm_cpu where
  "ns_thread = m33\<lparr>reg := (\<lambda>_. 0)(0 := 7, ARM_SP := 0x20030004, ARM_PC := 0x1000), flash_end := 0x180000\<rparr>"

lemma ns_thread_entry:
  assumes "e = 19 \<or> e = 21"
  shows "entry_ok e ns_thread"
proof -
  have sp: "frame_sp ns_thread = 0x2002FFE0" by (simp add: frame_sp_def ns_thread_def m33_def)
  have "in_sram ns_thread (0x2002FFE0 + of_nat (4 * k))" if "k < 8" for k
  proof -
    have "k \<in> {0, 1, 2, 3, 4, 5, 6, 7}" using that by auto
    then show ?thesis by (auto simp: in_sram_def ns_thread_def m33_def)
  qed
  moreover have "map_disjoint ns_thread"
    by (auto simp: map_disjoint_def in_sram_def in_flash_def in_rom_def ns_thread_def m33_def word_less_nat_alt word_le_nat_alt)
  moreover have "in_flash ns_thread ((t + of_nat e * 4) AND NOT 3)" if "t \<in> {vtor ns_thread, vtor_s ns_thread}" for t
    using that assms by (auto simp: in_flash_def ns_thread_def m33_def)
  ultimately show ?thesis
    unfolding entry_ok_def frame_in_sram_def sp using assms by (auto simp add: ns_thread_def m33_def bit_numeral_rec)
qed

theorem exception_return_restores_witness:
  "reg (exception_return bare_env (reg (arm_exception_entry bare_env 19 ns_thread) ARM_LR) (arm_exception_entry bare_env 19 ns_thread)) 0 = 7 \<and>
   reg (exception_return bare_env (reg (arm_exception_entry bare_env 19 ns_thread) ARM_LR) (arm_exception_entry bare_env 19 ns_thread)) ARM_SP = 0x20030004"
proof -
  have ok: "entry_ok 19 ns_thread" by (rule ns_thread_entry) simp
  have "memo_ok (nvic ns_thread)" "\<forall>x. \<not> is_pending (nvic ns_thread) x"
    by (simp_all add: ns_thread_def m33_def memo_ok_def is_pending_def)
  from exception_return_restores [OF ok handler_contract_refl [OF ok this] refl, of bare_env]
  show ?thesis by (simp add: ns_thread_def)
qed

subsection \<open>An interrupt that is never looked at again\<close>

lemma is_next_cong:
  assumes "iser a = iser b" "ispr a = ispr b" "sys_pending a = sys_pending b" "shpr a = shpr b" "ipr a = ipr b"
  shows "is_next a e = is_next b e"
  using assms priority_cong [of a b] by (simp add: is_next_def is_pending_def)

lemma entry_ok_nvic: "entry_ok e (set_nvic f c) = entry_ok e c"
  by (simp add: entry_ok_def frame_in_sram_def frame_sp_def map_disjoint_def in_sram_def in_rom_def in_flash_def set_nvic_def)

lemma clear_line_same [simp]:
  "iser (clear_line e nv) = iser nv" "shpr (clear_line e nv) = shpr nv" "ipr (clear_line e nv) = ipr nv"
  "has_pending (clear_line e nv) = has_pending nv" "scan_valid (clear_line e nv) = scan_valid nv"
  by (simp_all add: clear_line_def)

lemma clear_line_cong:
  "ispr a = ispr b \<Longrightarrow> ispr (clear_line e a) = ispr (clear_line e b)"
  "sys_pending a = sys_pending b \<Longrightarrow> sys_pending (clear_line e a) = sys_pending (clear_line e b)"
  by (simp_all add: clear_line_def)

text \<open>
  C21. A masked interrupt can be forgotten: let the core run in Thread mode with BASEPRI masking a
  pending interrupt \<open>b\<close>, and let an interrupt \<open>e\<close> above the mask be taken and return. Entering
  \<open>e\<close> clears the flag that gates every later check although \<open>b\<close> is still pending, the check of
  the return finds \<open>b\<close> masked and leaves the flag clear, and so lifting BASEPRI looks at nothing:
  afterwards \<open>b\<close> is pending, enabled and above the execution priority, yet neither the
  instruction boundary nor a later unmasking dispatches it.
\<close>

theorem masked_irq_lost:
  assumes ok: "entry_ok e c" and thread: "xpsr c AND 0x1FF = 0"
    and memo: "memo_ok (nvic c)" and e: "is_next (nvic c) e" "\<not> dbg_halted c" "arm_nvic_get_priority (nvic c) e < arm_nvic_execution_priority c"
    and b: "is_next (clear_line e (nvic c)) b" "basepri c \<noteq> 0" "uint (basepri c AND 0xFF) \<le> arm_nvic_get_priority (nvic c) b"
    and c1: "c1 = arm_nvic_check_pending env c" and c3: "c3 = msr_basepri env 0 (exception_return env (reg c1 ARM_LR) c1)"
  shows "is_next (nvic c3) b \<and> arm_nvic_get_priority (nvic c3) b < arm_nvic_execution_priority c3 \<and> \<not> has_pending (nvic c3) \<and>
         boundary_check env c3 = c3 \<and> msr_basepri env 0 c3 = c3 \<and> exec_cps env False c3 = c3\<lparr>primask := 0\<rparr>"
proof -
  let ?f = "\<lambda>nv. (clear_line e ((memo_scan nv)\<lparr>has_pending := False, scan_valid := False\<rparr>))\<lparr>active_exception := e\<rparr>"
  let ?t = "set_nvic ?f c"
  have t: "take_exception e (set_nvic memo_scan c) = ?t" by (simp add: take_exception_def set_nvic_def)
  have c1': "c1 = arm_exception_entry env e ?t" using dispatch_next [OF memo e(1), of env] e(2,3) c1 t by simp
  have okt: "entry_ok e ?t" using ok by (simp add: entry_ok_nvic)
  note en = entry_state [OF okt c1']
  have keep: "handler_keeps ?t c1 c1"
    using en okt by (auto simp: handler_keeps_def entry_ok_def frame_in_sram_def map_disjoint_def)
  obtain u where u: "returned_to ?t c1 u" "nvic u = nvic c1" and ret: "exception_return env (reg c1 ARM_LR) c1 =
      (let x = arm_nvic_check_pending env (set_nvic (\<lambda>nv. nv\<lparr>active_exception := unat (xpsr u AND 0x1FF)\<rparr>) u)
       in x\<lparr>cpu_cycles := cpu_cycles x + 12\<rparr>)"
    using return_core [OF okt c1' keep] by blast
  have thr: "xpsr u AND 0x1FF = 0"
  proof -
    have "(xpsr u AND NOT IT_BITS) AND 0x1FF = (xpsr c AND NOT IT_BITS) AND 0x1FF" using u(1) by (simp add: returned_to_def)
    moreover have "(x AND NOT IT_BITS) AND 0x1FF = x AND 0x1FF" for x :: u32 by (simp add: and.assoc)
    ultimately show ?thesis using thread by simp
  qed
  let ?x = "set_nvic (\<lambda>nv. nv\<lparr>active_exception := 0\<rparr>) u"
  have nv: "nvic u = ?f (nvic c)" using u(2) en by simp
  have nb: "is_next (nvic ?x) b"
    using b(1) is_next_cong [of "nvic ?x" "clear_line e (nvic c)" b]
    by (simp add: nv clear_line_cong [of "(memo_scan (nvic c))\<lparr>has_pending := False, scan_valid := False\<rparr>" "nvic c"])
  have pr: "arm_nvic_get_priority (nvic ?x) = arm_nvic_get_priority (nvic c)" by (rule priority_cong) (simp_all add: nv)
  have p4: "4 \<le> b" using nb by (auto simp: is_next_def is_pending_def split: if_splits)
  have masks: "primask u = primask c" "basepri u = basepri c" "faultmask u = faultmask c"
    using u(1) by (simp_all add: returned_to_def)
  have "4 \<le> e" using e(1) by (auto simp: is_next_def is_pending_def split: if_splits)
  then have open': "\<not> bit (primask c) 0" "\<not> bit (faultmask c) 0"
    using e(3) masked_by_execution_priority [OF priority_nonneg priority_lt, of e "nvic c" c] by auto
  have "\<not> arm_nvic_get_priority (nvic ?x) b < arm_nvic_execution_priority ?x"
    using masked_by_execution_priority [OF priority_nonneg [OF p4] priority_lt, of "nvic ?x" ?x] b(2,3) pr [THEN fun_cong, of b]
    by (simp add: masks)
  then have chk: "arm_nvic_check_pending env ?x = (if dbg_halted u then ?x else set_nvic memo_scan ?x)"
    using dispatch_next [OF _ nb, of env] open' by (simp add: memo_ok_def nv masks)
  define y where "y = arm_nvic_check_pending env ?x"
  have y: "is_next (nvic y) b" "\<not> has_pending (nvic y)" "active_exception (nvic y) = 0" "primask y = primask c" "faultmask y = faultmask c"
    using nb is_next_cong [of "memo_scan (nvic ?x)" "nvic ?x" b] masks unfolding y_def chk by (simp_all add: nv)
  have c3': "c3 = y\<lparr>cpu_cycles := cpu_cycles y + 12, basepri := 0\<rparr>"
    using y(2) unfolding c3 ret thr Let_def by (simp add: y_def msr_basepri_def recheck_def)
  have "arm_nvic_get_priority (nvic c3) b < arm_nvic_execution_priority c3"
    using masked_by_execution_priority [OF priority_nonneg [OF p4] priority_lt, of "nvic c3" c3] y open' by (simp add: c3')
  then show ?thesis using y
    by (simp add: c3' boundary_check_def msr_basepri_def recheck_def exec_cps_def)
qed

text \<open>BASEPRI 0x40 masks the pending line 3 (priority 0x60) and lets the pending line 5 (priority 0x20) through.\<close>

definition masked_cpu :: arm_cpu where
  "masked_cpu = ns_thread\<lparr>tz_enabled := False, basepri := 0x40, nvic := (nvic m33)\<lparr>ispr := (\<lambda>_. 0)(0 := 0x28), iser := (\<lambda>_. 0)(0 := 0x28),
     ipr := (\<lambda>_. 0)(3 := 0x60, 5 := 0x20), has_pending := True\<rparr>\<rparr>"

lemma masked_cpu_nvic:
  "sys_pending (nvic masked_cpu) = 0" "ispr (nvic masked_cpu) = (\<lambda>_. 0)(0 := 0x28)" "iser (nvic masked_cpu) = (\<lambda>_. 0)(0 := 0x28)"
  by (simp_all add: masked_cpu_def m33_def)

lemma masked_cpu_pending:
  "is_pending (nvic masked_cpu) x \<longleftrightarrow> x = 19 \<or> x = 21" "is_pending (clear_line 21 (nvic masked_cpu)) x \<longleftrightarrow> x = 19"
proof -
  have b: "bit (0x28 :: u32) n \<longleftrightarrow> n = 3 \<or> n = 5" "bit (8 :: u32) n \<longleftrightarrow> n = 3" for n
    by (auto simp: bit_numeral_rec bit_1_iff split: nat.splits)
  have c: "clear_line 21 (nvic masked_cpu) = (nvic masked_cpu)\<lparr>ispr := (\<lambda>_. 0)(0 := 8)\<rparr>"
    by (simp add: clear_line_def masked_cpu_nvic fun_upd_def fun_eq_iff)
  show "is_pending (nvic masked_cpu) x \<longleftrightarrow> x = 19 \<or> x = 21" "is_pending (clear_line 21 (nvic masked_cpu)) x \<longleftrightarrow> x = 19"
    unfolding c using b [of "x - 16"] by (cases "x < 16 \<or> 48 \<le> x"; force simp: is_pending_def masked_cpu_nvic)+
qed

theorem masked_irq_lost_witness:
  "\<not> has_pending (nvic (msr_basepri bare_env 0 (exception_return bare_env (reg (arm_nvic_check_pending bare_env masked_cpu) ARM_LR)
      (arm_nvic_check_pending bare_env masked_cpu))))"
proof -
  have ok: "entry_ok 21 masked_cpu"
    using ns_thread_entry [of 21] by (simp add: entry_ok_def frame_in_sram_def frame_sp_def map_disjoint_def in_sram_def in_rom_def
      in_flash_def masked_cpu_def)
  have p: "arm_nvic_get_priority (nvic masked_cpu) 19 = 0x60" "arm_nvic_get_priority (nvic masked_cpu) 21 = 0x20"
    by (simp_all add: arm_nvic_get_priority_def masked_cpu_def)
  have f: "xpsr masked_cpu AND 0x1FF = 0" "memo_ok (nvic masked_cpu)" "\<not> dbg_halted masked_cpu" "basepri masked_cpu = 0x40"
      "arm_nvic_execution_priority masked_cpu = 0x40"
    by (simp_all add: masked_cpu_def ns_thread_def m33_def memo_ok_def arm_nvic_execution_priority_def)
  have "is_next (nvic masked_cpu) 21" "is_next (clear_line 21 (nvic masked_cpu)) 19"
    by (auto simp: is_next_def masked_cpu_pending p)
  from masked_irq_lost [OF ok f(1,2) this(1) f(3) _ this(2) _ _ refl refl, of bare_env] show ?thesis by (simp add: f p)
qed

end
