(* ===== verification/Arm_Alu.thy ===== *)
theory Arm_Alu
  imports Arm_Nvic
begin

text \<open>
  The arithmetic of the Thumb interpreter (\<open>src/arm/arm_cpu.c\<close>): the flag helpers, the condition
  codes, the barrel shifter, the modified immediates and the pure operations of the 32-bit
  data-processing group. The carry that the C helpers return through a pointer is the second
  component of the result; a shift amount of 0 leaves it as it came in.
\<close>

abbreviation APSR_N :: u32 where "APSR_N \<equiv> 0x80000000"
abbreviation APSR_Z :: u32 where "APSR_Z \<equiv> 0x40000000"
abbreviation APSR_C :: u32 where "APSR_C \<equiv> 0x20000000"
abbreviation APSR_V :: u32 where "APSR_V \<equiv> 0x10000000"
abbreviation APSR_Q :: u32 where "APSR_Q \<equiv> 0x08000000"

subsection \<open>Instruction fields\<close>

text \<open>\<open>(hw >> lo) & (2^w - 1)\<close>, as a register number or case label and as an operand.\<close>

definition fld :: "u16 \<Rightarrow> nat \<Rightarrow> nat \<Rightarrow> nat" where
  "fld hw lo w = unat (take_bit w (drop_bit lo hw))"

definition imm_fld :: "u16 \<Rightarrow> nat \<Rightarrow> nat \<Rightarrow> u32" where
  "imm_fld hw lo w = ucast (take_bit w (drop_bit lo hw))"

subsection \<open>Flags\<close>

definition set_flag_bits :: "u32 \<Rightarrow> u32 \<Rightarrow> 'a arm_cpu_scheme \<Rightarrow> 'a arm_cpu_scheme" where
  "set_flag_bits m f cpu = cpu\<lparr>xpsr := (xpsr cpu AND NOT m) OR f\<rparr>"

definition apsr_nz :: "u32 \<Rightarrow> u32" where
  "apsr_nz r = (if r = 0 then APSR_Z else 0) OR (if bit r 31 then APSR_N else 0)"

definition set_nz :: "u32 \<Rightarrow> 'a arm_cpu_scheme \<Rightarrow> 'a arm_cpu_scheme" where
  "set_nz r = set_flag_bits (APSR_N OR APSR_Z) (apsr_nz r)"

definition set_nzc :: "u32 \<Rightarrow> bool \<Rightarrow> 'a arm_cpu_scheme \<Rightarrow> 'a arm_cpu_scheme" where
  "set_nzc r carry =
     set_flag_bits (APSR_N OR APSR_Z OR APSR_C) (apsr_nz r OR (if carry then APSR_C else 0))"

definition set_add_flags :: "u32 \<Rightarrow> u32 \<Rightarrow> u64 \<Rightarrow> 'a arm_cpu_scheme \<Rightarrow> 'a arm_cpu_scheme" where
  "set_add_flags a b result =
     (let r32 = ucast result :: u32
      in set_flag_bits (APSR_N OR APSR_Z OR APSR_C OR APSR_V)
           (apsr_nz r32 OR (if result > 0xFFFFFFFF then APSR_C else 0)
            OR (if bit ((a XOR r32) AND (b XOR r32)) 31 then APSR_V else 0)))"

definition set_sub_flags :: "u32 \<Rightarrow> u32 \<Rightarrow> u64 \<Rightarrow> 'a arm_cpu_scheme \<Rightarrow> 'a arm_cpu_scheme" where
  "set_sub_flags a b result =
     (let r32 = ucast result :: u32
      in set_flag_bits (APSR_N OR APSR_Z OR APSR_C OR APSR_V)
           (apsr_nz r32 OR (if b \<le> a then APSR_C else 0)
            OR (if bit ((a XOR b) AND (a XOR r32)) 31 then APSR_V else 0)))"

text \<open>The flags of SBC, which the source writes out at each of its three sites.\<close>

definition set_sbc_flags :: "u32 \<Rightarrow> u32 \<Rightarrow> u64 \<Rightarrow> u32 \<Rightarrow> 'a arm_cpu_scheme \<Rightarrow> 'a arm_cpu_scheme" where
  "set_sbc_flags a b borrow r32 =
     set_flag_bits (APSR_N OR APSR_Z OR APSR_C OR APSR_V)
       (apsr_nz r32 OR (if ucast b + borrow \<le> (ucast a :: u64) then APSR_C else 0)
        OR (if bit ((a XOR b) AND (a XOR r32)) 31 then APSR_V else 0))"

definition carry_flag :: "'a arm_cpu_scheme \<Rightarrow> bool" where
  "carry_flag cpu \<longleftrightarrow> bit (xpsr cpu) 29"

definition carry_in :: "'a arm_cpu_scheme \<Rightarrow> u64" where
  "carry_in cpu = (if carry_flag cpu then 1 else 0)"

definition condition_passed :: "'a arm_cpu_scheme \<Rightarrow> nat \<Rightarrow> bool" where
  "condition_passed cpu cond =
     (let f = xpsr cpu;
          result =
            (if cond div 2 = 0 then bit f 30
             else if cond div 2 = 1 then bit f 29
             else if cond div 2 = 2 then bit f 31
             else if cond div 2 = 3 then bit f 28
             else if cond div 2 = 4 then bit f 29 \<and> \<not> bit f 30
             else if cond div 2 = 5 then bit f 31 = bit f 28
             else if cond div 2 = 6 then bit f 31 = bit f 28 \<and> \<not> bit f 30
             else True)
      in if odd cond then \<not> result else result)"

subsection \<open>Barrel shifter\<close>

definition lsl_c :: "u32 \<Rightarrow> nat \<Rightarrow> bool \<Rightarrow> u32 \<times> bool" where
  "lsl_c v sh carry =
     (if sh = 0 then (v, carry)
      else if sh \<ge> 32 then (0, sh = 32 \<and> bit v 0)
      else (push_bit sh v, bit v (32 - sh)))"

definition lsr_c :: "u32 \<Rightarrow> nat \<Rightarrow> bool \<Rightarrow> u32 \<times> bool" where
  "lsr_c v sh carry =
     (if sh = 0 then (v, carry)
      else if sh \<ge> 32 then (0, sh = 32 \<and> bit v 31)
      else (drop_bit sh v, bit v (sh - 1)))"

definition asr_c :: "u32 \<Rightarrow> nat \<Rightarrow> bool \<Rightarrow> u32 \<times> bool" where
  "asr_c v sh carry =
     (if sh = 0 then (v, carry)
      else if sh \<ge> 32 then (if bit v 31 then 0xFFFFFFFF else 0, bit v 31)
      else (signed_drop_bit sh v, bit v (sh - 1)))"

definition ror_c :: "u32 \<Rightarrow> nat \<Rightarrow> u32 \<times> bool" where
  "ror_c v sh =
     (let s = sh mod 32 in
      if s = 0 then (v, bit v 31)
      else let r = drop_bit s v OR push_bit (32 - s) v in (r, bit r 31))"

definition thumb_expand_imm_c :: "u16 \<Rightarrow> bool \<Rightarrow> u32 \<times> bool" where
  "thumb_expand_imm_c imm12 carry =
     (let imm8 = imm_fld imm12 0 8 in
      if drop_bit 10 imm12 = 0 then
        (if fld imm12 8 2 = 0 then (imm8, carry)
         else if fld imm12 8 2 = 1 then (push_bit 16 imm8 OR imm8, carry)
         else if fld imm12 8 2 = 2 then (push_bit 24 imm8 OR push_bit 8 imm8, carry)
         else (push_bit 24 imm8 OR push_bit 16 imm8 OR push_bit 8 imm8 OR imm8, carry))
      else ror_c (0x80 OR imm_fld imm12 0 7) (unat (drop_bit 7 imm12)))"

subsection \<open>Extensions and reversals\<close>

text \<open>The C casts \<open>(uint32_t)(int32_t)(int8_t)x\<close> and \<open>(uint32_t)(int32_t)(int16_t)x\<close>.\<close>

definition sxtb :: "u32 \<Rightarrow> u32" where
  "sxtb v = scast (ucast v :: u8)"

definition sxth :: "u32 \<Rightarrow> u32" where
  "sxth v = scast (ucast v :: u16)"

definition rev32 :: "u32 \<Rightarrow> u32" where
  "rev32 v = push_bit 24 (v AND 0xFF) OR push_bit 8 (v AND 0xFF00) OR
             (drop_bit 8 v AND 0xFF00) OR (drop_bit 24 v AND 0xFF)"

definition rev16 :: "u32 \<Rightarrow> u32" where
  "rev16 v = push_bit 8 (v AND 0x00FF) OR drop_bit 8 (v AND 0xFF00) OR
             push_bit 8 (v AND 0x00FF0000) OR drop_bit 8 (v AND 0xFF000000)"

definition revsh :: "u32 \<Rightarrow> u32" where
  "revsh v = sxth (push_bit 8 (v AND 0xFF) OR (drop_bit 8 v AND 0xFF))"

definition rbit :: "u32 \<Rightarrow> u32" where
  "rbit v = fold (\<lambda>i r. if bit v i then r OR push_bit (31 - i) 1 else r) [0..<32] 0"

text \<open>The CLZ loop shifts left until the top bit is set; from a nonzero value within 31 rounds.\<close>

fun clz_loop :: "nat \<Rightarrow> u32 \<Rightarrow> nat \<Rightarrow> nat" where
  "clz_loop 0 v n = n"
| "clz_loop (Suc k) v n = (if bit v 31 then n else clz_loop k (push_bit 1 v) (n + 1))"

definition clz :: "u32 \<Rightarrow> nat" where
  "clz v = (if v = 0 then 32 else clz_loop 32 v 0)"

subsection \<open>Multiply and divide\<close>

definition sdiv_c :: "u32 \<Rightarrow> u32 \<Rightarrow> u32" where
  "sdiv_c n m =
     (if m = 0 then 0
      else if sint m = -1 \<and> n = 0x80000000 then 0x80000000
      else word_of_int (cdiv (sint n) (sint m)))"

definition udiv_c :: "u32 \<Rightarrow> u32 \<Rightarrow> u32" where
  "udiv_c n m = (if m = 0 then 0 else n div m)"

definition half :: "bool \<Rightarrow> u32 \<Rightarrow> int" where
  "half upper v = sint (ucast (if upper then drop_bit 16 v else v) :: u16)"

definition hi32 :: "u64 \<Rightarrow> u32" where
  "hi32 v = ucast (drop_bit 32 v)"

definition pair64 :: "u32 \<Rightarrow> u32 \<Rightarrow> u64" where
  "pair64 hi lo = ucast lo OR push_bit 32 (ucast hi)"

subsection \<open>Bit fields\<close>

text \<open>
  A shift of a 32-bit value by 32 or more, which UBFX and BFI of a full word and the unpredictable
  encodings ask for, is undefined in C; here it yields 0. Shift amounts that C would take
  negative are truncated at 0.
\<close>

definition sbfx :: "u32 \<Rightarrow> nat \<Rightarrow> nat \<Rightarrow> u32" where
  "sbfx v lsb widthm1 = signed_drop_bit (31 - widthm1) (push_bit (31 - lsb - widthm1) v)"

definition ubfx :: "u32 \<Rightarrow> nat \<Rightarrow> nat \<Rightarrow> u32" where
  "ubfx v lsb widthm1 = drop_bit lsb v AND (push_bit (widthm1 + 1) 1 - 1)"

definition bfi_mask :: "nat \<Rightarrow> nat \<Rightarrow> u32" where
  "bfi_mask lsb msb = push_bit lsb (push_bit (msb + 1 - lsb) 1 - 1)"

definition bfi :: "u32 \<Rightarrow> u32 \<Rightarrow> nat \<Rightarrow> nat \<Rightarrow> u32" where
  "bfi old v lsb msb = (old AND NOT (bfi_mask lsb msb)) OR (push_bit lsb v AND bfi_mask lsb msb)"

subsection \<open>Parallel byte operations\<close>

definition byte_of :: "nat \<Rightarrow> u32 \<Rightarrow> u32" where
  "byte_of i v = drop_bit (8 * i) v AND 0xFF"

definition add8_lane :: "bool \<Rightarrow> u32 \<Rightarrow> u32 \<Rightarrow> nat \<Rightarrow> u32 \<times> u32 \<Rightarrow> u32 \<times> u32" where
  "add8_lane signed' a b i st =
     (let ba = byte_of i a; bb = byte_of i b; (res, ge) = st in
      if signed'
      then let s = sint (ucast ba :: u8) + sint (ucast bb :: u8)
           in (res OR push_bit (8 * i) (word_of_int s AND 0xFF), if s \<ge> 0 then ge OR push_bit i 1 else ge)
      else let s = ba + bb
           in (res OR push_bit (8 * i) (s AND 0xFF), if s \<ge> 0x100 then ge OR push_bit i 1 else ge))"

definition add8 :: "bool \<Rightarrow> u32 \<Rightarrow> u32 \<Rightarrow> u32 \<times> u32" where
  "add8 signed' a b = fold (add8_lane signed' a b) [0..<4] (0, 0)"

definition sel :: "u32 \<Rightarrow> u32 \<Rightarrow> u32 \<Rightarrow> u32" where
  "sel ge a b = fold (\<lambda>i res. res OR push_bit (8 * i) (byte_of i (if bit ge i then a else b))) [0..<4] 0"

end
