(* ===== verification/Arm_Thumb16.thy ===== *)
theory Arm_Thumb16
  imports Arm_Alu
begin

text \<open>
  The state the interpreter adds to the core, and the 16-bit Thumb handlers of
  \<open>arm_step_interpreter\<close> (\<open>src/arm/arm_cpu.c\<close>), one definition per handler label.

  A handler gets the halfword \<open>hw\<close>, the address \<open>ip\<close> of the instruction and the core with the
  program counter already advanced past it and one cycle charged, as the central dispatch does.
  Fields of \<open>arm_cpu_t\<close> that nothing reads and the stack auditor are left out.
\<close>

record arm_run = arm_cpu +
  instructions :: int
  stopping :: bool
  cycle_limit :: int
  lpm_ns :: int
  event_latch :: bool
  msplim_s :: u32
  msplim_ns :: u32
  psplim_s :: u32
  psplim_ns :: u32
  tz_sg_count :: u64
  tz_bxns_count :: u64
  vfp_s :: "nat \<Rightarrow> u32"
  fpscr :: u32
  vtor_default :: u32
  rom_util_memcpy :: u32
  rom_util_memset :: u32
  rom_util_memcmp :: u32
  fw_udivmoddi4 :: u32
  fw_aeabi_uldivmod :: u32
  last_execute_us :: int
  last_micros_cycles :: int
  last_micros_delta :: int
  micro_clock_ready :: bool

definition charge :: "int \<Rightarrow> 'a arm_cpu_scheme \<Rightarrow> 'a arm_cpu_scheme" where
  "charge n cpu = cpu\<lparr>cpu_cycles := cpu_cycles cpu + n\<rparr>"

definition load_reg :: "nat \<Rightarrow> u32 \<times> 'a arm_cpu_scheme \<Rightarrow> 'a arm_cpu_scheme" where
  "load_reg i r = set_reg i (fst r) (snd r)"

text \<open>A pair of reads whose value is a byte or a halfword widened to a register.\<close>

definition widen :: "('b \<Rightarrow> u32) \<Rightarrow> 'b \<times> 's \<Rightarrow> u32 \<times> 's" where
  "widen f r = (f (fst r), snd r)"

subsection \<open>Shifts, additions and moves\<close>

definition t16_lsl_imm :: "u16 \<Rightarrow> 'a arm_cpu_scheme \<Rightarrow> 'a arm_cpu_scheme" where
  "t16_lsl_imm hw cpu =
     (let rd = fld hw 0 3; v = reg cpu (fld hw 3 3); imm5 = fld hw 6 5 in
      if imm5 = 0 then set_nz v (set_reg rd v cpu)
      else let (r, carry) = lsl_c v imm5 False in set_nzc r carry (set_reg rd r cpu))"

definition t16_lsr_imm :: "u16 \<Rightarrow> 'a arm_cpu_scheme \<Rightarrow> 'a arm_cpu_scheme" where
  "t16_lsr_imm hw cpu =
     (let rd = fld hw 0 3; v = reg cpu (fld hw 3 3); imm5 = fld hw 6 5;
          (r, carry) = lsr_c v (if imm5 = 0 then 32 else imm5) False
      in set_nzc r carry (set_reg rd r cpu))"

definition t16_asr_imm :: "u16 \<Rightarrow> 'a arm_cpu_scheme \<Rightarrow> 'a arm_cpu_scheme" where
  "t16_asr_imm hw cpu =
     (let rd = fld hw 0 3; v = reg cpu (fld hw 3 3); imm5 = fld hw 6 5;
          (r, carry) = asr_c v (if imm5 = 0 then 32 else imm5) False
      in set_nzc r carry (set_reg rd r cpu))"

text \<open>\<open>Rd = a + b\<close> and \<open>Rd = a - b\<close> with the flags of the 64-bit sum or difference.\<close>

definition add_setting_flags :: "nat \<Rightarrow> u32 \<Rightarrow> u32 \<Rightarrow> 'a arm_cpu_scheme \<Rightarrow> 'a arm_cpu_scheme" where
  "add_setting_flags rd a b cpu =
     (let r = ucast a + ucast b :: u64 in set_add_flags a b r (set_reg rd (ucast r) cpu))"

definition sub_setting_flags :: "nat \<Rightarrow> u32 \<Rightarrow> u32 \<Rightarrow> 'a arm_cpu_scheme \<Rightarrow> 'a arm_cpu_scheme" where
  "sub_setting_flags rd a b cpu =
     (let r = ucast a - ucast b :: u64 in set_sub_flags a b r (set_reg rd (ucast r) cpu))"

definition compare :: "u32 \<Rightarrow> u32 \<Rightarrow> 'a arm_cpu_scheme \<Rightarrow> 'a arm_cpu_scheme" where
  "compare a b = set_sub_flags a b (ucast a - ucast b)"

definition t16_addsub :: "u16 \<Rightarrow> 'a arm_cpu_scheme \<Rightarrow> 'a arm_cpu_scheme" where
  "t16_addsub hw cpu =
     (let sub_op = fld hw 9 2; rd = fld hw 0 3; n_val = reg cpu (fld hw 3 3) in
      if sub_op = 0 then add_setting_flags rd n_val (reg cpu (fld hw 6 3)) cpu
      else if sub_op = 1 then sub_setting_flags rd n_val (reg cpu (fld hw 6 3)) cpu
      else if sub_op = 2 then add_setting_flags rd n_val (imm_fld hw 6 3) cpu
      else sub_setting_flags rd n_val (imm_fld hw 6 3) cpu)"

definition t16_mov_imm :: "u16 \<Rightarrow> 'a arm_cpu_scheme \<Rightarrow> 'a arm_cpu_scheme" where
  "t16_mov_imm hw cpu = set_nz (imm_fld hw 0 8) (set_reg (fld hw 8 3) (imm_fld hw 0 8) cpu)"

definition t16_cmp_imm :: "u16 \<Rightarrow> 'a arm_cpu_scheme \<Rightarrow> 'a arm_cpu_scheme" where
  "t16_cmp_imm hw cpu = compare (reg cpu (fld hw 8 3)) (imm_fld hw 0 8) cpu"

text \<open>Here the source sets the flags before the register; both are written anyway.\<close>

definition t16_add_imm8 :: "u16 \<Rightarrow> 'a arm_cpu_scheme \<Rightarrow> 'a arm_cpu_scheme" where
  "t16_add_imm8 hw cpu =
     (let rd = fld hw 8 3; a = reg cpu rd; b = imm_fld hw 0 8; r = ucast a + ucast b :: u64
      in set_reg rd (ucast r) (set_add_flags a b r cpu))"

definition t16_sub_imm8 :: "u16 \<Rightarrow> 'a arm_cpu_scheme \<Rightarrow> 'a arm_cpu_scheme" where
  "t16_sub_imm8 hw cpu =
     (let rd = fld hw 8 3; a = reg cpu rd; b = imm_fld hw 0 8; r = ucast a - ucast b :: u64
      in set_reg rd (ucast r) (set_sub_flags a b r cpu))"

subsection \<open>Data processing\<close>

definition set_reg_nz :: "nat \<Rightarrow> u32 \<Rightarrow> 'a arm_cpu_scheme \<Rightarrow> 'a arm_cpu_scheme" where
  "set_reg_nz rd v cpu = set_nz v (set_reg rd v cpu)"

definition set_reg_nzc :: "nat \<Rightarrow> u32 \<times> bool \<Rightarrow> 'a arm_cpu_scheme \<Rightarrow> 'a arm_cpu_scheme" where
  "set_reg_nzc rd r cpu = set_nzc (fst r) (snd r) (set_reg rd (fst r) cpu)"

text \<open>Shifts by a register: the amount is its low byte; amounts from 32 up are written out.\<close>

definition t16_shift_reg :: "nat \<Rightarrow> nat \<Rightarrow> nat \<Rightarrow> 'a arm_cpu_scheme \<Rightarrow> 'a arm_cpu_scheme" where
  "t16_shift_reg opc rd rm cpu =
     (let v = reg cpu rd; sh = unat (reg cpu rm AND 0xFF) in
      if sh = 0 then set_nz v cpu
      else if opc = 7 then set_reg_nzc rd (ror_c v sh) cpu
      else if sh \<ge> 32 then
        (if opc = 2 then set_nzc 0 (sh = 32 \<and> bit v 0) (set_reg rd 0 cpu)
         else if opc = 3 then set_nzc 0 (sh = 32 \<and> bit v 31) (set_reg rd 0 cpu)
         else let r = (if bit v 31 then 0xFFFFFFFF else 0) in set_nzc r (bit v 31) (set_reg rd r cpu))
      else set_reg_nzc rd ((if opc = 2 then lsl_c else if opc = 3 then lsr_c else asr_c) v sh False) cpu)"

definition t16_adc :: "nat \<Rightarrow> nat \<Rightarrow> 'a arm_cpu_scheme \<Rightarrow> 'a arm_cpu_scheme" where
  "t16_adc rd rm cpu =
     (let a = reg cpu rd; b = reg cpu rm; r = ucast a + ucast b + carry_in cpu :: u64
      in set_reg rd (ucast r) (set_add_flags a b r cpu))"

definition t16_sbc :: "nat \<Rightarrow> nat \<Rightarrow> 'a arm_cpu_scheme \<Rightarrow> 'a arm_cpu_scheme" where
  "t16_sbc rd rm cpu =
     (let a = reg cpu rd; b = reg cpu rm; borrow = 1 - carry_in cpu;
          r32 = ucast (ucast a - ucast b - borrow :: u64)
      in set_reg rd r32 (set_sbc_flags a b borrow r32 cpu))"

definition t16_dp :: "u16 \<Rightarrow> 'a arm_cpu_scheme \<Rightarrow> 'a arm_cpu_scheme" where
  "t16_dp hw cpu =
     (let opc = fld hw 6 4; rd = fld hw 0 3; rm = fld hw 3 3; d = reg cpu rd; m = reg cpu rm in
      if opc = 0 then set_reg_nz rd (d AND m) cpu
      else if opc = 1 then set_reg_nz rd (d XOR m) cpu
      else if opc = 2 \<or> opc = 3 \<or> opc = 4 then t16_shift_reg opc rd rm cpu
      else if opc = 5 then t16_adc rd rm cpu
      else if opc = 6 then t16_sbc rd rm cpu
      else if opc = 7 then t16_shift_reg opc rd rm cpu
      else if opc = 8 then set_nz (d AND m) cpu
      else if opc = 9 then sub_setting_flags rd 0 m cpu
      else if opc = 10 then compare d m cpu
      else if opc = 11 then set_add_flags d m (ucast d + ucast m) cpu
      else if opc = 12 then set_reg_nz rd (d OR m) cpu
      else if opc = 13 then set_reg_nz rd (d * m) cpu
      else if opc = 14 then set_reg_nz rd (d AND NOT m) cpu
      else set_reg_nz rd (NOT m) cpu)"

subsection \<open>High registers and branch-exchange\<close>

definition hi_val :: "u32 \<Rightarrow> nat \<Rightarrow> 'a arm_cpu_scheme \<Rightarrow> u32" where
  "hi_val ip i cpu = (if i = ARM_PC then ip + 4 else reg cpu i)"

definition clear_thumb :: "nat \<Rightarrow> 'a arm_cpu_scheme \<Rightarrow> 'a arm_cpu_scheme" where
  "clear_thumb d cpu = (if d = ARM_PC then set_reg ARM_PC (reg cpu ARM_PC AND NOT 1) cpu else cpu)"

definition exec_blxns ::
  "'a arm_run_scheme arm_env \<Rightarrow> u32 \<Rightarrow> 'a arm_run_scheme \<Rightarrow> 'a arm_run_scheme" where
  "exec_blxns env target cpu =
     (let ret = reg cpu ARM_PC OR 1;
          sp = reg cpu ARM_SP - 8;
          cpu = arm_write32 env (sp + 4) 0xFEFA125A (arm_write32 env sp ret cpu);
          cpu = set_reg ARM_LR 0xFEFFFFFF (set_reg ARM_SP sp cpu);
          cpu = arm_switch_security_state False cpu
      in set_reg ARM_PC (target AND NOT 1) (cpu\<lparr>tz_bxns_count := tz_bxns_count cpu + 1\<rparr>))"

definition exec_bxns ::
  "'a arm_run_scheme arm_env \<Rightarrow> u32 \<Rightarrow> 'a arm_run_scheme \<Rightarrow> 'a arm_run_scheme" where
  "exec_bxns env target cpu =
     (if target AND 0xFF000000 = 0xFE000000 then arm_fnc_return env cpu
      else if target AND 0xFF000000 = 0xFF000000 then exception_return env target cpu
      else
        let cpu = (if \<not> bit target 0
                   then let cpu = arm_switch_security_state False cpu
                        in cpu\<lparr>tz_bxns_count := tz_bxns_count cpu + 1\<rparr>
                   else cpu)
        in set_reg ARM_PC (target AND NOT 1) cpu)"

definition exec_bx ::
  "'a arm_cpu_scheme arm_env \<Rightarrow> u32 \<Rightarrow> 'a arm_cpu_scheme \<Rightarrow> 'a arm_cpu_scheme" where
  "exec_bx env target cpu =
     (if tz_enabled cpu \<and> \<not> secure cpu \<and> target AND 0xFF000000 = 0xFE000000 then arm_fnc_return env cpu
      else if target AND 0xF0000000 = 0xF0000000 then exception_return env target cpu
      else set_reg ARM_PC (target AND NOT 1) cpu)"

definition t16_bx ::
  "'a arm_run_scheme arm_env \<Rightarrow> u16 \<Rightarrow> u32 \<Rightarrow> 'a arm_run_scheme \<Rightarrow> 'a arm_run_scheme" where
  "t16_bx env hw target cpu =
     (let link = bit hw 7; ns_variant = bit hw 2 \<and> tz_enabled cpu \<and> secure cpu in
      if ns_variant \<and> link then exec_blxns env target cpu
      else if ns_variant then exec_bxns env target cpu
      else if link then set_reg ARM_PC (target AND NOT 1) (set_reg ARM_LR (reg cpu ARM_PC OR 1) cpu)
      else exec_bx env target cpu)"

definition t16_spec ::
  "'a arm_run_scheme arm_env \<Rightarrow> u16 \<Rightarrow> u32 \<Rightarrow> 'a arm_run_scheme \<Rightarrow> 'a arm_run_scheme" where
  "t16_spec env hw ip cpu =
     (let opc = fld hw 8 2;
          d = (if bit hw 7 then 8 else 0) + fld hw 0 3;
          m = fld hw 3 4;
          m_val = hi_val ip m cpu;
          d_val = hi_val ip d cpu
      in if opc = 0 then clear_thumb d (set_reg d (d_val + m_val) cpu)
         else if opc = 1 then compare d_val m_val cpu
         else if opc = 2 then clear_thumb d (set_reg d m_val cpu)
         else t16_bx env hw m_val cpu)"

definition t16_dp_spec ::
  "'a arm_run_scheme arm_env \<Rightarrow> u16 \<Rightarrow> u32 \<Rightarrow> 'a arm_run_scheme \<Rightarrow> 'a arm_run_scheme" where
  "t16_dp_spec env hw ip cpu = (if drop_bit 10 hw = 0x10 then t16_dp hw cpu else t16_spec env hw ip cpu)"

subsection \<open>Loads and stores\<close>

definition lit_addr :: "u16 \<Rightarrow> u32 \<Rightarrow> u32" where
  "lit_addr hw ip = ((ip + 4) AND NOT 3) + push_bit 2 (imm_fld hw 0 8)"

definition t16_ldr_lit ::
  "'a arm_cpu_scheme arm_env \<Rightarrow> u16 \<Rightarrow> u32 \<Rightarrow> 'a arm_cpu_scheme \<Rightarrow> 'a arm_cpu_scheme" where
  "t16_ldr_lit env hw ip cpu = charge 1 (load_reg (fld hw 8 3) (mem_read32_unaligned env (lit_addr hw ip) cpu))"

definition t16_ls_reg ::
  "'a arm_cpu_scheme arm_env \<Rightarrow> u16 \<Rightarrow> 'a arm_cpu_scheme \<Rightarrow> 'a arm_cpu_scheme" where
  "t16_ls_reg env hw cpu =
     (let opc = fld hw 9 3; rt = fld hw 0 3; v = reg cpu rt; a = reg cpu (fld hw 3 3) + reg cpu (fld hw 6 3)
      in charge 1
        (if opc = 0 then mem_write32_unaligned env a v cpu
         else if opc = 1 then mem_write16_unaligned env a (ucast v) cpu
         else if opc = 2 then mem_write8 env a (ucast v) cpu
         else if opc = 3 then load_reg rt (widen scast (mem_read8 env a cpu))
         else if opc = 4 then load_reg rt (mem_read32_unaligned env a cpu)
         else if opc = 5 then load_reg rt (widen ucast (mem_read16_unaligned env a cpu))
         else if opc = 6 then load_reg rt (widen ucast (mem_read8 env a cpu))
         else load_reg rt (widen scast (mem_read16_unaligned env a cpu))))"

definition t16_str_imm :: "'a arm_cpu_scheme arm_env \<Rightarrow> u16 \<Rightarrow> 'a arm_cpu_scheme \<Rightarrow> 'a arm_cpu_scheme" where
  "t16_str_imm env hw cpu =
     charge 1 (mem_write32_unaligned env (reg cpu (fld hw 3 3) + push_bit 2 (imm_fld hw 6 5)) (reg cpu (fld hw 0 3)) cpu)"

definition t16_ldr_imm :: "'a arm_cpu_scheme arm_env \<Rightarrow> u16 \<Rightarrow> 'a arm_cpu_scheme \<Rightarrow> 'a arm_cpu_scheme" where
  "t16_ldr_imm env hw cpu =
     charge 1 (load_reg (fld hw 0 3) (mem_read32_unaligned env (reg cpu (fld hw 3 3) + push_bit 2 (imm_fld hw 6 5)) cpu))"

definition t16_strb_imm :: "'a arm_cpu_scheme arm_env \<Rightarrow> u16 \<Rightarrow> 'a arm_cpu_scheme \<Rightarrow> 'a arm_cpu_scheme" where
  "t16_strb_imm env hw cpu =
     charge 1 (mem_write8 env (reg cpu (fld hw 3 3) + imm_fld hw 6 5) (ucast (reg cpu (fld hw 0 3))) cpu)"

definition t16_ldrb_imm :: "'a arm_cpu_scheme arm_env \<Rightarrow> u16 \<Rightarrow> 'a arm_cpu_scheme \<Rightarrow> 'a arm_cpu_scheme" where
  "t16_ldrb_imm env hw cpu =
     charge 1 (load_reg (fld hw 0 3) (widen ucast (mem_read8 env (reg cpu (fld hw 3 3) + imm_fld hw 6 5) cpu)))"

definition t16_strh_imm :: "'a arm_cpu_scheme arm_env \<Rightarrow> u16 \<Rightarrow> 'a arm_cpu_scheme \<Rightarrow> 'a arm_cpu_scheme" where
  "t16_strh_imm env hw cpu =
     charge 1 (mem_write16_unaligned env (reg cpu (fld hw 3 3) + push_bit 1 (imm_fld hw 6 5)) (ucast (reg cpu (fld hw 0 3))) cpu)"

definition t16_ldrh_imm :: "'a arm_cpu_scheme arm_env \<Rightarrow> u16 \<Rightarrow> 'a arm_cpu_scheme \<Rightarrow> 'a arm_cpu_scheme" where
  "t16_ldrh_imm env hw cpu =
     charge 1 (load_reg (fld hw 0 3)
       (widen ucast (mem_read16_unaligned env (reg cpu (fld hw 3 3) + push_bit 1 (imm_fld hw 6 5)) cpu)))"

definition t16_str_sp :: "'a arm_cpu_scheme arm_env \<Rightarrow> u16 \<Rightarrow> 'a arm_cpu_scheme \<Rightarrow> 'a arm_cpu_scheme" where
  "t16_str_sp env hw cpu =
     charge 1 (mem_write32_unaligned env (reg cpu ARM_SP + push_bit 2 (imm_fld hw 0 8)) (reg cpu (fld hw 8 3)) cpu)"

definition t16_ldr_sp :: "'a arm_cpu_scheme arm_env \<Rightarrow> u16 \<Rightarrow> 'a arm_cpu_scheme \<Rightarrow> 'a arm_cpu_scheme" where
  "t16_ldr_sp env hw cpu =
     charge 1 (load_reg (fld hw 8 3) (mem_read32_unaligned env (reg cpu ARM_SP + push_bit 2 (imm_fld hw 0 8)) cpu))"

definition t16_adr :: "u16 \<Rightarrow> u32 \<Rightarrow> 'a arm_cpu_scheme \<Rightarrow> 'a arm_cpu_scheme" where
  "t16_adr hw ip cpu = set_reg (fld hw 8 3) (lit_addr hw ip) cpu"

definition t16_add_sp_imm :: "u16 \<Rightarrow> 'a arm_cpu_scheme \<Rightarrow> 'a arm_cpu_scheme" where
  "t16_add_sp_imm hw cpu = set_reg (fld hw 8 3) (reg cpu ARM_SP + push_bit 2 (imm_fld hw 0 8)) cpu"

subsection \<open>Multiple loads and stores\<close>

text \<open>
  The register lists: the numbers below \<open>n\<close> whose bit is set, upwards. A refused beat does not
  stop the loop. The store loop reads each register when its turn comes, as the source does.
\<close>

definition reg_list :: "nat \<Rightarrow> u16 \<Rightarrow> nat list" where
  "reg_list n m = filter (bit m) [0..<n]"

definition span_of :: "nat list \<Rightarrow> u32" where
  "span_of rs = 4 * of_nat (length rs)"

fun store_regs ::
  "'a arm_cpu_scheme arm_env \<Rightarrow> nat list \<Rightarrow> u32 \<Rightarrow> 'a arm_cpu_scheme \<Rightarrow> 'a arm_cpu_scheme" where
  "store_regs env [] a cpu = cpu"
| "store_regs env (i # rs) a cpu = store_regs env rs (a + 4) (mem_write32 env a (reg cpu i) cpu)"

fun load_regs ::
  "'a arm_cpu_scheme arm_env \<Rightarrow> nat list \<Rightarrow> u32 \<Rightarrow> 'a arm_cpu_scheme \<Rightarrow> 'a arm_cpu_scheme" where
  "load_regs env [] a cpu = cpu"
| "load_regs env (i # rs) a cpu = load_regs env rs (a + 4) (load_reg i (mem_read32 env a cpu))"

definition t16_push :: "'a arm_cpu_scheme arm_env \<Rightarrow> u16 \<Rightarrow> 'a arm_cpu_scheme \<Rightarrow> 'a arm_cpu_scheme" where
  "t16_push env hw cpu =
     (let rs = reg_list 8 hw @ (if bit hw 8 then [ARM_LR] else []);
          sp = reg cpu ARM_SP - span_of rs
      in charge (int (length rs)) (set_reg ARM_SP sp (store_regs env rs sp cpu)))"

definition t16_pop :: "'a arm_cpu_scheme arm_env \<Rightarrow> u16 \<Rightarrow> 'a arm_cpu_scheme \<Rightarrow> 'a arm_cpu_scheme" where
  "t16_pop env hw cpu =
     (let rs = reg_list 8 hw;
          a = reg cpu ARM_SP;
          top = a + span_of rs;
          cpu = arm_insn_snapshot_multi env a (span_of rs + (if bit hw 8 then 4 else 0)) cpu;
          cpu = load_regs env rs a cpu
      in charge 1
        (if bit hw 8
         then let (target, cpu) = mem_read32 env top cpu
              in arm_load_pc env target (set_reg ARM_SP (top + 4) cpu)
         else set_reg ARM_SP top cpu))"

definition t16_stm :: "'a arm_cpu_scheme arm_env \<Rightarrow> u16 \<Rightarrow> 'a arm_cpu_scheme \<Rightarrow> 'a arm_cpu_scheme" where
  "t16_stm env hw cpu =
     (let rn = fld hw 8 3; rs = reg_list 8 hw; a = reg cpu rn
      in charge 1 (set_reg rn (a + span_of rs) (store_regs env rs a cpu)))"

definition t16_ldm :: "'a arm_cpu_scheme arm_env \<Rightarrow> u16 \<Rightarrow> 'a arm_cpu_scheme \<Rightarrow> 'a arm_cpu_scheme" where
  "t16_ldm env hw cpu =
     (let rn = fld hw 8 3; rs = reg_list 8 hw; a = reg cpu rn;
          cpu = load_regs env rs a (arm_insn_snapshot_multi env a (span_of rs) cpu)
      in charge 1 (if bit hw rn then cpu else set_reg rn (a + span_of rs) cpu))"

subsection \<open>Miscellaneous\<close>

definition t16_extend :: "u16 \<Rightarrow> 'a arm_cpu_scheme \<Rightarrow> 'a arm_cpu_scheme" where
  "t16_extend hw cpu =
     (let rd = fld hw 0 3; v = reg cpu (fld hw 3 3); op2 = fld hw 6 2
      in set_reg rd (if op2 = 0 then sxth v else if op2 = 1 then sxtb v
                     else if op2 = 2 then v AND 0xFFFF else v AND 0xFF) cpu)"

definition cbz_target :: "u16 \<Rightarrow> u32 \<Rightarrow> u32" where
  "cbz_target hw ip = ip + 4 + (push_bit 6 (imm_fld hw 9 1) OR push_bit 1 (imm_fld hw 3 5))"

definition t16_cbz :: "u16 \<Rightarrow> u32 \<Rightarrow> 'a arm_cpu_scheme \<Rightarrow> 'a arm_cpu_scheme" where
  "t16_cbz hw ip cpu =
     (let v = reg cpu (fld hw 0 3) in
      if (if bit hw 11 then v \<noteq> 0 else v = 0) then set_reg ARM_PC (cbz_target hw ip) cpu else cpu)"

definition t16_rev :: "u16 \<Rightarrow> 'a arm_cpu_scheme \<Rightarrow> 'a arm_cpu_scheme" where
  "t16_rev hw cpu =
     (let rd = fld hw 0 3; v = reg cpu (fld hw 3 3); op2 = fld hw 6 2 in
      if op2 = 0 then set_reg rd (rev32 v) cpu
      else if op2 = 1 then set_reg rd (rev16 v) cpu
      else if op2 = 3 then set_reg rd (revsh v) cpu
      else cpu)"

definition t16_hint :: "u16 \<Rightarrow> 'a arm_run_scheme \<Rightarrow> 'a arm_run_scheme" where
  "t16_hint hw cpu =
     (if fld hw 0 4 \<noteq> 0 then cpu\<lparr>it_state := ucast hw\<rparr>
      else if fld hw 0 8 = 0x30 then cpu\<lparr>cpu_off := True\<rparr>
      else if fld hw 0 8 = 0x20 then
        (if event_latch cpu then cpu\<lparr>event_latch := False\<rparr> else cpu\<lparr>cpu_off := True\<rparr>)
      else if fld hw 0 8 = 0x40 then cpu\<lparr>event_latch := True\<rparr>
      else cpu)"

definition t16_misc ::
  "'a arm_run_scheme arm_env \<Rightarrow> u16 \<Rightarrow> u32 \<Rightarrow> 'a arm_run_scheme \<Rightarrow> 'a arm_run_scheme" where
  "t16_misc env hw ip cpu =
     (let sub_op = fld hw 8 4 in
      if sub_op = 0 then
        (let imm7 = push_bit 2 (imm_fld hw 0 7)
         in set_reg ARM_SP (if bit hw 7 then reg cpu ARM_SP - imm7 else reg cpu ARM_SP + imm7) cpu)
      else if sub_op = 2 then t16_extend hw cpu
      else if sub_op \<in> {1, 3, 9, 11} then t16_cbz hw ip cpu
      else if sub_op = 4 \<or> sub_op = 5 then t16_push env hw cpu
      else if sub_op = 6 then exec_cps env (bit hw 4) cpu
      else if sub_op = 10 then t16_rev hw cpu
      else if sub_op = 12 \<or> sub_op = 13 then t16_pop env hw cpu
      else if sub_op = 15 then t16_hint hw cpu
      else cpu)"

subsection \<open>Branches\<close>

definition bcond_target :: "u16 \<Rightarrow> u32 \<Rightarrow> u32" where
  "bcond_target hw ip = ip + 4 + scast (ucast hw :: u8) * 2"

definition t16_bcond :: "u16 \<Rightarrow> u32 \<Rightarrow> 'a arm_cpu_scheme \<Rightarrow> 'a arm_cpu_scheme" where
  "t16_bcond hw ip cpu =
     (let cond = fld hw 8 4 in
      if cond = 14 \<or> cond = 15 then cpu
      else if condition_passed cpu cond then set_reg ARM_PC (bcond_target hw ip) cpu else cpu)"

definition b_target :: "u16 \<Rightarrow> u32 \<Rightarrow> u32" where
  "b_target hw ip =
     (let imm11 = imm_fld hw 0 11 in ip + 4 + (if bit imm11 10 then imm11 OR 0xFFFFF800 else imm11) * 2)"

definition t16_b_uncond :: "u16 \<Rightarrow> u32 \<Rightarrow> 'a arm_cpu_scheme \<Rightarrow> 'a arm_cpu_scheme" where
  "t16_b_uncond hw ip cpu = set_reg ARM_PC (b_target hw ip) cpu"

subsection \<open>Dispatch on the top five bits\<close>

definition exec16 ::
  "'a arm_run_scheme arm_env \<Rightarrow> u16 \<Rightarrow> u32 \<Rightarrow> 'a arm_run_scheme \<Rightarrow> 'a arm_run_scheme" where
  "exec16 env hw ip cpu =
     (let top5 = fld hw 11 5 in
      if top5 = 0 then t16_lsl_imm hw cpu
      else if top5 = 1 then t16_lsr_imm hw cpu
      else if top5 = 2 then t16_asr_imm hw cpu
      else if top5 = 3 then t16_addsub hw cpu
      else if top5 = 4 then t16_mov_imm hw cpu
      else if top5 = 5 then t16_cmp_imm hw cpu
      else if top5 = 6 then t16_add_imm8 hw cpu
      else if top5 = 7 then t16_sub_imm8 hw cpu
      else if top5 = 8 then t16_dp_spec env hw ip cpu
      else if top5 = 9 then t16_ldr_lit env hw ip cpu
      else if top5 = 10 \<or> top5 = 11 then t16_ls_reg env hw cpu
      else if top5 = 12 then t16_str_imm env hw cpu
      else if top5 = 13 then t16_ldr_imm env hw cpu
      else if top5 = 14 then t16_strb_imm env hw cpu
      else if top5 = 15 then t16_ldrb_imm env hw cpu
      else if top5 = 16 then t16_strh_imm env hw cpu
      else if top5 = 17 then t16_ldrh_imm env hw cpu
      else if top5 = 18 then t16_str_sp env hw cpu
      else if top5 = 19 then t16_ldr_sp env hw cpu
      else if top5 = 20 then t16_adr hw ip cpu
      else if top5 = 21 then t16_add_sp_imm hw cpu
      else if top5 = 22 \<or> top5 = 23 then t16_misc env hw ip cpu
      else if top5 = 24 then t16_stm env hw cpu
      else if top5 = 25 then t16_ldm env hw cpu
      else if top5 = 26 \<or> top5 = 27 then t16_bcond hw ip cpu
      else t16_b_uncond hw ip cpu)"

end
