(* ===== verification/Arm_Vfp.thy ===== *)
theory Arm_Vfp
  imports Arm_Thumb16
begin

text \<open>
  The single-precision floating-point unit (\<open>src/arm/arm_vfp.c\<close>). A register holds the 32 bits of a
  binary32 number. Moves, sign operations, comparisons, loads and stores are defined on the bits; the host's
  rounding operations (sum, difference, product, quotient, square root and the conversions) are the
  fields of the parameter \<open>fpu\<close>.
\<close>

record fpu =
  f_add :: "u32 \<Rightarrow> u32 \<Rightarrow> u32"
  f_sub :: "u32 \<Rightarrow> u32 \<Rightarrow> u32"
  f_mul :: "u32 \<Rightarrow> u32 \<Rightarrow> u32"
  f_div :: "u32 \<Rightarrow> u32 \<Rightarrow> u32"
  f_sqrt :: "u32 \<Rightarrow> u32"
  f_of_int :: "int \<Rightarrow> u32"
  f_to_int :: "u32 \<Rightarrow> int"

subsection \<open>Bits of a binary32 number\<close>

definition f_neg :: "u32 \<Rightarrow> u32" where
  "f_neg v = v XOR 0x80000000"

definition f_abs :: "u32 \<Rightarrow> u32" where
  "f_abs v = v AND 0x7FFFFFFF"

definition f_isnan :: "u32 \<Rightarrow> bool" where
  "f_isnan v \<longleftrightarrow> 0x7F800000 < f_abs v"

text \<open>The order of numbers that are not NaN: sign and magnitude, with both zeros equal.\<close>

definition f_key :: "u32 \<Rightarrow> int" where
  "f_key v = (if bit v 31 then - uint (f_abs v) else uint (f_abs v))"

definition f_eq :: "u32 \<Rightarrow> u32 \<Rightarrow> bool" where
  "f_eq a b \<longleftrightarrow> f_key a = f_key b"

definition f_lt :: "u32 \<Rightarrow> u32 \<Rightarrow> bool" where
  "f_lt a b \<longleftrightarrow> f_key a < f_key b"

subsection \<open>Register numbers\<close>

definition sreg_d :: "u16 \<Rightarrow> u16 \<Rightarrow> nat" where
  "sreg_d hw1 hw2 = 2 * fld hw2 12 4 + fld hw1 6 1"

definition sreg_n_dp :: "u16 \<Rightarrow> u16 \<Rightarrow> nat" where
  "sreg_n_dp hw1 hw2 = 2 * fld hw1 0 4 + fld hw2 7 1"

definition sreg_m :: "u16 \<Rightarrow> nat" where
  "sreg_m hw2 = 2 * fld hw2 0 4 + fld hw2 5 1"

definition set_s :: "nat \<Rightarrow> u32 \<Rightarrow> 'a arm_run_scheme \<Rightarrow> 'a arm_run_scheme" where
  "set_s i v cpu = cpu\<lparr>vfp_s := (vfp_s cpu)(i := v)\<rparr>"

subsection \<open>Loads and stores\<close>

fun vfp_beats ::
  "'a arm_cpu_scheme arm_env \<Rightarrow> nat \<Rightarrow> u32 \<Rightarrow> 'a arm_cpu_scheme \<Rightarrow> u32 list \<times> 'a arm_cpu_scheme" where
  "vfp_beats env 0 a cpu = ([], cpu)"
| "vfp_beats env (Suc n) a cpu =
     (let (v, cpu) = mem_read32 env a cpu; (vs, cpu) = vfp_beats env n (a + 4) cpu in (v # vs, cpu))"

text \<open>The loaded words reach the registers only when no beat was refused.\<close>

definition put_s_list :: "nat \<Rightarrow> u32 list \<Rightarrow> (nat \<Rightarrow> u32) \<Rightarrow> (nat \<Rightarrow> u32)" where
  "put_s_list sd vs f = (\<lambda>i. if sd \<le> i \<and> i < sd + length vs then vs ! (i - sd) else f i)"

definition arm_vfp_load ::
  "'a arm_run_scheme arm_env \<Rightarrow> nat \<Rightarrow> u32 \<Rightarrow> nat \<Rightarrow> bool \<Rightarrow> 'a arm_run_scheme \<Rightarrow> 'a arm_run_scheme" where
  "arm_vfp_load env sd a n fp cpu =
     (let (buf, cpu) = vfp_beats env (if fp then n + 1 else n) a cpu in
      if arm_insn_refused cpu then cpu
      else
        let cpu = cpu\<lparr>vfp_s := put_s_list sd (take n buf) (vfp_s cpu)\<rparr>
        in if fp then cpu\<lparr>fpscr := buf ! n\<rparr> else cpu)"

fun vfp_store_beats ::
  "'a arm_run_scheme arm_env \<Rightarrow> nat list \<Rightarrow> u32 \<Rightarrow> 'a arm_run_scheme \<Rightarrow> 'a arm_run_scheme" where
  "vfp_store_beats env [] a cpu = cpu"
| "vfp_store_beats env (i # is) a cpu = vfp_store_beats env is (a + 4) (mem_write32 env a (vfp_s cpu i) cpu)"

definition arm_vfp_store ::
  "'a arm_run_scheme arm_env \<Rightarrow> nat \<Rightarrow> u32 \<Rightarrow> nat \<Rightarrow> bool \<Rightarrow> 'a arm_run_scheme \<Rightarrow> 'a arm_run_scheme" where
  "arm_vfp_store env sd a n fp cpu =
     (let cpu = vfp_store_beats env [sd..<sd + n] a cpu
      in if fp then mem_write32 env (a + 4 * of_nat n) (fpscr cpu) cpu else cpu)"

definition arm_vlstm_vlldm :: "'a arm_run_scheme arm_env \<Rightarrow> u16 \<Rightarrow> 'a arm_run_scheme \<Rightarrow> 'a arm_run_scheme" where
  "arm_vlstm_vlldm env hw1 cpu =
     (let a = reg cpu (fld hw1 0 4)
      in if \<not> bit hw1 4 then arm_vfp_store env 0 a 16 True cpu else arm_vfp_load env 0 a 16 True cpu)"

subsection \<open>Instructions\<close>

text \<open>An instruction that is not handled leaves the state alone and returns \<open>False\<close>.\<close>

definition vfp_count :: "u16 \<Rightarrow> u16 \<Rightarrow> (nat \<times> nat) option" where
  "vfp_count hw1 hw2 =
     (let n = fld hw2 0 8; sd = sreg_d hw1 hw2; sd = (if fld hw2 8 4 = 0xB then sd - sd mod 2 else sd)
      in if n = 0 \<or> sd + n > 32 then None else Some (sd, n))"

definition vfp_push ::
  "'a arm_run_scheme arm_env \<Rightarrow> u16 \<Rightarrow> u16 \<Rightarrow> 'a arm_run_scheme \<Rightarrow> bool \<times> 'a arm_run_scheme" where
  "vfp_push env hw1 hw2 cpu =
     (case vfp_count hw1 hw2 of
        None \<Rightarrow> (False, cpu)
      | Some (sd, n) \<Rightarrow>
          (let newsp = reg cpu ARM_SP - 4 * of_nat n
           in (True, set_reg ARM_SP newsp (arm_vfp_store env sd newsp n False cpu))))"

definition vfp_pop ::
  "'a arm_run_scheme arm_env \<Rightarrow> u16 \<Rightarrow> u16 \<Rightarrow> 'a arm_run_scheme \<Rightarrow> bool \<times> 'a arm_run_scheme" where
  "vfp_pop env hw1 hw2 cpu =
     (case vfp_count hw1 hw2 of
        None \<Rightarrow> (False, cpu)
      | Some (sd, n) \<Rightarrow>
          (let sp = reg cpu ARM_SP
           in (True, set_reg ARM_SP (sp + 4 * of_nat n) (arm_vfp_load env sd sp n False cpu))))"

text \<open>A double transfer with register number 31 names a 33rd register; the source's array has 32.\<close>

definition vfp_ldr_str ::
  "'a arm_run_scheme arm_env \<Rightarrow> u16 \<Rightarrow> u16 \<Rightarrow> 'a arm_run_scheme \<Rightarrow> 'a arm_run_scheme" where
  "vfp_ldr_str env hw1 hw2 cpu =
     (let rn = fld hw1 0 4; off = push_bit 2 (imm_fld hw2 0 8); sd = sreg_d hw1 hw2;
          n = (if rn = 15 then reg cpu 15 AND NOT 3 else reg cpu rn);
          a = (if bit hw1 7 then n + off else n - off);
          words = (if fld hw2 8 4 = 0xB then 2 else 1)
      in if bit hw1 4 then arm_vfp_load env sd a words False cpu else arm_vfp_store env sd a words False cpu)"

definition vfp_multiple ::
  "'a arm_run_scheme arm_env \<Rightarrow> u16 \<Rightarrow> u16 \<Rightarrow> 'a arm_run_scheme \<Rightarrow> bool \<times> 'a arm_run_scheme" where
  "vfp_multiple env hw1 hw2 cpu =
     (let p = bit hw1 8; u = bit hw1 7; rn = fld hw1 0 4; n = reg cpu rn in
      case vfp_count hw1 hw2 of
        None \<Rightarrow> (False, cpu)
      | Some (sd, k) \<Rightarrow>
          if p = u then (False, cpu)
          else
            let a = (if p then n - 4 * of_nat k else n);
                wb_val = (if p then a else n + 4 * of_nat k);
                cpu = (if bit hw1 4 then arm_vfp_load env sd a k False cpu else arm_vfp_store env sd a k False cpu)
            in (True, if bit hw1 5 then set_reg rn wb_val cpu else cpu))"

definition vcmp_flags :: "u32 \<Rightarrow> u32 \<Rightarrow> u32" where
  "vcmp_flags a b =
     (if f_isnan a \<or> f_isnan b then 0x30000000
      else if f_eq a b then 0x60000000
      else if f_lt a b then 0x80000000
      else 0x20000000)"

definition vfp_misc ::
  "fpu \<Rightarrow> u16 \<Rightarrow> u16 \<Rightarrow> 'a arm_run_scheme \<Rightarrow> bool \<times> 'a arm_run_scheme" where
  "vfp_misc fp hw1 hw2 cpu =
     (let sd = sreg_d hw1 hw2; vm = vfp_s cpu (sreg_m hw2); vd = vfp_s cpu sd; opc2 = fld hw1 0 4; opc3 = fld hw2 6 2 in
      if opc2 = 0 \<and> opc3 = 1 then (True, set_s sd vm cpu)
      else if opc2 = 0 \<and> opc3 = 3 then (True, set_s sd (f_abs vm) cpu)
      else if opc2 = 1 \<and> opc3 = 1 then (True, set_s sd (f_neg vm) cpu)
      else if opc2 = 1 \<and> opc3 = 3 then (True, set_s sd (f_sqrt fp vm) cpu)
      else if opc2 = 4 \<or> opc2 = 5 then
        (True, cpu\<lparr>fpscr := (fpscr cpu AND 0x0FFFFFFF) OR vcmp_flags vd (if opc2 = 5 then 0 else vm)\<rparr>)
      else if opc2 = 8 then (True, set_s sd (f_of_int fp (sint vm)) cpu)
      else if opc2 = 9 then (True, set_s sd (f_of_int fp (uint vm)) cpu)
      else if opc2 = 13 then (True, set_s sd (word_of_int (f_to_int fp vm)) cpu)
      else if opc2 = 12 then (True, set_s sd (if \<not> f_isnan vm \<and> f_lt vm 0 then 0 else word_of_int (f_to_int fp vm)) cpu)
      else (False, cpu))"

definition vfp_arith ::
  "fpu \<Rightarrow> u16 \<Rightarrow> u16 \<Rightarrow> 'a arm_run_scheme \<Rightarrow> bool \<times> 'a arm_run_scheme" where
  "vfp_arith fp hw1 hw2 cpu =
     (let sd = sreg_d hw1 hw2; vn = vfp_s cpu (sreg_n_dp hw1 hw2); vm = vfp_s cpu (sreg_m hw2); vd = vfp_s cpu sd;
          opc1 = fld hw1 4 2 + (if bit hw1 7 then 8 else 0); odd_op = bit hw2 6; prod = f_mul fp vn vm
      in if opc1 = 0 then (True, set_s sd (if odd_op then f_sub fp vd prod else f_add fp vd prod) cpu)
         else if opc1 = 2 then (True, set_s sd (if odd_op then f_neg prod else prod) cpu)
         else if opc1 = 3 then (True, set_s sd (if odd_op then f_sub fp vn vm else f_add fp vn vm) cpu)
         else if opc1 = 8 then (True, set_s sd (f_div fp vn vm) cpu)
         else if opc1 = 11 then vfp_misc fp hw1 hw2 cpu
         else (False, cpu))"

definition arm_vfp_step ::
  "fpu \<Rightarrow> 'a arm_run_scheme arm_env \<Rightarrow> u16 \<Rightarrow> u16 \<Rightarrow> 'a arm_run_scheme \<Rightarrow> bool \<times> 'a arm_run_scheme" where
  "arm_vfp_step fp env hw1 hw2 cpu =
     (let coproc = fld hw2 8 4; rt = fld hw2 12 4; sn = sreg_n_dp hw1 hw2 in
      if coproc \<noteq> 0xA \<and> coproc \<noteq> 0xB then (False, cpu)
      else if hw1 AND 0xFFE0 = 0xEE00 \<and> hw2 AND 0x7F = 0x10 \<and> coproc = 0xA then
        (True, if bit hw1 4 then set_reg rt (vfp_s cpu sn) cpu else set_s sn (reg cpu rt) cpu)
      else if hw1 = 0xEEE1 \<and> hw2 AND 0x0FFF = 0x0A10 then (True, cpu\<lparr>fpscr := reg cpu rt\<rparr>)
      else if hw1 = 0xEEF1 \<and> hw2 AND 0x0FFF = 0x0A10 then
        (True, if rt = 15 then cpu\<lparr>xpsr := (xpsr cpu AND 0x0FFFFFFF) OR (fpscr cpu AND 0xF0000000)\<rparr>
               else set_reg rt (fpscr cpu) cpu)
      else if hw1 AND 0xFFBF = 0xED2D then vfp_push env hw1 hw2 cpu
      else if hw1 AND 0xFFBF = 0xECBD then vfp_pop env hw1 hw2 cpu
      else if hw1 AND 0xFF20 = 0xED00 then (True, vfp_ldr_str env hw1 hw2 cpu)
      else if (hw1 AND 0xFF00 = 0xEC00 \<or> hw1 AND 0xFF00 = 0xED00) \<and> hw1 AND 0xF \<noteq> 13 then vfp_multiple env hw1 hw2 cpu
      else if hw1 AND 0xFF00 = 0xEE00 \<and> hw2 AND 0x0F00 = 0x0A00 then vfp_arith fp hw1 hw2 cpu
      else (False, cpu))"

end
