(* ===== verification/Arm_Thumb32.thy ===== *)
theory Arm_Thumb32
  imports Arm_Vfp
begin

text \<open>
  The 32-bit Thumb-2 decode of \<open>arm_step_interpreter\<close> (\<open>src/arm/arm_cpu.c\<close>, label \<open>t32_decode\<close>),
  one definition per encoding group. A group gets both halfwords, the address \<open>ip\<close> of the
  instruction and the core with the program counter advanced past it and one cycle charged. The
  diagnostics for unhandled encodings are left out: such an instruction only advances the program counter.
\<close>

abbreviation ARM_SFSR_INVEP :: u32 where "ARM_SFSR_INVEP \<equiv> 1"

subsection \<open>Security instructions\<close>

definition t32_sg ::
  "'a arm_run_scheme arm_env \<Rightarrow> u32 \<Rightarrow> 'a arm_run_scheme \<Rightarrow> 'a arm_run_scheme" where
  "t32_sg env ip cpu =
     (if secure cpu then cpu
      else if arm_security_attr env cpu ip = ARM_SEC_NSC
      then let cpu = arm_switch_security_state True cpu;
               cpu = set_reg ARM_LR (reg cpu ARM_LR AND NOT 1) cpu
           in cpu\<lparr>tz_sg_count := tz_sg_count cpu + 1\<rparr>
      else cpu\<lparr>sfsr := sfsr cpu OR ARM_SFSR_INVEP, secure_fault_pending := True\<rparr>)"

definition t32_tt ::
  "'a arm_cpu_scheme arm_env \<Rightarrow> u16 \<Rightarrow> u16 \<Rightarrow> 'a arm_cpu_scheme \<Rightarrow> 'a arm_cpu_scheme" where
  "t32_tt env hw1 hw2 cpu =
     (let rn = fld hw1 0 4; rd = fld hw2 8 4; alt = bit hw2 7 in
      if rn \<noteq> 15 \<and> rd \<noteq> 15 \<and> rd \<noteq> 13
      then set_reg rd (if \<not> alt \<or> secure cpu then arm_tt_response env cpu (reg cpu rn) else 0) cpu
      else cpu)"

subsection \<open>Multiple loads and stores\<close>

text \<open>
  The load loop of LDM: a word for the program counter with an exception-return value is kept
  back until after the writeback.
\<close>

fun load_list ::
  "'a arm_cpu_scheme arm_env \<Rightarrow> nat list \<Rightarrow> u32 \<Rightarrow> u32 option \<Rightarrow> 'a arm_cpu_scheme \<Rightarrow> u32 option \<times> 'a arm_cpu_scheme" where
  "load_list env [] a exc cpu = (exc, cpu)"
| "load_list env (i # rs) a exc cpu =
     (let (v, cpu) = mem_read32 env a cpu in
      if i = ARM_PC then
        (if v AND 0xF0000000 = 0xF0000000 then load_list env rs (a + 4) (Some v) cpu
         else load_list env rs (a + 4) exc (set_reg ARM_PC (v AND NOT 1) cpu))
      else load_list env rs (a + 4) exc (set_reg i v cpu))"

definition t32_ldm ::
  "'a arm_cpu_scheme arm_env \<Rightarrow> u16 \<Rightarrow> u16 \<Rightarrow> 'a arm_cpu_scheme \<Rightarrow> 'a arm_cpu_scheme" where
  "t32_ldm env hw1 hw2 cpu =
     (let rn = fld hw1 0 4; up = bit hw1 7; rs = reg_list 16 hw2;
          a = (if up then reg cpu rn else reg cpu rn - span_of rs);
          cpu = arm_insn_snapshot_multi env a (span_of rs) cpu;
          (exc, cpu) = load_list env rs a None cpu;
          cpu = (if bit hw1 5 \<and> \<not> bit hw2 rn then set_reg rn (if up then a + span_of rs else a) cpu else cpu)
      in case exc of None \<Rightarrow> cpu | Some v \<Rightarrow> arm_load_pc env v cpu)"

definition t32_stm ::
  "'a arm_cpu_scheme arm_env \<Rightarrow> u16 \<Rightarrow> u16 \<Rightarrow> 'a arm_cpu_scheme \<Rightarrow> 'a arm_cpu_scheme" where
  "t32_stm env hw1 hw2 cpu =
     (let rn = fld hw1 0 4; up = bit hw1 7; rs = reg_list 16 hw2;
          a = (if up then reg cpu rn else reg cpu rn - span_of rs);
          cpu = store_regs env rs a cpu
      in if bit hw1 5 then set_reg rn (if up then a + span_of rs else a) cpu else cpu)"

definition t32_ls_multiple ::
  "'a arm_cpu_scheme arm_env \<Rightarrow> u16 \<Rightarrow> u16 \<Rightarrow> 'a arm_cpu_scheme \<Rightarrow> 'a arm_cpu_scheme" where
  "t32_ls_multiple env hw1 hw2 cpu =
     charge 1 (if bit hw1 4 then t32_ldm env hw1 hw2 cpu else t32_stm env hw1 hw2 cpu)"

subsection \<open>Dual, exclusive and table branch\<close>

text \<open>There is no exclusive monitor: a store-exclusive always succeeds and returns 0.\<close>

definition t32_ldaex ::
  "'a arm_cpu_scheme arm_env \<Rightarrow> u16 \<Rightarrow> u16 \<Rightarrow> 'a arm_cpu_scheme \<Rightarrow> 'a arm_cpu_scheme" where
  "t32_ldaex env hw1 hw2 cpu =
     (let sz = fld hw2 4 2; rt = fld hw2 12 4; a = reg cpu (fld hw1 0 4); v = reg cpu rt in
      charge 2
        (if bit hw1 4 then
           load_reg rt (if sz = 0 then widen ucast (mem_read8 env a cpu)
                        else if sz = 1 then widen ucast (mem_read16 env a cpu)
                        else mem_read32 env a cpu)
         else set_reg (fld hw2 0 4) 0
           (if sz = 0 then mem_write8 env a (ucast v) cpu
            else if sz = 1 then mem_write16 env a (ucast v) cpu
            else mem_write32 env a v cpu)))"

definition t32_ldrex_bhd ::
  "'a arm_cpu_scheme arm_env \<Rightarrow> u16 \<Rightarrow> u16 \<Rightarrow> 'a arm_cpu_scheme \<Rightarrow> 'a arm_cpu_scheme" where
  "t32_ldrex_bhd env hw1 hw2 cpu =
     (let op3 = fld hw2 4 4; rt = fld hw2 12 4; rt2 = fld hw2 8 4; a = reg cpu (fld hw1 0 4); v = reg cpu rt in
      charge 1
        (if bit hw1 4 then
           (if op3 = 4 then load_reg rt (widen ucast (mem_read8 env a cpu))
            else if op3 = 5 then load_reg rt (widen ucast (mem_read16 env a cpu))
            else load_regs env [rt, rt2] a (arm_insn_snapshot_multi env a 8 cpu))
         else set_reg (fld hw2 0 4) 0
           (if op3 = 4 then mem_write8 env a (ucast v) cpu
            else if op3 = 5 then mem_write16 env a (ucast v) cpu
            else store_regs env [rt, rt2] a cpu)))"

definition t32_table_branch ::
  "'a arm_cpu_scheme arm_env \<Rightarrow> u16 \<Rightarrow> u16 \<Rightarrow> u32 \<Rightarrow> 'a arm_cpu_scheme \<Rightarrow> 'a arm_cpu_scheme" where
  "t32_table_branch env hw1 hw2 ip cpu =
     (let rn = fld hw1 0 4; m = reg cpu (fld hw2 0 4);
          tbl = (if rn = 15 then ip + 4 else reg cpu rn);
          (idx, cpu) = (if bit hw2 4 then widen ucast (mem_read16 env (tbl + m * 2) cpu)
                        else widen ucast (mem_read8 env (tbl + m) cpu))
      in set_reg ARM_PC (ip + 4 + idx * 2) cpu)"

definition t32_ldrd_lit ::
  "'a arm_cpu_scheme arm_env \<Rightarrow> u16 \<Rightarrow> u16 \<Rightarrow> u32 \<Rightarrow> 'a arm_cpu_scheme \<Rightarrow> 'a arm_cpu_scheme" where
  "t32_ldrd_lit env hw1 hw2 ip cpu =
     (let off = push_bit 2 (imm_fld hw2 0 8);
          a = (if bit hw1 7 then ((ip + 4) AND NOT 3) + off else ((ip + 4) AND NOT 3) - off)
      in load_regs env [fld hw2 12 4, fld hw2 8 4] a (arm_insn_snapshot_multi env a 8 cpu))"

definition t32_ldrd_strd ::
  "'a arm_cpu_scheme arm_env \<Rightarrow> u16 \<Rightarrow> u16 \<Rightarrow> 'a arm_cpu_scheme \<Rightarrow> 'a arm_cpu_scheme" where
  "t32_ldrd_strd env hw1 hw2 cpu =
     (let rn = fld hw1 0 4; rs = [fld hw2 12 4, fld hw2 8 4]; off = push_bit 2 (imm_fld hw2 0 8);
          up = bit hw1 7; p = bit hw1 8; n = reg cpu rn; moved = (if up then n + off else n - off);
          a = (if p then moved else n);
          cpu = (if bit hw1 4 then load_regs env rs a (arm_insn_snapshot_multi env a 8 cpu) else store_regs env rs a cpu)
      in if bit hw1 5 then set_reg rn moved cpu else cpu)"

definition t32_dual ::
  "'a arm_cpu_scheme arm_env \<Rightarrow> u16 \<Rightarrow> u16 \<Rightarrow> u32 \<Rightarrow> 'a arm_cpu_scheme \<Rightarrow> 'a arm_cpu_scheme" where
  "t32_dual env hw1 hw2 ip cpu =
     (let rn = fld hw1 0 4; rt = fld hw2 12 4; off = push_bit 2 (imm_fld hw2 0 8);
          u = bit hw1 7; p = bit hw1 8; w = bit hw1 5; l = bit hw1 4
      in charge 1
        (if u \<and> hw2 AND 0x0FC0 = 0x0FC0 then t32_ldaex env hw1 hw2 cpu
         else if \<not> p \<and> u \<and> \<not> w \<and> fld hw2 4 4 \<in> {4, 5, 7} then t32_ldrex_bhd env hw1 hw2 cpu
         else if hw2 AND 0xFFE0 = 0xF000 then t32_table_branch env hw1 hw2 ip cpu
         else if rn = 15 \<and> l then t32_ldrd_lit env hw1 hw2 ip cpu
         else if \<not> p \<and> \<not> u \<and> \<not> l \<and> hw2 AND 0x0F00 \<noteq> 0x0F00
           then set_reg (fld hw2 8 4) 0 (mem_write32 env (reg cpu rn + off) (reg cpu rt) cpu)
         else if \<not> p \<and> \<not> u \<and> l \<and> hw2 AND 0x0F00 = 0x0F00
           then load_reg rt (mem_read32 env (reg cpu rn + off) cpu)
         else t32_ldrd_strd env hw1 hw2 cpu))"


subsection \<open>Data processing\<close>

text \<open>
  The operation table, the same for a shifted register and for a modified immediate. AND, EOR, ADD and
  SUB with destination 15 only set flags; the others write it. Unlisted operations do nothing.
\<close>

definition put_unless_pc :: "nat \<Rightarrow> u32 \<Rightarrow> 'a arm_cpu_scheme \<Rightarrow> 'a arm_cpu_scheme" where
  "put_unless_pc rd v cpu = (if rd \<noteq> 15 then set_reg rd v cpu else cpu)"

definition t32_dp_op ::
  "nat \<Rightarrow> bool \<Rightarrow> bool \<Rightarrow> nat \<Rightarrow> u32 \<Rightarrow> u32 \<Rightarrow> bool \<Rightarrow> 'a arm_cpu_scheme \<Rightarrow> 'a arm_cpu_scheme" where
  "t32_dp_op op_dp s rn15 rd n m carry_out cpu =
     (let logic = (\<lambda>r c. if s then set_nzc r carry_out c else c);
          sum = ucast n + ucast m :: u64; sumc = ucast n + ucast m + carry_in cpu;
          diff = ucast n - ucast m :: u64; rdiff = ucast m - ucast n :: u64;
          borrow = 1 - carry_in cpu; sbc = ucast (ucast n - ucast m - borrow :: u64) :: u32;
          orr = (if rn15 then m else n OR m); orn = (if rn15 then NOT m else n OR NOT m)
      in if op_dp = 0x0 then logic (n AND m) (put_unless_pc rd (n AND m) cpu)
         else if op_dp = 0x1 then logic (n AND NOT m) (set_reg rd (n AND NOT m) cpu)
         else if op_dp = 0x2 then logic orr (set_reg rd orr cpu)
         else if op_dp = 0x3 then logic orn (set_reg rd orn cpu)
         else if op_dp = 0x4 then logic (n XOR m) (put_unless_pc rd (n XOR m) cpu)
         else if op_dp = 0x8 then
           (let c = put_unless_pc rd (ucast sum) cpu in if s then set_add_flags n m sum c else c)
         else if op_dp = 0xA then
           (let c = set_reg rd (ucast sumc) cpu in if s then set_add_flags n m sumc c else c)
         else if op_dp = 0xB then
           (let c = set_reg rd sbc cpu in if s then set_sbc_flags n m borrow sbc c else c)
         else if op_dp = 0xD then
           (let c = put_unless_pc rd (ucast diff) cpu in if s then set_sub_flags n m diff c else c)
         else if op_dp = 0xE then
           (let c = set_reg rd (ucast rdiff) cpu in if s then set_sub_flags m n rdiff c else c)
         else cpu)"

definition shifted_operand :: "nat \<Rightarrow> nat \<Rightarrow> u32 \<Rightarrow> 'a arm_cpu_scheme \<Rightarrow> u32 \<times> bool" where
  "shifted_operand shift_type shift_n v cpu =
     (let c = carry_flag cpu in
      if shift_n = 0 \<and> shift_type = 0 then (v, c)
      else
        let sh = (if shift_n = 0 \<and> (shift_type = 1 \<or> shift_type = 2) then 32 else shift_n)
        in if shift_type = 0 then lsl_c v sh c
           else if shift_type = 1 then lsr_c v sh c
           else if shift_type = 2 then asr_c v sh c
           else if sh = 0 then (drop_bit 1 v OR (if c then push_bit 31 1 else 0), bit v 0)
           else ror_c v sh)"

definition t32_dp_reg :: "u16 \<Rightarrow> u16 \<Rightarrow> 'a arm_cpu_scheme \<Rightarrow> 'a arm_cpu_scheme" where
  "t32_dp_reg hw1 hw2 cpu =
     (let rn = fld hw1 0 4; rd = fld hw2 8 4;
          (m, carry_out) = shifted_operand (fld hw2 4 2) (4 * fld hw2 12 3 + fld hw2 6 2) (reg cpu (fld hw2 0 4)) cpu
      in clear_thumb rd (t32_dp_op (fld hw1 5 4) (bit hw1 4) (rn = 15) rd (reg cpu rn) m carry_out cpu))"

definition imm12_of :: "u16 \<Rightarrow> u16 \<Rightarrow> u16" where
  "imm12_of hw1 hw2 = push_bit 11 (take_bit 1 (drop_bit 10 hw1)) OR push_bit 8 (take_bit 3 (drop_bit 12 hw2)) OR (hw2 AND 0xFF)"

definition t32_dp_imm :: "u16 \<Rightarrow> u16 \<Rightarrow> 'a arm_cpu_scheme \<Rightarrow> 'a arm_cpu_scheme" where
  "t32_dp_imm hw1 hw2 cpu =
     (let rn = fld hw1 0 4;
          (m, carry_out) = thumb_expand_imm_c (imm12_of hw1 hw2) (carry_flag cpu)
      in t32_dp_op (fld hw1 5 4) (bit hw1 4) (rn = 15) (fld hw2 8 4) (if rn = 15 then 0 else reg cpu rn) m carry_out cpu)"

text \<open>The saturating operations copy their operand, as the source says.\<close>

definition t32_plain_imm :: "u16 \<Rightarrow> u16 \<Rightarrow> u32 \<Rightarrow> 'a arm_cpu_scheme \<Rightarrow> 'a arm_cpu_scheme" where
  "t32_plain_imm hw1 hw2 ip cpu =
     (let op_imm = fld hw1 4 5; rn = fld hw1 0 4; rd = fld hw2 8 4; n = reg cpu rn; d = reg cpu rd;
          imm12 = ucast (imm12_of hw1 hw2) :: u32;
          imm16 = push_bit 12 (imm_fld hw1 0 4) OR imm12;
          lsb = fld hw2 12 3 * 4 + fld hw2 6 2; w5 = fld hw2 0 5; aligned = (ip + 4) AND NOT 3
      in if op_imm = 0x04 then set_reg rd imm16 cpu
         else if op_imm = 0x0C then set_reg rd ((d AND 0xFFFF) OR push_bit 16 imm16) cpu
         else if op_imm \<in> {0x00, 0x01, 0x05} then set_reg rd ((if rn = 15 then aligned else n) + imm12) cpu
         else if op_imm \<in> {0x0A, 0x0B, 0x0E, 0x0F} then set_reg rd ((if rn = 15 then aligned else n) - imm12) cpu
         else if op_imm = 0x10 \<or> op_imm = 0x11 then set_reg rd n cpu
         else if op_imm = 0x14 then set_reg rd (sbfx n lsb w5) cpu
         else if op_imm = 0x16 then set_reg rd (if rn = 15 then d AND NOT (bfi_mask lsb w5) else bfi d n lsb w5) cpu
         else if op_imm = 0x18 \<or> op_imm = 0x19 then set_reg rd n cpu
         else if op_imm = 0x1C then set_reg rd (ubfx n lsb w5) cpu
         else if op_imm \<in> {0x02, 0x03, 0x06, 0x07} then set_reg rd (aligned - imm12) cpu
         else cpu)"


subsection \<open>Branches and miscellaneous control\<close>

definition bit_at :: "u16 \<Rightarrow> nat \<Rightarrow> nat \<Rightarrow> u32" where
  "bit_at hw i k = (if bit hw i then push_bit k 1 else 0)"

definition bcond_w_offset :: "u16 \<Rightarrow> u16 \<Rightarrow> u32" where
  "bcond_w_offset hw1 hw2 =
     (let off = bit_at hw1 10 20 OR bit_at hw2 11 19 OR bit_at hw2 13 18 OR push_bit 12 (imm_fld hw1 0 6)
                OR push_bit 1 (imm_fld hw2 0 11)
      in if bit hw1 10 then off OR 0xFFE00000 else off)"

definition bl_offset :: "u16 \<Rightarrow> u16 \<Rightarrow> u32" where
  "bl_offset hw1 hw2 =
     (let s = bit hw1 10; i1 = (bit hw2 13 = s); i2 = (bit hw2 11 = s);
          off = (if s then push_bit 24 1 else 0) OR (if i1 then push_bit 23 1 else 0) OR (if i2 then push_bit 22 1 else 0)
                OR push_bit 12 (imm_fld hw1 0 10) OR push_bit 1 (imm_fld hw2 0 11)
      in if s then off OR 0xFE000000 else off)"

definition read_control :: "'a arm_cpu_scheme \<Rightarrow> u32" where
  "read_control cpu =
     (let spsel = (if use_psp cpu then 2 else 0)
      in if tz_enabled cpu then ((if secure cpu then control_s cpu else control_ns cpu) AND NOT 2) OR spsel else spsel)"

definition mrs_ns :: "nat \<Rightarrow> 'a arm_run_scheme \<Rightarrow> u32" where
  "mrs_ns sysm cpu =
     (if sysm = 0x88 then msp_ns cpu
      else if sysm = 0x89 then psp_ns cpu
      else if sysm = 0x8A then msplim_ns cpu
      else if sysm = 0x8B then psplim_ns cpu
      else if sysm = 0x90 then primask_ns cpu
      else if sysm = 0x91 then basepri_ns cpu
      else if sysm = 0x93 then faultmask_ns cpu
      else if sysm = 0x94 then control_ns cpu
      else if bit (control_ns cpu) 1 then psp_ns cpu else msp_ns cpu)"

definition is_ns_bank :: "nat \<Rightarrow> bool" where
  "is_ns_bank sysm \<longleftrightarrow> sysm \<in> {0x88, 0x89, 0x8A, 0x8B, 0x90, 0x91, 0x93, 0x94, 0x98}"

definition mrs_value :: "nat \<Rightarrow> 'a arm_run_scheme \<Rightarrow> u32" where
  "mrs_value sysm cpu =
     (if sysm \<in> {0, 3, 6, 7} then xpsr cpu
      else if sysm = 1 \<or> sysm = 5 then xpsr cpu AND 0x1FF
      else if sysm = 2 then xpsr cpu AND 0x1000000
      else if sysm = 8 then (if arm_sp_is_psp cpu then msp cpu else reg cpu ARM_SP)
      else if sysm = 9 then (if arm_sp_is_psp cpu then reg cpu ARM_SP else psp cpu)
      else if sysm = 16 then primask cpu
      else if sysm = 17 then basepri cpu
      else if sysm = 19 then faultmask cpu
      else if sysm = 20 then read_control cpu
      else if sysm = 0x0A then (if tz_enabled cpu \<and> secure cpu then msplim_s cpu else msplim_ns cpu)
      else if sysm = 0x0B then (if tz_enabled cpu \<and> secure cpu then psplim_s cpu else psplim_ns cpu)
      else if is_ns_bank sysm then (if tz_enabled cpu \<and> secure cpu then mrs_ns sysm cpu else 0)
      else 0)"

text \<open>Writing CONTROL swaps the active stack in thread mode when SPSEL changes.\<close>

definition write_control :: "u32 \<Rightarrow> 'a arm_cpu_scheme \<Rightarrow> 'a arm_cpu_scheme" where
  "write_control v cpu =
     (let new_psp = bit v 1;
          cpu = (if xpsr cpu AND 0x1FF = 0 \<and> new_psp \<noteq> use_psp cpu
                 then (if new_psp then set_reg ARM_SP (psp cpu) (cpu\<lparr>msp := reg cpu ARM_SP\<rparr>)
                       else set_reg ARM_SP (msp cpu) (cpu\<lparr>psp := reg cpu ARM_SP\<rparr>))
                 else cpu);
          cpu = cpu\<lparr>use_psp := new_psp\<rparr>
      in if \<not> tz_enabled cpu then cpu
         else if secure cpu then cpu\<lparr>control_s := v AND 7\<rparr> else cpu\<lparr>control_ns := v AND 7\<rparr>)"

definition msr_ns :: "nat \<Rightarrow> u32 \<Rightarrow> 'a arm_run_scheme \<Rightarrow> 'a arm_run_scheme" where
  "msr_ns sysm v cpu =
     (if sysm = 0x88 then cpu\<lparr>msp_ns := v AND NOT 3\<rparr>
      else if sysm = 0x89 then cpu\<lparr>psp_ns := v AND NOT 3\<rparr>
      else if sysm = 0x8A then cpu\<lparr>msplim_ns := v AND NOT 7\<rparr>
      else if sysm = 0x8B then cpu\<lparr>psplim_ns := v AND NOT 7\<rparr>
      else if sysm = 0x90 then cpu\<lparr>primask_ns := v AND 1\<rparr>
      else if sysm = 0x91 then cpu\<lparr>basepri_ns := v AND 0xFF\<rparr>
      else if sysm = 0x93 then cpu\<lparr>faultmask_ns := v AND 1\<rparr>
      else if sysm = 0x94 then cpu\<lparr>control_ns := v AND 7\<rparr>
      else if bit (control_ns cpu) 1 then cpu\<lparr>psp_ns := v AND NOT 3\<rparr>
      else cpu\<lparr>msp_ns := v AND NOT 3\<rparr>)"

definition t32_msr ::
  "'a arm_run_scheme arm_env \<Rightarrow> nat \<Rightarrow> u32 \<Rightarrow> 'a arm_run_scheme \<Rightarrow> 'a arm_run_scheme" where
  "t32_msr env sysm v cpu =
     (if sysm = 0 then cpu\<lparr>xpsr := (xpsr cpu AND 0x0FFFFFFF) OR (v AND 0xF0000000)\<rparr>
      else if sysm = 8 then (if arm_sp_is_psp cpu then cpu\<lparr>msp := v\<rparr> else set_reg ARM_SP v cpu)
      else if sysm = 9 then (if arm_sp_is_psp cpu then set_reg ARM_SP v cpu else cpu\<lparr>psp := v\<rparr>)
      else if sysm = 16 then msr_primask env v cpu
      else if sysm = 17 then msr_basepri env v cpu
      else if sysm = 18 then msr_basepri_max v cpu
      else if sysm = 19 then msr_faultmask env v cpu
      else if sysm = 20 then write_control v cpu
      else if sysm = 0x0A then
        (if tz_enabled cpu \<and> secure cpu then cpu\<lparr>msplim_s := v AND NOT 7\<rparr> else cpu\<lparr>msplim_ns := v AND NOT 7\<rparr>)
      else if sysm = 0x0B then
        (if tz_enabled cpu \<and> secure cpu then cpu\<lparr>psplim_s := v AND NOT 7\<rparr> else cpu\<lparr>psplim_ns := v AND NOT 7\<rparr>)
      else if is_ns_bank sysm \<and> tz_enabled cpu \<and> secure cpu then msr_ns sysm v cpu
      else cpu)"

definition t32_branch_misc ::
  "'a arm_run_scheme arm_env \<Rightarrow> u16 \<Rightarrow> u16 \<Rightarrow> u32 \<Rightarrow> 'a arm_run_scheme \<Rightarrow> 'a arm_run_scheme" where
  "t32_branch_misc env hw1 hw2 ip cpu =
     (let op_br = fld hw1 4 7; misc = (hw1 AND 0x380 = 0x380); op_misc = fld hw2 8 8; barrier = (op_misc div 16 = 15);
          b14 = bit hw2 14; b12 = bit hw2 12
      in if \<not> b14 \<and> \<not> b12 \<and> \<not> misc then
           (if condition_passed cpu (fld hw1 6 4) then set_reg ARM_PC (ip + 4 + bcond_w_offset hw1 hw2) cpu else cpu)
         else if b14 \<and> b12 then
           set_reg ARM_PC (ip + 4 + bl_offset hw1 hw2) (set_reg ARM_LR ((ip + 4) OR 1) cpu)
         else if \<not> b14 \<and> b12 then set_reg ARM_PC (ip + 4 + bl_offset hw1 hw2) cpu
         else if misc \<and> \<not> b14 \<and> \<not> b12 then
           (if op_br = 0x38 \<and> barrier then cpu
            else if op_br = 0x3E \<or> op_br = 0x3F then set_reg (fld hw2 8 4) (mrs_value (fld hw2 0 8) cpu) cpu
            else if (op_br = 0x38 \<or> op_br = 0x39) \<and> \<not> barrier then t32_msr env (fld hw2 0 8) (reg cpu (fld hw1 0 4)) cpu
            else cpu)
         else cpu)"


subsection \<open>Single loads and stores\<close>

definition store_sized ::
  "'a arm_cpu_scheme arm_env \<Rightarrow> nat \<Rightarrow> u32 \<Rightarrow> u32 \<Rightarrow> 'a arm_cpu_scheme \<Rightarrow> 'a arm_cpu_scheme" where
  "store_sized env sz a v cpu =
     (if sz = 0 then mem_write8 env a (ucast v) cpu
      else if sz = 1 then mem_write16_unaligned env a (ucast v) cpu
      else if sz = 2 then mem_write32_unaligned env a v cpu
      else cpu)"

text \<open>The addressing mode with an 8-bit offset: the address, and what writeback leaves in the base.\<close>

definition indexed :: "u16 \<Rightarrow> u32 \<Rightarrow> u32 \<times> u32" where
  "indexed hw2 n =
     (let imm8 = imm_fld hw2 0 8; moved = (if bit hw2 9 then n + imm8 else n - imm8)
      in (if bit hw2 10 then moved else n, moved))"

definition t32_store ::
  "'a arm_cpu_scheme arm_env \<Rightarrow> u16 \<Rightarrow> u16 \<Rightarrow> 'a arm_cpu_scheme \<Rightarrow> 'a arm_cpu_scheme" where
  "t32_store env hw1 hw2 cpu =
     (let sz = fld hw1 5 2; rn = fld hw1 0 4; n = reg cpu rn; v = reg cpu (fld hw2 12 4) in
      charge 1
        (if bit hw1 7 then store_sized env sz (n + imm_fld hw2 0 12) v cpu
         else if fld hw2 8 3 = 0 then store_sized env sz (n + push_bit (fld hw2 4 2) (reg cpu (fld hw2 0 4))) v cpu
         else let (a, moved) = indexed hw2 n; cpu = store_sized env sz a v cpu
              in if bit hw2 8 then set_reg rn moved cpu else cpu))"

definition t32_load_addr :: "u16 \<Rightarrow> u16 \<Rightarrow> u32 \<Rightarrow> 'a arm_cpu_scheme \<Rightarrow> u32 \<times> u32 option" where
  "t32_load_addr hw1 hw2 ip cpu =
     (let rn = fld hw1 0 4; n = reg cpu rn; imm12 = imm_fld hw2 0 12; aligned = (ip + 4) AND NOT 3 in
      if rn = 15 then (if bit hw1 7 then aligned + imm12 else aligned - imm12, None)
      else if bit hw1 7 then (n + imm12, None)
      else if hw2 AND 0xFC0 = 0 then (n + push_bit (fld hw2 4 2) (reg cpu (fld hw2 0 4)), None)
      else let (a, moved) = indexed hw2 n in (a, if bit hw2 8 then Some moved else None))"

definition load_sized ::
  "'a arm_cpu_scheme arm_env \<Rightarrow> nat \<Rightarrow> bool \<Rightarrow> u32 \<Rightarrow> 'a arm_cpu_scheme \<Rightarrow> u32 \<times> 'a arm_cpu_scheme" where
  "load_sized env sz sign a cpu =
     (if sz = 0 then widen (if sign then scast else ucast) (mem_read8 env a cpu)
      else if sz = 1 then widen (if sign then scast else ucast) (mem_read16_unaligned env a cpu)
      else mem_read32_unaligned env a cpu)"

definition t32_load ::
  "'a arm_cpu_scheme arm_env \<Rightarrow> u16 \<Rightarrow> u16 \<Rightarrow> u32 \<Rightarrow> 'a arm_cpu_scheme \<Rightarrow> 'a arm_cpu_scheme" where
  "t32_load env hw1 hw2 ip cpu =
     (let sz = fld hw1 5 2; rt = fld hw2 12 4;
          (a, wb) = t32_load_addr hw1 hw2 ip cpu;
          (v, cpu) = load_sized env sz (bit hw1 8) a cpu;
          cpu = (if wb \<noteq> None \<and> rt = ARM_PC \<and> ARM_PRECISE_FAULTS env cpu then arm_insn_snapshot cpu else cpu);
          cpu = (case wb of Some x \<Rightarrow> set_reg (fld hw1 0 4) x cpu | None \<Rightarrow> cpu)
      in charge 1
        (if rt = ARM_PC then (if sz \<noteq> 2 then cpu else arm_load_pc env v cpu)
         else set_reg rt v cpu))"

definition t32_str_alt ::
  "'a arm_cpu_scheme arm_env \<Rightarrow> u16 \<Rightarrow> u16 \<Rightarrow> 'a arm_cpu_scheme \<Rightarrow> 'a arm_cpu_scheme" where
  "t32_str_alt env hw1 hw2 cpu =
     charge 1 (mem_write32 env (reg cpu (fld hw1 0 4) + imm_fld hw2 0 12) (reg cpu (fld hw2 12 4)) cpu)"

definition t32_ldr_alt ::
  "'a arm_cpu_scheme arm_env \<Rightarrow> u16 \<Rightarrow> u16 \<Rightarrow> u32 \<Rightarrow> 'a arm_cpu_scheme \<Rightarrow> 'a arm_cpu_scheme" where
  "t32_ldr_alt env hw1 hw2 ip cpu =
     (let rn = fld hw1 0 4; rt = fld hw2 12 4; imm12 = imm_fld hw2 0 12; aligned = (ip + 4) AND NOT 3;
          (v, cpu) = mem_read32 env (if rn = 15 then (if bit hw1 7 then aligned + imm12 else aligned - imm12)
                                     else reg cpu rn + imm12) cpu
      in charge 1 (if rt = ARM_PC then arm_load_pc env v cpu else set_reg rt v cpu))"


subsection \<open>Register shifts, extensions, multiplies and divides\<close>

definition reg_shift :: "nat \<Rightarrow> u32 \<Rightarrow> nat \<Rightarrow> bool \<Rightarrow> u32 \<times> bool" where
  "reg_shift shift_type v n carry =
     (if shift_type = 0 then lsl_c v n carry
      else if shift_type = 1 then lsr_c v n carry
      else if shift_type = 2 then asr_c v n carry
      else if n = 0 then (v, carry)
      else let s = n mod 32
           in if s = 0 then (v, bit v 31) else (drop_bit s v OR push_bit (32 - s) v, bit v (s - 1)))"

definition t32_reg_shift :: "u16 \<Rightarrow> u16 \<Rightarrow> 'a arm_cpu_scheme \<Rightarrow> 'a arm_cpu_scheme" where
  "t32_reg_shift hw1 hw2 cpu =
     (let (r, carry) = reg_shift (fld hw1 5 2) (reg cpu (fld hw1 0 4)) (unat (reg cpu (fld hw2 0 4) AND 0xFF)) (carry_flag cpu);
          cpu = set_reg (fld hw2 8 4) r cpu
      in if bit hw1 4 then set_nzc r carry cpu else cpu)"

definition t32_extend :: "u16 \<Rightarrow> u16 \<Rightarrow> 'a arm_cpu_scheme \<Rightarrow> 'a arm_cpu_scheme" where
  "t32_extend hw1 hw2 cpu =
     (let op_misc = fld hw1 4 4; rn = fld hw1 0 4; rot = fld hw2 4 2 * 8; m = reg cpu (fld hw2 0 4);
          m' = (if rot \<noteq> 0 then drop_bit rot m OR push_bit (32 - rot) m else m);
          acc = (if rn \<noteq> 15 then reg cpu rn else 0)
      in set_reg (fld hw2 8 4)
           (if op_misc = 0 then sxth m' + acc
            else if op_misc = 1 then (m' AND 0xFFFF) + acc
            else if op_misc = 4 then sxtb m' + acc
            else if op_misc = 5 then (m' AND 0xFF) + acc
            else m') cpu)"

text \<open>Accumulate into \<open>Rd\<close>, with the sticky overflow flag.\<close>

definition mac_q :: "nat \<Rightarrow> int \<Rightarrow> 'a arm_cpu_scheme \<Rightarrow> 'a arm_cpu_scheme" where
  "mac_q rd acc cpu =
     (let r = word_of_int acc :: u32; cpu = set_reg rd r cpu
      in if acc \<noteq> sint r then cpu\<lparr>xpsr := xpsr cpu OR APSR_Q\<rparr> else cpu)"

definition put_pair :: "nat \<Rightarrow> nat \<Rightarrow> u64 \<Rightarrow> 'a arm_cpu_scheme \<Rightarrow> 'a arm_cpu_scheme" where
  "put_pair hi lo v cpu = set_reg hi (hi32 v) (set_reg lo (ucast v) cpu)"

definition t32_dp_register :: "u16 \<Rightarrow> u16 \<Rightarrow> 'a arm_cpu_scheme \<Rightarrow> 'a arm_cpu_scheme" where
  "t32_dp_register hw1 hw2 cpu =
     (let op_misc = fld hw1 4 4; b8 = bit hw1 8; rd = fld hw2 8 4; ra = fld hw2 12 4; op2 = fld hw2 4 4;
          n = reg cpu (fld hw1 0 4); m = reg cpu (fld hw2 0 4); a = reg cpu ra; d = reg cpu rd;
          prod = half (bit op2 1) n * half (bit op2 0) m
      in if \<not> b8 \<and> op_misc < 8 \<and> op2 < 8 then t32_reg_shift hw1 hw2 cpu
         else if \<not> b8 \<and> op_misc < 6 \<and> op2 \<ge> 8 then t32_extend hw1 hw2 cpu
         else if op_misc = 0 then
           (if ra = 15 then set_reg rd (n * m) cpu
            else if op2 = 0 then set_reg rd (n * m + a) cpu
            else if op2 = 1 then set_reg rd (a - n * m) cpu
            else cpu)
         else if op_misc = 1 \<and> b8 then
           (if op2 < 4 then (if ra = 15 then set_reg rd (word_of_int prod) cpu else mac_q rd (sint a + prod) cpu) else cpu)
         else if op_misc = 3 \<and> b8 then
           (if op2 < 2 then
              (let r = sint n * half (bit op2 0) m div 65536
               in if ra = 15 then set_reg rd (word_of_int r) cpu else mac_q rd (sint a + r) cpu)
            else cpu)
         else if op_misc = 8 \<and> \<not> b8 then
           (let (res, ge) = add8 (op2 = 0) n m; cpu = set_reg rd res cpu
            in cpu\<lparr>xpsr := (xpsr cpu AND NOT 0xF0000) OR push_bit 16 ge\<rparr>)
         else if op_misc = 8 then put_pair rd ra (word_of_int (sint n * sint m)) cpu
         else if op_misc = 9 then
           (if b8 then set_reg rd (sdiv_c n m) cpu
            else if op2 = 8 then set_reg rd (rev32 m) cpu
            else if op2 = 9 then set_reg rd (rev16 m) cpu
            else if op2 = 10 then set_reg rd (rbit m) cpu
            else if op2 = 11 then set_reg rd (revsh m) cpu
            else cpu)
         else if op_misc = 10 then
           (if b8 then put_pair rd ra (ucast n * ucast m) cpu
            else if op2 = 8 then set_reg rd (sel (drop_bit 16 (xpsr cpu) AND 0xF) n m) cpu
            else cpu)
         else if op_misc = 11 then
           (if op2 = 8 then set_reg rd (of_nat (clz m)) cpu
            else if b8 then set_reg rd (udiv_c n m) cpu
            else cpu)
         else if op_misc = 12 then
           (if op2 = 0 then put_pair rd ra (pair64 d a + word_of_int (sint n * sint m)) cpu
            else if op2 \<in> {8, 9, 10, 11} then put_pair rd ra (pair64 d a + word_of_int prod) cpu
            else cpu)
         else if op_misc = 14 then
           (if op2 = 6 then put_pair rd ra (ucast n * ucast m + ucast a + ucast d) cpu
            else put_pair rd ra (pair64 d a + ucast n * ucast m) cpu)
         else cpu)"


subsection \<open>Dispatch on the 32-bit encoding\<close>

definition exec32 ::
  "fpu \<Rightarrow> 'a arm_run_scheme arm_env \<Rightarrow> u16 \<Rightarrow> u16 \<Rightarrow> u32 \<Rightarrow> 'a arm_run_scheme \<Rightarrow> 'a arm_run_scheme" where
  "exec32 fp env hw1 hw2 ip cpu =
     (let op1 = fld hw1 11 2; op2_5 = take_bit 7 (drop_bit 4 hw1); op_hw2 = bit hw2 15 in
      if tz_enabled cpu \<and> hw1 = 0xE97F \<and> hw2 = 0xE97F then t32_sg env ip cpu
      else if tz_enabled cpu \<and> hw1 AND 0xFFF0 = 0xE840 \<and> hw2 AND 0xF03F = 0xF000 then t32_tt env hw1 hw2 cpu
      else if op1 = 1 \<and> op2_5 AND 0x64 = 0x00 then t32_ls_multiple env hw1 hw2 cpu
      else if op1 = 1 \<and> op2_5 AND 0x64 = 0x04 then t32_dual env hw1 hw2 ip cpu
      else if op1 = 1 \<and> op2_5 AND 0x60 = 0x20 then t32_dp_reg hw1 hw2 cpu
      else if op1 = 2 \<and> op2_5 AND 0x20 = 0 \<and> \<not> op_hw2 then t32_dp_imm hw1 hw2 cpu
      else if op1 = 2 \<and> op2_5 AND 0x20 = 0x20 \<and> \<not> op_hw2 then t32_plain_imm hw1 hw2 ip cpu
      else if op1 = 2 \<and> op_hw2 then t32_branch_misc env hw1 hw2 ip cpu
      else if op1 = 3 \<and> op2_5 AND 0x71 = 0x00 then t32_store env hw1 hw2 cpu
      else if op1 = 3 \<and> op2_5 AND 0x61 = 0x01 then t32_load env hw1 hw2 ip cpu
      else if op1 = 3 \<and> op2_5 AND 0x71 = 0x10 then t32_str_alt env hw1 hw2 cpu
      else if op1 = 3 \<and> op2_5 AND 0x71 = 0x11 then t32_ldr_alt env hw1 hw2 ip cpu
      else if op1 = 3 \<and> op2_5 AND 0x60 = 0x20 then t32_dp_register hw1 hw2 cpu
      else if hw1 AND 0xFFE0 = 0xEC20 \<and> hw2 = 0x0A00 \<and> tz_enabled cpu then arm_vlstm_vlldm env hw1 cpu
      else if hw1 AND 0xEC00 = 0xEC00 then snd (arm_vfp_step fp env hw1 hw2 cpu)
      else cpu)"

end
