(* ===== verification/Arm_Decode.thy ===== *)
theory Arm_Decode
  imports Arm_Thumb16
begin

text \<open>
  The Thumb-16 decoder of the just-in-time compiler's subset (\<open>src/arm/arm_decode.c\<close>), the
  reference semantics of a decoded instruction (\<open>arm_execute_decoded\<close> in \<open>src/arm/arm_cpu.c\<close>)
  and the bound on compiled iterations (\<open>arm_jit_iters\<close>). Register numbers, access widths and
  cycle counts of a decoded instruction are naturals; \<open>ARM_DEC_NO_RM\<close> keeps its value 255.
\<close>

datatype arm_dec_class =
    ARM_DEC_UNSUPPORTED | ARM_DEC_ALU_REG | ARM_DEC_ALU_IMM | ARM_DEC_SHIFT_IMM | ARM_DEC_B_UNCOND
  | ARM_DEC_B_COND | ARM_DEC_LOAD | ARM_DEC_STORE | ARM_DEC_LOAD_LIT | ARM_DEC_NOP | ARM_DEC_EXTEND | ARM_DEC_CBZ

datatype arm_alu_op =
    ARM_ALU_AND | ARM_ALU_EOR | ARM_ALU_ORR | ARM_ALU_BIC | ARM_ALU_ADD | ARM_ALU_SUB | ARM_ALU_RSB
  | ARM_ALU_MOV | ARM_ALU_MVN | ARM_ALU_CMP | ARM_ALU_CMN | ARM_ALU_TST

datatype arm_shift = ARM_SH_LSL | ARM_SH_LSR | ARM_SH_ASR

abbreviation ARM_DEC_NO_RM :: nat where "ARM_DEC_NO_RM \<equiv> 255"

record arm_decoded_insn =
  d_pc :: u32
  d_raw :: u16
  d_size :: nat
  klass :: arm_dec_class
  aluop :: arm_alu_op
  d_shift :: arm_shift
  d_rd :: nat
  d_rn :: nat
  d_rm :: nat
  d_cond :: nat
  d_imm :: u32
  msize :: nat
  sext :: bool
  writes_result :: bool
  set_flags :: bool
  d_cycles :: nat

definition arm_is_thumb2 :: "u16 \<Rightarrow> bool" where
  "arm_is_thumb2 hw \<longleftrightarrow> fld hw 11 5 \<in> {0x1D, 0x1E, 0x1F}"

subsection \<open>Decoding\<close>

definition blank_insn :: "u32 \<Rightarrow> u16 \<Rightarrow> arm_decoded_insn" where
  "blank_insn ip hw =
     \<lparr>d_pc = ip, d_raw = hw, d_size = 0, klass = ARM_DEC_UNSUPPORTED, aluop = ARM_ALU_AND, d_shift = ARM_SH_LSL,
      d_rd = 0, d_rn = 0, d_rm = 0, d_cond = 0, d_imm = 0, msize = 0, sext = False, writes_result = False,
      set_flags = False, d_cycles = 0\<rparr>"

definition reject :: "u32 \<Rightarrow> u16 \<Rightarrow> arm_decoded_insn" where
  "reject ip hw = (blank_insn ip hw)\<lparr>d_size := (if arm_is_thumb2 hw then 4 else 2)\<rparr>"

definition base_insn :: "u32 \<Rightarrow> u16 \<Rightarrow> arm_dec_class \<Rightarrow> arm_decoded_insn" where
  "base_insn ip hw k =
     (blank_insn ip hw)\<lparr>d_size := 2, klass := k, writes_result := True, set_flags := True, d_cycles := 1,
                        d_rm := ARM_DEC_NO_RM\<rparr>"

definition memop :: "u32 \<Rightarrow> u16 \<Rightarrow> arm_dec_class \<Rightarrow> nat \<Rightarrow> nat \<Rightarrow> nat \<Rightarrow> arm_decoded_insn" where
  "memop ip hw k rt rn sz =
     (base_insn ip hw k)\<lparr>d_rd := rt, d_rn := rn, msize := sz, writes_result := (k \<noteq> ARM_DEC_STORE), d_cycles := 2\<rparr>"

definition dec_shift :: "u32 \<Rightarrow> u16 \<Rightarrow> arm_decoded_insn" where
  "dec_shift ip hw =
     (let top5 = fld hw 11 5; imm5 = fld hw 6 5;
          out = (base_insn ip hw ARM_DEC_SHIFT_IMM)\<lparr>d_rd := fld hw 0 3, d_rm := fld hw 3 3, d_imm := of_nat imm5,
            d_shift := (if top5 = 0 then ARM_SH_LSL else if top5 = 1 then ARM_SH_LSR else ARM_SH_ASR)\<rparr>
      in if imm5 = 0
         then (if top5 \<noteq> 0 then reject ip hw
               else out\<lparr>klass := ARM_DEC_ALU_REG, aluop := ARM_ALU_MOV, d_rn := d_rm out\<rparr>)
         else out)"

definition dec_addsub :: "u32 \<Rightarrow> u16 \<Rightarrow> arm_decoded_insn" where
  "dec_addsub ip hw =
     (let sub_op = fld hw 9 2;
          out = (base_insn ip hw ARM_DEC_ALU_REG)\<lparr>d_rd := fld hw 0 3, d_rn := fld hw 3 3\<rparr>
      in if sub_op = 0 then out\<lparr>aluop := ARM_ALU_ADD, d_rm := fld hw 6 3\<rparr>
         else if sub_op = 1 then out\<lparr>aluop := ARM_ALU_SUB, d_rm := fld hw 6 3\<rparr>
         else if sub_op = 2 then out\<lparr>aluop := ARM_ALU_ADD, klass := ARM_DEC_ALU_IMM, d_imm := imm_fld hw 6 3\<rparr>
         else out\<lparr>aluop := ARM_ALU_SUB, klass := ARM_DEC_ALU_IMM, d_imm := imm_fld hw 6 3\<rparr>)"

definition dec_imm8 :: "u32 \<Rightarrow> u16 \<Rightarrow> arm_decoded_insn" where
  "dec_imm8 ip hw =
     (let top5 = fld hw 11 5;
          out = (base_insn ip hw ARM_DEC_ALU_IMM)\<lparr>d_rd := fld hw 8 3, d_rn := fld hw 8 3, d_imm := imm_fld hw 0 8\<rparr>
      in if top5 = 4 then out\<lparr>aluop := ARM_ALU_MOV\<rparr>
         else if top5 = 5 then out\<lparr>aluop := ARM_ALU_CMP, writes_result := False\<rparr>
         else if top5 = 6 then out\<lparr>aluop := ARM_ALU_ADD\<rparr>
         else out\<lparr>aluop := ARM_ALU_SUB\<rparr>)"

definition dec_hi :: "u32 \<Rightarrow> u16 \<Rightarrow> arm_decoded_insn" where
  "dec_hi ip hw =
     (let opc = fld hw 8 2; d = (if bit hw 7 then 8 else 0) + fld hw 0 3; m = fld hw 3 4 in
      if opc = 3 \<or> d = 15 \<or> m = 15 then reject ip hw
      else
        let out = (base_insn ip hw ARM_DEC_ALU_REG)\<lparr>d_rd := d, d_rn := d, d_rm := m\<rparr>
        in if opc = 0 then out\<lparr>aluop := ARM_ALU_ADD, set_flags := False\<rparr>
           else if opc = 1 then out\<lparr>aluop := ARM_ALU_CMP, writes_result := False\<rparr>
           else out\<lparr>aluop := ARM_ALU_MOV, set_flags := False, d_rn := m\<rparr>)"

definition dec_dp :: "u32 \<Rightarrow> u16 \<Rightarrow> arm_decoded_insn" where
  "dec_dp ip hw =
     (let opc = fld hw 6 4;
          out = (base_insn ip hw ARM_DEC_ALU_REG)\<lparr>d_rd := fld hw 0 3, d_rn := fld hw 0 3, d_rm := fld hw 3 3\<rparr>
      in if opc = 0 then out\<lparr>aluop := ARM_ALU_AND\<rparr>
         else if opc = 1 then out\<lparr>aluop := ARM_ALU_EOR\<rparr>
         else if opc = 8 then out\<lparr>aluop := ARM_ALU_TST, writes_result := False\<rparr>
         else if opc = 9 then out\<lparr>aluop := ARM_ALU_RSB, d_rn := d_rm out\<rparr>
         else if opc = 10 then out\<lparr>aluop := ARM_ALU_CMP, writes_result := False\<rparr>
         else if opc = 11 then out\<lparr>aluop := ARM_ALU_CMN, writes_result := False\<rparr>
         else if opc = 12 then out\<lparr>aluop := ARM_ALU_ORR\<rparr>
         else if opc = 14 then out\<lparr>aluop := ARM_ALU_BIC\<rparr>
         else if opc = 15 then out\<lparr>aluop := ARM_ALU_MVN, d_rn := d_rm out\<rparr>
         else reject ip hw)"

definition dec_bcond :: "u32 \<Rightarrow> u16 \<Rightarrow> arm_decoded_insn" where
  "dec_bcond ip hw =
     (let cond = fld hw 8 4 in
      if cond \<ge> 14 then reject ip hw
      else (base_insn ip hw ARM_DEC_B_COND)\<lparr>writes_result := False, d_cond := cond,
             d_imm := ip + 4 + scast (ucast hw :: u8) * 2\<rparr>)"

definition dec_b :: "u32 \<Rightarrow> u16 \<Rightarrow> arm_decoded_insn" where
  "dec_b ip hw =
     (let imm11 = imm_fld hw 0 11; imm11' = (if bit imm11 10 then imm11 OR 0xFFFFF800 else imm11)
      in (base_insn ip hw ARM_DEC_B_UNCOND)\<lparr>writes_result := False, d_imm := ip + 4 + imm11' * 2\<rparr>)"

definition dec_adr :: "u32 \<Rightarrow> u16 \<Rightarrow> arm_decoded_insn" where
  "dec_adr ip hw =
     (base_insn ip hw ARM_DEC_ALU_IMM)\<lparr>aluop := ARM_ALU_MOV, set_flags := False, d_rd := fld hw 8 3, d_rn := fld hw 8 3,
        d_imm := ((ip + 4) AND NOT 3) + push_bit 2 (imm_fld hw 0 8)\<rparr>"

definition dec_add_sp :: "u32 \<Rightarrow> u16 \<Rightarrow> arm_decoded_insn" where
  "dec_add_sp ip hw =
     (base_insn ip hw ARM_DEC_ALU_IMM)\<lparr>aluop := ARM_ALU_ADD, set_flags := False, d_rd := fld hw 8 3, d_rn := 13,
        d_imm := push_bit 2 (imm_fld hw 0 8)\<rparr>"

definition dec_misc :: "u32 \<Rightarrow> u16 \<Rightarrow> arm_decoded_insn" where
  "dec_misc ip hw =
     (let nib = fld hw 8 4 in
      if hw = 0xBF00 then (base_insn ip hw ARM_DEC_NOP)\<lparr>writes_result := False\<rparr>
      else if nib = 0 then
        (base_insn ip hw ARM_DEC_ALU_IMM)\<lparr>aluop := (if bit hw 7 then ARM_ALU_SUB else ARM_ALU_ADD), set_flags := False,
           d_rd := 13, d_rn := 13, d_imm := push_bit 2 (imm_fld hw 0 7)\<rparr>
      else if nib = 2 then
        (let op2 = fld hw 6 2
         in (base_insn ip hw ARM_DEC_EXTEND)\<lparr>d_rd := fld hw 0 3, d_rm := fld hw 3 3,
               msize := [2, 1, 2, 1] ! op2, sext := [True, True, False, False] ! op2\<rparr>)
      else if nib \<in> {1, 3, 9, 11} then
        (base_insn ip hw ARM_DEC_CBZ)\<lparr>writes_result := False, d_rn := fld hw 0 3, d_cond := (if bit hw 11 then 1 else 0),
           d_imm := ip + 4 + (push_bit 6 (imm_fld hw 9 1) OR push_bit 1 (imm_fld hw 3 5))\<rparr>
      else reject ip hw)"

definition ls_reg_table :: "(arm_dec_class \<times> nat \<times> bool) list" where
  "ls_reg_table =
     [(ARM_DEC_STORE, 4, False), (ARM_DEC_STORE, 2, False), (ARM_DEC_STORE, 1, False), (ARM_DEC_LOAD, 1, True),
      (ARM_DEC_LOAD, 4, False), (ARM_DEC_LOAD, 2, False), (ARM_DEC_LOAD, 1, False), (ARM_DEC_LOAD, 2, True)]"

definition dec_ls_reg :: "u32 \<Rightarrow> u16 \<Rightarrow> arm_decoded_insn" where
  "dec_ls_reg ip hw =
     (let (k, sz, sx) = ls_reg_table ! fld hw 9 3
      in (memop ip hw k (fld hw 0 3) (fld hw 3 3) sz)\<lparr>sext := sx, d_rm := fld hw 6 3\<rparr>)"

definition ls_imm_table :: "(arm_dec_class \<times> nat) list" where
  "ls_imm_table =
     [(ARM_DEC_STORE, 4), (ARM_DEC_LOAD, 4), (ARM_DEC_STORE, 1), (ARM_DEC_LOAD, 1), (ARM_DEC_STORE, 2), (ARM_DEC_LOAD, 2)]"

definition dec_ls_imm :: "u32 \<Rightarrow> u16 \<Rightarrow> arm_decoded_insn" where
  "dec_ls_imm ip hw =
     (let (k, sz) = ls_imm_table ! (fld hw 11 5 - 12)
      in (memop ip hw k (fld hw 0 3) (fld hw 3 3) sz)\<lparr>d_imm := imm_fld hw 6 5 * of_nat sz\<rparr>)"

definition dec_lit :: "u32 \<Rightarrow> u16 \<Rightarrow> arm_decoded_insn" where
  "dec_lit ip hw =
     (memop ip hw ARM_DEC_LOAD_LIT (fld hw 8 3) 15 4)\<lparr>d_imm := ((ip + 4) AND NOT 3) + push_bit 2 (imm_fld hw 0 8)\<rparr>"

definition dec_ls_sp :: "u32 \<Rightarrow> u16 \<Rightarrow> arm_decoded_insn" where
  "dec_ls_sp ip hw =
     (memop ip hw (if fld hw 11 5 = 18 then ARM_DEC_STORE else ARM_DEC_LOAD) (fld hw 8 3) 13 4)\<lparr>d_imm := push_bit 2 (imm_fld hw 0 8)\<rparr>"

definition dec_hw :: "u32 \<Rightarrow> u16 \<Rightarrow> arm_decoded_insn" where
  "dec_hw ip hw =
     (let top5 = fld hw 11 5 in
      if arm_is_thumb2 hw then reject ip hw
      else if top5 \<le> 2 then dec_shift ip hw
      else if top5 = 3 then dec_addsub ip hw
      else if top5 \<le> 7 then dec_imm8 ip hw
      else if top5 = 8 then
        (if drop_bit 10 hw = 0x11 then dec_hi ip hw
         else if drop_bit 10 hw \<noteq> 0x10 then reject ip hw else dec_dp ip hw)
      else if top5 = 9 then dec_lit ip hw
      else if top5 = 10 \<or> top5 = 11 then dec_ls_reg ip hw
      else if top5 \<le> 17 then dec_ls_imm ip hw
      else if top5 = 18 \<or> top5 = 19 then dec_ls_sp ip hw
      else if top5 = 20 then dec_adr ip hw
      else if top5 = 21 then dec_add_sp ip hw
      else if top5 = 22 \<or> top5 = 23 then dec_misc ip hw
      else if top5 = 26 \<or> top5 = 27 then dec_bcond ip hw
      else if top5 = 28 then dec_b ip hw
      else reject ip hw)"

text \<open>\<open>arm_decode_insn\<close>: \<open>None\<close> is the return value 0, an address outside the image.\<close>

definition arm_decode_insn :: "(u32 \<Rightarrow> u8) \<Rightarrow> u32 \<Rightarrow> u32 \<Rightarrow> u32 \<Rightarrow> arm_decoded_insn option" where
  "arm_decode_insn img image_base image_len ip =
     (if ip < image_base then None
      else let off = ip - image_base in
        if off + 1 \<ge> image_len then None else Some (dec_hw ip (le16 img off)))"

abbreviation ARM_MAX_BLOCK_SIZE :: nat where "ARM_MAX_BLOCK_SIZE \<equiv> 32"

record arm_basic_block =
  blk_insns :: "arm_decoded_insn list"
  start_pc :: u32
  end_pc :: u32
  all_supported :: bool

definition terminator :: "arm_decoded_insn \<Rightarrow> bool" where
  "terminator di \<longleftrightarrow> klass di \<in> {ARM_DEC_B_UNCOND, ARM_DEC_B_COND, ARM_DEC_CBZ}"

fun decode_from ::
  "(u32 \<Rightarrow> u8) \<Rightarrow> u32 \<Rightarrow> u32 \<Rightarrow> nat \<Rightarrow> u32 \<Rightarrow> arm_basic_block \<Rightarrow> arm_basic_block" where
  "decode_from img image_base image_len 0 ip blk = blk"
| "decode_from img image_base image_len (Suc n) ip blk =
     (case arm_decode_insn img image_base image_len ip of
        None \<Rightarrow> blk
      | Some di \<Rightarrow>
          if klass di = ARM_DEC_UNSUPPORTED then blk\<lparr>all_supported := False\<rparr>
          else
            let blk' = blk\<lparr>blk_insns := blk_insns blk @ [di], end_pc := ip + of_nat (d_size di)\<rparr>
            in if terminator di then blk'
               else decode_from img image_base image_len n (ip + of_nat (d_size di)) blk')"

definition arm_decode_block :: "(u32 \<Rightarrow> u8) \<Rightarrow> u32 \<Rightarrow> u32 \<Rightarrow> u32 \<Rightarrow> arm_basic_block" where
  "arm_decode_block img image_base image_len ip =
     decode_from img image_base image_len ARM_MAX_BLOCK_SIZE ip
       \<lparr>blk_insns = [], start_pc = ip, end_pc = ip, all_supported = True\<rparr>"

subsection \<open>Reference semantics of a decoded instruction\<close>

definition exec_dec_shift :: "arm_decoded_insn \<Rightarrow> 'a arm_cpu_scheme \<Rightarrow> 'a arm_cpu_scheme" where
  "exec_dec_shift di cpu =
     (let f = (case d_shift di of ARM_SH_LSL \<Rightarrow> lsl_c | ARM_SH_LSR \<Rightarrow> lsr_c | ARM_SH_ASR \<Rightarrow> asr_c)
      in set_reg_nzc (d_rd di) (f (reg cpu (d_rm di)) (unat (d_imm di)) (carry_flag cpu)) cpu)"

definition dec_addr :: "arm_decoded_insn \<Rightarrow> 'a arm_cpu_scheme \<Rightarrow> u32" where
  "dec_addr di cpu = reg cpu (d_rn di) + d_imm di + (if d_rm di = ARM_DEC_NO_RM then 0 else reg cpu (d_rm di))"

definition exec_dec_load ::
  "'a arm_cpu_scheme arm_env \<Rightarrow> arm_decoded_insn \<Rightarrow> 'a arm_cpu_scheme \<Rightarrow> 'a arm_cpu_scheme" where
  "exec_dec_load env di cpu =
     (let a = dec_addr di cpu in
      charge (int (d_cycles di) - 1) (load_reg (d_rd di)
        (if msize di = 1 then widen (if sext di then scast else ucast) (mem_read8 env a cpu)
         else if msize di = 2 then widen (if sext di then scast else ucast) (mem_read16_unaligned env a cpu)
         else mem_read32_unaligned env a cpu)))"

definition exec_dec_store ::
  "'a arm_cpu_scheme arm_env \<Rightarrow> arm_decoded_insn \<Rightarrow> 'a arm_cpu_scheme \<Rightarrow> 'a arm_cpu_scheme" where
  "exec_dec_store env di cpu =
     (let a = dec_addr di cpu; v = reg cpu (d_rd di) in
      charge (int (d_cycles di) - 1)
        (if msize di = 1 then mem_write8 env a (ucast v) cpu
         else if msize di = 2 then mem_write16_unaligned env a (ucast v) cpu
         else mem_write32_unaligned env a v cpu))"

definition exec_dec_alu :: "arm_decoded_insn \<Rightarrow> 'a arm_cpu_scheme \<Rightarrow> 'a arm_cpu_scheme" where
  "exec_dec_alu di cpu =
     (let imm' = (klass di = ARM_DEC_ALU_IMM); rd = d_rd di; n = reg cpu (d_rn di);
          m = (if imm' then d_imm di else reg cpu (d_rm di));
          sum = ucast n + ucast m :: u64; diff = ucast n - ucast m :: u64;
          put = (\<lambda>v c. if writes_result di then set_reg rd v c else c);
          flags = (\<lambda>f c. if set_flags di then f c else c)
      in case aluop di of
           ARM_ALU_ADD \<Rightarrow> flags (set_add_flags n m sum) (put (ucast sum) cpu)
         | ARM_ALU_CMN \<Rightarrow> set_add_flags n m sum cpu
         | ARM_ALU_SUB \<Rightarrow> flags (set_sub_flags n m diff) (put (ucast diff) cpu)
         | ARM_ALU_CMP \<Rightarrow> set_sub_flags n m diff cpu
         | ARM_ALU_RSB \<Rightarrow> set_sub_flags 0 n (0 - ucast n) (set_reg rd (ucast (0 - ucast n :: u64)) cpu)
         | ARM_ALU_AND \<Rightarrow> set_reg_nz rd (n AND m) cpu
         | ARM_ALU_EOR \<Rightarrow> set_reg_nz rd (n XOR m) cpu
         | ARM_ALU_ORR \<Rightarrow> set_reg_nz rd (n OR m) cpu
         | ARM_ALU_BIC \<Rightarrow> set_reg_nz rd (n AND NOT m) cpu
         | ARM_ALU_TST \<Rightarrow> set_nz (n AND m) cpu
         | ARM_ALU_MVN \<Rightarrow> set_reg_nz rd (NOT n) cpu
         | ARM_ALU_MOV \<Rightarrow> (let v = (if imm' then d_imm di else n) in flags (set_nz v) (set_reg rd v cpu)))"

text \<open>\<open>None\<close> is the return value 0: the instruction is not in the subset and nothing was done.\<close>

definition arm_execute_decoded ::
  "'a arm_cpu_scheme arm_env \<Rightarrow> arm_decoded_insn \<Rightarrow> 'a arm_cpu_scheme \<Rightarrow> 'a arm_cpu_scheme option" where
  "arm_execute_decoded env di cpu =
     (case klass di of
        ARM_DEC_UNSUPPORTED \<Rightarrow> None
      | ARM_DEC_SHIFT_IMM \<Rightarrow> Some (exec_dec_shift di cpu)
      | ARM_DEC_NOP \<Rightarrow> Some cpu
      | ARM_DEC_EXTEND \<Rightarrow>
          (let v = reg cpu (d_rm di)
           in Some (set_reg (d_rd di) (if msize di = 1 then (if sext di then sxtb v else v AND 0xFF)
                                       else (if sext di then sxth v else v AND 0xFFFF)) cpu))
      | ARM_DEC_CBZ \<Rightarrow>
          Some (if (if reg cpu (d_rn di) \<noteq> 0 then 1 else 0) = d_cond di then set_reg ARM_PC (d_imm di) cpu else cpu)
      | ARM_DEC_LOAD_LIT \<Rightarrow>
          Some (charge (int (d_cycles di) - 1) (load_reg (d_rd di) (mem_read32_unaligned env (d_imm di) cpu)))
      | ARM_DEC_LOAD \<Rightarrow> Some (exec_dec_load env di cpu)
      | ARM_DEC_STORE \<Rightarrow> Some (exec_dec_store env di cpu)
      | ARM_DEC_ALU_REG \<Rightarrow> Some (exec_dec_alu di cpu)
      | ARM_DEC_ALU_IMM \<Rightarrow> Some (exec_dec_alu di cpu)
      | ARM_DEC_B_UNCOND \<Rightarrow> Some (set_reg ARM_PC (d_imm di) cpu)
      | ARM_DEC_B_COND \<Rightarrow> Some (if condition_passed cpu (d_cond di) then set_reg ARM_PC (d_imm di) cpu else cpu))"

subsection \<open>Iterations of a compiled block\<close>

text \<open>The block's length and total cost are positive; \<open>/\<close> truncates.\<close>

definition arm_jit_iters :: "nat \<Rightarrow> nat \<Rightarrow> bool \<Rightarrow> int \<Rightarrow> 'a arm_run_scheme \<Rightarrow> int" where
  "arm_jit_iters len cycles_total is_loop remaining cpu =
     (let lim = cdiv remaining (int len);
          lim = (if cycle_limit cpu \<noteq> INT64_MAX
                 then max lim (cdiv (cycle_limit cpu - cpu_cycles cpu) (int cycles_total)) else lim);
          lim = min lim (cdiv (next_event_cycle cpu - cpu_cycles cpu - 1) (int cycles_total));
          lim = (if \<not> is_loop \<and> lim > 1 then 1 else lim)
      in if lim < 1 then 0 else min lim 0x7FFFFFFF)"

end
