(* ===== verification/Arm_Alu_Correct.thy ===== *)
theory Arm_Alu_Correct
  imports Arm_Thumb16
begin

text \<open>
  The flags mean what the architecture says they mean: a compare followed by a condition decides
  the signed and the unsigned order, a flag-setting addition followed by an add-with-carry is a
  64-bit addition, and the bit-counting, reversing and bit-field operations meet their specifications.
\<close>

subsection \<open>Fields and flags\<close>

lemma fld_less: "fld hw lo w < 2 ^ w"
  unfolding fld_def by (simp add: unsigned_take_bit_eq)

lemma fld_bounds:
  "fld hw lo 2 < 4" "fld hw lo 3 < 8" "fld hw lo 4 < 16" "fld hw lo 5 < 32" "fld hw lo 8 < 256"
  using fld_less [of hw lo 2] fld_less [of hw lo 3] fld_less [of hw lo 4] fld_less [of hw lo 5]
    fld_less [of hw lo 8] by simp_all

lemma ucast_sum64 [simp]: "ucast (ucast a + ucast b :: u64) = (a + b :: u32)"
  by transfer (simp add: take_bit_add)

lemma ucast_diff64 [simp]: "ucast (ucast a - ucast b :: u64) = (a - b :: u32)"
  by transfer (simp add: take_bit_diff)

lemma set_reg_flag_bits [simp]: "set_reg i v (set_flag_bits m f cpu) = set_flag_bits m f (set_reg i v cpu)"
  by (simp add: set_reg_def set_flag_bits_def)

lemma set_reg_flags [simp]:
  "set_reg i v (set_nz r cpu) = set_nz r (set_reg i v cpu)"
  "set_reg i v (set_nzc r c cpu) = set_nzc r c (set_reg i v cpu)"
  "set_reg i v (set_add_flags a b s cpu) = set_add_flags a b s (set_reg i v cpu)"
  "set_reg i v (set_sub_flags a b s cpu) = set_sub_flags a b s (set_reg i v cpu)"
  by (simp_all add: set_nz_def set_nzc_def set_add_flags_def set_sub_flags_def Let_def)

subsection \<open>Flag bits\<close>

lemma bit_set_flag_bits:
  "i < 32 \<Longrightarrow> bit (xpsr (set_flag_bits m f cpu)) i \<longleftrightarrow> bit (xpsr cpu) i \<and> \<not> bit m i \<or> bit f i"
  by (auto simp: set_flag_bits_def bit_simps)

lemma apsr_nz_bits: "bit (apsr_nz r) 31 \<longleftrightarrow> bit r 31" "bit (apsr_nz r) 30 \<longleftrightarrow> r = 0" "\<not> bit (apsr_nz r) 29" "\<not> bit (apsr_nz r) 28"
  by (auto simp: apsr_nz_def bit_or_iff)

lemma sub_flag_bits:
  "bit (xpsr (compare a b cpu)) 31 \<longleftrightarrow> bit (a - b) 31" "bit (xpsr (compare a b cpu)) 30 \<longleftrightarrow> a = b"
  "bit (xpsr (compare a b cpu)) 29 \<longleftrightarrow> b \<le> a"
  "bit (xpsr (compare a b cpu)) 28 \<longleftrightarrow> bit ((a XOR b) AND (a XOR (a - b))) 31"
  unfolding compare_def set_sub_flags_def Let_def
  by (simp_all add: bit_set_flag_bits bit_or_iff apsr_nz_bits)

lemma add_flag_bits:
  "bit (xpsr (set_add_flags a b s cpu)) 31 \<longleftrightarrow> bit (ucast s :: u32) 31" "bit (xpsr (set_add_flags a b s cpu)) 30 \<longleftrightarrow> (ucast s :: u32) = 0"
  "bit (xpsr (set_add_flags a b s cpu)) 29 \<longleftrightarrow> s > 0xFFFFFFFF"
  "bit (xpsr (set_add_flags a b s cpu)) 28 \<longleftrightarrow> bit ((a XOR ucast s) AND (b XOR ucast s)) 31"
  unfolding set_add_flags_def Let_def
  by (simp_all add: bit_set_flag_bits bit_or_iff apsr_nz_bits)

lemma top_bit32: "bit (v :: u32) 31 \<longleftrightarrow> 2 ^ 31 \<le> uint v"
proof -
  have b: "0 \<le> uint v" "uint v < 2 ^ 32" using uint_lt2p [of v] by simp_all
  have "bit v 31 \<longleftrightarrow> odd (uint v div 2 ^ 31)" using bit_uint_iff [of v 31] by (simp add: bit_iff_odd [of "uint v"])
  moreover have "uint v div 2 ^ 31 < 2" "0 \<le> uint v div 2 ^ 31" using b by (simp_all add: pos_imp_zdiv_nonneg_iff)
  moreover from this have "uint v div 2 ^ 31 = 0 \<or> uint v div 2 ^ 31 = 1" by linarith
  ultimately have "bit v 31 \<longleftrightarrow> uint v div 2 ^ 31 = 1" by auto
  thus ?thesis using b by auto
qed

lemma sint32: "sint (v :: u32) = (if bit v 31 then uint v - 2 ^ 32 else uint v)"
  using bit_uint_iff [of v 31] uint_lt2p [of v]
  by (simp add: sint_uint signed_take_bit_eq_take_bit_minus take_bit_int_eq_self)

lemma uint_minus32: "uint (a - b :: u32) = (if b \<le> a then uint a - uint b else uint a - uint b + 2 ^ 32)"
  using uint_lt2p [of a] uint_lt2p [of b] by (simp add: uint_sub_if' word_le_def)

lemma signed_order32:
  fixes a b :: u32
  shows "(bit (a - b) 31 = bit ((a XOR b) AND (a XOR (a - b))) 31) \<longleftrightarrow> sint b \<le> sint a"
proof -
  define x y where "x = uint a" and "y = uint b"
  have "0 \<le> x" "x < 2 ^ 32" "0 \<le> y" "y < 2 ^ 32"
    using uint_lt2p [of a] uint_lt2p [of b] by (simp_all add: x_def y_def)
  thus ?thesis
    unfolding bit_and_iff bit_xor_iff sint32 unfolding top_bit32 uint_minus32 word_le_def x_def [symmetric] y_def [symmetric]
    by (auto split: if_splits)
qed

lemma condition_passed_odd: "odd cond \<Longrightarrow> condition_passed cpu cond \<longleftrightarrow> \<not> condition_passed cpu (cond - 1)"
  by (elim oddE) (simp add: condition_passed_def Let_def)

lemma compare_less: "b < a \<longleftrightarrow> b \<le> a \<and> a \<noteq> (b :: u32)" "sint b < sint a \<longleftrightarrow> sint b \<le> sint a \<and> a \<noteq> b"
  by (auto simp: order_less_le dest: signed_word_eqI [THEN sym])

text \<open>
  C16. A compare followed by a condition decides the order of the operands: EQ equality, CS and HI
  the unsigned order, GE and GT the signed order, over all pairs of 32-bit values, and every odd
  condition is the negation of the even one below it.
\<close>

theorem compare_decides_order:
  "(condition_passed (compare a b cpu) 0 \<longleftrightarrow> a = b) \<and>
   (condition_passed (compare a b cpu) 2 \<longleftrightarrow> b \<le> a) \<and>
   (condition_passed (compare a b cpu) 8 \<longleftrightarrow> b < a) \<and>
   (condition_passed (compare a b cpu) 10 \<longleftrightarrow> sint b \<le> sint a) \<and>
   (condition_passed (compare a b cpu) 12 \<longleftrightarrow> sint b < sint a) \<and>
   (odd cond = (condition_passed (compare a b cpu) cond \<noteq> condition_passed (compare a b cpu) (cond - cond mod 2)))"
proof -
  have "odd cond = (condition_passed c cond \<noteq> condition_passed c (cond - cond mod 2))" for c :: "'a arm_cpu_scheme"
    using condition_passed_odd [of cond c] by (cases "odd cond") (auto simp: odd_iff_mod_2_eq_one)
  thus ?thesis
    unfolding compare_less
    by (auto simp: condition_passed_def sub_flag_bits signed_order32 [symmetric])
qed


subsection \<open>Double words\<close>

lemma mod_once:
  fixes x m :: int
  assumes "0 \<le> x" "x < 2 * m"
  shows "x mod m = (if x < m then x else x - m)"
proof (cases "x < m")
  case True
  thus ?thesis using assms by (simp add: mod_pos_pos_trivial)
next
  case False
  have "x mod m = (x - m) mod m" by simp
  also have "\<dots> = x - m" using assms False by (intro mod_pos_pos_trivial) simp_all
  finally show ?thesis using False by simp
qed

lemma uint_pair64: "uint (pair64 hi lo) = uint hi * 2 ^ 32 + uint lo"
proof -
  have b: "0 \<le> uint hi" "uint hi < 2 ^ 32" "0 \<le> uint lo" "uint lo < 2 ^ 32"
    using uint_lt2p [of hi] uint_lt2p [of lo] by simp_all
  have "pair64 hi lo = push_bit 32 (ucast hi) + ucast lo"
    unfolding pair64_def
    by (subst disjunctive_add [symmetric]) (auto simp: bit_simps add.commute dest: bit_imp_le_length)
  also have "\<dots> = word_of_int (uint hi * 2 ^ 32 + uint lo)"
    by (simp add: push_bit_eq_mult)
  finally have "pair64 hi lo = word_of_int (uint hi * 2 ^ 32 + uint lo)" .
  thus ?thesis using b by (simp only: uint_word_of_int) (rule mod_pos_pos_trivial, simp_all)
qed

lemma uint_ucast64: "uint (ucast (v :: u32) :: u64) = uint v"
  using uint_lt2p [of v] by (simp add: unsigned_ucast_eq take_bit_int_eq_self)

lemma carry_in_bounds: "uint (carry_in cpu) = (if carry_flag cpu then 1 else 0)"
  by (simp add: carry_in_def)


lemma uint_sum3:
  assumes "uint c \<le> 1"
  shows "uint (ucast (a :: u32) + ucast (b :: u32) + c :: u64) = uint a + uint b + uint c"
    and "uint (ucast (ucast a + ucast b + c :: u64) :: u32) =
         (if uint a + uint b + uint c < 2 ^ 32 then uint a + uint b + uint c else uint a + uint b + uint c - 2 ^ 32)"
proof -
  have b: "0 \<le> uint a" "uint a < 2 ^ 32" "0 \<le> uint b" "uint b < 2 ^ 32" "0 \<le> uint c"
    using uint_lt2p [of a] uint_lt2p [of b] by simp_all
  show s: "uint (ucast a + ucast b + c :: u64) = uint a + uint b + uint c"
    using b assms by (simp add: uint_plus_if' uint_ucast64)
  have "uint (ucast (ucast a + ucast b + c :: u64) :: u32) = (uint a + uint b + uint c) mod 2 ^ 32"
    unfolding s [symmetric] by (simp add: unsigned_ucast_eq take_bit_eq_mod)
  also have "\<dots> = (if uint a + uint b + uint c < 2 ^ 32 then uint a + uint b + uint c else uint a + uint b + uint c - 2 ^ 32)"
    using b assms by (intro mod_once) simp_all
  finally show "uint (ucast (ucast a + ucast b + c :: u64) :: u32) =
         (if uint a + uint b + uint c < 2 ^ 32 then uint a + uint b + uint c else uint a + uint b + uint c - 2 ^ 32)" .
qed


lemma ucast_down_diff: "ucast (x - y :: u64) = (ucast x - ucast y :: u32)"
proof -
  have "take_bit 32 (take_bit 64 x - take_bit 64 y) = take_bit 32 (x - y)" for x y :: int
    using take_bit_diff [of 32 "take_bit 64 x" "take_bit 64 y"] take_bit_diff [of 32 x y] by simp
  thus ?thesis by transfer (simp add: take_bit_diff)
qed

lemma ucast_diff3: "ucast (ucast a - ucast b - c :: u64) = (a - b - ucast c :: u32)"
  unfolding ucast_down_diff [of _ c] ucast_diff64 ..

lemma reg_set_flags [simp]:
  "reg (set_add_flags a b s cpu) = reg cpu" "reg (set_sub_flags a b s cpu) = reg cpu" "reg (set_sbc_flags a b c r cpu) = reg cpu"
  by (simp_all add: set_add_flags_def set_sub_flags_def set_sbc_flags_def set_flag_bits_def Let_def)

lemma reg_set_reg: "reg (set_reg i v cpu) j = (if j = i then v else reg cpu j)"
  by (simp add: set_reg_def)

lemma carry_after_add:
  "carry_flag (set_add_flags a b (ucast a + ucast b + c) cpu) \<longleftrightarrow> 2 ^ 32 \<le> uint a + uint b + uint c" if "uint c \<le> 1"
  unfolding carry_flag_def add_flag_bits using uint_sum3(1) [OF that, of a b] by (auto simp: word_less_def)

lemma carry_after_sub: "carry_flag (set_sub_flags a b r cpu) \<longleftrightarrow> uint b \<le> uint a"
  unfolding carry_flag_def set_sub_flags_def Let_def
  by (auto simp: bit_set_flag_bits bit_or_iff apsr_nz_bits word_le_def)

text \<open>
  A flag-setting addition of the low words followed by an add-with-carry of the high words
  is the addition of the 64-bit numbers, modulo \<open>2^64\<close>, and the carry left behind is the carry out of that sum.
\<close>

theorem adds_adc_is_add64:
  assumes "lo \<noteq> hi" "lo \<noteq> m" "c2 = t16_adc hi m (add_setting_flags lo a b cpu)"
  shows "pair64 (reg c2 hi) (reg c2 lo) = pair64 (reg cpu hi) a + pair64 (reg cpu m) b \<and>
    (carry_flag c2 \<longleftrightarrow> 2 ^ 64 \<le> uint (pair64 (reg cpu hi) a) + uint (pair64 (reg cpu m) b))"
proof -
  define c1 where "c1 = add_setting_flags lo a b cpu"
  let ?h = "reg cpu hi" and ?m = "reg cpu m"
  have keep: "reg c1 hi = ?h" "reg c1 m = ?m" "reg c1 lo = a + b"
    using assms(1, 2) by (simp_all add: c1_def add_setting_flags_def reg_set_reg)
  have c: "carry_flag c1 \<longleftrightarrow> 2 ^ 32 \<le> uint a + uint b"
    using carry_after_add [of 0 a b] by (simp add: c1_def add_setting_flags_def)
  have one: "uint (carry_in c1) \<le> 1" by (simp add: carry_in_bounds)
  have c2: "c2 = set_reg hi (ucast (ucast ?h + ucast ?m + carry_in c1 :: u64)) (set_add_flags ?h ?m (ucast ?h + ucast ?m + carry_in c1) c1)"
    unfolding assms(3) c1_def [symmetric] t16_adc_def Let_def keep ..
  have lo: "uint (reg c2 lo) = (if uint a + uint b < 2 ^ 32 then uint a + uint b else uint a + uint b - 2 ^ 32)"
    using assms(1) keep(3) by (simp add: c2 reg_set_reg uint_plus_if')
  have hi: "uint (reg c2 hi) = (let t = uint ?h + uint ?m + uint (carry_in c1) in if t < 2 ^ 32 then t else t - 2 ^ 32)"
    by (simp only: c2 reg_set_reg simp_thms if_True uint_sum3(2) [OF one] Let_def)
  have f: "carry_flag c2 \<longleftrightarrow> 2 ^ 32 \<le> uint ?h + uint ?m + uint (carry_in c1)"
    using carry_after_add [OF one, of ?h ?m c1] by (simp add: c2 carry_flag_def set_reg_def)
  have "uint (pair64 (reg c2 hi) (reg c2 lo)) = uint (pair64 ?h a + pair64 ?m b)"
    unfolding uint_plus_if' uint_pair64 lo hi carry_in_bounds c Let_def
    using uint_lt2p [of a] uint_lt2p [of b] by simp (insert uint_ge_0 [of a] uint_ge_0 [of b], linarith)
  hence "pair64 (reg c2 hi) (reg c2 lo) = pair64 ?h a + pair64 ?m b" by (rule word_uint_eqI)
  moreover have "carry_flag c2 \<longleftrightarrow> 2 ^ 64 \<le> uint (pair64 ?h a) + uint (pair64 ?m b)"
    unfolding f uint_pair64 carry_in_bounds c using uint_lt2p [of a] uint_lt2p [of b]
    by simp (insert uint_ge_0 [of a] uint_ge_0 [of b], linarith)
  ultimately show ?thesis ..
qed

theorem adds_adc_is_add64_witness:
  "\<forall>cpu :: arm_cpu.
     let c = t16_adc 1 3 (add_setting_flags 0 0xFFFFFFFF 1 (cpu\<lparr>reg := (\<lambda>_. 0)(1 := 5, 3 := 7)\<rparr>))
     in pair64 (reg c 1) (reg c 0) = pair64 13 0 \<and> \<not> carry_flag c"
proof
  fix cpu :: arm_cpu
  have "pair64 5 0xFFFFFFFF + pair64 7 1 = pair64 13 0" by (simp add: pair64_def push_bit_eq_mult or_numerals)
  thus "let c = t16_adc 1 3 (add_setting_flags 0 0xFFFFFFFF 1 (cpu\<lparr>reg := (\<lambda>_. 0)(1 := 5, 3 := 7)\<rparr>))
     in pair64 (reg c 1) (reg c 0) = pair64 13 0 \<and> \<not> carry_flag c"
    using adds_adc_is_add64 [of 0 1 3 _ "0xFFFFFFFF" 1 "cpu\<lparr>reg := (\<lambda>_. 0)(1 := 5, 3 := 7)\<rparr>", OF _ _ refl]
    by (simp add: Let_def uint_pair64)
qed

lemma uint_sub3:
  assumes "uint c \<le> 1"
  shows "uint (a - b - c :: u32) = (let t = uint a - uint b - uint c in if 0 \<le> t then t else t + 2 ^ 32)"
  using assms uint_lt2p [of a] uint_lt2p [of b] uint_ge_0 [of a] uint_ge_0 [of b] uint_ge_0 [of c]
  unfolding uint_sub_if' Let_def by auto (insert uint_ge_0 [of a] uint_ge_0 [of b] uint_ge_0 [of c], linarith+)

lemma carry_after_sbc:
  "carry_flag (set_sbc_flags a b c r cpu) \<longleftrightarrow> uint b + uint c \<le> uint a" if "uint c \<le> 1"
proof -
  have "uint (ucast b + c :: u64) = uint b + uint c"
    using that uint_lt2p [of b] uint_ge_0 [of c] by (simp add: uint_plus_if' uint_ucast64)
  thus ?thesis
    unfolding carry_flag_def set_sbc_flags_def
    by (auto simp: bit_set_flag_bits bit_or_iff apsr_nz_bits word_le_def uint_ucast64)
qed

text \<open>
  A flag-setting subtraction of the low words followed by a subtract-with-carry of the high words
  is the subtraction of the 64-bit numbers, modulo \<open>2^64\<close>, and the carry left behind says that nothing was borrowed.
\<close>

theorem subs_sbc_is_sub64:
  assumes "lo \<noteq> hi" "lo \<noteq> m" "c2 = t16_sbc hi m (sub_setting_flags lo a b cpu)"
  shows "pair64 (reg c2 hi) (reg c2 lo) = pair64 (reg cpu hi) a - pair64 (reg cpu m) b \<and>
    (carry_flag c2 \<longleftrightarrow> uint (pair64 (reg cpu m) b) \<le> uint (pair64 (reg cpu hi) a))"
proof -
  define c1 where "c1 = sub_setting_flags lo a b cpu"
  define w where "w = 1 - carry_in c1"
  let ?h = "reg cpu hi" and ?m = "reg cpu m"
  have keep: "reg c1 hi = ?h" "reg c1 m = ?m" "reg c1 lo = a - b"
    using assms(1, 2) by (simp_all add: c1_def sub_setting_flags_def reg_set_reg)
  have c: "carry_flag c1 \<longleftrightarrow> uint b \<le> uint a"
    by (simp add: c1_def sub_setting_flags_def carry_after_sub)
  hence w: "uint w = (if uint b \<le> uint a then 0 else 1)" "uint (ucast w :: u32) = uint w"
    by (simp_all add: w_def carry_in_def)
  have one: "uint w \<le> 1" "uint (ucast w :: u32) \<le> 1" by (simp_all add: w)
  have c2: "c2 = set_reg hi (?h - ?m - ucast w) (set_sbc_flags ?h ?m w (?h - ?m - ucast w) c1)"
    unfolding assms(3) c1_def [symmetric] t16_sbc_def Let_def keep w_def [symmetric] ucast_diff3 ..
  have lo: "uint (reg c2 lo) = (if uint b \<le> uint a then uint a - uint b else uint a - uint b + 2 ^ 32)"
    using assms(1) keep(3) by (simp add: c2 reg_set_reg uint_sub_if')
  have hi: "uint (reg c2 hi) = (let t = uint ?h - uint ?m - uint w in if 0 \<le> t then t else t + 2 ^ 32)"
    using uint_sub3 [OF one(2), of ?h ?m] by (simp only: c2 reg_set_reg simp_thms if_True w(2))
  have f: "carry_flag c2 \<longleftrightarrow> uint ?m + uint w \<le> uint ?h"
    using carry_after_sbc [OF one(1), of ?h ?m] by (simp add: c2 carry_flag_def set_reg_def)
  note ranges = uint_lt2p [of a] uint_lt2p [of b] uint_ge_0 [of a] uint_ge_0 [of b]
  have "uint (pair64 (reg c2 hi) (reg c2 lo)) = uint (pair64 ?h a - pair64 ?m b)"
    unfolding uint_sub_if' uint_pair64 lo hi w Let_def using ranges by auto (insert uint_ge_0 [of a] uint_ge_0 [of b], linarith+)
  hence "pair64 (reg c2 hi) (reg c2 lo) = pair64 ?h a - pair64 ?m b" by (rule word_uint_eqI)
  moreover have "carry_flag c2 \<longleftrightarrow> uint (pair64 ?m b) \<le> uint (pair64 ?h a)"
    unfolding f uint_pair64 w using ranges by auto (insert uint_ge_0 [of a] uint_ge_0 [of b], linarith+)
  ultimately show ?thesis ..
qed


subsection \<open>Counting, reversing and bit fields\<close>

lemma clz_loop_shift:
  "v \<noteq> 0 \<Longrightarrow> \<exists>k < 32. bit (v :: u32) (31 - k) \<and> (\<forall>j < k. \<not> bit v (31 - j)) \<and> (\<forall>f > k. clz_loop f v n = n + k)"
proof -
  assume "v \<noteq> 0"
  then obtain i where "bit v i" by (auto simp: bit_eq_iff)
  hence i: "i < 32" "bit v (31 - (31 - i))" using bit_imp_le_length [of v i] by simp_all
  define k where "k = (LEAST k. bit v (31 - k))"
  have k: "bit v (31 - k)" unfolding k_def by (rule LeastI) (rule i(2))
  have least: "\<not> bit v (31 - j)" if "j < k" for j using not_less_Least that unfolding k_def by blast
  have "k \<le> 31 - i" unfolding k_def by (rule Least_le) (rule i(2))
  have "clz_loop f (push_bit j v) (n + j) = n + k" if "k < f + j" "j \<le> k" for f j
    using that
  proof (induction f arbitrary: j)
    case 0
    thus ?case by simp
  next
    case (Suc f)
    have "j \<le> 31" using Suc.prems(2) \<open>k \<le> 31 - i\<close> by linarith
    hence t: "bit (push_bit j v) 31 \<longleftrightarrow> bit v (31 - j)" by (simp add: bit_simps)
    show ?case
    proof (cases "j = k")
      case True
      thus ?thesis using t k by simp
    next
      case False
      with Suc.prems least t have "\<not> bit (push_bit j v) 31" by simp
      thus ?thesis using Suc.IH [of "Suc j"] Suc.prems False by (simp add: push_bit_push_bit)
    qed
  qed
  from this [of _ 0] show ?thesis using k least \<open>k \<le> 31 - i\<close> by (intro exI [of _ k]) auto
qed

lemma rbit_fold:
  "k \<le> 32 \<Longrightarrow> j < 32 \<Longrightarrow> bit (fold (\<lambda>i r. if bit v i then r OR push_bit (31 - i) 1 else r) [0..<k] (0 :: u32)) j \<longleftrightarrow> 31 - j < k \<and> bit v (31 - j)"
  by (induction k) (auto simp: bit_simps less_Suc_eq)

lemma bit_rbit: "j < 32 \<Longrightarrow> bit (rbit v) j \<longleftrightarrow> bit (v :: u32) (31 - j)"
  unfolding rbit_def by (subst rbit_fold) auto

text \<open>
  Counting leading zeros and reversing bits fit together: the count is 32 for zero and otherwise the
  number of zero bits above the topmost one, and reversing twice is the identity.
\<close>

theorem clz_rbit_correct:
  "rbit (rbit v) = v \<and> clz 0 = 32 \<and>
   (v = 0 \<or> clz v < 32 \<and> bit v (31 - clz v) \<and> bit (rbit v) (clz v) \<and> (\<forall>j < 32. 31 - clz v < j \<longrightarrow> \<not> bit v j))"
proof -
  have "rbit (rbit v) = v" by (rule bit_word_eqI) (simp add: bit_rbit)
  moreover have "clz v < 32 \<and> bit v (31 - clz v) \<and> bit (rbit v) (clz v) \<and> (\<forall>j < 32. 31 - clz v < j \<longrightarrow> \<not> bit v j)" if "v \<noteq> 0"
  proof -
    from clz_loop_shift [OF that, of 0] obtain k where
      k: "k < 32" "bit v (31 - k)" "\<forall>j < k. \<not> bit v (31 - j)" "clz_loop 32 v 0 = k" by auto
    hence "clz v = k" using that by (simp add: clz_def)
    moreover have "\<not> bit v j" if "j < 32" "31 - k < j" for j
      using k(3) [rule_format, of "31 - j"] that k(1) by simp
    ultimately show ?thesis using k by (auto simp: bit_rbit)
  qed
  ultimately show ?thesis by (auto simp: clz_def)
qed

lemma bit_low_mask: "bit (push_bit w 1 - 1 :: u32) i \<longleftrightarrow> i < w \<and> i < 32"
  by (auto simp add: push_bit_eq_mult mask_eq_exp_minus_1 [symmetric] bit_simps)

lemma bit_bfi: "lsb \<le> msb \<Longrightarrow> msb < 32 \<Longrightarrow> i < 32 \<Longrightarrow>
   bit (bfi old v lsb msb) i \<longleftrightarrow> (if lsb \<le> i \<and> i \<le> msb then bit v (i - lsb) else bit old i)"
  unfolding bfi_def bfi_mask_def bit_or_iff bit_and_iff bit_not_iff bit_push_bit_iff bit_low_mask by auto

text \<open>
  Inserting a bit field and extracting it again gives back the low bits of the value inserted, and the
  bits of the destination outside the field are kept; the signed extraction repeats the field's top bit.
\<close>

theorem bitfield_roundtrip:
  assumes "lsb \<le> msb" "msb < 32"
  shows "ubfx (bfi old v lsb msb) lsb (msb - lsb) = take_bit (msb - lsb + 1) v \<and>
    sbfx (bfi old v lsb msb) lsb (msb - lsb) = signed_take_bit (msb - lsb) v \<and>
    (\<forall>i. i < lsb \<or> msb < i \<longrightarrow> bit (bfi old v lsb msb) i = bit old i)"
proof -
  have "ubfx (bfi old v lsb msb) lsb (msb - lsb) = take_bit (msb - lsb + 1) v"
  proof (rule bit_word_eqI)
    fix i assume "i < LENGTH(32)"
    thus "bit (ubfx (bfi old v lsb msb) lsb (msb - lsb)) i = bit (take_bit (msb - lsb + 1) v) i"
      unfolding ubfx_def bit_and_iff bit_low_mask bit_drop_bit_eq o_def bit_take_bit_iff
      using assms by (cases "i < msb - lsb + 1") (auto simp: bit_bfi)
  qed
  moreover have "sbfx (bfi old v lsb msb) lsb (msb - lsb) = signed_take_bit (msb - lsb) v"
  proof (rule bit_word_eqI)
    fix i assume "i < LENGTH(32)"
    thus "bit (sbfx (bfi old v lsb msb) lsb (msb - lsb)) i = bit (signed_take_bit (msb - lsb) v) i"
      unfolding sbfx_def bit_signed_drop_bit_iff bit_signed_take_bit_iff bit_push_bit_iff
      using assms by (cases "i = msb - lsb") (auto simp: bit_bfi min_def)
  qed
  moreover have "bit (bfi old v lsb msb) i = bit old i" if "i < lsb \<or> msb < i" for i
  proof (cases "i < 32")
    case True
    with that show ?thesis by (auto simp: bit_bfi [OF assms])
  next
    case False
    hence "\<not> bit w i" for w :: u32 using bit_imp_le_length [of w i] by auto
    thus ?thesis by simp
  qed
  ultimately show ?thesis by simp
qed

theorem bitfield_roundtrip_witness:
  "ubfx (bfi 0xFFFFFFFF 0x2A 8 13) 8 5 = 0x2A \<and> sbfx (bfi 0xFFFFFFFF 0x2A 8 13) 8 5 = 0xFFFFFFEA"
  using bitfield_roundtrip [of 8 13 "0xFFFFFFFF" "0x2A"] by (simp add: signed_take_bit_eq_take_bit_minus take_bit_eq_mod)

theorem subs_sbc_is_sub64_witness:
  "\<forall>cpu :: arm_cpu.
     let c = t16_sbc 1 3 (sub_setting_flags 0 0 1 (cpu\<lparr>reg := (\<lambda>_. 0)(1 := 9, 3 := 7)\<rparr>))
     in pair64 (reg c 1) (reg c 0) = pair64 1 0xFFFFFFFF \<and> carry_flag c"
proof
  fix cpu :: arm_cpu
  have "pair64 9 0 - pair64 7 1 = pair64 1 0xFFFFFFFF" by (simp add: pair64_def push_bit_eq_mult or_numerals)
  thus "let c = t16_sbc 1 3 (sub_setting_flags 0 0 1 (cpu\<lparr>reg := (\<lambda>_. 0)(1 := 9, 3 := 7)\<rparr>))
     in pair64 (reg c 1) (reg c 0) = pair64 1 0xFFFFFFFF \<and> carry_flag c"
    using subs_sbc_is_sub64 [of 0 1 3 _ 0 1 "cpu\<lparr>reg := (\<lambda>_. 0)(1 := 9, 3 := 7)\<rparr>", OF _ _ refl]
    by (simp add: Let_def uint_pair64)
qed

theorem clz_rbit_correct_witness:
  "clz 0xF0 < 32 \<and> bit (0xF0 :: u32) (31 - clz 0xF0) \<and> bit (rbit 0xF0) (clz 0xF0)"
  using clz_rbit_correct [of "0xF0"] by simp

end
