(* ===== verification/Arm_Decode_Correct.thy ===== *)
theory Arm_Decode_Correct
  imports Arm_Decode Arm_Alu_Correct
begin

text \<open>
  The decoder of the just-in-time subset agrees with the interpreter: whatever halfword it
  accepts, the reference semantics of its decoding is the interpreter's handler. The second half
  is about blocks and the bound on compiled iterations.
\<close>

subsection \<open>Definitions of a decoded instruction\<close>

lemmas decoded_defs =
  arm_execute_decoded_def exec_dec_alu_def base_insn_def blank_insn_def memop_def

lemma reject_unsupported [simp]: "klass (reject ip hw) = ARM_DEC_UNSUPPORTED"
  by (simp add: reject_def blank_insn_def)

subsection \<open>Each class of instruction\<close>

lemma dec_shift_exec:
  assumes "klass (dec_shift ip hw) \<noteq> ARM_DEC_UNSUPPORTED" "fld hw 11 5 \<le> 2"
  shows "arm_execute_decoded env (dec_shift ip hw) cpu = Some (exec16 env hw ip cpu)"
proof -
  have "fld hw 6 5 < 4294967296" by (rule order_less_trans [OF fld_bounds(4)]) simp
  hence im: "unat (of_nat (fld hw 6 5) :: u32) = fld hw 6 5"
    by (simp add: unsigned_of_nat take_bit_nat_eq_self)
  from assms(2) consider "fld hw 11 5 = 0" | "fld hw 11 5 = 1" | "fld hw 11 5 = 2" by linarith
  thus ?thesis
    using assms(1) im
    by cases (auto simp: dec_shift_def decoded_defs exec_dec_shift_def exec16_def t16_lsl_imm_def t16_lsr_imm_def
        t16_asr_imm_def set_reg_nzc_def lsl_c_def lsr_c_def asr_c_def Let_def split: if_splits)
qed

lemma dec_addsub_exec:
  assumes "fld hw 11 5 = 3"
  shows "arm_execute_decoded env (dec_addsub ip hw) cpu = Some (exec16 env hw ip cpu)"
  using assms by (auto simp: dec_addsub_def decoded_defs exec16_def t16_addsub_def add_setting_flags_def
      sub_setting_flags_def Let_def)

lemma dec_imm8_exec:
  assumes "fld hw 11 5 \<in> {4, 5, 6, 7}"
  shows "arm_execute_decoded env (dec_imm8 ip hw) cpu = Some (exec16 env hw ip cpu)"
  using assms by (auto simp: dec_imm8_def decoded_defs exec16_def t16_mov_imm_def t16_cmp_imm_def compare_def
      t16_add_imm8_def t16_sub_imm8_def Let_def)

lemma dec_hi_exec:
  assumes "klass (dec_hi ip hw) \<noteq> ARM_DEC_UNSUPPORTED" "fld hw 11 5 = 8" "drop_bit 10 hw = 0x11"
  shows "arm_execute_decoded env (dec_hi ip hw) cpu = Some (exec16 env hw ip cpu)"
  using assms fld_bounds(1) [of hw 8]
  by (cases "fld hw 8 2 = 0 \<or> fld hw 8 2 = 1 \<or> fld hw 8 2 = 2") (auto simp: dec_hi_def decoded_defs exec16_def t16_dp_spec_def t16_spec_def compare_def hi_val_def
      clear_thumb_def Let_def split: if_splits)

lemma dec_dp_exec:
  assumes "klass (dec_dp ip hw) \<noteq> ARM_DEC_UNSUPPORTED" "fld hw 11 5 = 8" "drop_bit 10 hw = 0x10"
  shows "arm_execute_decoded env (dec_dp ip hw) cpu = Some (exec16 env hw ip cpu)"
  using assms fld_bounds(3) [of hw 6]
  by (auto simp: dec_dp_def decoded_defs exec16_def t16_dp_spec_def t16_dp_def set_reg_nz_def compare_def
      sub_setting_flags_def Let_def split: if_splits)


lemma dec_lit_exec:
  assumes "fld hw 11 5 = 9"
  shows "arm_execute_decoded env (dec_lit ip hw) cpu = Some (exec16 env hw ip cpu)"
  using assms by (simp add: dec_lit_def decoded_defs exec16_def t16_ldr_lit_def lit_addr_def)

lemma dec_ls_reg_exec:
  assumes "fld hw 11 5 = 10 \<or> fld hw 11 5 = 11"
  shows "arm_execute_decoded env (dec_ls_reg ip hw) cpu = Some (exec16 env hw ip cpu)"
proof -
  have d: "fld hw 6 3 \<noteq> ARM_DEC_NO_RM" using fld_bounds(2) [of hw 6] by linarith
  have e: "exec16 env hw ip cpu = t16_ls_reg env hw cpu" using assms by (auto simp: exec16_def)
  consider "fld hw 9 3 = 0" | "fld hw 9 3 = 1" | "fld hw 9 3 = 2" | "fld hw 9 3 = 3" | "fld hw 9 3 = 4"
    | "fld hw 9 3 = 5" | "fld hw 9 3 = 6" | "fld hw 9 3 = 7"
    using fld_bounds(2) [of hw 9] by linarith
  thus ?thesis
    unfolding e using d
    by cases (simp_all add: dec_ls_reg_def ls_reg_table_def decoded_defs exec_dec_load_def exec_dec_store_def
        dec_addr_def t16_ls_reg_def)
qed

lemma dec_ls_imm_exec:
  assumes "12 \<le> fld hw 11 5" "fld hw 11 5 \<le> 17"
  shows "arm_execute_decoded env (dec_ls_imm ip hw) cpu = Some (exec16 env hw ip cpu)"
proof -
  have sc: "push_bit 2 x = x * 4" "push_bit 1 x = x * 2" for x :: u32
    by (simp_all add: push_bit_eq_mult)
  consider "fld hw 11 5 = 12" | "fld hw 11 5 = 13" | "fld hw 11 5 = 14" | "fld hw 11 5 = 15"
    | "fld hw 11 5 = 16" | "fld hw 11 5 = 17"
    using assms by linarith
  thus ?thesis
    by cases (simp_all add: dec_ls_imm_def ls_imm_table_def decoded_defs exec_dec_load_def exec_dec_store_def
        dec_addr_def exec16_def t16_str_imm_def t16_ldr_imm_def t16_strb_imm_def t16_ldrb_imm_def
        t16_strh_imm_def t16_ldrh_imm_def sc)
qed

lemma dec_ls_sp_exec:
  assumes "fld hw 11 5 = 18 \<or> fld hw 11 5 = 19"
  shows "arm_execute_decoded env (dec_ls_sp ip hw) cpu = Some (exec16 env hw ip cpu)"
  using assms by (auto simp: dec_ls_sp_def decoded_defs exec_dec_load_def exec_dec_store_def dec_addr_def exec16_def
      t16_str_sp_def t16_ldr_sp_def)

lemma dec_address_exec:
  "fld hw 11 5 = 20 \<Longrightarrow> arm_execute_decoded env (dec_adr ip hw) cpu = Some (exec16 env hw ip cpu)"
  "fld hw 11 5 = 21 \<Longrightarrow> arm_execute_decoded env (dec_add_sp ip hw) cpu = Some (exec16 env hw ip cpu)"
  by (simp_all add: dec_adr_def dec_add_sp_def decoded_defs exec16_def t16_adr_def t16_add_sp_imm_def lit_addr_def
      Let_def)


lemma dec_misc_exec:
  assumes "klass (dec_misc ip hw) \<noteq> ARM_DEC_UNSUPPORTED" "fld hw 11 5 = 22 \<or> fld hw 11 5 = 23"
  shows "arm_execute_decoded env (dec_misc ip hw) cpu = Some (exec16 env hw ip cpu)"
proof -
  have e: "exec16 env hw ip cpu = t16_misc env hw ip cpu" using assms(2) by (auto simp: exec16_def)
  consider "hw = 0xBF00" | "hw \<noteq> 0xBF00" "fld hw 8 4 = 0" | "hw \<noteq> 0xBF00" "fld hw 8 4 = 2"
    | "hw \<noteq> 0xBF00" "fld hw 8 4 \<in> {1, 3, 9, 11}"
    using assms(1) by (auto simp: dec_misc_def Let_def split: if_splits)
  thus ?thesis
  proof cases
    case 1
    thus ?thesis unfolding e by (simp add: dec_misc_def decoded_defs t16_misc_def t16_hint_def fld_def)
  next
    case 2
    thus ?thesis unfolding e by (auto simp: dec_misc_def decoded_defs t16_misc_def Let_def)
  next
    case 3
    consider "fld hw 6 2 = 0" | "fld hw 6 2 = 1" | "fld hw 6 2 = 2" | "fld hw 6 2 = 3"
      using fld_bounds(1) [of hw 6] by linarith
    thus ?thesis
      unfolding e using 3 by cases (simp_all add: dec_misc_def decoded_defs t16_misc_def t16_extend_def)
  next
    case 4
    thus ?thesis
      unfolding e by (auto simp: dec_misc_def decoded_defs t16_misc_def t16_cbz_def cbz_target_def Let_def)
  qed
qed

lemma dec_bcond_exec:
  assumes "klass (dec_bcond ip hw) \<noteq> ARM_DEC_UNSUPPORTED" "fld hw 11 5 = 26 \<or> fld hw 11 5 = 27"
  shows "arm_execute_decoded env (dec_bcond ip hw) cpu = Some (exec16 env hw ip cpu)"
proof -
  have e: "exec16 env hw ip cpu = t16_bcond hw ip cpu" using assms(2) by (auto simp: exec16_def)
  have c: "\<not> 14 \<le> fld hw 8 4" using assms(1) by (auto simp: dec_bcond_def)
  hence "fld hw 8 4 \<noteq> 14" "fld hw 8 4 \<noteq> 15" by linarith+
  with c show ?thesis
    unfolding e by (simp add: dec_bcond_def decoded_defs t16_bcond_def bcond_target_def)
qed

lemma dec_b_exec:
  "fld hw 11 5 = 28 \<Longrightarrow> arm_execute_decoded env (dec_b ip hw) cpu = Some (exec16 env hw ip cpu)"
  by (simp add: dec_b_def decoded_defs exec16_def t16_b_uncond_def b_target_def Let_def)

lemmas dec_exec =
  dec_shift_exec dec_addsub_exec dec_imm8_exec dec_hi_exec dec_dp_exec dec_lit_exec dec_ls_reg_exec
  dec_ls_imm_exec dec_ls_sp_exec dec_address_exec dec_misc_exec dec_bcond_exec dec_b_exec

text \<open>
  C4. Every halfword that the decoder accepts is executed by the reference semantics of decoded
  instructions exactly as the interpreter's own handler executes it, to the last register, flag, memory access and cycle.
\<close>

theorem decoded_agrees_with_interpreter:
  assumes "klass (dec_hw ip hw) \<noteq> ARM_DEC_UNSUPPORTED"
  shows "arm_execute_decoded env (dec_hw ip hw) cpu = Some (exec16 env hw ip cpu)"
proof -
  have "fld hw 11 5 \<le> 2 \<or> fld hw 11 5 = 3 \<or> 4 \<le> fld hw 11 5 \<and> fld hw 11 5 \<le> 7 \<or> fld hw 11 5 = 8
    \<or> fld hw 11 5 = 9 \<or> fld hw 11 5 = 10 \<or> fld hw 11 5 = 11 \<or> 12 \<le> fld hw 11 5 \<and> fld hw 11 5 \<le> 17
    \<or> fld hw 11 5 = 18 \<or> fld hw 11 5 = 19 \<or> fld hw 11 5 = 20 \<or> fld hw 11 5 = 21 \<or> fld hw 11 5 = 22 \<or> fld hw 11 5 = 23
    \<or> fld hw 11 5 = 24 \<or> fld hw 11 5 = 25 \<or> fld hw 11 5 = 26 \<or> fld hw 11 5 = 27 \<or> fld hw 11 5 = 28
    \<or> fld hw 11 5 = 29 \<or> fld hw 11 5 = 30 \<or> fld hw 11 5 = 31"
    using fld_bounds(4) [of hw 11] by presburger
  thus ?thesis
    using assms by (elim disjE conjE) (auto simp: dec_hw_def arm_is_thumb2_def intro!: dec_exec split: if_splits)
qed


subsection \<open>Blocks\<close>

definition placed :: "u32 \<Rightarrow> u16 \<Rightarrow> arm_decoded_insn \<Rightarrow> bool" where
  "placed ip hw di \<longleftrightarrow> d_pc di = ip \<and> d_raw di = hw \<and> (klass di \<noteq> ARM_DEC_UNSUPPORTED \<longrightarrow> d_size di = 2)"

lemma placed_bases [simp]: "placed ip hw (reject ip hw)" "placed ip hw (base_insn ip hw k)" "placed ip hw (memop ip hw k rt rn sz)"
  by (simp_all add: placed_def reject_def base_insn_def memop_def blank_insn_def)

lemma placed_updates [simp]:
  "placed ip hw (di\<lparr>aluop := op\<rparr>) = placed ip hw di" "placed ip hw (di\<lparr>d_shift := sh\<rparr>) = placed ip hw di"
  "placed ip hw (di\<lparr>d_rd := r\<rparr>) = placed ip hw di" "placed ip hw (di\<lparr>d_rn := r\<rparr>) = placed ip hw di"
  "placed ip hw (di\<lparr>d_rm := r\<rparr>) = placed ip hw di" "placed ip hw (di\<lparr>d_cond := c\<rparr>) = placed ip hw di"
  "placed ip hw (di\<lparr>d_imm := v\<rparr>) = placed ip hw di" "placed ip hw (di\<lparr>msize := c\<rparr>) = placed ip hw di"
  "placed ip hw (di\<lparr>sext := b\<rparr>) = placed ip hw di" "placed ip hw (di\<lparr>writes_result := b\<rparr>) = placed ip hw di"
  "placed ip hw (di\<lparr>set_flags := b\<rparr>) = placed ip hw di"
  by (simp_all add: placed_def)

lemma placed_klass: "placed ip hw di \<Longrightarrow> d_size di = 2 \<Longrightarrow> placed ip hw (di\<lparr>klass := k\<rparr>)"
  by (simp add: placed_def)

lemma placed_shift [simp]: "placed ip hw (dec_shift ip hw)"
  by (simp add: dec_shift_def Let_def placed_klass base_insn_def) (simp add: placed_def blank_insn_def)

lemma placed_addsub [simp]: "placed ip hw (dec_addsub ip hw)"
  by (simp add: dec_addsub_def Let_def placed_def base_insn_def blank_insn_def)

lemma placed_decoders [simp]:
  "placed ip hw (dec_imm8 ip hw)" "placed ip hw (dec_hi ip hw)" "placed ip hw (dec_dp ip hw)" "placed ip hw (dec_lit ip hw)"
  "placed ip hw (dec_ls_reg ip hw)" "placed ip hw (dec_ls_imm ip hw)" "placed ip hw (dec_ls_sp ip hw)"
  "placed ip hw (dec_adr ip hw)" "placed ip hw (dec_add_sp ip hw)" "placed ip hw (dec_misc ip hw)"
  "placed ip hw (dec_bcond ip hw)" "placed ip hw (dec_b ip hw)"
  by (simp_all add: dec_imm8_def dec_hi_def dec_dp_def dec_lit_def dec_ls_reg_def dec_ls_imm_def dec_ls_sp_def dec_adr_def
      dec_add_sp_def dec_misc_def dec_bcond_def dec_b_def Let_def case_prod_unfold)

lemma placed_dec_hw: "placed ip hw (dec_hw ip hw)"
  by (simp add: dec_hw_def Let_def)

text \<open>What a block promises: the decodings of consecutive supported halfwords from \<open>ip\<close> on, with a branch at most at its end.\<close>

fun block_from :: "(u32 \<Rightarrow> u8) \<Rightarrow> u32 \<Rightarrow> u32 \<Rightarrow> u32 \<Rightarrow> arm_decoded_insn list \<Rightarrow> bool" where
  "block_from img lo len ip [] \<longleftrightarrow> True"
| "block_from img lo len ip (di # ds) \<longleftrightarrow>
     lo \<le> ip \<and> ip - lo + 1 < len \<and> di = dec_hw ip (le16 img (ip - lo)) \<and> klass di \<noteq> ARM_DEC_UNSUPPORTED \<and>
     (terminator di \<longrightarrow> ds = []) \<and> block_from img lo len (ip + 2) ds"

lemma arm_decode_insn_some:
  "arm_decode_insn img lo len ip = Some di \<longleftrightarrow> lo \<le> ip \<and> ip - lo + 1 < len \<and> di = dec_hw ip (le16 img (ip - lo))"
  by (auto simp: arm_decode_insn_def Let_def not_less not_le)

lemma decode_from_block:
  "\<exists>ds. blk_insns (decode_from img lo len n ip blk) = blk_insns blk @ ds \<and> length ds \<le> n \<and> block_from img lo len ip ds
     \<and> start_pc (decode_from img lo len n ip blk) = start_pc blk
     \<and> end_pc (decode_from img lo len n ip blk) = (if ds = [] then end_pc blk else ip + 2 * of_nat (length ds))"
proof (induction n arbitrary: ip blk)
  case 0
  show ?case by simp
next
  case (Suc n)
  show ?case
  proof (cases "arm_decode_insn img lo len ip")
    case None
    thus ?thesis by simp
  next
    case (Some di)
    hence at: "lo \<le> ip" "ip - lo + 1 < len" "di = dec_hw ip (le16 img (ip - lo))"
      by (simp_all add: arm_decode_insn_some)
    show ?thesis
    proof (cases "klass di = ARM_DEC_UNSUPPORTED \<or> terminator di")
      case True
      with Some at show ?thesis
        using placed_dec_hw [of ip "le16 img (ip - lo)"]
        by (cases "klass di = ARM_DEC_UNSUPPORTED") (auto simp: placed_def intro!: exI [where x = "[di]"])
    next
      case False
      let ?blk = "blk\<lparr>blk_insns := blk_insns blk @ [di], end_pc := ip + 2\<rparr>"
      have two: "d_size di = 2"
        using placed_dec_hw [of ip "le16 img (ip - lo)"] False at(3) by (simp add: placed_def)
      obtain ds where
        "blk_insns (decode_from img lo len n (ip + 2) ?blk) = blk_insns ?blk @ ds" "length ds \<le> n"
        "block_from img lo len (ip + 2) ds" "start_pc (decode_from img lo len n (ip + 2) ?blk) = start_pc ?blk"
        "end_pc (decode_from img lo len n (ip + 2) ?blk) = (if ds = [] then end_pc ?blk else ip + 2 + 2 * of_nat (length ds))"
        using Suc.IH by blast
      with Some False two at show ?thesis
        by (intro exI [where x = "di # ds"]) (auto simp: algebra_simps)
    qed
  qed
qed

text \<open>
  C25. A decoded block is at most 32 instructions, consecutive from its start address to its end
  address, each the decoding of the halfword at its address in the image, all of them supported,
  and a branch only in the last place.
\<close>

theorem decode_block_shape:
  "let blk = arm_decode_block img lo len ip
   in length (blk_insns blk) \<le> ARM_MAX_BLOCK_SIZE \<and> start_pc blk = ip
      \<and> end_pc blk = ip + 2 * of_nat (length (blk_insns blk)) \<and> block_from img lo len ip (blk_insns blk)"
  using decode_from_block [of img lo len ARM_MAX_BLOCK_SIZE ip "\<lparr>blk_insns = [], start_pc = ip, end_pc = ip, all_supported = True\<rparr>"]
  unfolding arm_decode_block_def by auto

subsection \<open>Iterations\<close>

lemma cdiv_mult_le:
  assumes "0 < d" "1 \<le> k" "k \<le> cdiv n d"
  shows "k * d \<le> n"
proof -
  have "0 < cdiv n d" using assms by linarith
  moreover have "cdiv n d \<le> 0" if "n \<le> 0"
    using that assms(1) pos_imp_zdiv_nonneg_iff [of d "- n"] by (cases "n = 0") (auto simp: cdiv_def)
  ultimately have "0 < n" by linarith
  hence "k * d \<le> (n div d) * d" using assms by (simp add: mult_right_mono)
  also have "\<dots> \<le> n" using div_mult_mod_eq [of n d] pos_mod_sign [OF assms(1), of n] by linarith
  finally show ?thesis .
qed

lemma capped_choice:
  fixes n a b c k :: int
  assumes "0 < n"
    "n = (let lim = a; lim = (if p then max lim b else lim); lim = min lim c;
              lim = (if \<not> loops \<and> lim > 1 then 1 else lim)
          in if lim < 1 then 0 else min lim k)"
  shows "n \<le> c \<and> (n \<le> a \<or> p \<and> n \<le> b) \<and> (loops \<or> n = 1)"
  using assms unfolding Let_def by (auto simp: min_def max_def split: if_splits)

lemma arm_jit_iters_bounds:
  assumes "0 < n" "n = arm_jit_iters len cost is_loop remaining cpu"
  shows "n \<le> cdiv (next_event_cycle cpu - cpu_cycles cpu - 1) (int cost)
    \<and> (n \<le> cdiv remaining (int len)
        \<or> cycle_limit cpu \<noteq> INT64_MAX \<and> n \<le> cdiv (cycle_limit cpu - cpu_cycles cpu) (int cost))
    \<and> (is_loop \<or> n = 1)"
  using assms(1) by (rule capped_choice) (rule assms(2) [unfolded arm_jit_iters_def])

text \<open>
  The number of iterations a compiled block may run never reaches the next event, and stays
  within the instruction budget or, when a cycle target is set, within that target; a block that
  is not a loop runs at most once.
\<close>

theorem jit_iters_safe:
  assumes "0 < len" "0 < cost" "0 < n" "n = arm_jit_iters len cost is_loop remaining cpu"
  shows "cpu_cycles cpu + n * int cost < next_event_cycle cpu
    \<and> (n * int len \<le> remaining \<or> cycle_limit cpu \<noteq> INT64_MAX \<and> cpu_cycles cpu + n * int cost \<le> cycle_limit cpu)
    \<and> (is_loop \<or> n = 1)"
proof -
  note b = arm_jit_iters_bounds [OF assms(3, 4), THEN conjunct1] arm_jit_iters_bounds [OF assms(3, 4), THEN conjunct2]
  have p: "0 < int len" "0 < int cost" "1 \<le> n" using assms by simp_all
  have "cpu_cycles cpu + n * int cost < next_event_cycle cpu"
    using cdiv_mult_le [OF p(2, 3) b(1)] by linarith
  moreover have "n * int len \<le> remaining \<or> cycle_limit cpu \<noteq> INT64_MAX \<and> cpu_cycles cpu + n * int cost \<le> cycle_limit cpu"
    using b(2) [THEN conjunct1] cdiv_mult_le [OF p(1, 3)] cdiv_mult_le [OF p(2, 3)] by fastforce
  ultimately show ?thesis using b(2) by blast
qed

theorem decoded_agrees_with_interpreter_witness:
  "\<forall>env (cpu :: arm_run). arm_execute_decoded env (dec_hw 0x1000 0x1888) cpu = Some (exec16 env 0x1888 0x1000 cpu)"
proof -
  have "klass (dec_hw 0x1000 0x1888) \<noteq> ARM_DEC_UNSUPPORTED"
    by (simp add: dec_hw_def arm_is_thumb2_def fld_def dec_addsub_def base_insn_def)
  from decoded_agrees_with_interpreter [OF this] show ?thesis by blast
qed

theorem jit_iters_safe_witness:
  "\<forall>cpu :: arm_run. let c = cpu\<lparr>cpu_cycles := 0, next_event_cycle := 1000, cycle_limit := INT64_MAX\<rparr>
     in arm_jit_iters 4 6 True 100 c = 25 \<and> cpu_cycles c + 25 * 6 < next_event_cycle c"
proof
  fix cpu :: arm_run
  let ?c = "cpu\<lparr>cpu_cycles := 0, next_event_cycle := 1000, cycle_limit := INT64_MAX\<rparr>"
  have f: "cycle_limit ?c = INT64_MAX" "next_event_cycle ?c = 1000" "cpu_cycles ?c = 0" by simp_all
  have d: "cdiv 100 (int 4) = 25" "cdiv (1000 - 0 - 1) (int 6) = 166" by simp_all
  have n: "arm_jit_iters 4 6 True 100 ?c = 25" unfolding arm_jit_iters_def f d Let_def by simp
  have "cpu_cycles ?c + 25 * int 6 < next_event_cycle ?c"
    by (rule jit_iters_safe [OF _ _ _ n [symmetric], THEN conjunct1]) simp_all
  with n show "let c = ?c in arm_jit_iters 4 6 True 100 c = 25 \<and> cpu_cycles c + 25 * 6 < next_event_cycle c"
    unfolding Let_def by simp
qed

end
