(* ===== verification/Arm_Thumb_Correct.thy ===== *)
theory Arm_Thumb_Correct
  imports Arm_Thumb32 Arm_Exception_Correct Arm_Decode_Correct
begin

text \<open>
  Instruction-level correctness beyond the flags: multiple stores and loads through the stack, branch
  offsets, comparisons of floating-point numbers, and encodings that the decode gets wrong.
\<close>

subsection \<open>Stores and loads of register lists in SRAM\<close>

definition trusted :: "'a arm_cpu_scheme \<Rightarrow> bool" where
  "trusted c \<longleftrightarrow> \<not> tz_enabled c \<or> secure c"

lemma mem_write32_sram:
  "trusted c \<Longrightarrow> a AND 3 = 0 \<Longrightarrow> in_sram c a \<Longrightarrow>
   mem_write32 env a v c = c\<lparr>sram := put32 (a - sram_base c) v (sram c)\<rparr>"
  unfolding mem_write32_def word_aligned Let_def by (auto simp: arm_tz_blocks_def trusted_def)

lemma mem_read32_sram:
  "trusted c \<Longrightarrow> a AND 3 = 0 \<Longrightarrow> in_sram c a \<Longrightarrow> mem_read32 env a c = (le32 (sram c) (a - sram_base c), c)"
  unfolding mem_read32_def word_aligned Let_def by (auto simp: arm_tz_blocks_def trusted_def)

definition words_in_sram :: "'a arm_cpu_scheme \<Rightarrow> u32 \<Rightarrow> nat \<Rightarrow> bool" where
  "words_in_sram c a n \<longleftrightarrow> a AND 3 = 0 \<and> (\<forall>k < n. in_sram c (a + of_nat (4 * k)))"

lemma words_in_sram_Suc: "words_in_sram c a (Suc n) \<Longrightarrow> in_sram c a \<and> a AND 3 = 0 \<and> words_in_sram c (a + 4) n"
  unfolding words_in_sram_def
proof (intro conjI allI impI; elim conjE)
  assume s: "\<forall>k < Suc n. in_sram c (a + of_nat (4 * k))" and al: "a AND 3 = 0"
  show "in_sram c a" using s [rule_format, of 0] by simp
  show "a AND 3 = 0" "(a + 4) AND 3 = 0" using al aligned_add by blast+
  fix k assume "k < n"
  thus "in_sram c (a + 4 + of_nat (4 * k))" using s [rule_format, of "Suc k"] by (simp add: algebra_simps)
qed

lemma store_regs_sram:
  assumes "trusted c" "words_in_sram c a (length rs)"
  shows "store_regs env rs a c = c\<lparr>sram := put_words (a - sram_base c) (map (reg c) rs) (sram c)\<rparr>"
  using assms
proof (induction rs arbitrary: a c)
  case (Cons i rs)
  let ?c = "c\<lparr>sram := put32 (a - sram_base c) (reg c i) (sram c)\<rparr>"
  note s = words_in_sram_Suc [OF Cons.prems(2) [unfolded length_Cons]]
  have "trusted ?c" "words_in_sram ?c (a + 4) (length rs)"
    using Cons.prems(1) s by (simp_all add: trusted_def words_in_sram_def in_sram_def)
  from Cons.IH [OF this] show ?case
    using mem_write32_sram [OF Cons.prems(1)] s by (simp add: algebra_simps)
qed simp

fun upd_list :: "nat list \<Rightarrow> u32 list \<Rightarrow> (nat \<Rightarrow> u32) \<Rightarrow> (nat \<Rightarrow> u32)" where
  "upd_list (i # is) (v # vs) f = upd_list is vs (f(i := v))"
| "upd_list is vs f = f"

lemma upd_list_other: "j \<notin> set is \<Longrightarrow> upd_list is vs f j = f j"
  by (induction "is" vs f rule: upd_list.induct) auto

lemma upd_list_nth: "distinct is \<Longrightarrow> length vs = length is \<Longrightarrow> k < length is \<Longrightarrow> upd_list is vs f (is ! k) = vs ! k"
proof (induction "is" vs f arbitrary: k rule: upd_list.induct)
  case (1 i "is" v vs f)
  show ?case
  proof (cases k)
    case 0
    with 1 show ?thesis by (simp add: upd_list_other)
  next
    case (Suc l)
    with 1(1) [of l] 1(2-4) show ?thesis by (simp add: fun_upd_def)
  qed
qed auto

lemma load_regs_sram:
  assumes "trusted c" "words_in_sram c a (length rs)"
  shows "load_regs env rs a c = c\<lparr>reg := upd_list rs (map (\<lambda>k. le32 (sram c) (a - sram_base c + of_nat (4 * k))) [0..<length rs]) (reg c)\<rparr>"
  using assms
proof (induction rs arbitrary: a c)
  case (Cons i rs)
  let ?v = "le32 (sram c) (a - sram_base c)"
  note s = words_in_sram_Suc [OF Cons.prems(2) [unfolded length_Cons]]
  have "trusted (set_reg i ?v c)" "words_in_sram (set_reg i ?v c) (a + 4) (length rs)"
    using Cons.prems(1) s by (simp_all add: trusted_def words_in_sram_def in_sram_def set_reg_def)
  note ih = Cons.IH [OF this]
  have "map (\<lambda>k. le32 (sram c) (a - sram_base c + of_nat (4 * k))) [0..<Suc (length rs)] =
      ?v # map (\<lambda>k. le32 (sram c) (a + 4 - sram_base c + of_nat (4 * k))) [0..<length rs]"
    by (simp only: upt_conv_Cons zero_less_Suc list.map map_Suc_upt [symmetric] map_map o_def) (simp add: algebra_simps)
  thus ?case
    using mem_read32_sram [OF Cons.prems(1), of a env] s ih by (simp add: load_reg_def set_reg_def fun_upd_def del: upt_Suc)
qed simp


lemma reg_list_props: "distinct (reg_list n m)" "i \<in> set (reg_list n m) \<longleftrightarrow> i < n \<and> bit m i" "length (reg_list n m) \<le> n"
  unfolding reg_list_def by (auto intro: order_trans [OF length_filter_le])

lemma snapshot_multi_fields [simp]:
  "reg (arm_insn_snapshot_multi env a n c) = reg c" "sram (arm_insn_snapshot_multi env a n c) = sram c"
  "sram_base (arm_insn_snapshot_multi env a n c) = sram_base c" "sram_end (arm_insn_snapshot_multi env a n c) = sram_end c"
  "tz_enabled (arm_insn_snapshot_multi env a n c) = tz_enabled c" "secure (arm_insn_snapshot_multi env a n c) = secure c"
  "bus_fault_pending (arm_insn_snapshot_multi env a n c) = bus_fault_pending c"
  "secure_fault_pending (arm_insn_snapshot_multi env a n c) = secure_fault_pending c"
  by (auto simp: arm_insn_snapshot_multi_def arm_insn_snapshot_def arm_insn_snapshot_slow_def)

definition push_list :: "u16 \<Rightarrow> nat list" where
  "push_list hw = reg_list 8 hw @ (if bit hw 8 then [ARM_LR] else [])"

lemma pushed_words:
  assumes "k < length (push_list hw)"
  shows "le32 (put_words b (map (reg c) (push_list hw)) m) (b + of_nat (4 * k)) = reg c (push_list hw ! k)"
proof -
  have "length (push_list hw) \<le> 64" using reg_list_props(3) [of 8 hw] by (simp add: push_list_def)
  thus ?thesis using le32_put_words [of k "map (reg c) (push_list hw)" b m] assms by simp
qed


definition stack_cpu :: arm_cpu where
  "stack_cpu = m33\<lparr>tz_enabled := False, reg := (\<lambda>_. 0)(0 := 11, 1 := 22, ARM_SP := 0x20001000, ARM_LR := 0x801)\<rparr>"

text \<open>
  C17. What PUSH stores POP gives back: popping the same list from the stack that a push has left, in any later
  state with the same stack pointer and the same memory, restores every register of the list and the stack
  pointer; a pushed link register becomes the program counter.
\<close>

theorem push_pop_roundtrip:
  assumes "trusted cpu" "words_in_sram cpu (reg cpu ARM_SP - span_of (push_list hw)) (length (push_list hw))"
    and c1: "c1 = t16_push env hw cpu"
    and c2: "sram c2 = sram c1" "sram_base c2 = sram_base cpu" "sram_end c2 = sram_end cpu" "trusted c2"
      "reg c2 ARM_SP = reg c1 ARM_SP" "\<not> arm_insn_refused c2"
    and lr: "reg cpu ARM_LR AND 0xF0000000 \<noteq> 0xF0000000"
    and hw': "\<forall>i < 9. bit hw' i = bit hw i"
  shows "(\<forall>i \<in> set (reg_list 8 hw). reg (t16_pop env hw' c2) i = reg cpu i) \<and>
    reg (t16_pop env hw' c2) ARM_SP = reg cpu ARM_SP \<and>
    (bit hw 8 \<longrightarrow> reg (t16_pop env hw' c2) ARM_PC = reg cpu ARM_LR AND NOT 1)"
proof -
  let ?l = "push_list hw" and ?rs = "reg_list 8 hw"
  define a where "a = reg cpu ARM_SP - span_of ?l"
  define n where "n = length ?rs"
  have c1': "c1 = charge (int (length ?l)) (set_reg ARM_SP a (cpu\<lparr>sram := put_words (a - sram_base cpu) (map (reg cpu) ?l) (sram cpu)\<rparr>))"
    unfolding c1 t16_push_def push_list_def [symmetric] a_def Let_def store_regs_sram [OF assms(1, 2)] ..
  have mem: "sram c2 = put_words (a - sram_base cpu) (map (reg cpu) ?l) (sram cpu)" "reg c2 ARM_SP = a"
    using c2 c1' by (simp_all add: charge_def set_reg_def)
  have rs: "reg_list 8 hw' = ?rs" using hw' unfolding reg_list_def by (intro filter_cong) auto
  have b8: "bit hw' 8 = bit hw 8" using hw' by simp
  have val: "le32 (sram c2) (a - sram_base c2 + of_nat (4 * k)) = reg cpu (?l ! k)" if "k < length ?l" for k
    unfolding mem(1) c2(2) by (rule pushed_words [OF that])
  have sp: "a + span_of ?l = reg cpu ARM_SP" by (simp add: a_def)
  let ?c = "arm_insn_snapshot_multi env a (span_of ?rs + (if bit hw 8 then 4 else 0)) c2"
  have ins: "words_in_sram c2 a (length ?l)"
    using assms(2) c2(2, 3) unfolding a_def [symmetric] by (simp add: words_in_sram_def in_sram_def)
  have tr: "trusted ?c" "words_in_sram ?c a (length ?rs)"
    using c2(4) ins by (auto simp: trusted_def words_in_sram_def in_sram_def push_list_def)
  define d where "d = load_regs env ?rs a ?c"
  have d: "d = ?c\<lparr>reg := upd_list ?rs (map (reg cpu) ?rs) (reg c2)\<rparr>"
  proof -
    have "map (\<lambda>k. le32 (sram c2) (a - sram_base c2 + of_nat (4 * k))) [0..<length ?rs] = map (reg cpu) ?rs"
    proof (rule nth_equalityI)
      fix k assume "k < length (map (\<lambda>k. le32 (sram c2) (a - sram_base c2 + of_nat (4 * k))) [0..<length ?rs])"
      thus "map (\<lambda>k. le32 (sram c2) (a - sram_base c2 + of_nat (4 * k))) [0..<length ?rs] ! k = map (reg cpu) ?rs ! k"
        using val [of k] by (simp add: push_list_def nth_append)
    qed simp
    thus ?thesis unfolding d_def load_regs_sram [OF tr] by simp
  qed
  have regs: "reg d i = reg cpu i" if "i \<in> set ?rs" for i
  proof -
    from that obtain k where "k < length ?rs" "i = ?rs ! k" by (auto simp: in_set_conv_nth)
    thus ?thesis using upd_list_nth [OF reg_list_props(1) [of 8 hw], of "map (reg cpu) ?rs" k] by (simp add: d)
  qed
  have low: "i \<noteq> ARM_SP \<and> i \<noteq> ARM_PC" if "i \<in> set ?rs" for i using that reg_list_props(2) [of i 8 hw] by auto
  have pop: "t16_pop env hw' c2 = charge 1
      (if bit hw 8 then let (target, c) = mem_read32 env (a + span_of ?rs) d
         in arm_load_pc env target (set_reg ARM_SP (a + span_of ?rs + 4) c)
       else set_reg ARM_SP (a + span_of ?rs) d)"
    unfolding t16_pop_def rs b8 mem(2) Let_def d_def ..
  show ?thesis
  proof (cases "bit hw 8")
    case False
    hence "a + span_of ?rs = reg cpu ARM_SP" using sp by (simp add: push_list_def)
    thus ?thesis using False regs low by (simp add: pop charge_def set_reg_def)
  next
    case True
    hence l: "?l = ?rs @ [ARM_LR]" by (simp add: push_list_def)
    have at_pc: "a + span_of ?rs = a + of_nat (4 * length ?rs)" by (simp add: span_of_def)
    have "trusted d" using tr(1) by (simp add: d trusted_def)
    moreover have "in_sram d (a + span_of ?rs)" using ins unfolding words_in_sram_def at_pc by (simp add: d l in_sram_def)
    moreover have "(a + span_of ?rs) AND 3 = 0" unfolding at_pc using ins by (intro aligned_mult) (simp add: words_in_sram_def)
    ultimately have "mem_read32 env (a + span_of ?rs) d = (le32 (sram d) (a + span_of ?rs - sram_base d), d)"
      by (intro mem_read32_sram)
    moreover have "le32 (sram d) (a + span_of ?rs - sram_base d) = reg cpu ARM_LR"
      using val [of "length ?rs"] by (simp add: d l at_pc algebra_simps)
    moreover have "a + span_of ?rs + 4 = reg cpu ARM_SP" using sp by (simp add: l span_of_def algebra_simps)
    moreover have "\<not> arm_insn_refused (set_reg ARM_SP x d)" for x using c2(6) by (simp add: d arm_insn_refused_def set_reg_def)
    ultimately have "t16_pop env hw' c2 = charge 1 (set_reg ARM_PC (reg cpu ARM_LR AND NOT 1) (set_reg ARM_SP (reg cpu ARM_SP) d))"
      using True lr by (simp add: pop arm_load_pc_def)
    thus ?thesis using regs low by (simp add: charge_def set_reg_def)
  qed
qed


theorem push_pop_roundtrip_witness:
  "\<forall>env. let cpu = stack_cpu; c = t16_pop env 0xBD03 (t16_push env 0xB503 cpu)
     in reg c 0 = 11 \<and> reg c 1 = 22 \<and> reg c ARM_SP = 0x20001000 \<and> reg c ARM_PC = 0x800"
proof
  fix env :: "arm_cpu arm_env"
  have l: "push_list 0xB503 = [0, 1, ARM_LR]" "reg_list 8 0xB503 = [0, 1]"
    by (simp_all add: push_list_def reg_list_def upt_rec)
  have w: "words_in_sram stack_cpu (reg stack_cpu ARM_SP - span_of (push_list 0xB503)) (length (push_list 0xB503))"
    by (auto simp: l words_in_sram_def span_of_def in_sram_def stack_cpu_def m33_def less_Suc_eq numeral_3_eq_3)
  have t: "trusted stack_cpu" by (simp add: trusted_def stack_cpu_def m33_def)
  let ?c = "t16_push env 0xB503 stack_cpu"
  have c: "?c = charge 3 (set_reg ARM_SP 0x20000FF4 (stack_cpu\<lparr>sram := put_words (0x20000FF4 - sram_base stack_cpu) (map (reg stack_cpu) [0, 1, ARM_LR]) (sram stack_cpu)\<rparr>))"
    using store_regs_sram [OF t w] by (simp add: t16_push_def push_list_def [symmetric] l span_of_def stack_cpu_def)
  have "\<forall>i < 9. bit (0xBD03 :: u16) i = bit (0xB503 :: u16) i"
    by (auto simp: less_Suc_eq eval_nat_numeral bit_numeral_rec)
  note bits = this
  have h: "sram_base ?c = sram_base stack_cpu" "sram_end ?c = sram_end stack_cpu" "trusted ?c" "\<not> arm_insn_refused ?c"
    "reg stack_cpu ARM_LR AND 0xF0000000 \<noteq> 0xF0000000"
    using t by (simp_all add: c charge_def set_reg_def trusted_def arm_insn_refused_def) (simp_all add: stack_cpu_def m33_def)
  have r: "reg stack_cpu 0 = 11" "reg stack_cpu 1 = 22" "reg stack_cpu ARM_SP = 0x20001000" "reg stack_cpu ARM_LR = 0x801"
    by (simp_all add: stack_cpu_def)
  show "let cpu = stack_cpu; c = t16_pop env 0xBD03 (t16_push env 0xB503 cpu)
     in reg c 0 = 11 \<and> reg c 1 = 22 \<and> reg c ARM_SP = 0x20001000 \<and> reg c ARM_PC = 0x800"
    using push_pop_roundtrip [OF t w refl refl h(1-3) refl h(4, 5) bits] unfolding l r by (simp add: r r(2) [unfolded One_nat_def])
qed

subsection \<open>Branch offsets\<close>

text \<open>The encoding of a branch-with-link to the 25-bit offset \<open>off\<close>, as an assembler writes it.\<close>

definition bl_hw1 :: "u32 \<Rightarrow> u16" where
  "bl_hw1 off = 0xF000 OR (if bit off 24 then 0x400 else 0) OR ucast (take_bit 10 (drop_bit 12 off))"

definition bl_hw2 :: "u32 \<Rightarrow> u16" where
  "bl_hw2 off = 0xD000 OR (if bit off 23 = bit off 24 then 0x2000 else 0) OR (if bit off 22 = bit off 24 then 0x800 else 0)
     OR ucast (take_bit 11 (drop_bit 1 off))"

lemma bl_hw1_bits:
  "i < 16 \<Longrightarrow> bit (bl_hw1 off) i \<longleftrightarrow> (if i < 10 then bit off (i + 12) else i = 10 \<and> bit off 24 \<or> 12 \<le> i)"
proof -
  assume "i < 16"
  moreover have "bit (0xF000 :: u16) i \<longleftrightarrow> 12 \<le> i \<and> i < 16" "bit (0x400 :: u16) i \<longleftrightarrow> i = 10" if "i < 16"
  proof -
    have "i \<in> {0..<16}" using that by simp
    thus "bit (0xF000 :: u16) i \<longleftrightarrow> 12 \<le> i \<and> i < 16" "bit (0x400 :: u16) i \<longleftrightarrow> i = 10"
      by (auto simp: atLeastLessThan_nat_numeral)
  qed
  ultimately show ?thesis
    unfolding bl_hw1_def bit_or_iff bit_ucast_iff bit_take_bit_iff bit_drop_bit_eq by (auto simp: add.commute)
qed


lemma bl_hw2_bits:
  "i < 16 \<Longrightarrow> bit (bl_hw2 off) i \<longleftrightarrow>
     (if i < 11 then bit off (i + 1) else if i = 11 then bit off 22 = bit off 24 else if i = 13 then bit off 23 = bit off 24 else True)"
proof -
  assume "i < 16"
  moreover have "bit (0xD000 :: u16) i \<longleftrightarrow> i = 12 \<or> i = 14 \<or> i = 15" "bit (0x2000 :: u16) i \<longleftrightarrow> i = 13"
    "bit (0x800 :: u16) i \<longleftrightarrow> i = 11" if "i < 16"
  proof -
    have "i \<in> {0..<16}" using that by simp
    thus "bit (0xD000 :: u16) i \<longleftrightarrow> i = 12 \<or> i = 14 \<or> i = 15" "bit (0x2000 :: u16) i \<longleftrightarrow> i = 13" "bit (0x800 :: u16) i \<longleftrightarrow> i = 11"
      by (auto simp: atLeastLessThan_nat_numeral)
  qed
  ultimately show ?thesis
    unfolding bl_hw2_def bit_or_iff bit_ucast_iff bit_take_bit_iff bit_drop_bit_eq
    by (auto simp: add.commute)
qed

lemma bit_imm_fld: "bit (imm_fld hw lo w) i \<longleftrightarrow> i < w \<and> i < 16 \<and> bit hw (lo + i)"
  unfolding imm_fld_def bit_ucast_iff bit_take_bit_iff bit_drop_bit_eq by (auto dest: bit_imp_le_length)

lemma bit_one32: "bit (push_bit k 1 :: u32) i \<longleftrightarrow> i = k \<and> i < 32"
  by (auto simp: bit_simps)

lemma bit_fe: "i < 32 \<Longrightarrow> bit (0xFE000000 :: u32) i \<longleftrightarrow> 25 \<le> i"
proof -
  assume "i < 32"
  hence "i \<in> {0..<32}" by simp
  thus ?thesis by (auto simp: atLeastLessThan_nat_numeral)
qed

lemma bl_offset_roundtrip:
  assumes "\<not> bit off 0" "\<forall>i. 25 \<le> i \<and> i < 32 \<longrightarrow> bit off i = bit off 24"
  shows "bl_offset (bl_hw1 off) (bl_hw2 off) = off"
proof (rule bit_word_eqI)
  fix i assume "i < LENGTH(32)"
  hence i: "i < 32" by simp
  have s: "bit (bl_hw1 off) 10 = bit off 24" by (simp add: bl_hw1_bits)
  have j: "(bit (bl_hw2 off) 13 = bit off 24) = bit off 23" "(bit (bl_hw2 off) 11 = bit off 24) = bit off 22"
    by (auto simp: bl_hw2_bits)
  have hi: "bit (push_bit 12 (imm_fld (bl_hw1 off) 0 10)) i \<longleftrightarrow> 12 \<le> i \<and> i < 22 \<and> bit off i"
    using i by (auto simp: bit_push_bit_iff bit_imm_fld bl_hw1_bits)
  have lo: "bit (push_bit 1 (imm_fld (bl_hw2 off) 0 11)) i \<longleftrightarrow> 1 \<le> i \<and> i < 12 \<and> bit off i"
    using i unfolding bit_push_bit_iff bit_imm_fld by (auto simp: bl_hw2_bits)
  have zero: "bit (0 :: u32) i = False" by simp
  have split: "i = 0 \<or> 1 \<le> i \<and> i < 12 \<or> 12 \<le> i \<and> i < 22 \<or> i = 22 \<or> i = 23 \<or> i = 24 \<or> 25 \<le> i" using i by linarith
  have "bit (bl_offset (bl_hw1 off) (bl_hw2 off)) i \<longleftrightarrow>
      i = 24 \<and> bit off 24 \<or> i = 23 \<and> bit off 23 \<or> i = 22 \<and> bit off 22 \<or> 12 \<le> i \<and> i < 22 \<and> bit off i
      \<or> 1 \<le> i \<and> i < 12 \<and> bit off i \<or> bit off 24 \<and> 25 \<le> i"
    unfolding bl_offset_def Let_def s j using i
    by (cases "bit off 24"; cases "bit off 23"; cases "bit off 22";
        simp only: if_True if_False bit_or_iff bit_one32 hi lo bit_fe [OF i] zero; blast)
  thus "bit (bl_offset (bl_hw1 off) (bl_hw2 off)) i = bit off i"
    using split assms i by (elim disjE) auto
qed


lemma bl_dispatch:
  "exec32 fp env (bl_hw1 off) (bl_hw2 off) ip cpu = t32_branch_misc env (bl_hw1 off) (bl_hw2 off) ip cpu"
proof -
  have b: "bit (bl_hw1 off) 11 = False" "bit (bl_hw1 off) 12" "bit (bl_hw2 off) 15" by (simp_all add: bl_hw1_bits bl_hw2_bits)
  have "take_bit 2 (drop_bit 11 (bl_hw1 off)) = 2"
  proof (rule bit_word_eqI)
    fix i assume "i < LENGTH(16)"
    have two: "bit (2 :: u16) i \<longleftrightarrow> i = 1"
      using bit_push_bit_iff [of 1 "1 :: u16" i] \<open>i < LENGTH(16)\<close> by (auto simp: bit_1_iff)
    have t: "bit (take_bit 2 (drop_bit 11 (bl_hw1 off))) i \<longleftrightarrow> i < 2 \<and> bit (bl_hw1 off) (11 + i)"
      by (simp add: bit_take_bit_iff bit_drop_bit_eq)
    consider "i = 0" | "i = 1" | "2 \<le> i" by linarith
    thus "bit (take_bit 2 (drop_bit 11 (bl_hw1 off))) i = bit (2 :: u16) i"
      unfolding two t by cases (simp_all add: b)
  qed
  hence op1: "fld (bl_hw1 off) 11 2 = 2" by (simp add: fld_def)
  have "bl_hw1 off \<noteq> 0xE97F"
  proof
    assume e: "bl_hw1 off = 0xE97F"
    have "\<not> bit (0xE97F :: u16) 12" by simp
    with b(2) e show False by simp
  qed
  moreover have "bl_hw1 off AND 0xFFF0 \<noteq> 0xE840"
  proof
    assume e: "bl_hw1 off AND 0xFFF0 = 0xE840"
    have "bit (bl_hw1 off AND 0xFFF0) 12" using b(2) by (simp add: bit_and_iff)
    moreover have "\<not> bit (0xE840 :: u16) 12" by simp
    ultimately show False using e by simp
  qed
  ultimately show ?thesis unfolding exec32_def Let_def op1 using b(3) by simp
qed

text \<open>
  Branch with link reaches every even offset of 25 bits: the two halfwords an assembler writes for it set the
  program counter to the address of the instruction plus 4 plus the offset, and the link register to
  the address after the instruction with the Thumb bit set.
\<close>

theorem branch_link_roundtrip:
  assumes "\<not> bit off 0" "\<forall>i. 25 \<le> i \<and> i < 32 \<longrightarrow> bit off i = bit off 24"
  shows "exec32 fp env (bl_hw1 off) (bl_hw2 off) ip cpu = set_reg ARM_PC (ip + 4 + off) (set_reg ARM_LR ((ip + 4) OR 1) cpu)"
proof -
  have "bit (bl_hw2 off) 14" "bit (bl_hw2 off) 12" by (simp_all add: bl_hw2_bits)
  thus ?thesis unfolding bl_dispatch t32_branch_misc_def Let_def bl_offset_roundtrip [OF assms] by simp
qed


theorem branch_link_roundtrip_witness:
  "\<forall>fp env (cpu :: arm_run). exec32 fp env (bl_hw1 0x100) (bl_hw2 0x100) 0x1000 cpu = set_reg ARM_PC 0x1104 (set_reg ARM_LR 0x1005 cpu)"
proof (intro allI)
  fix fp env and cpu :: arm_run
  have "(0x100 :: u32) = push_bit 8 1" by simp
  hence "\<not> bit (0x100 :: u32) i" if "24 \<le> i" for i using that bit_one32 [of 8 i] by simp
  thus "exec32 fp env (bl_hw1 0x100) (bl_hw2 0x100) 0x1000 cpu = set_reg ARM_PC 0x1104 (set_reg ARM_LR 0x1005 cpu)"
    using branch_link_roundtrip [of "0x100" fp env "0x1000" cpu] by simp
qed

subsection \<open>Floating-point comparison\<close>

text \<open>Reading FPSCR into the flags after a comparison.\<close>

definition vcmp_vmrs :: "u32 \<Rightarrow> u32 \<Rightarrow> 'a arm_cpu_scheme \<Rightarrow> 'a arm_cpu_scheme" where
  "vcmp_vmrs a b cpu = cpu\<lparr>xpsr := (xpsr cpu AND 0x0FFFFFFF) OR (vcmp_flags a b AND 0xF0000000)\<rparr>"

definition unordered :: "u32 \<Rightarrow> u32 \<Rightarrow> bool" where
  "unordered a b \<longleftrightarrow> f_isnan a \<or> f_isnan b"

lemma vcmp_bits:
  "bit (xpsr (vcmp_vmrs a b cpu)) 31 = bit (vcmp_flags a b) 31" "bit (xpsr (vcmp_vmrs a b cpu)) 30 = bit (vcmp_flags a b) 30"
  "bit (xpsr (vcmp_vmrs a b cpu)) 29 = bit (vcmp_flags a b) 29" "bit (xpsr (vcmp_vmrs a b cpu)) 28 = bit (vcmp_flags a b) 28"
  by (simp_all add: vcmp_vmrs_def bit_or_iff bit_and_iff)

text \<open>
  VCMP and VMRS followed by a condition decide the order of two binary32 numbers: EQ equality, MI less, GT
  greater, GE greater or equal, LS less or equal, and VS that one of them is not a number, in which case all the
  others are false. The keys compared are the sign-magnitude values, so the two zeros are equal.
\<close>

theorem vcmp_decides_order:
  "(condition_passed (vcmp_vmrs a b cpu) 6 \<longleftrightarrow> unordered a b) \<and>
   (condition_passed (vcmp_vmrs a b cpu) 0 \<longleftrightarrow> \<not> unordered a b \<and> f_key a = f_key b) \<and>
   (condition_passed (vcmp_vmrs a b cpu) 4 \<longleftrightarrow> \<not> unordered a b \<and> f_key a < f_key b) \<and>
   (condition_passed (vcmp_vmrs a b cpu) 12 \<longleftrightarrow> \<not> unordered a b \<and> f_key b < f_key a) \<and>
   (condition_passed (vcmp_vmrs a b cpu) 10 \<longleftrightarrow> \<not> unordered a b \<and> f_key b \<le> f_key a) \<and>
   (condition_passed (vcmp_vmrs a b cpu) 9 \<longleftrightarrow> \<not> unordered a b \<and> f_key a \<le> f_key b)"
  unfolding condition_passed_def Let_def vcmp_bits vcmp_flags_def f_eq_def f_lt_def unordered_def
  by auto


subsection \<open>Encodings taken for others\<close>

text \<open>
  The parallel subtraction SSUB8 is executed as a multiply-accumulate: \<open>SSUB8 r0, r1, r2\<close> adds the product of
  r1 and r2 to the program counter and leaves the byte differences uncomputed, since the group of SMLAL does not test
  the bit that separates the two.
\<close>

theorem ssub8_runs_as_smlal:
  "exec32 fp env 0xFAC1 0xF002 ip cpu =
     put_pair 0 ARM_PC (pair64 (reg cpu 0) (reg cpu ARM_PC) + word_of_int (sint (reg cpu 1) * sint (reg cpu 2))) cpu"
proof -
  have f: "fld 0xFAC1 11 2 = 3" "take_bit 7 (drop_bit 4 (0xFAC1 :: u16)) = 0x2C" "fld 0xFAC1 4 4 = 12" "fld 0xFAC1 0 4 = 1"
    "fld 0xF002 8 4 = 0" "fld 0xF002 12 4 = 15" "fld 0xF002 4 4 = 0" "fld 0xF002 0 4 = 2"
    by (simp_all add: fld_def)
  show ?thesis unfolding exec32_def Let_def f t32_dp_register_def by simp
qed

text \<open>
  An immediate move of the floating-point unit is executed as a comparison: \<open>VMOV.F32 s0, #0.125\<close> leaves s0 as it is
  and overwrites the flags of FPSCR, since the group does not test the bit that separates the two.
\<close>

theorem vmov_immediate_runs_as_vcmp:
  "exec32 fp env 0xEEB4 0x0A00 ip cpu =
     cpu\<lparr>fpscr := (fpscr cpu AND 0x0FFFFFFF) OR (if f_isnan (vfp_s cpu 0) then 0x30000000 else 0x60000000)\<rparr>"
proof -
  have f: "fld 0xEEB4 11 2 = 1" "take_bit 7 (drop_bit 4 (0xEEB4 :: u16)) = 0x6B" "fld 0xEEB4 0 4 = 4" "fld 0xEEB4 4 2 = 3"
    "fld 0x0A00 8 4 = 10" "fld 0x0A00 6 2 = 0" "sreg_d 0xEEB4 0x0A00 = 0" "sreg_m 0x0A00 = 0"
    by (simp_all add: fld_def sreg_d_def sreg_m_def)
  show ?thesis
    unfolding exec32_def Let_def f arm_vfp_step_def vfp_arith_def vfp_misc_def by (simp add: vcmp_flags_def f_eq_def)
qed

end
