(* ===== verification/Arm_Step.thy ===== *)
theory Arm_Step
  imports Arm_Thumb32
begin

text \<open>
  The execution loop of the ARM core (\<open>src/arm/arm_cpu.c\<close>): fetch, the firmware and ROM traps, IT
  blocks, the end of an instruction with its faults, sleep, \<open>arm_step\<close>, \<open>arm_step_until\<close>,
  \<open>arm_step_micros\<close>, reset and initialisation.

  \<open>arm_host\<close> gathers what the core calls out to: the bus environment, the host's floating point, the
  event callbacks, the reset hook and the trace callback. The debugger hook is taken as off and the
  diagnostics (traces, watchpoints, the stack auditor) are left out; so is the compiled path, which this build
  of \<open>arm_step\<close> does not have. A loop that never ends is \<open>None\<close>.
\<close>

record 's arm_host =
  h_env :: "'s arm_env"
  h_fpu :: fpu
  h_event :: "nat \<Rightarrow> 's \<Rightarrow> 's"
  reset_hook :: "'s \<Rightarrow> 's"
  pc_callback :: "u32 \<Rightarrow> 's \<Rightarrow> 's"

abbreviation ARM_CFSR_PRECISERR :: u32 where "ARM_CFSR_PRECISERR \<equiv> 0x200"
abbreviation ARM_CFSR_BFARVALID :: u32 where "ARM_CFSR_BFARVALID \<equiv> 0x8000"
abbreviation ARM_HFSR_FORCED :: u32 where "ARM_HFSR_FORCED \<equiv> 0x40000000"

subsection \<open>Fetch\<close>

definition fetch16 ::
  "'a arm_cpu_scheme arm_env \<Rightarrow> u32 \<Rightarrow> 'a arm_cpu_scheme \<Rightarrow> u16 \<times> 'a arm_cpu_scheme" where
  "fetch16 env a cpu =
     (if flash_base cpu \<le> a \<and> a < flash_end cpu then (le16 (flash cpu) (a - flash_base cpu), cpu)
      else case rom cpu of
             Some r \<Rightarrow> if a < rom_size cpu then (le16 r a, cpu)
                       else if sram_base cpu \<le> a \<and> a < sram_end cpu then (le16 (sram cpu) (a - sram_base cpu), cpu)
                       else arm_read16 env a cpu
           | None \<Rightarrow> if sram_base cpu \<le> a \<and> a < sram_end cpu then (le16 (sram cpu) (a - sram_base cpu), cpu)
                      else arm_read16 env a cpu)"

text \<open>
  The security check of a fetch while Non-secure outside the cached window. The result says
  whether the fetch is allowed.
\<close>

definition fetch_is_sg ::
  "'a arm_cpu_scheme arm_env \<Rightarrow> u32 \<Rightarrow> 'a arm_cpu_scheme \<Rightarrow> bool \<times> 'a arm_cpu_scheme" where
  "fetch_is_sg env ip cpu =
     (let (a, cpu) = fetch16 env ip cpu in
      if a \<noteq> 0xE97F then (False, cpu)
      else let (b, cpu) = fetch16 env (ip + 2) cpu in (b = 0xE97F, cpu))"

definition fetch_check ::
  "'a arm_cpu_scheme arm_env \<Rightarrow> u32 \<Rightarrow> 'a arm_cpu_scheme \<Rightarrow> bool \<times> 'a arm_cpu_scheme" where
  "fetch_check env ip cpu =
     (if tz_enabled cpu \<and> \<not> secure cpu \<and> ip - fetch_ok_base cpu \<ge> fetch_ok_len cpu then
        (case arm_security_attr env cpu ip of
           ARM_SEC_NONSECURE \<Rightarrow>
             (let (b, len) = arm_sau_uniform_window cpu ip in (True, cpu\<lparr>fetch_ok_base := b, fetch_ok_len := len\<rparr>))
         | ARM_SEC_NSC \<Rightarrow> fetch_is_sg env ip cpu
         | _ \<Rightarrow> (False, cpu))
      else (True, cpu))"

subsection \<open>Traps\<close>

definition return_to_lr :: "int \<Rightarrow> 'a arm_cpu_scheme \<Rightarrow> 'a arm_cpu_scheme" where
  "return_to_lr cost cpu = charge cost (set_reg ARM_PC (reg cpu ARM_LR AND NOT 1) cpu)"

definition udivmod64 :: "'a arm_cpu_scheme \<Rightarrow> u64 \<times> u64" where
  "udivmod64 cpu =
     (let num = pair64 (reg cpu 1) (reg cpu 0); den = pair64 (reg cpu 3) (reg cpu 2)
      in if den \<noteq> 0 then (num div den, num mod den) else (0, 0))"

definition trap_udivmoddi4 ::
  "'a arm_cpu_scheme arm_env \<Rightarrow> 'a arm_cpu_scheme \<Rightarrow> 'a arm_cpu_scheme" where
  "trap_udivmoddi4 env cpu =
     (let (quot, rm) = udivmod64 cpu;
          cpu = put_pair 1 0 quot cpu;
          (rem_p, cpu) = arm_read32 env (reg cpu ARM_SP) cpu;
          cpu = (if rem_p \<noteq> 0 then arm_write32 env (rem_p + 4) (hi32 rm) (arm_write32 env rem_p (ucast rm) cpu) else cpu)
      in return_to_lr 20 cpu)"

definition trap_uldivmod :: "'a arm_cpu_scheme \<Rightarrow> 'a arm_cpu_scheme" where
  "trap_uldivmod cpu =
     (let (quot, rm) = udivmod64 cpu in return_to_lr 20 (put_pair 3 2 rm (put_pair 1 0 quot cpu)))"

definition handle_fw_trap ::
  "'a arm_run_scheme arm_env \<Rightarrow> 'a arm_run_scheme \<Rightarrow> 'a arm_run_scheme option" where
  "handle_fw_trap env cpu =
     (let ip = reg cpu ARM_PC in
      if fw_udivmoddi4 cpu \<noteq> 0 \<and> ip = fw_udivmoddi4 cpu then Some (trap_udivmoddi4 env cpu)
      else if fw_aeabi_uldivmod cpu \<noteq> 0 \<and> ip = fw_aeabi_uldivmod cpu then Some (trap_uldivmod cpu)
      else None)"

fun copy_bytes ::
  "'a arm_cpu_scheme arm_env \<Rightarrow> nat \<Rightarrow> u32 \<Rightarrow> u32 \<Rightarrow> 'a arm_cpu_scheme \<Rightarrow> 'a arm_cpu_scheme" where
  "copy_bytes env 0 dst src cpu = cpu"
| "copy_bytes env (Suc n) dst src cpu =
     (let (v, cpu) = arm_read8 env src cpu in copy_bytes env n (dst + 1) (src + 1) (arm_write8 env dst v cpu))"

fun fill_bytes ::
  "'a arm_cpu_scheme arm_env \<Rightarrow> nat \<Rightarrow> u32 \<Rightarrow> u8 \<Rightarrow> 'a arm_cpu_scheme \<Rightarrow> 'a arm_cpu_scheme" where
  "fill_bytes env 0 dst v cpu = cpu"
| "fill_bytes env (Suc n) dst v cpu = fill_bytes env n (dst + 1) v (arm_write8 env dst v cpu)"

fun compare_bytes ::
  "'a arm_cpu_scheme arm_env \<Rightarrow> nat \<Rightarrow> u32 \<Rightarrow> u32 \<Rightarrow> 'a arm_cpu_scheme \<Rightarrow> int \<times> 'a arm_cpu_scheme" where
  "compare_bytes env 0 s1 s2 cpu = (0, cpu)"
| "compare_bytes env (Suc n) s1 s2 cpu =
     (let (a, cpu) = arm_read8 env s1 cpu; (b, cpu) = arm_read8 env s2 cpu
      in if a \<noteq> b then (uint a - uint b, cpu) else compare_bytes env n (s1 + 1) (s2 + 1) cpu)"

definition handle_rom_trap ::
  "'a arm_run_scheme arm_env \<Rightarrow> 'a arm_run_scheme \<Rightarrow> 'a arm_run_scheme option" where
  "handle_rom_trap env cpu =
     (let ip = reg cpu ARM_PC; r0 = reg cpu 0; r1 = reg cpu 1; len = reg cpu 2; cost = uint (len + 3) in
      if ip = rom_util_memcpy cpu \<or> ip = rom_util_memcpy cpu + 1
        then Some (return_to_lr cost (copy_bytes env (unat len) r0 r1 cpu))
      else if ip = rom_util_memset cpu \<or> ip = rom_util_memset cpu + 1
        then Some (return_to_lr cost (fill_bytes env (unat len) r0 (ucast r1) cpu))
      else if ip = rom_util_memcmp cpu \<or> ip = rom_util_memcmp cpu + 1
        then (let (r, cpu) = compare_bytes env (unat len) r0 r1 cpu
              in Some (return_to_lr cost (set_reg 0 (word_of_int r) cpu)))
      else None)"

subsection \<open>IT blocks\<close>

definition it_advance :: "u8 \<Rightarrow> u8" where
  "it_advance it = (it AND 0xE0) OR (push_bit 1 it AND 0x1F)"

definition in_it :: "'a arm_cpu_scheme \<Rightarrow> bool" where
  "in_it cpu \<longleftrightarrow> it_state cpu AND 0xF \<noteq> 0"

definition it_passes :: "'a arm_cpu_scheme \<Rightarrow> bool" where
  "it_passes cpu \<longleftrightarrow> condition_passed cpu (unat (drop_bit 4 (it_state cpu)))"

text \<open>A 16-bit instruction in an IT block keeps the flags, unless it is CMP, CMN or TST.\<close>

definition sets_flags_in_it :: "u16 \<Rightarrow> bool" where
  "sets_flags_in_it hw \<longleftrightarrow>
     (if drop_bit 13 hw = 1 \<and> fld hw 11 2 = 1 then True
      else if drop_bit 10 hw = 0x10 then fld hw 6 4 \<in> {0x8, 0xA, 0xB}
      else drop_bit 10 hw = 0x11 \<and> fld hw 8 2 = 1)"

definition restore_flags :: "u32 \<Rightarrow> 'a arm_cpu_scheme \<Rightarrow> 'a arm_cpu_scheme" where
  "restore_flags saved cpu =
     cpu\<lparr>xpsr := (xpsr cpu AND NOT 0xF0000000) OR (saved AND 0xF0000000)\<rparr>"


subsection \<open>One instruction\<close>

definition arm_execute ::
  "'a arm_run_scheme arm_host \<Rightarrow> u16 \<Rightarrow> u32 \<Rightarrow> 'a arm_run_scheme \<Rightarrow> 'a arm_run_scheme" where
  "arm_execute h hw1 ip cpu =
     (let env = h_env h in
      if fld hw1 11 5 \<ge> 0x1D
      then let (hw2, cpu) = fetch16 env (ip + 2) cpu
           in exec32 (h_fpu h) env hw1 hw2 ip (charge 1 (set_reg ARM_PC (ip + 4) cpu))
      else exec16 env hw1 ip (charge 1 (set_reg ARM_PC (ip + 2) cpu)))"

text \<open>The end of an instruction up to its count: the flags of an IT block and the step of its state.\<close>

definition finish_it :: "u16 \<Rightarrow> bool \<Rightarrow> u32 \<Rightarrow> 'a arm_run_scheme \<Rightarrow> 'a arm_run_scheme" where
  "finish_it hw1 it saved cpu =
     (let cpu = (if it \<and> fld hw1 11 5 < 0x1D \<and> \<not> sets_flags_in_it hw1 then restore_flags saved cpu else cpu);
          cpu = (if it then cpu\<lparr>it_state := it_advance (it_state cpu)\<rparr> else cpu)
      in cpu\<lparr>instructions := instructions cpu + 1\<rparr>)"

definition bus_fault_escalates :: "'a arm_cpu_scheme \<Rightarrow> bool" where
  "bus_fault_escalates cpu \<longleftrightarrow>
     \<not> bit (shcsr (nvic cpu)) 17 \<or> arm_nvic_get_priority (nvic cpu) EXC_BUSFAULT \<ge> arm_nvic_execution_priority cpu"

definition take_secure_fault ::
  "'a arm_cpu_scheme arm_env \<Rightarrow> 'a arm_cpu_scheme \<Rightarrow> 'a arm_cpu_scheme" where
  "take_secure_fault env cpu =
     (let cpu = cpu\<lparr>secure_fault_pending := False, bus_fault_pending := False\<rparr>;
          cpu = (if secure_fault_undo cpu then arm_insn_undo (cpu\<lparr>secure_fault_undo := False\<rparr>) else cpu)
      in arm_exception_entry env EXC_SECUREFAULT cpu)"

definition take_bus_fault ::
  "'a arm_cpu_scheme arm_env \<Rightarrow> 'a arm_cpu_scheme \<Rightarrow> 'a arm_cpu_scheme" where
  "take_bus_fault env cpu =
     (let cpu = arm_insn_undo (cpu\<lparr>bus_fault_pending := False\<rparr>);
          cpu = cpu\<lparr>cfsr := cfsr cpu OR (ARM_CFSR_PRECISERR OR ARM_CFSR_BFARVALID), bfar := bus_fault_addr cpu\<rparr>;
          exc = (if bus_fault_escalates cpu then EXC_HARDFAULT else EXC_BUSFAULT);
          cpu = (if bus_fault_escalates cpu then cpu\<lparr>hfsr := hfsr cpu OR ARM_HFSR_FORCED\<rparr> else cpu)
      in set_nvic (\<lambda>n. n\<lparr>active_exception := exc\<rparr>) (arm_exception_entry env exc cpu))"

definition take_faults ::
  "'a arm_cpu_scheme arm_env \<Rightarrow> 'a arm_cpu_scheme \<Rightarrow> 'a arm_cpu_scheme" where
  "take_faults env cpu =
     (if tz_enabled cpu \<and> secure_fault_pending cpu then take_secure_fault env cpu
      else if bus_fault_pending cpu then take_bus_fault env cpu
      else cpu)"

subsection \<open>Reset\<close>

definition reset_vtor ::
  "'a arm_run_scheme arm_env \<Rightarrow> 'a arm_run_scheme \<Rightarrow> 'a arm_run_scheme" where
  "reset_vtor env cpu =
     (if vtor_default cpu \<noteq> 0 then cpu\<lparr>vtor := vtor_default cpu\<rparr>
      else
        let (v, cpu) = arm_read32 env (flash_end cpu - 0x2C + 8) cpu
        in cpu\<lparr>vtor := (if v < flash_base cpu \<or> v \<ge> flash_end cpu then flash_base cpu else v)\<rparr>)"

definition reset_core :: "'a arm_run_scheme \<Rightarrow> 'a arm_run_scheme" where
  "reset_core cpu =
     cpu\<lparr>reg := (\<lambda>i. if i < 16 then 0 else reg cpu i), xpsr := 0, it_state := 0, primask := 0, faultmask := 0,
         basepri := 0, use_psp := False, cpu_off := False, stopping := False, ev_queue := [],
         next_event_cycle := INT64_MAX, last_execute_us := -1, last_micros_cycles := 0, last_micros_delta := 0,
         micro_clock_ready := False\<rparr>"

definition reset_security :: "u32 \<Rightarrow> 'a arm_run_scheme \<Rightarrow> 'a arm_run_scheme" where
  "reset_security sp cpu =
     cpu\<lparr>secure := tz_enabled cpu, msp_s := (if tz_enabled cpu then sp else 0), msp_ns := 0, psp_s := 0, psp_ns := 0,
         msplim_s := 0, msplim_ns := 0, psplim_s := 0, psplim_ns := 0, control_s := 0, control_ns := 0,
         vtor_s := (if tz_enabled cpu then vtor cpu else 0), sau_ctrl := 0, sau_rnr := 0,
         sau_sregions := (if tz_enabled cpu then 8 else 0),
         sau_rbar := (\<lambda>i. if i < 8 then 0 else sau_rbar cpu i), sau_rlar := (\<lambda>i. if i < 8 then 0 else sau_rlar cpu i),
         sfsr := 0, sfar := 0, secure_fault_pending := False, secure_fault_undo := False, cfsr := 0, hfsr := 0,
         bfar := 0, mmfar_ns := 0, bus_fault_addr := 0, bus_fault_pending := False, insn_snap_valid := False,
         fetch_ok_base := 0, fetch_ok_len := 0, primask_s := 0, primask_ns := 0, basepri_s := 0, basepri_ns := 0,
         faultmask_s := 0, faultmask_ns := 0, tz_sg_count := 0, tz_bxns_count := 0, tz_secexc_count := 0\<rparr>"

definition arm_cpu_reset :: "'a arm_run_scheme arm_host \<Rightarrow> 'a arm_run_scheme \<Rightarrow> 'a arm_run_scheme" where
  "arm_cpu_reset h cpu =
     (let env = h_env h;
          cpu = cpu\<lparr>reset_pending := False, demcr := 0, dwt_ctrl := 0, dwt_cyccnt_base := word_of_int (cpu_cycles cpu)\<rparr>;
          cpu = reset_vtor env (reset_core (reset_hook h cpu));
          (sp, cpu) = arm_read32 env (vtor cpu) cpu;
          (entry, cpu) = arm_read32 env (vtor cpu + 4) cpu;
          cpu = set_reg ARM_PC (entry AND NOT 1) (set_reg ARM_SP sp cpu)
      in reset_security sp (cpu\<lparr>msp := sp, xpsr := 0x1000000\<rparr>))"

definition arm_stop :: "'a arm_run_scheme \<Rightarrow> 'a arm_run_scheme" where
  "arm_stop cpu = cpu\<lparr>stopping := True\<rparr>"

subsection \<open>The loop\<close>

text \<open>
  What an iteration of the loop does: \<open>Next k\<close> goes round again with \<open>k\<close> taken off the budget,
  \<open>Break k\<close> leaves the loop.
\<close>

datatype 's iter = Next nat 's | Break nat 's

definition sleep_until :: "int \<Rightarrow> 'a arm_run_scheme \<Rightarrow> 'a arm_run_scheme" where
  "sleep_until cycle cpu =
     cpu\<lparr>lpm_ns := (if cycle > cpu_cycles cpu
                    then lpm_ns cpu + cpu_cycles_to_ns (cycle - cpu_cycles cpu) (cpu_freq_hz cpu) else lpm_ns cpu),
         cpu_cycles := cycle\<rparr>"

definition arm_idle :: "'a arm_run_scheme arm_env \<Rightarrow> 'a arm_run_scheme \<Rightarrow> 'a arm_run_scheme iter" where
  "arm_idle env cpu =
     (if has_pending (nvic cpu) then Next 0 (arm_nvic_check_pending env (cpu\<lparr>cpu_off := False\<rparr>))
      else case ev_queue cpu of
             [] \<Rightarrow> Break 0 cpu
           | e # _ \<Rightarrow>
               if fire_cycle e > cycle_limit cpu then Break 0 (sleep_until (cycle_limit cpu) cpu)
               else Next 0 (sleep_until (fire_cycle e) cpu))"

definition begin_insn :: "'a arm_cpu_scheme arm_env \<Rightarrow> 'a arm_cpu_scheme \<Rightarrow> 'a arm_cpu_scheme" where
  "begin_insn env cpu =
     (if ARM_PRECISE_FAULTS env cpu
      then cpu\<lparr>snap_reg := (snap_reg cpu)(ARM_PC := reg cpu ARM_PC), insn_snap_valid := False, bus_fault_pending := False\<rparr>
      else cpu)"

definition invalid_entry :: "'a arm_run_scheme arm_env \<Rightarrow> 'a arm_run_scheme \<Rightarrow> 'a arm_run_scheme" where
  "invalid_entry env cpu =
     arm_exception_entry env EXC_SECUREFAULT
       (cpu\<lparr>sfsr := sfsr cpu OR ARM_SFSR_INVEP, fetch_ok_len := 0, instructions := instructions cpu + 1\<rparr>)"

definition count_insn :: "'a arm_run_scheme \<Rightarrow> 'a arm_run_scheme" where
  "count_insn cpu = cpu\<lparr>instructions := instructions cpu + 1\<rparr>"

definition skip_insn :: "u16 \<Rightarrow> u32 \<Rightarrow> 'a arm_run_scheme \<Rightarrow> 'a arm_run_scheme" where
  "skip_insn hw1 ip cpu =
     count_insn ((charge 1 (set_reg ARM_PC (ip + (if fld hw1 11 5 \<ge> 0x1D then 4 else 2)) cpu))
                   \<lparr>it_state := it_advance (it_state cpu)\<rparr>)"

definition end_insn ::
  "'a arm_run_scheme arm_host \<Rightarrow> 'a arm_run_scheme \<Rightarrow> 'a arm_run_scheme iter" where
  "end_insn h cpu =
     (let cpu = take_faults (h_env h) cpu in
      if reset_pending cpu then Break 1 (arm_cpu_reset h cpu)
      else let cpu = boundary_check (h_env h) cpu in Next 1 (pc_callback h (reg cpu ARM_PC) cpu))"

definition run_insn ::
  "'a arm_run_scheme arm_host \<Rightarrow> u32 \<Rightarrow> 'a arm_run_scheme \<Rightarrow> 'a arm_run_scheme iter" where
  "run_insn h ip cpu =
     (let (hw1, cpu) = fetch16 (h_env h) ip cpu in
      if in_it cpu \<and> \<not> it_passes cpu then Next 1 (skip_insn hw1 ip cpu)
      else end_insn h (finish_it hw1 (in_it cpu) (xpsr cpu) (arm_execute h hw1 ip cpu)))"

definition arm_traps ::
  "'a arm_run_scheme arm_env \<Rightarrow> u32 \<Rightarrow> 'a arm_run_scheme \<Rightarrow> 'a arm_run_scheme option" where
  "arm_traps env ip cpu =
     (case (if ip = fw_udivmoddi4 cpu \<or> ip = fw_aeabi_uldivmod cpu then handle_fw_trap env cpu else None) of
        Some cpu \<Rightarrow> Some cpu
      | None \<Rightarrow> if ip < 0x100 then handle_rom_trap env cpu else None)"

definition arm_insn :: "'a arm_run_scheme arm_host \<Rightarrow> 'a arm_run_scheme \<Rightarrow> 'a arm_run_scheme iter" where
  "arm_insn h cpu =
     (let env = h_env h; ip = reg cpu ARM_PC; (ok, cpu) = fetch_check env ip (begin_insn env cpu) in
      if \<not> ok then Next 1 (invalid_entry env cpu)
      else case arm_traps env ip cpu of
             Some cpu \<Rightarrow> Next 1 (count_insn cpu)
           | None \<Rightarrow> run_insn h ip cpu)"

definition arm_iteration :: "'a arm_run_scheme arm_host \<Rightarrow> 'a arm_run_scheme \<Rightarrow> 'a arm_run_scheme iter option" where
  "arm_iteration h cpu =
     map_option (\<lambda>c. if cpu_off c then arm_idle (h_env h) c else arm_insn h c)
       (if cpu_cycles cpu \<ge> next_event_cycle cpu then execute_events (h_event h) cpu else Some cpu)"

partial_function (option) arm_loop ::
  "'a arm_run_scheme arm_host \<Rightarrow> int \<Rightarrow> 'a arm_run_scheme \<Rightarrow> (int \<times> 'a arm_run_scheme) option" where
  "arm_loop h remaining cpu =
     (if remaining > 0 \<and> \<not> stopping cpu
      then case arm_iteration h cpu of
             None \<Rightarrow> None
           | Some (Break k c) \<Rightarrow> Some (remaining - int k, c)
           | Some (Next k c) \<Rightarrow> arm_loop h (remaining - int k) c
      else Some (remaining, cpu))"

definition stamp_time :: "'a cpu_clock_scheme \<Rightarrow> 'a cpu_clock_scheme" where
  "stamp_time c =
     (if cpu_freq_hz c > 0 then c\<lparr>sim_time_ns := cpu_cycles_to_ns (cpu_cycles c) (cpu_freq_hz c)\<rparr> else c)"

definition arm_step_interpreter ::
  "'a arm_run_scheme arm_host \<Rightarrow> int \<Rightarrow> 'a arm_run_scheme \<Rightarrow> (int \<times> 'a arm_run_scheme) option" where
  "arm_step_interpreter h n cpu = map_option (\<lambda>(r, c). (r, stamp_time c)) (arm_loop h n cpu)"

definition arm_step ::
  "'a arm_run_scheme arm_host \<Rightarrow> int \<Rightarrow> 'a arm_run_scheme \<Rightarrow> (int \<times> 'a arm_run_scheme) option" where
  "arm_step = arm_step_interpreter"

subsection \<open>Running to a target\<close>

definition batch_size :: "int \<Rightarrow> int" where
  "batch_size remaining =
     (if remaining > 50000 then 10000
      else if remaining \<le> 10 then 1
      else let steps = cdiv remaining 2; steps = (if steps < 1 then 1 else steps) in if steps > 10000 then 10000 else steps)"

partial_function (option) until_loop ::
  "'a arm_run_scheme arm_host \<Rightarrow> int \<Rightarrow> 'a arm_run_scheme \<Rightarrow> 'a arm_run_scheme option" where
  "until_loop h target cpu =
     (if cpu_cycles cpu < target \<and> \<not> stopping cpu \<and> \<not> dbg_halted cpu
      then case arm_step h (batch_size (target - cpu_cycles cpu)) (cpu\<lparr>stopping := False\<rparr>) of
             None \<Rightarrow> None
           | Some (_, c) \<Rightarrow> until_loop h target (c\<lparr>stopping := False\<rparr>)
      else Some cpu)"

partial_function (option) drain_events ::
  "'a arm_run_scheme arm_host \<Rightarrow> 'a arm_run_scheme \<Rightarrow> 'a arm_run_scheme option" where
  "drain_events h cpu =
     (if \<not> dbg_halted cpu \<and> cpu_cycles cpu \<ge> next_event_cycle cpu
      then case execute_events (h_event h) cpu of None \<Rightarrow> None | Some c \<Rightarrow> drain_events h c
      else Some cpu)"

definition arm_step_until ::
  "'a arm_run_scheme arm_host \<Rightarrow> int \<Rightarrow> 'a arm_run_scheme \<Rightarrow> 'a arm_run_scheme option" where
  "arm_step_until h target cpu =
     (if cpu_cycles cpu \<ge> target then Some cpu
      else case until_loop h target (cpu\<lparr>cycle_limit := target\<rparr>) of
             None \<Rightarrow> None
           | Some c \<Rightarrow> map_option (\<lambda>c. stamp_time (c\<lparr>cycle_limit := INT64_MAX\<rparr>)) (drain_events h c))"

definition start_micros :: "'a arm_run_scheme \<Rightarrow> 'a arm_run_scheme" where
  "start_micros cpu =
     (if micro_clock_ready cpu then cpu
      else cpu\<lparr>last_micros_cycles := cpu_cycles cpu, last_micros_delta := 0, micro_clock_ready := True\<rparr>)"

definition micros_target :: "int \<Rightarrow> 'a arm_run_scheme \<Rightarrow> int" where
  "micros_target execute_us cpu =
     last_micros_cycles cpu + cdiv ((last_micros_delta cpu + execute_us) * uint (cpu_freq_hz cpu)) 1000000"

definition wake_hint :: "'a arm_run_scheme \<Rightarrow> int" where
  "wake_hint cpu =
     (if cpu_off cpu \<and> \<not> has_pending (nvic cpu) \<and> cpu_freq_hz cpu > 0 \<and> next_event_cycle cpu > cpu_cycles cpu
      then let lead = next_event_cycle cpu - cpu_cycles cpu
           in if lead > cdiv INT64_MAX 1000000 then cdiv (cdiv INT64_MAX 1000000) (uint (cpu_freq_hz cpu))
              else cdiv (lead * 1000000) (uint (cpu_freq_hz cpu))
      else 0)"

definition arm_step_micros ::
  "'a arm_run_scheme arm_host \<Rightarrow> int \<Rightarrow> int \<Rightarrow> 'a arm_run_scheme \<Rightarrow> (int \<times> 'a arm_run_scheme) option" where
  "arm_step_micros h jump_us execute_us cpu =
     (if dbg_halted cpu then Some (0, cpu)
      else
        let cpu = start_micros cpu;
            cpu = cpu\<lparr>last_micros_delta := last_micros_delta cpu + max 0 jump_us\<rparr>;
            target = micros_target (max 0 execute_us) cpu
        in map_option (\<lambda>c. (wake_hint c, c)) (if target > cpu_cycles cpu then arm_step_until h target cpu else Some cpu))"


subsection \<open>Initialisation\<close>

record arm_config =
  cfg_rom_size :: u32
  cfg_flash_size :: u32
  cfg_flash_base :: u32
  cfg_sram_size :: u32
  cfg_sram_base :: u32
  default_cpu_freq :: u32
  cfg_vtor_default :: u32
  has_trustzone :: bool
  periph_ns_alias :: bool
  cfg_cpuid :: u32

text \<open>The table that the CC2538's ROM offers: its address and the three trapped functions.\<close>

definition rom_image :: "u32 \<Rightarrow> u8" where
  "rom_image = put32 0x68 0x69 (put32 0x64 0x65 (put32 0x60 0x61 (put32 0x10 0x48 (\<lambda>_. 0))))"

text \<open>Everything not set below is zeroed. The interrupt controller is allocated separately and given as \<open>nv\<close>.\<close>

definition arm_cpu_init :: "arm_config \<Rightarrow> arm_nvic \<Rightarrow> arm_run" where
  "arm_cpu_init cfg nv =
     (let has_rom = (cfg_rom_size cfg > 0) in
      \<lparr>cpu_cycles = 0, ev_queue = [], next_event_cycle = INT64_MAX, sim_time_ns = 0, cpu_freq_hz = default_cpu_freq cfg,
       anchor_cycles = 0, anchor_sim_time_ns = 0, io_regions = [], io_page_map = empty_page_map, io_page_map_fallback = False,
       reg = (\<lambda>_. 0), xpsr = 0, it_state = 0, msp = 0, psp = 0, use_psp = False, primask = 0, faultmask = 0,
       basepri = 0, cpu_off = False, dbg_halted = False, reset_pending = False,
       rom = (if has_rom then Some rom_image else None), rom_size = cfg_rom_size cfg, flash = (\<lambda>_. 0),
       flash_base = cfg_flash_base cfg, flash_end = cfg_flash_base cfg + cfg_flash_size cfg, sram = (\<lambda>_. 0),
       sram_base = cfg_sram_base cfg, sram_end = cfg_sram_base cfg + cfg_sram_size cfg,
       io_ns_alias = periph_ns_alias cfg, io_txn_ns = False, io_blocked = False, vtor = 0, cpu_cpuid = cfg_cpuid cfg,
       demcr = 0, dwt_ctrl = 0, dwt_cyccnt_base = 0, tz_enabled = has_trustzone cfg, secure = False, msp_s = 0, msp_ns = 0,
       psp_s = 0, psp_ns = 0, control_s = 0, control_ns = 0, vtor_s = 0, primask_s = 0, primask_ns = 0, basepri_s = 0,
       basepri_ns = 0, faultmask_s = 0, faultmask_ns = 0, fetch_ok_base = 0, fetch_ok_len = 0, tz_secexc_count = 0,
       sau_ctrl = 0, sau_rnr = 0, sau_rbar = (\<lambda>_. 0), sau_rlar = (\<lambda>_. 0), sau_sregions = 0, sfsr = 0, sfar = 0,
       secure_fault_pending = False, secure_fault_undo = False, cfsr = 0, hfsr = 0, bfar = 0, mmfar_ns = 0,
       bus_fault_addr = 0, bus_fault_pending = False, snap_reg = (\<lambda>_. 0), snap_xpsr = 0, snap_it_state = 0,
       insn_snap_valid = False, exc_entry_count = (\<lambda>_. 0), last_fault_exc = 0, last_fault_pc = 0,
       last_fault_bg_secure = False, nvic = nv,
       instructions = 0, stopping = False, cycle_limit = INT64_MAX, lpm_ns = 0, event_latch = False,
       msplim_s = 0, msplim_ns = 0, psplim_s = 0, psplim_ns = 0, tz_sg_count = 0, tz_bxns_count = 0,
       vfp_s = (\<lambda>_. 0), fpscr = 0, vtor_default = cfg_vtor_default cfg,
       rom_util_memcpy = (if has_rom then 0x64 else 0), rom_util_memset = (if has_rom then 0x60 else 0),
       rom_util_memcmp = (if has_rom then 0x68 else 0), fw_udivmoddi4 = 0, fw_aeabi_uldivmod = 0,
       last_execute_us = -1, last_micros_cycles = 0, last_micros_delta = 0, micro_clock_ready = False\<rparr>)"


text \<open>The three parts the repository configures (\<open>src/arm/arm_config.c\<close>).\<close>

definition cc2538_config :: arm_config where
  "cc2538_config =
     \<lparr>cfg_rom_size = 128 * 1024, cfg_flash_size = 512 * 1024, cfg_flash_base = 0x00200000, cfg_sram_size = 32 * 1024,
      cfg_sram_base = 0x20000000, default_cpu_freq = 32000000, cfg_vtor_default = 0, has_trustzone = False,
      periph_ns_alias = False, cfg_cpuid = 0\<rparr>"

definition nrf54l15_config :: arm_config where
  "nrf54l15_config =
     \<lparr>cfg_rom_size = 0, cfg_flash_size = 1536 * 1024, cfg_flash_base = 0, cfg_sram_size = 256 * 1024,
      cfg_sram_base = 0x20000000, default_cpu_freq = 128000000, cfg_vtor_default = 0, has_trustzone = True,
      periph_ns_alias = True, cfg_cpuid = 0x410FD214\<rparr>"

definition nrf52840_config :: arm_config where
  "nrf52840_config =
     \<lparr>cfg_rom_size = 0, cfg_flash_size = 1024 * 1024, cfg_flash_base = 0, cfg_sram_size = 256 * 1024,
      cfg_sram_base = 0x20000000, default_cpu_freq = 64000000, cfg_vtor_default = 0, has_trustzone = False,
      periph_ns_alias = False, cfg_cpuid = 0\<rparr>"

end
