(* ===== verification/Arm_Step_Correct.thy ===== *)
theory Arm_Step_Correct
  imports Arm_Step Arm_Core_Correct Cpu_Events_Correct
begin

text \<open>
  The execution loop: what an IT block predicates, when Non-secure code may fetch, what the
  runs to a cycle target guarantee, and two ways in which they go wrong.
\<close>

subsection \<open>IT blocks\<close>

lemma it_advance_bits: "i < 8 \<Longrightarrow> bit (it_advance it) i \<longleftrightarrow> (if i < 5 then 0 < i \<and> bit it (i - 1) else bit it i)"
proof -
  assume "i < 8"
  hence "i \<in> {0, 1, 2, 3, 4, 5, 6, 7}" by auto
  thus ?thesis unfolding it_advance_def bit_or_iff bit_and_iff bit_push_bit_iff by auto
qed

lemma it_advance_power_bits:
  "i < 8 \<Longrightarrow> bit ((it_advance ^^ k) it) i \<longleftrightarrow> (if i < 5 then k \<le> i \<and> bit it (i - k) else bit it i)"
proof (induction k arbitrary: i)
  case 0
  thus ?case by simp
next
  case (Suc k)
  thus ?case by (auto simp: it_advance_bits Suc.IH less_Suc_eq_le)
qed

lemma it_mask_bits: "it AND 0xF \<noteq> (0 :: u8) \<longleftrightarrow> (\<exists>i < 4. bit it i)"
proof -
  have "it AND 0xF = take_bit 4 it" by (simp add: take_bit_eq_mask mask_eq_exp_minus_1)
  hence "bit (it AND 0xF) i \<longleftrightarrow> i < 4 \<and> bit it i" for i by (simp add: bit_take_bit_iff)
  moreover have "v \<noteq> 0 \<longleftrightarrow> (\<exists>i. bit v i)" for v :: u8 using bit_imp_le_length [of v] by (auto simp: bit_eq_iff)
  ultimately show ?thesis by simp
qed

text \<open>
  ITSTATE runs through the block as the architecture says: instruction \<open>k\<close> of the block tests the base
  condition with its lowest bit replaced by bit \<open>4 - k\<close> of the state that the IT instruction wrote, and the
  block ends exactly when no mask bit is left.
\<close>

theorem it_block_conditions:
  assumes "k \<le> 4"
  shows "unat (drop_bit 4 ((it_advance ^^ k) it)) = 2 * unat (drop_bit 5 it) + (if bit it (4 - k) then 1 else 0) \<and>
    ((it_advance ^^ k) it AND 0xF \<noteq> 0 \<longleftrightarrow> (\<exists>i < 4 - k. bit it i))"
proof
  let ?s = "(it_advance ^^ k) it"
  have "drop_bit 5 ?s = drop_bit 5 it"
  proof (rule bit_word_eqI)
    fix n
    show "bit (drop_bit 5 ?s) n = bit (drop_bit 5 it) n"
      using it_advance_power_bits [of "5 + n" k it] bit_imp_le_length [of ?s "5 + n"] bit_imp_le_length [of it "5 + n"]
      by (cases "5 + n < 8") (auto simp: bit_drop_bit_eq)
  qed
  moreover have "unat (drop_bit 4 ?s) = 2 * unat (drop_bit 5 ?s) + (if bit ?s 4 then 1 else 0)"
  proof -
    have "unat (drop_bit 4 ?s) = 2 * (unat (drop_bit 4 ?s) div 2) + unat (drop_bit 4 ?s) mod 2" by simp
    also have "unat (drop_bit 4 ?s) div 2 = unat (drop_bit 5 ?s)"
      by (simp add: drop_bit_eq_div unat_div div_mult2_eq [symmetric])
    also have "unat (drop_bit 4 ?s) mod 2 = (if bit ?s 4 then 1 else 0)"
    proof -
      have "odd (unat (drop_bit 4 ?s)) \<longleftrightarrow> bit (unat (drop_bit 4 ?s)) 0" by (simp only: bit_0)
      also have "\<dots> \<longleftrightarrow> bit ?s 4" by (simp only: bit_unsigned_iff bit_drop_bit_eq o_def add_0_right) simp
      finally show ?thesis by (simp only: odd_iff_mod_2_eq_one even_iff_mod_2_eq_zero split: if_split) auto
    qed
    finally show ?thesis .
  qed
  ultimately show "unat (drop_bit 4 ?s) = 2 * unat (drop_bit 5 it) + (if bit it (4 - k) then 1 else 0)"
    using assms it_advance_power_bits [of 4 k it] by simp
  show "?s AND 0xF \<noteq> 0 \<longleftrightarrow> (\<exists>i < 4 - k. bit it i)"
    unfolding it_mask_bits
  proof
    assume "\<exists>i < 4. bit ?s i"
    then obtain i where "i < 4" "k \<le> i" "bit it (i - k)" using it_advance_power_bits [of _ k it] by (auto split: if_splits)
    thus "\<exists>i < 4 - k. bit it i" by (intro exI [of _ "i - k"]) auto
  next
    assume "\<exists>i < 4 - k. bit it i"
    then obtain i where "i < 4 - k" "bit it i" by blast
    thus "\<exists>i < 4. bit ?s i" using it_advance_power_bits [of "i + k" k it] by (intro exI [of _ "i + k"]) auto
  qed
qed

theorem it_block_conditions_witness:
  "unat (drop_bit 4 ((it_advance ^^ 2) 0x1A)) = 0 \<and> (it_advance ^^ 2) 0x1A AND 0xF \<noteq> 0"
proof -
  have "\<exists>i < 4 - 2. bit (0x1A :: u8) i" by (rule exI [of _ 1]) simp
  thus ?thesis using it_block_conditions [of 2 "0x1A"] by simp
qed

lemma xpsr_update: "xpsr (c\<lparr>xpsr := v\<rparr>) = v"
  by simp

lemma restore_flags_nzcv: "xpsr (restore_flags saved cpu) AND 0xF0000000 = saved AND 0xF0000000"
proof -
  have "((x AND NOT m) OR (y AND m)) AND m = y AND m" for x y m :: u32
    by (rule bit_word_eqI) (auto simp: bit_simps)
  thus ?thesis unfolding restore_flags_def xpsr_update .
qed

text \<open>
  Inside an IT block a 16-bit instruction other than CMP, CMN and TST ends with the N, Z, C and V flags
  it began with. This includes a branch that returns from an exception: the flags of the interrupted
  code, which the return has just restored from its frame, are overwritten with those of the handler.
\<close>

theorem it_flags_restored:
  assumes "in_it cpu" "fld hw 11 5 < 0x1D" "\<not> sets_flags_in_it hw"
  shows "xpsr (finish_it hw (in_it cpu) (xpsr cpu) (arm_execute h hw ip cpu)) AND 0xF0000000 = xpsr cpu AND 0xF0000000"
  using assms restore_flags_nzcv [of "xpsr cpu"] by (simp add: finish_it_def Let_def)


text \<open>
  A handler that leaves through BX LR inside an IT block does not give the interrupted code its flags back:
  after the return has restored them from the frame, the end of the instruction replaces N, Z, C and V by the
  handler's and steps the ITSTATE that the return has restored.
\<close>

theorem it_return_clobbers_context:
  assumes "in_it cpu" "\<not> tz_enabled cpu" "reg cpu ARM_LR AND 0xF0000000 = 0xF0000000"
    and r: "r = exception_return (h_env h) (reg cpu ARM_LR) (charge 1 (set_reg ARM_PC (ip + 2) cpu))"
  shows "finish_it 0x4770 (in_it cpu) (xpsr cpu) (arm_execute h 0x4770 ip cpu) =
    (restore_flags (xpsr cpu) r)\<lparr>it_state := it_advance (it_state r), instructions := instructions r + 1\<rparr>"
proof -
  have d: "drop_bit 10 (0x4770 :: u16) = 0x11" "fld 0x4770 11 5 = 8" "fld 0x4770 8 2 = 3" "fld 0x4770 3 4 = 14" "\<not> bit (0x4770 :: u16) 7"
    by (simp_all add: fld_def)
  have "arm_execute h 0x4770 ip cpu = r"
    using assms(2, 3) unfolding r
    by (simp add: arm_execute_def d exec16_def t16_dp_spec_def t16_spec_def t16_bx_def exec_bx_def hi_val_def Let_def
        charge_def set_reg_def)
  moreover have "\<not> sets_flags_in_it 0x4770" by (simp add: sets_flags_in_it_def fld_def)
  ultimately show ?thesis using assms(1) by (simp add: finish_it_def d Let_def restore_flags_def)
qed

subsection \<open>Fetching while Non-secure\<close>

definition fetch_window_clean :: "'a arm_cpu_scheme arm_env \<Rightarrow> 'a arm_cpu_scheme \<Rightarrow> u32 \<Rightarrow> u32 \<Rightarrow> bool" where
  "fetch_window_clean env cpu b len \<longleftrightarrow> (\<forall>a. a - b < len \<longrightarrow> arm_security_attr env cpu a = ARM_SEC_NONSECURE)"

lemma window_membership:
  fixes a b len :: u32
  assumes "a - b < len" "uint b + uint len \<le> 2 ^ 32"
  shows "uint b \<le> uint a \<and> uint a < uint b + uint len"
  using assms uint_lt2p [of a] by (auto simp: word_less_def uint_sub_if' split: if_splits) (insert uint_ge_0 [of a], linarith)

text \<open>The attribution unit works on granules of 32 bytes.\<close>

lemma granule_uint: "uint (a AND NOT 0x1F :: u32) = 32 * (uint a div 32)"
proof -
  have e: "a AND NOT 0x1F = a AND NOT (mask 5)" by (simp add: mask_eq_exp_minus_1)
  have "uint (a AND NOT 0x1F) = push_bit 5 (drop_bit 5 (uint a))" unfolding e
    by (rule bit_eqI) (auto simp: bit_simps dest: bit_imp_le_length)
  thus ?thesis by (simp add: push_bit_eq_mult drop_bit_eq_div)
qed

lemma granule_top: "uint ((a AND NOT 0x1F) OR 0x1F :: u32) = 32 * (uint a div 32) + 31"
proof -
  have e: "(a AND NOT 0x1F) OR 0x1F = a OR mask 5"
    by (rule bit_word_eqI) (auto simp: bit_simps mask_eq_exp_minus_1)
  have "uint (a OR mask 5) = push_bit 5 (drop_bit 5 (uint a)) OR mask 5"
    by (rule bit_eqI) (auto simp: bit_simps dest: bit_imp_le_length)
  also have "\<dots> = push_bit 5 (drop_bit 5 (uint a)) + mask 5"
    by (rule disjunctive_add [symmetric]) (simp add: bit_simps)
  finally show ?thesis unfolding e by (simp add: push_bit_eq_mult drop_bit_eq_div mask_eq_exp_minus_1)
qed

lemma granule_covers:
  assumes "drop_bit 5 x = drop_bit 5 y"
  shows "sau_covers cpu x r = sau_covers cpu y r"
proof -
  have "uint x div 32 = uint y div 32" using arg_cong [OF assms, of uint] by (simp add: drop_bit_eq_div uint_div_distrib)
  moreover have "uint z < 32 * k \<longleftrightarrow> uint z div 32 < k" "32 * k + 31 < uint z \<longleftrightarrow> k < uint z div 32" for z :: u32 and k
    by presburger+
  ultimately show ?thesis unfolding sau_covers_def sau_base_def sau_limit_def word_less_def granule_uint granule_top by simp
qed

lemma granule_attr:
  assumes "drop_bit 5 x = drop_bit 5 y" "idau_result env cpu x = idau_result env cpu y"
  shows "arm_security_attr env cpu x = arm_security_attr env cpu y"
proof -
  have "sau_covers cpu x = sau_covers cpu y" using granule_covers [OF assms(1)] by blast
  thus ?thesis using assms(2) by (simp add: arm_security_attr_def sau_check_spec covering_def)
qed

lemma fetch_check_sound:
  assumes "tz_enabled cpu" "\<not> secure cpu" "fetch_window_clean env cpu (fetch_ok_base cpu) (fetch_ok_len cpu)"
    "\<And>x y. drop_bit 12 x = drop_bit 12 y \<Longrightarrow> idau_result env cpu x = idau_result env cpu y"
    "fetch_check env ip cpu = (True, c)"
  shows "arm_security_attr env cpu ip = ARM_SEC_NONSECURE \<and> fetch_window_clean env cpu (fetch_ok_base c) (fetch_ok_len c)
    \<or> arm_security_attr env cpu ip = ARM_SEC_NSC \<and> fst (fetch16 env ip cpu) = 0xE97F
      \<and> fst (fetch16 env (ip + 2) (snd (fetch16 env ip cpu))) = 0xE97F"
proof (cases "ip - fetch_ok_base cpu < fetch_ok_len cpu")
  case True
  with assms(1, 2, 5) have "c = cpu" by (auto simp: fetch_check_def not_le [symmetric] split: if_splits)
  with True assms(3) show ?thesis by (simp add: fetch_window_clean_def)
next
  case False
  hence ge: "fetch_ok_len cpu \<le> ip - fetch_ok_base cpu" by (rule leI)
  show ?thesis
  proof (cases "arm_security_attr env cpu ip")
    case ARM_SEC_NONSECURE
    obtain b len where w: "arm_sau_uniform_window cpu ip = (b, len)" by fastforce
    have c: "c = cpu\<lparr>fetch_ok_base := b, fetch_ok_len := len\<rparr>"
      using assms(1, 2, 5) ge ARM_SEC_NONSECURE by (simp add: fetch_check_def w)
    have "arm_security_attr env cpu a = ARM_SEC_NONSECURE" if "a - b < len" for a
      using fetch_window_sound [OF assms(4) w] window_membership [OF that] ARM_SEC_NONSECURE by simp
    thus ?thesis using ARM_SEC_NONSECURE by (simp add: c fetch_window_clean_def)
  next
    case ARM_SEC_NSC
    thus ?thesis
      using assms(1, 2, 5) ge by (auto simp: fetch_check_def fetch_is_sg_def split: prod.splits if_splits)
  next
    case ARM_SEC_SECURE
    thus ?thesis using assms(1, 2, 5) ge by (simp add: fetch_check_def)
  qed
qed

text \<open>
  C9. While Non-secure, an instruction may start only in Non-secure memory or at a secure gateway:
  when the fetch check allows the address, either the whole 32-byte granule around it is Non-secure,
  so that an instruction that ends within the granule is fetched from Non-secure memory only, or the
  address is Non-secure callable and the two halfwords there are SG. In the first case the cached window, which
  later fetches are trusted on, again contains only Non-secure addresses. (The attribution of the
  SoC is constant on 4 KB pages. The second halfword of an instruction that crosses the end of the
  granule is not checked: see \<open>straddling_halfword_unchecked\<close>.)
\<close>

theorem nonsecure_fetch_gate:
  assumes "tz_enabled cpu" "\<not> secure cpu" "fetch_window_clean env cpu (fetch_ok_base cpu) (fetch_ok_len cpu)"
    "\<And>x y. drop_bit 12 x = drop_bit 12 y \<Longrightarrow> idau_result env cpu x = idau_result env cpu y"
    "fetch_check env ip cpu = (True, c)"
  shows "(\<forall>a. drop_bit 5 a = drop_bit 5 ip \<longrightarrow> arm_security_attr env cpu a = ARM_SEC_NONSECURE)
      \<and> fetch_window_clean env cpu (fetch_ok_base c) (fetch_ok_len c)
    \<or> arm_security_attr env cpu ip = ARM_SEC_NSC \<and> fst (fetch16 env ip cpu) = 0xE97F
      \<and> fst (fetch16 env (ip + 2) (snd (fetch16 env ip cpu))) = 0xE97F"
proof -
  have "drop_bit 12 a = drop_bit 12 ip" if "drop_bit 5 a = drop_bit 5 ip" for a
    using arg_cong [OF that, of "drop_bit 7"] by simp
  then have "arm_security_attr env cpu a = arm_security_attr env cpu ip" if "drop_bit 5 a = drop_bit 5 ip" for a
    using granule_attr [OF that assms(4)] that by blast
  then show ?thesis using fetch_check_sound [OF assms] by metis
qed

text \<open>
  The second halfword of a 32-bit instruction is fetched without a check: with the first halfword
  in the last two bytes of a Non-secure granule, the instruction that runs is completed by whatever
  the Secure memory behind it holds.
\<close>

theorem straddling_halfword_unchecked:
  assumes "fld hw1 11 5 \<ge> 0x1D" "rom cpu = None" "\<not> (flash_base cpu \<le> ip + 2 \<and> ip + 2 < flash_end cpu)"
    "sram_base cpu \<le> ip + 2" "ip + 2 < sram_end cpu" "arm_security_attr (h_env h) cpu (ip + 2) = ARM_SEC_SECURE"
  shows "arm_execute h hw1 ip cpu =
    exec32 (h_fpu h) (h_env h) hw1 (le16 (sram cpu) (ip + 2 - sram_base cpu)) ip (charge 1 (set_reg ARM_PC (ip + 4) cpu))"
  using assms by (auto simp: arm_execute_def fetch16_def Let_def)

subsection \<open>Running to a target\<close>

lemma until_loop_exit:
  assumes "until_loop h t c = Some y"
  shows "dbg_halted y \<or> t \<le> cpu_cycles y \<or> stopping c"
proof (rule until_loop.raw_induct [where P = "\<lambda>h t c y. dbg_halted y \<or> t \<le> cpu_cycles y \<or> stopping c", OF _ assms])
  fix f :: "'a arm_run_scheme arm_host \<Rightarrow> int \<Rightarrow> 'a arm_run_scheme \<Rightarrow> 'a arm_run_scheme option" and h t c y
  assume IH: "\<And>h t c y. f h t c = Some y \<Longrightarrow> dbg_halted y \<or> t \<le> cpu_cycles y \<or> stopping c"
    and body: "(if cpu_cycles c < t \<and> \<not> stopping c \<and> \<not> dbg_halted c
       then case arm_step h (batch_size (t - cpu_cycles c)) (c\<lparr>stopping := False\<rparr>) of
              None \<Rightarrow> None | Some (_, c) \<Rightarrow> f h t (c\<lparr>stopping := False\<rparr>)
       else Some c) = Some y"
  show "dbg_halted y \<or> t \<le> cpu_cycles y \<or> stopping c"
    using body IH [of h t _ y] by (fastforce split: if_splits option.splits)
qed

lemma drain_events_exit:
  assumes "drain_events h c = Some y" "\<And>ev s. cpu_cycles s \<le> cpu_cycles (h_event h ev s)"
  shows "(dbg_halted y \<or> cpu_cycles y < next_event_cycle y) \<and> cpu_cycles c \<le> cpu_cycles y \<and> (dbg_halted c \<longrightarrow> y = c)"
proof -
  let ?P = "\<lambda>h c y. (\<forall>ev s. cpu_cycles s \<le> cpu_cycles (h_event h ev s)) \<longrightarrow>
    (dbg_halted y \<or> cpu_cycles y < next_event_cycle y) \<and> cpu_cycles c \<le> cpu_cycles y \<and> (dbg_halted c \<longrightarrow> y = c)"
  have "?P h c y"
  proof (rule drain_events.raw_induct [where P = ?P, OF _ assms(1)], intro impI)
    fix f :: "'a arm_run_scheme arm_host \<Rightarrow> 'a arm_run_scheme \<Rightarrow> 'a arm_run_scheme option" and h c y
    assume IH: "\<And>h c y. f h c = Some y \<Longrightarrow> ?P h c y"
      and body: "(if \<not> dbg_halted c \<and> cpu_cycles c \<ge> next_event_cycle c
         then case execute_events (h_event h) c of None \<Rightarrow> None | Some c \<Rightarrow> f h c else Some c) = Some y"
      and mono: "\<forall>ev s. cpu_cycles s \<le> cpu_cycles (h_event h ev s)"
    show "(dbg_halted y \<or> cpu_cycles y < next_event_cycle y) \<and> cpu_cycles c \<le> cpu_cycles y \<and> (dbg_halted c \<longrightarrow> y = c)"
    proof (cases "\<not> dbg_halted c \<and> next_event_cycle c \<le> cpu_cycles c")
      case True
      with body obtain c' where c': "execute_events (h_event h) c = Some c'" "f h c' = Some y" by (auto split: option.splits)
      have "cpu_cycles c \<le> cpu_cycles c'" using execute_events_forward [OF c'(1)] mono by blast
      with IH [OF c'(2)] mono True show ?thesis by auto
    next
      case False
      with body show ?thesis by auto
    qed
  qed
  thus ?thesis using assms(2) by blast
qed

lemma stamp_time_fields [simp]:
  "cpu_cycles (stamp_time c) = cpu_cycles c" "next_event_cycle (stamp_time c) = next_event_cycle c"
  "ev_queue (stamp_time c) = ev_queue c" "cpu_freq_hz (stamp_time c) = cpu_freq_hz c"
  by (simp_all add: stamp_time_def)

text \<open>
  A run to a cycle target that returns has reached it, unless the debugger halted the core: the core's
  clock is at or past the target, no event is due any more and the cycle limit is lifted. (The event
  callbacks do not turn the clock back.)
\<close>

theorem arm_step_until_reaches:
  assumes "cpu_cycles cpu < t" "\<not> stopping cpu" "\<And>ev s. cpu_cycles s \<le> cpu_cycles (h_event h ev s)"
    "arm_step_until h t cpu = Some y" "\<not> dbg_halted y"
  shows "t \<le> cpu_cycles y \<and> cpu_cycles y < next_event_cycle y \<and> cycle_limit y = INT64_MAX"
proof -
  from assms(1, 4) obtain c d where c: "until_loop h t (cpu\<lparr>cycle_limit := t\<rparr>) = Some c"
    and d: "drain_events h c = Some d" "y = stamp_time (d\<lparr>cycle_limit := INT64_MAX\<rparr>)"
    by (auto simp: arm_step_until_def split: option.splits)
  have y: "cpu_cycles y = cpu_cycles d" "next_event_cycle y = next_event_cycle d"
    "cycle_limit y = INT64_MAX" "dbg_halted y = dbg_halted d"
    unfolding d(2) by (simp_all add: stamp_time_def)
  note e = drain_events_exit [OF d(1) assms(3)]
  have "\<not> dbg_halted c" using e assms(5) y by auto
  hence "t \<le> cpu_cycles c" using until_loop_exit [OF c] assms(2) e y assms(5) by auto
  with e y assms(5) show ?thesis by auto
qed

lemma batch_size_pos: "0 < batch_size r"
  by (simp add: batch_size_def Let_def)

text \<open>A core that sleeps with nothing pending and its next event at cycle \<open>n\<close>.\<close>

definition dozes_until :: "int \<Rightarrow> 'a arm_run_scheme \<Rightarrow> bool" where
  "dozes_until n c \<longleftrightarrow> cpu_off c \<and> \<not> has_pending (nvic c) \<and> \<not> dbg_halted c \<and> \<not> stopping c \<and>
     ev_queue c \<noteq> [] \<and> fire_cycle (hd (ev_queue c)) = n \<and> next_event_cycle c = n"

lemma doze_step:
  assumes "dozes_until n c" "cpu_cycles c < n" "cycle_limit c = t" "t < n" "0 < k"
  shows "arm_step h k c = Some (k, stamp_time (sleep_until t c))"
proof -
  obtain e es where "ev_queue c = e # es" "fire_cycle e = n" using assms(1) by (cases "ev_queue c") (auto simp: dozes_until_def)
  then have "arm_iteration h c = Some (Break 0 (sleep_until t c))"
    using assms by (simp add: arm_iteration_def arm_idle_def dozes_until_def)
  then show ?thesis using assms(1, 5) by (simp add: arm_step_def arm_step_interpreter_def arm_loop.simps dozes_until_def)
qed

text \<open>
  C14. A core asleep in WFI reaches its target exactly: with no interrupt pending, not halted or
  stopped, and its next event after the target, the run to a later cycle returns, the clock is at
  the target and not past it, the time spent asleep is added to \<open>lpm_ns\<close>, the cycle limit is lifted,
  and nothing else of the core has changed but the simulation time.
\<close>

theorem arm_doze_reaches_target:
  assumes "dozes_until n cpu" "cpu_cycles cpu < t" "t < n"
  shows "\<exists>ns. arm_step_until h t cpu = Some (cpu\<lparr>cpu_cycles := t, cycle_limit := INT64_MAX, sim_time_ns := ns,
    lpm_ns := lpm_ns cpu + cpu_cycles_to_ns (t - cpu_cycles cpu) (cpu_freq_hz cpu)\<rparr>)"
proof -
  let ?c = "cpu\<lparr>cycle_limit := t\<rparr>"
  let ?b = "?c\<lparr>stopping := False\<rparr>"
  let ?d = "(stamp_time (sleep_until t ?b))\<lparr>stopping := False\<rparr>"
  have s: "dozes_until n ?b" "\<not> stopping cpu" "\<not> dbg_halted cpu" "next_event_cycle cpu = n"
    using assms(1) by (auto simp: dozes_until_def)
  have "arm_step h (batch_size (t - cpu_cycles cpu)) ?b = Some (batch_size (t - cpu_cycles cpu), stamp_time (sleep_until t ?b))"
    by (rule doze_step [OF s(1)]) (use assms batch_size_pos in auto)
  then have "until_loop h t ?c = until_loop h t ?d"
    using s assms by (subst until_loop.simps) simp
  also have "\<dots> = Some ?d" by (subst until_loop.simps) (simp add: sleep_until_def)
  finally have u: "until_loop h t ?c = Some ?d" .
  have "drain_events h ?d = Some ?d"
    by (subst drain_events.simps) (use s assms in \<open>simp add: sleep_until_def\<close>)
  then have "arm_step_until h t cpu = Some (stamp_time (?d\<lparr>cycle_limit := INT64_MAX\<rparr>))"
    unfolding arm_step_until_def u option.case using assms(2) by simp
  moreover have "stamp_time (?d\<lparr>cycle_limit := INT64_MAX\<rparr>) = cpu\<lparr>cpu_cycles := t, cycle_limit := INT64_MAX,
      sim_time_ns := sim_time_ns (stamp_time (?d\<lparr>cycle_limit := INT64_MAX\<rparr>)),
      lpm_ns := lpm_ns cpu + cpu_cycles_to_ns (t - cpu_cycles cpu) (cpu_freq_hz cpu)\<rparr>"
    by (rule arm_run.equality) (use s(2) assms(2) in \<open>simp_all add: stamp_time_def sleep_until_def\<close>)
  ultimately show ?thesis by metis
qed

text \<open>A core that sleeps with nothing pending and nothing scheduled.\<close>

definition asleep :: "'a arm_run_scheme \<Rightarrow> bool" where
  "asleep c \<longleftrightarrow> cpu_off c \<and> ev_queue c = [] \<and> next_event_cycle c = INT64_MAX \<and> \<not> has_pending (nvic c) \<and> \<not> dbg_halted c"

lemma asleep_step:
  assumes "asleep c" "cpu_cycles c < INT64_MAX" "0 < n" "\<not> stopping c"
  shows "arm_step h n c = Some (n, stamp_time c)"
proof -
  have "arm_iteration h c = Some (Break 0 c)"
    using assms(1, 2) by (simp add: arm_iteration_def arm_idle_def asleep_def)
  thus ?thesis
    using assms(3, 4) by (simp add: arm_step_def arm_step_interpreter_def arm_loop.simps)
qed

lemma asleep_stamp: "asleep c \<Longrightarrow> asleep ((stamp_time c)\<lparr>stopping := False\<rparr>)"
  by (simp add: asleep_def stamp_time_def)

text \<open>
  C27. A core that sleeps in WFI with no interrupt pending and no event scheduled hangs the simulator: the run
  to any later cycle target never returns, because the sleeping core's clock does not advance.
\<close>

theorem arm_sleep_livelock:
  assumes "asleep c" "cpu_cycles c < t" "t \<le> INT64_MAX" "\<not> stopping c"
  shows "arm_step_until h t c = None"
proof -
  have "\<not> (asleep c \<and> cpu_cycles c < t \<and> t \<le> INT64_MAX \<and> \<not> stopping c)" if "until_loop h t c = Some y" for c y
  proof (rule until_loop.raw_induct [where P = "\<lambda>h t c y. \<not> (asleep c \<and> cpu_cycles c < t \<and> t \<le> INT64_MAX \<and> \<not> stopping c)", OF _ that])
    fix f :: "'a arm_run_scheme arm_host \<Rightarrow> int \<Rightarrow> 'a arm_run_scheme \<Rightarrow> 'a arm_run_scheme option" and h t c y
    assume IH: "\<And>h t c y. f h t c = Some y \<Longrightarrow> \<not> (asleep c \<and> cpu_cycles c < t \<and> t \<le> INT64_MAX \<and> \<not> stopping c)"
      and body: "(if cpu_cycles c < t \<and> \<not> stopping c \<and> \<not> dbg_halted c
         then case arm_step h (batch_size (t - cpu_cycles c)) (c\<lparr>stopping := False\<rparr>) of
                None \<Rightarrow> None | Some (_, c) \<Rightarrow> f h t (c\<lparr>stopping := False\<rparr>)
         else Some c) = Some y"
    show "\<not> (asleep c \<and> cpu_cycles c < t \<and> t \<le> INT64_MAX \<and> \<not> stopping c)"
    proof
      assume a: "asleep c \<and> cpu_cycles c < t \<and> t \<le> INT64_MAX \<and> \<not> stopping c"
      hence "asleep (c\<lparr>stopping := False\<rparr>)" by (simp add: asleep_def)
      from asleep_step [OF this _ batch_size_pos, of h "t - cpu_cycles c"] a
      have "arm_step h (batch_size (t - cpu_cycles c)) (c\<lparr>stopping := False\<rparr>)
        = Some (batch_size (t - cpu_cycles c), stamp_time (c\<lparr>stopping := False\<rparr>))" by simp
      moreover have "\<not> dbg_halted c" using a by (simp add: asleep_def)
      ultimately have "f h t ((stamp_time (c\<lparr>stopping := False\<rparr>))\<lparr>stopping := False\<rparr>) = Some y" using body a by simp
      from IH [OF this] asleep_stamp [OF \<open>asleep (c\<lparr>stopping := False\<rparr>)\<close>] a show False by simp
    qed
  qed
  moreover have "asleep (c\<lparr>cycle_limit := t\<rparr>)" using assms(1) by (simp add: asleep_def)
  ultimately have "until_loop h t (c\<lparr>cycle_limit := t\<rparr>) = None"
    using assms(2-4) by (cases "until_loop h t (c\<lparr>cycle_limit := t\<rparr>)") (force, force)
  thus ?thesis using assms(2) by (simp add: arm_step_until_def)
qed

lemma cdiv_within:
  assumes "0 \<le> n" "0 < (d :: int)"
  shows "0 \<le> cdiv n d" "cdiv n d * d \<le> n" "n < (cdiv n d + 1) * d"
proof -
  have c: "cdiv n d = n div d" using assms by simp
  have m: "0 \<le> n mod d" "n mod d < d" using assms by simp_all
  show "0 \<le> cdiv n d" using assms by (simp add: pos_imp_zdiv_nonneg_iff)
  show "cdiv n d * d \<le> n" "n < (cdiv n d + 1) * d"
    unfolding c distrib_right using div_mult_mod_eq [of n d] m by linarith+
qed

text \<open>
  The hint that a sleeping core gives its caller never oversleeps the next event, and, unless the event is
  so far away that the hint saturates, one microsecond more would reach past it.
\<close>

theorem wake_hint_safe:
  assumes "0 < wake_hint cpu"
  shows "cpu_off cpu \<and> wake_hint cpu * uint (cpu_freq_hz cpu) \<le> (next_event_cycle cpu - cpu_cycles cpu) * 1000000 \<and>
    (next_event_cycle cpu - cpu_cycles cpu \<le> 9223372036854 \<longrightarrow>
       (next_event_cycle cpu - cpu_cycles cpu) * 1000000 < (wake_hint cpu + 1) * uint (cpu_freq_hz cpu))"
proof -
  let ?lead = "next_event_cycle cpu - cpu_cycles cpu" and ?f = "uint (cpu_freq_hz cpu)"
  have g: "cpu_off cpu" "cpu_freq_hz cpu > 0" "0 < ?lead" using assms by (auto simp: wake_hint_def split: if_splits)
  have f: "0 < ?f" using g(2) by (simp add: word_less_def)
  have m: "cdiv INT64_MAX 1000000 = 9223372036854" by simp
  have h: "wake_hint cpu = (if ?lead > 9223372036854 then cdiv 9223372036854 ?f else cdiv (?lead * 1000000) ?f)"
    using assms g unfolding wake_hint_def Let_def m by (auto split: if_splits)
  show ?thesis
  proof (cases "?lead > 9223372036854")
    case True
    thus ?thesis using cdiv_within(2) [of 9223372036854 ?f] f g(1) h by simp
  next
    case False
    thus ?thesis using cdiv_within(2, 3) [of "?lead * 1000000" ?f] f g h by simp
  qed
qed

text \<open>
  On a part without the CC2538's ROM the trap addresses stay 0, and 0 is not treated as unarmed: a call through
  a null pointer runs the memcpy trap on whatever the argument registers hold and returns to the caller.
\<close>

theorem null_call_runs_memcpy:
  "(cfg_rom_size cfg = 0 \<longrightarrow> rom_util_memcpy (arm_cpu_init cfg nv) = 0) \<and>
   (rom_util_memcpy cpu = 0 \<and> reg cpu ARM_PC = 0 \<longrightarrow>
      arm_traps env 0 cpu = Some (return_to_lr (uint (reg cpu 2 + 3)) (copy_bytes env (unat (reg cpu 2)) (reg cpu 0) (reg cpu 1) cpu)))"
  by (auto simp: arm_cpu_init_def arm_traps_def handle_fw_trap_def handle_rom_trap_def Let_def split: option.splits)


subsection \<open>The 64-bit division trap\<close>

lemma pair64_split: "pair64 (hi32 v) (ucast v) = v"
proof (rule bit_word_eqI)
  fix i assume "i < LENGTH(64)"
  thus "bit (pair64 (hi32 v) (ucast v)) i = bit v i"
    unfolding pair64_def hi32_def bit_or_iff bit_push_bit_iff bit_ucast_iff bit_drop_bit_eq by (cases "i < 32") auto
qed

text \<open>
  The trap that stands for the firmware's 64-bit unsigned division leaves the quotient in r1:r0 and the
  remainder in r3:r2, both 0 for a zero divisor, and returns to the caller.
\<close>

theorem uldivmod_trap_correct:
  assumes "fw_aeabi_uldivmod cpu \<noteq> 0" "fw_udivmoddi4 cpu \<noteq> fw_aeabi_uldivmod cpu" "reg cpu ARM_PC = fw_aeabi_uldivmod cpu"
  shows "\<exists>c. arm_traps env (reg cpu ARM_PC) cpu = Some c \<and> reg c ARM_PC = reg cpu ARM_LR AND NOT 1 \<and>
    (let num = pair64 (reg cpu 1) (reg cpu 0); den = pair64 (reg cpu 3) (reg cpu 2);
         quot = pair64 (reg c 1) (reg c 0); rm = pair64 (reg c 3) (reg c 2)
     in if den = 0 then quot = 0 \<and> rm = 0
        else uint quot = uint num div uint den \<and> uint rm = uint num mod uint den)"
proof (intro exI conjI)
  show "arm_traps env (reg cpu ARM_PC) cpu = Some (trap_uldivmod cpu)"
    using assms by (simp add: arm_traps_def handle_fw_trap_def)
  obtain q r where qr: "udivmod64 cpu = (q, r)" by fastforce
  have c: "trap_uldivmod cpu = return_to_lr 20 (put_pair 3 2 r (put_pair 1 0 q cpu))" by (simp add: trap_uldivmod_def qr)
  show "reg (trap_uldivmod cpu) ARM_PC = reg cpu ARM_LR AND NOT 1"
    by (simp add: c return_to_lr_def charge_def put_pair_def set_reg_def)
  have regs: "pair64 (reg (trap_uldivmod cpu) 1) (reg (trap_uldivmod cpu) 0) = q" "pair64 (reg (trap_uldivmod cpu) 3) (reg (trap_uldivmod cpu) 2) = r"
    by (simp_all add: c return_to_lr_def charge_def put_pair_def set_reg_def pair64_split)
  show "let num = pair64 (reg cpu 1) (reg cpu 0); den = pair64 (reg cpu 3) (reg cpu 2);
         quot = pair64 (reg (trap_uldivmod cpu) 1) (reg (trap_uldivmod cpu) 0); rm = pair64 (reg (trap_uldivmod cpu) 3) (reg (trap_uldivmod cpu) 2)
     in if den = 0 then quot = 0 \<and> rm = 0
        else uint quot = uint num div uint den \<and> uint rm = uint num mod uint den"
    using qr unfolding Let_def regs by (auto simp: udivmod64_def Let_def uint_div_distrib uint_mod_distrib split: if_splits)
qed


subsection \<open>Concrete cores\<close>

text \<open>An nRF52840 after initialisation, with an idle interrupt controller, on a bus without peripherals.\<close>

definition nrf :: arm_run where
  "nrf = arm_cpu_init nrf52840_config (nvic m33)"

definition bare_host :: "'s arm_host" where
  "bare_host = \<lparr>h_env = bare_env, h_fpu = \<lparr>f_add = (+), f_sub = (-), f_mul = (*), f_div = (div), f_sqrt = id, f_of_int = word_of_int, f_to_int = sint\<rparr>,
     h_event = (\<lambda>_ s. s), reset_hook = id, pc_callback = (\<lambda>_ s. s)\<rparr>"

lemmas nrf_defs = nrf_def arm_cpu_init_def nrf52840_config_def m33_def

theorem it_flags_restored_witness:
  "xpsr (finish_it 0x4770 True 0x61000003 (arm_execute bare_host 0x4770 0x1000 (nrf\<lparr>it_state := 0x08, xpsr := 0x61000003\<rparr>))) AND 0xF0000000
   = 0x60000000"
proof -
  have "in_it (nrf\<lparr>it_state := 0x08, xpsr := 0x61000003\<rparr>)" "fld 0x4770 11 5 < 0x1D" "\<not> sets_flags_in_it 0x4770"
    by (simp_all add: in_it_def fld_def sets_flags_in_it_def)
  from it_flags_restored [OF this, of bare_host "0x1000"] show ?thesis by (simp add: in_it_def)
qed

theorem it_return_clobbers_context_witness:
  "let cpu = nrf\<lparr>it_state := 0x08, xpsr := 0x61000003, reg := (\<lambda>_. 0)(ARM_LR := 0xFFFFFFF9, ARM_SP := 0x20001000)\<rparr>;
       r = exception_return bare_env 0xFFFFFFF9 (charge 1 (set_reg ARM_PC 0x1002 cpu))
   in finish_it 0x4770 True (xpsr cpu) (arm_execute bare_host 0x4770 0x1000 cpu) =
      (restore_flags 0x61000003 r)\<lparr>it_state := it_advance (it_state r), instructions := instructions r + 1\<rparr>"
proof -
  let ?cpu = "nrf\<lparr>it_state := 0x08, xpsr := 0x61000003, reg := (\<lambda>_. 0)(ARM_LR := 0xFFFFFFF9, ARM_SP := 0x20001000)\<rparr>"
  have "in_it ?cpu" "\<not> tz_enabled ?cpu" "reg ?cpu ARM_LR AND 0xF0000000 = 0xF0000000"
    by (simp_all add: in_it_def nrf_defs)
  from it_return_clobbers_context [OF this refl, of bare_host "0x1000"] show ?thesis
    by (simp add: Let_def in_it_def bare_host_def)
qed

theorem nonsecure_fetch_gate_witness:
  "\<exists>c. fetch_check bare_env 0x20020004 m33 = (True, c) \<and> arm_security_attr bare_env m33 0x2002001F = ARM_SEC_NONSECURE
     \<and> fetch_window_clean bare_env m33 (fetch_ok_base c) (fetch_ok_len c)"
proof -
  have a: "arm_security_attr bare_env m33 0x20020004 = ARM_SEC_NONSECURE"
    by (simp add: arm_security_attr_def sau_check_spec m33_covering m33_fields m33_fields(4) [simplified] bare_idau arm_idau_check_default_def)
  obtain b len where "arm_sau_uniform_window m33 0x20020004 = (b, len)" by fastforce
  hence c: "fetch_check bare_env 0x20020004 m33 = (True, m33\<lparr>fetch_ok_base := b, fetch_ok_len := len\<rparr>)"
    by (simp add: fetch_check_def a m33_fields) (simp add: m33_def)
  have "fetch_window_clean bare_env m33 (fetch_ok_base m33) (fetch_ok_len m33)" by (simp add: fetch_window_clean_def m33_def)
  moreover have "idau_result bare_env m33 x = idau_result bare_env m33 y" for x y by (simp add: bare_idau arm_idau_check_default_def)
  moreover have "drop_bit 5 (0x2002001F :: u32) = drop_bit 5 0x20020004" by (simp add: drop_bit_eq_div)
  ultimately have "arm_security_attr bare_env m33 0x2002001F = ARM_SEC_NONSECURE \<and> fetch_window_clean bare_env m33 b len"
    using nonsecure_fetch_gate [OF m33_fields(1, 2) _ _ c] a by simp
  with c show ?thesis by fastforce
qed

text \<open>A sleeping core whose next event is beyond the target, and one with no event at all.\<close>

definition dozing :: arm_run where
  "dozing = nrf\<lparr>cpu_off := True, ev_queue := [\<lparr>ev_obj = 0, fire_cycle = 6400, fire_ns = 0\<rparr>], next_event_cycle := 6400\<rparr>"

theorem arm_step_until_reaches_witness:
  "\<exists>y. arm_step_until bare_host 50 dozing = Some y \<and> 50 \<le> cpu_cycles y \<and> cpu_cycles y < next_event_cycle y"
proof -
  let ?c = "sleep_until 50 (dozing\<lparr>cycle_limit := 50\<rparr>)"
  let ?d = "(stamp_time ?c)\<lparr>stopping := False\<rparr>"
  have "arm_iteration bare_host (dozing\<lparr>cycle_limit := 50\<rparr>) = Some (Break 0 ?c)"
    by (simp add: arm_iteration_def arm_idle_def dozing_def nrf_defs)
  hence "arm_step bare_host (batch_size 50) (dozing\<lparr>cycle_limit := 50\<rparr>) = Some (batch_size 50, stamp_time ?c)"
    by (simp add: arm_step_def arm_step_interpreter_def arm_loop.simps batch_size_pos) (simp add: dozing_def nrf_defs)
  hence "until_loop bare_host 50 (dozing\<lparr>cycle_limit := 50\<rparr>) = until_loop bare_host 50 ?d"
    by (subst until_loop.simps) (simp add: dozing_def nrf_defs)
  also have "\<dots> = Some ?d" by (subst until_loop.simps) (simp add: sleep_until_def stamp_time_def)
  finally have u: "until_loop bare_host 50 (dozing\<lparr>cycle_limit := 50\<rparr>) = Some ?d" .
  have "drain_events bare_host ?d = Some ?d"
    by (subst drain_events.simps) (simp add: sleep_until_def stamp_time_def dozing_def nrf_defs)
  hence r: "arm_step_until bare_host 50 dozing = Some (stamp_time (?d\<lparr>cycle_limit := INT64_MAX\<rparr>))"
    by (simp add: arm_step_until_def u) (simp add: dozing_def nrf_defs)
  have "cpu_cycles dozing < 50" "\<not> stopping dozing" "cpu_cycles s \<le> cpu_cycles (h_event bare_host ev s)"
    "\<not> dbg_halted (stamp_time (?d\<lparr>cycle_limit := INT64_MAX\<rparr>))" for s :: arm_run and ev
    by (simp_all add: dozing_def nrf_defs bare_host_def stamp_time_def sleep_until_def)
  from arm_step_until_reaches [OF this(1-3) r this(4)] r show ?thesis by blast
qed

theorem arm_doze_reaches_target_witness:
  "map_option (\<lambda>y. (cpu_cycles y, lpm_ns y, cpu_off y)) (arm_step_until bare_host 50 dozing) = Some (50, 781, True)"
proof -
  have "dozes_until 6400 dozing" "cpu_cycles dozing < 50" "(50 :: int) < 6400"
    by (simp_all add: dozes_until_def dozing_def nrf_defs)
  from arm_doze_reaches_target [OF this, of bare_host] show ?thesis
    by (auto simp: dozing_def nrf_defs cpu_cycles_to_ns_def)
qed

theorem arm_sleep_livelock_witness:
  "arm_step_until bare_host 50 (nrf\<lparr>cpu_off := True\<rparr>) = None"
  by (rule arm_sleep_livelock) (simp_all add: asleep_def nrf_defs)

theorem wake_hint_safe_witness:
  "wake_hint dozing = 100 \<and> 100 * 64000000 \<le> (next_event_cycle dozing - cpu_cycles dozing) * 1000000"
proof -
  have "wake_hint dozing = 100" by (simp add: wake_hint_def dozing_def nrf_defs)
  moreover have "uint (cpu_freq_hz dozing) = 64000000" by (simp add: dozing_def nrf_defs)
  ultimately show ?thesis using wake_hint_safe [of dozing] by simp
qed

theorem null_call_runs_memcpy_witness:
  "arm_traps bare_env 0 (nrf\<lparr>reg := (\<lambda>_. 0)(0 := 0x20000000, 1 := 0x100, 2 := 1, ARM_LR := 0x801)\<rparr>) =
     Some (return_to_lr 4 (copy_bytes bare_env 1 0x20000000 0x100 (nrf\<lparr>reg := (\<lambda>_. 0)(0 := 0x20000000, 1 := 0x100, 2 := 1, ARM_LR := 0x801)\<rparr>)))"
proof -
  let ?cpu = "nrf\<lparr>reg := (\<lambda>_. 0)(0 := 0x20000000, 1 := 0x100, 2 := 1, ARM_LR := 0x801)\<rparr>"
  have "rom_util_memcpy ?cpu = 0 \<and> reg ?cpu ARM_PC = 0"
    using null_call_runs_memcpy [of nrf52840_config "nvic m33", THEN conjunct1] by (simp add: nrf_def nrf52840_config_def)
  with null_call_runs_memcpy [of nrf52840_config "nvic m33" ?cpu bare_env] show ?thesis by simp
qed

theorem uldivmod_trap_correct_witness:
  "\<exists>c. arm_traps bare_env 0x4000 (nrf\<lparr>fw_aeabi_uldivmod := 0x4000, reg := (\<lambda>_. 0)(0 := 17, 2 := 5, ARM_PC := 0x4000)\<rparr>) = Some c \<and>
     uint (pair64 (reg c 1) (reg c 0)) = 3 \<and> uint (pair64 (reg c 3) (reg c 2)) = 2"
proof -
  let ?cpu = "nrf\<lparr>fw_aeabi_uldivmod := 0x4000, reg := (\<lambda>_. 0)(0 := 17, 2 := 5, ARM_PC := 0x4000)\<rparr>"
  have "fw_aeabi_uldivmod ?cpu \<noteq> 0" "fw_udivmoddi4 ?cpu \<noteq> fw_aeabi_uldivmod ?cpu" "reg ?cpu ARM_PC = fw_aeabi_uldivmod ?cpu"
    by (simp_all add: nrf_defs)
  from uldivmod_trap_correct [OF this, of bare_env] show ?thesis by (auto simp: pair64_def Let_def)
qed

end
