(* ===== verification/Msp430_Core.thy ===== *)
theory Msp430_Core
  imports Cpu_Events
begin

text \<open>
  State, memory accesses and interrupts of the MSP430 emulator (\<open>src/msp430/msp430_cpu.c\<close>,
  \<open>include/msp430/msp430_cpu.h\<close>). The 20-bit registers are 32-bit words as in the source. A peripheral
  callback is named by a number, which stands for the function and its user data; 0 is the null
  pointer of an interrupt source. The callbacks themselves are the parameter \<open>msp430_host\<close>,
  functions on the whole state. Of a compiled block the cache keeps its address range and
  instruction count; the machine code is part of the parameter.
\<close>

subsection \<open>State\<close>

record msp430_config =
  cfg_is_msp430x :: bool
  cfg_max_mem :: u32
  cfg_max_mem_io :: u32
  cfg_max_interrupt :: nat
  ram_start :: u32
  ram_mirror_start :: u32
  ram_mirror_size :: u32

record compiled_block =
  cb_start_pc :: u32
  cb_end_pc :: u32
  cb_length :: int

record msp430_cpu = cpu_clock +
  reg :: "nat \<Rightarrow> u32"
  instructions :: int
  memory :: "u32 \<Rightarrow> u8"
  max_mem :: u32
  interrupt_max :: int
  serviced_interrupt :: int
  interrupts_enabled :: bool
  cpu_off :: bool
  stopping :: bool
  lpm_ns :: int
  interrupt_handler :: "nat \<Rightarrow> nat option"
  interrupt_source :: "nat \<Rightarrow> nat"
  io_read :: "u32 \<Rightarrow> nat option"
  io_write :: "u32 \<Rightarrow> nat option"
  max_mem_io :: u32
  cycle_limit :: int
  last_execute_us :: int
  last_micros_cycles :: int
  last_micros_delta :: int
  micro_clock_ready :: bool
  config :: msp430_config
  is_msp430x :: bool
  max_interrupt :: nat
  last_pc :: u32
  last_instruction :: u16
  ext_word :: u16
  cache_size :: u32
  has_jit :: bool
  compiled_cache :: "u32 \<Rightarrow> compiled_block option"
  block_exec_count :: "u32 \<Rightarrow> int"
  jit_threshold :: int

record 's msp430_host =
  m_read :: "nat \<Rightarrow> u32 \<Rightarrow> bool \<Rightarrow> 's \<Rightarrow> u32 \<times> 's"
  m_write :: "nat \<Rightarrow> u32 \<Rightarrow> u32 \<Rightarrow> bool \<Rightarrow> 's \<Rightarrow> 's"
  m_irq :: "nat \<Rightarrow> nat \<Rightarrow> nat \<Rightarrow> 's \<Rightarrow> 's"
  m_event :: "nat \<Rightarrow> 's \<Rightarrow> 's"

abbreviation MSP430_PC :: nat where "MSP430_PC \<equiv> 0"
abbreviation MSP430_SP :: nat where "MSP430_SP \<equiv> 1"
abbreviation MSP430_SR :: nat where "MSP430_SR \<equiv> 2"
abbreviation MSP430_CG1 :: nat where "MSP430_CG1 \<equiv> 2"
abbreviation MSP430_CG2 :: nat where "MSP430_CG2 \<equiv> 3"

abbreviation SR_C :: u32 where "SR_C \<equiv> 0x0001"
abbreviation SR_Z :: u32 where "SR_Z \<equiv> 0x0002"
abbreviation SR_N :: u32 where "SR_N \<equiv> 0x0004"
abbreviation SR_GIE :: u32 where "SR_GIE \<equiv> 0x0008"
abbreviation SR_CPUOFF :: u32 where "SR_CPUOFF \<equiv> 0x0010"
abbreviation SR_V :: u32 where "SR_V \<equiv> 0x0100"

definition put_reg :: "nat \<Rightarrow> u32 \<Rightarrow> 'a msp430_cpu_scheme \<Rightarrow> 'a msp430_cpu_scheme" where
  "put_reg i v cpu = cpu\<lparr>reg := (reg cpu)(i := v)\<rparr>"

definition spend :: "int \<Rightarrow> 'a cpu_clock_scheme \<Rightarrow> 'a cpu_clock_scheme" where
  "spend n c = c\<lparr>cpu_cycles := cpu_cycles c + n\<rparr>"

subsection \<open>Memory\<close>

definition read_word :: "'a msp430_cpu_scheme \<Rightarrow> u32 \<Rightarrow> u16" where
  "read_word cpu a = ucast (memory cpu a) OR push_bit 8 (ucast (memory cpu (a + 1)))"

definition write_word :: "u32 \<Rightarrow> u16 \<Rightarrow> 'a msp430_cpu_scheme \<Rightarrow> 'a msp430_cpu_scheme" where
  "write_word a v cpu =
     cpu\<lparr>memory := (memory cpu)(a := ucast (v AND 0xff), a + 1 := ucast (drop_bit 8 v AND 0xff))\<rparr>"

definition resolve_mirror :: "'a msp430_cpu_scheme \<Rightarrow> u32 \<Rightarrow> u32" where
  "resolve_mirror cpu a =
     (let cfg = config cpu in
      if ram_mirror_size cfg \<noteq> 0 \<and> a \<ge> ram_mirror_start cfg \<and> a < ram_mirror_start cfg + ram_mirror_size cfg
      then ram_start cfg + (a - ram_mirror_start cfg) else a)"

definition mem_read ::
  "'a msp430_cpu_scheme msp430_host \<Rightarrow> u32 \<Rightarrow> bool \<Rightarrow> 'a msp430_cpu_scheme \<Rightarrow> u32 \<times> 'a msp430_cpu_scheme" where
  "mem_read h a word cpu =
     (case (if a < max_mem_io cpu then io_read cpu a else None) of
        Some f \<Rightarrow> m_read h f a word cpu
      | None \<Rightarrow>
          let a = resolve_mirror cpu a in
          (if a \<ge> max_mem cpu then 0 else if word then ucast (read_word cpu a) else ucast (memory cpu a), cpu))"

text \<open>
  A store drops the compiled blocks that cover the written word. \<open>MAX_BLOCK_SIZE\<close> instructions of
  6 bytes is the reach of a block.
\<close>

abbreviation MAX_BLOCK_SIZE :: nat where "MAX_BLOCK_SIZE \<equiv> 32"

definition cache_lo :: "u32 \<Rightarrow> u32" where
  "cache_lo a = (let reach = 192 in if a \<ge> reach then drop_bit 1 (a - reach) else 0)"

definition cache_hi :: "u32 \<Rightarrow> 'a msp430_cpu_scheme \<Rightarrow> u32" where
  "cache_hi a cpu = (let hi = drop_bit 1 (a + 2) in if hi \<ge> cache_size cpu then cache_size cpu - 1 else hi)"

definition covers_write :: "u32 \<Rightarrow> compiled_block \<Rightarrow> bool" where
  "covers_write a cb \<longleftrightarrow> cb_end_pc cb > a \<and> cb_start_pc cb \<le> a + 1"

definition dropped :: "u32 \<Rightarrow> 'a msp430_cpu_scheme \<Rightarrow> u32 \<Rightarrow> bool" where
  "dropped a cpu i \<longleftrightarrow> cache_lo a \<le> i \<and> i \<le> cache_hi a cpu \<and>
     (case compiled_cache cpu i of None \<Rightarrow> False | Some cb \<Rightarrow> covers_write a cb)"

definition cache_invalidate :: "u32 \<Rightarrow> 'a msp430_cpu_scheme \<Rightarrow> 'a msp430_cpu_scheme" where
  "cache_invalidate a cpu =
     (if \<not> has_jit cpu then cpu
      else cpu\<lparr>compiled_cache := (\<lambda>i. if dropped a cpu i then None else compiled_cache cpu i),
               block_exec_count := (\<lambda>i. if dropped a cpu i then 0 else block_exec_count cpu i)\<rparr>)"

definition mem_write ::
  "'a msp430_cpu_scheme msp430_host \<Rightarrow> u32 \<Rightarrow> u32 \<Rightarrow> bool \<Rightarrow> 'a msp430_cpu_scheme \<Rightarrow> 'a msp430_cpu_scheme" where
  "mem_write h a v word cpu =
     (case (if a < max_mem_io cpu then io_write cpu a else None) of
        Some f \<Rightarrow> m_write h f a v word cpu
      | None \<Rightarrow>
          let a = resolve_mirror cpu a in
          if a \<ge> max_mem cpu then cpu
          else cache_invalidate a
                 (if word then write_word a (ucast v) cpu else cpu\<lparr>memory := (memory cpu)(a := ucast (v AND 0xff))\<rparr>))"

text \<open>The three access modes: byte, word and 20-bit address.\<close>

definition mem_read_20 ::
  "'a msp430_cpu_scheme msp430_host \<Rightarrow> u32 \<Rightarrow> 'a msp430_cpu_scheme \<Rightarrow> u32 \<times> 'a msp430_cpu_scheme" where
  "mem_read_20 h a cpu =
     (let (lo, cpu) = mem_read h a True cpu; (hi, cpu) = mem_read h (a + 2) True cpu
      in (lo OR push_bit 16 (hi AND 0xf), cpu))"

definition mem_write_20 ::
  "'a msp430_cpu_scheme msp430_host \<Rightarrow> u32 \<Rightarrow> u32 \<Rightarrow> 'a msp430_cpu_scheme \<Rightarrow> 'a msp430_cpu_scheme" where
  "mem_write_20 h a v cpu =
     mem_write h (a + 2) (drop_bit 16 v AND 0xf) True (mem_write h a (v AND 0xffff) True cpu)"

subsection \<open>Registration\<close>

definition msp430_register_io ::
  "u32 \<Rightarrow> u32 \<Rightarrow> nat option \<Rightarrow> nat option \<Rightarrow> 'a msp430_cpu_scheme \<Rightarrow> 'a msp430_cpu_scheme" where
  "msp430_register_io a sz rd wr cpu =
     cpu\<lparr>io_read := (\<lambda>x. if x - a < sz \<and> x < max_mem_io cpu then rd else io_read cpu x),
         io_write := (\<lambda>x. if x - a < sz \<and> x < max_mem_io cpu then wr else io_write cpu x)\<rparr>"

subsection \<open>Interrupts\<close>

text \<open>The highest pending vector, by a scan of the whole table.\<close>

definition irq_pending :: "'a msp430_cpu_scheme \<Rightarrow> nat \<Rightarrow> bool" where
  "irq_pending cpu i \<longleftrightarrow> interrupt_source cpu i \<noteq> 0 \<or> interrupt_handler cpu i \<noteq> None"

definition reevaluate_interrupts :: "'a msp430_cpu_scheme \<Rightarrow> 'a msp430_cpu_scheme" where
  "reevaluate_interrupts cpu =
     cpu\<lparr>interrupt_max := fold (\<lambda>i m. if irq_pending cpu i then int i else m) [0..<max_interrupt cpu + 1] (-1)\<rparr>"

definition msp430_flag_interrupt ::
  "nat \<Rightarrow> nat \<Rightarrow> nat option \<Rightarrow> bool \<Rightarrow> 'a msp430_cpu_scheme \<Rightarrow> 'a msp430_cpu_scheme" where
  "msp430_flag_interrupt vector source handler on cpu =
     (if on then
        let cpu = cpu\<lparr>interrupt_source := (interrupt_source cpu)(vector := if source \<noteq> 0 then source else 1),
                      interrupt_handler := (interrupt_handler cpu)(vector := handler),
                      interrupt_max := (if int vector > interrupt_max cpu then int vector else interrupt_max cpu)\<rparr>
        in if vector = max_interrupt cpu then cpu\<lparr>interrupts_enabled := True, serviced_interrupt := -1\<rparr> else cpu
      else reevaluate_interrupts
             (cpu\<lparr>interrupt_source := (interrupt_source cpu)(vector := 0),
                  interrupt_handler := (interrupt_handler cpu)(vector := None)\<rparr>))"

definition push_return :: "'a msp430_cpu_scheme msp430_host \<Rightarrow> u32 \<Rightarrow> 'a msp430_cpu_scheme \<Rightarrow> 'a msp430_cpu_scheme" where
  "push_return h ip cpu =
     (let sp = reg cpu MSP430_SP; sr = reg cpu MSP430_SR;
          cpu = mem_write h (sp - 2) (ip AND 0xffff) True (put_reg MSP430_SP (sp - 2) cpu)
      in mem_write h (sp - 4) ((sr AND 0x0fff) OR drop_bit 4 (ip AND 0xf0000)) True (put_reg MSP430_SP (sp - 4) cpu))"

definition no_interrupts :: "'a msp430_cpu_scheme \<Rightarrow> 'a msp430_cpu_scheme" where
  "no_interrupts cpu =
     cpu\<lparr>interrupt_source := (\<lambda>i. if i \<le> max_interrupt cpu then 0 else interrupt_source cpu i),
         interrupt_handler := (\<lambda>i. if i \<le> max_interrupt cpu then None else interrupt_handler cpu i),
         interrupt_max := -1, serviced_interrupt := -1\<rparr>"

text \<open>Called with \<open>interrupt_max \<ge> 0\<close>; the vector is that of the call, whatever the pushes do.\<close>

definition service_interrupt ::
  "'a msp430_cpu_scheme msp430_host \<Rightarrow> u32 \<Rightarrow> 'a msp430_cpu_scheme \<Rightarrow> 'a msp430_cpu_scheme" where
  "service_interrupt h ip cpu =
     (let top_vec = max_interrupt cpu; vec = nat (interrupt_max cpu);
          cpu = (if vec < top_vec then push_return h ip cpu else cpu);
          cpu = (put_reg MSP430_SR 0 cpu)\<lparr>interrupts_enabled := False, cpu_off := False\<rparr>;
          target = ucast (read_word cpu (0xfffe - of_nat (top_vec - vec) * 2));
          cpu = (put_reg MSP430_PC target cpu)\<lparr>serviced_interrupt := int vec\<rparr>;
          handler = interrupt_handler cpu vec; source = interrupt_source cpu vec;
          cpu = reevaluate_interrupts
                  (cpu\<lparr>interrupt_source := (interrupt_source cpu)(vec := 0), interrupt_handler := (interrupt_handler cpu)(vec := None)\<rparr>);
          cpu = (if vec = top_vec then (no_interrupts cpu)\<lparr>ev_queue := [], next_event_cycle := INT64_MAX\<rparr> else cpu);
          cpu = spend 6 cpu
      in case handler of None \<Rightarrow> cpu | Some f \<Rightarrow> m_irq h f source vec cpu)"

subsection \<open>Status register\<close>

definition handle_pending_interrupts :: "'a msp430_cpu_scheme \<Rightarrow> 'a msp430_cpu_scheme" where
  "handle_pending_interrupts cpu = (reevaluate_interrupts cpu)\<lparr>serviced_interrupt := -1\<rparr>"

definition write_sr :: "u32 \<Rightarrow> 'a msp430_cpu_scheme \<Rightarrow> 'a msp430_cpu_scheme" where
  "write_sr v cpu =
     (let c = (put_reg MSP430_SR v cpu)\<lparr>interrupts_enabled := v AND SR_GIE \<noteq> 0, cpu_off := v AND SR_CPUOFF \<noteq> 0\<rparr>
      in if \<not> interrupts_enabled cpu \<and> interrupts_enabled c \<and> serviced_interrupt c \<ge> 0
         then handle_pending_interrupts c else c)"

definition write_sr_flags :: "u32 \<Rightarrow> 'a msp430_cpu_scheme \<Rightarrow> 'a msp430_cpu_scheme" where
  "write_sr_flags v cpu = put_reg MSP430_SR v cpu"

subsection \<open>Initialisation and reset\<close>

definition msp430_cpu_init :: "bool \<Rightarrow> msp430_config \<Rightarrow> msp430_cpu" where
  "msp430_cpu_init lightning cfg =
     \<lparr>cpu_cycles = 0, ev_queue = [], next_event_cycle = INT64_MAX, sim_time_ns = 0, cpu_freq_hz = 0, anchor_cycles = 0,
      anchor_sim_time_ns = 0, reg = (\<lambda>_. 0), instructions = 0, memory = (\<lambda>_. 0), max_mem = cfg_max_mem cfg, interrupt_max = -1,
      serviced_interrupt = -1, interrupts_enabled = False, cpu_off = False, stopping = False, lpm_ns = 0,
      interrupt_handler = (\<lambda>_. None), interrupt_source = (\<lambda>_. 0), io_read = (\<lambda>_. None), io_write = (\<lambda>_. None),
      max_mem_io = cfg_max_mem_io cfg, cycle_limit = INT64_MAX, last_execute_us = -1, last_micros_cycles = 0,
      last_micros_delta = 0, micro_clock_ready = False, config = cfg, is_msp430x = cfg_is_msp430x cfg,
      max_interrupt = cfg_max_interrupt cfg, last_pc = 0, last_instruction = 0, ext_word = 0,
      cache_size = drop_bit 1 (cfg_max_mem cfg), has_jit = (lightning \<and> \<not> cfg_is_msp430x cfg),
      compiled_cache = (\<lambda>_. None), block_exec_count = (\<lambda>_. 0), jit_threshold = 100\<rparr>"

definition cache_clear_all :: "'a msp430_cpu_scheme \<Rightarrow> 'a msp430_cpu_scheme" where
  "cache_clear_all cpu =
     (if has_jit cpu
      then cpu\<lparr>compiled_cache := (\<lambda>i. if i < cache_size cpu then None else compiled_cache cpu i),
               block_exec_count := (\<lambda>i. if i < cache_size cpu then 0 else block_exec_count cpu i)\<rparr>
      else cpu)"

definition msp430_cpu_reset :: "'a msp430_cpu_scheme \<Rightarrow> 'a msp430_cpu_scheme" where
  "msp430_cpu_reset cpu =
     msp430_flag_interrupt (max_interrupt cpu) 0 None True
       (cache_clear_all
         ((no_interrupts cpu)\<lparr>reg := (\<lambda>_. 0), interrupts_enabled := False, cpu_off := False, stopping := False,
            ev_queue := [], next_event_cycle := INT64_MAX, last_execute_us := -1, ext_word := 0\<rparr>))"

definition msp430_stop :: "'a msp430_cpu_scheme \<Rightarrow> 'a msp430_cpu_scheme" where
  "msp430_stop cpu = cpu\<lparr>stopping := True\<rparr>"

end
