(* ===== verification/Msp430_Exec.thy ===== *)
theory Msp430_Exec
  imports Msp430_Core
begin

text \<open>
  The instruction handlers of \<open>msp430_step_interpreter\<close> (\<open>src/msp430/msp430_cpu.c\<close>): two-operand,
  single-operand and jump formats, the extension word of the MSP430X with its repeat count, and the
  20-bit instructions. Intermediate \<open>int\<close> values are 32-bit words; -1 is the source's "no address".
\<close>

subsection \<open>Fields and widths\<close>

definition bits_of :: "u16 \<Rightarrow> nat \<Rightarrow> nat \<Rightarrow> nat" where
  "bits_of w lo n = unat (take_bit n (drop_bit lo w))"

definition cg1_value :: "nat \<Rightarrow> u32" where
  "cg1_value as = (if as = 2 then 4 else if as = 3 then 8 else 0)"

definition cg2_value :: "nat \<Rightarrow> u32" where
  "cg2_value as = (if as = 0 then 0 else if as = 1 then 1 else if as = 2 then 2 else 0xFFFF)"

definition op_mask :: "bool \<Rightarrow> bool \<Rightarrow> u32" where
  "op_mask is_addr bw = (if is_addr then 0xfffff else if bw then 0xff else 0xffff)"

definition op_msb :: "bool \<Rightarrow> bool \<Rightarrow> u32" where
  "op_msb is_addr bw = (if is_addr then 0x80000 else if bw then 0x80 else 0x8000)"

definition op_bytes :: "bool \<Rightarrow> bool \<Rightarrow> u32" where
  "op_bytes is_addr bw = (if is_addr then 4 else if bw then 1 else 2)"

definition flag_if :: "bool \<Rightarrow> u32 \<Rightarrow> u32" where
  "flag_if b v = (if b then v else 0)"

definition nz_flags :: "u32 \<Rightarrow> u32 \<Rightarrow> u32 \<Rightarrow> u32" where
  "nz_flags sr v msb = (sr AND NOT (SR_Z OR SR_N)) OR flag_if (v = 0) SR_Z OR flag_if (v AND msb \<noteq> 0) SR_N"

subsection \<open>Operands\<close>

definition abs_address :: "bool \<Rightarrow> u32 \<Rightarrow> u16 \<Rightarrow> u32" where
  "abs_address ext hi w = (if ext then (push_bit 16 hi OR ucast w) AND 0xfffff else ucast w)"

definition indexed_address :: "bool \<Rightarrow> u32 \<Rightarrow> u32 \<Rightarrow> u16 \<Rightarrow> u32" where
  "indexed_address ext hi rval w =
     (if ext then (rval + ((push_bit 16 hi OR ucast w) AND 0xfffff)) AND 0xfffff
      else if rval \<le> 0xffff then (rval + scast w) AND 0xffff
      else (rval + scast w) AND 0xfffff)"

definition operand_address :: "bool \<Rightarrow> u32 \<Rightarrow> nat \<Rightarrow> u16 \<Rightarrow> 'a msp430_cpu_scheme \<Rightarrow> u32" where
  "operand_address ext hi r w cpu =
     (if r = MSP430_SR then abs_address ext hi w else indexed_address ext hi (reg cpu r) w)"

definition read_operand ::
  "'a msp430_cpu_scheme msp430_host \<Rightarrow> bool \<Rightarrow> bool \<Rightarrow> u32 \<Rightarrow> 'a msp430_cpu_scheme \<Rightarrow> u32 \<times> 'a msp430_cpu_scheme" where
  "read_operand h is_addr bw a cpu =
     (if is_addr then let (v, cpu) = mem_read_20 h a cpu in (v AND 0xfffff, cpu)
      else let (v, cpu) = mem_read h a (\<not> bw) cpu in (if bw then v AND 0xff else v, cpu))"

definition write_operand ::
  "'a msp430_cpu_scheme msp430_host \<Rightarrow> bool \<Rightarrow> bool \<Rightarrow> u32 \<Rightarrow> u32 \<Rightarrow> 'a msp430_cpu_scheme \<Rightarrow> 'a msp430_cpu_scheme" where
  "write_operand h is_addr bw a v cpu = (if is_addr then mem_write_20 h a v cpu else mem_write h a v (\<not> bw) cpu)"

subsection \<open>Decimal addition\<close>

fun bcd_digits :: "nat \<Rightarrow> nat \<Rightarrow> u32 \<Rightarrow> u32 \<Rightarrow> nat \<Rightarrow> u32 \<Rightarrow> u32 \<times> nat" where
  "bcd_digits i 0 dst src carry acc = (acc, carry)"
| "bcd_digits i (Suc n) dst src carry acc =
     (let digit = unat (take_bit 4 (drop_bit (4 * i) dst)) + unat (take_bit 4 (drop_bit (4 * i) src)) + carry;
          (digit, carry) = (if digit > 9 then (digit + 6, 1) else (digit, 0))
      in bcd_digits (Suc i) n dst src carry (acc OR push_bit (4 * i) (take_bit 4 (of_nat digit))))"

fun nibble_count :: "nat \<Rightarrow> u32 \<Rightarrow> nat" where
  "nibble_count 0 m = 0"
| "nibble_count (Suc n) m = (if m = 0 then 0 else Suc (nibble_count n (drop_bit 4 m)))"

text \<open>The mask has at most eight digits, so the counting loop ends within eight rounds.\<close>

definition msp430_dadd_bcd :: "u32 \<Rightarrow> u32 \<Rightarrow> u32 \<Rightarrow> u32 \<Rightarrow> u32 \<times> u32" where
  "msp430_dadd_bcd dst src msk sr =
     (let (r, carry) = bcd_digits 0 (nibble_count 8 msk) dst src (if sr AND SR_C \<noteq> 0 then 1 else 0) 0
      in (r AND msk, (sr AND NOT (SR_C OR SR_V)) OR flag_if (carry \<noteq> 0) SR_C))"

subsection \<open>Two-operand arithmetic\<close>

text \<open>
  The result, the status register that is written back, the source as the operation leaves it, and
  whether the result is written and the flags are set. \<open>MOV\<close>, \<open>BIC\<close> and \<open>BIS\<close> write no flags.
\<close>

definition writes_result :: "nat \<Rightarrow> bool" where
  "writes_result op \<longleftrightarrow> op \<noteq> 0x9 \<and> op \<noteq> 0xb"

definition sets_flags :: "nat \<Rightarrow> bool" where
  "sets_flags op \<longleftrightarrow> op \<noteq> 0x4 \<and> op \<noteq> 0xc \<and> op \<noteq> 0xd"

definition alu_add :: "u32 \<Rightarrow> u32 \<Rightarrow> u32 \<Rightarrow> u32 \<Rightarrow> u32 \<Rightarrow> u32 \<Rightarrow> u32 \<times> u32" where
  "alu_add src dst carry msk msb sr =
     (let r = dst + src + carry
      in (r, (sr AND NOT (SR_V OR SR_C)) OR flag_if (r > msk) SR_C
               OR flag_if ((src XOR dst) AND msb = 0 \<and> (src XOR r) AND msb \<noteq> 0) SR_V))"

definition carry_bit :: "u32 \<Rightarrow> u32" where
  "carry_bit sr = (if sr AND SR_C \<noteq> 0 then 1 else 0)"

definition alu :: "nat \<Rightarrow> u32 \<Rightarrow> u32 \<Rightarrow> u32 \<Rightarrow> u32 \<Rightarrow> u32 \<Rightarrow> u32 \<times> u32 \<times> u32" where
  "alu op src dst msk msb sr =
     (let inv = (src XOR 0xffff) AND 0xffff; clr = sr AND NOT (SR_C OR SR_V) in
      if op = 0x4 then (src, sr, src)
      else if op = 0x5 then (let (r, s) = alu_add src dst 0 msk msb sr in (r, s, src))
      else if op = 0x6 then (let (r, s) = alu_add src dst (carry_bit sr) msk msb sr in (r, s, src))
      else if op = 0x7 then (let (r, s) = alu_add inv dst (carry_bit sr) msk msb sr in (r, s, inv))
      else if op = 0x8 then (let (r, s) = alu_add inv dst 1 msk msb sr in (r, s, inv))
      else if op = 0x9 then
        (dst - src, clr OR flag_if (dst \<ge> src) SR_C
           OR flag_if ((src XOR (dst - src)) AND msb = 0 \<and> (src XOR dst) AND msb \<noteq> 0) SR_V, src)
      else if op = 0xa then (let (r, s) = msp430_dadd_bcd dst src msk sr in (r, s, src))
      else if op = 0xb then (src AND dst, clr OR flag_if (src AND dst \<noteq> 0) SR_C, src)
      else if op = 0xc then (NOT src AND dst, sr, src)
      else if op = 0xd then (src OR dst, sr, src)
      else if op = 0xe then
        (src XOR dst, clr OR flag_if (src AND msb \<noteq> 0 \<and> dst AND msb \<noteq> 0) SR_V OR flag_if (src XOR dst \<noteq> 0) SR_C, src)
      else (src AND dst, clr OR flag_if (src AND dst \<noteq> 0) SR_C, src))"

definition put_result ::
  "'a msp430_cpu_scheme msp430_host \<Rightarrow> bool \<Rightarrow> bool \<Rightarrow> bool \<Rightarrow> nat \<Rightarrow> u32 \<Rightarrow> u32 \<Rightarrow> 'a msp430_cpu_scheme \<Rightarrow> 'a msp430_cpu_scheme" where
  "put_result h is_addr bw reg_mode r a v cpu =
     (if reg_mode then if r = MSP430_SR then write_sr v cpu else put_reg r (v AND 0xfffff) cpu
      else write_operand h is_addr bw a v cpu)"

definition alu_step ::
  "'a msp430_cpu_scheme msp430_host \<Rightarrow> bool \<Rightarrow> bool \<Rightarrow> bool \<Rightarrow> nat \<Rightarrow> nat \<Rightarrow> u32 \<Rightarrow> u32 \<Rightarrow> u32 \<Rightarrow> u32 \<Rightarrow>
     'a msp430_cpu_scheme \<Rightarrow> u32 \<times> 'a msp430_cpu_scheme" where
  "alu_step h is_addr bw reg_mode op r a src dst sr cpu =
     (let msk = op_mask is_addr bw; msb = op_msb is_addr bw;
          (v, s, src) = alu op src dst msk msb sr;
          cpu = (if sets_flags op then write_sr_flags s cpu else cpu);
          v = v AND msk;
          cpu = (if writes_result op then put_result h is_addr bw reg_mode r a v cpu else cpu);
          cpu = (if sets_flags op then write_sr_flags (nz_flags (reg cpu MSP430_SR) v msb) cpu else cpu)
      in (src, cpu))"

text \<open>The later rounds of a repeated instruction read the register operands again.\<close>

fun repeat_alu ::
  "'a msp430_cpu_scheme msp430_host \<Rightarrow> bool \<Rightarrow> bool \<Rightarrow> bool \<Rightarrow> bool \<Rightarrow> bool \<Rightarrow> nat \<Rightarrow> nat \<Rightarrow> nat \<Rightarrow> u32 \<Rightarrow> nat \<Rightarrow> u32 \<Rightarrow>
     'a msp430_cpu_scheme \<Rightarrow> 'a msp430_cpu_scheme" where
  "repeat_alu h is_addr bw reg_mode reread zero_carry op s r a 0 src cpu = cpu"
| "repeat_alu h is_addr bw reg_mode reread zero_carry op s r a (Suc n) src cpu =
     (let msk = op_mask is_addr bw;
          sr = (if zero_carry then reg cpu MSP430_SR AND NOT SR_C else reg cpu MSP430_SR);
          src = (if reread then reg cpu s AND msk else src);
          (src, cpu) = alu_step h is_addr bw reg_mode op r a src (reg cpu r AND msk) sr cpu
      in repeat_alu h is_addr bw reg_mode reread zero_carry op s r a n src cpu)"

subsection \<open>Two-operand instructions\<close>

definition source_cg :: "nat \<Rightarrow> nat \<Rightarrow> bool" where
  "source_cg s as \<longleftrightarrow> s = MSP430_CG2 \<or> s = MSP430_CG1 \<and> as \<ge> 2"

definition cg_source :: "bool \<Rightarrow> nat \<Rightarrow> nat \<Rightarrow> u32" where
  "cg_source bw s as =
     (if s = MSP430_CG2 then if bw \<and> as = 3 then 0xff else cg2_value as else cg1_value as)"

text \<open>The source operand of the general path, with the program counter after its words.\<close>

definition source_operand ::
  "'a msp430_cpu_scheme msp430_host \<Rightarrow> bool \<Rightarrow> u32 \<Rightarrow> bool \<Rightarrow> bool \<Rightarrow> bool \<Rightarrow> nat \<Rightarrow> nat \<Rightarrow> nat \<Rightarrow> u32 \<Rightarrow>
     'a msp430_cpu_scheme \<Rightarrow> u32 \<times> u32 \<times> 'a msp430_cpu_scheme" where
  "source_operand h ext hi is_addr bw reg_mode s as r ip cpu =
     (let to_pc = (if r = MSP430_PC then 1 else 0) in
      if source_cg s as then (cg_source bw s as, ip, spend (if reg_mode then 1 else 4) cpu)
      else if as = 0 then (reg cpu s AND op_mask is_addr bw, ip, spend ((if reg_mode then 1 else 4) + to_pc) cpu)
      else if as = 1 then
        (let (v, cpu) = read_operand h is_addr bw (operand_address ext hi s (read_word cpu ip) cpu) cpu
         in (v, ip + 2, spend (if reg_mode then 3 else 6) cpu))
      else if as = 2 then
        (let (v, cpu) = read_operand h is_addr bw (reg cpu s) cpu in (v, ip, spend (if reg_mode then 2 else 5) cpu))
      else if s = MSP430_PC then
        (let w = read_word cpu ip; v = (if ext then (push_bit 16 hi OR ucast w) AND 0xfffff else ucast w)
         in (if bw then v AND 0xff else v, ip + 2, spend ((if reg_mode then 2 else 5) + to_pc) cpu))
      else
        (let a = reg cpu s; (v, cpu) = read_operand h is_addr bw a cpu
         in (v, ip, spend ((if reg_mode then 2 else 5) + to_pc) (put_reg s (a + op_bytes is_addr bw) cpu))))"

definition dest_operand ::
  "'a msp430_cpu_scheme msp430_host \<Rightarrow> bool \<Rightarrow> u32 \<Rightarrow> bool \<Rightarrow> bool \<Rightarrow> bool \<Rightarrow> nat \<Rightarrow> nat \<Rightarrow> u32 \<Rightarrow>
     'a msp430_cpu_scheme \<Rightarrow> u32 \<times> u32 \<times> u32 \<times> 'a msp430_cpu_scheme" where
  "dest_operand h ext hi is_addr bw reg_mode op r ip cpu =
     (if reg_mode then (if op = 0x4 then 0 else reg cpu r AND op_mask is_addr bw, -1, ip, cpu)
      else
        let a = operand_address ext hi r (read_word cpu ip) cpu;
            (v, cpu) = (if op = 0x4 then (0, cpu) else read_operand h is_addr bw a cpu)
        in (v, a, ip + 2, cpu))"

text \<open>The repeat count and the zero-carry bit of the extension word.\<close>

definition repeat_count :: "u16 \<Rightarrow> bool \<Rightarrow> 'a msp430_cpu_scheme \<Rightarrow> nat" where
  "repeat_count ext reg_mode cpu =
     (if ext \<noteq> 0 \<and> reg_mode
      then 1 + (if bit ext 7 then unat (reg cpu (bits_of ext 0 4) AND 0xf) else bits_of ext 0 4)
      else 1)"

definition fast_source :: "nat \<Rightarrow> nat \<Rightarrow> bool" where
  "fast_source s as \<longleftrightarrow> source_cg s as \<or> as = 0"

definition fast_operand :: "bool \<Rightarrow> nat \<Rightarrow> nat \<Rightarrow> nat \<Rightarrow> 'a msp430_cpu_scheme \<Rightarrow> u32 \<times> 'a msp430_cpu_scheme" where
  "fast_operand bw s as r cpu =
     (if source_cg s as then (cg_source bw s as, spend 1 cpu)
      else (reg cpu s AND op_mask False bw, spend (1 + (if r = MSP430_PC then 1 else 0)) cpu))"

definition is_addr_mode :: "u16 \<Rightarrow> bool" where
  "is_addr_mode ext \<longleftrightarrow> ext \<noteq> 0 \<and> \<not> bit ext 6"

definition two_op :: "'a msp430_cpu_scheme msp430_host \<Rightarrow> u16 \<Rightarrow> u32 \<Rightarrow> 'a msp430_cpu_scheme \<Rightarrow> 'a msp430_cpu_scheme" where
  "two_op h instr ip cpu =
     (let op = bits_of instr 12 4; s = bits_of instr 8 4; r = bits_of instr 0 4; as = bits_of instr 4 2;
          reg_mode = (\<not> bit instr 7); ext = ext_word cpu; is_addr = is_addr_mode ext; bw = (bit instr 6 \<and> \<not> is_addr);
          ip = ip + 2;
          (src, dst, a, ip, cpu) =
            (if reg_mode \<and> ext = 0 \<and> fast_source s as
             then let (src, cpu) = fast_operand bw s as r cpu
                  in (src, if op = 0x4 then 0 else reg cpu r AND op_mask is_addr bw, -1, ip, cpu)
             else let (src, ip, cpu) = source_operand h (ext \<noteq> 0) (of_nat (bits_of ext 7 4)) is_addr bw reg_mode s as r ip cpu;
                      (dst, a, ip, cpu) = dest_operand h (ext \<noteq> 0) (of_nat (bits_of ext 0 4)) is_addr bw reg_mode op r ip cpu
                  in (src, dst, a, ip, cpu));
          n = repeat_count ext reg_mode cpu;
          (src, cpu) = alu_step h is_addr bw reg_mode op r a src dst (reg cpu MSP430_SR) cpu;
          cpu = repeat_alu h is_addr bw reg_mode (\<not> source_cg s as \<and> as = 0) (bit ext 5) op s r a (n - 1) src cpu;
          cpu = (if reg_mode \<and> r = MSP430_PC \<and> writes_result op then cpu else put_reg MSP430_PC ip cpu)
      in cpu\<lparr>ext_word := 0\<rparr>)"

subsection \<open>Single-operand instructions\<close>

abbreviation OP_RRC :: nat where "OP_RRC \<equiv> 0x1000"
abbreviation OP_SWPB :: nat where "OP_SWPB \<equiv> 0x1080"
abbreviation OP_RRA :: nat where "OP_RRA \<equiv> 0x1100"
abbreviation OP_SXT :: nat where "OP_SXT \<equiv> 0x1180"
abbreviation OP_PUSH :: nat where "OP_PUSH \<equiv> 0x1200"
abbreviation OP_CALL :: nat where "OP_CALL \<equiv> 0x1280"
abbreviation OP_RETI :: nat where "OP_RETI \<equiv> 0x1300"

definition single_op_of :: "u16 \<Rightarrow> nat" where
  "single_op_of instr = unat (instr AND 0x1380)"

definition single_is_cg :: "nat \<Rightarrow> nat \<Rightarrow> bool" where
  "single_is_cg r ad \<longleftrightarrow> r = MSP430_CG1 \<and> ad > 1 \<or> r = MSP430_CG2"

text \<open>Address and immediate value of the operand (-1 when there is none), and the program counter after its word.\<close>

definition single_operand ::
  "bool \<Rightarrow> u32 \<Rightarrow> u32 \<Rightarrow> nat \<Rightarrow> nat \<Rightarrow> u32 \<Rightarrow> 'a msp430_cpu_scheme \<Rightarrow> u32 \<times> u32 \<times> u32 \<times> 'a msp430_cpu_scheme" where
  "single_operand ext hi bytes r ad ip cpu =
     (if single_is_cg r ad \<or> ad = 0 then (-1, -1, ip, spend 1 cpu)
      else if ad = 1 then (operand_address ext hi r (read_word cpu ip) cpu, -1, ip + 2, spend 4 cpu)
      else if ad = 2 then (reg cpu r, -1, ip, spend 3 cpu)
      else if r = MSP430_PC then (-1, abs_address ext hi (read_word cpu ip), ip + 2, spend 3 cpu)
      else (reg cpu r, -1, ip, spend 3 (put_reg r (reg cpu r + bytes) cpu)))"

definition single_value ::
  "'a msp430_cpu_scheme msp430_host \<Rightarrow> bool \<Rightarrow> u32 \<Rightarrow> nat \<Rightarrow> nat \<Rightarrow> u32 \<Rightarrow> u32 \<Rightarrow> 'a msp430_cpu_scheme \<Rightarrow> u32 \<times> 'a msp430_cpu_scheme" where
  "single_value h bw msk r ad a imm cpu =
     (if single_is_cg r ad \<or> ad = 0 then
        ((if r = MSP430_CG2 then cg2_value ad else if r = MSP430_CG1 \<and> ad > 1 then cg1_value ad else reg cpu r) AND msk, cpu)
      else if imm = -1 \<and> a \<noteq> -1 then
        (let (v, cpu) = mem_read h a (\<not> bw) cpu in (if bw then v AND 0xff else v, cpu))
      else (imm, cpu))"

definition rotate_right_carry :: "u32 \<Rightarrow> u32 \<Rightarrow> u32 \<Rightarrow> u32 \<times> u32" where
  "rotate_right_carry msb sr v =
     (drop_bit 1 v OR flag_if (sr AND SR_C \<noteq> 0) msb, (sr AND NOT (SR_C OR SR_V)) OR flag_if (v AND 1 \<noteq> 0) SR_C)"

definition shift_right_arith :: "u32 \<Rightarrow> u32 \<Rightarrow> u32 \<Rightarrow> u32 \<times> u32" where
  "shift_right_arith msb sr v =
     ((v AND msb) OR drop_bit 1 v, (sr AND NOT (SR_C OR SR_V)) OR flag_if (v AND 1 \<noteq> 0) SR_C)"

definition swap_bytes :: "u32 \<Rightarrow> u32" where
  "swap_bytes v = (drop_bit 8 v AND 0xff) OR (push_bit 8 v AND 0xff00)"

definition sign_extend_byte :: "u32 \<Rightarrow> u32" where
  "sign_extend_byte v = (if v AND 0x80 \<noteq> 0 then v OR 0xfff00 else v AND 0x7f)"

text \<open>The repetitions before the last one, which change the value and the carry only.\<close>

definition single_round :: "nat \<Rightarrow> bool \<Rightarrow> u32 \<Rightarrow> u32 \<Rightarrow> u32 \<times> u32 \<Rightarrow> u32 \<times> u32" where
  "single_round op zero_carry msk msb = (\<lambda>(v, sr).
     let (w, s) =
       (if op = OP_RRC then
          (drop_bit 1 v OR flag_if (\<not> zero_carry \<and> sr AND SR_C \<noteq> 0) msb, snd (rotate_right_carry msb sr v))
        else if op = OP_RRA then shift_right_arith msb sr v
        else if op = OP_SWPB then (swap_bytes v, sr)
        else if op = OP_SXT then (sign_extend_byte v, sr)
        else (v, sr))
     in (w AND msk, s))"

definition single_repeats :: "u16 \<Rightarrow> bool \<Rightarrow> nat \<Rightarrow> 'a msp430_cpu_scheme \<Rightarrow> nat" where
  "single_repeats ext reg_mode op cpu =
     (if ext \<noteq> 0 \<and> reg_mode \<and> (op = OP_RRC \<or> op = OP_RRA \<or> op = OP_SWPB \<or> op = OP_SXT)
      then repeat_count ext True cpu - 1 else 0)"

definition single_carry_in :: "u16 \<Rightarrow> bool \<Rightarrow> nat \<Rightarrow> u32 \<Rightarrow> u32" where
  "single_carry_in ext reg_mode op sr = (if ext \<noteq> 0 \<and> reg_mode \<and> op = OP_RRC \<and> bit ext 5 then sr AND NOT SR_C else sr)"

definition exec_push ::
  "'a msp430_cpu_scheme msp430_host \<Rightarrow> bool \<Rightarrow> bool \<Rightarrow> nat \<Rightarrow> u32 \<Rightarrow> u32 \<Rightarrow> 'a msp430_cpu_scheme \<Rightarrow> 'a msp430_cpu_scheme" where
  "exec_push h is_addr bw ad sp v cpu =
     spend (if ad = 0 \<or> ad = 3 then 2 else 1)
       (if is_addr then mem_write_20 h (sp - 2) v (put_reg MSP430_SP (sp - 2) cpu) else mem_write h sp v (\<not> bw) cpu)"

definition exec_call ::
  "'a msp430_cpu_scheme msp430_host \<Rightarrow> nat \<Rightarrow> u32 \<Rightarrow> u32 \<Rightarrow> u32 \<Rightarrow> 'a msp430_cpu_scheme \<Rightarrow> 'a msp430_cpu_scheme" where
  "exec_call h ad sp ip v cpu =
     spend (if ad = 0 then 3 else if ad = 3 then 2 else 1)
       (put_reg MSP430_PC (v AND 0xffff) (mem_write h sp (ip AND 0xffff) True (put_reg MSP430_PC ip cpu)))"

definition exec_reti :: "'a msp430_cpu_scheme msp430_host \<Rightarrow> 'a msp430_cpu_scheme \<Rightarrow> 'a msp430_cpu_scheme" where
  "exec_reti h cpu =
     (let cpu = cpu\<lparr>serviced_interrupt := -1\<rparr>; sp = reg cpu MSP430_SP;
          (sr, cpu) = mem_read h sp True cpu;
          cpu = write_sr (sr AND 0x0fff) cpu;
          (lo, cpu) = mem_read h (sp + 2) True cpu;
          cpu = put_reg MSP430_SP (sp + 4) (put_reg MSP430_PC (lo OR push_bit 4 (sr AND 0xf000)) cpu)
      in handle_pending_interrupts (spend 4 cpu))"

text \<open>The operations that leave a value: the value, the status register to write, and whether N and Z follow.\<close>

definition single_alu :: "nat \<Rightarrow> u32 \<Rightarrow> u32 \<Rightarrow> u32 \<Rightarrow> u32 \<times> u32" where
  "single_alu op msb sr v =
     (if op = OP_RRC then rotate_right_carry msb sr v
      else if op = OP_RRA then shift_right_arith msb sr v
      else if op = OP_SXT then
        (let w = sign_extend_byte v in (w, (sr AND NOT (SR_C OR SR_V)) OR flag_if (w \<noteq> 0) SR_C))
      else if op = OP_SWPB then (swap_bytes v, sr)
      else (v, sr))"

definition put_single ::
  "'a msp430_cpu_scheme msp430_host \<Rightarrow> bool \<Rightarrow> bool \<Rightarrow> nat \<Rightarrow> u32 \<Rightarrow> u32 \<Rightarrow> 'a msp430_cpu_scheme \<Rightarrow> 'a msp430_cpu_scheme" where
  "put_single h reg_mode bw r a v cpu =
     (if reg_mode then put_reg r v cpu else if a \<noteq> -1 then mem_write h a v (\<not> bw) cpu else cpu)"

definition single_op ::
  "'a msp430_cpu_scheme msp430_host \<Rightarrow> u16 \<Rightarrow> u32 \<Rightarrow> 'a msp430_cpu_scheme \<Rightarrow> 'a msp430_cpu_scheme" where
  "single_op h instr ip cpu =
     (let op = single_op_of instr; r = bits_of instr 0 4; ad = bits_of instr 4 2; ext = ext_word cpu;
          is_addr = is_addr_mode ext; bw = (bit instr 6 \<and> \<not> is_addr); msk = op_mask is_addr bw; msb = op_msb is_addr bw;
          sp = (if op = OP_PUSH \<or> op = OP_CALL then reg cpu MSP430_SP - 2 else reg cpu MSP430_SP);
          cpu = (if op = OP_PUSH \<or> op = OP_CALL then put_reg MSP430_SP sp cpu else cpu);
          (a, imm, ip, cpu) = single_operand (ext \<noteq> 0) (of_nat (bits_of ext 0 4)) (op_bytes is_addr bw) r ad (ip + 2) cpu;
          reg_mode = (single_is_cg r ad \<or> ad = 0);
          (v, cpu) = single_value h bw msk r ad a imm cpu;
          n = single_repeats ext reg_mode op cpu;
          (v, sr) = (single_round op (bit ext 5) msk msb ^^ n) (v, reg cpu MSP430_SR);
          cpu = spend (int n) cpu;
          (w, sr) = single_alu op msb (single_carry_in ext reg_mode op sr) v;
          msk = (if op = OP_SXT then 0xffff else msk); msb = (if op = OP_SXT then 0x8000 else msb);
          cpu = (if op = OP_RRC \<or> op = OP_RRA \<or> op = OP_SXT then write_sr_flags sr cpu
                 else if op = OP_PUSH then exec_push h is_addr bw ad sp v cpu
                 else if op = OP_CALL then exec_call h ad sp ip v cpu
                 else if op = OP_RETI then exec_reti h cpu
                 else cpu);
          w = w AND msk;
          cpu = (if op = OP_RRC \<or> op = OP_SWPB \<or> op = OP_RRA \<or> op = OP_SXT then put_single h reg_mode bw r a w cpu else cpu);
          cpu = (if op \<in> {OP_SWPB, OP_PUSH, OP_CALL, OP_RETI} then cpu
                 else write_sr_flags (nz_flags (reg cpu MSP430_SR) w msb) cpu);
          cpu = (if op = OP_CALL \<or> op = OP_RETI then cpu else put_reg MSP430_PC ip cpu)
      in cpu\<lparr>ext_word := 0\<rparr>)"

subsection \<open>Jumps\<close>

definition jump_taken :: "nat \<Rightarrow> u32 \<Rightarrow> bool" where
  "jump_taken cond sr =
     (if cond = 0 then sr AND SR_Z = 0
      else if cond = 1 then sr AND SR_Z \<noteq> 0
      else if cond = 2 then sr AND SR_C = 0
      else if cond = 3 then sr AND SR_C \<noteq> 0
      else if cond = 4 then sr AND SR_N \<noteq> 0
      else if cond = 5 then (sr AND SR_N \<noteq> 0) = (sr AND SR_V \<noteq> 0)
      else if cond = 6 then (sr AND SR_N \<noteq> 0) \<noteq> (sr AND SR_V \<noteq> 0)
      else cond = 7)"

definition sign_extend_10 :: "u16 \<Rightarrow> u16" where
  "sign_extend_10 w = (if w AND 0x200 \<noteq> 0 then w OR 0xfc00 else w)"

definition jump_offset :: "u16 \<Rightarrow> u32" where
  "jump_offset instr = scast (sign_extend_10 (instr AND 0x3ff)) * 2"

definition code_mask :: "'a msp430_cpu_scheme \<Rightarrow> u32" where
  "code_mask cpu = (if is_msp430x cpu then 0xfffff else 0xffff)"

definition jump_op :: "u16 \<Rightarrow> u32 \<Rightarrow> 'a msp430_cpu_scheme \<Rightarrow> 'a msp430_cpu_scheme" where
  "jump_op instr ip cpu =
     (let ip = ip + 2; cpu = spend 2 cpu;
          ip = (if jump_taken (bits_of instr 10 3) (reg cpu MSP430_SR) then (ip + jump_offset instr) AND code_mask cpu else ip)
      in put_reg MSP430_PC ip cpu)"

end
