(* ===== verification/Msp430_Ext.thy ===== *)
theory Msp430_Ext
  imports Msp430_Exec
begin

text \<open>
  The 20-bit instructions of the MSP430X (\<open>op_msp430x\<close> of \<open>src/msp430/msp430_cpu.c\<close>): address moves and
  arithmetic, multiple shifts, address calls, multiple push and pop, and the dispatch of one
  instruction, in which extension words are consumed.
\<close>

subsection \<open>Address instructions\<close>

definition leave_at :: "nat \<Rightarrow> u32 \<Rightarrow> 'a msp430_cpu_scheme \<Rightarrow> 'a msp430_cpu_scheme" where
  "leave_at r ip cpu = (if r = MSP430_PC then cpu else put_reg MSP430_PC ip cpu)"

definition sign_extend_20 :: "u32 \<Rightarrow> u32" where
  "sign_extend_20 v = (if v AND 0x80000 \<noteq> 0 then v OR 0xfff00000 else v)"

definition address_of :: "nat \<Rightarrow> u16 \<Rightarrow> u32" where
  "address_of hi w = ucast w OR push_bit 16 (of_nat hi)"

definition indexed_20 :: "u32 \<Rightarrow> u16 \<Rightarrow> u32" where
  "indexed_20 v w = (sign_extend_20 v + scast w) AND 0xfffff"

definition cmpa_flags :: "u32 \<Rightarrow> u32 \<Rightarrow> u32 \<Rightarrow> u32" where
  "cmpa_flags sr dst src =
     (sr AND NOT (SR_N OR SR_Z OR SR_C OR SR_V)) OR flag_if (dst \<ge> src) SR_C OR flag_if (dst < src) SR_N
       OR flag_if (dst = src) SR_Z
       OR flag_if ((dst XOR (dst - src)) AND 0x80000 = 0 \<and> (dst XOR src) AND 0x80000 \<noteq> 0) SR_V"

definition adda_flags :: "u32 \<Rightarrow> u32 \<Rightarrow> u32 \<Rightarrow> u32" where
  "adda_flags sr dst src =
     (let result = dst + src
      in (sr AND NOT (SR_C OR SR_Z OR SR_N OR SR_V)) OR flag_if (result AND 0xfffff = 0) SR_Z
           OR flag_if (result AND 0x80000 \<noteq> 0) SR_N OR flag_if (result > 0xfffff) SR_C
           OR flag_if ((dst XOR src) AND 0x80000 = 0 \<and> (src XOR result) AND 0x80000 \<noteq> 0) SR_V)"

definition exec_cmpa :: "nat \<Rightarrow> u32 \<Rightarrow> u32 \<Rightarrow> 'a msp430_cpu_scheme \<Rightarrow> 'a msp430_cpu_scheme" where
  "exec_cmpa r v ip cpu =
     put_reg MSP430_PC ip (write_sr_flags (cmpa_flags (reg cpu MSP430_SR) (reg cpu r) v) cpu)"

definition exec_adda :: "nat \<Rightarrow> u32 \<Rightarrow> u32 \<Rightarrow> 'a msp430_cpu_scheme \<Rightarrow> 'a msp430_cpu_scheme" where
  "exec_adda r v ip cpu =
     (let d = reg cpu r
      in leave_at r ip (put_reg r ((d + v) AND 0xfffff) (write_sr_flags (adda_flags (reg cpu MSP430_SR) d v) cpu)))"

definition exec_suba :: "nat \<Rightarrow> u32 \<Rightarrow> u32 \<Rightarrow> 'a msp430_cpu_scheme \<Rightarrow> 'a msp430_cpu_scheme" where
  "exec_suba r v ip cpu = leave_at r ip (put_reg r ((reg cpu r - v) AND 0xfffff) cpu)"

definition load_20 ::
  "'a msp430_cpu_scheme msp430_host \<Rightarrow> nat \<Rightarrow> u32 \<Rightarrow> int \<Rightarrow> u32 \<Rightarrow> 'a msp430_cpu_scheme \<Rightarrow> 'a msp430_cpu_scheme" where
  "load_20 h r a n ip cpu =
     (let (v, cpu) = mem_read_20 h a cpu in leave_at r ip (spend n (put_reg r (v AND 0xfffff) cpu)))"

definition mova_autoinc ::
  "'a msp430_cpu_scheme msp430_host \<Rightarrow> nat \<Rightarrow> nat \<Rightarrow> u32 \<Rightarrow> 'a msp430_cpu_scheme \<Rightarrow> 'a msp430_cpu_scheme" where
  "mova_autoinc h s r ip cpu =
     (let cpu = leave_at r ip cpu; a = reg cpu s; (v, cpu) = mem_read_20 h a cpu
      in spend 3 (put_reg r (v AND 0xfffff) (put_reg s ((a + 4) AND 0xfffff) cpu)))"

definition address_op ::
  "'a msp430_cpu_scheme msp430_host \<Rightarrow> u16 \<Rightarrow> u32 \<Rightarrow> 'a msp430_cpu_scheme \<Rightarrow> 'a msp430_cpu_scheme" where
  "address_op h instr ip cpu =
     (let op = bits_of instr 4 4; s = bits_of instr 8 4; r = bits_of instr 0 4; ip = ip + 2; w = read_word cpu ip in
      if op = 0x0 then load_20 h r (reg cpu s) 3 ip cpu
      else if op = 0x1 then mova_autoinc h s r ip cpu
      else if op = 0x2 then load_20 h r (address_of s w) 4 (ip + 2) cpu
      else if op = 0x3 then load_20 h r (indexed_20 (reg cpu s) w) 4 (ip + 2) cpu
      else if op = 0x6 then put_reg MSP430_PC (ip + 2) (spend 4 (mem_write_20 h (address_of r w) (reg cpu s) cpu))
      else if op = 0x7 then put_reg MSP430_PC (ip + 2) (spend 4 (mem_write_20 h (indexed_20 (reg cpu r) w) (reg cpu s) cpu))
      else if op = 0x8 then leave_at r (ip + 2) (spend 2 (put_reg r (address_of s w AND 0xfffff) cpu))
      else if op = 0x9 then spend 3 (exec_cmpa r (address_of s w) (ip + 2) cpu)
      else if op = 0xa then spend 3 (exec_adda r (address_of s w) (ip + 2) cpu)
      else if op = 0xb then spend 3 (exec_suba r (address_of s w) (ip + 2) cpu)
      else if op = 0xc then leave_at r ip (spend 1 (put_reg r (reg cpu s) cpu))
      else if op = 0xd then spend 1 (exec_cmpa r (reg cpu s) ip cpu)
      else if op = 0xe then spend 1 (exec_adda r (reg cpu s) ip cpu)
      else if op = 0xf then spend 1 (exec_suba r (reg cpu s) ip cpu)
      else spend 1 (put_reg MSP430_PC ip cpu))"

subsection \<open>Multiple shifts\<close>

text \<open>The shifted value before it is cut to its width, and the carry.\<close>

definition rrcm :: "bool \<Rightarrow> nat \<Rightarrow> bool \<Rightarrow> u32 \<Rightarrow> u32 \<times> bool" where
  "rrcm word n carry v =
     (let low = v AND (push_bit n 1 - 1); width = (if word then 16 else 20)
      in (drop_bit n v OR push_bit (width + 1 - n) low OR push_bit (width - n) (if carry then 1 else 0), v AND push_bit (n - 1) 1 \<noteq> 0))"

definition rram :: "bool \<Rightarrow> nat \<Rightarrow> u32 \<Rightarrow> u32 \<times> bool" where
  "rram word n v =
     (let v = (if v AND (if word then 0x8000 else 0x80000) \<noteq> 0 then v OR (if word then 0xf8000 else 0xf80000) else v);
          v = drop_bit (n - 1) v
      in (drop_bit 1 v, v AND 1 \<noteq> 0))"

definition rlam :: "bool \<Rightarrow> nat \<Rightarrow> u32 \<Rightarrow> u32 \<times> bool" where
  "rlam word n v =
     (let v = push_bit (n - 1) v in (push_bit 1 v, v AND (if word then 0x8000 else 0x80000) \<noteq> 0))"

definition rrum :: "nat \<Rightarrow> u32 \<Rightarrow> u32 \<times> bool" where
  "rrum n v = (let v = drop_bit (n - 1) v in (drop_bit 1 v, v AND 1 \<noteq> 0))"

definition rrxx :: "nat \<Rightarrow> bool \<Rightarrow> nat \<Rightarrow> bool \<Rightarrow> u32 \<Rightarrow> u32 \<times> bool" where
  "rrxx kind word n carry v =
     (let v = (if word then v AND 0xffff else v) in
      if kind = 0 then rrcm word n carry v
      else if kind = 1 then rram word n v
      else if kind = 2 then rlam word n v
      else rrum n v)"

definition shift_op :: "u16 \<Rightarrow> u32 \<Rightarrow> 'a msp430_cpu_scheme \<Rightarrow> 'a msp430_cpu_scheme" where
  "shift_op instr ip cpu =
     (let n = bits_of instr 10 2 + 1; r = bits_of instr 0 4; word = bit instr 4; sr = reg cpu MSP430_SR;
          (v, c) = rrxx (bits_of instr 8 2) word n (sr AND SR_C \<noteq> 0) (reg cpu r);
          v = v AND (if word then 0xffff else 0xfffff); msb = (if word then 0x8000 else 0x80000);
          sr = (sr AND NOT (SR_C OR SR_V OR SR_Z OR SR_N)) OR flag_if c SR_C OR flag_if (v = 0) SR_Z OR flag_if (v AND msb \<noteq> 0) SR_N
      in put_reg MSP430_PC (ip + 2) (put_reg r v (write_sr_flags sr (spend (1 + int n) cpu))))"

subsection \<open>Calls and multiple push and pop\<close>

definition calla_enter ::
  "'a msp430_cpu_scheme msp430_host \<Rightarrow> u32 \<Rightarrow> u32 \<Rightarrow> 'a msp430_cpu_scheme \<Rightarrow> 'a msp430_cpu_scheme" where
  "calla_enter h target ip cpu =
     (if target \<noteq> -1 then
        let sp = reg cpu MSP430_SP; cpu = mem_write h sp (drop_bit 16 ip AND 0xf) True cpu;
            cpu = mem_write h (sp - 2) (ip AND 0xffff) True cpu
        in put_reg MSP430_PC (target AND 0xfffff) (put_reg MSP430_SP (sp - 2) cpu)
      else put_reg MSP430_PC ip cpu)"

definition calla_op ::
  "'a msp430_cpu_scheme msp430_host \<Rightarrow> u16 \<Rightarrow> u32 \<Rightarrow> 'a msp430_cpu_scheme \<Rightarrow> 'a msp430_cpu_scheme" where
  "calla_op h instr ip cpu =
     (let op = unat (instr AND 0xfff0); r = bits_of instr 0 4; ip = ip + 2;
          pushed = put_reg MSP430_SP (reg cpu MSP430_SP - 2) cpu; w = read_word cpu ip in
      if op = 0x1340 then calla_enter h (reg pushed r) ip (spend 5 pushed)
      else if op = 0x1350 then
        (let (v, cpu) = mem_read_20 h ((reg pushed r + scast w) AND 0xfffff) pushed in calla_enter h v (ip + 2) (spend 5 cpu))
      else if op = 0x13b0 then calla_enter h (address_of r w AND 0xfffff) (ip + 2) (spend 5 pushed)
      else if op = 0x1360 then
        (let (v, cpu) = mem_read_20 h (reg pushed r) pushed in calla_enter h v ip (spend 5 cpu))
      else if op = 0x1380 then
        (let (v, cpu) = mem_read_20 h (address_of r w AND 0xfffff) pushed in calla_enter h v (ip + 2) (spend 7 cpu))
      else put_reg MSP430_PC ip cpu)"

fun pushm ::
  "'a msp430_cpu_scheme msp430_host \<Rightarrow> bool \<Rightarrow> nat \<Rightarrow> nat \<Rightarrow> u32 \<Rightarrow> 'a msp430_cpu_scheme \<Rightarrow> u32 \<times> 'a msp430_cpu_scheme" where
  "pushm h is_addr 0 r sp cpu = (sp, cpu)"
| "pushm h is_addr (Suc n) r sp cpu =
     (let sp = sp - (if is_addr then 4 else 2); cpu = spend 2 cpu;
          cpu = (if is_addr then mem_write_20 h sp (reg cpu r) cpu else mem_write h sp (reg cpu r) True cpu)
      in pushm h is_addr n (if r = 0 then 15 else r - 1) sp cpu)"

fun popm ::
  "'a msp430_cpu_scheme msp430_host \<Rightarrow> bool \<Rightarrow> nat \<Rightarrow> nat \<Rightarrow> u32 \<Rightarrow> 'a msp430_cpu_scheme \<Rightarrow> u32 \<times> 'a msp430_cpu_scheme" where
  "popm h is_addr 0 r sp cpu = (sp, cpu)"
| "popm h is_addr (Suc n) r sp cpu =
     (let (v, cpu) = (if is_addr then mem_read_20 h sp (spend 2 cpu) else mem_read h sp True (spend 2 cpu))
      in popm h is_addr n (if r = 15 then 0 else r + 1) (sp + (if is_addr then 4 else 2)) (put_reg r v cpu))"

definition pushm_popm_op ::
  "'a msp430_cpu_scheme msp430_host \<Rightarrow> u16 \<Rightarrow> u32 \<Rightarrow> 'a msp430_cpu_scheme \<Rightarrow> 'a msp430_cpu_scheme" where
  "pushm_popm_op h instr ip cpu =
     (let n = bits_of instr 4 4 + 1; r = bits_of instr 0 4; op = unat (instr AND 0xff00);
          is_addr = (op = 0x1400 \<or> op = 0x1600); cpu = spend (if is_addr then 2 else 0) cpu;
          (sp, cpu) = (if op = 0x1400 \<or> op = 0x1500 then pushm else popm) h is_addr n r (reg cpu MSP430_SP) cpu
      in put_reg MSP430_PC (ip + 2) (put_reg MSP430_SP sp cpu))"

subsection \<open>One instruction\<close>

definition is_ext_word :: "u16 \<Rightarrow> bool" where
  "is_ext_word instr \<longleftrightarrow> instr AND 0xf800 = 0x1800"

definition is_calla :: "u16 \<Rightarrow> bool" where
  "is_calla instr \<longleftrightarrow> instr AND 0xff00 = 0x1300 \<and> instr AND 0x00f0 \<ge> 0x0040"

definition is_pushm_popm :: "u16 \<Rightarrow> bool" where
  "is_pushm_popm instr \<longleftrightarrow> instr AND 0xfc00 \<ge> 0x1400 \<and> instr AND 0xfc00 \<le> 0x1700"

definition msp430x_op ::
  "'a msp430_cpu_scheme msp430_host \<Rightarrow> u16 \<Rightarrow> u32 \<Rightarrow> 'a msp430_cpu_scheme \<Rightarrow> 'a msp430_cpu_scheme" where
  "msp430x_op h instr ip cpu =
     (if is_calla instr then calla_op h instr ip cpu
      else if is_pushm_popm instr then pushm_popm_op h instr ip cpu
      else if instr AND 0xf0e0 = 0x0040 \<and> instr AND 0xf > 3 then shift_op instr ip cpu
      else address_op h instr ip cpu)"

text \<open>
  Opcode 1. On an MSP430X part an extension word leads to the next word, which may be another one: the
  chain need not end.
\<close>

partial_function (option) opcode_1 ::
  "'a msp430_cpu_scheme msp430_host \<Rightarrow> u16 \<Rightarrow> u32 \<Rightarrow> 'a msp430_cpu_scheme \<Rightarrow> 'a msp430_cpu_scheme option" where
  "opcode_1 h instr ip cpu =
     (if is_msp430x cpu \<and> is_ext_word instr then
        let w = read_word cpu (ip + 2); cpu = cpu\<lparr>ext_word := instr, last_instruction := w\<rparr>
        in if bits_of w 12 4 \<ge> 4 then Some (two_op h w (ip + 2) cpu) else opcode_1 h w (ip + 2) cpu
      else if is_msp430x cpu \<and> (is_calla instr \<or> is_pushm_popm instr) then Some (msp430x_op h instr ip cpu)
      else Some (single_op h instr ip cpu))"

definition exec_instr ::
  "'a msp430_cpu_scheme msp430_host \<Rightarrow> u16 \<Rightarrow> u32 \<Rightarrow> 'a msp430_cpu_scheme \<Rightarrow> 'a msp430_cpu_scheme option" where
  "exec_instr h instr ip cpu =
     (let op = bits_of instr 12 4 in
      if op = 0 then Some (msp430x_op h instr ip cpu)
      else if op = 1 then opcode_1 h instr ip cpu
      else if op < 4 then Some (jump_op instr ip cpu)
      else Some (two_op h instr ip cpu))"

end
