(* ===== verification/Msp430_Alu_Correct.thy ===== *)
theory Msp430_Alu_Correct
  imports Msp430_Ext
begin

text \<open>
  What the arithmetic of the MSP430 emulator computes: decimal addition, comparisons and the jumps that
  follow them, multiple shifts as repeated single shifts, and the instructions that compute something else.
\<close>

subsection \<open>Flags\<close>

lemma flag_bits:
  fixes w :: u32
  shows "w AND 0x1 = 0 \<longleftrightarrow> \<not> bit w 0" "w AND 0x2 = 0 \<longleftrightarrow> \<not> bit w 1" "w AND 0x4 = 0 \<longleftrightarrow> \<not> bit w 2"
    "w AND 0x100 = 0 \<longleftrightarrow> \<not> bit w 8" "w AND 0x80 = 0 \<longleftrightarrow> \<not> bit w 7" "w AND 0x8000 = 0 \<longleftrightarrow> \<not> bit w 15"
    "w AND 0x80000 = 0 \<longleftrightarrow> \<not> bit w 19"
  using and_exp_eq_0_iff_not_bit [of w 0] and_exp_eq_0_iff_not_bit [of w 1] and_exp_eq_0_iff_not_bit [of w 2]
    and_exp_eq_0_iff_not_bit [of w 8] and_exp_eq_0_iff_not_bit [of w 7] and_exp_eq_0_iff_not_bit [of w 15]
    and_exp_eq_0_iff_not_bit [of w 19]
  by simp_all

lemma bit_flag_if [simp]: "bit (flag_if b v) i \<longleftrightarrow> b \<and> bit v i"
  by (simp add: flag_if_def)

subsection \<open>Decimal addition\<close>

definition digit :: "nat \<Rightarrow> u32 \<Rightarrow> nat" where
  "digit k w = unat (take_bit 4 (drop_bit (4 * k) w))"

fun bcd_val :: "nat \<Rightarrow> nat \<Rightarrow> u32 \<Rightarrow> nat" where
  "bcd_val i 0 w = 0"
| "bcd_val i (Suc n) w = digit i w + 10 * bcd_val (Suc i) n w"

definition bcd_ok :: "nat \<Rightarrow> nat \<Rightarrow> u32 \<Rightarrow> bool" where
  "bcd_ok i n w \<longleftrightarrow> (\<forall>k. i \<le> k \<and> k < i + n \<longrightarrow> digit k w \<le> 9)"

lemma unat_nibble: "unat (take_bit 4 (of_nat m :: u32)) = m mod 16"
  by (simp add: unsigned_take_bit_eq unsigned_of_nat) (simp add: take_bit_eq_mod)

lemma digit_div: "digit k w = unat w div 16 ^ k mod 16"
proof -
  have "digit k w = take_bit 4 (drop_bit (4 * k) (unat w))"
    unfolding digit_def unsigned_take_bit_eq unsigned_drop_bit_eq
    by (rule arg_cong [where f = "\<lambda>x. take_bit 4 (drop_bit (4 * k) x)"])
      (use unsigned_less [of w, where 'a = nat] in \<open>simp add: take_bit_nat_eq_self\<close>)
  thus ?thesis by (simp add: take_bit_eq_mod drop_bit_eq_div power_mult)
qed

lemma digit_insert:
  assumes "i < 8" "digit i acc = 0"
  shows "digit k (acc OR push_bit (4 * i) (take_bit 4 x)) = (if k = i then unat (take_bit 4 x) else digit k acc)"
proof -
  have "take_bit 4 (drop_bit (4 * i) acc) = 0" using assms(2) unfolding digit_def by (simp add: unat_eq_zero)
  hence "\<not> bit (take_bit 4 (drop_bit (4 * i) acc)) j" for j by (simp only: bit_0_eq) simp
  hence z: "\<not> bit acc (4 * i + j)" if "j < 4" for j using that by (simp add: bit_simps)
  have "take_bit 4 (drop_bit (4 * k) (acc OR push_bit (4 * i) (take_bit 4 x)))
      = (if k = i then take_bit 4 x else take_bit 4 (drop_bit (4 * k) acc))"
    by (rule bit_word_eqI) (use assms(1) z in \<open>auto simp: bit_simps\<close>)
  thus ?thesis unfolding digit_def by simp
qed

lemma bcd_val_cong: "(\<And>k. i \<le> k \<Longrightarrow> k < i + n \<Longrightarrow> digit k v = digit k w) \<Longrightarrow> bcd_val i n v = bcd_val i n w"
  by (induction n arbitrary: i) simp_all

lemma bcd_ok_Suc: "bcd_ok i (Suc n) w \<longleftrightarrow> digit i w \<le> 9 \<and> bcd_ok (Suc i) n w"
  unfolding bcd_ok_def by (auto simp: Suc_le_eq) (metis le_neq_implies_less)

lemma bcd_val_less: "bcd_ok i n w \<Longrightarrow> bcd_val i n w < 10 ^ n"
  by (induction n arbitrary: i) (fastforce simp: bcd_ok_Suc)+

lemma bcd_digits_sum:
  assumes "i + n \<le> 8" "bcd_ok i n dst" "bcd_ok i n src" "carry \<le> 1" "\<And>k. i \<le> k \<Longrightarrow> digit k acc = 0"
    "bcd_digits i n dst src carry acc = (r, c)"
  shows "c \<le> 1 \<and> (\<forall>k < i. digit k r = digit k acc) \<and> bcd_ok i n r \<and>
    bcd_val i n r + 10 ^ n * c = bcd_val i n dst + bcd_val i n src + carry"
  using assms
proof (induction n arbitrary: i carry acc)
  case 0
  thus ?case by (simp add: bcd_ok_def)
next
  case (Suc n)
  define d where "d = digit i dst + digit i src + carry"
  define e where "e = (if d > 9 then d - 10 else d)"
  define c' where "c' = (if d > 9 then 1 else 0 :: nat)"
  define acc' where "acc' = acc OR push_bit (4 * i) (take_bit 4 (of_nat (if d > 9 then d + 6 else d)))"
  have d: "d \<le> 19" using Suc.prems(2-4) unfolding d_def by (simp add: bcd_ok_Suc)
  have e: "e \<le> 9" "d = e + 10 * c'" using d unfolding e_def c'_def by auto
  have "unat (take_bit 4 (of_nat (if d > 9 then d + 6 else d) :: u32)) = e"
    using d unfolding e_def unfolding unat_nibble by (auto simp: mod_if)
  hence acc': "digit k acc' = (if k = i then e else digit k acc)" for k
    unfolding acc'_def using Suc.prems(1) Suc.prems(5) [of i] by (subst digit_insert) simp_all
  have rec: "bcd_digits (Suc i) n dst src c' acc' = (r, c)"
    using Suc.prems(6) unfolding acc'_def c'_def d_def digit_def by (simp add: Let_def split: if_splits)
  have IH: "c \<le> 1 \<and> (\<forall>k < Suc i. digit k r = digit k acc') \<and> bcd_ok (Suc i) n r \<and>
    bcd_val (Suc i) n r + 10 ^ n * c = bcd_val (Suc i) n dst + bcd_val (Suc i) n src + c'"
    using Suc.prems by (intro Suc.IH [OF _ _ _ _ _ rec]) (simp_all add: bcd_ok_Suc acc' c'_def)
  have r: "digit i r = e" using IH acc' by simp
  have "digit i dst + digit i src + carry = e + 10 * c'" using e(2) d_def by simp
  moreover have "10 * (bcd_val (Suc i) n r + 10 ^ n * c) = 10 * (bcd_val (Suc i) n dst + bcd_val (Suc i) n src + c')"
    using IH by simp
  ultimately have "bcd_val i (Suc n) r + 10 ^ Suc n * c = bcd_val i (Suc n) dst + bcd_val i (Suc n) src + carry"
    unfolding bcd_val.simps r by (simp add: algebra_simps)
  thus ?case using IH e(1) r acc' unfolding bcd_ok_Suc by simp
qed

lemma nibble_count_mask: "n \<le> m \<Longrightarrow> n \<le> 8 \<Longrightarrow> nibble_count m (mask (4 * n)) = n"
proof (induction m arbitrary: n)
  case (Suc m)
  show ?case
  proof (cases n)
    case (Suc k)
    have "drop_bit 4 (mask (4 * n) :: u32) = mask (4 * k)"
      using Suc Suc.prems by (intro bit_word_eqI) (auto simp: bit_simps)
    moreover have "bit (mask (4 * n) :: u32) 0" using Suc by (simp add: bit_mask_iff)
    hence "mask (4 * n) \<noteq> (0 :: u32)" by fastforce
    ultimately show ?thesis using Suc Suc.prems Suc.IH [of k] by simp
  qed simp
qed simp

definition op_digits :: "bool \<Rightarrow> bool \<Rightarrow> nat" where
  "op_digits is_addr bw = (if is_addr then 5 else if bw then 2 else 4)"

lemma op_mask_digits: "op_mask is_addr bw = mask (4 * op_digits is_addr bw)"
  unfolding op_mask_def op_digits_def by (simp add: mask_eq_exp_minus_1)

lemma digit_mask: "k < n \<Longrightarrow> n \<le> 8 \<Longrightarrow> digit k (w AND mask (4 * n)) = digit k w"
proof -
  assume k: "k < n" "n \<le> 8"
  have "take_bit 4 (drop_bit (4 * k) (w AND mask (4 * n))) = take_bit 4 (drop_bit (4 * k) w)"
    by (rule bit_word_eqI) (use k in \<open>auto simp: bit_simps\<close>)
  thus ?thesis unfolding digit_def by simp
qed

text \<open>
  C28. DADD adds decimal numbers: on operands whose digits are decimal the result is again decimal and is their sum with
  the carry, modulo ten to the number of digits of the operand width, and the carry flag says whether it overflowed.
\<close>

theorem dadd_is_decimal:
  assumes "n = op_digits is_addr bw" "bcd_ok 0 n dst" "bcd_ok 0 n src" "msp430_dadd_bcd dst src (op_mask is_addr bw) sr = (r, s)"
    "t = bcd_val 0 n dst + bcd_val 0 n src + (if sr AND SR_C \<noteq> 0 then 1 else 0)"
  shows "bcd_ok 0 n r \<and> bcd_val 0 n r = t mod 10 ^ n \<and> (s AND SR_C \<noteq> 0 \<longleftrightarrow> 10 ^ n \<le> t)"
proof -
  let ?c = "if sr AND SR_C \<noteq> 0 then 1 else 0 :: nat"
  have n: "n \<le> 8" using assms(1) by (simp add: op_digits_def)
  obtain v c where v: "bcd_digits 0 n dst src ?c 0 = (v, c)" by fastforce
  have sum: "c \<le> 1 \<and> bcd_ok 0 n v \<and> bcd_val 0 n v + 10 ^ n * c = t"
    using bcd_digits_sum [OF _ assms(2, 3) _ _ v] n unfolding assms(5) by (simp add: digit_def)
  have "r = v AND mask (4 * n)" "s = (sr AND NOT (SR_C OR SR_V)) OR flag_if (c \<noteq> 0) SR_C"
    using assms(4) n v by (simp_all add: msp430_dadd_bcd_def op_mask_digits assms(1) [symmetric] nibble_count_mask)
  moreover have "digit k (v AND mask (4 * n)) = digit k v" if "k < n" for k using that n by (rule digit_mask)
  hence "bcd_ok 0 n (v AND mask (4 * n)) = bcd_ok 0 n v" "bcd_val 0 n (v AND mask (4 * n)) = bcd_val 0 n v"
    by (simp_all add: bcd_ok_def cong: bcd_val_cong)
  moreover have "bcd_val 0 n v < 10 ^ n" using sum by (intro bcd_val_less) simp
  moreover have "((sr AND NOT (SR_C OR SR_V)) OR flag_if (c \<noteq> 0) SR_C) AND SR_C \<noteq> 0 \<longleftrightarrow> c \<noteq> 0"
    by (simp add: flag_bits bit_simps)
  moreover have "c = 0 \<or> c = 1" using sum by auto
  ultimately show ?thesis using sum by auto
qed

theorem dadd_is_decimal_witness:
  "let r = fst (msp430_dadd_bcd 0x0199 0x0901 (op_mask False False) 1) in bcd_val 0 4 r = 1101"
proof -
  have four: "(4 :: nat) = Suc (Suc (Suc (Suc 0)))" by simp
  have "bcd_ok 0 4 0x0199" "bcd_ok 0 4 0x0901" unfolding four bcd_ok_Suc by (simp_all add: digit_div bcd_ok_def)
  from dadd_is_decimal [OF _ this surjective_pairing refl, of False False 1]
  have "bcd_val 0 4 (fst (msp430_dadd_bcd 0x0199 0x0901 (op_mask False False) 1)) = (bcd_val 0 4 0x0199 + bcd_val 0 4 0x0901 + 1) mod 10 ^ 4"
    by (simp add: op_digits_def)
  moreover have "bcd_val 0 4 0x0199 = 199" "bcd_val 0 4 0x0901 = 901" unfolding four bcd_val.simps by (simp_all add: digit_div)
  ultimately show ?thesis unfolding Let_def by simp
qed

subsection \<open>Comparison\<close>

definition op_width :: "bool \<Rightarrow> bool \<Rightarrow> nat" where
  "op_width is_addr bw = 4 * op_digits is_addr bw"

definition signed_val :: "nat \<Rightarrow> u32 \<Rightarrow> int" where
  "signed_val n w = (if bit w (n - 1) then uint w - 2 ^ n else uint w)"

lemma top_bit_iff:
  fixes w :: u32
  assumes "uint w < 2 ^ Suc n"
  shows "bit w n \<longleftrightarrow> 2 ^ n \<le> uint w"
proof -
  have "bit w n \<longleftrightarrow> bit (uint w) n" using bit_imp_le_length [of w n] by (auto simp: bit_uint_iff)
  hence "bit w n \<longleftrightarrow> odd (uint w div 2 ^ n)" by (simp add: bit_iff_odd)
  moreover have "uint w div 2 ^ n = (if 2 ^ n \<le> uint w then 1 else 0)"
    using assms by (auto intro: int_div_pos_eq [where r = "uint w - 2 ^ n"])
  ultimately show ?thesis by simp
qed

lemma op_msb_width: "op_msb is_addr bw = push_bit (op_width is_addr bw - 1) 1"
  by (simp add: op_msb_def op_width_def op_digits_def)

lemma op_width_pos [simp]: "0 < op_width is_addr bw"
  by (simp add: op_width_def op_digits_def)

lemma and_msb: "(w AND op_msb is_addr bw = 0) \<longleftrightarrow> \<not> bit w (op_width is_addr bw - 1)"
  by (simp add: op_msb_def op_width_def op_digits_def flag_bits)

lemma uint_op_mask: "uint (w AND op_mask is_addr bw) = uint w mod 2 ^ op_width is_addr bw"
  by (simp add: op_mask_digits op_width_def take_bit_eq_mask [symmetric] unsigned_take_bit_eq) (simp add: take_bit_eq_mod)

lemma bit_op_mask_msb [simp]: "bit (op_mask is_addr bw) (op_width is_addr bw - Suc 0)"
  by (simp add: op_mask_def op_width_def op_digits_def)

lemma bit_op_mask: "i < op_width is_addr bw \<Longrightarrow> bit (w AND op_mask is_addr bw) i = bit w i"
  using bit_imp_le_length [of w i] by (auto simp: op_mask_digits op_width_def bit_simps)

text \<open>The numbers behind the flags of a comparison: the difference modulo the width.\<close>

lemma mod_diff_small:
  fixes a b m :: int
  assumes "0 \<le> a" "a < m" "0 \<le> b" "b < m"
  shows "(a - b) mod m = (if b \<le> a then a - b else a - b + m)"
  using assms mod_pos_pos_trivial [of "a - b" m] mod_pos_pos_trivial [of "a - b + m" m] by (simp add: mod_add_self2)

lemma compare_numbers:
  fixes p a b :: int
  assumes "0 \<le> a" "a < 2 * p" "0 \<le> b" "b < 2 * p" "d = (a - b) mod (2 * p)"
  shows "((p \<le> d) \<noteq> ((p \<le> b) = (p \<le> d) \<and> (p \<le> b) \<noteq> (p \<le> a)))
    \<longleftrightarrow> (if p \<le> a then a - 2 * p else a) < (if p \<le> b then b - 2 * p else b)"
proof -
  have "d = (if b \<le> a then a - b else a - b + 2 * p)" unfolding assms(5) by (rule mod_diff_small [OF assms(1-4)])
  thus ?thesis using assms(1-4) by auto
qed

definition compare_sr ::
  "'a msp430_cpu_scheme msp430_host \<Rightarrow> bool \<Rightarrow> bool \<Rightarrow> u32 \<Rightarrow> u32 \<Rightarrow> 'a msp430_cpu_scheme \<Rightarrow> u32" where
  "compare_sr h is_addr bw src dst cpu =
     reg (snd (alu_step h is_addr bw True 0x9 4 (-1) src dst (reg cpu MSP430_SR) cpu)) MSP430_SR"

lemma compare_sr_bits:
  "bit (compare_sr h is_addr bw src dst cpu) 0 \<longleftrightarrow> src \<le> dst"
  "bit (compare_sr h is_addr bw src dst cpu) (Suc 0) \<longleftrightarrow> (dst - src) AND op_mask is_addr bw = 0"
  "bit (compare_sr h is_addr bw src dst cpu) 2 \<longleftrightarrow> bit (dst - src) (op_width is_addr bw - 1)"
  "bit (compare_sr h is_addr bw src dst cpu) 8 \<longleftrightarrow>
     bit src (op_width is_addr bw - 1) = bit (dst - src) (op_width is_addr bw - 1)
     \<and> bit src (op_width is_addr bw - 1) \<noteq> bit dst (op_width is_addr bw - 1)"
  unfolding compare_sr_def
  by (simp_all add: alu_step_def alu_def sets_flags_def writes_result_def write_sr_flags_def put_reg_def Let_def nz_flags_def
      and_msb bit_op_mask bit_simps flag_bits)

lemma jump_negations:
  "jump_taken 0 sr = (\<not> jump_taken 1 sr)" "jump_taken 2 sr = (\<not> jump_taken 3 sr)" "jump_taken 5 sr = (\<not> jump_taken 6 sr)"
  by (simp_all add: jump_taken_def)

text \<open>
  C29. A comparison followed by a conditional jump decides the order of the operands, in byte, word and address width: JEQ
  equality, JC the unsigned order, JL the signed order, and JNE, JNC and JGE their negations.
\<close>

theorem cmp_jumps_decide_order:
  assumes "uint src < 2 ^ op_width is_addr bw" "uint dst < 2 ^ op_width is_addr bw" "sr = compare_sr h is_addr bw src dst cpu"
  shows "(jump_taken 1 sr \<longleftrightarrow> dst = src) \<and> (jump_taken 3 sr \<longleftrightarrow> src \<le> dst) \<and>
    (jump_taken 6 sr \<longleftrightarrow> signed_val (op_width is_addr bw) dst < signed_val (op_width is_addr bw) src) \<and>
    jump_taken 0 sr = (\<not> jump_taken 1 sr) \<and> jump_taken 2 sr = (\<not> jump_taken 3 sr) \<and> jump_taken 5 sr = (\<not> jump_taken 6 sr)"
proof -
  let ?n = "op_width is_addr bw"
  define p :: int where "p = 2 ^ (?n - 1)"
  have p: "2 ^ ?n = 2 * p" using op_width_pos [of is_addr bw] unfolding p_def by (cases ?n) simp_all
  define d where "d = (dst - src) AND op_mask is_addr bw"
  have d: "uint d = (uint dst - uint src) mod 2 ^ ?n"
    unfolding d_def uint_op_mask by (simp add: uint_word_ariths) (simp add: op_width_def op_digits_def mod_mod_cancel)
  have top: "bit w (?n - 1) \<longleftrightarrow> p \<le> uint w" if "uint w < 2 ^ ?n" for w :: u32
    using that top_bit_iff [of w "?n - 1"] unfolding p_def by simp
  have "bit (dst - src) (?n - 1) = bit d (?n - 1)" unfolding d_def by (simp add: bit_op_mask)
  hence bd: "bit (dst - src) (?n - 1) \<longleftrightarrow> p \<le> uint d" using d by (subst top [symmetric]) simp_all
  have "d = 0 \<longleftrightarrow> uint dst mod 2 ^ ?n = uint src mod 2 ^ ?n"
    unfolding word_uint_eq_iff [of d] d mod_eq_dvd_iff by (simp add: mod_eq_0_iff_dvd)
  hence "d = 0 \<longleftrightarrow> dst = src" using assms(1, 2) by (simp add: word_uint_eq_iff)
  moreover have "jump_taken 6 sr \<longleftrightarrow> (if p \<le> uint dst then uint dst - 2 * p else uint dst) < (if p \<le> uint src then uint src - 2 * p else uint src)"
  proof -
    have "jump_taken 6 sr \<longleftrightarrow> bit sr 2 \<noteq> bit sr 8" by (simp add: jump_taken_def flag_bits)
    also have "\<dots> \<longleftrightarrow> (p \<le> uint d) \<noteq> ((p \<le> uint src) = (p \<le> uint d) \<and> (p \<le> uint src) \<noteq> (p \<le> uint dst))"
      unfolding assms(3) compare_sr_bits bd top [OF assms(1)] top [OF assms(2)] ..
    also have "\<dots> \<longleftrightarrow> (if p \<le> uint dst then uint dst - 2 * p else uint dst) < (if p \<le> uint src then uint src - 2 * p else uint src)"
      using assms(1, 2) d unfolding p by (intro compare_numbers) simp_all
    finally show ?thesis .
  qed
  moreover have "jump_taken 1 sr \<longleftrightarrow> d = 0" "jump_taken 3 sr \<longleftrightarrow> src \<le> dst"
    by (simp_all add: jump_taken_def flag_bits assms(3) compare_sr_bits d_def)
  ultimately show ?thesis
    unfolding signed_val_def top [OF assms(1)] top [OF assms(2)] p jump_negations by blast
qed

theorem cmp_jumps_decide_order_witness:
  "\<forall>h (cpu :: msp430_cpu). jump_taken 6 (compare_sr h False True 1 0x80 cpu) \<and> jump_taken 3 (compare_sr h False True 1 0x80 cpu)"
proof (intro allI)
  fix h and cpu :: msp430_cpu
  have w: "op_width False True = 8" by (simp add: op_width_def op_digits_def)
  show "jump_taken 6 (compare_sr h False True 1 0x80 cpu) \<and> jump_taken 3 (compare_sr h False True 1 0x80 cpu)"
    using cmp_jumps_decide_order [where src = 1 and is_addr = False and bw = True and dst = "0x80" and h = h and cpu = cpu, OF _ _ refl]
    unfolding w by (simp add: signed_val_def)
qed

lemma cmpa_numbers:
  fixes p a b :: int
  assumes "0 \<le> a" "a < 2 * p" "0 \<le> b" "b < 2 * p" "d = (if b \<le> a then a - b else a - b + 2 * p)"
    "u = (if p \<le> a then a - 2 * p else a)" "v = (if p \<le> b then b - 2 * p else b)"
  shows "(((a < b) \<noteq> ((p \<le> a) = (p \<le> d) \<and> (p \<le> a) \<noteq> (p \<le> b))) \<longleftrightarrow> u < v) \<longleftrightarrow> - p \<le> u - v \<and> u - v < p"
  using assms by auto

lemma cmpa_flags_bits:
  "bit (cmpa_flags sr dst src) 2 \<longleftrightarrow> dst < src"
  "bit (cmpa_flags sr dst src) 8 \<longleftrightarrow> bit dst 19 = bit (dst - src) 19 \<and> bit dst 19 \<noteq> bit src 19"
  unfolding cmpa_flags_def by (auto simp: bit_simps flag_bits)

text \<open>
  The signed jumps after CMPA are right exactly when the 20-bit subtraction does not overflow: N is set from the
  unsigned order and V when the result has the sign of the destination, which is the opposite of an overflow.
\<close>

theorem cmpa_signed_jump_iff:
  assumes "uint src < 2 ^ 20" "uint dst < 2 ^ 20"
  shows "(jump_taken 6 (cmpa_flags sr dst src) \<longleftrightarrow> signed_val 20 dst < signed_val 20 src)
    \<longleftrightarrow> - (2 ^ 19) \<le> signed_val 20 dst - signed_val 20 src \<and> signed_val 20 dst - signed_val 20 src < 2 ^ 19"
proof -
  have top: "bit w 19 \<longleftrightarrow> 2 ^ 19 \<le> uint w" if "uint w < 2 ^ 20" for w :: u32 using top_bit_iff [of w 19] that by simp
  have uint_take_20: "uint (take_bit 20 (dst - src)) = (uint dst - uint src) mod 2 ^ 20"
    unfolding unsigned_take_bit_eq by (simp only: take_bit_eq_mod uint_word_ariths) (simp add: mod_mod_cancel)
  hence take_20: "uint (take_bit 20 (dst - src)) < 2 ^ 20" by simp
  have "bit (dst - src) 19 = bit (take_bit 20 (dst - src)) 19" by (simp add: bit_take_bit_iff)
  also have "\<dots> = (2 ^ 19 \<le> (uint dst - uint src) mod 2 ^ 20)"
    unfolding top [OF take_20] uint_take_20 ..
  also have "(uint dst - uint src) mod 2 ^ 20 = (if src \<le> dst then uint dst - uint src else uint dst - uint src + 2 ^ 20)"
    unfolding word_le_def by (rule mod_diff_small [OF _ assms(2) _ assms(1)]) simp_all
  finally have d: "bit (dst - src) 19 \<longleftrightarrow> 2 ^ 19 \<le> (if src \<le> dst then uint dst - uint src else uint dst - uint src + 2 ^ 20)" .
  have sv: "signed_val 20 w = (if 2 ^ 19 \<le> uint w then uint w - 2 * 2 ^ 19 else uint w)" if "uint w < 2 ^ 20" for w
    unfolding signed_val_def using top [OF that] by simp
  have j: "jump_taken 6 (cmpa_flags sr dst src) \<longleftrightarrow> bit (cmpa_flags sr dst src) 2 \<noteq> bit (cmpa_flags sr dst src) 8"
    by (simp add: jump_taken_def flag_bits)
  show ?thesis unfolding j cmpa_flags_bits d top [OF assms(1)] top [OF assms(2)] word_less_def word_le_def
    by (rule cmpa_numbers [OF _ _ _ _ _ sv [OF assms(2)] sv [OF assms(1)]]) (use assms in simp_all)
qed

theorem cmpa_signed_jump_iff_witness:
  "\<not> (jump_taken 6 (cmpa_flags 0 0x80000 1) \<longleftrightarrow> signed_val 20 0x80000 < signed_val 20 1)"
  using cmpa_signed_jump_iff [of 1 "0x80000" 0] by (simp add: signed_val_def)
end
