(* ===== verification/Msp430_Shift_Correct.thy ===== *)
theory Msp430_Shift_Correct
  imports Msp430_Alu_Correct
begin

text \<open>
  The multiple shifts of the MSP430X (RRCM, RRAM, RLAM, RRUM) are closed formulas in the emulator. They are
  shown equal to the repeated single shift, which the emulator implements for RRC, RRA and ADD.
\<close>

subsection \<open>The single shift\<close>

text \<open>One shift, as the single-operand and the addition instructions of the emulator do it.\<close>

definition carry_of :: "u32 \<times> u32 \<Rightarrow> u32 \<times> bool" where
  "carry_of = (\<lambda>(v, sr). (v, sr AND SR_C \<noteq> 0))"

definition shift_once :: "nat \<Rightarrow> bool \<Rightarrow> u32 \<times> bool \<Rightarrow> u32 \<times> bool" where
  "shift_once kind word = (\<lambda>(v, c).
     let msb = op_msb (\<not> word) False; msk = op_mask (\<not> word) False in
     if kind = 0 then carry_of (rotate_right_carry msb (flag_if c SR_C) v)
     else if kind = 1 then carry_of (shift_right_arith msb 0 v)
     else if kind = 2 then (let (w, d) = carry_of (alu_add v v 0 msk msb 0) in (w AND msk, d))
     else carry_of (rotate_right_carry msb 0 v))"

definition shift_width :: "bool \<Rightarrow> nat" where
  "shift_width word = (if word then 16 else 20)"

lemma double_carry: "uint v < 2 ^ shift_width word \<Longrightarrow> v + v > op_mask (\<not> word) False \<longleftrightarrow> bit v (shift_width word - 1)"
  using top_bit_iff [of v "shift_width word - 1"]
  by (auto simp: shift_width_def op_mask_def word_less_def uint_word_ariths)


lemma bit_sign_16: "bit (0xf8000 :: u32) i \<longleftrightarrow> 15 \<le> i \<and> i < 20"
proof -
  have "bit (push_bit 15 (mask 5) :: u32) i \<longleftrightarrow> 15 \<le> i \<and> i < 20" by (auto simp: bit_simps)
  thus ?thesis by (simp add: mask_eq_exp_minus_1)
qed

lemma bit_sign_20: "bit (0xf80000 :: u32) i \<longleftrightarrow> 19 \<le> i \<and> i < 24"
proof -
  have "bit (push_bit 19 (mask 5) :: u32) i \<longleftrightarrow> 19 \<le> i \<and> i < 24" by (auto simp: bit_simps)
  thus ?thesis by (simp add: mask_eq_exp_minus_1)
qed
text \<open>One shift on the bits of the operand.\<close>

definition shift_bits :: "nat \<Rightarrow> bool \<Rightarrow> u32 \<times> bool \<Rightarrow> u32 \<times> bool" where
  "shift_bits kind word = (\<lambda>(v,c). 
    (if kind = 0 then (drop_bit 1 v OR (if c then push_bit (shift_width word - 1) 1 else 0), bit v 0)
     else if kind = 1 then (drop_bit 1 v OR (if bit v (shift_width word - 1) then push_bit (shift_width word - 1) 1 else 0), bit v 0)
     else if kind = 2 then (take_bit (shift_width word) (push_bit 1 v), bit v (shift_width word - 1))
     else (drop_bit 1 v, bit v 0)))"

lemma shift_bits_simps:
  "shift_bits 0 word (v, c) = (drop_bit 1 v OR (if c then push_bit (shift_width word - 1) 1 else 0), bit v 0)"
  "shift_bits 1 word (v, c) = (drop_bit 1 v OR (if bit v (shift_width word - 1) then push_bit (shift_width word - 1) 1 else 0), bit v 0)"
  "shift_bits 2 word (v, c) = (take_bit (shift_width word) (push_bit 1 v), bit v (shift_width word - 1))"
  "shift_bits 3 word (v, c) = (drop_bit 1 v, bit v 0)"
  by (simp_all add: shift_bits_def)

lemma masks: "w AND 0xffff = take_bit 16 (w :: u32)" "w AND 0xfffff = take_bit 20 (w :: u32)"  by (simp_all add: take_bit_eq_mask mask_eq_exp_minus_1)

lemma shift_width_bounds: "0 < shift_width word" "shift_width word < 32" "shift_width word < 31" "4 < shift_width word" "0 < n \<Longrightarrow> n \<le> 4 \<Longrightarrow> n < shift_width word" by (simp_all add: shift_width_def)

lemma bit_shift_in:
  fixes r :: u32
  assumes "w < 32" "0 < w" "\<And>i. w \<le> i \<Longrightarrow> \<not> bit r i"
  shows "bit (drop_bit 1 r OR (if b then push_bit (w - 1) 1 else 0)) i \<longleftrightarrow> (if i + 1 < w then bit r (i + 1) else i + 1 = w \<and> b)"
proof -
  have "bit (drop_bit 1 r) i \<longleftrightarrow> bit r (i + 1)" by (simp add: bit_drop_bit_eq add.commute)
  moreover have "bit (push_bit (w - 1) 1 :: u32) i \<longleftrightarrow> i + 1 = w" using assms(1, 2) by (auto simp: bit_simps)
  ultimately show ?thesis using assms(3) [of "i + 1"] by (cases "i + 1 < w") (simp_all add: bit_or_iff)
qed

lemma bit_double: "w < 32 \<Longrightarrow> bit (take_bit w (push_bit 1 (r :: u32))) i \<longleftrightarrow> i < w \<and> 0 < i \<and> bit r (i - 1)"
proof -
  assume "w < 32"
  hence "bit (push_bit 1 r) i \<longleftrightarrow> 0 < i \<and> bit r (i - 1)" if "i < w" using that
    by (simp only: bit_push_bit_iff) (auto simp: Suc_le_eq)
  thus ?thesis by (auto simp only: bit_take_bit_iff)
qed

lemma shift_bits_rrc:
  assumes "\<And>i. bit v i \<Longrightarrow> i < shift_width word" "n < shift_width word" "(shift_bits 0 word ^^ n) (v, c) = (r, d)"
  shows "(\<forall>i. bit r i \<longleftrightarrow> i < shift_width word \<and> (if i + n < shift_width word then bit v (i + n) else if i + n = shift_width word then c else bit v (i + n - shift_width word - 1)))
    \<and> d = (if n = 0 then c else bit v (n - 1))"
  using assms(2, 3)
proof (induction n arbitrary: r d)
  case (Suc n)
  obtain r' d' where r: "(shift_bits 0 word ^^ n) (v, c) = (r', d')" by fastforce
  have 1: "r = drop_bit 1 r' OR (if d' then push_bit (shift_width word - 1) 1 else 0)" "d = bit r' 0"
    using Suc.prems by (simp_all add: r shift_bits_simps del: One_nat_def)
  have "bit r i \<longleftrightarrow> (if i + 1 < shift_width word then bit r' (i + 1) else i + 1 = shift_width word \<and> d')" for i
    unfolding 1 by (rule bit_shift_in [OF shift_width_bounds(2, 1)]) (use Suc.IH [OF _ r] Suc.prems in simp)
  moreover have "bit r' i \<longleftrightarrow> i < shift_width word \<and> (if i + n < shift_width word then bit v (i + n) else if i + n = shift_width word then c else bit v (i + n - shift_width word - 1))"
    "d' = (if n = 0 then c else bit v (n - 1))" for i using Suc.IH [OF _ r] Suc.prems by simp_all
  ultimately have b: "bit r i \<longleftrightarrow> (if i + 1 < shift_width word then i + 1 < shift_width word \<and> (if i + 1 + n < shift_width word then bit v (i + 1 + n)
      else if i + 1 + n = shift_width word then c else bit v (i + 1 + n - shift_width word - 1)) else i + 1 = shift_width word \<and> (if n = 0 then c else bit v (n - 1)))"
    and d: "d \<longleftrightarrow> bit v n" for i using 1(2) Suc.prems(1) by simp_all
  have "bit r i \<longleftrightarrow> i < shift_width word \<and> (if i + Suc n < shift_width word then bit v (i + Suc n) else if i + Suc n = shift_width word then c else bit v (i + Suc n - shift_width word - 1))" for i
  proof (cases "i + 1 = shift_width word")
    case True
    hence "i + Suc n - shift_width word - 1 = n - 1" by simp
    thus ?thesis using True unfolding b by auto
  qed (simp add: b)
  thus ?case using d by simp
qed (use assms(1) in auto)

lemma shift_bits_rra:
  assumes "\<And>i. bit v i \<Longrightarrow> i < shift_width word" "n < shift_width word" "(shift_bits 1 word ^^ n) (v, c) = (r, d)"
  shows "(\<forall>i. bit r i \<longleftrightarrow> i < shift_width word \<and> bit v (min (i + n) (shift_width word - 1))) \<and> d = (if n = 0 then c else bit v (n - 1))"
  using assms(2, 3)
proof (induction n arbitrary: r d)
  case (Suc n)
  obtain r' d' where r: "(shift_bits 1 word ^^ n) (v, c) = (r', d')" by fastforce
  have 1: "r = drop_bit 1 r' OR (if bit r' (shift_width word - 1) then push_bit (shift_width word - 1) 1 else 0)" "d = bit r' 0"
    using Suc.prems by (simp_all add: r shift_bits_simps del: One_nat_def)
  have IH: "bit r' i \<longleftrightarrow> i < shift_width word \<and> bit v (min (i + n) (shift_width word - 1))" for i
    using Suc.IH [OF _ r] Suc.prems by simp_all
  have "bit r i \<longleftrightarrow> (if i + 1 < shift_width word then bit r' (i + 1) else i + 1 = shift_width word \<and> bit r' (shift_width word - 1))" for i
    unfolding 1 by (rule bit_shift_in [OF shift_width_bounds(2, 1)]) (simp add: IH)
  moreover have "min (i + 1 + n) (shift_width word - 1) = min (i + Suc n) (shift_width word - 1)" "i + 1 = shift_width word \<Longrightarrow> min (shift_width word - 1 + n) (shift_width word - 1) = min (i + Suc n) (shift_width word - 1)" for i
    by simp_all
  moreover have "d = bit v n" using IH [of 0] 1(2) Suc.prems(1) by (simp add: min_absorb1)
  ultimately show ?case unfolding IH using shift_width_bounds(1) [where word = word] by (auto split: if_splits)
next
  case 0
  have "min i (shift_width word - 1) = i" if "i < shift_width word" for i using that by simp
  thus ?case using 0 assms(1) by (metis add_0_right funpow_0 prod.inject)
qed

lemma shift_bits_rla:
  assumes "\<And>i. bit v i \<Longrightarrow> i < shift_width word" "n < shift_width word" "(shift_bits 2 word ^^ n) (v, c) = (r, d)"
  shows "(\<forall>i. bit r i \<longleftrightarrow> i < shift_width word \<and> n \<le> i \<and> bit v (i - n)) \<and> d = (if n = 0 then c else bit v (shift_width word - n))"
  using assms(2, 3)
proof (induction n arbitrary: r d)
  case (Suc n)
  obtain r' d' where r: "(shift_bits 2 word ^^ n) (v, c) = (r', d')" by fastforce
  have 1: "r = take_bit (shift_width word) (push_bit 1 r')" "d = bit r' (shift_width word - 1)"
    using Suc.prems by (simp_all add: r shift_bits_simps del: One_nat_def)
  have IH: "bit r' i \<longleftrightarrow> i < shift_width word \<and> n \<le> i \<and> bit v (i - n)" for i
    using Suc.IH [OF _ r] Suc.prems by simp_all
  have "bit r i \<longleftrightarrow> i < shift_width word \<and> 0 < i \<and> bit r' (i - 1)" for i
    unfolding 1 by (rule bit_double [OF shift_width_bounds(2)])
  hence "bit r i \<longleftrightarrow> i < shift_width word \<and> Suc n \<le> i \<and> bit v (i - Suc n)" for i
    using IH [of "i - 1"] less_trans [of "i - 1" i "shift_width word"] by (cases i) (simp_all only: diff_Suc_1 diff_0_eq_0 diff_Suc_Suc Suc_le_mono not_less_zero simp_thms le_zero_eq nat.distinct lessI zero_less_Suc, blast)
  moreover have "d = bit v (shift_width word - Suc n)" using IH [of "shift_width word - 1"] 1(2) Suc.prems(1) by auto
  ultimately show ?case by simp
qed (use assms(1) in auto)

lemma bit_rotated:
  fixes v :: u32
  assumes w: "w < 31" "0 < n" "n < w" and v: "\<And>i. w \<le> i \<Longrightarrow> \<not> bit v i"
  shows "bit (take_bit w (drop_bit n v OR push_bit (w + 1 - n) (v AND mask n) OR push_bit (w - n) (if c then 1 else 0))) i
    \<longleftrightarrow> i < w \<and> (if i + n < w then bit v (i + n) else if i + n = w then c else bit v (i + n - w - 1))"
proof (cases "i < w")
  case True
  have one: "bit (push_bit (w - n) (if c then 1 else 0) :: u32) i \<longleftrightarrow> i + n = w \<and> c" using w True by (auto simp: bit_simps)
  have low: "bit (push_bit (w + 1 - n) (v AND mask n)) i \<longleftrightarrow> w < i + n \<and> bit v (i + n - w - 1)"
  proof (cases "w < i + n")
    case a: True
    hence "i - (w + 1 - n) = i + n - w - 1" "w + 1 - n \<le> i" "i + n - w - 1 < n" using w True by auto
    thus ?thesis using w True a by (simp only: bit_push_bit_iff bit_and_iff bit_mask_iff) simp
  next
    case False
    hence "\<not> w + 1 - n \<le> i" using w by simp
    thus ?thesis using False by (simp only: bit_push_bit_iff) simp
  qed
  have "bit (drop_bit n v) i \<longleftrightarrow> bit v (i + n)" by (simp add: bit_drop_bit_eq add.commute)
  thus ?thesis using True one low v [of "i + n"] by (simp only: bit_take_bit_iff bit_or_iff) (auto split: if_splits)
qed (simp only: bit_take_bit_iff, simp)

lemma shift_bits_rru:
  assumes "(shift_bits 3 word ^^ n) (v, c) = (r, d)" 
  shows "(\<forall>i. bit r i \<longleftrightarrow> bit v (i + n)) \<and> d = (if n = 0 then c else bit v (n - 1))"
  using assms
proof (induction n arbitrary: r d)
  case (Suc n)
  obtain r' d' where r: "(shift_bits 3 word ^^ n) (v, c) = (r', d')" by fastforce
  have 1: "r = drop_bit 1 r'" "d = bit r' 0" using Suc.prems by (simp_all add: r shift_bits_simps del: One_nat_def)
  show ?case unfolding 1 using Suc.IH [OF r] by (auto simp: bit_simps)
qed auto

lemma shift_bits_rrxx:
  assumes v: "\<And>i. bit v i \<Longrightarrow> i < shift_width word" and n: "0 < n" "n \<le> 4" and k: "kind \<in> {0, 1, 2, 3}" 
   and rr: "rrxx kind word n c v = (r, d)"
  shows "(shift_bits kind word ^^ n) (v, c) = (take_bit (shift_width word) r, d)"
proof -
  obtain r' d' where r: "(shift_bits kind word ^^ n) (v, c) = (r', d')" by fastforce
  have v': "\<not> bit v i" if "shift_width word \<le> i" for i using v [of i] that by auto
  have vm: "(if word then v AND 0xffff else v) = v"
   by (rule bit_word_eqI) (use v in \<open>auto simp: masks bit_simps shift_width_def\<close>)
  have "r' = take_bit (shift_width word) r \<and> d' = d"
  proof -
    consider "kind = 0" | "kind = 1" | "kind = 2" | "kind = 3" using k by blast
    thus ?thesis
    proof cases
      case 1
      have e: "r = drop_bit n v OR push_bit (shift_width word + 1 - n) (v AND mask n) OR push_bit (shift_width word - n) (if c then 1 else 0)" "d = bit v (n - 1)"
        using rr by (simp_all add: 1 rrxx_def vm rrcm_def Let_def mask_eq_exp_minus_1 and_exp_eq_0_iff_not_bit shift_width_def split: if_splits)
      have "bit r' i = bit (take_bit (shift_width word) r) i" for i
        unfolding e(1) using shift_bits_rrc [OF v shift_width_bounds(5) [OF n] r [unfolded 1]] n by (simp only: bit_rotated [OF shift_width_bounds(3) n(1) shift_width_bounds(5) [OF n] v'])
      thus ?thesis using shift_bits_rrc [OF v shift_width_bounds(5) [OF n] r [unfolded 1]] n e(2) by (auto intro: bit_word_eqI)
    next
      case 2
      define e where "e = (if bit v (shift_width word - 1) then v OR (if word then 0xf8000 else 0xf80000) else v)"
      have d: "r = drop_bit 1 (drop_bit (n - 1) e)" "d = bit e (n - 1)"
        using rr by (simp_all add: 2 rrxx_def vm rram_def Let_def e_def flag_bits shift_width_def split: if_splits) (auto simp: bit_simps)
      have e: "bit e i \<longleftrightarrow> bit v (min i (shift_width word - 1))" if "i < shift_width word + 4" for i
      proof (cases "i < shift_width word")
        case True
        hence "min i (shift_width word - 1) = i" by simp
        moreover have "bit (if word then 0xf8000 else 0xf80000 :: u32) i \<Longrightarrow> i = shift_width word - 1"
          using True bit_sign_16 [of i] bit_sign_20 [of i] unfolding shift_width_def by (cases word) simp_all
        ultimately show ?thesis unfolding e_def by (cases "bit v (shift_width word - 1)") (simp_all only: bit_or_iff if_True if_False, blast)
      next
        case False
        hence "min i (shift_width word - 1) = shift_width word - 1" by simp
        thus ?thesis using False that v [of i] bit_sign_16 [of i] bit_sign_20 [of i] unfolding e_def by (cases word) (auto simp: bit_or_iff shift_width_def)
      qed
      have "bit (drop_bit 1 (drop_bit (n - 1) e)) i \<longleftrightarrow> bit e (i + n)" for i using n by (simp add: bit_drop_bit_eq add.commute)
      hence "bit r' i = bit (take_bit (shift_width word) r) i" for i
        unfolding d(1) using shift_bits_rra [OF v shift_width_bounds(5) [OF n] r [unfolded 2]] n e [of "i + n"] by (auto simp only: bit_take_bit_iff)
      thus ?thesis using shift_bits_rra [OF v shift_width_bounds(5) [OF n] r [unfolded 2]] n d(2) e [of "n - 1"] shift_width_bounds(5) [of n word] by (auto intro: bit_word_eqI simp: min_absorb1)
    next
      case 3
      have "push_bit n v = push_bit (n - 1) v * 2" using n by (cases n) (simp_all add: push_bit_double)
      hence e: "r = push_bit n v" "d = bit (push_bit (n - 1) v) (shift_width word - 1)"
        using rr n by (simp_all add: 3 rrxx_def vm rlam_def Let_def flag_bits shift_width_def split: if_splits)
      have b: "bit r' i \<longleftrightarrow> i < shift_width word \<and> n \<le> i \<and> bit v (i - n)" "d' = bit v (shift_width word - n)" for i
        using shift_bits_rla [OF v shift_width_bounds(5) [OF n] r [unfolded 3]] n by simp_all
      have "i < shift_width word \<Longrightarrow> i < 32" for i using shift_width_bounds(2) [of word] by linarith
      hence "bit r' i = bit (take_bit (shift_width word) r) i" for i
        unfolding e(1) b bit_take_bit_iff bit_push_bit_iff by auto
      moreover have "shift_width word - 1 - (n - 1) = shift_width word - n" "n - 1 \<le> shift_width word - 1" "shift_width word - 1 < 32"
        using n shift_width_bounds(5) [OF n, of word] shift_width_bounds(2) [of word] by simp_all
      hence "d = d'" unfolding e(2) b bit_push_bit_iff by simp
      ultimately show ?thesis by (auto intro: bit_word_eqI)
    next
      case 4
      have e: "r = drop_bit n v" "d = bit v (n - 1)"
        using rr n by (simp_all add: 4 rrxx_def vm rrum_def Let_def flag_bits split: if_splits) (auto simp: bit_simps)
      have "bit r' i = bit (take_bit (shift_width word) r) i" for i
        unfolding e(1) using shift_bits_rru [OF r [unfolded 4]] v [of "i + n"] by (auto simp: bit_take_bit_iff bit_drop_bit_eq add.commute)
      thus ?thesis using shift_bits_rru [OF r [unfolded 4]] n e(2) by (auto intro: bit_word_eqI)
    qed
  qed
  thus ?thesis using r by simp
qed

subsection \<open>Iterating the single shift\<close>

definition narrow :: "bool \<Rightarrow> u32 \<Rightarrow> bool" where
  "narrow word v \<longleftrightarrow> (\<forall>i. bit v i \<longrightarrow> i < shift_width word)"

lemma narrow_less: "narrow word v \<longleftrightarrow> uint v < 2 ^ shift_width word"
proof -
  have "narrow word v \<longleftrightarrow> take_bit (shift_width word) v = v"
    unfolding narrow_def by (metis bit_take_bit_iff bit_word_eqI)
  also have "\<dots> \<longleftrightarrow> take_bit (shift_width word) (uint v) = uint v"
    by (metis unsigned_take_bit_eq word_eq_iff_unsigned)
  also have "\<dots> \<longleftrightarrow> uint v < 2 ^ shift_width word" by (simp add: take_bit_int_eq_self_iff)
  finally show ?thesis .
qed

lemma op_masks: "v AND op_mask (\<not> word) False = take_bit (shift_width word) v"
  by (simp add: op_mask_def shift_width_def masks)

lemma op_msbs: "op_msb (\<not> word) False = push_bit (shift_width word - 1) 1"
  by (simp add: op_msb_def shift_width_def)

lemma and_op_msbs: "(v AND op_msb (\<not> word) False = 0) \<longleftrightarrow> \<not> bit v (shift_width word - 1)"
  by (simp add: op_msb_def shift_width_def flag_bits)

lemma shift_once_bits:
  assumes "narrow word v"
  shows "shift_once kind word (v, c) = shift_bits kind word (v, c)"
proof -
  have "v AND op_msb (\<not> word) False = (if bit v (shift_width word - 1) then push_bit (shift_width word - 1) 1 else 0)"
    unfolding op_msbs by (rule bit_word_eqI) (auto simp: bit_simps)
  thus ?thesis using double_carry [of v word] assms
    unfolding shift_once_def shift_bits_def carry_of_def rotate_right_carry_def shift_right_arith_def alu_add_def flag_if_def narrow_less op_masks
    by (auto simp: flag_bits bit_simps Let_def op_msbs op_masks mult_2_right or.commute)
qed

lemma narrow_shift_bits: "narrow word v \<Longrightarrow> narrow word (fst (shift_bits kind word (v, c)))"
  using shift_width_bounds(2) [of word] shift_width_bounds(1) [of word]
  by (auto simp: narrow_def shift_bits_def bit_or_iff bit_drop_bit_eq bit_take_bit_iff bit_push_bit_iff bit_exp_iff split: if_splits)

lemma shift_once_funpow:
  "narrow word v \<Longrightarrow> (shift_once kind word ^^ n) (v, c) = (shift_bits kind word ^^ n) (v, c) \<and> narrow word (fst ((shift_bits kind word ^^ n) (v, c)))"
proof (induction n)
  case (Suc n)
  thus ?case using shift_once_bits narrow_shift_bits by (cases "(shift_bits kind word ^^ n) (v, c)") simp
qed simp

lemma rrxx_iterates:
  assumes "narrow word v" "0 < n" "n \<le> 4" "kind < 4" "rrxx kind word n c v = (r, d)"
  shows "(shift_once kind word ^^ n) (v, c) = (r AND op_mask (\<not> word) False, d)"
proof -
  have "kind \<in> {0, 1, 2, 3}" using assms(4) by auto
  hence "(shift_bits kind word ^^ n) (v, c) = (take_bit (shift_width word) r, d)"
    using assms(1) by (intro shift_bits_rrxx [OF _ assms(2, 3) _ assms(5)]) (simp_all add: narrow_def)
  thus ?thesis using shift_once_funpow [OF assms(1)] by (simp add: op_masks)
qed

lemma bits_of_less: "n \<le> 16 \<Longrightarrow> bits_of w lo n < 2 ^ n"
  unfolding bits_of_def by (simp add: unsigned_take_bit_eq)

text \<open>
  C39. A multiple shift leaves what as many single shifts leave: the value of the register, the carry that was shifted out
  last, Z and N of the value and V cleared. The other registers but the program counter keep their value.
\<close>

theorem multiple_shift_iterates:
  assumes "n = bits_of instr 10 2 + 1" "r = bits_of instr 0 4" "r > 3" "w = bit instr 4" "uint (reg cpu r) < 2 ^ 20"
    "(shift_once (bits_of instr 8 2) w ^^ n) (reg cpu r AND op_mask (\<not> w) False, reg cpu MSP430_SR AND SR_C \<noteq> 0) = (v, c)"
    "cpu' = shift_op instr ip cpu" "sr = reg cpu' MSP430_SR"
  shows "reg cpu' r = v \<and> (sr AND SR_C \<noteq> 0 \<longleftrightarrow> c) \<and> (sr AND SR_Z \<noteq> 0 \<longleftrightarrow> v = 0) \<and> (sr AND SR_N \<noteq> 0 \<longleftrightarrow> v AND op_msb (\<not> w) False \<noteq> 0) \<and>
    sr AND SR_V = 0 \<and> reg cpu' MSP430_PC = ip + 2 \<and> (\<forall>i. i \<notin> {MSP430_PC, MSP430_SR, r} \<longrightarrow> reg cpu' i = reg cpu i) \<and>
    cpu_cycles cpu' = cpu_cycles cpu + 1 + int n"
proof -
  let ?u = "reg cpu r AND op_mask (\<not> w) False"
  obtain x d where x: "rrxx (bits_of instr 8 2) w n (reg cpu MSP430_SR AND SR_C \<noteq> 0) ?u = (x, d)" by fastforce
  have "narrow w ?u" unfolding op_masks narrow_def by (simp add: bit_take_bit_iff)
  moreover have "0 < n" "n \<le> 4" "bits_of instr 8 2 < 4" using bits_of_less [of 2 instr] unfolding assms(1) by (simp_all add: Suc_le_eq)
  ultimately have vc: "v = x AND op_mask (\<not> w) False" "c = d" using rrxx_iterates [OF _ _ _ _ x] assms(6) by auto
  have "rrxx (bits_of instr 8 2) w n b (reg cpu r) = rrxx (bits_of instr 8 2) w n b ?u" for b
  proof (cases w)
    case False
    hence "?u = reg cpu r" using assms(5) unfolding op_masks shift_width_def by (simp add: word_uint_eq_iff unsigned_take_bit_eq take_bit_int_eq_self)
    thus ?thesis by simp
  qed (simp add: rrxx_def op_mask_def)
  moreover have "(if w then 0xffff else 0xfffff) = op_mask (\<not> w) False" "(if w then 0x8000 else 0x80000) = op_msb (\<not> w) False"
    by (simp_all add: op_mask_def op_msb_def)
  ultimately have "cpu' = put_reg MSP430_PC (ip + 2) (put_reg r v (write_sr_flags ((reg cpu MSP430_SR AND NOT (SR_C OR SR_V OR SR_Z OR SR_N))
      OR flag_if c SR_C OR flag_if (v = 0) SR_Z OR flag_if (v AND op_msb (\<not> w) False \<noteq> 0) SR_N) (spend (1 + int n) cpu)))"
    using x vc unfolding assms(7) shift_op_def assms(1, 2, 4) [symmetric] by (simp add: Let_def)
  thus ?thesis using assms(3) unfolding assms(8)
    by (auto simp: put_reg_def write_sr_flags_def spend_def flag_bits bit_simps)
qed

theorem multiple_shift_iterates_witness:
  "\<forall>cfg. let cpu = shift_op 0x0d55 0x4000 ((msp430_cpu_init False cfg)\<lparr>reg := (\<lambda>_. 0x8001)\<rparr>) in
     reg cpu 5 = 0xf800 \<and> reg cpu MSP430_SR AND SR_C = 0"
proof
  fix cfg
  have f: "bits_of 0x0d55 10 2 = 3" "bits_of 0x0d55 0 4 = 5" "bits_of 0x0d55 8 2 = 1" "bit (0x0d55 :: u16) 4" by code_simp+
  have "(shift_once 1 True ^^ 4) (0x8001, True) = (0xf800, False)" by code_simp
  thus "let cpu = shift_op 0x0d55 0x4000 ((msp430_cpu_init False cfg)\<lparr>reg := (\<lambda>_. 0x8001)\<rparr>) in
     reg cpu 5 = 0xf800 \<and> reg cpu MSP430_SR AND SR_C = 0"
    using multiple_shift_iterates [OF refl refl _ refl _ _ refl refl, of "0x0d55" "(msp430_cpu_init False cfg)\<lparr>reg := (\<lambda>_. 0x8001)\<rparr>" "0xf800" False "0x4000"]
    by (simp add: f op_mask_def)
qed

end
