(* ===== verification/Msp430_Decode.thy ===== *)
theory Msp430_Decode
  imports Msp430_Exec
begin

text \<open>
  The stateless decoder of \<open>src/msp430/msp430_decode.c\<close>, basic blocks, and the execution of decoded
  instructions that compiled code calls (\<open>execute_decoded\<close> in \<open>src/msp430/msp430_cpu.c\<close>). An
  \<open>int32_t\<close> operand value is kept as a 32-bit word.
\<close>

datatype itype = ITYPE_TWO_OP | ITYPE_SINGLE_OP | ITYPE_JUMP | ITYPE_MSP430X

datatype opkind =
    OPKIND_REG | OPKIND_CG | OPKIND_INDEXED | OPKIND_ABSOLUTE | OPKIND_INDIRECT | OPKIND_AUTOINC | OPKIND_IMMEDIATE

record decoded_insn =
  di_instruction :: u16
  di_itype :: itype
  di_operation :: nat
  byte_mode :: bool
  src_kind :: opkind
  src_reg :: nat
  src_value :: u32
  dst_kind :: opkind
  dst_reg :: nat
  dst_value :: u32
  jmp_condition :: nat
  jmp_offset :: u16
  di_size :: nat
  di_ext_word :: u16

definition empty_insn :: decoded_insn where
  "empty_insn = \<lparr>di_instruction = 0, di_itype = ITYPE_TWO_OP, di_operation = 0, byte_mode = False, src_kind = OPKIND_REG,
     src_reg = 0, src_value = 0, dst_kind = OPKIND_REG, dst_reg = 0, dst_value = 0, jmp_condition = 0, jmp_offset = 0,
     di_size = 0, di_ext_word = 0\<rparr>"

definition read_w :: "(u32 \<Rightarrow> u8) \<Rightarrow> u32 \<Rightarrow> u16" where
  "read_w mem a = ucast (mem a) OR push_bit 8 (ucast (mem (a + 1)))"

subsection \<open>Operands\<close>

definition decode_source :: "(u32 \<Rightarrow> u8) \<Rightarrow> u32 \<Rightarrow> nat \<Rightarrow> nat \<Rightarrow> nat \<Rightarrow> decoded_insn \<Rightarrow> decoded_insn \<times> nat" where
  "decode_source mem ip s as sz out =
     (let out = out\<lparr>src_reg := s\<rparr>; w = read_w mem (ip + of_nat sz) in
      if s = MSP430_CG2 then (out\<lparr>src_kind := OPKIND_CG, src_value := cg2_value as\<rparr>, sz)
      else if s = MSP430_CG1 \<and> as \<ge> 2 then (out\<lparr>src_kind := OPKIND_CG, src_value := cg1_value as\<rparr>, sz)
      else if as = 0 then (out\<lparr>src_kind := OPKIND_REG\<rparr>, sz)
      else if as = 1 then
        (out\<lparr>src_kind := (if s = MSP430_SR then OPKIND_ABSOLUTE else OPKIND_INDEXED), src_value := scast w\<rparr>, sz + 2)
      else if as = 2 then (out\<lparr>src_kind := OPKIND_INDIRECT\<rparr>, sz)
      else if s = MSP430_PC then (out\<lparr>src_kind := OPKIND_IMMEDIATE, src_value := ucast w\<rparr>, sz + 2)
      else (out\<lparr>src_kind := OPKIND_AUTOINC\<rparr>, sz))"

definition decode_dest :: "(u32 \<Rightarrow> u8) \<Rightarrow> u32 \<Rightarrow> nat \<Rightarrow> bool \<Rightarrow> nat \<Rightarrow> decoded_insn \<Rightarrow> decoded_insn \<times> nat" where
  "decode_dest mem ip r ad sz out =
     (let out = out\<lparr>dst_reg := r\<rparr> in
      if \<not> ad then (out\<lparr>dst_kind := OPKIND_REG\<rparr>, sz)
      else (out\<lparr>dst_kind := (if r = MSP430_SR then OPKIND_ABSOLUTE else OPKIND_INDEXED),
                dst_value := scast (read_w mem (ip + of_nat sz))\<rparr>, sz + 2))"

definition decode_two_op :: "(u32 \<Rightarrow> u8) \<Rightarrow> u32 \<Rightarrow> u16 \<Rightarrow> nat \<Rightarrow> decoded_insn \<Rightarrow> decoded_insn" where
  "decode_two_op mem ip instr sz out =
     (let out = out\<lparr>di_itype := ITYPE_TWO_OP, di_operation := bits_of instr 12 4, byte_mode := bit instr 6\<rparr>;
          (out, sz) = decode_source mem ip (bits_of instr 8 4) (bits_of instr 4 2) sz out;
          (out, sz) = decode_dest mem ip (bits_of instr 0 4) (bit instr 7) sz out
      in out\<lparr>di_size := sz\<rparr>)"

definition decode_single :: "(u32 \<Rightarrow> u8) \<Rightarrow> u32 \<Rightarrow> u16 \<Rightarrow> decoded_insn \<Rightarrow> decoded_insn" where
  "decode_single mem ip instr out =
     (let r = bits_of instr 0 4; ad = bits_of instr 4 2; w = read_w mem (ip + 2);
          out = out\<lparr>di_itype := ITYPE_SINGLE_OP, di_operation := single_op_of instr div 128, byte_mode := bit instr 6, dst_reg := r,
                    di_size := 2\<rparr> in
      if single_op_of instr = OP_RETI then out\<lparr>dst_kind := OPKIND_REG\<rparr>
      else if single_is_cg r ad then
        out\<lparr>dst_kind := OPKIND_CG, dst_value := (if r = MSP430_CG2 then cg2_value ad else cg1_value ad)\<rparr>
      else if ad = 0 then out\<lparr>dst_kind := OPKIND_REG\<rparr>
      else if ad = 1 then
        out\<lparr>dst_kind := (if r = MSP430_SR then OPKIND_ABSOLUTE else OPKIND_INDEXED), dst_value := scast w, di_size := 4\<rparr>
      else if ad = 2 then out\<lparr>dst_kind := OPKIND_INDIRECT\<rparr>
      else if r = MSP430_PC then out\<lparr>dst_kind := OPKIND_IMMEDIATE, dst_value := ucast w, di_size := 4\<rparr>
      else out\<lparr>dst_kind := OPKIND_AUTOINC\<rparr>)"

definition decode_ext :: "(u32 \<Rightarrow> u8) \<Rightarrow> u32 \<Rightarrow> u16 \<Rightarrow> decoded_insn \<Rightarrow> decoded_insn" where
  "decode_ext mem ip instr out =
     (let w = read_w mem (ip + 2); out = out\<lparr>di_ext_word := instr, di_instruction := w\<rparr> in
      if bits_of w 12 4 \<ge> 4 then decode_two_op mem ip w 4 out
      else out\<lparr>di_itype := ITYPE_MSP430X, di_operation := bits_of w 12 4, di_size := 4\<rparr>)"

text \<open>Opcode 0: only the size is recorded. The call and multiple-push tests can not hold for opcode 0.\<close>

definition decode_opcode_0 :: "u16 \<Rightarrow> decoded_insn \<Rightarrow> decoded_insn" where
  "decode_opcode_0 instr out =
     (let out = out\<lparr>di_itype := ITYPE_MSP430X, di_operation := 0\<rparr>; op = unat (instr AND 0x00f0); c = unat (instr AND 0xfff0) in
      if instr AND 0xff00 = 0x1300 \<and> instr AND 0x00f0 \<ge> 0x0040 then
        out\<lparr>di_size := (if c = 0x1350 \<or> c = 0x13b0 \<or> c = 0x1380 \<or> c = 0x1390 then 4 else 2)\<rparr>
      else if instr AND 0xfc00 \<ge> 0x1400 \<and> instr AND 0xfc00 \<le> 0x1700 then out\<lparr>di_size := 2\<rparr>
      else if instr AND 0xf000 = 0 \<and> instr AND 0x0c00 \<noteq> 0 then out\<lparr>di_size := 2\<rparr>
      else out\<lparr>di_size := (if op = 0x20 \<or> op = 0x30 \<or> op = 0x60 \<or> op = 0x70 \<or> op = 0x80 \<or> op = 0x90 \<or> op = 0xa0 \<or> op = 0xb0
                           then 4 else 2)\<rparr>)"

definition msp430_decode :: "(u32 \<Rightarrow> u8) \<Rightarrow> u32 \<Rightarrow> u32 \<Rightarrow> decoded_insn" where
  "msp430_decode mem ip mx =
     (if ip + 1 \<ge> mx then empty_insn\<lparr>di_size := 2\<rparr>
      else
        let instr = read_w mem ip; out = empty_insn\<lparr>di_instruction := instr\<rparr>; op = bits_of instr 12 4 in
        if instr AND 0xf800 = 0x1800 then decode_ext mem ip instr out
        else if op = 0 then decode_opcode_0 instr out
        else if op = 1 then decode_single mem ip instr out
        else if op = 2 \<or> op = 3 then
          out\<lparr>di_itype := ITYPE_JUMP, jmp_condition := bits_of instr 10 3,
              jmp_offset := sign_extend_10 (instr AND 0x3ff) * 2, di_size := 2\<rparr>
        else decode_two_op mem ip instr 2 out)"

subsection \<open>Basic blocks\<close>

record basic_block =
  bb_insns :: "decoded_insn list"
  pc_addrs :: "u32 list"
  bb_start_pc :: u32
  bb_end_pc :: u32

definition ends_block :: "decoded_insn \<Rightarrow> bool" where
  "ends_block di \<longleftrightarrow>
     di_itype di = ITYPE_JUMP \<or>
     di_itype di = ITYPE_SINGLE_OP \<and> (di_operation di * 128 = OP_CALL \<or> di_operation di * 128 = OP_RETI) \<or>
     di_itype di = ITYPE_MSP430X \<or>
     di_itype di = ITYPE_TWO_OP \<and> dst_kind di = OPKIND_REG \<and>
       (dst_reg di = MSP430_PC \<or> dst_reg di = MSP430_SR \<and> di_operation di \<noteq> 0xb \<and> di_operation di \<noteq> 0x9)"

fun decode_insns :: "(u32 \<Rightarrow> u8) \<Rightarrow> u32 \<Rightarrow> nat \<Rightarrow> u32 \<Rightarrow> (u32 \<times> decoded_insn) list \<times> u32" where
  "decode_insns mem mx 0 ip = ([], ip)"
| "decode_insns mem mx (Suc n) ip =
     (if ip + 1 < mx then
        let di = msp430_decode mem ip mx; next = ip + of_nat (di_size di) in
        if ends_block di then ([(ip, di)], next)
        else let (l, e) = decode_insns mem mx n next in ((ip, di) # l, e)
      else ([], ip))"

definition msp430_decode_block :: "(u32 \<Rightarrow> u8) \<Rightarrow> u32 \<Rightarrow> u32 \<Rightarrow> basic_block" where
  "msp430_decode_block mem ip mx =
     (let (l, e) = decode_insns mem mx MAX_BLOCK_SIZE ip
      in \<lparr>bb_insns = map snd l, pc_addrs = map fst l, bb_start_pc = ip, bb_end_pc = e\<rparr>)"

subsection \<open>Executing a decoded instruction\<close>

definition decoded_address :: "opkind \<Rightarrow> nat \<Rightarrow> u32 \<Rightarrow> 'a msp430_cpu_scheme \<Rightarrow> u32" where
  "decoded_address k r v cpu =
     (if k = OPKIND_ABSOLUTE then ucast (ucast v :: u16)
      else let rval = reg cpu r in if rval \<le> 0xffff then (rval + v) AND 0xffff else (rval + v) AND 0xfffff)"

definition decoded_source ::
  "'a msp430_cpu_scheme msp430_host \<Rightarrow> decoded_insn \<Rightarrow> 'a msp430_cpu_scheme \<Rightarrow> u32 \<times> 'a msp430_cpu_scheme" where
  "decoded_source h di cpu =
     (let bw = byte_mode di; rm = (dst_kind di = OPKIND_REG); to_pc = (if dst_reg di = MSP430_PC \<and> rm then 1 else 0); s = src_reg di in
      case src_kind di of
        OPKIND_REG \<Rightarrow> (reg cpu s AND op_mask False bw, spend ((if rm then 1 else 4) + to_pc) cpu)
      | OPKIND_CG \<Rightarrow>
          (if bw \<and> s = MSP430_CG2 \<and> src_value di = 0xFFFF then 0xff else src_value di, spend (if rm then 1 else 4) cpu)
      | OPKIND_INDIRECT \<Rightarrow>
          (let (v, cpu) = read_operand h False bw (reg cpu s) cpu in (v, spend (if rm then 2 else 5) cpu))
      | OPKIND_AUTOINC \<Rightarrow>
          (let (v, cpu) = read_operand h False bw (reg cpu s) cpu
           in (v, spend ((if rm then 2 else 5) + to_pc) (put_reg s (reg cpu s + op_bytes False bw) cpu)))
      | OPKIND_IMMEDIATE \<Rightarrow>
          (if bw then src_value di AND 0xff else src_value di, spend ((if rm then 2 else 5) + to_pc) cpu)
      | _ \<Rightarrow>
          (let (v, cpu) = read_operand h False bw (decoded_address (src_kind di) s (src_value di) cpu) cpu
           in (v, spend (if rm then 3 else 6) cpu)))"

text \<open>
  The ALU switch of \<open>execute_decoded\<close>, which is written apart from the one of the interpreter: the result, the status
  register if the case writes it back, and whether the result is written and the zero and negative flags are set.
\<close>

definition decoded_sum :: "u32 \<Rightarrow> u32 \<Rightarrow> u32 \<Rightarrow> u32 \<Rightarrow> u32 \<Rightarrow> u32 \<Rightarrow> u32 \<times> u32" where
  "decoded_sum src dst carry msk msb sr =
     (let sr = sr AND NOT (SR_V OR SR_C); tmp = (src XOR dst) AND msb; dst = dst + src + carry;
          sr = (if dst > msk then sr OR SR_C else sr);
          sr = (if tmp = 0 \<and> (src XOR dst) AND msb \<noteq> 0 then sr OR SR_V else sr)
      in (dst, sr))"

definition decoded_alu :: "nat \<Rightarrow> u32 \<Rightarrow> u32 \<Rightarrow> u32 \<Rightarrow> u32 \<Rightarrow> u32 \<Rightarrow> u32 \<times> u32 option \<times> bool \<times> bool" where
  "decoded_alu op src dst msk msb sr =
     (let written = (\<lambda>(d, s). (d, Some s, True, True)); carry = (if sr AND SR_C \<noteq> 0 then 1 else 0); clear = sr AND NOT (SR_C OR SR_V) in
      if op = 0x4 then (src, None, True, False)
      else if op = 0x5 then written (decoded_sum src dst 0 msk msb sr)
      else if op = 0x6 then written (decoded_sum src dst carry msk msb sr)
      else if op = 0x8 then written (decoded_sum ((src XOR 0xffff) AND 0xffff) dst 1 msk msb sr)
      else if op = 0x7 then written (decoded_sum ((src XOR 0xffff) AND 0xffff) dst carry msk msb sr)
      else if op = 0x9 then
        (let sr = clear OR (if dst \<ge> src then SR_C else 0); tmp = dst - src;
             sr = (if (src XOR tmp) AND msb = 0 \<and> (src XOR dst) AND msb \<noteq> 0 then sr OR SR_V else sr)
         in (tmp, Some sr, False, True))
      else if op = 0xa then written (msp430_dadd_bcd dst src msk sr)
      else if op = 0xb then (let dst = src AND dst in (dst, Some (clear OR (if dst \<noteq> 0 then SR_C else 0)), False, True))
      else if op = 0xc then (NOT src AND dst, None, True, False)
      else if op = 0xd then (src OR dst, None, True, False)
      else if op = 0xe then
        (let sr = (if src AND msb \<noteq> 0 \<and> dst AND msb \<noteq> 0 then clear OR SR_V else clear); dst = src XOR dst
         in written (dst, if dst \<noteq> 0 then sr OR SR_C else sr))
      else if op = 0xf then (let dst = src AND dst in written (dst, if dst \<noteq> 0 then clear OR SR_C else clear))
      else (dst, None, False, True))"

definition decoded_alu_step ::
  "'a msp430_cpu_scheme msp430_host \<Rightarrow> bool \<Rightarrow> bool \<Rightarrow> nat \<Rightarrow> nat \<Rightarrow> u32 \<Rightarrow> u32 \<Rightarrow> u32 \<Rightarrow> 'a msp430_cpu_scheme \<Rightarrow> bool \<times> 'a msp430_cpu_scheme" where
  "decoded_alu_step h bw rm op r a src dst cpu =
     (let msk = (if bw then 0xff else 0xffff); msb = (if bw then 0x80 else 0x8000);
          (dst, sr, write_result, update_status) = decoded_alu op src dst msk msb (reg cpu MSP430_SR);
          cpu = (case sr of None \<Rightarrow> cpu | Some sr \<Rightarrow> write_sr_flags sr cpu);
          dst = dst AND msk;
          cpu = (if \<not> write_result then cpu
                 else if rm then if r = MSP430_SR then write_sr dst cpu else put_reg r (dst AND 0xfffff) cpu
                 else mem_write h a dst (\<not> bw) cpu);
          sr = reg cpu MSP430_SR;
          cpu = (if update_status
                 then write_sr_flags ((sr AND NOT (SR_Z OR SR_N)) OR (if dst = 0 then SR_Z else 0) OR (if dst AND msb \<noteq> 0 then SR_N else 0)) cpu
                 else cpu)
      in (write_result, cpu))"

definition decoded_two_op ::
  "'a msp430_cpu_scheme msp430_host \<Rightarrow> decoded_insn \<Rightarrow> u32 \<Rightarrow> 'a msp430_cpu_scheme \<Rightarrow> 'a msp430_cpu_scheme" where
  "decoded_two_op h di next cpu =
     (let op = di_operation di; bw = byte_mode di; rm = (dst_kind di = OPKIND_REG); r = dst_reg di;
          (src, cpu) = decoded_source h di cpu;
          a = (if rm then -1 else decoded_address (dst_kind di) r (dst_value di) cpu);
          (dst, cpu) = (if op = 0x4 then (0, cpu) else if rm then (reg cpu r AND op_mask False bw, cpu) else read_operand h False bw a cpu);
          (written, cpu) = decoded_alu_step h bw rm op r a src dst cpu
      in if rm \<and> r = MSP430_PC \<and> written then cpu else put_reg MSP430_PC next cpu)"

definition decoded_condition :: "nat \<Rightarrow> u32 \<Rightarrow> bool" where
  "decoded_condition cond sr =
     (if cond = 0 then sr AND SR_Z = 0
      else if cond = 1 then sr AND SR_Z \<noteq> 0
      else if cond = 2 then sr AND SR_C = 0
      else if cond = 3 then sr AND SR_C \<noteq> 0
      else if cond = 4 then sr AND SR_N \<noteq> 0
      else if cond = 5 then (sr AND SR_N \<noteq> 0) = (sr AND SR_V \<noteq> 0)
      else if cond = 6 then (sr AND SR_N \<noteq> 0) \<noteq> (sr AND SR_V \<noteq> 0)
      else cond = 7)"

definition decoded_jump :: "decoded_insn \<Rightarrow> u32 \<Rightarrow> 'a msp430_cpu_scheme \<Rightarrow> 'a msp430_cpu_scheme" where
  "decoded_jump di next cpu =
     (let cpu = spend 2 cpu
      in put_reg MSP430_PC
           (if decoded_condition (jmp_condition di) (reg cpu MSP430_SR)
            then (next + scast (jmp_offset di)) AND (if is_msp430x cpu then 0xfffff else 0xffff) else next) cpu)"

definition execute_decoded ::
  "'a msp430_cpu_scheme msp430_host \<Rightarrow> decoded_insn \<Rightarrow> u32 \<Rightarrow> 'a msp430_cpu_scheme \<Rightarrow> 'a msp430_cpu_scheme option" where
  "execute_decoded h di next cpu =
     (case di_itype di of
        ITYPE_TWO_OP \<Rightarrow> Some (decoded_two_op h di next cpu)
      | ITYPE_JUMP \<Rightarrow> Some (decoded_jump di next cpu)
      | _ \<Rightarrow> None)"

end
