(* ===== verification/Msp430_Step.thy ===== *)
theory Msp430_Step
  imports Msp430_Ext Msp430_Decode
begin

text \<open>
  The loops of \<open>src/msp430/msp430_cpu.c\<close>: the interpreter (\<open>msp430_step_interpreter\<close>), the step that runs
  compiled blocks where there are any (\<open>msp430_step\<close>), and the runs to a cycle or microsecond target.
  The compiler and the compiled code are the parameter \<open>msp430_jit\<close>. The trace hook is left out.
\<close>

subsection \<open>The interpreter\<close>

text \<open>One round of the interpreter: go round again with one taken off the count, or return with \<open>k\<close> taken off.\<close>

datatype 's turn = Again 's | Leave int 's

definition takes_interrupt :: "'a msp430_cpu_scheme \<Rightarrow> bool" where
  "takes_interrupt cpu \<longleftrightarrow> interrupts_enabled cpu \<and> serviced_interrupt cpu = -1 \<and> interrupt_max cpu \<ge> 0"

definition due_events ::
  "'a msp430_cpu_scheme msp430_host \<Rightarrow> 'a msp430_cpu_scheme \<Rightarrow> 'a msp430_cpu_scheme option" where
  "due_events h cpu = (if cpu_cycles cpu \<ge> next_event_cycle cpu then execute_events (m_event h) cpu else Some cpu)"

definition lpm_sleep :: "'a msp430_cpu_scheme \<Rightarrow> 'a msp430_cpu_scheme" where
  "lpm_sleep cpu =
     (let until = min (next_event_cycle cpu) (cycle_limit cpu)
      in cpu\<lparr>cpu_cycles := until,
             lpm_ns := (if until > cpu_cycles cpu
                        then lpm_ns cpu + cpu_cycles_to_ns (until - cpu_cycles cpu) (cpu_freq_hz cpu) else lpm_ns cpu)\<rparr>)"

definition lpm_turn ::
  "'a msp430_cpu_scheme msp430_host \<Rightarrow> 'a msp430_cpu_scheme \<Rightarrow> 'a msp430_cpu_scheme turn option" where
  "lpm_turn h cpu =
     (if interrupts_enabled cpu \<and> interrupt_max cpu \<ge> 0 then Some (Again cpu)
      else map_option (\<lambda>c. if cpu_cycles c \<ge> cycle_limit c then Leave 1 c else Again c) (due_events h (lpm_sleep cpu)))"

definition insn_turn ::
  "'a msp430_cpu_scheme msp430_host \<Rightarrow> 'a msp430_cpu_scheme \<Rightarrow> 'a msp430_cpu_scheme turn option" where
  "insn_turn h cpu =
     (let cpu = cpu\<lparr>instructions := instructions cpu + 1\<rparr>; ip = reg cpu MSP430_PC in
      if ip + 1 \<ge> max_mem cpu then Some (Leave 0 cpu)
      else case exec_instr h (read_word cpu ip) ip (cpu\<lparr>last_pc := ip\<rparr>) of
             None \<Rightarrow> None
           | Some c \<Rightarrow> map_option Again (due_events h c))"

definition msp430_turn ::
  "'a msp430_cpu_scheme msp430_host \<Rightarrow> 'a msp430_cpu_scheme \<Rightarrow> 'a msp430_cpu_scheme turn option" where
  "msp430_turn h cpu =
     (if cpu_cycles cpu \<ge> cycle_limit cpu then Some (Leave 0 cpu)
      else
        let irq = takes_interrupt cpu; cpu = (if irq then service_interrupt h (reg cpu MSP430_PC) cpu else cpu) in
        if irq \<and> cpu_cycles cpu \<ge> cycle_limit cpu then Some (Leave 1 cpu)
        else if cpu_off cpu then lpm_turn h cpu
        else if stopping cpu then Some (Leave 0 (cpu\<lparr>stopping := False\<rparr>))
        else insn_turn h cpu)"

partial_function (option) interpreter_loop ::
  "'a msp430_cpu_scheme msp430_host \<Rightarrow> int \<Rightarrow> 'a msp430_cpu_scheme \<Rightarrow> (int \<times> 'a msp430_cpu_scheme) option" where
  "interpreter_loop h n cpu =
     (if n > 0
      then case msp430_turn h cpu of
             None \<Rightarrow> None
           | Some (Leave k c) \<Rightarrow> Some (n - k, c)
           | Some (Again c) \<Rightarrow> interpreter_loop h (n - 1) c
      else Some (n, cpu))"

definition msp430_step_interpreter ::
  "'a msp430_cpu_scheme msp430_host \<Rightarrow> int \<Rightarrow> 'a msp430_cpu_scheme \<Rightarrow> (int \<times> 'a msp430_cpu_scheme) option" where
  "msp430_step_interpreter = interpreter_loop"

subsection \<open>Compiled blocks\<close>

text \<open>
  Running a compiled block gives the number of instructions executed; compiling a block may fail.
  A decoded instruction that compiled code can not run itself is executed by the interpreter.
\<close>

record 's msp430_jit =
  jit_run :: "compiled_block \<Rightarrow> 's \<Rightarrow> (int \<times> 's) option"
  jit_compile :: "basic_block \<Rightarrow> 's \<Rightarrow> compiled_block option"

definition execute_decoded_for_jit ::
  "'a msp430_cpu_scheme msp430_host \<Rightarrow> decoded_insn \<Rightarrow> u32 \<Rightarrow> 'a msp430_cpu_scheme \<Rightarrow> 'a msp430_cpu_scheme option" where
  "execute_decoded_for_jit h di next cpu =
     (case execute_decoded h di next cpu of
        Some c \<Rightarrow> Some c
      | None \<Rightarrow> map_option snd
          (msp430_step_interpreter h 1 ((put_reg MSP430_PC (next - of_nat (di_size di)) cpu)\<lparr>ext_word := di_ext_word di\<rparr>)))"

definition block_at :: "'a msp430_cpu_scheme \<Rightarrow> compiled_block option" where
  "block_at cpu =
     (let ci = drop_bit 1 (reg cpu MSP430_PC) in if ci < cache_size cpu then compiled_cache cpu ci else None)"

definition block_fits :: "int \<Rightarrow> 'a msp430_cpu_scheme \<Rightarrow> compiled_block \<Rightarrow> bool" where
  "block_fits n cpu cb \<longleftrightarrow>
     n \<ge> cb_length cb \<and> cpu_cycles cpu + cb_length cb * 6 < next_event_cycle cpu \<and> cpu_cycles cpu + cb_length cb * 6 < cycle_limit cpu"

definition chain_goes_on :: "int \<Rightarrow> 'a msp430_cpu_scheme \<Rightarrow> bool" where
  "chain_goes_on n cpu \<longleftrightarrow>
     n > 0 \<and> cpu_cycles cpu < next_event_cycle cpu \<and> cpu_cycles cpu < cycle_limit cpu \<and> interrupt_max cpu < 0"

partial_function (option) jit_chain ::
  "'a msp430_cpu_scheme msp430_jit \<Rightarrow> int \<Rightarrow> 'a msp430_cpu_scheme \<Rightarrow> (int \<times> 'a msp430_cpu_scheme) option" where
  "jit_chain j n cpu =
     (if chain_goes_on n cpu then
        case block_at cpu of
          None \<Rightarrow> Some (n, cpu)
        | Some cb \<Rightarrow>
            if n < cb_length cb \<or> cpu_cycles cpu + cb_length cb * 6 \<ge> cycle_limit cpu then Some (n, cpu)
            else case jit_run j cb cpu of
                   None \<Rightarrow> None
                 | Some (executed, c) \<Rightarrow>
                     if executed \<le> 0 then Some (n, c)
                     else jit_chain j (n - executed) (c\<lparr>instructions := instructions c + executed\<rparr>)
      else Some (n, cpu))"

text \<open>Hot-block counting at the program counter: the state, and whether a block has been compiled.\<close>

definition count_block :: "'a msp430_cpu_scheme msp430_jit \<Rightarrow> 'a msp430_cpu_scheme \<Rightarrow> bool \<times> 'a msp430_cpu_scheme" where
  "count_block j cpu =
     (let ip = reg cpu MSP430_PC; ci = drop_bit 1 ip in
      if ci < cache_size cpu \<and> compiled_cache cpu ci = None \<and> block_exec_count cpu ci \<ge> 0 then
        let k = block_exec_count cpu ci + 1; cpu = cpu\<lparr>block_exec_count := (block_exec_count cpu)(ci := k)\<rparr> in
        if k \<ge> jit_threshold cpu then
          case jit_compile j (msp430_decode_block (memory cpu) ip (max_mem cpu)) cpu of
            Some cb \<Rightarrow> (True, cpu\<lparr>compiled_cache := (compiled_cache cpu)(ci := Some cb)\<rparr>)
          | None \<Rightarrow> (False, cpu\<lparr>block_exec_count := (block_exec_count cpu)(ci := -1000000)\<rparr>)
        else (False, cpu)
      else (False, cpu))"

text \<open>
  One round of the compiled-code loop: \<open>Inl\<close> returns the count, \<open>Inr\<close> goes round with it.
\<close>

definition interpreter_batch ::
  "'a msp430_cpu_scheme msp430_host \<Rightarrow> int \<Rightarrow> int \<Rightarrow> 'a msp430_cpu_scheme \<Rightarrow> (int + int) option \<times> 'a msp430_cpu_scheme" where
  "interpreter_batch h cap n cpu =
     (let batch = min n cap in
      case msp430_step_interpreter h batch cpu of
        None \<Rightarrow> (None, cpu)
      | Some (rem, c) \<Rightarrow>
          let n = n - (batch - rem) in (Some (if cpu_cycles c \<ge> cycle_limit c then Inl n else Inr n), c))"

definition run_block ::
  "'a msp430_cpu_scheme msp430_jit \<Rightarrow> int \<Rightarrow> 'a msp430_cpu_scheme \<Rightarrow> (bool \<times> int \<times> 'a msp430_cpu_scheme) option" where
  "run_block j n cpu =
     (case block_at cpu of
        None \<Rightarrow> Some (False, n, cpu)
      | Some cb \<Rightarrow>
          if \<not> block_fits n cpu cb then Some (False, n, cpu)
          else case jit_run j cb cpu of
                 None \<Rightarrow> None
               | Some (executed, c) \<Rightarrow>
                   if executed \<le> 0 then Some (False, n, c)
                   else map_option (Pair True) (jit_chain j (n - executed) (c\<lparr>instructions := instructions c + executed\<rparr>)))"

definition jit_turn ::
  "'a msp430_cpu_scheme msp430_host \<Rightarrow> 'a msp430_cpu_scheme msp430_jit \<Rightarrow> int \<Rightarrow> 'a msp430_cpu_scheme \<Rightarrow>
     ((int + int) \<times> 'a msp430_cpu_scheme) option" where
  "jit_turn h j n cpu =
     (if cpu_cycles cpu \<ge> cycle_limit cpu then Some (Inl n, cpu)
      else case due_events h cpu of
        None \<Rightarrow> None
      | Some cpu \<Rightarrow>
          let cpu = (if takes_interrupt cpu then service_interrupt h (reg cpu MSP430_PC) cpu else cpu);
              batch = (\<lambda>cap c. case interpreter_batch h cap n c of (None, _) \<Rightarrow> None | (Some r, c) \<Rightarrow> Some (r, c)) in
          if cpu_off cpu then batch 1000 cpu
          else if stopping cpu then Some (Inl n, cpu\<lparr>stopping := False\<rparr>)
          else case run_block j n cpu of
                 None \<Rightarrow> None
               | Some (True, k, c) \<Rightarrow> Some (if cpu_cycles c \<ge> cycle_limit c then Inl k else Inr k, c)
               | Some (False, _, c) \<Rightarrow>
                   let (compiled, c') = (if block_at cpu = None then count_block j c else (False, c))
                   in if compiled then Some (Inr n, c') else batch 32 c')"

partial_function (option) jit_loop ::
  "'a msp430_cpu_scheme msp430_host \<Rightarrow> 'a msp430_cpu_scheme msp430_jit \<Rightarrow> int \<Rightarrow> 'a msp430_cpu_scheme \<Rightarrow>
     (int \<times> 'a msp430_cpu_scheme) option" where
  "jit_loop h j n cpu =
     (if n > 0
      then case jit_turn h j n cpu of
             None \<Rightarrow> None
           | Some (Inl k, c) \<Rightarrow> Some (k, c)
           | Some (Inr k, c) \<Rightarrow> jit_loop h j k c
      else Some (n, cpu))"

definition msp430_step ::
  "'a msp430_cpu_scheme msp430_host \<Rightarrow> 'a msp430_cpu_scheme msp430_jit \<Rightarrow> int \<Rightarrow> 'a msp430_cpu_scheme \<Rightarrow>
     (int \<times> 'a msp430_cpu_scheme) option" where
  "msp430_step h j n cpu = (if has_jit cpu then jit_loop h j n cpu else msp430_step_interpreter h n cpu)"

subsection \<open>Running to a target\<close>

definition slice_size :: "int \<Rightarrow> int" where
  "slice_size remaining =
     (if remaining > 50000 then 10000
      else if remaining \<le> 10 then 1
      else let steps = cdiv remaining 3; steps = (if steps < 1 then 1 else steps) in if steps > 10000 then 10000 else steps)"

partial_function (option) run_to_target ::
  "'a msp430_cpu_scheme msp430_host \<Rightarrow> 'a msp430_cpu_scheme msp430_jit \<Rightarrow> int \<Rightarrow> 'a msp430_cpu_scheme \<Rightarrow> 'a msp430_cpu_scheme option" where
  "run_to_target h j target cpu =
     (if cpu_cycles cpu < target
      then case msp430_step h j (slice_size (target - cpu_cycles cpu)) cpu of
             None \<Rightarrow> None
           | Some (_, c) \<Rightarrow> run_to_target h j target c
      else Some cpu)"

partial_function (option) drain_due ::
  "'a msp430_cpu_scheme msp430_host \<Rightarrow> 'a msp430_cpu_scheme \<Rightarrow> 'a msp430_cpu_scheme option" where
  "drain_due h cpu =
     (if cpu_cycles cpu \<ge> next_event_cycle cpu
      then case execute_events (m_event h) cpu of None \<Rightarrow> None | Some c \<Rightarrow> drain_due h c
      else Some cpu)"

definition stamp_sim_time :: "'a cpu_clock_scheme \<Rightarrow> 'a cpu_clock_scheme" where
  "stamp_sim_time c =
     (if cpu_freq_hz c > 0 then c\<lparr>sim_time_ns := cpu_cycles_to_ns (cpu_cycles c) (cpu_freq_hz c)\<rparr> else c)"

definition msp430_step_until ::
  "'a msp430_cpu_scheme msp430_host \<Rightarrow> 'a msp430_cpu_scheme msp430_jit \<Rightarrow> int \<Rightarrow> 'a msp430_cpu_scheme \<Rightarrow> 'a msp430_cpu_scheme option" where
  "msp430_step_until h j target cpu =
     (if cpu_cycles cpu \<ge> target then Some cpu
      else case run_to_target h j target (cpu\<lparr>cycle_limit := target\<rparr>) of
             None \<Rightarrow> None
           | Some c \<Rightarrow> map_option (\<lambda>c. stamp_sim_time (c\<lparr>cycle_limit := INT64_MAX\<rparr>)) (drain_due h c))"

definition init_micros :: "'a msp430_cpu_scheme \<Rightarrow> 'a msp430_cpu_scheme" where
  "init_micros cpu =
     (if micro_clock_ready cpu then cpu
      else cpu\<lparr>last_micros_cycles := cpu_cycles cpu, last_micros_delta := 0, micro_clock_ready := True\<rparr>)"

definition sleep_hint :: "'a msp430_cpu_scheme \<Rightarrow> int" where
  "sleep_hint cpu =
     (if cpu_off cpu \<and> \<not> takes_interrupt cpu \<and> cpu_freq_hz cpu > 0 \<and> next_event_cycle cpu > cpu_cycles cpu
      then let lead = next_event_cycle cpu - cpu_cycles cpu
           in if lead > cdiv INT64_MAX 1000000 then cdiv (cdiv INT64_MAX 1000000) (uint (cpu_freq_hz cpu))
              else cdiv (lead * 1000000) (uint (cpu_freq_hz cpu))
      else 0)"

definition msp430_step_micros ::
  "'a msp430_cpu_scheme msp430_host \<Rightarrow> 'a msp430_cpu_scheme msp430_jit \<Rightarrow> int \<Rightarrow> int \<Rightarrow> 'a msp430_cpu_scheme \<Rightarrow>
     (int \<times> 'a msp430_cpu_scheme) option" where
  "msp430_step_micros h j jump_us execute_us cpu =
     (let cpu = init_micros cpu;
          cpu = cpu\<lparr>last_micros_delta := last_micros_delta cpu + max 0 jump_us\<rparr>;
          target = last_micros_cycles cpu + cdiv ((last_micros_delta cpu + max 0 execute_us) * uint (cpu_freq_hz cpu)) 1000000
      in map_option (\<lambda>c. (sleep_hint c, c)) (if target > cpu_cycles cpu then msp430_step_until h j target cpu else Some cpu))"

end
