(* ===== verification/Msp430_Decode_Correct.thy ===== *)
theory Msp430_Decode_Correct
  imports Msp430_Step
begin

text \<open>
  The decoder with its reference semantics (\<open>msp430_decode\<close>, \<open>execute_decoded\<close>) against the interpreter, and the
  shape of decoded blocks. The agreement is what lets compiled code stand for interpreted code.
\<close>

subsection \<open>Fields\<close>

lemma bits_of_bound: "n \<le> 16 \<Longrightarrow> bits_of w lo n < 2 ^ n"
  unfolding bits_of_def by (simp add: unsigned_take_bit_eq)

lemma read_w_word: "read_w (memory cpu) a = read_word cpu a"
  by (simp add: read_w_def read_word_def)

lemma bits_of_0 [simp]: "bits_of 0 lo n = 0"
  by (simp add: bits_of_def)

subsection \<open>Callbacks that keep the program\<close>

text \<open>Peripheral callbacks leave the extension word alone, and a read leaves the memory and the registers.\<close>

definition keeps_program :: "'a msp430_cpu_scheme msp430_host \<Rightarrow> bool" where
  "keeps_program h \<longleftrightarrow>
     (\<forall>f a word c. memory (snd (m_read h f a word c)) = memory c \<and> reg (snd (m_read h f a word c)) = reg c \<and> ext_word (snd (m_read h f a word c)) = ext_word c) \<and>
     (\<forall>f a v word c. ext_word (m_write h f a v word c) = ext_word c)"

named_theorems keeps

lemma mem_read_program [keeps]:
  "keeps_program h \<Longrightarrow> memory (snd (mem_read h a word cpu)) = memory cpu"
  "keeps_program h \<Longrightarrow> ext_word (snd (mem_read h a word cpu)) = ext_word cpu"
  "keeps_program h \<Longrightarrow> reg (snd (mem_read h a word cpu)) = reg cpu"
  by (auto simp: mem_read_def keeps_program_def Let_def split: option.split)

lemma read_operand_program [keeps]:
  "keeps_program h \<Longrightarrow> memory (snd (read_operand h False bw a cpu)) = memory cpu"
  "keeps_program h \<Longrightarrow> ext_word (snd (read_operand h False bw a cpu)) = ext_word cpu"
  "keeps_program h \<Longrightarrow> reg (snd (read_operand h False bw a cpu)) = reg cpu"
  by (simp_all add: read_operand_def keeps split_beta)

lemma mem_write_program [keeps]: "keeps_program h \<Longrightarrow> ext_word (mem_write h a v word cpu) = ext_word cpu"
  by (auto simp: mem_write_def keeps_program_def Let_def cache_invalidate_def write_word_def split: option.split)

lemma register_keeps [keeps]:
  "ext_word (put_reg i v cpu) = ext_word cpu" "ext_word (spend n cpu) = ext_word cpu" "ext_word (write_sr_flags v cpu) = ext_word cpu"
  "ext_word (write_sr v cpu) = ext_word cpu" "memory (put_reg i v cpu) = memory cpu" "memory (spend n cpu) = memory cpu"
  by (simp_all add: put_reg_def spend_def write_sr_flags_def write_sr_def Let_def handle_pending_interrupts_def reevaluate_interrupts_def)

lemma alu_step_program [keeps]: "keeps_program h \<Longrightarrow> ext_word (snd (alu_step h False bw rm op r a src dst sr cpu)) = ext_word cpu"
  by (simp add: alu_step_def put_result_def write_operand_def keeps Let_def split_beta)


subsection \<open>The two ALU switches\<close>

lemma flag_or: "(if b then w OR f else w) = w OR flag_if b f" "(if b then f else 0) = flag_if b f"
  by (simp_all add: flag_if_def)

lemma decoded_sum_agrees: "decoded_sum src dst carry msk msb sr = alu_add src dst carry msk msb sr"
  by (simp add: decoded_sum_def alu_add_def flag_or Let_def or.assoc)

lemma decoded_alu_agrees:
  assumes "4 \<le> op" "op < 16" "alu op src dst msk msb sr = (v, s, src')"
  shows "decoded_alu op src dst msk msb sr = (v, if sets_flags op then Some s else None, writes_result op, sets_flags op)"
proof -
  have "op \<in> {4, 5, 6, 7, 8, 9, 10, 11, 12, 13, 14, 15}" using assms(1, 2) by auto presburger
  thus ?thesis using assms(3)
    by (auto simp: decoded_alu_def alu_def sets_flags_def writes_result_def decoded_sum_agrees carry_bit_def flag_or or.assoc Let_def split: prod.splits)
qed

lemma decoded_alu_step_agrees:
  assumes "4 \<le> op" "op < 16" "a' = a"
  shows "decoded_alu_step h bw rm op r a' src dst cpu =
    (writes_result op, snd (alu_step h False bw rm op r a src dst (reg cpu MSP430_SR) cpu))"
proof -
  obtain v s src' where "alu op src dst (op_mask False bw) (op_msb False bw) (reg cpu MSP430_SR) = (v, s, src')" by (metis prod.exhaust)
  thus ?thesis using decoded_alu_agrees [OF assms(1, 2)] assms(3) unfolding decoded_alu_step_def alu_step_def
    by (simp add: op_mask_def op_msb_def nz_flags_def flag_or put_result_def write_operand_def Let_def)
qed

subsection \<open>Operands\<close>

text \<open>The fast path of the interpreter computes what the general one does.\<close>

lemma fast_is_general:
  "fast_source s as \<Longrightarrow> source_operand h False hi False bw True s as r ip cpu =
    (fst (fast_operand bw s as r cpu), ip, snd (fast_operand bw s as r cpu))"
  by (auto simp: source_operand_def fast_operand_def fast_source_def Let_def)

definition operands ::
  "'a msp430_cpu_scheme msp430_host \<Rightarrow> u16 \<Rightarrow> u32 \<Rightarrow> 'a msp430_cpu_scheme \<Rightarrow> u32 \<times> u32 \<times> u32 \<times> u32 \<times> 'a msp430_cpu_scheme" where
  "operands h instr ip cpu =
     (let r = bits_of instr 0 4;
          (src, ip, cpu) = source_operand h False 0 False (bit instr 6) (\<not> bit instr 7) (bits_of instr 8 4) (bits_of instr 4 2) r (ip + 2) cpu;
          (dst, a, ip, cpu) = dest_operand h False 0 False (bit instr 6) (\<not> bit instr 7) (bits_of instr 12 4) r ip cpu
      in (src, dst, a, ip, cpu))"

definition two_op_general ::
  "'a msp430_cpu_scheme msp430_host \<Rightarrow> u16 \<Rightarrow> u32 \<Rightarrow> 'a msp430_cpu_scheme \<Rightarrow> 'a msp430_cpu_scheme" where
  "two_op_general h instr ip cpu =
     (let op = bits_of instr 12 4; r = bits_of instr 0 4; reg_mode = (\<not> bit instr 7);
          (src, dst, a, ip, cpu) = operands h instr ip cpu;
          (src, cpu) = alu_step h False (bit instr 6) reg_mode op r a src dst (reg cpu MSP430_SR) cpu
      in if reg_mode \<and> r = MSP430_PC \<and> writes_result op then cpu else put_reg MSP430_PC ip cpu)"

lemma source_operand_hi: "source_operand h False hi is_addr bw rm s as r ip cpu = source_operand h False 0 is_addr bw rm s as r ip cpu"
  by (simp add: source_operand_def operand_address_def abs_address_def indexed_address_def Let_def)

lemma dest_operand_hi: "dest_operand h False hi is_addr bw rm op r ip cpu = dest_operand h False 0 is_addr bw rm op r ip cpu"
  by (simp add: dest_operand_def operand_address_def abs_address_def indexed_address_def Let_def)

lemma source_operand_program [keeps]:
  "keeps_program h \<Longrightarrow> memory (snd (snd (source_operand h ext hi False bw rm s as r ip cpu))) = memory cpu"
  "keeps_program h \<Longrightarrow> ext_word (snd (snd (source_operand h ext hi False bw rm s as r ip cpu))) = ext_word cpu"
  by (simp_all add: source_operand_def keeps Let_def split_beta)

lemma dest_operand_program [keeps]:
  "keeps_program h \<Longrightarrow> ext_word (snd (snd (snd (dest_operand h ext hi False bw rm op r ip cpu)))) = ext_word cpu"
  by (simp add: dest_operand_def keeps Let_def split_beta)

lemma ext_word_idle: "ext_word cpu = 0 \<Longrightarrow> cpu\<lparr>ext_word := 0\<rparr> = cpu"
  by simp

lemma fast_operands:
  assumes "\<not> bit instr 7" "fast_source (bits_of instr 8 4) (bits_of instr 4 2)"
    "fast_operand (bit instr 6) (bits_of instr 8 4) (bits_of instr 4 2) (bits_of instr 0 4) cpu = (src, c)"
  shows "operands h instr ip cpu =
    (src, if bits_of instr 12 4 = 0x4 then 0 else reg c (bits_of instr 0 4) AND op_mask False (bit instr 6), -1, ip + 2, c)"
  using assms unfolding operands_def by (simp add: fast_is_general dest_operand_def)

lemma operands_keeps [keeps]:
  "keeps_program h \<Longrightarrow> operands h instr ip cpu = (src, dst, a, ip', c) \<Longrightarrow> ext_word c = ext_word cpu"
proof -
  assume h: "keeps_program h" and o: "operands h instr ip cpu = (src, dst, a, ip', c)"
  obtain v i2 c2 where s: "source_operand h False 0 False (bit instr 6) (\<not> bit instr 7) (bits_of instr 8 4) (bits_of instr 4 2) (bits_of instr 0 4)
      (ip + 2) cpu = (v, i2, c2)" by (metis prod.exhaust)
  have "c = snd (snd (snd (dest_operand h False 0 False (bit instr 6) (\<not> bit instr 7) (bits_of instr 12 4) (bits_of instr 0 4) i2 c2)))"
    using o unfolding operands_def Let_def s by (auto split: prod.splits)
  also have "ext_word \<dots> = ext_word c2" by (rule dest_operand_program [OF h])
  also have "c2 = snd (snd (v, i2, c2))" by simp
  also have "ext_word \<dots> = ext_word cpu" unfolding s [symmetric] by (rule source_operand_program(2) [OF h])
  finally show ?thesis .
qed

lemma two_op_is_general:
  assumes "ext_word cpu = 0" "keeps_program h"
  shows "two_op h instr ip cpu = two_op_general h instr ip cpu"
proof -
  obtain src dst a ip' c where o: "operands h instr ip cpu = (src, dst, a, ip', c)" by (metis prod.exhaust)
  obtain src' c' where st: "alu_step h False (bit instr 6) (\<not> bit instr 7) (bits_of instr 12 4) (bits_of instr 0 4) a src dst (reg c MSP430_SR) c = (src', c')"
    by fastforce
  have c: "ext_word c = 0" using assms operands_keeps [OF assms(2) o] by simp
  have c': "ext_word c' = 0" using alu_step_program [OF assms(2)] st c by (metis snd_conv)
  let ?F = "let (src, cpu) = fast_operand (bit instr 6) (bits_of instr 8 4) (bits_of instr 4 2) (bits_of instr 0 4) cpu
    in (src, if bits_of instr 12 4 = 0x4 then 0 else reg cpu (bits_of instr 0 4) AND op_mask False (bit instr 6), -1, ip + 2, cpu)"
  have F: "\<not> bit instr 7 \<Longrightarrow> fast_source (bits_of instr 8 4) (bits_of instr 4 2) \<Longrightarrow> ?F = (src, dst, a, ip', c)"
    using o fast_operands [of instr cpu] by (auto split: prod.split)
  have T: "(if \<not> bit instr 7 \<and> (0 :: u16) = 0 \<and> fast_source (bits_of instr 8 4) (bits_of instr 4 2) then ?F else operands h instr ip cpu) = (src, dst, a, ip', c)"
    using F o by simp
  have m: "is_addr_mode 0 = False" "repeat_count 0 b x = 1" for b and x :: "'a msp430_cpu_scheme"
    by (simp_all add: is_addr_mode_def repeat_count_def)
  have "two_op h instr ip cpu =
      (if \<not> bit instr 7 \<and> bits_of instr 0 4 = MSP430_PC \<and> writes_result (bits_of instr 12 4) then c' else put_reg MSP430_PC ip' c')\<lparr>ext_word := 0\<rparr>"
    using T unfolding two_op_def assms(1) operands_def
    by (simp add: m st Let_def of_nat_0 cong: if_cong)
  moreover have "two_op_general h instr ip cpu =
      (if \<not> bit instr 7 \<and> bits_of instr 0 4 = MSP430_PC \<and> writes_result (bits_of instr 12 4) then c' else put_reg MSP430_PC ip' c')"
    unfolding two_op_general_def o by (simp add: st)
  ultimately show ?thesis using c' by (simp add: keeps put_reg_def)
qed

subsection \<open>Decoded operands\<close>

lemma decoded_address_source:
  "decoded_address (if s = MSP430_SR then OPKIND_ABSOLUTE else OPKIND_INDEXED) s (scast w) cpu = operand_address False hi s w cpu"
proof -
  have "ucast (ucast (scast w :: u32) :: u16) = (ucast w :: u32)"
  proof (rule bit_word_eqI)
    fix n
    have "n < 16 \<Longrightarrow> min 15 n = n" "\<not> n < 16 \<Longrightarrow> \<not> bit w n" using bit_imp_le_length [of w n] by auto
    thus "bit (ucast (ucast (scast w :: u32) :: u16) :: u32) n = bit (ucast w :: u32) n" if "n < LENGTH(32)"
      using that by (cases "n < 16") (auto simp: bit_simps)
  qed
  thus ?thesis by (auto simp: decoded_address_def operand_address_def abs_address_def indexed_address_def Let_def)
qed

lemma decoded_source_agrees:
  assumes d: "decode_source (memory cpu) ip s as 2 out = (out', sz)"
    and f: "src_kind di = src_kind out'" "src_value di = src_value out'" "src_reg di = s" "byte_mode di = bw" "(dst_kind di = OPKIND_REG) = rm" "dst_reg di = r"
    and h: "keeps_program h" and as: "as < 4" and pc: "rm \<or> r \<noteq> MSP430_PC"
  shows "source_operand h False 0 False bw rm s as r (ip + 2) cpu = (fst (decoded_source h di cpu), ip + of_nat sz, snd (decoded_source h di cpu))"
proof -
  have cg: "cg2_value as = 0xFFFF \<longleftrightarrow> as = 3" using as by (auto simp: cg2_value_def)
  have n: "(if r = MSP430_PC then 1 else 0 :: int) = (if r = MSP430_PC \<and> rm then 1 else 0)" using pc by auto
  consider "source_cg s as" | "\<not> source_cg s as" "as = 0" | "\<not> source_cg s as" "as = 1" | "\<not> source_cg s as" "as = 2"
    | "\<not> source_cg s as" "as = 3" "s = MSP430_PC" | "\<not> source_cg s as" "as = 3" "s \<noteq> MSP430_PC" using as by fastforce
  thus ?thesis
  proof cases
    case 1
    hence "src_kind di = OPKIND_CG" "src_value di = (if s = MSP430_CG2 then cg2_value as else cg1_value as)" "sz = 2"
      using d f by (auto simp: decode_source_def source_cg_def Let_def)
    thus ?thesis using 1 f cg by (simp add: source_operand_def decoded_source_def cg_source_def)
  next
    case 2
    thus ?thesis using d f n by (auto simp: source_operand_def decode_source_def decoded_source_def source_cg_def Let_def)
  next
    case 3
    hence "src_kind di = (if s = MSP430_SR then OPKIND_ABSOLUTE else OPKIND_INDEXED)" "src_value di = scast (read_word cpu (ip + 2))" "sz = 4"
      using d f by (auto simp: decode_source_def source_cg_def read_w_word Let_def)
    thus ?thesis using 3 f decoded_address_source [of s "read_word cpu (ip + 2)" cpu 0]
      by (auto simp: source_operand_def decoded_source_def Let_def split_beta)
  next
    case 4
    thus ?thesis using d f by (auto simp: source_operand_def decode_source_def decoded_source_def source_cg_def Let_def split_beta)
  next
    case 5
    thus ?thesis using d f n by (auto simp: source_operand_def decode_source_def decoded_source_def source_cg_def read_w_word Let_def)
  next
    case 6
    hence "src_kind di = OPKIND_AUTOINC" "sz = 2" using d f by (auto simp: decode_source_def source_cg_def Let_def)
    thus ?thesis using 6 f n by (simp add: read_operand_program(3) [OF h] source_operand_def decoded_source_def Let_def split_beta)
  qed
qed

lemma decoded_source_keeps [keeps]:
  "keeps_program h \<Longrightarrow> memory (snd (decoded_source h di cpu)) = memory cpu"
  by (simp add: decoded_source_def keeps Let_def split_beta split: opkind.split)

lemma decode_two_op_fields:
  assumes "decode_source mem ip (bits_of instr 8 4) (bits_of instr 4 2) sz (out\<lparr>di_itype := ITYPE_TWO_OP, di_operation := bits_of instr 12 4, byte_mode := bit instr 6\<rparr>) = (o1, s1)"
    "di = decode_two_op mem ip instr sz out"
  shows "src_kind di = src_kind o1" "src_value di = src_value o1" "src_reg di = bits_of instr 8 4" "byte_mode di = bit instr 6"
    "(dst_kind di = OPKIND_REG) = (\<not> bit instr 7)" "dst_reg di = bits_of instr 0 4" "di_operation di = bits_of instr 12 4"
    "bit instr 7 \<Longrightarrow> dst_kind di = (if bits_of instr 0 4 = MSP430_SR then OPKIND_ABSOLUTE else OPKIND_INDEXED)"
    "bit instr 7 \<Longrightarrow> dst_value di = scast (read_w mem (ip + of_nat s1))"
    "di_size di = (if bit instr 7 then s1 + 2 else s1)" "di_itype di = ITYPE_TWO_OP"
  using assms by (auto simp: decode_two_op_def decode_source_def decode_dest_def Let_def split: if_splits)

lemma decoded_two_op_agrees:
  assumes "keeps_program h" "di = decode_two_op (memory cpu) ip instr 2 out" "4 \<le> bits_of instr 12 4" "\<not> bit instr 7 \<or> bits_of instr 0 4 \<noteq> MSP430_PC"
  shows "decoded_two_op h di (ip + of_nat (di_size di)) cpu = two_op_general h instr ip cpu"
proof -
  let ?r = "bits_of instr 0 4" and ?bw = "bit instr 6" and ?rm = "\<not> bit instr 7" and ?op = "bits_of instr 12 4"
  obtain o1 s1 where d: "decode_source (memory cpu) ip (bits_of instr 8 4) (bits_of instr 4 2) 2
      (out\<lparr>di_itype := ITYPE_TWO_OP, di_operation := bits_of instr 12 4, byte_mode := bit instr 6\<rparr>) = (o1, s1)" by fastforce
  note f = decode_two_op_fields [OF d assms(2)]
  have "bits_of instr 12 4 < 16" using bits_of_bound [of 4 instr 12] by simp
  note alu = decoded_alu_step_agrees [OF assms(3) this refl]
  obtain v c where s: "decoded_source h di cpu = (v, c)" by fastforce
  have src: "source_operand h False 0 False ?bw ?rm (bits_of instr 8 4) (bits_of instr 4 2) ?r (ip + 2) cpu = (v, ip + of_nat s1, c)"
    using decoded_source_agrees [OF d f(1-6) assms(1) _ assms(4)] bits_of_bound [of 2 instr 4] s by simp
  have c: "read_w (memory cpu) a = read_word c a" for a using decoded_source_keeps [OF assms(1), of di cpu] s read_w_word [of c a] by simp
  show ?thesis
  proof (cases "bit instr 7")
    case True
    have a: "decoded_address (dst_kind di) (dst_reg di) (dst_value di) c = operand_address False 0 ?r (read_word c (ip + of_nat s1)) c"
      unfolding f(6) f(8) [OF True] f(9) [OF True] c by (rule decoded_address_source)
    obtain dv c2 where dv: "(if ?op = 0x4 then (0, c) else read_operand h False ?bw (operand_address False 0 ?r (read_word c (ip + of_nat s1)) c) c) = (dv, c2)"
      by fastforce
    have "operands h instr ip cpu = (v, dv, operand_address False 0 ?r (read_word c (ip + of_nat s1)) c, ip + of_nat (s1 + 2), c2)"
      using True src dv unfolding operands_def by (simp add: dest_operand_def Let_def split: if_splits prod.splits)
    thus ?thesis using True dv unfolding decoded_two_op_def two_op_general_def Let_def s f(4-7, 10)
      by (simp add: a [unfolded f(6)] alu split_beta split: if_splits)
  next
    case False
    hence "operands h instr ip cpu = (v, if ?op = 0x4 then 0 else reg c ?r AND op_mask False ?bw, -1, ip + of_nat s1, c)"
      using src unfolding operands_def by (simp add: dest_operand_def Let_def)
    thus ?thesis using False unfolding decoded_two_op_def two_op_general_def Let_def s f(4-7, 10) by (simp add: alu split_beta)
  qed
qed

subsection \<open>Jumps\<close>

lemma bit_scast_16: "n < 32 \<Longrightarrow> bit (scast (z :: u16) :: u32) n = bit z (min 15 n)"
  by (simp add: bit_signed_iff)

lemma scast_double:
  fixes y :: u16
  assumes "bit y 14 = bit y 15"
  shows "scast (y * 2) = (scast y * 2 :: u32)"
proof (rule bit_word_eqI)
  fix n
  assume n: "n < LENGTH(32)"
  show "bit (scast (y * 2) :: u32) n = bit (scast y * 2 :: u32) n"
  proof (cases n)
    case (Suc k)
    have "bit (scast (y * 2) :: u32) n = bit (y * 2) (Suc (min 14 k))" using n Suc by (subst bit_scast_16) simp_all
    also have "\<dots> = bit y (min 14 k)" by (simp add: mult.commute [of y] bit_double_iff min_less_iff_disj)
    also have "\<dots> = bit y (min 15 k)"
    proof (cases "k \<le> 14")
      case False
      hence "min 14 k = 14" "min 15 k = 15" by simp_all
      thus ?thesis using assms by simp
    qed simp
    also have "\<dots> = bit (scast y :: u32) k" using n Suc by (subst bit_scast_16) simp_all
    also have "\<dots> = bit (scast y * 2 :: u32) n" using n Suc by (simp add: mult.commute [of "scast y"] bit_double_iff)
    finally show ?thesis .
  qed (simp add: bit_scast_16 mult.commute [of y] mult.commute [of "scast y"] bit_double_iff)
qed

lemma jump_offset_decoded: "scast (sign_extend_10 (instr AND 0x3ff) * 2) = jump_offset instr"
  unfolding jump_offset_def
proof (rule scast_double)
  have "bit (0xfc00 :: u16) 14" "bit (0xfc00 :: u16) 15" "\<not> bit (0x3ff :: u16) 14" "\<not> bit (0x3ff :: u16) 15" by simp_all
  thus "bit (sign_extend_10 (instr AND 0x3ff)) 14 = bit (sign_extend_10 (instr AND 0x3ff)) 15"
    by (simp add: sign_extend_10_def bit_simps)
qed

subsection \<open>Agreement\<close>

text \<open>
  C36. Decoding an instruction and executing the decoded form does what the interpreter does with the words in memory, for
  every two-operand instruction and every jump: the operand addressing, the ALU switch and the jump conditions of the
  one are those of the other, and so are the cycles, provided that peripheral callbacks leave the extension word alone and
  reads leave memory and registers. One addressing mode is left out: a symbolic destination, for which the interpreter
  charges one cycle more than the decoded form.
\<close>

theorem msp430_decoded_agrees:
  assumes "ip + 1 < max_mem cpu" "ext_word cpu = 0" "keeps_program h" "instr = read_word cpu ip" "2 \<le> bits_of instr 12 4"
    "bits_of instr 12 4 < 4 \<or> \<not> bit instr 7 \<or> bits_of instr 0 4 \<noteq> MSP430_PC" "di = msp430_decode (memory cpu) ip (max_mem cpu)"
  shows "execute_decoded h di (ip + of_nat (di_size di)) cpu = exec_instr h instr ip cpu"
proof -
  have ext: "instr AND 0xf800 \<noteq> 0x1800"
  proof
    assume e: "instr AND 0xf800 = 0x1800"
    have "drop_bit 12 (instr AND 0xf800) = drop_bit 12 instr AND mask 4" by (simp add: drop_bit_and mask_eq_exp_minus_1)
    also have "\<dots> = take_bit 4 (drop_bit 12 instr)" by (simp add: take_bit_eq_mask)
    finally have "take_bit 4 (drop_bit 12 instr) = drop_bit 12 (instr AND 0xf800)" ..
    hence "bits_of instr 12 4 = 1" unfolding bits_of_def e by simp
    thus False using assms(5) by simp
  qed
  have di: "di = (if bits_of instr 12 4 < 4
      then (empty_insn\<lparr>di_instruction := instr\<rparr>)\<lparr>di_itype := ITYPE_JUMP, jmp_condition := bits_of instr 10 3, jmp_offset := sign_extend_10 (instr AND 0x3ff) * 2, di_size := 2\<rparr>
      else decode_two_op (memory cpu) ip instr 2 (empty_insn\<lparr>di_instruction := instr\<rparr>))"
    using assms(1, 5) ext unfolding assms(7) msp430_decode_def read_w_word assms(4) [symmetric] by (auto simp: Let_def)
  show ?thesis
  proof (cases "bits_of instr 12 4 < 4")
    case True
    thus ?thesis using assms(5) di jump_offset_decoded [of instr]
      by (simp add: execute_decoded_def exec_instr_def decoded_jump_def jump_op_def decoded_condition_def jump_taken_def code_mask_def Let_def)
  next
    case False
    hence d: "di = decode_two_op (memory cpu) ip instr 2 (empty_insn\<lparr>di_instruction := instr\<rparr>)" using di by simp
    hence "di_itype di = ITYPE_TWO_OP" by (simp add: decode_two_op_def decode_source_def decode_dest_def Let_def)
    thus ?thesis using False assms(6) decoded_two_op_agrees [OF assms(3) d] two_op_is_general [OF assms(2, 3)]
      by (simp add: execute_decoded_def exec_instr_def)
  qed
qed

theorem msp430_decoded_agrees_witness:
  "\<forall>j. let cpu = (msp430_cpu_init True \<lparr>cfg_is_msp430x = False, cfg_max_mem = 0x10000, cfg_max_mem_io = 0x200, cfg_max_interrupt = 15,
       ram_start = 0x1100, ram_mirror_start = 0, ram_mirror_size = 0\<rparr>)\<lparr>memory := (\<lambda>_. 0)(0x4000 := 0x35, 0x4001 := 0x54)\<rparr>;
     h = \<lparr>m_read = (\<lambda>_ _ _ c. (j, c)), m_write = (\<lambda>_ _ _ _ c. c), m_irq = (\<lambda>_ _ _ c. c), m_event = (\<lambda>_ c. c)\<rparr>;
     di = msp430_decode (memory cpu) 0x4000 (max_mem cpu)
     in src_kind di = OPKIND_AUTOINC \<and> execute_decoded h di 0x4002 cpu = exec_instr h 0x5435 0x4000 cpu"
proof
  fix j
  let ?cpu = "(msp430_cpu_init True \<lparr>cfg_is_msp430x = False, cfg_max_mem = 0x10000, cfg_max_mem_io = 0x200, cfg_max_interrupt = 15,
       ram_start = 0x1100, ram_mirror_start = 0, ram_mirror_size = 0\<rparr>)\<lparr>memory := (\<lambda>_. 0)(0x4000 := 0x35, 0x4001 := 0x54)\<rparr>"
  let ?h = "\<lparr>m_read = (\<lambda>_ _ _ c. (j, c)), m_write = (\<lambda>_ _ _ _ c. c), m_irq = (\<lambda>_ _ _ c. c), m_event = (\<lambda>_ c. c)\<rparr> :: msp430_cpu msp430_host"
  have f: "bits_of 0x5435 12 4 = 5" "bits_of 0x5435 8 4 = 4" "bits_of 0x5435 4 2 = 3" "bits_of 0x5435 0 4 = 5" "\<not> bit (0x5435 :: u16) 7" by code_simp+
  have w: "read_word ?cpu 0x4000 = 0x5435" by (simp add: read_word_def)
  have di: "di_size (msp430_decode (memory ?cpu) 0x4000 (max_mem ?cpu)) = 2" "src_kind (msp430_decode (memory ?cpu) 0x4000 (max_mem ?cpu)) = OPKIND_AUTOINC"
    using w unfolding msp430_decode_def read_w_word
    by (simp_all add: decode_two_op_def decode_source_def decode_dest_def f msp430_cpu_init_def)
  have "execute_decoded ?h (msp430_decode (memory ?cpu) 0x4000 (max_mem ?cpu)) (0x4000 + of_nat 2) ?cpu = exec_instr ?h 0x5435 0x4000 ?cpu"
    unfolding di(1) [symmetric] by (rule msp430_decoded_agrees [OF _ _ _ w [symmetric] _ _ refl])
      (simp_all add: f msp430_cpu_init_def keeps_program_def)
  thus "let cpu = ?cpu; h = ?h; di = msp430_decode (memory cpu) 0x4000 (max_mem cpu)
     in src_kind di = OPKIND_AUTOINC \<and> execute_decoded h di 0x4002 cpu = exec_instr h 0x5435 0x4000 cpu"
    using di(2) by simp
qed

end
