(* ===== verification/Msp430_Cache_Correct.thy ===== *)
theory Msp430_Cache_Correct
  imports Msp430_Step
begin

text \<open>
  Compiled blocks and stores into code: a decoded block never reaches further than the window that a store
  searches, so that no compiled block survives a store into the code it was compiled from.
\<close>

lemma uint_half: "uint (drop_bit 1 (w :: u32)) = uint w div 2"
  by (simp add: drop_bit_eq_div uint_div)

subsection \<open>Decoded blocks\<close>

lemma decode_source_size: "snd (decode_source mem ip s as sz out) \<le> sz + 2" "sz \<le> snd (decode_source mem ip s as sz out)"
  by (simp_all add: decode_source_def Let_def)

lemma decode_dest_size: "snd (decode_dest mem ip r ad sz out) \<le> sz + 2" "sz \<le> snd (decode_dest mem ip r ad sz out)"
  by (simp_all add: decode_dest_def Let_def)

lemma decode_two_op_size: "di_size (decode_two_op mem ip instr sz out) \<le> sz + 4" "sz \<le> di_size (decode_two_op mem ip instr sz out)"
proof -
  obtain o1 s1 where s: "decode_source mem ip (bits_of instr 8 4) (bits_of instr 4 2) sz
      (out\<lparr>di_itype := ITYPE_TWO_OP, di_operation := bits_of instr 12 4, byte_mode := bit instr 6\<rparr>) = (o1, s1)" by fastforce
  obtain o2 s2 where d: "decode_dest mem ip (bits_of instr 0 4) (bit instr 7) s1 o1 = (o2, s2)" by fastforce
  have "sz \<le> s1" "s1 \<le> sz + 2" "s1 \<le> s2" "s2 \<le> s1 + 2" using decode_source_size s decode_dest_size d by (metis snd_conv)+
  moreover have "di_size (decode_two_op mem ip instr sz out) = s2" unfolding decode_two_op_def Let_def s by (simp add: d)
  ultimately show "di_size (decode_two_op mem ip instr sz out) \<le> sz + 4" "sz \<le> di_size (decode_two_op mem ip instr sz out)" by simp_all
qed

lemma decode_single_size: "di_size (decode_single mem ip instr out) \<le> 4" "2 \<le> di_size (decode_single mem ip instr out)"
  by (simp_all add: decode_single_def Let_def)

lemma decode_opcode_0_size: "di_size (decode_opcode_0 instr out) \<le> 4" "2 \<le> di_size (decode_opcode_0 instr out)"
  by (simp_all add: decode_opcode_0_def Let_def)

text \<open>An instruction is two to eight bytes long, and at most six without an extension word.\<close>

lemma decode_ext_size: "di_size (decode_ext mem ip instr out) \<le> 8" "2 \<le> di_size (decode_ext mem ip instr out)"
  using decode_two_op_size [where mem = mem and ip = ip and instr = "read_w mem (ip + 2)" and sz = 4 and out = "out\<lparr>di_ext_word := instr, di_instruction := read_w mem (ip + 2)\<rparr>"]
  by (simp_all add: decode_ext_def Let_def)

lemma decode_ext_ext_word: "di_ext_word (decode_ext mem ip instr out) = instr"
  by (simp add: decode_ext_def decode_two_op_def decode_source_def decode_dest_def Let_def)

lemma decode_size: "2 \<le> di_size (msp430_decode mem ip mx)" "di_size (msp430_decode mem ip mx) \<le> 8"
  using decode_two_op_size [where mem = mem and ip = ip and instr = "read_w mem ip" and sz = 2 and out = "empty_insn\<lparr>di_instruction := read_w mem ip\<rparr>"]
    decode_single_size [where mem = mem and ip = ip and instr = "read_w mem ip" and out = "empty_insn\<lparr>di_instruction := read_w mem ip\<rparr>"]
    decode_opcode_0_size [where instr = "read_w mem ip" and out = "empty_insn\<lparr>di_instruction := read_w mem ip\<rparr>"]
  by (auto simp: msp430_decode_def decode_ext_size Let_def intro: le_trans)

lemma decode_size_plain: "di_ext_word (msp430_decode mem ip mx) = 0 \<Longrightarrow> di_size (msp430_decode mem ip mx) \<le> 6"
  using decode_two_op_size [where mem = mem and ip = ip and instr = "read_w mem ip" and sz = 2 and out = "empty_insn\<lparr>di_instruction := read_w mem ip\<rparr>"]
    decode_single_size [where mem = mem and ip = ip and instr = "read_w mem ip" and out = "empty_insn\<lparr>di_instruction := read_w mem ip\<rparr>"]
    decode_opcode_0_size [where instr = "read_w mem ip" and out = "empty_insn\<lparr>di_instruction := read_w mem ip\<rparr>"]
  by (auto simp: msp430_decode_def decode_ext_ext_word Let_def intro: le_trans split: if_splits)

lemma decode_insns_reach:
  assumes "decode_insns mem mx n ip = (l, e)" "\<forall>(a, di) \<in> set l. di_ext_word di = 0" "uint ip + 6 * int n < 2 ^ 32"
  shows "uint ip \<le> uint e \<and> uint e \<le> uint ip + 6 * int n"
  using assms
proof (induction n arbitrary: ip l e)
  case (Suc n)
  show ?case
  proof (cases "ip + 1 < mx")
    case True
    define di where "di = msp430_decode mem ip mx"
    define nx where "nx = ip + of_nat (di_size di)"
    have ext: "di_ext_word di = 0" using Suc.prems(1, 2) True by (auto simp: di_def Let_def split: if_splits prod.splits)
    have "uint nx = uint ip + int (di_size di)" using decode_size_plain [of mem ip mx] ext Suc.prems(3) unfolding nx_def di_def
      by (simp add: uint_word_ariths unsigned_of_nat take_bit_nat_eq_self)
    moreover have "di_size di \<le> 6" using ext unfolding di_def by (rule decode_size_plain)
    moreover have "uint nx \<le> uint e \<and> uint e \<le> uint nx + 6 * int n" if ne: "\<not> ends_block di"
    proof -
      obtain l' where "decode_insns mem mx n nx = (l', e)" "l = (ip, di) # l'"
        using Suc.prems(1) True ne by (cases "decode_insns mem mx n nx") (auto simp: di_def nx_def Let_def)
      thus ?thesis using calculation Suc.prems(2, 3) by (intro Suc.IH) auto
    qed
    moreover have "e = nx" if "ends_block di" using Suc.prems(1) True that by (simp add: di_def nx_def Let_def)
    ultimately show ?thesis by (cases "ends_block di") auto
  qed (use Suc.prems in auto)
qed simp

subsection \<open>The cache of compiled blocks\<close>

text \<open>
  A cached block stands at the index of its first instruction and covers at most the reach of a store. The compiler
  records the bounds of the block that it was given.
\<close>

definition block_cache_ok :: "'a msp430_cpu_scheme \<Rightarrow> bool" where
  "block_cache_ok cpu \<longleftrightarrow> (\<forall>i cb. compiled_cache cpu i = Some cb \<longrightarrow>
     i < cache_size cpu \<and> i = drop_bit 1 (cb_start_pc cb) \<and> uint (cb_end_pc cb) \<le> uint (cb_start_pc cb) + 192)"

definition records_bounds :: "'a msp430_cpu_scheme msp430_jit \<Rightarrow> bool" where
  "records_bounds j \<longleftrightarrow> (\<forall>b c cb. jit_compile j b c = Some cb \<longrightarrow>
     cb_start_pc cb = bb_start_pc b \<and> cb_end_pc cb = bb_end_pc b)"

definition plain_block :: "basic_block \<Rightarrow> bool" where
  "plain_block b \<longleftrightarrow> (\<forall>di \<in> set (bb_insns b). di_ext_word di = 0)"

lemma count_block_cache_ok:
  assumes "block_cache_ok cpu" "records_bounds j" "uint (max_mem cpu) \<le> 2 ^ 31" "cache_size cpu = drop_bit 1 (max_mem cpu)"
    "plain_block (msp430_decode_block (memory cpu) (reg cpu MSP430_PC) (max_mem cpu))"
  shows "block_cache_ok (snd (count_block j cpu))"
proof -
  define ip where "ip = reg cpu MSP430_PC"
  have "uint (cb_end_pc cb) \<le> uint ip + 192 \<and> cb_start_pc cb = ip"
    if cb: "jit_compile j (msp430_decode_block (memory cpu) ip (max_mem cpu)) c = Some cb" "drop_bit 1 ip < cache_size cpu" for c cb
  proof -
    obtain l e where l: "decode_insns (memory cpu) (max_mem cpu) 32 ip = (l, e)" by fastforce
    hence "cb_end_pc cb = e" "cb_start_pc cb = ip" "\<forall>(a, di) \<in> set l. di_ext_word di = 0"
      using cb(1) assms(2, 5) by (fastforce simp: records_bounds_def plain_block_def msp430_decode_block_def ip_def)+
    moreover have "uint ip div 2 < uint (max_mem cpu) div 2"
      using cb(2) unfolding assms(4) word_less_def uint_half .
    hence "uint ip < uint (max_mem cpu)" by (metis not_less zdiv_mono1 zero_less_numeral)
    hence "uint ip + 6 * int 32 < 2 ^ 32" using assms(3) by simp
    ultimately show ?thesis using decode_insns_reach [OF l] by simp
  qed
  thus ?thesis using assms(1) unfolding count_block_def ip_def [symmetric]
    by (auto simp: Let_def block_cache_ok_def split: option.split)
qed

text \<open>The bytes that a store changes: one, or two for a word.\<close>

definition stored :: "u32 \<Rightarrow> bool \<Rightarrow> u32 \<Rightarrow> bool" where
  "stored a word x \<longleftrightarrow> x = a \<or> word \<and> x = a + 1"

definition block_covers :: "compiled_block \<Rightarrow> u32 \<Rightarrow> bool" where
  "block_covers cb x \<longleftrightarrow> cb_start_pc cb \<le> x \<and> x < cb_end_pc cb"

lemma covering_block_dropped:
  assumes "block_cache_ok cpu" "compiled_cache cpu i = Some cb" "block_covers cb x" "stored a word x" "uint a < 2 ^ 31"
  shows "dropped a cpu i"
proof -
  define s where "s = uint (cb_start_pc cb)"
  have "i < cache_size cpu \<and> i = drop_bit 1 (cb_start_pc cb) \<and> uint (cb_end_pc cb) \<le> uint (cb_start_pc cb) + 192"
    using assms(1, 2) unfolding block_cache_ok_def by blast
  hence i: "i < cache_size cpu" "uint i = s div 2" "uint (cb_end_pc cb) \<le> s + 192"
    using uint_half [of "cb_start_pc cb"] unfolding s_def by auto
  have a1: "uint (a + 1) = uint a + 1" "uint (a + 2) = uint a + 2" using assms(5) by (simp_all add: uint_word_ariths)
  have cov: "s \<le> uint a + 1" "uint a < uint (cb_end_pc cb)"
    using assms(3, 4) unfolding block_covers_def stored_def s_def word_le_def word_less_def by (auto simp only: a1)
  hence "covers_write a cb" unfolding covers_write_def word_le_def word_less_def a1 s_def by simp
  moreover have "cache_lo a \<le> i"
  proof (cases "192 \<le> a")
    case True
    hence "uint (a - 192) = uint a - 192" unfolding word_le_def by (simp add: uint_sub_if')
    hence "uint (drop_bit 1 (a - 192)) = (uint a - 192) div 2" unfolding uint_half by simp
    thus ?thesis using True i cov unfolding cache_lo_def word_le_def by (simp add: zdiv_mono1)
  qed (simp add: cache_lo_def)
  moreover have "i \<le> cache_hi a cpu"
  proof -
    have "uint (drop_bit 1 (a + 2)) = (uint a + 2) div 2" using a1(2) unfolding uint_half by simp
    hence "i \<le> drop_bit 1 (a + 2)" unfolding word_le_def i using cov(1) by (simp add: zdiv_mono1)
    moreover have "1 \<le> uint (cache_size cpu)" using i(1) unsigned_greater_eq [of i, where 'a = int] unfolding word_less_def by linarith
    hence "uint (cache_size cpu - 1) = uint (cache_size cpu) - 1" by (simp add: uint_sub_if')
    hence "i \<le> cache_size cpu - 1" using i(1) unfolding word_le_def word_less_def by linarith
    ultimately show ?thesis unfolding cache_hi_def Let_def by simp
  qed
  ultimately show ?thesis using assms(2) unfolding dropped_def by simp
qed

lemma plain_store_cache:
  assumes "has_jit cpu" "a < max_mem_io cpu \<longrightarrow> io_write cpu a = None" "resolve_mirror cpu a < max_mem cpu"
  shows "compiled_cache (mem_write h a v word cpu) i = (if dropped (resolve_mirror cpu a) cpu i then None else compiled_cache cpu i)"
    "cache_size (mem_write h a v word cpu) = cache_size cpu" "max_mem (mem_write h a v word cpu) = max_mem cpu"
  using assms
  by (auto simp: mem_write_def cache_invalidate_def write_word_def dropped_def cache_hi_def Let_def split: option.split)

text \<open>
  The states of the cache: it starts empty, blocks are entered by hot-block counting on code without extension words,
  plain stores drop blocks, and nothing else touches it.
\<close>

inductive cache_reachable :: "'a msp430_cpu_scheme msp430_host \<Rightarrow> 'a msp430_cpu_scheme msp430_jit \<Rightarrow> 'a msp430_cpu_scheme \<Rightarrow> bool" for h j where
  start: "has_jit cpu \<Longrightarrow> compiled_cache cpu = (\<lambda>_. None) \<Longrightarrow> cache_size cpu = drop_bit 1 (max_mem cpu) \<Longrightarrow> uint (max_mem cpu) < 2 ^ 31
    \<Longrightarrow> cache_reachable h j cpu"
| count: "cache_reachable h j cpu \<Longrightarrow> plain_block (msp430_decode_block (memory cpu) (reg cpu MSP430_PC) (max_mem cpu))
    \<Longrightarrow> cache_reachable h j (snd (count_block j cpu))"
| store: "cache_reachable h j cpu \<Longrightarrow> a < max_mem_io cpu \<longrightarrow> io_write cpu a = None \<Longrightarrow> resolve_mirror cpu a < max_mem cpu
    \<Longrightarrow> cache_reachable h j (mem_write h a v word cpu)"
| other: "cache_reachable h j cpu \<Longrightarrow> compiled_cache c = compiled_cache cpu \<Longrightarrow> cache_size c = cache_size cpu \<Longrightarrow> max_mem c = max_mem cpu
    \<Longrightarrow> has_jit c \<Longrightarrow> cache_reachable h j c"

lemma cache_reachable_ok:
  assumes "cache_reachable h j cpu" "records_bounds j"
  shows "block_cache_ok cpu \<and> has_jit cpu \<and> cache_size cpu = drop_bit 1 (max_mem cpu) \<and> uint (max_mem cpu) < 2 ^ 31"
  using assms(1)
proof (induction rule: cache_reachable.induct)
  case (start cpu)
  thus ?case by (simp add: block_cache_ok_def)
next
  case (count cpu)
  have "has_jit (snd (count_block j cpu)) = has_jit cpu \<and> cache_size (snd (count_block j cpu)) = cache_size cpu \<and> max_mem (snd (count_block j cpu)) = max_mem cpu"
    by (simp add: count_block_def Let_def split: option.split)
  thus ?case using count count_block_cache_ok [OF _ assms(2)] by auto
next
  case (store cpu a v word)
  hence "has_jit cpu" by blast
  hence "has_jit (mem_write h a v word cpu)" using store
    by (auto simp: mem_write_def cache_invalidate_def write_word_def Let_def split: option.split)
  thus ?case using store \<open>has_jit cpu\<close> by (auto simp: block_cache_ok_def plain_store_cache split: if_splits)
next
  case (other cpu c)
  thus ?case by (auto simp: block_cache_ok_def)
qed

text \<open>
  C37. No compiled block survives a store into its code: in every reachable state of the cache a store to plain memory leaves
  no cached block that covers a byte that was written.
\<close>

theorem no_stale_block:
  assumes "cache_reachable h j cpu" "records_bounds j" "a < max_mem_io cpu \<longrightarrow> io_write cpu a = None" "b = resolve_mirror cpu a" "b < max_mem cpu"
    "compiled_cache (mem_write h a v word cpu) i = Some cb" "stored b word x"
  shows "\<not> block_covers cb x"
proof -
  note ok = cache_reachable_ok [OF assms(1, 2)]
  have "uint b < 2 ^ 31" using ok assms(5) by (simp add: word_less_def)
  moreover have "\<not> dropped b cpu i" "compiled_cache cpu i = Some cb"
    using assms(3-6) ok by (auto simp: plain_store_cache split: if_splits)
  ultimately show ?thesis using covering_block_dropped assms(7) ok by blast
qed

definition demo_block :: compiled_block where
  "demo_block = \<lparr>cb_start_pc = 0x4000, cb_end_pc = 0x4002, cb_length = 1\<rparr>"

definition demo_cached :: "msp430_cpu" where
  "demo_cached = (msp430_cpu_init True \<lparr>cfg_is_msp430x = False, cfg_max_mem = 0x10000, cfg_max_mem_io = 0x200, cfg_max_interrupt = 15,
     ram_start = 0x1100, ram_mirror_start = 0, ram_mirror_size = 0\<rparr>)\<lparr>reg := (\<lambda>_. 0x4000), memory := (\<lambda>_. 0x3c), jit_threshold := 1\<rparr>"

definition demo_jit :: "msp430_cpu msp430_jit" where
  "demo_jit = \<lparr>jit_run = (\<lambda>_ _. None), jit_compile = (\<lambda>b _. Some \<lparr>cb_start_pc = bb_start_pc b, cb_end_pc = bb_end_pc b, cb_length = int (length (bb_insns b))\<rparr>)\<rparr>"

theorem no_stale_block_witness:
  "\<forall>h v. compiled_cache (snd (count_block demo_jit demo_cached)) 0x2000 = Some demo_block \<and> block_covers demo_block 0x4001 \<and>
     compiled_cache (mem_write h 0x4000 v True (snd (count_block demo_jit demo_cached))) 0x2000 = None"
proof (intro allI)
  fix h v
  have f: "max_mem demo_cached = 0x10000" "max_mem_io demo_cached = 0x200" "has_jit demo_cached" "io_write demo_cached 0x4000 = None"
    "compiled_cache demo_cached = (\<lambda>_. None)" "cache_size demo_cached = 0x8000" "reg demo_cached 0 = 0x4000" "memory demo_cached = (\<lambda>_. 0x3c)"
    "block_exec_count demo_cached 0x2000 = 0" "jit_threshold demo_cached = 1" "ram_mirror_size (config demo_cached) = 0"
    by (simp_all add: demo_cached_def msp430_cpu_init_def)
  let ?d = "msp430_decode (\<lambda>_. 0x3c) 0x4000 0x10000"
  have "bits_of 0x3c3c 12 4 = 3" by code_simp
  hence d: "di_itype ?d = ITYPE_JUMP" "di_size ?d = 2" "di_ext_word ?d = 0" by (simp_all add: msp430_decode_def read_w_def empty_insn_def)
  have "decode_insns (\<lambda>_. 0x3c) 0x10000 (Suc 31) 0x4000 = ([(0x4000, ?d)], 0x4002)"
    unfolding decode_insns.simps by (simp add: d ends_block_def Let_def)
  hence b: "msp430_decode_block (\<lambda>_. 0x3c) 0x4000 0x10000 = \<lparr>bb_insns = [?d], pc_addrs = [0x4000], bb_start_pc = 0x4000, bb_end_pc = 0x4002\<rparr>"
    by (simp add: msp430_decode_block_def)
  let ?c = "snd (count_block demo_jit demo_cached)"
  have c: "compiled_cache ?c = [0x2000 \<mapsto> demo_block]" "max_mem ?c = max_mem demo_cached" "max_mem_io ?c = max_mem_io demo_cached" "io_write ?c = io_write demo_cached"
    "config ?c = config demo_cached" "has_jit ?c"
    by (simp_all add: count_block_def f b demo_jit_def demo_block_def)
  have "cache_reachable h demo_jit demo_cached" by (rule cache_reachable.start) (simp_all add: f)
  hence r: "cache_reachable h demo_jit ?c" by (rule cache_reachable.count) (simp add: f b plain_block_def d)
  have m: "resolve_mirror ?c 0x4000 = 0x4000" by (simp add: resolve_mirror_def c f)
  have "records_bounds demo_jit" by (simp add: records_bounds_def demo_jit_def)
  from no_stale_block [OF r this _ m [symmetric], of v True "0x2000" demo_block "0x4001"]
  have "compiled_cache (mem_write h 0x4000 v True ?c) 0x2000 \<noteq> Some demo_block"
    by (auto simp: c f stored_def block_covers_def demo_block_def)
  moreover have "compiled_cache (mem_write h 0x4000 v True ?c) 0x2000 \<in> {None, Some demo_block}"
    by (simp add: plain_store_cache m c f)
  ultimately show "compiled_cache ?c 0x2000 = Some demo_block \<and> block_covers demo_block 0x4001 \<and>
     compiled_cache (mem_write h 0x4000 v True ?c) 0x2000 = None"
    using c by (auto simp: block_covers_def demo_block_def)
qed

end
