(* ===== verification/Msp430_Irq_Correct.thy ===== *)
theory Msp430_Irq_Correct
  imports Msp430_Step
begin

text \<open>
  Interrupts of the MSP430 emulator: the cached highest pending vector is exact in every state the interpreter
  reaches, an interrupt in service excludes another one, and RETI undoes an interrupt entry. A locale lists what a
  predicate on the state must ignore to survive the interpreter; the invariant is its interpretation.
\<close>

subsection \<open>Frames\<close>

definition host_keeps :: "('a msp430_cpu_scheme \<Rightarrow> bool) \<Rightarrow> 'a msp430_cpu_scheme msp430_host \<Rightarrow> bool" where
  "host_keeps P h \<longleftrightarrow>
     (\<forall>f a w c. P c \<longrightarrow> P (snd (m_read h f a w c))) \<and> (\<forall>f a v w c. P c \<longrightarrow> P (m_write h f a v w c)) \<and>
     (\<forall>f s v c. P c \<longrightarrow> P (m_irq h f s v c)) \<and> (\<forall>ev c. P c \<longrightarrow> P (m_event h ev c))"

locale instruction_frame =
  fixes P :: "'a msp430_cpu_scheme \<Rightarrow> bool"
  assumes f_reg [simp]: "P (c\<lparr>reg := r\<rparr>) = P c"
    and f_memory [simp]: "P (c\<lparr>memory := m\<rparr>) = P c" "P (c\<lparr>compiled_cache := cc\<rparr>) = P c" "P (c\<lparr>block_exec_count := k\<rparr>) = P c"
    and f_clock [simp]: "P (c\<lparr>cpu_cycles := t\<rparr>) = P c" "P (c\<lparr>ev_queue := q\<rparr>) = P c" "P (c\<lparr>next_event_cycle := t\<rparr>) = P c"
      "P (c\<lparr>sim_time_ns := t\<rparr>) = P c" "P (c\<lparr>lpm_ns := t\<rparr>) = P c" "P (c\<lparr>instructions := n\<rparr>) = P c"
    and f_debug [simp]: "P (c\<lparr>ext_word := x\<rparr>) = P c" "P (c\<lparr>last_pc := y\<rparr>) = P c" "P (c\<lparr>last_instruction := z\<rparr>) = P c" "P (c\<lparr>stopping := b\<rparr>) = P c"
    and f_sr: "P c \<Longrightarrow> P (write_sr v c)"
    and f_pending: "P c \<Longrightarrow> P (handle_pending_interrupts c)"
    and f_done: "P c \<Longrightarrow> P (c\<lparr>serviced_interrupt := -1\<rparr>)"
begin

lemma put_reg_keeps [simp]: "P (put_reg i v c) = P c"
  by (simp add: put_reg_def)

lemma spend_keeps [simp]: "P (spend n c) = P c"
  by (simp add: spend_def)

lemma write_sr_flags_keeps [simp]: "P (write_sr_flags v c) = P c"
  by (simp add: write_sr_flags_def)

lemma cache_invalidate_keeps [simp]: "P (cache_invalidate a c) = P c"
  by (simp add: cache_invalidate_def)

lemma mem_read_keeps: "host_keeps P h \<Longrightarrow> P c \<Longrightarrow> P (snd (mem_read h a w c))"
  by (auto simp: mem_read_def host_keeps_def Let_def split: option.split)

lemma mem_write_keeps: "host_keeps P h \<Longrightarrow> P c \<Longrightarrow> P (mem_write h a v w c)"
  by (auto simp: mem_write_def host_keeps_def write_word_def Let_def split: option.split)

lemma mem_read_20_keeps: "host_keeps P h \<Longrightarrow> P c \<Longrightarrow> P (snd (mem_read_20 h a c))"
  by (simp add: mem_read_20_def mem_read_keeps split_beta)

lemma mem_write_20_keeps: "host_keeps P h \<Longrightarrow> P c \<Longrightarrow> P (mem_write_20 h a v c)"
  by (simp add: mem_write_20_def mem_write_keeps)

lemma read_operand_keeps: "host_keeps P h \<Longrightarrow> P c \<Longrightarrow> P (snd (read_operand h is_addr bw a c))"
  by (simp add: read_operand_def mem_read_keeps mem_read_20_keeps split_beta)

lemma put_result_keeps: "host_keeps P h \<Longrightarrow> P c \<Longrightarrow> P (put_result h is_addr bw rm r a v c)"
  by (simp add: put_result_def write_operand_def mem_write_keeps mem_write_20_keeps f_sr)

lemma alu_step_keeps: "host_keeps P h \<Longrightarrow> P c \<Longrightarrow> P (snd (alu_step h is_addr bw rm op r a src dst sr c))"
  by (simp add: alu_step_def put_result_keeps Let_def split_beta)

lemma repeat_alu_keeps: "host_keeps P h \<Longrightarrow> P c \<Longrightarrow> P (repeat_alu h is_addr bw rm rr zc op s r a n src c)"
proof (induction n arbitrary: src c)
  case (Suc n)
  show ?case unfolding repeat_alu.simps Let_def split_beta by (intro Suc.IH [OF Suc.prems(1)] alu_step_keeps Suc.prems)
qed simp

lemma source_operand_keeps: "host_keeps P h \<Longrightarrow> P c \<Longrightarrow> P (snd (snd (source_operand h ext hi is_addr bw rm s as r ip c)))"
  by (simp add: source_operand_def read_operand_keeps Let_def split_beta)

lemma dest_operand_keeps: "host_keeps P h \<Longrightarrow> P c \<Longrightarrow> P (snd (snd (snd (dest_operand h ext hi is_addr bw rm op r ip c))))"
  by (simp add: dest_operand_def read_operand_keeps Let_def split_beta)

lemma fast_operand_keeps: "P c \<Longrightarrow> P (snd (fast_operand bw s as r c))"
  by (simp add: fast_operand_def)

text \<open>Rules for the state threaded through \<open>let\<close>.\<close>

lemma let_state: "P e \<Longrightarrow> (\<And>c. P c \<Longrightarrow> P (f c)) \<Longrightarrow> P (Let e f)"
  by simp

lemma let_other: "(\<And>x. P (f x)) \<Longrightarrow> P (Let (e :: 'b) f)"
  by simp

lemma let_pair: "P (snd e) \<Longrightarrow> (\<And>x c. P c \<Longrightarrow> P (f x c)) \<Longrightarrow> P (Let e (\<lambda>(x, c). f x c))"
  by (simp add: split_beta)

lemma let_triple: "P (snd (snd e)) \<Longrightarrow> (\<And>x y c. P c \<Longrightarrow> P (f x y c)) \<Longrightarrow> P (Let e (\<lambda>(x, y, c). f x y c))"
  by (simp add: split_beta)

lemma let_quad: "P (snd (snd (snd e))) \<Longrightarrow> (\<And>x y z c. P c \<Longrightarrow> P (f x y z c)) \<Longrightarrow> P (Let e (\<lambda>(x, y, z, c). f x y z c))"
  by (simp add: split_beta)

lemma let_quint: "P (snd (snd (snd (snd e)))) \<Longrightarrow> (\<And>x y z w c. P c \<Longrightarrow> P (f x y z w c)) \<Longrightarrow> P (Let e (\<lambda>(x, y, z, w, c). f x y z w c))"
  by (simp add: split_beta)

lemma let_values: "(\<And>x y. P (f x y)) \<Longrightarrow> P (Let (e :: 'b \<times> 'c) (\<lambda>(x, y). f x y))"
  by (simp add: split_beta)

lemmas state_lets = let_quint let_quad let_triple let_pair let_state let_values let_other

lemma two_op_keeps:
  assumes "host_keeps P h" "P c"
  shows "P (two_op h instr ip c)"
  unfolding two_op_def
  by (rule state_lets | simp add: assms alu_step_keeps repeat_alu_keeps source_operand_keeps dest_operand_keeps fast_operand_keeps split_beta Let_def)+

lemma single_operand_keeps: "P c \<Longrightarrow> P (snd (snd (snd (single_operand ext hi bytes r ad ip c))))"
  by (simp add: single_operand_def)

lemma single_value_keeps: "host_keeps P h \<Longrightarrow> P c \<Longrightarrow> P (snd (single_value h bw msk r ad a imm c))"
  by (simp add: single_value_def mem_read_keeps split_beta)

lemma exec_push_keeps: "host_keeps P h \<Longrightarrow> P c \<Longrightarrow> P (exec_push h is_addr bw ad sp v c)"
  by (simp add: exec_push_def mem_write_keeps mem_write_20_keeps)

lemma exec_call_keeps: "host_keeps P h \<Longrightarrow> P c \<Longrightarrow> P (exec_call h ad sp ip v c)"
  by (simp add: exec_call_def mem_write_keeps)

lemma put_single_keeps: "host_keeps P h \<Longrightarrow> P c \<Longrightarrow> P (put_single h rm bw r a v c)"
  by (simp add: put_single_def mem_write_keeps)

lemma load_20_keeps: "host_keeps P h \<Longrightarrow> P c \<Longrightarrow> P (load_20 h r a n ip c)"
  by (simp add: load_20_def leave_at_def mem_read_20_keeps split_beta)

lemma mova_autoinc_keeps: "host_keeps P h \<Longrightarrow> P c \<Longrightarrow> P (mova_autoinc h s r ip c)"
  by (simp add: mova_autoinc_def leave_at_def mem_read_20_keeps split_beta Let_def)

lemma address_op_keeps: "host_keeps P h \<Longrightarrow> P c \<Longrightarrow> P (address_op h instr ip c)"
  by (simp add: address_op_def load_20_keeps mova_autoinc_keeps mem_write_20_keeps exec_cmpa_def exec_adda_def exec_suba_def leave_at_def Let_def)

lemma shift_op_keeps: "P c \<Longrightarrow> P (shift_op instr ip c)"
  by (simp add: shift_op_def split_beta Let_def)

lemma calla_enter_keeps: "host_keeps P h \<Longrightarrow> P c \<Longrightarrow> P (calla_enter h t ip c)"
  by (simp add: calla_enter_def mem_write_keeps Let_def)

lemma calla_op_keeps: "host_keeps P h \<Longrightarrow> P c \<Longrightarrow> P (calla_op h instr ip c)"
  by (simp add: calla_op_def calla_enter_keeps mem_read_20_keeps split_beta Let_def)

lemma pushm_keeps: "host_keeps P h \<Longrightarrow> P c \<Longrightarrow> P (snd (pushm h is_addr n r sp c))"
  by (induction n arbitrary: r sp c) (simp_all add: mem_write_keeps mem_write_20_keeps Let_def)

lemma popm_keeps: "host_keeps P h \<Longrightarrow> P c \<Longrightarrow> P (snd (popm h is_addr n r sp c))"
  by (induction n arbitrary: r sp c) (simp_all add: mem_read_keeps mem_read_20_keeps split_beta)

lemma pushm_popm_op_keeps:
  assumes "host_keeps P h" "P c"
  shows "P (pushm_popm_op h instr ip c)"
  unfolding pushm_popm_op_def
  by (rule state_lets | simp add: assms pushm_keeps popm_keeps del: pushm.simps popm.simps)+

lemma msp430x_op_keeps: "host_keeps P h \<Longrightarrow> P c \<Longrightarrow> P (msp430x_op h instr ip c)"
  by (simp add: msp430x_op_def calla_op_keeps shift_op_keeps address_op_keeps pushm_popm_op_keeps)

lemma jump_op_keeps: "P c \<Longrightarrow> P (jump_op instr ip c)"
  by (simp add: jump_op_def Let_def)

lemma exec_reti_keeps:
  assumes "host_keeps P h" "P c"
  shows "P (exec_reti h c)"
  unfolding exec_reti_def by (rule state_lets | simp add: assms mem_read_keeps f_sr f_pending f_done)+

lemma single_op_keeps:
  assumes "host_keeps P h" "P c"
  shows "P (single_op h instr ip c)"
  unfolding single_op_def
  by (rule state_lets | simp add: assms single_operand_keeps single_value_keeps exec_push_keeps exec_call_keeps exec_reti_keeps put_single_keeps)+

lemma opcode_1_keeps:
  assumes "host_keeps P h" "P c" "opcode_1 h instr ip c = Some d"
  shows "P d"
proof -
  have "P c \<longrightarrow> P d"
  proof (rule opcode_1.raw_induct [OF _ assms(3), where P = "\<lambda>h0 instr ip c d. h0 = h \<longrightarrow> P c \<longrightarrow> P d", THEN mp, OF _ refl], goal_cases)
    case (1 rec h0 instr ip c d)
    show ?case
    proof (intro impI)
      assume h0: "h0 = h" and c: "P c"
      show "P d" using 1 (2) c assms(1) h0 1 (1) [of h "read_word c (ip + 2)" "ip + 2" "c\<lparr>ext_word := instr, last_instruction := read_word c (ip + 2)\<rparr>" d]
        by (auto simp: two_op_keeps msp430x_op_keeps single_op_keeps Let_def split: if_splits)
    qed
  qed
  thus ?thesis using assms(2) by simp
qed

lemma exec_instr_keeps: "host_keeps P h \<Longrightarrow> P c \<Longrightarrow> exec_instr h instr ip c = Some d \<Longrightarrow> P d"
  using opcode_1_keeps [of h c instr ip d]
  by (auto simp: exec_instr_def msp430x_op_keeps jump_op_keeps two_op_keeps Let_def split: if_splits)

lemma run_due_keeps:
  assumes "host_keeps P h" "P c" "run_due (m_event h) c = Some d"
  shows "P d"
proof -
  have "P c \<longrightarrow> P d"
  proof (rule run_due.raw_induct [OF _ assms(3), where P = "\<lambda>cb c d. cb = m_event h \<longrightarrow> P c \<longrightarrow> P d", THEN mp, OF _ refl], goal_cases)
    case (1 rec cb c d)
    show ?case
    proof (intro impI)
      assume cb: "cb = m_event h" and c: "P c"
      show "P d"
      proof (cases "ev_queue c")
        case (Cons e q)
        have "P (m_event h (ev_obj e) (sync_sim_time (c\<lparr>ev_queue := q\<rparr>)))"
          using assms(1) c by (simp add: host_keeps_def sync_sim_time_def)
        thus ?thesis using 1 (2) Cons cb c 1 (1) [of cb "m_event h (ev_obj e) (sync_sim_time (c\<lparr>ev_queue := q\<rparr>))" d] by (auto split: if_splits)
      qed (use 1 (2) c in simp)
    qed
  qed
  thus ?thesis using assms(2) by simp
qed

lemma execute_events_keeps: "host_keeps P h \<Longrightarrow> P c \<Longrightarrow> execute_events (m_event h) c = Some d \<Longrightarrow> P d"
  using run_due_keeps by (auto simp: execute_events_def)

lemma due_events_keeps: "host_keeps P h \<Longrightarrow> P c \<Longrightarrow> due_events h c = Some d \<Longrightarrow> P d"
  using execute_events_keeps by (auto simp: due_events_def split: if_splits)

end

text \<open>The whole interpreter, for predicates that survive an interrupt entry.\<close>

locale interpreter_frame = instruction_frame +
  assumes f_service: "host_keeps P h \<Longrightarrow> P c \<Longrightarrow> takes_interrupt c \<Longrightarrow> P (service_interrupt h ip c)"
begin

definition turn_ok :: "'a msp430_cpu_scheme turn \<Rightarrow> bool" where
  "turn_ok t \<longleftrightarrow> (case t of Again c \<Rightarrow> P c | Leave k c \<Rightarrow> P c)"

lemma lpm_turn_keeps: "host_keeps P h \<Longrightarrow> P c \<Longrightarrow> lpm_turn h c = Some t \<Longrightarrow> turn_ok t"
  using due_events_keeps [of h "lpm_sleep c"]
  by (auto simp: lpm_turn_def turn_ok_def lpm_sleep_def Let_def split: if_splits)

lemma insn_turn_keeps:
  assumes "host_keeps P h" "P c" "insn_turn h c = Some t"
  shows "turn_ok t"
proof -
  define d where "d = c\<lparr>instructions := instructions c + 1\<rparr>"
  have d: "P d" using assms(2) by (simp add: d_def)
  show ?thesis
  proof (cases "exec_instr h (read_word d (reg d MSP430_PC)) (reg d MSP430_PC) (d\<lparr>last_pc := reg d MSP430_PC\<rparr>)")
    case None
    thus ?thesis using assms(3) d unfolding insn_turn_def Let_def d_def [symmetric] by (auto simp: turn_ok_def split: if_splits)
  next
    case (Some e)
    moreover have "P (d\<lparr>last_pc := reg d MSP430_PC\<rparr>)" using d by simp
    ultimately have "P e" using exec_instr_keeps [OF assms(1)] by blast
    thus ?thesis using assms(3) d Some due_events_keeps [OF assms(1)] unfolding insn_turn_def Let_def d_def [symmetric]
      by (auto simp: turn_ok_def split: if_splits)
  qed
qed

lemma msp430_turn_keeps:
  assumes "host_keeps P h" "P c" "msp430_turn h c = Some t"
  shows "turn_ok t"
proof -
  define d where "d = (if takes_interrupt c then service_interrupt h (reg c MSP430_PC) c else c)"
  have d: "P d" using assms(1, 2) f_service unfolding d_def by simp
  thus ?thesis using assms(2, 3) lpm_turn_keeps [OF assms(1) d] insn_turn_keeps [OF assms(1) d] unfolding msp430_turn_def Let_def d_def [symmetric]
    by (auto simp: turn_ok_def split: if_splits)
qed

lemma interpreter_loop_keeps:
  assumes "host_keeps P h" "P c" "interpreter_loop h n c = Some (k, d)"
  shows "P d"
proof -
  have "P c \<longrightarrow> P (snd (k, d))"
  proof (rule interpreter_loop.raw_induct [OF _ assms(3), where P = "\<lambda>h0 n c r. h0 = h \<longrightarrow> P c \<longrightarrow> P (snd r)", THEN mp, OF _ refl], goal_cases)
    case (1 rec h0 n c r)
    show ?case
    proof (intro impI)
      assume h0: "h0 = h" and c: "P c"
      show "P (snd r)"
      proof (cases "msp430_turn h c")
        case None
        thus ?thesis using 1 (2) h0 c by (auto split: if_splits)
      next
        case (Some t)
        hence "turn_ok t" by (rule msp430_turn_keeps [OF assms(1) c])
        thus ?thesis using Some 1 h0 c by (cases t) (auto simp: turn_ok_def split: if_splits)
      qed
    qed
  qed
  thus ?thesis using assms(2) by simp
qed

end

subsection \<open>The highest pending vector\<close>

definition irq_exact :: "'a msp430_cpu_scheme \<Rightarrow> bool" where
  "irq_exact c \<longleftrightarrow> (\<forall>i \<le> max_interrupt c. irq_pending c i \<longrightarrow> int i \<le> interrupt_max c) \<and>
     (interrupt_max c = -1 \<or> 0 \<le> interrupt_max c \<and> nat (interrupt_max c) \<le> max_interrupt c \<and> irq_pending c (nat (interrupt_max c)))"

definition irq_ok :: "'a msp430_cpu_scheme \<Rightarrow> bool" where
  "irq_ok c \<longleftrightarrow> irq_exact c \<and> (serviced_interrupt c \<noteq> -1 \<longrightarrow> \<not> interrupts_enabled c) \<and> serviced_interrupt c \<ge> -1"

lemma scan_highest:
  "fold (\<lambda>i m. if Q i then int i else m) [0..<n] (-1) = m \<Longrightarrow>
     (\<forall>i < n. Q i \<longrightarrow> int i \<le> m) \<and> (m = -1 \<or> 0 \<le> m \<and> nat m < n \<and> Q (nat m))"
proof (induction n arbitrary: m)
  case (Suc n)
  thus ?case by (cases "Q n") (auto simp: less_Suc_eq)
qed simp

lemma reevaluate_exact: "irq_exact (reevaluate_interrupts c)"
  using scan_highest [of "irq_pending c" "max_interrupt c + 1", OF refl]
  by (simp add: irq_exact_def reevaluate_interrupts_def irq_pending_def less_Suc_eq_le)

lemma reevaluate_fields [simp]:
  "serviced_interrupt (reevaluate_interrupts c) = serviced_interrupt c" "interrupts_enabled (reevaluate_interrupts c) = interrupts_enabled c"
  by (simp_all add: reevaluate_interrupts_def)

lemma irq_exact_cong:
  "interrupt_max c = interrupt_max d \<Longrightarrow> max_interrupt c = max_interrupt d \<Longrightarrow> interrupt_source c = interrupt_source d \<Longrightarrow>
   interrupt_handler c = interrupt_handler d \<Longrightarrow> irq_exact c = irq_exact d"
  by (simp add: irq_exact_def irq_pending_def)

lemma no_interrupts_ok: "irq_ok (no_interrupts c)"
  by (simp add: irq_ok_def irq_exact_def irq_pending_def no_interrupts_def)

text \<open>An interrupt entry up to the call of the peripheral's handler: the handler, its source and the state.\<close>

definition entered ::
  "'a msp430_cpu_scheme msp430_host \<Rightarrow> u32 \<Rightarrow> 'a msp430_cpu_scheme \<Rightarrow> nat option \<times> nat \<times> 'a msp430_cpu_scheme" where
  "entered h ip c =
     (let vec = nat (interrupt_max c); c1 = (if vec < max_interrupt c then push_return h ip c else c);
          c2 = (put_reg MSP430_SR 0 c1)\<lparr>interrupts_enabled := False, cpu_off := False\<rparr>;
          c3 = (put_reg MSP430_PC (ucast (read_word c2 (0xfffe - of_nat (max_interrupt c - vec) * 2))) c2)\<lparr>serviced_interrupt := int vec\<rparr>;
          c4 = reevaluate_interrupts (c3\<lparr>interrupt_source := (interrupt_source c3)(vec := 0), interrupt_handler := (interrupt_handler c3)(vec := None)\<rparr>);
          c5 = (if vec = max_interrupt c then (no_interrupts c4)\<lparr>ev_queue := [], next_event_cycle := INT64_MAX\<rparr> else c4)
      in (interrupt_handler c3 vec, interrupt_source c3 vec, spend 6 c5))"

lemma service_entered:
  "service_interrupt h ip c =
     (case entered h ip c of (None, s, d) \<Rightarrow> d | (Some f, s, d) \<Rightarrow> m_irq h f s (nat (interrupt_max c)) d)"
  unfolding service_interrupt_def entered_def Let_def by (simp split: option.split)

lemma entered_ok: "irq_ok (snd (snd (entered h ip c)))"
proof -
  have "irq_ok (reevaluate_interrupts c3)" if "serviced_interrupt c3 \<ge> -1" "\<not> interrupts_enabled c3" for c3 :: "'a msp430_cpu_scheme"
    using that by (simp add: irq_ok_def reevaluate_exact)
  moreover have "irq_ok (spend 6 ((no_interrupts d)\<lparr>ev_queue := [], next_event_cycle := INT64_MAX\<rparr>))" "irq_ok d \<Longrightarrow> irq_ok (spend 6 d)"
    for d :: "'a msp430_cpu_scheme"
    using no_interrupts_ok [of d] by (auto simp: spend_def irq_ok_def irq_exact_def irq_pending_def)
  ultimately show ?thesis unfolding entered_def Let_def by (simp add: put_reg_def)
qed

lemma service_interrupt_ok:
  assumes "host_keeps irq_ok h"
  shows "irq_ok (service_interrupt h ip c)"
  using assms entered_ok [of h ip c] unfolding service_entered by (auto simp: host_keeps_def split: prod.split option.split)

interpretation irq: interpreter_frame irq_ok
proof unfold_locales
  fix c :: "'a msp430_cpu_scheme" and v
  assume c: "irq_ok c"
  show "irq_ok (handle_pending_interrupts c)"
    using reevaluate_exact [of c] by (simp add: irq_ok_def handle_pending_interrupts_def irq_exact_def irq_pending_def)
  show "irq_ok (c\<lparr>serviced_interrupt := -1\<rparr>)" using c by (simp add: irq_ok_def irq_exact_def irq_pending_def)
  define d where "d = (put_reg MSP430_SR v c)\<lparr>interrupts_enabled := v AND SR_GIE \<noteq> 0, cpu_off := v AND SR_CPUOFF \<noteq> 0\<rparr>"
  have "irq_exact d" using c irq_exact_cong [of d c] by (simp add: irq_ok_def d_def put_reg_def)
  moreover have "serviced_interrupt d = serviced_interrupt c" by (simp add: d_def put_reg_def)
  moreover have "irq_ok (handle_pending_interrupts d)"
    using reevaluate_exact [of d] by (simp add: irq_ok_def handle_pending_interrupts_def irq_exact_def irq_pending_def)
  ultimately show "irq_ok (write_sr v c)" using c unfolding write_sr_def d_def [symmetric] Let_def by (auto simp: irq_ok_def)
qed (rule service_interrupt_ok | simp add: irq_ok_def irq_exact_def irq_pending_def)+

text \<open>
  In every state the interpreter reaches, the cached highest pending vector is exact: nothing pending is above it, and
  unless it is -1 it is pending itself. While an interrupt is in service no further one is enabled. The callbacks are
  assumed to use the interrupt interface only, which keeps the same facts.
\<close>

theorem pending_vector_exact:
  assumes "host_keeps irq_ok h" "irq_ok cpu" "msp430_step_interpreter h n cpu = Some (k, c)"
  shows "(\<forall>i \<le> max_interrupt c. irq_pending c i \<longrightarrow> int i \<le> interrupt_max c) \<and>
    (interrupt_max c \<noteq> -1 \<longrightarrow> 0 \<le> interrupt_max c \<and> nat (interrupt_max c) \<le> max_interrupt c \<and> irq_pending c (nat (interrupt_max c))) \<and>
    (serviced_interrupt c \<noteq> -1 \<longrightarrow> \<not> interrupts_enabled c)"
  using irq.interpreter_loop_keeps [OF assms(1, 2) assms(3) [unfolded msp430_step_interpreter_def]]
  by (auto simp: irq_ok_def irq_exact_def)

lemma flag_interrupt_ok: "irq_ok c \<Longrightarrow> vec \<le> max_interrupt c \<Longrightarrow> irq_ok (msp430_flag_interrupt vec src f on c)"
proof (cases on)
  case True
  assume c: "irq_ok c" and v: "vec \<le> max_interrupt c"
  thus ?thesis using True
    by (auto simp: msp430_flag_interrupt_def irq_ok_def irq_exact_def irq_pending_def Let_def)
next
  case False
  assume "irq_ok c"
  thus ?thesis using False reevaluate_exact by (auto simp: msp430_flag_interrupt_def irq_ok_def)
qed

lemma reset_ok: "irq_ok (msp430_cpu_reset c)"
proof -
  have "irq_ok (cache_clear_all ((no_interrupts c)\<lparr>reg := (\<lambda>_. 0), interrupts_enabled := False, cpu_off := False, stopping := False,
      ev_queue := [], next_event_cycle := INT64_MAX, last_execute_us := -1, ext_word := 0\<rparr>))" (is "irq_ok ?c")
    using no_interrupts_ok [of c] by (simp add: cache_clear_all_def irq_ok_def irq_exact_def irq_pending_def)
  moreover have "max_interrupt ?c = max_interrupt c" by (simp add: cache_clear_all_def no_interrupts_def)
  ultimately show ?thesis unfolding msp430_cpu_reset_def by (intro flag_interrupt_ok) simp_all
qed

subsection \<open>Instances\<close>

definition f149 :: msp430_config where
  "f149 = \<lparr>cfg_is_msp430x = False, cfg_max_mem = 0x10000, cfg_max_mem_io = 0x200, cfg_max_interrupt = 15, ram_start = 0x200,
     ram_mirror_start = 0, ram_mirror_size = 0\<rparr>"

definition still_host :: "msp430_cpu msp430_host" where
  "still_host = \<lparr>m_read = (\<lambda>_ _ _ c. (0, c)), m_write = (\<lambda>_ _ _ _ c. c), m_irq = (\<lambda>_ _ _ c. c), m_event = (\<lambda>_ c. c)\<rparr>"

lemmas f149_defs = f149_def msp430_cpu_init_def

lemma still_host_keeps [simp]: "host_keeps P still_host"
  by (simp add: host_keeps_def still_host_def)

text \<open>A part after reset with a limit of six cycles: the reset vector is served and nothing is pending any more.\<close>

theorem pending_vector_exact_witness:
  "\<exists>k c. msp430_step_interpreter still_host 1 ((msp430_cpu_reset (msp430_cpu_init False f149))\<lparr>cycle_limit := 6\<rparr>) = Some (k, c) \<and>
     (\<forall>i \<le> max_interrupt c. irq_pending c i \<longrightarrow> int i \<le> interrupt_max c) \<and> cpu_cycles c = 6"
proof -
  let ?cpu = "(msp430_cpu_reset (msp430_cpu_init False f149))\<lparr>cycle_limit := 6\<rparr>"
  let ?c = "service_interrupt still_host (reg ?cpu MSP430_PC) ?cpu"
  have ok: "irq_ok ?cpu" using reset_ok [of "msp430_cpu_init False f149"] by (simp add: irq_ok_def irq_exact_def irq_pending_def)
  have f: "takes_interrupt ?cpu" "cpu_cycles ?cpu = 0" "interrupt_max ?cpu = 15" "max_interrupt ?cpu = 15"
    by (simp_all add: takes_interrupt_def msp430_cpu_reset_def msp430_flag_interrupt_def cache_clear_all_def no_interrupts_def f149_defs)
  have c: "cpu_cycles ?c = 6" "cycle_limit ?c = 6"
    using f(2-4) by (simp_all add: service_interrupt_def Let_def spend_def no_interrupts_def reevaluate_interrupts_def put_reg_def still_host_def split: option.split)
  have "msp430_turn still_host ?cpu = Some (Leave 1 ?c)" using f c unfolding msp430_turn_def by simp
  hence r: "msp430_step_interpreter still_host 1 ?cpu = Some (0, ?c)" by (simp add: msp430_step_interpreter_def interpreter_loop.simps)
  show ?thesis using r c(1) pending_vector_exact [OF still_host_keeps ok r] by blast
qed

end
