(* ===== verification/Msp430_Return_Correct.thy ===== *)
theory Msp430_Return_Correct
  imports Msp430_Irq_Correct
begin

text \<open>
  RETI undoes an interrupt entry: the twenty bits of the program counter, which share two stack words with the
  status register, the status register with its low-power bits, and the stack pointer.
\<close>

subsection \<open>Plain memory\<close>

definition plain :: "'a msp430_cpu_scheme \<Rightarrow> u32 \<Rightarrow> bool" where
  "plain c a \<longleftrightarrow> (a < max_mem_io c \<longrightarrow> io_read c a = None \<and> io_write c a = None) \<and> resolve_mirror c a = a \<and> a < max_mem c"

definition same_layout :: "'a msp430_cpu_scheme \<Rightarrow> 'a msp430_cpu_scheme \<Rightarrow> bool" where
  "same_layout c d \<longleftrightarrow> max_mem c = max_mem d \<and> max_mem_io c = max_mem_io d \<and> config c = config d \<and> io_read c = io_read d \<and> io_write c = io_write d"

lemma plain_layout: "same_layout c d \<Longrightarrow> plain c a = plain d a"
  by (simp add: same_layout_def plain_def resolve_mirror_def)

lemma plain_store:
  assumes "plain c a"
  shows "memory (mem_write h a v True c) = (memory c)(a := ucast ((ucast v :: u16) AND 0xff), a + 1 := ucast (drop_bit 8 (ucast v :: u16) AND 0xff))"
    "reg (mem_write h a v True c) = reg c" "same_layout (mem_write h a v True c) c"
    "interrupts_enabled (mem_write h a v True c) = interrupts_enabled c"
  using assms by (auto simp: plain_def mem_write_def write_word_def cache_invalidate_def same_layout_def Let_def split: option.split)

lemma plain_load: "plain c a \<Longrightarrow> mem_read h a True c = (ucast (read_word c a), c)"
  by (auto simp: plain_def mem_read_def Let_def split: option.split)

lemma low_byte: "(w :: u16) AND 0xff = take_bit 8 w"
  by (simp add: take_bit_eq_mask mask_eq_exp_minus_1)

lemma join_bytes: "(ucast (ucast (w AND 0xff :: u16) :: u8) :: u16) OR push_bit 8 (ucast (ucast (drop_bit 8 w AND 0xff) :: u8)) = w"
  unfolding low_byte
proof (rule bit_word_eqI)
  fix n
  assume "n < LENGTH(16)"
  thus "bit ((ucast (ucast (take_bit 8 w) :: u8) :: u16) OR push_bit 8 (ucast (ucast (take_bit 8 (drop_bit 8 w)) :: u8))) n = bit w n"
    by (cases "n < 8") (auto simp: bit_simps not_less)
qed

text \<open>The two stack words of an entry: program counter and status register.\<close>

definition entry_low :: "u32 \<Rightarrow> u16" where
  "entry_low ip = ucast (ip AND 0xffff)"

definition entry_high :: "u32 \<Rightarrow> u32 \<Rightarrow> u16" where
  "entry_high ip sr = ucast ((sr AND 0x0fff) OR drop_bit 4 (ip AND 0xf0000))"

lemma word_fields:
  "(w :: u32) AND 0xffff = take_bit 16 w" "w AND 0x0fff = take_bit 12 w" "w AND 0xf000 = push_bit 12 (take_bit 4 (drop_bit 12 w))"
  "w AND 0xf0000 = push_bit 16 (take_bit 4 (drop_bit 16 w))"
proof -
  have "push_bit 12 (mask 4) = (0xf000 :: u32)" "push_bit 16 (mask 4) = (0xf0000 :: u32)" "mask 12 = (0xfff :: u32)" "mask 16 = (0xffff :: u32)"
    by (simp_all add: mask_eq_exp_minus_1)
  moreover have "w AND push_bit k (mask 4) = push_bit k (take_bit 4 (drop_bit k w))" for k
    by (rule bit_word_eqI) (auto simp: bit_simps)
  ultimately show "w AND 0xffff = take_bit 16 w" "w AND 0x0fff = take_bit 12 w" "w AND 0xf000 = push_bit 12 (take_bit 4 (drop_bit 12 w))"
    "w AND 0xf0000 = push_bit 16 (take_bit 4 (drop_bit 16 w))" by (metis take_bit_eq_mask)+
qed

lemma split_entry:
  "take_bit 20 ip = ip \<Longrightarrow> ucast (entry_low ip) OR push_bit 4 (ucast (entry_high ip sr) AND 0xf000) = ip"
  "take_bit 12 sr = sr \<Longrightarrow> ucast (entry_high ip sr) AND 0x0fff = sr"
proof -
  have b: "bit (ucast (entry_high ip sr) :: u32) n \<longleftrightarrow> n < 16 \<and> (if n < 12 then bit sr n else bit ip (n + 4))" for n
    unfolding entry_high_def word_fields by (auto simp: bit_simps add.commute)
  show "ucast (entry_high ip sr) AND 0x0fff = sr" if "take_bit 12 sr = sr"
  proof (rule bit_word_eqI)
    fix n
    have "bit sr n \<Longrightarrow> n < 12" using that by (metis bit_take_bit_iff)
    thus "bit (ucast (entry_high ip sr) AND 0x0fff :: u32) n = bit sr n" unfolding word_fields(2) bit_take_bit_iff b by auto
  qed
  show "ucast (entry_low ip) OR push_bit 4 (ucast (entry_high ip sr) AND 0xf000) = ip" if "take_bit 20 ip = ip"
  proof (rule bit_word_eqI)
    fix n
    assume n: "n < LENGTH(32)"
    have i: "bit ip n \<Longrightarrow> n < 20" using that by (metis bit_take_bit_iff)
    have lo: "bit (ucast (entry_low ip) :: u32) n \<longleftrightarrow> n < 16 \<and> bit ip n" unfolding entry_low_def word_fields by (auto simp: bit_simps)
    have hi: "bit (push_bit 4 (push_bit 12 (take_bit 4 (drop_bit 12 (ucast (entry_high ip sr) :: u32))))) n \<longleftrightarrow> 16 \<le> n \<and> bit ip n"
    proof (cases "16 \<le> n")
      case True
      hence "12 + (n - 16) = n - 4" "n - 4 - 12 = n - 16" "4 \<le> n" "12 \<le> n - 4" "n - 4 + 4 = n" "\<not> n - 4 < 12" by simp_all
      thus ?thesis using True n i by (simp only: bit_push_bit_iff bit_take_bit_iff bit_drop_bit_eq o_def b) auto
    qed (auto simp: bit_push_bit_iff)
    show "bit (ucast (entry_low ip) OR push_bit 4 (ucast (entry_high ip sr) AND 0xf000) :: u32) n = bit ip n"
      unfolding word_fields(3) bit_or_iff lo hi by auto
  qed
qed

subsection \<open>Entry and return\<close>

lemma far_words: "(sp :: u32) - 4 \<noteq> sp - 2" "sp - 4 + 1 \<noteq> sp - 2" "sp - 4 \<noteq> sp - 2 + 1" "sp - 4 + 1 \<noteq> sp - 2 + 1" "sp - 4 + 2 = sp - 2"
proof -
  have "a = b" if "sp + a = sp + b" for a b :: u32 using that by simp
  from this [of "-4" "-2"] this [of "-3" "-2"] this [of "-4" "-1"] this [of "-3" "-1"]
  show "sp - 4 \<noteq> sp - 2" "sp - 4 + 1 \<noteq> sp - 2" "sp - 4 \<noteq> sp - 2 + 1" "sp - 4 + 1 \<noteq> sp - 2 + 1" by auto
qed simp

lemma push_return_frame:
  assumes "plain c (sp - 2)" "plain c (sp - 4)" "sp = reg c MSP430_SP"
  shows "read_word (push_return h ip c) (sp - 2) = entry_low ip" "read_word (push_return h ip c) (sp - 4) = entry_high ip (reg c MSP430_SR)"
    "reg (push_return h ip c) = (reg c)(MSP430_SP := sp - 4)" "same_layout (push_return h ip c) c"
proof -
  define c1 where "c1 = mem_write h (sp - 2) (ip AND 0xffff) True (put_reg MSP430_SP (sp - 2) c)"
  have p0: "plain (put_reg MSP430_SP (sp - 2) c) (sp - 2)" using assms(1) by (simp add: plain_def put_reg_def resolve_mirror_def)
  note s1 = plain_store [OF p0, of h "ip AND 0xffff", folded c1_def]
  have l1: "same_layout c1 c" using s1(3) by (simp add: same_layout_def put_reg_def)
  have p1: "plain (put_reg MSP430_SP (sp - 4) c1) (sp - 4)"
    using assms(2) plain_layout [OF l1, of "sp - 4"] by (simp add: plain_def put_reg_def resolve_mirror_def)
  define c2 where "c2 = mem_write h (sp - 4) ((reg c MSP430_SR AND 0x0fff) OR drop_bit 4 (ip AND 0xf0000)) True (put_reg MSP430_SP (sp - 4) c1)"
  note s2 = plain_store [OF p1, of h "(reg c MSP430_SR AND 0x0fff) OR drop_bit 4 (ip AND 0xf0000)", folded c2_def]
  have pr: "push_return h ip c = c2"
    unfolding push_return_def Let_def assms(3) [symmetric] c2_def c1_def ..
  show "read_word (push_return h ip c) (sp - 4) = entry_high ip (reg c MSP430_SR)"
    unfolding pr read_word_def s2(1) by (simp add: entry_high_def join_bytes)
  show "read_word (push_return h ip c) (sp - 2) = entry_low ip"
    unfolding pr read_word_def s2(1) using far_words [of sp] s1(1) by (simp add: put_reg_def entry_low_def join_bytes)
  show "reg (push_return h ip c) = (reg c)(MSP430_SP := sp - 4)" unfolding pr s2(2) using s1(2) by (simp add: put_reg_def)
  show "same_layout (push_return h ip c) c" unfolding pr using s2(3) l1 by (simp add: same_layout_def put_reg_def)
qed

definition irq_quiet :: "'a msp430_cpu_scheme msp430_host \<Rightarrow> bool" where
  "irq_quiet h \<longleftrightarrow> (\<forall>f src v c. memory (m_irq h f src v c) = memory c \<and> reg (m_irq h f src v c) = reg c \<and> same_layout (m_irq h f src v c) c)"

lemma service_interrupt_frame:
  assumes "irq_quiet h" "0 \<le> interrupt_max c" "nat (interrupt_max c) < max_interrupt c"
    "plain c (sp - 2)" "plain c (sp - 4)" "sp = reg c MSP430_SP" "d = service_interrupt h ip c"
  shows "read_word d (sp - 2) = entry_low ip \<and> read_word d (sp - 4) = entry_high ip (reg c MSP430_SR) \<and> reg d MSP430_SP = sp - 4 \<and> same_layout d c"
proof -
  define vec where "vec = nat (interrupt_max c)"
  define c1 where "c1 = push_return h ip c"
  define c2 where "c2 = (put_reg MSP430_SR 0 c1)\<lparr>interrupts_enabled := False, cpu_off := False\<rparr>"
  define c3 where "c3 = (put_reg MSP430_PC (ucast (read_word c2 (0xfffe - of_nat (max_interrupt c - vec) * 2))) c2)\<lparr>serviced_interrupt := int vec\<rparr>"
  define c4 where "c4 = reevaluate_interrupts (c3\<lparr>interrupt_source := (interrupt_source c3)(vec := 0), interrupt_handler := (interrupt_handler c3)(vec := None)\<rparr>)"
  have "vec < max_interrupt c" using assms(3) by (simp add: vec_def)
  hence e: "(if vec < max_interrupt c then push_return h ip c else c) = c1" "(if vec = max_interrupt c then x else c4) = c4" for x by (simp_all add: c1_def)
  have "d = (case interrupt_handler c3 vec of None \<Rightarrow> spend 6 c4 | Some f \<Rightarrow> m_irq h f (interrupt_source c3 vec) vec (spend 6 c4))"
    unfolding assms(7) service_interrupt_def Let_def vec_def [symmetric] e(1) c2_def [symmetric] c3_def [symmetric] c4_def [symmetric] e(2) ..
  hence "memory d = memory c4 \<and> reg d = reg c4 \<and> same_layout d c4" using assms(1)
    by (auto simp: irq_quiet_def spend_def same_layout_def split: option.split)
  moreover have "memory c4 = memory c1" "reg c4 MSP430_SP = reg c1 MSP430_SP" "same_layout c4 c1"
    by (simp_all add: c4_def c3_def c2_def reevaluate_interrupts_def put_reg_def same_layout_def)
  moreover note push_return_frame [OF assms(4-6), of h ip, folded c1_def]
  ultimately show ?thesis by (simp add: read_word_def same_layout_def)
qed

lemma exec_reti_result:
  assumes "plain c sp" "plain c (sp + 2)" "sp = reg c MSP430_SP" "sr = ucast (read_word c sp)" "d = exec_reti h c" "v = sr AND 0x0fff"
  shows "reg d MSP430_PC = ucast (read_word c (sp + 2)) OR push_bit 4 (sr AND 0xf000) \<and> reg d MSP430_SP = sp + 4 \<and> reg d MSP430_SR = v \<and>
    (interrupts_enabled d \<longleftrightarrow> v AND SR_GIE \<noteq> 0) \<and> (cpu_off d \<longleftrightarrow> v AND SR_CPUOFF \<noteq> 0) \<and> serviced_interrupt d = -1 \<and>
    (\<forall>i > 2. reg d i = reg c i)"
proof -
  define c0 where "c0 = c\<lparr>serviced_interrupt := -1\<rparr>"
  define c1 where "c1 = write_sr v c0"
  have l: "same_layout c0 c" "same_layout c1 c" "read_word c0 = read_word c" "read_word c1 = read_word c"
    by (auto simp: c1_def c0_def same_layout_def write_sr_def put_reg_def read_word_def Let_def handle_pending_interrupts_def reevaluate_interrupts_def fun_eq_iff)
  have r0: "mem_read h sp True c0 = (sr, c0)" using plain_load assms(1) plain_layout [OF l(1)] l(3) assms(4) by metis
  have r1: "mem_read h (sp + 2) True c1 = (ucast (read_word c (sp + 2)), c1)" using plain_load assms(2) plain_layout [OF l(2)] l(4) by metis
  have "d = handle_pending_interrupts (spend 4 (put_reg MSP430_SP (sp + 4) (put_reg MSP430_PC (ucast (read_word c (sp + 2)) OR push_bit 4 (sr AND 0xf000)) c1)))"
    using r0 r1 unfolding assms(5) exec_reti_def c0_def [symmetric] Let_def by (simp add: assms(3, 6) c0_def c1_def)
  thus ?thesis by (auto simp: handle_pending_interrupts_def reevaluate_interrupts_def spend_def put_reg_def c1_def c0_def write_sr_def Let_def)
qed

text \<open>
  C38. RETI undoes an interrupt entry: whatever the service routine did, as long as it kept its stack pointer and the four
  bytes of the entry, RETI restores the twenty bits of the program counter, the stack pointer and the status register,
  and with it the interrupt enable and the low-power mode of the interrupted code.
\<close>

theorem interrupt_return_restores:
  assumes "irq_quiet h" "0 \<le> interrupt_max c" "nat (interrupt_max c) < max_interrupt c" "sp = reg c MSP430_SP" "plain c (sp - 2)" "plain c (sp - 4)"
    "take_bit 20 (reg c MSP430_PC) = reg c MSP430_PC" "take_bit 12 (reg c MSP430_SR) = reg c MSP430_SR"
    "d = service_interrupt h (reg c MSP430_PC) c"
    "same_layout e d" "reg e MSP430_SP = reg d MSP430_SP" "read_word e (sp - 4) = read_word d (sp - 4)" "read_word e (sp - 2) = read_word d (sp - 2)"
    "r = exec_reti h e"
  shows "reg r MSP430_PC = reg c MSP430_PC \<and> reg r MSP430_SP = sp \<and> reg r MSP430_SR = reg c MSP430_SR \<and> (\<forall>i > 2. reg r i = reg e i) \<and>
    (interrupts_enabled r \<longleftrightarrow> reg c MSP430_SR AND SR_GIE \<noteq> 0) \<and> (cpu_off r \<longleftrightarrow> reg c MSP430_SR AND SR_CPUOFF \<noteq> 0) \<and> serviced_interrupt r = -1"
proof -
  have f: "read_word d (sp - 2) = entry_low (reg c MSP430_PC)" "read_word d (sp - 4) = entry_high (reg c MSP430_PC) (reg c MSP430_SR)"
    "reg d MSP430_SP = sp - 4" "same_layout d c"
    using service_interrupt_frame [OF assms(1-3, 5, 6, 4, 9)] by simp_all
  have "plain e (sp - 4)" "plain e (sp - 4 + 2)"
    using assms(5, 6) plain_layout [OF assms(10)] plain_layout [OF f(4)] far_words(5) [of sp] by simp_all
  note res = exec_reti_result [OF this _ refl assms(14), of "reg c MSP430_SR"]
  show ?thesis using res [unfolded assms(11-13) f far_words(5)] split_entry(1) [OF assms(7)] split_entry(2) [OF assms(8)] by (simp add: assms(12, 13) f)
qed

subsection \<open>Instances\<close>

text \<open>A sleeping part with its stack in memory and vector 3 pending, and a service routine that returns at once.\<close>

definition napping :: msp430_cpu where
  "napping = msp430_flag_interrupt 3 1 None True
     ((msp430_cpu_init False f149)\<lparr>reg := (\<lambda>_. 0)(0 := 0x4010, 1 := 0xa00, 2 := 0x18), interrupts_enabled := True, cpu_off := True\<rparr>)"

theorem interrupt_return_restores_witness:
  "let d = service_interrupt still_host 0x4010 napping; r = exec_reti still_host d in
     reg r MSP430_PC = 0x4010 \<and> reg r MSP430_SP = 0xa00 \<and> reg r MSP430_SR = 0x18 \<and> cpu_off r"
proof -
  have f: "reg napping 0 = 0x4010" "reg napping (Suc 0) = 0xa00" "reg napping 2 = 0x18" "interrupt_max napping = 3" "max_interrupt napping = 15"
    "max_mem_io napping = 0x200" "max_mem napping = 0x10000" "ram_mirror_size (config napping) = 0"
    by (simp_all add: napping_def msp430_flag_interrupt_def f149_defs)
  have p: "plain napping 0x9fe" "plain napping 0x9fc" by (simp_all add: plain_def resolve_mirror_def f)
  have "irq_quiet still_host" by (simp add: irq_quiet_def still_host_def same_layout_def)
  from interrupt_return_restores [OF this _ _ refl _ _ _ _ refl _ _ _ _ refl, of napping "service_interrupt still_host 0x4010 napping"]
  show ?thesis using p by (simp add: f same_layout_def Let_def)
qed

end
