(* ===== verification/Msp430_Step_Correct.thy ===== *)
theory Msp430_Step_Correct
  imports Msp430_Return_Correct Cpu_Events_Correct
begin

text \<open>
  Runs of the MSP430 emulator to a target: a run that returns has reached its target, a sleeping part reaches it in
  one leap, a program counter outside the memory never gets there, and the time to the next wakeup is not overstated.
\<close>

subsection \<open>Runs that return\<close>

definition forward :: "'a msp430_cpu_scheme msp430_host \<Rightarrow> bool" where
  "forward h \<longleftrightarrow> (\<forall>ev c. cpu_cycles c \<le> cpu_cycles (m_event h ev c))"

lemma run_to_target_reached:
  assumes "run_to_target h j t c = Some d"
  shows "t \<le> cpu_cycles d"
proof (rule run_to_target.raw_induct [OF _ assms, where P = "\<lambda>h j t c d. t \<le> cpu_cycles d"], goal_cases)
  case (1 rec h j t c d)
  thus ?case by (auto split: if_splits option.splits)
qed

lemma drain_due_exit:
  assumes "forward h" "drain_due h c = Some d"
  shows "cpu_cycles d < next_event_cycle d \<and> cpu_cycles c \<le> cpu_cycles d"
proof (rule drain_due.raw_induct [OF _ assms(2), where P = "\<lambda>h0 c d. h0 = h \<longrightarrow> cpu_cycles d < next_event_cycle d \<and> cpu_cycles c \<le> cpu_cycles d", THEN mp, OF _ refl],
    goal_cases)
  case (1 rec h0 c d)
  thus ?case using execute_events_forward [of "m_event h" c] assms(1) [unfolded forward_def]
    by (fastforce split: if_splits option.splits)
qed

lemma step_until_reaches:
  assumes "forward h" "cpu_cycles c < t" "msp430_step_until h j t c = Some d"
  shows "t \<le> cpu_cycles d \<and> cpu_cycles d < next_event_cycle d"
proof -
  obtain x y where "run_to_target h j t (c\<lparr>cycle_limit := t\<rparr>) = Some x" "drain_due h x = Some y" "d = stamp_sim_time (y\<lparr>cycle_limit := INT64_MAX\<rparr>)"
    using assms(2, 3) by (auto simp: msp430_step_until_def split: option.splits)
  thus ?thesis using run_to_target_reached drain_due_exit [OF assms(1)] by (fastforce simp: stamp_sim_time_def)
qed

subsection \<open>Runs for a time\<close>

lemma cdiv_times_le: "0 \<le> a \<Longrightarrow> 0 < b \<Longrightarrow> cdiv a b * b \<le> a"
  by (simp add: cdiv_nonneg) (simp add: minus_mod_eq_div_mult [symmetric])

lemma cdiv_pos: "0 \<le> a \<Longrightarrow> 0 < b \<Longrightarrow> 0 \<le> cdiv a b"
  by (simp add: cdiv_nonneg pos_imp_zdiv_nonneg_iff)

lemma sleep_hint_bound:
  assumes "0 < sleep_hint c"
  shows "cpu_off c \<and> \<not> takes_interrupt c \<and> sleep_hint c * uint (cpu_freq_hz c) \<le> (next_event_cycle c - cpu_cycles c) * 1000000"
proof -
  define lead where "lead = next_event_cycle c - cpu_cycles c"
  have c: "cpu_off c" "\<not> takes_interrupt c" "0 < uint (cpu_freq_hz c)" "0 < lead"
    using assms by (auto simp: sleep_hint_def lead_def word_less_def split: if_splits)
  have h: "sleep_hint c = (if lead > cdiv INT64_MAX 1000000 then cdiv (cdiv INT64_MAX 1000000) (uint (cpu_freq_hz c)) else cdiv (lead * 1000000) (uint (cpu_freq_hz c)))"
    using assms by (auto simp: sleep_hint_def lead_def Let_def split: if_splits)
  have m: "0 \<le> cdiv INT64_MAX 1000000" by (rule cdiv_pos) simp_all
  show ?thesis unfolding lead_def [symmetric] using c h cdiv_times_le [OF m c(3)] cdiv_times_le [of "lead * 1000000", OF _ c(3)] by (auto split: if_splits)
qed

text \<open>
  A run for a time that returns has reached the cycle that belongs to all the time handed out so far, and a positive
  answer is safe to sleep for: the part is in a low-power mode with no interrupt to take, and the promised time, in cycles of its clock,
  does not reach past its next event. (Event callbacks do not turn the clock back.)
\<close>

theorem step_micros_reaches:
  assumes "forward h" "msp430_step_micros h j jump_us execute_us cpu = Some (hint, c)" "c0 = init_micros cpu"
  shows "last_micros_cycles c0 + cdiv ((last_micros_delta c0 + max 0 jump_us + max 0 execute_us) * uint (cpu_freq_hz c0)) 1000000 \<le> cpu_cycles c \<and>
    (0 < hint \<longrightarrow> cpu_off c \<and> \<not> takes_interrupt c \<and> hint * uint (cpu_freq_hz c) \<le> (next_event_cycle c - cpu_cycles c) * 1000000)"
proof -
  define c1 where "c1 = c0\<lparr>last_micros_delta := last_micros_delta c0 + max 0 jump_us\<rparr>"
  define t where "t = last_micros_cycles c1 + cdiv ((last_micros_delta c1 + max 0 execute_us) * uint (cpu_freq_hz c1)) 1000000"
  have "msp430_step_micros h j jump_us execute_us cpu =
      map_option (\<lambda>c. (sleep_hint c, c)) (if t > cpu_cycles c1 then msp430_step_until h j t c1 else Some c1)"
    unfolding msp430_step_micros_def Let_def assms(3) [symmetric] c1_def [symmetric] t_def ..
  hence "map_option (\<lambda>c. (sleep_hint c, c)) (if t > cpu_cycles c1 then msp430_step_until h j t c1 else Some c1) = Some (hint, c)"
    using assms(2) by simp
  hence r: "hint = sleep_hint c" "(if t > cpu_cycles c1 then msp430_step_until h j t c1 else Some c1) = Some c"
    by (simp_all add: map_option_eq_Some) (blast+)?
  have "t \<le> cpu_cycles c" using r(2) step_until_reaches [OF assms(1), of c1 t j c] by (auto split: if_splits)
  thus ?thesis using sleep_hint_bound [of c] r(1) by (auto simp: t_def c1_def)
qed

subsection \<open>Low-power modes\<close>

text \<open>A part that sleeps with no interrupt to take and no event up to the target.\<close>

definition sound_asleep :: "int \<Rightarrow> 'a msp430_cpu_scheme \<Rightarrow> bool" where
  "sound_asleep t c \<longleftrightarrow> cpu_off c \<and> \<not> (interrupts_enabled c \<and> interrupt_max c \<ge> 0) \<and> cpu_cycles c < t \<and> t < next_event_cycle c"

lemma nap_turn:
  assumes "sound_asleep t c" "cycle_limit c = t"
  shows "msp430_turn h c = Some (Leave 1 (lpm_sleep c))" "cpu_cycles (lpm_sleep c) = t" "next_event_cycle (lpm_sleep c) = next_event_cycle c"
  using assms by (auto simp: msp430_turn_def takes_interrupt_def sound_asleep_def lpm_turn_def due_events_def lpm_sleep_def Let_def)

lemma nap_interpreter:
  "sound_asleep t c \<Longrightarrow> cycle_limit c = t \<Longrightarrow> 0 < n \<Longrightarrow> msp430_step_interpreter h n c = Some (n - 1, lpm_sleep c)"
  by (simp add: msp430_step_interpreter_def interpreter_loop.simps nap_turn)

lemma nap_step:
  assumes "sound_asleep t c" "cycle_limit c = t" "0 < n"
  shows "\<exists>k. msp430_step h j n c = Some (k, lpm_sleep c)"
proof (cases "has_jit c")
  case True
  have "cycle_limit (lpm_sleep c) = t" using assms(2) by (simp add: lpm_sleep_def Let_def)
  hence "\<exists>k. interpreter_batch h 1000 n c = (Some (Inl k), lpm_sleep c)"
    using nap_interpreter [OF assms(1, 2), of "min n 1000" h] nap_turn(2) [OF assms(1, 2)] assms(3)
    by (auto simp: interpreter_batch_def Let_def)
  moreover have "due_events h c = Some c" "\<not> takes_interrupt c" "cpu_off c" "cpu_cycles c < cycle_limit c"
    using assms by (auto simp: due_events_def takes_interrupt_def sound_asleep_def)
  ultimately have "\<exists>k. jit_turn h j n c = Some (Inl k, lpm_sleep c)" by (auto simp: jit_turn_def Let_def)
  thus ?thesis using True assms(3) by (auto simp: msp430_step_def jit_loop.simps)
qed (use nap_interpreter [OF assms] in \<open>simp add: msp430_step_def\<close>)

lemma slice_size_pos: "0 < slice_size r"
  by (simp add: slice_size_def Let_def)

definition slept_until :: "int \<Rightarrow> 'a msp430_cpu_scheme \<Rightarrow> 'a msp430_cpu_scheme" where
  "slept_until t c = stamp_sim_time ((lpm_sleep (c\<lparr>cycle_limit := t\<rparr>))\<lparr>cycle_limit := INT64_MAX\<rparr>)"

lemma nap_until:
  assumes "sound_asleep t c"
  shows "msp430_step_until h j t c = Some (slept_until t c)"
proof -
  define c1 where "c1 = c\<lparr>cycle_limit := t\<rparr>"
  have s: "sound_asleep t c1" "cycle_limit c1 = t" using assms by (simp_all add: c1_def sound_asleep_def)
  define d where "d = lpm_sleep c1"
  have d: "cpu_cycles d = t" "t < next_event_cycle d" using nap_turn [OF s] assms by (simp_all add: d_def c1_def sound_asleep_def)
  obtain k where "msp430_step h j (slice_size (t - cpu_cycles c1)) c1 = Some (k, d)"
    using nap_step [OF s slice_size_pos] unfolding d_def by blast
  hence "run_to_target h j t c1 = run_to_target h j t d"
    using s(1) by (subst run_to_target.simps) (simp add: sound_asleep_def)
  also have "\<dots> = Some d" using d(1) by (subst run_to_target.simps) simp
  finally have "run_to_target h j t c1 = Some d" .
  moreover have "drain_due h d = Some d" using d by (subst drain_due.simps) simp
  moreover have "cpu_cycles c < t" using assms by (simp add: sound_asleep_def)
  ultimately show ?thesis by (simp add: msp430_step_until_def c1_def [symmetric] slept_until_def d_def)
qed

text \<open>
  C40. A part in a low-power mode that has no interrupt to take and whose next event comes after the target returns
  from the run at exactly that target: it is still asleep, registers, memory and
  events are as they were, and the time slept is accounted for. This holds with and without compiled code.
\<close>

theorem sleeping_part_reaches_target:
  assumes "sound_asleep t c" "cpu_freq_hz c > 0"
  shows "\<exists>d. msp430_step_until h j t c = Some d \<and> cpu_cycles d = t \<and> cpu_off d \<and> reg d = reg c \<and> memory d = memory c \<and> ev_queue d = ev_queue c \<and>
    lpm_ns d = lpm_ns c + cpu_cycles_to_ns (t - cpu_cycles c) (cpu_freq_hz c)"
  using nap_until [OF assms(1), of h j] assms by (auto simp: slept_until_def lpm_sleep_def stamp_sim_time_def sound_asleep_def Let_def)

subsection \<open>A program counter outside the memory\<close>

definition astray :: "'a msp430_cpu_scheme \<Rightarrow> bool" where
  "astray c \<longleftrightarrow> max_mem c \<le> reg c MSP430_PC + 1 \<and> \<not> cpu_off c \<and> \<not> stopping c \<and> \<not> has_jit c \<and> \<not> takes_interrupt c"

lemma astray_step:
  assumes "astray c" "cpu_cycles c < cycle_limit c" "0 < n"
  shows "msp430_step h j n c = Some (n, c\<lparr>instructions := instructions c + 1\<rparr>)"
  using assms by (simp add: msp430_step_def astray_def msp430_step_interpreter_def interpreter_loop.simps msp430_turn_def insn_turn_def Let_def)

lemma astray_count: "astray (c\<lparr>instructions := k\<rparr>) = astray c" "astray (c\<lparr>cycle_limit := t\<rparr>) = astray c"
  by (simp_all add: astray_def takes_interrupt_def)

lemma astray_never_returns:
  assumes "run_to_target h j t c = Some d"
  shows "\<not> (astray c \<and> cycle_limit c = t \<and> cpu_cycles c < t)"
proof (rule run_to_target.raw_induct [OF _ assms, where P = "\<lambda>h j t c d. \<not> (astray c \<and> cycle_limit c = t \<and> cpu_cycles c < t)"], goal_cases)
  case (1 rec h j t c d)
  show ?case
  proof
    assume a: "astray c \<and> cycle_limit c = t \<and> cpu_cycles c < t"
    hence "rec h j t (c\<lparr>instructions := instructions c + 1\<rparr>) = Some d"
      using 1 (2) astray_step [of c "slice_size (t - cpu_cycles c)" h j] slice_size_pos by simp
    from 1 (1) [OF this] a show False by (simp add: astray_count)
  qed
qed

text \<open>
  A running part whose program counter has left the memory hangs the simulator: the interpreter gives up on the fetch
  without charging a cycle, so the run to any later cycle target never returns.
\<close>

theorem runaway_pc_hangs:
  assumes "astray c" "cpu_cycles c < t"
  shows "msp430_step_until h j t c = None"
  using assms astray_never_returns [of h j t "c\<lparr>cycle_limit := t\<rparr>"]
  by (cases "run_to_target h j t (c\<lparr>cycle_limit := t\<rparr>)") (auto simp: msp430_step_until_def astray_count)

subsection \<open>Instances\<close>

definition no_jit :: "msp430_cpu msp430_jit" where
  "no_jit = \<lparr>jit_run = (\<lambda>_ _. None), jit_compile = (\<lambda>_ _. None)\<rparr>"

text \<open>A part asleep with interrupts off, clocked at one megahertz.\<close>

definition asleep149 :: msp430_cpu where
  "asleep149 = (msp430_cpu_init False f149)\<lparr>cpu_off := True, cpu_freq_hz := 1000000\<rparr>"

lemmas asleep149_defs = asleep149_def f149_defs

lemma asleep149_sound: "sound_asleep 50 asleep149"
  by (simp add: sound_asleep_def asleep149_defs)

theorem sleeping_part_reaches_target_witness:
  "\<exists>d. msp430_step_until still_host no_jit 50 asleep149 = Some d \<and> cpu_cycles d = 50 \<and> lpm_ns d = 50000"
  using sleeping_part_reaches_target [OF asleep149_sound, of still_host no_jit]
  by (auto simp: asleep149_defs cpu_cycles_to_ns_def)

theorem step_micros_reaches_witness:
  "\<exists>hint c. msp430_step_micros still_host no_jit 0 50 asleep149 = Some (hint, c) \<and> 50 \<le> cpu_cycles c \<and> hint = 9223372 \<and>
     hint * 1000000 \<le> (next_event_cycle c - cpu_cycles c) * 1000000"
proof -
  define c where "c = slept_until 50 (init_micros asleep149)"
  have s: "sound_asleep 50 (init_micros asleep149)" using asleep149_sound by (simp add: sound_asleep_def init_micros_def asleep149_defs)
  have "msp430_step_micros still_host no_jit 0 50 asleep149 =
      map_option (\<lambda>c. (sleep_hint c, c)) (msp430_step_until still_host no_jit 50 (init_micros asleep149))"
    by (simp add: msp430_step_micros_def init_micros_def asleep149_defs Let_def)
  hence r: "msp430_step_micros still_host no_jit 0 50 asleep149 = Some (sleep_hint c, c)" unfolding nap_until [OF s] c_def by simp
  have "cpu_freq_hz c = 1000000" "sleep_hint c = 9223372" "last_micros_cycles (init_micros asleep149) = 0"
    "last_micros_delta (init_micros asleep149) = 0" "cpu_freq_hz (init_micros asleep149) = 1000000"
    by (simp_all add: c_def slept_until_def stamp_sim_time_def lpm_sleep_def init_micros_def asleep149_defs sleep_hint_def takes_interrupt_def Let_def)
  moreover have "forward still_host" by (simp add: forward_def still_host_def)
  ultimately show ?thesis using step_micros_reaches [OF _ r refl] r by simp
qed

theorem runaway_pc_hangs_witness:
  "msp430_step_until still_host no_jit 50 ((msp430_cpu_init False f149)\<lparr>reg := (\<lambda>_. 0)(MSP430_PC := 0x10000)\<rparr>) = None"
  by (rule runaway_pc_hangs) (simp_all add: astray_def takes_interrupt_def f149_defs)

end
