(* ===== verification/Msp430_Timer.thy ===== *)
theory Msp430_Timer
  imports Msp430_Core
begin

text \<open>
  Timer A and B of the MSP430 parts (\<open>src/msp430/msp430_timer.c\<close>, \<open>include/msp430/msp430_timer.h\<close>). The counter is
  not incremented: its value is computed from the elapsed cycles when it is needed, and the compare, capture and
  overflow events are entries of the event list of the core.

  The peripherals of a part extend the state of its core: the clock module, whose frequencies the timers read, and the
  timers, by number. A double is a real number; \<open>ctrunc\<close> is the conversion to \<open>int64_t\<close>. The event objects of timer \<open>k\<close>
  are numbered from \<open>8 * k\<close>; \<open>tm_ccr_fire\<close> is the \<open>fire_cycle\<close> field of a compare event, which the callback reads.
  The fire counters that are only printed are left out.
\<close>

subsection \<open>State\<close>

record msp430_clock =
  clk_base_addr :: u32
  clock_type :: nat
  max_dco_freq :: u32
  dco_freq :: u32
  mclk_freq :: u32
  smclk_freq :: u32
  aclk_freq :: u32
  div_aclk :: u32
  div_smclk :: u32
  div_mclk :: u32
  dcoctl :: u8
  bcsctl1 :: u8
  bcsctl2 :: u8
  csctl :: "nat \<Rightarrow> u16"
  cs_unlocked :: bool
  clk_timers :: "nat list"

record msp430_timer =
  tm_base_addr :: u32
  tm_iv_addr :: u32
  num_ccr :: nat
  ccr0_vector :: nat
  ccr1_vector :: nat
  tm_ctl :: u16
  tm_counter :: u16
  tm_ccr :: "nat \<Rightarrow> u16"
  tm_cctl :: "nat \<Rightarrow> u16"
  counter_start :: int
  counter_acc :: int
  counter_passed :: int
  cycles_per_tick :: real
  input_divider :: int
  clock_source :: nat
  tm_mode :: nat
  last_tiv :: nat
  exp_cap_interval :: "nat \<Rightarrow> int"
  exp_compare :: "nat \<Rightarrow> u16"
  tm_ccr_fire :: "nat \<Rightarrow> int"

record msp430_soc = msp430_cpu +
  soc_clock :: msp430_clock
  timers :: "nat \<Rightarrow> msp430_timer"

abbreviation TIMER_MC_STOP :: nat where "TIMER_MC_STOP \<equiv> 0"
abbreviation TIMER_MC_UP :: nat where "TIMER_MC_UP \<equiv> 1"
abbreviation TIMER_MC_CONT :: nat where "TIMER_MC_CONT \<equiv> 2"
abbreviation TIMER_MC_UPDOWN :: nat where "TIMER_MC_UPDOWN \<equiv> 3"

abbreviation TIMER_SRC_ACLK :: nat where "TIMER_SRC_ACLK \<equiv> 1"
abbreviation TIMER_SRC_SMCLK :: nat where "TIMER_SRC_SMCLK \<equiv> 2"

abbreviation TIMER_TCLR :: u16 where "TIMER_TCLR \<equiv> 0x0004"
abbreviation TIMER_TIE :: u16 where "TIMER_TIE \<equiv> 0x0002"
abbreviation TIMER_TIFG :: u16 where "TIMER_TIFG \<equiv> 0x0001"
abbreviation TIMER_CAP :: u16 where "TIMER_CAP \<equiv> 0x0100"
abbreviation TIMER_CCIE :: u16 where "TIMER_CCIE \<equiv> 0x0010"
abbreviation TIMER_CCIFG :: u16 where "TIMER_CCIFG \<equiv> 0x0001"
abbreviation TIMER_COV :: u16 where "TIMER_COV \<equiv> 0x0002"
abbreviation TIMER_MAX_CCR :: nat where "TIMER_MAX_CCR \<equiv> 7"

definition upd_timer :: "nat \<Rightarrow> (msp430_timer \<Rightarrow> msp430_timer) \<Rightarrow> 'a msp430_soc_scheme \<Rightarrow> 'a msp430_soc_scheme" where
  "upd_timer k f cpu = cpu\<lparr>timers := (timers cpu)(k := f (timers cpu k))\<rparr>"

definition set_cctl :: "nat \<Rightarrow> u16 \<Rightarrow> msp430_timer \<Rightarrow> msp430_timer" where
  "set_cctl i v t = t\<lparr>tm_cctl := (tm_cctl t)(i := v)\<rparr>"

text \<open>Objects that the core knows by number: events, register handlers, interrupt sources.\<close>

definition ccr_event :: "nat \<Rightarrow> nat \<Rightarrow> nat" where "ccr_event k i = 8 * k + i"
definition overflow_event :: "nat \<Rightarrow> nat" where "overflow_event k = 8 * k + 7"
definition timer_regs :: "nat \<Rightarrow> nat" where "timer_regs k = 4 * k"
definition timer_iv :: "nat \<Rightarrow> nat" where "timer_iv k = 4 * k + 1"
definition timer_irq :: "nat \<Rightarrow> nat" where "timer_irq k = 4 * k"
definition timer_source :: "nat \<Rightarrow> nat" where "timer_source k = Suc k"

definition ctrunc :: "real \<Rightarrow> int" where
  "ctrunc x = (if 0 \<le> x then \<lfloor>x\<rfloor> else \<lceil>x\<rceil>)"

definition msp430_clock_get_aclk_freq :: "msp430_clock \<Rightarrow> u32" where
  "msp430_clock_get_aclk_freq clk = aclk_freq clk"

definition msp430_clock_get_smclk_freq :: "msp430_clock \<Rightarrow> u32" where
  "msp430_clock_get_smclk_freq clk = smclk_freq clk"

subsection \<open>The counter\<close>

definition overflow_tiv :: "msp430_timer \<Rightarrow> nat" where
  "overflow_tiv t = num_ccr t * 2 + (if num_ccr t \<le> 3 then 4 else 0)"

text \<open>Ticks and left-over cycles since the counter was last reset, at a cycle.\<close>

definition elapsed :: "msp430_timer \<Rightarrow> int \<Rightarrow> real" where
  "elapsed t cyc = real_of_int (max 0 (cyc - counter_start t)) / cycles_per_tick t"

definition ticks_at :: "msp430_timer \<Rightarrow> int \<Rightarrow> int" where
  "ticks_at t cyc = ctrunc (elapsed t cyc)"

definition passed_at :: "msp430_timer \<Rightarrow> int \<Rightarrow> int" where
  "passed_at t cyc = ctrunc (cycles_per_tick t * (elapsed t cyc - real_of_int (ticks_at t cyc)))"

definition counter_value :: "msp430_timer \<Rightarrow> int \<Rightarrow> u16" where
  "counter_value t big =
     (if tm_mode t = TIMER_MC_CONT then word_of_int big
      else if tm_mode t = TIMER_MC_UP then
        (if tm_ccr t 0 > 0 then word_of_int (crem big (uint (tm_ccr t 0) + 1)) else 0)
      else if tm_mode t = TIMER_MC_UPDOWN then
        (if tm_ccr t 0 > 0 then
           let period = uint (tm_ccr t 0) * 2; pos = crem big period
           in if pos > uint (tm_ccr t 0) then word_of_int (period - pos) else word_of_int pos
         else 0)
      else tm_counter t)"

definition sync_timer :: "int \<Rightarrow> msp430_timer \<Rightarrow> msp430_timer" where
  "sync_timer cyc t =
     (if tm_mode t = TIMER_MC_STOP \<or> cycles_per_tick t \<le> 0 then t
      else t\<lparr>counter_passed := passed_at t cyc, tm_counter := counter_value t (ticks_at t cyc + counter_acc t)\<rparr>)"

definition sync_counter :: "nat \<Rightarrow> 'a msp430_soc_scheme \<Rightarrow> 'a msp430_soc_scheme" where
  "sync_counter k cpu = upd_timer k (sync_timer (cpu_cycles cpu)) cpu"

definition updown_pos :: "msp430_timer \<Rightarrow> int \<Rightarrow> int" where
  "updown_pos t cyc =
     (let period = uint (tm_ccr t 0) * 2 in
      if period \<le> 0 \<or> cycles_per_tick t \<le> 0 then 0 else crem (ticks_at t cyc + counter_acc t) period)"

definition reset_timer :: "int \<Rightarrow> msp430_timer \<Rightarrow> msp430_timer" where
  "reset_timer cyc t =
     (let passed = passed_at t cyc
      in t\<lparr>counter_passed := passed, counter_start := cyc - passed, counter_acc := uint (tm_counter t)\<rparr>)"

definition reset_counter :: "nat \<Rightarrow> 'a msp430_soc_scheme \<Rightarrow> 'a msp430_soc_scheme" where
  "reset_counter k cpu = upd_timer k (reset_timer (cpu_cycles cpu)) cpu"

definition new_cycles_per_tick :: "msp430_clock \<Rightarrow> u32 \<Rightarrow> msp430_timer \<Rightarrow> real" where
  "new_cycles_per_tick clk cpu_freq t =
     (let aclk = (if msp430_clock_get_aclk_freq clk = 0 then 32768 else msp430_clock_get_aclk_freq clk);
          smclk = (if msp430_clock_get_smclk_freq clk = 0 then cpu_freq else msp430_clock_get_smclk_freq clk);
          cpt = real_of_int (input_divider t);
          cpt = (if clock_source t = TIMER_SRC_ACLK \<and> aclk > 0 \<and> smclk > 0
                 then cpt * real_of_int (uint smclk) / real_of_int (uint aclk) else cpt)
      in if cpt < 1 then 1 else cpt)"

definition update_cycles_per_tick :: "nat \<Rightarrow> 'a msp430_soc_scheme \<Rightarrow> 'a msp430_soc_scheme" where
  "update_cycles_per_tick k cpu =
     (let t = timers cpu k; cpt = new_cycles_per_tick (soc_clock cpu) (cpu_freq_hz cpu) t in
      if cpt \<noteq> cycles_per_tick t \<and> cycles_per_tick t > 0 \<and> tm_mode t \<noteq> TIMER_MC_STOP
      then reset_counter k (upd_timer k (\<lambda>t. t\<lparr>cycles_per_tick := cpt\<rparr>) (sync_counter k cpu))
      else upd_timer k (\<lambda>t. t\<lparr>cycles_per_tick := cpt\<rparr>) cpu)"

subsection \<open>Interrupts\<close>

definition flag_vector :: "nat \<Rightarrow> nat \<Rightarrow> 'a msp430_soc_scheme \<Rightarrow> 'a msp430_soc_scheme" where
  "flag_vector k vec = msp430_flag_interrupt vec (timer_source k) (Some (timer_irq k)) True"

definition trigger_ccr_interrupt :: "nat \<Rightarrow> nat \<Rightarrow> 'a msp430_soc_scheme \<Rightarrow> 'a msp430_soc_scheme" where
  "trigger_ccr_interrupt k i cpu =
     (let t = timers cpu k in
      if tm_cctl t i AND TIMER_CCIE = 0 \<or> tm_cctl t i AND TIMER_CCIFG = 0 then cpu
      else if i = 0 then flag_vector k (ccr0_vector t) cpu
      else flag_vector k (ccr1_vector t)
             (if last_tiv t = 0 \<or> i * 2 < last_tiv t then upd_timer k (\<lambda>t. t\<lparr>last_tiv := i * 2\<rparr>) cpu else cpu))"

definition ccr_pending :: "msp430_timer \<Rightarrow> nat \<Rightarrow> bool" where
  "ccr_pending t i \<longleftrightarrow> tm_cctl t i AND TIMER_CCIE \<noteq> 0 \<and> tm_cctl t i AND TIMER_CCIFG \<noteq> 0"

definition reevaluate_tiv :: "nat \<Rightarrow> 'a msp430_soc_scheme \<Rightarrow> 'a msp430_soc_scheme" where
  "reevaluate_tiv k cpu =
     (let t = timers cpu k; tiv = (\<lambda>v. upd_timer k (\<lambda>t. t\<lparr>last_tiv := v\<rparr>)) in
      case find (ccr_pending t) [1..<num_ccr t] of
        Some i \<Rightarrow> flag_vector k (ccr1_vector t) (tiv (i * 2) cpu)
      | None \<Rightarrow>
          if tm_ctl t AND TIMER_TIE \<noteq> 0 \<and> tm_ctl t AND TIMER_TIFG \<noteq> 0
          then flag_vector k (ccr1_vector t) (tiv (overflow_tiv t) cpu)
          else msp430_flag_interrupt (ccr1_vector t) (timer_source k) None False (tiv 0 cpu))"

subsection \<open>Scheduling\<close>

definition put_ccr_event :: "nat \<Rightarrow> nat \<Rightarrow> int \<Rightarrow> 'a msp430_soc_scheme \<Rightarrow> 'a msp430_soc_scheme" where
  "put_ccr_event k i cyc cpu =
     upd_timer k (\<lambda>t. t\<lparr>tm_ccr_fire := (tm_ccr_fire t)(i := cyc)\<rparr>) (schedule_event (ccr_event k i) cyc cpu)"

definition capture_interval :: "msp430_clock \<Rightarrow> int \<Rightarrow> msp430_timer \<Rightarrow> int" where
  "capture_interval clk divisor t =
     (let frq = (if clock_source t = TIMER_SRC_SMCLK then cdiv (uint (msp430_clock_get_smclk_freq clk)) (input_divider t)
                 else if clock_source t = TIMER_SRC_ACLK then cdiv (uint (msp430_clock_get_aclk_freq clk)) (input_divider t) else 1);
          n = cdiv frq divisor
      in if n < 1 then 1 else n)"

definition schedule_capture :: "nat \<Rightarrow> nat \<Rightarrow> 'a msp430_soc_scheme \<Rightarrow> 'a msp430_soc_scheme" where
  "schedule_capture k i cpu =
     (let t = timers cpu k; clk = soc_clock cpu; cm = drop_bit 14 (tm_cctl t i AND 0xC000); ccis = drop_bit 12 (tm_cctl t i AND 0x3000) in
      if cm = 0 \<or> ccis > 1 \<or> ccis = 1 \<and> msp430_clock_get_aclk_freq clk = 0 then cpu
      else
        let n = capture_interval clk (if ccis = 1 then uint (msp430_clock_get_aclk_freq clk) else 1) t;
            base = (if ccis = 1 then tm_ccr t i else tm_counter t)
        in put_ccr_event k i (cpu_cycles cpu + ctrunc (real_of_int n * cycles_per_tick t))
             (upd_timer k (\<lambda>t. t\<lparr>exp_cap_interval := (exp_cap_interval t)(i := n),
                                 exp_compare := (exp_compare t)(i := word_of_int (uint base + n))\<rparr>) cpu))"

text \<open>Ticks until the counter matches compare register \<open>i\<close>, if it ever does.\<close>

definition ticks_to_match :: "int \<Rightarrow> nat \<Rightarrow> msp430_timer \<Rightarrow> int option" where
  "ticks_to_match cyc i t =
     (let v = uint (tm_ccr t i); c = uint (tm_counter t); top = uint (tm_ccr t 0) in
      if tm_mode t = TIMER_MC_CONT then Some (if v > c then v - c else (0x10000 - c) + v)
      else if tm_mode t = TIMER_MC_UP then
        Some (if i = 0 then (if v > c then v - c else v + 1)
              else if v > c \<and> v \<le> top then v - c else (top + 1 - c) + v)
      else if tm_mode t = TIMER_MC_UPDOWN then
        let period = top * 2 in
        if period \<le> 0 \<or> v > top then None
        else
          let pos = updown_pos t cyc; up = crem (v - pos + period) period; down = crem ((period - v) - pos + period) period;
              up = (if up = 0 then period else up); down = (if down = 0 then period else down)
          in Some (if up < down then up else down)
      else None)"

definition fire_after :: "int \<Rightarrow> msp430_timer \<Rightarrow> int \<Rightarrow> int" where
  "fire_after cyc t n = cyc - counter_passed t + ctrunc (real_of_int n * cycles_per_tick t + 1)"

definition schedule_ccr_event :: "nat \<Rightarrow> nat \<Rightarrow> 'a msp430_soc_scheme \<Rightarrow> 'a msp430_soc_scheme" where
  "schedule_ccr_event k i cpu =
     (let t = timers cpu k in
      if tm_mode t = TIMER_MC_STOP \<or> cycles_per_tick t \<le> 0 then cpu
      else if tm_cctl t i AND TIMER_CAP \<noteq> 0 then schedule_capture k i cpu
      else case ticks_to_match (cpu_cycles cpu) i t of
             None \<Rightarrow> cpu
           | Some n \<Rightarrow> put_ccr_event k i (fire_after (cpu_cycles cpu) t n) cpu)"

definition ticks_to_overflow :: "int \<Rightarrow> msp430_timer \<Rightarrow> int option" where
  "ticks_to_overflow cyc t =
     (let top = uint (tm_ccr t 0); c = uint (tm_counter t) in
      if tm_mode t = TIMER_MC_CONT then Some (0x10000 - c)
      else if tm_mode t = TIMER_MC_UP then Some (if top > 0 then top + 1 - c else 0x10000)
      else if tm_mode t = TIMER_MC_UPDOWN then
        let period = top * 2; n = period - updown_pos t cyc
        in if period \<le> 0 then None else Some (if n = 0 then period else n)
      else None)"

definition schedule_overflow_event :: "nat \<Rightarrow> 'a msp430_soc_scheme \<Rightarrow> 'a msp430_soc_scheme" where
  "schedule_overflow_event k cpu =
     (let t = timers cpu k in
      if tm_mode t = TIMER_MC_STOP \<or> cycles_per_tick t \<le> 0 then cpu
      else case ticks_to_overflow (cpu_cycles cpu) t of
             None \<Rightarrow> cpu
           | Some n \<Rightarrow> schedule_event (overflow_event k) (fire_after (cpu_cycles cpu) t n) cpu)"

definition schedule_all_events :: "nat \<Rightarrow> 'a msp430_soc_scheme \<Rightarrow> 'a msp430_soc_scheme" where
  "schedule_all_events k cpu =
     schedule_overflow_event k (fold (schedule_ccr_event k) [0..<num_ccr (timers cpu k)] (sync_counter k cpu))"

definition cancel_all_events :: "nat \<Rightarrow> 'a msp430_soc_scheme \<Rightarrow> 'a msp430_soc_scheme" where
  "cancel_all_events k cpu =
     cancel_event (overflow_event k) (fold (\<lambda>i. cancel_event (ccr_event k i)) [0..<num_ccr (timers cpu k)] cpu)"

subsection \<open>Event callbacks\<close>

definition capture_fired :: "nat \<Rightarrow> nat \<Rightarrow> 'a msp430_soc_scheme \<Rightarrow> 'a msp430_soc_scheme" where
  "capture_fired k i cpu =
     (let t = timers cpu k;
          v = (if tm_cctl t i AND TIMER_CCIFG \<noteq> 0 then tm_cctl t i OR TIMER_COV else tm_cctl t i) OR TIMER_CCIFG;
          cpu = trigger_ccr_interrupt k i
                  (upd_timer k (\<lambda>t. set_cctl i v (t\<lparr>tm_ccr := (tm_ccr t)(i := exp_compare t i),
                     exp_compare := (exp_compare t)(i := word_of_int (uint (exp_compare t i) + exp_cap_interval t i))\<rparr>)) cpu);
          n = ctrunc (real_of_int (exp_cap_interval t i) * cycles_per_tick t);
          low = cdiv (uint (cpu_freq_hz cpu)) 100;
          n = (if v AND TIMER_CCIE = 0 \<and> n < low then low else n)
      in put_ccr_event k i (tm_ccr_fire t i + n) cpu)"

definition ccr_event_callback :: "nat \<Rightarrow> nat \<Rightarrow> 'a msp430_soc_scheme \<Rightarrow> 'a msp430_soc_scheme" where
  "ccr_event_callback k i cpu =
     (if i \<ge> num_ccr (timers cpu k) then cpu
      else
        let cpu = sync_counter k cpu; t = timers cpu k in
        if tm_cctl t i AND TIMER_CAP \<noteq> 0 then capture_fired k i cpu
        else put_ccr_event k i (tm_ccr_fire t i + ctrunc (0x10000 * cycles_per_tick t))
               (trigger_ccr_interrupt k i (upd_timer k (set_cctl i (tm_cctl t i OR TIMER_CCIFG)) cpu)))"

definition overflow_event_callback :: "nat \<Rightarrow> 'a msp430_soc_scheme \<Rightarrow> 'a msp430_soc_scheme" where
  "overflow_event_callback k cpu =
     (let cpu = upd_timer k (\<lambda>t. t\<lparr>tm_ctl := tm_ctl t OR TIMER_TIFG\<rparr>) (sync_counter k cpu); t = timers cpu k;
          cpu = (if tm_ctl t AND TIMER_TIE \<noteq> 0
                 then flag_vector k (ccr1_vector t)
                        (if last_tiv t = 0 then upd_timer k (\<lambda>t. t\<lparr>last_tiv := overflow_tiv t\<rparr>) cpu else cpu)
                 else cpu)
      in schedule_overflow_event k cpu)"

subsection \<open>Registers\<close>

definition high_byte :: "u16 \<Rightarrow> u32" where
  "high_byte v = ucast (drop_bit 8 v AND 0xFF)"

definition in_ccr_bank :: "u32 \<Rightarrow> u32 \<Rightarrow> msp430_timer \<Rightarrow> bool" where
  "in_ccr_bank off first t \<longleftrightarrow> off \<ge> first \<and> off < first + of_nat (num_ccr t) * 2"

definition bank_index :: "u32 \<Rightarrow> u32 \<Rightarrow> nat" where
  "bank_index off first = unat (off - first) div 2"

definition reg_half :: "u32 \<Rightarrow> u16 \<Rightarrow> u32" where
  "reg_half rel v = (if rel AND 1 \<noteq> 0 then high_byte v else ucast v)"

definition timer_read :: "nat \<Rightarrow> u32 \<Rightarrow> bool \<Rightarrow> 'a msp430_soc_scheme \<Rightarrow> u32 \<times> 'a msp430_soc_scheme" where
  "timer_read k a word cpu =
     (let t = timers cpu k; off = a - tm_base_addr t in
      if off = 0x10 \<or> off = 0x11 then
        let cpu = sync_counter k cpu; c = tm_counter (timers cpu k) in (if off = 0x11 then high_byte c else ucast c, cpu)
      else if off = 0 \<or> off = 1 then (if off = 1 then high_byte (tm_ctl t) else ucast (tm_ctl t), cpu)
      else if in_ccr_bank off 0x02 t then (reg_half (off - 0x02) (tm_cctl t (bank_index off 0x02)), cpu)
      else if in_ccr_bank off 0x12 t then (reg_half (off - 0x12) (tm_ccr t (bank_index off 0x12)), cpu)
      else (0, cpu))"

definition timer_iv_read :: "nat \<Rightarrow> u32 \<Rightarrow> bool \<Rightarrow> 'a msp430_soc_scheme \<Rightarrow> u32 \<times> 'a msp430_soc_scheme" where
  "timer_iv_read k a word cpu =
     (let t = timers cpu k; v = last_tiv t in
      (of_nat v,
       if v = 0 then cpu
       else reevaluate_tiv k
              (if v = overflow_tiv t then upd_timer k (\<lambda>t. t\<lparr>tm_ctl := tm_ctl t AND NOT TIMER_TIFG\<rparr>) cpu
               else if 1 \<le> v div 2 \<and> v div 2 < num_ccr t
                 then upd_timer k (set_cctl (v div 2) (tm_cctl t (v div 2) AND NOT TIMER_CCIFG)) cpu
               else cpu)))"

definition timer_iv_write :: "nat \<Rightarrow> u32 \<Rightarrow> u32 \<Rightarrow> bool \<Rightarrow> 'a msp430_soc_scheme \<Rightarrow> 'a msp430_soc_scheme" where
  "timer_iv_write k a v word cpu = cpu"

text \<open>A 16-bit register after a word write or a write of its low or high byte.\<close>

definition store_half :: "bool \<Rightarrow> bool \<Rightarrow> u32 \<Rightarrow> u16 \<Rightarrow> u16" where
  "store_half word upper v old =
     (if word then ucast v
      else if \<not> upper then (old AND 0xFF00) OR ucast (v AND 0xFF)
      else (old AND 0x00FF) OR push_bit 8 (ucast (v AND 0xFF)))"

definition mode_of :: "u16 \<Rightarrow> nat" where
  "mode_of ctl = unat (drop_bit 4 ctl AND 3)"

definition clear_counter :: "int \<Rightarrow> msp430_timer \<Rightarrow> msp430_timer" where
  "clear_counter cyc t =
     (if tm_ctl t AND TIMER_TCLR \<noteq> 0
      then t\<lparr>tm_counter := 0, counter_acc := 0, counter_start := cyc, counter_passed := 0, tm_ctl := tm_ctl t AND NOT TIMER_TCLR\<rparr>
      else t)"

definition write_ctl :: "nat \<Rightarrow> bool \<Rightarrow> bool \<Rightarrow> u32 \<Rightarrow> 'a msp430_soc_scheme \<Rightarrow> 'a msp430_soc_scheme" where
  "write_ctl k upper word v cpu =
     (let cpu = sync_counter k cpu; old = tm_ctl (timers cpu k); ctl = store_half word upper v old; new_mode = mode_of ctl; old_mode = mode_of old;
          cpu = upd_timer k (\<lambda>t. clear_counter (cpu_cycles cpu)
                  (t\<lparr>tm_ctl := ctl, clock_source := unat (drop_bit 8 ctl AND 3), input_divider := 2 ^ unat (drop_bit 6 ctl AND 3)\<rparr>)) cpu;
          cpu = upd_timer k (\<lambda>t. t\<lparr>tm_mode := new_mode\<rparr>) (update_cycles_per_tick k cpu)
      in if new_mode \<noteq> TIMER_MC_STOP \<and> old_mode = TIMER_MC_STOP then schedule_all_events k (reset_counter k cpu)
         else if new_mode = TIMER_MC_STOP then cancel_all_events k cpu
         else if new_mode \<noteq> old_mode then schedule_all_events k cpu
         else cpu)"

definition write_counter :: "nat \<Rightarrow> bool \<Rightarrow> bool \<Rightarrow> u32 \<Rightarrow> 'a msp430_soc_scheme \<Rightarrow> 'a msp430_soc_scheme" where
  "write_counter k upper word v cpu =
     (let put = (\<lambda>t. t\<lparr>tm_counter := (if word \<or> \<not> upper then ucast v
                                         else (tm_counter t AND 0x00FF) OR push_bit 8 (ucast (v AND 0xFF)))\<rparr>);
          cpu = reset_counter k (upd_timer k put (sync_counter k cpu))
      in if tm_mode (timers cpu k) \<noteq> TIMER_MC_STOP then schedule_all_events k cpu else cpu)"

definition write_cctl :: "nat \<Rightarrow> nat \<Rightarrow> bool \<Rightarrow> bool \<Rightarrow> u32 \<Rightarrow> 'a msp430_soc_scheme \<Rightarrow> 'a msp430_soc_scheme" where
  "write_cctl k i upper word v cpu =
     (let cpu = upd_timer k (\<lambda>t. set_cctl i (store_half word upper v (tm_cctl t i)) t) cpu; t = timers cpu k;
          cpu = (if i = 0 then
                   (if ccr_pending t 0 then flag_vector k (ccr0_vector t) cpu
                    else msp430_flag_interrupt (ccr0_vector t) (timer_source k) None False cpu)
                 else reevaluate_tiv k cpu)
      in if tm_mode t \<noteq> TIMER_MC_STOP then schedule_ccr_event k i cpu else cpu)"

definition write_ccr :: "nat \<Rightarrow> nat \<Rightarrow> bool \<Rightarrow> bool \<Rightarrow> u32 \<Rightarrow> 'a msp430_soc_scheme \<Rightarrow> 'a msp430_soc_scheme" where
  "write_ccr k i upper word v cpu =
     (let cpu = upd_timer k (\<lambda>t. t\<lparr>tm_ccr := (tm_ccr t)(i := store_half word upper v (tm_ccr t i))\<rparr>) (sync_counter k cpu); t = timers cpu k in
      if tm_mode t = TIMER_MC_STOP then cpu
      else let cpu = schedule_ccr_event k i cpu in if i = 0 \<and> tm_mode t = TIMER_MC_UP then schedule_overflow_event k cpu else cpu)"

definition timer_write :: "nat \<Rightarrow> u32 \<Rightarrow> u32 \<Rightarrow> bool \<Rightarrow> 'a msp430_soc_scheme \<Rightarrow> 'a msp430_soc_scheme" where
  "timer_write k a v word cpu =
     (let t = timers cpu k; off = a - tm_base_addr t in
      if off = 0 \<or> off = 1 then write_ctl k (off = 1) word v cpu
      else if off = 0x10 \<or> off = 0x11 then write_counter k (off = 0x11) word v cpu
      else if in_ccr_bank off 0x02 t then write_cctl k (bank_index off 0x02) ((off - 0x02) AND 1 \<noteq> 0) word v cpu
      else if in_ccr_bank off 0x12 t then write_ccr k (bank_index off 0x12) ((off - 0x12) AND 1 \<noteq> 0) word v cpu
      else cpu)"

subsection \<open>Service, clock changes, capture inputs, initialisation\<close>

definition timer_interrupt_handler :: "nat \<Rightarrow> nat \<Rightarrow> 'a msp430_soc_scheme \<Rightarrow> 'a msp430_soc_scheme" where
  "timer_interrupt_handler k vec cpu =
     (if vec = ccr0_vector (timers cpu k) then upd_timer k (\<lambda>t. set_cctl 0 (tm_cctl t 0 AND NOT TIMER_CCIFG) t) cpu else cpu)"

definition msp430_timer_clock_changed :: "nat \<Rightarrow> 'a msp430_soc_scheme \<Rightarrow> 'a msp430_soc_scheme" where
  "msp430_timer_clock_changed k cpu =
     (if tm_mode (timers cpu k) = TIMER_MC_STOP then cpu
      else
        let cpu = update_cycles_per_tick k (reset_counter k (sync_counter k cpu))
        in schedule_overflow_event k
             (fold (\<lambda>i c. if tm_cctl (timers c k) i AND TIMER_CAP = 0 then schedule_ccr_event k i c else c) [0..<num_ccr (timers cpu k)] cpu))"

definition captures_edge :: "u16 \<Rightarrow> bool \<Rightarrow> bool" where
  "captures_edge cctl value \<longleftrightarrow>
     cctl AND TIMER_CAP \<noteq> 0 \<and> (let cm = drop_bit 14 cctl AND 3 in cm \<noteq> 0 \<and> (cm = 1 \<longrightarrow> value) \<and> (cm = 2 \<longrightarrow> \<not> value))"

definition msp430_timer_capture_input :: "nat \<Rightarrow> int \<Rightarrow> bool \<Rightarrow> 'a msp430_soc_scheme \<Rightarrow> 'a msp430_soc_scheme" where
  "msp430_timer_capture_input k idx value cpu =
     (let t = timers cpu k; i = nat idx in
      if idx < 0 \<or> idx \<ge> int (num_ccr t) \<or> tm_mode t = TIMER_MC_STOP \<or> \<not> captures_edge (tm_cctl t i) value then cpu
      else
        let cpu = sync_counter k cpu;
            latch = (\<lambda>t. if tm_cctl t i AND TIMER_CCIFG \<noteq> 0 then set_cctl i (tm_cctl t i OR TIMER_COV) t
                         else set_cctl i (tm_cctl t i OR TIMER_CCIFG) (t\<lparr>tm_ccr := (tm_ccr t)(i := tm_counter t)\<rparr>));
            cci = (\<lambda>t. set_cctl i (if value then tm_cctl t i OR 8 else tm_cctl t i AND NOT 8) t);
            cpu = upd_timer k (\<lambda>t. cci (latch t)) cpu; t = timers cpu k
        in if tm_cctl t i AND TIMER_CCIE = 0 then cpu
           else if i = 0 then flag_vector k (ccr0_vector t) cpu
           else flag_vector k (ccr1_vector t)
                  (if last_tiv t = 0 \<or> i * 2 < last_tiv t then upd_timer k (\<lambda>t. t\<lparr>last_tiv := i * 2\<rparr>) cpu else cpu))"

definition msp430_timer_init ::
  "nat \<Rightarrow> u32 \<Rightarrow> u32 \<Rightarrow> nat \<Rightarrow> nat \<Rightarrow> nat \<Rightarrow> 'a msp430_soc_scheme \<Rightarrow> 'a msp430_soc_scheme" where
  "msp430_timer_init k base iv n vec0 vec1 cpu =
     (let t = \<lparr>tm_base_addr = base, tm_iv_addr = iv, num_ccr = (if n > TIMER_MAX_CCR then TIMER_MAX_CCR else n),
               ccr0_vector = vec0, ccr1_vector = vec1, tm_ctl = 0, tm_counter = 0, tm_ccr = (\<lambda>_. 0), tm_cctl = (\<lambda>_. 0),
               counter_start = 0, counter_acc = 0, counter_passed = 0, cycles_per_tick = 1, input_divider = 0, clock_source = 0,
               tm_mode = 0, last_tiv = 0, exp_cap_interval = (\<lambda>_. 0), exp_compare = (\<lambda>_. 0), tm_ccr_fire = (\<lambda>_. 0)\<rparr>
      in msp430_register_io iv 2 (Some (timer_iv k)) (Some (timer_iv k))
           (msp430_register_io base (0x12 + of_nat n * 2) (Some (timer_regs k)) (Some (timer_regs k))
             (upd_timer k (\<lambda>_. t) cpu)))"

end
