(* ===== verification/Msp430_Clock.thy ===== *)
theory Msp430_Clock
  imports Msp430_Timer
begin

text \<open>
  The clock modules (\<open>src/msp430/msp430_clock.c\<close>): the basic clock system of the classic parts and the password-protected
  clock system of the FR5xxx parts. A register write recomputes the frequencies, sets that of the core, which moves the
  deadlines of its events, and tells the timers.
\<close>

abbreviation MSP430_CLOCK_CS :: nat where "MSP430_CLOCK_CS \<equiv> 1"
abbreviation clock_regs :: nat where "clock_regs \<equiv> 3"

definition upd_clock :: "(msp430_clock \<Rightarrow> msp430_clock) \<Rightarrow> 'a msp430_soc_scheme \<Rightarrow> 'a msp430_soc_scheme" where
  "upd_clock f cpu = cpu\<lparr>soc_clock := f (soc_clock cpu)\<rparr>"

definition notify_timers :: "'a msp430_soc_scheme \<Rightarrow> 'a msp430_soc_scheme" where
  "notify_timers cpu = fold msp430_timer_clock_changed (clk_timers (soc_clock cpu)) cpu"

subsection \<open>Basic clock system\<close>

definition bcs_dco :: "msp430_clock \<Rightarrow> u32" where
  "bcs_dco clk =
     (let factor = cdiv (sint (max_dco_freq clk - 1000)) 2048;
          dco = uint (drop_bit 5 (dcoctl clk) AND 0x7); md = uint (dcoctl clk AND 0x1f); rsel = uint (bcsctl1 clk AND 0x7)
      in word_of_int ((push_bit 5 dco + md + push_bit 8 rsel) * factor + 1000))"

definition bcs_rates :: "msp430_clock \<Rightarrow> msp430_clock" where
  "bcs_rates clk =
     (let d = bcs_dco clk; sm = d div div_smclk clk
      in clk\<lparr>dco_freq := d, smclk_freq := sm, aclk_freq := 32768 div div_aclk clk, mclk_freq := sm\<rparr>)"

definition bcs_recalculate :: "'a msp430_soc_scheme \<Rightarrow> 'a msp430_soc_scheme" where
  "bcs_recalculate cpu = (let cpu = upd_clock bcs_rates cpu in cpu_set_frequency (mclk_freq (soc_clock cpu)) cpu)"

definition bcs_read :: "u32 \<Rightarrow> bool \<Rightarrow> 'a msp430_soc_scheme \<Rightarrow> u32 \<times> 'a msp430_soc_scheme" where
  "bcs_read a word cpu =
     (let clk = soc_clock cpu; off = a - clk_base_addr clk in
      (if off = 0 then ucast (dcoctl clk) else if off = 1 then ucast (bcsctl1 clk) else if off = 2 then ucast (bcsctl2 clk) else 0, cpu))"

definition bcs_write :: "u32 \<Rightarrow> u32 \<Rightarrow> bool \<Rightarrow> 'a msp430_soc_scheme \<Rightarrow> 'a msp430_soc_scheme" where
  "bcs_write a v word cpu =
     (let off = a - clk_base_addr (soc_clock cpu); commit = (\<lambda>f. notify_timers (bcs_recalculate (upd_clock f cpu))) in
      if off = 0 then commit (\<lambda>c. c\<lparr>dcoctl := ucast v\<rparr>)
      else if off = 1 then commit (\<lambda>c. c\<lparr>bcsctl1 := ucast v, div_aclk := push_bit (unat (drop_bit 4 v AND 3)) 1\<rparr>)
      else if off = 2 then commit (\<lambda>c. c\<lparr>bcsctl2 := ucast v, div_smclk := push_bit (unat (drop_bit 2 v AND 3)) 1\<rparr>)
      else cpu)"

definition bcs_init :: "'a msp430_soc_scheme \<Rightarrow> 'a msp430_soc_scheme" where
  "bcs_init cpu =
     (let cpu = bcs_recalculate
                  (upd_clock (\<lambda>c. c\<lparr>div_aclk := 1, div_smclk := 1, div_mclk := 1, dcoctl := 0x60, bcsctl1 := 0x84, bcsctl2 := 0\<rparr>) cpu)
      in msp430_register_io (clk_base_addr (soc_clock cpu)) 3 (Some clock_regs) (Some clock_regs) cpu)"

subsection \<open>FR5xxx clock system\<close>

definition dco_freq_low :: "u32 list" where
  "dco_freq_low = [1000000, 2670000, 3500000, 4000000, 5330000, 7000000, 8000000, 8000000]"

definition dco_freq_high :: "u32 list" where
  "dco_freq_high = [1000000, 5330000, 7000000, 8000000, 16000000, 21000000, 24000000, 24000000]"

definition cs_get_source_freq :: "msp430_clock \<Rightarrow> nat \<Rightarrow> u32" where
  "cs_get_source_freq clk sel =
     (if sel = 0 then (if csctl clk 4 AND 0x0001 \<noteq> 0 then 10000 else 32768)
      else if sel = 1 then 10000
      else if sel = 2 then 39062
      else if sel = 3 then dco_freq clk
      else if sel = 4 then 5000000
      else dco_freq clk)"

definition field3 :: "u16 \<Rightarrow> nat \<Rightarrow> nat" where
  "field3 v n = unat (drop_bit n v AND 0x7)"

definition cs_rates :: "msp430_clock \<Rightarrow> msp430_clock" where
  "cs_rates clk =
     (let s1 = csctl clk 1; s2 = csctl clk 2; s3 = csctl clk 3;
          clk = clk\<lparr>dco_freq := (if drop_bit 6 s1 AND 1 \<noteq> 0 then dco_freq_high else dco_freq_low) ! field3 s1 1\<rparr>;
          dm = push_bit (field3 s3 0) 1; clk = clk\<lparr>div_mclk := dm, mclk_freq := cs_get_source_freq clk (field3 s2 0) div dm\<rparr>;
          ds = push_bit (field3 s3 4) 1; clk = clk\<lparr>div_smclk := ds, smclk_freq := cs_get_source_freq clk (field3 s2 4) div ds\<rparr>;
          da = push_bit (field3 s3 8) 1
      in clk\<lparr>div_aclk := da, aclk_freq := cs_get_source_freq clk (field3 s2 8) div da\<rparr>)"

definition cs_recalculate :: "'a msp430_soc_scheme \<Rightarrow> 'a msp430_soc_scheme" where
  "cs_recalculate cpu = (let cpu = upd_clock cs_rates cpu in cpu_set_frequency (mclk_freq (soc_clock cpu)) cpu)"

definition cs_read :: "u32 \<Rightarrow> bool \<Rightarrow> 'a msp430_soc_scheme \<Rightarrow> u32 \<times> 'a msp430_soc_scheme" where
  "cs_read a word cpu =
     (let clk = soc_clock cpu; r = unat ((a - clk_base_addr clk) div 2) in
      (if r < 7 then
         (if r = 0 then (if cs_unlocked clk then 0xA500 else 0x9600) OR ucast (csctl clk 0 AND 0xFF) else ucast (csctl clk r))
       else 0, cpu))"

definition cs_unlock :: "bool \<Rightarrow> bool \<Rightarrow> u32 \<Rightarrow> msp430_clock \<Rightarrow> msp430_clock" where
  "cs_unlock word upper v clk =
     (if word then clk\<lparr>cs_unlocked := (v AND 0xFF00 = 0xA500), csctl := (csctl clk)(0 := ucast v)\<rparr>
      else if upper then clk\<lparr>cs_unlocked := (v AND 0xFF = 0xA5), csctl := (csctl clk)(0 := store_half False True v (csctl clk 0))\<rparr>
      else clk\<lparr>csctl := (csctl clk)(0 := store_half False False v (csctl clk 0))\<rparr>)"

definition cs_write :: "u32 \<Rightarrow> u32 \<Rightarrow> bool \<Rightarrow> 'a msp430_soc_scheme \<Rightarrow> 'a msp430_soc_scheme" where
  "cs_write a v word cpu =
     (let clk = soc_clock cpu; off = a - clk_base_addr clk; r = unat (off div 2); upper = (off AND 1 \<noteq> 0) in
      if r = 0 then upd_clock (cs_unlock word upper v) cpu
      else if \<not> cs_unlocked clk then cpu
      else if r < 7 then
        let cpu = upd_clock (\<lambda>c. c\<lparr>csctl := (csctl c)(r := store_half word upper v (csctl c r))\<rparr>) cpu
        in if r \<le> 3 then notify_timers (cs_recalculate cpu) else cpu
      else cpu)"

definition cs_init :: "'a msp430_soc_scheme \<Rightarrow> 'a msp430_soc_scheme" where
  "cs_init cpu =
     (let cpu = cs_recalculate
                  (upd_clock (\<lambda>c. c\<lparr>csctl := (csctl c)(0 := 0x9600, 1 := 0x000C, 2 := 0x0033, 3 := 0x0033, 4 := 0xCDC9, 5 := 0x00C5, 6 := 0)\<rparr>) cpu)
      in msp430_register_io (clk_base_addr (soc_clock cpu)) 16 (Some clock_regs) (Some clock_regs) cpu)"

subsection \<open>Interface\<close>

definition msp430_clock_init :: "u32 \<Rightarrow> u32 \<Rightarrow> nat \<Rightarrow> 'a msp430_soc_scheme \<Rightarrow> 'a msp430_soc_scheme" where
  "msp430_clock_init base max_dco ty cpu =
     (let cpu = upd_clock (\<lambda>_. \<lparr>clk_base_addr = base, clock_type = ty, max_dco_freq = max_dco, dco_freq = 0, mclk_freq = 0, smclk_freq = 0,
                  aclk_freq = 0, div_aclk = 0, div_smclk = 0, div_mclk = 0, dcoctl = 0, bcsctl1 = 0, bcsctl2 = 0, csctl = (\<lambda>_. 0),
                  cs_unlocked = False, clk_timers = []\<rparr>) cpu
      in if ty = MSP430_CLOCK_CS then cs_init cpu else bcs_init cpu)"

definition msp430_clock_add_timer :: "nat \<Rightarrow> 'a msp430_soc_scheme \<Rightarrow> 'a msp430_soc_scheme" where
  "msp430_clock_add_timer k cpu =
     (if length (clk_timers (soc_clock cpu)) < 4 then upd_clock (\<lambda>c. c\<lparr>clk_timers := clk_timers c @ [k]\<rparr>) cpu else cpu)"

text \<open>The handlers that \<open>msp430_clock_init\<close> registers, by the type of the module.\<close>

definition clock_read :: "u32 \<Rightarrow> bool \<Rightarrow> 'a msp430_soc_scheme \<Rightarrow> u32 \<times> 'a msp430_soc_scheme" where
  "clock_read a word cpu = (if clock_type (soc_clock cpu) = MSP430_CLOCK_CS then cs_read a word cpu else bcs_read a word cpu)"

definition clock_write :: "u32 \<Rightarrow> u32 \<Rightarrow> bool \<Rightarrow> 'a msp430_soc_scheme \<Rightarrow> 'a msp430_soc_scheme" where
  "clock_write a v word cpu = (if clock_type (soc_clock cpu) = MSP430_CLOCK_CS then cs_write a v word cpu else bcs_write a v word cpu)"

end
