(* ===== verification/Msp430_Timer_Correct.thy ===== *)
theory Msp430_Timer_Correct
  imports Msp430_Timer Cpu_Events_Correct
begin

text \<open>
  Timer A and B: a compare event is scheduled for the first cycle at which the counter matches or the one after it, resetting the base of
  the counter does not move it, the vector register hands out the pending sources in the order of their priority, and
  in up mode the matches after the first are missed.
\<close>

subsection \<open>Ticks\<close>

definition running :: "msp430_timer \<Rightarrow> int \<Rightarrow> bool" where
  "running t cyc \<longleftrightarrow> tm_mode t \<noteq> TIMER_MC_STOP \<and> 1 \<le> cycles_per_tick t \<and> counter_start t \<le> cyc \<and> 0 \<le> counter_acc t"

lemma ticks_at_floor:
  assumes "0 < cycles_per_tick t" "counter_start t \<le> cyc"
  shows "ticks_at t cyc = \<lfloor>real_of_int (cyc - counter_start t) / cycles_per_tick t\<rfloor>"
  using assms by (simp add: ticks_at_def elapsed_def ctrunc_def)

lemma ticks_at_iff:
  assumes "0 < cycles_per_tick t" "counter_start t \<le> cyc"
  shows "ticks_at t cyc = q \<longleftrightarrow>
    real_of_int q * cycles_per_tick t \<le> cyc - counter_start t \<and> cyc - counter_start t < (real_of_int q + 1) * cycles_per_tick t"
  using assms by (simp add: ticks_at_floor floor_eq_iff pos_le_divide_eq pos_divide_less_eq)

lemma ticks_at_nonneg: "0 < cycles_per_tick t \<Longrightarrow> counter_start t \<le> cyc \<Longrightarrow> 0 \<le> ticks_at t cyc"
  by (simp add: ticks_at_floor)

lemma ticks_at_mono: "0 < cycles_per_tick t \<Longrightarrow> counter_start t \<le> a \<Longrightarrow> a \<le> b \<Longrightarrow> ticks_at t a \<le> ticks_at t b"
  by (simp add: ticks_at_floor floor_mono divide_right_mono)

lemma passed_at_floor:
  assumes "0 < cycles_per_tick t" "counter_start t \<le> cyc"
  shows "passed_at t cyc = \<lfloor>real_of_int (cyc - counter_start t) - real_of_int (ticks_at t cyc) * cycles_per_tick t\<rfloor>"
proof -
  have "cycles_per_tick t * (elapsed t cyc - real_of_int (ticks_at t cyc)) =
      real_of_int (cyc - counter_start t) - real_of_int (ticks_at t cyc) * cycles_per_tick t"
    using assms by (simp add: elapsed_def field_simps)
  moreover have "0 \<le> real_of_int (cyc - counter_start t) - real_of_int (ticks_at t cyc) * cycles_per_tick t"
    using ticks_at_iff [OF assms, of "ticks_at t cyc"] by simp
  ultimately show ?thesis by (simp add: passed_at_def ctrunc_def)
qed

text \<open>The cycle for \<open>n\<close> further ticks lies less than two cycles after the tick.\<close>

lemma fire_after_bounds:
  assumes "1 \<le> cycles_per_tick t" "counter_start t \<le> cyc" "counter_passed t = passed_at t cyc" "0 \<le> n"
  shows "(ticks_at t cyc + n) * cycles_per_tick t < fire_after cyc t n - counter_start t"
    "fire_after cyc t n - counter_start t < (ticks_at t cyc + n) * cycles_per_tick t + 2"
proof -
  define x q c where "x = cyc - counter_start t" and "q = ticks_at t cyc" and "c = cycles_per_tick t"
  have "0 < cycles_per_tick t" using assms(1) by simp
  hence p: "passed_at t cyc = \<lfloor>real_of_int x - real_of_int q * c\<rfloor>" using passed_at_floor [OF _ assms(2)] by (simp add: x_def q_def c_def)
  have nn: "0 \<le> real_of_int n * c" using assms(1, 4) by (simp add: c_def)
  hence "ctrunc (real_of_int n * c + 1) = \<lfloor>real_of_int n * c\<rfloor> + 1" by (simp add: ctrunc_def)
  hence f: "fire_after cyc t n - counter_start t = x - \<lfloor>real_of_int x - real_of_int q * c\<rfloor> + \<lfloor>real_of_int n * c\<rfloor> + 1"
    by (simp add: fire_after_def assms(3) p x_def c_def)
  have "real_of_int \<lfloor>real_of_int x - real_of_int q * c\<rfloor> \<le> real_of_int x - real_of_int q * c"
    "real_of_int x - real_of_int q * c < real_of_int \<lfloor>real_of_int x - real_of_int q * c\<rfloor> + 1"
    "real_of_int \<lfloor>real_of_int n * c\<rfloor> \<le> real_of_int n * c" "real_of_int n * c < real_of_int \<lfloor>real_of_int n * c\<rfloor> + 1" by linarith+
  thus "(ticks_at t cyc + n) * cycles_per_tick t < fire_after cyc t n - counter_start t"
    "fire_after cyc t n - counter_start t < (ticks_at t cyc + n) * cycles_per_tick t + 2"
    unfolding f q_def [symmetric] c_def [symmetric] by (simp_all only: of_int_add of_int_diff of_int_1 distrib_right)
qed

lemma fire_after_ticks:
  assumes "2 \<le> cycles_per_tick t" "counter_start t \<le> cyc" "counter_passed t = passed_at t cyc" "0 < n"
  shows "ticks_at t (fire_after cyc t n) = ticks_at t cyc + n" "cyc < fire_after cyc t n"
    "\<lbrakk>cyc \<le> c; c \<le> fire_after cyc t n - 2\<rbrakk> \<Longrightarrow> ticks_at t c < ticks_at t cyc + n"
proof -
  have one: "1 \<le> cycles_per_tick t" "0 \<le> n" using assms by simp_all
  note b = fire_after_bounds [OF one(1) assms(2, 3) one(2)]
  have pos: "0 < cycles_per_tick t" using assms(1) by simp
  have q: "0 \<le> ticks_at t cyc" using ticks_at_nonneg [OF pos assms(2)] .
  have s: "counter_start t \<le> fire_after cyc t n"
  proof -
    have "0 \<le> real_of_int (ticks_at t cyc + n) * cycles_per_tick t" using q one by simp
    thus ?thesis using b(1) by linarith
  qed
  show t: "ticks_at t (fire_after cyc t n) = ticks_at t cyc + n"
    unfolding ticks_at_iff [OF pos s] using b assms(1) by (simp add: distrib_right)
  show "cyc < fire_after cyc t n"
    using ticks_at_mono [OF pos s, of cyc] t assms(4) by linarith
  assume c: "cyc \<le> c" "c \<le> fire_after cyc t n - 2"
  hence "real_of_int (c - counter_start t) < (ticks_at t cyc + n) * cycles_per_tick t" using b(2) by linarith
  hence "real_of_int (c - counter_start t) / cycles_per_tick t < real_of_int (ticks_at t cyc + n)" using pos by (simp add: pos_divide_less_eq)
  moreover have "counter_start t \<le> c" using assms(2) c(1) by simp
  ultimately show "ticks_at t c < ticks_at t cyc + n" unfolding ticks_at_floor [OF pos \<open>counter_start t \<le> c\<close>] by (simp add: floor_less_iff)
qed

subsection \<open>Matches\<close>

text \<open>The position of the counter, and when a compare register can match at all.\<close>

definition position :: "msp430_timer \<Rightarrow> int \<Rightarrow> int" where
  "position t cyc = ticks_at t cyc + counter_acc t"

definition can_match :: "nat \<Rightarrow> msp430_timer \<Rightarrow> bool" where
  "can_match i t \<longleftrightarrow>
     tm_mode t = TIMER_MC_CONT \<or> (tm_mode t = TIMER_MC_UP \<or> tm_mode t = TIMER_MC_UPDOWN) \<and> 0 < tm_ccr t 0 \<and> tm_ccr t i \<le> tm_ccr t 0"

definition first_match :: "nat \<Rightarrow> msp430_timer \<Rightarrow> int \<Rightarrow> int \<Rightarrow> bool" where
  "first_match i t p n \<longleftrightarrow>
     0 < n \<and> counter_value t (p + n) = tm_ccr t i \<and> (\<forall>m. 0 < m \<and> m < n \<longrightarrow> counter_value t (p + m) \<noteq> tm_ccr t i)"

lemma mod_eq_small:
  assumes "(p + m) mod k = (p + n) mod k" "0 < m" "m \<le> n" "n \<le> (k :: int)"
  shows "m = n"
proof -
  have "k dvd (n - m)" using assms(1) mod_eq_dvd_iff by (metis add_diff_cancel_left)
  thus ?thesis using assms(2-4) zdvd_imp_le [of k "n - m"] by linarith
qed

lemma uint_of_int16: "uint (word_of_int x :: u16) = x mod 65536"
  by (simp add: uint_word_of_int)

lemma word_of_int16_eq: "(word_of_int x :: u16) = w \<longleftrightarrow> x mod 65536 = uint w"
  by (simp add: word_uint_eq_iff uint_of_int16)

lemma uint16_lt: "uint (w :: u16) < 65536"
  using uint_lt2p [of w] by simp

lemma cont_first_match:
  assumes "tm_mode t = TIMER_MC_CONT" "tm_counter t = counter_value t p" "ticks_to_match cyc i t = Some n"
  shows "first_match i t p n"
proof -
  define c v where "c = uint (tm_counter t)" and "v = uint (tm_ccr t i)"
  have cv: "c = p mod 65536" using assms(1, 2) by (simp add: c_def counter_value_def uint_of_int16)
  have b: "0 \<le> c" "c < 65536" "0 \<le> v" "v < 65536" using uint16_lt by (simp_all add: c_def v_def)
  have n: "n = (if v > c then v - c else 65536 - c + v)" using assms(1, 3) by (auto simp: ticks_to_match_def c_def v_def Let_def)
  have nb: "0 < n" "n \<le> 65536" using n b by (auto split: if_splits)
  have cong: "(p + m) mod 65536 = (c + m) mod 65536" for m using cv by (simp add: mod_simps)
  have hit: "(p + n) mod 65536 = v"
  proof (cases "v > c")
    case True thus ?thesis unfolding cong using n b by simp
  next
    case False
    have "(v + 65536) mod 65536 = v" using b by simp
    thus ?thesis unfolding cong using n False by (simp add: algebra_simps)
  qed
  have val: "counter_value t x = tm_ccr t i \<longleftrightarrow> x mod 65536 = v" for x
    using assms(1) by (simp add: counter_value_def word_of_int16_eq v_def)
  show ?thesis unfolding first_match_def val
    using nb hit mod_eq_small [of p _ 65536 n] by (metis less_imp_le less_irrefl)
qed

lemma up_first_match:
  assumes "tm_mode t = TIMER_MC_UP" "can_match i t" "0 \<le> p" "tm_counter t = counter_value t p" "ticks_to_match cyc i t = Some n"
  shows "first_match i t p n"
proof -
  define c v k where "c = uint (tm_counter t)" and "v = uint (tm_ccr t i)" and "k = uint (tm_ccr t 0) + 1"
  have top: "0 < tm_ccr t 0" "v < k" "1 < k" using assms(1, 2) by (auto simp: can_match_def v_def k_def word_less_def word_le_def)
  have kb: "k \<le> 65536" using uint16_lt [of "tm_ccr t 0"] by (simp add: k_def)
  have small: "x mod k mod 65536 = x mod k" for x using kb top(3) by (simp add: mod_pos_pos_trivial order.strict_trans2 [OF pos_mod_bound])
  have val: "counter_value t x = tm_ccr t i \<longleftrightarrow> x mod k = v" if "0 \<le> x" for x
    using assms(1) top(1, 3) that by (simp add: counter_value_def word_of_int16_eq v_def k_def [symmetric] small)
  have cv: "c = p mod k" using assms(1, 3, 4) top(1, 3) by (simp add: c_def counter_value_def uint_of_int16 k_def [symmetric] small)
  have b: "0 \<le> c" "c < k" "0 \<le> v" using top(3) by (simp_all add: cv v_def)
  have n: "n = (if i = 0 then if v > c then v - c else v + 1 else if v > c \<and> v \<le> k - 1 then v - c else k - c + v)"
    using assms(1, 5) by (auto simp: ticks_to_match_def c_def v_def k_def Let_def)
  have i0: "i = 0 \<Longrightarrow> v = k - 1" by (simp add: v_def k_def)
  have "n = (if v > c then v - c else k - c + v)" using n i0 top(2) b by auto
  note n = this
  have nb: "0 < n" "n \<le> k" using n b top(2) by (auto split: if_splits)
  have cong: "(p + m) mod k = (c + m) mod k" for m using cv by (simp add: mod_simps)
  have hit: "(p + n) mod k = v"
  proof (cases "v > c")
    case True thus ?thesis unfolding cong using n b top(2) by simp
  next
    case False
    have "(v + k) mod k = v" using b top(2) by simp
    thus ?thesis unfolding cong using n False by (simp add: algebra_simps)
  qed
  have "counter_value t (p + m) \<noteq> tm_ccr t i" if "0 < m" "m < n" for m
    using val [of "p + m"] that assms(3) hit mod_eq_small [of p m k n] nb by auto
  thus ?thesis unfolding first_match_def using nb hit val [of "p + n"] assms(3) by auto
qed

text \<open>The steps to the next hit of a residue, as the up/down branch computes them.\<close>

definition steps_to :: "int \<Rightarrow> int \<Rightarrow> int \<Rightarrow> int" where
  "steps_to k w p = (let d = (w - p) mod k in if d = 0 then k else d)"

lemma steps_to_next:
  assumes "0 < k" "0 \<le> w" "w < k"
  shows "0 < steps_to k w p" "steps_to k w p \<le> k" "(p + steps_to k w p) mod k = w"
    "\<lbrakk>0 < m; m < steps_to k w p\<rbrakk> \<Longrightarrow> (p + m) mod k \<noteq> w"
proof -
  define d where "d = (w - p) mod k"
  have d: "0 \<le> d" "d < k" using assms(1) by (simp_all add: d_def)
  show b: "0 < steps_to k w p" "steps_to k w p \<le> k" using d assms(1) by (auto simp: steps_to_def d_def [symmetric] Let_def)
  have "(p + (w - p) mod k) mod k = w" using assms by (simp add: mod_add_right_eq)
  moreover have "(p + (w - p) mod k) mod k = (p + steps_to k w p) mod k" by (auto simp: steps_to_def Let_def)
  ultimately show h: "(p + steps_to k w p) mod k = w" by simp
  show "(p + m) mod k \<noteq> w" if "0 < m" "m < steps_to k w p" using mod_eq_small [of p m k "steps_to k w p"] that b(2) h by auto
qed

lemma updown_first_match:
  assumes "tm_mode t = TIMER_MC_UPDOWN" "can_match i t" "0 \<le> p" "p = position t cyc" "0 < cycles_per_tick t" "ticks_to_match cyc i t = Some n"
  shows "first_match i t p n"
proof -
  define v top k where "v = uint (tm_ccr t i)" and "top = uint (tm_ccr t 0)" and "k = top * 2"
  have b: "0 < top" "0 \<le> v" "v \<le> top" "top < 65536" "0 < k" "tm_ccr t 0 > 0"
    using assms(1, 2) uint16_lt [of "tm_ccr t 0"] by (auto simp: can_match_def v_def top_def k_def word_less_def word_le_def)
  have val: "counter_value t x = tm_ccr t i \<longleftrightarrow> x mod k = v \<or> x mod k = (k - v) mod k" if "0 \<le> x" for x
  proof -
    define y where "y = x mod k"
    have y: "0 \<le> y" "y < k" using b(5) by (simp_all add: y_def)
    have "counter_value t x = word_of_int (if y > top then k - y else y)"
      using assms(1) b(5, 6) that by (simp add: counter_value_def top_def [symmetric] k_def [symmetric] y_def Let_def)
    moreover have "(if y > top then k - y else y) mod 65536 = (if y > top then k - y else y)" using y b(4) by (auto simp: k_def)
    ultimately have "counter_value t x = tm_ccr t i \<longleftrightarrow> (if y > top then k - y else y) = v" by (simp add: word_of_int16_eq v_def)
    moreover have "(k - v) mod k = (if v = 0 then 0 else k - v)" using b mod_pos_pos_trivial [of "k - v" k] by (auto simp: k_def)
    moreover have "((if y > top then k - y else y) = v) = (y = v \<or> y = (if v = 0 then 0 else k - v))"
      using y b(1-3) k_def by (cases "y > top"; cases "v = 0") (simp; linarith)+
    ultimately show ?thesis unfolding y_def [symmetric] by simp
  qed
  have pos: "updown_pos t cyc = p mod k"
    using b(5) assms(3-5) by (simp add: updown_pos_def position_def top_def [symmetric] k_def [symmetric] Let_def)
  have pb: "0 \<le> p mod k" "p mod k < k" using b(5) by simp_all
  have m: "(k - v - p) mod k = (- v - p) mod k"
    by (subst mod_add_self1 [of k "- v - p", symmetric]) (simp only: add_diff_eq diff_conv_add_uminus add.assoc)
  have "0 \<le> v - p mod k + k" "0 \<le> k - v - p mod k + k" using pb b(1-3) k_def by linarith+
  hence "crem (v - p mod k + k) k = (v - p) mod k" "crem (k - v - p mod k + k) k = (k - v - p) mod k"
    by (simp_all only: crem_nonneg [OF _ b(5)] m) (simp_all add: mod_simps)
  moreover have "(k - v - p) mod k = ((k - v) mod k - p) mod k" by (simp add: mod_simps m)
  ultimately have "ticks_to_match cyc i t =
      Some (if steps_to k v p < steps_to k ((k - v) mod k) p then steps_to k v p else steps_to k ((k - v) mod k) p)"
    using assms(1) b by (simp add: ticks_to_match_def v_def [symmetric] top_def [symmetric] k_def [symmetric] pos Let_def steps_to_def)
  hence n: "n = min (steps_to k v p) (steps_to k ((k - v) mod k) p)" using assms(6) by (auto simp: min_def)
  have w: "0 \<le> (k - v) mod k" "(k - v) mod k < k" "v < k" using b by (simp_all add: k_def)
  note u = steps_to_next [OF b(5, 2) w(3), where p = p] and d = steps_to_next [OF b(5) w(1, 2), where p = p]
  have "(p + n) mod k = v \<or> (p + n) mod k = (k - v) mod k" using n u(3) d(3) by (auto simp: min_def)
  moreover have "(p + m) mod k \<noteq> v \<and> (p + m) mod k \<noteq> (k - v) mod k" if "0 < m" "m < n" for m using n u(4) d(4) that by auto
  ultimately show ?thesis unfolding first_match_def using n u(1) d(1) val assms(3) by auto
qed

lemma ticks_to_match_first:
  assumes "running t cyc" "can_match i t" "tm_counter t = counter_value t (position t cyc)"
  shows "\<exists>n. ticks_to_match cyc i t = Some n \<and> first_match i t (position t cyc) n"
proof -
  have p: "0 \<le> position t cyc" "0 < cycles_per_tick t" using assms(1) ticks_at_nonneg [of t cyc] by (auto simp: running_def position_def)
  have "\<exists>n. ticks_to_match cyc i t = Some n" using assms(2) by (auto simp: can_match_def ticks_to_match_def Let_def word_less_def word_le_def)
  then obtain n where n: "ticks_to_match cyc i t = Some n" by blast
  have "tm_mode t = TIMER_MC_CONT \<or> tm_mode t = TIMER_MC_UP \<or> tm_mode t = TIMER_MC_UPDOWN" using assms(2) by (auto simp: can_match_def)
  thus ?thesis using n cont_first_match [OF _ assms(3) n] up_first_match [OF _ assms(2) p(1) assms(3) n]
      updown_first_match [OF _ assms(2) p(1) refl p(2) n] by blast
qed

subsection \<open>Compare events\<close>

lemma upd_timer_other [simp]:
  "timers (upd_timer k f cpu) k = f (timers cpu k)" "cpu_cycles (upd_timer k f cpu) = cpu_cycles cpu" "ev_queue (upd_timer k f cpu) = ev_queue cpu"
  "soc_clock (upd_timer k f cpu) = soc_clock cpu" "cpu_freq_hz (upd_timer k f cpu) = cpu_freq_hz cpu"
  by (simp_all add: upd_timer_def)

lemma schedule_event_soc [simp]:
  "timers (schedule_event ev c cpu) = timers cpu" "cpu_cycles (schedule_event ev c cpu) = cpu_cycles cpu"
  "\<lparr>ev_obj = ev, fire_cycle = c, fire_ns = 0\<rparr> \<in> set (ev_queue (schedule_event ev c cpu))"
  by (simp_all add: schedule_event_def cancel_event_def set_ev_queue_def link_event_after Let_def)

lemma put_ccr_event_soc [simp]:
  "tm_ccr_fire (timers (put_ccr_event k i c cpu) k) i = c" "cpu_cycles (put_ccr_event k i c cpu) = cpu_cycles cpu"
  "\<lparr>ev_obj = ccr_event k i, fire_cycle = c, fire_ns = 0\<rparr> \<in> set (ev_queue (put_ccr_event k i c cpu))"
  by (simp_all add: put_ccr_event_def)

lemma sync_timer_fields [simp]:
  "tm_mode (sync_timer c t) = tm_mode t" "tm_ccr (sync_timer c t) = tm_ccr t" "tm_cctl (sync_timer c t) = tm_cctl t"
  "cycles_per_tick (sync_timer c t) = cycles_per_tick t" "counter_start (sync_timer c t) = counter_start t" "counter_acc (sync_timer c t) = counter_acc t"
  "num_ccr (sync_timer c t) = num_ccr t" "tm_ccr_fire (sync_timer c t) = tm_ccr_fire t" "tm_ctl (sync_timer c t) = tm_ctl t"
  "last_tiv (sync_timer c t) = last_tiv t" "ccr0_vector (sync_timer c t) = ccr0_vector t" "ccr1_vector (sync_timer c t) = ccr1_vector t"
  by (simp_all add: sync_timer_def)

lemma sync_timer_ticks [simp]: "ticks_at (sync_timer c t) = ticks_at t" "position (sync_timer c t) = position t" "passed_at (sync_timer c t) = passed_at t"
  by (auto simp: fun_eq_iff position_def passed_at_def ticks_at_def elapsed_def)

lemma can_match_sync [simp]: "can_match i (sync_timer c t) = can_match i t"
  by (simp add: can_match_def)

lemma counter_value_cong:
  "can_match i t \<Longrightarrow> tm_mode u = tm_mode t \<Longrightarrow> tm_ccr u = tm_ccr t \<Longrightarrow> counter_value u x = counter_value t x"
  by (auto simp: can_match_def counter_value_def)

lemma sync_counter_value:
  assumes "running t c"
  shows "tm_counter (sync_timer c t) = counter_value t (position t c)" "counter_passed (sync_timer c t) = passed_at t c"
  using assms by (simp_all add: running_def sync_timer_def position_def)

lemma running_later: "running t c \<Longrightarrow> c \<le> d \<Longrightarrow> running t d"
  by (simp add: running_def)

lemma first_match_sync [simp]: "can_match i t \<Longrightarrow> first_match i (sync_timer c t) p n = first_match i t p n"
  using counter_value_cong [of i t "sync_timer c t"] by (simp add: first_match_def)

text \<open>The cycle for the first match: the counter matches there, and does not match anew up to two cycles before.\<close>

lemma first_match_cycle:
  assumes "running t cyc" "2 \<le> cycles_per_tick t" "first_match i t (position t cyc) n" "counter_passed t = passed_at t cyc" "f = fire_after cyc t n"
  shows "cyc < f" "tm_counter (sync_timer f t) = tm_ccr t i" "ticks_at t f = ticks_at t cyc + n"
    "\<lbrakk>cyc \<le> c; ticks_at t c < ticks_at t cyc + n; tm_counter (sync_timer c t) = tm_ccr t i\<rbrakk> \<Longrightarrow> ticks_at t c = ticks_at t cyc"
    "\<lbrakk>cyc \<le> c; c \<le> f - 2\<rbrakk> \<Longrightarrow> ticks_at t c < ticks_at t cyc + n"
proof -
  have r: "counter_start t \<le> cyc" "0 < n" "0 < cycles_per_tick t" using assms(1-3) by (auto simp: running_def first_match_def)
  note fa = fire_after_ticks [OF assms(2) r(1) assms(4) r(2), folded assms(5)]
  show "cyc < f" "ticks_at t f = ticks_at t cyc + n" by (rule fa)+
  hence "running t f" using assms(1) running_later by simp
  thus "tm_counter (sync_timer f t) = tm_ccr t i"
    using assms(3) by (simp add: sync_counter_value position_def fa(1) first_match_def ac_simps)
  show "ticks_at t c < ticks_at t cyc + n" if "cyc \<le> c" "c \<le> f - 2" using fa(3) that .
  assume c: "cyc \<le> c" "ticks_at t c < ticks_at t cyc + n" "tm_counter (sync_timer c t) = tm_ccr t i"
  have "ticks_at t cyc \<le> ticks_at t c" using ticks_at_mono [OF r(3, 1) c(1)] .
  moreover have "counter_value t (position t cyc + (ticks_at t c - ticks_at t cyc)) = tm_ccr t i"
    using c(3) sync_counter_value(1) [OF running_later [OF assms(1) c(1)]] by (simp add: position_def add.commute)
  ultimately show "ticks_at t c = ticks_at t cyc" using assms(3) c(2) unfolding first_match_def by force
qed




subsection \<open>Up mode\<close>

lemma up_ticks_bound:
  assumes "tm_mode t = TIMER_MC_UP" "tm_ccr t i \<le> tm_ccr t 0" "ticks_to_match cyc i t = Some n"
  shows "n \<le> uint (tm_ccr t 0) + 1"
proof -
  define c where "c = uint (tm_counter t)"
  have "0 \<le> c" by (simp add: c_def)
  thus ?thesis using assms by (auto simp: ticks_to_match_def word_le_def c_def [symmetric] Let_def split: if_splits)
qed

lemma trigger_keeps_timer [simp]:
  "tm_ccr_fire (timers (trigger_ccr_interrupt k i cpu) k) = tm_ccr_fire (timers cpu k)"
  by (simp add: trigger_ccr_interrupt_def flag_vector_def msp430_flag_interrupt_def reevaluate_interrupts_def Let_def)

text \<open>
  C35. In up mode the event of a compare register comes once: when it has fired, it is scheduled again for 65536 ticks later,
  although the counter, which wraps after CCR0, is back at the value before that.
\<close>

theorem up_mode_skips_matches:
  assumes "t = timers cpu k" "running t (cpu_cycles cpu)" "2 \<le> cycles_per_tick t" "tm_mode t = TIMER_MC_UP" "0 < tm_ccr t 0" "tm_ccr t 0 < 0xFFFE"
    "tm_ccr t i \<le> tm_ccr t 0" "tm_cctl t i AND TIMER_CAP = 0" "i < num_ccr t" "tm_ccr_fire t i = cpu_cycles cpu" "d = ccr_event_callback k i cpu"
  shows "\<exists>c. cpu_cycles cpu < c \<and> c < tm_ccr_fire (timers d k) i \<and> ticks_at t (cpu_cycles cpu) < ticks_at t c \<and>
    tm_counter (sync_timer c t) = tm_ccr t i"
proof -
  define cyc u where "cyc = cpu_cycles cpu" and "u = sync_timer cyc t"
  have cm: "can_match i t" "can_match i u" using assms(4, 5, 7) by (simp_all add: can_match_def u_def)
  have r: "running t cyc" "running u cyc" using assms(2) by (simp_all add: cyc_def u_def running_def)
  have v: "counter_value u = counter_value t" using counter_value_cong [OF cm(1), of u] by (simp add: u_def fun_eq_iff)
  have p: "counter_passed u = passed_at u cyc" using sync_counter_value(2) [OF r(1)] by (simp add: u_def)
  obtain n where n: "ticks_to_match cyc i u = Some n" "first_match i u (position u cyc) n"
    using ticks_to_match_first [OF r(2) cm(2)] sync_counter_value(1) [OF r(1)] v by (auto simp: u_def)
  define c where "c = fire_after cyc u n"
  have two: "2 \<le> cycles_per_tick u" "counter_start u \<le> cyc" "0 < n" using assms(3) r n(2) by (simp_all add: u_def running_def first_match_def)
  note fm = first_match_cycle [OF r(2) two(1) n(2) p c_def]
  have "n \<le> 65534" using up_ticks_bound [OF _ _ n(1)] assms(4, 6, 7) by (simp add: u_def word_less_def)
  hence "(ticks_at t cyc + n) * cycles_per_tick t + 2 \<le> ticks_at t cyc * cycles_per_tick t + 65534 * cycles_per_tick t + 2"
    using assms(3) by (simp add: distrib_right)
  moreover have "c - counter_start t < (ticks_at t cyc + n) * cycles_per_tick t + 2"
    using fire_after_bounds(2) [OF _ two(2) p, of n] two by (simp add: c_def u_def)
  moreover have "ticks_at t cyc * cycles_per_tick t \<le> cyc - counter_start t"
    using ticks_at_iff [of t cyc "ticks_at t cyc"] assms(3) r(1) by (simp add: running_def)
  ultimately have "real_of_int c + 1 < cyc + 65536 * cycles_per_tick t" using assms(3) by simp
  hence "c < cyc + ctrunc (65536 * cycles_per_tick t)" using assms(3) unfolding ctrunc_def by (simp add: less_floor_iff) linarith
  moreover have "tm_ccr_fire (timers d k) i = cyc + ctrunc (65536 * cycles_per_tick t)"
    using assms(8-11) by (simp add: ccr_event_callback_def sync_counter_def assms(1) set_cctl_def cyc_def Let_def)
  moreover have "ticks_at t cyc < ticks_at t c" using fire_after_ticks(1) [OF two(1, 2) p two(3)] two(3) by (simp add: c_def u_def)
  moreover have "tm_counter (sync_timer c t) = tm_ccr t i"
    using fm(1, 2) sync_counter_value(1) [of t c] sync_counter_value(1) [of u c] running_later [OF r(1), of c] running_later [OF r(2), of c] v by (simp add: u_def)
  ultimately show ?thesis using fm(1) unfolding cyc_def by auto
qed

subsection \<open>Resetting the base\<close>

lemma integral_ticks:
  assumes "cycles_per_tick t = real_of_int m" "0 < m" "counter_start t \<le> c"
  shows "ticks_at t c = (c - counter_start t) div m" "passed_at t c = (c - counter_start t) mod m"
proof -
  show "ticks_at t c = (c - counter_start t) div m" using assms by (simp add: ticks_at_floor floor_divide_of_int_eq flip: of_int_diff)
  hence "passed_at t c = (c - counter_start t) - (c - counter_start t) div m * m"
    using passed_at_floor [of t c] assms by (simp flip: of_int_diff of_int_mult)
  thus "passed_at t c = (c - counter_start t) mod m" by (simp add: minus_div_mult_eq_mod)
qed

text \<open>
  Moving the base of the counter to the present, as a clock change or a write of the counter does, does not move the
  counter: with a whole number of cycles to a tick it has the same value at every later cycle in continuous and up mode.
\<close>

theorem counter_rebase_exact:
  assumes "running t cyc" "cycles_per_tick t = real_of_int m" "tm_mode t = TIMER_MC_CONT \<or> tm_mode t = TIMER_MC_UP \<and> 0 < tm_ccr t 0" "cyc \<le> c"
  shows "tm_counter (sync_timer c (reset_timer cyc (sync_timer cyc t))) = tm_counter (sync_timer c t)"
proof -
  define u where "u = reset_timer cyc (sync_timer cyc t)"
  have m: "0 < m" "counter_start t \<le> cyc" "0 \<le> counter_acc t" using assms(1, 2) by (simp_all add: running_def)
  have p: "passed_at t cyc = (cyc - counter_start t) mod m" "ticks_at t cyc = (cyc - counter_start t) div m" "ticks_at t c = (c - counter_start t) div m"
    using integral_ticks [OF assms(2) m(1)] m(2) assms(4) by simp_all
  have u: "counter_start u = cyc - passed_at t cyc" "counter_acc u = uint (counter_value t (position t cyc))" "cycles_per_tick u = real_of_int m"
    "tm_mode u = tm_mode t" "tm_ccr u = tm_ccr t"
    using sync_counter_value(1) [OF assms(1)] assms(2) by (simp_all add: u_def reset_timer_def Let_def)
  have su: "counter_start u = counter_start t + ticks_at t cyc * m" using div_mult_mod_eq [of "cyc - counter_start t" m] u(1) unfolding p by linarith
  have "counter_start u \<le> c" using u(1) assms(4) m(1) p(1) by (simp add: order_trans [OF _ assms(4)])
  hence "ticks_at u c = (c - counter_start u) div m" using integral_ticks(1) [OF u(3) m(1)] by simp
  also have "\<dots> = (c - counter_start t + (- ticks_at t cyc) * m) div m" using su by (simp add: algebra_simps)
  also have "\<dots> = ticks_at t c - ticks_at t cyc" using m(1) p(3) by (subst div_mult_self1) simp_all
  finally have q: "ticks_at u c = ticks_at t c - ticks_at t cyc" .
  have pos: "0 \<le> position t cyc" "0 \<le> ticks_at t c - ticks_at t cyc"
    using ticks_at_nonneg [of t cyc] ticks_at_mono [of t cyc c] m assms by (simp_all add: position_def running_def)
  have "running u c" using assms(1) u(2-4) \<open>counter_start u \<le> c\<close> by (simp add: running_def assms(2))
  hence "tm_counter (sync_timer c u) = counter_value u (ticks_at t c - ticks_at t cyc + uint (counter_value t (position t cyc)))"
    by (simp add: sync_counter_value(1) position_def q u(2))
  also have "\<dots> = counter_value t (position t c)"
    using assms(3)
  proof
    assume "tm_mode t = TIMER_MC_CONT"
    thus ?thesis by (simp add: counter_value_def u(4) word_of_int16_eq uint_of_int16 position_def mod_simps)
  next
    assume up: "tm_mode t = TIMER_MC_UP \<and> 0 < tm_ccr t 0"
    define k where "k = uint (tm_ccr t 0) + 1"
    have k: "0 < k" "k \<le> 65536" using uint16_lt [of "tm_ccr t 0"] by (simp_all add: k_def add_nonneg_pos)
    have small: "x mod k mod 65536 = x mod k" for x using k by (simp add: mod_pos_pos_trivial order.strict_trans2 [OF pos_mod_bound])
    show ?thesis using up pos k by (simp add: counter_value_def u(4, 5) k_def [symmetric] uint_of_int16 small position_def) (simp add: mod_simps add_ac)
  qed
  finally show ?thesis using sync_counter_value(1) [OF running_later [OF assms(1, 4)]] by (simp add: u_def)
qed

subsection \<open>The vector register\<close>

text \<open>The pending sources of the shared vector, most urgent first: what the vector register hands out.\<close>

definition pending_tivs :: "msp430_timer \<Rightarrow> nat list" where
  "pending_tivs t =
     map (\<lambda>i. i * 2) (filter (ccr_pending t) [1..<num_ccr t]) @ (if tm_ctl t AND TIMER_TIE \<noteq> 0 \<and> tm_ctl t AND TIMER_TIFG \<noteq> 0 then [overflow_tiv t] else [])"

definition first_tiv :: "nat list \<Rightarrow> nat" where
  "first_tiv l = (case l of [] \<Rightarrow> 0 | v # _ \<Rightarrow> v)"

lemma find_filter: "find P xs = (case filter P xs of [] \<Rightarrow> None | x # _ \<Rightarrow> Some x)"
  by (induction xs) auto

lemma flag_interrupt_soc [simp]:
  "timers (msp430_flag_interrupt v src f on cpu) = timers cpu" "cpu_cycles (msp430_flag_interrupt v src f on cpu) = cpu_cycles cpu"
  "soc_clock (msp430_flag_interrupt v src f on cpu) = soc_clock cpu" "ev_queue (msp430_flag_interrupt v src f on cpu) = ev_queue cpu"
  by (simp_all add: msp430_flag_interrupt_def reevaluate_interrupts_def Let_def)

lemma flag_interrupt_pending [simp]: "irq_pending (msp430_flag_interrupt v src f on cpu) v = on"
  by (simp add: msp430_flag_interrupt_def reevaluate_interrupts_def irq_pending_def Let_def)

lemma reevaluate_tiv_result:
  "timers (reevaluate_tiv k cpu) k = (timers cpu k)\<lparr>last_tiv := first_tiv (pending_tivs (timers cpu k))\<rparr>"
  "irq_pending (reevaluate_tiv k cpu) (ccr1_vector (timers cpu k)) \<longleftrightarrow> pending_tivs (timers cpu k) \<noteq> []"
  by (auto simp: reevaluate_tiv_def find_filter pending_tivs_def first_tiv_def flag_vector_def Let_def split: list.split)

lemma pending_tivs_last [simp]: "pending_tivs (t\<lparr>last_tiv := v\<rparr>) = pending_tivs t"
  by (simp add: pending_tivs_def ccr_pending_def [abs_def] overflow_tiv_def)

lemma clear_low_bit: "(w AND - 2) AND (1 :: u16) = 0"
  by (simp add: and.assoc)

lemma pending_after_clear:
  assumes "filter (ccr_pending t) [1..<num_ccr t] = i # is"
  shows "pending_tivs (set_cctl i (tm_cctl t i AND NOT TIMER_CCIFG) t) = tl (pending_tivs t)"
proof -
  let ?u = "set_cctl i (tm_cctl t i AND NOT TIMER_CCIFG) t"
  have "ccr_pending ?u = (\<lambda>j. ccr_pending t j \<and> j \<noteq> i)" by (auto simp: fun_eq_iff ccr_pending_def set_cctl_def clear_low_bit)
  hence "filter (ccr_pending ?u) [1..<num_ccr t] = filter (\<lambda>j. j \<noteq> i) (i # is)" by (simp flip: assms add: conj_commute)
  moreover have "distinct (i # is)" using assms by (metis distinct_filter distinct_upt)
  ultimately have "filter (ccr_pending ?u) [1..<num_ccr t] = is" by (auto simp: filter_id_conv)
  thus ?thesis using assms by (simp add: pending_tivs_def set_cctl_def overflow_tiv_def)
qed

lemma overflow_tiv_above: "i < num_ccr t \<Longrightarrow> i * 2 < overflow_tiv t" "0 < overflow_tiv t"
  by (auto simp: overflow_tiv_def)

text \<open>
  A read of the register that names the most urgent pending source returns it and clears it; the register then names
  the next one, and the interrupt stays requested as long as there is one.
\<close>

lemma iv_read_pops:
  assumes "t = timers cpu k" "last_tiv t = first_tiv (pending_tivs t)" "(v, cpu') = timer_iv_read k a w cpu" "t' = timers cpu' k"
  shows "v = of_nat (first_tiv (pending_tivs t)) \<and> pending_tivs t' = tl (pending_tivs t) \<and> last_tiv t' = first_tiv (pending_tivs t') \<and>
    (pending_tivs t \<noteq> [] \<longrightarrow> (irq_pending cpu' (ccr1_vector t) \<longleftrightarrow> pending_tivs t' \<noteq> []))"
proof (cases "filter (ccr_pending t) [1..<num_ccr t]")
  case (Cons i js)
  have i: "1 \<le> i" "i < num_ccr t" using arg_cong [OF Cons, of set] by auto
  have f: "first_tiv (pending_tivs t) = i * 2" "pending_tivs t \<noteq> []" using Cons by (simp_all add: pending_tivs_def first_tiv_def)
  define c where "c = upd_timer k (set_cctl i (tm_cctl t i AND NOT TIMER_CCIFG)) cpu"
  have c: "pending_tivs (timers c k) = tl (pending_tivs t)" "ccr1_vector (timers c k) = ccr1_vector t"
    using pending_after_clear [OF Cons] by (simp_all add: c_def assms(1) set_cctl_def)
  have "cpu' = reevaluate_tiv k c" "v = of_nat (i * 2)"
    using assms(1-3) f i overflow_tiv_above(1) [OF i(2)] by (simp_all add: timer_iv_read_def c_def Let_def)
  thus ?thesis using reevaluate_tiv_result [of k c] c f assms(4) by simp
next
  case Nil
  show ?thesis
  proof (cases "tm_ctl t AND TIMER_TIE \<noteq> 0 \<and> tm_ctl t AND TIMER_TIFG \<noteq> 0")
    case True
    have f: "pending_tivs t = [overflow_tiv t]" using Nil True by (simp add: pending_tivs_def)
    define c where "c = upd_timer k (\<lambda>t. t\<lparr>tm_ctl := tm_ctl t AND NOT TIMER_TIFG\<rparr>) cpu"
    have "ccr_pending (timers c k) = ccr_pending t" by (simp add: c_def assms(1) fun_eq_iff ccr_pending_def)
    hence c: "pending_tivs (timers c k) = []" "ccr1_vector (timers c k) = ccr1_vector t"
      using Nil by (simp_all add: pending_tivs_def c_def assms(1) clear_low_bit)
    have "cpu' = reevaluate_tiv k c" "v = of_nat (overflow_tiv t)"
      using assms(1-3) f overflow_tiv_above(2) [of t] by (simp_all add: timer_iv_read_def c_def first_tiv_def Let_def)
    thus ?thesis using reevaluate_tiv_result [of k c] c f assms(4) by (simp add: first_tiv_def)
  next
    case False
    hence "pending_tivs t = []" using Nil by (auto simp: pending_tivs_def)
    thus ?thesis using assms by (simp add: timer_iv_read_def first_tiv_def Let_def)
  qed
qed

subsection \<open>The order of the vector values\<close>

text \<open>The vector register names the most urgent pending source; it is zero when there is none.\<close>

definition tiv_ok :: "msp430_timer \<Rightarrow> bool" where
  "tiv_ok t \<longleftrightarrow> last_tiv t = first_tiv (pending_tivs t)"

definition overflow_request :: "msp430_timer \<Rightarrow> bool" where
  "overflow_request t \<longleftrightarrow> tm_ctl t AND TIMER_TIE \<noteq> 0 \<and> tm_ctl t AND TIMER_TIFG \<noteq> 0"

text \<open>Which sources are pending, most urgent first: the vector values ascend.\<close>

definition tiv_set :: "msp430_timer \<Rightarrow> nat set" where
  "tiv_set t = {i * 2 | i. 1 \<le> i \<and> i < num_ccr t \<and> ccr_pending t i} \<union> (if overflow_request t then {overflow_tiv t} else {})"

lemma pending_tivs_set: "set (pending_tivs t) = tiv_set t" "sorted (pending_tivs t)"
proof -
  show "set (pending_tivs t) = tiv_set t" by (auto simp: pending_tivs_def tiv_set_def overflow_request_def)
  have "sorted (map (\<lambda>i. i * 2) (filter (ccr_pending t) [1..<num_ccr t]))"
    by (simp add: sorted_map sorted_wrt_filter sorted_wrt_mono_rel [OF _ sorted_upt])
  thus "sorted (pending_tivs t)" using overflow_tiv_above(1) [of _ t] by (fastforce simp: pending_tivs_def sorted_append intro: less_imp_le)
qed

lemma first_tiv_least: "sorted l \<Longrightarrow> first_tiv l = (if set l = {} then 0 else Min (set l))"
  by (cases l) (auto simp: first_tiv_def Min_insert2)

lemma tiv_set_bounds: "finite (tiv_set t)" "x \<in> tiv_set t \<Longrightarrow> 0 < x \<and> x \<le> overflow_tiv t"
  using overflow_tiv_above(1) [of _ t] overflow_tiv_above(2) [of t] by (auto simp: tiv_set_def less_imp_le split: if_splits)

lemma tiv_ok_least: "tiv_ok t \<longleftrightarrow> last_tiv t = (if tiv_set t = {} then 0 else Min (tiv_set t))"
  using first_tiv_least [OF pending_tivs_set(2), of t] by (simp add: tiv_ok_def pending_tivs_set(1))

text \<open>A new request takes the vector register over when it is more urgent.\<close>

lemma tiv_raise:
  assumes "tiv_ok t" "tiv_set u = insert x (tiv_set t)" "last_tiv u = (if last_tiv t = 0 \<or> x < last_tiv t then x else last_tiv t)"
  shows "tiv_ok u"
proof (cases "tiv_set t = {}")
  case True
  thus ?thesis using assms by (simp add: tiv_ok_least)
next
  case False
  have "0 < Min (tiv_set t)" using tiv_set_bounds Min_in [OF tiv_set_bounds(1) False] by blast
  moreover have "Min (tiv_set u) = min x (Min (tiv_set t))" using assms(2) Min_insert [OF tiv_set_bounds(1) False] by simp
  moreover have "last_tiv t = Min (tiv_set t)" "tiv_set u \<noteq> {}" using assms(1, 2) False by (auto simp: tiv_ok_least)
  ultimately show ?thesis using assms(3) unfolding tiv_ok_least by (simp add: min_def)
qed

text \<open>What the vector register depends on.\<close>

definition iv_fields :: "msp430_timer \<Rightarrow> nat \<times> (nat \<Rightarrow> u16) \<times> bool \<times> nat" where
  "iv_fields t = (last_tiv t, tm_cctl t, overflow_request t, num_ccr t)"

lemma tiv_ok_fields: "iv_fields u = iv_fields t \<Longrightarrow> tiv_ok t \<Longrightarrow> tiv_ok u"
proof -
  assume f: "iv_fields u = iv_fields t" and ok: "tiv_ok t"
  have "tiv_set u = tiv_set t" using f by (simp add: iv_fields_def tiv_set_def ccr_pending_def overflow_tiv_def)
  thus ?thesis using f ok by (simp add: iv_fields_def tiv_ok_least)
qed

lemma iv_fields_upd [simp]:
  "iv_fields (sync_timer c t) = iv_fields t" "iv_fields (reset_timer c t) = iv_fields t" "iv_fields (t\<lparr>cycles_per_tick := x\<rparr>) = iv_fields t"
  "iv_fields (t\<lparr>tm_ccr_fire := y\<rparr>) = iv_fields t" "iv_fields (t\<lparr>exp_cap_interval := z, exp_compare := w\<rparr>) = iv_fields t"
  "iv_fields (t\<lparr>tm_counter := v\<rparr>) = iv_fields t" "iv_fields (t\<lparr>tm_ccr := r\<rparr>) = iv_fields t"
  "iv_fields (t\<lparr>tm_mode := m\<rparr>) = iv_fields t"
  by (simp_all add: iv_fields_def overflow_request_def sync_timer_def reset_timer_def Let_def)

lemma iv_keep [simp]:
  "iv_fields (timers (sync_counter k c) k) = iv_fields (timers c k)" "iv_fields (timers (reset_counter k c) k) = iv_fields (timers c k)"
  "iv_fields (timers (update_cycles_per_tick k c) k) = iv_fields (timers c k)" "iv_fields (timers (put_ccr_event k i x c) k) = iv_fields (timers c k)"
  "iv_fields (timers (schedule_capture k i c) k) = iv_fields (timers c k)" "iv_fields (timers (schedule_ccr_event k i c) k) = iv_fields (timers c k)"
  "iv_fields (timers (schedule_overflow_event k c) k) = iv_fields (timers c k)" "timers (cancel_event e c) = timers c"
proof -
  show s: "iv_fields (timers (sync_counter k c) k) = iv_fields (timers c k)" "iv_fields (timers (reset_counter k c) k) = iv_fields (timers c k)" for c :: "'a msp430_soc_scheme"
    by (simp_all add: sync_counter_def reset_counter_def)
  show "iv_fields (timers (update_cycles_per_tick k c) k) = iv_fields (timers c k)" by (simp add: update_cycles_per_tick_def s Let_def)
  show p: "iv_fields (timers (put_ccr_event k i x c) k) = iv_fields (timers c k)" for x and c :: "'a msp430_soc_scheme" by (simp add: put_ccr_event_def)
  show q: "iv_fields (timers (schedule_capture k i c) k) = iv_fields (timers c k)" by (simp add: schedule_capture_def p Let_def)
  show "iv_fields (timers (schedule_ccr_event k i c) k) = iv_fields (timers c k)" by (simp add: schedule_ccr_event_def p q Let_def split: option.split)
  show "iv_fields (timers (schedule_overflow_event k c) k) = iv_fields (timers c k)" by (simp add: schedule_overflow_event_def Let_def split: option.split)
  show "timers (cancel_event e c) = timers c" by (simp add: cancel_event_def set_ev_queue_def Let_def)
qed

lemma fold_iv:
  "(\<And>i c. i \<in> set xs \<Longrightarrow> iv_fields (timers (f i c) k) = iv_fields (timers c k)) \<Longrightarrow> iv_fields (timers (fold f xs c) k) = iv_fields (timers c k)"
  by (induction xs arbitrary: c) simp_all

lemma iv_keep_all [simp]:
  "iv_fields (timers (schedule_all_events k c) k) = iv_fields (timers c k)" "iv_fields (timers (cancel_all_events k c) k) = iv_fields (timers c k)"
  "iv_fields (timers (msp430_timer_clock_changed k c) k) = iv_fields (timers c k)" "iv_fields (timers (write_counter k u w v c) k) = iv_fields (timers c k)"
  "iv_fields (timers (write_ccr k i u w v c) k) = iv_fields (timers c k)" "iv_fields (timers (snd (timer_read k a w c)) k) = iv_fields (timers c k)"
  by (simp_all add: schedule_all_events_def cancel_all_events_def msp430_timer_clock_changed_def write_counter_def write_ccr_def timer_read_def fold_iv Let_def)

lemma write_ctl_fields:
  "iv_fields (timers (write_ctl k u w v c) k) =
     (last_tiv (timers c k), tm_cctl (timers c k), overflow_request (timers (write_ctl k u w v c) k), num_ccr (timers c k))"
proof -
  define u' where "u' = clear_counter (cpu_cycles c) ((sync_timer (cpu_cycles c) (timers c k))\<lparr>tm_ctl := store_half w u v (tm_ctl (timers c k)),
     clock_source := unat (drop_bit 8 (store_half w u v (tm_ctl (timers c k))) AND 3),
     input_divider := 2 ^ unat (drop_bit 6 (store_half w u v (tm_ctl (timers c k))) AND 3)\<rparr>)"
  have "iv_fields (timers (write_ctl k u w v c) k) = iv_fields u'"
    by (simp add: write_ctl_def Let_def u'_def) (simp add: sync_counter_def)
  moreover have "last_tiv u' = last_tiv (timers c k)" "tm_cctl u' = tm_cctl (timers c k)" "num_ccr u' = num_ccr (timers c k)"
    by (simp_all add: u'_def clear_counter_def)
  ultimately show ?thesis by (simp add: iv_fields_def)
qed

lemma tiv_upd: "tiv_ok (timers c k) \<Longrightarrow> iv_fields (timers d k) = iv_fields (timers c k) \<Longrightarrow> tiv_ok (timers d k)"
  by (rule tiv_ok_fields)

lemma put_ok: "tiv_ok (timers d k) \<Longrightarrow> tiv_ok (timers (put_ccr_event k i x d) k)"
  by (erule tiv_upd) simp

lemma reevaluate_tiv_ok: "tiv_ok (timers (reevaluate_tiv k c) k)"
  by (simp add: reevaluate_tiv_result tiv_ok_def)

lemma flag_vector_timers [simp]: "timers (flag_vector k v c) = timers c"
  by (simp add: flag_vector_def)

lemma cctl_zero_ok: "tiv_ok t \<Longrightarrow> tiv_ok (set_cctl 0 v t)"
proof -
  have "tiv_set (set_cctl 0 v t) = tiv_set t" by (simp add: tiv_set_def set_cctl_def ccr_pending_def overflow_tiv_def overflow_request_def cong: conj_cong)
  thus "tiv_ok t \<Longrightarrow> tiv_ok (set_cctl 0 v t)" by (simp add: tiv_ok_least set_cctl_def)
qed

lemma write_cctl_ok:
  assumes "tiv_ok (timers c k)"
  shows "tiv_ok (timers (write_cctl k i u w v c) k)"
proof -
  have sched: "tiv_ok (timers (schedule_ccr_event k i d) k)" if "tiv_ok (timers d k)" for d :: "'a msp430_soc_scheme"
    by (rule tiv_upd [OF that]) simp
  show ?thesis using assms by (simp add: write_cctl_def Let_def sched reevaluate_tiv_ok cctl_zero_ok)
qed

text \<open>A compare register whose flag is set is pending exactly when its interrupt is enabled.\<close>

lemma tiv_set_cctl:
  assumes "1 \<le> i" "i < num_ccr t" "v AND TIMER_CCIE = tm_cctl t i AND TIMER_CCIE" "v AND TIMER_CCIFG \<noteq> 0"
  shows "tiv_set (set_cctl i v t) = (if v AND TIMER_CCIE \<noteq> 0 then insert (i * 2) (tiv_set t) else tiv_set t)"
proof -
  let ?u = "set_cctl i v t"
  have same: "num_ccr ?u = num_ccr t" "overflow_tiv ?u = overflow_tiv t" "overflow_request ?u = overflow_request t"
    by (simp_all add: set_cctl_def overflow_tiv_def overflow_request_def)
  have p: "ccr_pending ?u j = (if j = i then v AND TIMER_CCIE \<noteq> 0 else ccr_pending t j)" for j
    using assms(4) by (simp add: ccr_pending_def set_cctl_def)
  have "ccr_pending t i \<Longrightarrow> v AND TIMER_CCIE \<noteq> 0" using assms(3) by (simp add: ccr_pending_def)
  hence "{j * 2 | j. 1 \<le> j \<and> j < num_ccr t \<and> ccr_pending ?u j} =
      {j * 2 | j. 1 \<le> j \<and> j < num_ccr t \<and> ccr_pending t j} \<union> (if v AND TIMER_CCIE \<noteq> 0 then {i * 2} else {})"
    unfolding p using assms(1, 2) by (auto split: if_splits) metis
  thus ?thesis unfolding tiv_set_def same by auto
qed

lemma cctl_bits:
  "(x OR TIMER_CCIFG) AND TIMER_CCIE = x AND TIMER_CCIE" "(x OR TIMER_CCIFG) AND TIMER_CCIFG \<noteq> 0"
  "(x OR TIMER_COV) AND TIMER_CCIE = x AND TIMER_CCIE" "(x OR TIMER_COV) AND TIMER_CCIFG = x AND TIMER_CCIFG"
  "(x OR 8) AND TIMER_CCIE = x AND TIMER_CCIE" "(x OR 8) AND TIMER_CCIFG = x AND TIMER_CCIFG"
  "(x AND NOT 8) AND TIMER_CCIE = x AND TIMER_CCIE" "(x AND NOT 8) AND TIMER_CCIFG = x AND TIMER_CCIFG"
  by (simp_all add: bit.conj_disj_distrib2 and.assoc)

text \<open>Raising the flag of compare register \<open>i\<close> and, when its interrupt is enabled, naming it if it is more urgent.\<close>

definition name_request :: "nat \<Rightarrow> msp430_timer \<Rightarrow> msp430_timer" where
  "name_request i t = (if i \<noteq> 0 \<and> tm_cctl t i AND TIMER_CCIE \<noteq> 0 \<and> (last_tiv t = 0 \<or> i * 2 < last_tiv t) then t\<lparr>last_tiv := i * 2\<rparr> else t)"

lemma name_request_ok:
  assumes "tiv_ok t" "i < num_ccr t" "v AND TIMER_CCIE = tm_cctl t i AND TIMER_CCIE" "v AND TIMER_CCIFG \<noteq> 0"
  shows "tiv_ok (name_request i (set_cctl i v t))"
proof (cases "i = 0")
  case True
  thus ?thesis using cctl_zero_ok [OF assms(1)] by (simp add: name_request_def)
next
  case False
  let ?u = "name_request i (set_cctl i v t)"
  have l: "tiv_set (t\<lparr>last_tiv := x\<rparr>) = tiv_set t" for t :: msp430_timer and x
    by (simp add: tiv_set_def ccr_pending_def overflow_tiv_def overflow_request_def)
  hence s: "tiv_set ?u = (if v AND TIMER_CCIE \<noteq> 0 then insert (i * 2) (tiv_set t) else tiv_set t)"
    using tiv_set_cctl [of i t v] False assms(2-4) by (simp add: name_request_def)
  show ?thesis
  proof (cases "v AND TIMER_CCIE = 0")
    case True
    hence "last_tiv ?u = last_tiv t" by (simp add: name_request_def set_cctl_def)
    thus ?thesis using s True assms(1) by (simp add: tiv_ok_least)
  next
    case False
    thus ?thesis using s tiv_raise [OF assms(1), of ?u "i * 2"] \<open>i \<noteq> 0\<close> by (simp add: name_request_def set_cctl_def)
  qed
qed

lemma trigger_named:
  "tm_cctl (timers c k) i AND TIMER_CCIFG \<noteq> 0 \<Longrightarrow> timers (trigger_ccr_interrupt k i c) k = name_request i (timers c k)"
  by (simp add: trigger_ccr_interrupt_def name_request_def Let_def)

lemma capture_fired_ok:
  assumes "tiv_ok (timers c k)" "i < num_ccr (timers c k)"
  shows "tiv_ok (timers (capture_fired k i c) k)"
proof -
  let ?t = "timers c k"
  define f where "f = (\<lambda>t :: msp430_timer. t\<lparr>tm_ccr := (tm_ccr t)(i := exp_compare t i),
                     exp_compare := (exp_compare t)(i := word_of_int (uint (exp_compare t i) + exp_cap_interval t i))\<rparr>)"
  define v where "v = (if tm_cctl ?t i AND TIMER_CCIFG \<noteq> 0 then tm_cctl ?t i OR TIMER_COV else tm_cctl ?t i) OR TIMER_CCIFG"
  have f: "iv_fields (f t) = iv_fields t" for t by (simp add: f_def iv_fields_def overflow_request_def)
  have fo: "tiv_ok (f ?t)" "i < num_ccr (f ?t)" "tm_cctl (f ?t) = tm_cctl ?t"
    using tiv_ok_fields [OF f assms(1)] assms(2) f [of ?t] by (simp_all add: iv_fields_def)
  have v: "v AND TIMER_CCIE = tm_cctl ?t i AND TIMER_CCIE" "v AND TIMER_CCIFG \<noteq> 0" unfolding v_def cctl_bits by (simp_all add: cctl_bits)
  have "tiv_ok (timers (trigger_ccr_interrupt k i (upd_timer k (\<lambda>t. set_cctl i v (f t)) c)) k)"
    using trigger_named [of "upd_timer k (\<lambda>t. set_cctl i v (f t)) c" k i] v name_request_ok [OF fo(1, 2), of v] fo(3) by (simp add: set_cctl_def)
  thus ?thesis unfolding capture_fired_def Let_def f_def v_def by (rule put_ok)
qed

lemma ccr_event_ok:
  assumes "tiv_ok (timers c k)"
  shows "tiv_ok (timers (ccr_event_callback k i c) k)"
proof (cases "i < num_ccr (timers c k)")
  case True
  let ?c = "sync_counter k c"
  let ?t = "timers ?c k" and ?v = "tm_cctl (timers ?c k) i OR TIMER_CCIFG"
  have ok: "tiv_ok ?t" by (rule tiv_upd [OF assms]) simp
  have n: "i < num_ccr ?t" using True by (simp add: sync_counter_def)
  have "tiv_ok (timers (trigger_ccr_interrupt k i (upd_timer k (set_cctl i ?v) ?c)) k)"
    using trigger_named [of "upd_timer k (set_cctl i ?v) ?c" k i] name_request_ok [OF ok n, of ?v] cctl_bits(1, 2) by (simp add: set_cctl_def)
  thus ?thesis using True capture_fired_ok [OF ok n] by (simp add: ccr_event_callback_def put_ok Let_def)
next
  case False
  thus ?thesis using assms by (simp add: ccr_event_callback_def)
qed

lemma overflow_event_ok:
  assumes "tiv_ok (timers c k)"
  shows "tiv_ok (timers (overflow_event_callback k c) k)"
proof -
  define t where "t = timers (sync_counter k c) k"
  define u where "u = t\<lparr>tm_ctl := tm_ctl t OR TIMER_TIFG\<rparr>"
  define r where "r = (if tm_ctl u AND TIMER_TIE \<noteq> 0 \<and> last_tiv u = 0 then u\<lparr>last_tiv := overflow_tiv u\<rparr> else u)"
  have ok: "tiv_ok t" unfolding t_def by (rule tiv_upd [OF assms]) simp
  have bits: "(tm_ctl t OR TIMER_TIFG) AND TIMER_TIE = tm_ctl t AND TIMER_TIE" "(tm_ctl t OR TIMER_TIFG) AND TIMER_TIFG \<noteq> 0"
    by (simp_all add: bit.conj_disj_distrib2)
  have req: "overflow_request r \<longleftrightarrow> tm_ctl t AND TIMER_TIE \<noteq> 0" unfolding overflow_request_def r_def u_def using bits by simp
  have rest: "num_ccr r = num_ccr t" "overflow_tiv r = overflow_tiv t" "ccr_pending r = ccr_pending t"
    by (simp_all add: r_def u_def overflow_tiv_def ccr_pending_def fun_eq_iff)
  have set: "tiv_set r = (if tm_ctl t AND TIMER_TIE \<noteq> 0 then insert (overflow_tiv t) (tiv_set t) else tiv_set t)"
    unfolding tiv_set_def req rest by (auto simp: overflow_request_def)
  have "tiv_ok r"
  proof (cases "tm_ctl t AND TIMER_TIE = 0")
    case True
    thus ?thesis using ok set bits by (simp add: tiv_ok_least r_def u_def)
  next
    case False
    have "last_tiv t \<le> overflow_tiv t" using ok tiv_set_bounds(2) [of _ t] Min_in [OF tiv_set_bounds(1) [of t]] by (auto simp: tiv_ok_least)
    thus ?thesis using tiv_raise [OF ok, of r "overflow_tiv t"] set False bits by (simp add: r_def u_def overflow_tiv_def)
  qed
  moreover have "iv_fields (timers (overflow_event_callback k c) k) = iv_fields r"
    by (simp add: overflow_event_callback_def Let_def r_def u_def t_def)
  ultimately show ?thesis by (metis tiv_ok_fields)
qed

lemma capture_input_ok:
  assumes "tiv_ok (timers c k)"
  shows "tiv_ok (timers (msp430_timer_capture_input k idx b c) k)"
proof (cases "idx < 0 \<or> idx \<ge> int (num_ccr (timers c k)) \<or> tm_mode (timers c k) = TIMER_MC_STOP \<or> \<not> captures_edge (tm_cctl (timers c k) (nat idx)) b")
  case True
  thus ?thesis using assms by (simp add: msp430_timer_capture_input_def)
next
  case False
  define i where "i = nat idx"
  define t where "t = timers (sync_counter k c) k"
  have t: "tiv_ok t" "i < num_ccr t" using False tiv_upd [OF assms, of "sync_counter k c"] by (auto simp: t_def i_def sync_counter_def)
  define l where "l = (if tm_cctl t i AND TIMER_CCIFG \<noteq> 0 then t else t\<lparr>tm_ccr := (tm_ccr t)(i := tm_counter t)\<rparr>)"
  define w where "w = (if tm_cctl t i AND TIMER_CCIFG \<noteq> 0 then tm_cctl t i OR TIMER_COV else tm_cctl t i OR TIMER_CCIFG)"
  define v where "v = (if b then w OR 8 else w AND NOT 8)"
  have l: "iv_fields l = iv_fields t" by (simp add: l_def)
  have lk: "tiv_ok l" "i < num_ccr l" "tm_cctl l = tm_cctl t" using tiv_ok_fields [OF l t(1)] t(2) l by (simp_all add: iv_fields_def)
  have "w AND TIMER_CCIE = tm_cctl t i AND TIMER_CCIE" "w AND TIMER_CCIFG \<noteq> 0" by (simp_all only: w_def cctl_bits split: if_splits) simp_all
  hence v: "v AND TIMER_CCIE = tm_cctl t i AND TIMER_CCIE" "v AND TIMER_CCIFG \<noteq> 0" by (simp_all only: v_def cctl_bits split: if_splits) simp_all
  define g :: "msp430_timer \<Rightarrow> msp430_timer" where "g = (\<lambda>t. if tm_cctl t i AND TIMER_CCIFG \<noteq> 0 then set_cctl i (tm_cctl t i OR TIMER_COV) t
                         else set_cctl i (tm_cctl t i OR TIMER_CCIFG) (t\<lparr>tm_ccr := (tm_ccr t)(i := tm_counter t)\<rparr>))"
  define h where "h = (\<lambda>t. set_cctl i (if b then tm_cctl (g t) i OR 8 else tm_cctl (g t) i AND NOT 8) (g t))"
  have hv: "h t = set_cctl i v l" by (simp add: h_def g_def v_def w_def l_def set_cctl_def)
  have "msp430_timer_capture_input k idx b c = (let c = upd_timer k h (sync_counter k c); t = timers c k in
     if tm_cctl t i AND TIMER_CCIE = 0 then c
           else if i = 0 then flag_vector k (ccr0_vector t) c
           else flag_vector k (ccr1_vector t)
                  (if last_tiv t = 0 \<or> i * 2 < last_tiv t then upd_timer k (\<lambda>t. t\<lparr>last_tiv := i * 2\<rparr>) c else c))"
    using False unfolding msp430_timer_capture_input_def Let_def i_def [symmetric] h_def g_def by (simp only: if_False)
  hence "timers (msp430_timer_capture_input k idx b c) k = name_request i (h t)"
    by (simp add: name_request_def t_def [symmetric] Let_def)
  hence "timers (msp430_timer_capture_input k idx b c) k = name_request i (set_cctl i v l)" unfolding hv .
  thus ?thesis using name_request_ok [OF lk(1, 2), of v] v lk(3) by simp
qed

lemma timer_write_cases:
  assumes "P c" "\<And>u. P (write_ctl k u w v c)" "\<And>u. P (write_counter k u w v c)" "\<And>i u. P (write_cctl k i u w v c)" "\<And>i u. P (write_ccr k i u w v c)"
  shows "P (timer_write k a v w c)"
  unfolding timer_write_def Let_def using assms by (simp only: if_split simp_thms)

text \<open>
  The runs of timer \<open>k\<close>, from its initialisation: register accesses, the callbacks of its events, edges on a capture input,
  entries of its interrupts, changes of the clock, and anything elsewhere in the part. A write of TxCTL counts only if it
  neither raises nor withdraws an overflow request (TIE and TIFG both set): such a write leaves the register as it is.
\<close>

inductive timer_run :: "nat \<Rightarrow> 'a msp430_soc_scheme \<Rightarrow> bool" for k where
  init: "timer_run k (msp430_timer_init k base iv n vec0 vec1 c)"
| reg_write: "\<lbrakk>timer_run k c; d = timer_write k a v w c; overflow_request (timers d k) = overflow_request (timers c k)\<rbrakk> \<Longrightarrow> timer_run k d"
| reg_read: "timer_run k c \<Longrightarrow> timer_run k (snd (timer_read k a w c))"
| iv_read: "timer_run k c \<Longrightarrow> timer_run k (snd (timer_iv_read k a w c))"
| compare: "timer_run k c \<Longrightarrow> timer_run k (ccr_event_callback k i c)"
| overflow: "timer_run k c \<Longrightarrow> timer_run k (overflow_event_callback k c)"
| capture: "timer_run k c \<Longrightarrow> timer_run k (msp430_timer_capture_input k idx b c)"
| service: "timer_run k c \<Longrightarrow> timer_run k (timer_interrupt_handler k vec c)"
| clock: "timer_run k c \<Longrightarrow> timer_run k (msp430_timer_clock_changed k c)"
| elsewhere: "\<lbrakk>timer_run k c; timers d k = timers c k\<rbrakk> \<Longrightarrow> timer_run k d"

lemma timer_run_tiv: "timer_run k c \<Longrightarrow> tiv_ok (timers c k)"
proof (induction rule: timer_run.induct)
  case (init base iv n vec0 vec1 c)
  show ?case by (simp add: msp430_timer_init_def msp430_register_io_def tiv_ok_least tiv_set_def ccr_pending_def overflow_request_def Let_def)
next
  case (reg_write c d a v w)
  have "overflow_request (timers (timer_write k a v w c) k) = overflow_request (timers c k) \<longrightarrow> tiv_ok (timers (timer_write k a v w c) k)"
  proof (rule timer_write_cases)
    show "overflow_request (timers (write_ctl k u w v c) k) = overflow_request (timers c k) \<longrightarrow> tiv_ok (timers (write_ctl k u w v c) k)" for u
      using tiv_upd [OF reg_write.IH, of "write_ctl k u w v c"] write_ctl_fields [of k u w v c] by (simp add: iv_fields_def)
    show "overflow_request (timers (write_counter k u w v c) k) = overflow_request (timers c k) \<longrightarrow> tiv_ok (timers (write_counter k u w v c) k)" for u
      using tiv_upd [OF reg_write.IH, of "write_counter k u w v c"] by simp
    show "overflow_request (timers (write_ccr k i u w v c) k) = overflow_request (timers c k) \<longrightarrow> tiv_ok (timers (write_ccr k i u w v c) k)" for i u
      using tiv_upd [OF reg_write.IH, of "write_ccr k i u w v c"] by simp
  qed (simp_all add: reg_write.IH write_cctl_ok [OF reg_write.IH])
  thus ?case using reg_write.hyps by simp
next
  case (reg_read c a w)
  show ?case by (rule tiv_upd [OF reg_read.IH]) simp
next
  case (iv_read c a w)
  thus ?case by (simp add: timer_iv_read_def reevaluate_tiv_ok Let_def)
next
  case (compare c i)
  show ?case by (rule ccr_event_ok [OF compare.IH])
next
  case (overflow c)
  show ?case by (rule overflow_event_ok [OF overflow.IH])
next
  case (capture c idx b)
  show ?case by (rule capture_input_ok [OF capture.IH])
next
  case (service c vec)
  thus ?case by (simp add: timer_interrupt_handler_def cctl_zero_ok)
next
  case (clock c)
  show ?case by (rule tiv_upd [OF clock.IH]) simp
next
  case (elsewhere c d)
  thus ?case by simp
qed

text \<open>Successive reads of the vector register.\<close>

fun iv_reads :: "nat \<Rightarrow> nat \<Rightarrow> 'a msp430_soc_scheme \<Rightarrow> u32 list \<times> 'a msp430_soc_scheme" where
  "iv_reads k 0 c = ([], c)"
| "iv_reads k (Suc n) c = (let (v, c) = timer_iv_read k (tm_iv_addr (timers c k)) True c; (vs, c) = iv_reads k n c in (v # vs, c))"

lemma iv_reads_pop:
  assumes "tiv_ok (timers c k)" "(vs, d) = iv_reads k n c"
  defines "l \<equiv> pending_tivs (timers c k)"
  shows "vs = map of_nat (take n l) @ replicate (n - length l) 0 \<and> pending_tivs (timers d k) = drop n l \<and> (l = [] \<longrightarrow> d = c) \<and>
    (0 < n \<and> l \<noteq> [] \<longrightarrow> (irq_pending d (ccr1_vector (timers c k)) \<longleftrightarrow> drop n l \<noteq> []))"
  using assms(1, 2) unfolding l_def
proof (induction n arbitrary: c vs)
  case 0
  thus ?case by simp
next
  case (Suc n)
  let ?l = "pending_tivs (timers c k)"
  obtain v e where e: "(v, e) = timer_iv_read k (tm_iv_addr (timers c k)) True c" by (metis surj_pair)
  obtain us where us: "(us, d) = iv_reads k n e" "vs = v # us" using Suc.prems(2) by (auto simp flip: e split: prod.splits)
  have ok: "last_tiv (timers c k) = first_tiv ?l" using Suc.prems(1) by (simp add: tiv_ok_def)
  note p = iv_read_pops [OF refl ok e refl]
  have oke: "tiv_ok (timers e k)" using p by (simp add: tiv_ok_def)
  note ih = Suc.IH [OF oke us(1)]
  have vec: "ccr1_vector (timers e k) = ccr1_vector (timers c k)"
    using e by (auto simp: timer_iv_read_def reevaluate_tiv_result set_cctl_def Let_def)
  show ?case
  proof (cases ?l)
    case Nil
    hence "e = c" "v = 0" using e ok by (simp_all add: timer_iv_read_def first_tiv_def Let_def)
    thus ?thesis using ih Nil us(2) by simp
  next
    case (Cons x xs)
    have "pending_tivs (timers e k) = xs" "v = of_nat x" using p Cons by (simp_all add: first_tiv_def)
    thus ?thesis using ih p Cons us vec by (cases xs; cases n) auto
  qed
qed

text \<open>
  C33. However a timer got where it is, as long as no write of TxCTL raised or withdrew an overflow request, reading its
  vector register hands out the pending sources of the shared interrupt in the order of their priority, and zero when
  there are none left: the first \<open>n\<close> reads return the first \<open>n\<close> vector values of the pending sources and clear exactly
  these, and after a read that cleared one the shared interrupt is requested exactly if another one is pending.
\<close>

theorem vector_reads_in_order:
  assumes "timer_run k c" "l = pending_tivs (timers c k)" "(vs, d) = iv_reads k n c"
  shows "vs = map of_nat (take n l) @ replicate (n - length l) 0 \<and> pending_tivs (timers d k) = drop n l \<and>
    (0 < n \<and> l \<noteq> [] \<longrightarrow> (irq_pending d (ccr1_vector (timers c k)) \<longleftrightarrow> drop n l \<noteq> []))"
  using iv_reads_pop [OF timer_run_tiv [OF assms(1)] assms(3)] assms(2) by blast

subsection \<open>Instances\<close>

text \<open>Timer A in up mode from zero, eight cycles to a tick, with CCR0 at 99 and CCR1 at 40, and two requests pending.\<close>

definition timer_a :: msp430_timer where
  "timer_a = \<lparr>tm_base_addr = 0x160, tm_iv_addr = 0x12E, num_ccr = 3, ccr0_vector = 6, ccr1_vector = 5, tm_ctl = 0x02D3, tm_counter = 0,
     tm_ccr = (\<lambda>i. if i = 0 then 99 else 40), tm_cctl = (\<lambda>i. if i = 2 then 0x11 else 0x10), counter_start = 0, counter_acc = 0,
     counter_passed = 0, cycles_per_tick = 8, input_divider = 8, clock_source = 2, tm_mode = TIMER_MC_UP, last_tiv = 4,
     exp_cap_interval = (\<lambda>_. 0), exp_compare = (\<lambda>_. 0), tm_ccr_fire = (\<lambda>_. 0)\<rparr>"

lemma timer_a_running: "0 \<le> c \<Longrightarrow> running timer_a c" "cycles_per_tick timer_a = 8" "tm_ccr timer_a 0 = 99" "tm_ccr timer_a 1 = 40"
  "can_match i timer_a" "tm_cctl timer_a 1 AND TIMER_CAP = 0" "tm_mode timer_a = TIMER_MC_UP" "num_ccr timer_a = 3"
  by (simp_all add: timer_a_def running_def can_match_def)

definition dead_clock :: msp430_clock where
  "dead_clock = \<lparr>clk_base_addr = 0x56, clock_type = 0, max_dco_freq = 4915200, dco_freq = 0, mclk_freq = 0, smclk_freq = 0, aclk_freq = 0,
     div_aclk = 1, div_smclk = 1, div_mclk = 1, dcoctl = 0, bcsctl1 = 0, bcsctl2 = 0, csctl = (\<lambda>_. 0), cs_unlocked = False, clk_timers = []\<rparr>"

definition soc_a :: msp430_soc where
  "soc_a = msp430_cpu.extend (msp430_cpu_init False \<lparr>cfg_is_msp430x = False, cfg_max_mem = 0x10000, cfg_max_mem_io = 0x200, cfg_max_interrupt = 15,
     ram_start = 0x200, ram_mirror_start = 0, ram_mirror_size = 0\<rparr>) (msp430_soc.fields dead_clock (\<lambda>_. timer_a))"

lemma soc_a_fields [simp]: "timers soc_a k = timer_a" "cpu_cycles soc_a = 0"
  by (simp_all add: soc_a_def msp430_cpu.defs msp430_soc.defs msp430_cpu_init_def)


theorem up_mode_skips_matches_witness:
  "\<exists>c. 0 < c \<and> c < tm_ccr_fire (timers (ccr_event_callback 0 0 soc_a) 0) 0 \<and> 0 < ticks_at timer_a c \<and> tm_counter (sync_timer c timer_a) = 99"
proof -
  have "tm_cctl timer_a 0 AND TIMER_CAP = 0" "tm_ccr_fire timer_a 0 = 0" "ticks_at timer_a 0 = 0"
    by (simp_all add: timer_a_def ticks_at_def elapsed_def ctrunc_def)
  thus ?thesis using up_mode_skips_matches [OF refl _ _ _ _ _ _ _ _ _ refl, of soc_a 0 0] by (simp add: timer_a_running)
qed

theorem counter_rebase_exact_witness:
  "tm_counter (sync_timer 100 (reset_timer 13 (sync_timer 13 timer_a))) = tm_counter (sync_timer 100 timer_a) \<and> tm_counter (sync_timer 100 timer_a) = 12"
proof -
  have "tm_counter (sync_timer 100 timer_a) = 12"
    by (simp add: timer_a_def sync_timer_def counter_value_def ticks_at_def elapsed_def ctrunc_def)
  thus ?thesis using counter_rebase_exact [of timer_a 13 8 100] by (simp add: timer_a_running)
qed

text \<open>Two compare registers with their flag and their enable bit set by writes of TxCCTL1 and TxCCTL2.\<close>

definition soc_two_requests :: msp430_soc where
  "soc_two_requests = timer_write 0 0x166 0x11 True (timer_write 0 0x164 0x11 True (msp430_timer_init 0 0x160 0x12E 3 6 5 soc_a))"

lemma timer_init_fields: "timers (msp430_timer_init k base iv n vec0 vec1 c) k =
  \<lparr>tm_base_addr = base, tm_iv_addr = iv, num_ccr = (if n > TIMER_MAX_CCR then TIMER_MAX_CCR else n),
               ccr0_vector = vec0, ccr1_vector = vec1, tm_ctl = 0, tm_counter = 0, tm_ccr = (\<lambda>_. 0), tm_cctl = (\<lambda>_. 0),
               counter_start = 0, counter_acc = 0, counter_passed = 0, cycles_per_tick = 1, input_divider = 0, clock_source = 0,
               tm_mode = 0, last_tiv = 0, exp_cap_interval = (\<lambda>_. 0), exp_compare = (\<lambda>_. 0), tm_ccr_fire = (\<lambda>_. 0)\<rparr>"
  by (simp add: msp430_timer_init_def msp430_register_io_def Let_def)

theorem vector_reads_in_order_witness:
  "fst (iv_reads 0 3 soc_two_requests) = [2, 4, 0] \<and> \<not> irq_pending (snd (iv_reads 0 3 soc_two_requests)) 5"
proof -
  let ?i = "msp430_timer_init 0 0x160 0x12E 3 6 5 soc_a"
  let ?w = "timer_write 0 0x164 0x11 True ?i"
  have a: "timers ?w 0 = (timers ?i 0)\<lparr>tm_cctl := (\<lambda>_. 0)(1 := 0x11), last_tiv := 2\<rparr>"
    by (simp add: timer_write_def timer_init_fields in_ccr_bank_def bank_index_def write_cctl_def store_half_def reevaluate_tiv_result set_cctl_def pending_tivs_def ccr_pending_def first_tiv_def upt_rec Let_def)
  have b: "timers soc_two_requests 0 = (timers ?i 0)\<lparr>tm_cctl := (\<lambda>_. 0)(1 := 0x11, 2 := 0x11), last_tiv := 2\<rparr>"
    by (simp add: soc_two_requests_def timer_write_def [of _ _ _ _ ?w] a timer_init_fields in_ccr_bank_def bank_index_def write_cctl_def store_half_def reevaluate_tiv_result set_cctl_def pending_tivs_def ccr_pending_def first_tiv_def upt_rec Let_def)
  have "timer_run 0 ?i" by (rule timer_run.init)
  hence "timer_run 0 ?w" by (rule timer_run.reg_write [OF _ refl]) (simp add: a overflow_request_def)
  hence "timer_run 0 soc_two_requests" unfolding soc_two_requests_def
    by (rule timer_run.reg_write [OF _ refl]) (simp add: a b [unfolded soc_two_requests_def] overflow_request_def)
  moreover have "pending_tivs (timers soc_two_requests 0) = [2, 4]" "ccr1_vector (timers soc_two_requests 0) = 5"
    by (simp_all add: b timer_init_fields pending_tivs_def ccr_pending_def upt_rec)
  ultimately show ?thesis using vector_reads_in_order [OF _ refl, of 0 soc_two_requests "fst (iv_reads 0 3 soc_two_requests)" "snd (iv_reads 0 3 soc_two_requests)" 3]
    by simp
qed
end
