(* ===== verification/Msp430_Ports.thy ===== *)
theory Msp430_Ports
  imports Msp430_Clock
begin

text \<open>
  Digital ports (\<open>src/msp430/msp430_gpio.c\<close>) and serial interfaces (\<open>src/msp430/msp430_usart.c\<close>): the classic USART, the
  USCI of the MSP430X parts and the eUSCI of the FR5xxx parts. The chips on the pins and behind the serial interfaces are
  the parameter \<open>part_env\<close>, functions on the whole state. The shared interrupt flag and enable registers that the
  serial interfaces reach through pointers are the bytes \<open>sfr\<close>, a pointer the number of one of them.
\<close>

subsection \<open>State\<close>

record gpio_port =
  g_in :: u8
  g_out :: u8
  g_dir :: u8
  g_ifg :: u8
  g_ies :: u8
  g_ie :: u8
  g_sel :: u8
  g_base_addr :: u32
  interrupt_vector :: int
  has_interrupt :: bool

record msp430_usart =
  us_base_addr :: u32
  tx_offset :: u32
  rx_offset :: u32
  us_tx_callback :: "nat option"
  spi_exchange :: "nat option"
  rx_buf :: u8
  ifg_ptr :: "nat option"
  ifg_tx_mask :: u8
  ifg_rx_mask :: u8
  ie_ptr :: "nat option"
  ie_tx_mask :: u8
  ie_rx_mask :: u8
  tx_vector :: int
  rx_vector :: int
  is_usci :: bool
  is_eusci :: bool
  eusci_ifg :: u16
  eusci_ie :: u16
  ucswrst :: bool
  baud_lo :: u8
  baud_hi :: u8
  dma_trigger :: "nat option"
  dma_trigger_source :: int

record msp430_part = msp430_soc +
  gpio_ports :: "nat \<Rightarrow> gpio_port"
  gpio_num_ports :: nat
  output_callback :: "nat option"
  sfr :: "nat \<Rightarrow> u8"
  usarts :: "nat \<Rightarrow> msp430_usart"

record 's part_env =
  e_output :: "nat \<Rightarrow> nat \<Rightarrow> u8 \<Rightarrow> u8 \<Rightarrow> 's \<Rightarrow> 's"
  e_tx :: "nat \<Rightarrow> u8 \<Rightarrow> 's \<Rightarrow> 's"
  e_spi :: "nat \<Rightarrow> u8 \<Rightarrow> 's \<Rightarrow> int \<times> 's"
  e_dma :: "nat \<Rightarrow> int \<Rightarrow> 's \<Rightarrow> 's"

abbreviation MSP430_GPIO_MAX_PORTS :: nat where "MSP430_GPIO_MAX_PORTS \<equiv> 10"
abbreviation gpio_int_regs :: nat where "gpio_int_regs \<equiv> 7"
abbreviation gpio_regs :: nat where "gpio_regs \<equiv> 11"
abbreviation gpio_irq :: nat where "gpio_irq \<equiv> 1"
abbreviation gpio_source :: nat where "gpio_source \<equiv> 1000"

definition usart_regs :: "nat \<Rightarrow> nat" where "usart_regs k = 4 * k + 2"
definition usart_source :: "nat \<Rightarrow> nat" where "usart_source k = 2000 + k"

definition upd_port :: "nat \<Rightarrow> (gpio_port \<Rightarrow> gpio_port) \<Rightarrow> 'a msp430_part_scheme \<Rightarrow> 'a msp430_part_scheme" where
  "upd_port p f cpu = cpu\<lparr>gpio_ports := (gpio_ports cpu)(p := f (gpio_ports cpu p))\<rparr>"

definition upd_usart :: "nat \<Rightarrow> (msp430_usart \<Rightarrow> msp430_usart) \<Rightarrow> 'a msp430_part_scheme \<Rightarrow> 'a msp430_part_scheme" where
  "upd_usart k f cpu = cpu\<lparr>usarts := (usarts cpu)(k := f (usarts cpu k))\<rparr>"

subsection \<open>Ports\<close>

definition msp430_gpio_update_interrupt :: "nat \<Rightarrow> 'a msp430_part_scheme \<Rightarrow> 'a msp430_part_scheme" where
  "msp430_gpio_update_interrupt p cpu =
     (let port = gpio_ports cpu p; pending = (g_ifg port AND g_ie port \<noteq> 0) in
      if \<not> has_interrupt port then cpu
      else msp430_flag_interrupt (nat (interrupt_vector port)) gpio_source (if pending then Some gpio_irq else None) pending cpu)"

definition port_of :: "bool \<Rightarrow> u32 \<Rightarrow> 'a msp430_part_scheme \<Rightarrow> nat option" where
  "port_of intr a cpu =
     find (\<lambda>p. let port = gpio_ports cpu p in
                has_interrupt port = intr \<and> g_base_addr port \<noteq> 0 \<and> a \<ge> g_base_addr port \<and> a < g_base_addr port + (if intr then 7 else 4))
       [0..<gpio_num_ports cpu]"

definition set_output :: "'a msp430_part_scheme part_env \<Rightarrow> nat \<Rightarrow> u8 \<Rightarrow> 'a msp430_part_scheme \<Rightarrow> 'a msp430_part_scheme" where
  "set_output e p v cpu =
     (let old = g_out (gpio_ports cpu p); cpu = upd_port p (\<lambda>q. q\<lparr>g_out := v\<rparr>) cpu in
      case output_callback cpu of
        Some f \<Rightarrow> if old \<noteq> v then e_output e f (p + 1) old v cpu else cpu
      | None \<Rightarrow> cpu)"

definition gpio_int_read :: "u32 \<Rightarrow> bool \<Rightarrow> 'a msp430_part_scheme \<Rightarrow> u32 \<times> 'a msp430_part_scheme" where
  "gpio_int_read a word cpu =
     (case port_of True a cpu of
        None \<Rightarrow> (0, cpu)
      | Some p \<Rightarrow>
          let port = gpio_ports cpu p
          in (ucast ([g_in port, g_out port, g_dir port, g_ifg port, g_ies port, g_ie port, g_sel port] ! unat (a - g_base_addr port)), cpu))"

definition gpio_int_write ::
  "'a msp430_part_scheme part_env \<Rightarrow> u32 \<Rightarrow> u32 \<Rightarrow> bool \<Rightarrow> 'a msp430_part_scheme \<Rightarrow> 'a msp430_part_scheme" where
  "gpio_int_write e a v word cpu =
     (case port_of True a cpu of
        None \<Rightarrow> cpu
      | Some p \<Rightarrow>
          let off = a - g_base_addr (gpio_ports cpu p); b = ucast v in
          if off = 0 then upd_port p (\<lambda>q. q\<lparr>g_in := b\<rparr>) cpu
          else if off = 1 then set_output e p b cpu
          else if off = 2 then upd_port p (\<lambda>q. q\<lparr>g_dir := b\<rparr>) cpu
          else if off = 3 then msp430_gpio_update_interrupt p (upd_port p (\<lambda>q. q\<lparr>g_ifg := b\<rparr>) cpu)
          else if off = 4 then upd_port p (\<lambda>q. q\<lparr>g_ies := b\<rparr>) cpu
          else if off = 5 then msp430_gpio_update_interrupt p (upd_port p (\<lambda>q. q\<lparr>g_ie := b\<rparr>) cpu)
          else upd_port p (\<lambda>q. q\<lparr>g_sel := b\<rparr>) cpu)"

definition gpio_read :: "u32 \<Rightarrow> bool \<Rightarrow> 'a msp430_part_scheme \<Rightarrow> u32 \<times> 'a msp430_part_scheme" where
  "gpio_read a word cpu =
     (case port_of False a cpu of
        None \<Rightarrow> (0, cpu)
      | Some p \<Rightarrow>
          let port = gpio_ports cpu p in (ucast ([g_in port, g_out port, g_dir port, g_sel port] ! unat (a - g_base_addr port)), cpu))"

definition gpio_write ::
  "'a msp430_part_scheme part_env \<Rightarrow> u32 \<Rightarrow> u32 \<Rightarrow> bool \<Rightarrow> 'a msp430_part_scheme \<Rightarrow> 'a msp430_part_scheme" where
  "gpio_write e a v word cpu =
     (case port_of False a cpu of
        None \<Rightarrow> cpu
      | Some p \<Rightarrow>
          let off = a - g_base_addr (gpio_ports cpu p); b = ucast v in
          if off = 0 then upd_port p (\<lambda>q. q\<lparr>g_in := b\<rparr>) cpu
          else if off = 1 then set_output e p b cpu
          else if off = 2 then upd_port p (\<lambda>q. q\<lparr>g_dir := b\<rparr>) cpu
          else upd_port p (\<lambda>q. q\<lparr>g_sel := b\<rparr>) cpu)"

text \<open>Service of a port's vector: the flags stay, so the request is renewed while one of them is enabled.\<close>

definition gpio_interrupt_handler :: "nat \<Rightarrow> 'a msp430_part_scheme \<Rightarrow> 'a msp430_part_scheme" where
  "gpio_interrupt_handler vec cpu =
     (case find (\<lambda>p. has_interrupt (gpio_ports cpu p) \<and> interrupt_vector (gpio_ports cpu p) = int vec) [0..<gpio_num_ports cpu] of
        None \<Rightarrow> cpu
      | Some p \<Rightarrow> msp430_gpio_update_interrupt p cpu)"

definition msp430_gpio_init :: "'a msp430_part_scheme \<Rightarrow> 'a msp430_part_scheme" where
  "msp430_gpio_init cpu =
     cpu\<lparr>gpio_ports := (\<lambda>_. \<lparr>g_in = 0, g_out = 0, g_dir = 0, g_ifg = 0, g_ies = 0, g_ie = 0, g_sel = 0, g_base_addr = 0,
                            interrupt_vector = 0, has_interrupt = False\<rparr>),
         gpio_num_ports := 0, output_callback := None\<rparr>"

definition msp430_gpio_add_port :: "int \<Rightarrow> u32 \<Rightarrow> int \<Rightarrow> 'a msp430_part_scheme \<Rightarrow> 'a msp430_part_scheme" where
  "msp430_gpio_add_port n base vec cpu =
     (if n < 1 \<or> n > int MSP430_GPIO_MAX_PORTS then cpu
      else
        let cpu = upd_port (nat (n - 1)) (\<lambda>q. q\<lparr>g_base_addr := base, interrupt_vector := vec, has_interrupt := vec \<ge> 0\<rparr>) cpu;
            cpu = (if n > int (gpio_num_ports cpu) then cpu\<lparr>gpio_num_ports := nat n\<rparr> else cpu)
        in if vec \<ge> 0 then msp430_register_io base 7 (Some gpio_int_regs) (Some gpio_int_regs) cpu
           else msp430_register_io base 4 (Some gpio_regs) (Some gpio_regs) cpu)"

definition msp430_gpio_init_from_config :: "(u32 \<times> int) list \<Rightarrow> 'a msp430_part_scheme \<Rightarrow> 'a msp430_part_scheme" where
  "msp430_gpio_init_from_config ports cpu =
     fold (\<lambda>i c. if fst (ports ! i) \<noteq> 0 then msp430_gpio_add_port (int i + 1) (fst (ports ! i)) (snd (ports ! i)) c else c)
       [0..<length ports] (msp430_gpio_init cpu)"

definition msp430_gpio_set_output_callback :: "nat option \<Rightarrow> 'a msp430_part_scheme \<Rightarrow> 'a msp430_part_scheme" where
  "msp430_gpio_set_output_callback cb cpu = cpu\<lparr>output_callback := cb\<rparr>"

definition pin_bit :: "nat \<Rightarrow> u8" where
  "pin_bit pin = push_bit pin 1"

definition msp430_gpio_force_irq_edge :: "int \<Rightarrow> nat \<Rightarrow> bool \<Rightarrow> 'a msp430_part_scheme \<Rightarrow> 'a msp430_part_scheme" where
  "msp430_gpio_force_irq_edge n pin rising cpu =
     (let p = nat (n - 1); b = pin_bit pin in
      if n < 1 \<or> n > int (gpio_num_ports cpu) \<or> \<not> has_interrupt (gpio_ports cpu p) then cpu
      else msp430_gpio_update_interrupt p
             (upd_port p (\<lambda>q. q\<lparr>g_ie := g_ie q OR b, g_ifg := (if rising then g_ifg q OR b else g_ifg q AND NOT b)\<rparr>) cpu))"

definition msp430_gpio_set_input_pin :: "int \<Rightarrow> nat \<Rightarrow> bool \<Rightarrow> 'a msp430_part_scheme \<Rightarrow> 'a msp430_part_scheme" where
  "msp430_gpio_set_input_pin n pin value cpu =
     (let p = nat (n - 1); b = pin_bit pin; port = gpio_ports cpu p; old = (g_in port AND b \<noteq> 0) in
      if n < 1 \<or> n > int (gpio_num_ports cpu) then cpu
      else
        let cpu = upd_port p (\<lambda>q. q\<lparr>g_in := (if value then g_in q OR b else g_in q AND NOT b)\<rparr>) cpu in
        if has_interrupt port \<and> old \<noteq> value \<and> (if g_ies port AND b = 0 then value else \<not> value)
        then msp430_gpio_update_interrupt p (upd_port p (\<lambda>q. q\<lparr>g_ifg := g_ifg q OR b\<rparr>) cpu)
        else cpu)"

subsection \<open>Serial interfaces\<close>

definition set_sfr :: "nat option \<Rightarrow> (u8 \<Rightarrow> u8) \<Rightarrow> 'a msp430_part_scheme \<Rightarrow> 'a msp430_part_scheme" where
  "set_sfr ptr f cpu = (case ptr of None \<Rightarrow> cpu | Some r \<Rightarrow> cpu\<lparr>sfr := (sfr cpu)(r := f (sfr cpu r))\<rparr>)"

definition raise_if :: "bool \<Rightarrow> nat \<Rightarrow> int \<Rightarrow> 'a msp430_part_scheme \<Rightarrow> 'a msp430_part_scheme" where
  "raise_if b k vec cpu = (if b then msp430_flag_interrupt (nat vec) (usart_source k) None True cpu else cpu)"

definition msp430_usart_update_interrupts :: "nat \<Rightarrow> 'a msp430_part_scheme \<Rightarrow> 'a msp430_part_scheme" where
  "msp430_usart_update_interrupts k cpu =
     (let u = usarts cpu k in
      if is_eusci u then
        (if rx_vector u \<ge> 0
         then msp430_flag_interrupt (nat (rx_vector u)) (usart_source k) None (eusci_ifg u AND eusci_ie u \<noteq> 0) cpu else cpu)
      else case (ie_ptr u, ifg_ptr u) of
             (Some e, Some f) \<Rightarrow>
               let en = sfr cpu e; ifg = sfr cpu f
               in raise_if (ifg AND ifg_rx_mask u \<noteq> 0 \<and> en AND ie_rx_mask u \<noteq> 0) k (rx_vector u)
                    (raise_if (ifg AND ifg_tx_mask u \<noteq> 0 \<and> en AND ie_tx_mask u \<noteq> 0) k (tx_vector u) cpu)
           | _ \<Rightarrow> cpu)"

definition set_eusci_ifg :: "(u16 \<Rightarrow> u16) \<Rightarrow> msp430_usart \<Rightarrow> msp430_usart" where
  "set_eusci_ifg f u = u\<lparr>eusci_ifg := f (eusci_ifg u)\<rparr>"

text \<open>The interrupt vector register: receive before transmit, and the flag it names is cleared.\<close>

definition eusci_iv_read :: "nat \<Rightarrow> 'a msp430_part_scheme \<Rightarrow> u32 \<times> 'a msp430_part_scheme" where
  "eusci_iv_read k cpu =
     (let u = usarts cpu k; pending = eusci_ifg u AND eusci_ie u;
          clear = (\<lambda>m. msp430_usart_update_interrupts k (upd_usart k (set_eusci_ifg (\<lambda>v. v AND NOT m)) cpu)) in
      if pending AND 0x0001 \<noteq> 0 then (0x02, clear 0x0001)
      else if pending AND 0x0002 \<noteq> 0 then (0x04, clear 0x0002)
      else (0, cpu))"

definition usart_rx_read :: "nat \<Rightarrow> 'a msp430_part_scheme \<Rightarrow> u32 \<times> 'a msp430_part_scheme" where
  "usart_rx_read k cpu =
     (let u = usarts cpu k;
          cpu = (if is_eusci u then upd_usart k (set_eusci_ifg (\<lambda>v. v AND NOT 0x0001)) cpu
                 else set_sfr (ifg_ptr u) (\<lambda>v. v AND NOT (ifg_rx_mask u)) cpu)
      in (ucast (rx_buf u), msp430_usart_update_interrupts k cpu))"

definition usart_read :: "nat \<Rightarrow> u32 \<Rightarrow> bool \<Rightarrow> 'a msp430_part_scheme \<Rightarrow> u32 \<times> 'a msp430_part_scheme" where
  "usart_read k a word cpu =
     (let u = usarts cpu k; off = a - us_base_addr u;
          rx = (if is_eusci u then 0x0C else if rx_offset u \<noteq> 0 then rx_offset u else 6) in
      if is_eusci u \<and> off = 0x1C then (ucast (eusci_ifg u), cpu)
      else if is_eusci u \<and> off = 0x1A then (ucast (eusci_ie u), cpu)
      else if is_eusci u \<and> off = 0x0A then (0, cpu)
      else if is_eusci u \<and> off = 0x1E then eusci_iv_read k cpu
      else if \<not> is_eusci u \<and> off = 1 \<and> \<not> is_usci u then (0x01, cpu)
      else if off = rx then usart_rx_read k cpu
      else (0, cpu))"

text \<open>Control and baud-rate writes of a USCI module.\<close>

definition usci_control :: "nat \<Rightarrow> u32 \<Rightarrow> u32 \<Rightarrow> 'a msp430_part_scheme \<Rightarrow> 'a msp430_part_scheme" where
  "usci_control k off v cpu =
     (let u = usarts cpu k in
      if off = 1 then
        let rst = (v AND 1 \<noteq> 0); cpu = upd_usart k (\<lambda>u. u\<lparr>ucswrst := rst\<rparr>) cpu in
        if ucswrst u \<and> \<not> rst \<and> ifg_ptr u \<noteq> None
        then msp430_usart_update_interrupts k (set_sfr (ifg_ptr u) (\<lambda>x. (x OR ifg_tx_mask u) AND NOT (ifg_rx_mask u)) cpu)
        else cpu
      else if off = 2 then upd_usart k (\<lambda>u. u\<lparr>baud_lo := ucast v\<rparr>) cpu
      else if off = 3 then upd_usart k (\<lambda>u. u\<lparr>baud_hi := ucast v\<rparr>) cpu
      else cpu)"

definition spi_transfer ::
  "'a msp430_part_scheme part_env \<Rightarrow> nat \<Rightarrow> u8 \<Rightarrow> 'a msp430_part_scheme \<Rightarrow> bool \<times> 'a msp430_part_scheme" where
  "spi_transfer e k b cpu =
     (case spi_exchange (usarts cpu k) of
        None \<Rightarrow> (False, cpu)
      | Some f \<Rightarrow>
          let (resp, cpu) = e_spi e f b cpu
          in if resp \<ge> 0 then (True, upd_usart k (\<lambda>u. u\<lparr>rx_buf := word_of_int resp\<rparr>) cpu) else (False, cpu))"

definition tx_blocked :: "msp430_usart \<Rightarrow> bool" where
  "tx_blocked u \<longleftrightarrow> is_usci u \<and> spi_exchange u = None \<and> (ucswrst u \<or> baud_lo u = 0 \<and> baud_hi u = 0)"

definition usart_transmit ::
  "'a msp430_part_scheme part_env \<Rightarrow> nat \<Rightarrow> u8 \<Rightarrow> 'a msp430_part_scheme \<Rightarrow> 'a msp430_part_scheme" where
  "usart_transmit e k b cpu =
     (let blocked = tx_blocked (usarts cpu k); (responded, cpu) = spi_transfer e k b cpu; u = usarts cpu k;
          cpu = (case us_tx_callback u of Some f \<Rightarrow> if blocked then cpu else e_tx e f b cpu | None \<Rightarrow> cpu); u = usarts cpu k;
          cpu = (if is_eusci u then upd_usart k (set_eusci_ifg (\<lambda>v. v OR 0x0002 OR (if responded then 0x0001 else 0))) cpu
                 else set_sfr (ifg_ptr u)
                        (\<lambda>v. v OR ifg_tx_mask u OR (if responded \<or> spi_exchange u = None then ifg_rx_mask u else 0)) cpu)
      in msp430_usart_update_interrupts k cpu)"

definition usart_write ::
  "'a msp430_part_scheme part_env \<Rightarrow> nat \<Rightarrow> u32 \<Rightarrow> u32 \<Rightarrow> bool \<Rightarrow> 'a msp430_part_scheme \<Rightarrow> 'a msp430_part_scheme" where
  "usart_write e k a v word cpu =
     (let u = usarts cpu k; off = a - us_base_addr u in
      if is_eusci u \<and> off = 0x1A then msp430_usart_update_interrupts k (upd_usart k (\<lambda>u. u\<lparr>eusci_ie := ucast v\<rparr>) cpu)
      else if is_eusci u \<and> off = 0x1C
        then msp430_usart_update_interrupts k (upd_usart k (set_eusci_ifg (\<lambda>_. ucast v OR 0x0002)) cpu)
      else
        let cpu = (if is_usci u then usci_control k off v cpu else cpu)
        in if off = tx_offset u then usart_transmit e k (ucast v) cpu else cpu)"

definition msp430_usart_init :: "nat \<Rightarrow> u32 \<Rightarrow> u32 \<Rightarrow> bool \<Rightarrow> 'a msp430_part_scheme \<Rightarrow> 'a msp430_part_scheme" where
  "msp430_usart_init k base tx eusci cpu =
     msp430_register_io base (if eusci then 32 else 16) (Some (usart_regs k)) (Some (usart_regs k))
       (upd_usart k (\<lambda>_. \<lparr>us_base_addr = base, tx_offset = tx, rx_offset = 0, us_tx_callback = None, spi_exchange = None, rx_buf = 0,
          ifg_ptr = None, ifg_tx_mask = 0, ifg_rx_mask = 0, ie_ptr = None, ie_tx_mask = 0, ie_rx_mask = 0, tx_vector = 0, rx_vector = 0,
          is_usci = False, is_eusci = eusci, eusci_ifg = (if eusci then 0x0002 else 0), eusci_ie = 0, ucswrst = True, baud_lo = 0,
          baud_hi = 0, dma_trigger = None, dma_trigger_source = 0\<rparr>) cpu)"

definition msp430_usart_set_callback :: "nat \<Rightarrow> nat option \<Rightarrow> 'a msp430_part_scheme \<Rightarrow> 'a msp430_part_scheme" where
  "msp430_usart_set_callback k cb = upd_usart k (\<lambda>u. u\<lparr>us_tx_callback := cb\<rparr>)"

definition msp430_usart_set_ifg :: "nat \<Rightarrow> nat \<Rightarrow> u8 \<Rightarrow> 'a msp430_part_scheme \<Rightarrow> 'a msp430_part_scheme" where
  "msp430_usart_set_ifg k ptr tx cpu =
     set_sfr (Some ptr) (\<lambda>v. v OR tx OR drop_bit 1 tx)
       (upd_usart k (\<lambda>u. u\<lparr>ifg_ptr := Some ptr, ifg_tx_mask := tx, ifg_rx_mask := drop_bit 1 tx\<rparr>) cpu)"

definition msp430_usart_set_spi_exchange :: "nat \<Rightarrow> nat option \<Rightarrow> u32 \<Rightarrow> 'a msp430_part_scheme \<Rightarrow> 'a msp430_part_scheme" where
  "msp430_usart_set_spi_exchange k cb rx =
     upd_usart k (\<lambda>u. u\<lparr>spi_exchange := cb, rx_offset := rx, ifg_rx_mask := drop_bit 1 (ifg_tx_mask u)\<rparr>)"

definition msp430_usart_set_ie :: "nat \<Rightarrow> nat \<Rightarrow> u8 \<Rightarrow> int \<Rightarrow> int \<Rightarrow> 'a msp430_part_scheme \<Rightarrow> 'a msp430_part_scheme" where
  "msp430_usart_set_ie k ptr tx txv rxv =
     upd_usart k (\<lambda>u. u\<lparr>ie_ptr := Some ptr, ie_tx_mask := tx, ie_rx_mask := drop_bit 1 tx, tx_vector := txv, rx_vector := rxv\<rparr>)"

definition msp430_usart_receive_byte ::
  "'a msp430_part_scheme part_env \<Rightarrow> nat \<Rightarrow> u8 \<Rightarrow> 'a msp430_part_scheme \<Rightarrow> 'a msp430_part_scheme" where
  "msp430_usart_receive_byte e k b cpu =
     (let cpu = upd_usart k (\<lambda>u. u\<lparr>rx_buf := b\<rparr>) cpu; u = usarts cpu k;
          cpu = (if is_eusci u then upd_usart k (set_eusci_ifg (\<lambda>v. v OR 0x0001)) cpu
                 else set_sfr (ifg_ptr u) (\<lambda>v. v OR ifg_rx_mask u) cpu);
          cpu = (case dma_trigger u of
                   None \<Rightarrow> cpu
                 | Some f \<Rightarrow>
                     let cpu = e_dma e f (dma_trigger_source u) cpu; u = usarts cpu k
                     in set_sfr (ifg_ptr u) (\<lambda>v. v AND NOT (ifg_rx_mask u)) cpu)
      in msp430_usart_update_interrupts k cpu)"

subsection \<open>The peripherals of a part\<close>

text \<open>Dispatch of the callbacks that the core holds by number.\<close>

definition part_read :: "nat \<Rightarrow> u32 \<Rightarrow> bool \<Rightarrow> 'a msp430_part_scheme \<Rightarrow> u32 \<times> 'a msp430_part_scheme" where
  "part_read f a word cpu =
     (if f mod 4 = 0 then timer_read (f div 4) a word cpu
      else if f mod 4 = 1 then timer_iv_read (f div 4) a word cpu
      else if f mod 4 = 2 then usart_read (f div 4) a word cpu
      else if f = clock_regs then clock_read a word cpu
      else if f = gpio_int_regs then gpio_int_read a word cpu
      else if f = gpio_regs then gpio_read a word cpu
      else (0, cpu))"

definition part_write ::
  "'a msp430_part_scheme part_env \<Rightarrow> nat \<Rightarrow> u32 \<Rightarrow> u32 \<Rightarrow> bool \<Rightarrow> 'a msp430_part_scheme \<Rightarrow> 'a msp430_part_scheme" where
  "part_write e f a v word cpu =
     (if f mod 4 = 0 then timer_write (f div 4) a v word cpu
      else if f mod 4 = 1 then timer_iv_write (f div 4) a v word cpu
      else if f mod 4 = 2 then usart_write e (f div 4) a v word cpu
      else if f = clock_regs then clock_write a v word cpu
      else if f = gpio_int_regs then gpio_int_write e a v word cpu
      else if f = gpio_regs then gpio_write e a v word cpu
      else cpu)"

definition part_irq :: "nat \<Rightarrow> nat \<Rightarrow> nat \<Rightarrow> 'a msp430_part_scheme \<Rightarrow> 'a msp430_part_scheme" where
  "part_irq f src vec cpu =
     (if f mod 4 = 0 then timer_interrupt_handler (f div 4) vec cpu else if f = gpio_irq then gpio_interrupt_handler vec cpu else cpu)"

definition part_event :: "nat \<Rightarrow> 'a msp430_part_scheme \<Rightarrow> 'a msp430_part_scheme" where
  "part_event ev cpu = (if ev mod 8 = 7 then overflow_event_callback (ev div 8) cpu else ccr_event_callback (ev div 8) (ev mod 8) cpu)"

definition part_host :: "'a msp430_part_scheme part_env \<Rightarrow> 'a msp430_part_scheme msp430_host" where
  "part_host e = \<lparr>m_read = part_read, m_write = part_write e, m_irq = part_irq, m_event = part_event\<rparr>"

end
