(* ===== verification/Msp430_Part_Correct.thy ===== *)
theory Msp430_Part_Correct
  imports Msp430_Ports Msp430_Timer_Correct Msp430_Irq_Correct
begin

text \<open>
  The peripherals and the core together: timers, clock, ports and serial interfaces request interrupts only through the
  interrupt interface, so the invariant of the pending vectors holds in every run of a whole part.
\<close>

subsection \<open>Vectors\<close>

text \<open>Every vector a peripheral uses is one of the part, and the pending vectors are exact.\<close>

definition vectors_ok :: "'a msp430_part_scheme \<Rightarrow> bool" where
  "vectors_ok c \<longleftrightarrow>
     (\<forall>k. ccr0_vector (timers c k) \<le> max_interrupt c \<and> ccr1_vector (timers c k) \<le> max_interrupt c) \<and>
     (\<forall>p. nat (interrupt_vector (gpio_ports c p)) \<le> max_interrupt c) \<and>
     (\<forall>k. nat (tx_vector (usarts c k)) \<le> max_interrupt c \<and> nat (rx_vector (usarts c k)) \<le> max_interrupt c)"

definition part_ok :: "'a msp430_part_scheme \<Rightarrow> bool" where
  "part_ok c \<longleftrightarrow> irq_ok c \<and> vectors_ok c"

lemmas part_ok_defs = part_ok_def vectors_ok_def irq_ok_def irq_exact_def irq_pending_def

lemma part_ok_cong:
  assumes "interrupt_source d = interrupt_source c" "interrupt_handler d = interrupt_handler c" "interrupt_max d = interrupt_max c"
    "max_interrupt d = max_interrupt c" "serviced_interrupt d = serviced_interrupt c" "interrupts_enabled d = interrupts_enabled c"
    "\<And>k. ccr0_vector (timers d k) = ccr0_vector (timers c k)" "\<And>k. ccr1_vector (timers d k) = ccr1_vector (timers c k)"
    "\<And>p. interrupt_vector (gpio_ports d p) = interrupt_vector (gpio_ports c p)"
    "\<And>k. tx_vector (usarts d k) = tx_vector (usarts c k)" "\<And>k. rx_vector (usarts d k) = rx_vector (usarts c k)"
  shows "part_ok d = part_ok c"
  using assms by (simp add: part_ok_defs)

lemma part_ok_timer [simp]:
  "(\<And>t. ccr0_vector (f t) = ccr0_vector t) \<Longrightarrow> (\<And>t. ccr1_vector (f t) = ccr1_vector t) \<Longrightarrow> part_ok (upd_timer k f c) = part_ok c"
  by (intro part_ok_cong) (simp_all add: upd_timer_def)

lemma part_ok_clock [simp]: "part_ok (upd_clock f c) = part_ok c"
  by (simp add: part_ok_defs upd_clock_def)

lemma part_ok_port [simp]: "(\<And>q. interrupt_vector (f q) = interrupt_vector q) \<Longrightarrow> part_ok (upd_port p f c) = part_ok c"
  by (intro part_ok_cong) (simp_all add: upd_port_def)

lemma part_ok_usart [simp]:
  "(\<And>u. tx_vector (f u) = tx_vector u) \<Longrightarrow> (\<And>u. rx_vector (f u) = rx_vector u) \<Longrightarrow> part_ok (upd_usart k f c) = part_ok c"
  by (intro part_ok_cong) (simp_all add: upd_usart_def)

lemma part_ok_sfr [simp]: "part_ok (set_sfr r f c) = part_ok c"
  by (simp add: part_ok_defs set_sfr_def split: option.split)

lemma part_ok_events [simp]: "part_ok (schedule_event ev t c) = part_ok c" "part_ok (cancel_event ev c) = part_ok c" "part_ok (cpu_set_frequency f c) = part_ok c"
  by (simp_all add: part_ok_defs schedule_event_def cancel_event_def set_ev_queue_def cpu_set_frequency_def sync_sim_time_def Let_def)

lemma vectors_flag [simp]: "vectors_ok (msp430_flag_interrupt v s f on c) = vectors_ok c"
  by (simp add: vectors_ok_def msp430_flag_interrupt_def reevaluate_interrupts_def Let_def)

lemma part_ok_flag: "part_ok c \<Longrightarrow> v \<le> max_interrupt c \<Longrightarrow> part_ok (msp430_flag_interrupt v s f on c)"
  by (simp add: part_ok_def flag_interrupt_ok)

lemma part_ok_vectors:
  assumes "part_ok c"
  shows "ccr0_vector (timers c k) \<le> max_interrupt c" "ccr1_vector (timers c k) \<le> max_interrupt c"
    "nat (interrupt_vector (gpio_ports c p)) \<le> max_interrupt c" "nat (tx_vector (usarts c k)) \<le> max_interrupt c" "nat (rx_vector (usarts c k)) \<le> max_interrupt c"
  using assms by (simp_all add: part_ok_def vectors_ok_def)

lemma max_interrupt_upd [simp]:
  "max_interrupt (upd_timer k f c) = max_interrupt c" "max_interrupt (upd_port p g d) = max_interrupt d" "max_interrupt (upd_usart k h d) = max_interrupt d"
  "max_interrupt (set_sfr r j d) = max_interrupt d" "max_interrupt (msp430_flag_interrupt v s w on e) = max_interrupt e"
  by (simp_all add: upd_timer_def upd_port_def upd_usart_def set_sfr_def msp430_flag_interrupt_def reevaluate_interrupts_def Let_def split: option.split)

subsection \<open>Timers and clock\<close>

lemma sync_timer_vectors [simp]:
  "ccr0_vector (sync_timer c t) = ccr0_vector t" "ccr1_vector (sync_timer c t) = ccr1_vector t"
  "ccr0_vector (reset_timer c t) = ccr0_vector t" "ccr1_vector (reset_timer c t) = ccr1_vector t"
  "ccr0_vector (set_cctl i v t) = ccr0_vector t" "ccr1_vector (set_cctl i v t) = ccr1_vector t"
  "ccr0_vector (clear_counter c t) = ccr0_vector t" "ccr1_vector (clear_counter c t) = ccr1_vector t"
  by (simp_all add: sync_timer_def reset_timer_def set_cctl_def clear_counter_def Let_def)

lemma sync_part_ok [simp]: "part_ok (sync_counter k c) = part_ok c" "part_ok (reset_counter k c) = part_ok c" "part_ok (update_cycles_per_tick k c) = part_ok c"
  by (simp_all add: sync_counter_def reset_counter_def update_cycles_per_tick_def Let_def)

lemma schedule_part_ok [simp]:
  "part_ok (put_ccr_event k i t c) = part_ok c" "part_ok (schedule_capture k i c) = part_ok c" "part_ok (schedule_ccr_event k i c) = part_ok c"
  "part_ok (schedule_overflow_event k c) = part_ok c"
proof -
  show p: "part_ok (put_ccr_event k i t c) = part_ok c" for t c by (simp add: put_ccr_event_def)
  show s: "part_ok (schedule_capture k i c) = part_ok c" by (simp add: schedule_capture_def p Let_def)
  show "part_ok (schedule_ccr_event k i c) = part_ok c" by (simp add: schedule_ccr_event_def s p Let_def split: option.split)
  show "part_ok (schedule_overflow_event k c) = part_ok c" by (simp add: schedule_overflow_event_def Let_def split: option.split)
qed

lemma fold_part_ok: "(\<And>x c. part_ok (f x c) = part_ok c) \<Longrightarrow> part_ok (fold f xs c) = part_ok c"
  by (induction xs arbitrary: c) simp_all

lemma schedule_all_part_ok [simp]: "part_ok (schedule_all_events k c) = part_ok c" "part_ok (cancel_all_events k c) = part_ok c"
  by (simp_all add: schedule_all_events_def cancel_all_events_def fold_part_ok)

lemma flag_vector_part_ok: "part_ok c \<Longrightarrow> v \<le> max_interrupt c \<Longrightarrow> part_ok (flag_vector k v c)"
  by (simp add: flag_vector_def part_ok_flag)

lemma trigger_part_ok: "part_ok c \<Longrightarrow> part_ok (trigger_ccr_interrupt k i c)"
  by (simp add: trigger_ccr_interrupt_def flag_vector_part_ok part_ok_vectors Let_def)

lemma reevaluate_part_ok: "part_ok c \<Longrightarrow> part_ok (reevaluate_tiv k c)"
  by (simp add: reevaluate_tiv_def flag_vector_part_ok part_ok_flag part_ok_vectors Let_def split: option.split)

lemma capture_part_ok: "part_ok c \<Longrightarrow> part_ok (capture_fired k i c)"
  by (simp add: capture_fired_def trigger_part_ok Let_def)

lemma timer_events_part_ok: "part_ok c \<Longrightarrow> part_ok (ccr_event_callback k i c)" "part_ok c \<Longrightarrow> part_ok (overflow_event_callback k c)"
  by (simp_all add: ccr_event_callback_def capture_part_ok trigger_part_ok overflow_event_callback_def
      flag_vector_part_ok part_ok_vectors sync_counter_def Let_def)

lemma timer_writes_part_ok:
  "part_ok c \<Longrightarrow> part_ok (write_ctl k u w v c)" "part_ok c \<Longrightarrow> part_ok (write_counter k u w v c)"
  "part_ok c \<Longrightarrow> part_ok (write_cctl k i u w v c)" "part_ok c \<Longrightarrow> part_ok (write_ccr k i u w v c)"
proof -
  show "part_ok c \<Longrightarrow> part_ok (write_ctl k u w v c)" by (simp add: write_ctl_def Let_def)
  show "part_ok c \<Longrightarrow> part_ok (write_counter k u w v c)" by (simp add: write_counter_def Let_def)
  show "part_ok c \<Longrightarrow> part_ok (write_cctl k i u w v c)"
    by (simp add: write_cctl_def flag_vector_part_ok part_ok_flag reevaluate_part_ok part_ok_vectors Let_def)
  show "part_ok c \<Longrightarrow> part_ok (write_ccr k i u w v c)" by (simp add: write_ccr_def Let_def)
qed

lemma timer_part_ok:
  "part_ok c \<Longrightarrow> part_ok (snd (timer_read k a w c))" "part_ok c \<Longrightarrow> part_ok (snd (timer_iv_read k a w c))"
  "part_ok c \<Longrightarrow> part_ok (timer_write k a v w c)" "part_ok c \<Longrightarrow> part_ok (timer_iv_write k a v w c)" "part_ok c \<Longrightarrow> part_ok (timer_interrupt_handler k vec c)"
  by (simp_all add: timer_read_def timer_iv_read_def timer_write_def timer_iv_write_def timer_interrupt_handler_def timer_writes_part_ok
      reevaluate_part_ok Let_def)

lemma clock_changed_part_ok [simp]: "part_ok (msp430_timer_clock_changed k c) = part_ok c" "part_ok (notify_timers c) = part_ok c"
proof -
  show k: "part_ok (msp430_timer_clock_changed k c) = part_ok c" for k and c :: "'a msp430_part_scheme"
    by (simp add: msp430_timer_clock_changed_def fold_part_ok Let_def)
  show "part_ok (notify_timers c) = part_ok c" by (simp add: notify_timers_def fold_part_ok k)
qed

lemma clock_part_ok [simp]: "part_ok (snd (clock_read a w c)) = part_ok c" "part_ok (clock_write a v w c) = part_ok c"
  by (simp_all add: clock_read_def cs_read_def bcs_read_def clock_write_def cs_write_def bcs_write_def bcs_recalculate_def cs_recalculate_def Let_def)

subsection \<open>Ports and serial interfaces\<close>

text \<open>Chips on the pins and the serial interfaces that keep a predicate.\<close>

definition chips_keep :: "('a msp430_part_scheme \<Rightarrow> bool) \<Rightarrow> 'a msp430_part_scheme part_env \<Rightarrow> bool" where
  "chips_keep P e \<longleftrightarrow>
     (\<forall>f p x y c. P c \<longrightarrow> P (e_output e f p x y c)) \<and> (\<forall>f b c. P c \<longrightarrow> P (e_tx e f b c)) \<and> (\<forall>f b c. P c \<longrightarrow> P (snd (e_spi e f b c))) \<and>
     (\<forall>f s c. P c \<longrightarrow> P (e_dma e f s c))"

lemma gpio_update_part_ok: "part_ok c \<Longrightarrow> part_ok (msp430_gpio_update_interrupt p c)"
  by (simp add: msp430_gpio_update_interrupt_def part_ok_flag part_ok_vectors Let_def)

lemma set_output_part_ok: "chips_keep part_ok e \<Longrightarrow> part_ok c \<Longrightarrow> part_ok (set_output e p v c)"
  by (simp add: set_output_def chips_keep_def Let_def split: option.split)

lemma gpio_part_ok:
  "part_ok c \<Longrightarrow> part_ok (snd (gpio_int_read a w c))" "part_ok c \<Longrightarrow> part_ok (snd (gpio_read a w c))"
  "chips_keep part_ok e \<Longrightarrow> part_ok c \<Longrightarrow> part_ok (gpio_int_write e a v w c)" "chips_keep part_ok e \<Longrightarrow> part_ok c \<Longrightarrow> part_ok (gpio_write e a v w c)"
  "part_ok c \<Longrightarrow> part_ok (gpio_interrupt_handler vec c)"
  by (simp_all add: gpio_int_read_def gpio_read_def gpio_int_write_def gpio_write_def gpio_interrupt_handler_def set_output_part_ok gpio_update_part_ok
      Let_def split: option.split)

lemma usart_update_part_ok: "part_ok c \<Longrightarrow> part_ok (msp430_usart_update_interrupts k c)"
  by (simp add: msp430_usart_update_interrupts_def raise_if_def part_ok_flag part_ok_vectors Let_def split: option.split)

lemma eusci_ifg_vectors [simp]: "tx_vector (set_eusci_ifg f u) = tx_vector u" "rx_vector (set_eusci_ifg f u) = rx_vector u"
  by (simp_all add: set_eusci_ifg_def)

lemma usart_transmit_part_ok:
  assumes "chips_keep part_ok e" "part_ok c"
  shows "part_ok (usart_transmit e k b c)"
proof -
  have "part_ok (snd (spi_transfer e k b c))"
    using assms by (simp add: spi_transfer_def chips_keep_def split_beta Let_def split: option.split)
  thus ?thesis using assms(1)
    by (simp add: usart_transmit_def usart_update_part_ok chips_keep_def split_beta Let_def split: option.split)
qed

lemma usart_part_ok:
  "part_ok c \<Longrightarrow> part_ok (snd (usart_read k a w c))" "chips_keep part_ok e \<Longrightarrow> part_ok c \<Longrightarrow> part_ok (usart_write e k a v w c)"
proof -
  show "part_ok c \<Longrightarrow> part_ok (snd (usart_read k a w c))"
    by (simp add: usart_read_def eusci_iv_read_def usart_rx_read_def usart_update_part_ok Let_def)
  have "part_ok (usci_control k off v c)" if "part_ok c" for off using that by (simp add: usci_control_def usart_update_part_ok Let_def)
  thus "chips_keep part_ok e \<Longrightarrow> part_ok c \<Longrightarrow> part_ok (usart_write e k a v w c)"
    by (simp add: usart_write_def usart_transmit_part_ok usart_update_part_ok Let_def)
qed

lemma part_host_keeps: "chips_keep part_ok e \<Longrightarrow> host_keeps part_ok (part_host e)"
  by (simp add: host_keeps_def part_host_def part_read_def part_write_def part_irq_def part_event_def timer_part_ok usart_part_ok gpio_part_ok
      timer_events_part_ok)

subsection \<open>Whole parts\<close>

lemma vectors_ok_core [simp]:
  "vectors_ok (c\<lparr>reg := r\<rparr>) = vectors_ok c" "vectors_ok (c\<lparr>interrupts_enabled := b\<rparr>) = vectors_ok c" "vectors_ok (c\<lparr>cpu_off := b\<rparr>) = vectors_ok c"
  "vectors_ok (c\<lparr>serviced_interrupt := z\<rparr>) = vectors_ok c" "vectors_ok (c\<lparr>interrupt_source := s\<rparr>) = vectors_ok c"
  "vectors_ok (c\<lparr>interrupt_handler := hs\<rparr>) = vectors_ok c" "vectors_ok (reevaluate_interrupts c) = vectors_ok c" "vectors_ok (no_interrupts c) = vectors_ok c"
  "vectors_ok (c\<lparr>ev_queue := q\<rparr>) = vectors_ok c" "vectors_ok (c\<lparr>next_event_cycle := z\<rparr>) = vectors_ok c" "vectors_ok (spend z c) = vectors_ok c"
  by (simp_all add: vectors_ok_def reevaluate_interrupts_def no_interrupts_def spend_def)

lemma vectors_ok_sr [simp]: "vectors_ok (put_reg i v c) = vectors_ok c" "vectors_ok (handle_pending_interrupts c) = vectors_ok c" "vectors_ok (write_sr v c) = vectors_ok c"
  by (simp_all add: put_reg_def handle_pending_interrupts_def write_sr_def Let_def)

interpretation part_insn: instruction_frame part_ok
proof unfold_locales
  fix c :: "'a msp430_part_scheme" and v
  assume "part_ok c"
  thus "part_ok (write_sr v c)" "part_ok (handle_pending_interrupts c)" "part_ok (c\<lparr>serviced_interrupt := -1\<rparr>)"
    by (simp_all add: part_ok_def irq.f_sr irq.f_pending irq.f_done)
qed (simp_all add: part_ok_defs)

lemma entered_vectors:
  assumes "host_keeps part_ok h" "part_ok c"
  shows "part_ok (snd (snd (entered h ip c)))"
proof -
  have "part_ok (push_return h ip c)" using assms by (simp add: push_return_def part_insn.mem_write_keeps Let_def)
  hence "vectors_ok (push_return h ip c)" "vectors_ok c" using assms(2) by (simp_all add: part_ok_def)
  hence "vectors_ok (snd (snd (entered h ip c)))" unfolding entered_def Let_def by simp
  thus ?thesis by (simp add: part_ok_def entered_ok)
qed

interpretation part: interpreter_frame part_ok
proof unfold_locales
  fix h :: "'a msp430_part_scheme msp430_host" and c :: "'a msp430_part_scheme" and ip
  assume "host_keeps part_ok h" "part_ok c"
  thus "part_ok (service_interrupt h ip c)"
    using entered_vectors [of h c ip] unfolding service_entered by (auto simp: host_keeps_def split: prod.split option.split)
qed

text \<open>
  C31. In every state that a part reaches, core and peripherals together, the highest pending vector that the core keeps is
  exact: nothing pending is above it, and unless it is -1 it is pending itself; while an interrupt is in service no
  further one is enabled. The chips on the pins and serial interfaces are assumed to keep the same facts.
\<close>

theorem part_pending_vector_exact:
  assumes "chips_keep part_ok e" "part_ok cpu" "msp430_step_interpreter (part_host e) n cpu = Some (k, c)"
  shows "(\<forall>i \<le> max_interrupt c. irq_pending c i \<longrightarrow> int i \<le> interrupt_max c) \<and>
    (interrupt_max c \<noteq> -1 \<longrightarrow> 0 \<le> interrupt_max c \<and> nat (interrupt_max c) \<le> max_interrupt c \<and> irq_pending c (nat (interrupt_max c))) \<and>
    (serviced_interrupt c \<noteq> -1 \<longrightarrow> \<not> interrupts_enabled c)"
  using part.interpreter_loop_keeps [OF part_host_keeps [OF assms(1)] assms(2) assms(3) [unfolded msp430_step_interpreter_def]]
  by (auto simp: part_ok_def irq_ok_def irq_exact_def)

end
