(* ===== verification/Msp430_Port_Correct.thy ===== *)
theory Msp430_Port_Correct
  imports Msp430_Part_Correct Msp430_Return_Correct
begin

text \<open>
  Port interrupts are level-triggered: a port requests its interrupt exactly while one of its enabled flags is set,
  through register writes, pin changes, requests of other peripherals and interrupt entries.
\<close>

subsection \<open>Port interrupts\<close>

text \<open>Ports with interrupts have vectors of their own, below reset.\<close>

definition ports_wf :: "'a msp430_part_scheme \<Rightarrow> bool" where
  "ports_wf c \<longleftrightarrow>
     (\<forall>p < gpio_num_ports c. has_interrupt (gpio_ports c p) \<longrightarrow>
        0 \<le> interrupt_vector (gpio_ports c p) \<and> interrupt_vector (gpio_ports c p) < int (max_interrupt c) \<and>
        (\<forall>q < gpio_num_ports c. has_interrupt (gpio_ports c q) \<and> interrupt_vector (gpio_ports c q) = interrupt_vector (gpio_ports c p) \<longrightarrow> q = p))"

definition port_vector :: "'a msp430_part_scheme \<Rightarrow> nat \<Rightarrow> bool" where
  "port_vector c v \<longleftrightarrow> (\<exists>p < gpio_num_ports c. has_interrupt (gpio_ports c p) \<and> interrupt_vector (gpio_ports c p) = int v)"

definition raised :: "'a msp430_part_scheme \<Rightarrow> nat \<Rightarrow> bool" where
  "raised c p \<longleftrightarrow> g_ifg (gpio_ports c p) AND g_ie (gpio_ports c p) \<noteq> 0"

text \<open>What the ports, other requests on other vectors, and interrupt entries with the stack in memory do to a part.\<close>

inductive port_reachable :: "'a msp430_part_scheme part_env \<Rightarrow> 'a msp430_part_scheme \<Rightarrow> bool" for e where
  start: "ports_wf c \<Longrightarrow> (\<And>p. g_ifg (gpio_ports c p) = 0) \<Longrightarrow> (\<And>v. \<not> irq_pending c v) \<Longrightarrow> port_reachable e c"
| int_write: "port_reachable e c \<Longrightarrow> port_reachable e (gpio_int_write e a v w c)"
| plain_write: "port_reachable e c \<Longrightarrow> port_reachable e (gpio_write e a v w c)"
| pin: "port_reachable e c \<Longrightarrow> port_reachable e (msp430_gpio_set_input_pin n i b c)"
| edge: "port_reachable e c \<Longrightarrow> port_reachable e (msp430_gpio_force_irq_edge n i b c)"
| other: "port_reachable e c \<Longrightarrow> \<not> port_vector c v \<Longrightarrow> port_reachable e (msp430_flag_interrupt v src f on c)"
| service: "port_reachable e c \<Longrightarrow> takes_interrupt c \<Longrightarrow> interrupt_max c < int (max_interrupt c) \<Longrightarrow>
    plain c (reg c MSP430_SP - 2) \<Longrightarrow> plain c (reg c MSP430_SP - 4) \<Longrightarrow> port_reachable e (service_interrupt (part_host e) ip c)"

definition level_ok :: "'a msp430_part_scheme \<Rightarrow> bool" where
  "level_ok c \<longleftrightarrow> ports_wf c \<and>
     (\<forall>p < gpio_num_ports c. has_interrupt (gpio_ports c p) \<longrightarrow>
        (irq_pending c (nat (interrupt_vector (gpio_ports c p))) \<longleftrightarrow> raised c p) \<and>
        (raised c p \<longrightarrow> interrupt_handler c (nat (interrupt_vector (gpio_ports c p))) = Some gpio_irq))"

text \<open>Requests outside the ports do not matter.\<close>

definition level_but :: "nat set \<Rightarrow> 'a msp430_part_scheme \<Rightarrow> bool" where
  "level_but A c \<longleftrightarrow> ports_wf c \<and>
     (\<forall>p < gpio_num_ports c. has_interrupt (gpio_ports c p) \<longrightarrow> p \<notin> A \<longrightarrow>
        (irq_pending c (nat (interrupt_vector (gpio_ports c p))) \<longleftrightarrow> raised c p) \<and>
        (raised c p \<longrightarrow> interrupt_handler c (nat (interrupt_vector (gpio_ports c p))) = Some gpio_irq))"

lemma level_but_none: "level_ok c = level_but {} c"
  by (simp add: level_ok_def level_but_def)

lemma ports_wf_vector:
  "ports_wf c \<Longrightarrow> p < gpio_num_ports c \<Longrightarrow> q < gpio_num_ports c \<Longrightarrow> has_interrupt (gpio_ports c p) \<Longrightarrow> has_interrupt (gpio_ports c q) \<Longrightarrow>
   nat (interrupt_vector (gpio_ports c p)) = nat (interrupt_vector (gpio_ports c q)) \<Longrightarrow> p = q"
  by (simp add: ports_wf_def) (metis nat_eq_iff2 nat_0_le)

lemma flag_fields [simp]:
  "gpio_ports (msp430_flag_interrupt v s f on c) = gpio_ports c" "gpio_num_ports (msp430_flag_interrupt v s f on c) = gpio_num_ports c"
  "interrupt_handler (msp430_flag_interrupt v s f on c) = (interrupt_handler c)(v := if on then f else None)"
  "irq_pending (msp430_flag_interrupt v s f on c) i = (if i = v then on else irq_pending c i)"
  by (simp_all add: msp430_flag_interrupt_def reevaluate_interrupts_def irq_pending_def Let_def)

lemma ports_wf_flag [simp]: "ports_wf (msp430_flag_interrupt v s f on c) = ports_wf c"
  by (simp add: ports_wf_def)

lemma raised_flag [simp]: "raised (msp430_flag_interrupt v s f on c) p = raised c p"
  by (simp add: raised_def)

lemma update_level:
  assumes "level_but {p} c" "p < gpio_num_ports c"
  shows "level_ok (msp430_gpio_update_interrupt p c)"
proof (cases "has_interrupt (gpio_ports c p)")
  case True
  let ?d = "msp430_flag_interrupt (nat (interrupt_vector (gpio_ports c p))) gpio_source (if raised c p then Some gpio_irq else None) (raised c p) c"
  have "(irq_pending ?d (nat (interrupt_vector (gpio_ports c q))) \<longleftrightarrow> raised c q) \<and>
      (raised c q \<longrightarrow> interrupt_handler ?d (nat (interrupt_vector (gpio_ports c q))) = Some gpio_irq)"
    if q: "q < gpio_num_ports c" "has_interrupt (gpio_ports c q)" for q
  proof (cases "q = p")
    case False
    hence "nat (interrupt_vector (gpio_ports c q)) \<noteq> nat (interrupt_vector (gpio_ports c p))"
      using ports_wf_vector [of c q p] q True assms by (auto simp: level_but_def)
    thus ?thesis using assms(1) q False by (simp add: level_but_def)
  qed simp
  moreover have "msp430_gpio_update_interrupt p c = ?d" using True by (simp add: msp430_gpio_update_interrupt_def raised_def Let_def)
  ultimately show ?thesis using assms(1) by (simp add: level_ok_def level_but_def)
next
  case False
  thus ?thesis using assms by (auto simp: level_but_def level_ok_def msp430_gpio_update_interrupt_def Let_def)
qed

subsection \<open>Port operations\<close>

lemma upd_port_fields [simp]:
  "gpio_ports (upd_port p f c) q = (if q = p then f (gpio_ports c p) else gpio_ports c q)" "gpio_num_ports (upd_port p f c) = gpio_num_ports c"
  "irq_pending (upd_port p f c) = irq_pending c" "interrupt_handler (upd_port p f c) = interrupt_handler c" "max_interrupt (upd_port p f c) = max_interrupt c"
  by (auto simp: upd_port_def irq_pending_def fun_eq_iff)

lemma ports_wf_upd: "(\<And>q. has_interrupt (f q) = has_interrupt q) \<Longrightarrow> (\<And>q. interrupt_vector (f q) = interrupt_vector q) \<Longrightarrow> ports_wf (upd_port p f c) = ports_wf c"
proof -
  assume a: "\<And>q. has_interrupt (f q) = has_interrupt q" "\<And>q. interrupt_vector (f q) = interrupt_vector q"
  have "has_interrupt (gpio_ports (upd_port p f c) q) = has_interrupt (gpio_ports c q)"
    "interrupt_vector (gpio_ports (upd_port p f c) q) = interrupt_vector (gpio_ports c q)" for q using a by simp_all
  thus ?thesis unfolding ports_wf_def by (simp del: upd_port_fields(1))
qed

lemma level_but_upd:
  assumes "\<And>q. has_interrupt (f q) = has_interrupt q" "\<And>q. interrupt_vector (f q) = interrupt_vector q" "level_ok c"
  shows "level_but {p} (upd_port p f c)"
  using assms(3) ports_wf_upd [of f p c, OF assms(1, 2)] by (auto simp: level_ok_def level_but_def raised_def)

lemma level_ok_upd:
  assumes "\<And>q. has_interrupt (f q) = has_interrupt q" "\<And>q. interrupt_vector (f q) = interrupt_vector q" "\<And>q. g_ifg (f q) = g_ifg q" "\<And>q. g_ie (f q) = g_ie q" "level_ok c"
  shows "level_ok (upd_port p f c)"
  using assms(3-5) ports_wf_upd [of f p c, OF assms(1, 2)] by (auto simp: level_ok_def raised_def assms(1, 2))

lemma port_of_bound: "port_of b a c = Some p \<Longrightarrow> p < gpio_num_ports c"
  by (auto simp: port_of_def find_Some_iff)

lemma update_after:
  assumes "\<And>q. has_interrupt (f q) = has_interrupt q" "\<And>q. interrupt_vector (f q) = interrupt_vector q" "level_ok c" "p < gpio_num_ports c"
  shows "level_ok (msp430_gpio_update_interrupt p (upd_port p f c))"
  using update_level [OF level_but_upd [OF assms(1-3)]] assms(4) by simp

lemma set_output_level: "chips_keep level_ok e \<Longrightarrow> level_ok c \<Longrightarrow> level_ok (set_output e p v c)"
  by (auto simp: set_output_def chips_keep_def level_ok_upd Let_def split: option.split)

lemma gpio_writes_level:
  assumes "chips_keep level_ok e" "level_ok c"
  shows "level_ok (gpio_int_write e a v w c)" "level_ok (gpio_write e a v w c)"
  using assms by (auto simp: gpio_int_write_def gpio_write_def set_output_level level_ok_upd update_after port_of_bound Let_def split: option.split)

lemma gpio_pins_level:
  assumes "level_ok c"
  shows "level_ok (msp430_gpio_set_input_pin n i b c)" "level_ok (msp430_gpio_force_irq_edge n i b c)"
proof -
  show "level_ok (msp430_gpio_force_irq_edge n i b c)"
    using assms by (auto simp: msp430_gpio_force_irq_edge_def update_after Let_def)
  have "level_ok (upd_port p (\<lambda>q. q\<lparr>g_in := (if b then g_in q OR m else g_in q AND NOT m)\<rparr>) c)" for p m using assms by (simp add: level_ok_upd)
  thus "level_ok (msp430_gpio_set_input_pin n i b c)" using assms by (auto simp: msp430_gpio_set_input_pin_def update_after level_ok_upd Let_def)
qed

lemma other_level: "level_ok c \<Longrightarrow> \<not> port_vector c v \<Longrightarrow> level_ok (msp430_flag_interrupt v src f on c)"
  unfolding level_ok_def port_vector_def by (auto simp: ports_wf_def)

subsection \<open>Interrupt entry\<close>

lemma plain_write_frame:
  assumes "plain c a"
  shows "\<exists>m cc be. mem_write h a v True c = c\<lparr>memory := m, compiled_cache := cc, block_exec_count := be\<rparr>"
proof -
  have "\<exists>m. mem_write h a v True c = cache_invalidate a (c\<lparr>memory := m\<rparr>)"
    using assms by (auto simp: plain_def mem_write_def write_word_def Let_def split: option.split)
  then obtain m where m: "mem_write h a v True c = cache_invalidate a (c\<lparr>memory := m\<rparr>)" ..
  let ?d = "cache_invalidate a (c\<lparr>memory := m\<rparr>)"
  have "?d = c\<lparr>memory := m, compiled_cache := compiled_cache ?d, block_exec_count := block_exec_count ?d\<rparr>" by (simp add: cache_invalidate_def)
  thus ?thesis unfolding m by blast
qed

text \<open>An entry below reset takes the request of its vector away and leaves the ports.\<close>

lemma push_return_ports:
  assumes "plain c (reg c MSP430_SP - 2)" "plain c (reg c MSP430_SP - 4)" "d = push_return h ip c"
  shows "gpio_ports d = gpio_ports c \<and> gpio_num_ports d = gpio_num_ports c \<and> interrupt_source d = interrupt_source c \<and>
    interrupt_handler d = interrupt_handler c \<and> max_interrupt d = max_interrupt c"
proof -
  define sp where "sp = reg c MSP430_SP"
  define c1 where "c1 = put_reg MSP430_SP (sp - 2) c"
  have "plain c1 (sp - 2)" using assms(1) by (simp add: c1_def sp_def plain_def put_reg_def resolve_mirror_def)
  then obtain m cc be v where m: "mem_write h (sp - 2) (ip AND 0xffff) True c1 = c1\<lparr>memory := m, compiled_cache := cc, block_exec_count := be\<rparr>"
    using plain_write_frame by blast
  define c2 where "c2 = put_reg MSP430_SP (sp - 4) (c1\<lparr>memory := m, compiled_cache := cc, block_exec_count := be\<rparr>)"
  have "plain c2 (sp - 4)" using assms(2) by (simp add: c2_def c1_def sp_def plain_def put_reg_def resolve_mirror_def)
  then obtain m' cc' be' where "d = c2\<lparr>memory := m', compiled_cache := cc', block_exec_count := be'\<rparr>"
    using plain_write_frame [of c2 "sp - 4" h] unfolding assms(3) push_return_def Let_def sp_def [symmetric] c1_def [symmetric] m c2_def [symmetric] by blast
  thus ?thesis by (simp add: c2_def c1_def put_reg_def)
qed

lemma entered_frame:
  assumes "plain c (reg c MSP430_SP - 2)" "plain c (reg c MSP430_SP - 4)" "vec = nat (interrupt_max c)" "vec < max_interrupt c"
    "entered h ip c = (handler, source, d)"
  shows "handler = interrupt_handler c vec" "gpio_ports d = gpio_ports c" "gpio_num_ports d = gpio_num_ports c" "max_interrupt d = max_interrupt c"
    "interrupt_handler d = (interrupt_handler c)(vec := None)" "irq_pending d i \<longleftrightarrow> i \<noteq> vec \<and> irq_pending c i"
  using push_return_ports [OF assms(1, 2) refl, of h ip] assms(3-5)
  by (auto simp: entered_def Let_def put_reg_def spend_def reevaluate_interrupts_def irq_pending_def split: if_splits)

lemma level_but_entered:
  assumes "level_ok c" "gpio_ports d = gpio_ports c" "gpio_num_ports d = gpio_num_ports c" "max_interrupt d = max_interrupt c"
    "interrupt_handler d = (interrupt_handler c)(vec := None)" "\<And>i. irq_pending d i \<longleftrightarrow> i \<noteq> vec \<and> irq_pending c i"
  shows "level_but {p. interrupt_vector (gpio_ports c p) = int vec} d"
  using assms(1) unfolding level_ok_def level_but_def ports_wf_def raised_def by (auto simp: assms(2-6))

lemma level_timer [simp]: "level_ok (upd_timer k f c) = level_ok c"
  by (simp add: level_ok_def ports_wf_def raised_def irq_pending_def upd_timer_def)

lemma handler_finds:
  assumes "ports_wf d" "p < gpio_num_ports d" "has_interrupt (gpio_ports d p)" "interrupt_vector (gpio_ports d p) = int vec"
  shows "gpio_interrupt_handler vec d = msp430_gpio_update_interrupt p d"
proof -
  have u: "j = p" if "j < gpio_num_ports d" "has_interrupt (gpio_ports d j)" "interrupt_vector (gpio_ports d j) = int vec" for j
    using assms that unfolding ports_wf_def by simp
  have "find (\<lambda>p. has_interrupt (gpio_ports d p) \<and> interrupt_vector (gpio_ports d p) = int vec) [0..<gpio_num_ports d] = Some p"
    unfolding find_Some_iff
  proof (intro exI [of _ p] conjI allI impI)
    fix j
    assume "j < p"
    thus "\<not> (has_interrupt (gpio_ports d ([0..<gpio_num_ports d] ! j)) \<and> interrupt_vector (gpio_ports d ([0..<gpio_num_ports d] ! j)) = int vec)"
      using u [of j] assms(2) by auto
  qed (use assms in simp_all)
  thus ?thesis by (simp add: gpio_interrupt_handler_def)
qed

lemma handler_finds_none: "\<not> port_vector d vec \<Longrightarrow> gpio_interrupt_handler vec d = d"
  by (auto simp: gpio_interrupt_handler_def port_vector_def find_Some_iff split: option.split)

lemma level_complete:
  assumes "level_but {p} d" "irq_pending d (nat (interrupt_vector (gpio_ports d p))) \<longleftrightarrow> raised d p" "\<not> raised d p"
  shows "level_ok d"
  unfolding level_ok_def
proof (intro conjI allI impI)
  fix q
  assume "q < gpio_num_ports d" "has_interrupt (gpio_ports d q)"
  thus "irq_pending d (nat (interrupt_vector (gpio_ports d q))) \<longleftrightarrow> raised d q"
    "raised d q \<Longrightarrow> interrupt_handler d (nat (interrupt_vector (gpio_ports d q))) = Some gpio_irq"
    using assms by (cases "q = p"; simp add: level_but_def)+
qed (use assms(1) in \<open>simp add: level_but_def\<close>)

lemma service_level:
  assumes "level_ok c" "takes_interrupt c" "interrupt_max c < int (max_interrupt c)" "plain c (reg c MSP430_SP - 2)" "plain c (reg c MSP430_SP - 4)"
  shows "level_ok (service_interrupt (part_host e) ip c)"
proof -
  define vec where "vec = nat (interrupt_max c)"
  have vec: "vec < max_interrupt c" using assms(2, 3) by (simp add: vec_def takes_interrupt_def nat_less_iff)
  obtain handler source d where d: "entered (part_host e) ip c = (handler, source, d)" by (metis prod_cases3)
  note f = entered_frame [OF assms(4, 5) vec_def vec d]
  have but: "level_but {p. interrupt_vector (gpio_ports c p) = int vec} d" by (rule level_but_entered [OF assms(1) f(2-6)])
  hence wf: "ports_wf d" by (simp add: level_but_def)
  have s: "service_interrupt (part_host e) ip c = (case handler of None \<Rightarrow> d | Some g \<Rightarrow> part_irq g source vec d)"
    by (simp add: service_entered d vec_def part_host_def [THEN arg_cong, of m_irq] split: option.split)
  show ?thesis
  proof (cases "port_vector c vec")
    case True
    then obtain p where p: "p < gpio_num_ports c" "has_interrupt (gpio_ports c p)" "interrupt_vector (gpio_ports c p) = int vec"
      by (auto simp: port_vector_def)
    have only: "q = p" if "q < gpio_num_ports d" "has_interrupt (gpio_ports d q)" "interrupt_vector (gpio_ports d q) = int vec" for q
      using wf p that f(2, 3) unfolding ports_wf_def by auto
    have but_p: "level_but {p} d" using but only f(2, 3) unfolding level_but_def by auto
    have lv: "irq_pending c vec \<longleftrightarrow> raised c p" "raised c p \<longrightarrow> interrupt_handler c vec = Some gpio_irq" using assms(1) p by (auto simp: level_ok_def)
    show ?thesis
    proof (cases "raised c p")
      case True
      hence "service_interrupt (part_host e) ip c = msp430_gpio_update_interrupt p d"
        using s f(1) lv handler_finds [OF wf, of p vec] p f(2, 3) by (simp add: part_irq_def)
      thus ?thesis using update_level [OF but_p] p(1) f(3) by simp
    next
      case False
      hence "handler = None" using lv f(1) by (auto simp: irq_pending_def)
      moreover have "\<not> irq_pending d vec" "\<not> raised d p" using f(6) False by (simp_all add: raised_def f(2))
      ultimately show ?thesis using s level_complete [OF but_p] p(3) f(2) by simp
    qed
  next
    case False
    hence "level_ok d" using but f(2, 3) unfolding level_but_def level_ok_def port_vector_def by auto
    moreover have "\<not> port_vector d vec" using False f(2, 3) by (simp add: port_vector_def)
    ultimately show ?thesis using s by (auto simp: part_irq_def timer_interrupt_handler_def handler_finds_none split: option.split)
  qed
qed

text \<open>
  C32. The interrupt of a port is level-triggered. In every state reached by register writes, pin changes, requests of other
  peripherals on other vectors and interrupt entries, a port with an interrupt requests it exactly if one of its flags
  is set and enabled: no edge is lost, and serving the interrupt does not clear the request while a flag stays set.
\<close>

theorem port_request_level:
  assumes "port_reachable e c" "chips_keep level_ok e" "p < gpio_num_ports c" "has_interrupt (gpio_ports c p)"
  shows "irq_pending c (nat (interrupt_vector (gpio_ports c p))) \<longleftrightarrow> g_ifg (gpio_ports c p) AND g_ie (gpio_ports c p) \<noteq> 0"
proof -
  have "level_ok c" using assms(1, 2)
  proof (induction rule: port_reachable.induct)
    case (start c)
    thus ?case by (simp add: level_ok_def raised_def)
  qed (simp_all add: gpio_writes_level gpio_pins_level other_level service_level)
  thus ?thesis using assms(3, 4) by (simp add: level_ok_def raised_def)
qed

subsection \<open>Instances\<close>

text \<open>A part with two interrupt ports and nothing on its pins.\<close>

definition still_chips :: "msp430_part part_env" where
  "still_chips = \<lparr>e_output = (\<lambda>_ _ _ _ c. c), e_tx = (\<lambda>_ _ c. c), e_spi = (\<lambda>_ _ c. (-1, c)), e_dma = (\<lambda>_ _ c. c)\<rparr>"

definition port_at :: "u32 \<Rightarrow> int \<Rightarrow> gpio_port" where
  "port_at base vec = \<lparr>g_in = 0, g_out = 0, g_dir = 0, g_ifg = 0, g_ies = 0, g_ie = 0, g_sel = 0, g_base_addr = base, interrupt_vector = vec, has_interrupt = True\<rparr>"

definition no_usart :: msp430_usart where
  "no_usart = \<lparr>us_base_addr = 0x70, tx_offset = 7, rx_offset = 0, us_tx_callback = None, spi_exchange = None, rx_buf = 0, ifg_ptr = None,
     ifg_tx_mask = 0, ifg_rx_mask = 0, ie_ptr = None, ie_tx_mask = 0, ie_rx_mask = 0, tx_vector = 0, rx_vector = 0, is_usci = False, is_eusci = False,
     eusci_ifg = 0, eusci_ie = 0, ucswrst = True, baud_lo = 0, baud_hi = 0, dma_trigger = None, dma_trigger_source = 0\<rparr>"

definition part_a :: msp430_part where
  "part_a = msp430_soc.extend soc_a
     (msp430_part.fields (\<lambda>p. if p = 0 then port_at 0x20 4 else port_at 0x28 1) 2 None (\<lambda>_. 0) (\<lambda>_. no_usart))"

lemma part_a_fields [simp]:
  "gpio_num_ports part_a = 2" "gpio_ports part_a p = (if p = 0 then port_at 0x20 4 else port_at 0x28 1)" "max_interrupt part_a = 15"
  "interrupt_source part_a = (\<lambda>_. 0)" "interrupt_handler part_a = (\<lambda>_. None)" "timers part_a = (\<lambda>_. timer_a)" "usarts part_a = (\<lambda>_. no_usart)"
  "cpu_cycles part_a = 0" "has_jit part_a = False"
  by (auto simp: part_a_def soc_a_def msp430_soc.defs msp430_part.defs msp430_cpu.defs msp430_cpu_init_def)

lemma still_chips_keep: "chips_keep P still_chips"
  by (simp add: chips_keep_def still_chips_def)

theorem port_request_level_witness:
  "irq_pending (msp430_gpio_force_irq_edge 1 3 True part_a) 4 \<and> \<not> irq_pending (msp430_gpio_force_irq_edge 1 3 True part_a) 1"
proof -
  let ?c = "msp430_gpio_force_irq_edge 1 3 True part_a"
  have "port_reachable still_chips part_a"
    by (rule port_reachable.start) (auto simp: ports_wf_def port_at_def irq_pending_def less_Suc_eq numeral_2_eq_2)
  hence r: "port_reachable still_chips ?c" by (rule port_reachable.edge)
  have f: "gpio_num_ports ?c = 2" "gpio_ports ?c 0 = (port_at 0x20 4)\<lparr>g_ie := 8, g_ifg := 8\<rparr>" "gpio_ports ?c 1 = port_at 0x28 1"
    by (simp_all add: msp430_gpio_force_irq_edge_def msp430_gpio_update_interrupt_def port_at_def pin_bit_def)
  show ?thesis using port_request_level [OF r still_chips_keep, of 0] port_request_level [OF r still_chips_keep, of 1]
    unfolding f by (simp add: port_at_def)
qed

text \<open>A part after reset with a limit of six cycles: the reset vector is served and nothing is pending any more.\<close>

theorem part_pending_vector_exact_witness:
  "\<exists>k c. msp430_step_interpreter (part_host still_chips) 1 ((msp430_cpu_reset part_a)\<lparr>cycle_limit := 6\<rparr>) = Some (k, c) \<and>
     (\<forall>i \<le> max_interrupt c. irq_pending c i \<longrightarrow> int i \<le> interrupt_max c) \<and> cpu_cycles c = 6"
proof -
  let ?h = "part_host still_chips" and ?cpu = "(msp430_cpu_reset part_a)\<lparr>cycle_limit := 6\<rparr>"
  let ?c = "service_interrupt ?h (reg ?cpu MSP430_PC) ?cpu"
  have v: "vectors_ok ?cpu"
    by (simp add: vectors_ok_def msp430_cpu_reset_def msp430_flag_interrupt_def cache_clear_all_def no_interrupts_def timer_a_def port_at_def no_usart_def)
  have ok: "part_ok ?cpu" using reset_ok [of part_a] v by (simp add: part_ok_def irq_ok_def irq_exact_def irq_pending_def)
  have f: "takes_interrupt ?cpu" "cpu_cycles ?cpu = 0" "interrupt_max ?cpu = 15" "max_interrupt ?cpu = 15" "interrupt_handler ?cpu 15 = None"
    by (simp_all add: takes_interrupt_def msp430_cpu_reset_def msp430_flag_interrupt_def cache_clear_all_def no_interrupts_def)
  have c: "cpu_cycles ?c = 6" "cycle_limit ?c = 6"
    using f(2-5) by (simp_all add: service_interrupt_def Let_def spend_def no_interrupts_def reevaluate_interrupts_def put_reg_def)
  have "msp430_turn ?h ?cpu = Some (Leave 1 ?c)" using f c unfolding msp430_turn_def by simp
  hence r: "msp430_step_interpreter ?h 1 ?cpu = Some (0, ?c)" by (simp add: msp430_step_interpreter_def interpreter_loop.simps)
  show ?thesis using r c(1) part_pending_vector_exact [OF still_chips_keep ok r] by blast
qed

end
