(* ===== verification/Spec2Isabelle.thy ===== *)
theory Spec2Isabelle
  imports
    Riscv_Correct
    Riscv_Encoding
    Sim_Control_Correct
    Sim_Radio_Bus_Correct
    Cpu_Events_Correct
    Arm_Io_Correct
    Arm_Exception_Correct
    Arm_Thumb_Correct
    Arm_Step_Correct
    Msp430_Shift_Correct
    Msp430_Decode_Correct
    Msp430_Cache_Correct
    Msp430_Step_Correct
    Msp430_Clock_Correct
    Msp430_Port_Correct
begin

text \<open>
  Verification of the core of csim (cooja-ng), a discrete-event simulator of wireless sensor
  networks that runs unmodified firmware on emulated microcontrollers.

  \<^bold>\<open>The program.\<close> A kernel (\<open>src/src/sim/sim_runtime.c\<close>) owns the simulated clock and a binary
  heap of pending events (\<open>src/src/common/sim_event_queue.c\<close>); its pump pops the earliest event,
  moves the clock to it and hands it to the run loop, which executes the mote named in it until
  the mote's next wakeup. Services and scripts observe the kernel (\<open>sim_service.c\<close>) and steer it
  (\<open>sim_control.c\<close>: pause, step, horizon, node mutations, console input). Bytes that a mote's
  radio chip transmits go over the radio bus (\<open>sim_radio_bus.c\<close>), which assembles them into
  frames and delivers them to the receivers that the radio medium (\<open>radio_medium.c\<close>) lets hear
  them. Each mote has an instruction-set emulator with a private, cycle-indexed event list
  (\<open>include/common/event_queue.h\<close>): here the Cortex-M core (\<open>src/src/arm\<close>) with its peripheral
  dispatch, its memory accesses, the TrustZone attribution unit, the interrupt controller,
  SysTick and the Thumb interpreter, the RISC-V coprocessor of the nRF54L15 (\<open>src/src/riscv\<close>), which shares the bus of
  the ARM core, and the MSP430 and MSP430X core (\<open>src/src/msp430\<close>) with its decoder, its cache of compiled blocks and its
  timers, clocks, ports and serial interfaces.

  \<^bold>\<open>Theories and sources.\<close> A component has a model theory and a theory of its properties.

  \<^item> \<open>Cooja_Prelude\<close>: word types, the two collections of simplification rules, facts on lists.
  \<^item> \<open>Sim_Event_Queue\<close> models \<open>sim_event_queue.c\<close>: the heap array, its count, and the index of
    each node's wakeup slot. \<open>Sim_Event_Queue_Correct\<close> states it against a sorted list of
    pending events: the heap and index invariant holds in every reachable queue, popping takes
    the head of the list, draining yields the list, scheduling replaces the node's wakeup, and
    removal of a node filters it out.
  \<^item> \<open>Sim_Runtime\<close> models \<open>sim_runtime.c\<close> and \<open>sim_service.c\<close>; \<open>Sim_Control\<close> models
    \<open>sim_control.c\<close>. \<open>Sim_Runtime_Correct\<close> and \<open>Sim_Control_Correct\<close> show that the pump
    dispatches in time order within its horizon, that it returns under dispatchers that schedule
    ahead of the clock, that a generation bump silences every earlier event of a node, and that
    stepping and the horizon stop the pump exactly where they say.
  \<^item> \<open>Radio_Medium\<close> and \<open>Sim_Radio_Bus\<close> model \<open>radio_medium.c\<close> and \<open>sim_radio_bus.c\<close>; the
    \<open>_Correct\<close> theories show that the frame assembler recognises exactly the 2.4 GHz frames and the
    sub-GHz frames with a one-byte PHR of a byte stream (and misreads those with a two-byte PHR), that
    reception is decided once, from the first byte of a frame, so that one receiver hears all of it or
    nothing, that receive rings are bounded first-in first-out queues under any interleaving of
    queueing, interference and delivery, and that overlapping frames are marked and dropped.
  \<^item> \<open>Riscv_Cpu\<close> models \<open>riscv_cpu.c\<close> and \<open>nrf54l_vpr.c\<close>: fetch with the decompression cache,
    the base, multiply and compressed instructions, traps and interrupts. \<open>Riscv_Encoding\<close> and
    \<open>Riscv_Correct\<close> show that the cache is invisible, that immediates survive encoding and
    decoding, that taking an interrupt and returning from it resumes the interrupted code, that a run to
    a cycle target overshoots by less than a batch, and that it returns when the trap vector is usable.
  \<^item> \<open>Cpu_Events\<close> models the event list and clock conversions every emulated core instantiates
    (\<open>event_queue.h\<close>, \<open>cpu_time.h\<close>); \<open>Cpu_Events_Correct\<close> shows that the list stays sorted, that
    exactly the due events run, in order, under callbacks that schedule ahead of the clock (their own
    event included), and that a frequency change moves no deadline by a cycle or more.
  \<^item> \<open>Arm_Io\<close> models the peripheral lookup of \<open>arm_cpu.c\<close>, the linear scan and the page-hashed
    table; \<open>Arm_Io_Correct\<close> proves them equal for every sequence of regions that end below the end of the
    address space.
  \<^item> \<open>Arm_Core\<close> holds the state of the core and \<open>arm_trustzone.c\<close>; \<open>Arm_Memory\<close> the memory
    accesses of \<open>arm_cpu.c\<close>; \<open>Arm_Core_Correct\<close> shows which accesses the Non-secure state can
    make, that a refused access is undone, and that the fast path agrees with the bus.
  \<^item> \<open>Arm_Nvic\<close> models the interrupt controller with exception entry and return, \<open>Arm_Scs\<close> its
    registers and SysTick. \<open>Arm_Nvic_Correct\<close>, \<open>Arm_Frame\<close> and \<open>Arm_Exception_Correct\<close> show
    that the most urgent exception is dispatched, that the memoised scan is never stale, that
    the Non-secure view changes no Secure configuration and neither sets nor clears the pending
    state of a Secure line, and that returning from an exception restores the interrupted context.
  \<^item> \<open>Arm_Alu\<close>, \<open>Arm_Thumb16\<close>, \<open>Arm_Thumb32\<close> and \<open>Arm_Vfp\<close> model the instruction handlers of
    \<open>arm_cpu.c\<close> and \<open>arm_vfp.c\<close>, one definition per handler label or instruction group; \<open>exec16\<close> and
    \<open>exec32\<close> are the two dispatchers. \<open>Arm_Alu_Correct\<close> shows that compare and condition decide the
    order of words, that the carry instructions compute 64-bit sums and differences and that bit
    fields survive insertion and extraction; \<open>Arm_Thumb_Correct\<close> that POP undoes PUSH, where BL lands,
    that VCMP decides the order of floating-point numbers, and two encodings that run as another instruction.
  \<^item> \<open>Arm_Decode\<close> models \<open>arm_decode.c\<close> and \<open>arm_execute_decoded\<close>, the reference semantics of the
    just-in-time compiler; \<open>Arm_Decode_Correct\<close> proves it equal to the interpreter on every halfword
    the decoder accepts, and that compiled loops stop before the next event.
  \<^item> \<open>Arm_Step\<close> models the interpreter loop (\<open>arm_step_interpreter\<close>): events, sleeping, the fetch
    gate, firmware and ROM traps, IT blocks, precise faults and reset, and the runs to a cycle or
    microsecond target. \<open>Arm_Step_Correct\<close> shows that a Non-secure instruction starts only in a Non-secure granule or at a
    gateway (and that its second halfword is not checked), what IT blocks execute, that a sleeping core with
    an event ahead reaches its target exactly, and which run never returns.
  \<^item> \<open>Msp430_Core\<close> models the state of the MSP430 core, its memory accesses, the cache invalidation, the pending
    vectors and reset of \<open>msp430_cpu.c\<close>; \<open>Msp430_Exec\<close> the instructions of the plain core and the status register,
    \<open>Msp430_Ext\<close> the MSP430X address instructions and the extension word. \<open>Msp430_Alu_Correct\<close> shows that DADD adds
    decimal numbers and that a comparison and a jump decide the order of the operands, \<open>Msp430_Shift_Correct\<close> that the
    multiple shifts iterate the single ones, \<open>Msp430_Irq_Correct\<close> that the recorded vector is always the highest pending
    one (a frame locale over all instructions, instantiated with that invariant), \<open>Msp430_Return_Correct\<close> that RETI undoes
    an interrupt entry.
  \<^item> \<open>Msp430_Decode\<close> models \<open>msp430_decode.c\<close> and \<open>execute_decoded\<close>; \<open>Msp430_Decode_Correct\<close> proves decoded execution,
    with its own ALU switch, equal to the interpreter on two-operand and jump words (symbolic destinations apart),
    \<open>Msp430_Cache_Correct\<close> that no store leaves a stale block.
  \<^item> \<open>Msp430_Step\<close> models the interpreter loop, the loop over compiled blocks and the runs to a target;
    \<open>Msp430_Step_Correct\<close> shows which runs return, where they end, and which never return.
  \<^item> \<open>Msp430_Timer\<close>, \<open>Msp430_Clock\<close> and \<open>Msp430_Ports\<close> model the peripherals of the part (\<open>msp430_timer.c\<close>, \<open>msp430_clock.c\<close>,
    \<open>msp430_gpio.c\<close>, \<open>msp430_usart.c\<close>) as extensions of the core's state; \<open>part_host\<close> is the table of their callbacks.
    \<open>Msp430_Timer_Correct\<close> shows that compare events are scheduled for the first match of the computed counter or the
    cycle after it, that moving the counter's base does not move the counter, that in every run of a timer the vector
    register names its sources in the order of priority, and that up mode misses matches; \<open>Msp430_Clock_Correct\<close> that the
    clocks have the rates their registers select and stay within bounds; \<open>Msp430_Part_Correct\<close> that core and
    peripherals together keep the highest pending vector exact (a second interpretation of the frame locales);
    \<open>Msp430_Port_Correct\<close> that port interrupts are level-triggered.

  \<^bold>\<open>Conventions.\<close> A w-bit unsigned integer of the source is a \<open>w word\<close>; \<open>int\<close> and \<open>int64_t\<close>
  values are integers (cycle counts and nanoseconds stay far from their width); arrays are
  functions of the index; doubles are reals. A callback or a table of function pointers is a
  parameter: a function on the whole state. State that the source reaches through pointers is
  a field of an extensible record, so that a client's record extends its provider's.

  \<^bold>\<open>Bounds and fuel.\<close> Loops with a fixed bound are recursion over it. Loops that need not end (the
  pump, the interpreter loops, a coprocessor step over trapping code, probing a full hash table) are
  \<open>partial_function (option)\<close>: \<open>None\<close> is "does not return", and separate theorems show that
  they return. No fuel is used.

  \<^bold>\<open>Not modelled.\<close> Diagnostics on stderr, environment-variable tracing and the debugger hook of the
  interpreter loop; the rounding of host floating-point arithmetic, which is the parameter \<open>fpu\<close>;
  the code generation of the two just-in-time compilers (machine code emitted through a library; for the MSP430 the
  compiled blocks are the parameter \<open>msp430_jit\<close>); the chip and SoC peripheral models; mote glue, the native-mote loader and
  its sockets and shared objects; services, shell, user interface and file formats; everything
  under \<open>src/lib\<close>, which is third-party.
\<close>

end
